(* ===== verification/Prelude.thy ===== *)
theory Prelude
  imports Complex_Main "HOL-Library.AList" "HOL-Library.Char_ord" "HOL-Library.List_Lexorder"
    "HOL-Library.Multiset"
begin

text \<open>
  What the components share: the JavaScript values the code passes around, the string and
  array operations of the language that it uses, the insertion-ordered \<open>Map\<close> and the
  stable \<open>sort\<close>, each with the laws the component proofs rest on. The laws of the
  ordered map, of sorting by a comparator and of a component that is driven by events are
  locales; the first is interpreted here on association lists, the others by the
  components that bring a comparator or a step function.

  Strings are \<open>string\<close>s holding the UTF-8 bytes of the text (a lone surrogate in its
  generalised three-byte form), so literals read as in the code; \<open>utf16\<close> gives the code
  units JavaScript counts and compares by, \<open>code_points\<close> the list that
  \<open>Array.from\<close> returns. Finite numbers are mathematical reals: rounding of doubles is
  not modelled, the values NaN and the infinities are where the code tests for them
  (type \<open>num\<close>).
\<close>

named_theorems js_simps \<open>evaluation of the language operations on concrete values\<close>

section \<open>Numbers\<close>

text \<open>A JavaScript number where it may fail to be finite.\<close>

datatype num = Fin real | NaN | PInf | NInf

fun is_finite :: "num \<Rightarrow> bool" where
  "is_finite (Fin _) = True"
| "is_finite _ = False"

fun finite_val :: "num \<Rightarrow> real option" where
  "finite_val (Fin x) = Some x"
| "finite_val _ = None"

lemma finite_val_None_iff [simp]: "finite_val n = None \<longleftrightarrow> \<not> is_finite n"
  by (cases n) auto

lemma finite_val_Some_iff [simp]: "finite_val n = Some x \<longleftrightarrow> n = Fin x"
  by (cases n) auto

text \<open>Arithmetic where a result may leave the finite numbers; \<open>Math.max\<close> and \<open>Math.min\<close> with a NaN give NaN.\<close>

fun num_neg :: "num \<Rightarrow> num" where
  "num_neg (Fin a) = Fin (- a)" | "num_neg NaN = NaN" | "num_neg PInf = NInf" | "num_neg NInf = PInf"

fun num_add :: "num \<Rightarrow> num \<Rightarrow> num" where
  "num_add (Fin a) (Fin b) = Fin (a + b)"
| "num_add NaN b = NaN"
| "num_add a NaN = NaN"
| "num_add PInf NInf = NaN"
| "num_add NInf PInf = NaN"
| "num_add PInf b = PInf"
| "num_add NInf b = NInf"
| "num_add (Fin a) b = b"

definition num_sub :: "num \<Rightarrow> num \<Rightarrow> num" where
  "num_sub a b = num_add a (num_neg b)"

text \<open>Multiplication by a number that is finite, and the quotient.\<close>

fun num_scale :: "real \<Rightarrow> num \<Rightarrow> num" where
  "num_scale k (Fin a) = Fin (k * a)"
| "num_scale k NaN = NaN"
| "num_scale k PInf = (if k = 0 then NaN else if 0 < k then PInf else NInf)"
| "num_scale k NInf = (if k = 0 then NaN else if 0 < k then NInf else PInf)"

fun num_div :: "num \<Rightarrow> num \<Rightarrow> num" where
  "num_div (Fin a) (Fin b) = (if b = 0 then (if a = 0 then NaN else if 0 < a then PInf else NInf)
     else Fin (a / b))"
| "num_div NaN b = NaN"
| "num_div a NaN = NaN"
| "num_div (Fin a) b = Fin 0"
| "num_div PInf (Fin b) = (if 0 \<le> b then PInf else NInf)"
| "num_div NInf (Fin b) = (if 0 \<le> b then NInf else PInf)"
| "num_div a b = NaN"

fun js_log :: "num \<Rightarrow> num" where
  "js_log (Fin a) = (if 0 < a then Fin (ln a) else if a = 0 then NInf else NaN)"
| "js_log PInf = PInf" | "js_log NInf = NaN" | "js_log NaN = NaN"

fun num_max :: "num \<Rightarrow> num \<Rightarrow> num" where
  "num_max (Fin a) (Fin b) = Fin (max a b)"
| "num_max NaN b = NaN"
| "num_max a NaN = NaN"
| "num_max PInf b = PInf"
| "num_max a PInf = PInf"
| "num_max NInf b = b"
| "num_max a NInf = a"

fun num_min :: "num \<Rightarrow> num \<Rightarrow> num" where
  "num_min (Fin a) (Fin b) = Fin (min a b)"
| "num_min NaN b = NaN"
| "num_min a NaN = NaN"
| "num_min NInf b = NInf"
| "num_min a NInf = NInf"
| "num_min PInf b = b"
| "num_min a PInf = a"

fun num_plus :: "num \<Rightarrow> real \<Rightarrow> num" where
  "num_plus (Fin a) b = Fin (a + b)"
| "num_plus n b = n"

text \<open>\<open>Math.min\<close> and \<open>Math.max\<close> of a first value and a spread list.\<close>

definition min_of :: "real \<Rightarrow> real list \<Rightarrow> real" where
  "min_of a xs = foldr min xs a"

definition max_of :: "real \<Rightarrow> real list \<Rightarrow> real" where
  "max_of a xs = foldr max xs a"

lemma min_of_simps [simp]: "min_of a [] = a" "min_of a (x # xs) = min x (min_of a xs)"
  by (simp_all add: min_of_def)

lemma max_of_simps [simp]: "max_of a [] = a" "max_of a (x # xs) = max x (max_of a xs)"
  by (simp_all add: max_of_def)

lemma min_of_le: "min_of a xs \<le> a" "x \<in> set xs \<Longrightarrow> min_of a xs \<le> x"
  by (induction xs) (auto simp: min_le_iff_disj)

lemma max_of_ge: "a \<le> max_of a xs" "x \<in> set xs \<Longrightarrow> x \<le> max_of a xs"
  by (induction xs) (auto simp: le_max_iff_disj)

lemma max_of_in: "max_of a xs \<in> insert a (set xs)"
  by (induction xs) (auto simp: max_def)

lemma min_of_in: "min_of a xs \<in> insert a (set xs)"
  by (induction xs) (auto simp: min_def)

text \<open>\<open>Math.round\<close> rounds halves up.\<close>

definition js_round :: "real \<Rightarrow> int" where
  "js_round x = \<lfloor>x + 1/2\<rfloor>"

lemma js_round_of_int [simp]: "js_round (of_int n) = n"
  by (simp add: js_round_def)

lemma js_round_bounds: "x - 1/2 < js_round x" "js_round x \<le> x + 1/2"
  unfolding js_round_def by linarith+

lemma js_round_mono: "x \<le> y \<Longrightarrow> js_round x \<le> js_round y"
  unfolding js_round_def by (rule floor_mono) simp

definition clamp :: "real \<Rightarrow> real \<Rightarrow> real \<Rightarrow> real" where
  "clamp n lo hi = min hi (max lo n)"

lemma clamp_bounds: "lo \<le> hi \<Longrightarrow> lo \<le> clamp n lo hi" "clamp n lo hi \<le> hi"
  by (auto simp: clamp_def)

section \<open>Lists as arrays\<close>

text \<open>\<open>findIndex\<close> (without its \<open>-1\<close>: \<open>None\<close>), \<open>find\<close>, \<open>indexOf\<close>.\<close>

fun find_index :: "('a \<Rightarrow> bool) \<Rightarrow> 'a list \<Rightarrow> nat option" where
  "find_index p [] = None"
| "find_index p (x # xs) = (if p x then Some 0 else map_option Suc (find_index p xs))"

lemma find_index_Some: "find_index p xs = Some i \<Longrightarrow>
    i < length xs \<and> p (xs ! i) \<and> (\<forall>j<i. \<not> p (xs ! j))"
proof (induction xs arbitrary: i)
  case (Cons x xs)
  then show ?case
    by (cases i) (auto split: if_splits simp: less_Suc_eq_0_disj)
qed simp

lemma find_index_None: "find_index p xs = None \<longleftrightarrow> (\<forall>x \<in> set xs. \<not> p x)"
  by (induction xs) auto

lemma find_index_eq_Some [simp]: "x \<in> set xs \<Longrightarrow> \<exists>i. find_index (\<lambda>y. y = x) xs = Some i"
  by (induction xs) auto

text \<open>The indices whose element satisfies a predicate, as a \<open>flatMap\<close> over entries.\<close>

definition indices_where :: "('a \<Rightarrow> bool) \<Rightarrow> 'a list \<Rightarrow> nat list" where
  "indices_where p xs = filter (\<lambda>i. p (xs ! i)) [0..<length xs]"

lemma indices_where_set: "set (indices_where p xs) = {i. i < length xs \<and> p (xs ! i)}"
  by (auto simp: indices_where_def)

lemma indices_where_lt: "i \<in> set (indices_where p xs) \<Longrightarrow> i < length xs"
  by (simp add: indices_where_set)

text \<open>\<open>[...new Set(xs)]\<close>: the first occurrence of each element, in order.\<close>

fun uniq :: "'a list \<Rightarrow> 'a list" where
  "uniq [] = []"
| "uniq (x # xs) = x # filter (\<lambda>y. y \<noteq> x) (uniq xs)"

lemma set_uniq [simp]: "set (uniq xs) = set xs"
  by (induction xs) auto

lemma distinct_uniq [simp]: "distinct (uniq xs)"
  by (induction xs) auto

lemma length_uniq_le: "length (uniq xs) \<le> length xs"
  by (induction xs) (auto intro: order_trans [OF length_filter_le])

lemma uniq_distinct: "distinct xs \<Longrightarrow> uniq xs = xs"
proof (induction xs)
  case (Cons x xs)
  then show ?case by (auto intro: filter_True)
qed simp

text \<open>The same set built by a loop that pushes an element not yet included.\<close>

definition push_new :: "'a list \<Rightarrow> 'a \<Rightarrow> 'a list" where
  "push_new xs x = (if x \<in> set xs then xs else xs @ [x])"

lemma push_new_simps:
  "x \<in> set xs \<Longrightarrow> push_new xs x = xs" "x \<notin> set xs \<Longrightarrow> push_new xs x = xs @ [x]"
  by (simp_all add: push_new_def)

lemma foldl_push_new: "foldl push_new ys xs = ys @ filter (\<lambda>x. x \<notin> set ys) (uniq xs)"
proof (induction xs arbitrary: ys)
  case (Cons x xs)
  show ?case
  proof (cases "x \<in> set ys")
    case True
    have "filter (\<lambda>y. y \<noteq> x \<and> y \<notin> set ys) zs = filter (\<lambda>y. y \<notin> set ys) zs" for zs
      by (rule filter_cong) (use True in auto)
    with True show ?thesis by (simp add: push_new_simps Cons.IH)
  next
    case False
    have "filter (\<lambda>y. y \<noteq> x \<and> y \<notin> set ys) zs = filter (\<lambda>y. y \<notin> set (ys @ [x])) zs" for zs
      by (rule filter_cong) auto
    with False show ?thesis by (simp add: push_new_simps Cons.IH)
  qed
qed simp

lemma foldl_push_new_Nil [simp]: "foldl push_new [] xs = uniq xs"
  by (simp add: foldl_push_new)

text \<open>An array read: out of range is \<open>undefined\<close>.\<close>

definition nth_opt :: "'a list \<Rightarrow> nat \<Rightarrow> 'a option" where
  "nth_opt xs i = (if i < length xs then Some (xs ! i) else None)"

lemma nth_opt_simps [simp]:
  "nth_opt [] i = None" "nth_opt (x # xs) 0 = Some x" "nth_opt (x # xs) (Suc i) = nth_opt xs i"
  by (simp_all add: nth_opt_def)

lemma nth_opt_numeral [simp]: "nth_opt (x # xs) (numeral k) = nth_opt xs (pred_numeral k)"
  by (simp add: numeral_eq_Suc)

lemma nth_opt_Some_iff: "nth_opt xs i = Some x \<longleftrightarrow> i < length xs \<and> xs ! i = x"
  by (auto simp: nth_opt_def)

lemma nth_opt_None_iff: "nth_opt xs i = None \<longleftrightarrow> length xs \<le> i"
  by (auto simp: nth_opt_def)

definition last_opt :: "'a list \<Rightarrow> 'a option" where
  "last_opt xs = (if xs = [] then None else Some (last xs))"

lemma last_opt_simps [simp]: "last_opt [] = None" "last_opt (xs @ [x]) = Some x"
  by (simp_all add: last_opt_def)

definition head_opt :: "'a list \<Rightarrow> 'a option" where
  "head_opt xs = (case xs of [] \<Rightarrow> None | x # _ \<Rightarrow> Some x)"

lemma head_opt_simps [simp]: "head_opt [] = None" "head_opt (x # xs) = Some x"
  by (simp_all add: head_opt_def)

text \<open>\<open>a ?? b\<close>\<close>

definition nullish :: "'a option \<Rightarrow> 'a \<Rightarrow> 'a" where
  "nullish a b = (case a of None \<Rightarrow> b | Some x \<Rightarrow> x)"

lemma nullish_simps [simp]: "nullish None b = b" "nullish (Some x) b = x"
  by (simp_all add: nullish_def)

text \<open>\<open>a ?? b\<close> where \<open>b\<close> may be absent too.\<close>

definition or_else :: "'a option \<Rightarrow> 'a option \<Rightarrow> 'a option" where
  "or_else a b = (case a of None \<Rightarrow> b | Some x \<Rightarrow> Some x)"

lemma or_else_simps [simp]: "or_else None b = b" "or_else (Some x) b = Some x"
  by (simp_all add: or_else_def)

text \<open>The values present in a list with holes.\<close>

definition present :: "'a option list \<Rightarrow> 'a list" where
  "present xs = List.map_filter (\<lambda>x. x) xs"

lemma present_simps [simp]:
  "present [] = []" "present (None # xs) = present xs" "present (Some x # xs) = x # present xs"
  by (simp_all add: present_def)

lemma present_append [simp]: "present (xs @ ys) = present xs @ present ys"
  by (simp add: present_def List.map_filter_def)

lemma set_present: "set (present xs) = {x. Some x \<in> set xs}"
proof (induction xs)
  case (Cons a xs)
  then show ?case by (cases a) auto
qed simp

lemma present_eq_Nil_iff: "present xs = [] \<longleftrightarrow> (\<forall>x \<in> set xs. x = None)"
proof (induction xs)
  case (Cons a xs)
  then show ?case by (cases a) auto
qed simp

section \<open>The insertion-ordered map\<close>

text \<open>
  What the code relies on of \<open>Map\<close>: reading after writing, at most one entry for a key,
  an overwritten key keeps its place and a new one goes to the end.
\<close>

locale ordered_map =
  fixes mget :: "'m \<Rightarrow> 'k \<Rightarrow> 'v option"
    and mput :: "'k \<Rightarrow> 'v \<Rightarrow> 'm \<Rightarrow> 'm"
    and mdel :: "'k \<Rightarrow> 'm \<Rightarrow> 'm"
    and mkeys :: "'m \<Rightarrow> 'k list"
    and wf :: "'m \<Rightarrow> bool"
  assumes get_set: "mget (mput k v m) k' = (if k' = k then Some v else mget m k')"
    and get_del: "mget (mdel k m) k' = (if k' = k then None else mget m k')"
    and get_keys: "mget m k \<noteq> None \<longleftrightarrow> k \<in> set (mkeys m)"
    and keys_set: "mkeys (mput k v m) = (if k \<in> set (mkeys m) then mkeys m else mkeys m @ [k])"
    and wf_distinct: "wf m \<Longrightarrow> distinct (mkeys m)"
    and wf_set: "wf m \<Longrightarrow> wf (mput k v m)"
    and wf_del: "wf m \<Longrightarrow> wf (mdel k m)"
begin

lemma set_keys_set: "set (mkeys (mput k v m)) = insert k (set (mkeys m))"
  by (auto simp: keys_set)

lemma get_set_same [simp]: "mget (mput k v m) k = Some v"
  by (simp add: get_set)

text \<open>A loop that writes one entry per element: its keys are the first occurrences.\<close>

lemma keys_foldl:
  "mkeys (foldl (\<lambda>m x. mput (f x) (g m x) m) m0 xs)
    = mkeys m0 @ filter (\<lambda>k. k \<notin> set (mkeys m0)) (uniq (map f xs))"
proof (induction xs arbitrary: m0)
  case (Cons x xs)
  have "filter (\<lambda>k. k \<notin> set (mkeys m0 @ [f x])) ys
      = filter (\<lambda>k. k \<notin> set (mkeys m0)) (filter (\<lambda>k. k \<noteq> f x) ys)" for ys
    by (auto intro: filter_cong)
  moreover have "filter (\<lambda>k. k \<notin> set (mkeys m0)) (filter (\<lambda>k. k \<noteq> f x) ys)
      = filter (\<lambda>k. k \<notin> set (mkeys m0)) ys" if "f x \<in> set (mkeys m0)" for ys
    using that by (auto intro!: filter_cong)
  ultimately show ?case
    by (simp add: Cons.IH keys_set)
qed simp

lemma wf_foldl: "wf m0 \<Longrightarrow> wf (foldl (\<lambda>m x. mput (f x) (g m x) m) m0 xs)"
  by (induction xs arbitrary: m0) (auto intro: wf_set)

end

type_synonym ('k, 'v) omap = "('k \<times> 'v) list"

definition map_keys :: "('k, 'v) omap \<Rightarrow> 'k list" where
  "map_keys m = map fst m"

definition map_vals :: "('k, 'v) omap \<Rightarrow> 'v list" where
  "map_vals m = map snd m"

definition map_has :: "('k, 'v) omap \<Rightarrow> 'k \<Rightarrow> bool" where
  "map_has m k \<longleftrightarrow> k \<in> set (map fst m)"

definition map_ok :: "('k, 'v) omap \<Rightarrow> bool" where
  "map_ok m \<longleftrightarrow> distinct (map fst m)"

lemma map_ok_Nil [simp]: "map_ok []"
  by (simp add: map_ok_def)

lemma map_keys_update:
  "map_keys (AList.update k v m) = (if k \<in> set (map_keys m) then map_keys m else map_keys m @ [k])"
  by (induction m) (auto simp: map_keys_def)

interpretation omap: ordered_map map_of AList.update AList.delete map_keys map_ok
proof unfold_locales
  fix k k' :: 'a and v :: 'b and m :: "('a, 'b) omap"
  show "map_of (AList.update k v m) k' = (if k' = k then Some v else map_of m k')"
    by (simp add: update_conv)
  show "map_of (AList.delete k m) k' = (if k' = k then None else map_of m k')"
    by (simp add: delete_conv)
  show "map_of m k \<noteq> None \<longleftrightarrow> k \<in> set (map_keys m)"
    by (auto simp: map_keys_def map_of_eq_None_iff)
  show "map_keys (AList.update k v m)
      = (if k \<in> set (map_keys m) then map_keys m else map_keys m @ [k])"
    by (rule map_keys_update)
  show "distinct (map_keys m)" if "map_ok m"
    using that by (simp add: map_ok_def map_keys_def)
  show "map_ok (AList.update k v m)" if "map_ok m"
    using that by (simp add: map_ok_def distinct_update)
  show "map_ok (AList.delete k m)" if "map_ok m"
    using that by (simp add: map_ok_def distinct_delete)
qed

lemma map_has_iff [simp]: "map_has m k \<longleftrightarrow> map_of m k \<noteq> None"
  by (auto simp: map_has_def map_of_eq_None_iff)

text \<open>\<open>Object.fromEntries\<close>, and \<open>new Map\<close> of a list of entries.\<close>

definition from_entries :: "('k \<times> 'v) list \<Rightarrow> ('k, 'v) omap" where
  "from_entries es = foldl (\<lambda>m e. AList.update (fst e) (snd e) m) [] es"

lemma from_entries_ok [simp]: "map_ok (from_entries es)"
  unfolding from_entries_def by (rule omap.wf_foldl) simp

lemma keys_from_entries: "map_keys (from_entries es) = uniq (map fst es)"
  unfolding from_entries_def by (subst omap.keys_foldl) (simp add: map_keys_def filter_True)

lemma get_from_entries: "map_of (from_entries es) k = map_of (rev es) k"
  unfolding from_entries_def
  by (induction es rule: rev_induct) (auto simp: update_conv)

lemma from_entries_distinct:
  assumes "distinct (map fst es)"
  shows "from_entries es = es"
proof -
  have "AList.update k v m = m @ [(k, v)]" if "k \<notin> fst ` set m" for k :: 'a and v :: 'b and m
    using that by (induction m) auto
  then show ?thesis
    using assms unfolding from_entries_def
    by (induction es rule: rev_induct) auto
qed

section \<open>Stable sorting by a comparator\<close>

text \<open>
  \<open>xs.sort(cmp)\<close> with \<open>le a b\<close> for \<open>cmp(a, b) <= 0\<close>: insertion from the right, so
  elements that compare equal keep their order.
\<close>

fun insert_by :: "('a \<Rightarrow> 'a \<Rightarrow> bool) \<Rightarrow> 'a \<Rightarrow> 'a list \<Rightarrow> 'a list" where
  "insert_by le x [] = [x]"
| "insert_by le x (y # ys) = (if le x y then x # y # ys else y # insert_by le x ys)"

definition sort_by :: "('a \<Rightarrow> 'a \<Rightarrow> bool) \<Rightarrow> 'a list \<Rightarrow> 'a list" where
  "sort_by le xs = foldr (insert_by le) xs []"

lemma sort_by_simps [simp]:
  "sort_by le [] = []" "sort_by le (x # xs) = insert_by le x (sort_by le xs)"
  by (simp_all add: sort_by_def)

lemma mset_insert_by [simp]: "mset (insert_by le x xs) = add_mset x (mset xs)"
  by (induction xs) auto

lemma mset_sort_by [simp]: "mset (sort_by le xs) = mset xs"
  by (induction xs) auto

lemma set_insert_by [simp]: "set (insert_by le x xs) = insert x (set xs)"
  by (metis mset_insert_by set_mset_add_mset_insert set_mset_mset)

lemma set_sort_by [simp]: "set (sort_by le xs) = set xs"
  by (metis mset_sort_by set_mset_mset)

lemma length_sort_by [simp]: "length (sort_by le xs) = length xs"
  by (metis mset_sort_by size_mset)

lemma distinct_sort_by [simp]: "distinct (sort_by le xs) = distinct xs"
  by (metis mset_sort_by mset_eq_imp_distinct_iff)

lemma sort_by_eq_Nil_iff [simp]: "sort_by le xs = [] \<longleftrightarrow> xs = []"
  by (metis length_0_conv length_sort_by)

text \<open>A comparator that orders: total and transitive.\<close>

locale comparator =
  fixes le :: "'a \<Rightarrow> 'a \<Rightarrow> bool"
  assumes total: "le a b \<or> le b a"
    and trans: "le a b \<Longrightarrow> le b c \<Longrightarrow> le a c"
begin

lemma refl: "le a a"
  using total [of a a] by simp

lemma sorted_insert_by: "sorted_wrt le xs \<Longrightarrow> sorted_wrt le (insert_by le x xs)"
proof (induction xs)
  case (Cons y ys)
  show ?case
  proof (cases "le x y")
    case True
    with Cons.prems show ?thesis by (auto intro: trans)
  next
    case False
    then have "le y x" using total by blast
    with False Cons show ?thesis by auto
  qed
qed simp

lemma sorted_sort_by: "sorted_wrt le (sort_by le xs)"
  by (induction xs) (auto intro: sorted_insert_by)

text \<open>Stability: elements that compare equal keep their order.\<close>

lemma filter_insert_by:
  assumes "\<And>a b. P a \<Longrightarrow> P b \<Longrightarrow> le a b"
  shows "filter P (insert_by le x xs) = (if P x then x # filter P xs else filter P xs)"
  by (induction xs) (auto dest: assms)

lemma sort_by_stable:
  assumes "\<And>a b. P a \<Longrightarrow> P b \<Longrightarrow> le a b"
  shows "filter P (sort_by le xs) = filter P xs"
  by (induction xs) (auto simp: filter_insert_by [OF assms])

lemma sort_by_id: "sorted_wrt le xs \<Longrightarrow> sort_by le xs = xs"
proof (induction xs)
  case (Cons x xs)
  then show ?case by (cases xs) auto
qed simp

lemma sort_by_first: "xs \<noteq> [] \<Longrightarrow> x \<in> set xs \<Longrightarrow> le (hd (sort_by le xs)) x"
proof -
  assume "xs \<noteq> []" "x \<in> set xs"
  then obtain y ys where y: "sort_by le xs = y # ys"
    by (cases "sort_by le xs") auto
  moreover have "x \<in> set (y # ys)"
    using \<open>x \<in> set xs\<close> y by (metis set_sort_by)
  ultimately show ?thesis
    using sorted_sort_by [of xs] by (auto intro: refl)
qed

lemma sort_by_last: "xs \<noteq> [] \<Longrightarrow> x \<in> set xs \<Longrightarrow> le x (last (sort_by le xs))"
proof -
  assume ne: "xs \<noteq> []" and x: "x \<in> set xs"
  then obtain ys y where y: "sort_by le xs = ys @ [y]"
    by (metis rev_exhaust sort_by_eq_Nil_iff)
  moreover have "x \<in> set (ys @ [y])"
    using x y by (metis set_sort_by)
  ultimately show ?thesis
    using sorted_sort_by [of xs] by (auto intro: refl simp: sorted_wrt_append)
qed

end

text \<open>A comparator that is also antisymmetric: the sorted list depends on the elements only.\<close>

locale strict_comparator = comparator +
  assumes antisym: "le a b \<Longrightarrow> le b a \<Longrightarrow> a = b"
begin

lemma sorted_unique:
  "sorted_wrt le xs \<Longrightarrow> sorted_wrt le ys \<Longrightarrow> mset xs = mset ys \<Longrightarrow> xs = ys"
proof (induction xs arbitrary: ys)
  case (Cons x xs)
  then obtain y ys' where ys: "ys = y # ys'"
    by (cases ys) auto
  have "y \<in> set (x # xs)" "x \<in> set ys"
    using Cons.prems(3) ys by (metis list.set_intros(1) set_mset_mset)+
  then have "x = y"
    using Cons.prems ys by (auto intro: antisym)
  with Cons ys show ?case by auto
qed simp

lemma sort_by_perm: "mset xs = mset ys \<Longrightarrow> sort_by le xs = sort_by le ys"
  by (rule sorted_unique) (simp_all add: sorted_sort_by)

end

interpretation real_le: strict_comparator "(\<le>) :: real \<Rightarrow> real \<Rightarrow> bool"
  by unfold_locales auto

text \<open>Sorting by a numeric key, \<open>(a, b) => key(a) - key(b)\<close>.\<close>

definition key_le :: "('a \<Rightarrow> real) \<Rightarrow> 'a \<Rightarrow> 'a \<Rightarrow> bool" where
  "key_le f a b \<longleftrightarrow> f a \<le> f b"

interpretation key_le: comparator "key_le f"
  by unfold_locales (auto simp: key_le_def)

section \<open>Components driven by events\<close>

text \<open>
  A component whose state changes by handling one event at a time. The lemmas lift what
  one step keeps to any sequence of events.
\<close>

locale event_machine =
  fixes step :: "'s \<Rightarrow> 'e \<Rightarrow> 's"
    and inv :: "'s \<Rightarrow> bool"
  assumes inv_step: "inv s \<Longrightarrow> inv (step s e)"
begin

lemma inv_run: "inv s \<Longrightarrow> inv (foldl step s es)"
  by (induction es arbitrary: s) (auto intro: inv_step)

lemma frame_run:
  assumes "\<And>s e. inv s \<Longrightarrow> e \<in> set es \<Longrightarrow> f (step s e) = f s" and "inv s"
  shows "f (foldl step s es) = f s"
  using assms
proof (induction es arbitrary: s)
  case (Cons e es)
  then have "f (foldl step (step s e) es) = f (step s e)"
    by (intro Cons.IH) (auto intro: inv_step)
  with Cons.prems show ?case by simp
qed simp

end

section \<open>Results\<close>

text \<open>A thrown \<open>Error\<close> with its message, or a value.\<close>

type_synonym 'a result = "string + 'a"

definition guard_err :: "bool \<Rightarrow> string \<Rightarrow> 'a result \<Rightarrow> 'a result" where
  "guard_err bad msg k = (if bad then Inl msg else k)"

lemma guard_err_simps [simp]:
  "guard_err True msg k = Inl msg" "guard_err False msg k = k"
  by (simp_all add: guard_err_def)

lemma guard_err_Inr_iff [simp]: "guard_err bad msg k = Inr x \<longleftrightarrow> \<not> bad \<and> k = Inr x"
  by (simp add: guard_err_def)

text \<open>Steps that may throw, in order: the first error is the result.\<close>

fun collect_results :: "'a result list \<Rightarrow> 'a list result" where
  "collect_results [] = Inr []"
| "collect_results (r # rs) = (case r of Inl e \<Rightarrow> Inl e
     | Inr x \<Rightarrow> (case collect_results rs of Inl e \<Rightarrow> Inl e | Inr xs \<Rightarrow> Inr (x # xs)))"

lemma collect_results_ok: "collect_results rs = Inr xs \<longleftrightarrow> rs = map Inr xs"
proof (induction rs arbitrary: xs)
  case (Cons r rs)
  show ?case
  proof (cases "\<exists>ys. rs = map Inr ys")
    case True
    then obtain ys where ys: "rs = map Inr ys" ..
    then have "collect_results rs = Inr ys" using Cons.IH by blast
    with ys show ?thesis by (cases r; cases xs) (simp_all add: inj_map_eq_map)
  next
    case False
    then have "collect_results rs \<noteq> Inr ys" for ys using Cons.IH by blast
    then obtain e where "collect_results rs = Inl e" by (cases "collect_results rs") auto
    with False show ?thesis by (cases r; cases xs) simp_all
  qed
qed auto

lemma collect_results_error: "collect_results rs = Inl e \<Longrightarrow> Inl e \<in> set rs"
  by (induction rs) (auto split: sum.splits)

definition bind_result :: "'a result \<Rightarrow> ('a \<Rightarrow> 'b result) \<Rightarrow> 'b result" where
  "bind_result r f = (case r of Inl e \<Rightarrow> Inl e | Inr x \<Rightarrow> f x)"

lemma bind_result_simps [simp]:
  "bind_result (Inl e) f = Inl e" "bind_result (Inr x) f = f x"
  by (simp_all add: bind_result_def)

lemma bind_result_Inr: "bind_result r f = Inr y \<longleftrightarrow> (\<exists>x. r = Inr x \<and> f x = Inr y)"
  by (cases r) auto

lemma bind_result_Inl: "bind_result r f = Inl e \<longleftrightarrow> r = Inl e \<or> (\<exists>x. r = Inr x \<and> f x = Inl e)"
  by (cases r) auto

text \<open>All of a list that passes a check, or None.\<close>

definition all_some :: "('a \<Rightarrow> 'b option) \<Rightarrow> 'a list \<Rightarrow> 'b list option" where
  "all_some f xs = (if list_all (\<lambda>x. f x \<noteq> None) xs then Some (map (\<lambda>x. the (f x)) xs) else None)"

lemma all_some_mem: "all_some f xs = Some ys \<Longrightarrow> y \<in> set ys \<Longrightarrow> \<exists>x \<in> set xs. f x = Some y"
  by (fastforce simp: all_some_def list_all_iff split: if_splits)

end
