(* ===== verification/Js_Text.thy ===== *)
theory Js_Text
  imports Prelude
begin

text \<open>
  Strings: the code units and code points of a string, its prefixes, decimal digits and
  the printing of integers, and the JSON values that cross the component boundaries
  (\<open>unknown\<close> in the code).
\<close>

section \<open>Code units and code points\<close>

definition byte :: "char \<Rightarrow> nat" where
  "byte c = of_char c"

text \<open>\<open>Array.from(s)\<close>: the string cut before every byte that starts a code point.\<close>

definition is_cont :: "char \<Rightarrow> bool" where
  "is_cont c \<longleftrightarrow> 128 \<le> byte c \<and> byte c < 192"

fun code_points :: "string \<Rightarrow> string list" where
  "code_points [] = []"
| "code_points (c # s) =
    (case code_points s of
       [] \<Rightarrow> [[c]]
     | p # ps \<Rightarrow> (case p of [] \<Rightarrow> [c] # ps
                 | d # _ \<Rightarrow> if is_cont d then (c # p) # ps else [c] # p # ps))"

text \<open>\<open>s.length\<close>: one unit for a code point of up to three bytes, two for four bytes.\<close>

fun js_length :: "string \<Rightarrow> nat" where
  "js_length [] = 0"
| "js_length (c # s) =
    (if is_cont c then 0 else if 240 \<le> byte c then 2 else 1) + js_length s"

definition char_count :: "string \<Rightarrow> nat" where
  "char_count s = length (code_points s)"

lemma concat_code_points [simp]: "concat (code_points s) = s"
  by (induction s) (auto split: list.splits)

lemma code_points_nonempty: "p \<in> set (code_points s) \<Longrightarrow> p \<noteq> []"
  by (induction s arbitrary: p) (auto split: list.splits if_splits)

lemma code_points_eq_Nil_iff [simp]: "code_points s = [] \<longleftrightarrow> s = []"
  by (cases s) (auto split: list.splits)

lemma code_points_ascii: "\<forall>c \<in> set s. byte c < 128 \<Longrightarrow> code_points s = map (\<lambda>c. [c]) s"
proof (induction s)
  case (Cons c s)
  then show ?case by (cases s) (auto simp: is_cont_def)
qed simp

lemma js_length_ascii: "\<forall>c \<in> set s. byte c < 128 \<Longrightarrow> js_length s = length s"
  by (induction s) (auto simp: is_cont_def)

lemma js_length_append [simp]: "js_length (s @ t) = js_length s + js_length t"
  by (induction s) auto

fun split_char :: "char \<Rightarrow> string \<Rightarrow> string list" where
  "split_char c [] = [[]]"
| "split_char c (d # s) = (if d = c then [] # split_char c s
     else (case split_char c s of p # ps \<Rightarrow> (d # p) # ps | [] \<Rightarrow> [[d]]))"

lemma split_char_nonempty [simp]: "split_char c s \<noteq> []"
  by (induction s) (auto split: list.splits)

text \<open>The UTF-16 code units, which \<open><\<close> and \<open>>\<close> compare.\<close>

definition units_of :: "nat \<Rightarrow> nat list" where
  "units_of cp = (if cp < 65536 then [cp]
     else [55296 + (cp - 65536) div 1024, 56320 + (cp - 65536) mod 1024])"

definition cp_of :: "string \<Rightarrow> nat" where
  "cp_of p = (case p of
      [] \<Rightarrow> 0
    | c # r \<Rightarrow> foldl (\<lambda>n d. n * 64 + (byte d - 128))
        (if byte c < 128 then byte c else if byte c < 224 then byte c - 192
         else if byte c < 240 then byte c - 224 else byte c - 240) r)"

definition utf16 :: "string \<Rightarrow> nat list" where
  "utf16 s = concat (map (\<lambda>p. units_of (cp_of p)) (code_points s))"

lemma utf16_ascii: "\<forall>c \<in> set s. byte c < 128 \<Longrightarrow> utf16 s = map byte s"
proof -
  assume a: "\<forall>c \<in> set s. byte c < 128"
  then have "utf16 s = concat (map (\<lambda>c. units_of (cp_of [c])) s)"
    by (simp add: utf16_def code_points_ascii o_def)
  also have "\<dots> = map byte s"
    using a by (induction s) (auto simp: units_of_def cp_of_def)
  finally show ?thesis .
qed

text \<open>The comparison \<open>a < b ? -1 : a > b ? 1 : 0\<close>, at most zero.\<close>

definition str_le :: "string \<Rightarrow> string \<Rightarrow> bool" where
  "str_le a b \<longleftrightarrow> utf16 a \<le> utf16 b"

interpretation str_le: comparator str_le
  by unfold_locales (auto simp: str_le_def)

section \<open>String operations\<close>

text \<open>What \<open>trim\<close> strips; a string is blank when nothing is left of it.\<close>

definition js_space :: "nat \<Rightarrow> bool" where
  "js_space cp \<longleftrightarrow> 9 \<le> cp \<and> cp \<le> 13 \<or> 8192 \<le> cp \<and> cp \<le> 8202
     \<or> cp = 32 \<or> cp = 160 \<or> cp = 5760 \<or> cp = 8232 \<or> cp = 8233 \<or> cp = 8239 \<or> cp = 8287
     \<or> cp = 12288 \<or> cp = 65279"

definition js_trim :: "string \<Rightarrow> string" where
  "js_trim s = (let drop_sp = dropWhile (\<lambda>p. js_space (cp_of p))
     in concat (rev (drop_sp (rev (drop_sp (code_points s))))))"

definition not_blank :: "string \<Rightarrow> bool" where
  "not_blank s \<longleftrightarrow> list_ex (\<lambda>p. \<not> js_space (cp_of p)) (code_points s)"

definition starts_with :: "string \<Rightarrow> string \<Rightarrow> bool" where
  "starts_with s p \<longleftrightarrow> take (length p) s = p"

lemma starts_with_simps [simp]:
  "starts_with s []" "starts_with [] (c # p) = False"
  "starts_with (d # s) (c # p) \<longleftrightarrow> d = c \<and> starts_with s p"
  by (auto simp: starts_with_def)

fun join :: "string \<Rightarrow> string list \<Rightarrow> string" where
  "join sep [] = []"
| "join sep [x] = x"
| "join sep (x # y # ys) = x @ sep @ join sep (y # ys)"

definition str_in :: "string \<Rightarrow> string list \<Rightarrow> bool" where
  "str_in s xs \<longleftrightarrow> s \<in> set xs"

lemma str_in_simps [simp]: "str_in s [] = False" "str_in s (x # xs) \<longleftrightarrow> s = x \<or> str_in s xs"
  by (auto simp: str_in_def)

definition ends_with :: "string \<Rightarrow> string \<Rightarrow> bool" where
  "ends_with s p \<longleftrightarrow> starts_with (rev s) (rev p)"

text \<open>\<open>slice(a, b)\<close>: a negative bound counts from the end.\<close>

definition js_slice :: "'a list \<Rightarrow> int \<Rightarrow> int \<Rightarrow> 'a list" where
  "js_slice xs a b =
    (let n = int (length xs);
         lo = (if a < 0 then max 0 (n + a) else min a n);
         hi = (if b < 0 then max 0 (n + b) else min b n)
     in take (nat (hi - lo)) (drop (nat lo) xs))"

definition index_of_char :: "char \<Rightarrow> string \<Rightarrow> int" where
  "index_of_char c s = (case find_index (\<lambda>d. d = c) s of None \<Rightarrow> -1 | Some i \<Rightarrow> int i)"

definition last_index_of_char :: "char \<Rightarrow> string \<Rightarrow> int" where
  "last_index_of_char c s =
    (case find_index (\<lambda>d. d = c) (rev s) of None \<Rightarrow> -1 | Some i \<Rightarrow> int (length s) - 1 - int i)"

definition is_digit :: "char \<Rightarrow> bool" where
  "is_digit c \<longleftrightarrow> 48 \<le> byte c \<and> byte c \<le> 57"

definition is_lower :: "char \<Rightarrow> bool" where
  "is_lower c \<longleftrightarrow> 97 \<le> byte c \<and> byte c \<le> 122"

definition is_upper :: "char \<Rightarrow> bool" where
  "is_upper c \<longleftrightarrow> 65 \<le> byte c \<and> byte c \<le> 90"

text \<open>The case folding of a pattern with the flag \<open>i\<close>: ASCII letters only.\<close>

definition ascii_lower :: "string \<Rightarrow> string" where
  "ascii_lower s = map (\<lambda>c. if is_upper c then char_of (byte c + 32) else c) s"

definition digit_val :: "char \<Rightarrow> nat" where
  "digit_val c = byte c - 48"

definition digit_char :: "nat \<Rightarrow> char" where
  "digit_char d = char_of (48 + d)"

definition nat_of_digits :: "string \<Rightarrow> nat" where
  "nat_of_digits s = foldl (\<lambda>n c. 10 * n + digit_val c) 0 s"

fun show_nat :: "nat \<Rightarrow> string" where
  "show_nat n = (if n < 10 then [digit_char n] else show_nat (n div 10) @ [digit_char (n mod 10)])"

declare show_nat.simps [simp del]

definition show_int :: "int \<Rightarrow> string" where
  "show_int i = (if i < 0 then ''-'' @ show_nat (nat (- i)) else show_nat (nat i))"

lemma byte_digit_char [simp]: "d < 10 \<Longrightarrow> byte (digit_char d) = 48 + d"
  by (simp add: byte_def digit_char_def)

lemma is_digit_digit_char [simp]: "d < 10 \<Longrightarrow> is_digit (digit_char d)"
  by (simp add: is_digit_def)

lemma digit_val_digit_char [simp]: "d < 10 \<Longrightarrow> digit_val (digit_char d) = d"
  by (simp add: digit_val_def)

lemma show_nat_digits: "list_all is_digit (show_nat n)"
proof (induction n rule: show_nat.induct)
  case (1 n)
  then show ?case by (subst show_nat.simps) auto
qed

lemma show_nat_nonempty [simp]: "show_nat n \<noteq> []"
  by (subst show_nat.simps) simp

lemma nat_of_digits_snoc: "nat_of_digits (s @ [c]) = 10 * nat_of_digits s + digit_val c"
  by (simp add: nat_of_digits_def)

text \<open>Printing a natural number and reading its digits back.\<close>

lemma nat_of_digits_show_nat [simp]: "nat_of_digits (show_nat n) = n"
proof (induction n rule: show_nat.induct)
  case (1 n)
  show ?case
  proof (cases "n < 10")
    case True
    then show ?thesis by (subst show_nat.simps) (simp add: nat_of_digits_def)
  next
    case False
    with "1.IH" have "nat_of_digits (show_nat (n div 10)) = n div 10" by simp
    with False show ?thesis
      by (subst show_nat.simps) (simp add: nat_of_digits_snoc)
  qed
qed

lemma show_nat_inject: "show_nat m = show_nat n \<longleftrightarrow> m = n"
  by (metis nat_of_digits_show_nat)

text \<open>The characters outside ASCII that the code prints, as their UTF-8 bytes.\<close>

definition em_dash :: string where "em_dash = [CHR 0xE2, CHR 0x80, CHR 0x94]"
definition en_dash :: string where "en_dash = [CHR 0xE2, CHR 0x80, CHR 0x93]"
definition minus_sign :: string where "minus_sign = [CHR 0xE2, CHR 0x88, CHR 0x92]"
definition infinity_sign :: string where "infinity_sign = [CHR 0xE2, CHR 0x88, CHR 0x9E]"
definition times_sign :: string where "times_sign = [CHR 0xC3, CHR 0x97]"
definition middot :: string where "middot = [CHR 0xC2, CHR 0xB7]"
definition ellipsis :: string where "ellipsis = [CHR 0xE2, CHR 0x80, CHR 0xA6]"
definition ge_sign :: string where "ge_sign = [CHR 0xE2, CHR 0x89, CHR 0xA5]"
definition micro_sign :: string where "micro_sign = [CHR 0xC2, CHR 0xB5]"
definition glyph_circle :: string where "glyph_circle = [CHR 0xE2, CHR 0x97, CHR 0x8F]"
definition glyph_square :: string where "glyph_square = [CHR 0xE2, CHR 0x96, CHR 0xA0]"
definition glyph_diamond :: string where "glyph_diamond = [CHR 0xE2, CHR 0x97, CHR 0x86]"
definition glyph_ring :: string where "glyph_ring = [CHR 0xE2, CHR 0x97, CHR 0x8B]"

section \<open>JSON values\<close>

text \<open>
  A value of type \<open>unknown\<close> that came out of JSON. A missing property is \<open>None\<close>.
\<close>

datatype json =
    JNull
  | JBool bool
  | JNum num
  | JStr string
  | JArr "json list"
  | JObj "(string \<times> json) list"

fun jget :: "string \<Rightarrow> json \<Rightarrow> json option" where
  "jget k (JObj kvs) = map_of kvs k"
| "jget k _ = None"

fun as_obj :: "json \<Rightarrow> (string \<times> json) list option" where
  "as_obj (JObj kvs) = Some kvs"
| "as_obj _ = None"

fun as_arr :: "json \<Rightarrow> json list option" where
  "as_arr (JArr xs) = Some xs"
| "as_arr _ = None"

fun as_str :: "json \<Rightarrow> string option" where
  "as_str (JStr s) = Some s"
| "as_str _ = None"

fun as_num :: "json \<Rightarrow> num option" where
  "as_num (JNum n) = Some n"
| "as_num _ = None"

fun as_bool :: "json \<Rightarrow> bool option" where
  "as_bool (JBool b) = Some b"
| "as_bool _ = None"

definition jstr :: "string \<Rightarrow> json \<Rightarrow> string option" where
  "jstr k v = Option.bind (jget k v) as_str"

definition jarr :: "string \<Rightarrow> json \<Rightarrow> json list option" where
  "jarr k v = Option.bind (jget k v) as_arr"

definition is_obj :: "json \<Rightarrow> bool" where
  "is_obj v \<longleftrightarrow> as_obj v \<noteq> None"

text \<open>\<open>Boolean(v)\<close> of a property that may be missing.\<close>

fun truthy :: "json option \<Rightarrow> bool" where
  "truthy None = False"
| "truthy (Some JNull) = False"
| "truthy (Some (JBool b)) = b"
| "truthy (Some (JNum n)) = (n \<noteq> Fin 0 \<and> n \<noteq> NaN)"
| "truthy (Some (JStr s)) = (s \<noteq> [])"
| "truthy (Some (JArr _)) = True"
| "truthy (Some (JObj _)) = True"

text \<open>\<open>String(v)\<close> and \<open>Number(v)\<close>, with the printing and reading of numbers as parameters.\<close>

fun js_string :: "(num \<Rightarrow> string) \<Rightarrow> json \<Rightarrow> string" where
  "js_string sn JNull = ''null''"
| "js_string sn (JBool b) = (if b then ''true'' else ''false'')"
| "js_string sn (JNum n) = sn n"
| "js_string sn (JStr s) = s"
| "js_string sn (JArr xs) = join '','' (map (\<lambda>x. if x = JNull then [] else js_string sn x) xs)"
| "js_string sn (JObj kvs) = ''[object Object]''"

fun js_number :: "(num \<Rightarrow> string) \<Rightarrow> (string \<Rightarrow> num) \<Rightarrow> json \<Rightarrow> num" where
  "js_number sn pn JNull = Fin 0"
| "js_number sn pn (JBool b) = Fin (if b then 1 else 0)"
| "js_number sn pn (JNum n) = n"
| "js_number sn pn v = pn (js_string sn v)"

end
