(* ===== verification/Panel_Types.thy ===== *)
theory Panel_Types
  imports Js_Text
begin

text \<open>
  The dashboard spec and panel results of ui/panels/types.ts, and the trace contract of
  ui/contracts.ts. An optional property is an \<open>option\<close>; a \<open>Record<string, T>\<close> is an
  association list in insertion order; a closed union of literals is a datatype, but for
  units, which reach the code as strings of the server's choosing.
\<close>

definition ALL_value :: string where
  "ALL_value = ''$__all''"

datatype status = StOk | StWarn | StBad

datatype direction = Lower | Higher

datatype viz = Stat | Gauge | Timeseries | Bar | Table | TextViz | Heatmap | Histogram
  | Scatter | StateTimeline | Logs | LogPatterns | Traces | ServiceMap | HealthViz

record bucket =
  bk_lower :: real
  bk_upper :: "real option"

record selection =
  sel_from :: "string option"
  sel_to :: "string option"
  sel_time :: "num option"
  sel_dimensions :: "(string, string) omap"
  sel_trace_id :: "string option"
  sel_namespace :: "string option"
  sel_bucket :: "bucket option"

datatype col_fmt = FUnit | FBar | FStatus | FSparkline | FTraceLink | FServiceLink | FLogTemplate

record column_format =
  cf_field :: string
  cf_format :: col_fmt
  cf_unit :: "string option"
  cf_variable :: "string option"

record threshold =
  th_value :: real
  th_status :: status
  th_label :: "string option"

record panel_query =
  q_from :: string
  q_where :: "string list"
  q_measures :: "string list"
  q_by :: "string list"
  q_bucket :: "string option"
  q_sort :: "string option"
  q_limit :: "nat option"

datatype chart_style = SLine | SArea | SBars | SStacked

datatype scale = Linear | Log

record panel_options =
  po_style :: "chart_style option"
  po_scale :: "scale option"
  po_top :: "real option"
  po_legend_hidden :: bool
  po_x_scale :: "scale option"
  po_y_scale :: "scale option"
  po_highlight :: "string option"
  po_columns :: "column_format list"

datatype reducer = RWindow | RLast | RMean | RMin | RMax | RSum

record panel =
  p_id :: string
  p_title :: string
  p_viz :: viz
  p_query :: "panel_query option"
  p_unit :: "string option"
  p_x_unit :: "string option"
  p_reduce :: "reducer option"
  p_thresholds :: "threshold list"
  p_better :: "direction option"
  p_min :: "real option"
  p_max :: "real option"
  p_options :: "panel_options option"
  p_drill :: "string option"
  p_time_range :: "string option"
  p_time_shift :: "string option"
  p_content :: "string option"
  p_grid :: "(nat \<times> nat \<times> nat \<times> nat) option"

datatype var_kind = KQuery | KCustom | KConstant | KText

record variable =
  v_name :: string
  v_kind :: var_kind
  v_options :: "string list option"
  v_value :: "string option"
  v_default :: "string option"
  v_multi :: bool
  v_include_all :: bool

record dashboard_time =
  dt_range :: "string option"
  dt_from :: "string option"
  dt_to :: "string option"
  dt_refresh :: "string option"
  dt_compare :: bool

record dashboard_spec =
  ds_name :: string
  ds_time :: dashboard_time
  ds_variables :: "variable list option"
  ds_deploys :: "bool option"
  ds_anomalies :: "bool option"
  ds_panels :: "panel list"

datatype cell = CStr string | CNum num | CNull

datatype col_type = TTime | TNumber | TString | TJson

datatype col_role = RTime | RDimension | RMeasure

record column =
  c_name :: string
  c_type :: col_type
  c_role :: col_role
  c_unit :: "string option"

text \<open>\<open>values\<close> is column-major: \<open>f_values f ! c ! r\<close>.\<close>

record frame =
  f_columns :: "column list"
  f_values :: "cell list list"
  f_rows :: nat
  f_totals :: "cell list option"
  f_truncated :: bool
  f_periods :: "(string, string \<times> string) omap option"

record annotation_scope =
  as_services :: "(string \<times> string) list"
  as_namespace_scoped :: bool

datatype result_status = ROk | REmpty | RError | RInvalid

record panel_result =
  r_id :: string
  r_status :: result_status
  r_frame :: "frame option"
  r_previous :: "frame option"
  r_error :: "string option"
  r_busy :: bool
  r_retryable :: bool
  r_interval :: "string option"
  r_from_ms :: "real option"
  r_to_ms :: "real option"
  r_better :: "direction option"
  r_shift_ms :: "real option"
  r_scope :: "annotation_scope option"
  r_annotation_error :: "string option"

datatype var_value = VStr string | VList "string list"

text \<open>ui/contracts.ts: a span of a trace; \<open>start\<close> is kept as the instant it names.\<close>

record trace_span =
  ts_id :: string
  ts_parent :: "string option"
  ts_service :: string
  ts_operation :: string
  ts_start :: real
  ts_duration_ms :: real
  ts_status :: string

section \<open>Well-formed frames\<close>

text \<open>
  The server's frames: one value list per column, each with a cell for every row.
\<close>

definition frame_ok :: "frame \<Rightarrow> bool" where
  "frame_ok f \<longleftrightarrow> length (f_values f) = length (f_columns f)
     \<and> (\<forall>col \<in> set (f_values f). length col = f_rows f)"

definition empty_frame :: frame where
  "empty_frame = \<lparr>f_columns = [], f_values = [], f_rows = 0, f_totals = None,
     f_truncated = False, f_periods = None\<rparr>"

definition cell_at :: "frame \<Rightarrow> nat \<Rightarrow> nat \<Rightarrow> cell option" where
  "cell_at f c r = Option.bind (nth_opt (f_values f) c) (\<lambda>col. nth_opt col r)"

lemma frame_ok_empty [simp]: "frame_ok empty_frame"
  by (simp add: frame_ok_def empty_frame_def)

lemma frame_ok_col:
  "frame_ok f \<Longrightarrow> c < length (f_columns f) \<Longrightarrow> length (f_values f ! c) = f_rows f"
  by (simp add: frame_ok_def)

lemma cell_at_ok:
  "frame_ok f \<Longrightarrow> c < length (f_columns f) \<Longrightarrow> r < f_rows f \<Longrightarrow>
    cell_at f c r = Some (f_values f ! c ! r)"
  by (simp add: cell_at_def nth_opt_def frame_ok_col) (simp add: frame_ok_def)

section \<open>Cells as strings\<close>

text \<open>
  \<open>String(cell ?? "")\<close> takes the printing of numbers as a parameter \<open>sn\<close>: the shortest
  round-tripping decimal of a double is the runtime's.
\<close>

definition cell_str :: "(num \<Rightarrow> string) \<Rightarrow> cell option \<Rightarrow> string" where
  "cell_str sn c = (case c of
      Some (CStr s) \<Rightarrow> s | Some (CNum n) \<Rightarrow> sn n | _ \<Rightarrow> [])"

text \<open>\<open>num(cell)\<close>: a finite number or null.\<close>

definition cell_num :: "cell option \<Rightarrow> real option" where
  "cell_num c = (case c of Some (CNum n) \<Rightarrow> finite_val n | _ \<Rightarrow> None)"

lemma cell_num_Some_iff: "cell_num c = Some x \<longleftrightarrow> c = Some (CNum (Fin x))"
  by (cases c) (auto simp: cell_num_def split: cell.splits)

end
