(* ===== verification/Units.thy ===== *)
theory Units
  imports Panel_Types
begin

text \<open>
  ui/format.ts and ui/panels/units.ts: values printed in their unit, and value axes whose
  bounds and interval fit a tick budget. What \<open>Intl.NumberFormat\<close> prints is the
  runtime's locale data: the record \<open>intl\<close> carries its three formatters as parameters.
  \<open>toFixed\<close>, \<open>toPrecision\<close>, \<open>toExponential\<close> and \<open>Math.round\<close> are modelled on exact values.
\<close>

record intl =
  in_plain :: "real \<Rightarrow> string"
  in_compact :: "real \<Rightarrow> string"
  in_digits :: "nat \<Rightarrow> real \<Rightarrow> string"

section \<open>Decimal printing\<close>

text \<open>The digits of \<open>n\<close> with \<open>d\<close> of them after the point.\<close>

definition pad_left :: "nat \<Rightarrow> string \<Rightarrow> string" where
  "pad_left k s = replicate (k - length s) (CHR ''0'') @ s"

definition fixed_digits :: "nat \<Rightarrow> nat \<Rightarrow> string" where
  "fixed_digits d n = (if d = 0 then show_nat n
     else show_nat (n div 10 ^ d) @ ''.'' @ pad_left d (show_nat (n mod 10 ^ d)))"

definition toFixed :: "nat \<Rightarrow> real \<Rightarrow> string" where
  "toFixed d x = (let n = nat (js_round (\<bar>x\<bar> * 10 ^ d))
     in (if x < 0 then ''-'' else []) @ fixed_digits d n)"

lemma floor_tenth_less: "10 \<le> (y::real) \<Longrightarrow> nat \<lfloor>y / 10\<rfloor> < nat \<lfloor>y\<rfloor>"
proof -
  assume y: "10 \<le> y"
  have "of_int \<lfloor>y / 10\<rfloor> \<le> y / 10" by (rule of_int_floor_le)
  moreover have "y - 1 < of_int \<lfloor>y\<rfloor>" by linarith
  ultimately have "of_int \<lfloor>y / 10\<rfloor> < (of_int \<lfloor>y\<rfloor> :: real)" using y by linarith
  then show ?thesis using y by (simp add: nat_less_eq_zless)
qed

text \<open>\<open>Math.floor(Math.log10(x))\<close> for a positive \<open>x\<close>.\<close>

function floor_log10 :: "real \<Rightarrow> int" where
  "floor_log10 x = (if x \<le> 0 then 0
     else if 10 \<le> x then 1 + floor_log10 (x / 10)
     else if x < 1 then floor_log10 (10 * x) - 1
     else 0)"
  by pat_completeness auto

termination
proof (relation "measures [\<lambda>x. if 0 < x \<and> x < 1 then nat \<lfloor>1 / x\<rfloor> + 1 else 0, \<lambda>x. nat \<lfloor>x\<rfloor>]")
  fix x :: real
  assume x: "\<not> x \<le> 0"
  show "10 \<le> x \<Longrightarrow> (x / 10, x)
      \<in> measures [\<lambda>x. if 0 < x \<and> x < 1 then nat \<lfloor>1 / x\<rfloor> + 1 else 0, \<lambda>x. nat \<lfloor>x\<rfloor>]"
    using floor_tenth_less [of x] by auto
  show "(10 * x, x) \<in> measures [\<lambda>x. if 0 < x \<and> x < 1 then nat \<lfloor>1 / x\<rfloor> + 1 else 0, \<lambda>x. nat \<lfloor>x\<rfloor>]"
    if "\<not> 10 \<le> x" "x < 1"
  proof (cases "10 * x < 1")
    case True
    then have "10 \<le> 1 / x" using x by (simp add: field_simps)
    from floor_tenth_less [OF this] have "nat \<lfloor>1 / (10 * x)\<rfloor> < nat \<lfloor>1 / x\<rfloor>"
      by (simp add: mult.commute)
    with True x that show ?thesis by simp
  next
    case False
    with x that show ?thesis by simp
  qed
qed simp

declare floor_log10.simps [simp del]

lemma floor_log10_bounds: "0 < x \<Longrightarrow> 10 powi floor_log10 x \<le> x \<and> x < 10 powi (floor_log10 x + 1)"
proof (induction x rule: floor_log10.induct)
  case (1 x)
  consider "10 \<le> x" | "x < 1" | "1 \<le> x" "x < 10" by linarith
  then show ?case
  proof cases
    case 1
    with "1.IH"(1) have "10 powi floor_log10 (x / 10) \<le> x / 10 \<and> x / 10 < 10 powi (floor_log10 (x / 10) + 1)"
      by simp
    moreover have "floor_log10 x = 1 + floor_log10 (x / 10)"
      using 1 by (subst floor_log10.simps) simp
    ultimately show ?thesis by (simp add: power_int_add)
  next
    case 2
    with "1.IH"(2) "1.prems" have "10 powi floor_log10 (10 * x) \<le> 10 * x \<and> 10 * x < 10 powi (floor_log10 (10 * x) + 1)"
      by simp
    moreover have "floor_log10 x = floor_log10 (10 * x) - 1"
      using 2 "1.prems" by (subst floor_log10.simps) simp
    ultimately show ?thesis by (simp add: power_int_diff power_int_add)
  next
    case 3
    then have "floor_log10 x = 0" by (subst floor_log10.simps) simp
    with 3 show ?thesis by simp
  qed
qed

text \<open>A decimal without trailing zeros (and without a point that nothing follows).\<close>

definition strip_zeros :: "string \<Rightarrow> string" where
  "strip_zeros s = (let t = rev (dropWhile (\<lambda>c. c = CHR ''0'') (rev s))
     in if last_opt t = Some (CHR ''.'') then butlast t else t)"

text \<open>
  The \<open>p\<close> significant digits of \<open>x > 0\<close>: \<open>(n, e)\<close> with \<open>10 ^ (p - 1) \<le> n < 10 ^ p\<close> and the
  rounded value \<open>n * 10 powi e\<close>.
\<close>

definition significant :: "nat \<Rightarrow> real \<Rightarrow> nat \<times> int" where
  "significant p x =
    (let e = floor_log10 x - (int p - 1); n = nat (js_round (x * 10 powi (- e)))
     in if n = 10 ^ p then (10 ^ (p - 1), e + 1) else (n, e))"

definition toExponential2 :: "real \<Rightarrow> string" where
  "toExponential2 x = (case significant 3 x of (n, e) \<Rightarrow>
     strip_zeros (fixed_digits 2 n) @ ''e'' @ (if e + 2 < 0 then [] else ''+'') @ show_int (e + 2))"

text \<open>
  \<open>small\<close>: three significant digits. Its callers pass magnitudes below one, so the decimal
  has \<open>- e\<close> places.
\<close>

definition small :: "real \<Rightarrow> string" where
  "small x = (if x = 0 then ''0'' else
     (if x < 0 then ''-'' else []) @
     (if \<bar>x\<bar> < 1 / 10000 then toExponential2 \<bar>x\<bar>
      else (case significant 3 \<bar>x\<bar> of (n, e) \<Rightarrow>
        if e < 0 then strip_zeros (fixed_digits (nat (- e)) n) else show_nat (n * 10 ^ nat e))))"

section \<open>ui/format.ts\<close>

definition percent :: "num \<Rightarrow> string" where
  "percent v = (case finite_val v of
      None \<Rightarrow> em_dash
    | Some x \<Rightarrow> if 0 < x \<and> x < 1 / 10000 then ''<0.01%''
        else toFixed (if 1 / 10 \<le> x then 1 else 2) (x * 100) @ ''%'')"

text \<open>A duration splits into the shapes its text can take.\<close>

datatype duration_parts =
    DZero
  | DTiny
  | DMs2 real
  | DMs1 real
  | DMs0 int
  | DSec2 real
  | DSec1 real
  | DMin int int
  | DHour int int

definition duration_parts :: "real \<Rightarrow> duration_parts" where
  "duration_parts v =
    (if v = 0 then DZero
     else if v < 1 / 100 then DTiny
     else if v < 1 then DMs2 v
     else if of_int (js_round (v * 10)) / 10 < (100 :: real) then DMs1 v
     else if js_round v < 1000 then DMs0 (js_round v)
     else (let totalSeconds = of_int (js_round (v / 100)) / (10 :: real)
       in if totalSeconds < 10 then DSec2 (v / 1000)
          else if totalSeconds < 60 then DSec1 totalSeconds
          else (let whole = js_round (v / 1000); minutes = whole div 60; seconds = whole mod 60
            in if minutes < 60 then DMin minutes seconds
               else DHour (minutes div 60) (minutes mod 60))))"

fun show_duration :: "duration_parts \<Rightarrow> string" where
  "show_duration DZero = ''0ms''"
| "show_duration DTiny = ''<0.01ms''"
| "show_duration (DMs2 v) = toFixed 2 v @ ''ms''"
| "show_duration (DMs1 v) = toFixed 1 v @ ''ms''"
| "show_duration (DMs0 n) = show_int n @ ''ms''"
| "show_duration (DSec2 s) = toFixed 2 s @ ''s''"
| "show_duration (DSec1 s) = toFixed 1 s @ ''s''"
| "show_duration (DMin m s) =
    (if s = 0 then show_int m @ ''m'' else show_int m @ ''m '' @ show_int s @ ''s'')"
| "show_duration (DHour h m) =
    (if m = 0 then show_int h @ ''h'' else show_int h @ ''h '' @ show_int m @ ''m'')"

definition duration :: "num \<Rightarrow> string" where
  "duration v = (case finite_val v of
      None \<Rightarrow> em_dash
    | Some x \<Rightarrow> if x < 0 then ''-'' @ show_duration (duration_parts (- x))
        else show_duration (duration_parts x))"

text \<open>The number a decimal shape prints, as \<open>toFixed\<close> rounds it.\<close>

fun printed_ok :: "duration_parts \<Rightarrow> bool" where
  "printed_ok DZero = True"
| "printed_ok DTiny = True"
| "printed_ok (DMs2 v) \<longleftrightarrow> js_round (v * 100) \<le> 100"
| "printed_ok (DMs1 v) \<longleftrightarrow> 10 \<le> js_round (v * 10) \<and> js_round (v * 10) < 1000"
| "printed_ok (DMs0 n) \<longleftrightarrow> 100 \<le> n \<and> n < 1000"
| "printed_ok (DSec2 s) \<longleftrightarrow> 100 \<le> js_round (s * 100) \<and> js_round (s * 100) < 1000"
| "printed_ok (DSec1 s) \<longleftrightarrow> 100 \<le> js_round (s * 10) \<and> js_round (s * 10) < 600"
| "printed_ok (DMin m s) \<longleftrightarrow> 1 \<le> m \<and> m < 60 \<and> 0 \<le> s \<and> s < 60"
| "printed_ok (DHour h m) \<longleftrightarrow> 1 \<le> h \<and> 0 \<le> m \<and> m < 60"

lemma js_round_le_iff: "js_round x \<le> n \<longleftrightarrow> x < of_int n + 1/2"
  unfolding js_round_def by linarith

lemma js_round_ge_iff: "n \<le> js_round x \<longleftrightarrow> of_int n - 1/2 \<le> x"
  unfolding js_round_def by linarith

lemma js_round_less_iff: "js_round x < n \<longleftrightarrow> x < of_int n - 1/2"
  unfolding js_round_def by linarith

lemma whole_minutes: "59950 \<le> v \<Longrightarrow> 1 \<le> js_round (v / 1000) div 60"
proof -
  assume "59950 \<le> v"
  then have "60 \<le> js_round (v / 1000)" by (simp add: js_round_ge_iff)
  then show ?thesis by linarith
qed

lemma duration_parts_ok: "0 \<le> v \<Longrightarrow> printed_ok (duration_parts v)"
  unfolding duration_parts_def Let_def
  by (auto simp: js_round_le_iff js_round_ge_iff js_round_less_iff
      pos_imp_zdiv_pos_iff divide_less_eq whole_minutes)

section \<open>One value in its unit\<close>

definition number :: "(real \<Rightarrow> string) \<Rightarrow> real \<Rightarrow> string" where
  "number fmt v = (if v \<noteq> 0 \<and> \<bar>v\<bar> < 1 then small v else fmt v)"

definition panelDuration :: "real \<Rightarrow> string \<Rightarrow> string" where
  "panelDuration v unit =
    (let ms = (if unit = ''s'' then v * 1000 else if unit = ''ns'' then v / 1000000 else v)
     in if v \<noteq> 0 \<and> ms = 0 then small v @ unit
        else if ms \<noteq> 0 \<and> \<bar>ms\<bar> < 1 then small ms @ ''ms'' else duration (Fin ms))"

definition byteUnits :: "string list" where
  "byteUnits = [''B'', ''KiB'', ''MiB'', ''GiB'', ''TiB'']"

text \<open>The scaling loop: at most four divisions, \<open>n\<close> of them left.\<close>

fun byte_scale :: "nat \<Rightarrow> real \<Rightarrow> nat \<Rightarrow> real \<times> nat" where
  "byte_scale 0 v i = (v, i)"
| "byte_scale (Suc n) v i = (if 1024 \<le> \<bar>v\<bar> then byte_scale n (v / 1024) (Suc i) else (v, i))"

definition bytes :: "real \<Rightarrow> string" where
  "bytes x = (case byte_scale 4 x 0 of (v, i) \<Rightarrow>
     (if i = 0 then (if v \<noteq> 0 \<and> \<bar>v\<bar> < 1 then small v else show_int (js_round v)) else toFixed 1 v)
     @ '' '' @ byteUnits ! i)"

definition formatValue :: "intl \<Rightarrow> string option \<Rightarrow> num option \<Rightarrow> string" where
  "formatValue il unit value = (case Option.bind value finite_val of
      None \<Rightarrow> em_dash
    | Some v \<Rightarrow>
      (if unit = Some ''ms'' \<or> unit = Some ''s'' \<or> unit = Some ''ns'' then panelDuration v (the unit)
       else if unit = Some ''percent'' then
         (if v \<noteq> 0 \<and> \<bar>v\<bar> < 1 then small v @ ''%'' else percent (Fin (v / 100)))
       else if unit = Some ''ratio'' then number (in_plain il) v @ times_sign
       else if unit = Some ''per_second'' then number (in_compact il) v @ ''/s''
       else if unit = Some ''per_minute'' then number (in_compact il) v @ ''/min''
       else if unit = Some ''bytes'' then bytes v
       else number (if 10000 \<le> \<bar>v\<bar> then in_compact il else in_plain il) v))"

text \<open>The loop leaves the value it was given, scaled, and stops below 1024 or at TiB.\<close>

lemma byte_scale_value:
  "byte_scale n v i = (w, j) \<Longrightarrow> w * 1024 ^ j = v * 1024 ^ i \<and> i \<le> j \<and> j \<le> i + n
    \<and> (j = i + n \<or> \<bar>w\<bar> < 1024) \<and> (i < j \<longrightarrow> 1 \<le> \<bar>w\<bar>)"
proof (induction n v i arbitrary: w j rule: byte_scale.induct)
  case (2 n v i)
  show ?case
  proof (cases "1024 \<le> \<bar>v\<bar>")
    case True
    with 2 have ih: "w * 1024 ^ j = v / 1024 * 1024 ^ Suc i \<and> Suc i \<le> j \<and> j \<le> Suc i + n
      \<and> (j = Suc i + n \<or> \<bar>w\<bar> < 1024) \<and> (Suc i < j \<longrightarrow> 1 \<le> \<bar>w\<bar>)"
      by simp
    moreover have "1 \<le> \<bar>w\<bar>" if "Suc i = j"
    proof -
      from ih that have "w = v / 1024" by simp
      with True show ?thesis by simp
    qed
    ultimately show ?thesis by (auto simp: le_less)
  next
    case False
    with 2 show ?thesis by simp
  qed
qed simp

section \<open>Axis ticks and labels\<close>

record axis_span =
  ax_min :: real
  ax_max :: real
  ax_interval :: real

definition durationFactor :: "string option \<Rightarrow> real option" where
  "durationFactor unit = (if unit = Some ''ms'' then Some 1 else if unit = Some ''s'' then Some 1000
     else if unit = Some ''ns'' then Some (1 / 1000000) else None)"

definition durationScales :: "(real \<times> string) list" where
  "durationScales = [(3600000, ''h''), (60000, ''m''), (1000, ''s''), (1, ''ms'')]"

definition two_decimals :: "real \<Rightarrow> bool" where
  "two_decimals x \<longleftrightarrow> \<bar>x * 100 - of_int (js_round (x * 100))\<bar> < 1 / 1000000"

definition axis_trim :: "string \<Rightarrow> string" where
  "axis_trim s =
    (let suf = rev (takeWhile is_lower (rev s));
         body = take (length s - length suf) s;
         pre = rev (dropWhile is_digit (rev body))
     in if last_opt pre = Some (CHR ''.'') then strip_zeros body @ suf else s)"

definition formatAxis :: "intl \<Rightarrow> string option \<Rightarrow> axis_span option \<Rightarrow> num \<Rightarrow> string" where
  "formatAxis il unit axis value =
    (case axis of
       Some a \<Rightarrow>
         if unit = Some ''bytes'' \<and> 0 < ax_interval a then
           (let extent = max \<bar>ax_min a\<bar> \<bar>ax_max a\<bar>;
                power = nullish (find (\<lambda>p. 1024 ^ p \<le> extent \<and> two_decimals (ax_interval a / 1024 ^ p))
                  [4, 3, 2, 1]) 0
            in case finite_val value of None \<Rightarrow> em_dash
               | Some v \<Rightarrow> number (in_plain il) (v / 1024 ^ power) @ '' '' @ byteUnits ! power)
         else (case durationFactor unit of
           Some factor \<Rightarrow> if 0 < ax_interval a then
             (let extent = max \<bar>ax_min a\<bar> \<bar>ax_max a\<bar> * factor; step = ax_interval a * factor;
                  (scale, suffix) = nullish (find (\<lambda>(size, _). size \<le> extent \<and> two_decimals (step / size))
                    durationScales) (1, ''ms'')
              in case finite_val value of None \<Rightarrow> em_dash
                 | Some v \<Rightarrow> number (in_plain il) (v * factor / scale) @ suffix)
             else axis_trim (formatValue il unit (Some value))
         | None \<Rightarrow> formatValue il unit (Some value))
     | None \<Rightarrow> if durationFactor unit \<noteq> None then axis_trim (formatValue il unit (Some value))
         else formatValue il unit (Some value))"

definition is_word :: "char \<Rightarrow> bool" where
  "is_word c \<longleftrightarrow> is_digit c \<or> is_lower c \<or> is_upper c \<or> c = CHR ''_''"

definition word_end :: "string \<Rightarrow> bool" where
  "word_end s = (case s of [] \<Rightarrow> True | c # _ \<Rightarrow> \<not> is_word c)"

definition unit_prefix :: "string \<Rightarrow> nat option" where
  "unit_prefix s = map_option length (find (\<lambda>u. starts_with s u \<and> word_end (drop (length u) s))
     [''ms'', ''ns'', ''s'', ''m'', ''h''])"

text \<open>A space before a unit that follows a digit; \<open>d\<close> says the last character was one.\<close>

fun space_units :: "bool \<Rightarrow> string \<Rightarrow> string" where
  "space_units d [] = []"
| "space_units d (c # s) =
    (if d \<and> unit_prefix (c # s) \<noteq> None then '' '' else []) @ c # space_units (is_digit c) s"

definition formatLabel :: "intl \<Rightarrow> string option \<Rightarrow> num option \<Rightarrow> axis_span option \<Rightarrow> string" where
  "formatLabel il unit value axis = space_units False (formatAxis il unit axis (nullish value NaN))"

section \<open>Value axes\<close>

definition valueAxisTicks :: "real \<Rightarrow> nat" where
  "valueAxisTicks pixels = nat (max 3 (min 10 (js_round (pixels / 70))) - 1)"

definition ceil125 :: "real \<Rightarrow> real" where
  "ceil125 n = (let base = 10 powi floor_log10 n
     in nullish (find (\<lambda>step. n \<le> step) (map (\<lambda>k. k * base) [1, 2, 5, 10])) 0)"

definition binary_power :: "real \<Rightarrow> nat" where
  "binary_power target = (if 1024 ^ 4 \<le> target then 4 else if 1024 ^ 3 \<le> target then 3
     else if 1024 ^ 2 \<le> target then 2 else if 1024 \<le> target then 1 else 0)"

definition time_steps :: "real list" where
  "time_steps = sort_by (\<le>) (concat (map (\<lambda>base. map (\<lambda>n. base * n) [1, 2, 5])
     [1, 10, 100, 1000, 10000, 60000, 600000, 3600000, 36000000]))"

definition niceStep :: "real \<Rightarrow> string option \<Rightarrow> real" where
  "niceStep target unit =
    (if unit = Some ''bytes'' then
       (let power = binary_power target;
            step = ceil125 (max (target / 1024 ^ power) (if power = 0 then 1 else 0))
        in (if 1000 \<le> step \<and> power < 4 then 1024 else step) * 1024 ^ power)
     else (case durationFactor unit of
       None \<Rightarrow> ceil125 target
     | Some factor \<Rightarrow>
        (let ms = target * factor
         in (if ms < 1 then ceil125 ms
             else nullish (find (\<lambda>step. ms \<le> step) time_steps) (ceil125 (ms / 3600000) * 3600000))
            / factor)))"

record value_axis = axis_span +
  ax_split :: nat
  ax_unit :: "string option"

definition ticks :: "real \<Rightarrow> real \<Rightarrow> real \<Rightarrow> int" where
  "ticks lo hi interval = \<lceil>hi / interval\<rceil> - \<lfloor>lo / interval\<rfloor>"

text \<open>The search for an interval with few enough ticks; the first argument counts its rounds.\<close>

fun widen :: "nat \<Rightarrow> string option \<Rightarrow> nat \<Rightarrow> real \<Rightarrow> real \<Rightarrow> real \<Rightarrow> real" where
  "widen 0 unit split lo hi interval = interval"
| "widen (Suc n) unit split lo hi interval =
    (if int split < ticks lo hi interval
     then widen n unit split lo hi (niceStep (interval * (101 / 100)) unit)
     else interval)"

definition valueAxis :: "num \<Rightarrow> num \<Rightarrow> string option \<Rightarrow> real \<Rightarrow> value_axis" where
  "valueAxis mn mx unit pixels =
    (let lo = (case finite_val mn of Some x \<Rightarrow> min 0 x | None \<Rightarrow> 0);
         hi0 = (case finite_val mx of Some x \<Rightarrow> max 0 x | None \<Rightarrow> 1);
         hi = (if hi0 = lo then lo + 1 else hi0);
         split = valueAxisTicks pixels;
         interval = widen 64 unit split lo hi (niceStep (max (hi - lo) (1 / 2 ^ 52) / real split) unit)
     in \<lparr>ax_min = of_int \<lfloor>lo / interval\<rfloor> * interval, ax_max = of_int \<lceil>hi / interval\<rceil> * interval,
         ax_interval = interval, ax_split = split, ax_unit = unit\<rparr>)"

lemma valueAxisTicks_bounds: "2 \<le> valueAxisTicks pixels" "valueAxisTicks pixels \<le> 9"
  by (auto simp: valueAxisTicks_def)

lemma ceil125_cases:
  assumes "0 < n"
  shows "n \<le> ceil125 n \<and> (\<exists>k \<in> {1, 2, 5, 10}. ceil125 n = k * 10 powi floor_log10 n)"
proof -
  have "n \<le> 10 * 10 powi floor_log10 n"
    using floor_log10_bounds [OF assms] by (simp add: power_int_add)
  then show ?thesis
    by (auto simp: ceil125_def Let_def)
qed

lemma binary_power_scaled: "0 < target \<Longrightarrow> 0 < max (target / 1024 ^ binary_power target) (if binary_power target = 0 then 1 else 0 :: real)"
  by (simp add: less_max_iff_disj)

lemma find_ge: "x \<le> d \<Longrightarrow> x \<le> nullish (find (\<lambda>step. x \<le> step) xs) (d :: real)"
  by (induction xs) auto

text \<open>A nice step is never below what it rounds.\<close>

lemma niceStep_ge:
  assumes "0 < target"
  shows "target \<le> niceStep target unit"
proof (cases "unit = Some ''bytes''")
  case True
  define p where "p = binary_power target"
  define t where "t = max (target / 1024 ^ p) (if p = 0 then 1 else 0)"
  have t: "0 < t" "target / 1024 ^ p \<le> t"
    using binary_power_scaled [OF assms] by (auto simp: t_def p_def)
  have small: "target / 1024 ^ p \<le> 1024" if "p < 4"
    using that unfolding p_def binary_power_def by (auto split: if_splits)
  have "target / 1024 ^ p \<le> (if 1000 \<le> ceil125 t \<and> p < 4 then 1024 else ceil125 t)"
    using small t ceil125_cases [OF t(1)] by auto
  then have "target \<le> (if 1000 \<le> ceil125 t \<and> p < 4 then 1024 else ceil125 t) * 1024 ^ p"
    by (simp add: divide_le_eq)
  then show ?thesis
    by (simp only: niceStep_def True refl if_True Let_def t_def p_def)
next
  case False
  show ?thesis
  proof (cases "durationFactor unit")
    case None
    with False assms ceil125_cases show ?thesis by (simp add: niceStep_def)
  next
    case (Some factor)
    then have f: "0 < factor" by (auto simp: durationFactor_def split: if_splits)
    define ms where "ms = target * factor"
    have ms: "0 < ms" using assms f by (simp add: ms_def)
    have "ms / 3600000 \<le> ceil125 (ms / 3600000)"
      using ceil125_cases [of "ms / 3600000"] ms by simp
    then have "ms \<le> ceil125 (ms / 3600000) * 3600000" by simp
    then have "ms \<le> (if ms < 1 then ceil125 ms
      else nullish (find (\<lambda>step. ms \<le> step) time_steps) (ceil125 (ms / 3600000) * 3600000))"
      using ceil125_cases [OF ms] by (simp add: find_ge)
    then have "target \<le> (if ms < 1 then ceil125 ms
      else nullish (find (\<lambda>step. ms \<le> step) time_steps) (ceil125 (ms / 3600000) * 3600000)) / factor"
      using f by (simp add: ms_def pos_le_divide_eq)
    with False Some show ?thesis by (simp add: niceStep_def Let_def ms_def [symmetric])
  qed
qed

lemma widen_ge: "0 < i \<Longrightarrow> i \<le> widen n unit split lo hi i"
proof (induction n arbitrary: i)
  case (Suc n)
  have "i * (101 / 100) \<le> niceStep (i * (101 / 100)) unit"
    using Suc.prems by (intro niceStep_ge) simp
  moreover have "i \<le> i * (101 / 100)" using Suc.prems by simp
  ultimately have le: "i \<le> niceStep (i * (101 / 100)) unit" by linarith
  with Suc.prems have "0 < niceStep (i * (101 / 100)) unit" by linarith
  from Suc.IH [OF this] le show ?case by auto
qed simp

text \<open>The search stops within the budget, or has used every round.\<close>

lemma widen_budget:
  "ticks lo hi (widen n unit split lo hi i) \<le> int split
    \<or> widen n unit split lo hi i = ((\<lambda>x. niceStep (x * (101 / 100)) unit) ^^ n) i"
proof (induction n arbitrary: i)
  case (Suc n)
  then show ?case
    by (cases "int split < ticks lo hi i")
      (simp_all add: funpow_Suc_right del: funpow.simps)
qed simp

lemma valueAxis_covers:
  assumes "va = valueAxis mn mx unit pixels"
  shows "0 < ax_interval va \<and> ax_min va \<le> 0 \<and> 0 \<le> ax_max va \<and> ax_min va < ax_max va
    \<and> (\<forall>x. mn = Fin x \<longrightarrow> ax_min va \<le> x) \<and> (\<forall>x. mx = Fin x \<longrightarrow> x \<le> ax_max va)
    \<and> (\<exists>a b :: int. ax_min va = a * ax_interval va \<and> ax_max va = b * ax_interval va)"
proof -
  define lo where "lo = (case finite_val mn of Some x \<Rightarrow> min 0 x | None \<Rightarrow> 0)"
  define hi0 where "hi0 = (case finite_val mx of Some x \<Rightarrow> max 0 x | None \<Rightarrow> 1)"
  define hi where "hi = (if hi0 = lo then lo + 1 else hi0)"
  define start where "start = niceStep (max (hi - lo) (1 / 2 ^ 52) / real (valueAxisTicks pixels)) unit"
  define i where "i = widen 64 unit (valueAxisTicks pixels) lo hi start"
  have lo: "lo \<le> 0" "\<And>x. mn = Fin x \<Longrightarrow> lo \<le> x"
    by (auto simp: lo_def split: option.splits)
  have hi0: "0 \<le> hi0" "\<And>x. mx = Fin x \<Longrightarrow> x \<le> hi0"
    by (auto simp: hi0_def split: option.splits)
  have hi: "0 \<le> hi" "lo < hi" "hi0 \<le> hi"
    using lo hi0 by (auto simp: hi_def)
  have arg: "0 < max (hi - lo) (1 / 2 ^ 52) / real (valueAxisTicks pixels)"
    using valueAxisTicks_bounds(1) [of pixels] hi by (simp add: less_max_iff_disj)
  then have "0 < start"
    using niceStep_ge [OF arg, of unit] by (simp add: start_def)
  then have i: "0 < i"
    using widen_ge [of start 64 unit "valueAxisTicks pixels" lo hi] by (simp add: i_def)
  have va: "ax_min va = of_int \<lfloor>lo / i\<rfloor> * i" "ax_max va = of_int \<lceil>hi / i\<rceil> * i" "ax_interval va = i"
    by (simp_all add: assms valueAxis_def Let_def i_def start_def hi_def hi0_def lo_def)
  have "ax_min va \<le> lo"
    unfolding va using i by (simp add: pos_le_divide_eq [symmetric])
  moreover have "hi \<le> ax_max va"
    unfolding va using i by (simp add: pos_divide_le_eq [symmetric])
  ultimately have bounds: "ax_min va \<le> lo \<and> hi \<le> ax_max va" by simp
  then have "ax_min va \<le> 0 \<and> 0 \<le> ax_max va \<and> ax_min va < ax_max va"
    using lo hi by linarith
  moreover have "ax_min va \<le> x" if "mn = Fin x" for x
    using bounds lo(2) [OF that] by linarith
  moreover have "x \<le> ax_max va" if "mx = Fin x" for x
    using bounds hi0(2) [OF that] hi by linarith
  ultimately show ?thesis
    using i va by metis
qed

section \<open>Bucket labels\<close>

definition formatBucket :: "intl \<Rightarrow> real option \<Rightarrow> real option \<Rightarrow> string option \<Rightarrow> string" where
  "formatBucket il lower upper unit =
    (let (bound, suffix) = (case durationFactor unit of
          None \<Rightarrow> (\<lambda>v. formatValue il unit (Some (Fin v)), [])
        | Some ms \<Rightarrow>
          (let magnitude = \<bar>nullish lower (nullish upper 0) * ms\<bar>;
               scale = (if 60000 \<le> magnitude then 60000 else if 1000 \<le> magnitude then 1000 else 1);
               suffix = (if scale = 60000 then '' min'' else if scale = 1000 then '' s'' else '' ms'');
               digits = (if scale = 60000 then 1 else if scale = 1000
                 then (if magnitude < 10000 then 1 else 0) else 2)
           in (\<lambda>v. in_digits il digits (v * ms / scale), suffix)))
     in case (lower, upper) of
          (Some l, None) \<Rightarrow> ge_sign @ bound l @ suffix
        | (None, Some u) \<Rightarrow> ''<'' @ bound u @ suffix
        | (Some l, Some u) \<Rightarrow> if l = 0 then ''<'' @ bound u @ suffix
            else bound l @ en_dash @ bound u @ suffix
        | (None, None) \<Rightarrow> minus_sign @ infinity_sign @ en_dash @ infinity_sign @ suffix)"

section \<open>Properties\<close>

text \<open>
  A value axis starts and ends on whole multiples of its positive interval,
  contains zero and every finite bound it was given, and is never empty, whatever the unit
  and the height.
\<close>

theorem valueAxis_contains_data:
  "0 < ax_interval (valueAxis mn mx unit pixels)
   \<and> ax_min (valueAxis mn mx unit pixels) \<le> 0 \<and> 0 \<le> ax_max (valueAxis mn mx unit pixels)
   \<and> ax_min (valueAxis mn mx unit pixels) < ax_max (valueAxis mn mx unit pixels)
   \<and> (\<forall>x. mn = Fin x \<longrightarrow> ax_min (valueAxis mn mx unit pixels) \<le> x)
   \<and> (\<forall>x. mx = Fin x \<longrightarrow> x \<le> ax_max (valueAxis mn mx unit pixels))
   \<and> (\<exists>a b :: int. ax_min (valueAxis mn mx unit pixels) = a * ax_interval (valueAxis mn mx unit pixels)
        \<and> ax_max (valueAxis mn mx unit pixels) = b * ax_interval (valueAxis mn mx unit pixels))"
  by (rule valueAxis_covers) (rule refl)

theorem valueAxis_contains_data_witness:
  "12 \<le> ax_max (valueAxis (Fin 3) (Fin 12) (Some ''ms'') 300)"
  using valueAxis_contains_data [of "Fin 3" "Fin 12" "Some ''ms''" 300] by blast

text \<open>
  A duration never rounds up into the next unit's territory: the milliseconds it
  prints stay below 1000, the seconds below 60, the minutes below 60, each counted on the
  rounded number that is printed, and a unit is used only from one of it on.
\<close>

theorem duration_prints_in_unit:
  assumes "0 \<le> v"
  shows "printed_ok (duration_parts v) \<and> duration (Fin v) = show_duration (duration_parts v)"
  using assms by (simp_all add: duration_parts_ok duration_def)

theorem duration_prints_in_unit_witness:
  "printed_ok (duration_parts (1999 / 2))"
  by (rule duration_prints_in_unit [THEN conjunct1]) simp

end
