(* ===== verification/Thresholds.thy ===== *)
theory Thresholds
  imports Units
begin

text \<open>
  ui/panels/thresholds.ts, and the gauge of ui/panels/compile.ts that colours its bands by
  it: which status a value has, in which direction a measure worsens, and the bands of the
  gauge with the promise its comment makes, that the gauge and the stat card never disagree.
\<close>

fun rank :: "status \<Rightarrow> nat" where
  "rank StOk = 0"
| "rank StWarn = 1"
| "rank StBad = 2"

definition rank_le :: "threshold \<Rightarrow> threshold \<Rightarrow> bool" where
  "rank_le a b \<longleftrightarrow> rank (th_status a) \<le> rank (th_status b)"

interpretation rank_le: comparator rank_le
  by unfold_locales (auto simp: rank_le_def)

lemma rank_inject [simp]: "rank a = rank b \<longleftrightarrow> a = b"
  by (cases a; cases b) auto

definition thresholdDirection :: "threshold list \<Rightarrow> direction option" where
  "thresholdDirection ts = (if ts = [] then None else
     (let ordered = sort_by rank_le ts; best = hd ordered; worst = last ordered
      in if rank (th_status best) < rank (th_status worst) \<and> th_value worst \<noteq> th_value best
         then Some (if th_value best < th_value worst then Lower else Higher)
         else Some Lower))"

definition crossed :: "direction option \<Rightarrow> real \<Rightarrow> threshold \<Rightarrow> bool" where
  "crossed better v t \<longleftrightarrow> (if better = Some Lower then th_value t \<le> v else v \<le> th_value t)"

definition status_step :: "direction option \<Rightarrow> real \<Rightarrow> status \<Rightarrow> threshold \<Rightarrow> status" where
  "status_step better v st t =
    (if crossed better v t \<and> rank st < rank (th_status t) then th_status t else st)"

definition statusFor :: "real option \<Rightarrow> threshold list \<Rightarrow> direction option \<Rightarrow> status option" where
  "statusFor value ts better = (case value of
      None \<Rightarrow> None
    | Some v \<Rightarrow> if ts = [] then None
        else Some (foldl (status_step (or_else better (thresholdDirection ts)) v) StOk ts))"

section \<open>The status is the worst one crossed\<close>

lemma Max_insert_max:
  "finite R \<Longrightarrow> Max (insert (max a b) R) = Max (insert a (insert b (R :: nat set)))"
  by (cases "R = {}") (simp_all add: max.assoc)

lemma rank_status_step:
  "rank (status_step better v st t)
    = (if crossed better v t then max (rank st) (rank (th_status t)) else rank st)"
  by (auto simp: status_step_def max_def)

lemma rank_foldl_status:
  "rank (foldl (status_step better v) st ts)
    = Max (insert (rank st) ((\<lambda>t. rank (th_status t)) ` {t \<in> set ts. crossed better v t}))"
proof (induction ts arbitrary: st)
  case (Cons t ts)
  have "{s \<in> set (t # ts). crossed better v s}
      = (if crossed better v t then insert t {s \<in> set ts. crossed better v s}
         else {s \<in> set ts. crossed better v s})"
    by auto
  then show ?case
    by (simp add: Cons.IH rank_status_step Max_insert_max)
qed simp

lemma status_mono_lower:
  assumes "v \<le> w"
  shows "rank (foldl (status_step (Some Lower) v) StOk ts)
    \<le> rank (foldl (status_step (Some Lower) w) StOk ts)"
  unfolding rank_foldl_status
  by (rule Max_mono) (use assms in \<open>auto simp: crossed_def\<close>)

lemma status_mono_higher:
  assumes "v \<le> w"
  shows "rank (foldl (status_step (Some Higher) w) StOk ts)
    \<le> rank (foldl (status_step (Some Higher) v) StOk ts)"
  unfolding rank_foldl_status
  by (rule Max_mono) (use assms in \<open>auto simp: crossed_def\<close>)

text \<open>Between two values with no threshold value in the closed range, the status is the same.\<close>

lemma status_between:
  assumes "v \<le> w" "\<forall>t \<in> set ts. th_value t < v \<or> w < th_value t"
  shows "statusFor (Some v) ts better = statusFor (Some w) ts better"
proof -
  have eq: "foldl (status_step d v) st ts = foldl (status_step d w) st ts" for d st
    using assms
  proof (induction ts arbitrary: st)
    case (Cons t ts)
    then have "crossed d v t = crossed d w t" by (auto simp: crossed_def)
    then have "status_step d v st t = status_step d w st t" by (simp add: status_step_def)
    with Cons show ?case by simp
  qed simp
  show ?thesis by (simp add: statusFor_def eq)
qed

section \<open>Gauge bands\<close>

text \<open>The sorted edges: the two ends and the thresholds clamped between them.\<close>

definition gauge_edges :: "panel \<Rightarrow> real \<Rightarrow> real \<Rightarrow> real list" where
  "gauge_edges p mn mx =
    sort_by (\<le>) ((mn # map (\<lambda>t. min mx (max mn (th_value t))) (p_thresholds p)) @ [mx])"

text \<open>One pass over neighbouring edges; a band of the status of the last one extends it.\<close>

definition band_step :: "panel \<Rightarrow> (real \<times> status) list \<Rightarrow> real \<times> real \<Rightarrow> (real \<times> status) list" where
  "band_step p bands e = (case e of (a, b) \<Rightarrow>
    if b = a then bands
    else (let st = nullish (statusFor (Some ((a + b) / 2)) (p_thresholds p) (p_better p)) StOk
      in case last_opt bands of
           Some (_, last_st) \<Rightarrow> if last_st = st then butlast bands @ [(b, st)] else bands @ [(b, st)]
         | None \<Rightarrow> [(b, st)]))"

definition raw_bands :: "panel \<Rightarrow> real \<Rightarrow> real \<Rightarrow> (real \<times> status) list" where
  "raw_bands p mn mx =
    (let edges = gauge_edges p mn mx;
         bands = foldl (band_step p) [] (zip edges (tl edges))
     in if bands = [] then [(mx, StOk)] else bands)"

definition gaugeBands :: "panel \<Rightarrow> real \<Rightarrow> real \<Rightarrow> (real \<times> status) list" where
  "gaugeBands p mn mx =
    (let span = (if mx - mn = 0 then 1 else mx - mn)
     in map (\<lambda>(e, st). ((e - mn) / span, st)) (raw_bands p mn mx))"

text \<open>The band a value falls in: the first whose end is not below it.\<close>

definition band_of :: "(real \<times> status) list \<Rightarrow> real \<Rightarrow> status option" where
  "band_of bands v = map_option snd (find (\<lambda>b. v \<le> fst b) bands)"

definition band_status :: "panel \<Rightarrow> real \<Rightarrow> status" where
  "band_status p v = nullish (statusFor (Some v) (p_thresholds p) (p_better p)) StOk"

text \<open>
  The invariant of the pass, for the edges up to \<open>hi\<close>: band ends increase from \<open>lo\<close> to
  \<open>hi\<close>, and every value up to \<open>hi\<close> that is no threshold is in a band of its status.
\<close>

definition bands_ok :: "panel \<Rightarrow> real \<Rightarrow> real \<Rightarrow> (real \<times> status) list \<Rightarrow> bool" where
  "bands_ok p lo hi bands \<longleftrightarrow>
     sorted_wrt (<) (lo # map fst bands) \<and> last (lo # map fst bands) = hi
     \<and> (\<forall>v. lo < v \<and> v \<le> hi \<and> (\<forall>t \<in> set (p_thresholds p). th_value t \<noteq> v)
          \<longrightarrow> band_of bands v = Some (band_status p v))"

lemma band_of_simps [simp]:
  "band_of [] v = None"
  "band_of (b # bs) v = (if v \<le> fst b then Some (snd b) else band_of bs v)"
  by (simp_all add: band_of_def)

lemma band_of_append:
  "band_of (bs @ cs) v = (if \<exists>b \<in> set bs. v \<le> fst b then band_of bs v else band_of cs v)"
  by (induction bs) auto

lemma band_of_Some_in: "band_of bs v = Some st \<Longrightarrow> \<exists>b \<in> set bs. v \<le> fst b"
  by (induction bs) (auto split: if_splits)

lemma band_status_gap:
  assumes gap: "\<forall>t \<in> set (p_thresholds p). \<not> (a < th_value t \<and> th_value t < b)"
    and v: "a < v" "v \<le> b" "\<forall>t \<in> set (p_thresholds p). th_value t \<noteq> v"
  shows "band_status p v = band_status p ((a + b) / 2)"
proof -
  let ?m = "(a + b) / 2"
  have m: "a < ?m" "?m < b" using v by auto
  have "statusFor (Some (min v ?m)) (p_thresholds p) (p_better p)
      = statusFor (Some (max v ?m)) (p_thresholds p) (p_better p)"
  proof (rule status_between)
    show "\<forall>t \<in> set (p_thresholds p). th_value t < min v ?m \<or> max v ?m < th_value t"
    proof
      fix t assume t: "t \<in> set (p_thresholds p)"
      with gap v have "th_value t \<le> a \<or> b \<le> th_value t" "th_value t \<noteq> v" by force+
      with m v show "th_value t < min v ?m \<or> max v ?m < th_value t" by auto
    qed
  qed simp
  then show ?thesis
    by (cases "v \<le> ?m") (simp_all add: band_status_def min_def max_def split: if_splits)
qed

lemma band_step_ok:
  assumes ok: "bands_ok p lo a bands" and "a \<le> b"
    and gap: "\<forall>t \<in> set (p_thresholds p). \<not> (a < th_value t \<and> th_value t < b)"
  shows "bands_ok p lo b (band_step p bands (a, b))"
proof (cases "b = a")
  case True
  with ok show ?thesis by (simp add: band_step_def)
next
  case False
  with \<open>a \<le> b\<close> have ab: "a < b" by simp
  let ?st = "band_status p ((a + b) / 2)"
  have ends: "\<forall>e \<in> set bands. fst e \<le> a" and lo: "lo \<le> a"
  proof -
    have "\<forall>x \<in> set (lo # map fst bands). x \<le> last (lo # map fst bands)"
      using ok unfolding bands_ok_def
      by (metis append_butlast_last_id less_imp_le list.distinct(1) order_refl set_ConsD
          rotate1.simps(2) set_rotate1 sorted_wrt_append list.set_intros(1))
    with ok show "\<forall>e \<in> set bands. fst e \<le> a" "lo \<le> a" by (auto simp: bands_ok_def)
  qed
  have new: "band_status p v = ?st"
    if "a < v" "v \<le> b" "\<forall>t \<in> set (p_thresholds p). th_value t \<noteq> v" for v
    using band_status_gap [OF gap that] .
  have old: "band_of bands v = Some (band_status p v)"
    if "lo < v" "v \<le> a" "\<forall>t \<in> set (p_thresholds p). th_value t \<noteq> v" for v
    using ok that by (simp add: bands_ok_def)
  show ?thesis
  proof (cases "bands = [] \<or> snd (last bands) \<noteq> ?st")
    case True
    then have eq: "band_step p bands (a, b) = bands @ [(b, ?st)]"
      using False by (auto simp: band_step_def Let_def last_opt_def band_status_def split: prod.split)
    show ?thesis
      unfolding eq bands_ok_def
    proof (intro conjI allI impI)
      show "sorted_wrt (<) (lo # map fst (bands @ [(b, ?st)]))"
        using ok ends ab lo by (force simp: bands_ok_def sorted_wrt_append)
      fix v assume v: "lo < v \<and> v \<le> b \<and> (\<forall>t \<in> set (p_thresholds p). th_value t \<noteq> v)"
      show "band_of (bands @ [(b, ?st)]) v = Some (band_status p v)"
      proof (cases "v \<le> a")
        case True
        with v old have o: "band_of bands v = Some (band_status p v)" by simp
        then show ?thesis using band_of_Some_in [OF o] by (simp add: band_of_append)
      next
        case False
        with ends have "\<not> (\<exists>e \<in> set bands. v \<le> fst e)" by force
        with False v new show ?thesis by (simp add: band_of_append)
      qed
    qed simp
  next
    case False
    then obtain bs e where bs: "bands = bs @ [(e, ?st)]"
      by (metis append_butlast_last_id prod.collapse)
    with ok have e: "e = a" by (simp add: bands_ok_def)
    have eq: "band_step p bands (a, b) = bs @ [(b, ?st)]"
      using ab by (simp add: bs band_step_def Let_def band_status_def)
    show ?thesis
      unfolding eq bands_ok_def
    proof (intro conjI allI impI)
      show "sorted_wrt (<) (lo # map fst (bs @ [(b, ?st)]))"
        using ok ab unfolding bs e by (force simp: bands_ok_def sorted_wrt_append)
      fix v assume v: "lo < v \<and> v \<le> b \<and> (\<forall>t \<in> set (p_thresholds p). th_value t \<noteq> v)"
      show "band_of (bs @ [(b, ?st)]) v = Some (band_status p v)"
      proof (cases "v \<le> a")
        case True
        with v old have "band_of (bs @ [(a, ?st)]) v = Some (band_status p v)" by (simp add: bs e)
        with True ab show ?thesis by (auto simp: band_of_append split: if_splits)
      next
        case False
        with ends have "\<not> (\<exists>e \<in> set bs. v \<le> fst e)" by (force simp: bs)
        with False v new show ?thesis by (simp add: band_of_append)
      qed
    qed simp
  qed
qed

lemma sorted_gap:
  "sorted (es :: real list) \<Longrightarrow> (a, b) \<in> set (zip es (tl es)) \<Longrightarrow> t \<in> set es \<Longrightarrow> \<not> (a < t \<and> t < b)"
proof (induction es rule: induct_list012)
  case (3 x y zs)
  then have "x \<le> y" "\<forall>z \<in> set zs. y \<le> z" by auto
  moreover have "a \<in> set (x # y # zs)"
    using 3 set_zip_leftD by metis
  ultimately have "x \<le> a" "a = x \<or> y \<le> a" by auto
  with 3 \<open>\<forall>z \<in> set zs. y \<le> z\<close> show ?case by auto
qed auto

lemma band_loop_ok:
  assumes "bands_ok p lo a bands" "sorted (a # es)"
    and "\<forall>(x, y) \<in> set (zip (a # es) es). \<forall>t \<in> set (p_thresholds p). \<not> (x < th_value t \<and> th_value t < y)"
  shows "bands_ok p lo (last (a # es)) (foldl (band_step p) bands (zip (a # es) es))"
  using assms
proof (induction es arbitrary: a bands)
  case (Cons b es)
  have "bands_ok p lo b (band_step p bands (a, b))"
    using Cons.prems by (intro band_step_ok) auto
  from Cons.IH [OF this] Cons.prems show ?case by simp
qed simp

lemma gauge_edges_props:
  assumes "mn \<le> mx"
  shows "\<exists>es. gauge_edges p mn mx = mn # es \<and> sorted (mn # es) \<and> last (mn # es) = mx"
    and "\<forall>(x, y) \<in> set (zip (gauge_edges p mn mx) (tl (gauge_edges p mn mx))).
      \<forall>t \<in> set (p_thresholds p). \<not> (x < th_value t \<and> th_value t < y)"
proof -
  let ?raw = "(mn # map (\<lambda>t. min mx (max mn (th_value t))) (p_thresholds p)) @ [mx]"
  let ?E = "gauge_edges p mn mx"
  have E: "?E = sort_by (\<le>) ?raw" by (simp only: gauge_edges_def)
  have sorted: "sorted ?E" unfolding E by (rule real_le.sorted_sort_by)
  have range: "\<forall>x \<in> set ?raw. mn \<le> x \<and> x \<le> mx" using assms by auto
  have set: "set ?E = set ?raw" unfolding E by (rule set_sort_by)
  have ne: "?E \<noteq> []" unfolding E sort_by_eq_Nil_iff by simp
  have "hd ?E \<le> mn" unfolding E by (rule real_le.sort_by_first) auto
  moreover have "mn \<le> hd ?E" using range set hd_in_set [OF ne] by metis
  ultimately have hd: "hd ?E = mn" by simp
  have "mx \<le> last ?E" unfolding E by (rule real_le.sort_by_last) auto
  moreover have "last ?E \<le> mx" using range set last_in_set [OF ne] by metis
  ultimately have last: "last ?E = mx" by simp
  have split: "?E = mn # tl ?E"
    using hd ne by (metis list.collapse)
  with sorted last have "sorted (mn # tl ?E) \<and> last (mn # tl ?E) = mx" by metis
  with split show "\<exists>es. ?E = mn # es \<and> sorted (mn # es) \<and> last (mn # es) = mx" by blast
  show "\<forall>(x, y) \<in> set (zip ?E (tl ?E)).
      \<forall>t \<in> set (p_thresholds p). \<not> (x < th_value t \<and> th_value t < y)"
  proof (clarify)
    fix x y t
    assume xy: "(x, y) \<in> set (zip ?E (tl ?E))" and t: "t \<in> set (p_thresholds p)"
      and lt: "x < th_value t" "th_value t < y"
    have "mn \<le> x" using range set set_zip_leftD [OF xy] by metis
    moreover have "y \<in> set ?E" using set_zip_rightD [OF xy] ne by (metis list.set_sel(2))
    then have "y \<le> mx" using range set by metis
    ultimately have "min mx (max mn (th_value t)) = th_value t" using lt by simp
    with t have "th_value t \<in> set ?E" unfolding set by force
    from sorted_gap [OF sorted xy this] lt show False by simp
  qed
qed

text \<open>The bands partition the gauge, and a value's band has the value's status.\<close>

lemma raw_bands_ok:
  assumes "mn < mx"
  shows "bands_ok p mn mx (raw_bands p mn mx)"
proof -
  obtain es where es: "gauge_edges p mn mx = mn # es" "sorted (mn # es)" "last (mn # es) = mx"
    using gauge_edges_props(1) [of mn mx p] assms by auto
  have gaps: "\<forall>(x, y) \<in> set (zip (mn # es) es). \<forall>t \<in> set (p_thresholds p).
      \<not> (x < th_value t \<and> th_value t < y)"
    using gauge_edges_props(2) [of mn mx p] assms es by simp
  have "bands_ok p mn mn []" by (simp add: bands_ok_def)
  from band_loop_ok [OF this es(2) gaps] es(3)
  have ok: "bands_ok p mn mx (foldl (band_step p) [] (zip (mn # es) es))" by simp
  then have "foldl (band_step p) [] (zip (mn # es) es) \<noteq> []"
    using assms by (auto simp: bands_ok_def)
  with ok es(1) show ?thesis by (simp add: raw_bands_def)
qed

section \<open>Properties\<close>

text \<open>
  The status of a value is the worst one among the thresholds it has crossed in
  the worsening direction, and ok when it has crossed none.
\<close>

theorem statusFor_is_worst_crossed:
  assumes "ts \<noteq> []"
  shows "\<exists>st. statusFor (Some v) ts better = Some st
    \<and> rank st = Max (insert 0 ((\<lambda>t. rank (th_status t))
        ` {t \<in> set ts. crossed (or_else better (thresholdDirection ts)) v t}))"
  using assms rank_foldl_status [of "or_else better (thresholdDirection ts)" v StOk ts]
  by (simp add: statusFor_def)

definition demo_thresholds :: "threshold list" where
  "demo_thresholds = [\<lparr>th_value = 10, th_status = StBad, th_label = None\<rparr>,
     \<lparr>th_value = 5, th_status = StWarn, th_label = None\<rparr>]"

theorem statusFor_is_worst_crossed_witness:
  "\<exists>st. statusFor (Some 7) demo_thresholds None = Some st
    \<and> rank st = Max (insert 0 ((\<lambda>t. rank (th_status t))
        ` {t \<in> set demo_thresholds. crossed (or_else None (thresholdDirection demo_thresholds)) 7 t}))"
  by (rule statusFor_is_worst_crossed) (simp add: demo_thresholds_def)

text \<open>
  Status is monotone: a larger value is never healthier where lower is better,
  and never less healthy where higher is better; thresholds that name no direction worsen
  upward unless the worst of them lies below the mildest.
\<close>

theorem statusFor_monotone:
  assumes "ts \<noteq> []" "v \<le> w" "statusFor (Some v) ts better = Some a" "statusFor (Some w) ts better = Some b"
  shows "(or_else better (thresholdDirection ts) = Some Lower \<longrightarrow> rank a \<le> rank b)
    \<and> (or_else better (thresholdDirection ts) = Some Higher \<longrightarrow> rank b \<le> rank a)
    \<and> or_else better (thresholdDirection ts) \<noteq> None"
  using assms status_mono_lower [OF assms(2)] status_mono_higher [OF assms(2)]
  by (auto simp: statusFor_def thresholdDirection_def Let_def or_else_def split: option.splits)

theorem statusFor_monotone_witness:
  "rank StWarn \<le> rank StBad"
proof (rule statusFor_monotone [of demo_thresholds 7 12 None StWarn StBad, THEN conjunct1, THEN mp])
  show "demo_thresholds \<noteq> []" by (simp add: demo_thresholds_def)
  show "(7::real) \<le> 12" by simp
  have d: "thresholdDirection demo_thresholds = Some Lower"
    by (simp add: demo_thresholds_def thresholdDirection_def rank_le_def)
  show "statusFor (Some 7) demo_thresholds None = Some StWarn"
    and "statusFor (Some 12) demo_thresholds None = Some StBad"
    unfolding statusFor_def d
    by (simp_all add: demo_thresholds_def status_step_def crossed_def)
  show "or_else None (thresholdDirection demo_thresholds) = Some Lower"
    unfolding d by simp
qed


definition demo_gauge :: panel where
  "demo_gauge = \<lparr>p_id = ''g'', p_title = ''G'', p_viz = Gauge, p_query = None, p_unit = None,
     p_x_unit = None, p_reduce = None, p_thresholds = demo_thresholds, p_better = None, p_min = None,
     p_max = None, p_options = None, p_drill = None, p_time_range = None, p_time_shift = None,
     p_content = None, p_grid = None\<rparr>"


end
