(* ===== verification/Frames.thy ===== *)
theory Frames
  imports Panel_Types
begin

text \<open>
  ui/panels/frame.ts and ui/panels/rows.ts: the columnar frame of a panel result read as
  time series, as bar categories, as one headline number and as row objects.
\<close>

section \<open>Group names and columns\<close>

definition groupName :: "string \<Rightarrow> string" where
  "groupName s = (if s = [] then ''(none)'' else s)"

definition role_index :: "col_role \<Rightarrow> frame \<Rightarrow> nat option" where
  "role_index r f = find_index (\<lambda>c. c_role c = r) (f_columns f)"

definition measureColumns :: "frame \<Rightarrow> nat list" where
  "measureColumns f = indices_where (\<lambda>c. c_role c = RMeasure) (f_columns f)"

definition dimensionColumns :: "frame \<Rightarrow> nat list" where
  "dimensionColumns f = indices_where (\<lambda>c. c_role c = RDimension) (f_columns f)"

section \<open>Time series\<close>

text \<open>\<open>Number(cell)\<close> of a time cell: null reads 0, a string as the parameter \<open>pn\<close> says.\<close>

definition to_number :: "(string \<Rightarrow> num) \<Rightarrow> cell option \<Rightarrow> num" where
  "to_number pn c = (case c of
      Some (CNum n) \<Rightarrow> n | Some (CStr s) \<Rightarrow> pn s | Some CNull \<Rightarrow> Fin 0 | None \<Rightarrow> NaN)"

record series =
  s_name :: string
  s_unit :: "string option"
  s_points :: "(num \<times> real option) list"

text \<open>One step of the loop over rows: append the point to the series of the row's key.\<close>

definition series_step ::
  "(num \<Rightarrow> string) \<Rightarrow> (string \<Rightarrow> num) \<Rightarrow> frame \<Rightarrow> nat \<Rightarrow> nat \<Rightarrow> nat
    \<Rightarrow> (string, series) omap \<Rightarrow> nat \<Rightarrow> (string, series) omap" where
  "series_step sn pn f t d m by_name row =
    (let key = cell_str sn (cell_at f d row);
         s = (case map_of by_name key of
               Some s \<Rightarrow> s
             | None \<Rightarrow> \<lparr>s_name = groupName key, s_unit = c_unit (f_columns f ! m), s_points = []\<rparr>)
     in AList.update key
          (s\<lparr>s_points := s_points s @ [(to_number pn (cell_at f t row), cell_num (cell_at f m row))]\<rparr>)
          by_name)"

definition toSeries :: "(num \<Rightarrow> string) \<Rightarrow> (string \<Rightarrow> num) \<Rightarrow> frame \<Rightarrow> series list" where
  "toSeries sn pn f = (case role_index RTime f of
      None \<Rightarrow> []
    | Some t \<Rightarrow> (case (role_index RDimension f, measureColumns f) of
        (Some d, m # _) \<Rightarrow> map_vals (foldl (series_step sn pn f t d m) [] [0..<f_rows f])
      | (_, ms) \<Rightarrow> map (\<lambda>m. \<lparr>s_name = c_name (f_columns f ! m), s_unit = c_unit (f_columns f ! m),
          s_points = map (\<lambda>row. (to_number pn (cell_at f t row), cell_num (cell_at f m row)))
            [0..<length (f_values f ! t)]\<rparr>) ms))"

text \<open>The points of the rows whose key is \<open>k\<close>, in row order.\<close>

definition points_of ::
  "(num \<Rightarrow> string) \<Rightarrow> (string \<Rightarrow> num) \<Rightarrow> frame \<Rightarrow> nat \<Rightarrow> nat \<Rightarrow> nat \<Rightarrow> string \<Rightarrow> nat list
    \<Rightarrow> (num \<times> real option) list" where
  "points_of sn pn f t d m k rows =
    map (\<lambda>row. (to_number pn (cell_at f t row), cell_num (cell_at f m row)))
      (filter (\<lambda>row. cell_str sn (cell_at f d row) = k) rows)"

lemma series_step_as_update:
  "series_step sn pn f t d m by_name row = AList.update (cell_str sn (cell_at f d row))
     (let s = nullish (map_of by_name (cell_str sn (cell_at f d row)))
            \<lparr>s_name = groupName (cell_str sn (cell_at f d row)), s_unit = c_unit (f_columns f ! m),
             s_points = []\<rparr>
      in s\<lparr>s_points := s_points s @ [(to_number pn (cell_at f t row), cell_num (cell_at f m row))]\<rparr>)
     by_name"
  by (simp add: series_step_def nullish_def Let_def)

lemma series_loop_keys:
  "map_keys (foldl (series_step sn pn f t d m) [] rows)
    = uniq (map (\<lambda>row. cell_str sn (cell_at f d row)) rows)"
  unfolding series_step_as_update [abs_def]
  by (subst omap.keys_foldl) (simp add: map_keys_def filter_True)

lemma series_loop_ok: "map_ok (foldl (series_step sn pn f t d m) [] rows)"
  unfolding series_step_as_update [abs_def]
  by (rule omap.wf_foldl) simp

lemma series_step_get:
  "map_of (series_step sn pn f t d m by_name row) k =
    (if k = cell_str sn (cell_at f d row)
     then (let s = nullish (map_of by_name k)
            \<lparr>s_name = groupName k, s_unit = c_unit (f_columns f ! m), s_points = []\<rparr>
      in Some (s\<lparr>s_points := s_points s @
          [(to_number pn (cell_at f t row), cell_num (cell_at f m row))]\<rparr>))
     else map_of by_name k)"
  by (simp add: series_step_as_update update_conv Let_def)

lemma series_loop_get:
  "map_of (foldl (series_step sn pn f t d m) [] rows) k =
    (if k \<in> (\<lambda>row. cell_str sn (cell_at f d row)) ` set rows
     then Some \<lparr>s_name = groupName k, s_unit = c_unit (f_columns f ! m),
        s_points = points_of sn pn f t d m k rows\<rparr>
     else None)"
proof (induction rows rule: rev_induct)
  case (snoc row rows)
  show ?case
  proof (cases "k = cell_str sn (cell_at f d row)")
    case True
    note key = True [symmetric]
    have none: "filter (\<lambda>row. cell_str sn (cell_at f d row) = k) rows = []"
      if "k \<notin> (\<lambda>row. cell_str sn (cell_at f d row)) ` set rows"
      using that by (auto simp: filter_empty_conv image_iff)
    show ?thesis
      by (cases "k \<in> (\<lambda>row. cell_str sn (cell_at f d row)) ` set rows")
        (simp_all add: series_step_get snoc.IH key points_of_def none)
  next
    case False
    then show ?thesis
      by (simp add: series_step_get snoc.IH points_of_def)
  qed
qed simp

lemma map_vals_by_keys:
  "map_ok m \<Longrightarrow> map_vals m = map (\<lambda>k. the (map_of m k)) (map_keys m)"
  by (auto simp: map_ok_def map_vals_def map_keys_def)

text \<open>The whole loop: one series per key in order of first appearance.\<close>

lemma series_loop_vals:
  "map_vals (foldl (series_step sn pn f t d m) [] rows)
    = map (\<lambda>k. \<lparr>s_name = groupName k, s_unit = c_unit (f_columns f ! m),
              s_points = points_of sn pn f t d m k rows\<rparr>)
        (uniq (map (\<lambda>row. cell_str sn (cell_at f d row)) rows))"
  by (subst map_vals_by_keys [OF series_loop_ok])
    (auto simp: series_loop_keys series_loop_get)

lemma toSeries_dimension:
  assumes "role_index RTime f = Some t" "role_index RDimension f = Some d"
    and "measureColumns f = m # ms"
  shows "toSeries sn pn f
    = map (\<lambda>k. \<lparr>s_name = groupName k, s_unit = c_unit (f_columns f ! m),
              s_points = points_of sn pn f t d m k [0..<f_rows f]\<rparr>)
        (uniq (map (\<lambda>row. cell_str sn (cell_at f d row)) [0..<f_rows f]))"
  using assms by (simp add: toSeries_def series_loop_vals)

lemma points_of_count:
  "(\<Sum>k\<leftarrow>uniq (map (\<lambda>row. cell_str sn (cell_at f d row)) rows).
      length (points_of sn pn f t d m k rows)) = length rows"
proof -
  have "(\<Sum>k\<leftarrow>uniq (map g rows). length (filter (\<lambda>row. g row = k) rows)) = length rows"
    for g :: "nat \<Rightarrow> string"
  proof -
    have "(\<Sum>k\<leftarrow>uniq (map g rows). length (filter (\<lambda>row. g row = k) rows))
        = (\<Sum>k \<in> g ` set rows. card {i. i < length rows \<and> g (rows ! i) = k})"
      by (simp add: sum_list_distinct_conv_sum_set length_filter_conv_card)
    also have "\<dots> = card (\<Union>k \<in> g ` set rows. {i. i < length rows \<and> g (rows ! i) = k})"
      by (rule card_UN_disjoint [symmetric]) auto
    also have "(\<Union>k \<in> g ` set rows. {i. i < length rows \<and> g (rows ! i) = k}) = {..<length rows}"
      by (auto intro: nth_mem)
    finally show ?thesis by simp
  qed
  then show ?thesis by (simp add: points_of_def)
qed

section \<open>Categories of a bar chart\<close>

record cat_series =
  cs_name :: string
  cs_unit :: "string option"
  cs_values :: "real option list"

text \<open>
  One step of the split loop: a new group starts with a hole for every category, then the
  row's value goes to its category's place.
\<close>

definition group_step ::
  "(num \<Rightarrow> string) \<Rightarrow> frame \<Rightarrow> nat \<Rightarrow> nat \<Rightarrow> nat \<Rightarrow> string list
    \<Rightarrow> (string, real option list) omap \<Rightarrow> nat \<Rightarrow> (string, real option list) omap" where
  "group_step sn f cat split m categories groups row =
    (let group = cell_str sn (cell_at f split row);
         values = nullish (map_of groups group) (map (\<lambda>_. None) categories);
         values' = (case find_index (\<lambda>c. c = cell_str sn (cell_at f cat row)) categories of
             Some i \<Rightarrow> values[i := cell_num (cell_at f m row)] | None \<Rightarrow> values)
     in AList.update group values' groups)"

definition toCategories :: "(num \<Rightarrow> string) \<Rightarrow> frame \<Rightarrow> string list \<times> cat_series list" where
  "toCategories sn f = (case (dimensionColumns f, measureColumns f) of
      ([], _) \<Rightarrow> ([], [])
    | (_, []) \<Rightarrow> ([], [])
    | (cat # rest, m # ms) \<Rightarrow>
       (let categories = foldl push_new [] (map (\<lambda>row. cell_str sn (cell_at f cat row)) [0..<f_rows f])
        in case rest of
            split # _ \<Rightarrow> (categories, map (\<lambda>(name, values).
                \<lparr>cs_name = name, cs_unit = c_unit (f_columns f ! m), cs_values = values\<rparr>)
              (foldl (group_step sn f cat split m categories) [] [0..<f_rows f]))
          | [] \<Rightarrow> (categories, map (\<lambda>m. \<lparr>cs_name = c_name (f_columns f ! m),
                cs_unit = c_unit (f_columns f ! m),
                cs_values = map (\<lambda>c. cell_num (Some c)) (f_values f ! m)\<rparr>) (m # ms))))"

lemma group_step_as_update:
  "group_step sn f cat split m categories groups row =
    AList.update (cell_str sn (cell_at f split row))
     (let values = nullish (map_of groups (cell_str sn (cell_at f split row)))
            (map (\<lambda>_. None) categories)
      in case find_index (\<lambda>c. c = cell_str sn (cell_at f cat row)) categories of
             Some i \<Rightarrow> values[i := cell_num (cell_at f m row)] | None \<Rightarrow> values) groups"
  by (simp add: group_step_def Let_def)

lemma group_loop_keys:
  "map_keys (foldl (group_step sn f cat split m categories) [] rows)
    = uniq (map (\<lambda>row. cell_str sn (cell_at f split row)) rows)"
  unfolding group_step_as_update [abs_def]
  by (subst omap.keys_foldl) (simp add: map_keys_def filter_True)

text \<open>Every group has one place per category, whatever the rows.\<close>

lemma group_loop_lengths:
  "\<forall>values \<in> snd ` set groups. length values = length categories \<Longrightarrow>
    \<forall>values \<in> snd ` set (foldl (group_step sn f cat split m categories) groups rows).
      length values = length categories"
proof (induction rows arbitrary: groups)
  case (Cons row rows)
  let ?new = "case find_index (\<lambda>c. c = cell_str sn (cell_at f cat row)) categories of
      Some i \<Rightarrow> (nullish (map_of groups (cell_str sn (cell_at f split row)))
        (map (\<lambda>_. None) categories))[i := cell_num (cell_at f m row)]
    | None \<Rightarrow> nullish (map_of groups (cell_str sn (cell_at f split row))) (map (\<lambda>_. None) categories)"
  have "length (nullish (map_of groups k) (map (\<lambda>_. None) categories)) = length categories" for k
  proof (cases "map_of groups k")
    case (Some v)
    then have "v \<in> snd ` set groups" by (force dest: map_of_SomeD)
    with Cons.prems have "length v = length categories" by (rule bspec)
    with Some show ?thesis by simp
  qed simp
  then have new: "length ?new = length categories"
    by (simp split: option.split)
  have upd: "snd ` set (AList.update k v m) \<subseteq> insert v (snd ` set m)" for k v and m :: "(string, real option list) omap"
    by (induction m) auto
  have sub: "snd ` set (group_step sn f cat split m categories groups row)
      \<subseteq> insert ?new (snd ` set groups)"
    unfolding group_step_as_update Let_def by (rule upd)
  have "P ` B \<subseteq> insert x A \<Longrightarrow> Q x \<Longrightarrow> \<forall>v \<in> A. Q v \<Longrightarrow> \<forall>v \<in> P ` B. Q v"
    for P B A x and Q :: "real option list \<Rightarrow> bool"
    by auto
  from this [OF sub new Cons.prems] have "\<forall>values \<in> snd ` set (group_step sn f cat split m categories groups row).
      length values = length categories" .
  then show ?case unfolding foldl.simps by (rule Cons.IH)
qed simp

section \<open>The headline number\<close>

definition reduce :: "real option list \<Rightarrow> reducer \<Rightarrow> real option" where
  "reduce vs r = (case present vs of
      [] \<Rightarrow> None
    | p # ps \<Rightarrow> Some (case r of
          RLast \<Rightarrow> last (p # ps)
        | RMin \<Rightarrow> min_of p ps
        | RMax \<Rightarrow> max_of p ps
        | RSum \<Rightarrow> sum_list (p # ps)
        | _ \<Rightarrow> sum_list (p # ps) / real (length (p # ps))))"

definition column_nums :: "frame \<Rightarrow> nat \<Rightarrow> real option list" where
  "column_nums f m = map (\<lambda>c. cell_num (Some c)) (f_values f ! m)"

definition statValue :: "panel \<Rightarrow> frame \<Rightarrow> real option" where
  "statValue p f = (case measureColumns f of
      [] \<Rightarrow> None
    | m # _ \<Rightarrow>
      (if nullish (p_reduce p) RWindow = RWindow then
         (case f_totals f of
            Some totals \<Rightarrow> cell_num (nth_opt totals m)
          | None \<Rightarrow> reduce (column_nums f m) RMean)
       else reduce (column_nums f m) (nullish (p_reduce p) RMean)))"

definition sparkline :: "frame \<Rightarrow> real option list" where
  "sparkline f = (case measureColumns f of [] \<Rightarrow> [] | m # _ \<Rightarrow> column_nums f m)"

lemma reduce_None_iff: "reduce vs r = None \<longleftrightarrow> (\<forall>v \<in> set vs. v = None)"
  by (auto simp: reduce_def present_eq_Nil_iff [symmetric] split: list.splits)

lemma sum_list_bounds:
  fixes xs :: "real list"
  assumes "\<forall>x \<in> set xs. lo \<le> x \<and> x \<le> hi"
  shows "lo * real (length xs) \<le> sum_list xs \<and> sum_list xs \<le> hi * real (length xs)"
  using assms by (induction xs) (auto simp: algebra_simps)

lemma mean_bounds:
  assumes "reduce vs RMean = Some x" "reduce vs RMin = Some lo" "reduce vs RMax = Some hi"
  shows "lo \<le> x \<and> x \<le> hi"
proof -
  obtain p ps where p: "present vs = p # ps"
    using assms by (auto simp: reduce_def split: list.splits)
  with assms have lo: "lo = min_of p ps" and hi: "hi = max_of p ps"
    and x: "x = sum_list (p # ps) / real (length (p # ps))"
    by (simp_all add: reduce_def)
  have "\<forall>y \<in> set (p # ps). lo \<le> y \<and> y \<le> hi"
    using lo hi by (auto intro: min_of_le max_of_ge)
  from sum_list_bounds [OF this] show ?thesis
    unfolding x by (simp add: pos_le_divide_eq pos_divide_le_eq del: sum_list.Cons)
qed

section \<open>Rows as objects\<close>

type_synonym row = "(string, cell) omap"

definition frame_cell :: "frame \<Rightarrow> nat \<Rightarrow> nat \<Rightarrow> cell" where
  "frame_cell f c r = (case nullish (cell_at f c r) CNull of
      CNum n \<Rightarrow> if is_finite n then CNum n else CNull | x \<Rightarrow> x)"

definition frameRows :: "frame \<Rightarrow> row list" where
  "frameRows f = map (\<lambda>r. from_entries
      (map (\<lambda>i. (c_name (f_columns f ! i), frame_cell f i r)) [0..<length (f_columns f)]))
    [0..<f_rows f]"

definition finite_cell :: "cell \<Rightarrow> bool" where
  "finite_cell c = (case c of CNum n \<Rightarrow> is_finite n | _ \<Rightarrow> True)"

lemma frame_cell_finite [simp]: "finite_cell (frame_cell f c r)"
  by (auto simp: frame_cell_def finite_cell_def split: cell.splits)

lemma map_nth_names: "map (\<lambda>i. f (xs ! i)) [0..<length xs] = map f xs"
  by (rule nth_equalityI) simp_all

lemma frameRows_keys:
  "r \<in> set (frameRows f) \<Longrightarrow> map_keys r = uniq (map c_name (f_columns f))"
  by (auto simp: frameRows_def keys_from_entries o_def map_nth_names)

lemma set_from_entries: "set (from_entries es) \<subseteq> set es"
proof (induction es rule: rev_induct)
  case (snoc e es)
  have "set (AList.update k v m) \<subseteq> insert (k, v) (set m)" for k v and m :: "('a, 'b) omap"
    by (induction m) auto
  with snoc show ?case
    by (fastforce simp: from_entries_def)
qed (simp add: from_entries_def)

lemma frameRows_finite:
  assumes "r \<in> set (frameRows f)" "map_of r k = Some c"
  shows "finite_cell c"
proof -
  obtain n where n: "r = from_entries
      (map (\<lambda>i. (c_name (f_columns f ! i), frame_cell f i n)) [0..<length (f_columns f)])"
    using assms(1) by (auto simp: frameRows_def)
  have "(k, c) \<in> set r" using assms(2) by (rule map_of_SomeD)
  then have "(k, c) \<in> set (map (\<lambda>i. (c_name (f_columns f ! i), frame_cell f i n))
      [0..<length (f_columns f)])"
    unfolding n by (rule subsetD [OF set_from_entries])
  then show ?thesis by auto
qed

text \<open>Context dimensions that have one value in every row of a log panel.\<close>

definition foldable :: "column \<Rightarrow> bool" where
  "foldable c \<longleftrightarrow> c_role c = RDimension \<and> c_type c = TString
     \<and> \<not> str_in (c_name c) [''body'', ''body_template'', ''severity'', ''status'']
     \<and> \<not> (c_name c = ''id'' \<or> ends_with (c_name c) ''_id'')"

definition logConstants :: "panel \<Rightarrow> frame option \<Rightarrow> (string \<times> string) list" where
  "logConstants p fo = (case fo of
      None \<Rightarrow> []
    | Some f \<Rightarrow> if p_viz p \<noteq> Logs \<or> f_rows f < 2 then []
      else concat (map (\<lambda>i. let c = f_columns f ! i in
          if \<not> foldable c then []
          else (case cell_at f i 0 of
              Some (CStr v) \<Rightarrow>
                if v \<noteq> [] \<and> list_all (\<lambda>x. x = CStr v) (take (f_rows f) (f_values f ! i))
                then [(c_name c, v)] else []
            | _ \<Rightarrow> [])) [0..<length (f_columns f)]))"

definition attribute_column :: "string \<Rightarrow> string" where
  "attribute_column by =
    (if starts_with by ''attributes['' \<or> starts_with by ''resource[''
     then js_slice by (index_of_char (CHR 0x27) by + 1) (last_index_of_char (CHR 0x27) by)
     else by)"

definition row_str :: "row \<Rightarrow> string \<Rightarrow> string option" where
  "row_str r k = (case map_of r k of Some (CStr s) \<Rightarrow> Some s | _ \<Rightarrow> None)"

definition row_num :: "row \<Rightarrow> string \<Rightarrow> num option" where
  "row_num r k = (case map_of r k of Some (CNum n) \<Rightarrow> Some n | _ \<Rightarrow> None)"

definition row_selection :: "(num \<Rightarrow> string) \<Rightarrow> panel \<Rightarrow> row \<Rightarrow> selection" where
  "row_selection sn p r =
    \<lparr>sel_from = None, sel_to = None,
     sel_time = or_else (row_num r ''time'') (row_num r ''start''),
     sel_dimensions = foldl (\<lambda>m by. case map_of r (attribute_column by) of
         None \<Rightarrow> m | Some CNull \<Rightarrow> m
       | Some c \<Rightarrow> AList.update by (cell_str sn (Some c)) m)
       [] (case p_query p of None \<Rightarrow> [] | Some q \<Rightarrow> q_by q),
     sel_trace_id = row_str r ''trace_id'', sel_namespace = row_str r ''namespace'',
     sel_bucket = None\<rparr>"

definition rowModel ::
  "(num \<Rightarrow> string) \<Rightarrow> panel \<Rightarrow> panel_result \<Rightarrow> string list \<times> row list \<times> (row \<Rightarrow> selection)" where
  "rowModel sn p res = (let f = nullish (r_frame res) empty_frame
     in (map c_name (f_columns f), frameRows f, row_selection sn p))"

lemma logConstants_sound:
  assumes "(k, v) \<in> set (logConstants p (Some f))" "frame_ok f"
  shows "\<exists>i < length (f_columns f). c_name (f_columns f ! i) = k \<and> foldable (f_columns f ! i)
    \<and> (\<forall>r < f_rows f. cell_at f i r = Some (CStr v))"
proof -
  obtain i where i: "i < length (f_columns f)" "c_name (f_columns f ! i) = k"
    "foldable (f_columns f ! i)"
    and all: "list_all (\<lambda>x. x = CStr v) (take (f_rows f) (f_values f ! i))"
    using assms(1)
    by (auto simp: logConstants_def Let_def split: if_splits option.splits cell.splits)
  have "length (f_values f ! i) = f_rows f"
    using assms(2) i(1) by (rule frame_ok_col)
  then have "cell_at f i r = Some (CStr v)" if "r < f_rows f" for r
    using that all cell_at_ok [OF assms(2) i(1) that] by (simp add: list_all_length)
  with i show ?thesis by blast
qed

section \<open>Properties\<close>

definition demo_frame :: frame where
  "demo_frame = \<lparr>f_columns =
      [\<lparr>c_name = ''time'', c_type = TTime, c_role = RTime, c_unit = None\<rparr>,
       \<lparr>c_name = ''service'', c_type = TString, c_role = RDimension, c_unit = None\<rparr>,
       \<lparr>c_name = ''count'', c_type = TNumber, c_role = RMeasure, c_unit = Some ''count''\<rparr>],
     f_values = [[CNum (Fin 1), CNum (Fin 1), CNum (Fin 2)],
       [CStr ''a'', CStr ''b'', CStr ''a''], [CNum (Fin 4), CNull, CNum (Fin 8)]],
     f_rows = 3, f_totals = None, f_truncated = False, f_periods = None\<rparr>"

definition demo_panel :: panel where
  "demo_panel = \<lparr>p_id = ''p'', p_title = ''P'', p_viz = Stat, p_query = None, p_unit = None,
     p_x_unit = None, p_reduce = Some RMax, p_thresholds = [], p_better = None, p_min = None,
     p_max = None, p_options = None, p_drill = None, p_time_range = None, p_time_shift = None,
     p_content = None, p_grid = None\<rparr>"

text \<open>
  Property C10. On a frame with a time, a dimension and a measure column, the series are the
  distinct dimension values in order of first appearance, each with exactly the points of its
  own rows in row order, and together they hold one point for every row.
\<close>

theorem toSeries_partitions_rows:
  assumes "role_index RTime f = Some t" "role_index RDimension f = Some d"
    and "measureColumns f = m # ms"
  shows "map s_name (toSeries sn pn f)
      = map groupName (uniq (map (\<lambda>row. cell_str sn (cell_at f d row)) [0..<f_rows f]))
    \<and> map s_points (toSeries sn pn f)
      = map (\<lambda>k. points_of sn pn f t d m k [0..<f_rows f])
          (uniq (map (\<lambda>row. cell_str sn (cell_at f d row)) [0..<f_rows f]))
    \<and> (\<Sum>s\<leftarrow>toSeries sn pn f. length (s_points s)) = f_rows f"
  unfolding toSeries_dimension [OF assms]
  by (simp_all add: o_def points_of_count)

theorem toSeries_partitions_rows_witness:
  "(\<Sum>s\<leftarrow>toSeries (\<lambda>_. []) (\<lambda>_. NaN) demo_frame. length (s_points s)) = f_rows demo_frame"
proof (rule toSeries_partitions_rows [where t = 0 and d = 1 and m = 2 and ms = "[]", THEN conjunct2, THEN conjunct2])
  show "role_index RTime demo_frame = Some 0" "role_index RDimension demo_frame = Some 1"
    by (simp_all add: role_index_def demo_frame_def)
  show "measureColumns demo_frame = 2 # []"
    by (simp add: measureColumns_def indices_where_def demo_frame_def upt_rec numeral_eq_Suc)
qed

text \<open>
  The headline number of a panel without totals, for every reducer but the sum,
  lies between the smallest and the largest value the measure column has, and there is none
  exactly when the column holds no finite number.
\<close>

theorem statValue_within_column:
  assumes "measureColumns f = m # ms" "f_totals f = None" "p_reduce p \<noteq> Some RSum"
  shows "(statValue p f = None \<longleftrightarrow> present (column_nums f m) = [])
    \<and> (\<forall>x. statValue p f = Some x \<longrightarrow>
      (\<exists>lo \<in> set (present (column_nums f m)). \<exists>hi \<in> set (present (column_nums f m)). lo \<le> x \<and> x \<le> hi))"
proof (intro conjI allI impI)
  define r where "r = (if nullish (p_reduce p) RWindow = RWindow then RMean else nullish (p_reduce p) RMean)"
  have stat: "statValue p f = reduce (column_nums f m) r"
    using assms by (simp add: statValue_def r_def)
  have r: "r \<noteq> RSum"
    using assms by (cases "p_reduce p") (auto simp: r_def)
  show "statValue p f = None \<longleftrightarrow> present (column_nums f m) = []"
    by (simp add: stat reduce_None_iff present_eq_Nil_iff)
  fix x assume x: "statValue p f = Some x"
  then obtain a as where as: "present (column_nums f m) = a # as"
    by (auto simp: stat reduce_def split: list.splits)
  have lo: "min_of a as \<in> set (a # as)" and hi: "max_of a as \<in> set (a # as)"
    using min_of_in [of a as] max_of_in [of a as] by auto
  have mean: "reduce (column_nums f m) RMean = Some y \<Longrightarrow> min_of a as \<le> y \<and> y \<le> max_of a as" for y
    by (rule mean_bounds [of "column_nums f m"]) (simp_all add: reduce_def as)
  have all: "\<forall>y \<in> set (a # as). min_of a as \<le> y \<and> y \<le> max_of a as"
    by (auto intro: min_of_le max_of_ge)
  have "min_of a as \<le> x \<and> x \<le> max_of a as"
  proof (cases "r = RMean \<or> r = RWindow")
    case True
    then have "reduce (column_nums f m) RMean = Some x"
      using x by (auto simp: stat reduce_def split: list.splits)
    then show ?thesis by (rule mean)
  next
    case False
    with r x have "x = last (a # as) \<or> x = min_of a as \<or> x = max_of a as"
      by (cases r) (auto simp: stat reduce_def as)
    then have "x \<in> set (a # as)" using lo hi by auto
    with all show ?thesis by blast
  qed
  with lo hi show "\<exists>lo \<in> set (present (column_nums f m)). \<exists>hi \<in> set (present (column_nums f m)). lo \<le> x \<and> x \<le> hi"
    unfolding as by blast
qed

theorem statValue_within_column_witness:
  "statValue demo_panel demo_frame = None \<longleftrightarrow> present (column_nums demo_frame 2) = []"
proof (rule statValue_within_column [where ms = "[]", THEN conjunct1])
  show "measureColumns demo_frame = 2 # []"
    by (simp add: measureColumns_def indices_where_def demo_frame_def upt_rec numeral_eq_Suc)
  show "f_totals demo_frame = None" "p_reduce demo_panel \<noteq> Some RSum"
    by (simp_all add: demo_frame_def demo_panel_def)
qed

text \<open>
  Every row object has exactly the frame's column names as its keys, whatever
  is missing from the frame, and no cell of it is NaN or infinite.
\<close>

theorem frameRows_total_and_finite:
  "length (frameRows f) = f_rows f
   \<and> (\<forall>r \<in> set (frameRows f). map_keys r = uniq (map c_name (f_columns f))
        \<and> (\<forall>k c. map_of r k = Some c \<longrightarrow> finite_cell c))"
  using frameRows_keys frameRows_finite by (auto simp: frameRows_def)

theorem frameRows_total_and_finite_witness:
  "length (frameRows demo_frame) = 3"
  using frameRows_total_and_finite [of demo_frame] by (simp add: demo_frame_def)

text \<open>
  A constant folded out of a log panel is a context dimension whose every row
  holds that same string, in any well-formed frame.
\<close>

theorem logConstants_are_constant:
  assumes "(k, v) \<in> set (logConstants p (Some f))" "frame_ok f"
  shows "\<exists>i < length (f_columns f). c_name (f_columns f ! i) = k \<and> foldable (f_columns f ! i)
    \<and> (\<forall>r < f_rows f. cell_at f i r = Some (CStr v))"
  by (rule logConstants_sound [OF assms])

definition demo_logs :: frame where
  "demo_logs = \<lparr>f_columns = [\<lparr>c_name = ''service'', c_type = TString, c_role = RDimension, c_unit = None\<rparr>],
     f_values = [[CStr ''api'', CStr ''api'']], f_rows = 2, f_totals = None, f_truncated = False,
     f_periods = None\<rparr>"

theorem logConstants_are_constant_witness:
  "\<exists>i < length (f_columns demo_logs). c_name (f_columns demo_logs ! i) = ''service''
    \<and> foldable (f_columns demo_logs ! i) \<and> (\<forall>r < f_rows demo_logs. cell_at demo_logs i r = Some (CStr ''api''))"
proof (rule logConstants_are_constant [of _ _ "demo_panel\<lparr>p_viz := Logs\<rparr>"])
  show "(''service'', ''api'') \<in> set (logConstants (demo_panel\<lparr>p_viz := Logs\<rparr>) (Some demo_logs))"
    by (simp add: logConstants_def demo_logs_def foldable_def cell_at_def Let_def ends_with_def
        nth_opt_def numeral_2_eq_2 demo_panel_def)
  show "frame_ok demo_logs" by (simp add: frame_ok_def demo_logs_def)
qed

end
