(* ===== verification/Rollups.thy ===== *)
theory Rollups
  imports Thresholds Frames
begin

text \<open>
  ui/panels/rollups.ts: the service map's graph from a frame of node and edge rows, and the
  ranking of the services with the worst error evidence.
\<close>

definition healthGlyph :: "(string, string) omap" where
  "healthGlyph = [(''healthy'', glyph_circle), (''degraded'', glyph_square),
     (''unhealthy'', glyph_diamond), (''unknown'', glyph_ring)]"

record service_node =
  n_id :: string
  n_health :: string
  n_spans :: "real option"
  n_p95 :: "real option"
  n_error_rate :: "real option"
  n_request_rate :: "real option"

record service_edge =
  e_id :: string
  e_caller :: string
  e_callee :: string
  e_type :: string
  e_calls :: real
  e_average_ms :: "real option"
  e_error_rate :: real
  e_request_rate :: "real option"
  e_status :: "status option"

section \<open>\<open>JSON.stringify\<close> of a list of strings\<close>

definition hex_digit :: "nat \<Rightarrow> char" where
  "hex_digit n = (if n < 10 then char_of (48 + n) else char_of (87 + n))"

definition quote_char :: "char \<Rightarrow> string" where
  "quote_char c = (if c = CHR 0x22 then [CHR 0x5C, CHR 0x22]
     else if c = CHR 0x5C then [CHR 0x5C, CHR 0x5C]
     else if c = CHR 0x08 then [CHR 0x5C, CHR ''b'']
     else if c = CHR 0x0C then [CHR 0x5C, CHR ''f'']
     else if c = CHR 0x0A then [CHR 0x5C, CHR ''n'']
     else if c = CHR 0x0D then [CHR 0x5C, CHR ''r'']
     else if c = CHR 0x09 then [CHR 0x5C, CHR ''t'']
     else if byte c < 32 then [CHR 0x5C] @ ''u00'' @ [hex_digit (byte c div 16), hex_digit (byte c mod 16)]
     else [c])"

definition quote :: "string \<Rightarrow> string" where
  "quote s = [CHR 0x22] @ concat (map quote_char s) @ [CHR 0x22]"

definition json_strings :: "string list \<Rightarrow> string" where
  "json_strings xs = ''['' @ join '','' (map quote xs) @ '']''"

section \<open>The graph\<close>

record graph_state =
  g_nodes :: "(string, service_node) omap"
  g_edges :: "service_edge list"

definition col_index :: "frame \<Rightarrow> (string, nat) omap" where
  "col_index f = from_entries (zip (map c_name (f_columns f)) [0..<length (f_columns f)])"

definition named_cell :: "frame \<Rightarrow> string \<Rightarrow> nat \<Rightarrow> cell option" where
  "named_cell f name row = Option.bind (map_of (col_index f) name) (\<lambda>c. cell_at f c row)"

definition text_of :: "(num \<Rightarrow> string) \<Rightarrow> frame \<Rightarrow> string \<Rightarrow> nat \<Rightarrow> string" where
  "text_of sn f name row = cell_str sn (named_cell f name row)"

definition num_of :: "frame \<Rightarrow> string \<Rightarrow> nat \<Rightarrow> real option" where
  "num_of f name row = cell_num (named_cell f name row)"

text \<open>\<open>seconds\<close>: the window's length, when it has one.\<close>

definition window_seconds :: "real option \<Rightarrow> real option \<Rightarrow> real option" where
  "window_seconds from_ms to_ms = (case (from_ms, to_ms) of
      (Some a, Some b) \<Rightarrow> if a < b then Some ((b - a) / 1000) else None
    | _ \<Rightarrow> None)"

definition rate :: "real option \<Rightarrow> real option \<Rightarrow> real option" where
  "rate seconds n = (case (seconds, n) of (Some s, Some c) \<Rightarrow> Some (c / s) | _ \<Rightarrow> None)"

definition edge_status :: "real \<Rightarrow> status option" where
  "edge_status error_rate = (if 5 \<le> error_rate then Some StBad
     else if 1 \<le> error_rate then Some StWarn else None)"

definition unknown_node :: "string \<Rightarrow> service_node" where
  "unknown_node i = \<lparr>n_id = i, n_health = ''unknown'', n_spans = None, n_p95 = None,
     n_error_rate = None, n_request_rate = None\<rparr>"

definition row_step ::
  "(num \<Rightarrow> string) \<Rightarrow> frame \<Rightarrow> real option \<Rightarrow> graph_state \<Rightarrow> nat \<Rightarrow> graph_state" where
  "row_step sn f seconds g r =
    (if text_of sn f ''kind'' r = ''node'' then
       (let i = text_of sn f ''service'' r; spans = num_of f ''spans'' r;
            h = text_of sn f ''health'' r
        in g\<lparr>g_nodes := AList.update i
             \<lparr>n_id = i, n_health = (if h = [] then ''unknown'' else h), n_spans = spans,
              n_p95 = num_of f ''p95_ms'' r, n_error_rate = num_of f ''error_rate'' r,
              n_request_rate = rate seconds spans\<rparr> (g_nodes g)\<rparr>)
     else if text_of sn f ''kind'' r = ''edge'' then
       (let caller = text_of sn f ''caller'' r; callee = text_of sn f ''callee'' r;
            edge_type = text_of sn f ''edge_type'' r; calls = nullish (num_of f ''calls'' r) 0;
            error_rate = nullish (num_of f ''error_rate'' r) 0
        in g\<lparr>g_edges := g_edges g @ [\<lparr>e_id = json_strings [caller, callee, edge_type],
             e_caller = caller, e_callee = callee, e_type = edge_type, e_calls = calls,
             e_average_ms = num_of f ''average_ms'' r, e_error_rate = error_rate,
             e_request_rate = rate seconds (Some calls), e_status = edge_status error_rate\<rparr>]\<rparr>)
     else g)"

definition add_missing :: "(string, service_node) omap \<Rightarrow> string \<Rightarrow> (string, service_node) omap" where
  "add_missing nodes i = (if map_has nodes i then nodes else AList.update i (unknown_node i) nodes)"

definition endpoints :: "service_edge list \<Rightarrow> string list" where
  "endpoints es = concat (map (\<lambda>e. [e_caller e, e_callee e]) es)"

definition node_le :: "service_node \<Rightarrow> service_node \<Rightarrow> bool" where
  "node_le a b \<longleftrightarrow> str_le (n_id a) (n_id b)"

definition edge_le :: "service_edge \<Rightarrow> service_edge \<Rightarrow> bool" where
  "edge_le a b \<longleftrightarrow> str_le (e_id a) (e_id b)"

interpretation node_le: comparator node_le
  using str_le.total str_le.trans by unfold_locales (auto simp: node_le_def)

interpretation edge_le: comparator edge_le
  using str_le.total str_le.trans by unfold_locales (auto simp: edge_le_def)

definition serviceMapModel ::
  "(num \<Rightarrow> string) \<Rightarrow> frame \<Rightarrow> real option \<Rightarrow> real option \<Rightarrow> service_node list \<times> service_edge list" where
  "serviceMapModel sn f from_ms to_ms =
    (let seconds = window_seconds from_ms to_ms;
         g = foldl (row_step sn f seconds) \<lparr>g_nodes = [], g_edges = []\<rparr> [0..<f_rows f];
         nodes = foldl add_missing (g_nodes g) (endpoints (g_edges g))
     in (sort_by node_le (map_vals nodes), sort_by edge_le (g_edges g)))"

text \<open>Every entry of the node map is stored under its own id.\<close>

definition nodes_ok :: "(string, service_node) omap \<Rightarrow> bool" where
  "nodes_ok m \<longleftrightarrow> map_ok m \<and> (\<forall>(k, n) \<in> set m. n_id n = k)"

lemma set_update_subset: "set (AList.update k v m) \<subseteq> insert (k, v) (set m)"
  by (induction m) auto

lemma nodes_ok_update: "nodes_ok m \<Longrightarrow> n_id v = k \<Longrightarrow> nodes_ok (AList.update k v m)"
  using set_update_subset [of k v m] omap.wf_set [of m k v] unfolding nodes_ok_def by blast

lemma row_step_ok: "nodes_ok (g_nodes g) \<Longrightarrow> nodes_ok (g_nodes (row_step sn f seconds g r))"
  by (simp add: row_step_def Let_def nodes_ok_update)

lemma add_missing_ok: "nodes_ok m \<Longrightarrow> nodes_ok (add_missing m i)"
  by (simp add: add_missing_def nodes_ok_update unknown_node_def)

interpretation rows: event_machine "row_step sn f seconds" "\<lambda>g. nodes_ok (g_nodes g)"
  by unfold_locales (rule row_step_ok)

interpretation missing: event_machine add_missing nodes_ok
  by unfold_locales (rule add_missing_ok)

lemma add_missing_has:
  "map_of (foldl add_missing m is) i \<noteq> None \<longleftrightarrow> map_of m i \<noteq> None \<or> i \<in> set is"
proof (induction "is" arbitrary: m)
  case (Cons j js)
  then show ?case by (auto simp: add_missing_def update_conv)
qed simp

lemma serviceMap_nodes_ok:
  "nodes_ok (foldl add_missing (g_nodes (foldl (row_step sn f seconds) \<lparr>g_nodes = [], g_edges = []\<rparr> rs)) is)"
  by (rule missing.inv_run) (rule rows.inv_run, simp add: nodes_ok_def)

lemma nodes_ok_ids: "nodes_ok m \<Longrightarrow> map n_id (map_vals m) = map_keys m"
  by (auto simp: nodes_ok_def map_vals_def map_keys_def)

section \<open>The worst services\<close>

definition wilson :: "real \<Rightarrow> real \<Rightarrow> real" where
  "wilson error n = (let p = max 0 (min 1 (error / 100)); z2 = 38416 / 10000
     in max 0 ((p + z2 / (2 * n) - 196 / 100 * sqrt (p * (1 - p) / n + z2 / (4 * n * n))) / (1 + z2 / n)))"

record worst =
  w_name :: string
  w_health :: string
  w_n :: real
  w_eligible :: bool
  w_score :: real
  w_metric :: string

definition worst_of :: "(num \<Rightarrow> string) \<Rightarrow> row \<Rightarrow> worst" where
  "worst_of sn r =
    (let n = max 0 (nullish (cell_num (map_of r ''spans'')) 0);
         error = cell_num (map_of r ''error_rate'');
         eligible = (20 \<le> n \<and> error \<noteq> None)
     in \<lparr>w_name = cell_str sn (map_of r ''service''),
         w_health = (case map_of r ''health'' of Some CNull \<Rightarrow> ''unknown'' | None \<Rightarrow> ''unknown''
            | c \<Rightarrow> cell_str sn c),
         w_n = n, w_eligible = eligible,
         w_score = (if eligible then wilson (the error) n else 0),
         w_metric = (case error of Some e \<Rightarrow> toFixed 1 e @ ''%'' | None \<Rightarrow> em_dash)\<rparr>)"

definition worst_le :: "worst \<Rightarrow> worst \<Rightarrow> bool" where
  "worst_le a b \<longleftrightarrow>
    (if w_eligible a \<noteq> w_eligible b then w_eligible a
     else if w_eligible a \<and> w_score a \<noteq> w_score b then w_score b < w_score a
     else if w_n a \<noteq> w_n b then w_n b < w_n a
     else str_le (w_name a) (w_name b))"

definition ranked_services :: "(num \<Rightarrow> string) \<Rightarrow> row list \<Rightarrow> worst list" where
  "ranked_services sn rows = sort_by worst_le
    (map (worst_of sn) (filter (\<lambda>r. row_str r ''service'' \<noteq> None) rows))"

definition worstHealthServices :: "(num \<Rightarrow> string) \<Rightarrow> row list \<Rightarrow> worst list" where
  "worstHealthServices sn rows = take 4 (ranked_services sn rows)"

interpretation worst_le: comparator worst_le
proof unfold_locales
  show "worst_le a b \<or> worst_le b a" for a b
    using str_le.total [of "w_name a" "w_name b"] by (auto simp: worst_le_def)
  show "worst_le a c" if "worst_le a b" "worst_le b c" for a b c
    using that str_le.trans [of "w_name a" "w_name b" "w_name c"]
    unfolding worst_le_def by (auto split: if_splits)
qed

text \<open>The evidence never exceeds the observed rate.\<close>

lemma wilson_le:
  assumes "0 < n"
  shows "wilson error n \<le> max 0 (min 1 (error / 100))"
proof -
  define p where "p = max 0 (min 1 (error / 100))"
  have p: "0 \<le> p" "p \<le> 1" by (auto simp: p_def)
  have "(196 / 100 / (2 * n))\<^sup>2 \<le> p * (1 - p) / n + 38416 / 10000 / (4 * n * n)"
  proof -
    have "(196 / 100 / (2 * n))\<^sup>2 = 38416 / 10000 / (4 * n * n)"
      by (simp add: power2_eq_square)
    moreover have "0 \<le> p * (1 - p) / n" using p assms by simp
    ultimately show ?thesis by simp
  qed
  then have "196 / 100 / (2 * n) \<le> sqrt (p * (1 - p) / n + 38416 / 10000 / (4 * n * n))"
    by (rule real_le_rsqrt)
  then have "196 / 100 * (196 / 100 / (2 * n))
      \<le> 196 / 100 * sqrt (p * (1 - p) / n + 38416 / 10000 / (4 * n * n))"
    by (rule mult_left_mono) simp
  then have "38416 / 10000 / (2 * n) - 196 / 100 * sqrt (p * (1 - p) / n + 38416 / 10000 / (4 * n * n)) \<le> 0"
    by (simp add: field_simps)
  moreover have "0 \<le> p * (38416 / 10000 / n)" using p assms by simp
  ultimately have "p + 38416 / 10000 / (2 * n) - 196 / 100 * sqrt (p * (1 - p) / n + 38416 / 10000 / (4 * n * n))
      \<le> p * (1 + 38416 / 10000 / n)"
    by (simp add: algebra_simps)
  moreover have "0 < 1 + 38416 / 10000 / n" using assms by (simp add: add_pos_pos)
  ultimately have "(p + 38416 / 10000 / (2 * n) - 196 / 100 * sqrt (p * (1 - p) / n + 38416 / 10000 / (4 * n * n)))
      / (1 + 38416 / 10000 / n) \<le> p"
    by (simp add: pos_divide_le_eq)
  with p show ?thesis by (simp add: wilson_def Let_def p_def [symmetric])
qed

section \<open>Properties\<close>

text \<open>
  Property C2. The service map is a closed graph in canonical order: nodes have distinct
  ids, nodes and edges are sorted by id, and both ends of every edge are nodes of the map,
  whatever rows the frame has.
\<close>

theorem serviceMap_closed_and_sorted:
  assumes "serviceMapModel sn f from_ms to_ms = (nodes, edges)"
  shows "distinct (map n_id nodes) \<and> sorted_wrt node_le nodes \<and> sorted_wrt edge_le edges
    \<and> (\<forall>e \<in> set edges. e_caller e \<in> n_id ` set nodes \<and> e_callee e \<in> n_id ` set nodes)"
proof (intro conjI)
  define g where "g = foldl (row_step sn f (window_seconds from_ms to_ms))
    \<lparr>g_nodes = [], g_edges = []\<rparr> [0..<f_rows f]"
  define m where "m = foldl add_missing (g_nodes g) (endpoints (g_edges g))"
  have nodes: "nodes = sort_by node_le (map_vals m)" and edges: "edges = sort_by edge_le (g_edges g)"
    using assms by (simp_all add: serviceMapModel_def Let_def g_def m_def)
  have ok: "nodes_ok m" unfolding m_def g_def by (rule serviceMap_nodes_ok)
  then have ids: "map n_id (map_vals m) = map_keys m" by (rule nodes_ok_ids)
  have "distinct (map_keys m)" using ok by (simp add: nodes_ok_def map_ok_def map_keys_def)
  moreover have "mset (map n_id nodes) = mset (map_keys m)"
    unfolding nodes by (metis ids mset_map mset_sort_by)
  ultimately show "distinct (map n_id nodes)" by (metis mset_eq_imp_distinct_iff)
  show "sorted_wrt node_le nodes" unfolding nodes by (rule node_le.sorted_sort_by)
  show "sorted_wrt edge_le edges" unfolding edges by (rule edge_le.sorted_sort_by)
  have keys: "n_id ` set nodes = set (map_keys m)"
    unfolding nodes by (metis ids list.set_map set_sort_by)
  show "\<forall>e \<in> set edges. e_caller e \<in> n_id ` set nodes \<and> e_callee e \<in> n_id ` set nodes"
  proof
    fix e assume "e \<in> set edges"
    then have "e_caller e \<in> set (endpoints (g_edges g))" "e_callee e \<in> set (endpoints (g_edges g))"
      by (auto simp: edges endpoints_def)
    then have "map_of m (e_caller e) \<noteq> None" "map_of m (e_callee e) \<noteq> None"
      unfolding m_def add_missing_has by auto
    then show "e_caller e \<in> n_id ` set nodes \<and> e_callee e \<in> n_id ` set nodes"
      unfolding keys using omap.get_keys by metis
  qed
qed

theorem serviceMap_closed_and_sorted_witness:
  "distinct (map n_id (fst (serviceMapModel (\<lambda>_. []) empty_frame None None)))"
  by (rule serviceMap_closed_and_sorted [THEN conjunct1, of "\<lambda>_. []" empty_frame None None _
      "snd (serviceMapModel (\<lambda>_. []) empty_frame None None)"]) simp

text \<open>
  The health summary lists at most four services, those with enough samples
  for a graded error rate before the others; no service left out is ranked before one that
  is listed; and the score never exceeds the observed error rate.
\<close>

theorem worstHealthServices_ranked:
  "length (worstHealthServices sn rows) \<le> 4
   \<and> sorted_wrt worst_le (worstHealthServices sn rows)
   \<and> (\<forall>a \<in> set (worstHealthServices sn rows). \<forall>b \<in> set (drop 4 (ranked_services sn rows)).
        worst_le a b \<and> (w_eligible b \<longrightarrow> w_eligible a))
   \<and> (0 < n \<longrightarrow> wilson e n \<le> max 0 (min 1 (e / 100)))"
proof -
  have sorted: "sorted_wrt worst_le (ranked_services sn rows)"
    unfolding ranked_services_def by (rule worst_le.sorted_sort_by)
  then have "sorted_wrt worst_le (take 4 (ranked_services sn rows) @ drop 4 (ranked_services sn rows))"
    by simp
  then have "\<forall>a \<in> set (take 4 (ranked_services sn rows)). \<forall>b \<in> set (drop 4 (ranked_services sn rows)). worst_le a b"
    and "sorted_wrt worst_le (take 4 (ranked_services sn rows))"
    unfolding sorted_wrt_append by blast+
  moreover have "worst_le a b \<Longrightarrow> w_eligible b \<longrightarrow> w_eligible a" for a b
    by (auto simp: worst_le_def split: if_splits)
  ultimately show ?thesis
    using wilson_le [of n e] unfolding worstHealthServices_def by auto
qed

theorem worstHealthServices_ranked_witness:
  "length (worstHealthServices (\<lambda>_. []) []) \<le> 4 \<and> wilson 50 100 \<le> max 0 (min 1 (50 / 100))"
  using worstHealthServices_ranked [of "\<lambda>_. []" "[]" 100 50] by simp

end
