(* ===== verification/Variables.thy ===== *)
theory Variables
  imports Panel_Types
begin

text \<open>
  ui/panels/variables.ts: the value a dashboard variable has, from the address bar's
  choices, the options the server resolved and the variable's defaults, and the titles the
  values are written into.
\<close>

section \<open>The current value\<close>

text \<open>The options argument: \<open>undefined\<close>, \<open>null\<close>, or a list of values.\<close>

datatype var_options = OptsUndefined | OptsNull | Opts "string list"

definition known_options :: "variable \<Rightarrow> var_options \<Rightarrow> string list option" where
  "known_options v options =
    (if v_kind v = KCustom then Some (nullish (v_options v) [])
     else (case options of OptsNull \<Rightarrow> Some [] | OptsUndefined \<Rightarrow> None | Opts os \<Rightarrow> Some os))"

definition fallback_value :: "variable \<Rightarrow> string list option \<Rightarrow> var_value" where
  "fallback_value v opts =
    (case v_default v of
       Some (c # cs) \<Rightarrow> VStr (c # cs)
     | _ \<Rightarrow> if v_include_all v then VStr ALL_value
            else VStr (nullish (Option.bind opts head_opt) []))"

definition currentValue :: "variable \<Rightarrow> (string, var_value) omap \<Rightarrow> var_options \<Rightarrow> var_value" where
  "currentValue v vars options =
    (if v_kind v = KConstant then VStr (nullish (v_value v) [])
     else (let opts = known_options v options;
               supplied = map_of vars (v_name v);
               given = (if \<not> v_multi v \<and> supplied = Some (VList []) then None else supplied)
       in case given of
            None \<Rightarrow> fallback_value v opts
          | Some g \<Rightarrow>
            if g = VStr ALL_value then
              (if v_include_all v then VStr ALL_value else fallback_value v opts)
            else if v_kind v = KText then g
            else (case opts of
                None \<Rightarrow> g
              | Some os \<Rightarrow> (case g of
                  VList xs \<Rightarrow>
                    if xs = [] \<and> v_multi v then VList []
                    else if filter (\<lambda>x. x \<in> set os) xs \<noteq> [] then VList (filter (\<lambda>x. x \<in> set os) xs)
                    else fallback_value v opts
                | VStr s \<Rightarrow> if s \<in> set os then g else fallback_value v opts))))"

text \<open>Where the options are known, no value outside them survives from the address bar.\<close>

definition admissible :: "variable \<Rightarrow> string list \<Rightarrow> var_value \<Rightarrow> bool" where
  "admissible v os x = (case x of
      VStr s \<Rightarrow> s \<in> set os \<or> v_default v = Some s \<or> (s = ALL_value \<and> v_include_all v) \<or> (s = [] \<and> os = [])
    | VList xs \<Rightarrow> set xs \<subseteq> set os \<and> (xs = [] \<longrightarrow> v_multi v))"

lemma fallback_admissible: "admissible v os (fallback_value v (Some os))"
  by (auto simp: admissible_def fallback_value_def head_opt_def split: option.splits list.splits)

lemma currentValue_admissible_lemma:
  assumes "known_options v options = Some os" "v_kind v \<noteq> KConstant" "v_kind v \<noteq> KText"
  shows "admissible v os (currentValue v vars options)"
  using assms fallback_admissible [of v os]
  by (auto simp: currentValue_def Let_def admissible_def [where x = "VStr ALL_value"]
      admissible_def [where x = "VList _"] admissible_def [where x = "VStr _"]
      split: option.splits var_value.splits)

text \<open>The value is stable: choosing what is current, again, changes nothing.\<close>

lemma currentValue_given:
  assumes "v_kind v \<noteq> KConstant" "known_options v options = Some os" "s \<in> set os" "s \<noteq> ALL_value"
    "map_of vars (v_name v) = Some (VStr s)"
  shows "currentValue v vars options = VStr s"
  using assms by (simp add: currentValue_def Let_def)

section \<open>Interpolation\<close>

definition is_name_char :: "char \<Rightarrow> bool" where
  "is_name_char c \<longleftrightarrow> is_lower c \<or> is_digit c \<or> c = CHR ''_''"

definition shown_value :: "string \<Rightarrow> var_value option \<Rightarrow> string" where
  "shown_value matched v = (case v of
      None \<Rightarrow> matched
    | Some (VStr s) \<Rightarrow> if s = ALL_value then ''all'' else s
    | Some (VList xs) \<Rightarrow> join '', '' xs)"

function interpolate :: "string \<Rightarrow> (string, var_value) omap \<Rightarrow> string" where
  "interpolate [] vars = []"
| "interpolate (c # s) vars =
    (if c = CHR ''$'' \<and> s \<noteq> [] \<and> is_lower (hd s) then
       shown_value (c # takeWhile is_name_char s) (map_of vars (takeWhile is_name_char s))
         @ interpolate (dropWhile is_name_char s) vars
     else c # interpolate s vars)"
  by pat_completeness auto
termination
  by (relation "measure (\<lambda>(s, vars). length s)") (auto simp: less_Suc_eq_le length_dropWhile_le)

lemma interpolate_no_vars: "interpolate s [] = s"
  by (induction s "[] :: (string, var_value) omap" rule: interpolate.induct)
    (auto simp: shown_value_def)

lemma interpolate_plain: "CHR ''$'' \<notin> set s \<Longrightarrow> interpolate s vars = s"
  by (induction s) auto

section \<open>All variables of a dashboard\<close>

definition resolve_step ::
  "(string, var_value) omap \<Rightarrow> (string, string list) omap option
    \<Rightarrow> (string, var_value) omap \<Rightarrow> variable \<Rightarrow> (string, var_value) omap" where
  "resolve_step vars options out v =
    (let value = currentValue v vars (case Option.bind options (\<lambda>m. map_of m (v_name v)) of
           None \<Rightarrow> OptsUndefined | Some os \<Rightarrow> Opts os)
     in if v_kind v = KQuery \<and> value = VStr [] then out else AList.update (v_name v) value out)"

definition resolvedVariables ::
  "variable list option \<Rightarrow> (string, var_value) omap \<Rightarrow> (string, string list) omap option
    \<Rightarrow> (string, var_value) omap" where
  "resolvedVariables variables vars options =
    foldl (resolve_step vars options) [] (nullish variables [])"

definition resolve_value ::
  "(string, var_value) omap \<Rightarrow> (string, string list) omap option \<Rightarrow> variable \<Rightarrow> var_value" where
  "resolve_value vars options v = currentValue v vars
     (case Option.bind options (\<lambda>m. map_of m (v_name v)) of
        None \<Rightarrow> OptsUndefined | Some os \<Rightarrow> Opts os)"

definition unresolved ::
  "(string, var_value) omap \<Rightarrow> (string, string list) omap option \<Rightarrow> variable \<Rightarrow> bool" where
  "unresolved vars options v \<longleftrightarrow> v_kind v = KQuery \<and> resolve_value vars options v = VStr []"

lemma resolve_step_get:
  "map_of (resolve_step vars options out v) k =
    (if k = v_name v \<and> \<not> unresolved vars options v then Some (resolve_value vars options v)
     else map_of out k)"
  by (auto simp: resolve_step_def Let_def update_conv resolve_value_def unresolved_def)

lemma resolve_loop_keep:
  "k \<notin> v_name ` set vs \<Longrightarrow> map_of (foldl (resolve_step vars options) out vs) k = map_of out k"
  by (induction vs arbitrary: out) (auto simp: resolve_step_get)

text \<open>With distinct names, a variable reads its current value, or nothing when unresolved.\<close>

lemma resolve_loop_get:
  assumes "v \<in> set vs" "distinct (map v_name vs)" "map_of out (v_name v) = None"
  shows "map_of (foldl (resolve_step vars options) out vs) (v_name v)
    = (if unresolved vars options v then None else Some (resolve_value vars options v))"
  using assms
proof (induction vs arbitrary: out)
  case (Cons w ws)
  show ?case
  proof (cases "w = v")
    case True
    with Cons.prems have "v_name v \<notin> v_name ` set ws" by auto
    with True Cons.prems show ?thesis by (simp add: resolve_loop_keep resolve_step_get)
  next
    case False
    with Cons.prems have v: "v \<in> set ws" "v_name w \<noteq> v_name v" by auto
    then have "map_of (resolve_step vars options out w) (v_name v) = None"
      using Cons.prems by (simp add: resolve_step_get)
    with Cons.IH [OF v(1)] Cons.prems show ?thesis by simp
  qed
qed simp

section \<open>Properties\<close>

text \<open>
  Once a variable's options are known, no stale choice from the address bar
  survives: its value is one of the options, its own default, everything where that is
  allowed, or empty where there is no option at all.
\<close>

theorem currentValue_admissible:
  assumes "known_options v options = Some os" "v_kind v \<noteq> KConstant" "v_kind v \<noteq> KText"
  shows "admissible v os (currentValue v vars options)"
  by (rule currentValue_admissible_lemma [OF assms])

definition demo_variable :: variable where
  "demo_variable = \<lparr>v_name = ''env'', v_kind = KQuery, v_options = None, v_value = None,
     v_default = None, v_multi = True, v_include_all = False\<rparr>"

theorem currentValue_admissible_witness:
  "admissible demo_variable [''prod''] (currentValue demo_variable [(''env'', VList [''gone'', ''prod''])] (Opts [''prod'']))"
  by (rule currentValue_admissible) (simp_all add: known_options_def demo_variable_def)

text \<open>
  With distinct names, the resolved variables are each variable's current
  value, except that a query variable that is still empty is left to the server; a text
  without a dollar sign is never changed by interpolation.
\<close>

theorem resolvedVariables_values:
  assumes "v \<in> set vs" "distinct (map v_name vs)" "CHR ''$'' \<notin> set s"
  shows "map_of (resolvedVariables (Some vs) vars options) (v_name v)
      = (if unresolved vars options v then None else Some (resolve_value vars options v))
    \<and> interpolate s (resolvedVariables (Some vs) vars options) = s"
  using resolve_loop_get [OF assms(1,2), of "[]"] interpolate_plain [OF assms(3)]
  by (simp_all add: resolvedVariables_def)

theorem resolvedVariables_values_witness:
  "map_of (resolvedVariables (Some [demo_variable]) [] None) (v_name demo_variable)
    = (if unresolved [] None demo_variable then None else Some (resolve_value [] None demo_variable))"
  by (rule resolvedVariables_values [where s = "''x''", THEN conjunct1]) simp_all

end
