(* ===== verification/Tokens.thy ===== *)
theory Tokens
  imports Panel_Types
begin

text \<open>
  ui/tokens.ts, ui/chart.ts, ui/theme.ts, ui/panels/style.ts and ui/panels/heat-scale.ts:
  the palette, the colours a chart takes from it, the text colour of a filled surface by
  relative luminance, and the steps of the heat scale.
\<close>

section \<open>The palette\<close>

definition ayu :: "string list" where
  "ayu = [''#fafafa'', ''#e6e4de'', ''#bfbdb6'', ''#8b8e99'', ''#565b69'',
    ''#1d2433'', ''#131721'', ''#0b0e14'', ''#080a10'', ''#05070b'']"

definition brand :: "string list" where
  "brand = [''#f3ecfd'', ''#ece3fb'', ''#dcc9f7'', ''#d2a6ff'', ''#bf94ec'',
    ''#a97ce0'', ''#9163d6'', ''#7c4dcc'', ''#5b32a3'', ''#40236f'']"

definition ok :: "string list" where
  "ok = [''#eefbe6'', ''#dcf7cc'', ''#c2f0a6'', ''#a5e880'', ''#8fe06c'',
    ''#7fd962'', ''#66c04b'', ''#4f9c3a'', ''#3b7a2c'', ''#2a5a1f'']"

definition warn :: "string list" where
  "warn = [''#fff5e6'', ''#ffe9c9'', ''#ffd79b'', ''#ffc571'', ''#ffbc62'',
    ''#ffb454'', ''#ef9c33'', ''#c87d21'', ''#9c5f16'', ''#74460f'']"

definition bad :: "string list" where
  "bad = [''#fdecee'', ''#fbd9dc'', ''#f8b6bc'', ''#f59099'', ''#f37d87'',
    ''#f26d78'', ''#e04d5a'', ''#c03642'', ''#96262f'', ''#6f1a21'']"

definition info :: "string list" where
  "info = [''#e8f6ff'', ''#ccebff'', ''#a3daff'', ''#7dcbff'', ''#66c5ff'',
    ''#59c2ff'', ''#33a7e6'', ''#1e86bd'', ''#146694'', ''#0d4a6d'']"

record chart_colors =
  cc_text :: string
  cc_muted :: string
  cc_grid :: string
  cc_surface :: string
  cc_border :: string

definition chart_dark :: chart_colors where
  "chart_dark = \<lparr>cc_text = ''#bfbdb6'', cc_muted = ''#8b8e99'', cc_grid = ''#1d2433'',
     cc_surface = ''#131721'', cc_border = ''#626777''\<rparr>"

definition chart_light :: chart_colors where
  "chart_light = \<lparr>cc_text = ''#4a5058'', cc_muted = ''#6b7280'', cc_grid = ''#eceef0'',
     cc_surface = ''#fcfcfc'', cc_border = ''#8c939d''\<rparr>"

definition series_palette :: "bool \<Rightarrow> string list" where
  "series_palette dark = (if dark
     then [''#3987e5'', ''#d95926'', ''#199e70'', ''#9085e9'', ''#c98500'', ''#d55181'']
     else [''#2a78d6'', ''#eb6834'', ''#1baf7a'', ''#4a3aa7'', ''#eda100'', ''#e87ba4''])"

definition typeScale_micro :: real where
  "typeScale_micro = 11"

definition font_display :: string where
  "font_display = ''\"Geist Mono Variable\", ui-monospace, SFMono-Regular, Menlo, Monaco, Consolas, monospace''"

definition font_body :: string where
  "font_body = ''\"Geist Variable\", ui-sans-serif, system-ui, -apple-system, BlinkMacSystemFont, \"Segoe UI\", sans-serif''"

section \<open>ui/chart.ts\<close>

definition healthColor :: "string \<Rightarrow> string" where
  "healthColor health = (if health = ''healthy'' then ''ok'' else if health = ''degraded'' then ''warn''
     else if health = ''unknown'' then ''gray'' else ''bad'')"

definition chartTheme :: "bool \<Rightarrow> chart_colors" where
  "chartTheme dark = (if dark then chart_dark else chart_light)"

record status_colors =
  sc_ok :: string
  sc_warn :: string
  sc_bad :: string
  sc_info :: string

definition statusHex :: "bool \<Rightarrow> status_colors" where
  "statusHex dark = (let shade = (if dark then 5 else 7)
     in \<lparr>sc_ok = ok ! shade, sc_warn = warn ! shade, sc_bad = bad ! shade, sc_info = info ! shade\<rparr>)"

definition seriesSlot :: "nat \<Rightarrow> bool \<Rightarrow> string" where
  "seriesSlot index dark = nullish (nth_opt (series_palette dark) index) (cc_muted (chartTheme dark))"

definition healthSymbol :: "string \<Rightarrow> string" where
  "healthSymbol health = (if health = ''unhealthy'' then ''diamond''
     else if health = ''degraded'' then ''roundRect'' else ''circle'')"

definition healthBorderType :: "string \<Rightarrow> string" where
  "healthBorderType health = (if health = ''unknown'' then ''dashed'' else ''solid'')"

lemma seriesSlot_overflow: "6 \<le> index \<Longrightarrow> seriesSlot index dark = cc_muted (chartTheme dark)"
  by (simp add: seriesSlot_def nth_opt_def series_palette_def)

section \<open>Luminance and contrast\<close>

definition hex_val :: "char \<Rightarrow> nat" where
  "hex_val c = (if is_digit c then byte c - 48 else if is_lower c then byte c - 87 else byte c - 55)"

definition hex_pair :: "string \<Rightarrow> nat \<Rightarrow> nat" where
  "hex_pair s i = foldl (\<lambda>n c. 16 * n + hex_val c) 0 (take 2 (drop i s))"

text \<open>\<open>hex.replace("#", "")\<close> removes the first one.\<close>

fun drop_hash :: "string \<Rightarrow> string" where
  "drop_hash [] = []"
| "drop_hash (c # s) = (if c = CHR ''#'' then s else c # drop_hash s)"

definition hex_value :: "string \<Rightarrow> string" where
  "hex_value hex = (let short = drop_hash hex
     in if length short = 3 then concat (map (\<lambda>d. [d, d]) short) else short)"

definition channel :: "nat \<Rightarrow> real" where
  "channel n = (let part = real n / 255
     in if part \<le> 3928 / 100000 then part / (1292 / 100) else ((part + 55 / 1000) / (1055 / 1000)) powr (24 / 10))"

definition relativeLuminance :: "string \<Rightarrow> real" where
  "relativeLuminance hex = (let v = hex_value hex
     in 2126 / 10000 * channel (hex_pair v 0) + 7152 / 10000 * channel (hex_pair v 2)
        + 722 / 10000 * channel (hex_pair v 4))"

definition on_white :: "real \<Rightarrow> real" where
  "on_white l = (105 / 100) / (l + 5 / 100)"

definition on_black :: "real \<Rightarrow> real" where
  "on_black l = (l + 5 / 100) / (5 / 100)"

definition filledTextOn :: "string \<Rightarrow> string" where
  "filledTextOn hex = (let l = relativeLuminance hex
     in if on_white l < on_black l then ''var(--mantine-color-black)'' else ''var(--mantine-color-white)'')"

definition contrastRatio :: "string \<Rightarrow> string \<Rightarrow> real" where
  "contrastRatio a b = (let x = relativeLuminance a; y = relativeLuminance b
     in (max x y + 5 / 100) / (min x y + 5 / 100))"

lemma channel_nonneg: "0 \<le> channel n"
  by (simp add: channel_def Let_def)

lemma relativeLuminance_nonneg: "0 \<le> relativeLuminance hex"
  by (simp add: relativeLuminance_def Let_def channel_nonneg)

lemma contrastRatio_ge_1: "1 \<le> contrastRatio a b"
  using relativeLuminance_nonneg [of a] relativeLuminance_nonneg [of b]
  by (auto simp: contrastRatio_def Let_def le_divide_eq)

lemma contrastRatio_sym: "contrastRatio a b = contrastRatio b a"
  by (simp add: contrastRatio_def Let_def max.commute min.commute)

text \<open>The two ratios multiply to 21, so the larger is at least 4.5.\<close>

lemma best_contrast: "0 \<le> l \<Longrightarrow> 9 / 2 \<le> max (on_white l) (on_black l)"
proof (rule ccontr)
  assume l: "0 \<le> l" and "\<not> 9 / 2 \<le> max (on_white l) (on_black l)"
  then have "on_white l < 9 / 2" "on_black l < 9 / 2" by auto
  moreover have "0 < on_white l" "0 < on_black l" using l by (auto simp: on_white_def on_black_def)
  ultimately have "on_white l * on_black l < 9 / 2 * (9 / 2)"
    by (intro mult_strict_mono) auto
  moreover have "on_white l * on_black l = 21"
    using l by (simp add: on_white_def on_black_def field_simps)
  ultimately show False by simp
qed

section \<open>ui/theme.ts\<close>

definition semanticColors :: "(string, string list) omap" where
  "semanticColors = [(''brand'', brand), (''ok'', ok), (''warn'', warn), (''bad'', bad), (''info'', info)]"

definition filledShade :: "bool \<Rightarrow> nat" where
  "filledShade dark = (if dark then 5 else 7)"

definition contrast_var :: "string \<Rightarrow> string" where
  "contrast_var name = ''--fanout-color-'' @ name @ ''-contrast''"

definition filledContrastVariables :: "bool \<Rightarrow> (string, string) omap" where
  "filledContrastVariables dark = from_entries
     (map (\<lambda>(name, ramp). (contrast_var name, filledTextOn (ramp ! filledShade dark))) semanticColors)"

definition primaryColor :: string where
  "primaryColor = ''brand''"

record filled_input =
  fi_color :: "string option"
  fi_variant :: "string option"
  fi_autoContrast :: "bool option"

text \<open>The resolver Mantine passes in is a parameter; its result is a text colour.\<close>

definition schemeAwareFilledText :: "(filled_input \<Rightarrow> string) \<Rightarrow> filled_input \<Rightarrow> string" where
  "schemeAwareFilledText base input =
    (let color = nullish (fi_color input) primaryColor;
         resolved = base (input\<lparr>fi_color := Some color\<rparr>);
         isFilled = (fi_variant input = Some ''filled'' \<or> fi_variant input = None)
     in if fi_autoContrast input = Some False \<or> \<not> isFilled \<or> map_of semanticColors color = None
        then resolved else ''var('' @ contrast_var color @ '')'')"

definition badgeFontSize :: "(string, real) omap" where
  "badgeFontSize = [(''xs'', 9), (''sm'', 10), (''md'', 11), (''lg'', 13), (''xl'', 16)]"

text \<open>The size in rem when the badge is raised, as the number \<open>typeScale.micro / 16\<close>.\<close>

definition badgeFloor :: "string option \<Rightarrow> real option" where
  "badgeFloor sz = (case map_of badgeFontSize (nullish sz ''md'') of
      None \<Rightarrow> None
    | Some declared \<Rightarrow> if typeScale_micro \<le> declared then None else Some (typeScale_micro / 16))"

definition primaryOnly :: "string option \<Rightarrow> string \<Rightarrow> (string, string) omap" where
  "primaryOnly color variable =
    (if color = None \<or> color = Some [] \<or> color = Some primaryColor
     then [(variable, ''var('' @ contrast_var primaryColor @ '')'')] else [])"

definition fanoutCssVariables :: "(string, string) omap \<times> (string, string) omap \<times> (string, string) omap" where
  "fanoutCssVariables =
    ([(''--mantine-color-error'', ''var(--mantine-color-bad-filled)'')],
     (''--mantine-color-dimmed'', cc_muted chart_light) # filledContrastVariables False,
     filledContrastVariables True)"

section \<open>Chart themes and mark styles\<close>

record chart_theme =
  ct_dark :: bool
  ct_text :: string
  ct_muted :: string
  ct_grid :: string
  ct_surface :: string
  ct_border :: string
  ct_ok :: string
  ct_warn :: string
  ct_bad :: string
  ct_font :: string

definition chartThemeFor :: "bool \<Rightarrow> chart_theme" where
  "chartThemeFor dark = (let base = chartTheme dark; status = statusHex dark
     in \<lparr>ct_dark = dark, ct_text = cc_text base, ct_muted = cc_muted base, ct_grid = cc_grid base,
         ct_surface = cc_surface base, ct_border = cc_border base, ct_ok = sc_ok status,
         ct_warn = sc_warn status, ct_bad = sc_bad status, ct_font = font_display\<rparr>)"

fun status_color :: "chart_theme \<Rightarrow> status \<Rightarrow> string" where
  "status_color th StOk = ct_ok th"
| "status_color th StWarn = ct_warn th"
| "status_color th StBad = ct_bad th"

text \<open>The parameter \<open>sa\<close> prints the alpha value.\<close>

definition tint :: "(real \<Rightarrow> string) \<Rightarrow> string \<Rightarrow> real \<Rightarrow> string" where
  "tint sa hex alpha = ''rgba('' @ join '', '' (map (\<lambda>i. show_nat (hex_pair hex i)) [1, 3, 5])
     @ '', '' @ sa alpha @ '')''"

record mark_style =
  ms_color :: string
  ms_outline :: "(string \<times> nat) option"

definition markStyle :: "string \<Rightarrow> chart_theme \<Rightarrow> mark_style" where
  "markStyle color th = \<lparr>ms_color = color,
     ms_outline = (if contrastRatio color (ct_surface th) < 3 then Some (ct_text th, 1) else None)\<rparr>"

definition lineStyle :: "string \<Rightarrow> chart_theme \<Rightarrow> mark_style" where
  "lineStyle color th = \<lparr>ms_color = color,
     ms_outline = (if contrastRatio color (ct_surface th) < 3 then Some (ct_text th, 2) else None)\<rparr>"

fun statusInk :: "status \<Rightarrow> bool \<Rightarrow> string" where
  "statusInk StOk dark = ok ! (if dark then 5 else 8)"
| "statusInk StWarn dark = warn ! (if dark then 5 else 8)"
| "statusInk StBad dark = bad ! (if dark then 5 else 8)"

section \<open>The heat scale\<close>

definition heatRamp :: "chart_theme \<Rightarrow> string list" where
  "heatRamp th = (if ct_dark th
     then [''#0f2a43'', ''#164267'', ''#1e5a8a'', ''#2879ae'', ''#399aca'', ''#57b8e3'', ''#7dd3fc'']
     else [''#dbeafe'', ''#bfdbfe'', ''#93c5fd'', ''#60a5fa'', ''#3b82f6'', ''#2563eb'', ''#1d4ed8''])"

definition heatStep :: "real \<Rightarrow> real \<Rightarrow> int" where
  "heatStep n cap = (if n \<le> 1 then 0 else if cap \<le> n then 6
     else max 0 (min 6 \<lfloor>log 10 (max 1 n) / log 10 cap * 6\<rfloor>))"

lemma heatStep_range: "0 \<le> heatStep n cap" "heatStep n cap \<le> 6"
  by (auto simp: heatStep_def)

lemma heatStep_below_cap:
  assumes "1 < n" "n < cap"
  shows "heatStep n cap \<le> 5"
proof -
  have "log 10 n < log 10 cap" "0 < log 10 cap"
    using assms by (auto simp: zero_less_log_cancel_iff)
  then have "log 10 n / log 10 cap * 6 < 6" by (simp add: divide_less_eq)
  then have "\<lfloor>log 10 n / log 10 cap * 6\<rfloor> \<le> 5" by linarith
  with assms show ?thesis by (simp add: heatStep_def max_def)
qed

lemma heatStep_mono:
  assumes "c \<le> d"
  shows "heatStep c cap \<le> heatStep d cap"
proof -
  consider "c \<le> 1" | "1 < c" "cap \<le> d" | "1 < c" "d < cap" by linarith
  then show ?thesis
  proof cases
    case 1
    then show ?thesis using heatStep_range(1) [of d cap] by (simp add: heatStep_def)
  next
    case 2
    then show ?thesis using heatStep_range(2) [of c cap] assms by (simp add: heatStep_def)
  next
    case 3
    with assms have "log 10 c \<le> log 10 d" "0 < log 10 cap"
      by (auto simp: zero_less_log_cancel_iff)
    then have "log 10 c / log 10 cap * 6 \<le> log 10 d / log 10 cap * 6"
      by (simp add: divide_right_mono)
    then have "\<lfloor>log 10 c / log 10 cap * 6\<rfloor> \<le> \<lfloor>log 10 d / log 10 cap * 6\<rfloor>" by (rule floor_mono)
    moreover have "max 1 c = c" "max 1 d = d" using 3 assms by auto
    ultimately show ?thesis using 3 assms by (auto simp: heatStep_def)
  qed
qed

section \<open>Properties\<close>

text \<open>
  The text colour chosen for a filled surface always has a contrast of at least
  4.5 to 1 on it, the WCAG AA bound, whatever the hue: black where it is chosen, white
  otherwise, and it is the better of the two.
\<close>

theorem filledTextOn_meets_AA:
  "(let l = relativeLuminance hex in
     if filledTextOn hex = ''var(--mantine-color-black)''
     then 9 / 2 \<le> on_black l \<and> on_white l \<le> on_black l
     else filledTextOn hex = ''var(--mantine-color-white)'' \<and> 9 / 2 \<le> on_white l \<and> on_black l \<le> on_white l)"
  using best_contrast [OF relativeLuminance_nonneg, of hex]
  by (auto simp: filledTextOn_def Let_def max_def split: if_splits)

text \<open>
  The heat scale has seven steps, is monotone in the count, and keeps the last
  step for counts at or above the cap.
\<close>

theorem heatStep_ordered:
  "0 \<le> heatStep n cap \<and> heatStep n cap \<le> 6 \<and> (n \<le> m \<longrightarrow> heatStep n cap \<le> heatStep m cap)
   \<and> (1 < n \<longrightarrow> heatStep n cap = 6 \<longleftrightarrow> cap \<le> n)"
  using heatStep_range [of n cap] heatStep_mono [of n m cap] heatStep_below_cap [of n cap]
  by (auto simp: heatStep_def)

theorem heatStep_ordered_witness: "heatStep 10 5 = 6"
  using heatStep_ordered [of 10 5 10] by simp

end
