(* ===== verification/Series_Groups.thy ===== *)
theory Series_Groups
  imports Tokens Frames
begin

text \<open>
  ui/panels/series.ts, ui/panels/escape.ts and ui/panels/labels.ts: which series a chart
  shows and which it groups or leaves out, the legend that wraps in the width it has, HTML
  escaping of untrusted text, and display labels.
\<close>

section \<open>Escaping\<close>

fun escape_char :: "char \<Rightarrow> string" where
  "escape_char c = (if c = CHR ''&'' then ''&amp;'' else if c = CHR ''<'' then ''&lt;''
     else if c = CHR ''>'' then ''&gt;'' else if c = CHR 0x22 then ''&quot;''
     else if c = CHR 0x27 then ''&#39;'' else [c])"

declare escape_char.simps [simp del]

definition escapeHTML :: "string \<Rightarrow> string" where
  "escapeHTML s = concat (map escape_char s)"

definition tooltipLines :: "string list \<Rightarrow> string" where
  "tooltipLines lines = join ''<br/>'' (map escapeHTML lines)"

text \<open>What the escaped text reads as in a document: the five references decoded.\<close>

fun unescape :: "string \<Rightarrow> string" where
  "unescape [] = []"
| "unescape (c # s) =
    (if c = CHR ''&'' then
       (if starts_with s ''amp;'' then CHR ''&'' # unescape (drop 4 s)
        else if starts_with s ''lt;'' then CHR ''<'' # unescape (drop 3 s)
        else if starts_with s ''gt;'' then CHR ''>'' # unescape (drop 3 s)
        else if starts_with s ''quot;'' then CHR 0x22 # unescape (drop 5 s)
        else if starts_with s ''#39;'' then CHR 0x27 # unescape (drop 4 s)
        else c # unescape s)
     else c # unescape s)"

declare unescape.simps [simp del]

lemma escape_char_safe:
  "d \<in> set (escape_char c) \<Longrightarrow> d \<noteq> CHR ''<'' \<and> d \<noteq> CHR ''>'' \<and> d \<noteq> CHR 0x22 \<and> d \<noteq> CHR 0x27"
  by (auto simp: escape_char.simps split: if_splits)

lemma escapeHTML_safe:
  "d \<in> set (escapeHTML s) \<Longrightarrow> d \<notin> {CHR ''<'', CHR ''>'', CHR 0x22, CHR 0x27}"
  by (auto simp: escapeHTML_def dest: escape_char_safe)

lemma unescape_escape_char: "unescape (escape_char c @ t) = c # unescape t"
  by (simp add: escape_char.simps unescape.simps)

lemma unescape_escapeHTML: "unescape (escapeHTML s) = s"
  by (induction s) (simp_all add: escapeHTML_def unescape_escape_char unescape.simps(1))

lemma escapeHTML_append: "escapeHTML (s @ t) = escapeHTML s @ escapeHTML t"
  by (simp add: escapeHTML_def)

text \<open>
  \<open>htmlTooltip\<close>: a point is its optional names and a value already split into parts, each
  a number or the text that \<open>String(v)\<close> gives (a dash for a missing value).
\<close>

datatype tip_value = TipNum num | TipText string

record tip_point =
  tp_name :: "string option"
  tp_series :: "string option"
  tp_axis :: "string option"
  tp_values :: "tip_value list"
  tp_is_array :: bool

definition non_empty :: "string option \<Rightarrow> string option" where
  "non_empty s = (if s = Some [] then None else s)"

definition tip_line :: "(num \<Rightarrow> string option \<Rightarrow> string) \<Rightarrow> bool \<Rightarrow> tip_point \<Rightarrow> string" where
  "tip_line format timeSeries pt =
    (let values = (if tp_is_array pt \<and> timeSeries then tl (tp_values pt) else tp_values pt)
     in nullish (tp_series pt) []
        @ (case non_empty (tp_name pt) of Some n \<Rightarrow> '' '' @ middot @ '' '' @ n | None \<Rightarrow> [])
        @ '': '' @ join ('' '' @ middot @ '' '')
            (map (\<lambda>v. case v of TipNum x \<Rightarrow> format x (tp_series pt) | TipText s \<Rightarrow> s) values))"

definition htmlTooltip :: "(num \<Rightarrow> string option \<Rightarrow> string) \<Rightarrow> bool \<Rightarrow> tip_point list \<Rightarrow> string" where
  "htmlTooltip format timeSeries points =
    tooltipLines
      ((case Option.bind (head_opt points) (\<lambda>p. non_empty (tp_axis p)) of Some a \<Rightarrow> [a] | None \<Rightarrow> [])
       @ map (tip_line format timeSeries) points)"

section \<open>The Other group\<close>

text \<open>\<open>/^Other(?: \(\d+\))?$/\<close>\<close>

definition isOtherSeries :: "string option \<Rightarrow> bool" where
  "isOtherSeries name = (let s = nullish name [] in
     s = ''Other'' \<or>
     (starts_with s ''Other ('' \<and> last_opt s = Some (CHR '')'')
      \<and> (let d = butlast (drop 7 s) in 8 \<le> length s \<and> d \<noteq> [] \<and> list_all is_digit d)))"

text \<open>\<open>name.match(/\d+/)?.[0]\<close>: the first run of digits.\<close>

definition first_digits :: "string \<Rightarrow> string option" where
  "first_digits s = (let d = takeWhile is_digit (dropWhile (\<lambda>c. \<not> is_digit c) s)
     in if d = [] then None else Some d)"

definition other_count :: "string \<Rightarrow> nat" where
  "other_count name = (if isOtherSeries (Some name)
     then (case first_digits name of Some d \<Rightarrow> nat_of_digits d | None \<Rightarrow> 1) else 1)"

text \<open>\<open>Math.min(6, Math.max(1, Math.floor(panel.options?.top || 6)))\<close>\<close>

definition series_limit :: "panel \<Rightarrow> nat" where
  "series_limit p = (let top = (case Option.bind (p_options p) po_top of
        Some x \<Rightarrow> if x = 0 then 6 else x | None \<Rightarrow> 6)
     in nat (min 6 (max 1 \<lfloor>top\<rfloor>)))"

definition group_name :: "string list \<Rightarrow> string" where
  "group_name names = (case names of
      [n] \<Rightarrow> if isOtherSeries (Some n) then n else ''Other ('' @ show_nat (other_count n) @ '')''
    | _ \<Rightarrow> ''Other ('' @ show_nat (sum_list (map other_count names)) @ '')'')"

definition seriesGroups :: "('a \<Rightarrow> string) \<Rightarrow> 'a list \<Rightarrow> panel \<Rightarrow> (string \<times> 'a list) list" where
  "seriesGroups nm items p =
    (let limit = series_limit p;
         named = filter (\<lambda>i. \<not> isOtherSeries (Some (nm i))) items;
         other = filter (\<lambda>i. isOtherSeries (Some (nm i))) items @ drop limit named
     in map (\<lambda>i. (nm i, [i])) (take limit named)
        @ (if other = [] then [] else [(group_name (map nm other), other)]))"

definition sumPresent :: "real option list \<Rightarrow> real option" where
  "sumPresent vs = (if present vs = [] then None else Some (sum_list (present vs)))"

definition visibleSeries :: "('a \<Rightarrow> string) \<Rightarrow> 'a list \<Rightarrow> panel \<Rightarrow> 'a list \<times> nat" where
  "visibleSeries nm items p =
    (let limit = series_limit p;
         named = filter (\<lambda>i. \<not> isOtherSeries (Some (nm i))) items
     in (take limit named @ filter (\<lambda>i. isOtherSeries (Some (nm i))) items, length named - limit))"

record text_graphic =
  tg_text :: string
  tg_fill :: string

definition hiddenSeriesNote :: "nat \<Rightarrow> string \<Rightarrow> text_graphic list" where
  "hiddenSeriesNote hidden muted =
    (if 0 < hidden then [\<lparr>tg_text = show_nat hidden @ '' more series not shown'', tg_fill = muted\<rparr>] else [])"

lemma series_limit_bounds: "1 \<le> series_limit p" "series_limit p \<le> 6"
  by (auto simp: series_limit_def Let_def)

lemma isOtherSeries_generated: "isOtherSeries (Some (''Other ('' @ show_nat n @ '')''))"
proof -
  have "list_all is_digit (show_nat n)" by (rule show_nat_digits)
  moreover have "1 \<le> length (show_nat n)" using show_nat_nonempty [of n] by (cases "show_nat n") auto
  ultimately show ?thesis by (simp add: isOtherSeries_def last_opt_def butlast_append)
qed

text \<open>Grouping loses and duplicates nothing, and shows at most seven groups.\<close>

lemma mset_filter_not: "mset (filter (\<lambda>x. \<not> P x) xs) + mset (filter P xs) = mset xs"
  by (induction xs) auto

lemma seriesGroups_mset: "mset (concat (map snd (seriesGroups nm items p))) = mset items"
proof -
  let ?P = "\<lambda>i. isOtherSeries (Some (nm i))"
  let ?named = "filter (\<lambda>i. \<not> ?P i) items"
  have "concat (map snd (map (\<lambda>i. (nm i, [i])) xs)) = xs" for xs by (induction xs) auto
  then have "concat (map snd (seriesGroups nm items p))
      = take (series_limit p) ?named @ filter ?P items @ drop (series_limit p) ?named"
    by (simp add: seriesGroups_def Let_def)
  then have "mset (concat (map snd (seriesGroups nm items p)))
      = mset (take (series_limit p) ?named @ drop (series_limit p) ?named) + mset (filter ?P items)"
    by (simp only: mset_append) (simp add: ac_simps)
  then show ?thesis by (simp only: append_take_drop_id mset_filter_not)
qed

lemma seriesGroups_length: "length (seriesGroups nm items p) \<le> 7"
  using series_limit_bounds(2) [of p]
  by (auto simp: seriesGroups_def Let_def intro: min.coboundedI2)

lemma visibleSeries_hidden:
  "visibleSeries nm items p = (shown, hidden) \<Longrightarrow> length shown + hidden = length items"
proof -
  assume a: "visibleSeries nm items p = (shown, hidden)"
  let ?P = "\<lambda>i. isOtherSeries (Some (nm i))"
  have "length (filter (\<lambda>i. \<not> ?P i) items) + length (filter ?P items) = length items"
    using sum_length_filter_compl [of ?P items] by (simp add: add.commute)
  with a show ?thesis by (auto simp: visibleSeries_def Let_def min_def split: if_splits)
qed

section \<open>The wrapping legend\<close>

definition legend_name :: "string \<Rightarrow> string" where
  "legend_name name = (if 24 < char_count name
     then concat (take 23 (code_points name)) @ ellipsis else name)"

text \<open>One entry placed: \<open>(rows, used)\<close>.\<close>

definition legend_step :: "real \<Rightarrow> nat \<times> real \<Rightarrow> real \<Rightarrow> nat \<times> real" where
  "legend_step available st entry = (case st of (rows, used) \<Rightarrow>
     if used \<noteq> 0 \<and> available < used + 10 + entry then (Suc rows, 0 + entry)
     else (rows, used + (if used \<noteq> 0 then 10 else 0) + entry))"

definition legend_entry :: "(string \<Rightarrow> real) option \<Rightarrow> string \<Rightarrow> real" where
  "legend_entry mt name = 15 + (case mt of
      Some m \<Rightarrow> m (legend_name name) | None \<Rightarrow> real (char_count (legend_name name)) * (72 / 10))"

record legend_layout =
  ll_top :: real
  ll_scroll :: bool
  ll_show :: bool
  ll_names :: "string list"

definition legend_rows :: "(string \<Rightarrow> real) option \<Rightarrow> string list \<Rightarrow> real \<Rightarrow> nat \<times> real" where
  "legend_rows mt names width =
    foldl (legend_step (max 1 (width - 16))) (1, 0) (map (legend_entry mt) names)"

definition wrappingLegend :: "(string \<Rightarrow> real) option \<Rightarrow> string list \<Rightarrow> real \<Rightarrow> bool \<Rightarrow> legend_layout" where
  "wrappingLegend mt names width shown =
    (let rows = fst (legend_rows mt names width); scroll = 2 < rows
     in \<lparr>ll_top = (if shown then (if scroll then 30 else real rows * 20 + 2) else 12),
         ll_scroll = scroll, ll_show = shown, ll_names = names\<rparr>)"

text \<open>The reserved height never exceeds two rows; wider legends scroll.\<close>

lemma wrappingLegend_top:
  "ll_top (wrappingLegend mt names width shown) \<in> {12, 22, 30, 42}"
proof -
  let ?r = "fst (legend_rows mt names width)"
  have "0 < fst (foldl (legend_step a) (Suc k, u) es)" for a k u es
    by (induction es arbitrary: k u) (auto simp: legend_step_def)
  from this [of "max 1 (width - 16)" 0 0] have "0 < ?r" by (simp add: legend_rows_def)
  then consider "?r = 1" | "?r = 2" | "2 < ?r" by linarith
  then show ?thesis
    by cases (auto simp: wrappingLegend_def Let_def)
qed

lemma legend_name_bound: "char_count name \<le> 24 \<Longrightarrow> legend_name name = name"
  by (simp add: legend_name_def)

section \<open>Properties\<close>

text \<open>
  Escaped text contains no character that can open a tag or leave an attribute,
  and a document shows exactly the text that was escaped.
\<close>

theorem escapeHTML_safe_and_faithful:
  "set (escapeHTML s) \<inter> {CHR ''<'', CHR ''>'', CHR 0x22, CHR 0x27} = {} \<and> unescape (escapeHTML s) = s"
  using escapeHTML_safe [of _ s] unescape_escapeHTML [of s] by blast

text \<open>
  Grouping series for a chart loses and duplicates none of them, makes at most
  six named groups and one Other group, and showing series leaves out exactly as many as it
  reports hidden.
\<close>

theorem seriesGroups_conserve:
  "mset (concat (map snd (seriesGroups nm items p))) = mset items
   \<and> length (seriesGroups nm items p) \<le> 7
   \<and> length (fst (visibleSeries nm items p)) + snd (visibleSeries nm items p) = length items"
  using seriesGroups_mset seriesGroups_length visibleSeries_hidden prod.collapse by metis

text \<open>
  The name generated for an Other group is recognised as one again, and a legend
  reserves at most two rows of height.
\<close>

theorem other_name_recognised:
  "isOtherSeries (Some (group_name names)) \<and> ll_top (wrappingLegend mt ns width shown) \<le> 42"
proof -
  have "isOtherSeries (Some (group_name names))"
    by (auto simp: group_name_def isOtherSeries_generated [simplified] split: list.splits)
  with wrappingLegend_top [of mt ns width shown] show ?thesis by auto
qed

end
