(* ===== verification/Js_Date.thy ===== *)
theory Js_Date
  imports Js_Text
begin

text \<open>
  What the code uses of \<open>Date\<close>: \<open>toISOString\<close> of a time in milliseconds, over the proleptic
  Gregorian calendar in 400-year eras that start in March, and the reading of that form back.
  \<open>Date.parse\<close> of other strings is the runtime's and a parameter where it is used.
\<close>

section \<open>Civil dates\<close>

text \<open>The largest time a \<open>Date\<close> holds, in milliseconds either side of 1970.\<close>

definition max_time :: real where
  "max_time = 8640000000000000"

text \<open>Day of an era (146097 days) to year of the era and day of a year from 1 March.\<close>

definition year_of_era :: "int \<Rightarrow> int \<times> int" where
  "year_of_era doe =
    (let c = min 3 (doe div 36524); r1 = doe - c * 36524;
         q = r1 div 1461; r2 = r1 mod 1461;
         a = min 3 (r2 div 365)
     in (100 * c + 4 * q + a, r2 - 365 * a))"

definition day_of_era :: "int \<Rightarrow> int \<Rightarrow> int" where
  "day_of_era yoe doy =
    (yoe div 100) * 36524 + (yoe mod 100 div 4) * 1461 + (yoe mod 4) * 365 + doy"

definition month_of_doy :: "int \<Rightarrow> int \<times> int" where
  "month_of_doy doy = (let mp = (5 * doy + 2) div 153
     in (if mp < 10 then mp + 3 else mp - 9, doy - (153 * mp + 2) div 5 + 1))"

definition doy_of_month :: "int \<Rightarrow> int \<Rightarrow> int" where
  "doy_of_month m d = (153 * (if m > 2 then m - 3 else m + 9) + 2) div 5 + d - 1"

definition civil_of_days :: "int \<Rightarrow> int \<times> int \<times> int" where
  "civil_of_days days =
    (let z = days + 719468; era = z div 146097;
         (yoe, doy) = year_of_era (z mod 146097);
         (m, d) = month_of_doy doy
     in (yoe + 400 * era + (if m \<le> 2 then 1 else 0), m, d))"

definition days_of_civil :: "int \<Rightarrow> int \<Rightarrow> int \<Rightarrow> int" where
  "days_of_civil y m d =
    (let y' = (if m \<le> 2 then y - 1 else y)
     in y' div 400 * 146097 + day_of_era (y' mod 400) (doy_of_month m d) - 719468)"

lemma year_of_era_bounds:
  assumes "0 \<le> doe" "doe < 146097" "year_of_era doe = (yoe, doy)"
  shows "0 \<le> yoe" "yoe < 400" "0 \<le> doy" "doy < 366" "day_of_era yoe doy = doe"
proof -
  define c where "c = min 3 (doe div 36524)"
  define r1 where "r1 = doe - c * 36524"
  define q where "q = r1 div 1461"
  define r2 where "r2 = r1 mod 1461"
  define a where "a = min 3 (r2 div 365)"
  have y: "yoe = 100 * c + 4 * q + a" and d: "doy = r2 - 365 * a"
    using assms(3) by (simp_all add: year_of_era_def Let_def c_def r1_def q_def r2_def a_def)
  have c: "0 \<le> c" "c \<le> 3" using assms(1) by (simp_all add: c_def)
  have r1: "0 \<le> r1" "r1 \<le> 36524"
    using assms(1,2) unfolding r1_def c_def by (simp_all add: min_def) linarith+
  have q: "0 \<le> q" "q \<le> 24" using r1 unfolding q_def by linarith+
  have r2: "0 \<le> r2" "r2 < 1461" "r1 = 1461 * q + r2" by (simp_all add: r2_def q_def)
  have a: "0 \<le> a" "a \<le> 3" using r2 by (simp_all add: a_def)
  have doy: "0 \<le> doy" "doy < 366" using r2 unfolding d a_def by (simp_all add: min_def) linarith+
  show "0 \<le> yoe" "yoe < 400" using y c q a by linarith+
  show "0 \<le> doy" "doy < 366" by (fact doy)+
  have "yoe div 100 = c" using y c q a by linarith
  moreover have "yoe mod 100 = 4 * q + a"
  proof -
    have "yoe = (4 * q + a) + 100 * c" using y by simp
    then have "yoe mod 100 = (4 * q + a) mod 100" by simp
    then show ?thesis using q a by simp
  qed
  moreover have "(4 * q + a) div 4 = q" "(4 * q + a) mod 4 = a" using a by auto
  moreover have "yoe mod 4 = a"
  proof -
    have "yoe = a + 4 * (25 * c + q)" using y by simp
    then have "yoe mod 4 = a mod 4" by (metis mod_mult_self2)
    then show ?thesis using a by simp
  qed
  ultimately show "day_of_era yoe doy = doe"
    using r2(3) d r1_def by (simp add: day_of_era_def)
qed

lemma month_of_doy:
  assumes "0 \<le> doy" "doy < 366" "month_of_doy doy = (m, d)"
  shows "doy_of_month m d = doy \<and> 1 \<le> m \<and> m \<le> 12 \<and> 1 \<le> d \<and> d \<le> 31"
proof -
  define mp where "mp = (5 * doy + 2) div 153"
  have m: "m = (if mp < 10 then mp + 3 else mp - 9)" and d: "d = doy - (153 * mp + 2) div 5 + 1"
    using assms(3) by (auto simp: month_of_doy_def Let_def mp_def)
  have mp: "0 \<le> mp" "mp \<le> 11" using assms(1,2) unfolding mp_def by linarith+
  have lo: "153 * mp \<le> 5 * doy + 2" and hi: "5 * doy + 2 < 153 * mp + 153"
    unfolding mp_def by linarith+
  have "(if m > 2 then m - 3 else m + 9) = mp" using mp by (auto simp: m)
  then have "doy_of_month m d = doy" by (simp add: doy_of_month_def d)
  moreover have "1 \<le> d" using lo unfolding d by linarith
  moreover have "d \<le> 31" using hi unfolding d by linarith
  ultimately show ?thesis using mp by (auto simp: m)
qed

lemma days_of_civil_of_days:
  assumes "civil_of_days days = (y, m, d)"
  shows "days_of_civil y m d = days \<and> 1 \<le> m \<and> m \<le> 12 \<and> 1 \<le> d \<and> d \<le> 31"
proof -
  define z where "z = days + 719468"
  obtain yoe doy where yd: "year_of_era (z mod 146097) = (yoe, doy)" by fastforce
  have b: "0 \<le> yoe" "yoe < 400" "0 \<le> doy" "doy < 366" "day_of_era yoe doy = z mod 146097"
    using year_of_era_bounds [OF _ _ yd] by auto
  obtain m' d' where md: "month_of_doy doy = (m', d')" by fastforce
  have mb: "doy_of_month m' d' = doy" "1 \<le> m'" "m' \<le> 12" "1 \<le> d'" "d' \<le> 31"
    using month_of_doy [OF b(3,4) md] by auto
  have eq: "y = yoe + 400 * (z div 146097) + (if m' \<le> 2 then 1 else 0)" "m = m'" "d = d'"
    using assms by (auto simp: civil_of_days_def Let_def z_def [symmetric] yd md)
  have "(if m \<le> 2 then y - 1 else y) = yoe + 400 * (z div 146097)" using eq by simp
  moreover have "(yoe + 400 * (z div 146097)) div 400 = z div 146097"
    "(yoe + 400 * (z div 146097)) mod 400 = yoe" using b(1,2) by auto
  ultimately have "days_of_civil y m d = z div 146097 * 146097 + z mod 146097 - 719468"
    by (simp add: days_of_civil_def Let_def eq mb b(5))
  then show ?thesis using eq mb by (simp add: z_def)
qed

text \<open>The days of a calendar date are within the length of its month.\<close>

definition leap_year :: "int \<Rightarrow> bool" where
  "leap_year y \<longleftrightarrow> y mod 4 = 0 \<and> (y mod 100 \<noteq> 0 \<or> y mod 400 = 0)"

definition month_length :: "int \<Rightarrow> int \<Rightarrow> int" where
  "month_length y m = (if m = 2 then (if leap_year y then 29 else 28)
     else if m = 4 \<or> m = 6 \<or> m = 9 \<or> m = 11 then 30 else 31)"

lemma leap_day_era:
  assumes "0 \<le> doe" "doe < 146097" "year_of_era doe = (yoe, 365)"
  shows "leap_year (yoe + 1)"
proof -
  define c where "c = min 3 (doe div 36524)"
  define r1 where "r1 = doe - c * 36524"
  define q where "q = r1 div 1461"
  define r2 where "r2 = r1 mod 1461"
  have "year_of_era doe = (100 * c + 4 * q + min 3 (r2 div 365), r2 - 365 * min 3 (r2 div 365))"
    unfolding year_of_era_def Let_def c_def r1_def q_def r2_def by (rule refl)
  with assms(3) have y: "yoe = 100 * c + 4 * q + min 3 (r2 div 365)" and d: "r2 - 365 * min 3 (r2 div 365) = 365"
    by simp_all
  have r2b: "0 \<le> r2" "r2 < 1461" "r1 = 1461 * q + r2" by (simp_all add: r2_def q_def)
  have r2: "r2 = 1460"
  proof (cases "r2 div 365 \<le> 2")
    case True
    then show ?thesis using d by (simp add: min_def minus_mult_div_eq_mod)
  next
    case False
    then show ?thesis using d r2b by (simp add: min_def split: if_splits)
  qed
  have c: "0 \<le> c" "c \<le> 3" using assms(1) by (simp_all add: c_def)
  have r1: "0 \<le> r1" "r1 \<le> 36524"
    using assms(1,2) unfolding r1_def c_def by (simp_all add: min_def) linarith+
  have r1': "r1 < 36524" if "c < 3"
  proof -
    have "c = doe div 36524" using that by (simp add: c_def min_def split: if_splits)
    then show ?thesis by (simp add: r1_def minus_div_mult_eq_mod)
  qed
  have yoe: "yoe + 1 = 100 * c + 4 * (q + 1)" using y r2 by simp
  have q: "0 \<le> q" "q \<le> 24" "q = 24 \<Longrightarrow> c = 3" using r1 r1' r2b r2 c by linarith+
  show ?thesis
  proof (cases "q = 24")
    case True
    then have "yoe + 1 = 400" using yoe q by simp
    then show ?thesis by (simp add: leap_year_def)
  next
    case False
    have "(yoe + 1) mod 4 = 0" unfolding yoe by presburger
    moreover have "(yoe + 1) mod 100 \<noteq> 0"
    proof
      assume "(yoe + 1) mod 100 = 0"
      then have "100 dvd 100 * c + 4 * (q + 1)" unfolding yoe by (simp add: dvd_eq_mod_eq_0)
      then have "100 dvd 4 * (q + 1)" using dvd_add_right_iff [of 100 "100 * c" "4 * (q + 1)"] by simp
      then have "100 \<le> 4 * (q + 1)" using q by (intro zdvd_imp_le) simp_all
      then show False using q False by simp
    qed
    ultimately show ?thesis using q by (simp add: leap_year_def)
  qed
qed

lemma int_le_12:
  "0 \<le> (i :: int) \<Longrightarrow> i \<le> 11 \<Longrightarrow> i = 0 \<or> i = 1 \<or> i = 2 \<or> i = 3 \<or> i = 4 \<or> i = 5 \<or> i = 6
    \<or> i = 7 \<or> i = 8 \<or> i = 9 \<or> i = 10 \<or> i = 11"
  by presburger

lemma month_of_doy_length:
  assumes "0 \<le> doy" "doy < 366" "month_of_doy doy = (m, d)" "doy = 365 \<longrightarrow> leap_year y"
  shows "d \<le> month_length y m"
proof -
  define mp where "mp = (5 * doy + 2) div 153"
  have m: "m = (if mp < 10 then mp + 3 else mp - 9)" and d: "d = doy - (153 * mp + 2) div 5 + 1"
    using assms(3) by (auto simp: month_of_doy_def Let_def mp_def)
  have mp: "0 \<le> mp" "mp \<le> 11" using assms(1,2) unfolding mp_def by linarith+
  have hi: "5 * doy + 2 < 153 * mp + 153" unfolding mp_def by linarith
  from int_le_12 [OF mp] consider "mp = 0" | "mp = 1" | "mp = 2" | "mp = 3" | "mp = 4" | "mp = 5" | "mp = 6"
    | "mp = 7" | "mp = 8" | "mp = 9" | "mp = 10" | "mp = 11"
    by blast
  then show ?thesis
    by cases (use hi assms(1,2,4) in \<open>auto simp: m d month_length_def\<close>)
qed

lemma civil_of_days_length:
  assumes "civil_of_days days = (y, m, d)"
  shows "1 \<le> m \<and> m \<le> 12 \<and> 1 \<le> d \<and> d \<le> month_length y m"
proof -
  define z where "z = days + 719468"
  obtain yoe doy where yd: "year_of_era (z mod 146097) = (yoe, doy)" by fastforce
  have b: "0 \<le> doy" "doy < 366" using year_of_era_bounds [OF _ _ yd] by auto
  obtain m' d' where md: "month_of_doy doy = (m', d')" by fastforce
  have eq: "y = yoe + 400 * (z div 146097) + (if m' \<le> 2 then 1 else 0)" "m = m'" "d = d'"
    using assms by (auto simp: civil_of_days_def Let_def z_def [symmetric] yd md)
  have leap: "leap_year (e + 400 * k) = leap_year e" for e k :: int
  proof -
    have "(e + 400 * k) mod 4 = (e + (100 * k) * 4) mod 4" "(e + 400 * k) mod 100 = (e + (4 * k) * 100) mod 100"
      by simp_all
    then show ?thesis by (simp only: leap_year_def mod_mult_self1 mod_mult_self2)
  qed
  have "doy = 365 \<longrightarrow> leap_year y"
  proof
    assume 365: "doy = 365"
    then have "m' = 2" using md by (simp add: month_of_doy_def)
    then have "y = (yoe + 1) + 400 * (z div 146097)" using eq by simp
    moreover have "leap_year (yoe + 1)" using leap_day_era [of "z mod 146097" yoe] yd 365 by simp
    ultimately show "leap_year y" by (simp only: leap)
  qed
  from month_of_doy_length [OF b md this] days_of_civil_of_days [OF assms] eq show ?thesis by simp
qed

section \<open>The ISO form\<close>

definition pad :: "nat \<Rightarrow> nat \<Rightarrow> string" where
  "pad w n = (let s = show_nat n in replicate (w - length s) (CHR ''0'') @ s)"

text \<open>Four digits for the years 0 to 9999, a sign and six digits otherwise.\<close>

definition iso_year :: "int \<Rightarrow> string" where
  "iso_year y = (if 0 \<le> y \<and> y \<le> 9999 then pad 4 (nat y)
     else (if y < 0 then ''-'' else ''+'') @ pad 6 (nat \<bar>y\<bar>))"

definition iso_string :: "int \<Rightarrow> string" where
  "iso_string ms =
    (let (y, m, d) = civil_of_days (ms div 86400000); t = nat (ms mod 86400000)
     in iso_year y @ ''-'' @ pad 2 (nat m) @ ''-'' @ pad 2 (nat d) @ ''T''
        @ pad 2 (t div 3600000) @ '':'' @ pad 2 (t div 60000 mod 60) @ '':''
        @ pad 2 (t div 1000 mod 60) @ ''.'' @ pad 3 (t mod 1000) @ ''Z'')"

text \<open>Reading the form \<open>iso_string\<close> prints: the year, then fields at fixed places.\<close>

definition iso_split :: "string \<Rightarrow> int \<times> string" where
  "iso_split s = (case s of
      [] \<Rightarrow> (0, [])
    | c # r \<Rightarrow> if c = CHR ''-'' then (- int (nat_of_digits (take 6 r)), drop 6 r)
        else if c = CHR ''+'' then (int (nat_of_digits (take 6 r)), drop 6 r)
        else (int (nat_of_digits (take 4 s)), drop 4 s))"

definition field :: "nat \<Rightarrow> nat \<Rightarrow> string \<Rightarrow> nat" where
  "field a w s = nat_of_digits (take w (drop a s))"

definition parse_iso :: "string \<Rightarrow> int" where
  "parse_iso s = (case iso_split s of (y, r) \<Rightarrow>
     days_of_civil y (int (field 1 2 r)) (int (field 4 2 r)) * 86400000
     + int (field 7 2 r * 3600000 + field 10 2 r * 60000 + field 13 2 r * 1000 + field 16 3 r))"

lemma nat_of_digits_replicate0: "nat_of_digits (replicate k (CHR ''0'') @ s) = nat_of_digits s"
proof (induction k)
  case (Suc k)
  have "nat_of_digits (CHR ''0'' # t) = nat_of_digits t" for t
    by (simp add: nat_of_digits_def digit_val_def byte_def)
  with Suc show ?case by simp
qed simp

lemma nat_of_digits_pad [simp]: "nat_of_digits (pad w n) = n"
  by (simp add: pad_def Let_def nat_of_digits_replicate0)

lemma length_show_nat: "0 < w \<Longrightarrow> n < 10 ^ w \<Longrightarrow> length (show_nat n) \<le> w"
proof (induction w arbitrary: n)
  case (Suc w)
  show ?case
  proof (cases "n < 10")
    case True
    then show ?thesis by (subst show_nat.simps) simp
  next
    case False
    then have "0 < w" using Suc.prems by (cases w) auto
    moreover have "n div 10 < 10 ^ w" using Suc.prems by (simp add: less_mult_imp_div_less mult.commute)
    ultimately show ?thesis using False Suc.IH by (subst show_nat.simps) simp
  qed
qed simp

lemma length_pad: "0 < w \<Longrightarrow> n < 10 ^ w \<Longrightarrow> length (pad w n) = w"
  using length_show_nat [of w n] by (simp add: pad_def Let_def)

lemma pad_digits: "list_all is_digit (pad w n)"
  using show_nat_digits [of n]
  by (auto simp: pad_def Let_def list_all_iff is_digit_def byte_def)

lemma pad_hd: "0 < w \<Longrightarrow> n < 10 ^ w \<Longrightarrow> \<exists>c r. pad w n = c # r \<and> is_digit c"
  using length_pad [of w n] pad_digits [of w n] by (cases "pad w n") auto

lemma take_app: "length a = n \<Longrightarrow> take n (a @ b) = a"
  and drop_app: "length a = n \<Longrightarrow> drop n (a @ b) = b"
  by auto

lemma iso_split_year:
  assumes "\<bar>y\<bar> < 1000000"
  shows "iso_split (iso_year y @ r) = (y, r)"
proof (cases "0 \<le> y \<and> y \<le> 9999")
  case True
  then have n' : "y < 10000" by simp
  have n: "nat y < 10 ^ 4" using n' True by (simp add: nat_less_iff)
  then obtain c q where c: "pad 4 (nat y) = c # q" "is_digit c" using pad_hd [of 4 "nat y"] by auto
  have l: "length (pad 4 (nat y)) = 4" using length_pad [OF _ n] by simp
  have "c \<noteq> CHR ''-''" "c \<noteq> CHR ''+''" using c(2) by (auto simp: is_digit_def byte_def)
  moreover have "take 4 (c # q @ r) = pad 4 (nat y)" "drop 4 (c # q @ r) = r"
    using take_app [OF l, of r] drop_app [OF l, of r] c(1) by auto
  ultimately show ?thesis using True by (simp add: iso_year_def iso_split_def c(1)) (simp add: c(1) [symmetric])
next
  case False
  have n: "nat \<bar>y\<bar> < 10 ^ 6" using assms by (simp add: nat_less_iff)
  have l: "length (pad 6 (nat \<bar>y\<bar>)) = 6" using length_pad [OF _ n] by simp
  have "iso_split (CHR ''-'' # q @ r) = (- int (nat_of_digits q), r)"
    "iso_split (CHR ''+'' # q @ r) = (int (nat_of_digits q), r)" if "length q = 6" for q
    using that by (simp_all add: iso_split_def)
  note this [OF l]
  with False show ?thesis by (cases "y < 0") (simp_all add: iso_year_def)
qed

lemma iso_fields:
  assumes "m < 100" "d < 100" "h < 100" "mi < 100" "s < 100" "ms < 1000"
    and r: "r = ''-'' @ pad 2 m @ ''-'' @ pad 2 d @ ''T'' @ pad 2 h @ '':'' @ pad 2 mi
      @ '':'' @ pad 2 s @ ''.'' @ pad 3 ms @ ''Z''"
  shows "field 1 2 r = m \<and> field 4 2 r = d \<and> field 7 2 r = h \<and> field 10 2 r = mi
    \<and> field 13 2 r = s \<and> field 16 3 r = ms"
proof -
  have p2: "\<exists>a b. pad 2 n = [a, b]" if "n < 100" for n
    using length_pad [of 2 n] that by (auto simp: length_Suc_conv numeral_2_eq_2)
  have p3: "\<exists>a b c. pad 3 n = [a, b, c]" if "n < 1000" for n
    using length_pad [of 3 n] that by (auto simp: length_Suc_conv numeral_3_eq_3)
  have v: "pad w n = s \<Longrightarrow> nat_of_digits s = n" for w n s
    using nat_of_digits_pad [of w n] by simp
  obtain a1 a2 where a: "pad 2 m = [a1, a2]" using p2 [OF assms(1)] by auto
  obtain b1 b2 where b: "pad 2 d = [b1, b2]" using p2 [OF assms(2)] by auto
  obtain c1 c2 where c: "pad 2 h = [c1, c2]" using p2 [OF assms(3)] by auto
  obtain d1 d2 where d: "pad 2 mi = [d1, d2]" using p2 [OF assms(4)] by auto
  obtain e1 e2 where e: "pad 2 s = [e1, e2]" using p2 [OF assms(5)] by auto
  obtain f1 f2 f3 where f: "pad 3 ms = [f1, f2, f3]" using p3 [OF assms(6)] by auto
  show ?thesis
    unfolding r a b c d e f field_def
    by (simp add: v [OF a] v [OF b] v [OF c] v [OF d] v [OF e] v [OF f]
        numeral_eq_Suc)
qed

lemma day_split:
  fixes t :: nat
  shows "t div 3600000 * 3600000 + t div 60000 mod 60 * 60000 + t div 1000 mod 60 * 1000
    + t mod 1000 = t"
proof -
  have "t div 3600000 = t div 60000 div 60" using div_mult2_eq [of t 60000 60] by simp
  then have "t div 60000 = t div 3600000 * 60 + t div 60000 mod 60" by simp
  moreover have "t div 60000 = t div 1000 div 60" using div_mult2_eq [of t 1000 60] by simp
  then have "t div 1000 = t div 60000 * 60 + t div 1000 mod 60" by simp
  moreover have "t = t div 1000 * 1000 + t mod 1000" by simp
  ultimately show ?thesis by linarith
qed

lemma parse_iso_string:
  assumes "\<bar>ms\<bar> \<le> 8640000000000000"
  shows "parse_iso (iso_string ms) = ms"
proof -
  obtain y m d where c: "civil_of_days (ms div 86400000) = (y, m, d)" by (metis prod_cases3)
  have b: "days_of_civil y m d = ms div 86400000" "1 \<le> m" "m \<le> 12" "1 \<le> d" "d \<le> 31"
    using days_of_civil_of_days [OF c] by auto
  define t where "t = nat (ms mod 86400000)"
  have t: "t < 86400000" "int t = ms mod 86400000" by (auto simp: t_def)
  have y: "\<bar>y\<bar> < 1000000"
  proof -
    obtain yoe doy where yd: "year_of_era ((ms div 86400000 + 719468) mod 146097) = (yoe, doy)"
      by fastforce
    have "0 \<le> yoe" "yoe < 400" using year_of_era_bounds [OF _ _ yd] by auto
    moreover have "\<bar>y - (yoe + 400 * ((ms div 86400000 + 719468) div 146097))\<bar> \<le> 1"
      using c by (auto simp: civil_of_days_def Let_def yd split: prod.splits)
    moreover have "\<bar>(ms div 86400000 + 719468) div 146097\<bar> \<le> 700"
      using assms by linarith
    ultimately show ?thesis by linarith
  qed
  define r where "r = ''-'' @ pad 2 (nat m) @ ''-'' @ pad 2 (nat d) @ ''T''
        @ pad 2 (t div 3600000) @ '':'' @ pad 2 (t div 60000 mod 60) @ '':''
        @ pad 2 (t div 1000 mod 60) @ ''.'' @ pad 3 (t mod 1000) @ ''Z''"
  have f: "field 1 2 r = nat m \<and> field 4 2 r = nat d \<and> field 7 2 r = t div 3600000
    \<and> field 10 2 r = t div 60000 mod 60 \<and> field 13 2 r = t div 1000 mod 60 \<and> field 16 3 r = t mod 1000"
    by (rule iso_fields [OF _ _ _ _ _ _ r_def])
      (use b t in \<open>auto simp: less_mult_imp_div_less intro: less_trans [OF mod_less_divisor]\<close>)
  have "iso_string ms = iso_year y @ r"
    by (simp add: iso_string_def c Let_def r_def t_def)
  then have "parse_iso (iso_string ms) = days_of_civil y m d * 86400000
      + int (t div 3600000 * 3600000 + t div 60000 mod 60 * 60000 + t div 1000 mod 60 * 1000
        + t mod 1000)"
    using iso_split_year [OF y, of r] f b by (simp add: parse_iso_def)
  then show ?thesis
    by (simp only: day_split t b(1)) simp
qed

end
