(* ===== verification/Labels.thy ===== *)
theory Labels
  imports Thresholds Frames Series_Groups Js_Date
begin

text \<open>
  ui/panels/labels.ts, column-formats.ts, keyboard.ts and interaction.ts: the wording of a
  column, the display of a table cell, the points a keyboard user visits and the selection
  or time range an interaction with a chart stands for. The case mapping of the runtime
  outside the patterns is the parameter record \<open>casing\<close>.
\<close>

record casing =
  to_upper :: "string \<Rightarrow> string"
  to_lower :: "string \<Rightarrow> string"

section \<open>Column labels (labels.ts)\<close>

definition abbreviations :: "string list" where
  "abbreviations = [''id'', ''http'', ''https'', ''rpc'', ''grpc'', ''cpu'', ''sql'', ''url'',
     ''uri'', ''ip'', ''io'', ''db'', ''gc'', ''tls'', ''api'']"

definition label_units :: "(string, string) omap" where
  "label_units = [(''ms'', ''ms''), (''ns'', ''ns''), (''s'', ''s''), (''us'', micro_sign @ ''s''),
     (''bytes'', ''bytes''), (''percent'', ''%''), (''ratio'', ''ratio''),
     (''per_second'', ''/s''), (''per_minute'', ''/min'')]"

definition productNames :: "(string, string) omap" where
  "productNames = [(''body_template'', ''message template''), (''parquet_index'', ''traces'')]"

definition storage_words :: "string list" where
  "storage_words = [''duckdb'', ''parquet'', ''sqlite'', ''variant'', ''timestamptz_ns'', ''timestamp_ns'']"

text \<open>
  The pattern for storage terms, at every place of the label; \<open>w\<close> says the character before
  is a word character, so that \<open>\b\<close> holds when it is not.
\<close>

fun names_storage :: "bool \<Rightarrow> string \<Rightarrow> bool" where
  "names_storage w [] = False"
| "names_storage w (c # s) =
    ((\<not> w \<and> (list_ex (\<lambda>t. starts_with (ascii_lower (c # s)) t \<and> word_end (drop (length t) (c # s)))
         storage_words
       \<or> starts_with (ascii_lower (c # s)) ''telemetry.''))
     \<or> names_storage (is_word c) s)"

text \<open>An unaliased measure \<open>fn(field)\<close> read as \<open>fn_field\<close>.\<close>

definition call_words :: "string \<Rightarrow> string" where
  "call_words label =
    (let fn = takeWhile is_word label; rest = drop (length fn) label
     in if fn \<noteq> [] \<and> 2 \<le> length rest \<and> hd rest = CHR 0x28 \<and> last rest = CHR 0x29
           \<and> list_all (\<lambda>c. c \<noteq> CHR 0x28 \<and> c \<noteq> CHR 0x29) (butlast (tl rest))
        then join ''_'' (filter (\<lambda>s. s \<noteq> []) [fn, butlast (tl rest)]) else label)"

definition label_suffix :: "string \<Rightarrow> string option" where
  "label_suffix label = find (\<lambda>u. ends_with (ascii_lower label) (CHR ''_'' # u))
     [''ms'', ''ns'', ''us'', ''s'', ''bytes'', ''percent'']"

definition is_percentile :: "string \<Rightarrow> bool" where
  "is_percentile w = (case ascii_lower w of
      c # d # ds \<Rightarrow> c = CHR ''p'' \<and> list_all is_digit (d # ds) | _ \<Rightarrow> False)"

text \<open>\<open>word.charAt(0).toUpperCase() + word.slice(1)\<close>: half of a pair has no upper case.\<close>

definition capitalised :: "casing \<Rightarrow> string \<Rightarrow> string" where
  "capitalised cs word = (case code_points word of
      [] \<Rightarrow> [] | p # ps \<Rightarrow> (if js_length p = 1 then to_upper cs p else p) @ concat ps)"

definition label_word :: "casing \<Rightarrow> nat \<Rightarrow> string \<Rightarrow> string" where
  "label_word cs i word =
    (if is_percentile word \<or> str_in (to_lower cs word) abbreviations then to_upper cs word
     else if i = 0 then capitalised cs word else word)"

text \<open>
  \<open>displayLabel(column | name, panel)\<close>. The two dictionaries are read by own keys only: a
  column named after a member of \<open>Object.prototype\<close> is outside the model.
\<close>

definition explicit_unit :: "column + string \<Rightarrow> panel option \<Rightarrow> string option" where
  "explicit_unit col p =
    (let name = (case col of Inl c \<Rightarrow> c_name c | Inr s \<Rightarrow> s);
         fmt = Option.bind (Option.bind p p_options)
           (\<lambda>po. Option.bind (find (\<lambda>c. cf_field c = name) (po_columns po)) cf_unit)
     in or_else (or_else fmt (case col of Inl c \<Rightarrow> c_unit c | Inr _ \<Rightarrow> None))
          (case col of Inl c \<Rightarrow> if c_role c = RMeasure then Option.bind p p_unit else None
           | Inr _ \<Rightarrow> None))"

definition displayLabel :: "casing \<Rightarrow> column + string \<Rightarrow> panel option \<Rightarrow> string" where
  "displayLabel cs col p =
    (let name = (case col of Inl c \<Rightarrow> c_name c | Inr s \<Rightarrow> s);
         label0 = nullish (map_of productNames name) name;
         label1 = call_words (if names_storage False label0 then ''value'' else label0);
         suffix = label_suffix label1;
         label2 = (case suffix of None \<Rightarrow> label1
                   | Some u \<Rightarrow> take (length label1 - Suc (length u)) label1);
         unit = or_else (explicit_unit col p) suffix;
         words = split_char (CHR ''_'') label2
     in join '' '' (map (\<lambda>i. label_word cs i (words ! i)) [0..<length words])
        @ (case unit of None \<Rightarrow> []
           | Some u \<Rightarrow> if u \<noteq> [] \<and> u \<noteq> ''none'' \<and> u \<noteq> ''count''
               then '' ('' @ nullish (map_of label_units u) u @ '')'' else []))"

section \<open>Table cells (column-formats.ts)\<close>

record column_display =
  cd_unsupported :: "string option"
  cd_kind :: col_fmt
  cd_text :: string
  cd_fraction :: "num option"
  cd_points :: "real option list option"
  cd_variable :: "string option"
  cd_status :: "status option option"

text \<open>A numeric string of a status measure with a unit is read as its number.\<close>

definition status_value :: "(string \<Rightarrow> num) \<Rightarrow> column_format \<Rightarrow> cell \<Rightarrow> cell" where
  "status_value pn fmt v = (case v of
      CStr s \<Rightarrow> if cf_format fmt = FStatus \<and> truthy (map_option JStr (cf_unit fmt))
          \<and> not_blank s \<and> is_finite (pn s) then CNum (pn s) else v
    | _ \<Rightarrow> v)"

fun bar_fraction :: "num \<Rightarrow> real \<Rightarrow> num" where
  "bar_fraction (Fin x) mx = Fin (clamp (x / mx) 0 1)"
| "bar_fraction NaN mx = NaN"
| "bar_fraction PInf mx = Fin 1"
| "bar_fraction NInf mx = Fin 0"

definition json_points :: "json list \<Rightarrow> real option list" where
  "json_points xs = map (\<lambda>v. Option.bind (as_num v) finite_val) (take 240 xs)"

definition columnDisplay ::
  "intl \<Rightarrow> (num \<Rightarrow> string) \<Rightarrow> (string \<Rightarrow> num) \<Rightarrow> (string \<Rightarrow> json option) \<Rightarrow> column_format \<Rightarrow> cell
    \<Rightarrow> real \<Rightarrow> panel option \<Rightarrow> direction option \<Rightarrow> real option list option \<Rightarrow> column_display" where
  "columnDisplay il sn pn jp fmt value0 mx p better trend =
    (let value = status_value pn fmt value0;
         txt = (case value of CNull \<Rightarrow> em_dash | CStr s \<Rightarrow> s | CNum n \<Rightarrow> sn n);
         f = cf_format fmt;
         shown = (if f \<in> {FUnit, FBar, FStatus, FSparkline}
                  then (case value of CNum n \<Rightarrow> formatValue il (cf_unit fmt) (Some n) | _ \<Rightarrow> txt) else txt);
         fraction = (if f = FBar then Some (case value of
             CNum n \<Rightarrow> if 0 < mx then bar_fraction n mx else Fin 0 | _ \<Rightarrow> Fin 0) else None);
         status = (if f = FStatus then (case value of
             CNum n \<Rightarrow> Some (statusFor (finite_val n) (case p of None \<Rightarrow> [] | Some q \<Rightarrow> p_thresholds q)
               (or_else (Option.bind p p_better) better))
           | _ \<Rightarrow> None) else None);
         parsed = (if f = FSparkline then (case trend of
             Some ps \<Rightarrow> Inr (Some (take 240 ps))
           | None \<Rightarrow> (case jp txt of Some (JArr xs) \<Rightarrow> Inr (Some (json_points xs))
               | _ \<Rightarrow> Inl ''Sparkline requires an array column'')) else Inr None)
     in \<lparr>cd_unsupported = (case parsed of Inl m \<Rightarrow> Some m | Inr _ \<Rightarrow> None), cd_kind = f,
         cd_text = shown, cd_fraction = fraction,
         cd_points = (case parsed of Inl _ \<Rightarrow> None | Inr ps \<Rightarrow> ps),
         cd_variable = (if f = FServiceLink then cf_variable fmt else None),
         cd_status = status\<rparr>)"

lemma bar_fraction_range: "bar_fraction n mx = Fin x \<Longrightarrow> 0 \<le> x \<and> x \<le> 1"
  by (cases n) (auto simp: clamp_bounds)

lemma columnDisplay_fraction:
  "cd_fraction (columnDisplay il sn pn jp fmt v mx p better trend) = Some (Fin x) \<Longrightarrow> 0 \<le> x \<and> x \<le> 1"
  using bar_fraction_range
  by (fastforce simp: columnDisplay_def Let_def split: if_splits cell.splits)

lemma columnDisplay_points:
  "cd_points (columnDisplay il sn pn jp fmt v mx p better trend) = Some ps \<Longrightarrow>
     length ps \<le> 240 \<and> cf_format fmt = FSparkline
     \<and> cd_unsupported (columnDisplay il sn pn jp fmt v mx p better trend) = None"
  by (auto simp: columnDisplay_def Let_def json_points_def
      split: if_splits option.splits json.splits sum.splits)

section \<open>Keyboard points (keyboard.ts)\<close>

record key_series =
  ks_name :: "string option"
  ks_data :: "json list option"
  ks_interactive :: "bool option"

record point_event =
  pe_name :: "json option"
  pe_series :: "string option"
  pe_value :: json
  pe_data :: json
  pe_interactive :: "bool option"

record keyboard_point =
  kp_series :: nat
  kp_data :: nat
  kp_label :: string
  kp_event :: point_event

text \<open>\<open>object?.value ?? data\<close>\<close>

definition point_value :: "json \<Rightarrow> json" where
  "point_value d = (case jget ''value'' d of None \<Rightarrow> d | Some JNull \<Rightarrow> d | Some v \<Rightarrow> v)"

definition series_points :: "nat \<Rightarrow> key_series \<Rightarrow> keyboard_point list" where
  "series_points si s = (case ks_data s of
      None \<Rightarrow> []
    | Some ds \<Rightarrow> if ks_interactive s = Some False then []
        else map (\<lambda>di. \<lparr>kp_series = si, kp_data = di,
            kp_label = nullish (ks_name s) ''Series'' @ '' '' @ middot @ '' point '' @ show_nat (di + 1),
            kp_event = \<lparr>pe_name = jget ''name'' (ds ! di), pe_series = ks_name s,
              pe_value = point_value (ds ! di), pe_data = ds ! di, pe_interactive = ks_interactive s\<rparr>\<rparr>)
          (indices_where (\<lambda>d. point_value d \<noteq> JNull) ds))"

definition keyboardPoints :: "key_series list \<Rightarrow> keyboard_point list" where
  "keyboardPoints ss = concat (map (\<lambda>si. series_points si (ss ! si)) [0..<length ss])"

definition point_at :: "keyboard_point \<Rightarrow> nat \<times> nat" where
  "point_at k = (kp_series k, kp_data k)"

definition visits :: "key_series list \<Rightarrow> nat \<Rightarrow> nat \<Rightarrow> bool" where
  "visits ss si di \<longleftrightarrow> si < length ss \<and> ks_interactive (ss ! si) \<noteq> Some False
     \<and> (\<exists>ds. ks_data (ss ! si) = Some ds \<and> di < length ds \<and> ds ! di \<noteq> JNull)"

lemma point_value_null [simp]: "point_value d = JNull \<longleftrightarrow> d = JNull"
  by (auto simp: point_value_def split: option.splits json.splits)

lemma series_points_at:
  "map point_at (series_points si s) = (if ks_interactive s = Some False then []
     else map (Pair si) (indices_where (\<lambda>d. d \<noteq> JNull) (nullish (ks_data s) [])))"
  by (auto simp: series_points_def point_at_def indices_where_def split: option.splits)

lemma sorted_indices_where: "sorted_wrt (<) (indices_where p xs)"
  by (simp add: indices_where_def sorted_wrt_filter)

lemma keyboardPoints_at: "map point_at (keyboardPoints ss)
    = concat (map (\<lambda>si. map point_at (series_points si (ss ! si))) [0..<length ss])"
  by (simp add: keyboardPoints_def map_concat o_def)

text \<open>The reading order: by series, then by point.\<close>

definition before :: "nat \<times> nat \<Rightarrow> nat \<times> nat \<Rightarrow> bool" where
  "before a b \<longleftrightarrow> fst a < fst b \<or> fst a = fst b \<and> snd a < snd b"

lemma series_points_before: "sorted_wrt before (map point_at (series_points si s))"
  using sorted_indices_where [of "\<lambda>d. d \<noteq> JNull" "nullish (ks_data s) []"]
  by (simp add: series_points_at sorted_wrt_map before_def)

lemma keyboardPoints_before: "sorted_wrt before (map point_at (keyboardPoints ss))"
proof -
  have "sorted_wrt before (concat (map (\<lambda>si. map point_at (series_points si (ss ! si))) [0..<n]))
      \<and> (\<forall>x \<in> set (concat (map (\<lambda>si. map point_at (series_points si (ss ! si))) [0..<n])). fst x < n)" for n
  proof (induction n)
    case (Suc n)
    have "fst x = n" if "x \<in> set (map point_at (series_points n (ss ! n)))" for x
      using that unfolding series_points_at by (auto split: if_splits)
    moreover have "before x y" if "fst x < n" "fst y = n" for x y
      using that by (simp add: before_def)
    ultimately show ?case
      using Suc series_points_before [of n "ss ! n"]
      by (auto simp: sorted_wrt_append less_Suc_eq simp del: map_map)
  qed simp
  then show ?thesis by (simp add: keyboardPoints_at)
qed

lemma keyboardPoints_visits: "(si, di) \<in> set (map point_at (keyboardPoints ss)) \<longleftrightarrow> visits ss si di"
  unfolding keyboardPoints_at
  by (auto simp: series_points_at visits_def indices_where_set nullish_def split: if_splits option.splits)

section \<open>Properties\<close>

text \<open>
  The keyboard visits every value of every interactive series exactly once, in
  reading order, and nothing that is missing or belongs to a series that is not interactive.
\<close>

theorem keyboardPoints_complete_in_order:
  "sorted_wrt before (map point_at (keyboardPoints ss))
   \<and> set (map point_at (keyboardPoints ss)) = {(si, di). visits ss si di}"
  using keyboardPoints_before [of ss] keyboardPoints_visits [of _ _ ss] by auto

text \<open>
  A bar cell's fraction lies between 0 and 1, a sparkline has at most 240 points,
  and a cell never shows points and an unsupported note together.
\<close>

theorem columnDisplay_bounded:
  assumes "d = columnDisplay il sn pn jp fmt v mx p better trend"
  shows "(\<forall>x. cd_fraction d = Some (Fin x) \<longrightarrow> 0 \<le> x \<and> x \<le> 1)
    \<and> (\<forall>ps. cd_points d = Some ps \<longrightarrow> length ps \<le> 240 \<and> cf_format fmt = FSparkline \<and> cd_unsupported d = None)
    \<and> cd_kind d = cf_format fmt"
proof (intro conjI allI impI)
  show "cd_kind d = cf_format fmt" by (simp add: assms columnDisplay_def Let_def)
qed (use columnDisplay_fraction columnDisplay_points in \<open>simp_all add: assms\<close>; blast)+

theorem columnDisplay_bounded_witness:
  "cd_fraction (columnDisplay \<lparr>in_plain = \<lambda>_. ''n'', in_compact = \<lambda>_. ''n'', in_digits = \<lambda>_ _. ''n''\<rparr>
      (\<lambda>_. ''n'') (\<lambda>_. NaN) (\<lambda>_. None)
      \<lparr>cf_field = ''f'', cf_format = FBar, cf_unit = None, cf_variable = None\<rparr>
      (CNum (Fin 12)) 8 None None None) = Some (Fin 1) \<and> (0::real) \<le> 1 \<and> (1::real) \<le> 1"
  (is "cd_fraction ?d = Some (Fin 1) \<and> _")
proof -
  have "cd_fraction ?d = Some (Fin 1)"
    by (simp add: columnDisplay_def status_value_def clamp_def)
  with columnDisplay_bounded [OF refl, THEN conjunct1] show ?thesis by blast
qed

end
