(* ===== verification/Drill.thy ===== *)
theory Drill
  imports Labels
begin

text \<open>
  ui/panels/interaction.ts and ui/host/src/dashboards/drill-state.ts: what a click or a brush
  on a chart selects, and the drill target made of a selection and kept in the URL. Reading
  and printing JSON text (\<open>jp\<close>, \<open>js\<close>) and \<open>Date.parse\<close> (\<open>dp\<close>) are the runtime's.
\<close>

section \<open>Interaction (interaction.ts)\<close>

definition time_limit :: int where
  "time_limit = 8640000000000000"

definition brushRange :: "num \<Rightarrow> num \<Rightarrow> (string \<times> string) option" where
  "brushRange from to = (case (from, to) of
      (Fin a, Fin b) \<Rightarrow> if b \<le> a \<or> of_int time_limit < \<bar>a\<bar> \<or> of_int time_limit < \<bar>b\<bar> then None
        else Some (iso_string \<lfloor>a\<rfloor>, iso_string \<lceil>b\<rceil>)
    | _ \<Rightarrow> None)"

definition panelTimeLabel :: "panel \<Rightarrow> string option" where
  "panelTimeLabel p =
    (let parts = present [
        (case non_empty (p_time_range p) of Some r \<Rightarrow> Some (''Range '' @ r) | None \<Rightarrow> None),
        (case non_empty (p_time_shift p) of Some s \<Rightarrow> Some (''Shifted '' @ s) | None \<Rightarrow> None)]
     in if parts \<noteq> [] then Some (join ('' '' @ middot @ '' '') parts) else None)"

record chart_event =
  ev_name :: "string option"
  ev_series :: "string option"
  ev_value :: "json option"
  ev_data_value :: "json option"
  ev_selection :: "selection option"
  ev_interactive :: "bool option"

definition no_selection :: selection where
  "no_selection = \<lparr>sel_from = None, sel_to = None, sel_time = None, sel_dimensions = [],
     sel_trace_id = None, sel_namespace = None, sel_bucket = None\<rparr>"

text \<open>\<open>event.value === null || Array.isArray(event.value) && event.value.at(-1) == null\<close>\<close>

definition null_value :: "json option \<Rightarrow> bool" where
  "null_value v = (case v of
      Some JNull \<Rightarrow> True | Some (JArr xs) \<Rightarrow> xs = [] \<or> last xs = JNull | _ \<Rightarrow> False)"

definition selection_dimension :: "panel \<Rightarrow> panel_result \<Rightarrow> string option" where
  "selection_dimension p r =
    or_else (Option.bind (p_query p) (\<lambda>q. head_opt (q_by q)))
      (Option.bind (r_frame r) (\<lambda>f.
        map_option c_name (find (\<lambda>c. c_role c = RDimension) (f_columns f))))"

definition pointSelection :: "panel \<Rightarrow> panel_result \<Rightarrow> chart_event \<Rightarrow> selection option" where
  "pointSelection p r ev =
    (if ev_interactive ev = Some False then None
     else if ev_data_value ev = Some JNull then None
     else (case ev_selection ev of
       Some sel \<Rightarrow> if list_ex (\<lambda>v. isOtherSeries (Some v)) (map_vals (sel_dimensions sel)) then None else Some sel
     | None \<Rightarrow>
        if isOtherSeries (ev_series ev) \<or> isOtherSeries (ev_name ev) then None
        else if null_value (ev_value ev) then None
        else
          (let name = (if p_viz p = Timeseries then ev_series ev else ev_name ev);
               time = (if p_viz p = Timeseries then
                  Option.bind (Option.bind (ev_value ev) as_arr) (\<lambda>xs. Option.bind (head_opt xs) as_num)
                  else None)
           in Some (no_selection\<lparr>sel_time := time, sel_dimensions :=
               (case (non_empty (selection_dimension p r), non_empty name) of
                  (Some d, Some n) \<Rightarrow> [(d, n)] | _ \<Rightarrow> [])\<rparr>))))"

lemma floor_in_time: "\<bar>a\<bar> \<le> of_int time_limit \<Longrightarrow> \<bar>\<lfloor>a\<rfloor>\<bar> \<le> time_limit"
  and ceil_in_time: "\<bar>a\<bar> \<le> of_int time_limit \<Longrightarrow> \<bar>\<lceil>a\<rceil>\<bar> \<le> time_limit"
  for a :: real
  by linarith+

section \<open>Drill targets (drill-state.ts)\<close>

record drill_target =
  dr_panel :: string
  dr_kind :: string
  dr_from :: string
  dr_to :: string
  dr_window_from :: string
  dr_window_to :: string
  dr_dimensions :: "(string \<times> json) list"
  dr_trace_id :: "string option"
  dr_namespace :: "string option"
  dr_bucket :: "json option"

definition id_tail_char :: "char \<Rightarrow> bool" where
  "id_tail_char c \<longleftrightarrow> is_lower c \<or> is_digit c \<or> c = CHR ''_''"

definition panel_id_ok :: "string \<Rightarrow> bool" where
  "panel_id_ok s = (case s of [] \<Rightarrow> False
     | c # r \<Rightarrow> is_lower c \<and> length r \<le> 39 \<and> list_all id_tail_char r)"

definition max_window :: real where
  "max_window = 30 * 86400000"

text \<open>A start and an end that parse, in order and at most thirty days apart.\<close>

definition window_of :: "(string \<Rightarrow> num) \<Rightarrow> string \<Rightarrow> string \<Rightarrow> (real \<times> real) option" where
  "window_of dp a b = (case (dp a, dp b) of
      (Fin x, Fin y) \<Rightarrow> if y \<le> x \<or> max_window < y - x then None else Some (x, y)
    | _ \<Rightarrow> None)"

definition short_str :: "nat \<Rightarrow> json option \<Rightarrow> bool" where
  "short_str n v = (case v of None \<Rightarrow> True | Some (JStr s) \<Rightarrow> js_length s \<le> n | _ \<Rightarrow> False)"

definition bucket_ok :: "json option \<Rightarrow> bool" where
  "bucket_ok b = (truthy b \<longrightarrow>
     (case Option.bind (Option.bind b (jget ''lower'')) as_num of
        Some (Fin lo) \<Rightarrow> 0 \<le> lo \<and>
          (case Option.bind b (jget ''upper'') of
             None \<Rightarrow> True | Some (JNum (Fin up)) \<Rightarrow> lo < up | _ \<Rightarrow> False)
      | _ \<Rightarrow> False))"

definition drill_of_json :: "(string \<Rightarrow> num) \<Rightarrow> json \<Rightarrow> drill_target option" where
  "drill_of_json dp x =
    (case (jstr ''panel_id'' x, jstr ''kind'' x, jstr ''from'' x, jstr ''to'' x) of
       (Some pid, Some kind, Some from, Some to) \<Rightarrow>
        if \<not> panel_id_ok pid \<or> (kind \<noteq> ''traces'' \<and> kind \<noteq> ''logs'') then None
        else (case (window_of dp from to, jstr ''window_from'' x, jstr ''window_to'' x) of
          (Some (a, b), Some w0, Some w1) \<Rightarrow> (case window_of dp w0 w1 of
             Some (wa, wb) \<Rightarrow>
              if a < wa \<or> wb < b then None
              else (case Option.bind (jget ''dimensions'' x) as_obj of
                 Some dims \<Rightarrow>
                  if 3 < length dims \<or> list_ex (\<lambda>kv. \<not> short_str 500 (Some (snd kv))) dims then None
                  else if \<not> short_str 128 (jget ''trace_id'' x) \<or> \<not> short_str 200 (jget ''namespace'' x)
                    \<or> \<not> bucket_ok (jget ''bucket'' x) then None
                  else Some \<lparr>dr_panel = pid, dr_kind = kind, dr_from = from, dr_to = to,
                    dr_window_from = w0, dr_window_to = w1, dr_dimensions = dims,
                    dr_trace_id = jstr ''trace_id'' x, dr_namespace = jstr ''namespace'' x,
                    dr_bucket = jget ''bucket'' x\<rparr>
               | None \<Rightarrow> None)
           | None \<Rightarrow> None)
        | _ \<Rightarrow> None)
     | _ \<Rightarrow> None)"

text \<open>\<open>parseDrill(raw)\<close>: the text of a string, the value otherwise; at most 4096 code units.\<close>

definition parseDrill :: "(string \<Rightarrow> json option) \<Rightarrow> (json \<Rightarrow> string) \<Rightarrow> (string \<Rightarrow> num)
    \<Rightarrow> json option \<Rightarrow> drill_target option" where
  "parseDrill jp js dp raw = (case raw of
      None \<Rightarrow> None
    | Some (JStr t) \<Rightarrow> if t = [] \<or> 4096 < js_length t then None
        else Option.bind (jp t) (drill_of_json dp)
    | Some v \<Rightarrow> if js v = [] \<or> 4096 < js_length (js v) then None else drill_of_json dp v)"

text \<open>The interval of a frame, \<open>15s\<close> to \<open>1d\<close>, in milliseconds; a minute when it is not one.\<close>

definition interval_ms :: "string option \<Rightarrow> real" where
  "interval_ms v = (let s = nullish v []; ds = takeWhile is_digit s; u = drop (length ds) s
     in if ds = [] then 60000
        else if u = ''s'' then real (nat_of_digits ds) * 1000
        else if u = ''m'' then real (nat_of_digits ds) * 60000
        else if u = ''h'' then real (nat_of_digits ds) * 3600000
        else if u = ''d'' then real (nat_of_digits ds) * 86400000
        else 60000)"

text \<open>
  The window a selection narrows the panel's to. \<open>Math.max\<close> and \<open>Math.min\<close> with a NaN give
  NaN, and \<open>toISOString\<close> of it or of a time out of range throws.
\<close>

definition drill_window :: "(string \<Rightarrow> num) \<Rightarrow> panel_result \<Rightarrow> selection \<Rightarrow> real \<Rightarrow> real \<Rightarrow> num \<times> num" where
  "drill_window dp r sel f t =
    (let w = (case (sel_from sel, sel_to sel) of
           (Some a, Some b) \<Rightarrow> (num_max (Fin f) (dp a), num_min (Fin t) (dp b))
         | _ \<Rightarrow> (Fin f, Fin t))
     in case sel_time sel of
          Some tm \<Rightarrow> if truthy (map_option JStr (sel_trace_id sel)) then w
            else (num_max (fst w) tm, num_min (snd w) (num_plus tm (interval_ms (r_interval r))))
        | None \<Rightarrow> w)"

definition to_iso :: "num \<Rightarrow> string result" where
  "to_iso n = (case n of
      Fin x \<Rightarrow> if of_int time_limit < \<bar>x\<bar> then Inl ''Invalid time value''
        else Inr (iso_string (if 0 \<le> x then \<lfloor>x\<rfloor> else \<lceil>x\<rceil>))
    | _ \<Rightarrow> Inl ''Invalid time value'')"

text \<open>The selection's own text where it names the same instant.\<close>

definition time_text :: "(string \<Rightarrow> num) \<Rightarrow> string option \<Rightarrow> num \<Rightarrow> string result" where
  "time_text dp s n = (case non_empty s of
      Some v \<Rightarrow> if dp v = n \<and> n \<noteq> NaN then Inr v else to_iso n
    | None \<Rightarrow> to_iso n)"

definition opt_field :: "string \<Rightarrow> json option \<Rightarrow> (string \<times> json) list" where
  "opt_field k v = (case v of None \<Rightarrow> [] | Some x \<Rightarrow> [(k, x)])"

definition bucket_json :: "bucket \<Rightarrow> json" where
  "bucket_json b = JObj ((''lower'', JNum (Fin (bk_lower b)))
     # opt_field ''upper'' (map_option (\<lambda>u. JNum (Fin u)) (bk_upper b)))"

definition makeDrill :: "(string \<Rightarrow> json option) \<Rightarrow> (json \<Rightarrow> string) \<Rightarrow> (string \<Rightarrow> num)
    \<Rightarrow> panel \<Rightarrow> panel_result \<Rightarrow> selection \<Rightarrow> drill_target option result" where
  "makeDrill jp js dp p r sel =
    (let traced = truthy (map_option JStr (sel_trace_id sel))
     in if p_drill p = None \<and> p_viz p \<noteq> ServiceMap \<and> \<not> traced then Inr None
        else (case (r_from_ms r, r_to_ms r) of
          (Some f, Some t) \<Rightarrow>
            (let (a, b) = drill_window dp r sel f t
             in case (time_text dp (sel_from sel) a, time_text dp (sel_to sel) b, to_iso (Fin f), to_iso (Fin t)) of
                  (Inr from, Inr to, Inr w0, Inr w1) \<Rightarrow>
                    Inr (parseDrill jp js dp (Some (JStr (js (JObj
                      ([(''panel_id'', JStr (p_id p))]
                       @ opt_field ''kind'' (map_option JStr
                           (if traced \<or> p_viz p = ServiceMap then Some ''traces'' else p_drill p))
                       @ [(''from'', JStr from), (''to'', JStr to),
                          (''window_from'', JStr w0), (''window_to'', JStr w1),
                          (''dimensions'', JObj (map (\<lambda>(k, v). (k, JStr v)) (sel_dimensions sel)))]
                       @ opt_field ''trace_id'' (map_option JStr (sel_trace_id sel))
                       @ opt_field ''namespace'' (map_option JStr (sel_namespace sel))
                       @ opt_field ''bucket'' (map_option bucket_json (sel_bucket sel))))))))
                | _ \<Rightarrow> Inl ''Invalid time value'')
        | _ \<Rightarrow> Inr None))"

text \<open>What an accepted target promises.\<close>

definition drill_ok :: "(string \<Rightarrow> num) \<Rightarrow> drill_target \<Rightarrow> bool" where
  "drill_ok dp d \<longleftrightarrow> panel_id_ok (dr_panel d) \<and> dr_kind d \<in> {''traces'', ''logs''}
     \<and> (\<exists>a b wa wb. dp (dr_from d) = Fin a \<and> dp (dr_to d) = Fin b
          \<and> dp (dr_window_from d) = Fin wa \<and> dp (dr_window_to d) = Fin wb
          \<and> wa \<le> a \<and> a < b \<and> b \<le> wb \<and> wb - wa \<le> max_window)
     \<and> length (dr_dimensions d) \<le> 3
     \<and> (\<forall>kv \<in> set (dr_dimensions d). short_str 500 (Some (snd kv)))
     \<and> bucket_ok (dr_bucket d)"

lemma window_of_Some:
  "window_of dp a b = Some (x, y) \<Longrightarrow> dp a = Fin x \<and> dp b = Fin y \<and> x < y \<and> y - x \<le> max_window"
  by (auto simp: window_of_def split: num.splits if_splits)

lemma drill_of_json_ok: "drill_of_json dp x = Some d \<Longrightarrow> drill_ok dp d"
  unfolding drill_of_json_def
  by (auto simp: drill_ok_def list_ex_iff split: option.split_asm if_split_asm prod.split_asm
      dest!: window_of_Some)

lemma parseDrill_ok: "parseDrill jp js dp raw = Some d \<Longrightarrow> drill_ok dp d"
  by (auto simp: parseDrill_def bind_eq_Some_conv intro: drill_of_json_ok
      split: option.splits json.splits if_splits)

lemma makeDrill_ok: "makeDrill jp js dp p r sel = Inr (Some d) \<Longrightarrow> drill_ok dp d"
  by (auto simp: makeDrill_def Let_def intro: parseDrill_ok
      split: option.splits if_splits prod.splits sum.splits)

section \<open>Properties\<close>

text \<open>
  A brushed range is printed as two times that read back as whole milliseconds
  around it: it is widened by less than a millisecond on either side, never empty, and
  there is none for an empty, infinite or undefined range.
\<close>

theorem brushRange_reads_back:
  "(case brushRange from to of
      None \<Rightarrow> \<not> (\<exists>a b. from = Fin a \<and> to = Fin b \<and> a < b \<and> \<bar>a\<bar> \<le> time_limit \<and> \<bar>b\<bar> \<le> time_limit)
    | Some (s, e) \<Rightarrow> (\<exists>a b. from = Fin a \<and> to = Fin b \<and> a < b
        \<and> of_int (parse_iso s) \<le> a \<and> a < of_int (parse_iso s) + 1
        \<and> b \<le> of_int (parse_iso e) \<and> of_int (parse_iso e) < b + 1))"
proof (cases "\<exists>a b. from = Fin a \<and> to = Fin b \<and> a < b \<and> \<bar>a\<bar> \<le> time_limit \<and> \<bar>b\<bar> \<le> time_limit")
  case True
  then obtain a b where ab: "from = Fin a" "to = Fin b" "a < b" "\<bar>a\<bar> \<le> time_limit" "\<bar>b\<bar> \<le> time_limit"
    by blast
  have "parse_iso (iso_string \<lfloor>a\<rfloor>) = \<lfloor>a\<rfloor>" "parse_iso (iso_string \<lceil>b\<rceil>) = \<lceil>b\<rceil>"
    using floor_in_time [OF ab(4)] ceil_in_time [OF ab(5)]
    by (auto intro!: parse_iso_string simp: time_limit_def)
  moreover have "brushRange from to = Some (iso_string \<lfloor>a\<rfloor>, iso_string \<lceil>b\<rceil>)"
    using ab by (simp add: brushRange_def)
  ultimately show ?thesis using ab by simp linarith
next
  case False
  then have "brushRange from to = None"
    by (auto simp: brushRange_def not_le split: num.splits)
  with False show ?thesis by simp
qed

text \<open>
  No interaction selects an aggregated Other series or a missing value: the
  dimensions of every selection name real series.
\<close>

theorem pointSelection_is_real:
  assumes "pointSelection p r ev = Some sel"
  shows "(\<forall>kv \<in> set (sel_dimensions sel). \<not> isOtherSeries (Some (snd kv)))
    \<and> ev_interactive ev \<noteq> Some False \<and> ev_data_value ev \<noteq> Some JNull
    \<and> (ev_selection ev = None \<longrightarrow> \<not> null_value (ev_value ev))"
  using assms
  by (auto simp: pointSelection_def Let_def list_ex_iff map_vals_def no_selection_def non_empty_def
      split: if_splits option.splits)

definition demo_event :: chart_event where
  "demo_event = \<lparr>ev_name = Some ''checkout'', ev_series = None, ev_value = Some (JNum (Fin 3)),
     ev_data_value = None, ev_selection = None, ev_interactive = None\<rparr>"

theorem pointSelection_is_real_witness:
  "\<exists>sel :: selection. sel_dimensions sel = [(''service'', ''checkout'')]
    \<and> (\<forall>kv \<in> set (sel_dimensions sel). \<not> isOtherSeries (Some (snd kv)))"
proof -
  let ?p = "demo_panel\<lparr>p_viz := Bar, p_query := Some \<lparr>q_from = ''spans'', q_where = [], q_measures = [],
     q_by = [''service''], q_bucket = None, q_sort = None, q_limit = None\<rparr>\<rparr>"
  let ?sel = "no_selection\<lparr>sel_dimensions := [(''service'', ''checkout'')]\<rparr>"
  have "pointSelection ?p r demo_event = Some ?sel" for r
    by (simp add: pointSelection_def demo_event_def demo_panel_def selection_dimension_def
        non_empty_def null_value_def isOtherSeries_def no_selection_def)
  note real = pointSelection_is_real [OF this]
  show ?thesis
    by (rule exI [of _ ?sel]) (use real in simp)
qed

text \<open>
  Property C25. Every drill target the code makes or accepts from a URL, whatever that text
  holds, names a panel id and a kind, has a non-empty range inside its panel window of at most
  thirty days, at most three dimensions of at most 500 characters and a sound bucket.
\<close>

theorem drill_targets_are_sound:
  assumes "parseDrill jp js dp raw = Some d \<or> makeDrill jp js dp p r sel = Inr (Some d)"
  shows "drill_ok dp d"
  using assms by (auto intro: parseDrill_ok makeDrill_ok)

definition demo_drill :: json where
  "demo_drill = JObj [(''panel_id'', JStr ''latency''), (''kind'', JStr ''traces''),
     (''from'', JStr ''b''), (''to'', JStr ''c''), (''window_from'', JStr ''a''),
     (''window_to'', JStr ''d''), (''dimensions'', JObj [(''service'', JStr ''api'')])]"

definition demo_instant :: "string \<Rightarrow> num" where
  "demo_instant s = Fin (real (byte (hd s)))"

theorem drill_targets_are_sound_witness:
  "\<exists>d. parseDrill (\<lambda>_. None) (\<lambda>_. ''x'') demo_instant (Some demo_drill) = Some d
    \<and> drill_ok demo_instant d \<and> dr_from d = ''b''"
proof -
  obtain d where d: "parseDrill (\<lambda>_. None) (\<lambda>_. ''x'') demo_instant (Some demo_drill) = Some d"
      "dr_from d = ''b''"
    by (simp add: parseDrill_def demo_drill_def drill_of_json_def jstr_def demo_instant_def
        window_of_def max_window_def panel_id_ok_def id_tail_char_def short_str_def bucket_ok_def
        is_lower_def byte_def is_cont_def)
  then show ?thesis
    using drill_targets_are_sound [of "\<lambda>_. None" "\<lambda>_. ''x''" demo_instant "Some demo_drill" d] by blast
qed

end
