(* ===== verification/Panel_Queries.thy ===== *)
theory Panel_Queries
  imports Drill
begin

text \<open>
  Fetching panel results: the line stream of ui/host/src/dashboards/api.ts, the refresh of a
  dashboard in refresh.ts, and the snapshot of ui/host/src/dashboards/use-panel-results.ts
  that keeps the last frame of every panel. Requests to the server are parameters; what is
  modelled is the order of the requests and what becomes of the answers.
\<close>

section \<open>The result stream (api.ts)\<close>

definition newline :: char where "newline = CHR 0x0A"

text \<open>
  The inner loop of one read: every complete line of the pending text is parsed, a blank one
  skipped, and what follows the last newline stays pending.
\<close>

function drain :: "(string \<Rightarrow> 'a result) \<Rightarrow> string \<Rightarrow> 'a list \<Rightarrow> (string \<times> 'a list) result" where
  "drain jp pending results =
    (case find_index (\<lambda>c. c = newline) pending of
       None \<Rightarrow> Inr (pending, results)
     | Some e \<Rightarrow>
         (let line = take e pending; rest = drop (Suc e) pending
          in if \<not> not_blank line then drain jp rest results
             else (case jp line of
               Inl err \<Rightarrow> Inl err
             | Inr r \<Rightarrow> drain jp rest (results @ [r]))))"
  by pat_completeness auto

termination
  by (relation "measure (\<lambda>(_, pending, _). length pending)")
    (auto dest: find_index_Some)

declare drain.simps [simp del]

definition read_step :: "(string \<Rightarrow> 'a result) \<Rightarrow> (string \<times> 'a list) result \<Rightarrow> string
    \<Rightarrow> (string \<times> 'a list) result" where
  "read_step jp st chunk = (case st of
      Inl err \<Rightarrow> Inl err
    | Inr (pending, results) \<Rightarrow> drain jp (pending @ chunk) results)"

text \<open>The reads of a response in turn, the results when the stream is done.\<close>

definition read_results :: "(string \<Rightarrow> 'a result) \<Rightarrow> string list \<Rightarrow> 'a list result" where
  "read_results jp chunks = (case foldl (read_step jp) (Inr ([], [])) chunks of
      Inl err \<Rightarrow> Inl err | Inr (_, results) \<Rightarrow> Inr results)"

text \<open>The reference: the text cut at every newline, what is after the last one left out.\<close>

fun cut_lines :: "string \<Rightarrow> string list \<times> string" where
  "cut_lines [] = ([], [])"
| "cut_lines (c # s) = (case cut_lines s of (ls, r) \<Rightarrow>
     if c = newline then ([] # ls, r)
     else (case ls of [] \<Rightarrow> ([], c # r) | l # ls' \<Rightarrow> ((c # l) # ls', r)))"

fun parse_lines :: "(string \<Rightarrow> 'a result) \<Rightarrow> string list \<Rightarrow> 'a list result" where
  "parse_lines jp [] = Inr []"
| "parse_lines jp (l # ls) = (if \<not> not_blank l then parse_lines jp ls
     else (case jp l of Inl e \<Rightarrow> Inl e
       | Inr r \<Rightarrow> (case parse_lines jp ls of Inl e \<Rightarrow> Inl e | Inr rs \<Rightarrow> Inr (r # rs))))"

lemma cut_lines_find:
  "cut_lines s = (case find_index (\<lambda>c. c = newline) s of
      None \<Rightarrow> ([], s)
    | Some e \<Rightarrow> (case cut_lines (drop (Suc e) s) of (ls, r) \<Rightarrow> (take e s # ls, r)))"
  by (induction s) (auto split: option.splits prod.splits)

lemma cut_lines_append:
  "cut_lines (s @ t) = (case cut_lines s of (ls, r) \<Rightarrow> (case cut_lines (r @ t) of (ls', r') \<Rightarrow> (ls @ ls', r')))"
proof (induction s)
  case (Cons c s)
  obtain ls r where 1: "cut_lines s = (ls, r)" by fastforce
  obtain ls' r' where 2: "cut_lines (r @ t) = (ls', r')" by fastforce
  from Cons 1 2 have "cut_lines (s @ t) = (ls @ ls', r')" by simp
  with 1 2 show ?case by (auto split: list.splits)
qed (simp split: prod.splits)

lemma cut_lines_rest: "cut_lines s = (ls, r) \<Longrightarrow> cut_lines r = ([], r)"
  by (induction s arbitrary: ls r) (auto split: prod.splits list.splits if_splits)

lemma drain_lines:
  "drain jp s rs = (case cut_lines s of (ls, r) \<Rightarrow>
     (case parse_lines jp ls of Inl e \<Rightarrow> Inl e | Inr xs \<Rightarrow> Inr (r, rs @ xs)))"
proof (induction jp s rs rule: drain.induct)
  case (1 jp s rs)
  show ?case
  proof (cases "find_index (\<lambda>c. c = newline) s")
    case None
    then show ?thesis by (simp add: drain.simps [of jp s] cut_lines_find [of s])
  next
    case (Some e)
    obtain ls r where c: "cut_lines (drop (Suc e) s) = (ls, r)" by fastforce
    show ?thesis
    proof (cases "not_blank (take e s)")
      case False
      with 1(1) [OF Some refl refl] Some c show ?thesis
        by (simp add: drain.simps [of jp s] cut_lines_find [of s])
    next
      case True
      show ?thesis
      proof (cases "jp (take e s)")
        case (Inl err)
        with True Some c show ?thesis by (simp add: drain.simps [of jp s] cut_lines_find [of s])
      next
        case (Inr x)
        with 1(2) [OF Some refl refl] True Some c show ?thesis
          by (simp add: drain.simps [of jp s] cut_lines_find [of s] split: sum.splits)
      qed
    qed
  qed
qed

lemma parse_lines_append:
  "parse_lines jp (xs @ ys) = (case parse_lines jp xs of Inl e \<Rightarrow> Inl e
     | Inr as \<Rightarrow> (case parse_lines jp ys of Inl e \<Rightarrow> Inl e | Inr bs \<Rightarrow> Inr (as @ bs)))"
  by (induction xs) (auto split: sum.splits)

lemma read_loop:
  "foldl (read_step jp) (Inr ([], [])) chunks = (case cut_lines (concat chunks) of (ls, r) \<Rightarrow>
     (case parse_lines jp ls of Inl e \<Rightarrow> Inl e | Inr xs \<Rightarrow> Inr (r, xs)))"
proof (induction chunks rule: rev_induct)
  case (snoc c cs)
  obtain ls r where 1: "cut_lines (concat cs) = (ls, r)" by fastforce
  obtain ls' r' where 2: "cut_lines (r @ c) = (ls', r')" by fastforce
  from 1 2 have "cut_lines (concat (cs @ [c])) = (ls @ ls', r')"
    using cut_lines_append [of "concat cs" c] by simp
  with snoc 1 2 show ?case
    by (simp add: read_step_def drain_lines parse_lines_append split: sum.splits)
qed simp

section \<open>Refreshing a dashboard (refresh.ts)\<close>

definition busyGroup :: nat where "busyGroup = 2"

text \<open>
  The groups of the panels a busy server turned away, one request after the other until one
  is turned away again. The state is the requests sent and the results.
\<close>

function rerun :: "(string list option \<Rightarrow> panel_result list result) \<Rightarrow> string list
    \<Rightarrow> string list option list \<times> panel_result list
    \<Rightarrow> string list option list \<times> panel_result list result" where
  "rerun query later st = (case st of (sent, results) \<Rightarrow>
     if later = [] then (sent, Inr results)
     else (let ids = take busyGroup later; sent' = sent @ [Some ids] in
       case query (Some ids) of
         Inl e \<Rightarrow> (sent', Inl e)
       | Inr answer \<Rightarrow>
           if list_ex r_busy answer then (sent', Inr (results @ answer))
           else rerun query (drop busyGroup later) (sent', results @ answer)))"
  by pat_completeness auto

termination
  by (relation "measure (\<lambda>(_, later, _). length later)") (auto simp: busyGroup_def)

declare rerun.simps [simp del]

definition later_ids :: "string list option \<Rightarrow> string list \<Rightarrow> string list" where
  "later_ids panels busy = filter (\<lambda>i. i \<in> set (nullish panels [])) busy"

definition first_ids :: "string list option \<Rightarrow> string list \<Rightarrow> string list option" where
  "first_ids panels later = map_option (filter (\<lambda>i. i \<notin> set later)) panels"

definition run_panels :: "(string list option \<Rightarrow> panel_result list result) \<Rightarrow> string list option \<Rightarrow> string list
    \<Rightarrow> string list option list \<times> panel_result list result" where
  "run_panels query panels busy =
    (let later = later_ids panels busy; first = first_ids panels later
     in if later \<noteq> [] \<and> nullish first [] = [] then rerun query later ([], [])
        else (let ids = (if later \<noteq> [] then first else panels) in
          case query ids of
            Inl e \<Rightarrow> ([ids], Inl e)
          | Inr results \<Rightarrow> rerun query later ([ids], results)))"

record 'a refreshed =
  rf_results :: "panel_result list"
  rf_annotations :: "'a option"
  rf_annotation_error :: "string option"

definition time_viz :: "viz \<Rightarrow> bool" where
  "time_viz v \<longleftrightarrow> v = Timeseries \<or> v = Heatmap \<or> v = StateTimeline"

definition time_windows :: "dashboard_spec \<Rightarrow> panel_result list \<Rightarrow> (real \<times> real) list" where
  "time_windows spec results =
    (let ids = map p_id (filter (\<lambda>p. time_viz (p_viz p)) (ds_panels spec))
     in present (map (\<lambda>r. case (r_from_ms r, r_to_ms r) of
          (Some a, Some b) \<Rightarrow> if r_id r \<in> set ids \<and> a < b then Some (a, b) else None | _ \<Rightarrow> None) results))"

text \<open>\<open>refreshDashboard\<close>: the results, then one annotation request over their whole window.\<close>

definition refreshDashboard :: "(string list option \<Rightarrow> panel_result list result)
    \<Rightarrow> (string \<times> string \<Rightarrow> 'a result) \<Rightarrow> bool \<Rightarrow> dashboard_spec \<Rightarrow> string list option \<Rightarrow> string list
    \<Rightarrow> 'a refreshed result" where
  "refreshDashboard query ann aborted spec panels busy =
    (case snd (run_panels query panels busy) of
       Inl e \<Rightarrow> Inl e
     | Inr results \<Rightarrow>
        (let windows = time_windows spec results;
             plain = \<lparr>rf_results = results, rf_annotations = None, rf_annotation_error = None\<rparr>
         in case windows of
              [] \<Rightarrow> Inr plain
            | w # ws \<Rightarrow>
               if ds_deploys spec = Some False \<and> ds_anomalies spec = Some False then Inr plain
               else (case (case (to_iso (Fin (min_of (fst w) (map fst ws))), to_iso (Fin (max_of (snd w) (map snd ws)))) of
                      (Inr a, Inr b) \<Rightarrow> ann (a, b) | (Inl e, _) \<Rightarrow> Inl e | (_, Inl e) \<Rightarrow> Inl e) of
                   Inr x \<Rightarrow> Inr (plain\<lparr>rf_annotations := Some x\<rparr>)
                 | Inl e \<Rightarrow> if aborted then Inl e else Inr (plain\<lparr>rf_annotation_error := Some e\<rparr>))))"

text \<open>The panels of a trace of requests.\<close>

definition asked :: "string list option list \<Rightarrow> string list" where
  "asked sent = concat (map (\<lambda>r. nullish r []) sent)"

lemma asked_simps [simp]: "asked [] = []" "asked (sent @ [Some ids]) = asked sent @ ids"
  by (simp_all add: asked_def)

lemma rerun_asks:
  assumes "rerun query later (sent, rs) = (sent', out)"
  shows "\<exists>n. asked sent' = asked sent @ take n later
    \<and> (\<exists>more. sent' = sent @ more \<and> list_all (\<lambda>r. \<exists>ids. r = Some ids \<and> ids \<noteq> [] \<and> length ids \<le> 2) more)
    \<and> ((\<forall>ids. \<exists>g. query (Some ids) = Inr g \<and> \<not> list_ex r_busy g) \<longrightarrow> asked sent' = asked sent @ later)"
  using assms
proof (induction later arbitrary: sent rs rule: length_induct)
  case (1 later)
  let ?ids = "take busyGroup later" and ?rest = "drop busyGroup later"
  show ?case
  proof (cases "later = []")
    case True
    with "1.prems" have "sent' = sent" by (simp add: rerun.simps [of query "[]"])
    with True show ?thesis by auto
  next
    case False
    then have ids: "?ids \<noteq> []" "length ?ids \<le> 2" "length ?rest < length later"
      by (auto simp: busyGroup_def)
    show ?thesis
    proof (cases "\<exists>g. query (Some ?ids) = Inr g \<and> \<not> list_ex r_busy g")
      case True
      then obtain g where g: "query (Some ?ids) = Inr g" "\<not> list_ex r_busy g" by blast
      have r: "rerun query ?rest (sent @ [Some ?ids], rs @ g) = (sent', out)"
        using "1.prems" g False by (simp add: rerun.simps [of query later] Let_def)
      obtain n more where n: "asked sent' = asked (sent @ [Some ?ids]) @ take n ?rest"
        "sent' = (sent @ [Some ?ids]) @ more"
        "list_all (\<lambda>r. \<exists>ids. r = Some ids \<and> ids \<noteq> [] \<and> length ids \<le> 2) more"
        "\<forall>ids. \<exists>g. query (Some ids) = Inr g \<and> \<not> list_ex r_busy g \<Longrightarrow> asked sent' = asked (sent @ [Some ?ids]) @ ?rest"
        using "1.IH" [rule_format, OF ids(3) r] by blast
      have "?ids @ take n ?rest = take (length ?ids + n) later"
        by (simp add: take_add [symmetric] busyGroup_def min_def)
      then show ?thesis using n ids
        by (intro exI [of _ "length ?ids + n"] conjI exI [of _ "Some ?ids # more"]) auto
    next
      case no: False
      then have s: "sent' = sent @ [Some ?ids]"
        using "1.prems" False
        by (auto simp: rerun.simps [of query later] Let_def split: sum.splits if_splits)
      show ?thesis using s ids no
        by (intro exI [of _ busyGroup] conjI exI [of _ "[Some ?ids]"]) fastforce+
    qed
  qed
qed

lemma rerun_asks_only:
  assumes "rerun query later (sent, rs) = (sent', out)"
  obtains n more where "asked sent' = asked sent @ take n later" "sent' = sent @ more"
    "list_all (\<lambda>r. \<exists>ids. r = Some ids \<and> ids \<noteq> [] \<and> length ids \<le> 2) more"
    "(\<forall>ids. \<exists>g. query (Some ids) = Inr g \<and> \<not> list_ex r_busy g) \<longrightarrow> asked sent' = asked sent @ later"
  using rerun_asks [OF assms] by blast

section \<open>Properties\<close>

text \<open>
  Property C31. However the response is cut into reads, the results are those of its lines in
  order: every line ended by a newline is parsed once, blank lines are skipped, and the first
  line that does not parse is the error.
\<close>

theorem stream_independent_of_chunks:
  "read_results jp chunks = parse_lines jp (fst (cut_lines (concat chunks)))"
  by (simp add: read_results_def read_loop split: prod.splits sum.splits)

text \<open>
  A refresh asks for every panel at most once; the panels that were not turned
  away before go in the first request, the others after it in groups of at most two, and when
  no request fails or is turned away every panel has been asked for.
\<close>

theorem refresh_asks_each_once:
  assumes "distinct ps" "distinct busy" "run_panels query (Some ps) busy = (sent, out)"
  shows "distinct (asked sent) \<and> set (asked sent) \<subseteq> set ps
    \<and> set ps - set busy \<subseteq> set (asked (take 1 sent)) \<union> (if set ps \<subseteq> set busy then set ps else {})
    \<and> list_all (\<lambda>r. \<exists>ids. r = Some ids \<and> length ids \<le> 2) (drop 1 sent)
    \<and> ((\<forall>ids. \<exists>g. query (Some ids) = Inr g \<and> \<not> list_ex r_busy g) \<longrightarrow> set (asked sent) = set ps)"
proof -
  let ?later = "later_ids (Some ps) busy" and ?first = "filter (\<lambda>i. i \<notin> set (later_ids (Some ps) busy)) ps"
  have l: "distinct ?later" "set ?later = set ps \<inter> set busy" "set ?first = set ps - set busy" "distinct ?first"
    using assms(1,2) by (auto simp: later_ids_def)
  have whole: "?later = [] \<Longrightarrow> ?first = ps" by simp
  have dis: "distinct (take n ?later)" "set (take n ?later) \<subseteq> set ps \<inter> set busy" for n
    using l by (auto dest: in_set_takeD)
  show ?thesis
  proof (cases "?later \<noteq> [] \<and> ?first = []")
    case True
    then have "rerun query ?later ([], []) = (sent, out)"
      using assms(3) by (simp add: run_panels_def first_ids_def Let_def)
    then obtain n more where r: "asked sent = asked [] @ take n ?later" "sent = [] @ more"
      "list_all (\<lambda>r. \<exists>ids. r = Some ids \<and> ids \<noteq> [] \<and> length ids \<le> 2) more"
      "(\<forall>ids. \<exists>g. query (Some ids) = Inr g \<and> \<not> list_ex r_busy g) \<longrightarrow> asked sent = asked [] @ ?later"
      by (rule rerun_asks_only)
    have sub: "set ps \<subseteq> set busy" using True l(3) by auto
    have "list_all (\<lambda>r. \<exists>ids. r = Some ids \<and> length ids \<le> 2) (drop 1 sent)"
      using r(2,3) by (auto simp: list_all_iff dest: in_set_dropD)
    then show ?thesis using r(1,4) dis [of n] l sub by auto
  next
    case False
    define ids where "ids = (if ?later \<noteq> [] then Some ?first else Some ps)"
    have run: "(case query ids of Inl e \<Rightarrow> ([ids], Inl e) | Inr results \<Rightarrow> rerun query ?later ([ids], results)) = (sent, out)"
      using False assms(3) unfolding run_panels_def first_ids_def ids_def Let_def
      by (simp only: option.map nullish_simps if_False)
    have ids: "asked [ids] = ?first" using whole by (simp add: asked_def ids_def)
    have some: "\<exists>x. ids = Some x" by (simp add: ids_def)
    show ?thesis
    proof (cases "query ids")
      case (Inl e)
      with run have "sent = [ids]" by simp
      moreover have "\<not> (\<forall>ids. \<exists>g. query (Some ids) = Inr g \<and> \<not> list_ex r_busy g)"
        using Inl some by (metis sum.distinct(1))
      ultimately show ?thesis using ids l by simp blast
    next
      case (Inr rs)
      with run have "rerun query ?later ([ids], rs) = (sent, out)" by simp
      then obtain n more where r: "asked sent = asked [ids] @ take n ?later" "sent = [ids] @ more"
        "list_all (\<lambda>r. \<exists>ids. r = Some ids \<and> ids \<noteq> [] \<and> length ids \<le> 2) more"
        "(\<forall>ids. \<exists>g. query (Some ids) = Inr g \<and> \<not> list_ex r_busy g) \<longrightarrow> asked sent = asked [ids] @ ?later"
        by (rule rerun_asks_only)
      have small: "list_all (\<lambda>r. \<exists>ids. r = Some ids \<and> length ids \<le> 2) (drop 1 sent)"
        using r(2,3) by (auto simp: list_all_iff)
      have head: "set (asked (take 1 sent)) = set ps - set busy"
        using r(2) ids l(3) by simp
      have asked: "asked sent = ?first @ take n ?later"
        using r(1) ids by simp
      have all: "set (asked sent) = set ps" if "\<forall>ids. \<exists>g. query (Some ids) = Inr g \<and> \<not> list_ex r_busy g"
      proof -
        have "asked sent = ?first @ ?later" using r(4) that ids by simp
        then show ?thesis using l(2,3) by (simp only: set_append) blast
      qed
      have once: "distinct (asked sent)" "set (asked sent) \<subseteq> set ps"
        unfolding asked distinct_append set_append using l(3,4) dis [of n] by blast+
      show ?thesis by (intro conjI impI once small all) (simp only: head Un_upper1)
    qed
  qed
qed

text \<open>A server that answers every request with one result per panel asked for.\<close>

definition demo_result :: "string \<Rightarrow> panel_result" where
  "demo_result i = \<lparr>r_id = i, r_status = ROk, r_frame = Some empty_frame, r_previous = None,
     r_error = None, r_busy = False, r_retryable = False, r_interval = None, r_from_ms = None,
     r_to_ms = None, r_better = None, r_shift_ms = None, r_scope = None, r_annotation_error = None\<rparr>"

definition demo_server :: "string list option \<Rightarrow> panel_result list result" where
  "demo_server ids = Inr (map demo_result (nullish ids []))"

theorem refresh_asks_each_once_witness:
  "asked (fst (run_panels demo_server (Some [''a'', ''b'', ''c'']) [''b''])) = [''a'', ''c'', ''b'']
   \<and> distinct (asked (fst (run_panels demo_server (Some [''a'', ''b'', ''c'']) [''b''])))"
proof
  show "asked (fst (run_panels demo_server (Some [''a'', ''b'', ''c'']) [''b''])) = [''a'', ''c'', ''b'']"
    by (simp add: run_panels_def later_ids_def first_ids_def demo_server_def rerun.simps busyGroup_def
        asked_def demo_result_def)
  show "distinct (asked (fst (run_panels demo_server (Some [''a'', ''b'', ''c'']) [''b''])))"
    by (rule refresh_asks_each_once [where ps = "[''a'', ''b'', ''c'']" and busy = "[''b'']",
        THEN conjunct1, OF _ _ surjective_pairing]) simp_all
qed

end
