(* ===== verification/Panel_Snapshot.thy ===== *)
theory Panel_Snapshot
  imports Panel_Queries
begin

text \<open>
  ui/host/src/dashboards/use-panel-results.ts with panel-result.ts and query-policy.ts: what
  a dashboard shows of its panels across refreshes. The snapshot is the hook's state and its
  events are the batches that land and the batches that fail; the choice of the panels to ask
  for, and the queue of refreshes and retries, are functions and steps of their own.
\<close>

section \<open>Results and errors (panel-result.ts, query-policy.ts)\<close>

record display_result = panel_result +
  dr_request_error :: "string list option"

definition display :: "panel_result \<Rightarrow> string list option \<Rightarrow> display_result" where
  "display r e = panel_result.extend r \<lparr>dr_request_error = e\<rparr>"

definition classifyPanelResult :: "string list \<Rightarrow> panel_result \<Rightarrow> display_result" where
  "classifyPanelResult sent r =
    display r (if r_status r = RError \<and> r_retryable r then Some sent else None)"

datatype query_error = ApiErr (err_status: nat) (err_code: string) (err_message: string)
  | OtherErr (err_message: string)

definition retryQuery :: "nat \<Rightarrow> query_error \<Rightarrow> bool" where
  "retryQuery n e \<longleftrightarrow> \<not> (\<exists>s c m. e = ApiErr s c m \<and> s < 500) \<and> n < 2"

definition retryPanelQuery :: "nat \<Rightarrow> query_error \<Rightarrow> bool" where
  "retryPanelQuery n e \<longleftrightarrow> \<not> (\<exists>s m. e = ApiErr s ''timeout'' m) \<and> retryQuery n e"

definition retryable_error :: "query_error \<Rightarrow> bool" where
  "retryable_error e = (case e of
      ApiErr s _ _ \<Rightarrow> s = 408 \<or> s = 429 \<or> 500 \<le> s | OtherErr _ \<Rightarrow> True)"

section \<open>The snapshot (merge)\<close>

record snapshot =
  sn_key :: string
  sn_results :: "(string, display_result) omap"
  sn_updated :: "(string, real) omap"
  sn_stale :: "string list"
  sn_received_at :: real
  sn_batch :: "nat option"

definition empty_snapshot :: "string \<Rightarrow> snapshot" where
  "empty_snapshot key = \<lparr>sn_key = key, sn_results = [], sn_updated = [], sn_stale = [],
     sn_received_at = 0, sn_batch = None\<rparr>"

record failed_batch =
  fb_ids :: "string list"
  fb_error :: string
  fb_retryable :: bool

text \<open>\<open>next.results.get(id)?.frame\<close>\<close>

definition framed :: "snapshot \<Rightarrow> string \<Rightarrow> display_result option" where
  "framed s i = (case map_of (sn_results s) i of
      Some r \<Rightarrow> if r_frame r \<noteq> None then Some r else None | None \<Rightarrow> None)"

definition merge_result :: "real \<Rightarrow> snapshot \<Rightarrow> display_result \<Rightarrow> snapshot" where
  "merge_result now s r =
    (case (if r_status r = RError then framed s (r_id r) else None) of
       Some old \<Rightarrow> s\<lparr>sn_stale := push_new (sn_stale s) (r_id r),
         sn_results := AList.update (r_id r)
           (old\<lparr>r_error := r_error r, r_busy := r_busy r, dr_request_error := dr_request_error r\<rparr>)
           (sn_results s)\<rparr>
     | None \<Rightarrow> s\<lparr>sn_results := AList.update (r_id r) r (sn_results s),
         sn_updated := AList.update (r_id r) now (sn_updated s),
         sn_stale := filter (\<lambda>i. i \<noteq> r_id r) (sn_stale s)\<rparr>)"

definition failed_result :: "failed_batch \<Rightarrow> string \<Rightarrow> display_result" where
  "failed_result f i = display \<lparr>r_id = i, r_status = RError, r_frame = None, r_previous = None,
     r_error = Some (fb_error f), r_busy = False, r_retryable = False, r_interval = None,
     r_from_ms = None, r_to_ms = None, r_better = None, r_shift_ms = None, r_scope = None,
     r_annotation_error = None\<rparr> (if fb_retryable f then Some (fb_ids f) else None)"

definition merge_failed :: "failed_batch \<Rightarrow> snapshot \<Rightarrow> string \<Rightarrow> snapshot" where
  "merge_failed f s i = (case framed s i of
      Some old \<Rightarrow> s\<lparr>sn_stale := push_new (sn_stale s) i,
        sn_results := AList.update i (old\<lparr>r_error := Some (fb_error f), r_busy := False,
          dr_request_error := (if fb_retryable f then Some (fb_ids f) else None)\<rparr>) (sn_results s)\<rparr>
    | None \<Rightarrow> s\<lparr>sn_results := AList.update i (failed_result f i) (sn_results s)\<rparr>)"

text \<open>A batch is fresh when it is numbered after the last one received.\<close>

definition fresh_batch :: "snapshot \<Rightarrow> display_result list option \<Rightarrow> nat option \<Rightarrow> bool" where
  "fresh_batch s data batch = (case (data, batch) of
      (Some _, Some b) \<Rightarrow> (case sn_batch s of None \<Rightarrow> True | Some n \<Rightarrow> n < b) | _ \<Rightarrow> False)"

definition merge_batch :: "snapshot \<Rightarrow> display_result list option \<Rightarrow> real \<Rightarrow> nat option \<Rightarrow> snapshot" where
  "merge_batch s data now batch =
    (if fresh_batch s data batch then
       (foldl (merge_result now) s (nullish data []))\<lparr>sn_received_at := now, sn_batch := batch\<rparr>
     else s)"

definition merge :: "snapshot \<Rightarrow> string \<Rightarrow> display_result list option \<Rightarrow> real \<Rightarrow> nat option
    \<Rightarrow> failed_batch option \<Rightarrow> snapshot" where
  "merge previous key data now batch failed =
    (let s = (if sn_key previous = key then previous else empty_snapshot key);
         s' = merge_batch s data now batch
     in case failed of None \<Rightarrow> s' | Some f \<Rightarrow> foldl (merge_failed f) s' (fb_ids f))"

text \<open>
  The invariant: one entry per panel, and a stale panel is one that shows an earlier frame.
\<close>

definition snap_ok :: "snapshot \<Rightarrow> bool" where
  "snap_ok s \<longleftrightarrow> map_ok (sn_results s) \<and> map_ok (sn_updated s) \<and> distinct (sn_stale s)
     \<and> (\<forall>i \<in> set (sn_stale s). framed s i \<noteq> None)"

lemma framed_Some_iff: "framed s i = Some r \<longleftrightarrow> map_of (sn_results s) i = Some r \<and> r_frame r \<noteq> None"
  by (auto simp: framed_def split: option.splits)

lemma framed_cong: "sn_results s = sn_results t \<Longrightarrow> framed s i = framed t i"
  by (simp add: framed_def)

lemma distinct_push_new: "distinct xs \<Longrightarrow> distinct (push_new xs x)"
  and set_push_new: "set (push_new xs x) = insert x (set xs)"
  by (auto simp: push_new_def)

text \<open>Keeping the old frame of a panel whose run failed.\<close>

lemma keep_frame_ok:
  assumes "snap_ok s" "framed s i = Some old" "r_frame new = r_frame old"
  shows "snap_ok (s\<lparr>sn_stale := push_new (sn_stale s) i, sn_results := AList.update i new (sn_results s)\<rparr>)"
  using assms
  by (auto simp: snap_ok_def framed_def update_conv distinct_push_new set_push_new omap.wf_set
      split: option.splits if_splits)

lemma merge_result_ok: "snap_ok s \<Longrightarrow> snap_ok (merge_result now s r)"
proof -
  assume ok: "snap_ok s"
  show ?thesis
  proof (cases "if r_status r = RError then framed s (r_id r) else None")
    case None
    with ok show ?thesis
      by (auto simp: merge_result_def snap_ok_def framed_def update_conv omap.wf_set)
  next
    case (Some old)
    then have "framed s (r_id r) = Some old" by (simp split: if_splits)
    from keep_frame_ok [OF ok this] Some show ?thesis by (simp add: merge_result_def)
  qed
qed

lemma merge_failed_ok: "snap_ok s \<Longrightarrow> snap_ok (merge_failed f s i)"
proof -
  assume ok: "snap_ok s"
  show ?thesis
  proof (cases "framed s i")
    case None
    with ok show ?thesis
      by (auto simp: merge_failed_def snap_ok_def framed_def update_conv omap.wf_set)
  next
    case (Some old)
    from keep_frame_ok [OF ok this] Some show ?thesis by (simp add: merge_failed_def)
  qed
qed

interpretation landed: event_machine "merge_result now" snap_ok
  by unfold_locales (rule merge_result_ok)

interpretation failed: event_machine "merge_failed f" snap_ok
  by unfold_locales (rule merge_failed_ok)

lemma snap_ok_received: "snap_ok (s\<lparr>sn_received_at := a, sn_batch := b\<rparr>) = snap_ok s"
  by (simp add: snap_ok_def framed_def)

lemma empty_snapshot_ok: "snap_ok (empty_snapshot key)"
  by (simp add: snap_ok_def empty_snapshot_def)

lemma merge_batch_ok: "snap_ok s \<Longrightarrow> snap_ok (merge_batch s data now batch)"
  by (simp add: merge_batch_def snap_ok_received landed.inv_run)

lemma merge_ok: "snap_ok s \<Longrightarrow> snap_ok (merge s key data now batch failed)"
  by (simp add: merge_def Let_def merge_batch_ok empty_snapshot_ok failed.inv_run split: option.split)

text \<open>What an event that only brings failures for a panel leaves of it.\<close>

definition shown_frame :: "snapshot \<Rightarrow> string \<Rightarrow> (frame option \<times> real option) option" where
  "shown_frame s i = map_option (\<lambda>r. (r_frame r, map_of (sn_updated s) i)) (framed s i)"

lemma merge_result_keeps:
  assumes "shown_frame s i = Some x" "r_id r = i \<Longrightarrow> r_status r = RError"
  shows "shown_frame (merge_result now s r) i = Some x"
  using assms
  by (auto simp: shown_frame_def merge_result_def framed_def update_conv split: option.splits if_splits)

lemma merge_failed_keeps:
  "shown_frame s i = Some x \<Longrightarrow> shown_frame (merge_failed f s j) i = Some x"
  by (auto simp: shown_frame_def merge_failed_def framed_def update_conv split: option.splits if_splits)

lemma merge_results_keep:
  assumes "shown_frame s i = Some x" "\<forall>r \<in> set rs. r_id r = i \<longrightarrow> r_status r = RError"
  shows "shown_frame (foldl (merge_result now) s rs) i = Some x"
  using assms by (induction rs arbitrary: s) (auto intro: merge_result_keeps)

lemma merge_fails_keep:
  "shown_frame s i = Some x \<Longrightarrow> shown_frame (foldl (merge_failed f) s js) i = Some x"
  by (induction js arbitrary: s) (auto intro: merge_failed_keeps)

lemma merge_keeps:
  assumes "shown_frame s i = Some x" "sn_key s = key"
    and "fresh_batch s data batch \<Longrightarrow> \<forall>r \<in> set (nullish data []). r_id r = i \<longrightarrow> r_status r = RError"
  shows "shown_frame (merge s key data now batch failed) i = Some x"
proof -
  have "shown_frame (merge_batch s data now batch) i = Some x"
  proof (cases "fresh_batch s data batch")
    case True
    then have "shown_frame (foldl (merge_result now) s (nullish data [])) i = Some x"
      using merge_results_keep [OF assms(1)] assms(3) by blast
    then show ?thesis using True by (simp add: merge_batch_def shown_frame_def framed_def)
  qed (use assms(1) in \<open>simp add: merge_batch_def\<close>)
  then show ?thesis
    using assms(2) by (auto simp: merge_def Let_def merge_fails_keep split: option.splits)
qed

section \<open>A sequence of batches\<close>

record batch_event =
  be_data :: "display_result list option"
  be_at :: real
  be_batch :: "nat option"
  be_failed :: "failed_batch option"

definition snap_step :: "string \<Rightarrow> snapshot \<Rightarrow> batch_event \<Rightarrow> snapshot" where
  "snap_step key s e = merge s key (be_data e) (be_at e) (be_batch e) (be_failed e)"

interpretation snap: event_machine "snap_step key" snap_ok
  by unfold_locales (simp add: snap_step_def merge_ok)

lemma merge_results_batch: "sn_batch (foldl (merge_result now) s rs) = sn_batch s"
  by (induction rs arbitrary: s) (simp_all add: merge_result_def split: option.splits)

lemma merge_fails_batch:
  "sn_batch (foldl (merge_failed f) s js) = sn_batch s" "sn_key (foldl (merge_failed f) s js) = sn_key s"
  by (induction js arbitrary: s) (simp_all add: merge_failed_def split: option.splits)

lemma merge_results_key: "sn_key (foldl (merge_result now) s rs) = sn_key s"
  by (induction rs arbitrary: s) (simp_all add: merge_result_def split: option.splits)

lemma merge_key: "sn_key (merge s key data now batch failed) = key"
  by (auto simp: merge_def merge_batch_def Let_def merge_fails_batch merge_results_key
      empty_snapshot_def split: option.splits)

lemma merge_sn_batch:
  "sn_key s = key \<Longrightarrow> sn_batch (merge s key data now batch failed)
    = (if fresh_batch s data batch then batch else sn_batch s)"
  by (auto simp: merge_def merge_batch_def Let_def merge_fails_batch split: option.splits)

text \<open>The last batch received never goes back to an earlier one.\<close>

definition batch_le :: "nat option \<Rightarrow> nat option \<Rightarrow> bool" where
  "batch_le a b \<longleftrightarrow> (case a of None \<Rightarrow> True | Some m \<Rightarrow> (case b of None \<Rightarrow> False | Some n \<Rightarrow> m \<le> n))"

lemma merge_batch_le: "sn_key s = key \<Longrightarrow> batch_le (sn_batch s) (sn_batch (merge s key data now batch failed))"
  by (auto simp: merge_sn_batch fresh_batch_def batch_le_def split: option.splits)

lemma batch_le_refl: "batch_le a a" and batch_le_trans: "batch_le a b \<Longrightarrow> batch_le b c \<Longrightarrow> batch_le a c"
  by (auto simp: batch_le_def split: option.splits)

lemma run_batch_le: "sn_key s = key \<Longrightarrow> batch_le (sn_batch s) (sn_batch (foldl (snap_step key) s es))
    \<and> sn_key (foldl (snap_step key) s es) = key"
proof (induction es rule: rev_induct)
  case Nil
  then show ?case by (simp add: batch_le_refl)
next
  case (snoc e es)
  let ?t = "foldl (snap_step key) s es"
  have t: "batch_le (sn_batch s) (sn_batch ?t)" "sn_key ?t = key" using snoc by auto
  have "batch_le (sn_batch ?t) (sn_batch (snap_step key ?t e))" "sn_key (snap_step key ?t e) = key"
    using merge_batch_le [OF t(2)] by (auto simp: snap_step_def merge_key)
  with t show ?case by (auto intro: batch_le_trans)
qed

section \<open>Choosing the panels of a batch\<close>

definition panel_viz :: "dashboard_spec \<Rightarrow> string \<Rightarrow> viz option" where
  "panel_viz spec i = map_option p_viz (find (\<lambda>p. p_id p = i) (ds_panels spec))"

definition visible_ids :: "dashboard_spec \<Rightarrow> string list \<Rightarrow> string list" where
  "visible_ids spec visible = filter (\<lambda>i. panel_viz spec i \<noteq> None) visible"

definition canQuery :: "bool \<Rightarrow> dashboard_spec \<Rightarrow> bool" where
  "canQuery enabled spec \<longleftrightarrow> enabled \<and> list_ex (\<lambda>p. p_viz p \<noteq> TextViz) (ds_panels spec)"

text \<open>An empty list means every panel to the server.\<close>

definition batch_panels :: "dashboard_spec \<Rightarrow> string list \<Rightarrow> string list" where
  "batch_panels spec ids = sort_by str_le (if ids \<noteq> [] then ids else map p_id (ds_panels spec))"

definition busy_panels :: "snapshot \<Rightarrow> string \<Rightarrow> string list \<Rightarrow> string list" where
  "busy_panels kept key sent = (if sn_key kept = key
     then filter (\<lambda>i. \<exists>r. map_of (sn_results kept) i = Some r \<and> r_busy r) sent else [])"

definition missing_result :: "string list \<Rightarrow> string \<Rightarrow> display_result" where
  "missing_result sent i = (failed_result \<lparr>fb_ids = sent,
     fb_error = ''No result was returned for this panel; refresh to retry.'', fb_retryable = True\<rparr> i)"

text \<open>The results of a batch that finished: those returned, and an error for a panel left out.\<close>

definition batch_results :: "dashboard_spec \<Rightarrow> string list \<Rightarrow> string list \<Rightarrow> panel_result list \<Rightarrow> display_result list" where
  "batch_results spec sent busy rs =
    map (classifyPanelResult sent) rs
    @ map (missing_result sent) (filter (\<lambda>i. i \<notin> r_id ` set rs \<and> i \<notin> set busy
        \<and> panel_viz spec i \<noteq> Some TextViz) sent)"

definition batch_failure :: "dashboard_spec \<Rightarrow> string list \<Rightarrow> string list \<Rightarrow> query_error \<Rightarrow> failed_batch" where
  "batch_failure spec sent landed e = \<lparr>
     fb_ids = filter (\<lambda>i. i \<notin> set landed \<and> panel_viz spec i \<noteq> Some TextViz) sent,
     fb_error = err_message e, fb_retryable = retryable_error e\<rparr>"

text \<open>Panels scrolled into view that never loaded, or were turned away out of view.\<close>

definition lazy_missing :: "dashboard_spec \<Rightarrow> snapshot \<Rightarrow> string list \<Rightarrow> string list \<Rightarrow> string list" where
  "lazy_missing spec s ids attempted = sort_by str_le (uniq (filter (\<lambda>i.
     (case map_of (sn_results s) i of None \<Rightarrow> True | Some r \<Rightarrow> r_busy r)
     \<and> i \<notin> set attempted \<and> panel_viz spec i \<noteq> Some TextViz) ids))"

text \<open>A panel turned away while out of view is no longer attempted.\<close>

definition still_attempted :: "snapshot \<Rightarrow> string list \<Rightarrow> string list \<Rightarrow> string list" where
  "still_attempted s ids attempted = filter (\<lambda>i. \<not> ((\<exists>r. map_of (sn_results s) i = Some r \<and> r_busy r)
     \<and> i \<notin> set ids)) attempted"

section \<open>What the header shows\<close>

definition stale_at :: "snapshot \<Rightarrow> (string \<times> real) list" where
  "stale_at s = present (map (\<lambda>i. case map_of (sn_updated s) i of
      Some a \<Rightarrow> if a \<noteq> 0 then Some (i, a) else None | None \<Rightarrow> None) (sn_stale s))"

definition panel_error :: "snapshot \<Rightarrow> display_result list \<Rightarrow> display_result option" where
  "panel_error s data = find (\<lambda>r. r_status r = RError \<and> \<not> r_busy r \<and> r_id r \<in> set (sn_stale s)) data"

definition skipped_times :: "snapshot \<Rightarrow> display_result list \<Rightarrow> real list" where
  "skipped_times s data = map (\<lambda>r. nullish (map_of (sn_updated s) (r_id r)) 0)
     (filter (\<lambda>r. r_busy r \<and> r_id r \<in> set (sn_stale s)) data)"

definition ran_at :: "snapshot \<Rightarrow> real" where
  "ran_at s = max_of 0 (map snd (filter (\<lambda>(i, a). case map_of (sn_results s) i of
      None \<Rightarrow> True | Some r \<Rightarrow> \<not> r_busy r \<or> r_frame r \<noteq> None) (sn_updated s)))"

section \<open>The queue of refreshes and retries\<close>

text \<open>
  The references the hook keeps between renders for one query key, and the requests it has
  started: each with the panels of its lazy batch (\<open>None\<close>: all that are visible) and whether
  it must be answered afresh. A \<open>gate\<close> is what the render knows: whether it may query, and
  whether the view is known to be empty.
\<close>

record control =
  ct_fetching :: bool
  ct_lazy :: "string list option"
  ct_refresh :: bool
  ct_manual :: bool
  ct_retry :: "string list option"
  ct_started :: "(string list option \<times> bool) list"

record gate =
  gt_can :: bool
  gt_empty :: bool

definition start_fetch :: "control \<Rightarrow> control" where
  "start_fetch c = c\<lparr>ct_fetching := True, ct_manual := False,
     ct_started := ct_started c @ [(ct_lazy c, ct_manual c)]\<rparr>"

text \<open>\<open>sendRetry\<close>, \<open>retry\<close> and \<open>refetch\<close> of the hook's result.\<close>

definition sendRetry :: "string list \<Rightarrow> control \<Rightarrow> control" where
  "sendRetry ids c = start_fetch (c\<lparr>ct_lazy := Some ids\<rparr>)"

definition retryable_panel :: "dashboard_spec \<Rightarrow> snapshot \<Rightarrow> string \<Rightarrow> bool" where
  "retryable_panel spec s i \<longleftrightarrow>
     list_ex (\<lambda>p. p_id p = i \<and> p_viz p \<noteq> TextViz) (ds_panels spec)
     \<and> (\<exists>r. map_of (sn_results s) i = Some r \<and> dr_request_error r \<noteq> None)"

definition retry_panel :: "gate \<Rightarrow> dashboard_spec \<Rightarrow> snapshot \<Rightarrow> string \<Rightarrow> control \<Rightarrow> control" where
  "retry_panel g spec s i c =
    (if \<not> gt_can g \<or> \<not> retryable_panel spec s i then c
     else if ct_fetching c then c\<lparr>ct_retry := Some (push_new (nullish (ct_retry c) []) i)\<rparr>
     else sendRetry [i] c)"

definition press_refresh :: "gate \<Rightarrow> control \<Rightarrow> control" where
  "press_refresh g c =
    (if \<not> gt_can g \<or> gt_empty g then c
     else if ct_fetching c then (if ct_lazy c \<noteq> None then c\<lparr>ct_refresh := True\<rparr> else c)
     else start_fetch (c\<lparr>ct_manual := True\<rparr>))"

text \<open>The effects after a render, and the end of a request.\<close>

definition effect_lazy :: "gate \<Rightarrow> string list \<Rightarrow> control \<Rightarrow> control" where
  "effect_lazy g missing c =
    (if \<not> gt_can g \<or> ct_fetching c \<or> ct_refresh c \<or> ct_retry c \<noteq> None \<or> ct_lazy c \<noteq> None \<or> missing = []
     then c else start_fetch (c\<lparr>ct_lazy := Some missing\<rparr>))"

definition effect_refresh :: "gate \<Rightarrow> control \<Rightarrow> control" where
  "effect_refresh g c =
    (if ct_fetching c \<or> ct_retry c \<noteq> None \<or> \<not> ct_refresh c then c
     else (let c' = c\<lparr>ct_refresh := False, ct_lazy := None\<rparr>
       in if gt_can g \<and> \<not> gt_empty g then start_fetch (c'\<lparr>ct_manual := True\<rparr>) else c'))"

definition effect_retry :: "gate \<Rightarrow> dashboard_spec \<Rightarrow> snapshot \<Rightarrow> control \<Rightarrow> control" where
  "effect_retry g spec s c =
    (case ct_retry c of
       None \<Rightarrow> c
     | Some queued \<Rightarrow> if ct_fetching c then c
        else (let c' = c\<lparr>ct_retry := None\<rparr>;
                  ids = sort_by str_le (filter (retryable_panel spec s) queued)
          in if gt_can g \<and> ids \<noteq> [] then sendRetry ids c' else c'))"

definition settle :: "control \<Rightarrow> control" where
  "settle c = c\<lparr>ct_fetching := False, ct_lazy := None\<rparr>"

datatype hook_event = HRetry string | HPress | HLazy "string list" | HRefresh | HRetryQueue | HSettle

definition hook_step :: "gate \<Rightarrow> dashboard_spec \<Rightarrow> snapshot \<Rightarrow> control \<Rightarrow> hook_event \<Rightarrow> control" where
  "hook_step g spec s c e = (case e of
      HRetry i \<Rightarrow> retry_panel g spec s i c
    | HPress \<Rightarrow> press_refresh g c
    | HLazy ids \<Rightarrow> effect_lazy g ids c
    | HRefresh \<Rightarrow> effect_refresh g c
    | HRetryQueue \<Rightarrow> effect_retry g spec s c
    | HSettle \<Rightarrow> settle c)"

text \<open>One request at a time: none starts while another is in flight.\<close>

lemma hook_step_one_fetch:
  "ct_fetching c \<Longrightarrow> ct_started (hook_step g spec s c e) = ct_started c
     \<and> (e \<noteq> HSettle \<longrightarrow> ct_fetching (hook_step g spec s c e))"
  by (cases e) (auto simp: hook_step_def retry_panel_def press_refresh_def effect_lazy_def
      effect_refresh_def effect_retry_def settle_def split: option.splits)

lemma hook_run_busy:
  "ct_fetching c \<Longrightarrow> HSettle \<notin> set es \<Longrightarrow>
     ct_started (foldl (hook_step g spec s) c es) = ct_started c \<and> ct_fetching (foldl (hook_step g spec s) c es)"
proof (induction es arbitrary: c)
  case (Cons e es)
  have "ct_fetching (hook_step g spec s c e)" "ct_started (hook_step g spec s c e) = ct_started c"
    using hook_step_one_fetch [OF Cons.prems(1), of g spec s e] Cons.prems(2) by auto
  with Cons show ?case by simp
qed simp

text \<open>A refresh pressed during a lazy batch stays queued until it is sent.\<close>

lemma hook_step_queued:
  assumes "ct_refresh c" "ct_fetching c \<or> e \<noteq> HRefresh \<or> ct_retry c \<noteq> None"
  shows "ct_refresh (hook_step g spec s c e)"
  using assms
  by (cases e) (auto simp: hook_step_def retry_panel_def press_refresh_def effect_lazy_def sendRetry_def
      effect_refresh_def effect_retry_def settle_def start_fetch_def Let_def split: option.splits)

lemma effect_refresh_sends:
  assumes "ct_refresh c" "\<not> ct_fetching c" "ct_retry c = None" "gt_can g" "\<not> gt_empty g"
  shows "ct_started (effect_refresh g c) = ct_started c @ [(None, True)]"
  using assms by (simp add: effect_refresh_def start_fetch_def Let_def)

lemma effect_retry_clears: "\<not> ct_fetching c \<Longrightarrow> ct_retry (effect_retry g spec s c) = None"
  by (auto simp: effect_retry_def sendRetry_def start_fetch_def Let_def split: option.splits)

section \<open>Properties\<close>

text \<open>
  Property C15. A failure never takes a panel's last frame away: through any batch whose
  results for the panel are errors, any failed batch and any batch that arrives late, the
  panel shows the frame it showed, with the time it ran.
\<close>

theorem failures_keep_the_last_frame:
  assumes "shown_frame s i = Some x" "sn_key s = key"
    and "fresh_batch s data batch \<longrightarrow> (\<forall>r \<in> set (nullish data []). r_id r = i \<longrightarrow> r_status r = RError)"
  shows "shown_frame (merge s key data now batch failed) i = Some x"
  using merge_keeps [OF assms(1,2)] assms(3) by blast

definition demo_shown :: snapshot where
  "demo_shown = (empty_snapshot ''k'')\<lparr>
     sn_results := [(''a'', display (demo_result ''a'') None)], sn_updated := [(''a'', 7)]\<rparr>"

theorem failures_keep_the_last_frame_witness:
  "shown_frame (merge demo_shown ''k'' None 9 None
      (Some \<lparr>fb_ids = [''a''], fb_error = ''down'', fb_retryable = True\<rparr>)) ''a''
    = Some (Some empty_frame, Some 7)"
  by (rule failures_keep_the_last_frame)
    (simp_all add: demo_shown_def shown_frame_def framed_def empty_snapshot_def display_def
      demo_result_def panel_result.defs fresh_batch_def)

text \<open>
  Over any sequence of batches the snapshot keeps one entry per panel, marks as
  stale only panels that show an earlier frame, and the last batch received never goes back
  to one that landed earlier.
\<close>

theorem snapshot_invariant:
  assumes "snap_ok s" "sn_key s = key"
  shows "snap_ok (foldl (snap_step key) s es)
    \<and> batch_le (sn_batch s) (sn_batch (foldl (snap_step key) s es))"
  using snap.inv_run [OF assms(1)] run_batch_le [OF assms(2)] by blast

theorem snapshot_invariant_witness:
  "snap_ok (foldl (snap_step ''k'') demo_shown
     [\<lparr>be_data = Some [], be_at = 3, be_batch = Some 4, be_failed = None\<rparr>])"
  by (rule snapshot_invariant [THEN conjunct1])
    (simp_all add: demo_shown_def snap_ok_def empty_snapshot_def map_ok_def)


definition demo_control :: control where
  "demo_control = \<lparr>ct_fetching = True, ct_lazy = Some [''a''], ct_refresh = False, ct_manual = False,
     ct_retry = None, ct_started = [(Some [''a''], False)]\<rparr>"

definition demo_spec :: dashboard_spec where
  "demo_spec = \<lparr>ds_name = ''D'', ds_time = \<lparr>dt_range = None, dt_from = None, dt_to = None,
     dt_refresh = None, dt_compare = False\<rparr>, ds_variables = None, ds_deploys = None,
     ds_anomalies = None, ds_panels = []\<rparr>"


end
