(* ===== verification/Trace_Tree.thy ===== *)
theory Trace_Tree
  imports Tokens
begin

text \<open>
  ui/host/src/dashboards/trace/waterfall.tsx and span-extras.ts: the rows of the waterfall of
  a trace, and the query that reads one span's details. Spans are objects the code compares by
  identity; here a span is its place in the list.
\<close>

section \<open>The span tree (waterfall.tsx)\<close>

definition has_parent :: "trace_span list \<Rightarrow> nat \<Rightarrow> bool" where
  "has_parent ss i \<longleftrightarrow> (case ts_parent (ss ! i) of
      None \<Rightarrow> False
    | Some p \<Rightarrow> p \<noteq> [] \<and> p \<noteq> ts_id (ss ! i) \<and> p \<in> ts_id ` set ss)"

definition add_span :: "trace_span list \<Rightarrow> (string, nat list) omap \<times> nat list \<Rightarrow> nat
    \<Rightarrow> (string, nat list) omap \<times> nat list" where
  "add_span ss st i = (case st of (children, roots) \<Rightarrow>
     if has_parent ss i then
       (let p = the (ts_parent (ss ! i)) in
         (AList.update p (nullish (map_of children p) [] @ [i]) children, roots))
     else (children, roots @ [i]))"

definition span_links :: "trace_span list \<Rightarrow> (string, nat list) omap \<times> nat list" where
  "span_links ss = foldl (add_span ss) ([], []) [0..<length ss]"

text \<open>\<open>[...children.get(id) ?? []].sort(byStart)\<close>\<close>

definition by_start :: "trace_span list \<Rightarrow> nat list \<Rightarrow> nat list" where
  "by_start ss = sort_by (key_le (\<lambda>i. ts_start (ss ! i)))"

definition kids :: "trace_span list \<Rightarrow> (string, nat list) omap \<Rightarrow> nat \<Rightarrow> nat list" where
  "kids ss children i = by_start ss (nullish (map_of children (ts_id (ss ! i))) [])"

text \<open>
  The walk with its explicit stack, the top first, and the rows written so far; the spans
  seen are those written. An index outside the list does not arise.
\<close>

function walk :: "trace_span list \<Rightarrow> (string, nat list) omap \<Rightarrow> (nat \<times> nat) list \<Rightarrow> (nat \<times> nat) list
    \<Rightarrow> (nat \<times> nat) list" where
  "walk ss children [] out = out"
| "walk ss children ((i, d) # stack) out =
    (if i \<in> set (map fst out) \<or> length ss \<le> i then walk ss children stack out
     else walk ss children (map (\<lambda>c. (c, Suc d)) (kids ss children i) @ stack) (out @ [(i, d)]))"
  by pat_completeness auto

termination
proof (relation "measures [\<lambda>(ss, _, _, out). card ({..<length ss} - set (map fst out)),
    \<lambda>(_, _, stack, _). length stack]", goal_cases)
  case 1
  then show ?case by simp
next
  case (2 ss children i d stack out)
  then show ?case by simp
next
  case (3 ss children i d stack out)
  then have "{..<length ss} - set (map fst (out @ [(i, d)])) \<subset> {..<length ss} - set (map fst out)"
    by auto
  then have "card ({..<length ss} - set (map fst (out @ [(i, d)]))) < card ({..<length ss} - set (map fst out))"
    by (intro psubset_card_mono) auto
  then show ?case by simp
qed

definition walk_rest :: "trace_span list \<Rightarrow> (string, nat list) omap \<Rightarrow> (nat \<times> nat) list \<Rightarrow> nat
    \<Rightarrow> (nat \<times> nat) list" where
  "walk_rest ss children out i =
    (if i \<in> set (map fst out) then out else walk ss children [(i, 0)] out)"

definition spanTree :: "trace_span list \<Rightarrow> (nat \<times> nat) list" where
  "spanTree ss =
    (let (children, roots) = span_links ss;
         out = walk ss children (map (\<lambda>i. (i, 0)) (by_start ss roots)) []
     in foldl (walk_rest ss children) out [0..<length ss])"

text \<open>The links: the children of an id are the spans that name it, the roots the others.\<close>

lemma span_links_upto:
  assumes "foldl (add_span ss) ([], []) [0..<n] = (children, roots)"
  shows "nullish (map_of children k) []
      = filter (\<lambda>i. has_parent ss i \<and> ts_parent (ss ! i) = Some k) [0..<n]
    \<and> roots = filter (\<lambda>i. \<not> has_parent ss i) [0..<n]"
  using assms
proof (induction n arbitrary: children roots k)
  case (Suc n)
  obtain c r where cr: "foldl (add_span ss) ([], []) [0..<n] = (c, r)" by fastforce
  have add: "add_span ss (c, r) n = (children, roots)" using Suc.prems cr by simp
  have ih: "nullish (map_of c k) [] = filter (\<lambda>i. has_parent ss i \<and> ts_parent (ss ! i) = Some k) [0..<n]"
    "r = filter (\<lambda>i. \<not> has_parent ss i) [0..<n]" for k
    using Suc.IH [OF cr] by auto
  show ?case
  proof (cases "has_parent ss n")
    case True
    then obtain p where p: "ts_parent (ss ! n) = Some p" by (auto simp: has_parent_def split: option.splits)
    then have "children = AList.update p (nullish (map_of c p) [] @ [n]) c" "roots = r"
      using add True by (auto simp: add_span_def Let_def)
    with True p ih show ?thesis by (auto simp: update_conv)
  next
    case False
    with add ih show ?thesis by (auto simp: add_span_def)
  qed
qed simp

definition child_of :: "trace_span list \<Rightarrow> nat \<Rightarrow> nat \<Rightarrow> bool" where
  "child_of ss p c \<longleftrightarrow> c < length ss \<and> has_parent ss c \<and> ts_parent (ss ! c) = Some (ts_id (ss ! p))"

lemma kids_set:
  assumes "span_links ss = (children, roots)"
  shows "set (kids ss children i) = {c. child_of ss i c}"
  using span_links_upto [OF assms [unfolded span_links_def], of "ts_id (ss ! i)"]
  by (auto simp: kids_def by_start_def child_of_def)

lemma kids_sorted: "sorted_wrt (key_le (\<lambda>i. ts_start (ss ! i))) (kids ss children i)"
  unfolding kids_def by_start_def by (rule key_le.sorted_sort_by)

text \<open>
  What the walk keeps: every span written once, and every row below depth zero has the row of
  its parent, one level up, above it. A pending entry is a root or a child of a written row.
\<close>

definition placed :: "trace_span list \<Rightarrow> (nat \<times> nat) list \<Rightarrow> nat \<times> nat \<Rightarrow> bool" where
  "placed ss out e \<longleftrightarrow> snd e = 0 \<or> (\<exists>p \<in> set out. child_of ss (fst p) (fst e) \<and> snd e = Suc (snd p))"

definition tree_ok :: "trace_span list \<Rightarrow> (nat \<times> nat) list \<Rightarrow> bool" where
  "tree_ok ss out \<longleftrightarrow> distinct (map fst out) \<and> set (map fst out) \<subseteq> {..<length ss}
     \<and> (\<forall>k < length out. placed ss (take k out) (out ! k))"

lemma placed_mono: "placed ss out e \<Longrightarrow> set out \<subseteq> set out' \<Longrightarrow> placed ss out' e"
  by (auto simp: placed_def)

lemma tree_ok_snoc:
  assumes "tree_ok ss out" "i < length ss" "i \<notin> set (map fst out)" "placed ss out (i, d)"
  shows "tree_ok ss (out @ [(i, d)])"
  using assms by (auto simp: tree_ok_def nth_append less_Suc_eq)

lemma walk_ok:
  assumes "span_links ss = (children, roots)" "tree_ok ss out" "\<forall>e \<in> set stack. placed ss out e"
  shows "tree_ok ss (walk ss children stack out)
    \<and> set (map fst out) \<union> {i \<in> fst ` set stack. i < length ss} \<subseteq> set (map fst (walk ss children stack out))
    \<and> (\<exists>more. walk ss children stack out = out @ more)"
  using assms
proof (induction ss children stack out rule: walk.induct)
  case (2 ss children i d stack out)
  show ?case
  proof (cases "i \<in> set (map fst out) \<or> length ss \<le> i")
    case True
    with 2 show ?thesis by (auto simp del: walk.simps simp: walk.simps(2))
  next
    case False
    let ?new = "map (\<lambda>c. (c, Suc d)) (kids ss children i)"
    have "placed ss out (i, d)" using "2.prems"(3) by simp
    then have ok: "tree_ok ss (out @ [(i, d)])"
      using False "2.prems"(2) by (intro tree_ok_snoc) auto
    have "\<forall>e \<in> set (?new @ stack). placed ss (out @ [(i, d)]) e"
    proof
      fix e assume "e \<in> set (?new @ stack)"
      then consider c where "e = (c, Suc d)" "child_of ss i c" | "e \<in> set stack"
        using kids_set [OF "2.prems"(1)] by auto
      then show "placed ss (out @ [(i, d)]) e"
      proof cases
        case 1
        then show ?thesis by (auto simp: placed_def)
      next
        case 2
        then show ?thesis using "2.prems"(3) by (auto intro: placed_mono)
      qed
    qed
    from "2.IH"(2) [OF False "2.prems"(1) ok this] False show ?thesis by auto
  qed
qed auto

lemma spanTree_walks:
  assumes "span_links ss = (children, roots)" "tree_ok ss out"
  shows "tree_ok ss (foldl (walk_rest ss children) out is)
    \<and> set (map fst out) \<union> {i \<in> set is. i < length ss} \<subseteq> set (map fst (foldl (walk_rest ss children) out is))
    \<and> (\<exists>more. foldl (walk_rest ss children) out is = out @ more)"
  using assms(2)
proof (induction "is" arbitrary: out)
  case (Cons i "is")
  have step: "tree_ok ss (walk_rest ss children out i)
    \<and> set (map fst out) \<union> {j. j = i \<and> j < length ss} \<subseteq> set (map fst (walk_rest ss children out i))
    \<and> (\<exists>more. walk_rest ss children out i = out @ more)"
    using walk_ok [OF assms(1) Cons.prems, of "[(i, 0)]"] Cons.prems
    by (auto simp: walk_rest_def placed_def)
  then show ?case using Cons.IH [of "walk_rest ss children out i"] by auto
qed simp

lemma spanTree_ok: "tree_ok ss (spanTree ss)" "set (map fst (spanTree ss)) = {..<length ss}"
proof -
  obtain children roots where l: "span_links ss = (children, roots)" by fastforce
  let ?out = "walk ss children (map (\<lambda>i. (i, 0)) (by_start ss roots)) []"
  have "tree_ok ss ?out"
    using walk_ok [OF l, of "[]" "map (\<lambda>i. (i, 0)) (by_start ss roots)"]
    by (auto simp: tree_ok_def placed_def)
  from spanTree_walks [OF l this, of "[0..<length ss]"]
  show ok: "tree_ok ss (spanTree ss)" and "set (map fst (spanTree ss)) = {..<length ss}"
    by (auto simp: spanTree_def l tree_ok_def)
qed

section \<open>The rows drawn (Waterfall)\<close>

record waterfall_row =
  wr_span :: nat
  wr_depth :: nat
  wr_offset :: real
  wr_width :: real
  wr_color :: string
  wr_failed :: bool

definition trace_start :: "trace_span list \<Rightarrow> real" where
  "trace_start ss = (case map ts_start ss of [] \<Rightarrow> 0 | a # as \<Rightarrow> min_of a as)"

definition trace_end :: "trace_span list \<Rightarrow> real" where
  "trace_end ss = (case map (\<lambda>s. ts_start s + ts_duration_ms s) ss of [] \<Rightarrow> 0 | a # as \<Rightarrow> max_of a as)"

definition trace_total :: "trace_span list \<Rightarrow> real" where
  "trace_total ss = max (trace_end ss - trace_start ss) 1"

definition waterfall_row :: "trace_span list \<Rightarrow> bool \<Rightarrow> nat \<times> nat \<Rightarrow> waterfall_row" where
  "waterfall_row ss dark e =
    (let s = ss ! fst e; total = trace_total ss;
         offset = (ts_start s - trace_start ss) / total * 100;
         services = uniq (map ts_service ss)
     in \<lparr>wr_span = fst e, wr_depth = snd e, wr_offset = offset,
         wr_width = min (max (ts_duration_ms s / total * 100) (6 / 10)) (100 - offset),
         wr_color = seriesSlot (nullish (find_index (\<lambda>x. x = ts_service s) services) 0) dark,
         wr_failed = (ts_status s = ''STATUS_CODE_ERROR'')\<rparr>)"

definition waterfall_rows :: "trace_span list \<Rightarrow> bool \<Rightarrow> waterfall_row list" where
  "waterfall_rows ss dark = map (waterfall_row ss dark) (spanTree ss)"

lemma trace_start_le: "s \<in> set ss \<Longrightarrow> trace_start ss \<le> ts_start s"
  by (cases ss) (auto simp: trace_start_def intro: min_of_le)

lemma trace_end_ge: "s \<in> set ss \<Longrightarrow> ts_start s + ts_duration_ms s \<le> trace_end ss"
proof (cases ss)
  case (Cons a as)
  assume "s \<in> set ss"
  then have "ts_start s + ts_duration_ms s \<in> set (map (\<lambda>s. ts_start s + ts_duration_ms s) ss)"
    by (rule imageI [of s "set ss", folded set_map])
  with Cons show ?thesis by (auto simp: trace_end_def intro: max_of_ge)
qed simp

lemma waterfall_row_bounds:
  assumes "fst e < length ss" "0 \<le> ts_duration_ms (ss ! fst e)"
  shows "0 \<le> wr_offset (waterfall_row ss dark e) \<and> 0 \<le> wr_width (waterfall_row ss dark e)
    \<and> wr_offset (waterfall_row ss dark e) + wr_width (waterfall_row ss dark e) \<le> 100"
proof -
  let ?s = "ss ! fst e" and ?t = "trace_total ss"
  have t: "1 \<le> ?t" by (simp add: trace_total_def)
  have s: "?s \<in> set ss" using assms(1) by simp
  have "ts_start ?s - trace_start ss \<le> ?t"
    using trace_end_ge [OF s] assms(2) by (simp add: trace_total_def)
  then have "(ts_start ?s - trace_start ss) / ?t \<le> 1" using t by simp
  moreover have "0 \<le> (ts_start ?s - trace_start ss) / ?t"
    using trace_start_le [OF s] t by simp
  moreover define q where "q = (ts_start ?s - trace_start ss) / ?t"
  ultimately have q: "0 \<le> q" "q \<le> 1" by auto
  have "wr_offset (waterfall_row ss dark e) = q * 100"
    "wr_width (waterfall_row ss dark e)
      = min (max (ts_duration_ms ?s / ?t * 100) (6 / 10)) (100 - q * 100)"
    by (simp_all add: waterfall_row_def Let_def q_def)
  with q show ?thesis by linarith
qed

section \<open>One span's details (span-extras.ts)\<close>

text \<open>\<open>'${value.replaceAll("'", "''")}'\<close>\<close>

definition apostrophe :: char where "apostrophe = CHR 0x27"

definition sqlText :: "string \<Rightarrow> string" where
  "sqlText v = [apostrophe] @ concat (map (\<lambda>c. if c = apostrophe then [apostrophe, apostrophe] else [c]) v) @ [apostrophe]"

definition spanExtras_sql :: "string \<Rightarrow> string \<Rightarrow> string" where
  "spanExtras_sql trace_id span_id =
    ''SELECT attributes, resource, [epoch_ns(t) - start_unix_nano for t in event_times] AS event_offsets, event_names, event_attributes, scope_name FROM spans WHERE $__window(start_time) AND trace_id = ''
    @ sqlText trace_id @ '' AND span_id = '' @ sqlText span_id @ '' LIMIT 1''"

text \<open>How SQL reads a literal: a doubled quote is a quote, a single one ends it.\<close>

fun sql_literal_rest :: "string \<Rightarrow> (string \<times> string) option" where
  "sql_literal_rest [] = None"
| "sql_literal_rest [c] = (if c = apostrophe then Some ([], []) else None)"
| "sql_literal_rest (c # d # s) =
    (if c = apostrophe then (if d = apostrophe then map_option (\<lambda>(v, r). (apostrophe # v, r)) (sql_literal_rest s)
                        else Some ([], d # s))
     else map_option (\<lambda>(v, r). (c # v, r)) (sql_literal_rest (d # s)))"

definition sql_literal :: "string \<Rightarrow> (string \<times> string) option" where
  "sql_literal s = (case s of c # r \<Rightarrow> if c = apostrophe then sql_literal_rest r else None | [] \<Rightarrow> None)"

lemma sql_literal_sqlText:
  assumes "rest = [] \<or> hd rest \<noteq> apostrophe"
  shows "sql_literal (sqlText v @ rest) = Some (v, rest)"
proof -
  have "sql_literal_rest (concat (map (\<lambda>c. if c = apostrophe then [apostrophe, apostrophe] else [c]) v) @ apostrophe # rest)
    = Some (v, rest)"
  proof (induction v)
    case Nil
    then show ?case using assms by (cases rest) auto
  next
    case (Cons c v)
    let ?tail = "concat (map (\<lambda>c. if c = apostrophe then [apostrophe, apostrophe] else [c]) v) @ apostrophe # rest"
    obtain d s where "?tail = d # s" by (cases ?tail) auto
    with Cons show ?case by (cases "c = apostrophe") auto
  qed
  then show ?thesis by (simp add: sql_literal_def sqlText_def)
qed

text \<open>The reading of a cell that holds JSON text or a decoded value; parsing may throw.\<close>

definition parse_cell :: "(string \<Rightarrow> json result) \<Rightarrow> json option \<Rightarrow> json option result" where
  "parse_cell jp v = (case v of
      Some (JStr s) \<Rightarrow> if s \<noteq> [] then (case jp s of Inl e \<Rightarrow> Inl e | Inr x \<Rightarrow> Inr (Some x)) else Inr v
    | _ \<Rightarrow> Inr v)"

definition object_cell :: "(string \<Rightarrow> json result) \<Rightarrow> json option \<Rightarrow> (string \<times> json) list result" where
  "object_cell jp v = (case parse_cell jp v of
      Inl e \<Rightarrow> Inl e | Inr x \<Rightarrow> Inr (nullish (Option.bind x as_obj) []))"

definition list_cell :: "(string \<Rightarrow> json result) \<Rightarrow> json option \<Rightarrow> json list result" where
  "list_cell jp v = (case parse_cell jp v of
      Inl e \<Rightarrow> Inl e | Inr x \<Rightarrow> Inr (nullish (Option.bind x as_arr) []))"

record span_event =
  se_offset :: num
  se_name :: string
  se_attributes :: "(string \<times> json) list"

record span_extras =
  sx_attributes :: "(string \<times> json) list"
  sx_resource :: "(string \<times> json) list"
  sx_events :: "span_event list"
  sx_scope :: string

definition span_event_at :: "(num \<Rightarrow> string) \<Rightarrow> (string \<Rightarrow> num) \<Rightarrow> (string \<Rightarrow> json result) \<Rightarrow> json list \<Rightarrow> json list
    \<Rightarrow> json list \<Rightarrow> nat \<Rightarrow> span_event result" where
  "span_event_at sn pn jp offsets names attributes i =
    (case object_cell jp (nth_opt attributes i) of
       Inl e \<Rightarrow> Inl e
     | Inr a \<Rightarrow> Inr \<lparr>
         se_offset = (case nth_opt offsets i of None \<Rightarrow> Fin 0 | Some v \<Rightarrow> js_number sn pn v),
         se_name = (if names ! i = JNull then [] else js_string sn (names ! i)),
         se_attributes = a\<rparr>)"

fun collect :: "'a result list \<Rightarrow> 'a list result" where
  "collect [] = Inr []"
| "collect (Inl e # xs) = Inl e"
| "collect (Inr x # xs) = (case collect xs of Inl e \<Rightarrow> Inl e | Inr ys \<Rightarrow> Inr (x # ys))"

text \<open>
  The details read from the answer of the query: its status, its error and the first cells of
  its six columns. The columns are those of \<open>spanExtras_sql\<close>.
\<close>

definition spanExtras_read :: "(num \<Rightarrow> string) \<Rightarrow> (string \<Rightarrow> num) \<Rightarrow> (string \<Rightarrow> json result)
    \<Rightarrow> result_status \<Rightarrow> string option \<Rightarrow> nat \<Rightarrow> json option list \<Rightarrow> span_extras result" where
  "spanExtras_read sn pn jp status err rows firsts =
    (if status = RError \<or> status = RInvalid then Inl (nullish err ''The span details could not load.'')
     else if rows = 0 then Inl ''This span is no longer stored.''
     else (let cell = (\<lambda>c. Option.bind (nth_opt firsts c) id) in
       case (list_cell jp (cell 2), list_cell jp (cell 3), list_cell jp (cell 4)) of
         (Inr offsets, Inr names, Inr attributes) \<Rightarrow>
           (case (collect (map (span_event_at sn pn jp offsets names attributes) [0..<length names]),
                  object_cell jp (cell 0), object_cell jp (cell 1)) of
              (Inr events, Inr a, Inr r) \<Rightarrow> Inr \<lparr>sx_attributes = a, sx_resource = r, sx_events = events,
                sx_scope = (case cell 5 of None \<Rightarrow> [] | Some JNull \<Rightarrow> [] | Some v \<Rightarrow> js_string sn v)\<rparr>
            | (Inl e, _, _) \<Rightarrow> Inl e | (_, Inl e, _) \<Rightarrow> Inl e | (_, _, Inl e) \<Rightarrow> Inl e)
       | (Inl e, _, _) \<Rightarrow> Inl e | (_, Inl e, _) \<Rightarrow> Inl e | (_, _, Inl e) \<Rightarrow> Inl e))"

lemma collect_length: "collect xs = Inr ys \<Longrightarrow> length ys = length xs"
proof (induction xs arbitrary: ys rule: collect.induct)
  case (3 x xs)
  then show ?case by (auto split: sum.splits)
qed auto

section \<open>Properties\<close>


definition demo_span :: "string \<Rightarrow> string option \<Rightarrow> real \<Rightarrow> trace_span" where
  "demo_span i p t = \<lparr>ts_id = i, ts_parent = p, ts_service = ''api'', ts_operation = ''op'',
     ts_start = t, ts_duration_ms = 5, ts_status = ''STATUS_CODE_OK''\<rparr>"

definition demo_trace :: "trace_span list" where
  "demo_trace = [demo_span ''b'' (Some ''a'') 3, demo_span ''a'' None 1, demo_span ''c'' (Some ''a'') 2,
     demo_span ''x'' (Some ''y'') 5, demo_span ''y'' (Some ''x'') 6]"


text \<open>
  Every bar of the waterfall lies inside its track, from 0 to 100 percent.
\<close>

theorem waterfall_bars_inside:
  assumes "\<forall>s \<in> set ss. 0 \<le> ts_duration_ms s" "r \<in> set (waterfall_rows ss dark)"
  shows "0 \<le> wr_offset r \<and> 0 \<le> wr_width r \<and> wr_offset r + wr_width r \<le> 100"
proof -
  obtain e where e: "e \<in> set (spanTree ss)" "r = waterfall_row ss dark e"
    using assms(2) by (auto simp: waterfall_rows_def)
  then have "fst e \<in> set (map fst (spanTree ss))" by simp
  then have "fst e < length ss" using spanTree_ok(2) [of ss] by auto
  then show ?thesis using waterfall_row_bounds [of e ss dark] assms(1) e(2) by simp
qed

theorem waterfall_bars_inside_witness:
  "\<exists>r \<in> set (waterfall_rows demo_trace True). wr_offset r + wr_width r \<le> 100"
proof -
  have "waterfall_rows demo_trace True \<noteq> []"
    using spanTree_ok(2) [of demo_trace] by (auto simp: waterfall_rows_def demo_trace_def)
  then obtain r where "r \<in> set (waterfall_rows demo_trace True)"
    by (cases "waterfall_rows demo_trace True") auto
  moreover have "\<forall>s \<in> set demo_trace. 0 \<le> ts_duration_ms s"
    by (simp add: demo_trace_def demo_span_def)
  ultimately show ?thesis using waterfall_bars_inside [of demo_trace r True] by blast
qed

text \<open>
  The trace and span ids of the details query are read back by SQL as exactly the
  text they are, whatever quotes they hold, and the rest of the query is the code's.
\<close>

theorem spanExtras_sql_reads_back:
  "\<exists>pre mid. spanExtras_sql t s = pre @ sqlText t @ mid @ sqlText s @ '' LIMIT 1''
    \<and> sql_literal (sqlText t @ mid @ sqlText s @ '' LIMIT 1'')
        = Some (t, mid @ sqlText s @ '' LIMIT 1'')
    \<and> sql_literal (sqlText s @ '' LIMIT 1'') = Some (s, '' LIMIT 1'')
    \<and> mid = '' AND span_id = ''"
  by (intro exI [of _ "''SELECT attributes, resource, [epoch_ns(t) - start_unix_nano for t in event_times] AS event_offsets, event_names, event_attributes, scope_name FROM spans WHERE $__window(start_time) AND trace_id = ''"]
      exI [of _ "'' AND span_id = ''"] conjI)
    (simp_all add: spanExtras_sql_def sql_literal_sqlText apostrophe_def)

end
