(* ===== verification/Chart_Labels.thy ===== *)
theory Chart_Labels
  imports Labels Tokens
begin

text \<open>
  The parts of ui/panels/compile.ts that place text: the end labels of the lines of a time
  series, the ellipsis of a category label, the labels of threshold lines and the gauge.
  Option objects are records of what the code computes; literal styling (fonts, paddings,
  z-order) is left out.
\<close>

section \<open>End labels (layoutEndLabels)\<close>

record end_line =
  el_label :: "(bool \<times> real option) option"
  el_data :: "(num \<times> num option) list option"
  el_axis :: nat

record end_axis =
  ea_min :: "real option"
  ea_max :: "real option"
  ea_log :: bool

text \<open>A label left as it was, hidden, or moved by an offset.\<close>

datatype end_label = Untouched | Hidden | Moved num

definition last_point :: "end_line \<Rightarrow> (num \<times> real) option" where
  "last_point l = Option.bind
     (find (\<lambda>p. Option.bind (snd p) finite_val \<noteq> None) (rev (nullish (el_data l) [])))
     (\<lambda>p. map_option (Pair (fst p)) (Option.bind (snd p) finite_val))"

text \<open>
  The extent of a logarithmic axis without bounds: the positive values of the lines drawn on
  it. \<open>lower\<close> starts at infinity (\<open>None\<close>), and is 1 when there is no positive value.
\<close>

definition positives :: "end_line list \<Rightarrow> nat \<Rightarrow> real list" where
  "positives lines k = concat (map (\<lambda>l. if el_axis l = k
     then filter (\<lambda>v. 0 < v) (present (map (\<lambda>p. Option.bind (snd p) finite_val) (nullish (el_data l) [])))
     else []) lines)"

definition log_extent :: "end_line list \<Rightarrow> nat \<Rightarrow> end_axis \<Rightarrow> real \<times> real" where
  "log_extent lines k ax =
    (let vs = (if ea_min ax = None \<or> ea_max ax = None then positives lines k else []);
         lower = (case ea_min ax of Some m \<Rightarrow> m
                  | None \<Rightarrow> (case vs of [] \<Rightarrow> 1 | v # r \<Rightarrow> min_of v r));
         upper = (case ea_max ax of Some m \<Rightarrow> m | None \<Rightarrow> max_of 0 vs)
     in (lower, upper))"

definition desired_y :: "end_line list \<Rightarrow> end_line \<Rightarrow> end_axis \<Rightarrow> real \<Rightarrow> real \<Rightarrow> num option \<Rightarrow> real \<Rightarrow> num" where
  "desired_y lines l ax y h native v =
    (case Option.bind native finite_val of
       Some d \<Rightarrow> Fin d
     | None \<Rightarrow>
        (let f = (if ea_log ax then js_log else (\<lambda>x. x));
             (lower, upper) = log_extent lines (el_axis l) ax;
             mn = f (Fin (if ea_log ax then lower else nullish (ea_min ax) 0));
             mx = f (Fin (if ea_log ax then max upper (lower * (101 / 100)) else nullish (ea_max ax) 1));
             t = num_div (num_sub (f (Fin v)) mn) (num_sub mx mn)
         in num_add (Fin y) (num_scale h (num_sub (Fin 1) t))))"

definition fits :: "real \<Rightarrow> real \<Rightarrow> (real \<times> real) list \<Rightarrow> real \<Rightarrow> real \<Rightarrow> bool" where
  "fits y h occupied half c \<longleftrightarrow> y \<le> c - half \<and> c + half \<le> y + h
     \<and> list_all (\<lambda>(oy, oh). oh + half \<le> \<bar>oy - c\<bar>) occupied"

text \<open>The places tried: the wished one inside the plot, then next to each label placed.\<close>

definition label_places :: "real \<Rightarrow> real \<Rightarrow> (real \<times> real) list \<Rightarrow> real \<Rightarrow> num \<Rightarrow> real list" where
  "label_places y h occupied half d =
    present (finite_val (num_max (Fin (y + half)) (num_min (Fin (y + h - half)) d))
      # concat (map (\<lambda>(oy, oh). [Some (oy - oh - half), Some (oy + oh + half)]) occupied))"

text \<open>\<open>Math.abs(a - desired) - Math.abs(b - desired)\<close>: NaN, which keeps the order, unless the wish is finite.\<close>

definition nearer :: "num \<Rightarrow> real \<Rightarrow> real \<Rightarrow> bool" where
  "nearer d a b = (case d of Fin x \<Rightarrow> \<bar>a - x\<bar> \<le> \<bar>b - x\<bar> | _ \<Rightarrow> True)"

definition place_label :: "real \<Rightarrow> real \<Rightarrow> (real \<times> real) list \<Rightarrow> real \<Rightarrow> num \<Rightarrow> real option" where
  "place_label y h occupied half d =
    head_opt (sort_by (nearer d) (filter (fits y h occupied half) (label_places y h occupied half d)))"

definition end_label_step ::
  "end_line list \<Rightarrow> end_axis list \<Rightarrow> real \<Rightarrow> real \<Rightarrow> (nat \<Rightarrow> num \<times> real \<Rightarrow> num option)
    \<Rightarrow> (real \<times> real) list \<times> end_label list \<Rightarrow> nat \<Rightarrow> (real \<times> real) list \<times> end_label list" where
  "end_label_step lines axes y h project st i =
    (case st of (occupied, out) \<Rightarrow>
      (let l = lines ! i in
       case el_label l of
         Some (True, line_height) \<Rightarrow>
           if el_data l = None then (occupied, out @ [Untouched])
           else (case (last_point l, nth_opt axes (el_axis l)) of
             (Some (t, v), Some ax) \<Rightarrow>
               (let d = desired_y lines l ax y h (project i (t, v)) v;
                    half = (nullish line_height 14 + 2) / 2
                in case place_label y h occupied half d of
                     None \<Rightarrow> (occupied, out @ [Hidden])
                   | Some c \<Rightarrow> (occupied @ [(c, half)], out @ [Moved (num_sub (Fin c) d)]))
           | _ \<Rightarrow> (occupied, out @ [Hidden]))
       | _ \<Rightarrow> (occupied, out @ [Untouched])))"

definition layoutEndLabels ::
  "end_line list \<Rightarrow> end_axis list \<Rightarrow> real \<Rightarrow> real \<Rightarrow> (nat \<Rightarrow> num \<times> real \<Rightarrow> num option)
    \<Rightarrow> (real \<times> real) list \<times> end_label list" where
  "layoutEndLabels lines axes y h project =
    foldl (end_label_step lines axes y h project) ([], []) [0..<length lines]"

text \<open>Labels placed: inside the plot and apart from each other.\<close>

definition apart :: "real \<times> real \<Rightarrow> real \<times> real \<Rightarrow> bool" where
  "apart a b \<longleftrightarrow> snd a + snd b \<le> \<bar>fst a - fst b\<bar>"

definition inside :: "real \<Rightarrow> real \<Rightarrow> real \<times> real \<Rightarrow> bool" where
  "inside y h a \<longleftrightarrow> y \<le> fst a - snd a \<and> fst a + snd a \<le> y + h"

definition labels_ok :: "real \<Rightarrow> real \<Rightarrow> (real \<times> real) list \<Rightarrow> bool" where
  "labels_ok y h occupied \<longleftrightarrow> sorted_wrt apart occupied \<and> list_all (inside y h) occupied"

lemma place_label_fits:
  assumes "place_label y h occupied half d = Some c"
  shows "fits y h occupied half c"
proof -
  have "c \<in> set (sort_by (nearer d) (filter (fits y h occupied half) (label_places y h occupied half d)))"
    using assms unfolding place_label_def head_opt_def
    by (cases "sort_by (nearer d) (filter (fits y h occupied half) (label_places y h occupied half d))") auto
  then show ?thesis by simp
qed

lemma labels_ok_snoc:
  "labels_ok y h occupied \<Longrightarrow> fits y h occupied half c \<Longrightarrow> labels_ok y h (occupied @ [(c, half)])"
  by (auto simp: labels_ok_def fits_def inside_def apart_def sorted_wrt_append list_all_iff)

lemma end_label_step_ok:
  "labels_ok y h (fst st) \<Longrightarrow> labels_ok y h (fst (end_label_step lines axes y h project st i))"
  by (auto simp: end_label_step_def Let_def intro: labels_ok_snoc place_label_fits
      split: prod.splits option.splits bool.splits)

interpretation end_labels: event_machine "end_label_step lines axes y h project"
  "\<lambda>st. labels_ok y h (fst st)"
  by unfold_locales (rule end_label_step_ok)

text \<open>One label moved for every place taken, one outcome per line.\<close>

definition moved_count :: "end_label list \<Rightarrow> nat" where
  "moved_count out = length (filter (\<lambda>e. \<exists>d. e = Moved d) out)"

lemma end_label_step_counts:
  "length (snd (end_label_step lines axes y h project st i)) = Suc (length (snd st))"
  "length (fst (end_label_step lines axes y h project st i)) + moved_count (snd st)
    = length (fst st) + moved_count (snd (end_label_step lines axes y h project st i))"
  by (auto simp: end_label_step_def Let_def moved_count_def split: prod.splits option.splits bool.splits)

lemma layout_counts:
  "length (snd (foldl (end_label_step lines axes y h project) st is)) = length (snd st) + length is"
  "length (fst (foldl (end_label_step lines axes y h project) st is)) + moved_count (snd st)
    = length (fst st) + moved_count (snd (foldl (end_label_step lines axes y h project) st is))"
proof (induction "is" arbitrary: st)
  case (Cons i "is")
  { case 1 show ?case using Cons(1) end_label_step_counts(1) by simp }
  { case 2
    show ?case
      using Cons(2) [of "end_label_step lines axes y h project st i"]
        end_label_step_counts(2) [of lines axes y h project st i] by simp }
qed simp_all

interpretation near: comparator "nearer (Fin x)" for x
  by unfold_locales (auto simp: nearer_def)

text \<open>A label whose wished place is free keeps it.\<close>

lemma place_label_wish:
  assumes "fits y h occupied half x"
  shows "place_label y h occupied half (Fin x) = Some x"
proof -
  let ?ps = "filter (fits y h occupied half) (label_places y h occupied half (Fin x))"
  have "max (y + half) (min (y + h - half) x) = x" using assms by (auto simp: fits_def)
  then have hd: "\<exists>r. ?ps = x # r" using assms by (simp add: label_places_def)
  have "sort_by (nearer (Fin x)) ?ps \<noteq> []" using hd by auto
  then obtain z zs where z: "sort_by (nearer (Fin x)) ?ps = z # zs" by (cases "sort_by (nearer (Fin x)) ?ps") auto
  moreover have "nearer (Fin x) (hd (sort_by (nearer (Fin x)) ?ps)) x"
  proof (rule near.sort_by_first)
    from hd obtain r where r: "?ps = x # r" by blast
    show "?ps \<noteq> []" "x \<in> set ?ps" unfolding r by simp_all
  qed
  ultimately show ?thesis by (simp add: place_label_def nearer_def)
qed

section \<open>Category labels (middleEllipsis)\<close>

definition elided :: "string list \<Rightarrow> nat \<Rightarrow> string" where
  "elided cs n = (let prefix = nat \<lfloor>real n * (45 / 100)\<rfloor>
     in concat (take prefix cs) @ ellipsis @ concat (drop (length cs - (n - prefix)) cs))"

text \<open>The loop from the longest label down to one character; the argument is the next \<open>n\<close>.\<close>

fun elide :: "(string \<Rightarrow> real) \<Rightarrow> real \<Rightarrow> string list \<Rightarrow> nat \<Rightarrow> string" where
  "elide measure_text width cs 0 = ellipsis"
| "elide measure_text width cs (Suc n) =
    (if measure_text (elided cs (Suc n)) \<le> width then elided cs (Suc n)
     else elide measure_text width cs n)"

definition middleEllipsis :: "string \<Rightarrow> real \<Rightarrow> (string \<Rightarrow> real) \<Rightarrow> string" where
  "middleEllipsis t width measure_text =
    (if measure_text t \<le> width then t
     else elide measure_text width (code_points t) (length (code_points t) - 1))"

lemma elide_fits: "elide m w cs n = ellipsis \<or> (m (elide m w cs n) \<le> w \<and> (\<exists>k. 0 < k \<and> k \<le> n \<and> elide m w cs n = elided cs k
    \<and> (\<forall>j. k < j \<and> j \<le> n \<longrightarrow> w < m (elided cs j))))"
proof (induction n)
  case (Suc n)
  show ?case
  proof (cases "m (elided cs (Suc n)) \<le> w")
    case True
    then show ?thesis by auto
  next
    case False
    with Suc show ?thesis by (auto simp: le_Suc_eq not_le)
  qed
qed simp

section \<open>Threshold lines\<close>

fun show_status :: "status \<Rightarrow> string" where
  "show_status StOk = ''ok''" | "show_status StWarn = ''warn''" | "show_status StBad = ''bad''"

text \<open>\<open>replace(/(?<=\d)(ms|s|m|h)$/, " $1")\<close>\<close>

definition space_suffix :: "string \<Rightarrow> string" where
  "space_suffix s = (case find (\<lambda>u. ends_with s u \<and> length u < length s
       \<and> is_digit (s ! (length s - length u - 1))) [''ms'', ''s'', ''m'', ''h''] of
     None \<Rightarrow> s
   | Some u \<Rightarrow> take (length s - length u) s @ '' '' @ u)"

record threshold_line =
  tl_y :: real
  tl_label :: string
  tl_top :: bool
  tl_color :: string

definition thresholdLines :: "intl \<Rightarrow> panel \<Rightarrow> chart_theme \<Rightarrow> value_axis \<Rightarrow> string option \<Rightarrow> threshold_line list" where
  "thresholdLines il p th bounds unit = map (\<lambda>t. \<lparr>tl_y = th_value t,
     tl_label = nullish (th_label t) (show_status (th_status t)) @ '' ''
       @ space_suffix (formatAxis il (or_else unit (p_unit p)) None (Fin (th_value t))),
     tl_top = (th_value t \<le> (ax_min bounds + ax_max bounds) / 2),
     tl_color = status_color th (th_status t)\<rparr>) (p_thresholds p)"

section \<open>The gauge (gaugeOption)\<close>

record gauge_rect =
  gr_x :: real
  gr_y :: real
  gr_width :: real
  gr_fill :: string

record gauge_option =
  go_value :: string
  go_top :: real
  go_cue :: "(string \<times> real) option"
  go_track :: gauge_rect
  go_bands :: "gauge_rect list"
  go_fill :: gauge_rect
  go_marker :: gauge_rect
  go_ends :: "string \<times> string"

definition gauge_cue :: "status option \<Rightarrow> real option \<Rightarrow> string option" where
  "gauge_cue s v = (case s of
      Some StBad \<Rightarrow> Some (glyph_diamond @ '' Bad'')
    | Some StWarn \<Rightarrow> Some (glyph_square @ '' Warn'')
    | Some StOk \<Rightarrow> Some (glyph_circle @ '' OK'')
    | None \<Rightarrow> if v = None then Some (glyph_ring @ '' Unknown'') else None)"

definition text_width :: "(string \<Rightarrow> string \<Rightarrow> real) option \<Rightarrow> string \<Rightarrow> real \<Rightarrow> string \<Rightarrow> real" where
  "text_width mt t px font = (case mt of
      Some m \<Rightarrow> m t font | None \<Rightarrow> real (js_length t) * px * (6 / 10))"

text \<open>The bands one after the other: each starts where the one before ended.\<close>

definition band_rect :: "real \<Rightarrow> real \<Rightarrow> chart_theme \<Rightarrow> real \<times> gauge_rect list \<Rightarrow> real \<times> status
    \<Rightarrow> real \<times> gauge_rect list" where
  "band_rect track_width track_y th st band = (case st of (x, out) \<Rightarrow>
     (fst band, out @ [\<lparr>gr_x = 4 + x * track_width, gr_y = track_y,
        gr_width = (fst band - x) * track_width, gr_fill = status_color th (snd band) @ ''40''\<rparr>]))"

definition gaugeOption :: "intl \<Rightarrow> panel \<Rightarrow> real option \<Rightarrow> chart_theme \<Rightarrow> string option \<Rightarrow> real \<Rightarrow> real
    \<Rightarrow> (string \<Rightarrow> string \<Rightarrow> real) option \<Rightarrow> gauge_option" where
  "gaugeOption il p v th unit width height mt =
    (let lo = nullish (p_min p) 0; hi = nullish (p_max p) 100;
         shown = formatValue il unit (map_option Fin v);
         status = statusFor v (p_thresholds p) (p_better p);
         cue = gauge_cue status v;
         value_width = text_width mt shown 28 (''600 28px '' @ ct_font th);
         cue_width = text_width mt (nullish cue []) 11 (''11px '' @ ct_font th);
         stacked = width < value_width + cue_width + 16;
         top = max 0 ((height - (if stacked then 78 else 62)) / 2);
         track_y = top + (if stacked then 50 else if height < 62 then 32 else 34);
         track_width = max 1 (width - 8);
         span = (if hi - lo = 0 then 1 else hi - lo);
         fraction = max 0 (min 1 ((nullish v lo - lo) / span))
     in \<lparr>go_value = shown, go_top = top,
         go_cue = map_option (\<lambda>c. (c, top + (if stacked then 30 else 10))) cue,
         go_track = \<lparr>gr_x = 4, gr_y = track_y, gr_width = track_width, gr_fill = ct_grid th\<rparr>,
         go_bands = snd (foldl (band_rect track_width track_y th) (0, []) (gaugeBands p lo hi)),
         go_fill = \<lparr>gr_x = 4, gr_y = track_y, gr_width = fraction * track_width,
           gr_fill = (case status of Some s \<Rightarrow> status_color th s | None \<Rightarrow> seriesSlot 0 (ct_dark th))\<rparr>,
         go_marker = \<lparr>gr_x = 3 + fraction * track_width, gr_y = track_y - 2, gr_width = 2,
           gr_fill = ct_text th\<rparr>,
         go_ends = (formatValue il unit (Some (Fin lo)), formatValue il unit (Some (Fin hi)))\<rparr>)"

lemma gauge_fill_inside:
  "gr_x (go_track (gaugeOption il p v th unit width height mt)) = gr_x (go_fill (gaugeOption il p v th unit width height mt))
   \<and> 0 \<le> gr_width (go_fill (gaugeOption il p v th unit width height mt))
   \<and> gr_width (go_fill (gaugeOption il p v th unit width height mt))
      \<le> gr_width (go_track (gaugeOption il p v th unit width height mt))"
proof -
  define f where "f = max 0 (min 1 ((nullish v (nullish (p_min p) 0) - nullish (p_min p) 0)
      / (if nullish (p_max p) 100 - nullish (p_min p) 0 = 0 then 1 else nullish (p_max p) 100 - nullish (p_min p) 0)))"
  have f: "0 \<le> f" "f \<le> 1" by (simp_all add: f_def)
  have "f * max 1 (width - 8) \<le> 1 * max 1 (width - 8)" using f by (intro mult_right_mono) auto
  moreover have "gr_width (go_fill (gaugeOption il p v th unit width height mt)) = f * max 1 (width - 8)"
    "gr_width (go_track (gaugeOption il p v th unit width height mt)) = max 1 (width - 8)"
    "gr_x (go_fill (gaugeOption il p v th unit width height mt)) = 4"
    "gr_x (go_track (gaugeOption il p v th unit width height mt)) = 4"
    unfolding gaugeOption_def Let_def f_def by (simp_all only: gauge_option.simps gauge_rect.simps)
  ultimately show ?thesis using f by simp
qed

section \<open>Properties\<close>

text \<open>
  The end labels of a time series lie inside the plot and never overlap, whatever
  the projection and the axes; every line has one outcome, and one place is taken for each
  label that is moved.
\<close>

theorem end_labels_never_overlap:
  "labels_ok y h (fst (layoutEndLabels lines axes y h project))
   \<and> length (snd (layoutEndLabels lines axes y h project)) = length lines
   \<and> length (fst (layoutEndLabels lines axes y h project))
      = moved_count (snd (layoutEndLabels lines axes y h project))"
proof -
  have "labels_ok y h (fst (([], []) :: (real \<times> real) list \<times> end_label list))"
    by (simp add: labels_ok_def)
  from end_labels.inv_run [OF this] layout_counts [of lines axes y h project "([], [])" "[0..<length lines]"]
  show ?thesis by (simp add: layoutEndLabels_def moved_count_def)
qed

text \<open>
  A category label is the text itself when it fits, else the longest elision of it
  that fits, with its middle cut out, and only the ellipsis when none fits.
\<close>

theorem middleEllipsis_longest:
  "middleEllipsis t width m = t \<and> m t \<le> width
   \<or> middleEllipsis t width m = ellipsis
   \<or> m (middleEllipsis t width m) \<le> width \<and> (\<exists>k. 0 < k \<and> k < char_count t
        \<and> middleEllipsis t width m = elided (code_points t) k
        \<and> Max (insert 0 {j. j < char_count t \<and> m (elided (code_points t) j) \<le> width}) = k)"
proof (cases "m t \<le> width")
  case True
  then show ?thesis by (simp add: middleEllipsis_def)
next
  case False
  let ?n = "char_count t - 1" and ?cs = "code_points t"
  have mid: "middleEllipsis t width m = elide m width ?cs ?n"
    using False by (simp add: middleEllipsis_def char_count_def)
  consider "elide m width ?cs ?n = ellipsis" | k where "m (elide m width ?cs ?n) \<le> width" "0 < k" "k \<le> ?n"
      "elide m width ?cs ?n = elided ?cs k" "\<forall>j. k < j \<and> j \<le> ?n \<longrightarrow> width < m (elided ?cs j)"
    using elide_fits [of m width ?cs ?n] by blast
  then show ?thesis
  proof cases
    case 1
    then show ?thesis by (simp add: mid)
  next
    case (2 k)
    have "j \<le> k" if "j < char_count t" "m (elided ?cs j) \<le> width" for j
      using 2(5) that by (metis Suc_pred' leI less_Suc_eq_le not_le zero_less_iff_neq_zero not_less0)
    then have "Max (insert 0 {j. j < char_count t \<and> m (elided ?cs j) \<le> width}) = k"
      using 2 by (intro Max_eqI) auto
    moreover have "k < char_count t" using 2(2,3) by linarith
    ultimately show ?thesis using 2 mid by auto
  qed
qed

end
