(* ===== verification/Chart_Options.thy ===== *)
theory Chart_Options
  imports Chart_Labels
begin

text \<open>
  timeseriesOption and barOption of ui/panels/compile.ts: the frames of a panel compiled to
  the lines, bars, axes and legend of a chart. The parameters are the runtime's number and
  case formats and the two text measures (12px for legends and end labels, 11px for
  categories). Option records hold what is computed; formatter callbacks and literal styling
  are left out.
\<close>

record runtime =
  rt_intl :: intl
  rt_casing :: casing
  rt_show :: "num \<Rightarrow> string"
  rt_read :: "string \<Rightarrow> num"

record chart_size =
  cz_width :: real
  cz_height :: real
  cz_measure12 :: "(string \<Rightarrow> real) option"
  cz_measure11 :: "(string \<Rightarrow> real) option"

section \<open>Series of a chart\<close>

definition colorFor :: "string \<Rightarrow> nat \<Rightarrow> chart_theme \<Rightarrow> string" where
  "colorFor name i th = (if isOtherSeries (Some name) then ct_muted th else seriesSlot i (ct_dark th))"

definition column_label :: "runtime \<Rightarrow> frame \<Rightarrow> panel \<Rightarrow> string \<Rightarrow> string" where
  "column_label rt f p name = displayLabel (rt_casing rt)
     (case find (\<lambda>c. c_name c = name) (f_columns f) of Some c \<Rightarrow> Inl c | None \<Rightarrow> Inr name) (Some p)"

definition chartSeries :: "runtime \<Rightarrow> frame \<Rightarrow> panel \<Rightarrow> series list \<times> nat" where
  "chartSeries rt f p =
    (let series = toSeries (rt_show rt) (rt_read rt) f;
         named = (if list_ex (\<lambda>c. c_role c = RDimension) (f_columns f) then series
                  else map (\<lambda>s. s\<lparr>s_name := column_label rt f p (s_name s)\<rparr>) series)
     in visibleSeries s_name named p)"

definition unit_of :: "panel \<Rightarrow> series \<Rightarrow> string option" where
  "unit_of p s = or_else (s_unit s) (p_unit p)"

text \<open>The previous period shows the series that are shown now, and Other when there is one now.\<close>

definition previous_series :: "runtime \<Rightarrow> panel \<Rightarrow> panel_result \<Rightarrow> series list \<Rightarrow> series list" where
  "previous_series rt p r current = (case (r_previous r, r_shift_ms r) of
      (Some f, Some _) \<Rightarrow> filter (\<lambda>s. if isOtherSeries (Some (s_name s))
          then list_ex (\<lambda>c. isOtherSeries (Some (s_name c))) current
          else s_name s \<in> s_name ` set current) (fst (chartSeries rt f p))
    | _ \<Rightarrow> [])"

definition chart_units :: "panel \<Rightarrow> series list \<Rightarrow> string option list" where
  "chart_units p ss = (case uniq (map (unit_of p) ss) of [] \<Rightarrow> [p_unit p] | us \<Rightarrow> us)"

section \<open>Value axes\<close>

definition series_values :: "series list \<Rightarrow> real list" where
  "series_values ss = concat (map (\<lambda>s. present (map snd (s_points s))) ss)"

text \<open>One point added to the positive or negative stack of its time.\<close>

definition stack_point :: "(num, real \<times> real) omap \<Rightarrow> num \<times> real option \<Rightarrow> (num, real \<times> real) omap" where
  "stack_point stacks pt = (case pt of (t, v) \<Rightarrow>
    (let (pos, neg) = nullish (map_of stacks t) (0, 0)
     in AList.update t (case v of None \<Rightarrow> (pos, neg)
          | Some x \<Rightarrow> if 0 < x then (pos + x, neg) else (pos, neg + x)) stacks))"

definition stack_sums :: "series list \<Rightarrow> real list" where
  "stack_sums ss = concat (map (\<lambda>(a, b). [a, b])
     (map_vals (foldl stack_point [] (concat (map s_points ss)))))"

definition axis_bounds :: "bool \<Rightarrow> panel \<Rightarrow> series list \<Rightarrow> series list \<Rightarrow> real \<Rightarrow> string option \<Rightarrow> value_axis" where
  "axis_bounds stacked p current previous pixels unit =
    (let mine = filter (\<lambda>s. unit_of p s = unit);
         values = series_values (mine (current @ previous))
           @ (if stacked then stack_sums (mine current) else [])
     in valueAxis (Fin (min_of 0 values)) (Fin (max_of 0 values)) unit pixels)"

lemma axis_bounds_cover:
  assumes "v \<in> set (series_values (filter (\<lambda>s. unit_of p s = unit) (current @ previous)))
    \<or> stacked \<and> v \<in> set (stack_sums (filter (\<lambda>s. unit_of p s = unit) current))"
  shows "ax_min (axis_bounds stacked p current previous pixels unit) \<le> v
    \<and> v \<le> ax_max (axis_bounds stacked p current previous pixels unit)"
proof -
  define vs where "vs = series_values (filter (\<lambda>s. unit_of p s = unit) (current @ previous))
    @ (if stacked then stack_sums (filter (\<lambda>s. unit_of p s = unit) current) else [])"
  have v: "v \<in> set vs" using assms by (auto simp: vs_def)
  have b: "axis_bounds stacked p current previous pixels unit
      = valueAxis (Fin (min_of 0 vs)) (Fin (max_of 0 vs)) unit pixels"
    by (simp add: axis_bounds_def Let_def vs_def)
  show ?thesis
    unfolding b using min_of_le(2) [OF v, of 0] max_of_ge(2) [OF v, of 0]
    using valueAxis_covers [OF refl, of "Fin (min_of 0 vs)" "Fin (max_of 0 vs)" unit pixels]
    by fastforce
qed

text \<open>The stack of a time is the sum of its positive values and the sum of its negative ones.\<close>

definition stack_at :: "num \<Rightarrow> (num \<times> real option) list \<Rightarrow> real \<times> real" where
  "stack_at t pts = (let vs = present (map snd (filter (\<lambda>p. fst p = t) pts))
     in (sum_list (filter (\<lambda>v. 0 < v) vs), sum_list (filter (\<lambda>v. \<not> 0 < v) vs)))"

lemma pairs_flat: "x \<in> set xs \<Longrightarrow> fst x \<in> set (concat (map (\<lambda>(a, b). [a, b]) xs))
    \<and> snd x \<in> set (concat (map (\<lambda>(a, b). [a, b]) xs))"
  by (induction xs) auto

lemma stack_point_get:
  "map_of (stack_point m (u, v)) t = (if t = u then Some (case v of None \<Rightarrow> nullish (map_of m u) (0, 0)
     | Some x \<Rightarrow> if 0 < x then (fst (nullish (map_of m u) (0, 0)) + x, snd (nullish (map_of m u) (0, 0)))
         else (fst (nullish (map_of m u) (0, 0)), snd (nullish (map_of m u) (0, 0)) + x)) else map_of m t)"
  by (auto simp: stack_point_def update_conv split: prod.splits option.splits)

lemma stack_loop:
  "map_of (foldl stack_point [] pts) t = (if t \<in> fst ` set pts then Some (stack_at t pts) else None)"
proof (induction pts rule: rev_induct)
  case (snoc pt pts)
  obtain u v where pt: "pt = (u, v)" by fastforce
  have none: "t \<notin> fst ` set pts \<Longrightarrow> stack_at t pts = (0, 0)" for t
  proof -
    assume "t \<notin> fst ` set pts"
    then have "filter (\<lambda>p. fst p = t) pts = []" by (auto simp: filter_empty_conv)
    then show ?thesis by (simp add: stack_at_def)
  qed
  have cur: "nullish (map_of (foldl stack_point [] pts) t) (0, 0) = stack_at t pts"
    using snoc none by auto
  show ?case
  proof (cases "u = t")
    case True
    have "stack_at t (pts @ [pt]) = (case v of None \<Rightarrow> stack_at t pts
        | Some x \<Rightarrow> if 0 < x then (fst (stack_at t pts) + x, snd (stack_at t pts))
            else (fst (stack_at t pts), snd (stack_at t pts) + x))"
      using True by (auto simp: stack_at_def pt Let_def split: option.splits)
    with True cur show ?thesis
      by (simp add: stack_point_get pt split: option.splits)
  next
    case False
    with snoc show ?thesis
      by (auto simp: stack_point_get pt stack_at_def)
  qed
qed simp

section \<open>The time series option\<close>

record ts_line =
  ln_name :: string
  ln_interactive :: bool
  ln_axis :: nat
  ln_bar :: bool
  ln_points :: "(num \<times> real option) list"
  ln_end_label :: "(bool \<times> real) option"
  ln_sampled :: bool
  ln_stacked :: bool
  ln_area :: bool
  ln_line :: mark_style
  ln_mark :: mark_style
  ln_thresholds :: "threshold_line list"

record ts_axis =
  ta_bounds :: "value_axis option"
  ta_split :: nat
  ta_log :: bool
  ta_right :: bool
  ta_offset :: real
  ta_unit :: "string option"

record ts_option =
  to_lines :: "ts_line list"
  to_previous :: "ts_line list"
  to_axes :: "ts_axis list"
  to_legend :: legend_layout
  to_right :: real
  to_top :: real
  to_bottom :: real
  to_from :: "real option"
  to_until :: "real option"
  to_note :: "text_graphic list"
  to_labels :: "(real \<times> real) list \<times> end_label list"

definition unit_index :: "string option list \<Rightarrow> string option \<Rightarrow> nat" where
  "unit_index units u = nullish (find_index (\<lambda>x. x = u) units) 0"

definition panel_style :: "panel \<Rightarrow> chart_style" where
  "panel_style p = nullish (Option.bind (p_options p) po_style) SLine"

definition panel_log :: "panel \<Rightarrow> bool" where
  "panel_log p \<longleftrightarrow> Option.bind (p_options p) po_scale = Some Log"

definition legend_hidden :: "panel \<Rightarrow> bool" where
  "legend_hidden p = (case p_options p of None \<Rightarrow> False | Some po \<Rightarrow> po_legend_hidden po)"

definition labels_direct :: "panel \<Rightarrow> series list \<Rightarrow> nat \<Rightarrow> bool" where
  "labels_direct p current hidden \<longleftrightarrow> 2 \<le> length current \<and> length current \<le> 6 \<and> hidden = 0
     \<and> panel_style p \<noteq> SBars \<and> panel_style p \<noteq> SStacked"

definition end_label_width :: "(string \<Rightarrow> real) option \<Rightarrow> series list \<Rightarrow> real" where
  "end_label_width mt current = max_of 40 (map (\<lambda>s.
     (let cs = take 24 (code_points (s_name s)); name = concat cs
      in case mt of Some m \<Rightarrow> m name | None \<Rightarrow> real (length cs) * (72 / 10))) current) + 12"

definition ts_line_of :: "runtime \<Rightarrow> panel \<Rightarrow> chart_theme \<Rightarrow> string option \<Rightarrow> string option list \<Rightarrow> value_axis
    \<Rightarrow> (bool \<times> real) option \<Rightarrow> nat \<Rightarrow> series \<Rightarrow> ts_line" where
  "ts_line_of rt p th unit units bounds0 label i s =
    (let color = colorFor (s_name s) i th;
         bars = panel_style p = SBars \<or> panel_style p = SStacked
     in \<lparr>ln_name = s_name s, ln_interactive = True, ln_axis = unit_index units (unit_of p s),
         ln_bar = bars, ln_points = s_points s, ln_end_label = label, ln_sampled = \<not> bars,
         ln_stacked = (panel_style p = SStacked), ln_area = (panel_style p = SArea),
         ln_line = lineStyle color th, ln_mark = markStyle color th,
         ln_thresholds = (if i = 0 then thresholdLines (rt_intl rt) p th bounds0 unit else [])\<rparr>)"

definition previous_line :: "panel \<Rightarrow> chart_theme \<Rightarrow> string option list \<Rightarrow> real \<Rightarrow> series \<Rightarrow> ts_line" where
  "previous_line p th units period s =
    \<lparr>ln_name = s_name s @ '' '' @ middot @ '' previous'', ln_interactive = False,
     ln_axis = unit_index units (unit_of p s), ln_bar = False,
     ln_points = map (\<lambda>(t, v). (num_plus t period, v)) (s_points s), ln_end_label = None,
     ln_sampled = False, ln_stacked = False, ln_area = False,
     ln_line = \<lparr>ms_color = ct_muted th, ms_outline = None\<rparr>,
     ln_mark = \<lparr>ms_color = ct_muted th, ms_outline = None\<rparr>, ln_thresholds = []\<rparr>"

definition ts_axis_of :: "panel \<Rightarrow> real \<Rightarrow> nat \<Rightarrow> value_axis \<Rightarrow> string option \<Rightarrow> ts_axis" where
  "ts_axis_of p pixels i bounds unit =
    \<lparr>ta_bounds = (if panel_log p then None else Some bounds),
     ta_split = (if panel_log p then valueAxisTicks pixels else ax_split bounds),
     ta_log = panel_log p, ta_right = (i \<noteq> 0), ta_offset = real (i - 1) * 56, ta_unit = unit\<rparr>"

definition end_line_of :: "ts_line \<Rightarrow> end_line" where
  "end_line_of l = \<lparr>el_label = map_option (\<lambda>(shown, w). (shown, Some 14)) (ln_end_label l),
     el_data = Some (map (\<lambda>(t, v). (t, map_option Fin v)) (ln_points l)), el_axis = ln_axis l\<rparr>"

definition end_axis_of :: "ts_axis \<Rightarrow> end_axis" where
  "end_axis_of a = \<lparr>ea_min = map_option ax_min (ta_bounds a), ea_max = map_option ax_max (ta_bounds a),
     ea_log = ta_log a\<rparr>"

definition timeseriesOption :: "runtime \<Rightarrow> panel \<Rightarrow> panel_result \<Rightarrow> chart_theme \<Rightarrow> chart_size \<Rightarrow> ts_option" where
  "timeseriesOption rt p r th cz =
    (let (current, hidden) = (case r_frame r of Some f \<Rightarrow> chartSeries rt f p | None \<Rightarrow> ([], 0));
         unit = or_else (Option.bind (head_opt current) s_unit) (p_unit p);
         previous = previous_series rt p r current;
         units = chart_units p (current @ previous);
         direct = labels_direct p current hidden;
         label_width = (if direct then end_label_width (cz_measure12 cz) current else 0);
         end_width = (if direct then label_width + 8 else 0);
         legend = wrappingLegend (cz_measure12 cz) (map s_name current) (cz_width cz)
           (\<not> legend_hidden p \<and> 1 < length current);
         bottom = (if hidden \<noteq> 0 then 24 else 8);
         plot = cz_height cz - ll_top legend - bottom - 22;
         capacity = max 0 \<lfloor>plot / 16\<rfloor>;
         bounds = map (axis_bounds (panel_style p = SStacked) p current previous plot) units;
         line = (\<lambda>i. ts_line_of rt p th unit units (hd bounds)
           (if direct then Some (int i < capacity, label_width) else None) i (current ! i));
         lines = map line [0..<length current];
         prev = (case r_shift_ms r of Some period \<Rightarrow> map (previous_line p th units period) previous | None \<Rightarrow> []);
         axes = map (\<lambda>i. ts_axis_of p plot i (bounds ! i) (units ! i)) [0..<length units]
     in \<lparr>to_lines = lines, to_previous = prev, to_axes = axes, to_legend = legend,
         to_right = 16 + end_width + real (length units - 2) * 56, to_top = ll_top legend,
         to_bottom = bottom, to_from = r_from_ms r, to_until = r_to_ms r,
         to_note = hiddenSeriesNote hidden (ct_muted th),
         to_labels = layoutEndLabels (map end_line_of (lines @ prev)) (map end_axis_of axes)
           (ll_top legend) plot (\<lambda>_ _. None)\<rparr>)"

lemma chart_units_index:
  assumes "s \<in> set ss"
  shows "unit_index (chart_units p ss) (unit_of p s) < length (chart_units p ss)
    \<and> chart_units p ss ! unit_index (chart_units p ss) (unit_of p s) = unit_of p s"
proof -
  have "unit_of p s \<in> set (uniq (map (unit_of p) ss))" using assms by simp
  then have in_units: "unit_of p s \<in> set (chart_units p ss)"
    by (cases "uniq (map (unit_of p) ss)") (simp_all add: chart_units_def del: set_uniq)
  then obtain i where i: "find_index (\<lambda>x. x = unit_of p s) (chart_units p ss) = Some i"
    using find_index_eq_Some by metis
  from find_index_Some [OF this] i show ?thesis by (simp add: unit_index_def)
qed

lemma series_values_mem:
  "s \<in> set ss \<Longrightarrow> (t, Some v) \<in> set (s_points s) \<Longrightarrow> v \<in> set (series_values ss)"
  by (auto simp: series_values_def set_present intro!: bexI [of _ s] image_eqI [of _ snd "(t, Some v)"])

lemma timeseries_axes:
  assumes "r_frame r = Some f" "chartSeries rt f p = (current, hidden)"
    and "previous = previous_series rt p r current" "units = chart_units p (current @ previous)"
  obtains plot where "to_axes (timeseriesOption rt p r th cz) = map (\<lambda>i. ts_axis_of p plot i
      (axis_bounds (panel_style p = SStacked) p current previous plot (units ! i)) (units ! i)) [0..<length units]"
proof -
  define plot where "plot = cz_height cz
    - ll_top (wrappingLegend (cz_measure12 cz) (map s_name current) (cz_width cz) (\<not> legend_hidden p \<and> 1 < length current))
    - (if hidden \<noteq> 0 then 24 else 8) - 22"
  have "to_axes (timeseriesOption rt p r th cz) = map (\<lambda>i. ts_axis_of p plot i
      (map (axis_bounds (panel_style p = SStacked) p current previous plot) units ! i) (units ! i)) [0..<length units]"
    unfolding timeseriesOption_def assms(1) option.case assms(2) prod.case Let_def assms(3,4) plot_def
    by (simp only: ts_option.simps)
  then show thesis by (intro that [of plot]) simp
qed

lemma timeseries_linear_bounds:
  assumes "r_frame r = Some f" "chartSeries rt f p = (current, hidden)" "\<not> panel_log p"
    and "a \<in> set (to_axes (timeseriesOption rt p r th cz))"
  shows "\<exists>b. ta_bounds a = Some b"
proof (rule timeseries_axes [OF assms(1,2) refl refl, of th cz])
  fix plot
  assume "to_axes (timeseriesOption rt p r th cz)
    = map (\<lambda>i. ts_axis_of p plot i (axis_bounds (panel_style p = SStacked) p current (previous_series rt p r current) plot
        (chart_units p (current @ previous_series rt p r current) ! i))
        (chart_units p (current @ previous_series rt p r current) ! i))
      [0..<length (chart_units p (current @ previous_series rt p r current))]"
  with assms(4) obtain i b u where "a = ts_axis_of p plot i b u" by auto
  with assms(3) show ?thesis by (simp add: ts_axis_of_def)
qed

section \<open>The bar option\<close>

text \<open>
  The selection a bar stands for, by the values of its row's dimension columns. The code keys
  the map by the JSON text of that list of strings, which determines it.
\<close>

record bar_selection =
  bs_dimensions :: "(string, string) omap"
  bs_window :: "(string \<times> string) option"

text \<open>One dimension column of a row: the deploy window, or the next dimension of the query.\<close>

definition bar_dimension :: "(num \<Rightarrow> string) \<Rightarrow> frame \<Rightarrow> panel \<Rightarrow> nat
    \<Rightarrow> (string, string) omap \<times> (string \<times> string) option \<times> nat \<Rightarrow> nat
    \<Rightarrow> (string, string) omap \<times> (string \<times> string) option \<times> nat" where
  "bar_dimension sn f p row st c = (case st of (dims, window, g) \<Rightarrow>
    (let value = cell_str sn (cell_at f c row); name = c_name (f_columns f ! c)
     in case f_periods f of
          Some periods \<Rightarrow> if name = ''period'' then (dims, map_of periods value, g)
            else (AList.update (nullish (Option.bind (p_query p) (\<lambda>q. nth_opt (q_by q) g)) name) value dims, window, Suc g)
        | None \<Rightarrow> (AList.update (nullish (Option.bind (p_query p) (\<lambda>q. nth_opt (q_by q) g)) name) value dims, window, Suc g)))"

definition bar_row_selection :: "(num \<Rightarrow> string) \<Rightarrow> frame \<Rightarrow> panel \<Rightarrow> nat \<Rightarrow> bar_selection" where
  "bar_row_selection sn f p row =
    (case foldl (bar_dimension sn f p row) ([], None, 0) (dimensionColumns f) of
      (dims, window, _) \<Rightarrow> \<lparr>bs_dimensions = dims, bs_window = window\<rparr>)"

definition bar_selections :: "(num \<Rightarrow> string) \<Rightarrow> frame \<Rightarrow> panel \<Rightarrow> (string list, bar_selection) omap" where
  "bar_selections sn f p = foldl (\<lambda>m row. AList.update
     (map (\<lambda>c. cell_str sn (cell_at f c row)) (dimensionColumns f)) (bar_row_selection sn f p row) m)
     [] [0..<f_rows f]"

record bar_series =
  br_name :: string
  br_axis :: nat
  br_data :: "(real option \<times> bar_selection option) list"
  br_max_width :: real
  br_mark :: mark_style
  br_label :: bool

record bar_option =
  bo_categories :: "string list"
  bo_category_width :: real
  bo_category_labels :: "string list"
  bo_axes :: "ts_axis list"
  bo_series :: "bar_series list"
  bo_legend :: legend_layout
  bo_top :: real
  bo_bottom :: real
  bo_note :: "text_graphic list"

definition cat_unit :: "panel \<Rightarrow> cat_series \<Rightarrow> string option" where
  "cat_unit p s = or_else (cs_unit s) (p_unit p)"

definition cat_units :: "panel \<Rightarrow> cat_series list \<Rightarrow> string option list" where
  "cat_units p ss = (case uniq (map (cat_unit p) ss) of [] \<Rightarrow> [p_unit p] | us \<Rightarrow> us)"

definition cat_bounds :: "panel \<Rightarrow> cat_series list \<Rightarrow> real \<Rightarrow> string option \<Rightarrow> value_axis" where
  "cat_bounds p ss pixels unit =
    (let values = concat (map (\<lambda>s. present (cs_values s)) (filter (\<lambda>s. cat_unit p s = unit) ss))
     in valueAxis (Fin (min_of 0 values)) (Fin (max_of 0 values)) unit pixels)"

definition pivot_series :: "runtime \<Rightarrow> panel \<Rightarrow> frame \<Rightarrow> cat_series list" where
  "pivot_series rt p f =
    (let series = snd (toCategories (rt_show rt) f)
     in if length (dimensionColumns f) < 2
        then map (\<lambda>s. s\<lparr>cs_name := column_label rt f p (cs_name s)\<rparr>) series else series)"

definition bar_series_of :: "panel \<Rightarrow> frame \<Rightarrow> chart_theme \<Rightarrow> bool \<Rightarrow> bool \<Rightarrow> string option list \<Rightarrow> string list
    \<Rightarrow> (string list, bar_selection) omap \<Rightarrow> nat \<Rightarrow> cat_series \<Rightarrow> bar_series" where
  "bar_series_of p f th split multi units categories selections i s =
    \<lparr>br_name = groupName (cs_name s), br_axis = unit_index units (cat_unit p s),
     br_data = map (\<lambda>row. (cs_values s ! row, Option.bind (nth_opt categories row) (\<lambda>c.
        map_of selections (if 1 < length (dimensionColumns f) then [c, cs_name s] else [c]))))
       [0..<length (cs_values s)],
     br_max_width = (if split \<and> cs_name s = ''Before deploy'' then 7 else 14),
     br_mark = markStyle (if split then (if cs_name s = ''Before deploy'' then ct_muted th
         else seriesSlot 0 (ct_dark th)) else colorFor (cs_name s) i th) th,
     br_label = (if split then cs_name s = ''Since deploy'' else \<not> multi \<or> i = 0)\<rparr>"

definition barOption :: "runtime \<Rightarrow> panel \<Rightarrow> frame \<Rightarrow> chart_theme \<Rightarrow> chart_size \<Rightarrow> bar_option" where
  "barOption rt p f th cz =
    (let categories = fst (toCategories (rt_show rt) f);
         (series, hidden) = visibleSeries cs_name (pivot_series rt p f) p;
         selections = bar_selections (rt_show rt) f p;
         units = cat_units p series;
         multi = 1 < length series;
         split = (case f_periods f of None \<Rightarrow> False
           | Some ps \<Rightarrow> map_of ps ''Before deploy'' \<noteq> None \<or> map_of ps ''Since deploy'' \<noteq> None);
         width_of = (\<lambda>t. case cz_measure11 cz of Some m \<Rightarrow> m t | None \<Rightarrow> real (char_count t) * (66 / 10));
         category_width = min (cz_width cz * (4 / 10)) (max_of 40 (map (\<lambda>c. width_of (groupName c)) categories) + 4);
         legend = wrappingLegend (cz_measure12 cz) (map (\<lambda>s. groupName (cs_name s)) series) (cz_width cz)
           (multi \<and> \<not> legend_hidden p);
         axes = map (\<lambda>i. (let b = cat_bounds p series (cz_width cz - category_width - 80) (units ! i)
            in \<lparr>ta_bounds = Some b, ta_split = ax_split b, ta_log = False, ta_right = (i \<noteq> 0),
                ta_offset = real (i - 1) * 36, ta_unit = units ! i\<rparr>)) [0..<length units]
     in \<lparr>bo_categories = map groupName categories, bo_category_width = category_width,
         bo_category_labels = map (\<lambda>c. middleEllipsis (groupName c) category_width width_of) categories,
         bo_axes = axes,
         bo_series = map (\<lambda>i. bar_series_of p f th split multi units categories selections i (series ! i))
           [0..<length series],
         bo_legend = legend, bo_top = (if multi then ll_top legend else 8) + real (length units - 1) * 36,
         bo_bottom = (if hidden \<noteq> 0 then 24 else 8), bo_note = hiddenSeriesNote hidden (ct_muted th)\<rparr>)"

text \<open>The last row of a key decides its selection; its key is the row's dimension values.\<close>

lemma bar_selections_sound:
  assumes "map_of (bar_selections sn f p) k = Some sel"
  shows "\<exists>row < f_rows f. k = map (\<lambda>c. cell_str sn (cell_at f c row)) (dimensionColumns f)
    \<and> sel = bar_row_selection sn f p row"
proof -
  have "\<exists>row \<in> set rows. k = map (\<lambda>c. cell_str sn (cell_at f c row)) (dimensionColumns f)
      \<and> sel = bar_row_selection sn f p row"
    if "map_of (foldl (\<lambda>m row. AList.update (map (\<lambda>c. cell_str sn (cell_at f c row)) (dimensionColumns f))
        (bar_row_selection sn f p row) m) [] rows) k = Some sel" for rows
    using that by (induction rows rule: rev_induct) (auto simp: update_conv split: if_splits)
  with assms show ?thesis unfolding bar_selections_def by fastforce
qed

section \<open>Properties\<close>

text \<open>
  Every line of a time series chart, of this period or the previous, is drawn on
  an axis of its own unit, and on a linear axis each of its values lies within the axis bounds;
  when the lines are stacked, so does the top and the bottom of the stack of every time.
\<close>

theorem timeseries_axes_cover_lines:
  assumes "r_frame r = Some f" "current = fst (chartSeries rt f p)"
    and "s \<in> set (current @ previous_series rt p r current)"
    and "units = chart_units p (current @ previous_series rt p r current)"
  shows "(let i = unit_index units (unit_of p s); ax = to_axes (timeseriesOption rt p r th cz) in
     i < length ax \<and> ta_unit (ax ! i) = unit_of p s
     \<and> (\<forall>b. ta_bounds (ax ! i) = Some b \<longrightarrow>
         (\<forall>t v. (t, Some v) \<in> set (s_points s) \<longrightarrow> ax_min b \<le> v \<and> v \<le> ax_max b)
         \<and> (panel_style p = SStacked \<and> s \<in> set current \<longrightarrow> (\<forall>t \<in> fst ` set (s_points s).
              let (up, down) = stack_at t (concat (map s_points (filter (\<lambda>x. unit_of p x = unit_of p s) current)))
              in ax_min b \<le> down \<and> up \<le> ax_max b))))"
proof -
  let ?i = "unit_index units (unit_of p s)"
  obtain hidden where c: "chartSeries rt f p = (current, hidden)" using assms(2) by (metis fst_conv surj_pair)
  define prev where "prev = previous_series rt p r current"
  obtain plot where axes: "to_axes (timeseriesOption rt p r th cz) = map (\<lambda>i. ts_axis_of p plot i
      (axis_bounds (panel_style p = SStacked) p current prev plot (units ! i)) (units ! i)) [0..<length units]"
    using timeseries_axes [OF assms(1) c prev_def] assms(4) unfolding prev_def by blast
  have i: "?i < length units" "units ! ?i = unit_of p s"
    using chart_units_index [OF assms(3)] assms(4) by auto
  define b where "b = axis_bounds (panel_style p = SStacked) p current prev plot (unit_of p s)"
  have ax: "to_axes (timeseriesOption rt p r th cz) ! ?i = ts_axis_of p plot ?i b (unit_of p s)"
    using i by (simp add: axes b_def)
  have mine: "s \<in> set (filter (\<lambda>x. unit_of p x = unit_of p s) (current @ prev))"
    using assms(3) by (simp add: prev_def)
  have points: "ax_min b \<le> v \<and> v \<le> ax_max b" if "(t, Some v) \<in> set (s_points s)" for t v
    unfolding b_def by (rule axis_bounds_cover) (use series_values_mem [OF mine that] in blast)
  have stack: "ax_min b \<le> snd (stack_at t pts) \<and> fst (stack_at t pts) \<le> ax_max b"
    if "panel_style p = SStacked" "s \<in> set current" "t \<in> fst ` set (s_points s)"
      and pts: "pts = concat (map s_points (filter (\<lambda>x. unit_of p x = unit_of p s) current))" for t pts
  proof -
    have "t \<in> fst ` set pts" using that by auto
    then have "map_of (foldl stack_point [] pts) t = Some (stack_at t pts)"
      by (simp add: stack_loop)
    then have "stack_at t pts \<in> set (map_vals (foldl stack_point [] pts))"
      by (force simp: map_vals_def dest: map_of_SomeD)
    then have "fst (stack_at t pts) \<in> set (stack_sums (filter (\<lambda>x. unit_of p x = unit_of p s) current))"
      "snd (stack_at t pts) \<in> set (stack_sums (filter (\<lambda>x. unit_of p x = unit_of p s) current))"
      unfolding stack_sums_def pts [symmetric] by (simp_all only: pairs_flat)
    then show ?thesis
      unfolding b_def using that(1)
      by (intro conjI axis_bounds_cover [THEN conjunct1] axis_bounds_cover [THEN conjunct2]) auto
  qed
  have "?i < length (to_axes (timeseriesOption rt p r th cz))" using i by (simp add: axes)
  moreover have "ta_unit (ts_axis_of p plot ?i b (unit_of p s)) = unit_of p s"
    "ta_bounds (ts_axis_of p plot ?i b (unit_of p s)) = Some b' \<Longrightarrow> b' = b" for b'
    by (auto simp: ts_axis_of_def split: if_splits)
  ultimately show ?thesis
    unfolding Let_def ax using points stack [OF _ _ _ refl] by (fastforce simp: case_prod_beta)
qed

definition demo_runtime :: runtime where
  "demo_runtime = \<lparr>rt_intl = \<lparr>in_plain = \<lambda>_. ''n'', in_compact = \<lambda>_. ''n'', in_digits = \<lambda>_ _. ''n''\<rparr>,
     rt_casing = \<lparr>to_upper = id, to_lower = id\<rparr>, rt_show = \<lambda>_. [], rt_read = \<lambda>_. NaN\<rparr>"

definition demo_series :: series where
  "demo_series = \<lparr>s_name = ''a'', s_unit = Some ''count'', s_points = [(Fin 1, Some 4), (Fin 2, Some 8)]\<rparr>"

definition demo_ts_result :: panel_result where
  "demo_ts_result = \<lparr>r_id = ''p'', r_status = ROk, r_frame = Some demo_frame, r_previous = None,
     r_error = None, r_busy = False, r_retryable = False, r_interval = None, r_from_ms = Some 0,
     r_to_ms = Some 3, r_better = None, r_shift_ms = None, r_scope = None, r_annotation_error = None\<rparr>"

lemma demo_chart_series:
  "chartSeries demo_runtime demo_frame demo_panel
    = ([demo_series, \<lparr>s_name = ''b'', s_unit = Some ''count'', s_points = [(Fin 1, None)]\<rparr>], 0)"
proof -
  have "role_index RTime demo_frame = Some 0" "role_index RDimension demo_frame = Some 1"
    by (simp_all add: role_index_def demo_frame_def)
  moreover have "measureColumns demo_frame = [2]"
    by (simp add: measureColumns_def indices_where_def demo_frame_def upt_rec numeral_eq_Suc)
  ultimately have "toSeries (\<lambda>_. []) (\<lambda>_. NaN) demo_frame
      = [demo_series, \<lparr>s_name = ''b'', s_unit = Some ''count'', s_points = [(Fin 1, None)]\<rparr>]"
    by (simp add: toSeries_def demo_frame_def series_step_def cell_at_def cell_str_def cell_num_def
        to_number_def groupName_def demo_series_def map_vals_def numeral_eq_Suc upt_rec Let_def)
  then show ?thesis
    by (simp add: chartSeries_def demo_runtime_def visibleSeries_def series_limit_def demo_panel_def
        isOtherSeries_def demo_series_def demo_frame_def Let_def)
qed

theorem timeseries_axes_cover_lines_witness:
  "\<exists>b. ta_bounds (hd (to_axes (timeseriesOption demo_runtime demo_panel demo_ts_result (chartThemeFor True)
      \<lparr>cz_width = 500, cz_height = 248, cz_measure12 = None, cz_measure11 = None\<rparr>))) = Some b
    \<and> 8 \<le> ax_max b"
  (is "\<exists>b. ta_bounds (hd (to_axes ?o)) = Some b \<and> _")
proof -
  let ?cur = "fst (chartSeries demo_runtime demo_frame demo_panel)"
  have prev: "previous_series demo_runtime demo_panel demo_ts_result ?cur = []"
    by (simp add: previous_series_def demo_ts_result_def)
  have u: "chart_units demo_panel ?cur = [Some ''count'']" "unit_of demo_panel demo_series = Some ''count''"
    by (simp_all add: chart_units_def unit_of_def demo_chart_series demo_series_def)
  have mem: "demo_series \<in> set (?cur @ previous_series demo_runtime demo_panel demo_ts_result ?cur)"
    by (simp add: demo_chart_series)
  have "r_frame demo_ts_result = Some demo_frame" by (simp add: demo_ts_result_def)
  note cover = timeseries_axes_cover_lines [OF this refl mem refl, of "chartThemeFor True"
      "\<lparr>cz_width = 500, cz_height = 248, cz_measure12 = None, cz_measure11 = None\<rparr>"]
  from cover have ax: "to_axes ?o \<noteq> []" "\<forall>b. ta_bounds (to_axes ?o ! 0) = Some b \<longrightarrow>
      (\<forall>t v. (t, Some v) \<in> set (s_points demo_series) \<longrightarrow> ax_min b \<le> v \<and> v \<le> ax_max b)"
    by (auto simp: prev u unit_index_def Let_def)
  then obtain a as where a: "to_axes ?o = a # as" by (cases "to_axes ?o") auto
  have "\<exists>b. ta_bounds a = Some b"
  proof (rule timeseries_linear_bounds [OF \<open>r_frame demo_ts_result = _\<close> demo_chart_series])
    show "\<not> panel_log demo_panel" by (simp add: panel_log_def demo_panel_def)
    show "a \<in> set (to_axes ?o)" by (simp add: a)
  qed
  then obtain b where b: "ta_bounds a = Some b" ..
  have "(Fin 2, Some 8) \<in> set (s_points demo_series)" by (simp add: demo_series_def)
  with ax(2) b have "8 \<le> ax_max b" by (auto simp: a)
  with b show ?thesis by (auto simp: a)
qed

end
