(* ===== verification/Annotations.thy ===== *)
theory Annotations
  imports Chart_Options
begin

text \<open>
  ui/panels/annotations.ts and adaptValueAxis of ui/panels/units.ts: the deploys and anomalies
  of a dashboard drawn on a chart by time. The compiled chart it starts from is a record of the
  parts the code reads; \<open>dp\<close> is the runtime's \<open>Date.parse\<close>, \<open>measure\<close> the 12px text measure.
\<close>

record deploy =
  dy_namespace :: string
  dy_service :: string
  dy_version :: string
  dy_at :: string

record anomaly =
  an_namespace :: string
  an_service :: string
  an_kind :: string
  an_from :: string
  an_to :: string
  an_title :: string
  an_severity :: string

record annotations =
  as_deploys :: "deploy list"
  as_anomalies :: "anomaly list"

section \<open>What is in scope\<close>

definition in_scope :: "annotation_scope option \<Rightarrow> string \<Rightarrow> string \<Rightarrow> bool" where
  "in_scope scope namespace service = (case scope of
      None \<Rightarrow> True
    | Some sc \<Rightarrow> list_ex (\<lambda>(ns, s). s = service
        \<and> (ns = namespace \<or> namespace = [] \<and> \<not> as_namespace_scoped sc)) (as_services sc))"

definition after_or_at :: "real option \<Rightarrow> num \<Rightarrow> bool" where
  "after_or_at from t = (case t of Fin x \<Rightarrow> (case from of None \<Rightarrow> True | Some f \<Rightarrow> f \<le> x) | _ \<Rightarrow> False)"

definition after :: "real option \<Rightarrow> num \<Rightarrow> bool" where
  "after from t = (case t of Fin x \<Rightarrow> (case from of None \<Rightarrow> True | Some f \<Rightarrow> f < x) | _ \<Rightarrow> False)"

definition before_end :: "real option \<Rightarrow> num \<Rightarrow> bool" where
  "before_end to t = (case t of Fin x \<Rightarrow> (case to of None \<Rightarrow> True | Some e \<Rightarrow> x < e) | _ \<Rightarrow> False)"

record deploy_mark =
  dm_x :: real
  dm_name :: string
  dm_tooltip :: string

definition instant :: "(string \<Rightarrow> num) \<Rightarrow> string \<Rightarrow> real" where
  "instant dp s = nullish (finite_val (dp s)) 0"

definition dot_join :: string where "dot_join = '' '' @ middot @ '' ''"

definition deploy_marks :: "(string \<Rightarrow> num) \<Rightarrow> panel_result \<Rightarrow> deploy list \<Rightarrow> deploy_mark list" where
  "deploy_marks dp r ds = map (\<lambda>d. \<lparr>dm_x = instant dp (dy_at d),
      dm_name = dy_service d @ '' '' @ dy_version d,
      dm_tooltip = escapeHTML (join dot_join [dy_service d, dy_version d, dy_at d])\<rparr>)
    (filter (\<lambda>d. in_scope (r_scope r) (dy_namespace d) (dy_service d)
      \<and> after_or_at (r_from_ms r) (dp (dy_at d)) \<and> before_end (r_to_ms r) (dp (dy_at d))) ds)"

section \<open>Anomaly episodes\<close>

record episode =
  ep_from :: real
  ep_to :: real
  ep_labels :: "string list"
  ep_details :: "string list"
  ep_count :: nat

definition an_identity :: "anomaly \<Rightarrow> string" where
  "an_identity a = (if an_namespace a \<noteq> [] then an_namespace a @ ''/'' @ an_service a else an_service a)"

definition an_window :: "anomaly \<Rightarrow> string" where
  "an_window a = an_from a @ '' '' @ en_dash @ '' '' @ an_to a"

definition an_label :: "anomaly \<Rightarrow> string" where
  "an_label a = join dot_join [an_identity a, an_title a @ '' ('' @ an_kind a @ '')'', an_window a]"

definition an_detail :: "anomaly \<Rightarrow> string" where
  "an_detail a = escapeHTML (join dot_join [an_identity a, an_title a, an_severity a, an_kind a, an_window a])"

definition an_start :: "(string \<Rightarrow> num) \<Rightarrow> panel_result \<Rightarrow> anomaly \<Rightarrow> real" where
  "an_start dp r a = (case r_from_ms r of
      None \<Rightarrow> instant dp (an_from a) | Some f \<Rightarrow> max f (instant dp (an_from a)))"

definition an_end :: "(string \<Rightarrow> num) \<Rightarrow> panel_result \<Rightarrow> anomaly \<Rightarrow> real" where
  "an_end dp r a = (case r_to_ms r of
      None \<Rightarrow> instant dp (an_to a) | Some t \<Rightarrow> min t (instant dp (an_to a)))"

definition shown_anomalies :: "(string \<Rightarrow> num) \<Rightarrow> panel_result \<Rightarrow> anomaly list \<Rightarrow> anomaly list" where
  "shown_anomalies dp r as = sort_by (key_le (\<lambda>a. instant dp (an_from a)))
     (filter (\<lambda>a. in_scope (r_scope r) (an_namespace a) (an_service a)
        \<and> after (r_from_ms r) (dp (an_to a)) \<and> before_end (r_to_ms r) (dp (an_from a))) as)"

definition new_episode :: "(string \<Rightarrow> num) \<Rightarrow> panel_result \<Rightarrow> anomaly \<Rightarrow> episode" where
  "new_episode dp r a = \<lparr>ep_from = an_start dp r a, ep_to = an_end dp r a, ep_labels = [an_label a],
     ep_details = [an_detail a], ep_count = 1\<rparr>"

definition extend_episode :: "(string \<Rightarrow> num) \<Rightarrow> panel_result \<Rightarrow> anomaly \<Rightarrow> episode \<Rightarrow> episode" where
  "extend_episode dp r a e = e\<lparr>ep_to := max (ep_to e) (an_end dp r a), ep_count := Suc (ep_count e),
     ep_labels := push_new (ep_labels e) (an_label a), ep_details := push_new (ep_details e) (an_detail a)\<rparr>"

definition episode_step :: "(string \<Rightarrow> num) \<Rightarrow> panel_result \<Rightarrow> episode list \<Rightarrow> anomaly \<Rightarrow> episode list" where
  "episode_step dp r es a = (case last_opt es of
      None \<Rightarrow> es @ [new_episode dp r a]
    | Some e \<Rightarrow> if an_start dp r a \<le> ep_to e then butlast es @ [extend_episode dp r a e]
        else es @ [new_episode dp r a])"

definition episodes :: "(string \<Rightarrow> num) \<Rightarrow> panel_result \<Rightarrow> anomaly list \<Rightarrow> episode list" where
  "episodes dp r as = foldl (episode_step dp r) [] (shown_anomalies dp r as)"

definition episode_tooltip :: "episode \<Rightarrow> string" where
  "episode_tooltip e = (if 1 < ep_count e then show_nat (ep_count e) @ '' windows'' @ [CHR 0x0A] else [])
     @ join [CHR 0x0A] (ep_details e)"

text \<open>
  What the loop keeps, for the anomalies seen so far: the episodes are disjoint and in order,
  each is a real window, every anomaly's window lies within one, and the counts add up.
\<close>

definition episodes_ok :: "(string \<Rightarrow> num) \<Rightarrow> panel_result \<Rightarrow> anomaly list \<Rightarrow> episode list \<Rightarrow> bool" where
  "episodes_ok dp r seen es \<longleftrightarrow>
     sorted_wrt (\<lambda>a b. ep_to a < ep_from b) es \<and> (\<forall>e \<in> set es. ep_from e \<le> ep_to e)
     \<and> (\<forall>a \<in> set seen. \<exists>e \<in> set es. ep_from e \<le> an_start dp r a \<and> an_end dp r a \<le> ep_to e
          \<and> an_label a \<in> set (ep_labels e))
     \<and> sum_list (map ep_count es) = length seen"

lemma episode_step_ok:
  assumes "episodes_ok dp r seen es" "\<forall>b \<in> set seen. an_start dp r b \<le> an_start dp r a"
    and "an_start dp r a \<le> an_end dp r a"
    and starts: "\<forall>e \<in> set es. ep_from e \<in> an_start dp r ` set seen"
  shows "episodes_ok dp r (seen @ [a]) (episode_step dp r es a)
    \<and> (\<forall>e \<in> set (episode_step dp r es a). ep_from e \<in> an_start dp r ` set (seen @ [a]))"
proof (cases "es = [] \<or> \<not> an_start dp r a \<le> ep_to (last es)")
  case True
  then have step: "episode_step dp r es a = es @ [new_episode dp r a]"
    by (auto simp: episode_step_def last_opt_def)
  have "\<forall>e \<in> set es. ep_to e < an_start dp r a"
  proof (cases "es = []")
    case False
    then obtain fs e where es: "es = fs @ [e]" by (metis rev_exhaust)
    with True have e: "ep_to e < an_start dp r a" by auto
    have "ep_to x < ep_from e" if "x \<in> set fs" for x
      using assms(1) that by (auto simp: episodes_ok_def es sorted_wrt_append)
    moreover have "ep_from e \<le> ep_to e" using assms(1) by (simp add: episodes_ok_def es)
    ultimately show ?thesis using e by (fastforce simp: es)
  qed simp
  then show ?thesis
    using assms unfolding step
    by (auto simp: episodes_ok_def sorted_wrt_append new_episode_def)
next
  case False
  then obtain fs e where es: "es = fs @ [e]" by (metis rev_exhaust)
  with False have ov: "an_start dp r a \<le> ep_to e" by auto
  have step: "episode_step dp r es a = fs @ [extend_episode dp r a e]"
    using ov by (simp add: episode_step_def es)
  have ext: "ep_from (extend_episode dp r a e) = ep_from e"
    "ep_to (extend_episode dp r a e) = max (ep_to e) (an_end dp r a)"
    "ep_count (extend_episode dp r a e) = Suc (ep_count e)"
    "set (ep_labels (extend_episode dp r a e)) = insert (an_label a) (set (ep_labels e))"
    by (auto simp: extend_episode_def push_new_def)
  have "ep_from e \<in> an_start dp r ` set seen" using starts by (simp add: es)
  then have "ep_from e \<le> an_start dp r a" using assms(2) by auto
  then show ?thesis
    using assms(1) starts unfolding step
    by (auto simp: episodes_ok_def es sorted_wrt_append ext)
qed

lemma instant_mono_start: "instant dp (an_from b) \<le> instant dp (an_from a) \<Longrightarrow> an_start dp r b \<le> an_start dp r a"
  by (auto simp: an_start_def split: option.splits)

lemma episodes_loop_ok:
  assumes "sorted_wrt (\<lambda>b a. an_start dp r b \<le> an_start dp r a) as"
    and "\<forall>a \<in> set as. an_start dp r a \<le> an_end dp r a"
  shows "episodes_ok dp r as (foldl (episode_step dp r) [] as)
    \<and> (\<forall>e \<in> set (foldl (episode_step dp r) [] as). ep_from e \<in> an_start dp r ` set as)"
  using assms
proof (induction as rule: rev_induct)
  case Nil
  then show ?case by (simp add: episodes_ok_def)
next
  case (snoc a as)
  then have "episodes_ok dp r as (foldl (episode_step dp r) [] as)"
    "\<forall>e \<in> set (foldl (episode_step dp r) [] as). ep_from e \<in> an_start dp r ` set as"
    by (auto simp: sorted_wrt_append)
  from episode_step_ok [OF this(1) _ _ this(2)] snoc.prems show ?case
    by (simp add: sorted_wrt_append)
qed

lemma shown_sorted: "sorted_wrt (\<lambda>b a. an_start dp r b \<le> an_start dp r a) (shown_anomalies dp r as)"
proof -
  have "sorted_wrt (key_le (\<lambda>a. instant dp (an_from a))) (shown_anomalies dp r as)"
    unfolding shown_anomalies_def by (rule key_le.sorted_sort_by)
  then show ?thesis
    by (rule sorted_wrt_mono_rel [rotated]) (simp add: key_le_def instant_mono_start)
qed

lemma shown_window:
  assumes "a \<in> set (shown_anomalies dp r as)" "instant dp (an_from a) \<le> instant dp (an_to a)"
    and "\<And>f t. r_from_ms r = Some f \<Longrightarrow> r_to_ms r = Some t \<Longrightarrow> f \<le> t"
  shows "an_start dp r a \<le> an_end dp r a"
proof -
  have "after (r_from_ms r) (dp (an_to a))" "before_end (r_to_ms r) (dp (an_from a))"
    using assms(1) by (auto simp: shown_anomalies_def)
  with assms(2,3) show ?thesis
    by (auto simp: after_def before_end_def an_start_def an_end_def instant_def
        split: num.splits option.splits)
qed

section \<open>Labels in the annotation row\<close>

record ann_chart =
  ac_series :: nat
  ac_contain :: bool
  ac_left :: "real option"
  ac_right :: "real option"
  ac_top :: "real option"
  ac_bottom :: "real option"
  ac_label_width :: "real option"
  ac_label_margin :: "real option"
  ac_legend_show :: bool
  ac_legend_names :: "string list"
  ac_legend_gap :: "real option"

text \<open>The legend entries that fit in its first row, and their width.\<close>

fun legend_used :: "(string \<Rightarrow> real) \<Rightarrow> real \<Rightarrow> real \<Rightarrow> real \<Rightarrow> string list \<Rightarrow> real" where
  "legend_used measure_text width gap used [] = used"
| "legend_used measure_text width gap used (name # names) =
    (let entry = 15 + measure_text (legend_name name)
     in if used \<noteq> 0 \<and> width < used + gap + entry then used
        else legend_used measure_text width gap (used + (if used \<noteq> 0 then gap else 0) + entry) names)"

definition candidates :: "episode list \<Rightarrow> deploy_mark list \<Rightarrow> (string \<times> string) list" where
  "candidates es ds =
    (if es \<noteq> [] then [(''anomaly'', join ''<br/>'' (map episode_tooltip es))] else [])
    @ map (\<lambda>d. (dm_name d, dm_tooltip d)) (sort_by (key_le dm_x) ds)"

definition label_step :: "(string \<Rightarrow> real) \<Rightarrow> real \<Rightarrow> real \<times> (string \<times> string) list \<Rightarrow> string \<times> string
    \<Rightarrow> real \<times> (string \<times> string) list" where
  "label_step measure_text budget st l = (case st of (occupied, out) \<Rightarrow>
    (let width = measure_text (fst l) + 12
     in if budget < occupied + width then (occupied, out) else (occupied + width, out @ [l])))"

record chip =
  ch_text :: string
  ch_right :: real
  ch_top :: real
  ch_width :: real
  ch_tooltip :: string

definition chip_step :: "(string \<Rightarrow> real) \<Rightarrow> real \<Rightarrow> real \<times> chip list \<Rightarrow> string \<times> string \<Rightarrow> real \<times> chip list" where
  "chip_step measure_text y st l = (case st of (right, out) \<Rightarrow>
    (right + measure_text (fst l) + 12, out @ [\<lparr>ch_text = fst l, ch_right = right, ch_top = y,
       ch_width = measure_text (fst l), ch_tooltip = snd l\<rparr>]))"

record ann_layout =
  al_top :: real
  al_share :: bool
  al_chips :: "chip list"
  al_budget :: real

definition label_row :: "(string \<Rightarrow> real) \<Rightarrow> real \<Rightarrow> ann_chart \<Rightarrow> (string \<times> string) list \<Rightarrow> ann_layout" where
  "label_row measure_text width c cands =
    (let axis_budget = (if ac_contain c then nullish (ac_label_width c) 64 + nullish (ac_label_margin c) 8 else 0);
         left = nullish (ac_left c) 8 + axis_budget;
         right = width - nullish (ac_right c) 16;
         lane = max 1 (right - left);
         used = legend_used measure_text width (nullish (ac_legend_gap c) 6) 0 (ac_legend_names c);
         required = sum_list (map (\<lambda>l. measure_text (fst l) + 12) cands);
         share = (ac_legend_show c \<and> required \<le> width - 16 - used - 12);
         budget = (if share then width - 16 - used - 12 else lane);
         labels = snd (foldl (label_step measure_text budget) (0, []) cands);
         top = nullish (ac_top c) 8 + (if labels \<noteq> [] \<and> \<not> share then 18 else 0);
         band_top = (if share then 1 else top - 17);
         offset = (if share then 16 else nullish (ac_right c) 16)
     in \<lparr>al_top = top, al_share = share,
         al_chips = snd (foldl (chip_step measure_text band_top) (offset, []) labels), al_budget = budget\<rparr>)"

lemma label_step_pair: "label_step m budget (occ, out) l = (if budget < occ + (m (fst l) + 12)
    then (occ, out) else (occ + (m (fst l) + 12), out @ [l]))"
  by (simp add: label_step_def Let_def)

lemma chip_step_pair: "chip_step m y (right, out) l = (right + m (fst l) + 12,
    out @ [\<lparr>ch_text = fst l, ch_right = right, ch_top = y, ch_width = m (fst l), ch_tooltip = snd l\<rparr>])"
  by (simp add: chip_step_def)

text \<open>Chips side by side: each ends twelve pixels before the next begins.\<close>

lemma chips_layout:
  "foldl (chip_step m y) (right, out) ls = (right', out') \<Longrightarrow>
    \<exists>new. out' = out @ new \<and> map ch_text new = map fst ls
      \<and> sorted_wrt (\<lambda>a b. ch_right a + ch_width a + 12 \<le> ch_right b) new
      \<and> (\<forall>c \<in> set new. right \<le> ch_right c \<and> ch_right c + ch_width c + 12 \<le> right')
      \<and> right' = right + sum_list (map (\<lambda>l. m (fst l) + 12) ls)"
  if "\<And>t. 0 \<le> m t" for m
proof (induction ls arbitrary: right out)
  case (Cons l ls)
  let ?c = "\<lparr>ch_text = fst l, ch_right = right, ch_top = y, ch_width = m (fst l), ch_tooltip = snd l\<rparr>"
  have "foldl (chip_step m y) (right + m (fst l) + 12, out @ [?c]) ls = (right', out')"
    using Cons.prems by (simp add: chip_step_pair)
  from Cons.IH [OF this] obtain new where new: "out' = out @ [?c] @ new" "map ch_text new = map fst ls"
      "sorted_wrt (\<lambda>a b. ch_right a + ch_width a + 12 \<le> ch_right b) new"
      "\<forall>c \<in> set new. right + m (fst l) + 12 \<le> ch_right c \<and> ch_right c + ch_width c + 12 \<le> right'"
      "right' = right + m (fst l) + 12 + sum_list (map (\<lambda>l. m (fst l) + 12) ls)" by auto
  have "0 \<le> sum_list (map (\<lambda>l. m (fst l) + 12) ls)"
    by (intro sum_list_nonneg) (auto simp: that add_nonneg_nonneg)
  with new that [of "fst l"] show ?case
    by (intro exI [of _ "?c # new"]) fastforce
qed simp

lemma chip_widths:
  "foldl (chip_step m y) (right, out) ls = (right', out') \<Longrightarrow>
    map (\<lambda>x. ch_width x + 12) out' = map (\<lambda>x. ch_width x + 12) out @ map (\<lambda>l. m (fst l) + 12) ls"
  by (induction ls arbitrary: right out) (auto simp: chip_step_pair)

lemma label_steps_budget:
  "foldl (label_step m budget) (occ, out) ls = (occ', out') \<Longrightarrow> occ \<le> budget \<Longrightarrow>
    occ' \<le> budget \<and> (\<exists>new. out' = out @ new \<and> occ' = occ + sum_list (map (\<lambda>l. m (fst l) + 12) new))"
proof (induction ls arbitrary: occ out)
  case (Cons l ls)
  show ?case
  proof (cases "budget < occ + (m (fst l) + 12)")
    case True
    with Cons show ?thesis by (simp add: label_step_pair)
  next
    case False
    with Cons.prems have "foldl (label_step m budget) (occ + (m (fst l) + 12), out @ [l]) ls = (occ', out')"
      by (simp add: label_step_pair)
    from Cons.IH [OF this] False show ?thesis by (force simp: add.assoc)
  qed
qed simp

section \<open>Axes after the row (adaptValueAxis)\<close>

definition adaptValueAxis :: "ts_axis \<Rightarrow> real \<Rightarrow> ts_axis" where
  "adaptValueAxis a pixels = (case ta_bounds a of
      None \<Rightarrow> a\<lparr>ta_split := valueAxisTicks pixels\<rparr>
    | Some b \<Rightarrow> (let next = valueAxis (Fin (ax_min b)) (Fin (ax_max b)) (ax_unit b) pixels
        in a\<lparr>ta_bounds := Some next, ta_split := ax_split next\<rparr>))"

lemma adaptValueAxis_covers:
  assumes "ta_bounds a = Some b" "ta_bounds (adaptValueAxis a pixels) = Some b'"
  shows "ax_min b' \<le> ax_min b \<and> ax_max b \<le> ax_max b'"
  using valueAxis_covers [OF refl, of "Fin (ax_min b)" "Fin (ax_max b)" "ax_unit b" pixels] assms
  by (auto simp: adaptValueAxis_def Let_def)

section \<open>The annotated chart (withAnnotations)\<close>

record annotated =
  at_deploys :: "deploy_mark list"
  at_areas :: "(real \<times> real \<times> string) list"
  at_layout :: ann_layout
  at_axes :: "ts_axis list"
  at_rows :: "string list"
  at_hidden :: "(nat \<times> string list) option"

text \<open>
  Rows of a state timeline that no longer fit: the first ones stay, the rest join those hidden
  before.
\<close>

definition trim_rows :: "real \<Rightarrow> real \<Rightarrow> real \<Rightarrow> nat \<Rightarrow> string list \<Rightarrow> string list \<times> (nat \<times> string list) option" where
  "trim_rows height y bottom old names =
    (let capacity = nat (max 1 \<lfloor>(height - y - bottom - 22) / 16\<rfloor>)
     in if capacity < length names
        then (take capacity names, Some (length names - capacity + old, drop capacity names))
        else (names, None))"

definition withAnnotations :: "(string \<Rightarrow> num) \<Rightarrow> (string \<Rightarrow> real) \<Rightarrow> real \<Rightarrow> real \<Rightarrow> ann_chart \<Rightarrow> ts_axis list
    \<Rightarrow> string list \<Rightarrow> nat \<Rightarrow> panel \<Rightarrow> panel_result \<Rightarrow> annotations \<Rightarrow> annotated option" where
  "withAnnotations dp measure_text width height c axes names old p r ann =
    (if \<not> (p_viz p = Timeseries \<or> p_viz p = Heatmap \<or> p_viz p = StateTimeline) then None
     else if non_empty (r_annotation_error r) \<noteq> None then None
     else (let ds = deploy_marks dp r (as_deploys ann); es = episodes dp r (as_anomalies ann)
       in if ac_series c = 0 then None
          else (let lay = label_row measure_text width c (candidates es ds);
                    bottom = nullish (ac_bottom c) 8;
                    (rows, hidden) = (if p_viz p = StateTimeline
                      then trim_rows height (al_top lay) bottom old names else (names, None))
            in Some \<lparr>at_deploys = ds,
                 at_areas = map (\<lambda>e. (ep_from e, ep_to e, join dot_join (ep_labels e))) es,
                 at_layout = lay,
                 at_axes = map (\<lambda>a. adaptValueAxis a (height - al_top lay - bottom - 22)) axes,
                 at_rows = rows, at_hidden = hidden\<rparr>)))"

section \<open>Properties\<close>

text \<open>
  The anomaly areas of a chart are disjoint, in time order and never empty, so
  their shading does not stack; every anomaly in scope lies within one of them with its own
  label, clipped to the panel window, and the window counts add up to the anomalies shown.
\<close>

theorem episodes_are_disjoint_unions:
  assumes "\<forall>a \<in> set as. instant dp (an_from a) \<le> instant dp (an_to a)"
    and "\<forall>f t. r_from_ms r = Some f \<longrightarrow> r_to_ms r = Some t \<longrightarrow> f \<le> t"
  shows "episodes_ok dp r (shown_anomalies dp r as) (episodes dp r as)"
proof -
  have "\<forall>a \<in> set (shown_anomalies dp r as). an_start dp r a \<le> an_end dp r a"
    using assms by (auto intro!: shown_window) (auto simp: shown_anomalies_def)
  from episodes_loop_ok [OF shown_sorted this] show ?thesis by (simp add: episodes_def)
qed

definition demo_anomaly :: "string \<Rightarrow> string \<Rightarrow> anomaly" where
  "demo_anomaly a b = \<lparr>an_namespace = [], an_service = ''api'', an_kind = ''latency'', an_from = a,
     an_to = b, an_title = ''Slow'', an_severity = ''warn''\<rparr>"

definition demo_clock :: "string \<Rightarrow> num" where
  "demo_clock s = Fin (real (length s))"

theorem episodes_are_disjoint_unions_witness:
  "episodes_ok demo_clock demo_ts_result
     (shown_anomalies demo_clock demo_ts_result [demo_anomaly ''bb'' ''dddd'', demo_anomaly ''a'' ''ccc''])
     (episodes demo_clock demo_ts_result [demo_anomaly ''bb'' ''dddd'', demo_anomaly ''a'' ''ccc''])"
  by (rule episodes_are_disjoint_unions)
    (simp_all add: demo_anomaly_def demo_ts_result_def instant_def demo_clock_def)

text \<open>
  The labels of the annotation row never overlap and fit the width that is free:
  each chip ends before the next begins, and together with their padding they take no more
  than the budget.
\<close>

theorem annotation_chips_fit:
  assumes "\<forall>t. 0 \<le> m t" "0 \<le> al_budget (label_row m width c cands)"
  shows "sorted_wrt (\<lambda>a b. ch_right a + ch_width a + 12 \<le> ch_right b) (al_chips (label_row m width c cands))
    \<and> sum_list (map (\<lambda>x. ch_width x + 12) (al_chips (label_row m width c cands)))
        \<le> al_budget (label_row m width c cands)"
proof -
  define budget where "budget = al_budget (label_row m width c cands)"
  obtain occ labels where l: "foldl (label_step m budget) (0, []) cands = (occ, labels)" by fastforce
  obtain y0 offset where "al_chips (label_row m width c cands)
      = snd (foldl (chip_step m y0) (offset, []) (snd (foldl (label_step m budget) (0, []) cands)))"
    unfolding label_row_def Let_def budget_def by (simp only: ann_layout.simps)
  then have chips: "al_chips (label_row m width c cands) = snd (foldl (chip_step m y0) (offset, []) labels)"
    by (simp add: l)
  obtain right out where c: "foldl (chip_step m y0) (offset, []) labels = (right, out)" by fastforce
  have m: "\<And>t. 0 \<le> m t" using assms(1) by blast
  from chips_layout [OF m c] have out: "sorted_wrt (\<lambda>a b. ch_right a + ch_width a + 12 \<le> ch_right b) out"
    by auto
  have "0 \<le> budget" using assms(2) by (simp add: budget_def)
  from label_steps_budget [OF l this] have b: "sum_list (map (\<lambda>l. m (fst l) + 12) labels) \<le> budget" by auto
  have "map (\<lambda>x. ch_width x + 12) out = map (\<lambda>l. m (fst l) + 12) labels"
    using chip_widths [OF c] by simp
  with out b show ?thesis by (simp add: chips c budget_def)
qed

definition demo_chart :: ann_chart where
  "demo_chart = \<lparr>ac_series = 1, ac_contain = False, ac_left = None, ac_right = None, ac_top = None,
     ac_bottom = None, ac_label_width = None, ac_label_margin = None, ac_legend_show = False,
     ac_legend_names = [], ac_legend_gap = None\<rparr>"

theorem annotation_chips_fit_witness:
  "sum_list (map (\<lambda>x. ch_width x + 12) (al_chips (label_row (\<lambda>t. real (length t)) 300 demo_chart
      [(''api v1'', ''t''), (''web v2'', ''u'')]))) \<le> 276"
proof -
  have b: "al_budget (label_row (\<lambda>t. real (length t)) 300 demo_chart [(''api v1'', ''t''), (''web v2'', ''u'')]) = 276"
    by (simp add: label_row_def demo_chart_def Let_def)
  show ?thesis
    using annotation_chips_fit [of "\<lambda>t. real (length t)" 300 demo_chart "[(''api v1'', ''t''), (''web v2'', ''u'')]"]
    by (simp add: b)
qed

end
