(* ===== verification/Analysis.thy ===== *)
theory Analysis
  imports Chart_Options Rollups Drill
begin

text \<open>
  ui/panels/analysis.ts: scatter plots, histograms, heat maps and state timelines compiled
  from the rows of a frame. Rows hold finite numbers, strings and null (Frames); the options
  are records of what is computed, as in Chart_Options.
\<close>

section \<open>Buckets\<close>

text \<open>\<open>spanMs\<close> reads an interval as \<open>interval_ms\<close> of Drill does.\<close>

definition spanMs :: "string option \<Rightarrow> real" where
  "spanMs = interval_ms"

definition finite_num :: "row \<Rightarrow> string \<Rightarrow> real option" where
  "finite_num r k = (case map_of r k of Some (CNum n) \<Rightarrow> finite_val n | _ \<Rightarrow> None)"

definition bucketLabel :: "intl \<Rightarrow> row \<Rightarrow> string option \<Rightarrow> string" where
  "bucketLabel il r unit = formatBucket il (finite_num r ''bucket_lower'') (finite_num r ''bucket_upper'') unit"

text \<open>\<open>`${row.bucket_lower}:${row.bucket_upper}`\<close>\<close>

definition cell_text :: "(num \<Rightarrow> string) \<Rightarrow> cell option \<Rightarrow> string" where
  "cell_text sn c = (case c of None \<Rightarrow> ''undefined'' | Some CNull \<Rightarrow> ''null''
     | Some (CStr s) \<Rightarrow> s | Some (CNum n) \<Rightarrow> sn n)"

definition bucketKey :: "(num \<Rightarrow> string) \<Rightarrow> row \<Rightarrow> string" where
  "bucketKey sn r = cell_text sn (map_of r ''bucket_lower'') @ '':'' @ cell_text sn (map_of r ''bucket_upper'')"

definition bucketSelection :: "row option \<Rightarrow> bucket option" where
  "bucketSelection r = Option.bind r (\<lambda>r. map_option
     (\<lambda>l. \<lparr>bk_lower = l, bk_upper = finite_num r ''bucket_upper''\<rparr>) (finite_num r ''bucket_lower''))"

definition heatCountLabel :: "intl \<Rightarrow> (num \<Rightarrow> string) \<Rightarrow> real \<Rightarrow> string" where
  "heatCountLabel il sn n =
    (if 1000 \<le> n \<and> n < 1000000 \<and> of_int \<lfloor>n / 1000\<rfloor> * 1000 = n then sn (Fin (n / 1000)) @ ''k''
     else formatValue il (Some ''count'') (Some (Fin n)))"

text \<open>
  The order of buckets by lower and then upper bound; null is an open bound. A difference that
  is zero or not a number falls through to the upper bounds.
\<close>

definition bound_of :: "(num \<Rightarrow> string) \<Rightarrow> (string \<Rightarrow> num) \<Rightarrow> num \<Rightarrow> cell option \<Rightarrow> num" where
  "bound_of sn pn open_bound c = (case c of None \<Rightarrow> NaN | Some CNull \<Rightarrow> open_bound
     | Some (CNum n) \<Rightarrow> n | Some (CStr s) \<Rightarrow> pn s)"

definition compareBuckets :: "(num \<Rightarrow> string) \<Rightarrow> (string \<Rightarrow> num) \<Rightarrow> row \<Rightarrow> row \<Rightarrow> num" where
  "compareBuckets sn pn a b =
    (let lower = num_sub (bound_of sn pn NInf (map_of a ''bucket_lower'')) (bound_of sn pn NInf (map_of b ''bucket_lower''))
     in if lower = Fin 0 \<or> lower = NaN
        then num_sub (bound_of sn pn PInf (map_of a ''bucket_upper'')) (bound_of sn pn PInf (map_of b ''bucket_upper''))
        else lower)"

definition bucket_le :: "(num \<Rightarrow> string) \<Rightarrow> (string \<Rightarrow> num) \<Rightarrow> row \<Rightarrow> row \<Rightarrow> bool" where
  "bucket_le sn pn a b = (case compareBuckets sn pn a b of Fin x \<Rightarrow> x \<le> 0 | PInf \<Rightarrow> False | _ \<Rightarrow> True)"

definition analysisSummary :: "casing \<Rightarrow> panel \<Rightarrow> panel_result \<Rightarrow> string" where
  "analysisSummary cs p r = p_title p @ '': '' @ show_nat (case r_frame r of None \<Rightarrow> 0 | Some f \<Rightarrow> f_rows f)
     @ '' rows; '' @ join '', '' (map (\<lambda>c. displayLabel cs (Inl c) (Some p))
         (case r_frame r of None \<Rightarrow> [] | Some f \<Rightarrow> f_columns f))
     @ (if (case r_frame r of None \<Rightarrow> False | Some f \<Rightarrow> f_truncated f) then '', limited data'' else [])"

section \<open>State runs (mergeStateRuns)\<close>

record state_bucket =
  sb_start :: real
  sb_row :: nat
  sb_value :: cell
  sb_end :: real
  sb_state :: nat
  sb_from :: string
  sb_to :: string
  sb_dims :: "(string, string) omap"

definition state_le :: "state_bucket \<Rightarrow> state_bucket \<Rightarrow> bool" where
  "state_le a b \<longleftrightarrow> sb_row a < sb_row b \<or> sb_row a = sb_row b \<and> sb_start a \<le> sb_start b"

interpretation state_le: comparator state_le
  by unfold_locales (auto simp: state_le_def)

definition touches :: "state_bucket \<Rightarrow> state_bucket \<Rightarrow> bool" where
  "touches a b \<longleftrightarrow> sb_row a = sb_row b \<and> sb_state a = sb_state b \<and> sb_end a = sb_start b"

definition run_step :: "state_bucket list \<Rightarrow> state_bucket \<Rightarrow> state_bucket list" where
  "run_step runs b = (case last_opt runs of
      Some l \<Rightarrow> if touches l b then butlast runs @ [l\<lparr>sb_end := sb_end b, sb_to := sb_to b\<rparr>] else runs @ [b]
    | None \<Rightarrow> runs @ [b])"

definition mergeStateRuns :: "state_bucket list \<Rightarrow> state_bucket list" where
  "mergeStateRuns buckets = foldl run_step [] (sort_by state_le buckets)"

text \<open>The time a row spends in a state.\<close>

definition state_time :: "nat \<Rightarrow> nat \<Rightarrow> state_bucket list \<Rightarrow> real" where
  "state_time row st bs = sum_list (map (\<lambda>b. sb_end b - sb_start b)
     (filter (\<lambda>b. sb_row b = row \<and> sb_state b = st) bs))"

lemma state_time_append: "state_time row st (as @ bs) = state_time row st as + state_time row st bs"
  and state_time_Cons: "state_time row st (b # bs)
    = (if sb_row b = row \<and> sb_state b = st then sb_end b - sb_start b else 0) + state_time row st bs"
  and state_time_Nil: "state_time row st [] = 0"
  by (simp_all add: state_time_def)

lemmas state_time_simps = state_time_append state_time_Cons state_time_Nil

lemma run_step_time: "state_time row st (run_step runs b) = state_time row st runs + state_time row st [b]"
proof (cases "runs = []")
  case False
  then obtain rs l where runs: "runs = rs @ [l]" by (metis rev_exhaust)
  show ?thesis
  proof (cases "touches l b")
    case True
    then have "sb_row l = sb_row b" "sb_state l = sb_state b" "sb_end l = sb_start b"
      by (simp_all add: touches_def)
    moreover have "run_step runs b = rs @ [l\<lparr>sb_end := sb_end b, sb_to := sb_to b\<rparr>]"
      using True by (simp add: runs run_step_def)
    ultimately show ?thesis by (simp add: runs state_time_simps)
  qed (simp add: runs run_step_def state_time_simps)
qed (simp add: run_step_def state_time_simps)

lemma runs_time: "state_time row st (foldl run_step runs bs) = state_time row st runs + state_time row st bs"
proof (induction bs arbitrary: runs)
  case (Cons b bs)
  have "state_time row st (b # bs) = state_time row st [b] + state_time row st bs"
    using state_time_append [of row st "[b]" bs] by simp
  with Cons show ?case by (simp add: run_step_time)
qed (simp add: state_time_Nil)

lemma state_time_mset: "mset as = mset bs \<Longrightarrow> state_time row st as = state_time row st bs"
  by (simp add: state_time_def sum_mset_sum_list [symmetric])

text \<open>Neighbouring runs never touch.\<close>

fun separate :: "state_bucket list \<Rightarrow> bool" where
  "separate (a # b # rs) \<longleftrightarrow> \<not> touches a b \<and> separate (b # rs)"
| "separate _ = True"

lemma separate_snoc: "separate (rs @ [l, b]) \<longleftrightarrow> separate (rs @ [l]) \<and> \<not> touches l b"
  by (induction rs rule: separate.induct) auto

lemma separate_end: "separate (rs @ [l]) = separate (rs @ [l\<lparr>sb_end := e, sb_to := t\<rparr>])"
  by (induction rs rule: separate.induct) (simp_all add: touches_def)

lemma runs_separate: "separate runs \<Longrightarrow> separate (foldl run_step runs bs)"
proof (induction bs arbitrary: runs)
  case (Cons b bs)
  have "separate (run_step runs b)"
  proof (cases "runs = []")
    case False
    then obtain rs l where runs: "runs = rs @ [l]" by (metis rev_exhaust)
    with Cons.prems show ?thesis
      using separate_end [of rs l] by (simp add: run_step_def separate_snoc)
  qed (simp add: run_step_def)
  with Cons.IH show ?case by simp
qed simp

section \<open>Histograms\<close>

definition split_column :: "frame \<Rightarrow> string option" where
  "split_column f = find (\<lambda>n. n \<noteq> ''bucket_lower'' \<and> n \<noteq> ''bucket_upper'')
     (map c_name (filter (\<lambda>c. c_role c = RDimension) (f_columns f)))"

definition row_text :: "(num \<Rightarrow> string) \<Rightarrow> row \<Rightarrow> string \<Rightarrow> string" where
  "row_text sn r k = cell_str sn (map_of r k)"

definition split_name :: "(num \<Rightarrow> string) \<Rightarrow> string option \<Rightarrow> row \<Rightarrow> string" where
  "split_name sn split r = (case split of Some k \<Rightarrow> row_text sn r k | None \<Rightarrow> ''Count'')"

definition hist_groups :: "(num \<Rightarrow> string) \<Rightarrow> string option \<Rightarrow> row list \<Rightarrow> panel \<Rightarrow> (string \<times> string list) list" where
  "hist_groups sn split rows p = seriesGroups (\<lambda>n. n) (uniq (map (split_name sn split) rows)) p"

text \<open>One row per bucket: a later row of a bucket replaces an earlier one in its place.\<close>

definition hist_buckets :: "(num \<Rightarrow> string) \<Rightarrow> (string \<Rightarrow> num) \<Rightarrow> row list \<Rightarrow> row list" where
  "hist_buckets sn pn rows = map_vals (from_entries
     (map (\<lambda>r. (bucketKey sn r, r)) (sort_by (bucket_le sn pn) rows)))"

definition hist_matches :: "(num \<Rightarrow> string) \<Rightarrow> string option \<Rightarrow> row list \<Rightarrow> string list \<Rightarrow> row \<Rightarrow> row list" where
  "hist_matches sn split rows items b = filter (\<lambda>r.
     (case split of None \<Rightarrow> True | Some k \<Rightarrow> row_text sn r k \<in> set items) \<and> bucketKey sn r = bucketKey sn b) rows"

record bar_datum =
  hb_value :: real
  hb_dimensions :: "(string, string) omap"
  hb_bucket :: "bucket option"

definition hist_bar :: "(num \<Rightarrow> string) \<Rightarrow> panel \<Rightarrow> string option \<Rightarrow> row list \<Rightarrow> string \<times> string list \<Rightarrow> row \<Rightarrow> bar_datum" where
  "hist_bar sn p split rows g b =
    (let matches = hist_matches sn split rows (snd g) b
     in \<lparr>hb_value = nullish (sumPresent (map (\<lambda>r. finite_num r ''count'') matches)) 0,
         hb_dimensions = (case split of None \<Rightarrow> []
           | Some k \<Rightarrow> [(nullish (Option.bind (p_query p) (\<lambda>q. head_opt (q_by q))) k, fst g)]),
         hb_bucket = bucketSelection (head_opt matches)\<rparr>)"

record hist_option =
  ho_labels :: "string list"
  ho_series :: "(string \<times> mark_style \<times> bar_datum list) list"
  ho_axis :: value_axis
  ho_legend :: legend_layout

definition histogramOption :: "runtime \<Rightarrow> panel \<Rightarrow> panel_result \<Rightarrow> chart_theme \<Rightarrow> chart_size \<Rightarrow> hist_option" where
  "histogramOption rt p r th cz =
    (let f = nullish (r_frame r) empty_frame; rows = frameRows f; sn = rt_show rt;
         split = split_column f;
         buckets = hist_buckets sn (rt_read rt) rows;
         unit = or_else (p_unit p) (Option.bind (find (\<lambda>c. c_name c = ''bucket_lower'') (f_columns f)) c_unit);
         groups = hist_groups sn split rows p;
         legend = wrappingLegend (cz_measure12 cz) (map fst groups) (cz_width cz)
           (1 < length groups \<and> \<not> legend_hidden p);
         series = map (\<lambda>i. (fst (groups ! i), markStyle (colorFor (fst (groups ! i)) i th) th,
           map (hist_bar sn p split rows (groups ! i)) buckets)) [0..<length groups];
         top = (if ll_show legend then ll_top legend + 20 else 28)
     in \<lparr>ho_labels = map (\<lambda>b. bucketLabel (rt_intl rt) b unit) buckets, ho_series = series,
         ho_axis = valueAxis (Fin 0) (Fin (max_of 0 (concat (map (\<lambda>(_, _, bars). map hb_value bars) series))))
           (Some ''count'') (cz_height cz - top - 30),
         ho_legend = legend\<rparr>)"

text \<open>Every row is counted in one bar: that of its bucket in the group of its split value.\<close>

definition row_count :: "row \<Rightarrow> real" where
  "row_count r = nullish (finite_num r ''count'') 0"

lemma sumPresent_rows: "nullish (sumPresent (map (\<lambda>r. finite_num r ''count'') rs)) 0 = sum_list (map row_count rs)"
proof -
  have "sum_list (present (map (\<lambda>r. finite_num r ''count'') rs)) = sum_list (map row_count rs)"
  proof (induction rs)
    case (Cons r rs)
    then show ?case by (cases "finite_num r ''count''") (simp_all add: row_count_def)
  qed simp
  then show ?thesis by (auto simp: sumPresent_def)
qed

lemma sum_filter_partition:
  assumes "distinct keys" "\<And>r. r \<in> set rs \<Longrightarrow> f r \<in> set keys"
  shows "sum_list (map (\<lambda>k. sum_list (map w (filter (\<lambda>r. f r = k) rs))) keys) = sum_list (map w rs :: real list)"
  using assms(2)
proof (induction rs)
  case (Cons r rs)
  have "sum_list (map (\<lambda>k. sum_list (map w (filter (\<lambda>x. f x = k) (r # rs)))) ks)
    = (if f r \<in> set ks then w r else 0) + sum_list (map (\<lambda>k. sum_list (map w (filter (\<lambda>x. f x = k) rs))) ks)"
    if "distinct ks" for ks
    using that by (induction ks) (auto simp: add.assoc)
  from this [OF assms(1)] Cons show ?case by simp
qed simp

lemma sum_filter_sets:
  assumes "distinct (concat gs)"
  shows "sum_list (map (\<lambda>g. sum_list (map w (filter (\<lambda>r. f r \<in> set g) rs))) gs)
    = sum_list (map w (filter (\<lambda>r. f r \<in> set (concat gs)) rs) :: real list)"
  using assms
proof (induction gs)
  case (Cons g gs)
  have "sum_list (map w (filter (\<lambda>r. f r \<in> set g \<or> f r \<in> set (concat gs)) rs))
    = sum_list (map w (filter (\<lambda>r. f r \<in> set g) rs)) + sum_list (map w (filter (\<lambda>r. f r \<in> set (concat gs)) rs))"
  proof (induction rs)
    case (Cons r rs)
    have "\<not> (f r \<in> set g \<and> f r \<in> set (concat gs))" using Cons.prems \<open>distinct (concat (g # gs))\<close> by auto
    with Cons show ?case by auto
  qed simp
  with Cons show ?case by simp
qed simp

lemma hist_bucket_keys: "map (bucketKey sn) (hist_buckets sn pn rows)
    = uniq (map (bucketKey sn) (sort_by (bucket_le sn pn) rows))"
proof -
  let ?es = "map (\<lambda>r. (bucketKey sn r, r)) (sort_by (bucket_le sn pn) rows)"
  have "bucketKey sn v = k" if "(k, v) \<in> set (from_entries ?es)" for k v
  proof -
    have "map_of (from_entries ?es) k = Some v"
      using that from_entries_ok [of ?es] by (simp add: map_ok_def)
    then have "(k, v) \<in> set ?es" by (auto simp: get_from_entries dest!: map_of_SomeD)
    then show ?thesis by auto
  qed
  then have "map (bucketKey sn) (hist_buckets sn pn rows) = map_keys (from_entries ?es)"
    by (auto simp: hist_buckets_def map_vals_def map_keys_def)
  then show ?thesis by (simp add: keys_from_entries comp_def)
qed

lemma sum_hist_buckets:
  "sum_list (map (\<lambda>b. sum_list (map w (filter (\<lambda>r. bucketKey sn r = bucketKey sn b) (filter P rows))))
     (hist_buckets sn pn rows)) = sum_list (map w (filter P rows) :: real list)"
proof -
  have "sum_list (map (\<lambda>k. sum_list (map w (filter (\<lambda>r. bucketKey sn r = k) (filter P rows))))
      (map (bucketKey sn) (hist_buckets sn pn rows))) = sum_list (map w (filter P rows))"
    unfolding hist_bucket_keys by (rule sum_filter_partition) auto
  then show ?thesis by (simp add: comp_def)
qed

lemma hist_bar_value:
  "hb_value (hist_bar sn p split rows g b) = sum_list (map row_count
     (filter (\<lambda>r. bucketKey sn r = bucketKey sn b)
       (filter (\<lambda>r. case split of None \<Rightarrow> True | Some k \<Rightarrow> row_text sn r k \<in> set (snd g)) rows)))"
  by (simp add: hist_bar_def Let_def hist_matches_def sumPresent_rows conj_commute)

lemma hist_series_total:
  "sum_list (map hb_value (map (hist_bar sn p split rows g) (hist_buckets sn pn rows)))
    = sum_list (map row_count
        (filter (\<lambda>r. case split of None \<Rightarrow> True | Some k \<Rightarrow> row_text sn r k \<in> set (snd g)) rows))"
  by (simp only: map_map comp_def hist_bar_value sum_hist_buckets)

lemma hist_groups_items:
  "distinct (concat (map snd (hist_groups sn split rows p)))"
  "set (concat (map snd (hist_groups sn split rows p))) = split_name sn split ` set rows"
proof -
  let ?names = "uniq (map (split_name sn split) rows)"
  have m: "mset (concat (map snd (hist_groups sn split rows p))) = mset ?names"
    unfolding hist_groups_def by (rule seriesGroups_mset)
  then show "distinct (concat (map snd (hist_groups sn split rows p)))"
    by (metis distinct_uniq mset_eq_imp_distinct_iff)
  from m show "set (concat (map snd (hist_groups sn split rows p))) = split_name sn split ` set rows"
    by (metis mset_eq_setD set_map set_uniq)
qed

lemma hist_total:
  assumes "split = None \<Longrightarrow> rows \<noteq> [] \<Longrightarrow> length (hist_groups sn None rows p) = 1"
  shows "sum_list (map (\<lambda>g. sum_list (map hb_value (map (hist_bar sn p split rows g) (hist_buckets sn pn rows))))
     (hist_groups sn split rows p)) = sum_list (map row_count rows)"
proof (cases split)
  case None
  then show ?thesis
  proof (cases "rows = []")
    case False
    then obtain g where "hist_groups sn None rows p = [g]" using assms None by (auto simp: length_Suc_conv)
    with None show ?thesis by (simp add: hist_series_total del: map_map)
  qed (simp add: hist_buckets_def from_entries_def map_vals_def sort_by_def)
next
  case (Some k)
  let ?gs = "map snd (hist_groups sn split rows p)"
  have "sum_list (map (\<lambda>g. sum_list (map row_count (filter (\<lambda>r. row_text sn r k \<in> set g) rows))) ?gs)
    = sum_list (map row_count (filter (\<lambda>r. row_text sn r k \<in> set (concat ?gs)) rows))"
    by (rule sum_filter_sets) (rule hist_groups_items)
  also have "filter (\<lambda>r. row_text sn r k \<in> set (concat ?gs)) rows = rows"
    by (rule filter_True) (use hist_groups_items(2) [of sn split rows p] Some in
      \<open>auto simp: split_name_def simp del: set_concat\<close>)
  finally show ?thesis by (simp add: Some hist_series_total comp_def del: map_map) (simp add: comp_def)
qed

lemma hist_groups_single: "rows \<noteq> [] \<Longrightarrow> length (hist_groups sn None rows p) = 1"
proof -
  assume "rows \<noteq> []"
  have "uniq (map (\<lambda>_. ''Count'') rows) = [''Count'']"
    using \<open>rows \<noteq> []\<close>
  proof (induction rows)
    case (Cons r rows)
    then show ?case by (cases rows) simp_all
  qed simp
  moreover have "\<not> isOtherSeries (Some ''Count'')" by (simp add: isOtherSeries_def starts_with_def)
  moreover have "split_name sn None = (\<lambda>_. ''Count'')" by (simp add: split_name_def fun_eq_iff)
  ultimately show ?thesis
    using series_limit_bounds(1) [of p]
    by (simp add: hist_groups_def seriesGroups_def Let_def)
qed

section \<open>Scatter plots\<close>

record plot_axis =
  pa_log :: bool
  pa_bounds :: "value_axis option"
  pa_split :: nat
  pa_name :: string

record scatter_point =
  sp_name :: string
  sp_x :: real
  sp_y :: real
  sp_dimensions :: "(string, string) omap"

record scatter_option =
  so_legend :: legend_layout
  so_top :: real
  so_x :: plot_axis
  so_y :: plot_axis
  so_series :: "(string \<times> mark_style \<times> scatter_point list) list"

text \<open>\<open>String(row[name] ?? "")\<close> and the number under a name, where the name may be missing.\<close>

definition opt_text :: "(num \<Rightarrow> string) \<Rightarrow> row \<Rightarrow> string option \<Rightarrow> string" where
  "opt_text sn r k = (case k of Some k \<Rightarrow> row_text sn r k | None \<Rightarrow> [])"

definition opt_num :: "row \<Rightarrow> string option \<Rightarrow> real option" where
  "opt_num r k = Option.bind k (finite_num r)"

definition measure_label :: "casing \<Rightarrow> panel \<Rightarrow> column option \<Rightarrow> string option \<Rightarrow> string \<Rightarrow> string" where
  "measure_label cs p m unit fallback = displayLabel cs
     (case m of Some c \<Rightarrow> Inl (c\<lparr>c_unit := unit\<rparr>) | None \<Rightarrow> Inr fallback) (Some p)"

definition scatter_axis :: "row list \<Rightarrow> string option \<Rightarrow> bool \<Rightarrow> string option \<Rightarrow> real \<Rightarrow> string \<Rightarrow> plot_axis" where
  "scatter_axis rows unit is_log m pixels name =
    (let xs = present (map (\<lambda>r. opt_num r m) rows);
         bounds = (if is_log then None
           else Some (valueAxis (Fin (min_of 0 xs)) (Fin (max_of 0 xs)) unit pixels))
     in \<lparr>pa_log = is_log, pa_bounds = bounds,
         pa_split = (case bounds of Some b \<Rightarrow> ax_split b | None \<Rightarrow> valueAxisTicks pixels), pa_name = name\<rparr>)"

definition scatter_point_of :: "(num \<Rightarrow> string) \<Rightarrow> panel \<Rightarrow> string list \<Rightarrow> string option \<Rightarrow> string option \<Rightarrow> row \<Rightarrow> scatter_point" where
  "scatter_point_of sn p dims mx my r =
    \<lparr>sp_name = opt_text sn r (nth_opt dims 0), sp_x = nullish (opt_num r mx) 0, sp_y = nullish (opt_num r my) 0,
     sp_dimensions = from_entries (map (\<lambda>i. ((case p_query p of None \<Rightarrow> [] | Some q \<Rightarrow> q_by q) ! i,
         opt_text sn r (nth_opt dims i)))
       [0..<length (case p_query p of None \<Rightarrow> [] | Some q \<Rightarrow> q_by q)])\<rparr>"

text \<open>A row is drawn where both values are numbers, and positive on a logarithmic axis.\<close>

definition drawn :: "bool \<Rightarrow> bool \<Rightarrow> string option \<Rightarrow> string option \<Rightarrow> row \<Rightarrow> bool" where
  "drawn xl yl mx my r = (case (opt_num r mx, opt_num r my) of
      (Some x, Some y) \<Rightarrow> (\<not> xl \<or> 0 < x) \<and> (\<not> yl \<or> 0 < y) | _ \<Rightarrow> False)"

definition dimension_names :: "frame \<Rightarrow> string list" where
  "dimension_names f = map c_name (filter (\<lambda>c. c_role c = RDimension) (f_columns f))"

definition measures_of :: "frame \<Rightarrow> column list" where
  "measures_of f = filter (\<lambda>c. c_role c = RMeasure) (f_columns f)"

definition scatterOption :: "runtime \<Rightarrow> panel \<Rightarrow> panel_result \<Rightarrow> chart_theme \<Rightarrow> chart_size \<Rightarrow> scatter_option" where
  "scatterOption rt p r th cz =
    (let f = nullish (r_frame r) empty_frame; rows = frameRows f; sn = rt_show rt;
         dims = dimension_names f; colour = nth_opt dims 1;
         m0 = nth_opt (measures_of f) 0; m1 = nth_opt (measures_of f) 1;
         mx = map_option c_name m0; my = map_option c_name m1;
         group_of = (\<lambda>r. case colour of Some c \<Rightarrow> row_text sn r c | None \<Rightarrow> ''Items'');
         groups = seriesGroups (\<lambda>n. n) (uniq (map group_of rows)) p;
         legend = wrappingLegend (cz_measure12 cz) (map fst groups) (cz_width cz)
           (1 < length groups \<and> \<not> legend_hidden p);
         scale_of = (\<lambda>own. or_else (Option.bind (p_options p) own) (Option.bind (p_options p) po_scale) = Some Log);
         xl = scale_of po_x_scale; yl = scale_of po_y_scale;
         xu = or_else (p_x_unit p) (Option.bind m0 c_unit); yu = or_else (p_unit p) (Option.bind m1 c_unit)
     in \<lparr>so_legend = legend, so_top = (if ll_show legend then ll_top legend + 20 else 28),
         so_x = scatter_axis rows xu xl mx (cz_width cz - 80) (measure_label (rt_casing rt) p m0 xu ''x''),
         so_y = scatter_axis rows yu yl my (cz_height cz - ll_top legend - 74) (measure_label (rt_casing rt) p m1 yu ''y''),
         so_series = map (\<lambda>i. (fst (groups ! i), markStyle (colorFor (fst (groups ! i)) i th) th,
             map (scatter_point_of sn p dims mx my) (filter (drawn xl yl mx my)
               (filter (\<lambda>r. colour = None \<or> group_of r \<in> set (snd (groups ! i))) rows))))
           [0..<length groups]\<rparr>)"

section \<open>Heat maps and state timelines\<close>

record heat_cell =
  hc_time :: real
  hc_row :: nat
  hc_count :: real
  hc_end :: real
  hc_step :: int
  hc_bucket :: "bucket option"

record timeline_option =
  tl_names :: "string list"
  tl_hidden :: "string list"
  tl_bottom :: real
  tl_cells :: "heat_cell list"
  tl_runs :: "state_bucket list"
  tl_cap :: "(string \<times> string) option"
  tl_from :: "real option"
  tl_until :: "real option"

definition category :: "(num \<Rightarrow> string) \<Rightarrow> bool \<Rightarrow> string option \<Rightarrow> row \<Rightarrow> string" where
  "category sn heat item r = (if heat then bucketKey sn r else opt_text sn r item)"

definition all_names :: "(num \<Rightarrow> string) \<Rightarrow> (string \<Rightarrow> num) \<Rightarrow> bool \<Rightarrow> string option \<Rightarrow> row list \<Rightarrow> string list" where
  "all_names sn pn heat item rows = uniq (map (category sn heat item)
     (if heat then sort_by (bucket_le sn pn) rows else rows))"

text \<open>A timeline shows as many rows as fit, at least one; a heat map shows every bucket.\<close>

definition shown_names :: "bool \<Rightarrow> real \<Rightarrow> string list \<Rightarrow> string list" where
  "shown_names heat height names = (if heat then names
     else take (nat (max 1 \<lfloor>(height - 54) / 16\<rfloor>)) names)"

text \<open>The nearest-rank 99th percentile of the occupied cells, 1 when there are none.\<close>

definition heat_cap :: "real list \<Rightarrow> real" where
  "heat_cap counts = nullish (nth_opt (sort counts) (nat (max 0 (\<lceil>real (length counts) * (99 / 100)\<rceil> - 1)))) 1"

text \<open>\<open>Number(value)\<close> of an occupied cell: a finite number above zero.\<close>

definition occupied_count :: "(string \<Rightarrow> num) \<Rightarrow> cell option \<Rightarrow> real option" where
  "occupied_count pn c = (case (case c of Some (CNum n) \<Rightarrow> finite_val n
       | Some (CStr s) \<Rightarrow> finite_val (pn s) | _ \<Rightarrow> None) of
      Some x \<Rightarrow> if 0 < x then Some x else None | None \<Rightarrow> None)"

definition shown_rows :: "(num \<Rightarrow> string) \<Rightarrow> bool \<Rightarrow> string option \<Rightarrow> string list \<Rightarrow> row list \<Rightarrow> row list" where
  "shown_rows sn heat item names rows =
    filter (\<lambda>r. finite_num r ''time'' \<noteq> None \<and> category sn heat item r \<in> set names) rows"

definition heat_cells :: "(num \<Rightarrow> string) \<Rightarrow> (string \<Rightarrow> num) \<Rightarrow> string \<Rightarrow> real \<Rightarrow> string list \<Rightarrow> row list \<Rightarrow> heat_cell list" where
  "heat_cells sn pn m interval names rows =
    (let occupied = filter (\<lambda>r. occupied_count pn (map_of r m) \<noteq> None) (shown_rows sn True None names rows);
         counts = map (\<lambda>r. the (occupied_count pn (map_of r m))) occupied
     in map (\<lambda>r. (let t = nullish (finite_num r ''time'') 0; n = the (occupied_count pn (map_of r m))
          in \<lparr>hc_time = t, hc_row = unit_index (map Some names) (Some (bucketKey sn r)), hc_count = n,
              hc_end = t + interval, hc_step = heatStep n (heat_cap counts), hc_bucket = bucketSelection (Some r)\<rparr>))
        occupied)"

text \<open>
  One bucket of a state timeline: its status code (0 unknown, 1 ok, 2 warn, 3 bad) and the
  interval it selects. An instant outside the range of dates throws.
\<close>

definition state_code :: "cell option \<Rightarrow> panel \<Rightarrow> panel_result \<Rightarrow> nat" where
  "state_code v p r = (case v of
      Some (CNum n) \<Rightarrow> (case nullish (statusFor (finite_val n) (p_thresholds p) (or_else (p_better p) (r_better r))) StOk of
          StBad \<Rightarrow> 3 | StWarn \<Rightarrow> 2 | StOk \<Rightarrow> 1)
    | _ \<Rightarrow> 0)"

definition state_bucket_of :: "(num \<Rightarrow> string) \<Rightarrow> panel \<Rightarrow> panel_result \<Rightarrow> string \<Rightarrow> string option \<Rightarrow> real
    \<Rightarrow> string list \<Rightarrow> row \<Rightarrow> state_bucket result" where
  "state_bucket_of sn p r m item interval names row =
    (let t = nullish (finite_num row ''time'') 0
     in bind_result (to_iso (Fin t)) (\<lambda>from. bind_result (to_iso (Fin (t + interval))) (\<lambda>till.
          Inr \<lparr>sb_start = t, sb_row = nullish (find_index (\<lambda>n. n = opt_text sn row item) names) 0,
            sb_value = nullish (map_of row m) CNull, sb_end = t + interval, sb_state = state_code (map_of row m) p r,
            sb_from = from, sb_to = till,
            sb_dims = [(nullish (Option.bind (p_query p) (\<lambda>q. head_opt (q_by q))) (nullish item ''undefined''),
              opt_text sn row item)]\<rparr>)))"

definition timelineOption :: "runtime \<Rightarrow> panel \<Rightarrow> panel_result \<Rightarrow> chart_size \<Rightarrow> timeline_option result" where
  "timelineOption rt p r cz =
    (let f = nullish (r_frame r) empty_frame; rows = frameRows f; sn = rt_show rt; pn = rt_read rt;
         heat = (p_viz p = Heatmap); item = nth_opt (dimension_names f) 0;
         m = (case measures_of f of c # _ \<Rightarrow> c_name c | [] \<Rightarrow> ''count'');
         unit = or_else (p_unit p) (Option.bind (find (\<lambda>c. c_name c = ''bucket_lower'') (f_columns f)) c_unit);
         every = all_names sn pn heat item rows; names = shown_names heat (cz_height cz) every;
         hidden = drop (length names) every;
         labels = from_entries (map (\<lambda>r. (bucketKey sn r, bucketLabel (rt_intl rt) r unit)) rows);
         interval = spanMs (r_interval r);
         cells = (if heat then heat_cells sn pn m interval names rows else []);
         counts = map hc_count cells
     in bind_result (if heat then Inr []
          else collect_results (map (state_bucket_of sn p r m item interval names)
            (shown_rows sn False item names rows))) (\<lambda>buckets. Inr
        \<lparr>tl_names = (if heat then map (\<lambda>n. nullish (map_of labels n) []) names else names),
         tl_hidden = hidden, tl_bottom = (if heat then 32 else if hidden \<noteq> [] then 24 else 8),
         tl_cells = cells, tl_runs = mergeStateRuns buckets,
         tl_cap = (if heat then Some (heatCountLabel (rt_intl rt) sn (if counts = [] then 0 else heat_cap counts),
           if counts = [] then ''0'' else ''1'') else None),
         tl_from = r_from_ms r, tl_until = r_to_ms r\<rparr>))"

text \<open>\<open>renderItem\<close>: the rectangle of a cell from the coordinates of its ends.\<close>

record cell_rect =
  cr_x :: real
  cr_y :: real
  cr_width :: real
  cr_height :: real
  cr_radius :: real

definition render_item :: "bool \<Rightarrow> real \<Rightarrow> real \<Rightarrow> real \<Rightarrow> real \<Rightarrow> real \<Rightarrow> cell_rect option" where
  "render_item heat v x y right pixels =
    (let height = \<bar>pixels\<bar> * (if heat then 1 else 65 / 100);
         gap = (if heat \<and> 8 \<le> \<bar>right - x\<bar> then 1 else 0)
     in if heat \<and> \<not> 0 < v then None
        else Some \<lparr>cr_x = x + gap / 2, cr_y = y - height / 2 + gap / 2,
          cr_width = max 0 (right - x - gap), cr_height = max 0 (height - gap),
          cr_radius = (if heat then 0 else min 3 (height / 4))\<rparr>)"

lemma sorted_above_nth:
  assumes "k < length cs"
  shows "length (filter (\<lambda>c. sort cs ! k < c) cs) \<le> length cs - Suc k"
proof -
  have "\<forall>c \<in> set (take (Suc k) (sort cs)). \<not> sort cs ! k < c"
    using assms by (auto simp: in_set_conv_nth not_less intro!: sorted_nth_mono)
  then have none: "filter (\<lambda>c. sort cs ! k < c) (take (Suc k) (sort cs)) = []"
    by (simp add: filter_empty_conv)
  have "length (filter (\<lambda>c. sort cs ! k < c) cs) = length (filter (\<lambda>c. sort cs ! k < c) (sort cs))"
    by (metis mset_filter mset_sort size_mset)
  also have "\<dots> = length (filter (\<lambda>c. sort cs ! k < c) (take (Suc k) (sort cs) @ drop (Suc k) (sort cs)))"
    by (simp only: append_take_drop_id)
  also have "\<dots> \<le> length (drop (Suc k) (sort cs))"
    by (simp only: filter_append none append_Nil) (rule length_filter_le)
  finally show ?thesis by simp
qed

lemma heat_cap_percentile:
  "100 * length (filter (\<lambda>c. heat_cap cs < c) cs) \<le> length cs"
proof (cases "cs = []")
  case False
  define k where "k = nat (max 0 (\<lceil>real (length cs) * (99 / 100)\<rceil> - 1))"
  have n: "0 < length cs" using False by simp
  have k: "real k + 1 \<ge> real (length cs) * (99 / 100)" "k < length cs"
    unfolding k_def using n by linarith+
  then have "heat_cap cs = sort cs ! k" by (simp add: heat_cap_def nth_opt_def k_def)
  then have "length (filter (\<lambda>c. heat_cap cs < c) cs) + Suc k \<le> length cs"
    using sorted_above_nth [OF k(2)] k(2) by simp
  then have "real (length (filter (\<lambda>c. heat_cap cs < c) cs)) + (real k + 1) \<le> real (length cs)"
    by linarith
  with k(1) have "100 * real (length (filter (\<lambda>c. heat_cap cs < c) cs)) \<le> real (length cs)"
    by linarith
  then show ?thesis by linarith
qed simp

lemma heat_cap_mem: "cs \<noteq> [] \<Longrightarrow> heat_cap cs \<in> set cs"
proof -
  assume "cs \<noteq> []"
  then have "nat (max 0 (\<lceil>real (length cs) * (99 / 100)\<rceil> - 1)) < length cs"
    by (simp flip: length_greater_0_conv) linarith
  then show ?thesis by (simp add: heat_cap_def nth_opt_def) (metis length_sort nth_mem set_sort)
qed

section \<open>Properties\<close>

text \<open>
  Merging the buckets of a state timeline keeps the time every row spends in every
  state, leaves no two neighbouring runs that touch in the same state, and shows runs that were
  buckets' row, state and start.
\<close>

theorem state_runs_keep_time:
  "state_time row st (mergeStateRuns bs) = state_time row st bs \<and> separate (mergeStateRuns bs)"
proof -
  have "state_time row st (mergeStateRuns bs) = state_time row st [] + state_time row st (sort_by state_le bs)"
    unfolding mergeStateRuns_def by (rule runs_time)
  also have "\<dots> = state_time row st bs"
    by (simp add: state_time_Nil) (rule state_time_mset, simp)
  finally show ?thesis using runs_separate [of "[]" "sort_by state_le bs"] by (simp add: mergeStateRuns_def)
qed

text \<open>
  A histogram counts every row of its frame once: the values of all its bars, over
  the groups of its split values and over the buckets, add up to the rows' counts.
\<close>

theorem histogram_counts_every_row:
  "sum_list (map (\<lambda>(_, _, bars). sum_list (map hb_value bars)) (ho_series (histogramOption rt p r th cz)))
    = sum_list (map row_count (frameRows (nullish (r_frame r) empty_frame)))"
proof -
  let ?rows = "frameRows (nullish (r_frame r) empty_frame)" and ?sn = "rt_show rt"
  let ?split = "split_column (nullish (r_frame r) empty_frame)"
  let ?gs = "hist_groups ?sn ?split ?rows p" and ?bs = "hist_buckets ?sn (rt_read rt) ?rows"
  have "map (\<lambda>(_, _, bars). sum_list (map hb_value bars)) (ho_series (histogramOption rt p r th cz))
    = map (\<lambda>i. sum_list (map hb_value (map (hist_bar ?sn p ?split ?rows (?gs ! i)) ?bs))) [0..<length ?gs]"
    by (simp add: histogramOption_def Let_def)
  also have "\<dots> = map (\<lambda>g. sum_list (map hb_value (map (hist_bar ?sn p ?split ?rows g) ?bs))) ?gs"
    by (rule nth_equalityI) simp_all
  finally show ?thesis
    using hist_total [of ?split ?rows ?sn p "rt_read rt"] hist_groups_single by (simp del: map_map)
qed

text \<open>
  The heat scale saturates for at most one in a hundred of its cells: at most a
  hundredth of the occupied cells count more than the cap, and the cap is one of the counts.
\<close>

theorem heat_scale_saturates_rarely:
  "100 * length (filter (\<lambda>c. heat_cap (map hc_count cells) < hc_count c) cells) \<le> length cells
    \<and> heat_cap (map hc_count cells) \<in> insert 1 (hc_count ` set cells)"
  using heat_cap_percentile [of "map hc_count cells"] heat_cap_mem [of "map hc_count cells"]
  by (cases "cells = []") (auto simp: heat_cap_def nth_opt_def filter_map comp_def)

end
