(* ===== verification/Search_Encoding.thy ===== *)
theory Search_Encoding
  imports Js_Text Panel_Types
begin

text \<open>
  ui/host/src/search-encoding.ts (its parseSearch is imported as decodeSearch): the search parameters of the console as a query string and
  back. The URL library turns a list of pairs into text and reads it back; the codec here is
  what decides which pair stands for which value. JSON text is a parameter: \<open>js\<close> prints and
  \<open>jp\<close> parses. A property that is present but \<open>undefined\<close> is \<open>None\<close>.
\<close>

type_synonym search = "(string, json option) omap"
type_synonym params = "(string \<times> string) list"

section \<open>Writing\<close>

text \<open>\<open>/^[{"]/.test(s)\<close>: text that could be read as an object or a quoted string.\<close>

definition structured :: "string \<Rightarrow> bool" where
  "structured s \<longleftrightarrow> (case s of [] \<Rightarrow> False | c # _ \<Rightarrow> c = CHR ''{'' \<or> c = CHR 0x22)"

definition encode_item :: "(num \<Rightarrow> string) \<Rightarrow> (json \<Rightarrow> string) \<Rightarrow> json \<Rightarrow> string" where
  "encode_item sn js v = (case v of
      JStr s \<Rightarrow> if structured s then js v else s
    | JObj _ \<Rightarrow> js v
    | JArr _ \<Rightarrow> js v
    | _ \<Rightarrow> js_string sn v)"

definition items_of :: "json option \<Rightarrow> json list" where
  "items_of v = (case v of None \<Rightarrow> [] | Some (JArr xs) \<Rightarrow> xs | Some x \<Rightarrow> [x])"

definition stringifySearch :: "(num \<Rightarrow> string) \<Rightarrow> (json \<Rightarrow> string) \<Rightarrow> search \<Rightarrow> params" where
  "stringifySearch sn js search =
    concat (map (\<lambda>(k, v). map (\<lambda>x. (k, encode_item sn js x)) (items_of v)) search)"

section \<open>Reading\<close>

definition decode_item :: "(string \<Rightarrow> json option) \<Rightarrow> string \<Rightarrow> json" where
  "decode_item jp value =
    (if structured value then
       (case jp value of
          Some (JStr s) \<Rightarrow> if structured s then JStr s else JStr value
        | Some (JObj kvs) \<Rightarrow> JObj kvs
        | _ \<Rightarrow> JStr value)
     else JStr value)"

text \<open>\<open>params.getAll(key)\<close> of every key, in the order the keys first appear.\<close>

definition get_all :: "params \<Rightarrow> string \<Rightarrow> string list" where
  "get_all ps k = map snd (filter (\<lambda>p. fst p = k) ps)"

definition decodeSearch :: "(string \<Rightarrow> json option) \<Rightarrow> params \<Rightarrow> search" where
  "decodeSearch jp ps = map (\<lambda>k. (k, Some (case map (decode_item jp) (get_all ps k) of
      [v] \<Rightarrow> v | vs \<Rightarrow> JArr vs))) (uniq (map fst ps))"

section \<open>What the codec keeps\<close>

text \<open>
  The values the codec is made for: text, objects, and lists of at least two of them. JSON
  text of these reads back, an object's begins with a brace and a string's with a quote.
\<close>

definition json_reads :: "(json \<Rightarrow> string) \<Rightarrow> (string \<Rightarrow> json option) \<Rightarrow> json \<Rightarrow> bool" where
  "json_reads js jp v \<longleftrightarrow> jp (js v) = Some v \<and> structured (js v)"

definition plain_item :: "(json \<Rightarrow> string) \<Rightarrow> (string \<Rightarrow> json option) \<Rightarrow> json \<Rightarrow> bool" where
  "plain_item js jp v = (case v of
      JStr s \<Rightarrow> structured s \<longrightarrow> json_reads js jp v
    | JObj _ \<Rightarrow> json_reads js jp v
    | _ \<Rightarrow> False)"

definition codec_value :: "(json \<Rightarrow> string) \<Rightarrow> (string \<Rightarrow> json option) \<Rightarrow> json option \<Rightarrow> bool" where
  "codec_value js jp v = (case v of
      Some (JArr xs) \<Rightarrow> 2 \<le> length xs \<and> (\<forall>x \<in> set xs. plain_item js jp x)
    | Some x \<Rightarrow> plain_item js jp x
    | None \<Rightarrow> False)"

lemma decode_encode: "plain_item js jp v \<Longrightarrow> decode_item jp (encode_item sn js v) = v"
  by (auto simp: plain_item_def encode_item_def decode_item_def json_reads_def split: json.splits)

lemma codec_value_items:
  assumes "codec_value js jp v"
  shows "\<exists>x xs. items_of v = x # xs \<and> (\<forall>y \<in> set (x # xs). plain_item js jp y)
    \<and> v = Some (if xs = [] then x else JArr (x # xs))"
proof -
  obtain j where v: "v = Some j" using assms by (cases v) (auto simp: codec_value_def)
  show ?thesis
  proof (cases "as_arr j")
    case None
    then have "items_of v = [j]" "plain_item js jp j"
      using assms by (cases j; simp add: v items_of_def codec_value_def)+
    with v show ?thesis by auto
  next
    case (Some ys)
    then have j: "j = JArr ys" by (cases j) auto
    with assms v have "2 \<le> length ys" "\<forall>y \<in> set ys. plain_item js jp y"
      by (auto simp: codec_value_def)
    moreover from this(1) obtain y1 y2 zs where "ys = y1 # y2 # zs"
      by (cases ys; cases "tl ys") auto
    ultimately show ?thesis by (auto simp: v j items_of_def)
  qed
qed

lemma stringify_Cons:
  "stringifySearch sn js ((k, v) # s) = map (\<lambda>x. (k, encode_item sn js x)) (items_of v) @ stringifySearch sn js s"
  by (simp add: stringifySearch_def)

lemma stringify_keys: "fst ` set (stringifySearch sn js s) \<subseteq> fst ` set s"
proof (induction s)
  case (Cons e s)
  obtain k v where "e = (k, v)" by fastforce
  with Cons show ?case by (auto simp: stringify_Cons)
qed (simp add: stringifySearch_def)

lemma get_all_own:
  assumes "k \<notin> fst ` set ps"
  shows "get_all (map (\<lambda>x. (k, f x)) xs @ ps) k = map f xs"
proof -
  have "filter (\<lambda>p. fst p = k) ps = []" using assms by (auto simp: filter_empty_conv)
  then show ?thesis by (simp add: get_all_def filter_map comp_def)
qed

lemma get_all_other: "k' \<noteq> k \<Longrightarrow> get_all (map (\<lambda>x. (k, f x)) xs @ ps) k' = get_all ps k'"
  by (simp add: get_all_def filter_map comp_def)

lemma uniq_same:
  assumes "xs \<noteq> []" "k \<notin> set ks"
  shows "uniq (map (\<lambda>_. k) xs @ ks) = k # uniq ks"
  using assms
proof (induction xs)
  case (Cons x xs)
  have "filter (\<lambda>y. y \<noteq> k) (uniq ks) = uniq ks" using Cons.prems by (intro filter_True) auto
  with Cons show ?case by (cases xs) auto
qed simp

lemma parse_stringify:
  assumes "distinct (map fst s)" "\<forall>(k, v) \<in> set s. codec_value js jp v"
  shows "decodeSearch jp (stringifySearch sn js s) = s"
  using assms
proof (induction s)
  case Nil
  then show ?case by (simp add: stringifySearch_def decodeSearch_def)
next
  case (Cons e s)
  obtain k v where e: "e = (k, v)" by fastforce
  define ps where "ps = stringifySearch sn js s"
  have k: "k \<notin> fst ` set ps"
    using Cons.prems stringify_keys [of sn js s] by (auto simp: ps_def e)
  obtain x xs where x: "items_of v = x # xs" "\<forall>y \<in> set (x # xs). plain_item js jp y"
      "v = Some (if xs = [] then x else JArr (x # xs))"
    using codec_value_items [of js jp v] Cons.prems by (auto simp: e)
  define all where "all = map (\<lambda>x. (k, encode_item sn js x)) (x # xs) @ ps"
  have keys: "uniq (map fst all) = k # uniq (map fst ps)"
    using uniq_same [of "x # xs" k "map fst ps"] k by (simp add: all_def comp_def)
  have dec: "map (decode_item jp) (get_all all k) = x # xs"
  proof -
    have "map (decode_item jp) (map (encode_item sn js) (x # xs)) = map (\<lambda>y. y) (x # xs)"
      unfolding map_map by (rule map_cong) (use x(2) in \<open>auto simp: decode_encode\<close>)
    then show ?thesis by (simp only: all_def get_all_own [OF k] list.map_ident)
  qed
  have rest: "get_all all k' = get_all ps k'" if "k' \<in> set (uniq (map fst ps))" for k'
    unfolding all_def using k that by (intro get_all_other) auto
  have "decodeSearch jp all = (k, v) # decodeSearch jp ps"
    unfolding decodeSearch_def keys list.map dec
    using x(3) by (simp add: rest split: list.split)
  then have "decodeSearch jp all = (k, v) # s"
    using Cons.IH Cons.prems by (simp add: ps_def)
  then show ?case by (simp add: e stringify_Cons x(1) ps_def all_def)
qed

section \<open>Properties\<close>

text \<open>
  The search of the address bar survives its query string: reading the pairs that
  were written gives the same keys in the same order with the same values, for text, objects
  and lists of them, whatever the text looks like.
\<close>

theorem search_round_trip:
  assumes "distinct (map fst s)" "\<forall>(k, v) \<in> set s. codec_value js jp v"
  shows "decodeSearch jp (stringifySearch sn js s) = s"
  using assms by (rule parse_stringify)

definition demo_search :: search where
  "demo_search = [(''range'', Some (JStr ''1h'')), (''drill'', Some (JObj [])),
     (''tag'', Some (JArr [JStr ''a'', JStr [CHR 0x22]]))]"

definition demo_js :: "json \<Rightarrow> string" where
  "demo_js v = (if v = JObj [] then ''{}'' else [CHR 0x22, CHR 0x5C, CHR 0x22, CHR 0x22])"

definition demo_jp :: "string \<Rightarrow> json option" where
  "demo_jp s = (if s = ''{}'' then Some (JObj []) else Some (JStr [CHR 0x22]))"

theorem search_round_trip_witness:
  "decodeSearch demo_jp (stringifySearch (\<lambda>_. []) demo_js demo_search) = demo_search"
  by (rule search_round_trip)
    (simp_all add: demo_search_def codec_value_def plain_item_def json_reads_def structured_def
      demo_js_def demo_jp_def)

end
