(* ===== verification/Dashboard_Search.thy ===== *)
theory Dashboard_Search
  imports Drill Search_Encoding
begin

text \<open>
  ui/host/src/dashboards/search.ts: what of a dashboard view belongs in the address bar, read
  from search parameters and written back. \<open>dp\<close> is \<open>Date.parse\<close>, \<open>jp\<close> and \<open>js\<close> read and
  print JSON text, \<open>sn\<close> prints numbers.
\<close>

section \<open>Instants\<close>

definition ranges :: "string list" where
  "ranges = [''5m'', ''15m'', ''1h'', ''3h'', ''6h'', ''12h'', ''24h'', ''2d'', ''7d'', ''30d'']"

text \<open>\<open>\d{n}\<close>, \<open>(?:[01]\d|2[0-3])\<close> and \<open>[0-5]\d\<close> at the front of a text; the rest after them.\<close>

definition take_digits :: "nat \<Rightarrow> string \<Rightarrow> string option" where
  "take_digits n s = (if n \<le> length s \<and> list_all is_digit (take n s) then Some (drop n s) else None)"

definition take_below :: "nat \<Rightarrow> string \<Rightarrow> string option" where
  "take_below k s = (case take_digits 2 s of
      Some r \<Rightarrow> if nat_of_digits (take 2 s) < k then Some r else None | None \<Rightarrow> None)"

definition take_char :: "string \<Rightarrow> string \<Rightarrow> string option" where
  "take_char cs s = (case s of c # r \<Rightarrow> if c \<in> set cs then Some r else None | [] \<Rightarrow> None)"

text \<open>\<open>(?:\.\d+)?\<close>: no zone begins with a point or a digit, so the longest run is the only one.\<close>

definition drop_fraction :: "string \<Rightarrow> string option" where
  "drop_fraction s = (case s of
      c # r \<Rightarrow> if c = CHR ''.'' then
          (if takeWhile is_digit r = [] then None else Some (dropWhile is_digit r)) else Some s
    | [] \<Rightarrow> Some s)"

fun scan :: "(string \<Rightarrow> string option) list \<Rightarrow> string \<Rightarrow> string option" where
  "scan [] s = Some s"
| "scan (p # ps) s = Option.bind (p s) (scan ps)"

definition zone_ok :: "string \<Rightarrow> bool" where
  "zone_ok s \<longleftrightarrow> s = ''Z'' \<or> s = ''z'' \<or> scan [take_char ''+-'', take_below 24, take_char '':'', take_below 60] s = Some []"

definition instant_syntax :: "string \<Rightarrow> bool" where
  "instant_syntax s = (case scan [take_digits 4, take_char ''-'', take_digits 2, take_char ''-'', take_digits 2,
       take_char ''Tt'', take_below 24, take_char '':'', take_below 60, take_char '':'', take_below 60, drop_fraction] s of
      None \<Rightarrow> False | Some rest \<Rightarrow> zone_ok rest)"

text \<open>\<open>setUTCFullYear\<close> normalises a month or a day that is out of range.\<close>

definition utc_date :: "int \<Rightarrow> int \<Rightarrow> int \<Rightarrow> int \<times> int \<times> int" where
  "utc_date y m d = civil_of_days (days_of_civil (y + (m - 1) div 12) ((m - 1) mod 12 + 1) 1 + (d - 1))"

definition real_instant :: "(string \<Rightarrow> num) \<Rightarrow> string \<Rightarrow> bool" where
  "real_instant dp s \<longleftrightarrow> instant_syntax s \<and> dp s \<noteq> NaN
     \<and> (let y = int (field 0 4 s); m = int (field 5 2 s); d = int (field 8 2 s) in utc_date y m d = (y, m, d))"

definition isInstant :: "(string \<Rightarrow> num) \<Rightarrow> json option \<Rightarrow> string option" where
  "isInstant dp v = (case Option.bind v as_str of
      Some s \<Rightarrow> if real_instant dp s then Some s else None | None \<Rightarrow> None)"

section \<open>Reading\<close>

record view_search =
  vs_drill :: "string option"
  vs_range :: "string option"
  vs_from :: "string option"
  vs_to :: "string option"
  vs_compare :: "string option"
  vs_view :: "string option"
  vs_edit :: bool
  vs_vars :: "(string, var_value) omap"

definition raw_get :: "search \<Rightarrow> string \<Rightarrow> json option" where
  "raw_get raw k = Option.bind (map_of raw k) (\<lambda>v. v)"

definition primitiveString :: "(num \<Rightarrow> string) \<Rightarrow> json option \<Rightarrow> string option" where
  "primitiveString sn v = (case v of
      Some (JStr s) \<Rightarrow> Some s | Some (JNum n) \<Rightarrow> Some (sn n)
    | Some (JBool b) \<Rightarrow> Some (if b then ''true'' else ''false'') | _ \<Rightarrow> None)"

definition num_less :: "num \<Rightarrow> num \<Rightarrow> bool" where
  "num_less a b = (case (a, b) of (Fin x, Fin y) \<Rightarrow> x < y | (NInf, Fin _) \<Rightarrow> True
    | (Fin _, PInf) \<Rightarrow> True | (NInf, PInf) \<Rightarrow> True | _ \<Rightarrow> False)"

definition instants :: "(string \<Rightarrow> num) \<Rightarrow> search \<Rightarrow> (string \<times> string) option" where
  "instants dp raw = Option.bind (isInstant dp (raw_get raw ''from'')) (\<lambda>a.
     Option.bind (isInstant dp (raw_get raw ''to'')) (\<lambda>b.
       if num_less (dp a) (dp b) then Some (a, b) else None))"

definition known_range :: "search \<Rightarrow> string option" where
  "known_range raw = (case raw_get raw ''range'' of
      Some (JStr r) \<Rightarrow> if r \<in> set ranges then Some r else None | _ \<Rightarrow> None)"

definition time_part :: "(string \<Rightarrow> num) \<Rightarrow> search \<Rightarrow> string option \<times> string option \<times> string option" where
  "time_part dp raw = (case known_range raw of
      Some r \<Rightarrow> (Some r, None, None)
    | None \<Rightarrow> (None, map_option fst (instants dp raw), map_option snd (instants dp raw)))"

text \<open>One parameter of the form \<open>var-name\<close>.\<close>

definition string_items :: "json list \<Rightarrow> string list option" where
  "string_items xs = (if length xs \<le> 500 \<and> list_all (\<lambda>x. as_str x \<noteq> None) xs
     then Some (map (\<lambda>x. the (as_str x)) xs) else None)"

definition var_of :: "(num \<Rightarrow> string) \<Rightarrow> json option \<Rightarrow> var_value option" where
  "var_of sn v = (case v of
      Some (JObj kvs) \<Rightarrow> (case kvs of
          [(k, JArr xs)] \<Rightarrow> if k = ''values'' then map_option VList (string_items xs) else None
        | _ \<Rightarrow> None)
    | Some (JArr _) \<Rightarrow> None
    | _ \<Rightarrow> map_option VStr (primitiveString sn v))"

definition var_entry :: "(num \<Rightarrow> string) \<Rightarrow> string \<times> json option \<Rightarrow> (string \<times> var_value) option" where
  "var_entry sn e = (if starts_with (fst e) ''var-'' \<and> panel_id_ok (drop 4 (fst e))
     then map_option (Pair (drop 4 (fst e))) (var_of sn (snd e)) else None)"

definition drill_json :: "drill_target \<Rightarrow> json" where
  "drill_json d = JObj ([(''panel_id'', JStr (dr_panel d)), (''kind'', JStr (dr_kind d)),
       (''from'', JStr (dr_from d)), (''to'', JStr (dr_to d)),
       (''window_from'', JStr (dr_window_from d)), (''window_to'', JStr (dr_window_to d)),
       (''dimensions'', JObj (dr_dimensions d))]
     @ opt_field ''trace_id'' (map_option JStr (dr_trace_id d))
     @ opt_field ''namespace'' (map_option JStr (dr_namespace d))
     @ opt_field ''bucket'' (dr_bucket d))"

definition parseSearch :: "(string \<Rightarrow> json option) \<Rightarrow> (json \<Rightarrow> string) \<Rightarrow> (string \<Rightarrow> num) \<Rightarrow> (num \<Rightarrow> string)
    \<Rightarrow> search \<Rightarrow> view_search" where
  "parseSearch jp js dp sn raw =
    (let (rng, fr, till) = time_part dp raw;
         compare = primitiveString sn (raw_get raw ''compare'');
         view = primitiveString sn (raw_get raw ''view'')
     in \<lparr>vs_drill = map_option (\<lambda>d. js (drill_json d)) (parseDrill jp js dp (raw_get raw ''drill'')),
         vs_range = rng, vs_from = fr, vs_to = till,
         vs_compare = (if compare = Some ''1'' \<or> compare = Some ''0'' then compare else None),
         vs_view = (case view of Some v \<Rightarrow> if panel_id_ok v then Some v else None | None \<Rightarrow> None),
         vs_edit = (primitiveString sn (raw_get raw ''edit'') = Some ''1''),
         vs_vars = from_entries (List.map_filter (var_entry sn) raw)\<rparr>)"

section \<open>Writing\<close>

definition opt_entry :: "string \<Rightarrow> json option \<Rightarrow> search" where
  "opt_entry k v = (case v of None \<Rightarrow> [] | Some x \<Rightarrow> [(k, Some x)])"

definition var_json :: "var_value \<Rightarrow> json" where
  "var_json v = (case v of VStr s \<Rightarrow> JStr s | VList xs \<Rightarrow> JObj [(''values'', JArr (map JStr xs))])"

definition var_params :: "(string, var_value) omap \<Rightarrow> search" where
  "var_params vars = map (\<lambda>(n, v). (''var-'' @ n, Some (var_json v))) vars"

definition toSearchParams :: "(string \<Rightarrow> json option) \<Rightarrow> view_search \<Rightarrow> search result" where
  "toSearchParams jp s =
    bind_result (case non_empty (vs_drill s) of
        None \<Rightarrow> Inr None
      | Some t \<Rightarrow> (case jp t of Some v \<Rightarrow> Inr (Some v) | None \<Rightarrow> Inl ''SyntaxError''))
    (\<lambda>drill. Inr (opt_entry ''drill'' drill
       @ opt_entry ''range'' (map_option JStr (non_empty (vs_range s)))
       @ (case (non_empty (vs_from s), non_empty (vs_to s)) of
           (Some a, Some b) \<Rightarrow> [(''from'', Some (JStr a)), (''to'', Some (JStr b))] | _ \<Rightarrow> [])
       @ opt_entry ''compare'' (map_option JStr (non_empty (vs_compare s)))
       @ opt_entry ''view'' (map_option JStr (non_empty (vs_view s)))
       @ opt_entry ''edit'' (if vs_edit s then Some (JStr ''1'') else None)
       @ var_params (vs_vars s)))"

text \<open>
  \<open>drillHref\<close> replaces the query of an address: the parameters are those of the old query, and
  the rest of the address is kept.
\<close>

definition drillHref :: "(string \<Rightarrow> json option) \<Rightarrow> (json \<Rightarrow> string) \<Rightarrow> (string \<Rightarrow> num) \<Rightarrow> (num \<Rightarrow> string)
    \<Rightarrow> params \<Rightarrow> drill_target \<Rightarrow> params result" where
  "drillHref jp js dp sn query target =
    bind_result (toSearchParams jp
        ((parseSearch jp js dp sn (decodeSearch jp query))\<lparr>vs_drill := Some (js (drill_json target))\<rparr>))
      (\<lambda>out. Inr (stringifySearch sn js out))"

definition effectiveTime :: "dashboard_time \<Rightarrow> view_search \<Rightarrow> dashboard_time" where
  "effectiveTime time s =
    (let refresh = Some (nullish (dt_refresh time) ''30s'')
     in case (non_empty (vs_from s), non_empty (vs_to s)) of
          (Some a, Some b) \<Rightarrow> \<lparr>dt_range = None, dt_from = Some a, dt_to = Some b, dt_refresh = refresh, dt_compare = False\<rparr>
        | _ \<Rightarrow> (case non_empty (vs_range s) of
            Some r \<Rightarrow> \<lparr>dt_range = Some r, dt_from = None, dt_to = None, dt_refresh = refresh, dt_compare = False\<rparr>
          | None \<Rightarrow> time\<lparr>dt_refresh := refresh\<rparr>))"

section \<open>Views that the address bar can hold\<close>

text \<open>A drill as it is kept in a view: the JSON text of a target, which reads back as it.\<close>

definition drill_kept :: "(string \<Rightarrow> json option) \<Rightarrow> (json \<Rightarrow> string) \<Rightarrow> (string \<Rightarrow> num) \<Rightarrow> drill_target \<Rightarrow> bool" where
  "drill_kept jp js dp d \<longleftrightarrow> drill_of_json dp (drill_json d) = Some d \<and> jp (js (drill_json d)) = Some (drill_json d)
     \<and> js (drill_json d) \<noteq> [] \<and> js_length (js (drill_json d)) \<le> 4096"

definition vars_ok :: "(string, var_value) omap \<Rightarrow> bool" where
  "vars_ok vars \<longleftrightarrow> distinct (map fst vars)
     \<and> (\<forall>(n, v) \<in> set vars. panel_id_ok n \<and> (case v of VList xs \<Rightarrow> length xs \<le> 500 | VStr _ \<Rightarrow> True))"

definition view_ok :: "(string \<Rightarrow> json option) \<Rightarrow> (json \<Rightarrow> string) \<Rightarrow> (string \<Rightarrow> num) \<Rightarrow> view_search \<Rightarrow> bool" where
  "view_ok jp js dp s \<longleftrightarrow>
     (case vs_drill s of None \<Rightarrow> True | Some t \<Rightarrow> \<exists>d. t = js (drill_json d) \<and> drill_kept jp js dp d)
     \<and> (case vs_range s of
          Some r \<Rightarrow> r \<in> set ranges \<and> vs_from s = None \<and> vs_to s = None
        | None \<Rightarrow> (case (vs_from s, vs_to s) of
            (None, None) \<Rightarrow> True
          | (Some a, Some b) \<Rightarrow> isInstant dp (Some (JStr a)) = Some a \<and> isInstant dp (Some (JStr b)) = Some b
              \<and> num_less (dp a) (dp b)
          | _ \<Rightarrow> False))
     \<and> (case vs_compare s of None \<Rightarrow> True | Some c \<Rightarrow> c = ''0'' \<or> c = ''1'')
     \<and> (case vs_view s of None \<Rightarrow> True | Some v \<Rightarrow> panel_id_ok v)
     \<and> vars_ok (vs_vars s)"

lemma as_str_Some [simp]: "as_str v = Some s \<longleftrightarrow> v = JStr s"
  by (cases v) auto

lemma isInstant_JStr: "isInstant dp v = Some a \<Longrightarrow> v = Some (JStr a) \<and> isInstant dp (Some (JStr a)) = Some a"
  by (auto simp: isInstant_def bind_eq_Some_conv split: option.splits if_splits)

lemma isInstant_nonempty: "isInstant dp v = Some a \<Longrightarrow> a \<noteq> []"
proof -
  assume "isInstant dp v = Some a"
  then have "instant_syntax a" by (auto simp: isInstant_def real_instant_def split: option.splits if_splits)
  moreover have "\<not> instant_syntax []" by (simp add: instant_syntax_def take_digits_def)
  ultimately show ?thesis by metis
qed

lemma instants_ok:
  "instants dp raw = Some (a, b) \<Longrightarrow> isInstant dp (Some (JStr a)) = Some a \<and> isInstant dp (Some (JStr b)) = Some b
     \<and> num_less (dp a) (dp b)"
  by (auto simp: instants_def bind_eq_Some_conv intro: isInstant_JStr [THEN conjunct2] split: if_splits)

lemma known_range_ok: "known_range raw = Some r \<Longrightarrow> r \<in> set ranges"
  by (auto simp: known_range_def split: option.splits json.splits if_splits)

lemma time_part_ok:
  assumes "time_part dp raw = (rng, fr, till)"
  shows "case rng of
      Some r \<Rightarrow> r \<in> set ranges \<and> fr = None \<and> till = None
    | None \<Rightarrow> (case (fr, till) of
        (None, None) \<Rightarrow> True
      | (Some a, Some b) \<Rightarrow> isInstant dp (Some (JStr a)) = Some a \<and> isInstant dp (Some (JStr b)) = Some b
          \<and> num_less (dp a) (dp b)
      | _ \<Rightarrow> False)"
proof (cases "known_range raw")
  case None
  with assms show ?thesis
    using instants_ok [of dp raw] by (cases "instants dp raw") (auto simp: time_part_def)
next
  case (Some r)
  then have "rng = Some r \<and> fr = None \<and> till = None" using assms by (auto simp: time_part_def)
  with known_range_ok [OF Some] show ?thesis by simp
qed

lemma string_items_VList: "string_items xs = Some ys \<Longrightarrow> length ys \<le> 500"
  by (auto simp: string_items_def split: if_splits)

lemma var_of_ok: "var_of sn x = Some (VList xs) \<Longrightarrow> length xs \<le> 500"
  by (auto simp: var_of_def dest: string_items_VList split: if_splits option.splits json.splits list.splits)

lemma var_entry_ok:
  "var_entry sn e = Some (n, v) \<Longrightarrow> panel_id_ok n \<and> (case v of VList xs \<Rightarrow> length xs \<le> 500 | VStr _ \<Rightarrow> True)"
  by (auto simp: var_entry_def dest: var_of_ok split: if_splits var_value.split)

lemma vars_ok_parsed: "vars_ok (from_entries (List.map_filter (var_entry sn) raw))"
proof -
  have "\<exists>e. var_entry sn e = Some (n, v)"
    if "(n, v) \<in> set (from_entries (List.map_filter (var_entry sn) raw))" for n v
  proof -
    from that have "(n, v) \<in> set (List.map_filter (var_entry sn) raw)"
      using set_from_entries by blast
    then obtain e where "e \<in> set raw" "var_entry sn e = Some (n, v)" by (auto simp: List.map_filter_def)
    then show ?thesis by blast
  qed
  then show ?thesis
    using from_entries_ok [of "List.map_filter (var_entry sn) raw"]
    by (auto simp: vars_ok_def map_ok_def dest!: var_entry_ok)
qed

lemma parseSearch_ok:
  assumes "\<And>d. parseDrill jp js dp (raw_get raw ''drill'') = Some d \<Longrightarrow> drill_kept jp js dp d"
  shows "view_ok jp js dp (parseSearch jp js dp sn raw)"
proof -
  obtain rng fr till where t: "time_part dp raw = (rng, fr, till)" by (metis prod_cases3)
  show ?thesis
    using time_part_ok [OF t] assms vars_ok_parsed [of sn raw]
    unfolding view_ok_def parseSearch_def t
    by (auto simp: Let_def split: option.split)
qed

lemma opt_entry_get:
  "map_of (opt_entry k v @ rest) k' = (if k' = k then (case v of Some x \<Rightarrow> Some (Some x) | None \<Rightarrow> map_of rest k')
     else map_of rest k')"
  by (auto simp: opt_entry_def split: option.splits)

lemma map_filter_append: "List.map_filter f (xs @ ys) = List.map_filter f xs @ List.map_filter f ys"
  by (simp add: List.map_filter_def)

lemma map_filter_opt_entry:
  "\<not> starts_with k ''var-'' \<Longrightarrow> List.map_filter (var_entry sn) (opt_entry k v) = []"
  by (auto simp: opt_entry_def List.map_filter_def var_entry_def split: option.splits)

lemma var_entry_json:
  assumes "panel_id_ok n" "case v of VList xs \<Rightarrow> length xs \<le> 500 | VStr _ \<Rightarrow> True"
  shows "var_entry sn (''var-'' @ n, Some (var_json v)) = Some (n, v)"
proof (cases v)
  case (VList xs)
  have "map (\<lambda>x. the (as_str x)) (map JStr xs) = xs" by (simp add: comp_def)
  with VList assms show ?thesis
    by (simp add: var_entry_def var_json_def var_of_def string_items_def starts_with_def list_all_iff)
qed (use assms in \<open>simp add: var_entry_def var_json_def var_of_def primitiveString_def starts_with_def\<close>)

lemma vars_read_back:
  "vars_ok vars \<Longrightarrow> List.map_filter (var_entry sn) (var_params vars) = vars"
  unfolding vars_ok_def var_params_def
  by (induction vars) (auto simp: List.map_filter_simps var_entry_json [simplified])

lemma map_of_vars:
  "\<not> starts_with k ''var-'' \<Longrightarrow> map_of (var_params vars) k = None"
  unfolding var_params_def by (induction vars) (auto simp: starts_with_def)

text \<open>The entries written for a view that can be held: none is lost to an empty text.\<close>

definition entries_of :: "(string \<Rightarrow> json option) \<Rightarrow> view_search \<Rightarrow> search" where
  "entries_of jp s = opt_entry ''drill'' (Option.bind (vs_drill s) jp)
     @ opt_entry ''range'' (map_option JStr (vs_range s))
     @ opt_entry ''from'' (map_option JStr (vs_from s)) @ opt_entry ''to'' (map_option JStr (vs_to s))
     @ opt_entry ''compare'' (map_option JStr (vs_compare s)) @ opt_entry ''view'' (map_option JStr (vs_view s))
     @ opt_entry ''edit'' (if vs_edit s then Some (JStr ''1'') else None)
     @ var_params (vs_vars s)"

lemma non_empty_id: "(\<And>x. v = Some x \<Longrightarrow> x \<noteq> []) \<Longrightarrow> non_empty v = v"
  by (cases v) (auto simp: non_empty_def)

lemma range_nonempty: "r \<in> set ranges \<Longrightarrow> r \<noteq> []"
  by (auto simp: ranges_def)

lemma view_ok_parts:
  assumes "view_ok jp js dp s"
  shows "vs_drill s = None \<or> (\<exists>d. vs_drill s = Some (js (drill_json d)) \<and> drill_kept jp js dp d)"
    and "non_empty (vs_range s) = vs_range s" "non_empty (vs_from s) = vs_from s" "non_empty (vs_to s) = vs_to s"
    and "non_empty (vs_compare s) = vs_compare s" "non_empty (vs_view s) = vs_view s"
    and "vs_from s = None \<longleftrightarrow> vs_to s = None" "vars_ok (vs_vars s)"
proof -
  note v = assms [unfolded view_ok_def]
  show "vs_drill s = None \<or> (\<exists>d. vs_drill s = Some (js (drill_json d)) \<and> drill_kept jp js dp d)"
    using v by (cases "vs_drill s") auto
  show "non_empty (vs_range s) = vs_range s"
    using v by (intro non_empty_id) (auto dest: range_nonempty)
  show "non_empty (vs_from s) = vs_from s" "non_empty (vs_to s) = vs_to s" "vs_from s = None \<longleftrightarrow> vs_to s = None"
    using v isInstant_nonempty
    by (cases "vs_range s"; cases "vs_from s"; cases "vs_to s"; auto simp: non_empty_def)+
  show "non_empty (vs_compare s) = vs_compare s"
    using v by (intro non_empty_id) auto
  show "non_empty (vs_view s) = vs_view s"
    using v by (intro non_empty_id) (auto simp: panel_id_ok_def)
  show "vars_ok (vs_vars s)" using v by blast
qed

lemma toSearchParams_entries:
  assumes "view_ok jp js dp s"
  shows "toSearchParams jp s = Inr (entries_of jp s)"
proof -
  note p = view_ok_parts [OF assms]
  have "(case (vs_from s, vs_to s) of (Some a, Some b) \<Rightarrow> [(''from'', Some (JStr a)), (''to'', Some (JStr b))] | _ \<Rightarrow> [])
      = opt_entry ''from'' (map_option JStr (vs_from s)) @ opt_entry ''to'' (map_option JStr (vs_to s))"
    using p(7) by (cases "vs_from s"; cases "vs_to s") (auto simp: opt_entry_def)
  moreover from p(1) have "(case non_empty (vs_drill s) of None \<Rightarrow> Inr None
      | Some t \<Rightarrow> (case jp t of Some v \<Rightarrow> Inr (Some v) | None \<Rightarrow> Inl ''SyntaxError''))
      = Inr (Option.bind (vs_drill s) jp)"
    by (auto simp: drill_kept_def non_empty_def)
  ultimately show ?thesis
    by (simp add: toSearchParams_def p(2-6) entries_of_def)
qed

lemma entries_get:
  "raw_get (entries_of jp s) ''drill'' = Option.bind (vs_drill s) jp"
  "raw_get (entries_of jp s) ''range'' = map_option JStr (vs_range s)"
  "raw_get (entries_of jp s) ''from'' = map_option JStr (vs_from s)"
  "raw_get (entries_of jp s) ''to'' = map_option JStr (vs_to s)"
  "raw_get (entries_of jp s) ''compare'' = map_option JStr (vs_compare s)"
  "raw_get (entries_of jp s) ''view'' = map_option JStr (vs_view s)"
  "raw_get (entries_of jp s) ''edit'' = (if vs_edit s then Some (JStr ''1'') else None)"
  by (simp_all add: raw_get_def entries_of_def opt_entry_get map_of_vars starts_with_def del: map_of_append split: option.split)

lemma entries_vars: "vars_ok (vs_vars s) \<Longrightarrow> List.map_filter (var_entry sn) (entries_of jp s) = vs_vars s"
  by (simp add: entries_of_def map_filter_append map_filter_opt_entry starts_with_def vars_read_back)

lemma parseDrill_kept:
  assumes "drill_kept jp js dp d"
  shows "parseDrill jp js dp (Some (drill_json d)) = Some d"
  using assms by (simp add: parseDrill_def drill_kept_def) (simp add: drill_json_def)

lemma entries_time:
  assumes "view_ok jp js dp s"
  shows "time_part dp (entries_of jp s) = (vs_range s, vs_from s, vs_to s)"
proof (cases "vs_range s")
  case None
  then have k: "known_range (entries_of jp s) = None" by (simp add: known_range_def entries_get)
  show ?thesis
  proof (cases "vs_from s")
    case None': None
    then have "vs_to s = None" using view_ok_parts(7) [OF assms] by blast
    with None None' k show ?thesis by (simp add: time_part_def instants_def entries_get isInstant_def)
  next
    case (Some a)
    then obtain b where b: "vs_to s = Some b" using view_ok_parts(7) [OF assms] by auto
    with assms None Some have "isInstant dp (Some (JStr a)) = Some a" "isInstant dp (Some (JStr b)) = Some b"
      "num_less (dp a) (dp b)" by (simp_all add: view_ok_def)
    with None Some b k show ?thesis by (simp add: time_part_def instants_def entries_get)
  qed
next
  case (Some r)
  then have "r \<in> set ranges" "vs_from s = None" "vs_to s = None" using assms by (simp_all add: view_ok_def)
  with Some show ?thesis by (simp add: time_part_def known_range_def entries_get)
qed

lemma parse_entries:
  assumes "view_ok jp js dp s"
  shows "parseSearch jp js dp sn (entries_of jp s) = s"
proof -
  note p = view_ok_parts [OF assms]
  have "map_option (\<lambda>d. js (drill_json d)) (parseDrill jp js dp (Option.bind (vs_drill s) jp)) = vs_drill s"
    using p(1)
  proof
    assume "\<exists>d. vs_drill s = Some (js (drill_json d)) \<and> drill_kept jp js dp d"
    then obtain d where d: "vs_drill s = Some (js (drill_json d))" "drill_kept jp js dp d" by blast
    then have "jp (js (drill_json d)) = Some (drill_json d)" by (simp add: drill_kept_def)
    with d show ?thesis by (simp add: parseDrill_kept [OF d(2)])
  qed (simp add: parseDrill_def)
  moreover have "vs_compare s = None \<or> vs_compare s = Some ''0'' \<or> vs_compare s = Some ''1''"
    using assms by (cases "vs_compare s") (auto simp: view_ok_def)
  moreover have "\<And>v. vs_view s = Some v \<Longrightarrow> panel_id_ok v" using assms by (auto simp: view_ok_def)
  moreover have "from_entries (vs_vars s) = vs_vars s"
    using p(8) by (intro from_entries_distinct) (simp add: vars_ok_def)
  ultimately show ?thesis
    unfolding parseSearch_def entries_time [OF assms] Let_def prod.case entries_get entries_vars [OF p(8)]
    by (intro view_search.equality) (auto simp: primitiveString_def split: option.split)
qed

lemma opt_entry_keys:
  "fst ` set (opt_entry k v @ r) = (if v = None then {} else {k}) \<union> fst ` set r"
  "distinct (map fst (opt_entry k v @ r)) \<longleftrightarrow> (v \<noteq> None \<longrightarrow> k \<notin> fst ` set r) \<and> distinct (map fst r)"
  by (auto simp: opt_entry_def split: option.splits)

lemma var_params_keys:
  "distinct (map fst vars) \<Longrightarrow> distinct (map fst (var_params vars))"
  "\<not> starts_with k ''var-'' \<Longrightarrow> k \<notin> fst ` set (var_params vars)"
proof -
  have "map fst (var_params vars) = map ((@) ''var-'') (map fst vars)"
    by (simp add: var_params_def comp_def case_prod_beta)
  moreover have "inj_on ((@) ''var-'') A" for A by (simp add: inj_on_def)
  ultimately show "distinct (map fst vars) \<Longrightarrow> distinct (map fst (var_params vars))"
    by (simp only: distinct_map)
  show "\<not> starts_with k ''var-'' \<Longrightarrow> k \<notin> fst ` set (var_params vars)"
    by (auto simp: var_params_def starts_with_def)
qed

lemma entries_keys: "vars_ok (vs_vars s) \<Longrightarrow> distinct (map fst (entries_of jp s))"
  unfolding entries_of_def opt_entry_keys vars_ok_def
  by (simp add: var_params_keys starts_with_def)

lemma view_survives_query:
  assumes "view_ok jp js dp s" "\<forall>(k, v) \<in> set (entries_of jp s). codec_value js jp v"
  shows "parseSearch jp js dp sn (decodeSearch jp (stringifySearch sn js (entries_of jp s))) = s"
  using parse_stringify [OF entries_keys [OF view_ok_parts(8) [OF assms(1)]] assms(2), of sn]
  by (simp add: parse_entries [OF assms(1)])

lemma view_ok_drill: "view_ok jp js dp s \<Longrightarrow> drill_kept jp js dp d \<Longrightarrow> view_ok jp js dp (s\<lparr>vs_drill := Some (js (drill_json d))\<rparr>)"
  by (cases s; cases "vs_range s"; cases "vs_from s"; cases "vs_to s") (auto simp: view_ok_def)

text \<open>A drill link opens the view it was made in, with the drill.\<close>

lemma drillHref_keeps_view:
  assumes "view_ok jp js dp (parseSearch jp js dp sn (decodeSearch jp query))" "drill_kept jp js dp d"
    and "s = (parseSearch jp js dp sn (decodeSearch jp query))\<lparr>vs_drill := Some (js (drill_json d))\<rparr>"
    and "\<forall>(k, v) \<in> set (entries_of jp s). codec_value js jp v"
  shows "\<exists>out. drillHref jp js dp sn query d = Inr out \<and> parseSearch jp js dp sn (decodeSearch jp out) = s"
proof -
  have ok: "view_ok jp js dp s" using view_ok_drill [OF assms(1,2)] assms(3) by simp
  have "drillHref jp js dp sn query d = Inr (stringifySearch sn js (entries_of jp s))"
    using toSearchParams_entries [OF ok] assms(3) by (simp add: drillHref_def)
  with view_survives_query [OF ok assms(4)] show ?thesis by blast
qed

section \<open>Properties\<close>


definition demo_raw :: search where
  "demo_raw = [(''range'', Some (JStr ''1h'')), (''edit'', Some (JNum (Fin 1))), (''bad'', Some JNull),
     (''var-env'', Some (JObj [(''values'', JArr [JStr ''a''])]))]"

definition demo_print :: "json \<Rightarrow> string" where
  "demo_print v = ''{''"

definition demo_read :: "string \<Rightarrow> json option" where
  "demo_read s = Some (JObj [(''values'', JArr [JStr ''a''])])"

lemma demo_view:
  "parseSearch demo_read demo_print (\<lambda>_. NaN) (\<lambda>_. ''1'') demo_raw =
    \<lparr>vs_drill = None, vs_range = Some ''1h'', vs_from = None, vs_to = None, vs_compare = None, vs_view = None,
      vs_edit = True, vs_vars = [(''env'', VList [''a''])]\<rparr>"
  by (simp add: parseSearch_def demo_raw_def time_part_def known_range_def raw_get_def ranges_def Let_def
      primitiveString_def parseDrill_def from_entries_def List.map_filter_simps var_entry_def starts_with_def
      panel_id_ok_def id_tail_char_def is_lower_def is_digit_def byte_def var_of_def string_items_def)


text \<open>
  Property C1. An instant of the address bar names a day of the calendar: its month is one of
  twelve and its day is within that month of that year, leap days included, although
  \<open>Date.parse\<close> itself would normalise an impossible date.
\<close>

theorem isInstant_is_a_calendar_date:
  assumes "isInstant dp v = Some s"
  shows "1 \<le> field 5 2 s \<and> field 5 2 s \<le> 12 \<and> 1 \<le> field 8 2 s
    \<and> int (field 8 2 s) \<le> month_length (int (field 0 4 s)) (int (field 5 2 s)) \<and> dp s \<noteq> NaN"
proof -
  have "real_instant dp s" using assms by (auto simp: isInstant_def split: option.splits if_splits)
  then have "utc_date (int (field 0 4 s)) (int (field 5 2 s)) (int (field 8 2 s))
      = (int (field 0 4 s), int (field 5 2 s), int (field 8 2 s))" "dp s \<noteq> NaN"
    by (simp_all add: real_instant_def Let_def)
  with civil_of_days_length show ?thesis unfolding utc_date_def by fastforce
qed

theorem isInstant_is_a_calendar_date_witness:
  "isInstant (\<lambda>_. Fin 0) (Some (JStr ''2024-02-29T23:59:00Z'')) = Some ''2024-02-29T23:59:00Z''
   \<and> isInstant (\<lambda>_. Fin 0) (Some (JStr ''2023-02-29T23:59:00Z'')) = None
   \<and> int (field 8 2 ''2024-02-29T23:59:00Z'') \<le> month_length 2024 2"
proof (intro conjI)
  show i: "isInstant (\<lambda>_. Fin 0) (Some (JStr ''2024-02-29T23:59:00Z'')) = Some ''2024-02-29T23:59:00Z''"
    by code_simp
  show "isInstant (\<lambda>_. Fin 0) (Some (JStr ''2023-02-29T23:59:00Z'')) = None"
    by code_simp
  have "field 0 4 ''2024-02-29T23:59:00Z'' = 2024" "field 5 2 ''2024-02-29T23:59:00Z'' = 2" by code_simp+
  with isInstant_is_a_calendar_date [OF i] show "int (field 8 2 ''2024-02-29T23:59:00Z'') \<le> month_length 2024 2"
    by simp
qed

end
