(* ===== verification/Tool_Results.thy ===== *)
theory Tool_Results
  imports Js_Text
begin

text \<open>
  ui/host/src/dashboard-tool-result.ts: which tool results of a conversation are saves of a
  dashboard. Messages keep what the code reads of them; \<open>jp\<close> is \<open>JSON.parse\<close>, None when it
  throws. A result is checked field by field and read into a record.
\<close>

section \<open>Messages\<close>

datatype role = RUser | RAssistant | RTool | ROtherRole

record tool_call =
  tc_id :: string
  tc_name :: string
  tc_arguments :: string

record message =
  m_id :: string
  m_role :: role
  m_calls :: "tool_call list"
  m_call_id :: string
  m_content :: "string option"
  m_error :: bool

definition mutationNames :: "string list" where
  "mutationNames = [''create_dashboard'', ''edit_dashboard'', ''replace_dashboard'', ''restore_dashboard_version'']"

section \<open>Checks of JSON values\<close>

definition jsonObject :: "(string \<Rightarrow> json option) \<Rightarrow> string option \<Rightarrow> json option" where
  "jsonObject jp v = Option.bind (Option.bind v jp) (\<lambda>j. if is_obj j then Some j else None)"

definition strings :: "json \<Rightarrow> string list option" where
  "strings v = (case v of
      JArr xs \<Rightarrow> if list_all (\<lambda>x. as_str x \<noteq> None) xs then Some (map (\<lambda>x. the (as_str x)) xs) else None
    | _ \<Rightarrow> None)"

definition is_duration :: "json \<Rightarrow> bool" where
  "is_duration v = (case v of JNum (Fin x) \<Rightarrow> 0 \<le> x | _ \<Rightarrow> False)"

definition whole_number :: "real \<Rightarrow> json option \<Rightarrow> bool" where
  "whole_number lo v = (case v of Some (JNum (Fin x)) \<Rightarrow> of_int \<lfloor>x\<rfloor> = x \<and> lo \<le> x | _ \<Rightarrow> False)"

definition num_of_json :: "json option \<Rightarrow> real" where
  "num_of_json v = (case v of Some (JNum (Fin x)) \<Rightarrow> x | _ \<Rightarrow> 0)"

definition absent_or :: "(json \<Rightarrow> bool) \<Rightarrow> json option \<Rightarrow> bool" where
  "absent_or P v = (case v of None \<Rightarrow> True | Some x \<Rightarrow> P x)"

definition is_str :: "json \<Rightarrow> bool" where "is_str v \<longleftrightarrow> as_str v \<noteq> None"

definition is_bool :: "json \<Rightarrow> bool" where "is_bool v \<longleftrightarrow> as_bool v \<noteq> None"

section \<open>Panel checks and save receipts\<close>

text \<open>The status passes the check as text and is kept as it came.\<close>

record panel_check =
  pc_id :: string
  pc_status :: json
  pc_rows :: "real option"
  pc_diagnosis :: "string option"
  pc_error :: "string option"
  pc_problems :: "json option"
  pc_elapsed :: "real option"

definition check_statuses :: "string list" where
  "check_statuses = [''ok'', ''empty'', ''error'', ''invalid'', ''not_run'', ''partial'', ''stale'']"

definition opt_num_of :: "json option \<Rightarrow> real option" where
  "opt_num_of v = (case v of Some (JNum (Fin x)) \<Rightarrow> Some x | _ \<Rightarrow> None)"

definition panelCheck :: "(num \<Rightarrow> string) \<Rightarrow> json \<Rightarrow> panel_check option" where
  "panelCheck sn v = (case (is_obj v, jstr ''id'' v, jget ''status'' v) of
      (True, Some i, Some st) \<Rightarrow>
        if js_string sn st \<in> set check_statuses \<and> absent_or is_duration (jget ''rows'' v)
          \<and> absent_or is_duration (jget ''elapsed_ms'' v) \<and> absent_or is_str (jget ''diagnosis'' v)
          \<and> absent_or is_str (jget ''error'' v)
        then Some \<lparr>pc_id = i, pc_status = st, pc_rows = opt_num_of (jget ''rows'' v),
          pc_diagnosis = jstr ''diagnosis'' v, pc_error = jstr ''error'' v, pc_problems = jget ''problems'' v,
          pc_elapsed = opt_num_of (jget ''elapsed_ms'' v)\<rparr>
        else None
    | _ \<Rightarrow> None)"

definition status_is :: "panel_check \<Rightarrow> string \<Rightarrow> bool" where
  "status_is p s \<longleftrightarrow> pc_status p = JStr s"

record change =
  ch_panel :: string
  ch_title :: string
  ch_kind :: json
  ch_fields :: "string list option"
  ch_moved :: "bool option"

definition change_of_json :: "(num \<Rightarrow> string) \<Rightarrow> json \<Rightarrow> change option" where
  "change_of_json sn c = (case (is_obj c, jstr ''panel_id'' c, jstr ''title'' c, jget ''kind'' c) of
      (True, Some i, Some t, Some k) \<Rightarrow>
        if js_string sn k \<in> {''added'', ''changed'', ''removed''}
          \<and> absent_or (\<lambda>f. case strings f of Some fs \<Rightarrow> ''grid'' \<notin> set fs | None \<Rightarrow> False) (jget ''fields'' c)
          \<and> absent_or is_bool (jget ''position_changed'' c)
        then Some \<lparr>ch_panel = i, ch_title = t, ch_kind = k, ch_fields = Option.bind (jget ''fields'' c) strings,
          ch_moved = Option.bind (jget ''position_changed'' c) as_bool\<rparr>
        else None
    | _ \<Rightarrow> None)"

record save_check =
  sc_checked :: bool
  sc_reason :: "string option"
  sc_elapsed :: real
  sc_panels :: "panel_check list"

record save_receipt =
  sr_base :: real
  sr_version :: real
  sr_changes :: "change list"
  sr_layout :: bool
  sr_fields :: "string list option"
  sr_check :: save_check

definition save_check_of_json :: "(num \<Rightarrow> string) \<Rightarrow> json \<Rightarrow> save_check option" where
  "save_check_of_json sn c = (case (Option.bind (jget ''checked'' c) as_bool, jget ''elapsed_ms'' c,
        Option.bind (jarr ''panels'' c) (all_some (panelCheck sn))) of
      (Some checked, Some e, Some ps) \<Rightarrow>
        if is_duration e
          \<and> list_all (\<lambda>p. whole_number 0 (jget ''rows'' p)) (nullish (jarr ''panels'' c) [])
          \<and> length (uniq (map pc_id ps)) = length ps \<and> absent_or is_str (jget ''reason'' c)
          \<and> (checked \<longrightarrow> list_all (\<lambda>p. \<not> status_is p ''not_run'') ps)
        then Some \<lparr>sc_checked = checked, sc_reason = jstr ''reason'' c, sc_elapsed = num_of_json (Some e), sc_panels = ps\<rparr>
        else None
    | _ \<Rightarrow> None)"

definition saveReceipt :: "(num \<Rightarrow> string) \<Rightarrow> json \<Rightarrow> save_receipt option" where
  "saveReceipt sn v = (case (Option.bind (jarr ''changes'' v) (all_some (change_of_json sn)),
        Option.bind (jget ''layout_changed'' v) as_bool, Option.bind (jget ''save_check'' v) (save_check_of_json sn)) of
      (Some changes, Some moved, Some chk) \<Rightarrow>
        if whole_number 0 (jget ''base_version'' v) \<and> whole_number 1 (jget ''version'' v)
          \<and> absent_or (\<lambda>f. strings f \<noteq> None) (jget ''dashboard_fields'' v)
        then Some \<lparr>sr_base = num_of_json (jget ''base_version'' v), sr_version = num_of_json (jget ''version'' v),
          sr_changes = changes, sr_layout = moved, sr_fields = Option.bind (jget ''dashboard_fields'' v) strings,
          sr_check = chk\<rparr>
        else None
    | _ \<Rightarrow> None)"

section \<open>Results that are saves (dashboardToolResult)\<close>

record tool_result =
  tr_id :: string
  tr_name :: string
  tr_version :: real
  tr_label :: string
  tr_receipt :: save_receipt

text \<open>The last message that is the given result, and the last question before it.\<close>

definition result_index :: "string \<Rightarrow> string option \<Rightarrow> message list \<Rightarrow> nat option" where
  "result_index i content ms = last_opt (indices_where
     (\<lambda>m. m_role m = RTool \<and> m_call_id m = i \<and> m_content m = content) ms)"

definition question_before :: "message list \<Rightarrow> nat \<Rightarrow> nat option" where
  "question_before ms e = last_opt (indices_where (\<lambda>m. m_role m = RUser) (take e ms))"

definition turn_calls :: "message list \<Rightarrow> tool_call list" where
  "turn_calls ms = concat (map (\<lambda>m. if m_role m = RAssistant then m_calls m else []) ms)"

definition save_label :: "string \<Rightarrow> string" where
  "save_label name = (if name = ''create_dashboard'' then ''Created''
     else if name = ''restore_dashboard_version'' then ''Restored'' else ''Updated'')"

text \<open>What the payload of a successful mutation holds.\<close>

definition saved_payload :: "(num \<Rightarrow> string) \<Rightarrow> json \<Rightarrow> (string \<times> string \<times> save_receipt) option" where
  "saved_payload sn payload =
    (if truthy (jget ''error'' payload) \<or> truthy (jget ''isError'' payload) then None
     else (case (jget ''dashboard'' payload, Option.bind (jget ''receipt'' payload) (saveReceipt sn)) of
        (Some d, Some rc) \<Rightarrow> (case (jstr ''id'' d, jstr ''name'' d) of
            (Some i, Some n) \<Rightarrow> if i \<noteq> [] \<and> n \<noteq> [] \<and> jget ''version'' d = Some (JNum (Fin (sr_version rc)))
              then Some (i, n, rc) else None
          | _ \<Rightarrow> None)
      | _ \<Rightarrow> None))"

definition dashboardToolResult :: "(num \<Rightarrow> string) \<Rightarrow> (string \<Rightarrow> json option) \<Rightarrow> string \<Rightarrow> string option
    \<Rightarrow> message list \<Rightarrow> tool_result option" where
  "dashboardToolResult sn jp i content ms =
    (let ri = result_index i content ms; e = nullish ri (length ms)
     in case question_before ms e of
          None \<Rightarrow> None
        | Some start \<Rightarrow>
          (case filter (\<lambda>c. tc_id c = i) (turn_calls (drop (Suc start) (take e ms))) of
            [c] \<Rightarrow>
              if tc_name c \<notin> set mutationNames \<or> (case ri of Some r \<Rightarrow> m_error (ms ! r) | None \<Rightarrow> False) then None
              else map_option (\<lambda>(d, n, rc). \<lparr>tr_id = d, tr_name = n, tr_version = sr_version rc,
                  tr_label = save_label (tc_name c), tr_receipt = rc\<rparr>)
                (Option.bind (jsonObject jp content) (saved_payload sn))
          | _ \<Rightarrow> None))"

lemma last_opt_indices:
  "last_opt (indices_where P xs) = Some i \<Longrightarrow> i < length xs \<and> P (xs ! i) \<and> (\<forall>j. i < j \<and> j < length xs \<longrightarrow> \<not> P (xs ! j))"
proof -
  assume a: "last_opt (indices_where P xs) = Some i"
  let ?is = "indices_where P xs"
  have ne: "?is \<noteq> []" and i: "i = last ?is" using a by (auto simp: last_opt_def split: if_splits)
  have mem: "i \<in> set ?is" using ne i by simp
  have "sorted ?is" by (simp add: indices_where_def sorted_wrt_filter)
  then have "\<forall>j \<in> set ?is. j \<le> i"
  proof -
    obtain ys where "?is = ys @ [i]" using ne i append_butlast_last_id by metis
    with \<open>sorted ?is\<close> show ?thesis by (auto simp: sorted_append)
  qed
  moreover have "j \<in> set ?is \<longleftrightarrow> j < length xs \<and> P (xs ! j)" for j
    by (auto simp: indices_where_def)
  ultimately show ?thesis using mem by (meson not_le)
qed

section \<open>Properties\<close>

text \<open>
  A result is taken for a save only when the same user turn holds exactly one call
  with its id, that call is one of the four mutations, and the payload is an object that
  reports no error and names a dashboard at the version its receipt saved: no read and no
  narration in the shape of a dashboard is a save.
\<close>

theorem saves_answer_mutation_calls:
  assumes "dashboardToolResult sn jp i content ms = Some res"
  shows "\<exists>q e c payload. q < e \<and> e \<le> length ms \<and> m_role (ms ! q) = RUser
    \<and> (\<forall>k. q < k \<and> k < e \<longrightarrow> m_role (ms ! k) \<noteq> RUser)
    \<and> filter (\<lambda>c. tc_id c = i) (turn_calls (drop (Suc q) (take e ms))) = [c]
    \<and> tc_name c \<in> set mutationNames
    \<and> jsonObject jp content = Some payload \<and> \<not> truthy (jget ''error'' payload)
    \<and> Option.bind (Option.bind (jget ''dashboard'' payload) (jget ''version'')) as_num = Some (Fin (tr_version res))
    \<and> tr_version res = sr_version (tr_receipt res)"
proof -
  define e where "e = nullish (result_index i content ms) (length ms)"
  have e: "e \<le> length ms"
  proof (cases "result_index i content ms")
    case (Some r)
    with last_opt_indices [OF Some [unfolded result_index_def]] show ?thesis by (simp add: e_def)
  qed (simp add: e_def)
  obtain q where q: "question_before ms e = Some q"
    using assms by (cases "question_before ms e") (simp_all add: dashboardToolResult_def Let_def e_def)
  from last_opt_indices [OF q [unfolded question_before_def]] e
  have qe: "q < e" "m_role (ms ! q) = RUser" "\<forall>k. q < k \<and> k < e \<longrightarrow> m_role (ms ! k) \<noteq> RUser" by auto
  obtain c where c: "filter (\<lambda>c. tc_id c = i) (turn_calls (drop (Suc q) (take e ms))) = [c]"
    using assms q by (simp add: dashboardToolResult_def Let_def e_def split: list.splits)
  have "tc_name c \<in> set mutationNames" and payload: "\<exists>p. jsonObject jp content = Some p
      \<and> saved_payload sn p = Some (tr_id res, tr_name res, tr_receipt res) \<and> tr_version res = sr_version (tr_receipt res)"
    using assms q c by (auto simp: dashboardToolResult_def Let_def e_def bind_eq_Some_conv split: if_splits)
  from payload obtain p where p: "jsonObject jp content = Some p"
      "saved_payload sn p = Some (tr_id res, tr_name res, tr_receipt res)" "tr_version res = sr_version (tr_receipt res)"
    by blast
  from p(2) have "\<not> truthy (jget ''error'' p)"
    "Option.bind (Option.bind (jget ''dashboard'' p) (jget ''version'')) as_num = Some (Fin (sr_version (tr_receipt res)))"
    by (auto simp: saved_payload_def split: if_splits option.splits)
  with p(1,3) e qe c \<open>tc_name c \<in> set mutationNames\<close> show ?thesis by metis
qed

definition demo_payload :: json where
  "demo_payload = JObj [(''dashboard'', JObj [(''id'', JStr ''d''), (''name'', JStr ''n''), (''version'', JNum (Fin 1))]),
     (''receipt'', JObj [(''base_version'', JNum (Fin 0)), (''version'', JNum (Fin 1)), (''changes'', JArr []),
       (''layout_changed'', JBool False), (''save_check'', JObj [(''checked'', JBool True), (''elapsed_ms'', JNum (Fin 5)),
         (''panels'', JArr [])])])]"

definition demo_messages :: "message list" where
  "demo_messages = [\<lparr>m_id = ''u'', m_role = RUser, m_calls = [], m_call_id = [], m_content = None, m_error = False\<rparr>,
     \<lparr>m_id = ''a'', m_role = RAssistant, m_calls = [\<lparr>tc_id = ''c'', tc_name = ''create_dashboard'', tc_arguments = []\<rparr>],
       m_call_id = [], m_content = None, m_error = False\<rparr>,
     \<lparr>m_id = ''t'', m_role = RTool, m_calls = [], m_call_id = ''c'', m_content = Some ''x'', m_error = False\<rparr>]"

lemma demo_save:
  "\<exists>rc. dashboardToolResult (\<lambda>_. []) (\<lambda>_. Some demo_payload) ''c'' (Some ''x'') demo_messages
     = Some \<lparr>tr_id = ''d'', tr_name = ''n'', tr_version = 1, tr_label = ''Created'', tr_receipt = rc\<rparr>"
proof -
  have ri: "result_index ''c'' (Some ''x'') demo_messages = Some 2"
    by (simp add: result_index_def indices_where_def demo_messages_def upt_rec nth_Cons numeral_eq_Suc last_opt_def)
  have q: "question_before demo_messages 2 = Some 0"
    by (simp add: question_before_def indices_where_def demo_messages_def upt_rec numeral_eq_Suc last_opt_def)
  have c: "filter (\<lambda>c. tc_id c = ''c'') (turn_calls (drop (Suc 0) (take 2 demo_messages)))
      = [\<lparr>tc_id = ''c'', tc_name = ''create_dashboard'', tc_arguments = []\<rparr>]"
    by (simp add: turn_calls_def demo_messages_def numeral_eq_Suc)
  have "\<exists>rc. saveReceipt (\<lambda>_. []) (the (jget ''receipt'' demo_payload)) = Some rc \<and> sr_version rc = 1"
    by (simp add: demo_payload_def saveReceipt_def jarr_def all_some_def save_check_of_json_def is_duration_def
        absent_or_def whole_number_def num_of_json_def)
  then obtain rc where rc: "saveReceipt (\<lambda>_. []) (the (jget ''receipt'' demo_payload)) = Some rc" "sr_version rc = 1"
    by blast
  have payload: "saved_payload (\<lambda>_. []) demo_payload = Some (''d'', ''n'', rc)"
    using rc by (simp add: saved_payload_def demo_payload_def jstr_def)
  have "\<not> m_error (demo_messages ! 2)" by (simp add: demo_messages_def)
  then have "dashboardToolResult (\<lambda>_. []) (\<lambda>_. Some demo_payload) ''c'' (Some ''x'') demo_messages
      = map_option (\<lambda>(d, n, rc). \<lparr>tr_id = d, tr_name = n, tr_version = sr_version rc, tr_label = ''Created'', tr_receipt = rc\<rparr>)
          (saved_payload (\<lambda>_. []) demo_payload)"
    by (simp add: dashboardToolResult_def Let_def ri q c mutationNames_def save_label_def jsonObject_def is_obj_def)
      (simp add: demo_payload_def)
  with payload rc show ?thesis by simp
qed

theorem saves_answer_mutation_calls_witness:
  "\<exists>res :: tool_result. dashboardToolResult (\<lambda>_. []) (\<lambda>_. Some demo_payload) ''c'' (Some ''x'') demo_messages = Some res
    \<and> tr_version res = sr_version (tr_receipt res) \<and> tr_label res = ''Created''"
proof -
  obtain rc where r: "dashboardToolResult (\<lambda>_. []) (\<lambda>_. Some demo_payload) ''c'' (Some ''x'') demo_messages
     = Some \<lparr>tr_id = ''d'', tr_name = ''n'', tr_version = 1, tr_label = ''Created'', tr_receipt = rc\<rparr>"
    using demo_save by blast
  with saves_answer_mutation_calls [OF r] show ?thesis by auto
qed

end
