(* ===== verification/Receipts.thy ===== *)
theory Receipts
  imports Tool_Results
begin

text \<open>
  ui/host/src/dashboard-receipt.ts: the receipt of a build turn, folded from the calls and the
  results of the turn in the order of the calls. Maps are association lists in insertion order.
\<close>

section \<open>Change chips\<close>

definition fieldWords :: "(string, string) omap" where
  "fieldWords = [(''viz'', ''chart type''), (''sql'', ''SQL''), (''content'', ''text''), (''x_unit'', ''x-axis unit''),
     (''options'', ''display options''), (''drill'', ''drill-down''), (''click'', ''click action''),
     (''time'', ''time range''), (''annotations'', ''markers''), (''better'', ''better direction''),
     (''reduce'', ''summary''), (''min'', ''minimum''), (''max'', ''maximum'')]"

definition readableField :: "string \<Rightarrow> string" where
  "readableField f = (case map_of fieldWords f of Some w \<Rightarrow> w
     | None \<Rightarrow> map (\<lambda>c. if c = CHR ''_'' then CHR '' '' else c) f)"

definition changeLabel :: "change \<Rightarrow> string" where
  "changeLabel c = (if ch_kind c = JStr ''added'' then ''+ '' @ ch_title c
     else if ch_kind c = JStr ''removed'' then minus_sign @ '' '' @ ch_title c
     else ''~ '' @ ch_title c
       @ (case ch_fields c of Some (f # fs) \<Rightarrow> '': '' @ join '', '' (map readableField (f # fs)) | _ \<Rightarrow> [])
       @ (if ch_moved c = Some True then '' '' @ middot @ '' moved'' else []))"

definition changeChips :: "save_receipt \<Rightarrow> string list" where
  "changeChips r = map changeLabel (sr_changes r) @ (if sr_layout r then [''Layout adjusted''] else [])
     @ (case sr_fields r of Some fs \<Rightarrow> map (\<lambda>f. ''Dashboard: '' @ readableField f) fs | None \<Rightarrow> [])"

section \<open>Problems and stages\<close>

record problem =
  pr_panel :: string
  pr_path :: string
  pr_message :: string

definition same_problem :: "problem \<Rightarrow> problem \<Rightarrow> bool" where
  "same_problem p q \<longleftrightarrow> pr_panel p = pr_panel q \<and> pr_path p = pr_path q"

definition resolvedProblems :: "problem list \<Rightarrow> problem list \<Rightarrow> string list \<Rightarrow> problem list" where
  "resolvedProblems earlier later retained =
    filter (\<lambda>p. pr_panel p \<in> set retained \<and> \<not> list_ex (\<lambda>q. same_problem q p) later) earlier"

definition namedProblems :: "json option \<Rightarrow> string \<Rightarrow> problem list" where
  "namedProblems v i = (case v of
      Some (JArr xs) \<Rightarrow> List.map_filter (\<lambda>p. case (jstr ''path'' p, jstr ''message'' p) of
          (Some path, Some msg) \<Rightarrow> Some \<lparr>pr_panel = i, pr_path = path, pr_message = msg\<rparr> | _ \<Rightarrow> None) xs
    | _ \<Rightarrow> [])"

datatype stage_state = Unobserved | Incomplete | Failed | Complete | Interrupted | Retried

record stages =
  st_schema :: stage_state
  st_context :: stage_state
  st_draft :: stage_state
  st_validation :: stage_state
  st_preview :: stage_state
  st_preview_ms :: "real option"
  st_save :: stage_state

definition contextTools :: "string list" where
  "contextTools = [''get_insights'', ''query_telemetry'', ''get_overview'', ''get_service_topology'',
     ''get_service_dependencies'', ''get_service_performance'', ''inspect_trace'', ''search_logs'']"

definition toolCode :: "(string \<Rightarrow> json option) \<Rightarrow> string option \<Rightarrow> json option" where
  "toolCode jp content = Option.bind (Option.bind (jsonObject jp content) (jget ''error'')) (jget ''code'')"

definition interruptedResult :: "(string \<Rightarrow> json option) \<Rightarrow> message \<Rightarrow> bool" where
  "interruptedResult jp m \<longleftrightarrow> m_role m = RTool \<and> toolCode jp (m_content m) = Some (JStr ''interrupted'')"

definition executed :: "panel_check \<Rightarrow> bool" where
  "executed p \<longleftrightarrow> \<not> status_is p ''invalid'' \<and> \<not> status_is p ''not_run''"

section \<open>Net changes over several saves\<close>

definition prior_kind :: "(string, change) omap \<Rightarrow> string \<Rightarrow> json option" where
  "prior_kind net i = map_option ch_kind (map_of net i)"

definition string_sort :: "string list \<Rightarrow> string list" where
  "string_sort xs = sort_by str_le xs"

definition merge_fields :: "string list option \<Rightarrow> string list option \<Rightarrow> string list" where
  "merge_fields a b = string_sort (uniq (nullish a [] @ nullish b []))"

definition either_true :: "bool option \<Rightarrow> bool option \<Rightarrow> bool option" where
  "either_true a b = (if a = Some True then Some True else b)"

definition net_step :: "(string, change) omap \<Rightarrow> change \<Rightarrow> (string, change) omap" where
  "net_step net c =
    (let prior = map_of net (ch_panel c); pk = prior_kind net (ch_panel c)
     in if pk = Some (JStr ''added'') \<and> ch_kind c = JStr ''removed'' then AList.delete (ch_panel c) net
        else if pk = Some (JStr ''added'') then AList.update (ch_panel c)
          \<lparr>ch_panel = ch_panel c, ch_title = ch_title c, ch_kind = JStr ''added'', ch_fields = None, ch_moved = None\<rparr> net
        else if ch_kind c = JStr ''removed'' then AList.update (ch_panel c) c net
        else (case prior of
            Some p \<Rightarrow> if ch_kind c = JStr ''changed'' then AList.update (ch_panel c)
                (c\<lparr>ch_fields := Some (merge_fields (ch_fields p) (ch_fields c)),
                   ch_moved := either_true (ch_moved p) (ch_moved c)\<rparr>) net
              else AList.update (ch_panel c)
                (if ch_kind p = JStr ''removed'' \<and> ch_kind c = JStr ''added'' then c\<lparr>ch_kind := JStr ''changed''\<rparr> else c) net
          | None \<Rightarrow> AList.update (ch_panel c) c net))"

section \<open>The state of the fold\<close>

record build =
  b_stages :: stages
  b_count :: "nat option"
  b_titles :: "(string, string) omap"
  b_panels :: "(string, panel_check) omap"
  b_outstanding :: "(string, problem list) omap"
  b_failures :: "string list"
  b_previewed :: bool
  b_unmatched :: bool
  b_corrections :: "problem list"
  b_problems :: "problem list"
  b_attempts :: "(string \<times> stage_state) list"
  b_deploys :: nat
  b_anomalies :: nat
  b_first :: "tool_result option"
  b_net :: "(string, change) omap"
  b_saved :: "tool_result option"
  b_unreadable :: bool
  b_mutation_error :: bool

definition no_build :: build where
  "no_build = \<lparr>b_stages = \<lparr>st_schema = Unobserved, st_context = Unobserved, st_draft = Unobserved,
       st_validation = Unobserved, st_preview = Unobserved, st_preview_ms = None, st_save = Unobserved\<rparr>,
     b_count = None, b_titles = [], b_panels = [], b_outstanding = [], b_failures = [], b_previewed = False,
     b_unmatched = False, b_corrections = [], b_problems = [], b_attempts = [], b_deploys = 0, b_anomalies = 0,
     b_first = None, b_net = [], b_saved = None, b_unreadable = False, b_mutation_error = False\<rparr>"

definition add_correction :: "problem list \<Rightarrow> problem \<Rightarrow> problem list" where
  "add_correction cs p = (if list_ex (\<lambda>c. same_problem c p) cs then cs else cs @ [p])"

definition clearProblems :: "string \<Rightarrow> problem list \<Rightarrow> build \<Rightarrow> build" where
  "clearProblems i issues b = b\<lparr>
     b_corrections := foldl add_correction (b_corrections b)
       (resolvedProblems (nullish (map_of (b_outstanding b) i) []) issues [i]),
     b_outstanding := AList.update i issues (b_outstanding b)\<rparr>"

text \<open>Titles of the panels of a draft or of a saved spec.\<close>

definition title_step :: "(string, string) omap \<Rightarrow> json \<Rightarrow> (string, string) omap" where
  "title_step titles p = (case (jstr ''id'' p, jstr ''title'' p) of
      (Some i, Some t) \<Rightarrow> if not_blank t then AList.update i t titles else titles | _ \<Rightarrow> titles)"

section \<open>One call and its result\<close>

record call_result =
  cr_call :: tool_call
  cr_input :: "json option"
  cr_message :: "message option"
  cr_payload :: "json option"

definition call_success :: "call_result \<Rightarrow> bool" where
  "call_success r = (case (cr_message r, cr_payload r) of
      (Some m, Some p) \<Rightarrow> \<not> m_error m \<and> \<not> truthy (jget ''error'' p) \<and> \<not> truthy (jget ''isError'' p)
    | _ \<Rightarrow> False)"

definition call_state :: "call_result \<Rightarrow> stage_state" where
  "call_state r = (if cr_message r = None then Incomplete else if call_success r then Complete else Failed)"

definition list_count :: "json \<Rightarrow> string list \<Rightarrow> nat" where
  "list_count p names = sum_list (map (\<lambda>f. case jarr f p of Some xs \<Rightarrow> length xs | None \<Rightarrow> 0) names)"

definition context_step :: "call_result \<Rightarrow> build \<Rightarrow> build" where
  "context_step r b = (if tc_name (cr_call r) \<notin> set contextTools then b
     else let good = (case cr_message r of None \<Rightarrow> False
            | Some m \<Rightarrow> \<not> m_error m \<and> \<not> truthy (Option.bind (cr_payload r) (jget ''error''))
                \<and> \<not> truthy (Option.bind (cr_payload r) (jget ''isError''))
                \<and> (case m_content m of Some s \<Rightarrow> s \<noteq> [] | None \<Rightarrow> False));
          p = nullish (cr_payload r) JNull
        in b\<lparr>b_stages := (b_stages b)\<lparr>st_context := if cr_message r = None then Incomplete else if good then Complete else Failed\<rparr>,
             b_deploys := b_deploys b + (if call_success r then list_count p [''deploys'', ''deployments''] else 0),
             b_anomalies := b_anomalies b + (if call_success r then list_count p [''anomalies''] else 0)\<rparr>)"

definition draft_of :: "call_result \<Rightarrow> json list option" where
  "draft_of r = (if tc_name (cr_call r) = ''preview_panels'' then Option.bind (cr_input r) (jarr ''panels'')
     else if tc_name (cr_call r) = ''create_dashboard'' \<or> tc_name (cr_call r) = ''replace_dashboard''
       then Option.bind (Option.bind (cr_input r) (jget ''dashboard'')) (jarr ''panels'')
     else None)"

definition draft_step :: "call_result \<Rightarrow> build \<Rightarrow> build" where
  "draft_step r b = (case draft_of r of
      None \<Rightarrow> b
    | Some ps \<Rightarrow> b\<lparr>b_count := Some (length ps), b_stages := (b_stages b)\<lparr>st_draft := Complete\<rparr>,
        b_titles := foldl title_step (b_titles b) ps\<rparr>)"

definition not_run :: "string \<Rightarrow> panel_check" where
  "not_run i = \<lparr>pc_id = i, pc_status = JStr ''not_run'', pc_rows = None, pc_diagnosis = None, pc_error = None,
     pc_problems = None, pc_elapsed = None\<rparr>"

definition merge_issues :: "problem list \<Rightarrow> problem list \<Rightarrow> problem list" where
  "merge_issues prior issues = prior @ filter (\<lambda>i. \<not> list_ex (\<lambda>old. pr_path old = pr_path i) prior) issues"

definition checked_step :: "build \<Rightarrow> panel_check \<Rightarrow> build" where
  "checked_step b p =
    (let issues = namedProblems (pc_problems p) (pc_id p);
         b' = (if \<not> status_is p ''not_run'' then clearProblems (pc_id p) issues b
               else b\<lparr>b_outstanding := AList.update (pc_id p)
                 (merge_issues (nullish (map_of (b_outstanding b) (pc_id p)) []) issues) (b_outstanding b)\<rparr>)
     in b'\<lparr>b_panels := AList.update (pc_id p) p (b_panels b')\<rparr>)"

definition preview_stages :: "call_result \<Rightarrow> panel_check list option \<Rightarrow> stages \<Rightarrow> stages" where
  "preview_stages r checked s =
    (let state = call_state r; fallback = (if state = Complete then Failed else state)
     in s\<lparr>st_validation := (case checked of None \<Rightarrow> fallback
            | Some ps \<Rightarrow> if list_ex (\<lambda>p. status_is p ''invalid'' \<or> status_is p ''not_run'') ps
                \<or> namedProblems (Option.bind (cr_payload r) (jget ''problems'')) ''dashboard'' \<noteq> [] then Failed else Complete),
          st_preview := (case checked of None \<Rightarrow> fallback
            | Some ps \<Rightarrow> if list_all executed ps then Complete else Incomplete),
          st_preview_ms := (case Option.bind (cr_payload r) (jget ''elapsed_ms'') of
              Some (JNum (Fin x)) \<Rightarrow> if 0 \<le> x then Some x else None | _ \<Rightarrow> None)\<rparr>)"

definition preview_step :: "(num \<Rightarrow> string) \<Rightarrow> call_result \<Rightarrow> build \<Rightarrow> build" where
  "preview_step sn r b = (if tc_name (cr_call r) \<noteq> ''preview_panels'' then b
     else let expected = List.map_filter (jstr ''id'') (nullish (Option.bind (cr_input r) (jarr ''panels'')) []);
          checked = (if call_success r then Option.bind (Option.bind (cr_payload r) (jarr ''panels'')) (all_some (panelCheck sn))
            else None);
          b1 = b\<lparr>b_previewed := True,
            b_panels := foldl (\<lambda>m i. AList.update i (not_run i) m) (b_panels b) expected,
            b_stages := preview_stages r checked (b_stages b)\<rparr>;
          mismatch = (case checked of None \<Rightarrow> True
            | Some ps \<Rightarrow> expected = [] \<or> length ps \<noteq> length expected \<or> length (uniq (map pc_id ps)) \<noteq> length expected
                \<or> list_ex (\<lambda>p. pc_id p \<notin> set expected) ps)
        in if mismatch then b1\<lparr>b_unmatched := (expected = []),
              b_failures := (if cr_message r = None then b_failures b1 else foldl push_new (b_failures b1) expected)\<rparr>
           else let b2 = foldl checked_step (b1\<lparr>b_unmatched := False,
                  b_failures := filter (\<lambda>i. i \<notin> set expected) (b_failures b1)\<rparr>) (nullish checked [])
             in b2\<lparr>b_problems := concat (map_vals (b_outstanding b2))
                 @ namedProblems (Option.bind (cr_payload r) (jget ''problems'')) ''dashboard''\<rparr>)"

section \<open>Saves\<close>

definition save_step :: "tool_result \<Rightarrow> json option \<Rightarrow> build \<Rightarrow> build" where
  "save_step saved payload b =
    (let b = (if map_option tr_id (b_first b) = Some (tr_id saved) then b else b\<lparr>b_first := Some saved, b_net := []\<rparr>);
         first = nullish (b_first b) saved; rc = tr_receipt saved; base = sr_base (tr_receipt first);
         previous = (case b_saved b of Some s \<Rightarrow> if tr_id s = tr_id saved then Some (tr_receipt s) else None | None \<Rightarrow> None);
         titles = foldl (\<lambda>t c. if not_blank (ch_title c) then AList.update (ch_panel c) (ch_title c) t else t)
           (b_titles b) (sr_changes rc);
         net = foldl net_step (b_net b) (sr_changes rc);
         spec_panels = nullish (Option.bind (Option.bind (Option.bind payload (jget ''dashboard'')) (jget ''spec'')) (jarr ''panels'')) [];
         retained = map pc_id (sc_panels (sr_check rc));
         b1 = b\<lparr>b_titles := foldl title_step titles spec_panels, b_net := net,
           b_saved := Some (saved\<lparr>tr_label := tr_label first, tr_receipt := rc\<lparr>sr_base := base, sr_changes := map_vals net,
             sr_layout := base \<noteq> 0 \<and> (sr_layout rc \<or> (case previous of Some p \<Rightarrow> sr_layout p | None \<Rightarrow> False)),
             sr_fields := (if base = 0 then None
               else Some (merge_fields (Option.bind previous sr_fields) (sr_fields rc)))\<rparr>\<rparr>),
           b_count := Some (length (sc_panels (sr_check rc))),
           b_stages := (b_stages b)\<lparr>st_draft := Complete\<rparr>\<rparr>;
         b2 = foldl (\<lambda>b p. if status_is p ''invalid'' then clearProblems (pc_id p) (namedProblems (pc_problems p) (pc_id p)) b
             else if executed p then (clearProblems (pc_id p) [] b)\<lparr>b_failures := filter (\<lambda>i. i \<noteq> pc_id p) (b_failures b)\<rparr>
             else b) b1 (sc_panels (sr_check rc))
     in b2\<lparr>b_corrections := filter (\<lambda>p. pr_panel p \<in> set retained) (b_corrections b2),
          b_problems := filter (\<lambda>p. pr_panel p \<in> set retained) (concat (map_vals (b_outstanding b2)))\<rparr>)"

definition mutation_step :: "(num \<Rightarrow> string) \<Rightarrow> (string \<Rightarrow> json option) \<Rightarrow> message list \<Rightarrow> call_result \<Rightarrow> build \<Rightarrow> build" where
  "mutation_step sn jp ms r b = (if tc_name (cr_call r) \<notin> set mutationNames then b
     else let saved = Option.bind (cr_message r) (\<lambda>m. dashboardToolResult sn jp (tc_id (cr_call r)) (m_content m) ms);
          interrupted = (case cr_message r of Some m \<Rightarrow> interruptedResult jp m | None \<Rightarrow> False);
          error = (\<not> interrupted \<and> (case cr_message r of None \<Rightarrow> False
            | Some m \<Rightarrow> m_error m \<or> truthy (Option.bind (cr_payload r) (jget ''error''))
                \<or> truthy (Option.bind (cr_payload r) (jget ''isError''))));
          state = (if saved \<noteq> None then Complete else if interrupted then Interrupted else if error then Failed else Incomplete);
          attempts = (if saved \<noteq> None then map (\<lambda>(i, s). (i, if s = Failed then Retried else s)) (b_attempts b) else b_attempts b);
          b1 = b\<lparr>b_mutation_error := error,
            b_unreadable := (cr_message r \<noteq> None \<and> saved = None \<and> \<not> error \<and> \<not> interrupted),
            b_stages := (b_stages b)\<lparr>st_save := state\<rparr>,
            b_attempts := attempts @ [(tc_id (cr_call r), state)]\<rparr>
        in case saved of Some s \<Rightarrow> save_step s (cr_payload r) b1 | None \<Rightarrow> b1)"

definition schema_step :: "call_result \<Rightarrow> build \<Rightarrow> build" where
  "schema_step r b = (if tc_name (cr_call r) = ''get_telemetry_schema''
     then b\<lparr>b_stages := (b_stages b)\<lparr>st_schema := call_state r\<rparr>\<rparr> else b)"

definition call_step :: "(num \<Rightarrow> string) \<Rightarrow> (string \<Rightarrow> json option) \<Rightarrow> message list \<Rightarrow> build \<Rightarrow> call_result \<Rightarrow> build" where
  "call_step sn jp ms b r =
    mutation_step sn jp ms r (preview_step sn r (draft_step r (context_step r (schema_step r b))))"

section \<open>The receipt of a turn (receiptForTurn)\<close>

record receipt =
  rc_turn :: string
  rc_stages :: stages
  rc_count :: "nat option"
  rc_titles :: "(string, string) omap"
  rc_panels :: "panel_check list"
  rc_problems :: "problem list"
  rc_corrections :: "(problem \<times> string) list"
  rc_attempts :: "(string \<times> stage_state) list"
  rc_explanations :: "string list"
  rc_deploys :: nat
  rc_anomalies :: nat
  rc_saved :: "tool_result option"

text \<open>The messages after the question with the id, up to the next question.\<close>

definition turn_of :: "message list \<Rightarrow> string \<Rightarrow> message list option" where
  "turn_of ms i = map_option (\<lambda>start. takeWhile (\<lambda>m. m_role m \<noteq> RUser) (drop (Suc start) ms))
     (find_index (\<lambda>m. m_id m = i \<and> m_role m = RUser) ms)"

definition refused :: "(string \<Rightarrow> json option) \<Rightarrow> message list \<Rightarrow> string list" where
  "refused jp turn = map m_call_id (filter (\<lambda>m. m_role m = RTool
     \<and> toolCode jp (m_content m) = Some (JStr ''answer_only'')) turn)"

definition calls_of :: "(string \<Rightarrow> json option) \<Rightarrow> message list \<Rightarrow> (tool_call \<times> nat) list" where
  "calls_of jp turn = filter (\<lambda>(c, _). tc_id c \<notin> set (refused jp turn))
     (concat (map (\<lambda>i. if m_role (turn ! i) = RAssistant then map (\<lambda>c. (c, i)) (m_calls (turn ! i)) else [])
       [0..<length turn]))"

definition results_after :: "message list \<Rightarrow> string \<Rightarrow> nat \<Rightarrow> message list" where
  "results_after turn i index = filter (\<lambda>m. m_role m = RTool \<and> m_call_id m = i) (drop (Suc index) turn)"

text \<open>
  The one result of a call. Of several results only a mutation's last one counts, when all the
  earlier ones are interruptions.
\<close>

definition result_of :: "(string \<Rightarrow> json option) \<Rightarrow> message list \<Rightarrow> tool_call \<Rightarrow> nat \<Rightarrow> message option" where
  "result_of jp turn c index =
    (let rs = results_after turn (tc_id c) index
     in if length rs = 1 \<or> tc_name c \<in> set mutationNames \<and> 1 < length rs \<and> list_all (interruptedResult jp) (butlast rs)
        then last_opt rs else None)"

definition call_results :: "(string \<Rightarrow> json option) \<Rightarrow> message list \<Rightarrow> call_result list" where
  "call_results jp turn =
    (let calls = calls_of jp turn
     in map (\<lambda>(c, i). (let m = result_of jp turn c i
          in \<lparr>cr_call = c, cr_input = jsonObject jp (Some (tc_arguments c)), cr_message = m,
              cr_payload = Option.bind m (\<lambda>m. jsonObject jp (m_content m))\<rparr>))
        (filter (\<lambda>(c, _). length (filter (\<lambda>(d, _). tc_id d = tc_id c) calls) = 1) calls))"

definition final_stages :: "build \<Rightarrow> string list option \<Rightarrow> panel_check list \<Rightarrow> stages" where
  "final_stages b retained panels = (if \<not> b_previewed b then b_stages b
     else let failed = (b_unmatched b \<or> list_ex (\<lambda>i. case retained of None \<Rightarrow> True | Some r \<Rightarrow> i \<in> set r) (b_failures b));
          incomplete = list_ex (\<lambda>p. status_is p ''not_run'') panels; invalid = b_problems b \<noteq> []
        in (b_stages b)\<lparr>st_validation := if failed \<or> invalid then Failed else if incomplete then Incomplete else Complete,
             st_preview := if failed then Failed
               else if incomplete \<or> invalid \<or> list_ex (\<lambda>p. status_is p ''invalid'') panels then Incomplete else Complete\<rparr>)"

definition state_text :: "stage_state \<Rightarrow> string" where
  "state_text s = (case s of Unobserved \<Rightarrow> ''unobserved'' | Incomplete \<Rightarrow> ''incomplete'' | Failed \<Rightarrow> ''failed''
     | Complete \<Rightarrow> ''complete'' | Interrupted \<Rightarrow> ''interrupted'' | Retried \<Rightarrow> ''retried'')"

definition stageNames :: "stages \<Rightarrow> (string \<times> stage_state) list" where
  "stageNames s = [(''Telemetry'', st_schema s), (''Context'', st_context s), (''Draft'', st_draft s),
     (''Validation'', st_validation s), (''Preview'', st_preview s), (''Save'', st_save s)]"

definition non_empty_text :: "string option \<Rightarrow> string option" where
  "non_empty_text v = (if v = Some [] then None else v)"

definition panel_explanation :: "(num \<Rightarrow> string) \<Rightarrow> (string, string) omap \<Rightarrow> panel_check \<Rightarrow> string" where
  "panel_explanation sn titles p = nullish (map_of titles (pc_id p)) (pc_id p) @ '': '' @ js_string sn (pc_status p)
     @ (case (non_empty_text (pc_error p), non_empty_text (pc_diagnosis p)) of
         (Some e, _) \<Rightarrow> '' '' @ em_dash @ '' '' @ e | (None, Some d) \<Rightarrow> '' '' @ em_dash @ '' '' @ d | _ \<Rightarrow> [])"

definition explanations :: "(num \<Rightarrow> string) \<Rightarrow> build \<Rightarrow> panel_check list \<Rightarrow> stages \<Rightarrow> string list" where
  "explanations sn b panels s =
    (let check = map_option (\<lambda>t. sr_check (tr_receipt t)) (b_saved b);
         unfinished = filter (\<lambda>(_, st). st = Incomplete \<or> st = Failed) (stageNames s)
     in (case check of
          Some c \<Rightarrow> if sc_checked c then [] else [''Save check incomplete: ''
            @ nullish (non_empty_text (sc_reason c)) ''Panels were not checked'']
        | None \<Rightarrow> [])
      @ map (panel_explanation sn (b_titles b)) (filter (\<lambda>p. \<not> status_is p ''ok'')
          (case check of Some c \<Rightarrow> sc_panels c | None \<Rightarrow> panels))
      @ map (\<lambda>p. nullish (map_of (b_titles b) (pr_panel p)) (pr_panel p) @ '': '' @ pr_message p) (b_problems b)
      @ (if unfinished = [] then []
         else [join ('' '' @ middot @ '' '') (map (\<lambda>(n, st). n @ '': '' @ state_text st) unfinished)])
      @ (if st_save s = Interrupted then [''Save interrupted '' @ middot @ '' outcome unknown''] else [])
      @ (if b_mutation_error b then [case b_saved b of
            Some t \<Rightarrow> ''A later change failed; v'' @ sn (Fin (tr_version t)) @ '' remains saved''
          | None \<Rightarrow> ''Save failed '' @ middot @ '' dashboard was not saved''] else []))"

definition finish :: "(num \<Rightarrow> string) \<Rightarrow> string \<Rightarrow> build \<Rightarrow> receipt" where
  "finish sn turn b =
    (let retained = map_option (\<lambda>t. map pc_id (sc_panels (sr_check (tr_receipt t)))) (b_saved b);
         panels = filter (\<lambda>p. case retained of None \<Rightarrow> True | Some r \<Rightarrow> pc_id p \<in> set r) (map_vals (b_panels b));
         s = final_stages b retained panels
     in \<lparr>rc_turn = turn, rc_stages = s, rc_count = b_count b, rc_titles = b_titles b, rc_panels = panels,
         rc_problems = b_problems b,
         rc_corrections = map (\<lambda>p. (p, nullish (map_of (b_titles b) (pr_panel p)) (pr_panel p))) (b_corrections b),
         rc_attempts = b_attempts b, rc_explanations = explanations sn b panels s,
         rc_deploys = b_deploys b, rc_anomalies = b_anomalies b, rc_saved = b_saved b\<rparr>)"

definition receiptForTurn :: "(num \<Rightarrow> string) \<Rightarrow> (string \<Rightarrow> json option) \<Rightarrow> message list \<Rightarrow> string \<Rightarrow> receipt option" where
  "receiptForTurn sn jp ms i = Option.bind (turn_of ms i) (\<lambda>turn.
    if \<not> list_ex (\<lambda>(c, _). tc_name c \<in> set mutationNames \<or> tc_name c = ''preview_panels'') (calls_of jp turn) then None
    else let b = foldl (call_step sn jp ms) no_build (call_results jp turn)
      in if b_unreadable b then None else Some (finish sn i b))"

section \<open>Net changes describe the whole turn\<close>

text \<open>
  What a save's change of a panel says of the dashboard before and after it: added panels were
  not there, removed ones are no longer, changed ones were and are. \<open>history\<close> is a sequence of
  such changes that starts from the panels \<open>D\<close>; \<open>panels_after\<close> is what it leaves.
\<close>

definition change_fits :: "string set \<Rightarrow> change \<Rightarrow> bool" where
  "change_fits D c \<longleftrightarrow> (ch_kind c = JStr ''added'' \<and> ch_panel c \<notin> D)
     \<or> ((ch_kind c = JStr ''removed'' \<or> ch_kind c = JStr ''changed'') \<and> ch_panel c \<in> D)"

definition panels_step :: "string set \<Rightarrow> change \<Rightarrow> string set" where
  "panels_step D c = (if ch_kind c = JStr ''added'' then insert (ch_panel c) D
     else if ch_kind c = JStr ''removed'' then D - {ch_panel c} else D)"

definition panels_after :: "string set \<Rightarrow> change list \<Rightarrow> string set" where
  "panels_after D cs = foldl panels_step D cs"

fun history_ok :: "string set \<Rightarrow> change list \<Rightarrow> bool" where
  "history_ok D [] = True"
| "history_ok D (c # cs) = (change_fits D c \<and> history_ok (panels_step D c) cs)"

text \<open>The one change that takes the panels \<open>D\<close> to \<open>E\<close>, for a panel that was touched.\<close>

definition net_kind :: "string set \<Rightarrow> string set \<Rightarrow> bool \<Rightarrow> string \<Rightarrow> json option" where
  "net_kind D E touched i = (if i \<notin> D \<and> i \<in> E then Some (JStr ''added'')
     else if i \<in> D \<and> i \<notin> E then Some (JStr ''removed'')
     else if i \<in> D \<and> i \<in> E \<and> touched then Some (JStr ''changed'') else None)"

lemma net_step_kind:
  "prior_kind (net_step net c) i = (if i \<noteq> ch_panel c then prior_kind net i
     else if prior_kind net i = Some (JStr ''added'') then (if ch_kind c = JStr ''removed'' then None else Some (JStr ''added''))
     else if prior_kind net i = Some (JStr ''removed'') \<and> ch_kind c = JStr ''added'' then Some (JStr ''changed'')
     else Some (ch_kind c))"
proof -
  let ?pk = "prior_kind net (ch_panel c)"
  consider "?pk = Some (JStr ''added'')" "ch_kind c = JStr ''removed''"
    | "?pk = Some (JStr ''added'')" "ch_kind c \<noteq> JStr ''removed''"
    | "?pk \<noteq> Some (JStr ''added'')" "ch_kind c = JStr ''removed''"
    | "?pk \<noteq> Some (JStr ''added'')" "ch_kind c \<noteq> JStr ''removed''" "map_of net (ch_panel c) = None"
    | p where "?pk \<noteq> Some (JStr ''added'')" "ch_kind c = JStr ''changed''" "map_of net (ch_panel c) = Some p"
    | p where "?pk \<noteq> Some (JStr ''added'')" "ch_kind c \<noteq> JStr ''removed''" "ch_kind c \<noteq> JStr ''changed''"
        "map_of net (ch_panel c) = Some p"
    by (cases "map_of net (ch_panel c)") auto
  then show ?thesis
    by cases (auto simp: net_step_def Let_def prior_kind_def update_conv delete_conv)
qed

lemma history_snoc: "history_ok D (cs @ [c]) \<longleftrightarrow> history_ok D cs \<and> change_fits (panels_after D cs) c"
  by (induction cs arbitrary: D) (simp_all add: panels_after_def)

lemma panels_after_snoc: "panels_after D (cs @ [c]) = panels_step (panels_after D cs) c"
  by (simp add: panels_after_def)

lemma net_changes_kind:
  assumes "history_ok D cs"
  shows "prior_kind (foldl net_step [] cs) i = net_kind D (panels_after D cs) (i \<in> ch_panel ` set cs) i"
  using assms
proof (induction cs rule: rev_induct)
  case Nil
  then show ?case by (simp add: prior_kind_def net_kind_def panels_after_def)
next
  case (snoc c cs)
  let ?E = "panels_after D cs"
  have IH: "prior_kind (foldl net_step [] cs) i = net_kind D ?E (i \<in> ch_panel ` set cs) i"
    using snoc by (simp add: history_snoc)
  have fits: "change_fits ?E c" using snoc.prems by (simp add: history_snoc)
  show ?case
  proof (cases "i = ch_panel c")
    case True
    from fits consider "ch_kind c = JStr ''added''" "i \<notin> ?E" | "ch_kind c = JStr ''removed''" "i \<in> ?E"
      | "ch_kind c = JStr ''changed''" "i \<in> ?E"
      using True by (auto simp: change_fits_def)
    then show ?thesis
      by cases (use True IH in \<open>simp_all add: panels_after_snoc panels_step_def net_step_kind net_kind_def\<close>)
  next
    case False
    then have "i \<in> panels_after D (cs @ [c]) \<longleftrightarrow> i \<in> ?E" by (auto simp: panels_after_snoc panels_step_def)
    with False IH show ?thesis by (simp add: net_step_kind net_kind_def)
  qed
qed

section \<open>What a save leaves in the receipt\<close>

lemma foldl_keeps: "(\<And>b x. f (g b x) = f b) \<Longrightarrow> f (foldl g b xs) = f b"
  by (induction xs arbitrary: b) simp_all

lemma clearProblems_keeps [simp]:
  "b_net (clearProblems i ps b) = b_net b" "b_saved (clearProblems i ps b) = b_saved b"
  "b_first (clearProblems i ps b) = b_first b" "b_unreadable (clearProblems i ps b) = b_unreadable b"
  by (simp_all add: clearProblems_def)

lemma checked_step_keeps [simp]:
  "b_saved (checked_step b p) = b_saved b"
  by (simp add: checked_step_def Let_def)

lemma reads_keep_saved:
  "b_saved (schema_step r b) = b_saved b" "b_saved (context_step r b) = b_saved b" "b_saved (draft_step r b) = b_saved b" "b_saved (preview_step sn r b) = b_saved b"
proof -
  show "b_saved (schema_step r b) = b_saved b" by (simp add: schema_step_def)
  show "b_saved (context_step r b) = b_saved b" by (simp add: context_step_def Let_def)
  show "b_saved (draft_step r b) = b_saved b" by (simp add: draft_step_def split: option.split)
  show "b_saved (preview_step sn r b) = b_saved b"
    by (simp add: preview_step_def Let_def foldl_keeps [of b_saved])
qed

definition checked_save :: "build \<Rightarrow> panel_check \<Rightarrow> build" where
  "checked_save b p = (if status_is p ''invalid'' then clearProblems (pc_id p) (namedProblems (pc_problems p) (pc_id p)) b
     else if executed p then (clearProblems (pc_id p) [] b)\<lparr>b_failures := filter (\<lambda>i. i \<noteq> pc_id p) (b_failures b)\<rparr>
     else b)"

lemma checked_save_keeps:
  "b_net (foldl checked_save b ps) = b_net b" "b_saved (foldl checked_save b ps) = b_saved b"
  "b_first (foldl checked_save b ps) = b_first b"
  "b_unreadable (foldl checked_save b ps) = b_unreadable b"
  by (rule foldl_keeps, simp add: checked_save_def)+

definition same_dashboard :: "build \<Rightarrow> tool_result \<Rightarrow> bool" where
  "same_dashboard b s \<longleftrightarrow> map_option tr_id (b_first b) = Some (tr_id s)"

lemma save_step_result:
  "b_net (save_step s p b) = foldl net_step (if same_dashboard b s then b_net b else []) (sr_changes (tr_receipt s))"
  "map_option tr_id (b_first (save_step s p b)) = Some (tr_id s)"
  "\<exists>t. b_saved (save_step s p b) = Some t \<and> tr_id t = tr_id s \<and> tr_version t = tr_version s
     \<and> sr_changes (tr_receipt t) = map_vals (b_net (save_step s p b))"
  "b_unreadable (save_step s p b) = b_unreadable b"
  unfolding save_step_def Let_def checked_save_def [symmetric] same_dashboard_def
  by (cases "map_option tr_id (b_first b) = Some (tr_id s)";
      simp add: checked_save_keeps del: map_option_eq_Some)+

lemma saves_net:
  assumes "\<And>s p. (s, p) \<in> set saves \<Longrightarrow> tr_id s = d" "map_option tr_id (b_first b) = Some d"
  shows "b_net (foldl (\<lambda>b (s, p). save_step s p b) b saves)
      = foldl net_step (b_net b) (concat (map (\<lambda>(s, _). sr_changes (tr_receipt s)) saves))
    \<and> map_option tr_id (b_first (foldl (\<lambda>b (s, p). save_step s p b) b saves)) = Some d"
  using assms
proof (induction saves arbitrary: b)
  case (Cons x saves)
  obtain s p where x: "x = (s, p)" by fastforce
  have d: "tr_id s = d" using Cons.prems(1) by (auto simp: x)
  have "map_option tr_id (b_first (save_step s p b)) = Some d" by (simp only: save_step_result(2) d)
  moreover have "\<And>s p. (s, p) \<in> set saves \<Longrightarrow> tr_id s = d" using Cons.prems(1) by (meson list.set_intros(2))
  ultimately have IH: "b_net (foldl (\<lambda>b (s, p). save_step s p b) (save_step s p b) saves)
      = foldl net_step (b_net (save_step s p b)) (concat (map (\<lambda>(s, _). sr_changes (tr_receipt s)) saves))
    \<and> map_option tr_id (b_first (foldl (\<lambda>b (s, p). save_step s p b) (save_step s p b) saves)) = Some d"
    by (intro Cons.IH) blast+
  have "same_dashboard b s" using Cons.prems(2) d by (simp only: same_dashboard_def)
  then have "b_net (save_step s p b) = foldl net_step (b_net b) (sr_changes (tr_receipt s))"
    by (simp add: save_step_result(1))
  with IH show ?case by (simp only: x foldl_Cons prod.case list.map concat.simps foldl_append)
qed simp

lemma mutation_saved:
  assumes "b_saved (mutation_step sn jp ms r b) = Some t" "b_saved b \<noteq> Some t"
  shows "\<exists>m s. tc_name (cr_call r) \<in> set mutationNames \<and> cr_message r = Some m
    \<and> dashboardToolResult sn jp (tc_id (cr_call r)) (m_content m) ms = Some s
    \<and> tr_id s = tr_id t \<and> tr_version s = tr_version t"
proof -
  have name: "tc_name (cr_call r) \<in> set mutationNames"
    using assms by (auto simp: mutation_step_def split: if_splits)
  define saved where "saved = Option.bind (cr_message r) (\<lambda>m. dashboardToolResult sn jp (tc_id (cr_call r)) (m_content m) ms)"
  obtain s b1 where s: "saved = Some s" "mutation_step sn jp ms r b = save_step s (cr_payload r) b1"
    using assms name unfolding mutation_step_def Let_def saved_def [symmetric]
    by (cases saved) auto
  from save_step_result(3) [of s "cr_payload r" b1] assms(1) s
  have "tr_id s = tr_id t" "tr_version s = tr_version t" by auto
  with s(1) name show ?thesis by (auto simp: saved_def bind_eq_Some_conv)
qed

lemma mutation_saves:
  assumes "tc_name (cr_call r) \<in> set mutationNames" "cr_message r = Some m"
    and "dashboardToolResult sn jp (tc_id (cr_call r)) (m_content m) ms = Some s"
  shows "(\<exists>t. b_saved (mutation_step sn jp ms r b) = Some t \<and> tr_id t = tr_id s \<and> tr_version t = tr_version s)
    \<and> \<not> b_unreadable (mutation_step sn jp ms r b)"
  using assms save_step_result(3) [of s] by (fastforce simp: mutation_step_def Let_def save_step_result(4))

lemma calls_saved:
  assumes "b_saved (foldl (call_step sn jp ms) b rs) = Some t" "b_saved b \<noteq> Some t"
  shows "\<exists>r \<in> set rs. \<exists>m s. tc_name (cr_call r) \<in> set mutationNames \<and> cr_message r = Some m
    \<and> dashboardToolResult sn jp (tc_id (cr_call r)) (m_content m) ms = Some s
    \<and> tr_id s = tr_id t \<and> tr_version s = tr_version t"
  using assms
proof (induction rs rule: rev_induct)
  case (snoc r rs)
  let ?b = "foldl (call_step sn jp ms) b rs"
  show ?case
  proof (cases "b_saved ?b = Some t")
    case False
    then have ne: "b_saved (preview_step sn r (draft_step r (context_step r (schema_step r ?b)))) \<noteq> Some t"
      by (simp add: reads_keep_saved)
    have "b_saved (mutation_step sn jp ms r (preview_step sn r (draft_step r (context_step r (schema_step r ?b))))) = Some t"
      using snoc.prems(1) by (simp add: call_step_def [of sn jp ms ?b r])
    from mutation_saved [OF this ne] show ?thesis by auto
  qed (use snoc in auto)
qed simp

lemma call_results_turn:
  assumes "r \<in> set (call_results jp turn)"
  shows "\<exists>m \<in> set turn. m_role m = RAssistant \<and> cr_call r \<in> set (m_calls m)"
    and "\<And>m. cr_message r = Some m \<Longrightarrow> m \<in> set turn \<and> m_role m = RTool \<and> m_call_id m = tc_id (cr_call r)"
proof -
  obtain c i where ci: "(c, i) \<in> set (calls_of jp turn)" "cr_call r = c" "cr_message r = result_of jp turn c i"
    using assms by (auto simp: call_results_def Let_def)
  then show "\<exists>m \<in> set turn. m_role m = RAssistant \<and> cr_call r \<in> set (m_calls m)"
    by (auto simp: calls_of_def split: if_splits)
  show "m \<in> set turn \<and> m_role m = RTool \<and> m_call_id m = tc_id (cr_call r)" if "cr_message r = Some m" for m
  proof -
    have "m \<in> set (results_after turn (tc_id c) i)"
      using that ci by (auto simp: result_of_def Let_def last_opt_def split: if_splits)
    then show ?thesis using ci(2) by (auto simp: results_after_def dest: in_set_dropD)
  qed
qed

section \<open>Properties\<close>


definition demo_change :: "string \<Rightarrow> change" where
  "demo_change k = \<lparr>ch_panel = ''p'', ch_title = ''P'', ch_kind = JStr k, ch_fields = None, ch_moved = None\<rparr>"

definition demo_result :: "string \<Rightarrow> tool_result" where
  "demo_result k = \<lparr>tr_id = ''d'', tr_name = ''n'', tr_version = 1, tr_label = ''Updated'', tr_receipt =
     \<lparr>sr_base = 1, sr_version = 2, sr_changes = [demo_change k], sr_layout = False, sr_fields = None,
       sr_check = \<lparr>sc_checked = True, sc_reason = None, sc_elapsed = 1, sc_panels = []\<rparr>\<rparr>\<rparr>"


text \<open>
  A receipt claims a save only when a call of that turn made it: the turn holds the
  mutation call and its result, and that result is the save of that dashboard at that version.
\<close>

theorem receipts_claim_only_saves_of_the_turn:
  assumes "receiptForTurn sn jp ms i = Some rc" "rc_saved rc = Some t"
  shows "\<exists>turn a c m s. turn_of ms i = Some turn \<and> a \<in> set turn \<and> m_role a = RAssistant \<and> c \<in> set (m_calls a)
    \<and> tc_name c \<in> set mutationNames \<and> m \<in> set turn \<and> m_role m = RTool \<and> m_call_id m = tc_id c
    \<and> dashboardToolResult sn jp (tc_id c) (m_content m) ms = Some s \<and> tr_id s = tr_id t \<and> tr_version s = tr_version t"
proof -
  obtain turn where turn: "turn_of ms i = Some turn"
      "rc = finish sn i (foldl (call_step sn jp ms) no_build (call_results jp turn))"
    using assms(1) by (auto simp: receiptForTurn_def bind_eq_Some_conv Let_def split: if_splits)
  then have "b_saved (foldl (call_step sn jp ms) no_build (call_results jp turn)) = Some t"
    using assms(2) by (simp add: finish_def Let_def)
  moreover have "b_saved no_build \<noteq> Some t" by (simp add: no_build_def)
  ultimately obtain r m s where r: "r \<in> set (call_results jp turn)" "tc_name (cr_call r) \<in> set mutationNames"
      "cr_message r = Some m" "dashboardToolResult sn jp (tc_id (cr_call r)) (m_content m) ms = Some s"
      "tr_id s = tr_id t" "tr_version s = tr_version t"
    using calls_saved by blast
  with call_results_turn [OF r(1)] turn(1) show ?thesis by metis
qed

lemma demo_receipt:
  "\<exists>rc t. receiptForTurn (\<lambda>_. []) (\<lambda>_. Some demo_payload) demo_messages ''u'' = Some rc
    \<and> rc_saved rc = Some t \<and> tr_id t = ''d'' \<and> tr_version t = 1"
proof -
  let ?jp = "\<lambda>_. Some demo_payload"
  obtain rc where r: "dashboardToolResult (\<lambda>_. []) ?jp ''c'' (Some ''x'') demo_messages
     = Some \<lparr>tr_id = ''d'', tr_name = ''n'', tr_version = 1, tr_label = ''Created'', tr_receipt = rc\<rparr>"
    using demo_save by blast
  have turn: "turn_of demo_messages ''u'' = Some (tl demo_messages)"
    by (simp add: turn_of_def demo_messages_def)
  have quiet: "jget ''error'' demo_payload = None" by (simp add: demo_payload_def)
  have obj: "is_obj demo_payload" by (simp add: demo_payload_def is_obj_def)
  have code: "toolCode ?jp v = None" for v
    by (simp add: toolCode_def jsonObject_def obj quiet split: option.splits)
  let ?c = "\<lparr>tc_id = ''c'', tc_name = ''create_dashboard'', tc_arguments = []\<rparr>"
  have calls: "calls_of ?jp (tl demo_messages) = [(?c, 0)]"
    by (simp add: calls_of_def refused_def code demo_messages_def upt_rec)
  have res: "result_of ?jp (tl demo_messages) ?c 0 = Some (demo_messages ! 2)"
    by (simp add: result_of_def results_after_def demo_messages_def last_opt_def Let_def)
  have "\<exists>cr. call_results ?jp (tl demo_messages) = [cr] \<and> cr_call cr = ?c \<and> cr_message cr = Some (demo_messages ! 2)"
    by (simp add: call_results_def calls res)
  then obtain cr where cr: "call_results ?jp (tl demo_messages) = [cr]" "cr_call cr = ?c"
      "cr_message cr = Some (demo_messages ! 2)" by blast
  let ?b = "call_step (\<lambda>_. []) ?jp demo_messages no_build cr"
  have "m_content (demo_messages ! 2) = Some ''x''" by (simp add: demo_messages_def)
  then have step: "(\<exists>t. b_saved ?b = Some t \<and> tr_id t = ''d'' \<and> tr_version t = 1) \<and> \<not> b_unreadable ?b"
    using mutation_saves [of cr "demo_messages ! 2" "\<lambda>_. []" ?jp demo_messages] r cr
    unfolding call_step_def by (fastforce simp: mutationNames_def)
  have some: "list_ex (\<lambda>(c, _). tc_name c \<in> set mutationNames \<or> tc_name c = ''preview_panels'') (calls_of ?jp (tl demo_messages))"
    by (simp add: calls mutationNames_def)
  show ?thesis using step some by (auto simp: receiptForTurn_def turn cr(1) finish_def Let_def)
qed

theorem receipts_claim_only_saves_of_the_turn_witness:
  "\<exists>a c. a \<in> set (tl demo_messages) \<and> m_role a = RAssistant \<and> c \<in> set (m_calls a) \<and> tc_name c \<in> set mutationNames"
proof -
  obtain rc t where r: "receiptForTurn (\<lambda>_. []) (\<lambda>_. Some demo_payload) demo_messages ''u'' = Some rc" "rc_saved rc = Some t"
    using demo_receipt by blast
  have "turn_of demo_messages ''u'' = Some (tl demo_messages)" by (simp add: turn_of_def demo_messages_def)
  with receipts_claim_only_saves_of_the_turn [OF r] show ?thesis by auto
qed

end
