(* ===== verification/App_Context.thy ===== *)
theory App_Context
  imports Receipts
begin

text \<open>
  ui/host/src/app-context.ts: the words for what a tool call is doing and for how a run failed,
  and the receipts of a conversation with the cache of finished turns.
\<close>

section \<open>Labels\<close>

definition toolLabels :: "(string, string \<times> string) omap" where
  "toolLabels =
    [(''query_telemetry'', ''Querying telemetry'' @ ellipsis, ''Telemetry panels''),
     (''get_overview'', ''Checking system health'' @ ellipsis, ''System health''),
     (''get_service_topology'', ''Mapping service dependencies'' @ ellipsis, ''Service map''),
     (''get_service_dependencies'', ''Tracing service dependencies'' @ ellipsis, ''Service dependencies''),
     (''list_panel_exemplars'', ''Finding example traces'' @ ellipsis, ''Example traces''),
     (''resolve_panel_variables'', ''Reading filter choices'' @ ellipsis, ''Filter choices''),
     (''query_panel_fragment'', ''Refreshing panels'' @ ellipsis, ''Panel refresh''),
     (''get_service_performance'', ''Reading performance signals'' @ ellipsis, ''Performance''),
     (''inspect_trace'', ''Inspecting a trace'' @ ellipsis, ''Trace lookup''),
     (''search_logs'', ''Searching logs'' @ ellipsis, ''Logs''),
     (''get_insights'', ''Reviewing detected anomalies'' @ ellipsis, ''Detected anomalies''),
     (''get_telemetry_schema'', ''Reading what telemetry exists'' @ ellipsis, ''Telemetry discovery''),
     (''preview_panels'', ''Checking dashboard panels'' @ ellipsis, ''Panel check''),
     (''list_dashboards'', ''Looking through your dashboards'' @ ellipsis, ''Dashboards''),
     (''get_dashboard'', ''Opening your dashboard'' @ ellipsis, ''Dashboard''),
     (''create_dashboard'', ''Building your dashboard'' @ ellipsis, ''Dashboard save''),
     (''edit_dashboard'', ''Updating your dashboard'' @ ellipsis, ''Dashboard save''),
     (''replace_dashboard'', ''Redesigning your dashboard'' @ ellipsis, ''Dashboard save''),
     (''list_dashboard_versions'', ''Reading your dashboard history'' @ ellipsis, ''Dashboard history''),
     (''restore_dashboard_version'', ''Restoring your dashboard'' @ ellipsis, ''Dashboard'')]"

definition activityLabel :: "string \<Rightarrow> string" where
  "activityLabel tool = nullish (map_option fst (map_of toolLabels tool)) (''Working on it'' @ ellipsis)"

definition toolFailureLabel :: "string \<Rightarrow> string" where
  "toolFailureLabel tool = nullish (map_option snd (map_of toolLabels tool)) ''Analysis step''"

definition runErrorMessage :: "string option \<Rightarrow> string" where
  "runErrorMessage code =
    (if code = Some ''provider_unavailable'' then ''Fanout could not reach the model provider. Please try again.''
     else if code = Some ''step_limit'' then ''Fanout reached its step limit before finishing. Try a narrower question.''
     else if code = Some ''time_limit'' then ''Fanout reached its 5-minute time limit. Try a smaller request.''
     else ''Fanout could not complete this analysis. Please try again.'')"

text \<open>Every mutation and every context tool of a receipt has its own words.\<close>

lemma toolLabels_complete:
  "set mutationNames \<union> set contextTools \<union> {''get_telemetry_schema'', ''preview_panels''} \<subseteq> fst ` set toolLabels"
  by (simp add: toolLabels_def mutationNames_def contextTools_def)

section \<open>Receipts of a conversation (useDashboardReceipts)\<close>

text \<open>
  Messages with their identity: the code compares the last message of a turn by reference. A
  cached turn keeps its last message, its length and its receipt.
\<close>

type_synonym chat = "(nat \<times> message) list"

type_synonym receipt_cache = "(string, nat \<times> nat \<times> receipt option) omap"

definition question_starts :: "chat \<Rightarrow> nat list" where
  "question_starts ms = indices_where (\<lambda>m. m_role (snd m) = RUser) ms"

definition turn_slice :: "chat \<Rightarrow> nat \<Rightarrow> nat \<Rightarrow> chat" where
  "turn_slice ms start till = drop start (take till ms)"

definition slice_end :: "chat \<Rightarrow> nat list \<Rightarrow> nat \<Rightarrow> nat" where
  "slice_end ms starts k = nullish (nth_opt starts (Suc k)) (length ms)"

definition slice_receipt :: "(num \<Rightarrow> string) \<Rightarrow> (string \<Rightarrow> json option) \<Rightarrow> chat \<Rightarrow> receipt option" where
  "slice_receipt sn jp turn = receiptForTurn sn jp (map snd turn) (m_id (snd (hd turn)))"

definition receipts_step :: "(num \<Rightarrow> string) \<Rightarrow> (string \<Rightarrow> json option) \<Rightarrow> chat \<Rightarrow> nat list
    \<Rightarrow> (string, receipt) omap \<times> receipt_cache \<Rightarrow> nat \<Rightarrow> (string, receipt) omap \<times> receipt_cache" where
  "receipts_step sn jp ms starts st k = (case st of (shown, cache) \<Rightarrow>
    (let start = starts ! k; till = slice_end ms starts k; turn = turn_slice ms start till;
         user = m_id (snd (ms ! start)); last_id = fst (ms ! (till - 1));
         rc = (case map_of cache user of
            Some (l, n, c) \<Rightarrow> if l = last_id \<and> n = till - start then c else slice_receipt sn jp turn
          | None \<Rightarrow> slice_receipt sn jp turn)
     in (case rc of Some r \<Rightarrow> AList.update user r shown | None \<Rightarrow> shown,
         if Suc k < length starts then AList.update user (last_id, till - start, rc) cache else cache)))"

definition useDashboardReceipts :: "(num \<Rightarrow> string) \<Rightarrow> (string \<Rightarrow> json option) \<Rightarrow> receipt_cache \<Rightarrow> chat
    \<Rightarrow> (string, receipt) omap \<times> receipt_cache" where
  "useDashboardReceipts sn jp cache ms =
    (let starts = question_starts ms; ids = map (\<lambda>s. m_id (snd (ms ! s))) starts;
         (shown, cache') = foldl (receipts_step sn jp ms starts) ([], cache) [0..<length starts]
     in (shown, filter (\<lambda>(i, _). i \<in> set ids) cache'))"

text \<open>A cache entry that answers for a turn of this id, last message and length.\<close>

definition cache_good :: "(num \<Rightarrow> string) \<Rightarrow> (string \<Rightarrow> json option) \<Rightarrow> chat \<Rightarrow> receipt_cache \<Rightarrow> bool" where
  "cache_good sn jp ms cache \<longleftrightarrow> (\<forall>k < length (question_starts ms). \<forall>l n c.
     (let start = question_starts ms ! k; till = slice_end ms (question_starts ms) k in
       map_of cache (m_id (snd (ms ! start))) = Some (l, n, c) \<and> l = fst (ms ! (till - 1)) \<and> n = till - start
         \<longrightarrow> c = slice_receipt sn jp (turn_slice ms start till)))"

text \<open>Without a cache: every turn's receipt computed afresh.\<close>

definition fresh_step :: "(num \<Rightarrow> string) \<Rightarrow> (string \<Rightarrow> json option) \<Rightarrow> chat \<Rightarrow> nat list
    \<Rightarrow> (string, receipt) omap \<Rightarrow> nat \<Rightarrow> (string, receipt) omap" where
  "fresh_step sn jp ms starts shown k =
    (case slice_receipt sn jp (turn_slice ms (starts ! k) (slice_end ms starts k)) of
       Some r \<Rightarrow> AList.update (m_id (snd (ms ! (starts ! k)))) r shown | None \<Rightarrow> shown)"

lemma receipts_fresh:
  assumes "cache_good sn jp ms cache" "distinct (map (\<lambda>s. m_id (snd (ms ! s))) (question_starts ms))"
    and "n \<le> length (question_starts ms)"
  shows "fst (foldl (receipts_step sn jp ms (question_starts ms)) ([], cache) [0..<n])
      = foldl (fresh_step sn jp ms (question_starts ms)) [] [0..<n]
    \<and> (\<forall>j. n \<le> j \<and> j < length (question_starts ms) \<longrightarrow>
        map_of (snd (foldl (receipts_step sn jp ms (question_starts ms)) ([], cache) [0..<n]))
          (m_id (snd (ms ! (question_starts ms ! j)))) = map_of cache (m_id (snd (ms ! (question_starts ms ! j)))))"
  using assms(3)
proof (induction n)
  case (Suc n)
  let ?starts = "question_starts ms"
  let ?id = "\<lambda>j. m_id (snd (ms ! (?starts ! j)))"
  obtain shown c where st: "foldl (receipts_step sn jp ms ?starts) ([], cache) [0..<n] = (shown, c)" by fastforce
  have IH: "shown = foldl (fresh_step sn jp ms ?starts) [] [0..<n]"
    "\<And>j. n \<le> j \<Longrightarrow> j < length ?starts \<Longrightarrow> map_of c (?id j) = map_of cache (?id j)"
    using Suc st by auto
  let ?turn = "turn_slice ms (?starts ! n) (slice_end ms ?starts n)"
  define rc where "rc = (case map_of c (?id n) of
      Some (l, m, r) \<Rightarrow> if l = fst (ms ! (slice_end ms ?starts n - 1)) \<and> m = slice_end ms ?starts n - ?starts ! n
        then r else slice_receipt sn jp ?turn
    | None \<Rightarrow> slice_receipt sn jp ?turn)"
  have rc: "rc = slice_receipt sn jp ?turn"
  proof (cases "map_of cache (?id n)")
    case (Some e)
    obtain l m r where e: "e = (l, m, r)" by (metis prod_cases3)
    have n: "n < length ?starts" using Suc.prems by simp
    have "l = fst (ms ! (slice_end ms ?starts n - 1)) \<and> m = slice_end ms ?starts n - ?starts ! n
        \<longrightarrow> r = slice_receipt sn jp ?turn"
      using assms(1) [unfolded cache_good_def Let_def, rule_format, OF n, of l m r] Some [unfolded e] by blast
    then show ?thesis using IH(2) [of n] Suc.prems Some e by (simp add: rc_def)
  qed (use IH(2) [of n] Suc.prems in \<open>simp add: rc_def\<close>)
  have step: "receipts_step sn jp ms ?starts (shown, c) n =
      (case rc of Some r \<Rightarrow> AList.update (?id n) r shown | None \<Rightarrow> shown,
       if Suc n < length ?starts then AList.update (?id n)
         (fst (ms ! (slice_end ms ?starts n - 1)), slice_end ms ?starts n - ?starts ! n, rc) c else c)"
    unfolding receipts_step_def prod.case Let_def rc_def ..
  have other: "?id j \<noteq> ?id n" if "Suc n \<le> j" "j < length ?starts" for j
    using assms(2) that Suc.prems by (simp add: distinct_conv_nth)
  have "foldl (receipts_step sn jp ms ?starts) ([], cache) [0..<Suc n] = receipts_step sn jp ms ?starts (shown, c) n"
    by (simp add: st)
  moreover have "(case rc of Some r \<Rightarrow> AList.update (?id n) r shown | None \<Rightarrow> shown)
      = foldl (fresh_step sn jp ms ?starts) [] [0..<Suc n]"
    by (simp add: IH(1) [symmetric] fresh_step_def rc)
  ultimately show ?case using IH(2) other by (simp add: step update_conv)
qed simp

section \<open>Properties\<close>

text \<open>
  Caching the receipts of finished turns never shows a stale one: as long as a
  turn of the same question, last message and length is the same turn, what is shown is what
  computing every turn's receipt afresh would show.
\<close>

theorem receipt_cache_is_transparent:
  assumes "cache_good sn jp ms cache" "distinct (map (\<lambda>s. m_id (snd (ms ! s))) (question_starts ms))"
  shows "fst (useDashboardReceipts sn jp cache ms)
    = foldl (fresh_step sn jp ms (question_starts ms)) [] [0..<length (question_starts ms)]"
  using receipts_fresh [OF assms order_refl]
  by (auto simp: useDashboardReceipts_def Let_def split: prod.split)

definition demo_chat :: chat where
  "demo_chat = [(0, \<lparr>m_id = ''u'', m_role = RUser, m_calls = [], m_call_id = [], m_content = None, m_error = False\<rparr>)]"

lemma demo_chat_starts: "question_starts demo_chat = [0]"
  by (simp add: question_starts_def indices_where_def demo_chat_def)

theorem receipt_cache_is_transparent_witness:
  "fst (useDashboardReceipts (\<lambda>_. []) (\<lambda>_. None) [(''old'', 7, 1, None)] demo_chat) = []"
proof -
  have "cache_good (\<lambda>_. []) (\<lambda>_. None) demo_chat [(''old'', 7, 1, None)]"
    by (simp add: cache_good_def demo_chat_starts Let_def) (simp add: demo_chat_def)
  moreover have "slice_receipt (\<lambda>_. []) (\<lambda>_. None) demo_chat = None"
    by (simp add: slice_receipt_def receiptForTurn_def demo_chat_def turn_of_def calls_of_def refused_def)
  moreover have "turn_slice demo_chat 0 (slice_end demo_chat [0] 0) = demo_chat"
    by (simp add: turn_slice_def slice_end_def demo_chat_def)
  ultimately show ?thesis
    using receipt_cache_is_transparent [of "\<lambda>_. []" "\<lambda>_. None" demo_chat "[(''old'', 7, 1, None)]"]
    by (simp add: demo_chat_starts fresh_step_def)
qed

end
