(* ===== verification/Chat_Scroll.thy ===== *)
theory Chat_Scroll
  imports Prelude
begin

text \<open>
  ui/host/src/chat-scroll.ts (useTurnAnchor): where the chat scrolls to as messages arrive and
  change size. The browser's layout is a parameter: a geometry for every minimum height of the
  turn. Offsets are positions in the content; a node at offset o shows at the pane's inner y
  plus o minus scrollTop, and scrollTop is clamped to the content.
\<close>

definition questionInset :: real where "questionInset = 16"

record geometry =
  ge_top :: real
  ge_client_top :: real
  ge_client :: real
  ge_height :: real
  ge_padding :: real
  ge_turn :: "real option"
  ge_newest :: "real option"
  ge_anchors :: "(nat \<times> real \<times> real) list"

type_synonym layout = "real option \<Rightarrow> geometry"

record scroll_state =
  ss_pane :: bool
  ss_scroll :: real
  ss_anchored :: bool
  ss_question :: "string option"
  ss_reader :: "(nat \<times> real) option"
  ss_programmatic :: "real option"
  ss_min :: "real option"
  ss_dragging :: bool
  ss_jump :: bool

definition set_scroll :: "geometry \<Rightarrow> real \<Rightarrow> real" where
  "set_scroll g s = max 0 (min (ge_height g - ge_client g) s)"

definition inner_top :: "geometry \<Rightarrow> real" where
  "inner_top g = ge_top g + ge_client_top g"

definition shown_at :: "geometry \<Rightarrow> real \<Rightarrow> real \<Rightarrow> real" where
  "shown_at g scroll offset = inner_top g + offset - scroll"

definition updateJump :: "geometry \<Rightarrow> scroll_state \<Rightarrow> scroll_state" where
  "updateJump g s =
    (let below = (\<not> ss_pane s \<or> (case ge_newest g of None \<Rightarrow> True
         | Some b \<Rightarrow> inner_top g + ge_client g + 1 < shown_at g (ss_scroll s) b))
     in s\<lparr>ss_jump := ss_pane s \<and> below \<and> 1 < ge_height g - ge_client g - ss_scroll s\<rparr>)"

text \<open>The first message whose bottom is below the pane's top, with where it shows.\<close>

definition captureAnchor :: "geometry \<Rightarrow> scroll_state \<Rightarrow> scroll_state" where
  "captureAnchor g s = (if \<not> ss_pane s then s
     else s\<lparr>ss_reader := map_option (\<lambda>(n, t, _). (n, shown_at g (ss_scroll s) t))
       (find (\<lambda>(_, _, b). inner_top g < shown_at g (ss_scroll s) b) (ge_anchors g))\<rparr>)"

definition moveTo :: "geometry \<Rightarrow> real \<Rightarrow> scroll_state \<Rightarrow> scroll_state" where
  "moveTo g y s = s\<lparr>ss_scroll := set_scroll g y, ss_programmatic := Some (set_scroll g y)\<rparr>"

definition node_offset :: "geometry \<Rightarrow> nat \<Rightarrow> real option" where
  "node_offset g n = map_option (\<lambda>(_, t, _). t) (find (\<lambda>(m, _, _). m = n) (ge_anchors g))"

text \<open>The height floor of the turn, and the question moved to its inset while anchored.\<close>

definition align_turn :: "layout \<Rightarrow> scroll_state \<Rightarrow> scroll_state" where
  "align_turn w s = (case ge_turn (w (ss_min s)) of
      None \<Rightarrow> s
    | Some _ \<Rightarrow>
        (let g0 = w (ss_min s); m = Some (max 0 (ge_client g0 - questionInset - ge_padding g0)); g = w m;
             s1 = s\<lparr>ss_min := m\<rparr>
         in if ss_anchored s then moveTo g (ss_scroll s
                + (shown_at g (ss_scroll s) (nullish (ge_turn g) 0) - ge_top g - ge_client_top g - questionInset)) s1
            else s1))"

definition align_reader :: "geometry \<Rightarrow> scroll_state \<Rightarrow> scroll_state" where
  "align_reader g s = (if ss_anchored s then s
     else captureAnchor g (case ss_reader s of
         None \<Rightarrow> s
       | Some (n, y) \<Rightarrow> (case node_offset g n of
           None \<Rightarrow> s | Some t \<Rightarrow> moveTo g (ss_scroll s + (shown_at g (ss_scroll s) t - y)) s)))"

definition align :: "layout \<Rightarrow> scroll_state \<Rightarrow> scroll_state" where
  "align w s = (if \<not> ss_pane s then s
     else let s1 = align_turn w s; g = w (ss_min s1) in updateJump g (align_reader g s1))"

section \<open>Events\<close>

datatype target_kind = InField | InButton | InSlider | Elsewhere

datatype scroll_event =
    Attach bool
  | Layout
  | Render "string option"
  | BrowserScroll real
  | Wheel
  | TouchMove
  | KeyDown string target_kind bool
  | PointerDown
  | PointerUp
  | JumpToLatest

definition scrollKeys :: "string list" where
  "scrollKeys = [''ArrowUp'', ''ArrowDown'', ''PageUp'', ''PageDown'', ''Home'', ''End'', '' '']"

text \<open>A key that the pane scrolls on: not in a field, not one a button or a slider takes.\<close>

definition scrolls :: "string \<Rightarrow> target_kind \<Rightarrow> bool \<Rightarrow> bool" where
  "scrolls key target prevented \<longleftrightarrow> \<not> prevented \<and> key \<in> set scrollKeys \<and> target \<noteq> InField
     \<and> \<not> (if key = '' '' then target = InButton else target = InSlider)"

definition release :: "geometry \<Rightarrow> scroll_state \<Rightarrow> scroll_state" where
  "release g s = captureAnchor g (s\<lparr>ss_anchored := False\<rparr>)"

definition on_scroll :: "geometry \<Rightarrow> real \<Rightarrow> scroll_state \<Rightarrow> scroll_state" where
  "on_scroll g y s =
    (let s0 = s\<lparr>ss_scroll := set_scroll g y\<rparr>;
         s1 = (if ss_dragging s0 \<and> Some (ss_scroll s0) \<noteq> ss_programmatic s0 then release g s0 else s0);
         s2 = (if ss_anchored s1 then s1 else captureAnchor g s1)
     in updateJump g s2)"

text \<open>
  A render whose latest question is another one anchors again; then the layout effect aligns.
  Attaching a pane starts anchored.
\<close>

definition scroll_step :: "scroll_state \<Rightarrow> layout \<times> scroll_event \<Rightarrow> scroll_state" where
  "scroll_step s ev = (case ev of (w, e) \<Rightarrow> (let g = w (ss_min s) in case e of
      Attach p \<Rightarrow> (let s1 = s\<lparr>ss_pane := p, ss_programmatic := None, ss_reader := None, ss_anchored := True,
          ss_dragging := (if p then False else ss_dragging s)\<rparr>
        in if p then align w s1 else s1)
    | Layout \<Rightarrow> align w s
    | Render q \<Rightarrow> align w (if ss_question s = q then s
        else s\<lparr>ss_question := q, ss_anchored := True, ss_reader := None\<rparr>)
    | BrowserScroll y \<Rightarrow> on_scroll g y s
    | Wheel \<Rightarrow> release g s
    | TouchMove \<Rightarrow> release g s
    | KeyDown k t p \<Rightarrow> if scrolls k t p then release g s else s
    | PointerDown \<Rightarrow> s\<lparr>ss_dragging := True\<rparr>
    | PointerUp \<Rightarrow> s\<lparr>ss_dragging := False\<rparr>
    | JumpToLatest \<Rightarrow> if ss_pane s then updateJump g (captureAnchor g (moveTo g (ge_height g) (s\<lparr>ss_anchored := False\<rparr>))) else s))"

section \<open>Lemmas\<close>

lemma updateJump_keeps [simp]:
  "ss_anchored (updateJump g s) = ss_anchored s" "ss_scroll (updateJump g s) = ss_scroll s"
  "ss_reader (updateJump g s) = ss_reader s" "ss_dragging (updateJump g s) = ss_dragging s"
  "ss_min (updateJump g s) = ss_min s" "ss_pane (updateJump g s) = ss_pane s"
  by (simp_all add: updateJump_def Let_def)

lemma captureAnchor_keeps [simp]:
  "ss_anchored (captureAnchor g s) = ss_anchored s" "ss_scroll (captureAnchor g s) = ss_scroll s"
  "ss_dragging (captureAnchor g s) = ss_dragging s" "ss_min (captureAnchor g s) = ss_min s"
  "ss_pane (captureAnchor g s) = ss_pane s"
  by (simp_all add: captureAnchor_def)

lemma moveTo_keeps [simp]:
  "ss_anchored (moveTo g t s) = ss_anchored s" "ss_scroll (moveTo g t s) = set_scroll g t"
  "ss_reader (moveTo g t s) = ss_reader s" "ss_dragging (moveTo g t s) = ss_dragging s"
  "ss_min (moveTo g t s) = ss_min s" "ss_pane (moveTo g t s) = ss_pane s"
  by (simp_all add: moveTo_def)

lemma align_turn_keeps:
  "ss_anchored (align_turn w s) = ss_anchored s" "ss_reader (align_turn w s) = ss_reader s"
  "ss_dragging (align_turn w s) = ss_dragging s" "ss_pane (align_turn w s) = ss_pane s"
  "\<not> ss_anchored s \<Longrightarrow> ss_scroll (align_turn w s) = ss_scroll s"
  by (auto simp: align_turn_def Let_def split: option.splits)

lemma align_reader_keeps:
  "ss_anchored (align_reader g s) = ss_anchored s" "ss_dragging (align_reader g s) = ss_dragging s"
  "ss_anchored s \<Longrightarrow> align_reader g s = s" "ss_pane (align_reader g s) = ss_pane s"
  "ss_min (align_reader g s) = ss_min s"
  by (auto simp: align_reader_def split: option.splits)

lemma align_keeps: "ss_anchored (align w s) = ss_anchored s" "ss_dragging (align w s) = ss_dragging s"
  by (simp_all add: align_def Let_def align_turn_keeps align_reader_keeps)

definition reader_input :: "scroll_event \<Rightarrow> bool" where
  "reader_input e = (case e of
      Wheel \<Rightarrow> True | TouchMove \<Rightarrow> True | KeyDown k t p \<Rightarrow> scrolls k t p | PointerDown \<Rightarrow> True | JumpToLatest \<Rightarrow> True
    | _ \<Rightarrow> False)"

definition holds_question :: "scroll_state \<Rightarrow> bool" where
  "holds_question s \<longleftrightarrow> ss_anchored s \<and> \<not> ss_dragging s"

lemma scroll_step_holds:
  "holds_question s \<Longrightarrow> \<not> reader_input (snd ev) \<Longrightarrow> holds_question (scroll_step s ev)"
  by (cases ev; cases "snd ev")
    (auto simp: scroll_step_def holds_question_def reader_input_def align_keeps on_scroll_def Let_def)

lemma run_holds_question:
  "holds_question s \<Longrightarrow> list_all (\<lambda>ev. \<not> reader_input (snd ev)) evs \<Longrightarrow> holds_question (foldl scroll_step s evs)"
  by (induction evs arbitrary: s) (simp_all add: scroll_step_holds)

lemma align_turn_anchored:
  assumes "ss_anchored s" "ge_turn (w (ss_min s)) \<noteq> None" "ge_turn (w (ss_min (align_turn w s))) = Some t"
  shows "ss_scroll (align_turn w s) = set_scroll (w (ss_min (align_turn w s))) (t - questionInset)"
  using assms by (auto simp: align_turn_def Let_def shown_at_def inner_top_def)

lemma align_anchored:
  assumes "ss_pane s" "ss_anchored s" "ge_turn (w (ss_min s)) \<noteq> None" "ge_turn (w (ss_min (align w s))) = Some t"
  shows "ss_scroll (align w s) = set_scroll (w (ss_min (align w s))) (t - questionInset)"
proof -
  have m: "ss_min (align w s) = ss_min (align_turn w s)" "ss_scroll (align w s) = ss_scroll (align_turn w s)"
    using assms(1,2) by (simp_all add: align_def Let_def align_reader_keeps align_turn_keeps)
  show ?thesis
    unfolding m by (rule align_turn_anchored) (use assms m in simp_all)
qed

lemma align_released:
  assumes "ss_pane s" "\<not> ss_anchored s" "ss_reader s = Some (n, y)"
    and "g = w (ss_min (align w s))" "node_offset g n = Some t"
    and "0 \<le> t + inner_top g - y" "t + inner_top g - y \<le> ge_height g - ge_client g"
  shows "shown_at g (ss_scroll (align w s)) t = y"
proof -
  define s1 where "s1 = align_turn w s"
  have k: "\<not> ss_anchored s1" "ss_reader s1 = Some (n, y)" "ss_scroll s1 = ss_scroll s"
    using assms(2,3) by (simp_all add: s1_def align_turn_keeps)
  have g: "g = w (ss_min s1)" using assms(1,4) by (simp add: align_def Let_def s1_def align_reader_keeps)
  have "ss_scroll (align w s) = set_scroll g (ss_scroll s + (shown_at g (ss_scroll s) t - y))"
    using assms(1,5) k by (simp add: align_def Let_def s1_def [symmetric] g [symmetric] align_reader_def)
  also have "\<dots> = t + inner_top g - y" using assms(6,7) by (simp add: set_scroll_def shown_at_def)
  finally show ?thesis by (simp add: shown_at_def)
qed

section \<open>Properties\<close>

text \<open>
  Property C39. The latest question is let go only by the reader: over any sequence of layout
  changes, renders, attached panes and scrolls of the browser itself, a chat that shows its
  question stays on it, and each layout change puts the question back 16 pixels below the top
  of the pane, or as near as the content lets it scroll.
\<close>

theorem only_the_reader_releases_the_question:
  assumes "holds_question s" "list_all (\<lambda>ev. \<not> reader_input (snd ev)) evs" "s' = foldl scroll_step s evs"
    and "ss_pane s'" "ge_turn (w (ss_min s')) \<noteq> None" "g = w (ss_min (align w s'))" "ge_turn g = Some t"
  shows "holds_question s' \<and> ss_scroll (scroll_step s' (w, Layout)) = set_scroll g (t - questionInset)
    \<and> (questionInset \<le> t \<and> t - questionInset \<le> ge_height g - ge_client g
        \<longrightarrow> shown_at g (ss_scroll (scroll_step s' (w, Layout))) t = inner_top g + questionInset)"
proof -
  have h: "holds_question s'" using run_holds_question [OF assms(1,2)] assms(3) by simp
  then have "ss_scroll (align w s') = set_scroll g (t - questionInset)"
    using align_anchored [of s' w t] assms(4-7) by (simp add: holds_question_def)
  with h show ?thesis by (auto simp: scroll_step_def Let_def set_scroll_def shown_at_def)
qed

definition demo_geometry :: geometry where
  "demo_geometry = \<lparr>ge_top = 0, ge_client_top = 0, ge_client = 100, ge_height = 500, ge_padding = 0,
     ge_turn = Some 300, ge_newest = Some 450, ge_anchors = [(7, 120, 160)]\<rparr>"

definition demo_scroll :: scroll_state where
  "demo_scroll = \<lparr>ss_pane = True, ss_scroll = 0, ss_anchored = True, ss_question = Some ''q'', ss_reader = None,
     ss_programmatic = None, ss_min = None, ss_dragging = False, ss_jump = False\<rparr>"

theorem only_the_reader_releases_the_question_witness:
  "ss_scroll (scroll_step (foldl scroll_step demo_scroll []) (\<lambda>_. demo_geometry, Layout)) = 284"
  using only_the_reader_releases_the_question [of demo_scroll "[]" demo_scroll "\<lambda>_. demo_geometry" demo_geometry 300]
  by (simp add: holds_question_def demo_scroll_def demo_geometry_def set_scroll_def questionInset_def)

text \<open>
  Once released, late growth does not move what the reader sees: a layout change
  leaves the message the reader was at exactly where it showed, whenever the content can be
  scrolled there.
\<close>

theorem reader_keeps_the_message:
  assumes "ss_pane s" "\<not> ss_anchored s" "ss_reader s = Some (n, y)"
    and "g = w (ss_min (align w s))" "node_offset g n = Some t"
    and "0 \<le> t + inner_top g - y" "t + inner_top g - y \<le> ge_height g - ge_client g"
  shows "shown_at g (ss_scroll (scroll_step s (w, Layout))) t = y \<and> \<not> ss_anchored (scroll_step s (w, Layout))"
  using align_released [where w = w, OF assms] assms(2) by (simp add: scroll_step_def Let_def align_keeps)

theorem reader_keeps_the_message_witness:
  "shown_at demo_geometry (ss_scroll (scroll_step
     (demo_scroll\<lparr>ss_anchored := False, ss_reader := Some (7, 40)\<rparr>) (\<lambda>_. demo_geometry, Layout))) 120 = 40"
  using reader_keeps_the_message [of "demo_scroll\<lparr>ss_anchored := False, ss_reader := Some (7, 40)\<rparr>" 7 40
      demo_geometry "\<lambda>_. demo_geometry" 120]
  by (simp add: demo_scroll_def demo_geometry_def node_offset_def inner_top_def)

end
