(* ===== verification/Panel_Fragment.thy ===== *)
theory Panel_Fragment
  imports Drill
begin

text \<open>
  ui/panels/fragment.ts and content.ts, and ui/host/src/mcp-app-content.ts, dashboards/layout.ts,
  panel-handlers.ts and query-keys.ts: the panels a tool result carries to a chat card, checked
  before they are shown, the size and handlers of a panel and the keys its results are cached by.
\<close>

section \<open>The check of a fragment (panelFragment)\<close>

text \<open>\<open>/^[a-f0-9]{64}$/.test(key)\<close> coerces its argument to text.\<close>

definition hex_key :: "string \<Rightarrow> bool" where
  "hex_key s \<longleftrightarrow> length s = 64 \<and> list_all (\<lambda>c. is_digit c \<or> 97 \<le> byte c \<and> byte c \<le> 102) s"

definition prop_text :: "(num \<Rightarrow> string) \<Rightarrow> json option \<Rightarrow> string" where
  "prop_text sn v = (case v of None \<Rightarrow> ''undefined'' | Some x \<Rightarrow> js_string sn x)"

definition view_identity :: "(num \<Rightarrow> string) \<Rightarrow> json \<Rightarrow> bool" where
  "view_identity sn f = (case jget ''view'' f of
      None \<Rightarrow> False
    | Some v \<Rightarrow> truthy (Some v) \<and> (case jstr ''kind'' v of Some k \<Rightarrow> k = ''preset'' \<or> k = ''query'' | None \<Rightarrow> False)
        \<and> hex_key (prop_text sn (jget ''key'' v)))"

definition fragment_panels :: "json \<Rightarrow> json list option" where
  "fragment_panels f = Option.bind (jget ''dashboard'' f) (jarr ''panels'')"

definition fragment_shape :: "json \<Rightarrow> bool" where
  "fragment_shape f \<longleftrightarrow>
     Option.bind (Option.bind (jget ''dashboard'' f) (jget ''version'')) as_num = Some (Fin 1)
     \<and> (case (fragment_panels f, jarr ''results'' f) of
         (Some ps, Some _) \<Rightarrow> ps \<noteq> [] \<and> length ps \<le> 40 | _ \<Rightarrow> False)"

definition ids_named :: "json \<Rightarrow> bool" where
  "ids_named f = (case (fragment_panels f, jarr ''results'' f) of
      (Some ps, Some rs) \<Rightarrow> list_all (\<lambda>p. (case jstr ''id'' p of Some i \<Rightarrow> i \<noteq> [] | None \<Rightarrow> False)) ps
        \<and> list_all (\<lambda>r. jstr ''id'' r \<noteq> None) rs
    | _ \<Rightarrow> False)"

definition id_of :: "json \<Rightarrow> string" where
  "id_of v = nullish (jstr ''id'' v) []"

definition result_statuses :: "string list" where
  "result_statuses = [''ok'', ''empty'', ''error'', ''invalid'']"

definition results_match :: "json \<Rightarrow> bool" where
  "results_match f = (case (fragment_panels f, jarr ''results'' f) of
      (Some ps, Some rs) \<Rightarrow>
        (let ids = uniq (map id_of ps)
         in length ids = length ps \<and> length rs = length ids \<and> length (uniq (map id_of rs)) = length ids
            \<and> list_all (\<lambda>r. id_of r \<in> set ids
                \<and> (case jstr ''status'' r of Some st \<Rightarrow> st \<in> set result_statuses | None \<Rightarrow> False)) rs)
    | _ \<Rightarrow> False)"

definition vars_shape :: "json \<Rightarrow> bool" where
  "vars_shape f = (case jget ''vars'' f of
      None \<Rightarrow> True
    | Some (JObj kvs) \<Rightarrow> list_all (\<lambda>(_, v). (case v of
          JStr _ \<Rightarrow> True | JArr xs \<Rightarrow> list_all (\<lambda>x. as_str x \<noteq> None) xs | _ \<Rightarrow> False)) kvs
    | _ \<Rightarrow> False)"

definition trace_shape :: "json \<Rightarrow> bool" where
  "trace_shape f = (case jget ''trace'' f of
      None \<Rightarrow> True
    | Some t \<Rightarrow> (case jget ''data'' t of
        None \<Rightarrow> False
      | Some d \<Rightarrow> truthy (Some d) \<and> jarr ''spans'' d \<noteq> None \<and> jarr ''logs'' d \<noteq> None \<and> jarr ''services'' d \<noteq> None))"

definition panelFragment :: "(num \<Rightarrow> string) \<Rightarrow> json option \<Rightarrow> json result" where
  "panelFragment sn v = (case v of
      Some (JObj kvs) \<Rightarrow>
        (let f = JObj kvs
         in guard_err (\<not> view_identity sn f) ''Invalid panel view identity''
           (guard_err (\<not> fragment_shape f) ''Invalid panel view''
           (guard_err (\<not> ids_named f) ''Invalid panel view''
           (guard_err (\<not> results_match f) ''Panel results do not match the view''
           (guard_err (\<not> vars_shape f) ''Invalid panel variables''
           (guard_err (\<not> trace_shape f) ''Invalid trace detail'' (Inr f)))))))
    | _ \<Rightarrow> Inl ''Missing panel view'')"

definition fragmentTitle :: "json \<Rightarrow> string option" where
  "fragmentTitle f = (case fragment_panels f of
      Some [p] \<Rightarrow> jstr ''title'' p
    | _ \<Rightarrow> Option.bind (jget ''dashboard'' f) (jstr ''name''))"

text \<open>Matching ids: every panel has one result and every result a panel.\<close>

lemma length_uniq_distinct: "length (uniq xs) = length xs \<longleftrightarrow> distinct xs"
proof
  assume "length (uniq xs) = length xs"
  then show "distinct xs"
    by (metis card_distinct distinct_card distinct_uniq set_uniq)
qed (simp add: uniq_distinct)

lemma results_match_mset:
  assumes "results_match f" "fragment_panels f = Some ps" "jarr ''results'' f = Some rs"
  shows "distinct (map id_of ps)" "mset (map id_of rs) = mset (map id_of ps)"
proof -
  have ids: "distinct (map id_of ps)" "length rs = length (uniq (map id_of ps))"
      "length (uniq (map id_of rs)) = length (uniq (map id_of ps))" "set (map id_of rs) \<subseteq> set (map id_of ps)"
    using assms by (auto simp: results_match_def Let_def list_all_iff length_uniq_distinct [symmetric])
  then have rs: "distinct (map id_of rs)"
    by (metis length_map length_uniq_distinct uniq_distinct)
  have "set (map id_of rs) = set (map id_of ps)"
  proof (rule card_subset_eq)
    show "card (set (map id_of rs)) = card (set (map id_of ps))"
      using ids by (simp only: distinct_card [OF rs] distinct_card [OF ids(1)] length_map uniq_distinct [OF ids(1)])
  qed (use ids(4) in simp_all)
  with ids(1) rs show "mset (map id_of rs) = mset (map id_of ps)"
    by (simp only: set_eq_iff_mset_eq_distinct)
  show "distinct (map id_of ps)" by (rule ids)
qed

section \<open>The content of a chat card (mcpAppContent)\<close>

text \<open>
  Snapshots are immutable objects: \<open>i\<close> is the identity of the object, and \<open>validated\<close> the
  identities that were accepted before.
\<close>

definition card_keys :: string where
  "card_keys = ''is_error,resource_uri,tool_input,tool_name,tool_result''"

definition card_ok :: "(num \<Rightarrow> string) \<Rightarrow> (string \<times> json) list \<Rightarrow> bool" where
  "card_ok sn kvs \<longleftrightarrow> join '','' (sort_by str_le (map fst kvs)) = card_keys
     \<and> jstr ''resource_uri'' (JObj kvs) = Some ''ui://fanout/panels.html''
     \<and> (case jstr ''tool_name'' (JObj kvs) of Some n \<Rightarrow> n \<noteq> [] | None \<Rightarrow> False)
     \<and> Option.bind (map_of kvs ''is_error'') as_bool \<noteq> None
     \<and> Option.bind (map_of kvs ''tool_input'') as_obj \<noteq> None
     \<and> (case panelFragment sn (map_of kvs ''tool_result'') of Inr _ \<Rightarrow> True | Inl _ \<Rightarrow> False)"

definition mcpAppContent :: "(num \<Rightarrow> string) \<Rightarrow> nat set \<Rightarrow> nat \<Rightarrow> json option \<Rightarrow> json option \<times> nat set" where
  "mcpAppContent sn validated i v = (case v of
      Some (JObj kvs) \<Rightarrow>
        if i \<in> validated then (Some (JObj kvs), validated)
        else if card_ok sn kvs then (Some (JObj kvs), insert i validated)
        else (None, validated)
    | _ \<Rightarrow> (None, validated))"

text \<open>One call after the other; each object has one identity.\<close>

definition card_calls :: "(num \<Rightarrow> string) \<Rightarrow> (nat \<times> json option) list \<Rightarrow> json option list \<times> nat set" where
  "card_calls sn calls = foldl (\<lambda>(outs, seen) (i, v).
     (case mcpAppContent sn seen i v of (out, seen') \<Rightarrow> (outs @ [out], seen'))) ([], {}) calls"

definition checked_card :: "(num \<Rightarrow> string) \<Rightarrow> json option \<Rightarrow> json option" where
  "checked_card sn v = (case v of Some (JObj kvs) \<Rightarrow> if card_ok sn kvs then Some (JObj kvs) else None | _ \<Rightarrow> None)"

lemma card_calls_checked:
  assumes "\<And>i v w. (i, v) \<in> set calls \<Longrightarrow> (i, w) \<in> set calls \<Longrightarrow> v = w"
  shows "fst (card_calls sn calls) = map (\<lambda>(i, v). checked_card sn v) calls
    \<and> (\<forall>i \<in> snd (card_calls sn calls). \<exists>v. (i, v) \<in> set calls \<and> checked_card sn v = v \<and> v \<noteq> None)"
  using assms
proof (induction calls rule: rev_induct)
  case Nil
  then show ?case by (simp add: card_calls_def)
next
  case (snoc c calls)
  obtain i v where c: "c = (i, v)" by fastforce
  obtain outs seen where st: "card_calls sn calls = (outs, seen)" by fastforce
  have IH: "outs = map (\<lambda>(i, v). checked_card sn v) calls"
    "\<forall>j \<in> seen. \<exists>w. (j, w) \<in> set calls \<and> checked_card sn w = w \<and> w \<noteq> None"
    using snoc.IH snoc.prems st by (auto simp: c)
  have step: "card_calls sn (calls @ [c])
      = (case mcpAppContent sn seen i v of (out, seen') \<Rightarrow> (outs @ [out], seen'))"
    using st by (simp add: card_calls_def c)
  show ?case
  proof (cases "i \<in> seen")
    case True
    then obtain w where w: "(i, w) \<in> set calls" "checked_card sn w = w" "w \<noteq> None" using IH(2) by blast
    with snoc.prems [of i v w] have "v = w" by (simp add: c)
    with w True have "mcpAppContent sn seen i v = (v, seen)" "checked_card sn v = v"
      by (auto simp: mcpAppContent_def checked_card_def split: option.splits json.splits if_splits)
    with step IH show ?thesis by (auto simp: c)
  next
    case False
    then have "mcpAppContent sn seen i v = (checked_card sn v, if checked_card sn v = None then seen else insert i seen)"
      by (auto simp: mcpAppContent_def checked_card_def split: option.splits json.splits)
    moreover have "checked_card sn v = None \<or> checked_card sn v = v"
      by (auto simp: checked_card_def split: option.splits json.splits)
    ultimately show ?thesis using step IH by (auto simp: c)
  qed
qed

section \<open>Layout of panels\<close>

datatype height = HSmall | HMedium | HLarge

text \<open>The panel with what only the host reads: its authored height and click action.\<close>

record host_panel = panel +
  p_height :: "height option"
  p_click :: "string option"

definition row_height :: nat where "row_height = 40"

definition margin :: nat where "margin = 12"

definition pixels :: "nat \<Rightarrow> int" where
  "pixels rows = int rows * 40 + (int rows - 1) * 12"

fun heightRows :: "height \<Rightarrow> nat" where
  "heightRows HSmall = 3" | "heightRows HMedium = 6" | "heightRows HLarge = 10"

definition default_height :: "viz \<Rightarrow> height" where
  "default_height v = (if v = ServiceMap then HLarge else if v = Stat then HSmall else HMedium)"

definition defaultRows :: "host_panel \<Rightarrow> nat" where
  "defaultRows p = max (if p_viz p = Stat then 4 else 0)
     (heightRows (nullish (p_height p) (default_height (p_viz p))))"

definition fragmentPanelHeight :: "host_panel \<Rightarrow> int" where
  "fragmentPanelHeight p = max (if p_viz p = ServiceMap then 460 else 0)
     (pixels (case p_grid p of Some (_, _, _, h) \<Rightarrow> h | None \<Rightarrow> defaultRows p))"

lemma fragmentPanelHeight_rows: "p_grid p = None \<Longrightarrow> 144 \<le> fragmentPanelHeight p"
  by (cases "nullish (p_height p) (default_height (p_viz p))")
    (auto simp: fragmentPanelHeight_def pixels_def defaultRows_def)

section \<open>Handlers of a panel\<close>

definition has_trace :: "panel_result option \<Rightarrow> string \<Rightarrow> bool" where
  "has_trace r name = (case Option.bind r r_frame of None \<Rightarrow> False
    | Some f \<Rightarrow> list_ex (\<lambda>c. c_name (f_columns f ! c) = name
        \<and> (case nth_opt (f_values f) c of Some col \<Rightarrow> list_ex (\<lambda>v. case v of CStr s \<Rightarrow> s \<noteq> [] | _ \<Rightarrow> False) col
           | None \<Rightarrow> False)) [0..<length (f_columns f)])"

text \<open>The variable a click sets, and whether a point can be drilled into.\<close>

definition panelHandlers :: "host_panel \<Rightarrow> panel_result option \<Rightarrow> bool \<Rightarrow> string option \<times> bool" where
  "panelHandlers p r on_point =
    ((case p_click p of
        Some var \<Rightarrow> if p_viz p = ServiceMap \<or> \<not> (p_drill p \<noteq> None \<and> on_point) then Some var else None
      | None \<Rightarrow> None),
     on_point \<and> (p_viz p = ServiceMap \<or> p_click p \<noteq> None \<or> p_drill p \<noteq> None \<or> has_trace r ''trace_id''
       \<or> (case p_options p of None \<Rightarrow> False
          | Some po \<Rightarrow> list_ex (\<lambda>c. cf_format c = FTraceLink \<and> has_trace r (cf_field c)) (po_columns po))))"

definition drillSelection :: "(string \<Rightarrow> json option) \<Rightarrow> (json \<Rightarrow> string) \<Rightarrow> (string \<Rightarrow> num) \<Rightarrow> host_panel
    \<Rightarrow> panel_result option \<Rightarrow> selection \<Rightarrow> (string, var_value) omap
    \<Rightarrow> (drill_target \<times> (string, var_value) omap) option result" where
  "drillSelection jp js dp p r sel vars = (case r of
      None \<Rightarrow> Inr None
    | Some r \<Rightarrow> bind_result (makeDrill jp js dp (panel.truncate p) r sel) (\<lambda>target. Inr (map_option (\<lambda>t.
        (t, case (p_click p, head_opt (map_vals (sel_dimensions sel))) of
            (Some var, Some first) \<Rightarrow> AList.update var (VStr first) vars | _ \<Rightarrow> vars)) target)))"

section \<open>Keys of cached results\<close>

record panel_content =
  ct_panels :: "panel list"
  ct_variables :: "variable list option"
  ct_time :: dashboard_time
  ct_annotations :: "bool option \<times> bool option"

definition panelContent :: "dashboard_spec \<Rightarrow> panel_content" where
  "panelContent spec = \<lparr>ct_panels = map (\<lambda>p. p\<lparr>p_grid := None\<rparr>) (ds_panels spec),
     ct_variables = ds_variables spec, ct_time = ds_time spec,
     ct_annotations = (ds_deploys spec, ds_anomalies spec)\<rparr>"

text \<open>The JSON text of these five is the key; it is injective on what the text prints.\<close>

definition panelResultsKey :: "string \<Rightarrow> dashboard_spec \<Rightarrow> dashboard_time \<Rightarrow> (string, var_value) omap \<Rightarrow> bool
    \<Rightarrow> string \<times> panel_content \<times> dashboard_time \<times> (string, var_value) omap \<times> bool" where
  "panelResultsKey i spec time vars compare = (i, panelContent spec, time, vars, compare)"

definition variableOptionsKey :: "string \<Rightarrow> dashboard_spec \<Rightarrow> dashboard_time \<Rightarrow> (string, var_value) omap
    \<Rightarrow> string \<times> panel_content \<times> dashboard_time \<times> (string, var_value) omap" where
  "variableOptionsKey scope spec time vars = (scope, panelContent spec, time, vars)"

text \<open>Moving panels on the grid keeps the results; any other change of a panel does not.\<close>

lemma panelContent_layout:
  "panelContent (spec\<lparr>ds_panels := map (\<lambda>p. p\<lparr>p_grid := g p\<rparr>) (ds_panels spec)\<rparr>) = panelContent spec"
  by (simp add: panelContent_def comp_def)

lemma panelContent_panels:
  "panelContent a = panelContent b \<Longrightarrow>
    map (\<lambda>p. (p_id p, p_title p, p_viz p, p_query p)) (ds_panels a) = map (\<lambda>p. (p_id p, p_title p, p_viz p, p_query p)) (ds_panels b)"
proof -
  assume "panelContent a = panelContent b"
  then have "map (\<lambda>p. p\<lparr>p_grid := None\<rparr>) (ds_panels a) = map (\<lambda>p. p\<lparr>p_grid := None\<rparr>) (ds_panels b)"
    by (simp add: panelContent_def)
  from arg_cong [OF this, of "map (\<lambda>p. (p_id p, p_title p, p_viz p, p_query p))"]
  show ?thesis by (simp add: comp_def)
qed

section \<open>Properties\<close>

text \<open>
  A fragment that passes its check is the value that was given, with one to forty
  panels of distinct non-empty ids and exactly one result for each of them.
\<close>

theorem panelFragment_results_match:
  assumes "panelFragment sn v = Inr f"
  shows "\<exists>ps rs. v = Some f \<and> fragment_panels f = Some ps \<and> jarr ''results'' f = Some rs
    \<and> 1 \<le> length ps \<and> length ps \<le> 40 \<and> [] \<notin> set (map id_of ps) \<and> distinct (map id_of ps)
    \<and> mset (map id_of rs) = mset (map id_of ps)"
proof -
  obtain kvs where v: "v = Some (JObj kvs)" "f = JObj kvs"
    using assms by (auto simp: panelFragment_def Let_def split: option.splits json.splits)
  with assms have ok: "fragment_shape f" "ids_named f" "results_match f" by (simp_all add: panelFragment_def Let_def)
  then obtain ps rs where ps: "fragment_panels f = Some ps" "jarr ''results'' f = Some rs" "ps \<noteq> []" "length ps \<le> 40"
    by (auto simp: fragment_shape_def split: option.splits)
  moreover have "[] \<notin> set (map id_of ps)"
    using ok(2) ps(1,2) by (auto simp: ids_named_def list_all_iff id_of_def nullish_def split: option.splits)
  ultimately show ?thesis
    using results_match_mset [OF ok(3) ps(1,2)] v by (auto simp: Suc_le_eq)
qed

definition demo_fragment :: json where
  "demo_fragment = JObj [(''view'', JObj [(''kind'', JStr ''query''), (''key'', JStr (replicate 64 (CHR ''a'')))]),
     (''dashboard'', JObj [(''version'', JNum (Fin 1)), (''panels'', JArr [JObj [(''id'', JStr ''p'')]])]),
     (''results'', JArr [JObj [(''id'', JStr ''p''), (''status'', JStr ''ok'')]])]"

lemma demo_fragment_ok: "panelFragment (\<lambda>_. []) (Some demo_fragment) = Inr demo_fragment"
  by (simp add: panelFragment_def demo_fragment_def view_identity_def jstr_def jarr_def prop_text_def hex_key_def
      byte_def fragment_shape_def fragment_panels_def ids_named_def results_match_def id_of_def result_statuses_def
      vars_shape_def trace_shape_def list_all_iff)

theorem panelFragment_results_match_witness:
  "fragment_panels demo_fragment = Some [JObj [(''id'', JStr ''p'')]] \<and> (\<exists>ps. fragment_panels demo_fragment = Some ps \<and> length ps \<le> 40)"
  using panelFragment_results_match [OF demo_fragment_ok]
  by (auto simp: demo_fragment_def fragment_panels_def jarr_def)

text \<open>
  Remembering which cards were validated never changes an answer: over any
  sequence of calls on immutable objects, each answer is the one a fresh check gives.
\<close>

theorem card_cache_is_transparent:
  assumes "\<And>i v w. (i, v) \<in> set calls \<Longrightarrow> (i, w) \<in> set calls \<Longrightarrow> v = w"
  shows "fst (card_calls sn calls) = map (\<lambda>(i, v). checked_card sn v) calls"
  using card_calls_checked [of calls sn] assms by blast

theorem card_cache_is_transparent_witness:
  "fst (card_calls (\<lambda>_. []) [(0, Some JNull), (0, Some JNull), (1, None)]) = [None, None, None]"
  by (subst card_cache_is_transparent) (auto simp: checked_card_def)

end
