(* ===== verification/Sessions.thy ===== *)
theory Sessions
  imports Panel_Fragment
begin

text \<open>
  The edges of the console: ui/host/src/mcp-app-csp.ts (the content security policy of an
  embedded view), auth-session.ts, mcp-apps/transport.ts, mcp-apps/use-panel-app.ts,
  mcp-apps/size-reporter.ts, copy.ts and opener.ts.
\<close>

section \<open>The policy of an embedded view (mcpAppCSP)\<close>

definition is_letter :: "char \<Rightarrow> bool" where
  "is_letter c \<longleftrightarrow> is_lower c \<or> is_upper c"

text \<open>\<open>/[\s;'"]/\<close> finds nothing, and \<open>/^([a-z]+):\/\/([^/]+)$/i\<close> gives the scheme.\<close>

definition unsafe_source :: "string \<Rightarrow> bool" where
  "unsafe_source s \<longleftrightarrow> list_ex (\<lambda>p. js_space (cp_of p)) (code_points s)
     \<or> list_ex (\<lambda>c. c = CHR '';'' \<or> c = CHR 0x27 \<or> c = CHR 0x22) s"

definition source_scheme :: "string \<Rightarrow> string option" where
  "source_scheme s = (let scheme = takeWhile is_letter s; rest = dropWhile is_letter s
     in if scheme \<noteq> [] \<and> starts_with rest ''://'' \<and> 3 < length rest \<and> CHR ''/'' \<notin> set (drop 3 rest)
        then Some (ascii_lower scheme) else None)"

definition source_ok :: "string list \<Rightarrow> string \<Rightarrow> bool" where
  "source_ok schemes s \<longleftrightarrow> \<not> unsafe_source s
     \<and> (case source_scheme s of Some sc \<Rightarrow> sc \<in> set schemes | None \<Rightarrow> False)"

definition cspSources :: "json option \<Rightarrow> string list \<Rightarrow> string list" where
  "cspSources v schemes = (case v of
      Some (JArr xs) \<Rightarrow> filter (source_ok schemes) (List.map_filter as_str xs) | _ \<Rightarrow> [])"

definition csp_record :: "json option \<Rightarrow> json option" where
  "csp_record v = Option.bind v (\<lambda>j. if is_obj j then Some j else None)"

definition csp_of :: "json option \<Rightarrow> json option" where
  "csp_of meta = csp_record (Option.bind (csp_record (Option.bind (csp_record meta) (jget ''ui''))) (jget ''csp''))"

definition listed :: "string list \<Rightarrow> string" where
  "listed xs = (if xs = [] then [] else '' '' @ join '' '' xs)"

definition csp_directives :: "json option \<Rightarrow> string list" where
  "csp_directives meta =
    (let csp = csp_of meta; sources = (\<lambda>k schemes. cspSources (Option.bind csp (jget k)) schemes);
         connect = sources ''connectDomains'' [''http'', ''https'', ''ws'', ''wss''];
         resources = listed (sources ''resourceDomains'' [''http'', ''https'']);
         frames = sources ''frameDomains'' [''http'', ''https'']; bases = sources ''baseUriDomains'' [''http'', ''https'']
     in [''default-src '' @ [CHR 0x27] @ ''none'' @ [CHR 0x27], ''worker-src blob:'',
         ''script-src '' @ [CHR 0x27] @ ''self'' @ [CHR 0x27] @ '' '' @ [CHR 0x27] @ ''unsafe-inline'' @ [CHR 0x27] @ resources,
         ''style-src '' @ [CHR 0x27] @ ''self'' @ [CHR 0x27] @ '' '' @ [CHR 0x27] @ ''unsafe-inline'' @ [CHR 0x27] @ resources,
         ''img-src '' @ [CHR 0x27] @ ''self'' @ [CHR 0x27] @ '' data:'' @ resources,
         ''media-src '' @ [CHR 0x27] @ ''self'' @ [CHR 0x27] @ '' data:'' @ resources,
         ''font-src '' @ [CHR 0x27] @ ''self'' @ [CHR 0x27] @ '' data:'' @ resources,
         ''connect-src '' @ (if connect = [] then [CHR 0x27] @ ''none'' @ [CHR 0x27] else join '' '' connect)]
        @ (if frames = [] then [] else [''frame-src '' @ join '' '' frames])
        @ (if bases = [] then [] else [''base-uri '' @ join '' '' bases]))"

definition mcpAppCSP :: "json option \<Rightarrow> string" where
  "mcpAppCSP meta = join ''; '' (csp_directives meta) @ '';''"

lemma cspSources_ok: "s \<in> set (cspSources v schemes) \<Longrightarrow> source_ok schemes s"
  by (auto simp: cspSources_def split: option.splits json.splits)

lemma set_join: "set (join sep xs) \<subseteq> set sep \<union> \<Union> (set ` set xs)"
  by (induction sep xs rule: join.induct) auto

lemma listed_clean:
  assumes "\<And>s. s \<in> set xs \<Longrightarrow> c \<notin> set s" "c \<noteq> CHR '' ''"
  shows "c \<notin> set (join '' '' xs)" "c \<notin> set (listed xs)"
  using set_join [of "'' ''" xs] assms by (auto simp: listed_def split: if_splits)

lemma source_no_semicolon: "source_ok schemes s \<Longrightarrow> CHR '';'' \<notin> set s"
  by (auto simp: source_ok_def unsafe_source_def list_ex_iff)

lemma directives_no_semicolon: "d \<in> set (csp_directives meta) \<Longrightarrow> CHR '';'' \<notin> set d"
proof -
  have c: "CHR '';'' \<notin> set (join '' '' (cspSources v ss))" "CHR '';'' \<notin> set (listed (cspSources v ss))" for v ss
    by (rule listed_clean; use cspSources_ok source_no_semicolon in blast; simp)+
  assume "d \<in> set (csp_directives meta)"
  then show ?thesis
    unfolding csp_directives_def Let_def by (auto simp: c split: if_splits)
qed

lemma split_char_free: "c \<notin> set s \<Longrightarrow> split_char c (s @ c # t) = s # split_char c t"
  by (induction s) auto

lemma split_char_none: "c \<notin> set s \<Longrightarrow> split_char c s = [s]"
  by (induction s) auto

lemma split_joined:
  assumes "xs \<noteq> []" "\<And>d. d \<in> set xs \<Longrightarrow> CHR '';'' \<notin> set d"
  shows "split_char CHR '';'' (join ''; '' xs @ '';'') = hd xs # map ((@) '' '') (tl xs) @ [[]]"
  using assms
proof (induction "''; ''" xs rule: join.induct)
  case (3 x y ys)
  have sp: "split_char CHR '';'' (CHR '' '' # t) = (CHR '' '' # hd (split_char CHR '';'' t)) # tl (split_char CHR '';'' t)" for t
    by (cases "split_char CHR '';'' t") (simp_all add: split_char_nonempty)
  from 3 show ?case by (simp add: split_char_free sp)
qed (auto simp: split_char_free)

section \<open>Signing in and out (auth-session.ts)\<close>

text \<open>\<open>parse\<close> is \<open>new URL(value, origin)\<close>: origin, path and search, or None when it throws.\<close>

definition oauth_path :: string where
  "oauth_path = ''/api/auth/oauth/authorize''"

definition oauthReturnTo :: "(string \<Rightarrow> (string \<times> string \<times> string) option) \<Rightarrow> string \<Rightarrow> string option \<Rightarrow> string result" where
  "oauthReturnTo parse origin v = (case non_empty v of
      None \<Rightarrow> Inr []
    | Some value \<Rightarrow> (case parse value of
        None \<Rightarrow> Inl ''Invalid URL''
      | Some (o', path, search) \<Rightarrow> Inr (if o' \<noteq> origin \<or> path \<noteq> oauth_path then [] else path @ search)))"

lemma oauthReturnTo_own_page: "oauthReturnTo parse origin v = Inr u \<Longrightarrow> u \<noteq> [] \<Longrightarrow> starts_with u oauth_path"
  by (auto simp: oauthReturnTo_def starts_with_def split: option.splits if_splits)

datatype browser_viewer = NoViewer | UserViewer

definition browserViewerFromMe :: "json option \<Rightarrow> browser_viewer" where
  "browserViewerFromMe user = (case Option.bind user (jstr ''id'') of
      Some i \<Rightarrow> if i = [] then NoViewer else UserViewer | None \<Rightarrow> NoViewer)"

record api_error =
  ae_message :: string
  ae_status :: nat
  ae_code :: string

text \<open>
  A response by its status and, for a refusal, its body; the first component tells whether the
  session was cleared.
\<close>

definition authorizedFetch :: "nat \<times> json option \<Rightarrow> bool \<times> (api_error + nat \<times> json option)" where
  "authorizedFetch resp = (case resp of (st, body) \<Rightarrow>
    (st = 401, if st = 403 then Inl \<lparr>ae_message = nullish (Option.bind body (jstr ''message''))
          ''You do not have permission to perform this action.'', ae_status = st,
        ae_code = nullish (Option.bind body (jstr ''code'')) []\<rparr>
      else Inr resp))"

text \<open>What logging out does: clears the session and leaves, or throws.\<close>

definition logout :: "nat \<times> json option \<Rightarrow> bool \<times> (string + string)" where
  "logout resp = (case authorizedFetch resp of
      (cleared, Inl e) \<Rightarrow> (cleared, Inl (ae_message e))
    | (cleared, Inr (st, _)) \<Rightarrow>
        if \<not> (200 \<le> st \<and> st < 300) \<and> st \<noteq> 401 then (cleared, Inl (''Sign-out failed '' @ em_dash @ '' your session is still active.''))
        else (True, Inr ''/''))"

lemma logout_leaves_iff_cleared: "(\<exists>p. snd (logout resp) = Inr p) \<longleftrightarrow> fst (logout resp)"
  by (auto simp: logout_def authorizedFetch_def split: prod.splits if_splits)

section \<open>Calls from an embedded view (appTransport)\<close>

text \<open>
  A tool call may be aborted before, during or after, fail, or answer. \<open>early\<close> and
  \<open>late\<close> are the signal at those times.
\<close>

datatype call_outcome = CallAborted | CallFailed | CallAnswered bool "json option"

definition transport_call :: "bool \<Rightarrow> call_outcome \<Rightarrow> bool \<Rightarrow> json result" where
  "transport_call early outcome late =
    (if early then Inl ''Canceled'' else (case outcome of
        CallAborted \<Rightarrow> Inl ''Canceled''
      | CallFailed \<Rightarrow> Inl (if late then ''Canceled'' else ''This view could not be refreshed.'')
      | CallAnswered is_error content \<Rightarrow>
          if late then Inl ''Canceled''
          else if is_error \<or> \<not> truthy content then Inl ''This view could not be refreshed.''
          else Inr (the content)))"

definition set_vars :: "json option \<Rightarrow> json \<Rightarrow> json" where
  "set_vars v f = (case (f, v) of
      (JObj kvs, Some x) \<Rightarrow> JObj (AList.update ''vars'' x kvs)
    | (JObj kvs, None) \<Rightarrow> JObj (AList.delete ''vars'' kvs) | _ \<Rightarrow> f)"

definition transport_query :: "(num \<Rightarrow> string) \<Rightarrow> (string \<times> json) list \<Rightarrow> call_outcome \<Rightarrow> json result" where
  "transport_query sn body outcome =
    guard_err (map_of body ''panels'' \<noteq> None) ''Panel subsets are unavailable in chat fragments''
      (bind_result (transport_call False outcome False) (\<lambda>raw.
        bind_result (panelFragment sn (Some raw)) (\<lambda>f. Inr (set_vars (map_of body ''vars'') f))))"

definition transport_trace :: "(num \<Rightarrow> string) \<Rightarrow> bool \<Rightarrow> call_outcome \<Rightarrow> bool \<Rightarrow> json result" where
  "transport_trace sn early outcome late =
    bind_result (transport_call early outcome late) (\<lambda>raw. bind_result (panelFragment sn (Some raw)) (\<lambda>f.
      (case jget ''trace'' f of Some t \<Rightarrow> Inr t | None \<Rightarrow> Inl ''Trace unavailable'')))"

definition options_ok :: "json option \<Rightarrow> bool" where
  "options_ok v = (case v of
      Some (JObj kvs) \<Rightarrow> list_all (\<lambda>(_, os). case os of
          JArr xs \<Rightarrow> list_all (\<lambda>x. jstr ''value'' x \<noteq> None) xs | _ \<Rightarrow> False) kvs
    | _ \<Rightarrow> False)"

definition transport_variables :: "bool \<Rightarrow> call_outcome \<Rightarrow> bool \<Rightarrow> json result" where
  "transport_variables early outcome late =
    bind_result (transport_call early outcome late) (\<lambda>raw.
      guard_err (\<not> options_ok (jget ''options'' raw)) ''Invalid variable options'' (Inr (the (jget ''options'' raw))))"

lemma transport_query_checked:
  "transport_query sn body outcome = Inr f \<Longrightarrow> \<exists>raw. panelFragment sn (Some raw) = Inr raw \<and> f = set_vars (map_of body ''vars'') raw"
  by (auto simp: transport_query_def bind_result_Inr panelFragment_def Let_def split: json.splits)

section \<open>The embedded view (usePanelApp)\<close>

record panel_app =
  pa_fragment :: "json option"
  pa_host :: "(string, json) omap option"
  pa_error :: "string option"

datatype app_event =
    ToolResult bool "json option" "json option"
  | ToolCancelled
  | HostChanged "(string, json) omap"
  | AppError

text \<open>
  The problem of a failed result: the structured content, or the JSON of its text (None of the
  inner option when that throws).
\<close>

definition result_problem :: "json option \<Rightarrow> json option \<Rightarrow> json option" where
  "result_problem structured from_text = (case structured of
      Some JNull \<Rightarrow> from_text | Some v \<Rightarrow> Some v | None \<Rightarrow> from_text)"

definition no_data_message :: "json option \<Rightarrow> string option" where
  "no_data_message problem = Option.bind (Option.bind problem (jget ''error'')) (\<lambda>e.
     if is_obj e \<and> jstr ''code'' e = Some ''no_data'' then jstr ''message'' e else None)"

definition load_error :: string where
  "load_error = ''This view could not be loaded. Please try again.''"

definition app_step :: "(num \<Rightarrow> string) \<Rightarrow> panel_app \<Rightarrow> app_event \<Rightarrow> panel_app" where
  "app_step sn s e = (case e of
      ToolResult is_error structured from_text \<Rightarrow>
        if is_error then (case no_data_message (result_problem structured from_text) of
            Some msg \<Rightarrow> s\<lparr>pa_fragment := None, pa_error := Some msg\<rparr>
          | None \<Rightarrow> s\<lparr>pa_error := Some load_error\<rparr>)
        else (case panelFragment sn structured of
            Inr f \<Rightarrow> s\<lparr>pa_fragment := Some f, pa_error := None\<rparr>
          | Inl _ \<Rightarrow> s\<lparr>pa_error := Some load_error\<rparr>)
    | ToolCancelled \<Rightarrow> s\<lparr>pa_error := Some ''View cancelled.''\<rparr>
    | HostChanged ctx \<Rightarrow> s\<lparr>pa_host := Some (foldl (\<lambda>m (k, v). AList.update k v m) (nullish (pa_host s) []) ctx)\<rparr>
    | AppError \<Rightarrow> s\<lparr>pa_error := Some ''This view could not be refreshed. Please try again.''\<rparr>)"

definition app_ok :: "(num \<Rightarrow> string) \<Rightarrow> panel_app \<Rightarrow> bool" where
  "app_ok sn s \<longleftrightarrow> (case pa_fragment s of None \<Rightarrow> True | Some f \<Rightarrow> panelFragment sn (Some f) = Inr f)"

lemma panelFragment_same: "panelFragment sn v = Inr f \<Longrightarrow> v = Some f"
  by (auto simp: panelFragment_def Let_def split: option.splits json.splits)

interpretation app: event_machine "app_step sn" "app_ok sn" for sn
proof
  show "app_ok sn (app_step sn s e)" if "app_ok sn s" for s e
  proof (cases e)
    case (ToolResult bad st tx)
    have "app_ok sn (s\<lparr>pa_fragment := Some f, pa_error := None\<rparr>)" if "panelFragment sn st = Inr f" for f
      using that panelFragment_same [OF that] by (simp add: app_ok_def)
    with ToolResult \<open>app_ok sn s\<close> show ?thesis
      by (auto simp: app_step_def app_ok_def split: option.split sum.split)
  qed (use that in \<open>simp_all add: app_step_def app_ok_def\<close>)
qed

section \<open>Sizes, copying and focus\<close>

text \<open>\<open>observeContentSize\<close>: heights measured, and those sent, a change under two pixels skipped.\<close>

definition size_step :: "real option \<times> int list \<Rightarrow> real \<Rightarrow> real option \<times> int list" where
  "size_step st height = (case st of (prev, sent) \<Rightarrow>
    if (case prev of Some l \<Rightarrow> \<bar>height - l\<bar> < 2 | None \<Rightarrow> False) then st
    else (Some height, sent @ [js_round height]))"

definition observeContentSize :: "real list \<Rightarrow> real option \<times> int list" where
  "observeContentSize heights = foldl size_step (None, []) heights"

lemma size_last_close:
  assumes "heights \<noteq> []"
  shows "\<exists>l. fst (observeContentSize heights) = Some l \<and> \<bar>last heights - l\<bar> < 2
    \<and> last_opt (snd (observeContentSize heights)) = Some (js_round l)"
  using assms
proof (induction heights rule: rev_induct)
  case (snoc h hs)
  show ?case
  proof (cases "hs = []")
    case False
    with snoc obtain l where l: "fst (observeContentSize hs) = Some l"
      "last_opt (snd (observeContentSize hs)) = Some (js_round l)" by blast
    obtain sent where st: "observeContentSize hs = (Some l, sent)" using l(1) by (cases "observeContentSize hs") auto
    have "observeContentSize (hs @ [h]) = size_step (Some l, sent) h"
      using st by (simp add: observeContentSize_def)
    with l st show ?thesis by (auto simp: size_step_def last_opt_def split: if_splits)
  qed (simp add: observeContentSize_def size_step_def last_opt_def)
qed simp

datatype copy_state = Idle | Copied | CopyFailed

datatype copy_event = CopyClicked | WriteDone bool | ResetFired nat | CopyUnmounted

text \<open>The state shown and the one timer that is held; a timer that was cleared never fires.\<close>

record copy_hook =
  cp_state :: copy_state
  cp_timer :: "nat option"
  cp_next :: nat

definition copy_step :: "copy_hook \<Rightarrow> copy_event \<Rightarrow> copy_hook" where
  "copy_step s e = (case e of
      CopyClicked \<Rightarrow> s\<lparr>cp_state := Idle, cp_timer := None\<rparr>
    | WriteDone good \<Rightarrow> s\<lparr>cp_state := (if good then Copied else CopyFailed), cp_timer := Some (cp_next s), cp_next := Suc (cp_next s)\<rparr>
    | ResetFired n \<Rightarrow> if cp_timer s = Some n then s\<lparr>cp_state := Idle\<rparr> else s
    | CopyUnmounted \<Rightarrow> s\<lparr>cp_timer := None\<rparr>)"

text \<open>\<open>useOpener\<close>: focus goes back to the control that is still there, else to the fallback.\<close>

definition opener_focus :: "'e option \<Rightarrow> ('e \<Rightarrow> bool) \<Rightarrow> 'e option \<Rightarrow> 'e option" where
  "opener_focus opener alive fallback = (case opener of
      Some t \<Rightarrow> if alive t then Some t else fallback | None \<Rightarrow> fallback)"

section \<open>Properties\<close>

text \<open>
  The policy of an embedded view reads as it was written: cut at its semicolons it
  gives the directives the code lists and no other, whatever the view's metadata holds, and
  every source the metadata added has an allowed scheme.
\<close>

theorem csp_has_no_injected_directive:
  "split_char CHR '';'' (mcpAppCSP meta) = hd (csp_directives meta) # map ((@) '' '') (tl (csp_directives meta)) @ [[]]
    \<and> set (map (takeWhile (\<lambda>c. c \<noteq> CHR '' '')) (csp_directives meta)) \<subseteq>
        {''default-src'', ''worker-src'', ''script-src'', ''style-src'', ''img-src'', ''media-src'', ''font-src'',
         ''connect-src'', ''frame-src'', ''base-uri''}"
proof
  show "split_char CHR '';'' (mcpAppCSP meta) = hd (csp_directives meta) # map ((@) '' '') (tl (csp_directives meta)) @ [[]]"
    unfolding mcpAppCSP_def
    by (rule split_joined) (simp add: csp_directives_def Let_def, rule directives_no_semicolon)
  show "set (map (takeWhile (\<lambda>c. c \<noteq> CHR '' '')) (csp_directives meta)) \<subseteq>
        {''default-src'', ''worker-src'', ''script-src'', ''style-src'', ''img-src'', ''media-src'', ''font-src'',
         ''connect-src'', ''frame-src'', ''base-uri''}"
    by (simp add: csp_directives_def Let_def)
qed

text \<open>
  A view in a chat only ever shows panels that passed their check: over any
  sequence of results, cancellations, host changes and errors the fragment shown is one that
  the check accepts.
\<close>

theorem embedded_view_shows_checked_panels:
  assumes "s = \<lparr>pa_fragment = None, pa_host = None, pa_error = None\<rparr>" "pa_fragment (foldl (app_step sn) s events) = Some f"
  shows "panelFragment sn (Some f) = Inr f"
proof -
  have "app_ok sn s" using assms(1) by (simp add: app_ok_def)
  from app.inv_run [OF this, of events] assms(2) show ?thesis by (simp add: app_ok_def)
qed

theorem embedded_view_shows_checked_panels_witness:
  "pa_fragment (foldl (app_step (\<lambda>_. [])) \<lparr>pa_fragment = None, pa_host = None, pa_error = None\<rparr>
      [ToolResult False (Some demo_fragment) None, ToolResult True None None]) = Some demo_fragment
    \<and> panelFragment (\<lambda>_. []) (Some demo_fragment) = Inr demo_fragment"
proof -
  have f: "pa_fragment (foldl (app_step (\<lambda>_. [])) \<lparr>pa_fragment = None, pa_host = None, pa_error = None\<rparr>
      [ToolResult False (Some demo_fragment) None, ToolResult True None None]) = Some demo_fragment"
    by (simp add: app_step_def demo_fragment_ok no_data_message_def result_problem_def)
  with embedded_view_shows_checked_panels [OF refl f] show ?thesis by simp
qed

end
