(* ===== verification/Map_Layout.thy ===== *)
theory Map_Layout
  imports Rollups Units Tokens
begin

text \<open>
  ui/host/src/dashboards/viz/service-map-layout.ts: the cards of a service map placed and
  fitted into a view. Dagre's placement of the connected graph is a parameter; text is measured
  by \<open>mt text (bold, px)\<close>, by default six tenths of the size for each character.
\<close>

type_synonym point = "real \<times> real"

type_synonym measure_text = "(string \<Rightarrow> bool \<times> real \<Rightarrow> real) option"

section \<open>Text of a card\<close>

definition compactHeight :: real where "compactHeight = 20"

definition fullHeight :: real where "fullHeight = 44"

definition serviceMapLineHeight :: real where "serviceMapLineHeight = 14 / 10"

definition compactReadableScale :: real where
  "compactReadableScale = of_int \<lceil>typeScale_micro * serviceMapLineHeight + 2\<rceil> / compactHeight"

definition textMeasure :: "string \<Rightarrow> bool \<times> real \<Rightarrow> real" where
  "textMeasure s font = real (char_count s) * snd font * (6 / 10)"

definition protectedName :: "string \<Rightarrow> string" where
  "protectedName name = (if 24 < char_count name then concat (take 24 (code_points name)) @ ellipsis else name)"

definition round_to :: "nat \<Rightarrow> real \<Rightarrow> real" where
  "round_to d x = of_int (js_round (x * 10 ^ d)) / 10 ^ d"

definition shortNumber :: "(num \<Rightarrow> string) \<Rightarrow> real option \<Rightarrow> string" where
  "shortNumber sn value = (case value of
      None \<Rightarrow> em_dash
    | Some v \<Rightarrow> (let b = clamp v 0 999000
        in if 0 < b \<and> b < 1 / 100 then ''<0.01''
           else if 1000 \<le> b then show_int (min 999 (js_round (b / 1000))) @ ''K''
           else sn (Fin (round_to (if b < 1 then 2 else if b < 10 then 1 else 0) b))))"

definition shortError :: "(num \<Rightarrow> string) \<Rightarrow> real option \<Rightarrow> string" where
  "shortError sn value = (case value of
      None \<Rightarrow> em_dash @ '' err''
    | Some v \<Rightarrow> sn (Fin (round_to 1 (if 0 < v then clamp v (1 / 10) 100 else 0))) @ ''% err'')"

definition shortDuration :: "(num \<Rightarrow> string) \<Rightarrow> real option \<Rightarrow> string" where
  "shortDuration sn value = (case value of
      None \<Rightarrow> em_dash
    | Some v \<Rightarrow> if 1000 \<le> (case significant 2 v of (n, e) \<Rightarrow> real n * 10 powi e) \<and> 0 < v
        then shortNumber sn (Some (v / 1000)) @ ''s'' else shortNumber sn (Some v) @ ''ms'')"

definition nodeMetrics :: "intl \<Rightarrow> service_node \<Rightarrow> string" where
  "nodeMetrics il n = formatValue il (Some ''per_second'') (map_option Fin (n_request_rate n)) @ '' '' @ middot @ '' ''
     @ formatValue il (Some ''percent'') (map_option Fin (n_error_rate n)) @ '' err '' @ middot @ '' ''
     @ formatValue il (Some ''ms'') (map_option Fin (n_p95 n)) @ '' p95''"

record card_labels =
  cb_name :: string
  cb_metric :: string
  cb_name_size :: real
  cb_metric_size :: real
  cb_name_width :: real

definition serviceCardLabels :: "(num \<Rightarrow> string) \<Rightarrow> measure_text \<Rightarrow> service_node \<Rightarrow> real \<Rightarrow> real \<Rightarrow> bool \<Rightarrow> card_labels" where
  "serviceCardLabels sn mt n width scale packed =
    (let name_size = max 12 (typeScale_micro / scale); metric_size = typeScale_micro / scale;
         measure = nullish mt textMeasure;
         available = max 0 (width - 12 / scale);
         glyph = measure (nullish (map_of healthGlyph (n_health n)) glyph_ring) (False, name_size);
         rate = shortNumber sn (n_request_rate n) @ ''/s'';
         candidate = (case n_error_rate n of Some e \<Rightarrow> if 0 < e then shortError sn (Some e) else rate | None \<Rightarrow> rate);
         pair = rate @ '' '' @ middot @ '' '' @ shortError sn (n_error_rate n);
         metric = (if packed then [] else nullish (find (\<lambda>t. measure t (False, metric_size) \<le> available)
           [pair @ '' '' @ middot @ '' p95 '' @ shortDuration sn (n_p95 n), pair, candidate]) [])
     in \<lparr>cb_name = protectedName (n_id n), cb_metric = metric, cb_name_size = name_size, cb_metric_size = metric_size,
         cb_name_width = max 0 (available - glyph - 4 / scale)\<rparr>)"

definition serviceCardWidth :: "measure_text \<Rightarrow> bool \<Rightarrow> service_node \<Rightarrow> real" where
  "serviceCardWidth mt packed n =
    (let measure = nullish mt textMeasure;
         font = (True, if packed then typeScale_micro / compactReadableScale else 12);
         glyph = (case map (\<lambda>g. measure g font) (map_vals healthGlyph) of g # gs \<Rightarrow> max_of g gs | [] \<Rightarrow> 0);
         padding = (if packed then of_int \<lceil>16 / compactReadableScale\<rceil> + 1 else 20)
     in of_int \<lceil>max (if packed then 0 else 168) (measure (protectedName (n_id n)) font + glyph + padding)\<rceil>)"

section \<open>Cards placed (layoutCards)\<close>

record dagre_out =
  dg_width :: real
  dg_height :: real
  dg_pos :: "string \<Rightarrow> point"
  dg_points :: "string \<Rightarrow> point list"

text \<open>Dagre, given the connected cards with their sizes, the edges and whether it is compact.\<close>

type_synonym dagre = "(string \<times> real \<times> real) list \<Rightarrow> (string \<times> string \<times> string) list \<Rightarrow> bool \<Rightarrow> dagre_out"

record card_box =
  bx_node :: service_node
  bx_x :: real
  bx_y :: real
  bx_width :: real
  bx_height :: real
  bx_entry :: bool
  bx_uncalled :: bool

record card_layout =
  cl_nodes :: "card_box list"
  cl_routes :: "point list list"
  cl_width :: real
  cl_height :: real
  cl_label :: "point option"
  cl_label_width :: real

text \<open>Isolated cards in one row from \<open>x\<close>, twelve pixels apart.\<close>

fun uncalled_row :: "real \<Rightarrow> real \<Rightarrow> real \<Rightarrow> (service_node \<times> real) list \<Rightarrow> card_box list" where
  "uncalled_row x y h [] = []"
| "uncalled_row x y h ((n, w) # ns) =
    \<lparr>bx_node = n, bx_x = x, bx_y = y, bx_width = w, bx_height = h, bx_entry = False, bx_uncalled = True\<rparr>
    # uncalled_row (x + w + 12) y h ns"

text \<open>A route re-attached to the facing sides of its cards, its middle lanes kept.\<close>

definition reattach :: "card_box \<Rightarrow> card_box \<Rightarrow> point list \<Rightarrow> point list" where
  "reattach source target route =
    (let middle = butlast (tl route)
     in if middle = [] \<or> n_id (bx_node source) = n_id (bx_node target) then route
        else let forward = bx_x source < bx_x target;
          start = (bx_x source + (if forward then bx_width source else 0), bx_y source + bx_height source / 2);
          finish = (bx_x target + (if forward then 0 else bx_width target), bx_y target + bx_height target / 2)
        in [start, (fst (hd middle), snd start)] @ middle @ [(fst (last middle), snd finish), finish])"

definition row_width :: "real list \<Rightarrow> real" where
  "row_width ws = sum_list (map (\<lambda>w. w + 12) ws) - (if ws = [] then 0 else 12)"

definition layoutCards :: "dagre \<Rightarrow> measure_text \<Rightarrow> service_node list \<times> service_edge list \<Rightarrow> bool \<Rightarrow> card_layout" where
  "layoutCards dagre mt model packed =
    (let nodes = sort_by node_le (fst model); edges = sort_by edge_le (snd model);
         connected = (\<lambda>n. n_id n \<in> set (endpoints edges));
         incoming = (\<lambda>n. n_id n \<in> set (map e_callee edges)); outgoing = (\<lambda>n. n_id n \<in> set (map e_caller edges));
         h = (if packed then compactHeight else fullHeight);
         width_of = serviceCardWidth mt packed;
         placed = filter connected nodes; uncalled = filter (\<lambda>n. \<not> connected n) nodes;
         dg = (if placed = [] then \<lparr>dg_width = 0, dg_height = 0, dg_pos = (\<lambda>_. (0, 0)), dg_points = (\<lambda>_. [])\<rparr>
           else dagre (map (\<lambda>n. (n_id n, width_of n, h)) placed) (map (\<lambda>e. (e_id e, e_caller e, e_callee e)) edges) packed);
         boxes = map (\<lambda>n. \<lparr>bx_node = n, bx_x = fst (dg_pos dg (n_id n)) - width_of n / 2,
           bx_y = snd (dg_pos dg (n_id n)) - h / 2, bx_width = width_of n, bx_height = h,
           bx_entry = (outgoing n \<and> \<not> incoming n), bx_uncalled = False\<rparr>) placed;
         routes = map (\<lambda>e. dg_points dg (e_id e)) edges;
         rw = row_width (map width_of uncalled);
         lw = (if uncalled = [] then 0 else textMeasure ''No traced calls in this window'' (False, 12));
         width = max_of 1 [dg_width dg, rw, lw];
         graph_height = max_of 0 (dg_height dg # map snd (concat routes) @ map (\<lambda>b. bx_y b + bx_height b) boxes);
         row_y = graph_height + (if graph_height \<noteq> 0 then 40 else 24);
         shift = (width - dg_width dg) / 2;
         shifted = map (\<lambda>b. b\<lparr>bx_x := bx_x b + shift\<rparr>) boxes;
         row = uncalled_row ((width - rw) / 2) row_y h (map (\<lambda>n. (n, width_of n)) uncalled);
         box_of = (\<lambda>i. find (\<lambda>b. n_id (bx_node b) = i) (shifted @ row));
         moved = map (map (\<lambda>(x, y). (x + shift, y))) routes
     in \<lparr>cl_nodes = shifted @ row,
         cl_routes = map (\<lambda>(e, r). (case (box_of (e_caller e), box_of (e_callee e)) of
             (Some a, Some b) \<Rightarrow> reattach a b r | _ \<Rightarrow> r)) (zip edges moved),
         cl_width = width, cl_height = max_of 1 [graph_height, if uncalled = [] then 0 else row_y + h],
         cl_label = (if uncalled = [] then None else Some ((width - lw) / 2, row_y - 24)), cl_label_width = lw\<rparr>)"

section \<open>Isolated cards wrapped (wrapIsolated)\<close>

definition wrap_step :: "real \<Rightarrow> card_box list list \<times> card_box list \<times> real \<Rightarrow> card_box
    \<Rightarrow> card_box list list \<times> card_box list \<times> real" where
  "wrap_step available st b = (case st of (full, row, used) \<Rightarrow>
    if used \<noteq> 0 \<and> available < used + 12 + bx_width b then (full @ [row], [b], 0 + bx_width b)
    else (full, row @ [b], used + (if used \<noteq> 0 then 12 else 0) + bx_width b))"

definition wrap_rows :: "real \<Rightarrow> card_box list \<Rightarrow> card_box list list" where
  "wrap_rows available boxes = (case foldl (wrap_step available) ([], [], 0) boxes of (full, row, _) \<Rightarrow> full @ [row])"

definition box_row_width :: "card_box list \<Rightarrow> real" where
  "box_row_width row = sum_list (map bx_width row) + (real (length row) - 1) * 12"

fun place_row :: "real \<Rightarrow> real \<Rightarrow> card_box list \<Rightarrow> card_box list" where
  "place_row x y [] = []"
| "place_row x y (b # bs) = b\<lparr>bx_x := x, bx_y := y\<rparr> # place_row (x + bx_width b + 12) y bs"

definition least :: "real list \<Rightarrow> real" where
  "least xs = (case xs of [] \<Rightarrow> 0 | x # xs \<Rightarrow> min_of x xs)"

definition greatest :: "real list \<Rightarrow> real" where
  "greatest xs = (case xs of [] \<Rightarrow> 0 | x # xs \<Rightarrow> max_of x xs)"

definition wrapped_nodes :: "card_box list \<Rightarrow> card_box \<Rightarrow> card_box list list \<Rightarrow> real \<Rightarrow> real \<Rightarrow> card_box list" where
  "wrapped_nodes linked first rows width shift =
    map (\<lambda>b. b\<lparr>bx_x := bx_x b + shift\<rparr>) linked
    @ concat (map (\<lambda>i. place_row ((width - box_row_width (rows ! i)) / 2)
        (bx_y first + real i * (bx_height first + 12)) (rows ! i)) [0..<length rows])"

definition wrap_width :: "card_layout \<Rightarrow> card_box list list \<Rightarrow> real \<Rightarrow> real" where
  "wrap_width raw rows graph_width = max_of graph_width (cl_label_width raw # map box_row_width rows)"

definition graph_left :: "card_layout \<Rightarrow> real" where
  "graph_left raw = least (map bx_x (filter (\<lambda>b. \<not> bx_uncalled b) (cl_nodes raw)) @ map fst (concat (cl_routes raw)))"

definition graph_width :: "card_layout \<Rightarrow> real" where
  "graph_width raw = (if filter (\<lambda>b. \<not> bx_uncalled b) (cl_nodes raw) = [] then 0
     else greatest (map (\<lambda>b. bx_x b + bx_width b) (filter (\<lambda>b. \<not> bx_uncalled b) (cl_nodes raw))
       @ map fst (concat (cl_routes raw))) - graph_left raw)"

definition graph_shift :: "card_layout \<Rightarrow> real \<Rightarrow> real" where
  "graph_shift raw width = (if filter (\<lambda>b. \<not> bx_uncalled b) (cl_nodes raw) = [] then 0
     else (width - graph_width raw) / 2 - graph_left raw)"

definition wrapIsolated :: "real \<Rightarrow> card_layout \<Rightarrow> real \<Rightarrow> card_layout" where
  "wrapIsolated view_width raw floor_scale =
    (let isolated = filter bx_uncalled (cl_nodes raw) in
     case isolated of [] \<Rightarrow> raw
     | first # _ \<Rightarrow>
      (let rows = wrap_rows (max 1 (view_width - 24) / floor_scale) isolated;
           width = wrap_width raw rows (graph_width raw); shift = graph_shift raw width;
           nodes = wrapped_nodes (filter (\<lambda>b. \<not> bx_uncalled b) (cl_nodes raw)) first rows width shift
       in raw\<lparr>cl_nodes := nodes, cl_routes := map (map (\<lambda>(x, y). (x + shift, y))) (cl_routes raw), cl_width := width,
            cl_height := greatest (map (\<lambda>b. bx_y b + bx_height b) nodes)\<rparr>))"

section \<open>The map fitted into a view (fitServiceMap)\<close>

record map_bounds =
  mb_min_x :: real
  mb_min_y :: real
  mb_width :: real
  mb_height :: real
  mb_scale :: real
  mb_bottom :: real
  mb_row :: "real option"
  mb_gap :: real
  mb_lane :: real

definition bounds_of_map :: "real \<Rightarrow> real \<Rightarrow> card_layout \<Rightarrow> map_bounds" where
  "bounds_of_map vw vh raw =
    (let points = concat (cl_routes raw); min_x = min_of 0 (map fst points); min_y = min_of 0 (map snd points);
         width = max_of (cl_width raw) (map fst points) - min_x; height = max_of (cl_height raw) (map snd points) - min_y;
         bottom = max_of 0 (map snd points @ map (\<lambda>b. bx_y b + bx_height b) (filter (\<lambda>b. \<not> bx_uncalled b) (cl_nodes raw)));
         row = map_option bx_y (find bx_uncalled (cl_nodes raw));
         gap = (case row of None \<Rightarrow> 0 | Some y \<Rightarrow> y - bottom); lane = (if row = None then 0 else 32)
     in \<lparr>mb_min_x = min_x, mb_min_y = min_y, mb_width = width, mb_height = height,
         mb_scale = min (max 1 (vw - 24) / width) (max 1 (vh - 24 - lane) / max 1 (height - gap)),
         mb_bottom = bottom, mb_row = row, mb_gap = gap, mb_lane = lane\<rparr>)"

record fitted_map =
  fm_nodes :: "card_box list"
  fm_edges :: "(string \<times> point list) list"
  fm_scale :: real
  fm_compact :: bool
  fm_view :: point
  fm_width :: real
  fm_height :: real
  fm_label :: "point option"

definition fit_point :: "map_bounds \<Rightarrow> real \<Rightarrow> real \<Rightarrow> real \<Rightarrow> point \<Rightarrow> point" where
  "fit_point mb scale ox oy p = (case p of (x, y) \<Rightarrow>
    (ox + (x - mb_min_x mb) * scale,
     oy + (y - mb_min_y mb) * scale + (case mb_row mb of
        Some r \<Rightarrow> if r \<le> y then mb_lane mb - mb_gap mb * scale else 0 | None \<Rightarrow> 0)))"

definition fitServiceMap :: "card_layout \<Rightarrow> card_layout \<Rightarrow> service_node list \<times> service_edge list \<Rightarrow> real \<Rightarrow> real \<Rightarrow> fitted_map" where
  "fitServiceMap packed_layout full_layout model vw vh =
    (let full = wrapIsolated vw full_layout 1; packed = mb_scale (bounds_of_map vw vh full) < 1;
         raw = (if packed then wrapIsolated vw packed_layout compactReadableScale else full);
         mb = bounds_of_map vw vh raw;
         scale = max (if packed then compactReadableScale else 1) (min (mb_scale mb) 1);
         fitted = (mb_height mb - mb_gap mb) * scale + mb_lane mb;
         cw = max vw (mb_width mb * scale + 24); ch = max vh (fitted + 24);
         ox = (cw - mb_width mb * scale) / 2; oy = (ch - fitted) / 2;
         fit = fit_point mb scale ox oy;
         latest = (\<lambda>b. nullish (find (\<lambda>n. n_id n = n_id (bx_node b)) (fst model)) (bx_node b));
         nodes = map (\<lambda>b. b\<lparr>bx_node := latest b, bx_x := fst (fit (bx_x b, bx_y b)), bx_y := snd (fit (bx_x b, bx_y b)),
           bx_width := bx_width b * scale, bx_height := bx_height b * scale\<rparr>) (cl_nodes raw);
         edges = map (\<lambda>(e, r). (e_id e, map fit r)) (zip (sort_by edge_le (snd model)) (cl_routes raw));
         view = (case or_else (find bx_entry nodes) (head_opt nodes) of
             Some b \<Rightarrow> (clamp (vw / 2 - bx_x b - bx_width b / 2) (vw - cw) 0,
                clamp (vh / 2 - bx_y b - bx_height b / 2) (vh - ch) 0)
           | None \<Rightarrow> (0, 0))
     in \<lparr>fm_nodes = nodes, fm_edges = edges, fm_scale = scale, fm_compact = packed, fm_view = view,
         fm_width = cw, fm_height = ch,
         fm_label = map_option (\<lambda>_. ((cw - cl_label_width raw) / 2, oy + (mb_bottom mb - mb_min_y mb) * scale + 8)) (cl_label raw)\<rparr>)"

section \<open>Lemmas\<close>

lemma place_row_ids: "map bx_node (place_row x y bs) = map bx_node bs"
  by (induction x y bs rule: place_row.induct) simp_all

lemma place_row_width: "map bx_width (place_row x y bs) = map bx_width bs"
  by (induction x y bs rule: place_row.induct) simp_all

lemma place_row_inside:
  assumes "\<And>b. b \<in> set bs \<Longrightarrow> 0 \<le> bx_width b" "c \<in> set (place_row x y bs)"
  shows "x \<le> bx_x c \<and> bx_x c + bx_width c \<le> x + box_row_width bs"
  using assms
proof (induction bs arbitrary: x)
  case (Cons b bs)
  have pos: "0 \<le> sum_list (map bx_width bs)" using Cons.prems(1) by (intro sum_list_nonneg) auto
  have w: "box_row_width (b # bs) = bx_width b + 12 + box_row_width bs"
    by (simp add: box_row_width_def algebra_simps)
  from Cons.prems(2) consider "c = b\<lparr>bx_x := x, bx_y := y\<rparr>" | "c \<in> set (place_row (x + bx_width b + 12) y bs)" by auto
  then show ?case
  proof cases
    case 1
    then show ?thesis using pos by (simp add: box_row_width_def algebra_simps)
  next
    case 2
    from Cons.IH [OF _ 2] Cons.prems(1) have "x + bx_width b + 12 \<le> bx_x c"
      "bx_x c + bx_width c \<le> x + bx_width b + 12 + box_row_width bs" by auto
    moreover have "0 \<le> bx_width b" using Cons.prems(1) by simp
    ultimately show ?thesis unfolding w by linarith
  qed
qed simp

lemma place_row_apart:
  "sorted_wrt (\<lambda>a b. bx_x a + bx_width a + 12 \<le> bx_x b) (place_row x y bs)"
  if "\<And>b. b \<in> set bs \<Longrightarrow> 0 \<le> bx_width b"
  using that
proof (induction bs arbitrary: x)
  case (Cons b bs)
  have "x + bx_width b + 12 \<le> bx_x c" if "c \<in> set (place_row (x + bx_width b + 12) y bs)" for c
    using place_row_inside [OF _ that] Cons.prems by auto
  with Cons show ?case by simp
qed simp

text \<open>A row in progress: its used width, and the finished rows with theirs.\<close>

definition wrap_ok :: "real \<Rightarrow> card_box list list \<times> card_box list \<times> real \<Rightarrow> bool" where
  "wrap_ok available st \<longleftrightarrow> (case st of (full, row, used) \<Rightarrow>
     (row = [] \<longrightarrow> used = 0 \<and> full = []) \<and> (row \<noteq> [] \<longrightarrow> used = box_row_width row \<and> 0 < used)
     \<and> (\<forall>r \<in> set (full @ [row]). length r \<le> 1 \<or> box_row_width r \<le> available))"

lemma wrap_step_ok: "wrap_ok available st \<Longrightarrow> 0 < bx_width b \<Longrightarrow> wrap_ok available (wrap_step available st b)"
  by (auto simp: wrap_ok_def wrap_step_def box_row_width_def algebra_simps split: prod.splits)

lemma wrap_loop_ok:
  "(\<And>b. b \<in> set bs \<Longrightarrow> 0 < bx_width b) \<Longrightarrow> wrap_ok available st \<Longrightarrow> wrap_ok available (foldl (wrap_step available) st bs)"
  by (induction bs arbitrary: st) (simp_all add: wrap_step_ok)

lemma wrap_loop_concat:
  "(case foldl (wrap_step available) st bs of (full, row, _) \<Rightarrow> concat full @ row)
    = (case st of (full, row, _) \<Rightarrow> concat full @ row @ bs)"
proof (induction bs arbitrary: st)
  case (Cons b bs)
  obtain full row used where st: "st = (full, row, used)" by (metis prod_cases3)
  show ?case by (simp add: Cons) (simp add: st wrap_step_def)
qed (simp split: prod.split)

lemma wrap_rows_ok:
  assumes "\<And>b. b \<in> set bs \<Longrightarrow> 0 < bx_width b"
  shows "concat (wrap_rows available bs) = bs"
    and "r \<in> set (wrap_rows available bs) \<Longrightarrow> length r \<le> 1 \<or> box_row_width r \<le> available"
proof -
  show "concat (wrap_rows available bs) = bs"
    using wrap_loop_concat [of available "([], [], 0)" bs]
    by (auto simp: wrap_rows_def split: prod.splits)
  have "wrap_ok available (foldl (wrap_step available) ([], [], 0) bs)"
    using assms by (intro wrap_loop_ok) (auto simp: wrap_ok_def)
  then show "r \<in> set (wrap_rows available bs) \<Longrightarrow> length r \<le> 1 \<or> box_row_width r \<le> available"
    by (auto simp: wrap_ok_def wrap_rows_def split: prod.splits)
qed

lemma map_nth_upt: "map (\<lambda>i. f (xs ! i)) [0..<length xs] = map f xs"
  by (rule nth_equalityI) simp_all

lemma place_row_uncalled: "map bx_uncalled (place_row x y bs) = map bx_uncalled bs"
  by (induction x y bs rule: place_row.induct) simp_all

lemma place_row_height: "map bx_height (place_row x y bs) = map bx_height bs"
  by (induction x y bs rule: place_row.induct) simp_all

lemma place_row_y: "c \<in> set (place_row x y bs) \<Longrightarrow> bx_y c = y"
  by (induction x y bs rule: place_row.induct) auto

lemma same_image: "map f xs = map f ys \<Longrightarrow> x \<in> set xs \<Longrightarrow> \<exists>y \<in> set ys. f y = f x"
  by (metis image_eqI image_iff list.set_map)

text \<open>Cards of one row are apart in x, cards of two rows in y.\<close>

definition cards_apart :: "card_box \<Rightarrow> card_box \<Rightarrow> bool" where
  "cards_apart a b \<longleftrightarrow> bx_x a + bx_width a + 12 \<le> bx_x b \<or> bx_y a + bx_height a + 12 \<le> bx_y b"

lemma rows_apart:
  assumes "\<And>r b. r \<in> set rows \<Longrightarrow> b \<in> set r \<Longrightarrow> 0 \<le> bx_width b \<and> bx_height b = h" "0 \<le> h" "n \<le> length rows"
  shows "sorted_wrt cards_apart (concat (map (\<lambda>i. place_row (x i) (y + real i * (h + 12)) (rows ! i)) [0..<n]))"
  using assms(3)
proof (induction n)
  case (Suc n)
  let ?f = "\<lambda>i. place_row (x i) (y + real i * (h + 12)) (rows ! i)"
  have row: "rows ! n \<in> set rows" using Suc.prems by simp
  have "sorted_wrt cards_apart (?f n)"
  proof (rule sorted_wrt_mono_rel [OF _ place_row_apart])
    show "cards_apart a b" if "bx_x a + bx_width a + 12 \<le> bx_x b" for a b using that by (simp add: cards_apart_def)
    show "0 \<le> bx_width b" if "b \<in> set (rows ! n)" for b using assms(1) [OF row that] by simp
  qed
  moreover have "cards_apart a b" if a: "a \<in> set (?f i)" and i: "i < n" and b: "b \<in> set (?f n)" for a b i
  proof -
    have "bx_height a = h"
      using same_image [OF place_row_height a] assms(1) [of "rows ! i"] i Suc.prems by force
    moreover have "real i + 1 \<le> real n" using i by linarith
    then have "(real i + 1) * (h + 12) \<le> real n * (h + 12)" using assms(2) by (intro mult_right_mono) auto
    ultimately show ?thesis
      using place_row_y [OF a] place_row_y [OF b] by (simp add: cards_apart_def algebra_simps)
  qed
  ultimately show ?case using Suc by (auto simp: sorted_wrt_append)
qed simp

lemma wrapIsolated_uncalled:
  assumes "filter bx_uncalled (cl_nodes raw) = first # rest"
    and rows: "rows = wrap_rows (max 1 (vw - 24) / fs) (first # rest)"
  shows "\<forall>r \<in> set rows. box_row_width r \<le> cl_width (wrapIsolated vw raw fs)"
    and "filter bx_uncalled (cl_nodes (wrapIsolated vw raw fs)) = filter bx_uncalled (concat (map (\<lambda>i.
        place_row ((cl_width (wrapIsolated vw raw fs) - box_row_width (rows ! i)) / 2)
          (bx_y first + real i * (bx_height first + 12)) (rows ! i)) [0..<length rows]))"
proof -
  have none: "filter bx_uncalled (map (\<lambda>b. b\<lparr>bx_x := bx_x b + c\<rparr>) (filter (\<lambda>b. \<not> bx_uncalled b) bs)) = []" for c bs
    by (induction bs) auto
  have nodes: "filter bx_uncalled (wrapped_nodes (filter (\<lambda>b. \<not> bx_uncalled b) bs) first rows width shift)
      = filter bx_uncalled (concat (map (\<lambda>i. place_row ((width - box_row_width (rows ! i)) / 2)
        (bx_y first + real i * (bx_height first + 12)) (rows ! i)) [0..<length rows]))" for bs width shift
    by (simp only: wrapped_nodes_def filter_append none append_Nil)
  have wide: "box_row_width r \<le> wrap_width raw rows g" if "r \<in> set rows" for r g
    using that unfolding wrap_width_def by (intro max_of_ge) simp
  let ?w = "wrap_width raw rows (graph_width raw)"
  have width: "cl_width (wrapIsolated vw raw fs) = ?w"
    and all: "cl_nodes (wrapIsolated vw raw fs)
      = wrapped_nodes (filter (\<lambda>b. \<not> bx_uncalled b) (cl_nodes raw)) first rows ?w (graph_shift raw ?w)"
    using assms(1) by (simp_all add: wrapIsolated_def Let_def rows [symmetric])
  show "\<forall>r \<in> set rows. box_row_width r \<le> cl_width (wrapIsolated vw raw fs)"
    unfolding width using wide by blast
  show "filter bx_uncalled (cl_nodes (wrapIsolated vw raw fs)) = filter bx_uncalled (concat (map (\<lambda>i.
        place_row ((cl_width (wrapIsolated vw raw fs) - box_row_width (rows ! i)) / 2)
          (bx_y first + real i * (bx_height first + 12)) (rows ! i)) [0..<length rows]))"
    unfolding width all by (rule nodes)
qed

section \<open>Properties\<close>

text \<open>
  Wrapping the isolated services of a map keeps them all, in order, and places
  their cards without overlap: any two are twelve pixels apart, in x within a row and in y
  between rows, every card lies inside the width of the map, and a row is wider than the view
  only when it holds a single card.
\<close>

theorem isolated_cards_never_overlap:
  assumes "filter bx_uncalled (cl_nodes raw) = isolated" "isolated \<noteq> []" "0 \<le> h"
    and "\<And>b. b \<in> set isolated \<Longrightarrow> 0 < bx_width b \<and> bx_height b = h"
    and "placed = filter bx_uncalled (cl_nodes (wrapIsolated vw raw fs))"
  shows "map bx_node placed = map bx_node isolated \<and> sorted_wrt cards_apart placed
    \<and> (\<forall>b \<in> set placed. 0 \<le> bx_x b \<and> bx_x b + bx_width b \<le> cl_width (wrapIsolated vw raw fs))
    \<and> (\<forall>r \<in> set (wrap_rows (max 1 (vw - 24) / fs) isolated).
        length r \<le> 1 \<or> box_row_width r \<le> max 1 (vw - 24) / fs)"
proof -
  obtain first rest where iso: "isolated = first # rest" using assms(2) by (cases isolated) auto
  define rows where "rows = wrap_rows (max 1 (vw - 24) / fs) isolated"
  note wr = wrap_rows_ok [where bs = isolated and available = "max 1 (vw - 24) / fs", folded rows_def]
  have cc: "concat rows = isolated" using wr(1) assms(4) by blast
  then have mem: "0 < bx_width b \<and> bx_height b = h \<and> bx_uncalled b" if "r \<in> set rows" "b \<in> set r" for r b
  proof -
    have "b \<in> set isolated" using that by (auto simp: cc [symmetric])
    then show ?thesis using assms(4) by (auto simp: assms(1) [symmetric])
  qed
  define width where "width = cl_width (wrapIsolated vw raw fs)"
  note wi = wrapIsolated_uncalled [OF assms(1) [unfolded iso] rows_def [unfolded iso]]
  have w: "cl_width (wrapIsolated vw raw fs) = width" "\<forall>r \<in> set rows. box_row_width r \<le> width"
    using wi(1) by (simp_all add: width_def)
  have "bx_height first = h" using assms(4) [of first] by (simp add: iso)
  with wi(2) have nodes: "placed = filter bx_uncalled (concat (map (\<lambda>i. place_row ((width - box_row_width (rows ! i)) / 2)
        (bx_y first + real i * (h + 12)) (rows ! i)) [0..<length rows]))"
    unfolding assms(5) width_def by (simp only:)
  let ?f = "\<lambda>i. place_row ((width - box_row_width (rows ! i)) / 2) (bx_y first + real i * (h + 12)) (rows ! i)"
  have placed: "placed = concat (map ?f [0..<length rows])"
    unfolding nodes
  proof (rule filter_True, rule ballI)
    fix b assume "b \<in> set (concat (map ?f [0..<length rows]))"
    then obtain i where i: "i < length rows" "b \<in> set (?f i)" by auto
    from same_image [OF place_row_uncalled i(2)] mem [of "rows ! i"] i(1) show "bx_uncalled b" by force
  qed
  have "map bx_node placed = concat (map (\<lambda>i. map bx_node (rows ! i)) [0..<length rows])"
    by (simp add: placed map_concat comp_def place_row_ids)
  also have "\<dots> = map bx_node (concat rows)" by (simp only: map_nth_upt map_concat)
  finally have ids: "map bx_node placed = map bx_node isolated" by (simp only: cc)
  have apart: "sorted_wrt cards_apart placed"
    unfolding placed by (rule rows_apart) (use mem assms(3) in \<open>auto intro: less_imp_le\<close>)
  have inside: "0 \<le> bx_x b \<and> bx_x b + bx_width b \<le> width" if b: "b \<in> set placed" for b
  proof -
    obtain i where i: "i < length rows" "b \<in> set (?f i)"
      using b unfolding placed by (auto simp del: place_row.simps)
    have "box_row_width (rows ! i) \<le> width" using w(2) i(1) by simp
    moreover have "(width - box_row_width (rows ! i)) / 2 \<le> bx_x b
        \<and> bx_x b + bx_width b \<le> (width - box_row_width (rows ! i)) / 2 + box_row_width (rows ! i)"
      by (rule place_row_inside [OF _ i(2)]) (use mem [of "rows ! i"] i(1) in \<open>auto intro: less_imp_le\<close>)
    ultimately show ?thesis by (auto simp: field_simps)
  qed
  show ?thesis using ids apart inside w(1) wr(2) assms(4) rows_def by blast
qed

definition demo_box :: "string \<Rightarrow> card_box" where
  "demo_box i = \<lparr>bx_node = unknown_node i, bx_x = 0, bx_y = 24, bx_width = 168, bx_height = 44, bx_entry = False, bx_uncalled = True\<rparr>"

definition demo_layout :: card_layout where
  "demo_layout = \<lparr>cl_nodes = [demo_box ''a'', demo_box ''b''], cl_routes = [], cl_width = 348, cl_height = 68,
     cl_label = None, cl_label_width = 0\<rparr>"

theorem isolated_cards_never_overlap_witness:
  "map bx_node (filter bx_uncalled (cl_nodes (wrapIsolated 200 demo_layout 1))) = [unknown_node ''a'', unknown_node ''b'']"
proof -
  have f: "filter bx_uncalled (cl_nodes demo_layout) = [demo_box ''a'', demo_box ''b'']"
    by (simp add: demo_layout_def demo_box_def)
  have b: "0 < bx_width b \<and> bx_height b = 44" if "b \<in> set [demo_box ''a'', demo_box ''b'']" for b
    using that by (auto simp: demo_box_def)
  have n: "map bx_node [demo_box ''a'', demo_box ''b''] = [unknown_node ''a'', unknown_node ''b'']"
    by (simp add: demo_box_def)
  show ?thesis
    using isolated_cards_never_overlap [OF f _ _ b refl, of 200 1] unfolding n by simp
qed

end
