(* ===== verification/Js_Scan.thy ===== *)
theory Js_Scan
  imports Js_Text
begin

text \<open>
  Reading text from the left, for the patterns of the code: a literal prefix, blanks (\<open>\s*\<close>), the
  characters of a name, a quoted text whose quotes are doubled, a decimal number. With the laws of
  \<open>trim\<close> on text that begins and ends with something visible.
\<close>

section \<open>Prefixes and blanks\<close>

definition strip_prefix :: "string \<Rightarrow> string \<Rightarrow> string option" where
  "strip_prefix p s = (if starts_with s p then Some (drop (length p) s) else None)"

lemma strip_prefix_length: "strip_prefix p s = Some r \<Longrightarrow> length s = length p + length r"
  by (auto simp: strip_prefix_def starts_with_def min_def dest: arg_cong [of _ _ length] split: if_splits)

lemma strip_prefix_append [simp]: "strip_prefix p (p @ s) = Some s"
  by (simp add: strip_prefix_def starts_with_def)

lemma strip_prefix_simps [simp]:
  "strip_prefix [] s = Some s" "strip_prefix (c # p) [] = None"
  "strip_prefix (c # p) (d # s) = (if c = d then strip_prefix p s else None)"
  by (simp_all add: strip_prefix_def starts_with_def)

lemma strip_prefix_Some: "strip_prefix p s = Some r \<longleftrightarrow> s = p @ r"
  by (auto simp: strip_prefix_def starts_with_def split: if_splits) (metis append_take_drop_id)

definition skip_blanks :: "string \<Rightarrow> string" where
  "skip_blanks s = concat (dropWhile (\<lambda>p. js_space (cp_of p)) (code_points s))"

lemma skip_blanks_length: "length (skip_blanks s) \<le> length s"
proof -
  have "length (concat (dropWhile P xs)) \<le> length (concat xs)" for P and xs :: "string list"
    by (induction xs) auto
  from this [of _ "code_points s"] show ?thesis by (simp add: skip_blanks_def)
qed

section \<open>Text that begins and ends visibly\<close>

text \<open>A text that does not begin inside a code point, and a visible character of one byte.\<close>

definition text_start :: "string \<Rightarrow> bool" where
  "text_start s \<longleftrightarrow> s = [] \<or> \<not> is_cont (hd s)"

definition visible :: "char \<Rightarrow> bool" where
  "visible c \<longleftrightarrow> byte c < 128 \<and> \<not> js_space (byte c)"

lemma code_points_hd: "s \<noteq> [] \<Longrightarrow> \<exists>p ps. code_points s = (hd s # p) # ps"
  by (cases s) (auto split: list.splits)

lemma code_points_Cons: "text_start s \<Longrightarrow> code_points (c # s) = [c] # code_points s"
proof (cases s)
  case (Cons d t)
  assume "text_start s"
  then have "\<not> is_cont d" by (simp add: text_start_def Cons)
  with code_points_hd [of s] show ?thesis by (auto simp: Cons split: list.splits)
qed simp

lemma code_points_snoc: "\<not> is_cont c \<Longrightarrow> code_points (s @ [c]) = code_points s @ [[c]]"
proof (induction s)
  case (Cons d s)
  then show ?case by (cases "code_points s") (auto split: list.splits)
qed simp

lemma cp_of_byte: "byte c < 128 \<Longrightarrow> cp_of [c] = byte c"
  by (simp add: cp_of_def)

lemma visible_not_cont: "visible c \<Longrightarrow> \<not> is_cont c"
  by (simp add: visible_def is_cont_def)

lemma skip_blanks_visible:
  "visible c \<Longrightarrow> text_start s \<Longrightarrow> skip_blanks (c # s) = c # s"
  by (simp add: skip_blanks_def code_points_Cons cp_of_byte visible_def del: code_points.simps)

lemma skip_blanks_space:
  "visible c \<Longrightarrow> text_start s \<Longrightarrow> skip_blanks (CHR '' '' # c # s) = c # s"
proof -
  assume a: "visible c" "text_start s"
  have "text_start (c # s)" using a by (simp add: text_start_def visible_not_cont)
  with a show ?thesis
    by (simp add: skip_blanks_def code_points_Cons [of "c # s"] code_points_Cons [of s] cp_of_byte visible_def
        del: code_points.simps) (simp add: cp_of_def byte_def js_space_def)
qed

lemma trim_visible:
  assumes "visible c" "text_start (m @ [d])" "visible d"
  shows "js_trim (c # m @ [d]) = c # m @ [d]"
proof -
  have "code_points (c # m @ [d]) = [c] # code_points m @ [[d]]"
    using assms by (simp add: code_points_Cons code_points_snoc visible_not_cont del: code_points.simps)
  with assms show ?thesis by (simp add: js_trim_def Let_def cp_of_byte visible_def del: code_points.simps)
qed

lemma trim_single: "visible c \<Longrightarrow> js_trim [c] = [c]"
  by (simp add: js_trim_def Let_def cp_of_byte visible_def)

section \<open>Names, numbers and quoted text\<close>

definition name_start :: "char \<Rightarrow> bool" where
  "name_start c \<longleftrightarrow> is_lower c \<or> c = CHR ''_''"

definition name_char :: "char \<Rightarrow> bool" where
  "name_char c \<longleftrightarrow> name_start c \<or> is_digit c"

text \<open>\<open>[a-z_][a-z0-9_]*\<close>\<close>

definition name_text :: "string \<Rightarrow> bool" where
  "name_text s \<longleftrightarrow> (case s of [] \<Rightarrow> False | c # t \<Rightarrow> name_start c \<and> list_all name_char t)"

text \<open>\<open>-?\d+(?:\.\d+)?\<close>\<close>

definition digits_text :: "string \<Rightarrow> bool" where
  "digits_text s \<longleftrightarrow> s \<noteq> [] \<and> list_all is_digit s"

definition decimal_text :: "string \<Rightarrow> bool" where
  "decimal_text s = (let i = takeWhile is_digit s; r = dropWhile is_digit s
     in i \<noteq> [] \<and> (case r of [] \<Rightarrow> True | c # f \<Rightarrow> c = CHR ''.'' \<and> digits_text f))"

definition number_text :: "string \<Rightarrow> bool" where
  "number_text s = (case s of c # t \<Rightarrow> decimal_text (if c = CHR ''-'' then t else s) | [] \<Rightarrow> False)"

abbreviation quote_char :: char where "quote_char \<equiv> CHR 0x27"

text \<open>The text up to the closing quote, quotes still doubled, and what follows it.\<close>

fun quoted_body :: "string \<Rightarrow> (string \<times> string) option" where
  "quoted_body [] = None"
| "quoted_body (c # s) = (if c \<noteq> quote_char then map_option (\<lambda>(b, r). (c # b, r)) (quoted_body s)
     else case s of
         d # t \<Rightarrow> if d = quote_char then map_option (\<lambda>(b, r). (c # d # b, r)) (quoted_body t) else Some ([], s)
       | [] \<Rightarrow> Some ([], []))"

text \<open>\<open>replaceAll("''", "'")\<close> and \<open>replaceAll("'", "''")\<close>\<close>

fun undouble :: "string \<Rightarrow> string" where
  "undouble (c # d # s) = (if c = quote_char \<and> d = quote_char then c # undouble s else c # undouble (d # s))"
| "undouble s = s"

definition double_quotes :: "string \<Rightarrow> string" where
  "double_quotes s = concat (map (\<lambda>c. if c = quote_char then [c, c] else [c]) s)"

lemma double_quotes_simps [simp]:
  "double_quotes [] = []" "double_quotes (c # s) = (if c = quote_char then [c, c] else [c]) @ double_quotes s"
  by (simp_all add: double_quotes_def)

lemma undouble_Cons: "c \<noteq> quote_char \<Longrightarrow> undouble (c # s) = c # undouble s"
  by (cases s) simp_all

lemma undouble_double [simp]: "undouble (double_quotes s) = s"
  by (induction s) (simp_all add: undouble_Cons)

lemma quoted_body_double:
  "r = [] \<or> hd r \<noteq> quote_char \<Longrightarrow> quoted_body (double_quotes s @ quote_char # r) = Some (double_quotes s, r)"
  by (induction s) (auto split: list.splits)

end
