(* ===== verification/Clip_Timeline.thy ===== *)
theory Clip_Timeline
  imports Js_Scan
begin

text \<open>
  The recorded clips of the site (\<open>site/scripts/clip-timeline.mjs\<close>): the frozen intervals read
  from ffmpeg's log, and the segments a clip is cut into. Waits and freezes are compressed to at
  most 0.6 seconds; holds, typing and everything else keep their time. \<open>np\<close> is the language's
  \<open>Number\<close> on strings and \<open>sn\<close> its inverse printing.
\<close>

type_synonym interval = "real \<times> real"

section \<open>Frozen intervals (parseFreezeDetect)\<close>

definition freezeDetectFilter :: string where
  "freezeDetectFilter = ''freezedetect=n=0.003:d=1.2''"

definition freeze_word :: "string \<Rightarrow> (bool \<times> string) option" where
  "freeze_word s = Option.bind (strip_prefix ''lavfi.freezedetect.freeze_'' s)
     (\<lambda>r. or_else (map_option (Pair True) (strip_prefix ''start:'' r)) (map_option (Pair False) (strip_prefix ''end:'' r)))"

text \<open>
  The pattern's \<open>\s*([^\r\n]*)\<close>: blanks, line breaks among them, then the rest of that line.
\<close>

definition line_break :: "char \<Rightarrow> bool" where
  "line_break c \<longleftrightarrow> byte c = 10 \<or> byte c = 13"

function freeze_matches :: "string \<Rightarrow> (bool \<times> string) list" where
  "freeze_matches s = (if s = [] then [] else case freeze_word s of
      None \<Rightarrow> freeze_matches (tl s)
    | Some (is_start, r) \<Rightarrow> (let v = skip_blanks r in
        (is_start, takeWhile (\<lambda>c. \<not> line_break c) v) # freeze_matches (dropWhile (\<lambda>c. \<not> line_break c) v)))"
  by auto

lemma freeze_word_shorter:
  assumes "freeze_word s = Some (b, r)"
  shows "length r < length s"
proof -
  obtain q where q: "strip_prefix ''lavfi.freezedetect.freeze_'' s = Some q"
      "or_else (map_option (Pair True) (strip_prefix ''start:'' q)) (map_option (Pair False) (strip_prefix ''end:'' q)) = Some (b, r)"
    using assms by (auto simp: freeze_word_def bind_eq_Some_conv)
  then have "strip_prefix ''start:'' q = Some r \<or> strip_prefix ''end:'' q = Some r"
    by (cases "strip_prefix ''start:'' q") auto
  then have "length r \<le> length q" by (auto dest: strip_prefix_length)
  with strip_prefix_length [OF q(1)] show ?thesis by simp
qed

termination freeze_matches
proof (relation "measure length", simp, goal_cases)
  case (1 s)
  then show ?case by (cases s) auto
next
  case (2 s m is_start r v)
  have "length r < length s"
    using 2(2,3) by (auto intro: freeze_word_shorter)
  moreover have "length v \<le> length r" using skip_blanks_length 2(4) by simp
  moreover have "length (dropWhile (\<lambda>c. \<not> line_break c) v) \<le> length v" by (rule length_dropWhile_le)
  ultimately show ?case by simp
qed

declare freeze_matches.simps [simp del]

type_synonym freeze_state = "real option \<times> interval list"

definition freeze_step :: "(string \<Rightarrow> num) \<Rightarrow> real \<Rightarrow> freeze_state \<Rightarrow> bool \<times> string \<Rightarrow> freeze_state result" where
  "freeze_step np d st mk = (case (st, mk) of ((open_at, done), (is_start, raw)) \<Rightarrow>
    (let value = js_trim raw in case (if value = [] then None else finite_val (np value)) of
        None \<Rightarrow> Inl ''Invalid freezedetect timestamp''
      | Some t \<Rightarrow> guard_err (t < 0 \<or> d + 1 / 4 < t) ''Invalid freezedetect timestamp''
          (if is_start then guard_err (open_at \<noteq> None \<or> t < (case last_opt done of Some (_, e) \<Rightarrow> e | None \<Rightarrow> 0))
              ''Unordered freezedetect start'' (Inr (Some (min t d), done))
           else case open_at of
               None \<Rightarrow> Inl ''Unpaired or unordered freezedetect end''
             | Some s \<Rightarrow> guard_err (t \<le> s) ''Unpaired or unordered freezedetect end''
                 (Inr (None, if s < min t d then done @ [(s, min t d)] else done)))))"

fun freeze_fold :: "(string \<Rightarrow> num) \<Rightarrow> real \<Rightarrow> freeze_state \<Rightarrow> (bool \<times> string) list \<Rightarrow> freeze_state result" where
  "freeze_fold np d st [] = Inr st"
| "freeze_fold np d st (mk # mks) = bind_result (freeze_step np d st mk) (\<lambda>st'. freeze_fold np d st' mks)"

definition positive_duration :: "num \<Rightarrow> real option" where
  "positive_duration n = (case n of Fin d \<Rightarrow> if 0 < d then Some d else None | _ \<Rightarrow> None)"

definition parseFreezeDetect :: "(string \<Rightarrow> num) \<Rightarrow> string \<Rightarrow> num \<Rightarrow> interval list result" where
  "parseFreezeDetect np stderr duration = (case positive_duration duration of
      None \<Rightarrow> Inl ''Video duration must be positive''
    | Some d \<Rightarrow> bind_result (freeze_fold np d (None, []) (freeze_matches stderr)) (\<lambda>(open_at, done).
        Inr (case open_at of Some s \<Rightarrow> if s < d then done @ [(s, d)] else done | None \<Rightarrow> done)))"

section \<open>Merged and cut intervals\<close>

definition merge_step :: "interval list \<Rightarrow> interval \<Rightarrow> interval list" where
  "merge_step merged i = (case last_opt merged of
      Some (s, e) \<Rightarrow> if fst i \<le> e then butlast merged @ [(s, max e (snd i))] else merged @ [i]
    | None \<Rightarrow> [i])"

definition mergeIntervals :: "interval list \<Rightarrow> interval list" where
  "mergeIntervals is = foldl merge_step [] (sort_by (key_le fst) is)"

text \<open>A merged wait from \<open>c\<close> to \<open>e\<close> without the holds inside it.\<close>

fun cut_wait :: "real \<Rightarrow> real \<Rightarrow> interval list \<Rightarrow> interval list" where
  "cut_wait e c [] = (if c < e then [(c, e)] else [])"
| "cut_wait e c ((hs, he) # holds) =
    (if he \<le> c then cut_wait e c holds
     else if e \<le> hs then (if c < e then [(c, e)] else [])
     else (if c < hs then [(c, hs)] else [])
       @ (if e \<le> max c he then [] else cut_wait e (max c he) holds))"

section \<open>Segments (clipSegments)\<close>

record wait =
  wt_kind :: string
  wt_start :: num
  wt_end :: num

record segment =
  sg_start :: real
  sg_end :: real
  sg_seconds :: real

definition clamped_wait :: "real \<Rightarrow> real \<Rightarrow> wait \<Rightarrow> (string \<times> interval) result" where
  "clamped_wait d lo w = (case (wt_start w, wt_end w) of
      (Fin s, Fin e) \<Rightarrow> guard_err (s < 0 \<or> e \<le> s) ''Wait intervals must have finite seconds with 0 <= start < end''
        (guard_err (d + 1 / 4 < e) ''Wait interval extends past the raw video''
          (Inr (wt_kind w, (max lo (min s d), min e d))))
    | _ \<Rightarrow> Inl ''Wait intervals must have finite seconds with 0 <= start < end'')"

definition freeze_wait :: "interval \<Rightarrow> wait" where
  "freeze_wait i = \<lparr>wt_kind = ''freeze'', wt_start = Fin (fst i), wt_end = Fin (snd i)\<rparr>"

definition protected_kind :: "string \<Rightarrow> bool" where
  "protected_kind k \<longleftrightarrow> k = ''hold'' \<or> k = ''typing''"

text \<open>The opening of a recording that marks no typing, up to its first wait.\<close>

definition opening_typing :: "wait list \<Rightarrow> interval list \<Rightarrow> real \<Rightarrow> real \<Rightarrow> (string \<times> interval) list" where
  "opening_typing waits freezes d lo =
    (if freezes \<noteq> [] \<and> \<not> list_ex (\<lambda>w. wt_kind w = ''typing'') waits then
       (let e = min_of d (List.map_filter (\<lambda>w. if wt_kind w \<noteq> ''hold'' then finite_val (wt_start w) else None) waits)
        in if lo < e then [(''typing'', (lo, min e d))] else [])
     else [])"

definition compressed :: "(string \<times> interval) list \<Rightarrow> interval list" where
  "compressed is = (let holds = mergeIntervals (map snd (filter (\<lambda>i. protected_kind (fst i)) is))
     in concat (map (\<lambda>(s, e). cut_wait e s holds)
          (mergeIntervals (map snd (filter (\<lambda>i. \<not> protected_kind (fst i)) is)))))"

definition real_time :: "real \<Rightarrow> real \<Rightarrow> segment list" where
  "real_time s e = (if s < e then [\<lparr>sg_start = s, sg_end = e, sg_seconds = e - s\<rparr>] else [])"

fun segments_from :: "real \<Rightarrow> real \<Rightarrow> interval list \<Rightarrow> segment list" where
  "segments_from d c [] = real_time c d"
| "segments_from d c ((s, e) # is) = real_time c s
     @ (if s < e then [\<lparr>sg_start = s, sg_end = e, sg_seconds = min (6 / 10) (e - s)\<rparr>] else [])
     @ segments_from d e is"

definition clipSegments :: "wait list option \<Rightarrow> num \<Rightarrow> num \<Rightarrow> interval list option \<Rightarrow> segment list result" where
  "clipSegments waits duration lo freezes = (case positive_duration duration of
      None \<Rightarrow> Inl ''Video duration must be positive''
    | Some d \<Rightarrow> (case lo of
        Fin f \<Rightarrow> guard_err (f < 0 \<or> d \<le> f) ''Clip start must be within the raw video''
          (case (waits, freezes) of
              (None, _) \<Rightarrow> Inl ''Timeline waits must be an array''
            | (_, None) \<Rightarrow> Inl ''Frozen intervals must be an array''
            | (Some ws, Some fs) \<Rightarrow> bind_result (collect_results (map (clamped_wait d f) (ws @ map freeze_wait fs)))
                (\<lambda>is. Inr (segments_from d f (compressed
                   (filter (\<lambda>(_, (s, e)). s < e) is @ opening_typing ws fs d f)))))
      | _ \<Rightarrow> Inl ''Clip start must be within the raw video''))"

definition clipFilter :: "(num \<Rightarrow> string) \<Rightarrow> segment list \<Rightarrow> string" where
  "clipFilter sn segs = join '';\<newline>'' (map (\<lambda>(i, g).
       ''[0:v]trim=start='' @ sn (Fin (sg_start g)) @ '':end='' @ sn (Fin (sg_end g)) @ '',setpts=(PTS-STARTPTS)*''
         @ sn (Fin (sg_seconds g / (sg_end g - sg_start g))) @ ''[v'' @ show_nat i @ '']'') (enumerate 0 segs)
     @ [concat (map (\<lambda>i. ''[v'' @ show_nat i @ '']'') [0..<length segs]) @ ''concat=n='' @ show_nat (length segs)
         @ '':v=1:a=0,scale=1280:800,fps=30,format=yuv420p[out]''])"

section \<open>Lemmas\<close>

definition apart :: "interval \<Rightarrow> interval \<Rightarrow> bool" where
  "apart a b \<longleftrightarrow> snd a < fst b"

definition inside :: "interval \<Rightarrow> interval \<Rightarrow> bool" where
  "inside i m \<longleftrightarrow> fst m \<le> fst i \<and> snd i \<le> snd m"

text \<open>What merging has built from intervals that start in order.\<close>

definition merged_ok :: "interval list \<Rightarrow> interval list \<Rightarrow> bool" where
  "merged_ok is m \<longleftrightarrow> sorted_wrt apart m \<and> (\<forall>i \<in> set m. fst i < snd i) \<and> (\<forall>i \<in> set is. \<exists>j \<in> set m. inside i j)
     \<and> fst ` set m \<subseteq> fst ` set is \<and> snd ` set m \<subseteq> snd ` set is"

lemma merge_step_ok:
  assumes m: "merged_ok is m" and i: "fst i < snd i" and le: "\<And>j. j \<in> set is \<Longrightarrow> fst j \<le> fst i"
  shows "merged_ok (is @ [i]) (merge_step m i)"
proof (cases m rule: rev_cases)
  case Nil
  with m i show ?thesis by (auto simp: merged_ok_def merge_step_def inside_def)
next
  case (snoc xs l)
  obtain s e where l: "l = (s, e)" by fastforce
  have se: "s < e" "sorted_wrt apart xs" "\<And>x. x \<in> set xs \<Longrightarrow> apart x l \<and> fst x < snd x"
    using m by (auto simp: merged_ok_def snoc l sorted_wrt_append)
  have "s \<in> fst ` set is" using m by (force simp: merged_ok_def snoc l)
  then have sl: "s \<le> fst i" using le by auto
  show ?thesis
  proof (cases "fst i \<le> e")
    case True
    have "apart x (s, max e (snd i))" if "x \<in> set xs" for x
      using se(3) [OF that] by (simp add: apart_def l)
    moreover have "\<exists>j \<in> set (xs @ [(s, max e (snd i))]). inside k j" if "k \<in> set is" for k
      using m that by (fastforce simp: merged_ok_def snoc l inside_def)
    ultimately show ?thesis
      using m se True sl i
      by (auto simp: merge_step_def snoc l merged_ok_def sorted_wrt_append inside_def max_def)
  next
    case False
    have "apart x i" if "x \<in> set xs" for x
      using se(3) [OF that] se(1) False by (simp add: apart_def l)
    with m False i show ?thesis
      by (auto simp: merge_step_def snoc l merged_ok_def sorted_wrt_append inside_def apart_def)
  qed
qed

lemma mergeIntervals_ok:
  assumes "\<And>i. i \<in> set is \<Longrightarrow> fst i < snd i"
  shows "merged_ok is (mergeIntervals is)"
proof -
  have "merged_ok xs (foldl merge_step [] xs)"
    if "sorted_wrt (key_le fst) xs" "\<And>i. i \<in> set xs \<Longrightarrow> fst i < snd i" for xs :: "interval list"
    using that
  proof (induction xs rule: rev_induct)
    case (snoc x xs)
    then show ?case by (auto simp: sorted_wrt_append key_le_def intro!: merge_step_ok)
  qed (simp add: merged_ok_def)
  then have "merged_ok (sort_by (key_le fst) is) (mergeIntervals is)"
    unfolding mergeIntervals_def using assms by (blast intro: key_le.sorted_sort_by dest: set_sort_by [THEN equalityD1, THEN subsetD])
  then show ?thesis by (simp add: merged_ok_def)
qed

lemma cut_wait_ok:
  assumes "sorted_wrt apart holds" "\<forall>h \<in> set holds. fst h < snd h" "i \<in> set (cut_wait e c holds)"
  shows "c \<le> fst i \<and> fst i < snd i \<and> snd i \<le> e \<and> (\<forall>h \<in> set holds. snd h \<le> fst i \<or> snd i \<le> fst h)"
  using assms
proof (induction e c holds rule: cut_wait.induct)
  case (2 e c hs he holds)
  note IH = 2(1,2) and ord = 2(3,4) and mem = 2(5)
  have hs: "hs < he" using 2(4) by simp
  have later: "he < fst h" if "h \<in> set holds" for h using 2(3) that by (auto simp: apart_def)
  show ?case
  proof (cases "he \<le> c")
    case True
    with 2 show ?thesis by auto
  next
    case F: False
    show ?thesis
    proof (cases "e \<le> hs")
      case True
      with F 2(5) have "i = (c, e)" "c < e" by (auto split: if_splits)
      with True hs show ?thesis using later by force
    next
      case False
      with F 2(5) consider "i = (c, hs)" "c < hs" | "i \<in> set (cut_wait e (max c he) holds)" "max c he < e"
        by (auto split: if_splits)
      then show ?thesis
      proof cases
        case 1
        with F False hs show ?thesis using later by force
      next
        case 2
        have "max c he \<le> fst i \<and> fst i < snd i \<and> snd i \<le> e \<and> (\<forall>h \<in> set holds. snd h \<le> fst i \<or> snd i \<le> fst h)"
          by (rule IH(2)) (use F False 2 ord in auto)
        then show ?thesis by auto
      qed
    qed
  qed
qed (auto split: if_splits)

lemma cut_wait_ordered:
  assumes "sorted_wrt apart holds" "\<forall>h \<in> set holds. fst h < snd h"
  shows "sorted_wrt (\<lambda>a b. snd a \<le> fst b) (cut_wait e c holds)"
  using assms
proof (induction e c holds rule: cut_wait.induct)
  case (2 e c hs he holds)
  have "hs < he" using 2(4) by simp
  then have "hs \<le> a" if "(a, b) \<in> set (cut_wait e (max c he) holds)" for a b
    using cut_wait_ok [of holds "(a, b)" e "max c he"] 2(3,4) that by fastforce
  with 2 show ?case by auto
qed auto

definition in_order :: "interval list \<Rightarrow> bool" where
  "in_order is \<longleftrightarrow> sorted_wrt (\<lambda>a b. snd a \<le> fst b) is \<and> (\<forall>i \<in> set is. fst i < snd i)"

lemma in_order_simps [simp]:
  "in_order []"
  "in_order (xs @ ys) \<longleftrightarrow> in_order xs \<and> in_order ys \<and> (\<forall>a \<in> set xs. \<forall>b \<in> set ys. snd a \<le> fst b)"
  by (auto simp: in_order_def sorted_wrt_append)

lemma cuts_in_order:
  assumes "sorted_wrt apart ms" "sorted_wrt apart holds" "\<forall>h \<in> set holds. fst h < snd h"
  shows "in_order (concat (map (\<lambda>(s, e). cut_wait e s holds) ms))"
  using assms(1)
proof (induction ms)
  case (Cons m ms)
  obtain s e where m: "m = (s, e)" by fastforce
  note cut = cut_wait_ok [OF assms(2,3)]
  have "in_order (cut_wait e s holds)"
    using cut_wait_ordered [OF assms(2,3), of e s] cut by (auto simp: in_order_def)
  moreover have "snd a \<le> fst b"
    if ab: "a \<in> set (cut_wait e s holds)" "b \<in> set (concat (map (\<lambda>(s, e). cut_wait e s holds) ms))" for a b
  proof -
    obtain t u where n: "(t, u) \<in> set ms" "b \<in> set (cut_wait u t holds)" using ab(2) by auto
    have "e < t" using Cons.prems n(1) by (auto simp: m apart_def)
    with cut [OF ab(1)] cut [OF n(2)] show ?thesis by linarith
  qed
  moreover have "in_order (concat (map (\<lambda>(s, e). cut_wait e s holds) ms))" using Cons by simp
  ultimately show ?case by (simp add: m)
qed simp

lemma compressed_ok:
  assumes "\<And>k i. (k, i) \<in> set is \<Longrightarrow> fst i < snd i"
  shows "in_order (compressed is)"
    and "\<And>c k i. c \<in> set (compressed is) \<Longrightarrow> (k, i) \<in> set is \<Longrightarrow> protected_kind k \<Longrightarrow> snd i \<le> fst c \<or> snd c \<le> fst i"
    and "\<And>c. c \<in> set (compressed is) \<Longrightarrow> \<exists>k i j l. (k, i) \<in> set is \<and> (l, j) \<in> set is \<and> fst i \<le> fst c \<and> snd c \<le> snd j"
proof -
  let ?h = "map snd (filter (\<lambda>i. protected_kind (fst i)) is)" and ?w = "map snd (filter (\<lambda>i. \<not> protected_kind (fst i)) is)"
  have h: "merged_ok ?h (mergeIntervals ?h)" and w: "merged_ok ?w (mergeIntervals ?w)"
    by (rule mergeIntervals_ok; use assms in auto)+
  have hs: "sorted_wrt apart (mergeIntervals ?h)" "\<forall>i \<in> set (mergeIntervals ?h). fst i < snd i"
    using h by (auto simp: merged_ok_def)
  have c: "compressed is = concat (map (\<lambda>(s, e). cut_wait e s (mergeIntervals ?h)) (mergeIntervals ?w))"
    by (simp add: compressed_def Let_def)
  have ws: "sorted_wrt apart (mergeIntervals ?w)" using w by (simp add: merged_ok_def)
  from cuts_in_order [OF ws hs] show "in_order (compressed is)" by (simp only: c)
  show "snd i \<le> fst c \<or> snd c \<le> fst i"
    if a: "c \<in> set (compressed is)" "(k, i) \<in> set is" "protected_kind k" for c k i
  proof -
    obtain s e where "c \<in> set (cut_wait e s (mergeIntervals ?h))" using a(1) by (auto simp: c)
    from cut_wait_ok [OF hs this] have "\<forall>j \<in> set (mergeIntervals ?h). snd j \<le> fst c \<or> snd c \<le> fst j" by blast
    moreover have "i \<in> set ?h" using a(2,3) by force
    moreover have "\<forall>i \<in> set ?h. \<exists>j \<in> set (mergeIntervals ?h). inside i j" using h unfolding merged_ok_def by blast
    ultimately obtain j where "j \<in> set (mergeIntervals ?h)" "inside i j"
        "\<forall>j \<in> set (mergeIntervals ?h). snd j \<le> fst c \<or> snd c \<le> fst j" by blast
    then show ?thesis by (force simp: inside_def)
  qed
  show "\<exists>k i j l. (k, i) \<in> set is \<and> (l, j) \<in> set is \<and> fst i \<le> fst c \<and> snd c \<le> snd j"
    if a: "c \<in> set (compressed is)" for c
  proof -
    obtain s e where se: "(s, e) \<in> set (mergeIntervals ?w)" "c \<in> set (cut_wait e s (mergeIntervals ?h))"
      using a by (auto simp: c)
    from cut_wait_ok [OF hs se(2)] have b: "s \<le> fst c" "snd c \<le> e" by auto
    have "fst ` set (mergeIntervals ?w) \<subseteq> fst ` set ?w" "snd ` set (mergeIntervals ?w) \<subseteq> snd ` set ?w"
      using w unfolding merged_ok_def by blast+
    with se(1) have "s \<in> fst ` set ?w" "e \<in> snd ` set ?w" by force+
    then obtain i j where "i \<in> set ?w" "fst i = s" "j \<in> set ?w" "snd j = e" by blast
    with b show ?thesis by fastforce
  qed
qed

lemma segments_from_ok:
  assumes "in_order is" "\<And>i. i \<in> set is \<Longrightarrow> c \<le> fst i \<and> snd i \<le> d" "c \<le> d"
  shows "map sg_start (segments_from d c is) @ [d] = c # map sg_end (segments_from d c is)"
    and "g \<in> set (segments_from d c is) \<Longrightarrow> sg_start g < sg_end g \<and> c \<le> sg_start g \<and> sg_end g \<le> d \<and>
      (sg_seconds g = sg_end g - sg_start g
        \<or> (sg_start g, sg_end g) \<in> set is \<and> sg_seconds g = min (6 / 10) (sg_end g - sg_start g))"
proof -
  have "map sg_start (segments_from d c is) @ [d] = c # map sg_end (segments_from d c is)
    \<and> (\<forall>g \<in> set (segments_from d c is). sg_start g < sg_end g \<and> c \<le> sg_start g \<and> sg_end g \<le> d \<and>
      (sg_seconds g = sg_end g - sg_start g
        \<or> (sg_start g, sg_end g) \<in> set is \<and> sg_seconds g = min (6 / 10) (sg_end g - sg_start g)))"
    using assms
  proof (induction d c "is" rule: segments_from.induct)
    case (2 d c s e "is")
    have se: "c \<le> s" "s < e" "e \<le> d" using 2(2) 2(3) [of "(s, e)"] by (auto simp: in_order_def)
    have IH: "map sg_start (segments_from d e is) @ [d] = e # map sg_end (segments_from d e is)
      \<and> (\<forall>g \<in> set (segments_from d e is). sg_start g < sg_end g \<and> e \<le> sg_start g \<and> sg_end g \<le> d \<and>
      (sg_seconds g = sg_end g - sg_start g
        \<or> (sg_start g, sg_end g) \<in> set is \<and> sg_seconds g = min (6 / 10) (sg_end g - sg_start g)))"
      by (rule 2(1)) (use 2(2,3) se in \<open>auto simp: in_order_def\<close>)
    have starts: "map sg_start (real_time c s) @ [s] = c # map sg_end (real_time c s)"
      using se(1) by (simp add: real_time_def)
    have "map sg_start (segments_from d c ((s, e) # is)) @ [d]
        = map sg_start (real_time c s) @ [s] @ map sg_start (segments_from d e is) @ [d]" using se(2) by simp
    also have "\<dots> = (map sg_start (real_time c s) @ [s]) @ e # map sg_end (segments_from d e is)" using IH by simp
    also have "\<dots> = c # map sg_end (segments_from d c ((s, e) # is))" unfolding starts using se(2) by simp
    finally show ?case using IH se by (fastforce simp: real_time_def split: if_splits)
  qed (auto simp: real_time_def)
  then show "map sg_start (segments_from d c is) @ [d] = c # map sg_end (segments_from d c is)"
    and "g \<in> set (segments_from d c is) \<Longrightarrow> sg_start g < sg_end g \<and> c \<le> sg_start g \<and> sg_end g \<le> d \<and>
      (sg_seconds g = sg_end g - sg_start g
        \<or> (sg_start g, sg_end g) \<in> set is \<and> sg_seconds g = min (6 / 10) (sg_end g - sg_start g))" by auto
qed

lemma clamped_wait_Inr:
  assumes "clamped_wait d f w = Inr k"
  obtains s e where "wt_start w = Fin s" "wt_end w = Fin e" "0 \<le> s" "s < e" "e \<le> d + 1 / 4"
    "k = (wt_kind w, (max f (min s d), min e d))"
  using assms by (auto simp: clamped_wait_def split: num.splits)

text \<open>What the fold over ffmpeg's log keeps.\<close>

definition freeze_inv :: "real \<Rightarrow> freeze_state \<Rightarrow> bool" where
  "freeze_inv d st \<longleftrightarrow> in_order (snd st) \<and> (\<forall>i \<in> set (snd st). 0 \<le> fst i \<and> snd i \<le> d)
     \<and> (\<forall>s. fst st = Some s \<longrightarrow> 0 \<le> s \<and> s \<le> d \<and> (\<forall>i \<in> set (snd st). snd i \<le> s))"

lemma in_order_last: "in_order (xs @ [l]) \<Longrightarrow> i \<in> set (xs @ [l]) \<Longrightarrow> snd i \<le> snd l"
  by (auto simp: in_order_def sorted_wrt_append)

lemma freeze_step_inv:
  assumes "freeze_step np d st mk = Inr st'" "freeze_inv d st" "0 < d"
  shows "freeze_inv d st'"
proof -
  obtain open_at ds where st: "st = (open_at, ds)" by fastforce
  obtain is_start raw where mk: "mk = (is_start, raw)" by fastforce
  obtain t where t: "0 \<le> t" "t \<le> d + 1 / 4" and step:
    "(if is_start then guard_err (open_at \<noteq> None \<or> t < (case last_opt ds of Some (_, e) \<Rightarrow> e | None \<Rightarrow> 0))
              ''Unordered freezedetect start'' (Inr (Some (min t d), ds))
           else case open_at of
               None \<Rightarrow> Inl ''Unpaired or unordered freezedetect end''
             | Some s \<Rightarrow> guard_err (t \<le> s) ''Unpaired or unordered freezedetect end''
                 (Inr (None, if s < min t d then ds @ [(s, min t d)] else ds))) = Inr st'"
    using assms(1) by (auto simp: freeze_step_def st mk Let_def not_less split: option.splits if_splits)
  show ?thesis
  proof (cases is_start)
    case True
    have "snd i \<le> min t d" if "i \<in> set ds" for i
    proof (cases ds rule: rev_cases)
      case (snoc xs l)
      with in_order_last [of xs l i] that assms(2) step True
      have "snd i \<le> snd l" "snd l \<le> t" "snd l \<le> d" by (auto simp: freeze_inv_def st split: prod.splits)
      then show ?thesis by simp
    qed (use that in simp)
    with True step assms(2,3) t show ?thesis by (fastforce simp: freeze_inv_def st)
  next
    case False
    then show ?thesis
      using step assms(2) t by (auto simp: freeze_inv_def st in_order_def sorted_wrt_append split: option.splits if_splits)
  qed
qed

lemma freeze_fold_inv:
  "freeze_fold np d st mks = Inr st' \<Longrightarrow> freeze_inv d st \<Longrightarrow> 0 < d \<Longrightarrow> freeze_inv d st'"
  by (induction mks arbitrary: st) (auto simp: bind_result_Inr dest: freeze_step_inv)

lemma parseFreezeDetect_ok:
  assumes "parseFreezeDetect np stderr (Fin d) = Inr fs"
  shows "in_order fs \<and> (\<forall>i \<in> set fs. 0 \<le> fst i \<and> snd i \<le> d)"
proof -
  obtain open_at ds where st: "0 < d" "freeze_fold np d (None, []) (freeze_matches stderr) = Inr (open_at, ds)"
      "fs = (case open_at of Some s \<Rightarrow> if s < d then ds @ [(s, d)] else ds | None \<Rightarrow> ds)"
    using assms by (auto simp: parseFreezeDetect_def positive_duration_def bind_result_Inr split: if_splits)
  have "freeze_inv d (open_at, ds)" by (rule freeze_fold_inv [OF st(2)]) (use st(1) in \<open>simp_all add: freeze_inv_def\<close>)
  then show ?thesis using st(3) by (auto simp: freeze_inv_def in_order_def sorted_wrt_append split: option.splits)
qed

section \<open>Properties\<close>

definition clip_items :: "wait list \<Rightarrow> interval list \<Rightarrow> real \<Rightarrow> real \<Rightarrow> (string \<times> interval) list \<Rightarrow> (string \<times> interval) list" where
  "clip_items ws fs d f ks = filter (\<lambda>(_, (s, e)). s < e) ks @ opening_typing ws fs d f"

lemma clip_items_inside:
  assumes "map (clamped_wait d f) (ws @ map freeze_wait fs) = map Inr ks" "f < d" "(k, i) \<in> set (clip_items ws fs d f ks)"
  shows "f \<le> fst i \<and> fst i < snd i \<and> snd i \<le> d"
proof -
  consider "(k, i) \<in> set ks" "fst i < snd i" | "(k, i) \<in> set (opening_typing ws fs d f)"
    using assms(3) by (auto simp: clip_items_def)
  then show ?thesis
  proof cases
    case 1
    then have "Inr (k, i) \<in> set (map (clamped_wait d f) (ws @ map freeze_wait fs))" using assms(1) by simp
    then obtain w where "clamped_wait d f w = Inr (k, i)" by auto
    then show ?thesis using 1(2) by (elim clamped_wait_Inr) auto
  next
    case 2
    then show ?thesis using assms(2) by (auto simp: opening_typing_def Let_def split: if_splits)
  qed
qed

lemma clip_segment_ok:
  assumes "map (clamped_wait d f) (ws @ map freeze_wait fs) = map Inr ks" "f < d"
    and "g \<in> set (segments_from d f (compressed (clip_items ws fs d f ks)))"
  shows "sg_start g < sg_end g \<and> f \<le> sg_start g \<and> sg_end g \<le> d \<and> (sg_seconds g = sg_end g - sg_start g
      \<or> (sg_start g, sg_end g) \<in> set (compressed (clip_items ws fs d f ks)) \<and> sg_seconds g = min (6 / 10) (sg_end g - sg_start g))"
proof -
  note inside = clip_items_inside [OF assms(1,2)] and co = compressed_ok [of "clip_items ws fs d f ks"]
  have "f \<le> fst c \<and> snd c \<le> d" if "c \<in> set (compressed (clip_items ws fs d f ks))" for c
    using co(3) [OF _ that] inside by fastforce
  then show ?thesis by (rule_tac segments_from_ok(2)) (use co(1) inside assms in auto)
qed

lemma clip_segment_clear:
  assumes "map (clamped_wait d f) (ws @ map freeze_wait fs) = map Inr ks" "f < d"
    and g: "g \<in> set (segments_from d f (compressed (clip_items ws fs d f ks)))"
      "(sg_start g, sg_end g) \<in> set (compressed (clip_items ws fs d f ks))"
    and w: "w \<in> set ws" "protected_kind (wt_kind w)" "wt_start w = Fin s" "wt_end w = Fin e"
  shows "e \<le> sg_start g \<or> sg_end g \<le> s"
proof -
  note seg = clip_segment_ok [OF assms(1,2) g(1)]
  have "clamped_wait d f w \<in> set (map Inr ks)" unfolding assms(1) [symmetric] using w(1) by simp
  then obtain k where "clamped_wait d f w = Inr k" "k \<in> set ks" by auto
  then have k: "(wt_kind w, (max f (min s d), min e d)) \<in> set ks" "s < e"
    using w(3,4) by (auto elim!: clamped_wait_Inr)
  have "min e d \<le> sg_start g \<or> sg_end g \<le> max f (min s d)"
  proof (cases "max f (min s d) < min e d")
    case True
    then have "(wt_kind w, (max f (min s d), min e d)) \<in> set (clip_items ws fs d f ks)" using k(1) by (auto simp: clip_items_def)
    from compressed_ok(2) [OF _ g(2) this w(2)] clip_items_inside [OF assms(1,2)] show ?thesis by auto
  qed (use seg k(2) in \<open>auto simp: min_def max_def split: if_splits\<close>)
  with seg k(2) show ?thesis by (auto simp: min_def max_def split: if_splits)
qed

text \<open>
  Property C35. The segments of a clip cut the video from the clip's start to its end without gap
  or overlap: each begins where the one before it ended. A segment keeps its time or is played
  in 0.6 seconds, and a shortened one never touches a hold or a moment of typing.
\<close>

theorem clip_segments_partition_the_video:
  assumes "clipSegments (Some ws) (Fin d) (Fin f) (Some fs) = Inr segs"
  shows "map sg_start segs @ [d] = f # map sg_end segs
    \<and> (\<forall>g \<in> set segs. sg_start g < sg_end g \<and> (sg_seconds g = sg_end g - sg_start g
        \<or> sg_seconds g = 6 / 10 \<and> 6 / 10 < sg_end g - sg_start g
          \<and> (\<forall>w s e. w \<in> set ws \<and> protected_kind (wt_kind w) \<and> wt_start w = Fin s \<and> wt_end w = Fin e
                \<longrightarrow> e \<le> sg_start g \<or> sg_end g \<le> s)))"
proof -
  obtain ks where ks: "map (clamped_wait d f) (ws @ map freeze_wait fs) = map Inr ks" "0 < d" "0 \<le> f" "f < d"
      and segs: "segs = segments_from d f (compressed (clip_items ws fs d f ks))"
    using assms by (auto simp: clipSegments_def positive_duration_def bind_result_Inr collect_results_ok clip_items_def split: if_splits)
  note inside = clip_items_inside [OF ks(1,4)] and co = compressed_ok [of "clip_items ws fs d f ks"]
  have "f \<le> fst c \<and> snd c \<le> d" if "c \<in> set (compressed (clip_items ws fs d f ks))" for c
    using co(3) [OF _ that] inside by fastforce
  then have part: "map sg_start segs @ [d] = f # map sg_end segs"
    unfolding segs by (rule_tac segments_from_ok(1)) (use co(1) inside ks(4) in auto)
  have "sg_start g < sg_end g \<and> (sg_seconds g = sg_end g - sg_start g
        \<or> sg_seconds g = 6 / 10 \<and> 6 / 10 < sg_end g - sg_start g
          \<and> (\<forall>w s e. w \<in> set ws \<and> protected_kind (wt_kind w) \<and> wt_start w = Fin s \<and> wt_end w = Fin e
                \<longrightarrow> e \<le> sg_start g \<or> sg_end g \<le> s))" if g: "g \<in> set segs" for g
  proof (cases "sg_seconds g = sg_end g - sg_start g")
    case False
    note seg = clip_segment_ok [OF ks(1,4) g [unfolded segs]] and clear = clip_segment_clear [OF ks(1,4) g [unfolded segs]]
    from False seg have "(sg_start g, sg_end g) \<in> set (compressed (clip_items ws fs d f ks))"
        "sg_seconds g = 6 / 10" "6 / 10 < sg_end g - sg_start g"
      by (auto simp: min_def split: if_splits)
    with clear [OF this(1)] seg show ?thesis by blast
  qed (use clip_segment_ok [OF ks(1,4) g [unfolded segs]] in simp)
  with part show ?thesis by blast
qed

theorem clip_segments_partition_the_video_witness:
  "\<exists>segs. clipSegments (Some [\<lparr>wt_kind = ''wait'', wt_start = Fin 1, wt_end = Fin 5\<rparr>]) (Fin 6) (Fin 0) (Some []) = Inr segs
    \<and> map sg_start segs @ [6] = 0 # map sg_end segs"
proof -
  have "\<exists>segs. clipSegments (Some [\<lparr>wt_kind = ''wait'', wt_start = Fin 1, wt_end = Fin 5\<rparr>]) (Fin 6) (Fin 0) (Some []) = Inr segs"
    by (simp add: clipSegments_def positive_duration_def clamped_wait_def)
  then obtain segs where c: "clipSegments (Some [\<lparr>wt_kind = ''wait'', wt_start = Fin 1, wt_end = Fin 5\<rparr>]) (Fin 6) (Fin 0) (Some []) = Inr segs" ..
  with clip_segments_partition_the_video [OF c] show ?thesis by blast
qed

text \<open>
  What is read from ffmpeg's log is accepted where it is used: the frozen intervals
  are in order inside the video, and a timeline whose waits make a clip still makes one with
  them.
\<close>

theorem parsed_freezes_make_a_clip:
  assumes "parseFreezeDetect np stderr (Fin d) = Inr fs"
    and "clipSegments (Some ws) (Fin d) (Fin f) (Some []) = Inr plain"
  shows "in_order fs \<and> (\<forall>i \<in> set fs. 0 \<le> fst i \<and> snd i \<le> d)
    \<and> (\<exists>segs. clipSegments (Some ws) (Fin d) (Fin f) (Some fs) = Inr segs)"
proof -
  note fs = parseFreezeDetect_ok [OF assms(1)]
  obtain ks where ks: "map (clamped_wait d f) ws = map Inr ks" "0 < d" "0 \<le> f" "f < d"
    using assms(2) by (auto simp: clipSegments_def positive_duration_def bind_result_Inr collect_results_ok split: if_splits)
  have "map (clamped_wait d f \<circ> freeze_wait) fs
      = map Inr (map (\<lambda>i. (''freeze'', (max f (min (fst i) d), min (snd i) d))) fs)"
    using fs by (auto simp: clamped_wait_def freeze_wait_def in_order_def)
  with ks(1) have "map (clamped_wait d f) (ws @ map freeze_wait fs)
      = map Inr (ks @ map (\<lambda>i. (''freeze'', (max f (min (fst i) d), min (snd i) d))) fs)" by simp
  then have "collect_results (map (clamped_wait d f) (ws @ map freeze_wait fs))
      = Inr (ks @ map (\<lambda>i. (''freeze'', (max f (min (fst i) d), min (snd i) d))) fs)"
    unfolding collect_results_ok .
  with ks fs show ?thesis by (simp add: clipSegments_def positive_duration_def)
qed

definition demo_log :: string where
  "demo_log = ''[x] lavfi.freezedetect.freeze_start: 2''"

theorem parsed_freezes_make_a_clip_witness:
  "\<exists>segs. clipSegments (Some []) (Fin 6) (Fin 0) (Some [(2, 6)]) = Inr segs"
proof -
  have "freeze_matches demo_log = [(True, ''2'')]"
    by (simp add: demo_log_def freeze_matches.simps freeze_word_def strip_prefix_def skip_blanks_def or_else_def
        byte_def js_space_def cp_of_def line_break_def is_cont_def)
  then have "parseFreezeDetect (\<lambda>_. Fin 2) demo_log (Fin 6) = Inr [(2, 6)]"
    by (simp add: parseFreezeDetect_def positive_duration_def freeze_step_def js_trim_def byte_def js_space_def cp_of_def is_cont_def)
  moreover have "\<exists>p. clipSegments (Some []) (Fin 6) (Fin 0) (Some []) = Inr p"
    by (simp add: clipSegments_def positive_duration_def)
  ultimately show ?thesis using parsed_freezes_make_a_clip by blast
qed

end
