(* ===== verification/Eval_Score.thy ===== *)
theory Eval_Score
  imports Js_Text "HOL-Library.Sublist"
begin

text \<open>
  The scoring of the dashboard evaluation (\<open>scripts/dashboard-eval/score.ts\<close> and
  \<open>intent.ts\<close>): which runs pass, which panels an edit changed, and whether an edit is the one
  that was asked for. \<open>js\<close> is \<open>JSON.stringify\<close>, \<open>lc\<close> the order of \<open>localeCompare\<close>. A panel
  is its object's entries, a spec its other entries and its panels.
\<close>

section \<open>Runs\<close>

record saved_panel =
  sp_id :: string
  sp_description :: "string option"
  sp_viz :: "string option"
  sp_content :: "string option"

record check =
  ck_id :: string
  ck_status :: string
  ck_rows :: real
  ck_diagnosis :: "string option"
  ck_error :: "string option"

record eval_run =
  rn_complete :: bool
  rn_saved :: bool
  rn_elapsed :: "num option"
  rn_valid :: bool
  rn_checked :: bool
  rn_panels :: "saved_panel list"
  rn_checks :: "check list"

record edit =
  ed_passed :: bool
  ed_changed :: "string list"
  ed_expected :: "string list"

definition median :: "real list \<Rightarrow> real option" where
  "median xs = (if xs = [] then None
     else let s = sort_by (\<le>) xs; i = length s div 2
       in Some (if odd (length s) then s ! i else (s ! (i - 1) + s ! i) / 2))"

definition given_text :: "string option \<Rightarrow> bool" where
  "given_text v = (case v of Some s \<Rightarrow> not_blank s | None \<Rightarrow> False)"

definition panelPass :: "saved_panel \<Rightarrow> check list \<Rightarrow> bool" where
  "panelPass p checks = (case filter (\<lambda>c. ck_id c = sp_id p) checks of
      [c] \<Rightarrow> ck_status c = ''ok'' \<and> (0 < ck_rows c \<or> sp_viz p = Some ''text'' \<and> given_text (sp_content p))
        \<or> ck_status c = ''empty'' \<and> given_text (ck_diagnosis c) \<and> given_text (sp_description p)
    | _ \<Rightarrow> False)"

definition usable_time :: "num option \<Rightarrow> real option" where
  "usable_time t = (case t of Some (Fin x) \<Rightarrow> if 0 \<le> x then Some x else None | _ \<Rightarrow> None)"

definition run_latency :: "eval_run list \<Rightarrow> real option" where
  "run_latency rs = (if list_all (\<lambda>r. usable_time (rn_elapsed r) \<noteq> None) rs
     then median (List.map_filter (\<lambda>r. usable_time (rn_elapsed r)) rs) else None)"

section \<open>Canonical text (stable)\<close>

text \<open>The value with the keys of every object sorted.\<close>

function sort_keys :: "(string \<Rightarrow> string \<Rightarrow> bool) \<Rightarrow> json \<Rightarrow> json" where
  "sort_keys lc (JArr vs) = JArr (map (sort_keys lc) vs)"
| "sort_keys lc (JObj es) = JObj (map (\<lambda>(k, v). (k, sort_keys lc v)) (sort_by (\<lambda>a b. lc (fst a) (fst b)) es))"
| "sort_keys lc (JStr s) = JStr s"
| "sort_keys lc (JNum n) = JNum n"
| "sort_keys lc (JBool b) = JBool b"
| "sort_keys lc JNull = JNull"
  by pat_completeness auto

termination
proof (relation "measure (\<lambda>(_, v). size v)", simp, goal_cases)
  case (1 lc vs x)
  then show ?case by (induction vs) auto
next
  case (2 lc es x k v)
  then have "(k, v) \<in> set es" by simp
  then show ?case using 2(2) by (induction es) auto
qed

definition stable :: "(string \<Rightarrow> string \<Rightarrow> bool) \<Rightarrow> (json \<Rightarrow> string) \<Rightarrow> json \<Rightarrow> string" where
  "stable lc js v = js (sort_keys lc v)"

definition id_list :: "string list \<Rightarrow> json" where
  "id_list is = JArr (map JStr is)"

section \<open>The score of a suite\<close>

record eval_score =
  sc_s1 :: bool
  sc_s2 :: bool
  sc_s3 :: bool
  sc_s4 :: bool
  sc_s5 :: bool
  sc_passed :: bool
  sc_saved :: nat
  sc_total :: nat
  sc_good :: nat
  sc_failures :: nat
  sc_median :: "real option"

definition good_panels :: "eval_run \<Rightarrow> saved_panel list" where
  "good_panels r = filter (\<lambda>p. panelPass p (rn_checks r)) (rn_panels r)"

definition fully_run :: "eval_run \<Rightarrow> bool" where
  "fully_run r \<longleftrightarrow> rn_checked r \<and> rn_panels r \<noteq> [] \<and> length (rn_checks r) = length (rn_panels r)
     \<and> length (uniq (map sp_id (rn_panels r))) = length (rn_panels r)"

definition score :: "(string \<Rightarrow> string \<Rightarrow> bool) \<Rightarrow> (json \<Rightarrow> string) \<Rightarrow> eval_run list \<Rightarrow> edit list \<Rightarrow> eval_score" where
  "score lc js runs edits =
    (let complete = (length runs = 10 \<and> list_all rn_complete runs);
         latency = run_latency runs;
         total = sum_list (map (\<lambda>r. length (rn_panels r)) runs);
         good = sum_list (map (\<lambda>r. if rn_checked r then length (good_panels r) else 0) runs);
         failures = length (filter (\<lambda>r. rn_saved r \<and> rn_checked r \<and> \<not> rn_valid r) runs);
         s1 = (complete \<and> list_all rn_saved runs);
         s2 = (complete \<and> 0 < total \<and> good = total \<and> list_all fully_run runs);
         s3 = (complete \<and> list_all (\<lambda>r. rn_saved r \<and> rn_checked r) runs \<and> failures = 0);
         s4 = (complete \<and> (case latency of Some t \<Rightarrow> t \<le> 45000 | None \<Rightarrow> False));
         s5 = (length edits = 5 \<and> list_all (\<lambda>e. ed_passed e
           \<and> stable lc js (id_list (sort_by str_le (ed_changed e))) = stable lc js (id_list (sort_by str_le (ed_expected e)))) edits)
     in \<lparr>sc_s1 = s1, sc_s2 = s2, sc_s3 = s3, sc_s4 = s4, sc_s5 = s5, sc_passed = (s1 \<and> s2 \<and> s3 \<and> s4 \<and> s5),
         sc_saved = length (filter rn_saved runs), sc_total = total, sc_good = good, sc_failures = failures,
         sc_median = latency\<rparr>)"

section \<open>Changed panels\<close>

type_synonym entries = "(string, json) omap"

definition entry_id :: "entries \<Rightarrow> string" where
  "entry_id p = (case map_of p ''id'' of Some (JStr s) \<Rightarrow> s | _ \<Rightarrow> [])"

definition strip_grid :: "entries \<Rightarrow> entries" where
  "strip_grid p = filter (\<lambda>(k, _). k \<noteq> ''grid'') p"

text \<open>
  The table of the lengths of the longest common subsequences of the suffixes, a row for each
  suffix of the first list, built from the last.
\<close>

fun lcs_row :: "'a \<Rightarrow> 'a list \<Rightarrow> nat list \<Rightarrow> nat list" where
  "lcs_row x [] below = [0]"
| "lcs_row x (y # ys) below = (let r = lcs_row x ys (tl below)
     in (if x = y then 1 + below ! 1 else max (below ! 0) (r ! 0)) # r)"

fun lcs_table :: "'a list \<Rightarrow> 'a list \<Rightarrow> nat list list" where
  "lcs_table [] ys = [replicate (length ys + 1) 0]"
| "lcs_table (x # xs) ys = (let t = lcs_table xs ys in lcs_row x ys (t ! 0) # t)"

text \<open>The walk from the start of both lists; \<open>t\<close> holds the rows from here on, \<open>j\<close> the column.\<close>

fun retained :: "nat list list \<Rightarrow> 'a list \<Rightarrow> nat \<Rightarrow> 'a list \<Rightarrow> 'a list" where
  "retained t (x # xs) j (y # ys) =
    (if x = y then x # retained (tl t) xs (Suc j) ys
     else if t ! 0 ! Suc j \<le> t ! 1 ! j then retained (tl t) xs j (y # ys)
     else retained t (x # xs) (Suc j) ys)"
| "retained t _ j _ = []"

definition panel_texts :: "(string \<Rightarrow> string \<Rightarrow> bool) \<Rightarrow> (json \<Rightarrow> string) \<Rightarrow> entries list \<Rightarrow> (string, string) omap" where
  "panel_texts lc js ps = from_entries (map (\<lambda>p. (entry_id p, stable lc js (JObj (strip_grid p)))) ps)"

definition common_order :: "(string, string) omap \<Rightarrow> entries list \<Rightarrow> string list" where
  "common_order other ps = map entry_id (filter (\<lambda>p. map_has other (entry_id p)) ps)"

definition changedPanels :: "(string \<Rightarrow> string \<Rightarrow> bool) \<Rightarrow> (json \<Rightarrow> string) \<Rightarrow> entries list \<Rightarrow> entries list \<Rightarrow> string list" where
  "changedPanels lc js old new =
    (let a = panel_texts lc js old; b = panel_texts lc js new;
         oldOrder = common_order b old; nextOrder = common_order a new;
         kept = retained (lcs_table oldOrder nextOrder) oldOrder 0 nextOrder
     in sort_by str_le (filter (\<lambda>i. map_of a i \<noteq> map_of b i \<or> map_has a i \<and> map_has b i \<and> i \<notin> set kept)
          (uniq (map_keys a @ map_keys b))))"

section \<open>Edits (compareEdit)\<close>

datatype operation = OTitle | OThreshold | OAdd | ORemove | OUnit | OMove

record spec =
  es_rest :: entries
  es_panels :: "entries list"

definition bucketViz :: "string list" where
  "bucketViz = [''timeseries'', ''heatmap'', ''log_patterns'', ''state_timeline'']"

definition panel_sizes :: "(string, nat \<times> string) omap" where
  "panel_sizes = [(''stat'', 3, ''s''), (''gauge'', 3, ''s''), (''timeseries'', 6, ''m''), (''bar'', 6, ''m''),
     (''table'', 12, ''m''), (''text'', 4, ''s''), (''service_map'', 12, ''l''), (''health'', 12, ''m''),
     (''logs'', 12, ''l''), (''log_patterns'', 12, ''m''), (''traces'', 12, ''m''), (''heatmap'', 6, ''m''),
     (''histogram'', 6, ''m''), (''scatter'', 6, ''m''), (''state_timeline'', 6, ''m'')]"

definition entry_viz :: "entries \<Rightarrow> string" where
  "entry_viz p = (case map_of p ''viz'' of Some (JStr s) \<Rightarrow> s | _ \<Rightarrow> [])"

definition panelDefaults :: "entries \<Rightarrow> entries" where
  "panelDefaults p = (case map_of panel_sizes (entry_viz p) of
      Some (w, h) \<Rightarrow> [(''width'', JNum (Fin (real w))), (''height'', JStr h)]
        @ (if entry_viz p \<in> {''stat'', ''gauge''} then [(''reduce'', JStr ''window'')] else [])
    | None \<Rightarrow> [])"

definition query_entries :: "entries \<Rightarrow> entries option" where
  "query_entries p = (case map_of p ''query'' of Some (JObj q) \<Rightarrow> Some q | _ \<Rightarrow> None)"

definition normalizeAddedPanel :: "entries \<Rightarrow> entries" where
  "normalizeAddedPanel p =
    (let out = foldl (\<lambda>m (k, v). AList.update k v m) (panelDefaults p) p
     in case query_entries out of
          Some q \<Rightarrow> if \<not> map_has q ''bucket'' \<and> entry_viz out \<in> set bucketViz
            then AList.update ''query'' (JObj (AList.update ''bucket'' (JStr ''auto'') q)) out else out
        | None \<Rightarrow> out)"

definition normalized_panels :: "entries \<Rightarrow> entries list \<Rightarrow> json" where
  "normalized_panels rest ps = JObj (AList.update ''panels'' (JArr (map JObj ps)) rest)"

definition normalized :: "spec \<Rightarrow> json" where
  "normalized s = normalized_panels (es_rest s) (map strip_grid (es_panels s))"

definition placed :: "entries \<Rightarrow> bool" where
  "placed p = (case map_of p ''grid'' of None \<Rightarrow> False | Some g \<Rightarrow> g \<noteq> JNull)"

definition physical :: "(string \<Rightarrow> string \<Rightarrow> bool) \<Rightarrow> spec \<Rightarrow> json" where
  "physical lc s = JArr (map (\<lambda>p. JObj [(''id'', JStr (entry_id p)), (''grid'', the (map_of p ''grid''))])
     (sort_by (\<lambda>a b. lc (entry_id a) (entry_id b)) (filter placed (es_panels s))))"

text \<open>An added panel without the defaults the server fills in where the author said nothing.\<close>

definition without_defaults :: "(string \<Rightarrow> string \<Rightarrow> bool) \<Rightarrow> (json \<Rightarrow> string) \<Rightarrow> entries \<Rightarrow> entries \<Rightarrow> entries" where
  "without_defaults lc js authored actual =
    (let p = foldl (\<lambda>p (k, v). if \<not> map_has authored k
           \<and> map_option (stable lc js) (map_of p k) = Some (stable lc js v) then AList.delete k p else p)
         actual (panelDefaults authored)
     in case (query_entries authored, query_entries p) of
          (Some aq, Some q) \<Rightarrow> if \<not> map_has aq ''bucket'' \<and> map_of q ''bucket'' = Some (JStr ''auto'')
              \<and> entry_viz authored \<in> set bucketViz
            then AList.update ''query'' (JObj (AList.delete ''bucket'' q)) p else p
        | _ \<Rightarrow> p)"

definition comparable :: "(string \<Rightarrow> string \<Rightarrow> bool) \<Rightarrow> (json \<Rightarrow> string) \<Rightarrow> spec \<Rightarrow> spec \<Rightarrow> spec \<Rightarrow> operation \<Rightarrow> json" where
  "comparable lc js old new want op =
    normalized_panels (es_rest new) (map (\<lambda>p. let p = strip_grid p in
        if op = OAdd \<and> \<not> list_ex (\<lambda>b. entry_id b = entry_id p) (es_panels old) then
          (case find (\<lambda>x. entry_id x = entry_id p) (es_panels want) of
             Some authored \<Rightarrow> without_defaults lc js authored p | None \<Rightarrow> p)
        else p) (es_panels new))"

record edit_result =
  er_edit :: edit
  er_layout_changed :: bool
  er_layout :: "json \<times> json \<times> json"
  er_expected_diff :: "string list \<times> json \<times> json"
  er_actual_diff :: "string list \<times> json \<times> json"

definition same_place :: "(string \<Rightarrow> string \<Rightarrow> bool) \<Rightarrow> (json \<Rightarrow> string) \<Rightarrow> spec \<Rightarrow> entries \<Rightarrow> bool" where
  "same_place lc js new p \<longleftrightarrow> map_option (stable lc js) (map_of p ''grid'')
     = map_option (stable lc js) (Option.bind (find (\<lambda>a. entry_id a = entry_id p) (es_panels new)) (\<lambda>a. map_of a ''grid''))"

definition compareEdit :: "(string \<Rightarrow> string \<Rightarrow> bool) \<Rightarrow> (json \<Rightarrow> string) \<Rightarrow> spec \<Rightarrow> spec \<Rightarrow> spec \<Rightarrow> operation \<Rightarrow> edit_result" where
  "compareEdit lc js old new want op =
    (let st = stable lc js; ph = physical lc;
         allowGrid = (op = OAdd \<or> op = ORemove \<or> op = OMove);
         changed = changedPanels lc js (es_panels old) (es_panels new);
         expected = changedPanels lc js (es_panels old) (es_panels want);
         layout_changed = (st (ph old) \<noteq> st (ph new));
         authoredEqual = (st (comparable lc js old new want op) = st (normalized want));
         moveOK = (op \<noteq> OMove \<or> list_all (same_place lc js new) (es_panels want));
         noOp = (st (normalized old) = st (normalized want) \<and> \<not> (op = OMove \<and> st (ph old) \<noteq> st (ph want)))
     in \<lparr>er_edit = \<lparr>ed_passed = (\<not> noOp \<and> authoredEqual \<and> (allowGrid \<or> \<not> layout_changed) \<and> moveOK
             \<and> st (id_list changed) = st (id_list expected)), ed_changed = changed, ed_expected = expected\<rparr>,
         er_layout_changed = layout_changed, er_layout = (ph old, ph want, ph new),
         er_expected_diff = (expected, normalized old, normalized want),
         er_actual_diff = (changed, normalized old, normalized new)\<rparr>)"

section \<open>Intent (scoreIntent)\<close>

datatype expectation = ExpectDashboard | ExpectAnswer

record intent_run = eval_run +
  ir_expect :: expectation
  ir_text :: string
  ir_mutated :: bool
  ir_evidence :: bool
  ir_incomplete :: bool

definition answerPass :: "intent_run \<Rightarrow> bool" where
  "answerPass r \<longleftrightarrow> rn_complete r \<and> \<not> ir_incomplete r \<and> not_blank (ir_text r) \<and> \<not> rn_saved r
     \<and> \<not> ir_mutated r \<and> ir_evidence r"

record intent_score =
  in_complete :: bool
  in_dashboards :: nat
  in_answers :: nat
  in_correct :: nat
  in_dashboard_rate :: "real option"
  in_answer_rate :: "real option"
  in_accuracy :: "real option"
  in_good :: nat
  in_total :: nat
  in_median :: "real option"
  in_failures :: nat
  in_unchecked :: nat
  in_checked :: nat
  in_passed :: bool

definition rate :: "nat \<Rightarrow> nat \<Rightarrow> real option" where
  "rate k n = (if n = 0 then None else Some (real k / real n))"

definition saved_right :: "intent_run \<Rightarrow> bool" where
  "saved_right r \<longleftrightarrow> rn_saved r \<and> rn_checked r \<and> rn_valid r \<and> rn_panels r \<noteq> []"

definition intent_checked :: "intent_run \<Rightarrow> bool" where
  "intent_checked r \<longleftrightarrow> saved_right r \<and> length (rn_checks r) = length (rn_panels r)
     \<and> length (uniq (map ck_id (rn_checks r))) = length (rn_panels r)
     \<and> length (uniq (map sp_id (rn_panels r))) = length (rn_panels r)
     \<and> list_all (\<lambda>p. list_ex (\<lambda>c. ck_id c = sp_id p) (rn_checks r)) (rn_panels r)"

definition scoreIntent :: "intent_run list \<Rightarrow> nat \<Rightarrow> intent_score" where
  "scoreIntent runs expected =
    (let complete = (length runs = expected \<and> 0 < expected \<and> list_all (\<lambda>r. rn_complete r \<and> \<not> ir_incomplete r) runs);
         dashboards = filter (\<lambda>r. ir_expect r = ExpectDashboard) runs;
         answers = filter (\<lambda>r. ir_expect r = ExpectAnswer) runs;
         saved = filter saved_right dashboards;
         correct_answers = length (filter answerPass answers);
         total = sum_list (map (\<lambda>r. length (rn_panels r)) saved);
         good = sum_list (map (\<lambda>r. length (filter (\<lambda>p. panelPass p (rn_checks r)) (rn_panels r))) saved);
         correct = length saved + correct_answers;
         latency = (if list_all (\<lambda>r. usable_time (rn_elapsed r) \<noteq> None) saved
           then median (List.map_filter (\<lambda>r. usable_time (rn_elapsed r)) saved) else None);
         fully_checked = list_all intent_checked dashboards
     in \<lparr>in_complete = complete, in_dashboards = length dashboards, in_answers = length answers,
         in_correct = correct, in_dashboard_rate = rate (length saved) (length dashboards),
         in_answer_rate = rate correct_answers (length answers), in_accuracy = rate correct (length runs),
         in_good = good, in_total = total, in_median = latency,
         in_failures = length (filter (\<lambda>r. rn_saved r \<and> rn_checked r \<and> \<not> rn_valid r) dashboards),
         in_unchecked = length (filter (\<lambda>r. rn_saved r \<and> \<not> rn_checked r) dashboards),
         in_checked = length (filter (\<lambda>r. rn_saved r \<and> rn_checked r) dashboards),
         in_passed = (complete \<and> correct = expected \<and> fully_checked \<and> good = total)\<rparr>)"

section \<open>The table is the longest common subsequence\<close>

text \<open>The reference: the recurrence on the lists themselves.\<close>

fun lcs_len :: "'a list \<Rightarrow> 'a list \<Rightarrow> nat" where
  "lcs_len (x # xs) (y # ys) = (if x = y then 1 + lcs_len xs ys else max (lcs_len xs (y # ys)) (lcs_len (x # xs) ys))"
| "lcs_len _ _ = 0"

lemma lcs_len_Nil [simp]: "lcs_len xs [] = 0"
  by (cases xs) simp_all

fun tails :: "'a list \<Rightarrow> 'a list list" where
  "tails [] = [[]]"
| "tails (x # xs) = (x # xs) # tails xs"

lemma tails_nth: "j \<le> length ys \<Longrightarrow> tails ys ! j = drop j ys"
  by (induction ys arbitrary: j) (auto simp: nth_Cons split: nat.split)

lemma length_tails [simp]: "length (tails xs) = Suc (length xs)"
  by (induction xs) simp_all

lemma tails_hd [simp]: "tails xs ! 0 = xs"
  by (cases xs) simp_all

lemma lcs_row_eq: "lcs_row x ys (map (lcs_len xs) (tails ys)) = map (lcs_len (x # xs)) (tails ys)"
proof (induction ys)
  case (Cons y ys)
  have "map (lcs_len xs) (tails ys) ! 0 = lcs_len xs ys" "map (lcs_len (x # xs)) (tails ys) ! 0 = lcs_len (x # xs) ys"
    by simp_all
  then show ?case using Cons by simp
qed simp

lemma lcs_table_eq: "lcs_table xs ys = map (\<lambda>us. map (lcs_len us) (tails ys)) (tails xs)"
proof (induction xs)
  case Nil
  have "map (lcs_len ([] :: 'a list)) (tails ys) = replicate (length ys + 1) 0" by (induction ys) simp_all
  then show ?case by simp
qed (simp add: lcs_row_eq)

lemma lcs_table_entry:
  assumes "i \<le> length xs" "j \<le> length ys"
  shows "lcs_table xs ys ! i ! j = lcs_len (drop i xs) (drop j ys)"
  using assms by (simp add: lcs_table_eq tails_nth)

text \<open>The walk over the table is the walk over the reference.\<close>

fun walk_lcs :: "'a list \<Rightarrow> 'a list \<Rightarrow> 'a list" where
  "walk_lcs (x # xs) (y # ys) = (if x = y then x # walk_lcs xs ys
     else if lcs_len (x # xs) ys \<le> lcs_len xs (y # ys) then walk_lcs xs (y # ys) else walk_lcs (x # xs) ys)"
| "walk_lcs _ _ = []"

lemma retained_walk:
  "t = map (\<lambda>us. map (lcs_len us) (tails Y)) (tails xs) \<Longrightarrow> j \<le> length Y \<Longrightarrow> ys = drop j Y \<Longrightarrow> retained t xs j ys = walk_lcs xs ys"
proof (induction t xs j ys rule: retained.induct)
  case (1 t x xs j y ys)
  have j: "Suc j \<le> length Y" "drop (Suc j) Y = ys"
    using 1(5,6) by (metis drop_eq_Nil list.distinct(1) not_less_eq_eq) (metis 1(6) drop_Suc list.sel(3) tl_drop)
  have "t ! 0 ! Suc j = lcs_len (x # xs) ys" "t ! 1 ! j = lcs_len xs (y # ys)" "tl t = map (\<lambda>us. map (lcs_len us) (tails Y)) (tails xs)"
    using 1(4,5,6) j by (simp_all add: tails_nth)
  note at = this
  show ?case
    by (simp only: retained.simps walk_lcs.simps at(1,2))
      (use 1(1) [OF _ at(3) j(1) j(2) [symmetric]] 1(2) [OF _ _ at(3) 1(5,6)] 1(3) [OF _ _ 1(4) j(1) j(2) [symmetric]] at(1,2) in auto)
qed simp_all

lemma walk_lcs_ok: "subseq (walk_lcs xs ys) xs \<and> subseq (walk_lcs xs ys) ys \<and> length (walk_lcs xs ys) = lcs_len xs ys"
  by (induction xs ys rule: walk_lcs.induct) (auto simp: max_def)

lemma lcs_len_greatest: "subseq zs xs \<Longrightarrow> subseq zs ys \<Longrightarrow> length zs \<le> lcs_len xs ys"
proof (induction xs ys arbitrary: zs rule: lcs_len.induct)
  case (1 x xs y ys)
  show ?case
  proof (cases zs)
    case (Cons z us)
    show ?thesis
    proof (cases "x = y")
      case True
      show ?thesis
      proof (cases "z = x")
        case True
        then have "length us \<le> lcs_len xs ys" using 1(1) [of us] 1(4,5) \<open>x = y\<close> by (simp add: Cons)
        then show ?thesis using \<open>x = y\<close> by (simp add: Cons)
      next
        case False
        then have "length zs \<le> lcs_len xs ys" using 1(1) [of zs] 1(4,5) \<open>x = y\<close> by (simp add: Cons)
        then show ?thesis using \<open>x = y\<close> by simp
      qed
    next
      case False
      then have "z \<noteq> x \<or> z \<noteq> y" by auto
      then have "length zs \<le> lcs_len xs (y # ys) \<or> length zs \<le> lcs_len (x # xs) ys"
      proof
        assume "z \<noteq> x"
        then show ?thesis using 1(2) [OF False, of zs] 1(4,5) by (simp add: Cons)
      next
        assume "z \<noteq> y"
        then show ?thesis using 1(3) [OF False, of zs] 1(4,5) by (simp add: Cons)
      qed
      then show ?thesis using False by auto
    qed
  qed simp
qed auto

lemma retained_lcs:
  "subseq (retained (lcs_table xs ys) xs 0 ys) xs" "subseq (retained (lcs_table xs ys) xs 0 ys) ys"
  "subseq zs xs \<Longrightarrow> subseq zs ys \<Longrightarrow> length zs \<le> length (retained (lcs_table xs ys) xs 0 ys)"
proof -
  have "retained (lcs_table xs ys) xs 0 ys = walk_lcs xs ys"
    by (rule retained_walk [OF lcs_table_eq]) simp_all
  with walk_lcs_ok [of xs ys] lcs_len_greatest [of zs xs ys]
  show "subseq (retained (lcs_table xs ys) xs 0 ys) xs" "subseq (retained (lcs_table xs ys) xs 0 ys) ys"
    "subseq zs xs \<Longrightarrow> subseq zs ys \<Longrightarrow> length zs \<le> length (retained (lcs_table xs ys) xs 0 ys)" by auto
qed

lemma panel_texts_keys: "set (map_keys (panel_texts lc js ps)) = entry_id ` set ps"
  by (auto simp: panel_texts_def keys_from_entries comp_def)

lemma map_has_texts: "map_has (panel_texts lc js ps) i \<longleftrightarrow> i \<in> entry_id ` set ps"
proof -
  have "map_of (panel_texts lc js ps) i \<noteq> None \<longleftrightarrow> i \<in> set (map_keys (panel_texts lc js ps))"
    by (simp add: map_keys_def map_of_eq_None_iff)
  then show ?thesis by (simp only: map_has_iff panel_texts_keys)
qed

section \<open>Counting\<close>

lemma sum_list_le_eq:
  fixes f g :: "'a \<Rightarrow> nat"
  assumes "\<And>x. x \<in> set xs \<Longrightarrow> f x \<le> g x" "sum_list (map f xs) = sum_list (map g xs)" "x \<in> set xs"
  shows "f x = g x"
  using assms
proof (induction xs)
  case (Cons y ys)
  have "sum_list (map f ys) \<le> sum_list (map g ys)" by (rule sum_list_mono) (use Cons.prems(1) in auto)
  moreover have "f y \<le> g y" using Cons.prems(1) by simp
  ultimately have "f y = g y" "sum_list (map f ys) = sum_list (map g ys)" using Cons.prems(2) by auto
  with Cons show ?case by auto
qed simp

lemma filter_mono_length:
  "(\<And>x. P x \<Longrightarrow> Q x) \<Longrightarrow> length (filter P xs) \<le> length (filter Q xs)"
  by (induction xs) auto

lemma expectations: "length (filter (\<lambda>r. ir_expect r = ExpectDashboard) rs) + length (filter (\<lambda>r. ir_expect r = ExpectAnswer) rs) = length rs"
proof (induction rs)
  case (Cons r rs)
  then show ?case by (cases "ir_expect r") simp_all
qed simp

lemma filter_full: "length (filter P xs) = length xs \<Longrightarrow> x \<in> set xs \<Longrightarrow> P x"
proof (induction xs)
  case (Cons y ys)
  then show ?case using length_filter_le [of P ys] by (cases "P y") (auto simp del: length_filter_le)
qed simp

lemma median_half:
  assumes "median xs = Some m"
  shows "length xs \<le> 2 * length (filter (\<lambda>x. x \<le> m) xs)"
proof -
  define s where "s = sort_by (\<le>) xs"
  define i where "i = length s div 2"
  have sorted: "sorted_wrt (\<le>) s" by (simp add: s_def real_le.sorted_sort_by)
  have ne: "0 < length s" using assms by (auto simp: median_def s_def split: if_splits)
  have m: "m = (if odd (length s) then s ! i else (s ! (i - 1) + s ! i) / 2)"
    using assms by (auto simp: median_def s_def i_def Let_def split: if_splits)
  define k where "k = (if odd (length s) then Suc i else i)"
  have k: "0 < k" "k \<le> length s" "length s \<le> 2 * k" "i < length s"
    using ne unfolding k_def i_def by (cases "even (length s)"; auto elim!: oddE evenE)+
  have le: "s ! a \<le> s ! b" if "a \<le> b" "b < length s" for a b
    using sorted that by (cases "a = b") (auto simp: sorted_wrt_iff_nth_less)
  have "s ! (k - 1) \<le> m"
    using le [of "i - 1" i] k by (auto simp: m k_def)
  moreover have "x \<le> s ! (k - 1)" if x: "x \<in> set (take k s)" for x
  proof -
    obtain a where "a < k" "x = s ! a" using x k(2) by (auto simp: in_set_conv_nth)
    with le [of a "k - 1"] k show ?thesis by auto
  qed
  ultimately have "\<forall>x \<in> set (take k s). x \<le> m" by (meson order.trans)
  then have "filter (\<lambda>x. x \<le> m) (take k s) = take k s" by (simp add: filter_id_conv)
  moreover have "filter (\<lambda>x. x \<le> m) s = filter (\<lambda>x. x \<le> m) (take k s) @ filter (\<lambda>x. x \<le> m) (drop k s)"
    by (metis append_take_drop_id filter_append)
  ultimately have "k \<le> length (filter (\<lambda>x. x \<le> m) s)" using k(2) by simp
  moreover have "length (filter (\<lambda>x. x \<le> m) s) = length (filter (\<lambda>x. x \<le> m) xs)"
    by (metis mset_filter mset_sort_by s_def size_mset)
  moreover have "length s = length xs" by (simp add: s_def)
  ultimately show ?thesis using k(3) by linarith
qed

section \<open>Properties\<close>

text \<open>
  Property C27. The panels an edit changed are those whose content differs and, of the others,
  those that were moved, with as few moves as possible: the ones left out are a longest common
  subsequence of the old and the new order.
\<close>

theorem changed_panels_are_the_fewest_moves:
  "\<exists>kept. subseq kept (common_order (panel_texts lc js new) old)
    \<and> subseq kept (common_order (panel_texts lc js old) new)
    \<and> (\<forall>zs. subseq zs (common_order (panel_texts lc js new) old)
        \<longrightarrow> subseq zs (common_order (panel_texts lc js old) new) \<longrightarrow> length zs \<le> length kept)
    \<and> set (changedPanels lc js old new) = {i \<in> entry_id ` set old \<union> entry_id ` set new.
        map_of (panel_texts lc js old) i \<noteq> map_of (panel_texts lc js new) i
        \<or> i \<in> entry_id ` set old \<and> i \<in> entry_id ` set new \<and> i \<notin> set kept}
    \<and> distinct (changedPanels lc js old new)"
proof -
  let ?a = "panel_texts lc js old" and ?b = "panel_texts lc js new"
  let ?o = "common_order ?b old" and ?n = "common_order ?a new"
  define kept where "kept = retained (lcs_table ?o ?n) ?o 0 ?n"
  have "set (changedPanels lc js old new) = {i \<in> entry_id ` set old \<union> entry_id ` set new.
        map_of ?a i \<noteq> map_of ?b i \<or> i \<in> entry_id ` set old \<and> i \<in> entry_id ` set new \<and> i \<notin> set kept}"
    by (simp only: changedPanels_def Let_def set_sort_by set_filter set_uniq set_append panel_texts_keys map_has_texts kept_def)
  moreover have "distinct (changedPanels lc js old new)" by (simp add: changedPanels_def Let_def)
  moreover have "subseq kept ?o" "subseq kept ?n" "\<forall>zs. subseq zs ?o \<longrightarrow> subseq zs ?n \<longrightarrow> length zs \<le> length kept"
    unfolding kept_def using retained_lcs by blast+
  ultimately show ?thesis by blast
qed

definition demo_entry :: "string \<Rightarrow> entries" where
  "demo_entry i = [(''id'', JStr i)]"

theorem changed_panels_are_the_fewest_moves_witness:
  "distinct (changedPanels (\<lambda>_ _. True) (\<lambda>_. ''x'') [demo_entry ''a'', demo_entry ''b''] [demo_entry ''b'', demo_entry ''a''])"
  using changed_panels_are_the_fewest_moves by blast

lemma checks_of_panels:
  assumes "length (rn_checks r) = length (rn_panels r)" "distinct (map sp_id (rn_panels r))"
    and "\<And>p. p \<in> set (rn_panels r) \<Longrightarrow> panelPass p (rn_checks r)"
  shows "ck_id ` set (rn_checks r) = sp_id ` set (rn_panels r)"
proof -
  have sub: "sp_id ` set (rn_panels r) \<subseteq> ck_id ` set (rn_checks r)"
  proof
    fix i assume "i \<in> sp_id ` set (rn_panels r)"
    then obtain p where p: "p \<in> set (rn_panels r)" "sp_id p = i" by auto
    from assms(3) [OF p(1)] obtain c where "filter (\<lambda>c. ck_id c = sp_id p) (rn_checks r) = [c]"
      by (auto simp: panelPass_def split: list.splits)
    then have "c \<in> set (filter (\<lambda>c. ck_id c = sp_id p) (rn_checks r))" by simp
    then have "c \<in> set (rn_checks r)" "ck_id c = i" using p(2) by auto
    then show "i \<in> ck_id ` set (rn_checks r)" by blast
  qed
  have "card (ck_id ` set (rn_checks r)) \<le> length (rn_checks r)"
    by (metis card_length image_set length_map)
  also have "\<dots> = card (sp_id ` set (rn_panels r))"
    using assms(1) distinct_card [OF assms(2)] by simp
  finally show ?thesis using sub by (metis List.finite_set card_seteq finite_imageI)
qed

lemma latency_half:
  assumes "run_latency runs = Some m"
  shows "length runs \<le> 2 * length (filter (\<lambda>r. \<exists>x. usable_time (rn_elapsed r) = Some x \<and> x \<le> m) runs)"
proof -
  let ?t = "\<lambda>r. usable_time (rn_elapsed r)"
  have all: "\<forall>r \<in> set runs. ?t r \<noteq> None" and med: "median (List.map_filter ?t runs) = Some m"
    using assms by (auto simp: run_latency_def list_all_iff Let_def split: if_splits)
  have count: "length (filter (\<lambda>x. x \<le> m) (List.map_filter ?t rs)) = length (filter (\<lambda>r. \<exists>x. ?t r = Some x \<and> x \<le> m) rs)"
    and len: "(\<forall>r \<in> set rs. ?t r \<noteq> None) \<Longrightarrow> length (List.map_filter ?t rs) = length rs" for rs
    by (induction rs) (auto simp: List.map_filter_simps split: option.split)
  show ?thesis using median_half [OF med] len [OF all] by (simp add: count)
qed

text \<open>
  A suite that passes has ten complete runs; each saved a checked, valid dashboard
  whose panels have distinct ids, every panel passes, every check is of one of its panels, and
  at least half of the runs took no more than 45 seconds.
\<close>

theorem passed_suite_has_no_bad_panel:
  assumes "sc_passed (score lc js runs edits)"
  shows "length runs = 10 \<and> (\<forall>r \<in> set runs. rn_complete r \<and> rn_saved r \<and> rn_checked r \<and> rn_valid r
      \<and> rn_panels r \<noteq> [] \<and> distinct (map sp_id (rn_panels r)) \<and> (\<forall>p \<in> set (rn_panels r). panelPass p (rn_checks r))
      \<and> ck_id ` set (rn_checks r) = sp_id ` set (rn_panels r))
    \<and> 5 \<le> length (filter (\<lambda>r. \<exists>t. rn_elapsed r = Some (Fin t) \<and> t \<le> 45000) runs)"
proof -
  note [simp] = score_def Let_def list_all_iff fully_run_def
  let ?good = "\<lambda>r. if rn_checked r then length (good_panels r) else 0"
  have base: "length runs = 10" "\<forall>r \<in> set runs. rn_complete r \<and> rn_saved r \<and> rn_checked r \<and> fully_run r"
    and sums: "sum_list (map ?good runs) = sum_list (map (\<lambda>r. length (rn_panels r)) runs)"
    and valid: "filter (\<lambda>r. rn_saved r \<and> rn_checked r \<and> \<not> rn_valid r) runs = []"
    and lat: "\<exists>m. run_latency runs = Some m \<and> m \<le> 45000"
    using assms by (auto split: option.splits)
  have good: "length (good_panels r) = length (rn_panels r)" if "r \<in> set runs" for r
    using sum_list_le_eq [OF _ sums that] base(2) that by (force simp: good_panels_def)
  have pass: "panelPass p (rn_checks r)" if "r \<in> set runs" "p \<in> set (rn_panels r)" for r p
    using filter_full [of "\<lambda>p. panelPass p (rn_checks r)" "rn_panels r" p] good [OF that(1)] that(2) by (simp add: good_panels_def)
  have dist: "distinct (map sp_id (rn_panels r))" if "r \<in> set runs" for r
    using base(2) that card_distinct [of "map sp_id (rn_panels r)"] distinct_card [of "uniq (map sp_id (rn_panels r))"] by auto
  have ids: "ck_id ` set (rn_checks r) = sp_id ` set (rn_panels r)" if "r \<in> set runs" for r
    by (rule checks_of_panels) (use base(2) pass dist that in auto)
  obtain m where m: "run_latency runs = Some m" "m \<le> 45000" using lat by blast
  let ?t = "\<lambda>r. usable_time (rn_elapsed r)"
  have "10 \<le> 2 * length (filter (\<lambda>r. \<exists>x. ?t r = Some x \<and> x \<le> m) runs)"
    using latency_half [OF m(1)] base(1) by simp
  moreover have "length (filter (\<lambda>r. \<exists>x. ?t r = Some x \<and> x \<le> m) runs)
      \<le> length (filter (\<lambda>r. \<exists>t. rn_elapsed r = Some (Fin t) \<and> t \<le> 45000) runs)"
    by (rule filter_mono_length) (use m(2) in \<open>auto simp: usable_time_def split: option.splits num.splits if_splits\<close>)
  moreover have "rn_valid r" if "r \<in> set runs" for r
    using valid base(2) that by (auto simp: filter_empty_conv)
  ultimately show ?thesis using base pass dist ids by auto
qed

definition demo_run :: eval_run where
  "demo_run = \<lparr>rn_complete = True, rn_saved = True, rn_elapsed = Some (Fin 1000), rn_valid = True, rn_checked = True,
     rn_panels = [\<lparr>sp_id = ''p'', sp_description = None, sp_viz = Some ''bar'', sp_content = None\<rparr>],
     rn_checks = [\<lparr>ck_id = ''p'', ck_status = ''ok'', ck_rows = 3, ck_diagnosis = None, ck_error = None\<rparr>]\<rparr>"

definition demo_edit :: edit where
  "demo_edit = \<lparr>ed_passed = True, ed_changed = [], ed_expected = []\<rparr>"

lemma demo_passes: "sc_passed (score (\<lambda>_ _. True) (\<lambda>_. ''x'') (replicate 10 demo_run) (replicate 5 demo_edit))"
proof -
  have m: "List.map_filter (\<lambda>r. usable_time (rn_elapsed r)) (replicate n demo_run) = replicate n 1000" for n
    by (induction n) (simp_all add: List.map_filter_simps demo_run_def usable_time_def)
  have s: "sort_by (\<le>) (replicate n (1000 :: real)) = replicate n 1000" for n
    by (rule real_le.sort_by_id) (simp add: sorted_wrt_iff_nth_less)
  have "median (replicate 10 1000) = Some 1000" by (simp add: median_def s Let_def)
  then have "run_latency (replicate 10 demo_run) = Some 1000"
    unfolding run_latency_def m by (simp add: list_all_iff demo_run_def usable_time_def)
  moreover have "good_panels demo_run = rn_panels demo_run" by (simp add: good_panels_def demo_run_def panelPass_def)
  moreover have "fully_run demo_run" by (simp add: fully_run_def demo_run_def)
  ultimately show ?thesis
    by (simp add: score_def Let_def list_all_iff map_replicate_const sum_list_replicate demo_edit_def)
      (simp add: demo_run_def)
qed

theorem passed_suite_has_no_bad_panel_witness:
  "5 \<le> length (filter (\<lambda>r. \<exists>t. rn_elapsed r = Some (Fin t) \<and> t \<le> 45000) (replicate 10 demo_run))"
  using passed_suite_has_no_bad_panel [OF demo_passes] by blast

text \<open>
  An intent suite that passes decided every prompt right: each prompt for a
  dashboard has one saved, checked and valid whose panels all pass, and each question was
  answered in text without a mutation.
\<close>

theorem passed_intent_decides_every_prompt:
  assumes "in_passed (scoreIntent runs n)" "r \<in> set runs"
  shows "if ir_expect r = ExpectDashboard
    then saved_right r \<and> (\<forall>p \<in> set (rn_panels r). panelPass p (rn_checks r))
    else answerPass r"
proof -
  note [simp] = scoreIntent_def Let_def
  let ?d = "filter (\<lambda>r. ir_expect r = ExpectDashboard) runs" and ?a = "filter (\<lambda>r. ir_expect r = ExpectAnswer) runs"
  have split: "length runs = length ?d + length ?a"
    by (simp only: expectations)
  have eq: "length (filter saved_right ?d) + length (filter answerPass ?a) = length runs"
    and sums: "sum_list (map (\<lambda>r. length (filter (\<lambda>p. panelPass p (rn_checks r)) (rn_panels r))) (filter saved_right ?d))
      = sum_list (map (\<lambda>r. length (rn_panels r)) (filter saved_right ?d))"
    using assms(1) by auto
  have "length (filter saved_right ?d) \<le> length ?d" "length (filter answerPass ?a) \<le> length ?a" by (rule length_filter_le)+
  with eq split have full: "length (filter saved_right ?d) = length ?d" "length (filter answerPass ?a) = length ?a" by linarith+
  show ?thesis
  proof (cases "ir_expect r")
    case ExpectDashboard
    then have rd: "r \<in> set ?d" using assms(2) by simp
    have right: "saved_right r" by (rule filter_full [OF full(1) rd])
    then have "r \<in> set (filter saved_right ?d)" using rd by simp
    from sum_list_le_eq [OF length_filter_le sums this] have "length (filter (\<lambda>p. panelPass p (rn_checks r)) (rn_panels r)) = length (rn_panels r)" .
    from filter_full [OF this] right ExpectDashboard show ?thesis by simp
  next
    case ExpectAnswer
    then have "r \<in> set ?a" using assms(2) by simp
    from filter_full [OF full(2) this] ExpectAnswer show ?thesis by simp
  qed
qed

definition demo_answer :: intent_run where
  "demo_answer = \<lparr>rn_complete = True, rn_saved = False, rn_elapsed = None, rn_valid = False, rn_checked = False,
     rn_panels = [], rn_checks = [], ir_expect = ExpectAnswer, ir_text = ''hello'', ir_mutated = False,
     ir_evidence = True, ir_incomplete = False\<rparr>"

theorem passed_intent_decides_every_prompt_witness: "answerPass demo_answer"
proof -
  have "answerPass demo_answer"
    by (simp add: answerPass_def demo_answer_def not_blank_def byte_def js_space_def cp_of_def is_cont_def)
  then have "in_passed (scoreIntent [demo_answer] 1)"
    by (simp add: scoreIntent_def Let_def) (simp add: demo_answer_def)
  from passed_intent_decides_every_prompt [OF this, of demo_answer] show ?thesis by (simp add: demo_answer_def)
qed

end
