(* ===== verification/Explore_Where.thy ===== *)
theory Explore_Where
  imports Js_Scan Units
begin

text \<open>
  The filter rows of Explore (\<open>ui/host/src/explore/where.ts\<close>): a comparison read from a filter
  entry and printed back, and the durations a filter compares with. \<open>np\<close> is \<open>Number\<close> on text
  and \<open>sn\<close> the printing of a number.
\<close>

section \<open>Comparisons\<close>

record condition =
  cd_field :: string
  cd_op :: string
  cd_value :: string
  cd_quoted :: bool

definition where_operators :: "string list" where
  "where_operators = [''='', ''!='', ''>'', ''>='', ''<'', ''<='']"

text \<open>The two alternatives of a field at the start of a text, each with the rest.\<close>

definition name_field :: "string \<Rightarrow> (string \<times> string) option" where
  "name_field s = (if name_text (takeWhile name_char s) then Some (takeWhile name_char s, dropWhile name_char s) else None)"

definition bracket_from :: "string \<Rightarrow> string \<Rightarrow> (string \<times> string) option" where
  "bracket_from p s = Option.bind (strip_prefix p s) (\<lambda>r. Option.bind (quoted_body r) (\<lambda>(b, t).
     if b = [] then None else map_option (\<lambda>u. (p @ b @ [quote_char, CHR '']''], u)) (strip_prefix '']'' t)))"

definition attributes_open :: string where "attributes_open = ''attributes['' @ [quote_char]"

definition resource_open :: string where "resource_open = ''resource['' @ [quote_char]"

definition bracket_field :: "string \<Rightarrow> (string \<times> string) option" where
  "bracket_field s = or_else (bracket_from attributes_open s) (bracket_from resource_open s)"

definition read_op :: "string \<Rightarrow> (string \<times> string) option" where
  "read_op s = head_opt (List.map_filter (\<lambda>op. map_option (Pair op) (strip_prefix op s))
     [''!='', ''>='', ''<='', ''='', ''>'', ''<''])"

definition variable_text :: "string \<Rightarrow> bool" where
  "variable_text s = (case s of c # d # t \<Rightarrow> c = CHR ''$'' \<and> is_lower d \<and> list_all name_char t | _ \<Rightarrow> False)"

definition literal_text :: "string \<Rightarrow> bool" where
  "literal_text s = (case s of [] \<Rightarrow> False
     | c # t \<Rightarrow> if c = quote_char then (case quoted_body t of Some (_, r) \<Rightarrow> r = [] | None \<Rightarrow> False)
         else number_text s \<or> variable_text s)"

definition condition_of :: "string \<Rightarrow> string \<Rightarrow> string \<Rightarrow> condition" where
  "condition_of f op raw = (let quoted = starts_with raw [quote_char]
     in \<lparr>cd_field = f, cd_op = op, cd_value = (if quoted then undouble (butlast (tl raw)) else raw), cd_quoted = quoted\<rparr>)"

definition comparison :: "string \<times> string \<Rightarrow> condition option" where
  "comparison fr = Option.bind (read_op (skip_blanks (snd fr))) (\<lambda>(op, t).
     if literal_text (skip_blanks t) then Some (condition_of (fst fr) op (skip_blanks t)) else None)"

definition parseWhere :: "string \<Rightarrow> condition option" where
  "parseWhere entry = (let s = js_trim entry
     in or_else (Option.bind (name_field s) comparison) (Option.bind (bracket_field s) comparison))"

definition printWhere :: "condition \<Rightarrow> string list \<Rightarrow> string" where
  "printWhere c variables =
    (let trimmed = js_trim (cd_value c)
     in if variable_text trimmed \<and> tl trimmed \<in> set variables then cd_field c @ '' '' @ cd_op c @ '' '' @ trimmed
        else let quoted = (cd_quoted c \<or> \<not> number_text trimmed);
            value = (if quoted then [quote_char] @ double_quotes (cd_value c) @ [quote_char] else trimmed)
          in cd_field c @ '' '' @ cd_op c @ '' '' @ value)"

section \<open>Durations\<close>

definition duration_units :: "(string \<times> real) list" where
  "duration_units = [(''h'', 3600000), (''m'', 60000), (''s'', 1000), (''ms'', 1), (''us'', 1 / 1000)]"

definition exact :: "real \<Rightarrow> real" where
  "exact x = (if x = 0 then 0 else sgn x * (case significant 12 \<bar>x\<bar> of (n, e) \<Rightarrow> real n * 10 powi e))"

text \<open>The decimal at the start of a text, with the rest.\<close>

definition read_decimal :: "string \<Rightarrow> string \<times> string" where
  "read_decimal s = (let i = takeWhile is_digit s; r = dropWhile is_digit s
     in case r of c # f \<Rightarrow> if c = CHR ''.'' \<and> takeWhile is_digit f \<noteq> []
            then (i @ c # takeWhile is_digit f, dropWhile is_digit f) else (i, r)
        | [] \<Rightarrow> (i, r))"

definition durationMs :: "(string \<Rightarrow> num) \<Rightarrow> string \<Rightarrow> num option" where
  "durationMs np text =
    (let trimmed = js_trim text
     in if number_text trimmed then Some (np trimmed)
        else let (n, r) = read_decimal trimmed
          in if n = [] then None
             else map_option (\<lambda>u. case np n of Fin x \<Rightarrow> Fin (exact (x * u)) | v \<Rightarrow> v)
               (map_of duration_units (ascii_lower (skip_blanks r))))"

text \<open>The number and the unit a duration is printed with.\<close>

definition duration_parts_of :: "real \<Rightarrow> real \<times> string" where
  "duration_parts_of ms = (case find (\<lambda>(_, k). k \<le> ms \<and> exact (exact (ms / k) * k) = ms) duration_units of
      Some (u, k) \<Rightarrow> (exact (ms / k), u) | None \<Rightarrow> (ms, ''ms''))"

definition durationText :: "(num \<Rightarrow> string) \<Rightarrow> real \<Rightarrow> string" where
  "durationText sn ms = (case duration_parts_of ms of (x, u) \<Rightarrow> sn (Fin x) @ u)"

section \<open>Reading what was printed\<close>

definition field_ok :: "string \<Rightarrow> bool" where
  "field_ok f \<longleftrightarrow> name_text f \<or> (\<exists>p \<in> {attributes_open, resource_open}. \<exists>k. k \<noteq> [] \<and> f = p @ double_quotes k @ [quote_char, CHR '']''])"

lemma visible_name: "name_char c \<Longrightarrow> visible c"
  by (auto simp: visible_def name_char_def name_start_def is_lower_def is_digit_def js_space_def byte_def)

lemma visible_digit: "is_digit c \<Longrightarrow> visible c"
  by (auto simp: visible_def is_digit_def js_space_def)

lemma visible_consts [simp]:
  "visible quote_char" "visible CHR ''$''" "visible CHR ''-''" "visible CHR ''.''" "visible CHR ''[''"
  "visible CHR ''='' " "visible CHR ''!''" "visible CHR ''<''" "visible CHR ''>''"
  by (simp_all add: visible_def byte_def js_space_def)

lemma not_name_space [simp]: "\<not> name_char CHR '' ''" "\<not> name_char CHR ''[''"
  by (simp_all add: name_char_def name_start_def is_lower_def is_digit_def byte_def)

lemma name_text_chars: "name_text f \<Longrightarrow> f \<noteq> [] \<and> (\<forall>c \<in> set f. name_char c)"
  by (cases f) (auto simp: name_text_def name_char_def list_all_iff)

lemma takeWhile_all: "(\<forall>x \<in> set xs. P x) \<Longrightarrow> r = [] \<or> \<not> P (hd r) \<Longrightarrow> takeWhile P (xs @ r) = xs \<and> dropWhile P (xs @ r) = r"
  by (induction xs) (cases r; auto)+

lemma name_field_ok: "name_text f \<Longrightarrow> name_field (f @ CHR '' '' # r) = Some (f, CHR '' '' # r)"
  using takeWhile_all [of f name_char "CHR '' '' # r"] name_text_chars [of f] by (simp add: name_field_def)

lemma read_op_ok: "op \<in> set where_operators \<Longrightarrow> read_op (op @ CHR '' '' # t) = Some (op, CHR '' '' # t)"
  by (auto simp: read_op_def where_operators_def List.map_filter_simps)

lemma op_start: "op \<in> set where_operators \<Longrightarrow> op \<noteq> [] \<and> visible (hd op) \<and> text_start (tl op @ CHR '' '' # t)"
  by (auto simp: where_operators_def text_start_def is_cont_def byte_def)

lemma comparison_ok:
  assumes "op \<in> set where_operators" "literal_text l" "visible (hd l)" "text_start (tl l)"
  shows "comparison (f, CHR '' '' # op @ CHR '' '' # l) = Some (condition_of f op l)"
proof -
  obtain c s where op: "op = c # s" "visible c" "text_start (s @ CHR '' '' # l)"
    using op_start [OF assms(1), of l] by (cases op) auto
  obtain d m where l: "l = d # m" using assms(2) by (cases l) (auto simp: literal_text_def)
  have "skip_blanks (CHR '' '' # op @ CHR '' '' # l) = op @ CHR '' '' # l"
    using skip_blanks_space [OF op(2,3)] by (simp add: op(1))
  moreover have "skip_blanks (CHR '' '' # l) = l" using skip_blanks_space [of d m] assms(3,4) by (simp add: l)
  ultimately show ?thesis using assms(2) by (simp add: comparison_def read_op_ok [OF assms(1)])
qed

lemma name_field_bracket:
  assumes "p \<in> {attributes_open, resource_open}"
  shows "Option.bind (name_field (p @ r)) comparison = None"
proof -
  obtain q where q: "p = q @ [CHR ''['', quote_char]" "name_text q"
    using assms by (auto simp: attributes_open_def resource_open_def name_text_def name_char_def name_start_def is_lower_def byte_def)
  have "takeWhile name_char (p @ r) = q \<and> dropWhile name_char (p @ r) = CHR ''['' # quote_char # r"
    using takeWhile_all [of q name_char "CHR ''['' # quote_char # r"] name_text_chars [OF q(2)] by (simp add: q(1))
  then have n: "name_field (p @ r) = Some (q, CHR ''['' # quote_char # r)" using q(2) by (simp add: name_field_def)
  have "skip_blanks (CHR ''['' # quote_char # r) = CHR ''['' # quote_char # r"
    by (rule skip_blanks_visible) (simp_all add: text_start_def is_cont_def byte_def)
  then show ?thesis
    by (simp add: n comparison_def read_op_def List.map_filter_simps)
qed

lemma bracket_from_ok: "k \<noteq> [] \<Longrightarrow> bracket_from p (p @ double_quotes k @ [quote_char, CHR '']''] @ r) = Some (p @ double_quotes k @ [quote_char, CHR '']''], r)"
  using quoted_body_double [of "CHR '']'' # r" k] by (cases k) (auto simp: bracket_from_def)

lemma bracket_other: "bracket_from attributes_open (resource_open @ s) = None"
  by (simp add: bracket_from_def attributes_open_def resource_open_def)

lemma bracket_field_ok:
  assumes "p \<in> {attributes_open, resource_open}" "k \<noteq> []"
  shows "bracket_field (p @ double_quotes k @ [quote_char, CHR '']''] @ r) = Some (p @ double_quotes k @ [quote_char, CHR '']''], r)"
  using assms bracket_from_ok [OF assms(2)] by (auto simp: bracket_field_def bracket_other)

lemma trim_text:
  assumes "s \<noteq> []" "visible (hd s)" "text_start (tl s)" "visible (last s)"
  shows "js_trim s = s"
proof (cases "tl s = []")
  case True
  then have "s = [hd s]" using assms(1) by (cases s) auto
  with trim_single assms(2) show ?thesis by metis
next
  case False
  obtain c t where s: "s = c # t" using assms(1) by (cases s) auto
  then have t: "t = butlast t @ [last t]" using False by simp
  have "js_trim (c # butlast t @ [last t]) = c # butlast t @ [last t]"
    by (rule trim_visible) (use assms s False t in auto)
  then show ?thesis using s t by simp
qed

lemma text_start_visible: "s \<noteq> [] \<Longrightarrow> visible (hd s) \<Longrightarrow> text_start (s @ t)"
  by (cases s) (auto simp: text_start_def visible_not_cont)

lemma field_visible: "field_ok f \<Longrightarrow> f \<noteq> [] \<and> visible (hd f) \<and> text_start (tl f @ CHR '' '' # r)"
proof -
  assume "field_ok f"
  then consider "name_text f" | p k where "p \<in> {attributes_open, resource_open}" "f = p @ double_quotes k @ [quote_char, CHR '']'']"
    unfolding field_ok_def by blast
  then show ?thesis
  proof cases
    case 1
    then obtain c t where f: "f = c # t" "name_char c" "\<forall>d \<in> set t. name_char d"
      using name_text_chars [OF 1] by (cases f) auto
    have "text_start (t @ CHR '' '' # r)"
      using f(3) by (cases t) (auto simp: text_start_def is_cont_def byte_def visible_def dest!: visible_name)
    with f visible_name show ?thesis by auto
  next
    case 2
    then show ?thesis
      by (auto simp: attributes_open_def resource_open_def visible_def text_start_def byte_def js_space_def is_cont_def)
  qed
qed

lemma parse_printed:
  assumes "field_ok f" "op \<in> set where_operators" "literal_text l" "visible (hd l)" "text_start (tl l)" "visible (last l)"
  shows "parseWhere (f @ '' '' @ op @ '' '' @ l) = Some (condition_of f op l)"
proof -
  let ?r = "CHR '' '' # op @ CHR '' '' # l"
  have l: "l \<noteq> []" using assms(3) by (auto simp: literal_text_def)
  have fv: "f \<noteq> []" "visible (hd f)" "text_start (tl f @ ?r)" using field_visible [OF assms(1)] by blast+
  have trim: "js_trim (f @ ?r) = f @ ?r"
    by (rule trim_text) (use fv l assms(6) in \<open>auto simp: hd_append tl_append split: list.split\<close>)
  note c = comparison_ok [OF assms(2-5)]
  have "or_else (Option.bind (name_field (f @ ?r)) comparison) (Option.bind (bracket_field (f @ ?r)) comparison)
      = Some (condition_of f op l)"
  proof (cases "name_text f")
    case True
    then show ?thesis by (simp add: name_field_ok c)
  next
    case False
    then obtain p k where pk: "p \<in> {attributes_open, resource_open}" "k \<noteq> []" "f = p @ double_quotes k @ [quote_char, CHR '']'']"
      using assms(1) by (auto simp: field_ok_def)
    have "Option.bind (name_field (f @ ?r)) comparison = None"
      using name_field_bracket [OF pk(1)] by (simp add: pk(3))
    moreover have "bracket_field (f @ ?r) = Some (f, ?r)" using bracket_field_ok [OF pk(1,2), of ?r] by (simp add: pk(3))
    ultimately show ?thesis by (simp add: c)
  qed
  then show ?thesis by (simp add: parseWhere_def trim)
qed

text \<open>What a printed condition reads back as: a variable and a number lose the blanks around them.\<close>

definition canonical :: "condition \<Rightarrow> string list \<Rightarrow> condition" where
  "canonical c variables =
    (let trimmed = js_trim (cd_value c)
     in if variable_text trimmed \<and> tl trimmed \<in> set variables \<or> \<not> cd_quoted c \<and> number_text trimmed
        then c\<lparr>cd_value := trimmed, cd_quoted := False\<rparr> else c\<lparr>cd_quoted := True\<rparr>)"

lemma decimal_text_chars:
  assumes "decimal_text s"
  shows "\<exists>c t. s = c # t \<and> is_digit c \<and> visible (last s) \<and> text_start t"
proof -
  obtain c i where i: "takeWhile is_digit s = c # i" using assms by (cases "takeWhile is_digit s") (auto simp: decimal_text_def Let_def)
  then obtain t where s: "s = c # t" "is_digit c" by (cases s) (auto split: if_splits)
  have all: "visible d" if "d \<in> set s" for d
  proof -
    have "d \<in> set (takeWhile is_digit s) \<or> d \<in> set (dropWhile is_digit s)" using that by (metis Un_iff set_append takeWhile_dropWhile_id)
    then show ?thesis
    proof
      assume "d \<in> set (takeWhile is_digit s)"
      then show ?thesis by (auto dest: set_takeWhileD intro: visible_digit)
    next
      assume "d \<in> set (dropWhile is_digit s)"
      then show ?thesis using assms by (auto simp: decimal_text_def digits_text_def list_all_iff intro: visible_digit split: list.splits)
    qed
  qed
  have "visible (last s)" by (rule all) (simp add: s)
  moreover have "text_start t" using all by (cases t) (auto simp: text_start_def s visible_not_cont)
  ultimately show ?thesis using s by blast
qed

lemma number_text_visible:
  assumes "number_text s"
  shows "s \<noteq> [] \<and> visible (hd s) \<and> text_start (tl s) \<and> visible (last s) \<and> hd s \<noteq> quote_char"
proof -
  obtain c t where s: "s = c # t" "decimal_text (if c = CHR ''-'' then t else s)"
    using assms by (auto simp: number_text_def split: list.splits)
  show ?thesis
  proof (cases "c = CHR ''-''")
    case True
    with s decimal_text_chars [of t] show ?thesis by (auto simp: text_start_def visible_not_cont visible_digit)
  next
    case False
    with s decimal_text_chars [of s] show ?thesis by (auto simp: visible_digit is_digit_def byte_def)
  qed
qed

lemma variable_text_visible:
  assumes "variable_text s"
  shows "s \<noteq> [] \<and> visible (hd s) \<and> text_start (tl s) \<and> visible (last s) \<and> hd s \<noteq> quote_char"
proof -
  obtain d t where s: "s = CHR ''$'' # d # t" "is_lower d" "list_all name_char t"
    using assms by (auto simp: variable_text_def split: list.splits)
  have "visible d" using s(2) by (intro visible_name) (simp add: name_char_def name_start_def)
  moreover have "visible (last t)" if "t \<noteq> []" using s(3) that by (intro visible_name) (simp add: list_all_iff)
  ultimately show ?thesis by (simp add: s(1) text_start_def visible_not_cont)
qed

lemma duration_parts_unit:
  assumes "duration_parts_of ms = (x, u)" "exact ms = ms"
  shows "\<exists>k. (u, k) \<in> set duration_units \<and> exact (x * k) = ms"
proof (cases "find (\<lambda>(_, k). k \<le> ms \<and> exact (exact (ms / k) * k) = ms) duration_units")
  case None
  then show ?thesis using assms by (auto simp: duration_parts_of_def duration_units_def)
next
  case (Some uk)
  then have "uk \<in> set duration_units" "exact (exact (ms / snd uk) * snd uk) = ms"
    by (auto simp: find_Some_iff) (metis nth_mem)
  moreover obtain v k where uk: "uk = (v, k)" by fastforce
  moreover have "x = exact (ms / k)" "u = v" using assms Some by (auto simp: duration_parts_of_def uk)
  ultimately show ?thesis by auto
qed

lemma unit_facts:
  assumes "(u, k) \<in> set duration_units"
  shows "map_of duration_units u = Some k \<and> ascii_lower u = u \<and> skip_blanks u = u \<and> u \<noteq> [] \<and> visible (last u)
    \<and> \<not> is_digit (hd u) \<and> hd u \<noteq> CHR ''.'' \<and> \<not> is_cont (hd u)"
  using assms
  by (auto simp: duration_units_def ascii_lower_def is_upper_def is_digit_def byte_def visible_def js_space_def
      skip_blanks_def is_cont_def cp_of_def)

lemma read_decimal_ok:
  assumes "decimal_text n" "u \<noteq> []" "\<not> is_digit (hd u)" "hd u \<noteq> CHR ''.''"
  shows "read_decimal (n @ u) = (n, u) \<and> \<not> decimal_text (n @ u)"
proof -
  obtain i r where ir: "i = takeWhile is_digit n" "r = dropWhile is_digit n" "i \<noteq> []"
      "case r of [] \<Rightarrow> True | c # f \<Rightarrow> c = CHR ''.'' \<and> digits_text f"
    using assms(1) by (auto simp: decimal_text_def Let_def)
  have n: "n = i @ r" by (simp add: ir(1,2))
  have digits: "\<forall>c \<in> set i. is_digit c" by (auto simp: ir(1) dest: set_takeWhileD)
  obtain d v where u: "u = d # v" using assms(2) by (cases u) auto
  have dot: "\<not> is_digit CHR ''.''" by (simp add: is_digit_def byte_def)
  show ?thesis
  proof (cases r)
    case Nil
    then have "takeWhile is_digit (n @ u) = i \<and> dropWhile is_digit (n @ u) = u"
      using takeWhile_all [OF digits, of u] assms(3) by (simp add: n u)
    then show ?thesis using assms(3,4) Nil by (simp add: read_decimal_def decimal_text_def u n)
  next
    case (Cons c f)
    then have c: "c = CHR ''.''" "digits_text f" using ir(4) by auto
    have tw: "takeWhile is_digit (n @ u) = i \<and> dropWhile is_digit (n @ u) = CHR ''.'' # f @ u"
      using takeWhile_all [OF digits, of "CHR ''.'' # f @ u"] dot by (simp add: n Cons c)
    have "takeWhile is_digit (f @ u) = f \<and> dropWhile is_digit (f @ u) = u"
      using takeWhile_all [of f is_digit u] c(2) assms(3) by (simp add: digits_text_def list_all_iff u)
    then show ?thesis using tw c assms(3)
      by (simp add: read_decimal_def decimal_text_def n Cons digits_text_def u)
  qed
qed

section \<open>Properties\<close>

text \<open>
  Property C24. A filter row printed for the query reads back as the same row: field, operator and
  value, whatever quotes the value or the attribute key contains. A value with a type keeps it:
  a number and a dashboard variable stay unquoted, everything else is a quoted string.
\<close>

theorem where_round_trip:
  assumes "field_ok (cd_field c)" "cd_op c \<in> set where_operators" "text_start (cd_value c)"
  shows "parseWhere (printWhere c variables) = Some (canonical c variables)"
proof -
  let ?t = "js_trim (cd_value c)"
  note pp = parse_printed [OF assms(1,2)]
  have raw: "parseWhere (cd_field c @ '' '' @ cd_op c @ '' '' @ ?t) = Some (c\<lparr>cd_value := ?t, cd_quoted := False\<rparr>)"
    if "number_text ?t \<or> variable_text ?t"
  proof -
    have v: "?t \<noteq> []" "visible (hd ?t)" "text_start (tl ?t)" "visible (last ?t)" "hd ?t \<noteq> quote_char"
      using that number_text_visible [of ?t] variable_text_visible [of ?t] by auto
    then have "literal_text ?t" using that by (cases ?t) (auto simp: literal_text_def)
    from pp [OF this v(2,3,4)] v(1,5) show ?thesis by (cases ?t) (auto simp: condition_of_def starts_with_def)
  qed
  let ?q = "[quote_char] @ double_quotes (cd_value c) @ [quote_char]"
  have lit: "literal_text ?q" using quoted_body_double [of "[]" "cd_value c"] by (simp add: literal_text_def)
  have start: "text_start (tl ?q)"
    using assms(3) by (cases "cd_value c") (auto simp: text_start_def is_cont_def byte_def)
  have kept: "parseWhere (cd_field c @ '' '' @ cd_op c @ '' '' @ ?q) = Some (c\<lparr>cd_quoted := True\<rparr>)"
    using pp [OF lit _ start] by (simp add: condition_of_def starts_with_def butlast_append)
  show ?thesis using raw kept by (auto simp: printWhere_def canonical_def Let_def)
qed

theorem where_round_trip_witness:
  "parseWhere (printWhere \<lparr>cd_field = ''service'', cd_op = ''='', cd_value = ''it'' @ [quote_char] @ ''s'', cd_quoted = True\<rparr> [])
    = Some \<lparr>cd_field = ''service'', cd_op = ''='', cd_value = ''it'' @ [quote_char] @ ''s'', cd_quoted = True\<rparr>"
  by (subst where_round_trip)
    (simp_all add: field_ok_def name_text_def name_start_def name_char_def is_lower_def byte_def where_operators_def
      text_start_def is_cont_def canonical_def js_trim_def variable_text_def js_space_def cp_of_def Let_def)

text \<open>
  A duration shown in its unit is read back as the same number of milliseconds,
  whichever unit was the largest that kept it exact.
\<close>

theorem duration_round_trip:
  assumes "exact ms = ms" "duration_parts_of ms = (x, u)" "decimal_text (sn (Fin x))" "np (sn (Fin x)) = Fin x"
  shows "durationMs np (durationText sn ms) = Some (Fin ms)"
proof -
  obtain k where k: "(u, k) \<in> set duration_units" "exact (x * k) = ms"
    using duration_parts_unit [OF assms(2,1)] by blast
  note uf = unit_facts [OF k(1)]
  let ?n = "sn (Fin x)"
  obtain c t where n: "?n = c # t" "is_digit c" "text_start t" using decimal_text_chars [OF assms(3)] by blast
  have "js_trim (?n @ u) = ?n @ u"
    by (rule trim_text) (use uf n in \<open>auto simp: visible_digit text_start_def hd_append\<close>)
  moreover have rd: "read_decimal (?n @ u) = (?n, u)" "\<not> decimal_text (?n @ u)"
    using read_decimal_ok [OF assms(3)] uf by blast+
  moreover have "c \<noteq> CHR ''-''" using n(2) by (auto simp: is_digit_def byte_def)
  ultimately show ?thesis
    using uf k(2) assms(4) n(1) by (simp add: durationMs_def durationText_def assms(2) number_text_def)
qed

theorem duration_round_trip_witness:
  "durationMs (\<lambda>_. Fin 0) (durationText (\<lambda>_. ''0'') 0) = Some (Fin 0)"
  by (rule duration_round_trip [where x = 0 and u = "''ms''"])
    (simp_all add: exact_def duration_parts_of_def duration_units_def decimal_text_def is_digit_def byte_def)

end
