(* ===== verification/Explore_Builder.thy ===== *)
theory Explore_Builder
  imports Explore_Where Panel_Types
begin

text \<open>
  The query builder of Explore (\<open>ui/host/src/explore/builder.tsx\<close>): which entries of a query it
  can show, what the schema offers, and the state of the filter rows. A row without a usable
  value is kept beside the query as a draft, at its place among the rows; every handler of the
  rows and the switch of the source is a step of the state.
\<close>

section \<open>Measures\<close>

definition fieldless :: "string list" where
  "fieldless = [''count'', ''rate'', ''error_rate'', ''share'']"

definition textOnly :: "string list" where
  "textOnly = [''quantile'']"

record measure_row =
  me_fn :: string
  me_field :: string

text \<open>The match of \<open>name()\<close> or \<open>name(field)\<close>.\<close>

definition closing :: "(string \<times> string) option \<Rightarrow> string option" where
  "closing fr = Option.bind fr (\<lambda>(f, r). if r = '')'' then Some f else None)"

definition measure_match :: "string \<Rightarrow> measure_row option" where
  "measure_match entry = Option.bind (name_field (js_trim entry)) (\<lambda>(fn, r).
     Option.bind (strip_prefix ''('' r) (\<lambda>t.
       map_option (\<lambda>f. \<lparr>me_fn = fn, me_field = f\<rparr>)
         (if t = '')'' then Some [] else or_else (closing (name_field t)) (closing (bracket_field t)))))"

definition parseMeasure :: "string \<Rightarrow> string list \<Rightarrow> measure_row option" where
  "parseMeasure entry known = Option.bind (measure_match entry) (\<lambda>m.
     if me_fn m \<in> set textOnly \<or> me_fn m \<notin> set known then None
     else if (me_fn m \<in> set fieldless) \<noteq> (me_field m = []) then None else Some m)"

definition printMeasure :: "measure_row \<Rightarrow> string" where
  "printMeasure m = me_fn m @ ''('' @ (if me_fn m \<in> set fieldless then [] else me_field m) @ '')''"

definition durationField :: string where "durationField = ''duration_ms''"

definition numericValue :: "(string \<Rightarrow> num) \<Rightarrow> (num \<Rightarrow> string) \<Rightarrow> string \<Rightarrow> string \<Rightarrow> string option" where
  "numericValue np sn field v = (if field = durationField then map_option sn (durationMs np v)
     else if number_text v then Some v else None)"

section \<open>What the schema offers\<close>

record telemetry_schema =
  ts_signals :: "(string, (string \<times> string) list \<times> (string \<times> string \<times> string) list) omap"
  ts_measures :: "string list"
  ts_buckets :: "string list"

definition query_columns :: "panel_query \<Rightarrow> string list \<times> string list" where
  "query_columns q =
    (let ms = List.map_filter measure_match (q_measures q); cs = List.map_filter parseWhere (q_where q);
         numbers = uniq (map me_field (filter (\<lambda>m. me_field m \<noteq> [] \<and> me_fn m \<noteq> ''count_distinct'') ms)
           @ map cd_field (filter (\<lambda>c. \<not> cd_quoted c) cs));
         texts = uniq (map me_field (filter (\<lambda>m. me_field m \<noteq> [] \<and> me_fn m = ''count_distinct'') ms)
           @ map cd_field (filter cd_quoted cs) @ q_by q @ [''service''])
     in (numbers, texts))"

definition querySchema :: "panel_query \<Rightarrow> telemetry_schema" where
  "querySchema q = (case query_columns q of (numbers, texts) \<Rightarrow>
     \<lparr>ts_signals = [(q_from q, map (\<lambda>n. (n, if n \<in> set numbers then ''number'' else ''string'')) (uniq (numbers @ texts)), [])],
      ts_measures = uniq (''count'' # map me_fn (List.map_filter measure_match (q_measures q))),
      ts_buckets = ''auto'' # (case q_bucket q of Some b \<Rightarrow> if b \<noteq> [] \<and> b \<noteq> ''auto'' then [b] else [] | None \<Rightarrow> [])\<rparr>)"

definition fieldsOf :: "telemetry_schema \<Rightarrow> string \<Rightarrow> (string \<times> string) list" where
  "fieldsOf schema source = (case map_of (ts_signals schema) source of
      None \<Rightarrow> []
    | Some (columns, attributes) \<Rightarrow> filter (\<lambda>(_, t). t \<noteq> ''map'' \<and> t \<noteq> ''time'') columns
        @ map (\<lambda>(key, scope, t). ((if scope = ''resource'' then resource_open else attributes_open)
            @ double_quotes key @ [quote_char, CHR '']''], t)) attributes)"

definition numeric_fields :: "(string \<times> string) list \<Rightarrow> string list" where
  "numeric_fields cols = map fst (filter (\<lambda>(_, t). t = ''number'' \<or> t = ''int'' \<or> t = ''float'') cols)"

definition measureFields :: "string \<Rightarrow> string list \<Rightarrow> string list \<Rightarrow> string list \<Rightarrow> string list" where
  "measureFields fn all_fields numeric with_current =
    (let options = (if fn = ''count_distinct'' then all_fields else filter (\<lambda>n. n \<in> set numeric) all_fields)
     in uniq (filter (\<lambda>n. n \<notin> set all_fields) with_current @ options))"

section \<open>The state of the rows\<close>

record builder_state =
  bu_query :: panel_query
  bu_draft :: "(nat \<times> condition) option"
  bu_removed :: "string option"
  bu_held :: bool

text \<open>
  What the render gives the handlers: the names of the source's fields, the numeric ones, the
  dashboard's variables, the known measures.
\<close>

record builder_view =
  bv_schema :: telemetry_schema
  bv_variables :: "string list"
  bv_labels :: "(string, string) omap"

datatype filter_row = Kept string | Draft condition

definition filter_rows :: "builder_state \<Rightarrow> filter_row list" where
  "filter_rows s = (case bu_draft s of
      None \<Rightarrow> map Kept (q_where (bu_query s))
    | Some (d, c) \<Rightarrow> map Kept (take d (q_where (bu_query s))) @ Draft c # map Kept (drop d (q_where (bu_query s))))"

definition setDraft :: "(nat \<times> condition) option \<Rightarrow> builder_state \<Rightarrow> builder_state" where
  "setDraft d s = s\<lparr>bu_draft := d, bu_held := (case d of Some (_, c) \<Rightarrow> js_trim (cd_value c) \<noteq> [] | None \<Rightarrow> False)\<rparr>"

definition set_query :: "(panel_query \<Rightarrow> panel_query) \<Rightarrow> builder_state \<Rightarrow> builder_state" where
  "set_query patch s = s\<lparr>bu_removed := None, bu_query := patch (bu_query s)\<rparr>"

definition set_where :: "string list \<Rightarrow> builder_state \<Rightarrow> builder_state" where
  "set_where ws = set_query (\<lambda>q. q\<lparr>q_where := ws\<rparr>)"

definition remove_at :: "nat \<Rightarrow> 'a list \<Rightarrow> 'a list" where
  "remove_at i xs = take i xs @ drop (Suc i) xs"

text \<open>The place of a row in the query: rows after the draft sit one earlier there.\<close>

definition row_place :: "builder_state \<Rightarrow> nat \<Rightarrow> nat" where
  "row_place s i = (case bu_draft s of Some (d, _) \<Rightarrow> if d < i then i - 1 else i | None \<Rightarrow> i)"

definition is_draft_row :: "builder_state \<Rightarrow> nat \<Rightarrow> bool" where
  "is_draft_row s i \<longleftrightarrow> map_option fst (bu_draft s) = Some i"

definition row_condition :: "filter_row \<Rightarrow> condition option" where
  "row_condition r = (case r of Kept e \<Rightarrow> parseWhere e | Draft c \<Rightarrow> Some c)"

text \<open>The condition after an edit, and the value it puts in the query, if it is usable.\<close>

definition edited :: "builder_view \<Rightarrow> string \<Rightarrow> (condition \<Rightarrow> condition) \<Rightarrow> condition \<Rightarrow> condition" where
  "edited v source patch c =
    (let n = patch c; cols = fieldsOf (bv_schema v) source
     in if cd_field n \<in> set (map fst cols) then n\<lparr>cd_quoted := cd_field n \<notin> set (numeric_fields cols)\<rparr> else n)"

definition usable_value :: "(string \<Rightarrow> num) \<Rightarrow> (num \<Rightarrow> string) \<Rightarrow> builder_view \<Rightarrow> string \<Rightarrow> condition \<Rightarrow> string option" where
  "usable_value np sn v source n =
    (let t = js_trim (cd_value n); variable = (variable_text t \<and> tl t \<in> set (bv_variables v));
         value = (if cd_field n \<in> set (numeric_fields (fieldsOf (bv_schema v) source)) \<and> \<not> variable
           then numericValue np sn (cd_field n) t else Some t)
     in if value = Some [] then None else value)"

definition updateRow :: "(string \<Rightarrow> num) \<Rightarrow> (num \<Rightarrow> string) \<Rightarrow> builder_view \<Rightarrow> nat \<Rightarrow> (condition \<Rightarrow> condition) \<Rightarrow> builder_state \<Rightarrow> builder_state" where
  "updateRow np sn v i patch s = (case Option.bind (nth_opt (filter_rows s) i) row_condition of
      None \<Rightarrow> s
    | Some c \<Rightarrow>
        (let ws = q_where (bu_query s); source = q_from (bu_query s); place = row_place s i; draft = is_draft_row s i;
             n = edited v source patch c
         in case usable_value np sn v source n of
              None \<Rightarrow> (let s1 = setDraft (Some (place, n)) s in if draft then s1 else set_where (remove_at place ws) s1)
            | Some value \<Rightarrow>
                (let s1 = (if draft then setDraft None s else s); printed = printWhere (n\<lparr>cd_value := value\<rparr>) (bv_variables v)
                 in set_where (if draft then take place ws @ printed # drop place ws else ws[place := printed]) s1)))"

definition dropRow :: "nat \<Rightarrow> builder_state \<Rightarrow> builder_state" where
  "dropRow i s = (if is_draft_row s i then setDraft None s
     else let place = row_place s i;
          s1 = (case bu_draft s of Some (d, c) \<Rightarrow> if place < d then setDraft (Some (d - 1, c)) s else s | None \<Rightarrow> s)
        in set_where (remove_at place (q_where (bu_query s))) s1)"

definition addFilter :: "builder_state \<Rightarrow> builder_state" where
  "addFilter s = (if bu_draft s \<noteq> None then s
     else setDraft (Some (length (q_where (bu_query s)),
       \<lparr>cd_field = ''service'', cd_op = ''='', cd_value = [], cd_quoted = True\<rparr>)) s)"

section \<open>The other controls\<close>

definition set_measures :: "string list \<Rightarrow> builder_state \<Rightarrow> builder_state" where
  "set_measures ms = set_query (\<lambda>q. q\<lparr>q_measures := ms\<rparr>)"

definition measure_at :: "builder_view \<Rightarrow> nat \<Rightarrow> builder_state \<Rightarrow> measure_row option" where
  "measure_at v i s = Option.bind (nth_opt (q_measures (bu_query s)) i) (\<lambda>e. parseMeasure e (ts_measures (bv_schema v)))"

definition set_measure :: "nat \<Rightarrow> measure_row \<Rightarrow> builder_state \<Rightarrow> builder_state" where
  "set_measure i m s = set_measures ((q_measures (bu_query s))[i := printMeasure m]) s"

text \<open>Another function keeps the field of the row, or takes the first numeric field of the source.\<close>

definition pickFunction :: "builder_view \<Rightarrow> nat \<Rightarrow> string \<Rightarrow> builder_state \<Rightarrow> builder_state" where
  "pickFunction v i fn s = (case measure_at v i s of
      None \<Rightarrow> s
    | Some m \<Rightarrow> if fn = [] then s else
        (let numeric = numeric_fields (fieldsOf (bv_schema v) (q_from (bu_query s)));
             field = (if fn \<in> set fieldless then []
               else if me_field m \<noteq> [] then me_field m else if numeric = [] then [] else hd numeric)
         in set_measure i \<lparr>me_fn = fn, me_field = field\<rparr> s))"

definition pickField :: "builder_view \<Rightarrow> nat \<Rightarrow> string \<Rightarrow> builder_state \<Rightarrow> builder_state" where
  "pickField v i field s = (case measure_at v i s of
      None \<Rightarrow> s
    | Some m \<Rightarrow> if field = [] then s else set_measure i (m\<lparr>me_field := field\<rparr>) s)"

definition dropMeasure :: "nat \<Rightarrow> builder_state \<Rightarrow> builder_state" where
  "dropMeasure i s = set_measures (remove_at i (q_measures (bu_query s))) s"

definition addMeasure :: "builder_state \<Rightarrow> builder_state" where
  "addMeasure s = set_measures (q_measures (bu_query s) @ [''count()'']) s"

definition dropGroup :: "nat \<Rightarrow> builder_state \<Rightarrow> builder_state" where
  "dropGroup i = set_query (\<lambda>q. q\<lparr>q_by := remove_at i (q_by q)\<rparr>)"

definition group_choices :: "builder_view \<Rightarrow> builder_state \<Rightarrow> string list" where
  "group_choices v s = filter (\<lambda>n. n \<notin> set (q_by (bu_query s))) (map fst (fieldsOf (bv_schema v) (q_from (bu_query s))))"

definition addGroup :: "string \<Rightarrow> builder_state \<Rightarrow> builder_state" where
  "addGroup name s = (if name = [] then s else set_query (\<lambda>q. q\<lparr>q_by := q_by q @ [name]\<rparr>) s)"

definition bucket_choices :: "builder_view \<Rightarrow> builder_state \<Rightarrow> string list" where
  "bucket_choices v s = ts_buckets (bv_schema v) @ (case q_bucket (bu_query s) of
     Some b \<Rightarrow> if b \<noteq> [] \<and> b \<notin> set (ts_buckets (bv_schema v)) then [b] else [] | None \<Rightarrow> [])"

definition pickBucket :: "string option \<Rightarrow> builder_state \<Rightarrow> builder_state" where
  "pickBucket b = set_query (\<lambda>q. q\<lparr>q_bucket := b\<rparr>)"

definition pickLimit :: "nat option \<Rightarrow> builder_state \<Rightarrow> builder_state" where
  "pickLimit n = set_query (\<lambda>q. q\<lparr>q_limit := n\<rparr>)"

section \<open>Another source (switchSource)\<close>

definition keeps_field :: "telemetry_schema \<Rightarrow> string \<Rightarrow> string \<Rightarrow> bool" where
  "keeps_field schema source n \<longleftrightarrow> n \<in> set (map fst (fieldsOf schema source))
     \<or> starts_with n ''attributes['' \<or> starts_with n ''resource[''"

definition keeps_where :: "telemetry_schema \<Rightarrow> string \<Rightarrow> string \<Rightarrow> bool" where
  "keeps_where schema source e \<longleftrightarrow> (case parseWhere e of Some c \<Rightarrow> keeps_field schema source (cd_field c) | None \<Rightarrow> True)"

definition keeps_measure :: "telemetry_schema \<Rightarrow> string \<Rightarrow> string \<Rightarrow> bool" where
  "keeps_measure schema source e \<longleftrightarrow> (case parseMeasure e (ts_measures schema) of
     Some m \<Rightarrow> me_field m = [] \<or> keeps_field schema source (me_field m) | None \<Rightarrow> True)"

definition switchSource :: "builder_view \<Rightarrow> string \<Rightarrow> builder_state \<Rightarrow> builder_state" where
  "switchSource v source s =
    (let q = bu_query s; sch = bv_schema v;
         ws = filter (keeps_where sch source) (q_where q);
         ms = filter (keeps_measure sch source) (q_measures q);
         bs = filter (keeps_field sch source) (q_by q);
         dropped = filter (\<lambda>m. m \<notin> set ms) (q_measures q) @ filter (\<lambda>w. w \<notin> set ws) (q_where q)
           @ filter (\<lambda>b. b \<notin> set bs) (q_by q);
         ms' = (if ms = [] \<and> q_measures q \<noteq> [] then [''count()''] else ms);
         s1 = setDraft None s
     in s1\<lparr>bu_removed := (if dropped = [] then None
             else Some (''Removed what '' @ source @ '' does not have: ''
               @ join '', '' (map (\<lambda>e. nullish (map_of (bv_labels v) e) e) dropped) @ ''.'')),
          bu_query := q\<lparr>q_from := source, q_where := ws, q_measures := ms', q_by := bs\<rparr>\<rparr>)"

section \<open>Lemmas\<close>

definition draft_ok :: "builder_state \<Rightarrow> bool" where
  "draft_ok s \<longleftrightarrow> (case bu_draft s of Some (d, _) \<Rightarrow> d \<le> length (q_where (bu_query s)) | None \<Rightarrow> True)"

lemma where_after [simp]:
  "q_where (bu_query (set_where ws s)) = ws" "bu_draft (set_where ws s) = bu_draft s"
  "bu_query (setDraft d s) = bu_query s" "bu_draft (setDraft d s) = d"
  "q_from (bu_query (set_where ws s)) = q_from (bu_query s)"
  by (simp_all add: set_where_def set_query_def setDraft_def)

lemma rows_draft:
  "draft_ok s \<Longrightarrow> bu_draft s = Some (d, c) \<Longrightarrow> filter_rows s ! d = Draft c \<and> length (filter_rows s) = Suc (length (q_where (bu_query s)))"
  by (simp add: filter_rows_def draft_ok_def nth_append)

lemma rows_kept:
  assumes "draft_ok s" "\<not> is_draft_row s i" "i < length (filter_rows s)"
  shows "row_place s i < length (q_where (bu_query s)) \<and> filter_rows s ! i = Kept (q_where (bu_query s) ! row_place s i)"
proof (cases "bu_draft s")
  case None
  with assms show ?thesis by (simp add: filter_rows_def row_place_def)
next
  case (Some dc)
  obtain d c where dc: "dc = (d, c)" by fastforce
  have d: "d \<le> length (q_where (bu_query s))" "i \<noteq> d" "i \<le> length (q_where (bu_query s))"
    using assms Some by (auto simp: draft_ok_def dc is_draft_row_def filter_rows_def)
  show ?thesis
  proof (cases "d < i")
    case True
    then obtain k where k: "i = Suc k" by (cases i) auto
    with True d show ?thesis by (simp add: filter_rows_def Some dc row_place_def nth_append Suc_diff_le)
  next
    case False
    with d show ?thesis by (simp add: filter_rows_def Some dc row_place_def nth_append)
  qed
qed

definition rows_of :: "string list \<Rightarrow> (nat \<times> condition) option \<Rightarrow> filter_row list" where
  "rows_of ws d = (case d of None \<Rightarrow> map Kept ws | Some (d, c) \<Rightarrow> map Kept (take d ws) @ Draft c # map Kept (drop d ws))"

lemma filter_rows_of: "filter_rows s = rows_of (q_where (bu_query s)) (bu_draft s)"
  by (simp add: filter_rows_def rows_of_def)

lemma rows_insert: "d \<le> length ws \<Longrightarrow> rows_of (take d ws @ e # drop d ws) None = (rows_of ws (Some (d, c)))[d := Kept e]"
  by (simp add: rows_of_def list_update_append)

lemma rows_redraft: "d \<le> length ws \<Longrightarrow> rows_of ws (Some (d, n)) = (rows_of ws (Some (d, c)))[d := Draft n]"
  by (simp add: rows_of_def list_update_append)

lemma rows_new_draft: "i < length ws \<Longrightarrow> rows_of (remove_at i ws) (Some (i, n)) = (rows_of ws None)[i := Draft n]"
  by (simp add: rows_of_def remove_at_def upd_conv_take_nth_drop take_map drop_map)

lemma rows_replace:
  assumes "d \<le> length ws" "i \<noteq> d" "i \<le> length ws"
  shows "rows_of (ws[(if d < i then i - 1 else i) := e]) (Some (d, c)) = (rows_of ws (Some (d, c)))[i := Kept e]"
proof (cases "d < i")
  case True
  then obtain k where k: "i = d + Suc k" by (metis less_imp_Suc_add add_Suc_right)
  show ?thesis using assms by (simp add: rows_of_def k list_update_append map_update drop_update_swap)
next
  case False
  with assms show ?thesis by (simp add: rows_of_def list_update_append map_update take_update_swap)
qed

text \<open>What an edit makes of its row.\<close>

definition new_row :: "(string \<Rightarrow> num) \<Rightarrow> (num \<Rightarrow> string) \<Rightarrow> builder_view \<Rightarrow> string \<Rightarrow> condition \<Rightarrow> filter_row" where
  "new_row np sn v source n = (case usable_value np sn v source n of
     Some value \<Rightarrow> Kept (printWhere (n\<lparr>cd_value := value\<rparr>) (bv_variables v)) | None \<Rightarrow> Draft n)"

lemma usable_nonempty: "usable_value np sn v source n = Some x \<Longrightarrow> x \<noteq> []"
  by (auto simp: usable_value_def Let_def split: if_splits)

lemma updateRow_steps:
  assumes "Option.bind (nth_opt (filter_rows s) i) row_condition = Some c" "n = edited v (q_from (bu_query s)) patch c"
  shows "usable_value np sn v (q_from (bu_query s)) n = None \<Longrightarrow> is_draft_row s i \<Longrightarrow>
      updateRow np sn v i patch s = setDraft (Some (row_place s i, n)) s"
    "usable_value np sn v (q_from (bu_query s)) n = None \<Longrightarrow> \<not> is_draft_row s i \<Longrightarrow>
      updateRow np sn v i patch s = set_where (remove_at (row_place s i) (q_where (bu_query s))) (setDraft (Some (row_place s i, n)) s)"
    "usable_value np sn v (q_from (bu_query s)) n = Some x \<Longrightarrow> is_draft_row s i \<Longrightarrow>
      updateRow np sn v i patch s = set_where (take (row_place s i) (q_where (bu_query s))
        @ printWhere (n\<lparr>cd_value := x\<rparr>) (bv_variables v) # drop (row_place s i) (q_where (bu_query s))) (setDraft None s)"
    "usable_value np sn v (q_from (bu_query s)) n = Some x \<Longrightarrow> \<not> is_draft_row s i \<Longrightarrow>
      updateRow np sn v i patch s
        = set_where ((q_where (bu_query s))[row_place s i := printWhere (n\<lparr>cd_value := x\<rparr>) (bv_variables v)]) s"
  using assms by (simp_all add: updateRow_def Let_def)

lemma draft_row_edited:
  assumes "draft_ok s" "is_draft_row s i" "Option.bind (nth_opt (filter_rows s) i) row_condition = Some c"
    and "n = edited v (q_from (bu_query s)) patch c"
  shows "filter_rows (updateRow np sn v i patch s) = (filter_rows s)[i := new_row np sn v (q_from (bu_query s)) n]
    \<and> draft_ok (updateRow np sn v i patch s)"
proof -
  note steps = updateRow_steps [OF assms(3,4)]
  obtain e where d: "bu_draft s = Some (i, e)" using assms(2) by (auto simp: is_draft_row_def)
  then have i: "i \<le> length (q_where (bu_query s))" using assms(1) by (simp add: draft_ok_def)
  have p: "row_place s i = i" by (simp add: row_place_def d)
  show ?thesis
  proof (cases "usable_value np sn v (q_from (bu_query s)) n")
    case None
    then show ?thesis using rows_redraft [OF i] i
      by (simp add: steps(1) [OF None assms(2)] p filter_rows_of d new_row_def draft_ok_def)
  next
    case (Some x)
    then show ?thesis using rows_insert [OF i]
      by (simp add: steps(3) [OF Some assms(2)] p filter_rows_of d new_row_def draft_ok_def)
  qed
qed

lemma kept_row_cleared:
  assumes "bu_draft s = None" "i < length (filter_rows s)" "Option.bind (nth_opt (filter_rows s) i) row_condition = Some c"
    and "n = edited v (q_from (bu_query s)) patch c" "usable_value np sn v (q_from (bu_query s)) n = None"
  shows "filter_rows (updateRow np sn v i patch s) = (filter_rows s)[i := Draft n] \<and> draft_ok (updateRow np sn v i patch s)"
proof -
  have nd: "\<not> is_draft_row s i" using assms(1) by (simp add: is_draft_row_def)
  have p: "row_place s i = i" "i < length (q_where (bu_query s))"
    using assms(1,2) by (simp_all add: row_place_def filter_rows_def)
  have "i \<le> length (remove_at i (q_where (bu_query s)))" using p(2) by (simp add: remove_at_def)
  with p show ?thesis using rows_new_draft [OF p(2)]
    by (simp add: updateRow_steps(2) [OF assms(3,4,5) nd] filter_rows_of assms(1) draft_ok_def)
qed

lemma kept_row_edited:
  assumes "draft_ok s" "\<not> is_draft_row s i" "i < length (filter_rows s)"
    and "Option.bind (nth_opt (filter_rows s) i) row_condition = Some c" "n = edited v (q_from (bu_query s)) patch c"
    and "usable_value np sn v (q_from (bu_query s)) n = Some x"
  shows "filter_rows (updateRow np sn v i patch s)
      = (filter_rows s)[i := Kept (printWhere (n\<lparr>cd_value := x\<rparr>) (bv_variables v))] \<and> draft_ok (updateRow np sn v i patch s)"
proof -
  note u = updateRow_steps(4) [OF assms(4,5,6,2)]
  have ok: "draft_ok (updateRow np sn v i patch s)" using assms(1) by (auto simp: u draft_ok_def split: option.splits)
  show ?thesis
  proof (cases "bu_draft s")
    case None
    then show ?thesis using ok by (simp add: u filter_rows_of rows_of_def row_place_def map_update)
  next
    case dr: (Some de)
    obtain d e where de: "de = (d, e)" by fastforce
    have "d \<le> length (q_where (bu_query s))" "i \<noteq> d" "i \<le> length (q_where (bu_query s))"
      using assms(1-3) dr by (auto simp: draft_ok_def de is_draft_row_def filter_rows_def)
    from rows_replace [OF this] show ?thesis using ok by (simp add: u filter_rows_of row_place_def dr de)
  qed
qed

section \<open>Properties\<close>


definition demo_condition :: "string \<Rightarrow> condition" where
  "demo_condition v = \<lparr>cd_field = ''service'', cd_op = ''='', cd_value = v, cd_quoted = True\<rparr>"

definition demo_builder :: "string list \<Rightarrow> (nat \<times> condition) option \<Rightarrow> builder_state" where
  "demo_builder ws d = \<lparr>bu_query = \<lparr>q_from = ''spans'', q_where = ws, q_measures = [], q_by = [], q_bucket = None,
     q_sort = None, q_limit = None\<rparr>, bu_draft = d, bu_removed = None, bu_held = False\<rparr>"

definition demo_view :: builder_view where
  "demo_view = \<lparr>bv_schema = \<lparr>ts_signals = [], ts_measures = [], ts_buckets = []\<rparr>, bv_variables = [], bv_labels = []\<rparr>"

lemma demo_edited: "edited demo_view source patch c = patch c"
  by (simp add: edited_def demo_view_def fieldsOf_def Let_def)

lemma demo_usable: "usable_value np sn demo_view source n = (if js_trim (cd_value n) = [] then None else Some (js_trim (cd_value n)))"
  by (simp add: usable_value_def demo_view_def fieldsOf_def numeric_fields_def Let_def)


text \<open>
  The remaining case: clearing the value of a row while another row is the draft. The state
  holds one draft, so the edited row takes its place and the earlier draft is gone.
\<close>

theorem a_second_draft_drops_the_first:
  assumes "draft_ok s" "bu_draft s = Some (d, e)" "i \<noteq> d" "i < length (filter_rows s)"
    and "row_condition (filter_rows s ! i) = Some c" "n = edited v (q_from (bu_query s)) patch c"
    and "usable_value np sn v (q_from (bu_query s)) n = None"
  shows "length (filter_rows (updateRow np sn v i patch s)) = length (filter_rows s) - 1
    \<and> (\<forall>x. Draft x \<in> set (filter_rows (updateRow np sn v i patch s)) \<longleftrightarrow> x = n)"
proof -
  have nd: "\<not> is_draft_row s i" using assms(2,3) by (simp add: is_draft_row_def)
  note k = rows_kept [OF assms(1) nd assms(4)]
  have "Option.bind (nth_opt (filter_rows s) i) row_condition = Some c" using assms(4,5) by (simp add: nth_opt_def)
  then have u: "updateRow np sn v i patch s
      = set_where (remove_at (row_place s i) (q_where (bu_query s))) (setDraft (Some (row_place s i, n)) s)"
    using nd assms(7) by (simp add: updateRow_def Let_def assms(6) [symmetric])
  have "length (filter_rows s) = Suc (length (q_where (bu_query s)))" using rows_draft [OF assms(1,2)] by simp
  then show ?thesis using k by (auto simp: u filter_rows_of rows_of_def remove_at_def min_def)
qed

end
