(* ===== verification/Explore_Search.thy ===== *)
theory Explore_Search
  imports Dashboard_Search
begin

text \<open>
  The address of an Explore page (\<open>ui/host/src/explore/search.ts\<close>): what is read from the
  decoded parameters, what is written for a search, and the time it covers. The optional
  \<open>picks\<close> object is its four fields, absent when all of them are.
\<close>

definition explore_vizzes :: "string list" where
  "explore_vizzes = [''stat'', ''gauge'', ''timeseries'', ''bar'', ''table'', ''heatmap'', ''histogram'', ''scatter'',
     ''state_timeline'', ''logs'', ''log_patterns'', ''traces'', ''service_map'', ''health'']"

definition severities :: "string list" where
  "severities = [''trace'', ''debug'', ''info'', ''warn'', ''error'', ''fatal'']"

definition defaultRange :: string where "defaultRange = ''1h''"

record explore_search =
  xs_q :: string
  xs_viz :: "string option"
  xs_range :: string
  xs_from :: "string option"
  xs_to :: "string option"
  xs_tab :: string
  xs_sql :: "string option"
  xs_service :: "string option"
  xs_severity :: "string option"
  xs_errors :: bool
  xs_slower :: "string option"
  xs_drill :: "string option"
  xs_sort :: "string option"

definition empty_search :: explore_search where
  "empty_search = \<lparr>xs_q = [], xs_viz = None, xs_range = defaultRange, xs_from = None, xs_to = None, xs_tab = ''query'',
     xs_sql = None, xs_service = None, xs_severity = None, xs_errors = False, xs_slower = None, xs_drill = None, xs_sort = None\<rparr>"

definition slower_ok :: "string \<Rightarrow> bool" where
  "slower_ok s = (case s of c # t \<Rightarrow> is_digit c \<and> c \<noteq> CHR ''0'' \<and> list_all is_digit t \<and> length t \<le> 6 | [] \<Rightarrow> False)"

definition sort_ok :: "string \<Rightarrow> bool" where
  "sort_ok s = (let n = (case s of c # t \<Rightarrow> if c = CHR ''+'' then t else s | [] \<Rightarrow> [])
     in n \<noteq> [] \<and> length n \<le> 40 \<and> list_all (\<lambda>c. is_lower c \<or> c = CHR ''_'') n)"

definition text_in :: "(string \<Rightarrow> bool) \<Rightarrow> search \<Rightarrow> string \<Rightarrow> string option" where
  "text_in p raw k = (case raw_get raw k of Some (JStr s) \<Rightarrow> if p s then Some s else None | _ \<Rightarrow> None)"

definition printed :: "(num \<Rightarrow> string) \<Rightarrow> search \<Rightarrow> string \<Rightarrow> string option" where
  "printed sn raw k = (case raw_get raw k of None \<Rightarrow> None | Some JNull \<Rightarrow> None | Some v \<Rightarrow> Some (js_string sn v))"

definition parseExploreSearch :: "(string \<Rightarrow> json option) \<Rightarrow> (json \<Rightarrow> string) \<Rightarrow> (string \<Rightarrow> num) \<Rightarrow> (num \<Rightarrow> string)
    \<Rightarrow> search \<Rightarrow> explore_search" where
  "parseExploreSearch jp js dp sn raw =
    (if raw_get raw ''v'' \<noteq> None \<and> printed sn raw ''v'' \<noteq> Some ''1'' then empty_search
     else \<lparr>xs_q = nullish (text_in (\<lambda>_. True) raw ''q'') [],
       xs_viz = text_in (\<lambda>s. s \<in> set explore_vizzes) raw ''viz'',
       xs_range = nullish (text_in (\<lambda>s. s \<in> set ranges) raw ''range'') defaultRange,
       xs_from = map_option fst (instants dp raw), xs_to = map_option snd (instants dp raw),
       xs_tab = nullish (text_in (\<lambda>s. s = ''sql'' \<or> s = ''builder'') raw ''tab'') ''query'',
       xs_sql = text_in (\<lambda>_. True) raw ''sql'',
       xs_service = text_in (\<lambda>s. s \<noteq> []) raw ''service'',
       xs_severity = text_in (\<lambda>s. s \<in> set severities) raw ''severity'',
       xs_errors = (printed sn raw ''errors'' = Some ''1''),
       xs_slower = (case printed sn raw ''slower'' of Some s \<Rightarrow> if slower_ok s then Some s else None | None \<Rightarrow> None),
       xs_drill = map_option (\<lambda>d. js (drill_json d)) (parseDrill jp js dp (raw_get raw ''drill'')),
       xs_sort = text_in sort_ok raw ''sort''\<rparr>)"

definition text_entry :: "string \<Rightarrow> string option \<Rightarrow> search" where
  "text_entry k v = opt_entry k (map_option JStr (non_empty v))"

definition time_entries :: "explore_search \<Rightarrow> search" where
  "time_entries s = (if non_empty (xs_from s) \<noteq> None \<and> non_empty (xs_to s) \<noteq> None
     then text_entry ''from'' (xs_from s) @ text_entry ''to'' (xs_to s)
     else opt_entry ''range'' (if xs_range s \<noteq> defaultRange then Some (JStr (xs_range s)) else None))"

definition explore_entries :: "explore_search \<Rightarrow> json option \<Rightarrow> search" where
  "explore_entries s drill = text_entry ''v'' (Some ''1'') @ text_entry ''q'' (Some (xs_q s)) @ text_entry ''viz'' (xs_viz s)
     @ time_entries s
     @ text_entry ''tab'' (if xs_tab s \<noteq> ''query'' then Some (xs_tab s) else None)
     @ text_entry ''sql'' (xs_sql s) @ text_entry ''sort'' (xs_sort s) @ opt_entry ''drill'' drill
     @ text_entry ''service'' (xs_service s) @ text_entry ''severity'' (xs_severity s)
     @ text_entry ''errors'' (if xs_errors s then Some ''1'' else None) @ text_entry ''slower'' (xs_slower s)"

definition toExploreParams :: "(string \<Rightarrow> json option) \<Rightarrow> explore_search \<Rightarrow> search result" where
  "toExploreParams jp s = (case non_empty (xs_drill s) of
      None \<Rightarrow> Inr (explore_entries s None)
    | Some t \<Rightarrow> (case jp t of Some v \<Rightarrow> Inr (explore_entries s (Some v)) | None \<Rightarrow> Inl ''SyntaxError''))"

definition exploreTime :: "explore_search \<Rightarrow> dashboard_time" where
  "exploreTime s = (case (non_empty (xs_from s), non_empty (xs_to s)) of
      (Some a, Some b) \<Rightarrow> \<lparr>dt_range = None, dt_from = Some a, dt_to = Some b, dt_refresh = Some ''off'', dt_compare = False\<rparr>
    | _ \<Rightarrow> \<lparr>dt_range = Some (xs_range s), dt_from = None, dt_to = None, dt_refresh = Some ''off'', dt_compare = False\<rparr>)"

section \<open>Searches that the address can hold\<close>

definition explore_ok :: "(string \<Rightarrow> json option) \<Rightarrow> (json \<Rightarrow> string) \<Rightarrow> (string \<Rightarrow> num) \<Rightarrow> explore_search \<Rightarrow> bool" where
  "explore_ok jp js dp s \<longleftrightarrow> (\<forall>z. xs_viz s = Some z \<longrightarrow> z \<in> set explore_vizzes) \<and> xs_range s \<in> set ranges
     \<and> (case (xs_from s, xs_to s) of (None, None) \<Rightarrow> True
        | (Some a, Some b) \<Rightarrow> isInstant dp (Some (JStr a)) = Some a \<and> isInstant dp (Some (JStr b)) = Some b \<and> num_less (dp a) (dp b)
        | _ \<Rightarrow> False)
     \<and> xs_tab s \<in> {''query'', ''sql'', ''builder''} \<and> xs_sql s \<noteq> Some [] \<and> xs_service s \<noteq> Some []
     \<and> (\<forall>z. xs_severity s = Some z \<longrightarrow> z \<in> set severities) \<and> (\<forall>z. xs_slower s = Some z \<longrightarrow> slower_ok z)
     \<and> (\<forall>t. xs_drill s = Some t \<longrightarrow> (\<exists>d. t = js (drill_json d) \<and> drill_kept jp js dp d))
     \<and> (\<forall>z. xs_sort s = Some z \<longrightarrow> sort_ok z)"

lemma text_entry_get:
  "map_of (text_entry k v @ rest) k' = (if k' = k then (case non_empty v of Some x \<Rightarrow> Some (Some (JStr x)) | None \<Rightarrow> map_of rest k')
     else map_of rest k')"
  "map_of (text_entry k v) k' = (if k' = k then map_option (\<lambda>x. Some (JStr x)) (non_empty v) else None)"
  by (auto simp: text_entry_def opt_entry_def split: option.splits)

lemma time_entries_get:
  "k \<notin> {''from'', ''to'', ''range''} \<Longrightarrow> map_of (time_entries s @ rest) k = map_of rest k"
  "map_of (time_entries s @ rest) ''range'' = (if (non_empty (xs_from s) = None \<or> non_empty (xs_to s) = None) \<and> xs_range s \<noteq> defaultRange
     then Some (Some (JStr (xs_range s))) else map_of rest ''range'')"
  "map_of (time_entries s @ rest) ''from'' = (if non_empty (xs_from s) = None \<or> non_empty (xs_to s) = None then map_of rest ''from''
     else map_option (\<lambda>x. Some (JStr x)) (non_empty (xs_from s)))"
  "map_of (time_entries s @ rest) ''to'' = (if non_empty (xs_from s) = None \<or> non_empty (xs_to s) = None then map_of rest ''to''
     else map_option (\<lambda>x. Some (JStr x)) (non_empty (xs_to s)))"
  by (auto simp: time_entries_def opt_entry_get text_entry_get simp del: map_of_append split: option.splits)

text \<open>The texts of a search that can be held are not empty, so no entry is lost.\<close>

lemma explore_ok_texts:
  assumes "explore_ok jp js dp s"
  shows "non_empty (xs_viz s) = xs_viz s" "non_empty (xs_from s) = xs_from s" "non_empty (xs_to s) = xs_to s"
    "non_empty (xs_sql s) = xs_sql s" "non_empty (xs_service s) = xs_service s" "non_empty (xs_severity s) = xs_severity s"
    "non_empty (xs_slower s) = xs_slower s" "non_empty (xs_sort s) = xs_sort s" "non_empty (xs_drill s) = xs_drill s"
    "xs_from s = None \<longleftrightarrow> xs_to s = None"
proof -
  note v = assms [unfolded explore_ok_def]
  have "[] \<notin> set explore_vizzes" "[] \<notin> set severities" by (simp_all add: explore_vizzes_def severities_def)
  with v show "non_empty (xs_viz s) = xs_viz s" "non_empty (xs_severity s) = xs_severity s"
    by (auto intro!: non_empty_id)
  show "non_empty (xs_from s) = xs_from s" "non_empty (xs_to s) = xs_to s" "xs_from s = None \<longleftrightarrow> xs_to s = None"
    using v by (auto intro!: non_empty_id dest: isInstant_nonempty split: option.splits)
  show "non_empty (xs_sql s) = xs_sql s" "non_empty (xs_service s) = xs_service s"
    using v by (auto simp: non_empty_def)
  show "non_empty (xs_slower s) = xs_slower s" using v by (auto intro!: non_empty_id simp: slower_ok_def)
  show "non_empty (xs_sort s) = xs_sort s" using v by (auto intro!: non_empty_id simp: sort_ok_def)
  show "non_empty (xs_drill s) = xs_drill s" using v by (auto intro!: non_empty_id simp: drill_kept_def)
qed

lemma range_not_empty: "xs_range s \<in> set ranges \<Longrightarrow> non_empty (Some (xs_range s)) = Some (xs_range s)"
  by (auto simp: non_empty_def ranges_def)

lemma bind_entry [simp]:
  "Option.bind (map_option (\<lambda>x. Some (f x)) v) (\<lambda>v. v) = map_option f v" "non_empty None = None"
  by (cases v) (simp_all add: non_empty_def)

lemma explore_entries_get:
  assumes "explore_ok jp js dp s"
  shows "raw_get (explore_entries s d) ''v'' = Some (JStr ''1'')"
    "raw_get (explore_entries s d) ''q'' = map_option JStr (non_empty (Some (xs_q s)))"
    "raw_get (explore_entries s d) ''viz'' = map_option JStr (xs_viz s)"
    "raw_get (explore_entries s d) ''range'' = (if xs_from s = None \<and> xs_range s \<noteq> defaultRange then Some (JStr (xs_range s)) else None)"
    "raw_get (explore_entries s d) ''from'' = map_option JStr (xs_from s)"
    "raw_get (explore_entries s d) ''to'' = map_option JStr (xs_to s)"
    "raw_get (explore_entries s d) ''tab'' = map_option JStr (non_empty (if xs_tab s \<noteq> ''query'' then Some (xs_tab s) else None))"
    "raw_get (explore_entries s d) ''sql'' = map_option JStr (xs_sql s)"
    "raw_get (explore_entries s d) ''sort'' = map_option JStr (xs_sort s)"
    "raw_get (explore_entries s d) ''drill'' = d"
    "raw_get (explore_entries s d) ''service'' = map_option JStr (xs_service s)"
    "raw_get (explore_entries s d) ''severity'' = map_option JStr (xs_severity s)"
    "raw_get (explore_entries s d) ''errors'' = (if xs_errors s then Some (JStr ''1'') else None)"
    "raw_get (explore_entries s d) ''slower'' = map_option JStr (xs_slower s)"
  using explore_ok_texts [OF assms]
  by (auto simp: raw_get_def explore_entries_def text_entry_get opt_entry_get time_entries_get non_empty_def [of "Some ''1''"]
      simp del: map_of_append split: option.split)

section \<open>Properties\<close>

text \<open>
  The parameters written for an Explore search read back as it: query, chart, tab,
  SQL, picks, sort and drill are kept, and so is the time, an absolute window standing for the
  range it replaces.
\<close>

theorem explore_search_round_trip:
  assumes "explore_ok jp js dp s"
  shows "\<exists>out. toExploreParams jp s = Inr out
    \<and> parseExploreSearch jp js dp sn out = (if xs_from s = None then s else s\<lparr>xs_range := defaultRange\<rparr>)"
proof -
  note t = explore_ok_texts [OF assms] and v = assms [unfolded explore_ok_def]
  obtain d where d: "toExploreParams jp s = Inr (explore_entries s d)"
      "map_option (\<lambda>d. js (drill_json d)) (parseDrill jp js dp d) = xs_drill s"
  proof (cases "xs_drill s")
    case None
    then show ?thesis using that [of None] t(9) by (simp add: toExploreParams_def parseDrill_def)
  next
    case (Some x)
    then obtain dr where dr: "x = js (drill_json dr)" "drill_kept jp js dp dr" using v by blast
    then have "jp x = Some (drill_json dr)" by (simp add: drill_kept_def)
    then show ?thesis using that [of "Some (drill_json dr)"] t(9) Some dr
      by (simp add: toExploreParams_def parseDrill_kept)
  qed
  note g = explore_entries_get [OF assms, of d]
  have time: "instants dp (explore_entries s d) = (case xs_from s of None \<Rightarrow> None | Some a \<Rightarrow> Some (a, the (xs_to s)))"
    using v t(10) by (auto simp: instants_def g isInstant_def [of dp None] split: option.splits)
  have "parseExploreSearch jp js dp sn (explore_entries s d) = (if xs_from s = None then s else s\<lparr>xs_range := defaultRange\<rparr>)"
    unfolding parseExploreSearch_def text_in_def printed_def g time
    by (intro explore_search.equality; use v t(10) d(2) in \<open>auto simp: non_empty_def split: option.splits if_splits\<close>)
  with d(1) show ?thesis by blast
qed

theorem explore_search_round_trip_witness:
  "\<exists>out. toExploreParams (\<lambda>_. None) (empty_search\<lparr>xs_q := ''count()'', xs_sort := Some ''p_rate''\<rparr>) = Inr out
    \<and> xs_q (parseExploreSearch (\<lambda>_. None) (\<lambda>_. []) (\<lambda>_. NaN) (\<lambda>_. []) out) = ''count()''"
  using explore_search_round_trip [of "\<lambda>_. None" "\<lambda>_. []" "\<lambda>_. NaN" "empty_search\<lparr>xs_q := ''count()'', xs_sort := Some ''p_rate''\<rparr>" "\<lambda>_. []"]
  by (auto simp: explore_ok_def empty_search_def ranges_def defaultRange_def sort_ok_def is_lower_def byte_def Let_def)

end
