(* ===== verification/Cost_Ledger.thy ===== *)
theory Cost_Ledger
  imports Js_Text
begin

text \<open>
  The cost ledger of the dashboard evaluation (\<open>scripts/dashboard-eval/transport.ts\<close>): verified
  rates, metered calls and the prompts they belong to. Every operation is a function to a result,
  its thrown errors as values; \<open>dp\<close> is \<open>Date.parse\<close>. The shapes that TypeScript's types fix
  (lists, booleans, texts) are types here, the numbers keep their tests. The key of a call is the
  pair of its run and step, which its text \<open>run:step\<close> determines.
\<close>

section \<open>State\<close>

record usage =
  us_input :: num
  us_output :: num
  us_cache_read :: num
  us_cache_write :: num
  us_reasoning :: num

record call_usage =
  cu_run :: string
  cu_step :: num
  cu_provider :: string
  cu_model :: string
  cu_status :: string
  cu_usage :: "usage option"

record ledger_call =
  lc_call :: call_usage
  lc_cost :: "real option"

record token_rate =
  rt_provider :: string
  rt_model :: string
  rt_verified :: string
  rt_includes_cache :: bool
  rt_input :: num
  rt_output :: num
  rt_cache_read :: num
  rt_cache_write :: num

record ledger_prompt =
  lp_run :: string
  lp_prompt :: "string option"
  lp_settled :: bool
  lp_completed :: bool
  lp_status :: "string option"
  lp_cost :: "real option"
  lp_manual :: "(num \<times> string \<times> string) option"

record ledger =
  lg_rates :: "token_rate list"
  lg_calls :: "ledger_call list"
  lg_prompts :: "ledger_prompt list"

section \<open>The cost of a call\<close>

definition nonneg :: "num \<Rightarrow> bool" where
  "nonneg n = (case n of Fin x \<Rightarrow> 0 \<le> x | _ \<Rightarrow> False)"

definition whole :: "num \<Rightarrow> bool" where
  "whole n = (case n of Fin x \<Rightarrow> x = of_int \<lfloor>x\<rfloor> | _ \<Rightarrow> False)"

definition amount :: "num \<Rightarrow> real" where
  "amount n = (case n of Fin x \<Rightarrow> x | _ \<Rightarrow> 0)"

definition tokens :: "usage \<Rightarrow> num list" where
  "tokens u = [us_input u, us_output u, us_cache_read u, us_cache_write u, us_reasoning u]"

definition rate_numbers :: "token_rate \<Rightarrow> num list" where
  "rate_numbers r = [rt_input r, rt_output r, rt_cache_read r, rt_cache_write r]"

definition callCost :: "(string \<Rightarrow> num) \<Rightarrow> ledger \<Rightarrow> call_usage \<Rightarrow> real option result" where
  "callCost dp l c = (case cu_usage c of
      None \<Rightarrow> Inr None
    | Some u \<Rightarrow> (case filter (\<lambda>r. rt_provider r = cu_provider c \<and> rt_model r = cu_model c) (lg_rates l) of
        [r] \<Rightarrow> guard_err (\<not> is_finite (dp (rt_verified r)) \<or> \<not> list_all nonneg (rate_numbers r @ tokens u)
              \<or> \<not> list_all whole (tokens u) \<or> amount (us_output u) < amount (us_reasoning u)) ''Invalid rates or usage''
            (let inp = (if rt_includes_cache r then amount (us_input u) - amount (us_cache_read u) - amount (us_cache_write u)
                  else amount (us_input u))
             in guard_err (inp < 0) ''Invalid cached input usage''
                  (Inr (Some ((inp * amount (rt_input r) + amount (us_output u) * amount (rt_output r)
                    + amount (us_cache_read u) * amount (rt_cache_read r)
                    + amount (us_cache_write u) * amount (rt_cache_write r)) / 1000000))))
      | _ \<Rightarrow> Inr None))"

section \<open>Validity (validateLedger)\<close>

definition rate_ok :: "(string \<Rightarrow> num) \<Rightarrow> token_rate \<Rightarrow> bool" where
  "rate_ok dp r \<longleftrightarrow> rt_provider r \<noteq> [] \<and> rt_model r \<noteq> [] \<and> is_finite (dp (rt_verified r)) \<and> list_all nonneg (rate_numbers r)"

definition rates_ok :: "(string \<Rightarrow> num) \<Rightarrow> token_rate list \<Rightarrow> bool" where
  "rates_ok dp rs \<longleftrightarrow> rs \<noteq> [] \<and> length (uniq (map (\<lambda>r. rt_provider r @ '':'' @ rt_model r) rs)) = length rs \<and> list_all (rate_ok dp) rs"

definition step_ok :: "num \<Rightarrow> bool" where
  "step_ok n \<longleftrightarrow> whole n \<and> 1 \<le> amount n \<and> amount n \<le> 16"

definition call_shape :: "call_usage \<Rightarrow> bool" where
  "call_shape c \<longleftrightarrow> step_ok (cu_step c) \<and> cu_status c \<in> {''completed'', ''incomplete'', ''error''}
     \<and> cu_provider c \<noteq> [] \<and> cu_model c \<noteq> []"

fun check_calls :: "(string \<Rightarrow> num) \<Rightarrow> ledger \<Rightarrow> (string \<times> num) list \<Rightarrow> ledger_call list \<Rightarrow> unit result" where
  "check_calls dp l seen [] = Inr ()"
| "check_calls dp l seen (k # ks) = (let c = lc_call k in
     guard_err ((cu_run c, cu_step c) \<in> set seen \<or> \<not> list_ex (\<lambda>p. lp_run p = cu_run c) (lg_prompts l) \<or> \<not> call_shape c)
       ''Invalid ledger call''
     (bind_result (callCost dp l c) (\<lambda>cost. guard_err (lc_cost k \<noteq> cost) ''Invalid ledger call''
       (check_calls dp l ((cu_run c, cu_step c) # seen) ks))))"

definition run_calls :: "ledger \<Rightarrow> string \<Rightarrow> ledger_call list" where
  "run_calls l r = filter (\<lambda>k. cu_run (lc_call k) = r) (lg_calls l)"

definition known_cost :: "ledger_call list \<Rightarrow> real" where
  "known_cost ks = sum_list (map (\<lambda>k. nullish (lc_cost k) 0) ks)"

definition in_steps :: "ledger_call list \<Rightarrow> bool" where
  "in_steps ks \<longleftrightarrow> list_all (\<lambda>(i, k). cu_step (lc_call k) = Fin (real (i + 1))) (enumerate 0 ks)"

definition final_status :: "bool \<Rightarrow> string" where
  "final_status completed = (if completed then ''completed'' else ''failed'')"

definition manual_ok :: "(string \<Rightarrow> num) \<Rightarrow> ledger_call list \<Rightarrow> ledger_prompt \<Rightarrow> num \<times> string \<times> string \<Rightarrow> bool" where
  "manual_ok dp ks p m = (case m of (cost, reason, time) \<Rightarrow> lp_settled p \<and> \<not> lp_completed p \<and> lp_status p = Some ''failed''
     \<and> is_finite cost \<and> known_cost ks \<le> amount cost \<and> not_blank reason \<and> is_finite (dp time) \<and> lp_cost p = finite_val cost)"

definition settled_ok :: "ledger_call list \<Rightarrow> ledger_prompt \<Rightarrow> bool" where
  "settled_ok ks p \<longleftrightarrow> ks \<noteq> [] \<and> list_all (\<lambda>k. lc_cost k \<noteq> None) ks \<and> lp_cost p = Some (known_cost ks) \<and> in_steps ks
     \<and> (lp_completed p \<longrightarrow> list_all (\<lambda>k. cu_status (lc_call k) = ''completed'') ks)
     \<and> (lp_status p = None \<or> lp_status p = Some (final_status (lp_completed p)))"

fun check_prompts :: "(string \<Rightarrow> num) \<Rightarrow> ledger \<Rightarrow> ledger_prompt list \<Rightarrow> unit result" where
  "check_prompts dp l [] = Inr ()"
| "check_prompts dp l (p # ps) = (let ks = run_calls l (lp_run p) in case lp_manual p of
      Some m \<Rightarrow> guard_err (\<not> manual_ok dp ks p m) ''Invalid manual settlement'' (check_prompts dp l ps)
    | None \<Rightarrow> guard_err (lp_settled p \<and> \<not> settled_ok ks p) ''Invalid prompt settlement'' (check_prompts dp l ps))"

definition validateLedger :: "(string \<Rightarrow> num) \<Rightarrow> ledger \<Rightarrow> unit result" where
  "validateLedger dp l = guard_err (\<not> rates_ok dp (lg_rates l)) ''Verified rates required''
     (guard_err (length (uniq (map lp_run (lg_prompts l))) \<noteq> length (lg_prompts l)) ''Duplicate ledger prompt''
       (bind_result (check_calls dp l [] (lg_calls l)) (\<lambda>_. check_prompts dp l (lg_prompts l))))"

section \<open>Spending\<close>

definition prompt_spend :: "ledger \<Rightarrow> ledger_prompt \<Rightarrow> real" where
  "prompt_spend l p = max (case lp_manual p of Some (c, _) \<Rightarrow> amount c | None \<Rightarrow> 0) (known_cost (run_calls l (lp_run p)))"

definition spentUSD :: "ledger \<Rightarrow> real" where
  "spentUSD l = sum_list (map (prompt_spend l) (lg_prompts l))"

definition next_estimate :: "ledger \<Rightarrow> real" where
  "next_estimate l =
    (let measured = sort_by (\<le>) (List.map_filter (\<lambda>p. if lp_completed p \<and> lp_settled p then lp_cost p else None) (lg_prompts l))
     in if measured = [] then 6 / 10 else measured ! nat (\<lceil>real (length measured) * 95 / 100\<rceil> - 1))"

definition canStartPrompt :: "(string \<Rightarrow> num) \<Rightarrow> ledger \<Rightarrow> num \<Rightarrow> bool" where
  "canStartPrompt dp l cap \<longleftrightarrow> validateLedger dp l = Inr () \<and> nonneg cap \<and> list_all lp_settled (lg_prompts l)
     \<and> spentUSD l + next_estimate l \<le> amount cap"

section \<open>Operations\<close>

definition beginPrompt :: "ledger \<Rightarrow> string \<Rightarrow> string \<Rightarrow> ledger result" where
  "beginPrompt l run pid = guard_err (list_ex (\<lambda>p. \<not> lp_settled p \<or> lp_run p = run) (lg_prompts l)) ''Unsettled or duplicate prompt''
     (Inr (l\<lparr>lg_prompts := lg_prompts l @ [\<lparr>lp_run = run, lp_prompt = Some pid, lp_settled = False, lp_completed = False,
        lp_status = None, lp_cost = None, lp_manual = None\<rparr>]\<rparr>))"

definition recordUsage :: "(string \<Rightarrow> num) \<Rightarrow> ledger \<Rightarrow> call_usage \<Rightarrow> ledger result" where
  "recordUsage dp l c = guard_err (\<not> list_ex (\<lambda>p. lp_run p = cu_run c \<and> \<not> lp_settled p) (lg_prompts l) \<or> \<not> call_shape c)
     ''Invalid usage correlation''
     (case find (\<lambda>k. cu_run (lc_call k) = cu_run c \<and> cu_step (lc_call k) = cu_step c) (lg_calls l) of
        Some k \<Rightarrow> guard_err (lc_call k \<noteq> c) ''Conflicting usage correlation'' (Inr l)
      | None \<Rightarrow> bind_result (callCost dp l c) (\<lambda>cost. Inr (l\<lparr>lg_calls := lg_calls l @ [\<lparr>lc_call = c, lc_cost = cost\<rparr>]\<rparr>)))"

text \<open>The first prompt with a property, changed in place.\<close>

fun update_first :: "('a \<Rightarrow> bool) \<Rightarrow> ('a \<Rightarrow> 'a) \<Rightarrow> 'a list \<Rightarrow> 'a list" where
  "update_first P f [] = []"
| "update_first P f (x # xs) = (if P x then f x # xs else x # update_first P f xs)"

definition settled_prompt :: "ledger_call list \<Rightarrow> bool \<Rightarrow> bool \<Rightarrow> ledger_prompt \<Rightarrow> ledger_prompt" where
  "settled_prompt ks finished definitive p =
    (let priced = (ks \<noteq> [] \<and> list_all (\<lambda>k. lc_cost k \<noteq> None) ks);
         completed = (finished \<and> priced \<and> in_steps ks \<and> list_all (\<lambda>k. cu_status (lc_call k) = ''completed'') ks);
         settled = (definitive \<and> priced \<and> in_steps ks)
     in p\<lparr>lp_cost := (if priced then Some (known_cost ks) else None), lp_completed := completed, lp_settled := settled,
          lp_status := (if settled then Some (final_status completed) else lp_status p)\<rparr>)"

definition settlePrompt :: "ledger \<Rightarrow> string \<Rightarrow> bool \<Rightarrow> bool \<Rightarrow> ledger result" where
  "settlePrompt l run finished definitive = guard_err (\<not> list_ex (\<lambda>p. lp_run p = run) (lg_prompts l)) ''Unknown prompt''
     (Inr (l\<lparr>lg_prompts := update_first (\<lambda>p. lp_run p = run) (settled_prompt (run_calls l run) finished definitive) (lg_prompts l)\<rparr>))"

definition open_match :: "string \<Rightarrow> ledger_prompt \<Rightarrow> bool" where
  "open_match pid p \<longleftrightarrow> \<not> lp_settled p \<and> (lp_run p = pid \<or> lp_prompt p = Some pid)"

definition manualSettlement :: "(string \<Rightarrow> num) \<Rightarrow> string \<Rightarrow> ledger \<Rightarrow> string \<Rightarrow> num \<Rightarrow> string \<Rightarrow> ledger result" where
  "manualSettlement dp now l pid cost reason = bind_result (validateLedger dp l) (\<lambda>_.
     (case filter (open_match pid) (lg_prompts l) of
        [p] \<Rightarrow> guard_err (\<not> is_finite cost \<or> \<not> not_blank reason \<or> 1000 < js_length reason) ''Invalid manual settlement''
          (guard_err (amount cost < known_cost (run_calls l (lp_run p))) ''Settlement cannot remove spend''
            (let l' = l\<lparr>lg_prompts := update_first (open_match pid) (\<lambda>p. p\<lparr>lp_manual := Some (cost, reason, now),
                  lp_cost := finite_val cost, lp_completed := False, lp_settled := True, lp_status := Some ''failed''\<rparr>) (lg_prompts l)\<rparr>
             in bind_result (validateLedger dp l') (\<lambda>_. Inr l')))
      | _ \<Rightarrow> Inl ''Invalid manual settlement''))"

section \<open>Validity as a conjunction\<close>

definition call_key :: "ledger_call \<Rightarrow> string \<times> num" where
  "call_key k = (cu_run (lc_call k), cu_step (lc_call k))"

definition call_ok :: "(string \<Rightarrow> num) \<Rightarrow> ledger \<Rightarrow> ledger_call \<Rightarrow> bool" where
  "call_ok dp l k \<longleftrightarrow> (\<exists>p \<in> set (lg_prompts l). lp_run p = cu_run (lc_call k)) \<and> call_shape (lc_call k)
     \<and> callCost dp l (lc_call k) = Inr (lc_cost k)"

definition prompt_ok :: "(string \<Rightarrow> num) \<Rightarrow> ledger \<Rightarrow> ledger_prompt \<Rightarrow> bool" where
  "prompt_ok dp l p \<longleftrightarrow> (case lp_manual p of Some m \<Rightarrow> manual_ok dp (run_calls l (lp_run p)) p m
     | None \<Rightarrow> lp_settled p \<longrightarrow> settled_ok (run_calls l (lp_run p)) p)"

lemma check_calls_iff:
  "check_calls dp l seen ks = Inr () \<longleftrightarrow> distinct (map call_key ks) \<and> call_key ` set ks \<inter> set seen = {} \<and> (\<forall>k \<in> set ks. call_ok dp l k)"
proof (induction ks arbitrary: seen)
  case (Cons k ks)
  show ?case
    by (auto simp: Let_def bind_result_Inr Cons.IH call_ok_def call_key_def list_ex_iff)
qed simp

lemma check_prompts_iff: "check_prompts dp l ps = Inr () \<longleftrightarrow> (\<forall>p \<in> set ps. prompt_ok dp l p)"
  by (induction ps) (auto simp: Let_def prompt_ok_def split: option.splits)

lemma uniq_length: "length (uniq xs) = length xs \<longleftrightarrow> distinct xs"
  by (metis card_distinct distinct_card distinct_uniq set_uniq uniq_distinct)

lemma valid_iff:
  "validateLedger dp l = Inr () \<longleftrightarrow> rates_ok dp (lg_rates l) \<and> distinct (map lp_run (lg_prompts l))
     \<and> distinct (map call_key (lg_calls l)) \<and> (\<forall>k \<in> set (lg_calls l). call_ok dp l k) \<and> (\<forall>p \<in> set (lg_prompts l). prompt_ok dp l p)"
  using uniq_length [of "map lp_run (lg_prompts l)"]
  by (auto simp: validateLedger_def bind_result_Inr check_calls_iff check_prompts_iff)

lemma callCost_rates:
  assumes "lg_rates l = lg_rates l'"
  shows "callCost dp l c = callCost dp l' c"
  unfolding callCost_def assms ..

lemma callCost_nonneg: "callCost dp l c = Inr (Some x) \<Longrightarrow> 0 \<le> x"
proof -
  assume a: "callCost dp l c = Inr (Some x)"
  obtain u where u: "cu_usage c = Some u" using a by (cases "cu_usage c") (auto simp: callCost_def)
  obtain r where r: "filter (\<lambda>r. rt_provider r = cu_provider c \<and> rt_model r = cu_model c) (lg_rates l) = [r]"
    using a by (auto simp: callCost_def u split: list.splits)
  define inp where "inp = (if rt_includes_cache r then amount (us_input u) - amount (us_cache_read u) - amount (us_cache_write u) else amount (us_input u))"
  have n: "list_all nonneg (rate_numbers r @ tokens u)" "\<not> inp < 0"
    and x: "x = (inp * amount (rt_input r) + amount (us_output u) * amount (rt_output r)
         + amount (us_cache_read u) * amount (rt_cache_read r) + amount (us_cache_write u) * amount (rt_cache_write r)) / 1000000"
    using a by (simp_all add: callCost_def u r Let_def inp_def [symmetric])
  have amt: "0 \<le> amount n" if "nonneg n" for n using that by (cases n) (auto simp: nonneg_def amount_def)
  show ?thesis using n by (auto simp: x rate_numbers_def tokens_def intro!: divide_nonneg_nonneg add_nonneg_nonneg mult_nonneg_nonneg amt)
qed

lemma known_cost_nonneg:
  assumes "\<And>k. k \<in> set ks \<Longrightarrow> call_ok dp l k"
  shows "0 \<le> known_cost ks"
proof -
  have "0 \<le> nullish (lc_cost k) 0" if k: "k \<in> set ks" for k
  proof (cases "lc_cost k")
    case (Some x)
    then show ?thesis using assms [OF k] callCost_nonneg [of dp l "lc_call k" x] by (simp add: call_ok_def nullish_def)
  qed (simp add: nullish_def)
  then show ?thesis unfolding known_cost_def by (intro sum_list_nonneg) auto
qed

section \<open>The ledger in use\<close>

text \<open>
  A step of the evaluation: an operation that did not throw. A prompt is settled while it is
  open. Operations that throw leave the ledger as it was.
\<close>

inductive ledger_step :: "(string \<Rightarrow> num) \<Rightarrow> ledger \<Rightarrow> ledger \<Rightarrow> bool" for dp where
  begin_step: "beginPrompt l run pid = Inr l' \<Longrightarrow> ledger_step dp l l'"
| record_step: "recordUsage dp l c = Inr l' \<Longrightarrow> ledger_step dp l l'"
| settle_step: "settlePrompt l run finished definitive = Inr l' \<Longrightarrow> p \<in> set (lg_prompts l) \<Longrightarrow> lp_run p = run \<Longrightarrow> \<not> lp_settled p
    \<Longrightarrow> ledger_step dp l l'"
| manual_step: "manualSettlement dp now l pid cost reason = Inr l' \<Longrightarrow> ledger_step dp l l'"

definition open_prompts :: "ledger \<Rightarrow> ledger_prompt list" where
  "open_prompts l = filter (\<lambda>p. \<not> lp_settled p) (lg_prompts l)"

definition ledger_inv :: "(string \<Rightarrow> num) \<Rightarrow> ledger \<Rightarrow> bool" where
  "ledger_inv dp l \<longleftrightarrow> validateLedger dp l = Inr () \<and> length (open_prompts l) \<le> 1"

lemma run_calls_other: "(\<forall>k \<in> set (lg_calls l). cu_run (lc_call k) \<noteq> r) \<Longrightarrow> run_calls l r = []"
  by (simp add: run_calls_def filter_empty_conv)

lemma inv_facts:
  assumes "ledger_inv dp l"
  shows "rates_ok dp (lg_rates l)" "distinct (map lp_run (lg_prompts l))" "distinct (map call_key (lg_calls l))"
    "\<And>k. k \<in> set (lg_calls l) \<Longrightarrow> call_ok dp l k" "\<And>p. p \<in> set (lg_prompts l) \<Longrightarrow> prompt_ok dp l p"
    "length (open_prompts l) \<le> 1"
  using assms by (simp_all add: ledger_inv_def valid_iff)

lemma open_has_no_manual:
  assumes "ledger_inv dp l" "p \<in> set (lg_prompts l)" "\<not> lp_settled p"
  shows "lp_manual p = None"
  using inv_facts(5) [OF assms(1,2)] assms(3) by (auto simp: prompt_ok_def manual_ok_def split: option.splits)

lemma prompt_ok_calls: "run_calls l' (lp_run p) = run_calls l (lp_run p) \<Longrightarrow> prompt_ok dp l' p = prompt_ok dp l p"
  unfolding prompt_ok_def by (simp only:)

lemma run_calls_nonneg: "ledger_inv dp l \<Longrightarrow> 0 \<le> known_cost (run_calls l r)"
  by (rule known_cost_nonneg [of _ dp l]) (auto simp: run_calls_def dest: inv_facts(4))

lemma begin_keeps:
  assumes "beginPrompt l run pid = Inr l'" "ledger_inv dp l"
  shows "ledger_inv dp l' \<and> spentUSD l \<le> spentUSD l'"
proof -
  let ?p = "\<lparr>lp_run = run, lp_prompt = Some pid, lp_settled = False, lp_completed = False, lp_status = None, lp_cost = None, lp_manual = None\<rparr>"
  have l': "l' = l\<lparr>lg_prompts := lg_prompts l @ [?p]\<rparr>" and none: "\<forall>p \<in> set (lg_prompts l). lp_settled p \<and> lp_run p \<noteq> run"
    using assms(1) by (auto simp: beginPrompt_def list_ex_iff)
  note v = inv_facts [OF assms(2)]
  have rc: "run_calls l' r = run_calls l r" for r by (simp add: l' run_calls_def)
  have "\<forall>k \<in> set (lg_calls l). cu_run (lc_call k) \<noteq> run" using v(4) none by (force simp: call_ok_def)
  then have no: "run_calls l run = []" by (rule run_calls_other)
  have "call_ok dp l' k" if k: "k \<in> set (lg_calls l)" for k
    using v(4) [OF k] callCost_rates [of l' l] by (auto simp: call_ok_def l')
  moreover have "prompt_ok dp l' p = prompt_ok dp l p" for p by (rule prompt_ok_calls [OF rc])
  moreover have "prompt_ok dp l ?p" by (simp add: prompt_ok_def)
  moreover have "open_prompts l' = [?p]" using none by (simp add: open_prompts_def l' filter_empty_conv)
  ultimately have "ledger_inv dp l'" using v none by (auto simp: ledger_inv_def valid_iff l')
  moreover have "prompt_spend l' = prompt_spend l" by (simp add: prompt_spend_def rc fun_eq_iff)
  then have "spentUSD l' = spentUSD l" by (simp add: spentUSD_def l' prompt_spend_def no known_cost_def)
  ultimately show ?thesis by simp
qed

lemma record_keeps:
  assumes "recordUsage dp l c = Inr l'" "ledger_inv dp l"
  shows "ledger_inv dp l' \<and> spentUSD l \<le> spentUSD l'"
proof (cases "find (\<lambda>k. cu_run (lc_call k) = cu_run c \<and> cu_step (lc_call k) = cu_step c) (lg_calls l)")
  case (Some k)
  then have "l' = l" using assms(1) by (auto simp: recordUsage_def)
  then show ?thesis using assms(2) by simp
next
  case None
  note v = inv_facts [OF assms(2)]
  obtain p where p: "p \<in> set (lg_prompts l)" "lp_run p = cu_run c" "\<not> lp_settled p" and shape: "call_shape c"
    using assms(1) by (auto simp: recordUsage_def list_ex_iff)
  obtain cost where cost: "callCost dp l c = Inr cost" and l': "l' = l\<lparr>lg_calls := lg_calls l @ [\<lparr>lc_call = c, lc_cost = cost\<rparr>]\<rparr>"
    using assms(1) None p shape by (auto simp: recordUsage_def bind_result_Inr list_ex_iff)
  have cc: "callCost dp l' = callCost dp l" using callCost_rates [of l' l] by (auto simp: l')
  have rc: "run_calls l' r = run_calls l r @ (if r = cu_run c then [\<lparr>lc_call = c, lc_cost = cost\<rparr>] else [])" for r
    by (simp add: l' run_calls_def)
  have "call_ok dp l' k" if "k \<in> set (lg_calls l')" for k
    using that v(4) p shape cost by (auto simp: call_ok_def cc) (auto simp: l' call_ok_def)
  moreover have "call_key ` set (lg_calls l) \<inter> {call_key \<lparr>lc_call = c, lc_cost = cost\<rparr>} = {}"
    using None by (auto simp: find_None_iff call_key_def)
  moreover have "prompt_ok dp l' q" if q: "q \<in> set (lg_prompts l)" for q
  proof (cases "lp_run q = cu_run c")
    case True
    then have "q = p" using p q v(2) by (metis eq_key_imp_eq_value distinct_map inj_onD)
    then show ?thesis using open_has_no_manual [OF assms(2) p(1,3)] p(3) by (simp add: prompt_ok_def)
  qed (use v(5) [OF q] rc prompt_ok_calls [of l' q l dp] in simp)
  ultimately have "ledger_inv dp l'" using v by (auto simp: ledger_inv_def valid_iff l' open_prompts_def)
  moreover have "0 \<le> nullish cost 0" using callCost_nonneg cost by (cases cost) (auto simp: nullish_def)
  then have "prompt_spend l q \<le> prompt_spend l' q" for q
    unfolding prompt_spend_def by (intro max.mono order_refl) (simp add: rc known_cost_def)
  then have "spentUSD l \<le> spentUSD l'" by (simp add: spentUSD_def l' sum_list_mono)
  ultimately show ?thesis by blast
qed

lemma update_first_single:
  "length (filter P xs) \<le> 1 \<Longrightarrow> update_first P f xs = map (\<lambda>x. if P x then f x else x) xs"
  by (induction xs) (auto simp: filter_empty_conv intro!: map_idI [symmetric])

lemma one_of_distinct: "distinct (map g xs) \<Longrightarrow> length (filter (\<lambda>x. g x = v) xs) \<le> 1"
  by (induction xs) (auto simp: filter_empty_conv image_iff)

lemma fewer_kept: "(\<And>x. x \<in> set xs \<Longrightarrow> Q (h x) \<Longrightarrow> Q x) \<Longrightarrow> length (filter (Q \<circ> h) xs) \<le> length (filter Q xs)"
  by (induction xs) (auto intro: le_SucI)

text \<open>Both settlements rewrite one open prompt: what is left to show of each is what it does to that prompt.\<close>

lemma rewrite_keeps:
  assumes "ledger_inv dp l" and l': "l' = l\<lparr>lg_prompts := map h (lg_prompts l)\<rparr>"
    and run: "\<And>q. lp_run (h q) = lp_run q"
    and ok: "\<And>q. q \<in> set (lg_prompts l) \<Longrightarrow> prompt_ok dp l (h q)"
    and settled: "\<And>q. q \<in> set (lg_prompts l) \<Longrightarrow> lp_settled q \<Longrightarrow> lp_settled (h q)"
    and spend: "\<And>q. q \<in> set (lg_prompts l) \<Longrightarrow> prompt_spend l q \<le> prompt_spend l (h q)"
  shows "ledger_inv dp l' \<and> spentUSD l \<le> spentUSD l'"
proof -
  note v = inv_facts [OF assms(1)]
  have rc: "run_calls l' r = run_calls l r" for r by (simp add: l' run_calls_def)
  have "call_ok dp l' k" if k: "k \<in> set (lg_calls l)" for k
    using v(4) [OF k] callCost_rates [of l' l] by (auto simp: call_ok_def l' run)
  moreover have "prompt_ok dp l' q = prompt_ok dp l q" for q by (rule prompt_ok_calls [OF rc])
  moreover have "length (open_prompts l') \<le> length (open_prompts l)"
    unfolding open_prompts_def l' using settled by (simp add: filter_map) (blast intro: fewer_kept)
  ultimately have "ledger_inv dp l'" using v ok by (auto simp: ledger_inv_def valid_iff l' run comp_def)
  moreover have "prompt_spend l' = prompt_spend l" by (simp add: prompt_spend_def rc fun_eq_iff)
  then have "spentUSD l \<le> spentUSD l'" using spend by (simp add: spentUSD_def l' comp_def sum_list_mono)
  ultimately show ?thesis by blast
qed

lemma settled_prompt_ok:
  "lp_manual p = None \<Longrightarrow> prompt_ok dp l (settled_prompt (run_calls l (lp_run p)) finished definitive p)"
  by (auto simp: prompt_ok_def settled_prompt_def settled_ok_def Let_def)

lemma settled_prompt_keeps [simp]:
  "lp_run (settled_prompt ks finished definitive p) = lp_run p" "lp_manual (settled_prompt ks finished definitive p) = lp_manual p"
  by (simp_all add: settled_prompt_def Let_def)

lemma settle_keeps:
  assumes "settlePrompt l run finished definitive = Inr l'" "ledger_inv dp l"
    and p: "p \<in> set (lg_prompts l)" "lp_run p = run" "\<not> lp_settled p"
  shows "ledger_inv dp l' \<and> spentUSD l \<le> spentUSD l'"
proof -
  note v = inv_facts [OF assms(2)]
  define h where "h q = (if lp_run q = run then settled_prompt (run_calls l run) finished definitive q else q)" for q
  have "l' = l\<lparr>lg_prompts := map h (lg_prompts l)\<rparr>"
    using assms(1) by (auto simp: settlePrompt_def h_def [abs_def] update_first_single [OF one_of_distinct [OF v(2)]])
  moreover have same: "q = p" if "q \<in> set (lg_prompts l)" "lp_run q = run" for q
    using that p v(2) by (metis distinct_map inj_onD)
  ultimately show ?thesis
  proof (rule_tac rewrite_keeps [OF assms(2)])
    fix q assume q: "q \<in> set (lg_prompts l)"
    show "prompt_ok dp l (h q)" using v(5) [OF q] same [OF q] open_has_no_manual [OF assms(2) p(1,3)] p(2)
      by (auto simp: h_def intro: settled_prompt_ok)
    show "lp_settled (h q)" if "lp_settled q" using that same [OF q] p(3) by (auto simp: h_def)
    show "prompt_spend l q \<le> prompt_spend l (h q)" by (simp add: h_def prompt_spend_def)
  qed (simp_all add: h_def)
qed

lemma manual_keeps:
  assumes "manualSettlement dp now l pid cost reason = Inr l'" "ledger_inv dp l"
  shows "ledger_inv dp l' \<and> spentUSD l \<le> spentUSD l'"
proof -
  note v = inv_facts [OF assms(2)]
  define f :: "ledger_prompt \<Rightarrow> ledger_prompt" where "f q = q\<lparr>lp_manual := Some (cost, reason, now), lp_cost := finite_val cost, lp_completed := False,
    lp_settled := True, lp_status := Some ''failed''\<rparr>" for q
  define h where "h q = (if open_match pid q then f q else q)" for q
  have "length (filter (open_match pid) (lg_prompts l)) = 1"
    using assms(1) unfolding manualSettlement_def bind_result_Inr
    by (cases "filter (open_match pid) (lg_prompts l)" rule: remdups_adj.cases) simp_all
  then obtain p where p: "filter (open_match pid) (lg_prompts l) = [p]" by (auto simp: length_Suc_conv)
  have enough: "known_cost (run_calls l (lp_run p)) \<le> amount cost" and valid: "validateLedger dp l' = Inr ()"
    and l': "l' = l\<lparr>lg_prompts := update_first (open_match pid) f (lg_prompts l)\<rparr>"
    using assms(1) unfolding manualSettlement_def bind_result_Inr by (simp_all add: p Let_def f_def [abs_def] bind_result_Inr) auto
  have l'': "l' = l\<lparr>lg_prompts := map h (lg_prompts l)\<rparr>" using p by (simp add: l' h_def [abs_def] update_first_single)
  have same: "q = p" if "q \<in> set (lg_prompts l)" "open_match pid q" for q
  proof -
    have "q \<in> set (filter (open_match pid) (lg_prompts l))" using that by simp
    then show ?thesis by (simp add: p)
  qed
  have rc: "run_calls l' r = run_calls l r" for r by (simp add: l' run_calls_def)
  show ?thesis
  proof (rule rewrite_keeps [OF assms(2) l''])
    fix q assume q: "q \<in> set (lg_prompts l)"
    have "prompt_ok dp l' (h q)" using valid q by (auto simp: valid_iff l'')
    then show "prompt_ok dp l (h q)" by (simp only: prompt_ok_calls [OF rc])
    show "lp_settled (h q)" if "lp_settled q" using that by (simp add: h_def f_def)
    show "prompt_spend l q \<le> prompt_spend l (h q)"
    proof (cases "open_match pid q")
      case True
      have "lp_manual q = None" using open_has_no_manual [OF assms(2) q] True by (simp add: open_match_def)
      then show ?thesis using True same [OF q True] enough run_calls_nonneg [OF assms(2), of "lp_run q"]
        by (simp add: h_def f_def prompt_spend_def)
    qed (simp add: h_def)
  qed (simp add: h_def f_def)
qed

lemma step_keeps: "ledger_step dp l l' \<Longrightarrow> ledger_inv dp l \<Longrightarrow> ledger_inv dp l' \<and> spentUSD l \<le> spentUSD l'"
  by (erule ledger_step.cases) (simp_all add: begin_keeps record_keeps settle_keeps manual_keeps)

inductive ledger_run :: "(string \<Rightarrow> num) \<Rightarrow> ledger \<Rightarrow> ledger \<Rightarrow> bool" for dp l where
  at_start: "ledger_run dp l l"
| and_then: "ledger_run dp l l' \<Longrightarrow> ledger_step dp l' l'' \<Longrightarrow> ledger_run dp l l''"

lemma ledger_inv_run: "ledger_run dp l l' \<Longrightarrow> ledger_inv dp l \<Longrightarrow> ledger_inv dp l' \<and> spentUSD l \<le> spentUSD l'"
proof (induction rule: ledger_run.induct)
  case (and_then l' l'')
  then show ?case using step_keeps [of dp l' l''] by (meson order_trans)
qed simp

lemma run_trans: "ledger_run dp b c \<Longrightarrow> ledger_run dp a b \<Longrightarrow> ledger_run dp a c"
  by (induction rule: ledger_run.induct) (auto intro: and_then)

lemma run_step: "ledger_step dp a b \<Longrightarrow> ledger_run dp a b"
  by (rule and_then [OF at_start])

lemma begin_opens: "beginPrompt l run pid = Inr l' \<Longrightarrow> \<exists>p \<in> set (lg_prompts l'). lp_run p = run \<and> \<not> lp_settled p"
  by (auto simp: beginPrompt_def)

lemma record_keeps_prompts: "recordUsage dp l c = Inr l' \<Longrightarrow> lg_prompts l' = lg_prompts l"
  by (auto simp: recordUsage_def bind_result_Inr split: option.splits)

text \<open>The entries of one request: its prompt is begun, its call recorded, and it may be settled.\<close>

lemma recorded_run:
  assumes "beginPrompt l run pid = Inr l1" "recordUsage dp l1 c = Inr l2"
  shows "ledger_run dp l l2"
  by (rule and_then [OF run_step [OF begin_step [OF assms(1)]] record_step [OF assms(2)]])

lemma settled_run:
  assumes "beginPrompt l run pid = Inr l1" "recordUsage dp l1 c = Inr l2" "settlePrompt l2 run finished definitive = Inr l3"
  shows "ledger_run dp l l3"
proof -
  obtain p where "p \<in> set (lg_prompts l2)" "lp_run p = run" "\<not> lp_settled p"
    using begin_opens [OF assms(1)] record_keeps_prompts [OF assms(2)] by auto
  from and_then [OF recorded_run [OF assms(1,2)] settle_step [OF assms(3) this]] show ?thesis .
qed


definition sample_rate :: token_rate where
  "sample_rate = \<lparr>rt_provider = ''anthropic'', rt_model = ''m'', rt_verified = ''2026-01-01'', rt_includes_cache = True,
     rt_input = Fin 3, rt_output = Fin 15, rt_cache_read = Fin 1, rt_cache_write = Fin 4\<rparr>"

definition sample_call :: call_usage where
  "sample_call = \<lparr>cu_run = ''r1'', cu_step = Fin 1, cu_provider = ''anthropic'', cu_model = ''m'', cu_status = ''completed'',
     cu_usage = Some \<lparr>us_input = Fin 1000, us_output = Fin 200, us_cache_read = Fin 400, us_cache_write = Fin 100, us_reasoning = Fin 50\<rparr>\<rparr>"

definition sample_ledger :: "ledger_call list \<Rightarrow> ledger_prompt list \<Rightarrow> ledger" where
  "sample_ledger ks ps = \<lparr>lg_rates = [sample_rate], lg_calls = ks, lg_prompts = ps\<rparr>"

definition sample_prompt :: "bool \<Rightarrow> string option \<Rightarrow> real option \<Rightarrow> ledger_prompt" where
  "sample_prompt done_ok st cost = \<lparr>lp_run = ''r1'', lp_prompt = Some ''p1'', lp_settled = done_ok, lp_completed = done_ok,
     lp_status = st, lp_cost = cost, lp_manual = None\<rparr>"

lemma sample_cost: "lg_rates l = [sample_rate] \<Longrightarrow> callCost (\<lambda>_. Fin 0) l sample_call = Inr (Some (53 / 10000))"
  by (simp add: callCost_def sample_call_def sample_rate_def rate_numbers_def tokens_def nonneg_def whole_def amount_def Let_def)

lemma sample_begin: "beginPrompt (sample_ledger [] []) ''r1'' ''p1'' = Inr (sample_ledger [] [sample_prompt False None None])"
  by (simp add: beginPrompt_def sample_ledger_def sample_prompt_def)

lemma sample_record:
  "recordUsage (\<lambda>_. Fin 0) (sample_ledger [] [sample_prompt False None None]) sample_call
     = Inr (sample_ledger [\<lparr>lc_call = sample_call, lc_cost = Some (53 / 10000)\<rparr>] [sample_prompt False None None])"
  by (simp add: recordUsage_def sample_cost sample_ledger_def)
     (simp add: sample_prompt_def sample_call_def call_shape_def step_ok_def whole_def amount_def)

lemma sample_settle:
  "settlePrompt (sample_ledger [\<lparr>lc_call = sample_call, lc_cost = Some (53 / 10000)\<rparr>] [sample_prompt False None None]) ''r1'' True True
     = Inr (sample_ledger [\<lparr>lc_call = sample_call, lc_cost = Some (53 / 10000)\<rparr>]
              [sample_prompt True (Some ''completed'') (Some (53 / 10000))])"
  by (simp add: settlePrompt_def sample_ledger_def sample_prompt_def run_calls_def sample_call_def settled_prompt_def
      in_steps_def known_cost_def nullish_def final_status_def Let_def, rule exI [of _ "53 / 10000"], simp)

lemma sample_valid: "validateLedger (\<lambda>_. Fin 0) (sample_ledger [] []) = Inr ()"
  by (simp add: validateLedger_def sample_ledger_def sample_rate_def rates_ok_def rate_ok_def rate_numbers_def nonneg_def)


end
