(* ===== verification/Mcp_Connection.thy ===== *)
theory Mcp_Connection
  imports Sessions
begin

text \<open>
  The MCP connection that the embedded views of a chat share (\<open>ui/host/src/mcp-app-frame.tsx\<close>): one
  connection for all frames, counted, closed when no frame uses it and replaced when it dies. The
  code between two awaits is one step; the steps of different loads interleave in any order. A
  connection is named by its place in the list of all that were opened, a load of a frame by its
  place in the list of all loads. Then the reconnects of a frame, the cache of view resources, the
  policy put into a view and what a view may ask of its host.
\<close>

section \<open>State\<close>

text \<open>
  A connection is being opened, is open (its promise resolved), was noted by the callback that
  makes it the shared one, or was refused.
\<close>

datatype conn_phase = Opening | Opened | Noted | Refused

record mcp_conn =
  mc_phase :: conn_phase
  mc_refs :: nat
  mc_closed :: bool
  mc_timer :: bool
  mc_idle :: bool
  mc_listeners :: "nat list"

text \<open>
  A load waits for a connection (attempt and connection), has been given one it has not seen yet,
  holds one, leaves one (its view is being torn down), or is over.
\<close>

datatype load_phase = Trying nat nat | Given nat | Holding nat | Leaving nat | Over

record mcp_load =
  ml_phase :: load_phase
  ml_disposed :: bool

record mcp_shared =
  ms_conns :: "mcp_conn list"
  ms_promise :: "nat option"
  ms_current :: "nat option"
  ms_loads :: "mcp_load list"

definition maxConnectionAcquireAttempts :: nat where "maxConnectionAcquireAttempts = 3"

definition no_connection :: mcp_shared where
  "no_connection = \<lparr>ms_conns = [], ms_promise = None, ms_current = None, ms_loads = []\<rparr>"

definition new_conn :: mcp_conn where
  "new_conn = \<lparr>mc_phase = Opening, mc_refs = 0, mc_closed = False, mc_timer = False, mc_idle = False, mc_listeners = []\<rparr>"

definition conn_update :: "nat \<Rightarrow> (mcp_conn \<Rightarrow> mcp_conn) \<Rightarrow> mcp_shared \<Rightarrow> mcp_shared" where
  "conn_update c f s = s\<lparr>ms_conns := (ms_conns s)[c := f (ms_conns s ! c)]\<rparr>"

definition load_update :: "nat \<Rightarrow> load_phase \<Rightarrow> mcp_shared \<Rightarrow> mcp_shared" where
  "load_update l p s = s\<lparr>ms_loads := (ms_loads s)[l := (ms_loads s ! l)\<lparr>ml_phase := p\<rparr>]\<rparr>"

section \<open>Acquiring\<close>

text \<open>A turn of the loop: wait for the shared connection, opening one when there is none.\<close>

definition acquire_turn :: "nat \<Rightarrow> nat \<Rightarrow> mcp_shared \<Rightarrow> mcp_shared" where
  "acquire_turn attempt l s =
    (if maxConnectionAcquireAttempts \<le> attempt then load_update l Over s
     else (case ms_promise s of
         Some c \<Rightarrow> load_update l (Trying attempt c) s
       | None \<Rightarrow> load_update l (Trying attempt (length (ms_conns s)))
           (s\<lparr>ms_conns := ms_conns s @ [new_conn], ms_promise := Some (length (ms_conns s))\<rparr>)))"

definition start_load :: "mcp_shared \<Rightarrow> mcp_shared" where
  "start_load s = acquire_turn 0 (length (ms_loads s)) (s\<lparr>ms_loads := ms_loads s @ [\<lparr>ml_phase = Over, ml_disposed = False\<rparr>]\<rparr>)"

text \<open>After the await: a closed connection is forgotten and the loop goes on, a live one is counted.\<close>

definition resume_load :: "nat \<Rightarrow> nat \<Rightarrow> nat \<Rightarrow> mcp_shared \<Rightarrow> mcp_shared" where
  "resume_load l attempt c s =
    (if mc_phase (ms_conns s ! c) = Refused then load_update l Over s
     else if mc_closed (ms_conns s ! c)
       then acquire_turn (attempt + 1) l (if ms_promise s = Some c then s\<lparr>ms_promise := None\<rparr> else s)
     else load_update l (Given c) (conn_update c (\<lambda>k. k\<lparr>mc_timer := False, mc_refs := mc_refs k + 1\<rparr>) s))"

section \<open>Releasing and closing\<close>

definition releaseBrowserMCPConnection :: "nat \<Rightarrow> mcp_shared \<Rightarrow> mcp_shared" where
  "releaseBrowserMCPConnection c = conn_update c (\<lambda>k. let k' = k\<lparr>mc_refs := mc_refs k - 1\<rparr>
     in if mc_closed k' \<or> mc_refs k' \<noteq> 0 \<or> mc_timer k' then k' else k'\<lparr>mc_timer := True\<rparr>)"

definition close_timer :: "nat \<Rightarrow> mcp_shared \<Rightarrow> mcp_shared" where
  "close_timer c s =
    (let s1 = conn_update c (\<lambda>k. k\<lparr>mc_timer := False\<rparr>) s
     in if mc_refs (ms_conns s ! c) \<noteq> 0 \<or> ms_current s \<noteq> Some c then s1
        else conn_update c (\<lambda>k. k\<lparr>mc_closed := True, mc_idle := True\<rparr>) (s1\<lparr>ms_current := None, ms_promise := None\<rparr>))"

definition invalidateBrowserMCPConnection :: "nat \<Rightarrow> mcp_shared \<Rightarrow> mcp_shared" where
  "invalidateBrowserMCPConnection c s =
    (if mc_closed (ms_conns s ! c) then s
     else (conn_update c (\<lambda>k. k\<lparr>mc_closed := True, mc_timer := False\<rparr>) s)
       \<lparr>ms_current := (if ms_current s = Some c then None else ms_current s), ms_promise := None\<rparr>)"

text \<open>The listeners an invalidation calls: the reconnects of the frames that hold it.\<close>

definition invalidated_listeners :: "nat \<Rightarrow> mcp_shared \<Rightarrow> nat list" where
  "invalidated_listeners c s = (if mc_closed (ms_conns s ! c) then [] else mc_listeners (ms_conns s ! c))"

section \<open>The steps\<close>

text \<open>The load sees what it was given: a disposed one gives it back at once.\<close>

definition receive_load :: "nat \<Rightarrow> nat \<Rightarrow> mcp_shared \<Rightarrow> mcp_shared" where
  "receive_load l c s = (if ml_disposed (ms_loads s ! l) then load_update l Over (releaseBrowserMCPConnection c s)
     else load_update l (Holding c) (conn_update c (\<lambda>k. k\<lparr>mc_listeners := mc_listeners k @ [l]\<rparr>) s))"

text \<open>The cleanup of the effect: the release follows when the view is torn down.\<close>

definition dispose_load :: "nat \<Rightarrow> mcp_shared \<Rightarrow> mcp_shared" where
  "dispose_load l s =
    (let s1 = s\<lparr>ms_loads := (ms_loads s)[l := (ms_loads s ! l)\<lparr>ml_disposed := True\<rparr>]\<rparr>
     in case ml_phase (ms_loads s ! l) of
          Holding c \<Rightarrow> load_update l (Leaving c) (conn_update c (\<lambda>k. k\<lparr>mc_listeners := filter (\<lambda>x. x \<noteq> l) (mc_listeners k)\<rparr>) s1)
        | _ \<Rightarrow> s1)"

datatype mcp_event =
    StartLoad
  | ConnOpened nat
  | ConnNoted nat
  | ConnRefused nat
  | RefusalNoted nat
  | ResumeLoad nat
  | ReceiveLoad nat
  | DisposeLoad nat
  | TornDown nat
  | TimerFired nat
  | ConnDied nat

definition is_load :: "mcp_shared \<Rightarrow> nat \<Rightarrow> load_phase option" where
  "is_load s l = map_option ml_phase (nth_opt (ms_loads s) l)"

definition conn_at :: "mcp_shared \<Rightarrow> nat \<Rightarrow> conn_phase option" where
  "conn_at s c = map_option mc_phase (nth_opt (ms_conns s) c)"

definition mcp_step :: "mcp_shared \<Rightarrow> mcp_event \<Rightarrow> mcp_shared" where
  "mcp_step s e = (case e of
      StartLoad \<Rightarrow> start_load s
    | ConnOpened c \<Rightarrow> if conn_at s c = Some Opening then conn_update c (\<lambda>k. k\<lparr>mc_phase := Opened\<rparr>) s else s
    | ConnNoted c \<Rightarrow> if conn_at s c = Some Opened
        then (conn_update c (\<lambda>k. k\<lparr>mc_phase := Noted\<rparr>) s)
          \<lparr>ms_current := (if ms_promise s = Some c \<and> \<not> mc_closed (ms_conns s ! c) then Some c else ms_current s)\<rparr>
        else s
    | ConnRefused c \<Rightarrow> if conn_at s c = Some Opening then conn_update c (\<lambda>k. k\<lparr>mc_phase := Refused\<rparr>) s else s
    | RefusalNoted c \<Rightarrow> if conn_at s c = Some Refused \<and> ms_promise s = Some c then s\<lparr>ms_promise := None\<rparr> else s
    | ResumeLoad l \<Rightarrow> (case is_load s l of
          Some (Trying n c) \<Rightarrow> if conn_at s c = Some Noted \<or> conn_at s c = Some Refused then resume_load l n c s else s
        | _ \<Rightarrow> s)
    | ReceiveLoad l \<Rightarrow> (case is_load s l of Some (Given c) \<Rightarrow> receive_load l c s | _ \<Rightarrow> s)
    | DisposeLoad l \<Rightarrow> if is_load s l = None then s else dispose_load l s
    | TornDown l \<Rightarrow> (case is_load s l of Some (Leaving c) \<Rightarrow> load_update l Over (releaseBrowserMCPConnection c s) | _ \<Rightarrow> s)
    | TimerFired c \<Rightarrow> (case nth_opt (ms_conns s) c of Some k \<Rightarrow> if mc_timer k then close_timer c s else s | None \<Rightarrow> s)
    | ConnDied c \<Rightarrow> if conn_at s c = Some Opened \<or> conn_at s c = Some Noted then invalidateBrowserMCPConnection c s else s)"

section \<open>The invariant\<close>

definition uses :: "nat \<Rightarrow> mcp_load \<Rightarrow> bool" where
  "uses c k \<longleftrightarrow> ml_phase k \<in> {Given c, Holding c, Leaving c}"

definition users :: "mcp_shared \<Rightarrow> nat \<Rightarrow> nat" where
  "users s c = length (filter (uses c) (ms_loads s))"

definition live :: "mcp_conn \<Rightarrow> bool" where
  "live k \<longleftrightarrow> mc_phase k \<noteq> Refused \<and> \<not> mc_closed k"

definition shared_live :: "mcp_conn \<Rightarrow> bool" where
  "shared_live k \<longleftrightarrow> mc_phase k = Noted \<and> \<not> mc_closed k"

definition phase_ok :: "nat \<Rightarrow> load_phase \<Rightarrow> bool" where
  "phase_ok n p \<longleftrightarrow> (case p of
      Trying i c \<Rightarrow> i < maxConnectionAcquireAttempts \<and> c < n
    | Given c \<Rightarrow> c < n | Holding c \<Rightarrow> c < n | Leaving c \<Rightarrow> c < n | Over \<Rightarrow> True)"

definition mcp_ok :: "mcp_shared \<Rightarrow> bool" where
  "mcp_ok s \<longleftrightarrow> (\<forall>c < length (ms_conns s). let k = ms_conns s ! c in
        (live k \<longrightarrow> ms_promise s = Some c) \<and> mc_refs k = users s c \<and> (mc_idle k \<longrightarrow> mc_closed k \<and> mc_refs k = 0))
     \<and> (\<forall>c. ms_promise s = Some c \<longrightarrow> c < length (ms_conns s))
     \<and> (\<forall>c. ms_current s = Some c \<longrightarrow> c < length (ms_conns s) \<and> shared_live (ms_conns s ! c))
     \<and> list_all (\<lambda>k. phase_ok (length (ms_conns s)) (ml_phase k)) (ms_loads s)"

section \<open>Preservation\<close>

lemma mcp_okI:
  assumes "\<And>c. c < length (ms_conns s) \<Longrightarrow> live (ms_conns s ! c) \<Longrightarrow> ms_promise s = Some c"
    and "\<And>c. c < length (ms_conns s) \<Longrightarrow> mc_refs (ms_conns s ! c) = users s c"
    and "\<And>c. c < length (ms_conns s) \<Longrightarrow> mc_idle (ms_conns s ! c) \<Longrightarrow> mc_closed (ms_conns s ! c) \<and> mc_refs (ms_conns s ! c) = 0"
    and "\<And>c. ms_promise s = Some c \<Longrightarrow> c < length (ms_conns s)"
    and "\<And>c. ms_current s = Some c \<Longrightarrow> c < length (ms_conns s) \<and> shared_live (ms_conns s ! c)"
    and "\<And>k. k \<in> set (ms_loads s) \<Longrightarrow> phase_ok (length (ms_conns s)) (ml_phase k)"
  shows "mcp_ok s"
  unfolding mcp_ok_def Let_def list_all_iff using assms by blast

lemma mcp_okD:
  assumes "mcp_ok s"
  shows "c < length (ms_conns s) \<Longrightarrow> live (ms_conns s ! c) \<Longrightarrow> ms_promise s = Some c"
    "c < length (ms_conns s) \<Longrightarrow> mc_refs (ms_conns s ! c) = users s c"
    "c < length (ms_conns s) \<Longrightarrow> mc_idle (ms_conns s ! c) \<Longrightarrow> mc_closed (ms_conns s ! c) \<and> mc_refs (ms_conns s ! c) = 0"
    "ms_promise s = Some c \<Longrightarrow> c < length (ms_conns s)"
    "ms_current s = Some c \<Longrightarrow> c < length (ms_conns s) \<and> shared_live (ms_conns s ! c)"
    "k \<in> set (ms_loads s) \<Longrightarrow> phase_ok (length (ms_conns s)) (ml_phase k)"
  using assms unfolding mcp_ok_def Let_def list_all_iff by blast+

lemma filter_update:
  "i < length xs \<Longrightarrow> length (filter P (xs[i := x])) + of_bool (P (xs ! i)) = length (filter P xs) + of_bool (P x)"
proof (induction xs arbitrary: i)
  case (Cons y ys)
  then show ?case by (cases i) (auto simp: add.commute add.left_commute)
qed simp

lemma users_load_update:
  "l < length (ms_loads s) \<Longrightarrow> users (load_update l p s) c + of_bool (uses c (ms_loads s ! l))
     = users s c + of_bool (p \<in> {Given c, Holding c, Leaving c})"
  using filter_update [of l "ms_loads s" "uses c" "(ms_loads s ! l)\<lparr>ml_phase := p\<rparr>"]
  by (simp add: users_def load_update_def uses_def [of c "(ms_loads s ! l)\<lparr>ml_phase := p\<rparr>"])

lemma load_update_conns [simp]:
  "ms_conns (load_update l p s) = ms_conns s" "ms_promise (load_update l p s) = ms_promise s"
  "ms_current (load_update l p s) = ms_current s" "length (ms_loads (load_update l p s)) = length (ms_loads s)"
  by (simp_all add: load_update_def)

lemma conn_update_loads [simp]:
  "ms_loads (conn_update c f s) = ms_loads s" "ms_promise (conn_update c f s) = ms_promise s"
  "ms_current (conn_update c f s) = ms_current s" "length (ms_conns (conn_update c f s)) = length (ms_conns s)"
  by (simp_all add: conn_update_def)

lemma users_cong: "ms_loads s = ms_loads s' \<Longrightarrow> users s c = users s' c"
  by (simp add: users_def)

lemma phases_after:
  assumes "\<And>k. k \<in> set (ms_loads s) \<Longrightarrow> phase_ok n (ml_phase k)" "phase_ok n p" "k \<in> set (ms_loads (load_update l p s))"
  shows "phase_ok n (ml_phase k)"
proof -
  have "k \<in> set (ms_loads s) \<or> k = (ms_loads s ! l)\<lparr>ml_phase := p\<rparr>"
    using assms(3) by (auto simp: load_update_def dest: set_update_subset_insert [THEN subsetD])
  with assms(1,2) show ?thesis by auto
qed

lemma conns_after: "c < length (ms_conns s) \<Longrightarrow> ms_conns (conn_update d f s) ! c = (if c = d then f (ms_conns s ! c) else ms_conns s ! c)"
  by (simp add: conn_update_def)

lemma shared_liveD: "shared_live k \<Longrightarrow> live k"
  by (simp add: live_def shared_live_def)

text \<open>A change of a connection that keeps its count and does not revive it.\<close>

lemma conn_update_ok:
  assumes "mcp_ok s" "c < length (ms_conns s)" "k = ms_conns s ! c"
    and "live (f k) \<longrightarrow> live k" "mc_refs (f k) = mc_refs k" "mc_idle (f k) \<longrightarrow> mc_closed (f k) \<and> mc_refs (f k) = 0"
    and "ms_current s = Some c \<longrightarrow> shared_live (f k)"
  shows "mcp_ok (conn_update c f s)"
proof (rule mcp_okI)
  note ok = mcp_okD [OF assms(1)]
  fix d assume "d < length (ms_conns (conn_update c f s))"
  then have d: "d < length (ms_conns s)" by simp
  show "ms_promise (conn_update c f s) = Some d" if "live (ms_conns (conn_update c f s) ! d)"
    using that ok(1) [OF d] assms(3,4) by (simp add: conns_after [OF d] split: if_splits)
  show "mc_refs (ms_conns (conn_update c f s) ! d) = users (conn_update c f s) d"
    using ok(2) [OF d] assms(3,5) users_cong [of "conn_update c f s" s d] by (auto simp: conns_after [OF d])
  show "mc_closed (ms_conns (conn_update c f s) ! d) \<and> mc_refs (ms_conns (conn_update c f s) ! d) = 0"
    if "mc_idle (ms_conns (conn_update c f s) ! d)"
    using that ok(3) [OF d] assms(3,6) by (simp add: conns_after [OF d] split: if_splits)
next
  note ok = mcp_okD [OF assms(1)]
  show "d < length (ms_conns (conn_update c f s))" if "ms_promise (conn_update c f s) = Some d" for d using that ok(4) by simp
  show "d < length (ms_conns (conn_update c f s)) \<and> shared_live (ms_conns (conn_update c f s) ! d)"
    if "ms_current (conn_update c f s) = Some d" for d
    using that ok(5) [of d] assms(3,7) by (auto simp: conns_after)
  show "phase_ok (length (ms_conns (conn_update c f s))) (ml_phase k)" if "k \<in> set (ms_loads (conn_update c f s))" for k
    using that ok(6) by simp
qed

text \<open>A load that goes on: the connections count it as before.\<close>

lemma load_moves_ok:
  assumes "mcp_ok s" "l < length (ms_loads s)" "phase_ok (length (ms_conns s)) p"
    and "\<And>c. uses c (ms_loads s ! l) \<longleftrightarrow> p \<in> {Given c, Holding c, Leaving c}"
  shows "mcp_ok (load_update l p s)"
proof (rule mcp_okI)
  note ok = mcp_okD [OF assms(1)]
  fix c assume c: "c < length (ms_conns (load_update l p s))"
  show "mc_refs (ms_conns (load_update l p s) ! c) = users (load_update l p s) c"
    using c ok(2) [of c] users_load_update [OF assms(2), of p c] assms(4) [of c] by simp
next
  note ok = mcp_okD [OF assms(1)]
  show "phase_ok (length (ms_conns (load_update l p s))) (ml_phase k)" if "k \<in> set (ms_loads (load_update l p s))" for k
    using phases_after [OF ok(6) assms(3) that] by simp
next
  fix c
  show "ms_promise (load_update l p s) = Some c"
    if "c < length (ms_conns (load_update l p s))" "live (ms_conns (load_update l p s) ! c)"
    using mcp_okD(1) [OF assms(1)] that by simp
  show "mc_closed (ms_conns (load_update l p s) ! c) \<and> mc_refs (ms_conns (load_update l p s) ! c) = 0"
    if "c < length (ms_conns (load_update l p s))" "mc_idle (ms_conns (load_update l p s) ! c)"
    using mcp_okD(3) [OF assms(1)] that by simp
  show "c < length (ms_conns (load_update l p s))" if "ms_promise (load_update l p s) = Some c"
    using mcp_okD(4) [OF assms(1)] that by simp
  show "c < length (ms_conns (load_update l p s)) \<and> shared_live (ms_conns (load_update l p s) ! c)" if "ms_current (load_update l p s) = Some c"
    using mcp_okD(5) [OF assms(1)] that by simp
qed

text \<open>A load that is given a connection, and one that gives it back.\<close>

lemma gain_ok:
  assumes "mcp_ok s" "l < length (ms_loads s)" "\<And>d. \<not> uses d (ms_loads s ! l)" "c < length (ms_conns s)" "\<not> mc_closed (ms_conns s ! c)"
  shows "mcp_ok (load_update l (Given c) (conn_update c (\<lambda>k. k\<lparr>mc_timer := False, mc_refs := mc_refs k + 1\<rparr>) s))"
    (is "mcp_ok (load_update l (Given c) ?s)")
proof (rule mcp_okI)
  note ok = mcp_okD [OF assms(1)]
  fix d assume d: "d < length (ms_conns (load_update l (Given c) ?s))"
  show "mc_refs (ms_conns (load_update l (Given c) ?s) ! d) = users (load_update l (Given c) ?s) d"
    using d ok(2) [of d] users_load_update [of l ?s "Given c" d] users_cong [of ?s s d] assms(2,3)
    by (auto simp: conns_after)
next
  note ok = mcp_okD [OF assms(1)]
  have "phase_ok (length (ms_conns s)) (Given c)" using assms(4) by (simp add: phase_ok_def)
  then show "phase_ok (length (ms_conns (load_update l (Given c) ?s))) (ml_phase k)"
    if "k \<in> set (ms_loads (load_update l (Given c) ?s))" for k
    using phases_after [of ?s "length (ms_conns s)" "Given c" k l] ok(6) that by simp
next
  let ?t = "load_update l (Given c) ?s"
  fix d
  show "ms_promise ?t = Some d" if "d < length (ms_conns ?t)" "live (ms_conns ?t ! d)"
    using mcp_okD(1) [OF assms(1), of d] that by (cases "d = c") (simp_all add: conns_after live_def shared_live_def)
  show "mc_closed (ms_conns ?t ! d) \<and> mc_refs (ms_conns ?t ! d) = 0" if "d < length (ms_conns ?t)" "mc_idle (ms_conns ?t ! d)"
    using mcp_okD(3) [OF assms(1), of d] that assms(5) by (cases "d = c") (simp_all add: conns_after)
  show "d < length (ms_conns ?t)" if "ms_promise ?t = Some d"
    using mcp_okD(4) [OF assms(1)] that by simp
  show "d < length (ms_conns ?t) \<and> shared_live (ms_conns ?t ! d)" if "ms_current ?t = Some d"
    using mcp_okD(5) [OF assms(1), of d] that by (cases "d = c") (simp_all add: conns_after live_def shared_live_def)
qed

lemma lose_ok:
  assumes "mcp_ok s" "l < length (ms_loads s)" "uses c (ms_loads s ! l)"
  shows "mcp_ok (load_update l Over (releaseBrowserMCPConnection c s))" (is "mcp_ok (load_update l Over ?s)")
proof -
  note ok = mcp_okD [OF assms(1)]
  have only: "uses d (ms_loads s ! l) \<longleftrightarrow> d = c" for d using assms(3) by (auto simp: uses_def)
  have c: "c < length (ms_conns s)" using assms ok(6) [of "ms_loads s ! l"] by (auto simp: uses_def phase_ok_def)
  have users: "users s d = users (load_update l Over ?s) d + of_bool (d = c)" for d
    using users_load_update [of l ?s Over d] users_cong [of ?s s d] assms(2) only [of d] by (simp add: releaseBrowserMCPConnection_def)
  then have pos: "0 < mc_refs (ms_conns s ! c)" using ok(2) [OF c] by simp
  have after: "ms_conns ?s ! d = (if d = c then let k = (ms_conns s ! c)\<lparr>mc_refs := mc_refs (ms_conns s ! c) - 1\<rparr>
      in if mc_closed k \<or> mc_refs k \<noteq> 0 \<or> mc_timer k then k else k\<lparr>mc_timer := True\<rparr> else ms_conns s ! d)" if "d < length (ms_conns s)" for d
    using conns_after [OF that] by (simp add: releaseBrowserMCPConnection_def Let_def)
  have parts [simp]: "ms_promise ?s = ms_promise s" "ms_current ?s = ms_current s" "length (ms_conns ?s) = length (ms_conns s)"
      "ms_loads ?s = ms_loads s"
    by (simp_all add: releaseBrowserMCPConnection_def)
  show ?thesis
  proof (rule mcp_okI)
    fix d assume "d < length (ms_conns (load_update l Over ?s))"
    then have d: "d < length (ms_conns s)" by simp
    show "mc_refs (ms_conns (load_update l Over ?s) ! d) = users (load_update l Over ?s) d"
      using ok(2) [OF d] users [of d] using d by (cases "d = c") (auto simp: after Let_def)
    show "ms_promise (load_update l Over ?s) = Some d" if "live (ms_conns (load_update l Over ?s) ! d)"
      using that ok(1) [OF d] by (auto simp: after [OF d] Let_def live_def shared_live_def split: if_splits)
    show "mc_closed (ms_conns (load_update l Over ?s) ! d) \<and> mc_refs (ms_conns (load_update l Over ?s) ! d) = 0"
      if "mc_idle (ms_conns (load_update l Over ?s) ! d)"
      using that ok(3) [OF d] pos by (auto simp: after [OF d] Let_def split: if_splits)
  next
    show "d < length (ms_conns (load_update l Over ?s)) \<and> shared_live (ms_conns (load_update l Over ?s) ! d)"
      if "ms_current (load_update l Over ?s) = Some d" for d
      using that ok(5) [of d] by (auto simp: after Let_def live_def shared_live_def)
    show "phase_ok (length (ms_conns (load_update l Over ?s))) (ml_phase k)"
      if "k \<in> set (ms_loads (load_update l Over ?s))" for k
      using phases_after [of ?s "length (ms_conns s)" Over k l] ok(6) that by (simp add: phase_ok_def)
  qed (use ok(4) in simp)
qed

lemma users_phases: "users s c = length (filter (\<lambda>p. p \<in> {Given c, Holding c, Leaving c}) (map ml_phase (ms_loads s)))"
  by (simp add: users_def uses_def [abs_def] filter_map comp_def)

text \<open>Only the phases of the loads count.\<close>

lemma loads_ok:
  assumes "mcp_ok s" "filter (\<lambda>p. p \<noteq> Over) (map ml_phase ls) = filter (\<lambda>p. p \<noteq> Over) (map ml_phase (ms_loads s))"
  shows "mcp_ok (s\<lparr>ms_loads := ls\<rparr>)"
proof -
  note ok = mcp_okD [OF assms(1)]
  have part: "filter (\<lambda>p. p \<in> {Given c, Holding c, Leaving c}) ps
      = filter (\<lambda>p. p \<in> {Given c, Holding c, Leaving c}) (filter (\<lambda>p. p \<noteq> Over) ps)" for c ps
    by (auto intro: filter_cong)
  have ls: "ms_loads (s\<lparr>ms_loads := ls\<rparr>) = ls" by simp
  have users: "users (s\<lparr>ms_loads := ls\<rparr>) c = users s c" for c
    unfolding users_phases ls using part [of c "map ml_phase ls"] part [of c "map ml_phase (ms_loads s)"] assms(2) by metis
  have phases: "phase_ok (length (ms_conns s)) (ml_phase k)" if k: "k \<in> set ls" for k
  proof (cases "ml_phase k = Over")
    case False
    with k have "ml_phase k \<in> set (filter (\<lambda>p. p \<noteq> Over) (map ml_phase (ms_loads s)))"
      unfolding assms(2) [symmetric] by auto
    then show ?thesis using ok(6) by auto
  qed (simp add: phase_ok_def)
  have parts: "ms_conns (s\<lparr>ms_loads := ls\<rparr>) = ms_conns s" "ms_promise (s\<lparr>ms_loads := ls\<rparr>) = ms_promise s" "ms_current (s\<lparr>ms_loads := ls\<rparr>) = ms_current s" "ms_loads (s\<lparr>ms_loads := ls\<rparr>) = ls"
    by simp_all
  show ?thesis
  proof (rule mcp_okI, simp_all only: parts users)
    fix c
    show "ms_promise s = Some c" if "c < length (ms_conns s)" "live (ms_conns s ! c)" using ok(1) [OF that] .
    show "mc_refs (ms_conns s ! c) = users s c" if "c < length (ms_conns s)" using ok(2) [OF that] .
    show "mc_closed (ms_conns s ! c) \<and> mc_refs (ms_conns s ! c) = 0" if "c < length (ms_conns s)" "mc_idle (ms_conns s ! c)"
      using ok(3) [OF that] .
    show "c < length (ms_conns s)" if "ms_promise s = Some c" using ok(4) [OF that] .
    show "c < length (ms_conns s) \<and> shared_live (ms_conns s ! c)" if "ms_current s = Some c" using ok(5) [OF that] .
  qed (rule phases)
qed

lemma new_conn_simps [simp]:
  "mc_refs new_conn = 0" "\<not> mc_idle new_conn" "\<not> mc_closed new_conn" "mc_phase new_conn = Opening"
  by (simp_all add: new_conn_def)

lemma open_ok:
  assumes "mcp_ok s" "ms_promise s = None"
  shows "mcp_ok (s\<lparr>ms_conns := ms_conns s @ [new_conn], ms_promise := Some (length (ms_conns s))\<rparr>)"
proof (rule mcp_okI, simp_all)
  note ok = mcp_okD [OF assms(1)]
  have dead: "\<not> live (ms_conns s ! c)" if "c < length (ms_conns s)" for c using ok(1) [OF that] assms(2) by auto
  have none: "users s (length (ms_conns s)) = 0"
    using ok(6) by (force simp: users_def uses_def filter_empty_conv phase_ok_def)
  have users: "users (s\<lparr>ms_conns := ms_conns s @ [new_conn], ms_promise := Some (length (ms_conns s))\<rparr>) c = users s c" for c
    by (simp add: users_def)
  fix c
  show "length (ms_conns s) = c" if "c < Suc (length (ms_conns s))" "live ((ms_conns s @ [new_conn]) ! c)"
    using that dead by (auto simp: nth_append less_Suc_eq split: if_splits)
  show "mc_refs ((ms_conns s @ [new_conn]) ! c) = users (s\<lparr>ms_conns := ms_conns s @ [new_conn], ms_promise := Some (length (ms_conns s))\<rparr>) c"
    if "c < Suc (length (ms_conns s))"
    using that ok(2) [of c] none by (cases "c = length (ms_conns s)") (auto simp: users nth_append)
  show "mc_closed ((ms_conns s @ [new_conn]) ! c) \<and> mc_refs ((ms_conns s @ [new_conn]) ! c) = 0"
    if "c < Suc (length (ms_conns s))" "mc_idle ((ms_conns s @ [new_conn]) ! c)"
    using that ok(3) [of c] by (auto simp: nth_append less_Suc_eq split: if_splits)
  show "c < Suc (length (ms_conns s)) \<and> shared_live ((ms_conns s @ [new_conn]) ! c)" if "ms_current s = Some c"
    using ok(5) [OF that] dead by (auto dest: shared_liveD)
  show "phase_ok (Suc (length (ms_conns s))) (ml_phase k)" if "k \<in> set (ms_loads s)" for k
    using ok(6) [OF that] by (auto simp: phase_ok_def split: load_phase.splits)
qed

lemma acquire_ok:
  assumes "mcp_ok s" "l < length (ms_loads s)" "\<And>c. \<not> uses c (ms_loads s ! l)"
  shows "mcp_ok (acquire_turn n l s)"
proof (cases "ms_promise s")
  case None
  have "mcp_ok (load_update l (Trying n (length (ms_conns s)))
      (s\<lparr>ms_conns := ms_conns s @ [new_conn], ms_promise := Some (length (ms_conns s))\<rparr>))" if "n < maxConnectionAcquireAttempts"
    by (rule load_moves_ok [OF open_ok [OF assms(1) None]]) (use assms(2,3) that in \<open>simp_all add: phase_ok_def\<close>)
  moreover have "mcp_ok (load_update l Over s)"
    by (rule load_moves_ok [OF assms(1)]) (use assms(2,3) in \<open>simp_all add: phase_ok_def\<close>)
  ultimately show ?thesis by (simp add: acquire_turn_def None)
next
  case (Some c)
  have "mcp_ok (load_update l p s)" if "p = Over \<or> p = Trying n c \<and> n < maxConnectionAcquireAttempts" for p
    by (rule load_moves_ok [OF assms(1)]) (use assms(2,3) mcp_okD(4) [OF assms(1) Some] that in \<open>auto simp: phase_ok_def\<close>)
  then show ?thesis by (simp add: acquire_turn_def Some)
qed

lemma forget_ok:
  assumes "mcp_ok s" "c < length (ms_conns s)" "\<not> live (ms_conns s ! c)" "ms_promise s = Some c"
  shows "mcp_ok (s\<lparr>ms_promise := None\<rparr>)"
proof (rule mcp_okI, simp_all)
  note ok = mcp_okD [OF assms(1)]
  fix d
  have dead: "\<not> live (ms_conns s ! e)" if "e < length (ms_conns s)" for e using ok(1) [OF that] assms(3,4) by auto
  show False if "d < length (ms_conns s)" "live (ms_conns s ! d)" using dead that by simp
  show "mc_refs (ms_conns s ! d) = users (s\<lparr>ms_promise := None\<rparr>) d" if "d < length (ms_conns s)"
    using ok(2) [OF that] by (simp add: users_def)
  show "mc_closed (ms_conns s ! d) \<and> mc_refs (ms_conns s ! d) = 0" if "d < length (ms_conns s)" "mc_idle (ms_conns s ! d)"
    using ok(3) [OF that] .
  show "d < length (ms_conns s) \<and> shared_live (ms_conns s ! d)" if "ms_current s = Some d" using ok(5) [OF that] .
  show "phase_ok (length (ms_conns s)) (ml_phase k)" if "k \<in> set (ms_loads s)" for k using ok(6) [OF that] .
qed

lemma current_ok:
  assumes "mcp_ok s" "\<forall>c. d = Some c \<longrightarrow> c < length (ms_conns s) \<and> shared_live (ms_conns s ! c)"
  shows "mcp_ok (s\<lparr>ms_current := d\<rparr>)"
proof -
  have users: "users (s\<lparr>ms_current := d\<rparr>) c = users s c" for c by (simp add: users_def)
  have parts: "ms_conns (s\<lparr>ms_current := d\<rparr>) = ms_conns s" "ms_promise (s\<lparr>ms_current := d\<rparr>) = ms_promise s"
      "ms_loads (s\<lparr>ms_current := d\<rparr>) = ms_loads s" "ms_current (s\<lparr>ms_current := d\<rparr>) = d"
    by simp_all
  show ?thesis using assms unfolding mcp_ok_def parts users by blast
qed

text \<open>Closing the shared connection: no other is live.\<close>

lemma close_ok:
  assumes "mcp_ok s" "c < length (ms_conns s)" "live (ms_conns s ! c)"
    and f: "\<not> live (f (ms_conns s ! c))" "mc_refs (f (ms_conns s ! c)) = mc_refs (ms_conns s ! c)"
      "mc_idle (f (ms_conns s ! c)) \<longrightarrow> mc_closed (f (ms_conns s ! c)) \<and> mc_refs (ms_conns s ! c) = 0"
  shows "mcp_ok ((conn_update c f s)\<lparr>ms_current := (if ms_current s = Some c then None else ms_current s), ms_promise := None\<rparr>)"
proof -
  note ok = mcp_okD [OF assms(1)]
  have one: "ms_promise s = Some c" using ok(1) [OF assms(2,3)] .
  have current: "ms_current s = Some c \<or> ms_current s = None" using ok(1) ok(5) [THEN conjunct1] ok(5) [THEN conjunct2, THEN shared_liveD] one
    by (cases "ms_current s") fastforce+
  have "mcp_ok (conn_update c f (s\<lparr>ms_current := None\<rparr>))"
    by (rule conn_update_ok [OF current_ok [OF assms(1), of None]]) (use assms(2) f in auto)
  then have "mcp_ok ((conn_update c f (s\<lparr>ms_current := None\<rparr>))\<lparr>ms_promise := None\<rparr>)"
    by (rule forget_ok [where c = c]) (use assms(2) f(1) one in \<open>simp_all add: conns_after\<close>)
  moreover have "(conn_update c f (s\<lparr>ms_current := None\<rparr>))\<lparr>ms_promise := None\<rparr>
      = (conn_update c f s)\<lparr>ms_current := (if ms_current s = Some c then None else ms_current s), ms_promise := None\<rparr>"
    using current by (auto simp: conn_update_def)
  ultimately show ?thesis by simp
qed

lemma ok_load:
  assumes "mcp_ok s" "is_load s l = Some p"
  shows "l < length (ms_loads s)" "ml_phase (ms_loads s ! l) = p" "phase_ok (length (ms_conns s)) p"
    "uses c (ms_loads s ! l) \<longleftrightarrow> p \<in> {Given c, Holding c, Leaving c}"
proof -
  show l: "l < length (ms_loads s)" and p: "ml_phase (ms_loads s ! l) = p"
    using assms(2) by (auto simp: is_load_def nth_opt_def split: if_splits)
  show "phase_ok (length (ms_conns s)) p" using mcp_okD(6) [OF assms(1) nth_mem [OF l]] p by simp
  show "uses c (ms_loads s ! l) \<longleftrightarrow> p \<in> {Given c, Holding c, Leaving c}" using p by (simp add: uses_def)
qed

lemma conn_at_SomeD: "conn_at s c = Some p \<Longrightarrow> c < length (ms_conns s) \<and> mc_phase (ms_conns s ! c) = p"
  by (auto simp: conn_at_def nth_opt_def split: if_splits)

lemma start_load_ok:
  assumes "mcp_ok s"
  shows "mcp_ok (start_load s)"
  unfolding start_load_def
proof (rule acquire_ok)
  show "mcp_ok (s\<lparr>ms_loads := ms_loads s @ [\<lparr>ml_phase = Over, ml_disposed = False\<rparr>]\<rparr>)" by (rule loads_ok [OF assms]) simp
qed (simp_all add: uses_def)

lemma resume_load_ok:
  assumes "mcp_ok s" "is_load s l = Some (Trying n c)"
  shows "mcp_ok (resume_load l n c s)"
proof -
  note load = ok_load [OF assms]
  have c: "c < length (ms_conns s)" using load(3) by (simp add: phase_ok_def)
  have free: "\<not> uses d (ms_loads s ! l)" for d using load(4) by simp
  consider (refused) "mc_phase (ms_conns s ! c) = Refused" | (closed) "mc_phase (ms_conns s ! c) \<noteq> Refused" "mc_closed (ms_conns s ! c)"
    | (alive) "mc_phase (ms_conns s ! c) \<noteq> Refused" "\<not> mc_closed (ms_conns s ! c)"
    by blast
  then show ?thesis
  proof cases
    case refused
    then show ?thesis
      using load_moves_ok [OF assms(1) load(1), of Over] free by (simp add: resume_load_def phase_ok_def)
  next
    case closed
    then have "mcp_ok (if ms_promise s = Some c then s\<lparr>ms_promise := None\<rparr> else s)"
      using forget_ok [OF assms(1) c] assms(1) by (simp add: live_def shared_live_def)
    then have "mcp_ok (acquire_turn (n + 1) l (if ms_promise s = Some c then s\<lparr>ms_promise := None\<rparr> else s))"
      by (rule acquire_ok) (use load(1) free in auto)
    then show ?thesis using closed by (simp add: resume_load_def)
  next
    case alive
    then show ?thesis using gain_ok [OF assms(1) load(1) free c] by (simp add: resume_load_def)
  qed
qed

lemma receive_load_ok:
  assumes "mcp_ok s" "is_load s l = Some (Given c)"
  shows "mcp_ok (receive_load l c s)"
proof (cases "ml_disposed (ms_loads s ! l)")
  case True
  then show ?thesis using lose_ok [OF assms(1), of l c] ok_load [OF assms] by (simp add: receive_load_def)
next
  case False
  note load = ok_load [OF assms]
  have c: "c < length (ms_conns s)" using load(3) by (simp add: phase_ok_def)
  have "mcp_ok (conn_update c (\<lambda>k. k\<lparr>mc_listeners := mc_listeners k @ [l]\<rparr>) s)"
    using conn_update_ok [OF assms(1) c refl, of "\<lambda>k. k\<lparr>mc_listeners := mc_listeners k @ [l]\<rparr>"] mcp_okD(5) [OF assms(1), of c] mcp_okD(3) [OF assms(1) c] by (simp add: live_def shared_live_def)
  then have "mcp_ok (load_update l (Holding c) (conn_update c (\<lambda>k. k\<lparr>mc_listeners := mc_listeners k @ [l]\<rparr>) s))"
    by (rule load_moves_ok) (use load c in \<open>auto simp: phase_ok_def\<close>)
  then show ?thesis using False by (simp add: receive_load_def)
qed

lemma dispose_load_ok:
  assumes "mcp_ok s" "is_load s l = Some p"
  shows "mcp_ok (dispose_load l s)"
proof -
  define t where "t = s\<lparr>ms_loads := (ms_loads s)[l := (ms_loads s ! l)\<lparr>ml_disposed := True\<rparr>]\<rparr>"
  note load = ok_load [OF assms]
  have "map ml_phase ((ms_loads s)[l := (ms_loads s ! l)\<lparr>ml_disposed := True\<rparr>]) = map ml_phase (ms_loads s)"
    using load(1) by (simp add: map_update) (metis length_map list_update_id nth_map)
  then have ok: "mcp_ok t" unfolding t_def by (intro loads_ok [OF assms(1)]) simp
  have t: "ms_loads t ! l = (ms_loads s ! l)\<lparr>ml_disposed := True\<rparr>" "length (ms_loads t) = length (ms_loads s)" "ms_conns t = ms_conns s"
    using load(1) by (simp_all add: t_def)
  have "mcp_ok (load_update l (Leaving c) (conn_update c (\<lambda>k. k\<lparr>mc_listeners := filter (\<lambda>x. x \<noteq> l) (mc_listeners k)\<rparr>) t))"
    if p: "p = Holding c" for c
  proof (rule load_moves_ok)
    have c: "c < length (ms_conns t)" using load(3) p t by (simp add: phase_ok_def)
    show "mcp_ok (conn_update c (\<lambda>k. k\<lparr>mc_listeners := filter (\<lambda>x. x \<noteq> l) (mc_listeners k)\<rparr>) t)"
      using conn_update_ok [OF ok c refl, of "\<lambda>k. k\<lparr>mc_listeners := filter (\<lambda>x. x \<noteq> l) (mc_listeners k)\<rparr>"]
        mcp_okD(3,5) [OF ok, of c] c by (simp add: live_def shared_live_def)
  qed (use load p t in \<open>auto simp: phase_ok_def uses_def\<close>)
  with ok show ?thesis
    unfolding dispose_load_def Let_def load(2) t_def [symmetric] by (cases p) simp_all
qed

lemma close_timer_ok:
  assumes "mcp_ok s" "c < length (ms_conns s)"
  shows "mcp_ok (close_timer c s)"
proof -
  note ok = mcp_okD [OF assms(1)]
  define t where "t = conn_update c (\<lambda>k. k\<lparr>mc_timer := False\<rparr>) s"
  have t: "mcp_ok t" unfolding t_def
    using conn_update_ok [OF assms refl, of "\<lambda>k. k\<lparr>mc_timer := False\<rparr>"] ok(3,5) assms(2) by (simp add: live_def shared_live_def)
  have c: "c < length (ms_conns t)" "ms_current t = ms_current s" "mc_refs (ms_conns t ! c) = mc_refs (ms_conns s ! c)"
    using assms(2) by (simp_all add: t_def conns_after)
  have "mcp_ok (conn_update c (\<lambda>k. k\<lparr>mc_closed := True, mc_idle := True\<rparr>) (t\<lparr>ms_current := None, ms_promise := None\<rparr>))"
    if "mc_refs (ms_conns s ! c) = 0" "ms_current s = Some c"
  proof -
    have "live (ms_conns t ! c)" using mcp_okD(5) [OF t, of c] that(2) c(2) by (simp add: shared_liveD)
    then have "mcp_ok ((conn_update c (\<lambda>k. k\<lparr>mc_closed := True, mc_idle := True\<rparr>) t)
        \<lparr>ms_current := (if ms_current t = Some c then None else ms_current t), ms_promise := None\<rparr>)"
      by (rule close_ok [OF t c(1)]) (use that(1) c(3) in \<open>simp_all add: live_def\<close>)
    moreover have "conn_update c f (t\<lparr>ms_current := None, ms_promise := None\<rparr>) = (conn_update c f t)\<lparr>ms_current := None, ms_promise := None\<rparr>" for f
      by (simp add: conn_update_def)
    ultimately show ?thesis using that(2) c(2) by simp
  qed
  with t show ?thesis unfolding close_timer_def Let_def t_def [symmetric] by simp
qed

lemma invalidate_ok:
  assumes "mcp_ok s" "c < length (ms_conns s)" "mc_phase (ms_conns s ! c) \<noteq> Refused"
  shows "mcp_ok (invalidateBrowserMCPConnection c s)"
proof (cases "mc_closed (ms_conns s ! c)")
  case False
  then have "live (ms_conns s ! c)" using assms(3) by (simp add: live_def shared_live_def)
  then have "mcp_ok ((conn_update c (\<lambda>k. k\<lparr>mc_closed := True, mc_timer := False\<rparr>) s)
      \<lparr>ms_current := (if ms_current s = Some c then None else ms_current s), ms_promise := None\<rparr>)"
    by (rule close_ok [OF assms(1,2)]) (use mcp_okD(3) [OF assms(1,2)] in \<open>simp_all add: live_def\<close>)
  then show ?thesis using False by (simp add: invalidateBrowserMCPConnection_def)
qed (simp add: invalidateBrowserMCPConnection_def assms(1))

text \<open>A connection that is opened, noted or refused.\<close>

lemma phase_moves_ok:
  assumes "mcp_ok s" "conn_at s c = Some q" "q \<noteq> Refused" "q \<noteq> Noted"
  shows "mcp_ok (conn_update c (\<lambda>k. k\<lparr>mc_phase := p\<rparr>) s)"
proof -
  have c: "c < length (ms_conns s)" "mc_phase (ms_conns s ! c) = q" using conn_at_SomeD [OF assms(2)] by auto
  show ?thesis
    using conn_update_ok [OF assms(1) c(1) refl, of "\<lambda>k. k\<lparr>mc_phase := p\<rparr>"] mcp_okD(3,5) [OF assms(1), of c] c assms(3,4)
    by (auto simp: live_def shared_live_def)
qed

lemma conn_noted_ok:
  assumes "mcp_ok s" "conn_at s c = Some Opened"
  shows "mcp_ok ((conn_update c (\<lambda>k. k\<lparr>mc_phase := Noted\<rparr>) s)
    \<lparr>ms_current := (if ms_promise s = Some c \<and> \<not> mc_closed (ms_conns s ! c) then Some c else ms_current s)\<rparr>)"
proof (rule current_ok)
  note c = conn_at_SomeD [OF assms(2), THEN conjunct1]
  show ok: "mcp_ok (conn_update c (\<lambda>k. k\<lparr>mc_phase := Noted\<rparr>) s)" by (rule phase_moves_ok [OF assms]) simp_all
  show "\<forall>d. (if ms_promise s = Some c \<and> \<not> mc_closed (ms_conns s ! c) then Some c else ms_current s) = Some d \<longrightarrow>
      d < length (ms_conns (conn_update c (\<lambda>k. k\<lparr>mc_phase := Noted\<rparr>) s))
        \<and> shared_live (ms_conns (conn_update c (\<lambda>k. k\<lparr>mc_phase := Noted\<rparr>) s) ! d)"
    using mcp_okD(5) [OF ok] c by (auto simp: conns_after shared_live_def)
qed

lemma mcp_step_ok:
  assumes ok: "mcp_ok s"
  shows "mcp_ok (mcp_step s e)"
proof (cases e)
  case StartLoad
  then show ?thesis using start_load_ok [OF ok] by (simp add: mcp_step_def)
next
  case (ConnOpened c)
  then show ?thesis using ok phase_moves_ok [OF ok, of c Opening Opened] by (simp add: mcp_step_def)
next
  case (ConnNoted c)
  then show ?thesis using ok conn_noted_ok [OF ok, of c] by (simp add: mcp_step_def)
next
  case (ConnRefused c)
  then show ?thesis using ok phase_moves_ok [OF ok, of c Opening Refused] by (simp add: mcp_step_def)
next
  case (RefusalNoted c)
  then show ?thesis using ok forget_ok [OF ok, of c] conn_at_SomeD [of s c] by (auto simp: mcp_step_def live_def)
next
  case (ResumeLoad l)
  then show ?thesis using ok resume_load_ok [OF ok, of l] by (auto simp: mcp_step_def split: option.split load_phase.split)
next
  case (ReceiveLoad l)
  then show ?thesis using ok receive_load_ok [OF ok, of l] by (auto simp: mcp_step_def split: option.split load_phase.split)
next
  case (DisposeLoad l)
  then show ?thesis using ok dispose_load_ok [OF ok, of l] by (auto simp: mcp_step_def)
next
  case (TornDown l)
  have "mcp_ok (load_update l Over (releaseBrowserMCPConnection c s))" if "is_load s l = Some (Leaving c)" for c
    using lose_ok [OF ok] ok_load [OF ok that] by simp
  with TornDown show ?thesis using ok by (auto simp: mcp_step_def split: option.split load_phase.split)
next
  case (TimerFired c)
  then show ?thesis using ok close_timer_ok [OF ok, of c]
    by (auto simp: mcp_step_def nth_opt_def)
next
  case (ConnDied c)
  then show ?thesis using ok invalidate_ok [OF ok, of c] conn_at_SomeD [of s c] by (auto simp: mcp_step_def)
qed

interpretation mcp: event_machine mcp_step mcp_ok
  by unfold_locales (rule mcp_step_ok)

lemma no_connection_ok: "mcp_ok no_connection"
  by (simp add: mcp_ok_def no_connection_def)

definition mcp_run :: "mcp_event list \<Rightarrow> mcp_shared" where
  "mcp_run es = foldl mcp_step no_connection es"

lemma mcp_run_ok: "mcp_ok (mcp_run es)"
  unfolding mcp_run_def by (rule mcp.inv_run [OF no_connection_ok])

definition live_conns :: "mcp_shared \<Rightarrow> nat list" where
  "live_conns s = filter (\<lambda>c. live (ms_conns s ! c)) [0..<length (ms_conns s)]"

text \<open>
  Property C4. Whatever the order in which frames load, are disposed and torn down, connections open,
  are refused and die, and idle timers fire: at most one connection is live at a time; every
  connection counts exactly the loads that use it; a connection that the idle timer closed is used
  by no load; and the connection the page holds is one that is open.
\<close>

theorem one_shared_connection:
  "length (live_conns (mcp_run es)) \<le> 1
    \<and> (\<forall>c. c < length (ms_conns (mcp_run es)) \<longrightarrow> mc_refs (ms_conns (mcp_run es) ! c) = users (mcp_run es) c
        \<and> (mc_idle (ms_conns (mcp_run es) ! c) \<longrightarrow> users (mcp_run es) c = 0))
    \<and> (\<forall>c. ms_current (mcp_run es) = Some c \<longrightarrow> c \<in> set (live_conns (mcp_run es)))"
proof (intro conjI allI impI)
  note ok = mcp_okD [OF mcp_run_ok [of es]]
  have "set (live_conns (mcp_run es)) \<subseteq> set_option (ms_promise (mcp_run es))"
    using ok(1) by (auto simp: live_conns_def)
  then have "card (set (live_conns (mcp_run es))) \<le> card (set_option (ms_promise (mcp_run es)))"
    by (intro card_mono) simp_all
  also have "\<dots> \<le> 1" by (cases "ms_promise (mcp_run es)") simp_all
  finally show "length (live_conns (mcp_run es)) \<le> 1"
    by (simp add: live_conns_def distinct_card [symmetric])
  show "mc_refs (ms_conns (mcp_run es) ! c) = users (mcp_run es) c" if "c < length (ms_conns (mcp_run es))" for c
    using ok(2) [OF that] .
  show "users (mcp_run es) c = 0" if "c < length (ms_conns (mcp_run es))" "mc_idle (ms_conns (mcp_run es) ! c)" for c
    using ok(2) [OF that(1)] ok(3) [OF that] by simp
  show "c \<in> set (live_conns (mcp_run es))" if "ms_current (mcp_run es) = Some c" for c
    using ok(5) [OF that] by (simp add: live_conns_def shared_liveD)
qed

lemma one_shared_connection_witness:
  "length (live_conns (mcp_run [StartLoad, StartLoad, ConnOpened 0, ConnNoted 0, ResumeLoad 0, ReceiveLoad 0, ConnDied 0, StartLoad])) \<le> 1
    \<and> live_conns (mcp_run [StartLoad, StartLoad, ConnOpened 0, ConnNoted 0, ResumeLoad 0, ReceiveLoad 0, ConnDied 0, StartLoad]) = [1]
    \<and> users (mcp_run [StartLoad, StartLoad, ConnOpened 0, ConnNoted 0, ResumeLoad 0, ReceiveLoad 0, ConnDied 0, StartLoad]) 0 = 1"
  by (intro conjI one_shared_connection [THEN conjunct1]; code_simp)

end
