(* ===== verification/Mcp_Frame.thy ===== *)
theory Mcp_Frame
  imports Mcp_Connection
begin

text \<open>
  A frame with an embedded view (\<open>ui/host/src/mcp-app-frame.tsx\<close>): how often it reconnects, the cache
  of view resources, the policy it puts into the view's document, and what the view may ask of its
  host: a tool call, a display mode, a height.
\<close>

section \<open>Reconnecting (scheduleReconnect)\<close>

definition maxReconnectAttempts :: nat where "maxReconnectAttempts = 5"

text \<open>The attempt counter and, when a reconnect is scheduled, its delay in milliseconds.\<close>

definition scheduleReconnect :: "nat \<Rightarrow> nat \<times> nat option" where
  "scheduleReconnect tried =
    (let attempt = tried + 1
     in if maxReconnectAttempts < attempt then (tried, None)
        else (attempt, Some (if attempt = 1 then 0 else min (750 * 2 ^ (attempt - 2)) 6000)))"

text \<open>
  What happens to a frame: its connection is invalidated, a view is loaded, a load fails (for an
  invalid resource or for another reason), another resource is shown.
\<close>

datatype frame_event = ConnectionLost | ViewLoaded | LoadFailed bool | ResourceChanged

definition frame_step :: "nat \<times> nat list \<Rightarrow> frame_event \<Rightarrow> nat \<times> nat list" where
  "frame_step s e =
    (let again = (case scheduleReconnect (fst s) of (n, d) \<Rightarrow> (n, snd s @ (case d of Some t \<Rightarrow> [t] | None \<Rightarrow> [])))
     in case e of
          ConnectionLost \<Rightarrow> again
        | ViewLoaded \<Rightarrow> (0, snd s)
        | LoadFailed invalid \<Rightarrow> if 0 < fst s \<and> \<not> invalid then again else s
        | ResourceChanged \<Rightarrow> (0, snd s))"

lemma schedule_cases:
  "n < maxReconnectAttempts \<Longrightarrow> scheduleReconnect n = (Suc n, Some ([0, 750, 1500, 3000, 6000] ! n))"
  "maxReconnectAttempts \<le> n \<Longrightarrow> scheduleReconnect n = (n, None)"
proof -
  assume "n < maxReconnectAttempts"
  then have "n \<in> {0, 1, 2, 3, 4}" by (auto simp: maxReconnectAttempts_def)
  then show "scheduleReconnect n = (Suc n, Some ([0, 750, 1500, 3000, 6000] ! n))"
    by (elim insertE emptyE) (simp_all add: scheduleReconnect_def maxReconnectAttempts_def)
qed (simp add: scheduleReconnect_def)

text \<open>Between two loaded views the delays are a prefix of the series, from where the counter stands.\<close>

definition reconnect_ok :: "nat list \<Rightarrow> nat \<times> nat list \<Rightarrow> bool" where
  "reconnect_ok ds s \<longleftrightarrow> fst s \<le> maxReconnectAttempts \<and> snd s = ds @ take (fst s) [0, 750, 1500, 3000, 6000]"

lemma frame_step_failing:
  assumes "reconnect_ok ds s" "e \<notin> {ViewLoaded, ResourceChanged}"
  shows "reconnect_ok ds (frame_step s e)"
proof -
  obtain n out where s [simp]: "s = (n, out)" by force
  have "reconnect_ok ds (case scheduleReconnect n of (m, d) \<Rightarrow> (m, out @ (case d of Some t \<Rightarrow> [t] | None \<Rightarrow> [])))"
  proof (cases "n < maxReconnectAttempts")
    case True
    then have "take (Suc n) [0, 750, 1500, 3000, 6000::nat] = take n [0, 750, 1500, 3000, 6000] @ [[0, 750, 1500, 3000, 6000] ! n]"
      by (intro take_Suc_conv_app_nth) (simp add: maxReconnectAttempts_def)
    with True assms(1) show ?thesis by (simp add: schedule_cases(1) reconnect_ok_def)
  next
    case False
    with assms(1) show ?thesis by (simp add: schedule_cases(2) reconnect_ok_def)
  qed
  with assms show ?thesis by (cases e) (simp_all add: frame_step_def Let_def)
qed

text \<open>
  However often a frame's connection dies and its loads fail, between two views that load
  (or two resources shown) it schedules at most five reconnects, at once and then after 0.75, 1.5, 3
  and 6 seconds.
\<close>

theorem reconnects_are_bounded:
  assumes "ViewLoaded \<notin> set es" "ResourceChanged \<notin> set es"
  shows "\<exists>n \<le> 5. snd (foldl frame_step (0, ds) es) = ds @ take n [0, 750, 1500, 3000, 6000]"
proof -
  have "reconnect_ok ds (foldl frame_step s es)" if "reconnect_ok ds s" for s
    using assms that
  proof (induction es arbitrary: s)
    case (Cons e es)
    then show ?case using frame_step_failing [of ds s e] by (simp only: foldl_Cons list.set insert_iff) blast
  qed simp
  from this [of "(0, ds)"] show ?thesis by (auto simp: reconnect_ok_def maxReconnectAttempts_def)
qed

lemma reconnects_are_bounded_witness:
  "\<exists>n \<le> 5. snd (foldl frame_step (0, []) [ConnectionLost, LoadFailed False, LoadFailed True, LoadFailed False])
    = [] @ take n [0, 750, 1500, 3000, 6000]"
  by (rule reconnects_are_bounded) simp_all

section \<open>The cache of view resources (cachedResource)\<close>

definition mcpAppMIME :: string where "mcpAppMIME = ''text/html;profile=mcp-app''"

text \<open>What the server answers: the contents with their text, and the time to live it names.\<close>

record app_resource =
  ar_uri :: string
  ar_text :: "string option"
  ar_mime :: "string option"
  ar_meta :: "json option"

datatype resource_reply = Contents "app_resource list" "num option" | ReadFailed string

definition checked_resource :: "string \<Rightarrow> resource_reply \<Rightarrow> (string \<times> json option) result" where
  "checked_resource uri r = (case r of
      ReadFailed e \<Rightarrow> Inl e
    | Contents [first] _ \<Rightarrow> (case non_empty (ar_text first) of
        None \<Rightarrow> Inl ''MCP App resource has no HTML content''
      | Some html \<Rightarrow>
          guard_err (ar_uri first \<noteq> uri) ''MCP App resource URI does not match the requested URI''
          (guard_err (ar_mime first \<noteq> Some mcpAppMIME) ''MCP App resource has an unsupported MIME type''
            (Inr (html, ar_meta first))))
    | _ \<Rightarrow> Inl ''MCP App resource has no HTML content'')"

definition reply_ttl :: "resource_reply \<Rightarrow> num" where
  "reply_ttl r = (case r of
      Contents _ (Some (Fin t)) \<Rightarrow> if 0 < t then Fin t else Fin 300000
    | Contents _ (Some PInf) \<Rightarrow> PInf
    | _ \<Rightarrow> Fin 300000)"

text \<open>A cache entry: what its promise became, once it settled, and when it expires.\<close>

record cache_entry =
  ce_uri :: string
  ce_value :: "(string \<times> json option) result option"
  ce_expires :: num

record resource_cache =
  rc_entries :: "cache_entry list"
  rc_table :: "(string, nat) omap"

text \<open>\<open>clock\<close> is what \<open>Date.now()\<close> returns.\<close>

definition fresh_at :: "real \<Rightarrow> num \<Rightarrow> bool" where
  "fresh_at clock e = (case e of Fin t \<Rightarrow> clock < t | PInf \<Rightarrow> True | _ \<Rightarrow> False)"

text \<open>The entry a load gets: the one in the table while it is fresh, or a new one with a read in flight.\<close>

definition cachedResource :: "string \<Rightarrow> real \<Rightarrow> resource_cache \<Rightarrow> nat \<times> resource_cache" where
  "cachedResource uri clock s =
    (let new = (length (rc_entries s),
       s\<lparr>rc_entries := rc_entries s @ [\<lparr>ce_uri = uri, ce_value = None, ce_expires = PInf\<rparr>],
         rc_table := AList.update uri (length (rc_entries s)) (rc_table s)\<rparr>)
     in case map_of (rc_table s) uri of
          Some i \<Rightarrow> if fresh_at clock (ce_expires (rc_entries s ! i)) then (i, s) else new
        | None \<Rightarrow> new)"

text \<open>The read settles: a failed entry leaves the table, if it is still there.\<close>

definition settle_resource :: "nat \<Rightarrow> real \<Rightarrow> resource_reply \<Rightarrow> resource_cache \<Rightarrow> resource_cache" where
  "settle_resource i clock r s =
    (let e = rc_entries s ! i
     in case checked_resource (ce_uri e) r of
          Inr html \<Rightarrow> s\<lparr>rc_entries := (rc_entries s)[i := e\<lparr>ce_value := Some (Inr html), ce_expires := num_plus (reply_ttl r) clock\<rparr>]\<rparr>
        | Inl msg \<Rightarrow> s\<lparr>rc_entries := (rc_entries s)[i := e\<lparr>ce_value := Some (Inl msg)\<rparr>],
            rc_table := (if map_of (rc_table s) (ce_uri e) = Some i then AList.delete (ce_uri e) (rc_table s) else rc_table s)\<rparr>)"

datatype cache_event = RequestView string real | SettleView nat real resource_reply

definition cache_step :: "resource_cache \<Rightarrow> cache_event \<Rightarrow> resource_cache" where
  "cache_step s e = (case e of
      RequestView uri clock \<Rightarrow> snd (cachedResource uri clock s)
    | SettleView i clock r \<Rightarrow> (case nth_opt (rc_entries s) i of
        Some e \<Rightarrow> if ce_value e = None then settle_resource i clock r s else s
      | None \<Rightarrow> s))"

definition empty_cache :: resource_cache where
  "empty_cache = \<lparr>rc_entries = [], rc_table = []\<rparr>"

definition cache_ok :: "resource_cache \<Rightarrow> bool" where
  "cache_ok s \<longleftrightarrow> (\<forall>uri i. map_of (rc_table s) uri = Some i \<longrightarrow> i < length (rc_entries s)
        \<and> ce_uri (rc_entries s ! i) = uri \<and> (\<forall>msg. ce_value (rc_entries s ! i) \<noteq> Some (Inl msg)))
     \<and> (\<forall>i < length (rc_entries s). ce_value (rc_entries s ! i) = None \<longrightarrow>
          map_of (rc_table s) (ce_uri (rc_entries s ! i)) = Some i \<and> ce_expires (rc_entries s ! i) = PInf)"

lemma cache_okD:
  assumes "cache_ok s"
  shows "map_of (rc_table s) uri = Some i \<Longrightarrow> i < length (rc_entries s)"
    "map_of (rc_table s) uri = Some i \<Longrightarrow> ce_uri (rc_entries s ! i) = uri"
    "map_of (rc_table s) uri = Some i \<Longrightarrow> ce_value (rc_entries s ! i) \<noteq> Some (Inl msg)"
    "i < length (rc_entries s) \<Longrightarrow> ce_value (rc_entries s ! i) = None \<Longrightarrow> map_of (rc_table s) (ce_uri (rc_entries s ! i)) = Some i"
    "i < length (rc_entries s) \<Longrightarrow> ce_value (rc_entries s ! i) = None \<Longrightarrow> ce_expires (rc_entries s ! i) = PInf"
  using assms unfolding cache_ok_def by blast+

lemma new_entry_ok:
  assumes ok: "cache_ok s" and none: "\<And>i. map_of (rc_table s) uri = Some i \<Longrightarrow> ce_value (rc_entries s ! i) \<noteq> None"
  shows "cache_ok (s\<lparr>rc_entries := rc_entries s @ [\<lparr>ce_uri = uri, ce_value = None, ce_expires = PInf\<rparr>],
    rc_table := AList.update uri (length (rc_entries s)) (rc_table s)\<rparr>)" (is "cache_ok ?t")
  unfolding cache_ok_def
proof (intro conjI allI impI)
  fix v i
  assume i: "map_of (rc_table ?t) v = Some i"
  then have "v = uri \<and> i = length (rc_entries s) \<or> v \<noteq> uri \<and> map_of (rc_table s) v = Some i"
    by (auto simp: update_conv split: if_splits)
  then show "i < length (rc_entries ?t)" "ce_uri (rc_entries ?t ! i) = v" "ce_value (rc_entries ?t ! i) \<noteq> Some (Inl msg)" for msg
    using cache_okD(1-3) [OF ok, of v i] by (auto simp: nth_append)
next
  fix i
  assume i: "i < length (rc_entries ?t)" "ce_value (rc_entries ?t ! i) = None"
  show "map_of (rc_table ?t) (ce_uri (rc_entries ?t ! i)) = Some i" "ce_expires (rc_entries ?t ! i) = PInf"
  proof (atomize (full), cases "i = length (rc_entries s)")
    case False
    with i have "i < length (rc_entries s)" "ce_value (rc_entries s ! i) = None" by (simp_all add: nth_append)
    with False none cache_okD(4,5) [OF ok, of i] show "map_of (rc_table ?t) (ce_uri (rc_entries ?t ! i)) = Some i \<and> ce_expires (rc_entries ?t ! i) = PInf"
      by (auto simp: nth_append update_conv)
  qed (simp add: update_conv)
qed

lemma cached_ok:
  assumes "cache_ok s"
  shows "cache_ok (snd (cachedResource uri clock s))"
proof (cases "map_of (rc_table s) uri")
  case None
  then show ?thesis using new_entry_ok [OF assms, of uri] by (simp add: cachedResource_def)
next
  case (Some i)
  have "ce_value (rc_entries s ! i) \<noteq> None" if "\<not> fresh_at clock (ce_expires (rc_entries s ! i))"
  proof
    assume "ce_value (rc_entries s ! i) = None"
    with cache_okD(5) [OF assms cache_okD(1) [OF assms Some]] that show False by (simp add: fresh_at_def)
  qed
  then show ?thesis using Some assms new_entry_ok [OF assms, of uri] by (simp add: cachedResource_def)
qed

lemma settle_ok:
  assumes ok: "cache_ok s" and i: "i < length (rc_entries s)" "ce_value (rc_entries s ! i) = None"
  shows "cache_ok (settle_resource i clock r s)"
proof (cases "checked_resource (ce_uri (rc_entries s ! i)) r")
  case (Inr html)
  let ?e = "(rc_entries s ! i)\<lparr>ce_value := Some (Inr html), ce_expires := num_plus (reply_ttl r) clock\<rparr>"
  have "cache_ok (s\<lparr>rc_entries := (rc_entries s)[i := ?e]\<rparr>)"
    unfolding cache_ok_def
  proof (intro conjI allI impI)
    fix v j assume j: "map_of (rc_table (s\<lparr>rc_entries := (rc_entries s)[i := ?e]\<rparr>)) v = Some j"
    then show "j < length (rc_entries (s\<lparr>rc_entries := (rc_entries s)[i := ?e]\<rparr>))"
      "ce_uri (rc_entries (s\<lparr>rc_entries := (rc_entries s)[i := ?e]\<rparr>) ! j) = v"
      "ce_value (rc_entries (s\<lparr>rc_entries := (rc_entries s)[i := ?e]\<rparr>) ! j) \<noteq> Some (Inl msg)" for msg
      using cache_okD(1-3) [OF ok, of v j] i by (auto simp: nth_list_update)
    next
    fix j assume "j < length (rc_entries (s\<lparr>rc_entries := (rc_entries s)[i := ?e]\<rparr>))" "ce_value (rc_entries (s\<lparr>rc_entries := (rc_entries s)[i := ?e]\<rparr>) ! j) = None"
    then have j: "j \<noteq> i" "j < length (rc_entries s)" "ce_value (rc_entries s ! j) = None" using i by (auto simp: nth_list_update split: if_splits)
    with cache_okD(4,5) [OF ok j(2,3)]
    show "map_of (rc_table (s\<lparr>rc_entries := (rc_entries s)[i := ?e]\<rparr>)) (ce_uri (rc_entries (s\<lparr>rc_entries := (rc_entries s)[i := ?e]\<rparr>) ! j)) = Some j"
      "ce_expires (rc_entries (s\<lparr>rc_entries := (rc_entries s)[i := ?e]\<rparr>) ! j) = PInf"
      by auto
  qed
  then show ?thesis by (simp add: settle_resource_def Inr)
next
  case (Inl msg)
  let ?e = "(rc_entries s ! i)\<lparr>ce_value := Some (Inl msg)\<rparr>"
  let ?t = "s\<lparr>rc_entries := (rc_entries s)[i := ?e], rc_table := AList.delete (ce_uri (rc_entries s ! i)) (rc_table s)\<rparr>"
  have mine: "map_of (rc_table s) (ce_uri (rc_entries s ! i)) = Some i" using cache_okD(4) [OF ok i] .
  have "cache_ok ?t"
    unfolding cache_ok_def
  proof (intro conjI allI impI)
    fix v j assume "map_of (rc_table ?t) v = Some j"
    then have "map_of (rc_table s) v = Some j" "v \<noteq> ce_uri (rc_entries s ! i)" by (auto simp: delete_conv split: if_splits)
    then show "j < length (rc_entries ?t)" "ce_uri (rc_entries ?t ! j) = v" "ce_value (rc_entries ?t ! j) \<noteq> Some (Inl m)" for m
      using cache_okD(1-3) [OF ok, of v j] by (cases "j = i"; auto)+
  next
    fix j assume "j < length (rc_entries ?t)" "ce_value (rc_entries ?t ! j) = None"
    then have j: "j \<noteq> i" "j < length (rc_entries s)" "ce_value (rc_entries s ! j) = None" using i by (auto simp: nth_list_update split: if_splits)
    with mine cache_okD(4,5) [OF ok j(2,3)]
    show "map_of (rc_table ?t) (ce_uri (rc_entries ?t ! j)) = Some j" "ce_expires (rc_entries ?t ! j) = PInf"
      by (auto simp: delete_conv)
  qed
  then show ?thesis using mine by (simp add: settle_resource_def Let_def Inl)
qed

lemma cache_step_ok: "cache_ok s \<Longrightarrow> cache_ok (cache_step s e)"
  by (cases e) (auto simp: cache_step_def cached_ok settle_ok nth_opt_def)

interpretation view_cache: event_machine cache_step cache_ok
  by unfold_locales (rule cache_step_ok)

lemma cache_run_ok: "cache_ok (foldl cache_step empty_cache es)"
  by (rule view_cache.inv_run) (simp add: cache_ok_def empty_cache_def)

text \<open>
  Whatever views were requested and whatever the server answered, a request for a view
  is given an entry that was read for that very URI and that has not failed or expired, and at no
  time are two reads for one URI in flight.
\<close>

theorem view_cache_is_fresh:
  assumes "s = foldl cache_step empty_cache es" "cachedResource uri clock s = (i, s')"
  shows "i < length (rc_entries s') \<and> ce_uri (rc_entries s' ! i) = uri
    \<and> (\<forall>msg. ce_value (rc_entries s' ! i) \<noteq> Some (Inl msg)) \<and> fresh_at clock (ce_expires (rc_entries s' ! i))
    \<and> (\<forall>j < length (rc_entries s'). ce_value (rc_entries s' ! j) = None \<and> ce_uri (rc_entries s' ! j) = uri \<longrightarrow> j = i)"
proof -
  have ok: "cache_ok s" unfolding assms(1) by (rule cache_run_ok)
  have "map_of (rc_table s') uri = Some i \<and> fresh_at clock (ce_expires (rc_entries s' ! i))"
    using assms(2) by (auto simp: cachedResource_def Let_def update_conv fresh_at_def split: option.splits if_splits)
  moreover have "cache_ok s'" using cached_ok [OF ok, of uri clock] assms(2) by simp
  moreover have "j = i" if "cache_ok s'" "map_of (rc_table s') uri = Some i" "j < length (rc_entries s')"
      "ce_value (rc_entries s' ! j) = None" "ce_uri (rc_entries s' ! j) = uri" for j
    using cache_okD(4) [OF that(1,3,4)] that(2,5) by simp
  ultimately show ?thesis
    using cache_okD(1-3) [of s' uri i] by blast
qed

lemma view_cache_is_fresh_witness:
  "fresh_at 5 (ce_expires (rc_entries (snd (cachedResource ''ui://a'' 5 empty_cache)) ! 0))"
  using view_cache_is_fresh [of empty_cache "[]" "''ui://a''" 5 0 "snd (cachedResource ''ui://a'' 5 empty_cache)"]
  by (simp add: cachedResource_def empty_cache_def)

section \<open>The policy in the view's document (enforceMCPAppCSP)\<close>

text \<open>
  \<open>/<head(?:\s[^>]*)?>/i\<close> at the start of a text: the tag and what follows it. Then its first match in
  a text: what stands before it, the tag, and the rest.
\<close>

definition open_tag :: "string \<Rightarrow> string \<Rightarrow> (string \<times> string) option" where
  "open_tag name s =
    (let start = take (length name + 1) s; rest = drop (length name + 1) s; body = takeWhile (\<lambda>c. c \<noteq> CHR ''>'') rest
     in if ascii_lower start = CHR ''<'' # name \<and> length body < length rest
             \<and> (body = [] \<or> js_space (cp_of (hd (code_points body))))
        then Some (start @ body @ ''>'', drop (length body + 1) rest) else None)"

fun find_tag :: "string \<Rightarrow> string \<Rightarrow> (string \<times> string \<times> string) option" where
  "find_tag name [] = None"
| "find_tag name (c # s) = (case open_tag name (c # s) of
      Some (tag, rest) \<Rightarrow> Some ([], tag, rest)
    | None \<Rightarrow> map_option (\<lambda>(p, tag, rest). (c # p, tag, rest)) (find_tag name s))"

definition policy_tag :: "json option \<Rightarrow> string" where
  "policy_tag meta = ''<meta http-equiv=\"Content-Security-Policy\" content=\"'' @ mcpAppCSP meta @ ''\">''"

definition enforceMCPAppCSP :: "string \<Rightarrow> json option \<Rightarrow> string" where
  "enforceMCPAppCSP html meta = (case find_tag ''head'' html of
      Some (p, tag, rest) \<Rightarrow> p @ tag @ policy_tag meta @ rest
    | None \<Rightarrow> (case find_tag ''html'' html of
        Some (p, tag, rest) \<Rightarrow> p @ tag @ ''<head>'' @ policy_tag meta @ ''</head>'' @ rest
      | None \<Rightarrow> ''<!doctype html><html><head>'' @ policy_tag meta @ ''</head><body>'' @ html @ ''</body></html>''))"

lemma open_tag_split: "open_tag name s = Some (tag, rest) \<Longrightarrow> s = tag @ rest"
proof -
  assume open_tag: "open_tag name s = Some (tag, rest)"
  define r where "r = drop (length name + 1) s"
  define body where "body = takeWhile (\<lambda>c. c \<noteq> CHR ''>'') r"
  from open_tag have len: "length body < length r" and tag: "tag = take (length name + 1) s @ body @ ''>''" and rest: "rest = drop (length body + 1) r"
    by (auto simp: open_tag_def Let_def r_def body_def split: if_splits)
  have "r ! length body = CHR ''>''" using nth_length_takeWhile [of "\<lambda>c. c \<noteq> CHR ''>''" r] len by (simp add: body_def)
  then have "r = body @ CHR ''>'' # drop (length body + 1) r"
    using id_take_nth_drop [OF len] takeWhile_eq_take [of "\<lambda>c. c \<noteq> CHR ''>''" r] by (simp add: body_def)
  then show "s = tag @ rest" using append_take_drop_id [of "length name + 1" s] tag rest r_def by simp
qed

lemma find_tag_split: "find_tag name s = Some (p, tag, rest) \<Longrightarrow> s = p @ tag @ rest"
proof (induction s arbitrary: p)
  case (Cons c s)
  then show ?case using open_tag_split [of name "c # s"] by (fastforce split: option.splits)
qed simp

lemma open_tag_alone: "open_tag name s = Some (tag, rest) \<Longrightarrow> open_tag name tag = Some (tag, [])"
proof -
  assume open_tag: "open_tag name s = Some (tag, rest)"
  define r where "r = drop (length name + 1) s"
  define body where "body = takeWhile (\<lambda>c. c \<noteq> CHR ''>'') r"
  from open_tag have start: "ascii_lower (take (length name + 1) s) = CHR ''<'' # name"
    and body: "body = [] \<or> js_space (cp_of (hd (code_points body)))" and tag: "tag = take (length name + 1) s @ body @ ''>''"
    by (auto simp: open_tag_def Let_def r_def body_def split: if_splits)
  have "length (take (length name + 1) s) = length name + 1" using arg_cong [OF start, of length] by (simp add: ascii_lower_def)
  moreover have "takeWhile (\<lambda>c. c \<noteq> CHR ''>'') (body @ ''>'') = body"
    by (subst takeWhile_append2) (auto simp: body_def dest: set_takeWhileD)
  ultimately show "open_tag name tag = Some (tag, [])" using start body by (simp add: open_tag_def Let_def tag)
qed

lemma find_tag_open: "find_tag name s = Some (p, tag, rest) \<Longrightarrow> open_tag name tag = Some (tag, [])"
proof (induction s arbitrary: p)
  case (Cons c s)
  then show ?case using open_tag_alone [of name "c # s"] by (fastforce split: option.splits)
qed simp

lemma policy_no_quote: "CHR 0x22 \<notin> set (mcpAppCSP meta)"
proof -
  have source: "CHR 0x22 \<notin> set s" if "source_ok schemes s" for schemes s
    using that by (auto simp: source_ok_def unsafe_source_def list_ex_iff)
  have c: "CHR 0x22 \<notin> set (join '' '' (cspSources v ss))" "CHR 0x22 \<notin> set (listed (cspSources v ss))" for v ss
    by (rule listed_clean; use cspSources_ok source in blast; simp)+
  have "CHR 0x22 \<notin> set d" if "d \<in> set (csp_directives meta)" for d
    using that unfolding csp_directives_def Let_def by (auto simp: c split: if_splits)
  then show ?thesis using set_join [of "''; ''" "csp_directives meta"] by (auto simp: mcpAppCSP_def)
qed

text \<open>
  In the document a view is shown in, the policy tag directly follows an opening head
  tag, the attribute it sits in ends where the policy ends, whatever the resource's metadata says,
  and a resource that has a head is otherwise unchanged.
\<close>

theorem policy_is_inserted:
  "\<exists>before tag policy after. enforceMCPAppCSP html meta
        = before @ tag @ ''<meta http-equiv=\"Content-Security-Policy\" content=\"'' @ policy @ ''\">'' @ after
     \<and> open_tag ''head'' tag = Some (tag, []) \<and> policy = mcpAppCSP meta \<and> CHR 0x22 \<notin> set policy
     \<and> (find_tag ''head'' html = None \<or> before @ tag @ after = html)"
proof (cases "find_tag ''head'' html")
  case (Some found)
  obtain p tag rest where found: "found = (p, tag, rest)" by (cases found)
  show ?thesis
    by (rule exI [of _ p], rule exI [of _ tag], rule exI [of _ "mcpAppCSP meta"], rule exI [of _ rest])
      (use Some found find_tag_split [of "''head''" html p tag rest] find_tag_open [of "''head''" html p tag rest] policy_no_quote
        in \<open>simp add: enforceMCPAppCSP_def policy_tag_def\<close>)
next
  case None
  have head: "open_tag ''head'' ''<head>'' = Some (''<head>'', [])" by code_simp
  have made: ?thesis if "enforceMCPAppCSP html meta = b @ ''<head>'' @ policy_tag meta @ a" for b a
    by (rule exI [of _ b], rule exI [of _ "''<head>''"], rule exI [of _ "mcpAppCSP meta"], rule exI [of _ a])
      (use None that head policy_no_quote in \<open>simp add: policy_tag_def\<close>)
  show ?thesis
  proof (cases "find_tag ''html'' html")
    case None
    show ?thesis by (rule made [of "''<!doctype html><html>''" "''</head><body>'' @ html @ ''</body></html>''"])
      (simp add: enforceMCPAppCSP_def None \<open>find_tag ''head'' html = None\<close>)
  next
    case (Some found)
    obtain p tag rest where found: "found = (p, tag, rest)" by (cases found)
    show ?thesis by (rule made [of "p @ tag" "''</head>'' @ rest"])
      (simp add: enforceMCPAppCSP_def Some found \<open>find_tag ''head'' html = None\<close>)
  qed
qed

section \<open>What a view may ask of its host (connectBridge)\<close>

text \<open>\<open>/^(?:create|edit|replace|restore|delete)_/\<close> finds nothing, and the tool is shown to apps.\<close>

definition writes_dashboards :: "string \<Rightarrow> bool" where
  "writes_dashboards name \<longleftrightarrow> list_ex (\<lambda>p. starts_with name p) [''create_'', ''edit_'', ''replace_'', ''restore_'', ''delete_'']"

definition app_may_call :: "(string \<times> json option) list \<Rightarrow> string \<Rightarrow> bool" where
  "app_may_call tools name =
    (let tool = List.find (\<lambda>t. fst t = name) tools;
         ui = csp_record (Option.bind (csp_record (Option.bind tool snd)) (jget ''ui''))
     in (case Option.bind ui (jget ''visibility'') of Some (JArr vs) \<Rightarrow> JStr ''app'' \<in> set vs | _ \<Rightarrow> False)
        \<and> \<not> writes_dashboards name)"

definition oncalltool :: "(string \<times> json option) list \<Rightarrow> string \<Rightarrow> string result" where
  "oncalltool tools name = (if app_may_call tools name then Inr name else Inl ''This tool is unavailable in the app'')"

text \<open>The mode that is answered, and the mode of the frame after the request.\<close>

definition onrequestdisplaymode :: "string \<Rightarrow> string \<Rightarrow> string \<times> string" where
  "onrequestdisplaymode current mode =
    (if mode \<noteq> ''inline'' \<and> mode \<noteq> ''fullscreen'' then (current, current) else (mode, mode))"

definition maxAppHeight :: real where "maxAppHeight = 2000"
definition minimumHeight :: real where "minimumHeight = 240"

definition onsizechange :: "real \<Rightarrow> num option \<Rightarrow> real" where
  "onsizechange height v = (case v of
      None \<Rightarrow> height
    | Some NaN \<Rightarrow> height
    | Some PInf \<Rightarrow> maxAppHeight
    | Some NInf \<Rightarrow> minimumHeight
    | Some (Fin h) \<Rightarrow> if h = 0 then height else min maxAppHeight (max minimumHeight (of_int (js_round h))))"

text \<open>A request of a view, and what the host's frame is in afterwards: mode, height, tools called.\<close>

datatype view_request = CallTool string | RequestMode string | ReportSize "num option"

definition view_step :: "(string \<times> json option) list \<Rightarrow> string \<times> real \<times> string list \<Rightarrow> view_request \<Rightarrow> string \<times> real \<times> string list" where
  "view_step tools s r = (case s of (mode, height, called) \<Rightarrow> (case r of
      CallTool name \<Rightarrow> (mode, height, (case oncalltool tools name of Inr t \<Rightarrow> called @ [t] | Inl _ \<Rightarrow> called))
    | RequestMode m \<Rightarrow> (snd (onrequestdisplaymode mode m), height, called)
    | ReportSize v \<Rightarrow> (mode, onsizechange height v, called)))"

definition view_ok :: "(string \<times> json option) list \<Rightarrow> string \<times> real \<times> string list \<Rightarrow> bool" where
  "view_ok tools s \<longleftrightarrow> (case s of (mode, height, called) \<Rightarrow> mode \<in> {''inline'', ''fullscreen''} \<and> minimumHeight \<le> height \<and> height \<le> maxAppHeight
     \<and> (\<forall>t \<in> set called. app_may_call tools t))"

lemma view_step_ok: "view_ok tools s \<Longrightarrow> view_ok tools (view_step tools s r)"
  by (cases r; cases s)
    (auto simp: view_ok_def view_step_def oncalltool_def onrequestdisplaymode_def onsizechange_def minimumHeight_def maxAppHeight_def
      split: option.split num.split)

interpretation view: event_machine "view_step tools" "view_ok tools" for tools
  by unfold_locales (rule view_step_ok)

text \<open>
  Whatever an embedded view asks, in any order, its frame is inline or full screen and
  between 240 and 2000 pixels high, and of the server's tools it calls only those that are shown to
  apps and change no dashboard.
\<close>

theorem view_stays_in_bounds:
  "case foldl (view_step tools) (''inline'', minimumHeight, []) rs of (mode, height, called) \<Rightarrow>
     mode \<in> {''inline'', ''fullscreen''} \<and> 240 \<le> height \<and> height \<le> 2000
     \<and> list_all (\<lambda>t. app_may_call tools t \<and> \<not> writes_dashboards t) called"
proof -
  have "view_ok tools (foldl (view_step tools) (''inline'', minimumHeight, []) rs)"
    by (rule view.inv_run) (simp add: view_ok_def minimumHeight_def maxAppHeight_def)
  then show ?thesis
    by (auto simp: view_ok_def minimumHeight_def maxAppHeight_def list_all_iff app_may_call_def Let_def split: prod.split)
qed

end
