(* ===== verification/Explore_Page.thy ===== *)
theory Explore_Page
  imports Explore_Search Explore_Builder Panel_Snapshot
begin

text \<open>
  The Explore page (\<open>ui/host/src/explore/page.tsx\<close>): what a run of the query, of the builder or of the
  SQL sends and keeps, how edits print through the server, which entry of the address it writes and
  follows, and when the result can be saved. The code between two awaits is one step; replies to
  parses, queries and prints are events that come in any order, also for requests that were
  aborted. What the router does with an entry is an event too. Spans and hints of a problem are
  only displayed and left out: a problem is its path and message.
\<close>

section \<open>Queries, panels and runs\<close>

type_synonym problem = "string \<times> string"

datatype explore_kind = ExQuery | ExSql

definition kindOf :: "string \<Rightarrow> explore_kind" where
  "kindOf tab = (if tab = ''sql'' then ExSql else ExQuery)"

definition starter :: panel_query where
  "starter = \<lparr>q_from = ''spans'', q_where = [], q_measures = [''count()''], q_by = [''service''], q_bucket = None, q_sort = None, q_limit = None\<rparr>"

definition explorePanelID :: string where "explorePanelID = ''explore''"

definition drillFor :: "panel_query \<Rightarrow> string \<Rightarrow> string option" where
  "drillFor q viz =
    (if q_from q = ''logs'' then Some ''logs''
     else if q_from q = ''spans'' \<and> viz \<noteq> ''health'' \<and> viz \<noteq> ''service_map'' then Some ''traces''
     else None)"

text \<open>The first 80 code points of a title (\<open>save-dialog.tsx\<close>).\<close>

definition titleLimit :: nat where "titleLimit = 80"

definition defaultTitle :: "string \<Rightarrow> string" where
  "defaultTitle t = (let points = code_points t
     in if length points \<le> titleLimit then t else concat (take (titleLimit - 1) points) @ ellipsis)"

text \<open>The parts of a panel that Explore sets or reads.\<close>

record explore_panel =
  ep_id :: string
  ep_title :: string
  ep_viz :: string
  ep_query :: "panel_query option"
  ep_sql :: "string option"
  ep_drill :: "string option"
  ep_min :: "real option"
  ep_max :: "real option"
  ep_thresholds :: nat

definition draft_panel :: "string \<Rightarrow> string \<Rightarrow> panel_query option \<Rightarrow> string option \<Rightarrow> string option \<Rightarrow> explore_panel" where
  "draft_panel title viz q sql drill = \<lparr>ep_id = explorePanelID, ep_title = title, ep_viz = viz, ep_query = q, ep_sql = sql,
     ep_drill = drill, ep_min = None, ep_max = None, ep_thresholds = 0\<rparr>"

text \<open>What the server answers to a parse and to a print.\<close>

record parsed_query =
  pq_query :: panel_query
  pq_canonical :: string
  pq_compatible :: "(string \<times> string list) list"
  pq_edits :: "(string \<times> string) list"
  pq_notices :: "problem list"

record formatted_query =
  fq_text :: string
  fq_editable :: bool
  fq_reason :: "string option"
  fq_notices :: "problem list"
  fq_where :: "string list"
  fq_measures :: "string list"

definition label_pairs :: "string list \<Rightarrow> string list \<Rightarrow> (string \<times> string) list" where
  "label_pairs stored printed_texts = zip stored printed_texts"

definition labelsOf :: "panel_query \<Rightarrow> formatted_query \<Rightarrow> (string, string) omap" where
  "labelsOf q f = from_entries (label_pairs (q_where q) (fq_where f) @ label_pairs (q_measures q) (fq_measures f))"

record explore_run =
  er_kind :: explore_kind
  er_source :: string
  er_window :: string
  er_panel :: explore_panel
  er_result :: display_result
  er_canonical :: "string option"

definition canKeep :: "explore_run option \<Rightarrow> bool \<Rightarrow> bool" where
  "canKeep run editing = (case run of
      None \<Rightarrow> False
    | Some r \<Rightarrow> if editing then r_status (er_result r) = ROk \<or> r_status (er_result r) = REmpty
        else r_status (er_result r) = ROk \<and> (case r_frame (er_result r) of
            Some f \<Rightarrow> 0 < f_rows f \<or> f_totals f \<noteq> None
          | None \<Rightarrow> False))"

section \<open>State\<close>

text \<open>The dashboard Explore is opened in, when it is: the panel being edited and how a draft becomes it.\<close>

record explore_context =
  xc_base :: "explore_panel option"
  xc_compose :: "explore_panel \<Rightarrow> explore_panel"
  xc_initial :: "(panel_query \<times> formatted_query) option"

text \<open>A run in flight waits for its parse, then for its results.\<close>

datatype job_phase = Parsing | Querying | Ended

record explore_job =
  ej_kind :: explore_kind
  ej_source :: string
  ej_viz :: "string option"
  ej_direct :: "panel_query option"
  ej_window :: string
  ej_parsed :: "parsed_query option"
  ej_panel :: "explore_panel option"
  ej_canonical :: "string option"
  ej_phase :: job_phase
  ej_aborted :: bool

text \<open>A print in flight, and the run that follows it when the builder asked for one.\<close>

record print_job =
  pj_query :: panel_query
  pj_adopt :: bool
  pj_run :: "(string option \<times> string) option"
  pj_aborted :: bool
  pj_open :: bool

record explore_page =
  xp_search :: explore_search
  xp_text :: string
  xp_sql :: string
  xp_parsed :: "(parsed_query \<times> string) option"
  xp_built :: "panel_query option"
  xp_formatted :: "formatted_query option"
  xp_format_problems :: "problem list"
  xp_labels :: "(string, string) omap"
  xp_invalid :: bool
  xp_problems :: "problem list"
  xp_notices :: "problem list"
  xp_error :: "string option"
  xp_run :: "explore_run option"
  xp_refused :: "(explore_kind \<times> string \<times> string) option"
  xp_running :: bool
  xp_controller :: "nat option"
  xp_jobs :: "explore_job list"
  xp_timer :: "panel_query option"
  xp_printer :: "nat option"
  xp_prints :: "print_job list"
  xp_opens :: "string option list"
  xp_shown :: "string \<times> string \<times> string option"
  xp_asked :: "string option"
  xp_seen :: "string option"
  xp_entries :: "(explore_search \<times> bool) list"

definition windowOf :: "explore_search \<Rightarrow> string" where
  "windowOf s = xs_range s @ ''|'' @ nullish (xs_from s) [] @ ''|'' @ nullish (xs_to s) []"

definition satisfied :: "explore_context \<Rightarrow> string \<times> string list \<Rightarrow> bool" where
  "satisfied c v = list_all (\<lambda>r. case xc_base c of
      Some b \<Rightarrow> if r = ''min_max'' then ep_min b \<noteq> None \<and> ep_max b \<noteq> None else 0 < ep_thresholds b
    | None \<Rightarrow> False) (snd v)"

section \<open>Entries of the address\<close>

text \<open>An entry the page asks for, and whether it replaces the one shown.\<close>

definition emit :: "explore_search \<Rightarrow> bool \<Rightarrow> explore_page \<Rightarrow> explore_page" where
  "emit e replaces s = s\<lparr>xp_entries := xp_entries s @ [(e, replaces)]\<rparr>"

definition record_entry :: "explore_search \<Rightarrow> explore_page \<Rightarrow> explore_page" where
  "record_entry e s =
    (let now = xp_search s
     in emit e (xs_q e = xs_q now \<and> xs_sql e = xs_sql now \<and> (xs_viz now = None \<or> xs_viz e = xs_viz now))
          (s\<lparr>xp_shown := (xs_q e, nullish (xs_sql e) [], xs_viz e)\<rparr>))"

text \<open>\<open>held\<close> is the entry as the address will hold it: \<open>parseExploreSearch (toExploreParams e)\<close>.\<close>

definition pickWindow :: "(explore_search \<Rightarrow> explore_search) \<Rightarrow> explore_search \<Rightarrow> explore_page \<Rightarrow> explore_page" where
  "pickWindow held e s =
    (let key = windowOf (held e)
     in emit e False (if key \<noteq> windowOf (xp_search s) then s\<lparr>xp_asked := Some key\<rparr> else s))"

section \<open>Runs\<close>

definition job_update :: "nat \<Rightarrow> (explore_job \<Rightarrow> explore_job) \<Rightarrow> explore_page \<Rightarrow> explore_page" where
  "job_update j f s = s\<lparr>xp_jobs := (xp_jobs s)[j := f (xp_jobs s ! j)]\<rparr>"

definition abort_run :: "explore_page \<Rightarrow> explore_page" where
  "abort_run s = (case xp_controller s of
      Some j \<Rightarrow> job_update j (\<lambda>k. k\<lparr>ej_aborted := True\<rparr>) s | None \<Rightarrow> s)"

text \<open>The end of a run, whatever its outcome.\<close>

definition end_run :: "nat \<Rightarrow> explore_page \<Rightarrow> explore_page" where
  "end_run j s = (let s1 = job_update j (\<lambda>k. k\<lparr>ej_phase := Ended\<rparr>) s
     in if xp_controller s = Some j then s1\<lparr>xp_running := False\<rparr> else s1)"

definition panel_of :: "explore_context \<Rightarrow> explore_job \<Rightarrow> explore_panel" where
  "panel_of c k = xc_compose c (case (ej_kind k, ej_direct k, ej_parsed k) of
      (ExSql, _, _) \<Rightarrow> draft_panel ''SQL'' (case xc_base c of Some b \<Rightarrow> ep_viz b | None \<Rightarrow> ''table'') None (Some (ej_source k)) None
    | (ExQuery, Some q, _) \<Rightarrow> (let viz = nullish (ej_viz k) ''table'' in draft_panel (defaultTitle (ej_source k)) viz (Some q) None (drillFor q viz))
    | (ExQuery, None, Some p) \<Rightarrow>
        (let chosen = (case ej_viz k of
             Some v \<Rightarrow> if list_ex (\<lambda>e. fst e = v \<and> satisfied c e) (pq_compatible p) then v
                else nullish (map_option fst (List.find (satisfied c) (pq_compatible p))) ''table''
           | None \<Rightarrow> nullish (map_option fst (List.find (satisfied c) (pq_compatible p))) ''table'')
         in draft_panel (defaultTitle (pq_canonical p)) chosen (Some (pq_query p)) None (drillFor (pq_query p) chosen))
    | (ExQuery, None, None) \<Rightarrow> draft_panel [] ''table'' None None None)"

text \<open>\<open>window\<close> is the window of the render that asked for the run.\<close>

definition execute :: "explore_context \<Rightarrow> explore_kind \<Rightarrow> string \<Rightarrow> string option \<Rightarrow> panel_query option \<Rightarrow> string \<Rightarrow> explore_page \<Rightarrow> explore_page" where
  "execute c kind src viz direct window s =
    (if \<not> not_blank src then s
     else let j = length (xp_jobs s); parses = kind = ExQuery \<and> direct = None;
         k = \<lparr>ej_kind = kind, ej_source = src, ej_viz = viz, ej_direct = direct, ej_window = window, ej_parsed = None,
           ej_panel = None, ej_canonical = None, ej_phase = Parsing, ej_aborted = False\<rparr>;
         k' = (if parses then k else k\<lparr>ej_panel := Some (panel_of c k), ej_canonical := (if kind = ExQuery then Some src else None), ej_phase := Querying\<rparr>);
         s1 = abort_run s;
         s2 = s1\<lparr>xp_jobs := xp_jobs s1 @ [k'], xp_controller := Some j, xp_running := True,
           xp_error := None, xp_problems := [], xp_notices := [], xp_refused := None\<rparr>
       in if parses then s2
          else if kind = ExQuery then record_entry ((xp_search s)\<lparr>xs_q := src, xs_viz := Some (ep_viz (panel_of c k))\<rparr>) (s2\<lparr>xp_parsed := None\<rparr>)
          else record_entry ((xp_search s)\<lparr>xs_sql := Some src\<rparr>) s2)"

text \<open>A refused request: its problems when it names some, else its message.\<close>

record request_failure =
  rf_problems :: "problem list"
  rf_message :: string

definition editor_text :: "explore_kind \<Rightarrow> explore_page \<Rightarrow> string" where
  "editor_text kind s = (case kind of ExQuery \<Rightarrow> xp_text s | ExSql \<Rightarrow> xp_sql s)"

definition refuse_run :: "nat \<Rightarrow> request_failure \<Rightarrow> explore_page \<Rightarrow> explore_page" where
  "refuse_run j f s =
    (let k = xp_jobs s ! j; s1 = s\<lparr>xp_refused := Some (ej_kind k, ej_source k, ej_window k)\<rparr>
     in end_run j (if rf_problems f \<noteq> [] then (if editor_text (ej_kind k) s = ej_source k then s1\<lparr>xp_problems := rf_problems f\<rparr> else s1)
          else s1\<lparr>xp_error := Some (rf_message f)\<rparr>))"

definition receive_parse :: "explore_context \<Rightarrow> nat \<Rightarrow> (request_failure + parsed_query) \<Rightarrow> explore_page \<Rightarrow> explore_page" where
  "receive_parse c j r s =
    (let k = xp_jobs s ! j
     in if ej_aborted k then end_run j s
        else case r of
          Inl f \<Rightarrow> refuse_run j f s
        | Inr p \<Rightarrow>
            (let src = ej_source k; panel = panel_of c (k\<lparr>ej_parsed := Some p\<rparr>); now = xp_search s;
                 s1 = job_update j (\<lambda>k. k\<lparr>ej_parsed := Some p, ej_panel := Some panel, ej_canonical := Some (pq_canonical p), ej_phase := Querying\<rparr>) s
             in record_entry (now\<lparr>xs_q := src, xs_viz := Some (ep_viz panel), xs_drill := (if src \<noteq> xs_q now then None else xs_drill now)\<rparr>)
                  (s1\<lparr>xp_parsed := Some (p, src),
                     xp_notices := (if xp_text s = src then pq_notices p else xp_notices s),
                     xp_built := (if xs_tab now = ''builder'' then Some (pq_query p) else xp_built s)\<rparr>)))"

text \<open>A panel's result and, when it is invalid, its problems.\<close>

definition receive_results :: "nat \<Rightarrow> (request_failure + (panel_result \<times> problem list) list) \<Rightarrow> explore_page \<Rightarrow> explore_page" where
  "receive_results j r s =
    (let k = xp_jobs s ! j
     in if ej_aborted k then end_run j s
        else case r of
          Inl f \<Rightarrow> refuse_run j f s
        | Inr results \<Rightarrow> (case List.find (\<lambda>p. r_id (fst p) = explorePanelID) results of
            None \<Rightarrow> refuse_run j \<lparr>rf_problems = [], rf_message = ''The query returned no result.''\<rparr> s
          | Some (res, ps) \<Rightarrow>
              end_run j (if r_status res = RInvalid
                then (let s1 = s\<lparr>xp_refused := Some (ej_kind k, ej_source k, ej_window k)\<rparr>
                      in if editor_text (ej_kind k) s = ej_source k then s1\<lparr>xp_problems := ps\<rparr> else s1)
                else s\<lparr>xp_run := map_option (\<lambda>panel. \<lparr>er_kind = ej_kind k, er_source = ej_source k, er_window = ej_window k, er_panel = panel,
                     er_result = classifyPanelResult [explorePanelID] res, er_canonical = ej_canonical k\<rparr>) (ej_panel k),
                   xp_problems := (if ej_kind k = ExSql \<and> r_status res = RError \<and> \<not> r_retryable res \<and> xp_sql s = ej_source k
                     then [(''sql'', nullish (r_error res) ''Query failed'')] else xp_problems s)\<rparr>)))"

section \<open>Printing the builder's query\<close>

definition print_update :: "nat \<Rightarrow> (print_job \<Rightarrow> print_job) \<Rightarrow> explore_page \<Rightarrow> explore_page" where
  "print_update i f s = s\<lparr>xp_prints := (xp_prints s)[i := f (xp_prints s ! i)]\<rparr>"

definition cancelFormat :: "explore_page \<Rightarrow> explore_page" where
  "cancelFormat s = (let s1 = s\<lparr>xp_timer := None\<rparr>
     in case xp_printer s of Some i \<Rightarrow> print_update i (\<lambda>k. k\<lparr>pj_aborted := True\<rparr>) s1 | None \<Rightarrow> s1)"

definition format_query :: "panel_query \<Rightarrow> bool \<Rightarrow> (string option \<times> string) option \<Rightarrow> explore_page \<Rightarrow> explore_page" where
  "format_query q adopt then_run s =
    (let s1 = cancelFormat s
     in s1\<lparr>xp_prints := xp_prints s1 @ [\<lparr>pj_query = q, pj_adopt = adopt, pj_run = then_run, pj_aborted = False, pj_open = True\<rparr>],
          xp_printer := Some (length (xp_prints s1))\<rparr>)"

definition receive_print :: "explore_context \<Rightarrow> nat \<Rightarrow> (request_failure + formatted_query) \<Rightarrow> explore_page \<Rightarrow> explore_page" where
  "receive_print c i r s =
    (let k = xp_prints s ! i; s0 = print_update i (\<lambda>k. k\<lparr>pj_open := False\<rparr>) s
     in if pj_aborted k then s0
        else case r of
          Inl f \<Rightarrow> s0\<lparr>xp_format_problems := (if rf_problems f \<noteq> [] then rf_problems f else [(''query'', rf_message f)])\<rparr>
        | Inr f \<Rightarrow>
            (let s1 = s0\<lparr>xp_formatted := Some f, xp_format_problems := [],
                   xp_labels := foldl (\<lambda>m e. AList.update (fst e) (snd e) m) (xp_labels s) (labelsOf (pj_query k) f)\<rparr>;
                 s2 = (if pj_adopt k then s1\<lparr>xp_notices := fq_notices f, xp_problems := [], xp_text := fq_text f\<rparr> else s1)
             in case pj_run k of
                  Some (viz, window) \<Rightarrow> if xs_tab (xp_search s) = ''builder''
                    then execute c ExQuery (fq_text f) viz (if fq_editable f then None else Some (pj_query k)) window s2 else s2
                | None \<Rightarrow> s2))"

definition edit_query :: "panel_query \<Rightarrow> explore_page \<Rightarrow> explore_page" where
  "edit_query q s = s\<lparr>xp_built := Some q, xp_timer := Some q\<rparr>"

definition print_timer :: "explore_page \<Rightarrow> explore_page" where
  "print_timer s = (case xp_timer s of Some q \<Rightarrow> format_query q True None (s\<lparr>xp_timer := None\<rparr>) | None \<Rightarrow> s)"

definition shown_viz :: "explore_page \<Rightarrow> string option" where
  "shown_viz s = (case xp_run s of Some r \<Rightarrow> Some (ep_viz (er_panel r)) | None \<Rightarrow> xs_viz (xp_search s))"

definition runBuilder :: "string option \<Rightarrow> explore_page \<Rightarrow> explore_page" where
  "runBuilder viz s = (case xp_built s of
      None \<Rightarrow> s
    | Some q \<Rightarrow> format_query q True (Some (or_else viz (shown_viz s), windowOf (xp_search s))) s)"

section \<open>Tabs, editors and buttons\<close>

definition show_builder :: "explore_page \<Rightarrow> explore_page" where
  "show_builder s = (if xs_tab (xp_search s) \<noteq> ''builder'' then emit ((xp_search s)\<lparr>xs_tab := ''builder''\<rparr>) False s else s)"

text \<open>Opening the builder may need a parse of the text; \<open>xp_opens\<close> are those in flight.\<close>

definition openTab :: "string \<Rightarrow> explore_page \<Rightarrow> explore_page" where
  "openTab tab s =
    (if tab \<noteq> ''builder'' then
       (let s1 = (case (xp_built s, xp_timer s) of
            (Some q, Some _) \<Rightarrow> if xs_tab (xp_search s) = ''builder'' then format_query q True None s else s
          | _ \<Rightarrow> s)
        in emit ((xp_search s)\<lparr>xs_tab := tab\<rparr>) False s1)
     else if map_option fq_editable (xp_formatted s) = Some False \<and> xp_built s \<noteq> None then show_builder s
     else case xp_parsed s of
       Some (p, t) \<Rightarrow> if t = xp_text s then format_query (pq_query p) False None (show_builder (s\<lparr>xp_built := Some (pq_query p)\<rparr>))
         else if \<not> not_blank (xp_text s) then format_query starter False None (show_builder (s\<lparr>xp_built := Some starter\<rparr>))
         else s\<lparr>xp_opens := xp_opens s @ [Some (xp_text s)]\<rparr>
     | None \<Rightarrow> if \<not> not_blank (xp_text s) then format_query starter False None (show_builder (s\<lparr>xp_built := Some starter\<rparr>))
         else s\<lparr>xp_opens := xp_opens s @ [Some (xp_text s)]\<rparr>)"

definition receive_open :: "nat \<Rightarrow> string \<Rightarrow> (request_failure + parsed_query) \<Rightarrow> explore_page \<Rightarrow> explore_page" where
  "receive_open i t r s =
    (let s1 = s\<lparr>xp_opens := (xp_opens s)[i := None]\<rparr>
     in case r of
          Inr p \<Rightarrow> format_query (pq_query p) False None (show_builder (s1\<lparr>xp_parsed := Some (p, t), xp_built := Some (pq_query p)\<rparr>))
        | Inl f \<Rightarrow> if rf_problems f \<noteq> [] then s1\<lparr>xp_problems := rf_problems f\<rparr> else s1\<lparr>xp_error := Some (rf_message f)\<rparr>)"

definition type_query :: "string \<Rightarrow> (problem list \<times> problem list) option \<Rightarrow> explore_page \<Rightarrow> explore_page" where
  "type_query t kept s = (cancelFormat s)\<lparr>xp_text := t, xp_problems := (case kept of Some (ps, _) \<Rightarrow> ps | None \<Rightarrow> []),
     xp_notices := (case kept of Some (_, ns) \<Rightarrow> ns | None \<Rightarrow> []), xp_formatted := None\<rparr>"

definition type_sql :: "string \<Rightarrow> explore_page \<Rightarrow> explore_page" where
  "type_sql t s = s\<lparr>xp_sql := t, xp_problems := []\<rparr>"

text \<open>The query the text cannot carry, which a run sends as it is.\<close>

definition direct_query :: "explore_page \<Rightarrow> panel_query option" where
  "direct_query s = (if map_option fq_editable (xp_formatted s) = Some False then xp_built s else None)"

definition press_enter :: "explore_context \<Rightarrow> explore_page \<Rightarrow> explore_page" where
  "press_enter c s = execute c ExQuery (xp_text s) (xs_viz (xp_search s)) (direct_query s) (windowOf (xp_search s)) s"

definition enter_sql :: "explore_context \<Rightarrow> explore_page \<Rightarrow> explore_page" where
  "enter_sql c s = execute c ExSql (xp_sql s) None None (windowOf (xp_search s)) s"

definition run_disabled :: "explore_page \<Rightarrow> bool" where
  "run_disabled s = (if xs_tab (xp_search s) = ''builder'' then xp_built s = None \<or> xp_format_problems s \<noteq> [] \<or> xp_invalid s
     else \<not> not_blank (editor_text (kindOf (xs_tab (xp_search s))) s))"

definition press_run :: "explore_context \<Rightarrow> explore_page \<Rightarrow> explore_page" where
  "press_run c s =
    (let tab = xs_tab (xp_search s); viz = xs_viz (xp_search s)
     in if run_disabled s then s
        else if tab = ''builder'' then runBuilder viz s
        else execute c (kindOf tab) (editor_text (kindOf tab) s) viz (direct_query s) (windowOf (xp_search s)) s)"

definition pick_viz :: "explore_context \<Rightarrow> string \<Rightarrow> explore_page \<Rightarrow> explore_page" where
  "pick_viz c viz s = (if xs_tab (xp_search s) = ''builder'' then runBuilder (Some viz) s
     else execute c ExQuery (xp_text s) (Some viz) (direct_query s) (windowOf (xp_search s)) s)"

definition accept_edit :: "explore_context \<Rightarrow> string \<Rightarrow> string \<Rightarrow> explore_page \<Rightarrow> explore_page" where
  "accept_edit c viz t s = execute c ExQuery t (Some viz) None (windowOf (xp_search s)) (s\<lparr>xp_text := t\<rparr>)"

definition retry_run :: "explore_context \<Rightarrow> explore_page \<Rightarrow> explore_page" where
  "retry_run c s = (case xp_run s of
      Some r \<Rightarrow> execute c (er_kind r) (er_source r) (Some (ep_viz (er_panel r))) (direct_query s) (windowOf (xp_search s)) s
    | None \<Rightarrow> s)"

section \<open>Following the address\<close>

definition rerun :: "explore_context \<Rightarrow> explore_page \<Rightarrow> explore_page" where
  "rerun c s =
    (let kind = kindOf (xs_tab (xp_search s))
     in if xs_tab (xp_search s) = ''builder'' \<and> xp_built s \<noteq> None then runBuilder (shown_viz s) s
        else execute c kind (editor_text kind s) (shown_viz s) (direct_query s) (windowOf (xp_search s)) s)"

definition entry_of :: "explore_search \<Rightarrow> string \<times> string \<times> string option" where
  "entry_of e = (xs_q e, nullish (xs_sql e) [], xs_viz e)"

text \<open>The effect that runs when the page opens and when the entry's query, SQL, viz or window changed.\<close>

definition follow_entry :: "explore_context \<Rightarrow> explore_page \<Rightarrow> explore_page" where
  "follow_entry c s =
    (let e = xp_search s; entry = entry_of e; same = entry = xp_shown s; window = windowOf e;
         opened = xp_seen s = None; moved = xp_seen s \<noteq> Some window; chosen = xp_asked s = Some window;
         s1 = s\<lparr>xp_seen := Some window, xp_asked := None\<rparr>
     in if same \<and> (opened \<or> moved \<and> chosen) then rerun c s1
        else if same \<and> \<not> moved then s1
        else (let s2 = (cancelFormat (s1\<lparr>xp_shown := entry\<rparr>))\<lparr>xp_formatted := None, xp_problems := [], xp_text := xs_q e, xp_sql := nullish (xs_sql e) []\<rparr>;
                  kind = kindOf (xs_tab e)
              in execute c kind (case kind of ExQuery \<Rightarrow> xs_q e | ExSql \<Rightarrow> nullish (xs_sql e) []) (xs_viz e) None window s2))"

definition entry_changed :: "explore_search \<Rightarrow> explore_search \<Rightarrow> bool" where
  "entry_changed a b \<longleftrightarrow> xs_q a \<noteq> xs_q b \<or> xs_sql a \<noteq> xs_sql b \<or> xs_viz a \<noteq> xs_viz b \<or> windowOf a \<noteq> windowOf b"

definition navigated :: "explore_context \<Rightarrow> explore_search \<Rightarrow> explore_page \<Rightarrow> explore_page" where
  "navigated c e s = (let s1 = s\<lparr>xp_search := e\<rparr> in if entry_changed (xp_search s) e then follow_entry c s1 else s1)"

text \<open>The page as it is first shown, and what a remount does.\<close>

definition blank_page :: "explore_context \<Rightarrow> explore_search \<Rightarrow> explore_page" where
  "blank_page c e = \<lparr>xp_search = e, xp_text = xs_q e, xp_sql = nullish (xs_sql e) [], xp_parsed = None,
     xp_built = map_option fst (xc_initial c), xp_formatted = map_option snd (xc_initial c), xp_format_problems = [],
     xp_labels = (case xc_initial c of Some (q, f) \<Rightarrow> labelsOf q f | None \<Rightarrow> []), xp_invalid = False, xp_problems = [], xp_notices = [],
     xp_error = None, xp_run = None, xp_refused = None, xp_running = False, xp_controller = None, xp_jobs = [], xp_timer = None,
     xp_printer = None, xp_prints = [], xp_opens = [], xp_shown = entry_of e, xp_asked = None, xp_seen = None, xp_entries = []\<rparr>"

definition mount_page :: "explore_context \<Rightarrow> explore_page \<Rightarrow> explore_page" where
  "mount_page c s = (let s1 = follow_entry c s in if xs_tab (xp_search s1) = ''builder'' then openTab ''builder'' s1 else s1)"

definition remount_page :: "explore_context \<Rightarrow> explore_page \<Rightarrow> explore_page" where
  "remount_page c s = mount_page c ((cancelFormat (abort_run s))\<lparr>xp_seen := None\<rparr>)"

section \<open>What can be saved\<close>

definition current_source :: "explore_page \<Rightarrow> string" where
  "current_source s = editor_text (kindOf (xs_tab (xp_search s))) s"

definition stale_run :: "explore_page \<Rightarrow> bool" where
  "stale_run s = (case xp_run s of
      Some r \<Rightarrow> er_kind r \<noteq> kindOf (xs_tab (xp_search s)) \<or> er_source r \<noteq> current_source s \<or> er_window r \<noteq> windowOf (xp_search s)
    | None \<Rightarrow> False)"

definition ran_run :: "explore_context \<Rightarrow> explore_page \<Rightarrow> bool" where
  "ran_run c s \<longleftrightarrow> \<not> stale_run s \<and> \<not> xp_running s \<and> canKeep (xp_run s) (xc_base c \<noteq> None)"

text \<open>\<open>opened\<close> is the text and the SQL the editor opened with.\<close>

definition dirty_editor :: "string \<times> string \<Rightarrow> explore_page \<Rightarrow> bool" where
  "dirty_editor opened s \<longleftrightarrow> xp_text s \<noteq> fst opened \<or> xp_sql s \<noteq> snd opened"

definition unchanged_panel :: "explore_context \<Rightarrow> string \<times> string \<Rightarrow> explore_page \<Rightarrow> bool" where
  "unchanged_panel c opened s = (case xc_base c of
      Some b \<Rightarrow> \<not> dirty_editor opened s \<and> nullish (xs_viz (xp_search s)) (ep_viz b) = ep_viz b
    | None \<Rightarrow> False)"

definition canSave :: "explore_context \<Rightarrow> string \<times> string \<Rightarrow> explore_page \<Rightarrow> bool" where
  "canSave c opened s \<longleftrightarrow> ran_run c s \<or> unchanged_panel c opened s"

text \<open>The panel the Save button hands on.\<close>

definition saved_panel :: "explore_context \<Rightarrow> string \<times> string \<Rightarrow> explore_page \<Rightarrow> explore_panel option" where
  "saved_panel c opened s = (if \<not> canSave c opened s then None
     else if ran_run c s then map_option er_panel (xp_run s) else xc_base c)"

definition failed_run :: "explore_page \<Rightarrow> bool" where
  "failed_run s = (case xp_refused s of
      Some (kind, src, window) \<Rightarrow> kind = kindOf (xs_tab (xp_search s)) \<and> src = current_source s \<and> window = windowOf (xp_search s)
    | None \<Rightarrow> \<not> stale_run s \<and> (case xp_run s of Some r \<Rightarrow> r_status (er_result r) = RError | None \<Rightarrow> False))"

definition saveReason :: "explore_context \<Rightarrow> explore_page \<Rightarrow> string" where
  "saveReason c s =
    (if xp_running s then ''Wait for the run to finish''
     else if failed_run s then ''The last run failed; saving needs a run that works''
     else if stale_run s then ''Run the query as it is now first''
     else if xc_base c \<noteq> None then ''Run the query first''
     else ''Run a query that returns rows first'')"

section \<open>The page as a machine\<close>

datatype explore_event =
    ParseReply nat "request_failure + parsed_query"
  | ResultsReply nat "request_failure + (panel_result \<times> problem list) list"
  | PrintReply nat "request_failure + formatted_query"
  | OpenReply nat "request_failure + parsed_query"
  | EditQuery panel_query
  | PrintTimer
  | BuilderInvalid bool
  | OpenTab string
  | TypeQuery string "(problem list \<times> problem list) option"
  | TypeSql string
  | PressEnter
  | EnterSql
  | PressRun
  | PickViz string
  | AcceptEdit string string
  | RetryRun
  | PickWindow explore_search explore_search
  | Navigated explore_search
  | Remount

definition explore_step :: "explore_context \<Rightarrow> explore_page \<Rightarrow> explore_event \<Rightarrow> explore_page" where
  "explore_step c s e = (case e of
      ParseReply j r \<Rightarrow> if map_option ej_phase (nth_opt (xp_jobs s) j) = Some Parsing then receive_parse c j r s else s
    | ResultsReply j r \<Rightarrow> if map_option ej_phase (nth_opt (xp_jobs s) j) = Some Querying then receive_results j r s else s
    | PrintReply i r \<Rightarrow> if map_option pj_open (nth_opt (xp_prints s) i) = Some True then receive_print c i r s else s
    | OpenReply i r \<Rightarrow> (case nth_opt (xp_opens s) i of Some (Some t) \<Rightarrow> receive_open i t r s | _ \<Rightarrow> s)
    | EditQuery q \<Rightarrow> edit_query q s
    | PrintTimer \<Rightarrow> print_timer s
    | BuilderInvalid b \<Rightarrow> s\<lparr>xp_invalid := b\<rparr>
    | OpenTab tab \<Rightarrow> openTab tab s
    | TypeQuery t kept \<Rightarrow> type_query t kept s
    | TypeSql t \<Rightarrow> type_sql t s
    | PressEnter \<Rightarrow> press_enter c s
    | EnterSql \<Rightarrow> enter_sql c s
    | PressRun \<Rightarrow> press_run c s
    | PickViz viz \<Rightarrow> pick_viz c viz s
    | AcceptEdit viz t \<Rightarrow> accept_edit c viz t s
    | RetryRun \<Rightarrow> retry_run c s
    | PickWindow e held \<Rightarrow> pickWindow (\<lambda>_. held) e s
    | Navigated e \<Rightarrow> navigated c e s
    | Remount \<Rightarrow> remount_page c s)"

definition explore_after :: "explore_context \<Rightarrow> explore_search \<Rightarrow> explore_event list \<Rightarrow> explore_page" where
  "explore_after c e es = foldl (explore_step c) (mount_page c (blank_page c e)) es"

section \<open>The invariant\<close>

definition in_flight :: "explore_page \<Rightarrow> nat \<Rightarrow> bool" where
  "in_flight s j \<longleftrightarrow> j < length (xp_jobs s) \<and> ej_phase (xp_jobs s ! j) \<noteq> Ended \<and> \<not> ej_aborted (xp_jobs s ! j)"

definition job_ok :: "explore_context \<Rightarrow> explore_job \<Rightarrow> bool" where
  "job_ok c k \<longleftrightarrow> (ej_phase k = Parsing \<longrightarrow> ej_kind k = ExQuery \<and> ej_direct k = None \<and> ej_panel k = None)
     \<and> (ej_phase k = Querying \<longrightarrow> ej_panel k \<noteq> None)
     \<and> (\<forall>p. ej_panel k = Some p \<longrightarrow> p = panel_of c k \<and> (ej_kind k = ExQuery \<and> ej_direct k = None \<longrightarrow> ej_parsed k \<noteq> None))"

definition made_by :: "explore_job \<Rightarrow> explore_run \<Rightarrow> bool" where
  "made_by k r \<longleftrightarrow> ej_phase k = Ended \<and> er_kind r = ej_kind k \<and> er_source r = ej_source k \<and> er_window r = ej_window k
     \<and> ej_panel k = Some (er_panel r)"

definition jobs_ok :: "explore_context \<Rightarrow> explore_page \<Rightarrow> bool" where
  "jobs_ok c s \<longleftrightarrow> (\<forall>j. in_flight s j \<longrightarrow> xp_controller s = Some j)
     \<and> (\<forall>j. xp_controller s = Some j \<longrightarrow> j < length (xp_jobs s))
     \<and> (xp_running s = (\<exists>j. xp_controller s = Some j \<and> ej_phase (xp_jobs s ! j) \<noteq> Ended))
     \<and> list_all (job_ok c) (xp_jobs s)"

definition run_ok :: "explore_page \<Rightarrow> bool" where
  "run_ok s \<longleftrightarrow> (\<forall>r. xp_run s = Some r \<longrightarrow> (\<exists>k \<in> set (xp_jobs s). made_by k r))"

definition page_ok :: "explore_context \<Rightarrow> explore_page \<Rightarrow> bool" where
  "page_ok c s \<longleftrightarrow> jobs_ok c s \<and> run_ok s"

lemma panel_of_cong:
  assumes "ej_kind k = ej_kind k'" "ej_source k = ej_source k'" "ej_viz k = ej_viz k'" "ej_direct k = ej_direct k'" "ej_parsed k = ej_parsed k'"
  shows "panel_of c k = panel_of c k'"
  unfolding panel_of_def assms ..

lemma panel_of_simps [simp]:
  "panel_of c (k\<lparr>ej_aborted := a\<rparr>) = panel_of c k" "panel_of c (k\<lparr>ej_phase := p\<rparr>) = panel_of c k"
  "panel_of c (k\<lparr>ej_panel := q\<rparr>) = panel_of c k" "panel_of c (k\<lparr>ej_canonical := t\<rparr>) = panel_of c k"
  by (rule panel_of_cong; simp)+

text \<open>What the invariant is about.\<close>

definition run_part :: "explore_page \<Rightarrow> explore_job list \<times> nat option \<times> bool \<times> explore_run option" where
  "run_part s = (xp_jobs s, xp_controller s, xp_running s, xp_run s)"

lemma page_ok_cong: "run_part s' = run_part s \<Longrightarrow> page_ok c s' = page_ok c s"
  by (simp add: page_ok_def jobs_ok_def run_ok_def in_flight_def run_part_def)

lemma run_part_update [simp]:
  "run_part (s\<lparr>xp_search := v_search\<rparr>) = run_part s" "run_part (s\<lparr>xp_text := v_text\<rparr>) = run_part s"
  "run_part (s\<lparr>xp_sql := v_sql\<rparr>) = run_part s" "run_part (s\<lparr>xp_parsed := v_parsed\<rparr>) = run_part s"
  "run_part (s\<lparr>xp_built := v_built\<rparr>) = run_part s" "run_part (s\<lparr>xp_formatted := v_formatted\<rparr>) = run_part s"
  "run_part (s\<lparr>xp_format_problems := v_format_problems\<rparr>) = run_part s" "run_part (s\<lparr>xp_labels := v_labels\<rparr>) = run_part s"
  "run_part (s\<lparr>xp_invalid := v_invalid\<rparr>) = run_part s" "run_part (s\<lparr>xp_problems := v_problems\<rparr>) = run_part s"
  "run_part (s\<lparr>xp_notices := v_notices\<rparr>) = run_part s" "run_part (s\<lparr>xp_error := v_error\<rparr>) = run_part s"
  "run_part (s\<lparr>xp_refused := v_refused\<rparr>) = run_part s" "run_part (s\<lparr>xp_timer := v_timer\<rparr>) = run_part s"
  "run_part (s\<lparr>xp_printer := v_printer\<rparr>) = run_part s" "run_part (s\<lparr>xp_prints := v_prints\<rparr>) = run_part s"
  "run_part (s\<lparr>xp_opens := v_opens\<rparr>) = run_part s" "run_part (s\<lparr>xp_shown := v_shown\<rparr>) = run_part s"
  "run_part (s\<lparr>xp_asked := v_asked\<rparr>) = run_part s" "run_part (s\<lparr>xp_seen := v_seen\<rparr>) = run_part s"
  "run_part (s\<lparr>xp_entries := v_entries\<rparr>) = run_part s"
  by (simp_all add: run_part_def)

lemma run_part_simps [simp]:
  "run_part (emit e b s) = run_part s" "run_part (record_entry e s) = run_part s" "run_part (pickWindow h e s) = run_part s"
  "run_part (cancelFormat s) = run_part s" "run_part (format_query q a t s) = run_part s" "run_part (edit_query q s) = run_part s"
  "run_part (print_update i g s) = run_part s" "run_part (show_builder s) = run_part s"
  by (auto simp: emit_def record_entry_def pickWindow_def cancelFormat_def format_query_def edit_query_def
      print_update_def show_builder_def Let_def split: option.split)

lemma run_part_more [simp]:
  "run_part (print_timer s) = run_part s" "run_part (runBuilder v s) = run_part s" "run_part (openTab tab s) = run_part s"
  "run_part (receive_open i t r s) = run_part s" "run_part (type_query t kept s) = run_part s" "run_part (type_sql t s) = run_part s"
  by (auto simp: print_timer_def runBuilder_def openTab_def receive_open_def type_query_def type_sql_def Let_def
      split: option.split prod.split sum.split)

lemma job_update_simps [simp]:
  "xp_jobs (job_update j f s) = (xp_jobs s)[j := f (xp_jobs s ! j)]" "xp_controller (job_update j f s) = xp_controller s"
  "xp_running (job_update j f s) = xp_running s" "xp_run (job_update j f s) = xp_run s"
  by (simp_all add: job_update_def)

lemma in_update: "x \<in> set (xs[i := y]) \<Longrightarrow> x \<in> set xs \<or> x = y"
  using set_update_subset_insert [of xs i y] by auto

lemma made_by_update:
  assumes "k \<in> set xs" "made_by k r" "j < length xs" "\<And>r. made_by (xs ! j) r \<Longrightarrow> made_by (f (xs ! j)) r"
  shows "\<exists>k \<in> set (xs[j := f (xs ! j)]). made_by k r"
proof -
  obtain i where i: "i < length xs" "xs ! i = k" using assms(1) by (auto simp: in_set_conv_nth)
  then have "made_by (xs[j := f (xs ! j)] ! i) r" using assms by (cases "i = j") auto
  with i show ?thesis by (metis length_list_update nth_mem)
qed

lemma job_update_ok:
  assumes "page_ok c s" "j < length (xp_jobs s)" "k = xp_jobs s ! j" "job_ok c (f k)"
    "ej_aborted k \<longrightarrow> ej_aborted (f k)" "ej_phase (f k) = Ended \<longleftrightarrow> ej_phase k = Ended" "\<And>r. made_by k r \<Longrightarrow> made_by (f k) r"
  shows "page_ok c (job_update j f s)"
  unfolding page_ok_def
proof
  have ok: "jobs_ok c s" "run_ok s" using assms(1) by (simp_all add: page_ok_def)
  have flight: "in_flight (job_update j f s) i \<Longrightarrow> in_flight s i" for i
    using assms(2,3,5,6) by (cases "i = j") (auto simp: in_flight_def)
  have phase: "ej_phase ((xp_jobs s)[j := f (xp_jobs s ! j)] ! i) \<noteq> Ended \<longleftrightarrow> ej_phase (xp_jobs s ! i) \<noteq> Ended" for i
    using assms(2,3,6) by (cases "i = j") auto
  show "jobs_ok c (job_update j f s)"
    using ok(1) flight assms(3,4) phase
    by (auto simp: jobs_ok_def list_all_iff dest!: in_update)
  show "run_ok (job_update j f s)"
    unfolding run_ok_def
  proof (intro allI impI)
    fix r assume "xp_run (job_update j f s) = Some r"
    then obtain k' where "k' \<in> set (xp_jobs s)" "made_by k' r" using ok(2) by (auto simp: run_ok_def)
    then show "\<exists>k \<in> set (xp_jobs (job_update j f s)). made_by k r"
      using made_by_update [of k' "xp_jobs s" r j f] assms(2,3,7) by simp
  qed
qed

lemma abort_run_ok: "page_ok c s \<Longrightarrow> page_ok c (abort_run s)"
proof (cases "xp_controller s")
  case (Some j)
  assume ok: "page_ok c s"
  then have j: "j < length (xp_jobs s)" using Some by (simp add: page_ok_def jobs_ok_def)
  then have "job_ok c (xp_jobs s ! j)" using ok by (simp add: page_ok_def jobs_ok_def list_all_length)
  then have "job_ok c ((xp_jobs s ! j)\<lparr>ej_aborted := True\<rparr>)" by (simp add: job_ok_def)
  then have "page_ok c (job_update j (\<lambda>k. k\<lparr>ej_aborted := True\<rparr>) s)"
    by (intro job_update_ok [OF ok j refl]) (auto simp: made_by_def)
  then show ?thesis by (simp add: abort_run_def Some)
qed (simp add: abort_run_def)

lemma abort_run_frees:
  assumes "page_ok c s"
  shows "\<not> in_flight (abort_run s) j"
proof
  assume flight: "in_flight (abort_run s) j"
  have only: "i < length (xp_jobs s) \<Longrightarrow> ej_phase (xp_jobs s ! i) \<noteq> Ended \<Longrightarrow> \<not> ej_aborted (xp_jobs s ! i) \<Longrightarrow> xp_controller s = Some i" for i
    using assms unfolding page_ok_def jobs_ok_def in_flight_def by blast
  show False
  proof (cases "xp_controller s")
    case None
    then show False using flight only [of j] by (simp add: abort_run_def in_flight_def)
  next
    case (Some i)
    then show False using flight only [of j] by (cases "j = i") (auto simp: abort_run_def in_flight_def)
  qed
qed

lemma abort_run_simps [simp]: "length (xp_jobs (abort_run s)) = length (xp_jobs s)" "xp_run (abort_run s) = xp_run s"
  by (simp_all add: abort_run_def split: option.split)

text \<open>A new run replaces the one in flight.\<close>

lemma new_job_ok:
  assumes "page_ok c s" "job_ok c k" "ej_phase k \<noteq> Ended"
    and "run_part t = (xp_jobs (abort_run s) @ [k], Some (length (xp_jobs s)), True, xp_run s)"
  shows "page_ok c t"
  unfolding page_ok_def
proof
  have ok: "jobs_ok c (abort_run s)" "run_ok (abort_run s)" using abort_run_ok [OF assms(1)] by (simp_all add: page_ok_def)
  have t: "xp_jobs t = xp_jobs (abort_run s) @ [k]" "xp_controller t = Some (length (xp_jobs s))" "xp_running t" "xp_run t = xp_run s"
    using assms(4) by (simp_all add: run_part_def)
  have "in_flight t j \<Longrightarrow> j = length (xp_jobs s)" for j
    using abort_run_frees [OF assms(1), of j] by (auto simp: in_flight_def t nth_append split: if_splits)
  then show "jobs_ok c t"
    using ok(1) assms(2,3) by (auto simp: jobs_ok_def t list_all_iff nth_append)
  show "run_ok t" using ok(2) by (auto simp: run_ok_def t)
qed

lemma execute_ok:
  assumes "page_ok c s"
  shows "page_ok c (execute c kind src viz direct window s)"
proof (cases "not_blank src")
  case True
  define k where "k = \<lparr>ej_kind = kind, ej_source = src, ej_viz = viz, ej_direct = direct, ej_window = window, ej_parsed = None,
    ej_panel = None, ej_canonical = None, ej_phase = Parsing, ej_aborted = False\<rparr>"
  define k' where "k' = (if kind = ExQuery \<and> direct = None then k
    else k\<lparr>ej_panel := Some (panel_of c k), ej_canonical := (if kind = ExQuery then Some src else None), ej_phase := Querying\<rparr>)"
  have kind: "ej_kind k = kind" "ej_direct k = direct" "ej_panel k = None" "ej_phase k = Parsing" by (simp_all add: k_def)
  have k': "job_ok c k'" "ej_phase k' \<noteq> Ended" by (auto simp: k'_def kind job_ok_def)
  have "run_part (execute c kind src viz direct window s) = (xp_jobs (abort_run s) @ [k'], Some (length (xp_jobs s)), True, xp_run s)"
    unfolding execute_def Let_def k_def [symmetric] using True by (auto simp: k'_def) (auto simp: run_part_def)
  then show ?thesis by (rule new_job_ok [OF assms k'])
qed (simp add: execute_def assms)

lemma end_run_ok:
  assumes ok: "page_ok c s" and j: "j < length (xp_jobs s)" "ej_phase (xp_jobs s ! j) \<noteq> Ended"
    and r: "r = xp_run s \<or> (\<exists>x. r = Some x \<and> made_by ((xp_jobs s ! j)\<lparr>ej_phase := Ended\<rparr>) x)"
  shows "page_ok c (end_run j (s\<lparr>xp_run := r\<rparr>))"
  unfolding page_ok_def
proof
  have jobs: "jobs_ok c s" and run: "run_ok s" using ok by (simp_all add: page_ok_def)
  let ?k = "(xp_jobs s ! j)\<lparr>ej_phase := Ended\<rparr>"
  have t: "xp_jobs (end_run j (s\<lparr>xp_run := r\<rparr>)) = (xp_jobs s)[j := ?k]" "xp_controller (end_run j (s\<lparr>xp_run := r\<rparr>)) = xp_controller s"
    "xp_run (end_run j (s\<lparr>xp_run := r\<rparr>)) = r" "xp_running (end_run j (s\<lparr>xp_run := r\<rparr>)) = (xp_running s \<and> xp_controller s \<noteq> Some j)"
    by (simp_all add: end_run_def Let_def job_update_def)
  have k: "job_ok c ?k" using jobs j(1) by (auto simp: jobs_ok_def list_all_length job_ok_def)
  have flight: "in_flight (end_run j (s\<lparr>xp_run := r\<rparr>)) i \<Longrightarrow> in_flight s i" for i
    by (cases "i = j") (auto simp: in_flight_def t)
  have running: "(xp_running s \<and> xp_controller s \<noteq> Some j) = (\<exists>i. xp_controller s = Some i \<and> ej_phase ((xp_jobs s)[j := ?k] ! i) \<noteq> Ended)"
    using jobs j(1) by (cases "xp_controller s") (auto simp: jobs_ok_def nth_list_update)
  show "jobs_ok c (end_run j (s\<lparr>xp_run := r\<rparr>))"
    unfolding jobs_ok_def t running using jobs flight k
    by (auto simp: jobs_ok_def list_all_iff dest!: in_update)
  show "run_ok (end_run j (s\<lparr>xp_run := r\<rparr>))"
    unfolding run_ok_def t
  proof (intro allI impI)
    fix x assume x: "r = Some x"
    from r show "\<exists>k \<in> set ((xp_jobs s)[j := ?k]). made_by k x"
    proof
      assume "r = xp_run s"
      then have "xp_run s = Some x" using x by simp
      then obtain k' where "k' \<in> set (xp_jobs s)" "made_by k' x" using run unfolding run_ok_def by blast
      moreover have "made_by (xp_jobs s ! j) y \<Longrightarrow> made_by ?k y" for y using j(2) by (simp add: made_by_def)
      ultimately show ?thesis using made_by_update [of k' "xp_jobs s" x j "\<lambda>k. k\<lparr>ej_phase := Ended\<rparr>"] j(1) by simp
    next
      assume "\<exists>x. r = Some x \<and> made_by ?k x"
      with x j(1) show ?thesis by (auto intro: set_update_memI)
    qed
  qed
qed

lemma end_run_part: "run_part s = run_part t \<Longrightarrow> run_part (end_run j s) = run_part (end_run j t)"
  by (auto simp: run_part_def end_run_def Let_def job_update_def)

lemma refuse_run_ok:
  assumes "page_ok c s" "j < length (xp_jobs s)" "ej_phase (xp_jobs s ! j) \<noteq> Ended"
  shows "page_ok c (refuse_run j f s)"
proof -
  have eq: "run_part (refuse_run j f s) = run_part (end_run j (s\<lparr>xp_run := xp_run s\<rparr>))"
    unfolding refuse_run_def Let_def by (rule end_run_part) simp
  show ?thesis unfolding page_ok_cong [OF eq] by (rule end_run_ok [OF assms]) simp
qed

lemma receive_parse_ok:
  assumes ok: "page_ok c s" and j: "j < length (xp_jobs s)" "ej_phase (xp_jobs s ! j) = Parsing"
  shows "page_ok c (receive_parse c j r s)"
proof -
  have run: "s\<lparr>xp_run := xp_run s\<rparr> = s" by simp
  have ended: "page_ok c (end_run j s)" using end_run_ok [OF ok j(1), of "xp_run s"] j(2) unfolding run by simp
  have refused: "page_ok c (refuse_run j f s)" for f using refuse_run_ok [OF ok j(1)] j(2) by simp
  have parsed: "page_ok c (receive_parse c j (Inr p) s)" if alive: "\<not> ej_aborted (xp_jobs s ! j)" for p
  proof -
    let ?panel = "panel_of c ((xp_jobs s ! j)\<lparr>ej_parsed := Some p\<rparr>)"
    define f :: "explore_job \<Rightarrow> explore_job" where "f = (\<lambda>k. k\<lparr>ej_parsed := Some p, ej_panel := Some ?panel, ej_canonical := Some (pq_canonical p), ej_phase := Querying\<rparr>)"
    have k: "job_ok c (xp_jobs s ! j)" using ok j(1) by (simp add: page_ok_def jobs_ok_def list_all_length)
    then have "job_ok c (f (xp_jobs s ! j))" using j(2) by (simp add: job_ok_def f_def)
    then have "page_ok c (job_update j f s)"
      by (rule job_update_ok [OF ok j(1) refl]) (use j(2) in \<open>simp_all add: f_def made_by_def\<close>)
    moreover have eq: "run_part (receive_parse c j (Inr p) s) = run_part (job_update j f s)"
      using alive by (simp add: receive_parse_def Let_def f_def)
    ultimately show ?thesis unfolding page_ok_cong [OF eq] by simp
  qed
  show ?thesis
  proof (cases "ej_aborted (xp_jobs s ! j)")
    case True
    then show ?thesis using ended by (simp add: receive_parse_def Let_def)
  next
    case False
    then show ?thesis using refused parsed by (cases r) (simp_all add: receive_parse_def)
  qed
qed

lemma receive_results_ok:
  assumes ok: "page_ok c s" and j: "j < length (xp_jobs s)" "ej_phase (xp_jobs s ! j) = Querying"
  shows "page_ok c (receive_results j r s)"
proof -
  let ?k = "xp_jobs s ! j"
  have k: "job_ok c ?k" using ok j(1) by (simp add: page_ok_def jobs_ok_def list_all_length)
  then obtain panel where panel: "ej_panel ?k = Some panel" using j(2) by (auto simp: job_ok_def)
  have phase: "ej_phase ?k \<noteq> Ended" using j(2) by simp
  have refused: "page_ok c (refuse_run j f s)" for f using refuse_run_ok [OF ok j(1)] phase by simp
  have kept: "page_ok c (end_run j t)" if "run_part t = run_part s" for t
  proof -
    have eq: "run_part (end_run j t) = run_part (end_run j (s\<lparr>xp_run := xp_run s\<rparr>))" by (rule end_run_part) (simp add: that)
    show ?thesis unfolding page_ok_cong [OF eq] by (rule end_run_ok [OF ok j(1) phase]) simp
  qed
  have landed: "page_ok c (end_run j t)" if t: "run_part t = run_part (s\<lparr>xp_run := Some x\<rparr>)" and x: "made_by (?k\<lparr>ej_phase := Ended\<rparr>) x" for t x
    unfolding page_ok_cong [OF end_run_part [OF t]] by (rule end_run_ok [OF ok j(1) phase]) (use x in simp)
  show ?thesis
  proof (cases "ej_aborted ?k")
    case True
    then show ?thesis using kept [of s] by (simp add: receive_results_def)
  next
    case alive: False
    show ?thesis
    proof (cases r)
      case (Inl f)
      then show ?thesis using alive refused by (simp add: receive_results_def)
    next
      case (Inr results)
      show ?thesis
      proof (cases "List.find (\<lambda>p. r_id (fst p) = explorePanelID) results")
        case None
        then show ?thesis using alive refused Inr by (simp add: receive_results_def)
      next
        case (Some found)
        obtain res ps where found: "found = (res, ps)" by (cases found)
        show ?thesis
        proof (cases "r_status res = RInvalid")
          case True
          show ?thesis unfolding receive_results_def Let_def using alive Inr Some found True by (simp add: kept)
        next
          case False
          show ?thesis unfolding receive_results_def Let_def
            using alive Inr Some found False panel by (simp add: landed made_by_def)
        qed
      qed
    qed
  qed
qed

lemma page_ok_same: "page_ok c s \<Longrightarrow> run_part t = run_part s \<Longrightarrow> page_ok c t"
  using page_ok_cong by blast

lemma execute_same_ok: "page_ok c s \<Longrightarrow> run_part t = run_part s \<Longrightarrow> page_ok c (execute c kind src viz direct window t)"
  by (rule execute_ok) (rule page_ok_same)

lemma receive_print_ok: "page_ok c s \<Longrightarrow> page_ok c (receive_print c i r s)"
  unfolding receive_print_def Let_def
  by (auto intro: execute_same_ok elim: page_ok_same split: sum.split option.split)

lemma rerun_ok: "page_ok c s \<Longrightarrow> page_ok c (rerun c s)"
  by (auto simp: rerun_def Let_def execute_ok elim: page_ok_same)

lemma rerun_same_ok: "page_ok c s \<Longrightarrow> run_part t = run_part s \<Longrightarrow> page_ok c (rerun c t)"
  by (rule rerun_ok) (rule page_ok_same)

lemma follow_entry_ok: "page_ok c s \<Longrightarrow> page_ok c (follow_entry c s)"
  unfolding follow_entry_def Let_def
  by (auto intro: execute_same_ok rerun_same_ok elim: page_ok_same)

lemma mount_page_ok: "page_ok c s \<Longrightarrow> page_ok c (mount_page c s)"
  using follow_entry_ok [of c s] by (auto simp: mount_page_def Let_def elim: page_ok_same)

lemma explore_step_ok:
  assumes ok: "page_ok c s"
  shows "page_ok c (explore_step c s e)"
proof (cases e)
  case (ParseReply j r)
  then show ?thesis using ok receive_parse_ok [OF ok, of j r] by (auto simp: explore_step_def nth_opt_def)
next
  case (ResultsReply j r)
  then show ?thesis using ok receive_results_ok [OF ok, of j r] by (auto simp: explore_step_def nth_opt_def)
next
  case (Navigated x)
  have "page_ok c (s\<lparr>xp_search := x\<rparr>)" using ok by (rule page_ok_same) simp
  then show ?thesis using Navigated follow_entry_ok by (simp add: explore_step_def navigated_def Let_def)
next
  case Remount
  have "page_ok c ((cancelFormat (abort_run s))\<lparr>xp_seen := None\<rparr>)" by (rule page_ok_same [OF abort_run_ok [OF ok]]) simp
  then show ?thesis using Remount mount_page_ok by (simp add: explore_step_def remount_page_def)
next
  case PressRun
  then show ?thesis using ok by (auto simp: explore_step_def press_run_def Let_def execute_ok elim: page_ok_same)
qed (use ok receive_print_ok [OF ok] in \<open>auto simp: explore_step_def press_enter_def enter_sql_def pick_viz_def accept_edit_def retry_run_def
    intro: execute_same_ok elim: page_ok_same split: option.split\<close>)

interpretation explore: event_machine "explore_step c" "page_ok c" for c
  by unfold_locales (rule explore_step_ok)

lemma explore_after_ok: "page_ok c (explore_after c e es)"
proof -
  have "page_ok c (blank_page c e)" by (simp add: page_ok_def jobs_ok_def run_ok_def in_flight_def blank_page_def)
  then show ?thesis unfolding explore_after_def by (intro explore.inv_run mount_page_ok)
qed

section \<open>What is saved and shown\<close>

lemma idle_page: "page_ok c s \<Longrightarrow> \<not> xp_running s \<Longrightarrow> \<not> in_flight s j"
  unfolding page_ok_def jobs_ok_def in_flight_def by blast


definition demo_context :: explore_context where
  "demo_context = \<lparr>xc_base = None, xc_compose = (\<lambda>p. p), xc_initial = None\<rparr>"

definition demo_parse :: parsed_query where
  "demo_parse = \<lparr>pq_query = starter, pq_canonical = ''spans | count()'', pq_compatible = [(''timeseries'', [])], pq_edits = [], pq_notices = []\<rparr>"

definition demo_result :: panel_result where
  "demo_result = \<lparr>r_id = ''explore'', r_status = ROk, r_frame = Some \<lparr>f_columns = [], f_values = [], f_rows = 1, f_totals = None,
     f_truncated = False, f_periods = None\<rparr>, r_previous = None, r_error = None, r_busy = False, r_retryable = False, r_interval = None,
     r_from_ms = None, r_to_ms = None, r_better = None, r_shift_ms = None, r_scope = None, r_annotation_error = None\<rparr>"

definition demo_events :: "explore_event list" where
  "demo_events = [TypeQuery ''spans'' None, PressEnter, ParseReply 0 (Inr demo_parse), ResultsReply 0 (Inr [(demo_result, [])])]"

lemma demo_texts: "not_blank ''spans''" "not_blank ''logs''" "\<not> not_blank []"
  by (simp_all add: not_blank_def js_space_def cp_of_def is_cont_def byte_def)

lemmas demo_simps = explore_after_def demo_events_def explore_step_def mount_page_def follow_entry_def blank_page_def empty_search_def
  demo_context_def demo_parse_def demo_result_def rerun_def execute_def abort_run_def job_update_def end_run_def receive_parse_def receive_results_def
  record_entry_def emit_def press_enter_def direct_query_def type_query_def cancelFormat_def kindOf_def editor_text_def entry_of_def
  demo_texts nth_opt_def Let_def

lemma demo_saves: "map_option ep_viz (saved_panel demo_context ([], []) (explore_after demo_context empty_search demo_events)) = Some ''timeseries''"
  by (simp add: demo_simps saved_panel_def canSave_def ran_run_def stale_run_def canKeep_def current_source_def windowOf_def classifyPanelResult_def
      display_def panel_result.defs explorePanelID_def panel_of_def satisfied_def draft_panel_def)


text \<open>
  A reply to a run that was replaced changes nothing of the page: only the replaced
  run is marked as over.
\<close>

theorem late_replies_are_dropped:
  assumes "s = explore_after c e es" "xp_controller s \<noteq> Some j"
    and "ev = ParseReply j r \<or> ev = ResultsReply j r'"
  shows "explore_step c s ev = s \<or> explore_step c s ev = job_update j (\<lambda>k. k\<lparr>ej_phase := Ended\<rparr>) s"
proof -
  have ok: "page_ok c s" unfolding assms(1) by (rule explore_after_ok)
  have "\<not> in_flight s j" using ok assms(2) by (auto simp: page_ok_def jobs_ok_def)
  then have "j < length (xp_jobs s) \<Longrightarrow> ej_phase (xp_jobs s ! j) \<noteq> Ended \<Longrightarrow> ej_aborted (xp_jobs s ! j)" by (simp add: in_flight_def)
  with assms(2,3) show ?thesis
    by (auto simp: explore_step_def nth_opt_def receive_parse_def receive_results_def end_run_def Let_def)
qed

lemma late_replies_are_dropped_witness:
  "xp_controller (explore_after demo_context empty_search (take 2 demo_events @ [TypeQuery ''logs'' None, PressEnter])) = Some 1
    \<and> (\<exists>s'. s' = explore_step demo_context (explore_after demo_context empty_search (take 2 demo_events @ [TypeQuery ''logs'' None, PressEnter])) (ParseReply 0 (Inr demo_parse))
      \<and> (s' = explore_after demo_context empty_search (take 2 demo_events @ [TypeQuery ''logs'' None, PressEnter])
        \<or> s' = job_update 0 (\<lambda>k. k\<lparr>ej_phase := Ended\<rparr>) (explore_after demo_context empty_search (take 2 demo_events @ [TypeQuery ''logs'' None, PressEnter]))))"
proof -
  have one: "xp_controller (explore_after demo_context empty_search (take 2 demo_events @ [TypeQuery ''logs'' None, PressEnter])) = Some 1"
    by (simp add: demo_simps)
  show ?thesis using one late_replies_are_dropped [OF refl, of demo_context empty_search "take 2 demo_events @ [TypeQuery ''logs'' None, PressEnter]" 0] by simp
qed

end
