(* ===== verification/Run_Control.thy ===== *)
theory Run_Control
  imports Prelude
begin

text \<open>
  Runs of which the last one counts, as the pages write them with one \<open>AbortController\<close> in a ref:
  starting a run aborts the one before, a run that was aborted drops what it receives, and the page
  is running until the last run is over. A run is named by its place in the list of all runs.
\<close>

record 'k run_job =
  rj_data :: 'k
  rj_aborted :: bool
  rj_over :: bool

record 'k runs =
  rs_jobs :: "'k run_job list"
  rs_controller :: "nat option"
  rs_running :: bool

definition no_runs :: "'k runs" where
  "no_runs = \<lparr>rs_jobs = [], rs_controller = None, rs_running = False\<rparr>"

definition run_update :: "nat \<Rightarrow> ('k run_job \<Rightarrow> 'k run_job) \<Rightarrow> 'k runs \<Rightarrow> 'k runs" where
  "run_update j f r = r\<lparr>rs_jobs := (rs_jobs r)[j := f (rs_jobs r ! j)]\<rparr>"

definition abort_last :: "'k runs \<Rightarrow> 'k runs" where
  "abort_last r = (case rs_controller r of Some j \<Rightarrow> run_update j (\<lambda>k. k\<lparr>rj_aborted := True\<rparr>) r | None \<Rightarrow> r)"

definition start_run :: "'k \<Rightarrow> 'k runs \<Rightarrow> 'k runs" where
  "start_run d r = (let r1 = abort_last r
     in r1\<lparr>rs_jobs := rs_jobs r1 @ [\<lparr>rj_data = d, rj_aborted = False, rj_over = False\<rparr>],
          rs_controller := Some (length (rs_jobs r1)), rs_running := True\<rparr>)"

definition finish_run :: "nat \<Rightarrow> 'k runs \<Rightarrow> 'k runs" where
  "finish_run j r = (let r1 = run_update j (\<lambda>k. k\<lparr>rj_over := True\<rparr>) r
     in if rs_controller r = Some j then r1\<lparr>rs_running := False\<rparr> else r1)"

definition run_data :: "nat \<Rightarrow> ('k \<Rightarrow> 'k) \<Rightarrow> 'k runs \<Rightarrow> 'k runs" where
  "run_data j f = run_update j (\<lambda>k. k\<lparr>rj_data := f (rj_data k)\<rparr>)"

definition is_open :: "nat \<Rightarrow> 'k runs \<Rightarrow> bool" where
  "is_open j r \<longleftrightarrow> j < length (rs_jobs r) \<and> \<not> rj_over (rs_jobs r ! j)"

text \<open>A run whose answers still count.\<close>

definition counts :: "nat \<Rightarrow> 'k runs \<Rightarrow> bool" where
  "counts j r \<longleftrightarrow> is_open j r \<and> \<not> rj_aborted (rs_jobs r ! j)"

definition runs_ok :: "'k runs \<Rightarrow> bool" where
  "runs_ok r \<longleftrightarrow> (\<forall>j. counts j r \<longrightarrow> rs_controller r = Some j)
     \<and> (\<forall>j. rs_controller r = Some j \<longrightarrow> j < length (rs_jobs r))
     \<and> (rs_running r \<longleftrightarrow> (\<exists>j. rs_controller r = Some j \<and> is_open j r))"

lemma no_runs_ok [simp]: "runs_ok no_runs"
  by (simp add: runs_ok_def no_runs_def counts_def is_open_def)

lemma run_update_simps [simp]:
  "length (rs_jobs (run_update j f r)) = length (rs_jobs r)" "rs_controller (run_update j f r) = rs_controller r"
  "rs_running (run_update j f r) = rs_running r" "rs_jobs (run_update j f r) = (rs_jobs r)[j := f (rs_jobs r ! j)]"
  by (simp_all add: run_update_def)

lemma run_update_ok:
  assumes "runs_ok r" "\<And>k. rj_over (f k) = rj_over k" "\<And>k. rj_aborted k \<Longrightarrow> rj_aborted (f k)"
  shows "runs_ok (run_update j f r)"
proof -
  have "is_open i (run_update j f r) = is_open i r" for i
    using assms(2) by (cases "i = j"; cases "j < length (rs_jobs r)") (auto simp: is_open_def nth_list_update)
  moreover have "counts i (run_update j f r) \<Longrightarrow> counts i r" for i
    using assms(2,3) by (cases "i = j"; cases "j < length (rs_jobs r)") (auto simp: counts_def is_open_def nth_list_update)
  ultimately show ?thesis using assms(1) by (auto simp: runs_ok_def simp del: run_update_simps(4))
qed

lemma abort_last_ok: "runs_ok r \<Longrightarrow> runs_ok (abort_last r)"
  by (auto simp: abort_last_def intro: run_update_ok split: option.split)

lemma abort_last_frees:
  assumes "runs_ok r"
  shows "\<not> counts j (abort_last r)"
proof
  assume c: "counts j (abort_last r)"
  show False
  proof (cases "rs_controller r")
    case None
    with c have "counts j r" by (simp add: abort_last_def)
    with None assms show False by (simp add: runs_ok_def)
  next
    case (Some i)
    with c have "counts j r \<and> j \<noteq> i"
      by (cases "j = i"; cases "i < length (rs_jobs r)") (auto simp: abort_last_def counts_def is_open_def)
    with Some assms show False unfolding runs_ok_def by auto
  qed
qed

lemma start_run_ok:
  assumes "runs_ok r"
  shows "runs_ok (start_run d r)"
proof -
  have "counts j (start_run d r) \<Longrightarrow> j = length (rs_jobs (abort_last r))" for j
    using abort_last_frees [OF assms, of j] by (auto simp: start_run_def Let_def counts_def is_open_def nth_append split: if_splits)
  moreover have "is_open (length (rs_jobs (abort_last r))) (start_run d r)" by (simp add: start_run_def is_open_def Let_def)
  ultimately show ?thesis by (auto simp: runs_ok_def start_run_def Let_def)
qed

lemma finish_run_simps [simp]:
  "rs_controller (finish_run j r) = rs_controller r" "rs_running (finish_run j r) = (rs_running r \<and> rs_controller r \<noteq> Some j)"
  "rs_jobs (finish_run j r) = (rs_jobs r)[j := (rs_jobs r ! j)\<lparr>rj_over := True\<rparr>]"
  by (simp_all add: finish_run_def Let_def)

lemma finish_run_ok:
  assumes "runs_ok r"
  shows "runs_ok (finish_run j r)"
proof -
  have op: "is_open i (finish_run j r) = (is_open i r \<and> i \<noteq> j)" for i
    by (cases "i = j"; cases "j < length (rs_jobs r)") (auto simp: is_open_def)
  have "counts i (finish_run j r) \<Longrightarrow> counts i r" for i
    by (cases "i = j"; cases "j < length (rs_jobs r)") (auto simp: counts_def is_open_def)
  then show ?thesis using assms unfolding runs_ok_def op by auto
qed

lemma run_data_ok: "runs_ok r \<Longrightarrow> runs_ok (run_data j f r)"
  unfolding run_data_def by (rule run_update_ok) simp_all

lemma runs_idle: "runs_ok r \<Longrightarrow> \<not> rs_running r \<Longrightarrow> \<not> counts j r"
  unfolding runs_ok_def counts_def by blast

lemma runs_jobs:
  "rs_jobs (start_run d r) = rs_jobs (abort_last r) @ [\<lparr>rj_data = d, rj_aborted = False, rj_over = False\<rparr>]"
  "map rj_data (rs_jobs (abort_last r)) = map rj_data (rs_jobs r)"
  "map rj_data (rs_jobs (finish_run j r)) = map rj_data (rs_jobs r)"
proof -
  have keep: "map rj_data ((rs_jobs r)[j := f (rs_jobs r ! j)]) = map rj_data (rs_jobs r)" if "\<And>k. rj_data (f k) = rj_data k" for f j
    by (simp add: map_update that) (metis length_map list_update_beyond list_update_id not_le nth_map)
  show "rs_jobs (start_run d r) = rs_jobs (abort_last r) @ [\<lparr>rj_data = d, rj_aborted = False, rj_over = False\<rparr>]"
    by (simp add: start_run_def Let_def)
  show "map rj_data (rs_jobs (abort_last r)) = map rj_data (rs_jobs r)" by (simp add: abort_last_def keep split: option.split)
  show "map rj_data (rs_jobs (finish_run j r)) = map rj_data (rs_jobs r)" by (simp add: finish_run_def Let_def keep)
qed

end
