(* ===== verification/Search_Page.thy ===== *)
theory Search_Page
  imports Explore_Page Run_Control Js_Scan
begin

text \<open>
  The Logs and Traces pages (\<open>ui/host/src/explore/search-page.tsx\<close>): the FanQL that the filter fields
  add to what is typed, the query for the services of a search, and the page's runs, which follow
  the last one (Run_Control). Replies and what the router does are events in any order.
\<close>

section \<open>The pages\<close>

record preset =
  ps_name :: string
  ps_source :: string
  ps_viz :: string
  ps_fields :: "string list"
  ps_sorts :: "string list"

definition logsPreset :: preset where
  "logsPreset = \<lparr>ps_name = ''Logs'', ps_source = ''logs'', ps_viz = ''logs'', ps_fields = [''service'', ''severity''], ps_sorts = [''time'', ''+time'']\<rparr>"

definition tracesPreset :: preset where
  "tracesPreset = \<lparr>ps_name = ''Traces'', ps_source = ''spans'', ps_viz = ''traces'', ps_fields = [''service'', ''errors'', ''slower''],
     ps_sorts = [''duration_ms'', ''+start'']\<rparr>"

definition searchPanelID :: string where "searchPanelID = ''search''"

section \<open>FanQL text\<close>

definition dquote :: char where "dquote = CHR 0x22"

definition quoted :: "string \<Rightarrow> string" where
  "quoted v = dquote # concat (map (\<lambda>c. if c = dquote then [c, c] else [c]) v) @ [dquote]"

definition pickTerms :: "preset \<Rightarrow> explore_search \<Rightarrow> string" where
  "pickTerms p s = join '' '' (present
    [if ''service'' \<in> set (ps_fields p) then map_option (\<lambda>v. ''service:'' @ quoted v) (non_empty (xs_service s)) else None,
     if ''severity'' \<in> set (ps_fields p) then map_option (\<lambda>v. ''severity>='' @ v) (non_empty (xs_severity s)) else None,
     if ''errors'' \<in> set (ps_fields p) \<and> xs_errors s then Some ''status:error'' else None,
     if ''slower'' \<in> set (ps_fields p) then map_option (\<lambda>v. ''duration>'' @ v @ ''ms'') (non_empty (xs_slower s)) else None])"

definition combine :: "string \<Rightarrow> string \<Rightarrow> string" where
  "combine filters picked =
    (if not_blank filters \<and> picked \<noteq> [] then ''('' @ filters @ '') '' @ picked
     else if not_blank filters then filters else picked)"

text \<open>\<open>/\bw\b/i\<close> for a word of ASCII letters.\<close>

definition word_char :: "char \<Rightarrow> bool" where
  "word_char c \<longleftrightarrow> is_lower c \<or> is_upper c \<or> is_digit c \<or> c = CHR ''_''"

definition has_word :: "string \<Rightarrow> string \<Rightarrow> bool" where
  "has_word w s \<longleftrightarrow> list_ex (\<lambda>i. ascii_lower (take (length w) (drop i s)) = w
     \<and> (i = 0 \<or> \<not> word_char (s ! (i - 1))) \<and> (length s \<le> i + length w \<or> \<not> word_char (s ! (i + length w)))) [0..<length s]"

text \<open>
  The rest of a text after a quoted part whose opening quote was read: \<open>(?:[^q]|qq)*q\<close>, which gives
  a doubled quote back when nothing closes the part after it.
\<close>

fun closed_rest :: "char \<Rightarrow> string \<Rightarrow> string option" where
  "closed_rest q [] = None"
| "closed_rest q (c # s) = (if c \<noteq> q then closed_rest q s
     else case s of d # t \<Rightarrow> if d = q then (case closed_rest q t of Some r \<Rightarrow> Some r | None \<Rightarrow> Some s) else Some s | [] \<Rightarrow> Some [])"

lemma closed_rest_length: "closed_rest q s = Some r \<Longrightarrow> length r < length s"
proof (induction q s arbitrary: r rule: closed_rest.induct)
  case (2 q c s)
  show ?case
  proof (cases "c = q")
    case False
    with 2 have "length r < length s" by simp
    then show ?thesis by simp
  next
    case True
    note here = this
    show ?thesis
    proof (cases s)
      case (Cons d t)
      then show ?thesis using 2(3) 2(2) [OF _ Cons] here by (cases "d = q"; cases "closed_rest q t") auto
    qed (use 2(3) here in simp)
  qed
qed simp

function without_quoted :: "string \<Rightarrow> string" where
  "without_quoted s = (case s of
      [] \<Rightarrow> []
    | c # t \<Rightarrow> (case if c = CHR 0x27 \<or> c = CHR 0x22 then closed_rest c t else None of
        Some r \<Rightarrow> [CHR 0x27, CHR 0x27] @ without_quoted r
      | None \<Rightarrow> c # without_quoted t))"
  by pat_completeness auto

termination without_quoted
  by (relation "measure length") (auto dest: closed_rest_length split: if_splits)

definition readsStatus :: "string \<Rightarrow> bool" where
  "readsStatus sql = has_word ''status'' (without_quoted sql)"

text \<open>The query of the services; \<open>printed_filters\<close> are the stored filters as the server prints them.\<close>

definition servicesQuery :: "string list \<Rightarrow> string list \<Rightarrow> string" where
  "servicesQuery stored printed_filters =
    (let kept = filter (\<lambda>(i, t). \<not> starts_with t ''-'' \<and> \<not> readsStatus (nullish (nth_opt stored i) [])) (enumerate 0 printed_filters);
         filters = (if stored = [] then [] else join '' '' (map (\<lambda>(i, t). if has_word ''or'' t then ''('' @ t @ '')'' else t) kept))
     in ''spans'' @ (if filters \<noteq> [] then '' where '' @ filters else []) @ '' | count(), error_rate(), p95(duration) by service sort error_rate'')"

text \<open>The filters with a value excluded.\<close>

definition exclude_value :: "string \<Rightarrow> string \<Rightarrow> string \<Rightarrow> string" where
  "exclude_value typed name v =
    (let t = js_trim typed
     in join '' '' (filter (\<lambda>x. x \<noteq> []) [if has_word ''or'' t then ''('' @ t @ '')'' else t, ''-'' @ name @ '':'' @ quoted v]))"

section \<open>Spans of the text that was sent\<close>

definition sent_shift :: "string \<Rightarrow> string \<Rightarrow> nat" where
  "sent_shift filters picked = (if not_blank filters \<and> picked \<noteq> [] then 1 else 0)"

text \<open>A span of the text that was sent, in the editor's text, when it lies in it.\<close>

definition inText :: "nat \<Rightarrow> nat \<Rightarrow> nat \<times> nat \<Rightarrow> (nat \<times> nat) option" where
  "inText shift len sp = (if shift \<le> fst sp \<and> snd sp \<le> shift + len
     then Some (fst sp - shift, snd sp - shift) else None)"

section \<open>The page\<close>

record search_job =
  sj_text :: string
  sj_terms :: string
  sj_sort :: string
  sj_window :: string
  sj_panel :: "explore_panel option"

record search_ran =
  sr_text :: string
  sr_terms :: string
  sr_sort :: string
  sr_window :: string
  sr_panel :: explore_panel
  sr_result :: display_result

record search_page =
  sp_search :: explore_search
  sp_text :: string
  sp_problems :: "problem list"
  sp_notices :: "problem list"
  sp_error :: "string option"
  sp_ran :: "search_ran option"
  sp_runs :: "search_job runs"
  sp_written :: string
  sp_entries :: "(explore_search \<times> bool) list"

definition sort_of :: "preset \<Rightarrow> explore_search \<Rightarrow> string" where
  "sort_of p s = (case non_empty (xs_sort s) of Some o' \<Rightarrow> if o' \<in> set (ps_sorts p) then o' else hd (ps_sorts p) | None \<Rightarrow> hd (ps_sorts p))"

definition open_search :: "explore_search \<Rightarrow> search_page" where
  "open_search e = \<lparr>sp_search = e, sp_text = xs_q e, sp_problems = [], sp_notices = [], sp_error = None, sp_ran = None,
     sp_runs = no_runs, sp_written = xs_q e, sp_entries = []\<rparr>"

text \<open>\<open>window\<close> is that of the render that asked for the run; the picked terms are those shown now.\<close>

definition execute_search :: "preset \<Rightarrow> string \<Rightarrow> string \<Rightarrow> search_page \<Rightarrow> search_page" where
  "execute_search p filters order s =
    s\<lparr>sp_runs := start_run \<lparr>sj_text = filters, sj_terms = pickTerms p (sp_search s), sj_sort = order, sj_window = windowOf (sp_search s), sj_panel = None\<rparr> (sp_runs s),
      sp_error := None, sp_problems := [], sp_notices := []\<rparr>"

text \<open>What a run asks the server to parse.\<close>

definition parse_text :: "search_job \<Rightarrow> string" where
  "parse_text k = combine (sj_text k) (sj_terms k)"

definition search_title :: "preset \<Rightarrow> search_job \<Rightarrow> string" where
  "search_title p k =
    (let parts = filter (\<lambda>x. x \<noteq> []) [js_trim (sj_text k), sj_terms k]
     in defaultTitle (ps_name p @ '': '' @ (if parts = [] then ''all'' else join '' '' parts)))"

definition search_panel :: "preset \<Rightarrow> search_job \<Rightarrow> panel_query \<Rightarrow> explore_panel" where
  "search_panel p k q = (draft_panel (search_title p k) (ps_viz p) (Some (q\<lparr>q_sort := Some (sj_sort k)\<rparr>)) None None)\<lparr>ep_id := searchPanelID\<rparr>"

definition search_failed :: "nat \<Rightarrow> search_job \<Rightarrow> request_failure \<Rightarrow> search_page \<Rightarrow> search_page" where
  "search_failed j k f s =
    (let s1 = s\<lparr>sp_runs := finish_run j (sp_runs s)\<rparr>
     in if rf_problems f \<noteq> [] then (if sp_text s = sj_text k then s1\<lparr>sp_problems := rf_problems f\<rparr> else s1)
        else s1\<lparr>sp_error := Some (rf_message f)\<rparr>)"

definition parsed_search :: "preset \<Rightarrow> nat \<Rightarrow> (request_failure + parsed_query) \<Rightarrow> search_page \<Rightarrow> search_page" where
  "parsed_search p j r s =
    (let job = rs_jobs (sp_runs s) ! j; k = rj_data job
     in if rj_aborted job then s\<lparr>sp_runs := finish_run j (sp_runs s)\<rparr>
        else case r of
          Inl f \<Rightarrow> search_failed j k f s
        | Inr q \<Rightarrow>
            (let changed = sj_text k \<noteq> sp_written s; now = sp_search s
             in s\<lparr>sp_runs := run_data j (\<lambda>k. k\<lparr>sj_panel := Some (search_panel p k (pq_query q))\<rparr>) (sp_runs s),
                  sp_notices := (if sp_text s = sj_text k then pq_notices q else sp_notices s), sp_written := sj_text k,
                  sp_entries := sp_entries s @ [(now\<lparr>xs_q := sj_text k, xs_sort := Some (sj_sort k),
                    xs_drill := (if changed then None else xs_drill now)\<rparr>, \<not> changed)]\<rparr>))"

text \<open>A result of a busy server says to search again.\<close>

definition searchCopy :: "panel_result \<Rightarrow> panel_result" where
  "searchCopy r = (if r_busy r then r\<lparr>r_error := Some ''Not run: other queries kept the server busy. Run the search again.''\<rparr> else r)"

definition searched :: "nat \<Rightarrow> (request_failure + (panel_result \<times> problem list) list) \<Rightarrow> search_page \<Rightarrow> search_page" where
  "searched j r s =
    (let job = rs_jobs (sp_runs s) ! j; k = rj_data job; s1 = s\<lparr>sp_runs := finish_run j (sp_runs s)\<rparr>
     in if rj_aborted job then s1
        else case r of
          Inl f \<Rightarrow> search_failed j k f s
        | Inr results \<Rightarrow> (case List.find (\<lambda>x. r_id (fst x) = searchPanelID) results of
            None \<Rightarrow> search_failed j k \<lparr>rf_problems = [], rf_message = ''The search returned no result.''\<rparr> s
          | Some (res, ps) \<Rightarrow>
              if r_status res = RInvalid then (if sp_text s = sj_text k then s1\<lparr>sp_problems := ps\<rparr> else s1)
              else s1\<lparr>sp_ran := map_option (\<lambda>panel. \<lparr>sr_text = sj_text k, sr_terms = sj_terms k, sr_sort = sj_sort k, sr_window = sj_window k,
                sr_panel = panel, sr_result = classifyPanelResult [searchPanelID] (searchCopy res)\<rparr>) (sj_panel k)\<rparr>))"

text \<open>The two effects: a rerun of what is typed when window, order or picked terms change, then the entry's own filters.\<close>

definition followed :: "preset \<Rightarrow> explore_search \<Rightarrow> search_page \<Rightarrow> search_page" where
  "followed p e s =
    (let old = sp_search s; s1 = s\<lparr>sp_search := e\<rparr>;
         s2 = (if windowOf old \<noteq> windowOf e \<or> sort_of p old \<noteq> sort_of p e \<or> pickTerms p old \<noteq> pickTerms p e
               then execute_search p (sp_text s1) (sort_of p e) s1 else s1)
     in if xs_q old \<noteq> xs_q e \<and> xs_q e \<noteq> sp_written s2
        then execute_search p (xs_q e) (sort_of p e) (s2\<lparr>sp_written := xs_q e, sp_text := xs_q e\<rparr>) else s2)"

definition pick_field :: "(explore_search \<Rightarrow> explore_search) \<Rightarrow> search_page \<Rightarrow> search_page" where
  "pick_field patch s = s\<lparr>sp_entries := sp_entries s @ [(patch (sp_search s), False)]\<rparr>"

definition maxSlower :: nat where "maxSlower = 9999999"

text \<open>The slower-than field commits whole milliseconds; None commits nothing.\<close>

definition slower_commit :: "real option \<Rightarrow> string option \<Rightarrow> string option option" where
  "slower_commit draft v =
    (let n = (case draft of Some d \<Rightarrow> if 1 \<le> d then Some (show_nat (min maxSlower (nat \<lfloor>d\<rfloor>))) else None | None \<Rightarrow> None)
     in if n \<noteq> v then Some n else None)"

datatype search_event =
    SearchTyped string
  | SearchEntered
  | SearchParsed nat "request_failure + parsed_query"
  | SearchAnswered nat "request_failure + (panel_result \<times> problem list) list"
  | SearchFollowed explore_search
  | SearchPicked "explore_search"
  | SearchExcluded string string
  | SearchRetried

definition search_step :: "preset \<Rightarrow> search_page \<Rightarrow> search_event \<Rightarrow> search_page" where
  "search_step p s e = (case e of
      SearchTyped t \<Rightarrow> s\<lparr>sp_text := t, sp_problems := [], sp_notices := []\<rparr>
    | SearchEntered \<Rightarrow> execute_search p (sp_text s) (sort_of p (sp_search s)) s
    | SearchParsed j r \<Rightarrow> if is_open j (sp_runs s) \<and> sj_panel (rj_data (rs_jobs (sp_runs s) ! j)) = None then parsed_search p j r s else s
    | SearchAnswered j r \<Rightarrow> if is_open j (sp_runs s) \<and> sj_panel (rj_data (rs_jobs (sp_runs s) ! j)) \<noteq> None then searched j r s else s
    | SearchFollowed x \<Rightarrow> followed p x s
    | SearchPicked x \<Rightarrow> pick_field (\<lambda>_. x) s
    | SearchExcluded f v \<Rightarrow> (let t = exclude_value (sp_text s) f v in execute_search p t (sort_of p (sp_search s)) (s\<lparr>sp_text := t\<rparr>))
    | SearchRetried \<Rightarrow> (case sp_ran s of Some r \<Rightarrow> execute_search p (sr_text r) (sr_sort r) s | None \<Rightarrow> s))"

definition stale_search :: "preset \<Rightarrow> search_page \<Rightarrow> bool" where
  "stale_search p s = (case sp_ran s of
      Some r \<Rightarrow> sr_text r \<noteq> sp_text s \<or> sr_terms r \<noteq> pickTerms p (sp_search s) \<or> sr_sort r \<noteq> sort_of p (sp_search s)
        \<or> sr_window r \<noteq> windowOf (sp_search s)
    | None \<Rightarrow> False)"

definition canSaveSearch :: "preset \<Rightarrow> search_page \<Rightarrow> bool" where
  "canSaveSearch p s \<longleftrightarrow> \<not> stale_search p s \<and> \<not> rs_running (sp_runs s)
     \<and> (case sp_ran s of Some r \<Rightarrow> r_status (sr_result r) = ROk \<and> (case r_frame (sr_result r) of Some f \<Rightarrow> 0 < f_rows f | None \<Rightarrow> False)
        | None \<Rightarrow> False)"

definition search_after :: "preset \<Rightarrow> explore_search \<Rightarrow> search_event list \<Rightarrow> search_page" where
  "search_after p e es = foldl (search_step p) (execute_search p (xs_q e) (sort_of p e) (open_search e)) es"

section \<open>Quoted values and spans\<close>

text \<open>How a quoted value is read: the text up to the quote that closes it, doubled quotes undone.\<close>

fun read_quoted :: "string \<Rightarrow> (string \<times> string) option" where
  "read_quoted [] = None"
| "read_quoted (c # s) = (if c \<noteq> dquote then map_option (\<lambda>(v, r). (c # v, r)) (read_quoted s)
     else case s of d # t \<Rightarrow> if d = dquote then map_option (\<lambda>(v, r). (dquote # v, r)) (read_quoted t) else Some ([], s) | [] \<Rightarrow> Some ([], []))"

lemma read_quoted_back:
  "rest = [] \<or> hd rest \<noteq> dquote \<Longrightarrow> read_quoted (tl (quoted v @ rest)) = Some (v, rest)"
proof (induction v)
  case Nil
  then show ?case by (cases rest) (simp_all add: quoted_def)
next
  case (Cons c v)
  then show ?case by (auto simp: quoted_def)
qed

section \<open>The invariant of the runs\<close>

definition ran_of :: "search_ran \<Rightarrow> search_job \<Rightarrow> bool" where
  "ran_of r k \<longleftrightarrow> sj_text k = sr_text r \<and> sj_terms k = sr_terms r \<and> sj_sort k = sr_sort r \<and> sj_window k = sr_window r \<and> sj_panel k = Some (sr_panel r)"

definition search_jobs :: "search_page \<Rightarrow> search_job set" where
  "search_jobs s = rj_data ` set (rs_jobs (sp_runs s))"

definition search_ok :: "preset \<Rightarrow> search_page \<Rightarrow> bool" where
  "search_ok p s \<longleftrightarrow> runs_ok (sp_runs s)
     \<and> (\<forall>k \<in> search_jobs s. \<forall>panel. sj_panel k = Some panel \<longrightarrow> (\<exists>q. panel = search_panel p k q))
     \<and> (\<forall>r. sp_ran s = Some r \<longrightarrow> (\<exists>k \<in> search_jobs s. ran_of r k))"

definition search_part :: "search_page \<Rightarrow> search_job runs \<times> search_ran option" where
  "search_part s = (sp_runs s, sp_ran s)"

lemma search_ok_same: "search_ok p s \<Longrightarrow> search_part t = search_part s \<Longrightarrow> search_ok p t"
  by (simp add: search_ok_def search_jobs_def search_part_def)

lemma search_part_simps [simp]:
  "search_part (s\<lparr>sp_search := a\<rparr>) = search_part s" "search_part (s\<lparr>sp_text := b\<rparr>) = search_part s" "search_part (s\<lparr>sp_problems := c\<rparr>) = search_part s"
  "search_part (s\<lparr>sp_notices := d\<rparr>) = search_part s" "search_part (s\<lparr>sp_error := e\<rparr>) = search_part s" "search_part (s\<lparr>sp_written := f\<rparr>) = search_part s"
  "search_part (s\<lparr>sp_entries := g\<rparr>) = search_part s"
  by (simp_all add: search_part_def)

lemma search_jobs_start: "search_jobs (s\<lparr>sp_runs := start_run k (sp_runs s)\<rparr>) = insert k (search_jobs s)"
proof -
  have "rj_data ` set (rs_jobs (abort_last r)) = rj_data ` set (rs_jobs r)" for r :: "search_job runs"
    using arg_cong [OF runs_jobs(2) [of r], of set] by simp
  then show ?thesis by (simp add: search_jobs_def runs_jobs(1))
qed

lemma search_jobs_finish: "search_jobs (s\<lparr>sp_runs := finish_run j (sp_runs s)\<rparr>) = search_jobs s"
  using arg_cong [OF runs_jobs(3) [of j "sp_runs s"], of set] by (simp add: search_jobs_def)

lemma execute_search_ok: "search_ok p s \<Longrightarrow> search_ok p (execute_search p t o' s)"
proof -
  assume ok: "search_ok p s"
  define k where "k = \<lparr>sj_text = t, sj_terms = pickTerms p (sp_search s), sj_sort = o', sj_window = windowOf (sp_search s), sj_panel = None\<rparr>"
  have "search_ok p (s\<lparr>sp_runs := start_run k (sp_runs s)\<rparr>)"
    using ok start_run_ok [of "sp_runs s" k] search_jobs_start [where s = s and k = k] by (simp add: search_ok_def) (auto simp: k_def)
  then show ?thesis by (rule search_ok_same) (simp add: execute_search_def k_def)
qed

lemma execute_search_same: "search_ok p s \<Longrightarrow> search_part t = search_part s \<Longrightarrow> search_ok p (execute_search p x o' t)"
  by (rule execute_search_ok) (rule search_ok_same)

lemma finish_ok: "search_ok p s \<Longrightarrow> search_ok p (s\<lparr>sp_runs := finish_run j (sp_runs s)\<rparr>)"
  using finish_run_ok [of "sp_runs s" j] search_jobs_finish [where s = s and j = j] by (simp add: search_ok_def)

lemma finish_same: "search_ok p s \<Longrightarrow> search_part t = search_part (s\<lparr>sp_runs := finish_run j (sp_runs s)\<rparr>) \<Longrightarrow> search_ok p t"
  by (rule search_ok_same [OF finish_ok])

lemma search_failed_ok: "search_ok p s \<Longrightarrow> search_ok p (search_failed j k f s)"
  by (auto simp: search_failed_def Let_def intro: finish_ok finish_same)

lemma parsed_search_ok:
  assumes ok: "search_ok p s" and j: "is_open j (sp_runs s)" "sj_panel (rj_data (rs_jobs (sp_runs s) ! j)) = None"
  shows "search_ok p (parsed_search p j r s)"
proof (cases "rj_aborted (rs_jobs (sp_runs s) ! j) \<or> \<not> (\<exists>q. r = Inr q)")
  case True
  then show ?thesis using finish_ok [OF ok, of j] search_failed_ok [OF ok, of j] by (auto simp: parsed_search_def Let_def split: sum.split)
next
  case False
  then obtain q where q: "r = Inr q" and alive: "\<not> rj_aborted (rs_jobs (sp_runs s) ! j)" by blast
  define f where "f = (\<lambda>k. k\<lparr>sj_panel := Some (search_panel p k (pq_query q))\<rparr>)"
  define t where "t = s\<lparr>sp_runs := run_data j f (sp_runs s)\<rparr>"
  have f: "search_panel p (k\<lparr>sj_panel := x\<rparr>) q' = search_panel p k q'" for k x q'
    by (simp add: search_panel_def search_title_def)
  have jobs: "rs_jobs (sp_runs t) = (rs_jobs (sp_runs s))[j := (rs_jobs (sp_runs s) ! j)\<lparr>rj_data := f (rj_data (rs_jobs (sp_runs s) ! j))\<rparr>]"
    by (simp add: t_def run_data_def)
  have old: "k \<in> search_jobs t" if k: "k \<in> search_jobs s" and some: "sj_panel k \<noteq> None" for k
  proof -
    obtain x where x: "x \<in> set (rs_jobs (sp_runs s))" "k = rj_data x" using k unfolding search_jobs_def by blast
    then obtain i where i: "i < length (rs_jobs (sp_runs s))" "k = rj_data (rs_jobs (sp_runs s) ! i)" by (auto simp: in_set_conv_nth)
    with some j(2) have "i \<noteq> j" by auto
    then have "rs_jobs (sp_runs t) ! i = rs_jobs (sp_runs s) ! i" "i < length (rs_jobs (sp_runs t))" using i(1) unfolding jobs by simp_all
    then show ?thesis using i(2) nth_mem [of i "rs_jobs (sp_runs t)"] unfolding search_jobs_def by (intro image_eqI [of _ _ "rs_jobs (sp_runs t) ! i"]) simp_all
  qed
  have new: "k \<in> search_jobs s \<or> (\<exists>k'. k = f k')" if "k \<in> search_jobs t" for k
    using that by (auto simp: search_jobs_def jobs dest!: in_update)
  have "search_ok p t"
    unfolding search_ok_def
  proof (intro conjI ballI allI impI)
    show "runs_ok (sp_runs t)" using ok run_data_ok [of "sp_runs s" j f] by (simp add: search_ok_def t_def)
    show "\<exists>q. panel = search_panel p k q" if "k \<in> search_jobs t" "sj_panel k = Some panel" for k panel
      using new [OF that(1)]
    proof
      assume "k \<in> search_jobs s"
      then show ?thesis using ok that(2) unfolding search_ok_def by blast
    next
      assume "\<exists>k'. k = f k'"
      then show ?thesis using that(2) by (auto simp: f_def f)
    qed
    show "\<exists>k \<in> search_jobs t. ran_of x k" if "sp_ran t = Some x" for x
    proof -
      have "sp_ran s = Some x" using that by (simp add: t_def)
      then obtain k where "k \<in> search_jobs s" "ran_of x k" using ok unfolding search_ok_def by blast
      then show ?thesis using old [of k] by (auto simp: ran_of_def)
    qed
  qed
  then show ?thesis by (rule search_ok_same) (use alive q in \<open>simp add: parsed_search_def Let_def t_def f_def\<close>)
qed

lemma searched_ok:
  assumes ok: "search_ok p s" and j: "is_open j (sp_runs s)" "sj_panel (rj_data (rs_jobs (sp_runs s) ! j)) = Some panel"
  shows "search_ok p (searched j r s)"
proof -
  let ?k = "rj_data (rs_jobs (sp_runs s) ! j)" and ?t = "s\<lparr>sp_runs := finish_run j (sp_runs s)\<rparr>"
  have k: "?k \<in> search_jobs ?t" unfolding search_jobs_finish using j(1) by (auto simp: search_jobs_def is_open_def)
  have landed: "search_ok p (?t\<lparr>sp_ran := Some x\<rparr>)" if "ran_of x ?k" for x
  proof -
    have "search_jobs (?t\<lparr>sp_ran := Some x\<rparr>) = search_jobs ?t" by (simp add: search_jobs_def)
    then show ?thesis using finish_ok [OF ok, of j] k that by (auto simp: search_ok_def)
  qed
  have kept: "search_ok p t" if "search_part t = search_part ?t" for t using finish_same [OF ok that] .
  show ?thesis
    using search_failed_ok [OF ok, of j] finish_ok [OF ok, of j] j(2)
    by (auto simp: searched_def Let_def split: sum.split option.split intro: kept landed simp: ran_of_def)
qed

lemma search_step_ok:
  assumes ok: "search_ok p s"
  shows "search_ok p (search_step p s e)"
proof (cases e)
  case (SearchParsed j r)
  then show ?thesis using ok parsed_search_ok [OF ok, of j r] by (simp add: search_step_def)
next
  case (SearchAnswered j r)
  then show ?thesis using ok searched_ok [OF ok, of j _ r] by (auto simp: search_step_def)
next
  case (SearchFollowed x)
  have "search_ok p (s\<lparr>sp_search := x\<rparr>)" using ok by (rule search_ok_same) simp
  then show ?thesis unfolding SearchFollowed search_step_def search_event.case followed_def Let_def
    by (auto intro: execute_search_ok execute_search_same)
qed (use ok in \<open>auto simp: search_step_def pick_field_def Let_def intro: execute_search_ok execute_search_same elim: search_ok_same split: option.split\<close>)

interpretation search_machine: event_machine "search_step p" "search_ok p" for p
  by unfold_locales (rule search_step_ok)

lemma search_after_ok: "search_ok p (search_after p e es)"
  unfolding search_after_def
  by (rule search_machine.inv_run, rule execute_search_ok) (simp add: search_ok_def search_jobs_def open_search_def no_runs_def runs_ok_def counts_def is_open_def)

text \<open>
  Whatever is typed, picked and navigated on the Logs and Traces pages, and in whatever
  order replies arrive: a result the page offers to save is one of exactly the filters, the picked
  fields, the order and the window it shows, its panel carries that order, and no search is running.
\<close>

theorem search_saves_what_it_shows:
  assumes "s = search_after p e es" "canSaveSearch p s"
  shows "\<exists>r q. sp_ran s = Some r \<and> r_status (sr_result r) = ROk
    \<and> sr_panel r = search_panel p \<lparr>sj_text = sp_text s, sj_terms = pickTerms p (sp_search s), sj_sort = sort_of p (sp_search s),
        sj_window = windowOf (sp_search s), sj_panel = None\<rparr> q
    \<and> (\<forall>j. \<not> counts j (sp_runs s))"
proof -
  have ok: "search_ok p s" unfolding assms(1) by (rule search_after_ok)
  obtain r where r: "sp_ran s = Some r" "r_status (sr_result r) = ROk"
    using assms(2) by (auto simp: canSaveSearch_def split: option.splits)
  then obtain k where k: "k \<in> search_jobs s" "ran_of r k" using ok unfolding search_ok_def by blast
  then obtain q where q: "sr_panel r = search_panel p k q" using ok unfolding search_ok_def ran_of_def by blast
  have same: "sj_text k = sp_text s" "sj_terms k = pickTerms p (sp_search s)" "sj_sort k = sort_of p (sp_search s)"
    using assms(2) r(1) k(2) by (auto simp: canSaveSearch_def stale_search_def ran_of_def)
  have "sr_panel r = search_panel p \<lparr>sj_text = sp_text s, sj_terms = pickTerms p (sp_search s), sj_sort = sort_of p (sp_search s),
      sj_window = windowOf (sp_search s), sj_panel = None\<rparr> q"
    using q same by (simp add: search_panel_def search_title_def)
  moreover have "\<forall>j. \<not> counts j (sp_runs s)" using runs_idle [of "sp_runs s"] ok assms(2) by (auto simp: search_ok_def canSaveSearch_def)
  ultimately show ?thesis using r by blast
qed

definition demo_search :: search_page where
  "demo_search = search_after logsPreset empty_search [SearchParsed 0 (Inr demo_parse), SearchAnswered 0 (Inr [(demo_result\<lparr>r_id := ''search''\<rparr>, [])])]"

lemma search_saves_what_it_shows_witness:
  "canSaveSearch logsPreset demo_search \<and> (\<exists>r. sp_ran demo_search = Some r \<and> ep_query (sr_panel r) \<noteq> None)"
proof -
  have save: "canSaveSearch logsPreset demo_search"
    by (simp add: demo_search_def search_after_def search_step_def execute_search_def open_search_def parsed_search_def searched_def
        start_run_def abort_last_def no_runs_def finish_run_def run_data_def run_update_def is_open_def search_panel_def draft_panel_def
        canSaveSearch_def stale_search_def searchPanelID_def demo_result_def searchCopy_def classifyPanelResult_def display_def
        panel_result.defs Let_def demo_parse_def empty_search_def)
  show ?thesis using save search_saves_what_it_shows [OF demo_search_def save] by (auto simp: search_panel_def draft_panel_def)
qed

text \<open>
  A value picked in a filter field or excluded in a row stays one value: what FanQL reads
  from its quoted text, doubled quotes undone, is the value itself, and reading stops where it ends.
\<close>

theorem quoted_values_read_back:
  assumes "rest = [] \<or> hd rest = CHR '' ''"
  shows "\<exists>body. quoted v @ rest = dquote # body \<and> read_quoted body = Some (v, rest)"
proof -
  have "rest = [] \<or> hd rest \<noteq> dquote" using assms by (auto simp: dquote_def)
  from read_quoted_back [OF this, of v] show ?thesis by (intro exI [of _ "tl (quoted v @ rest)"]) (simp add: quoted_def)
qed

lemma quoted_values_read_back_witness:
  "\<exists>body. quoted [dquote, CHR ''a''] @ '' -x'' = dquote # body \<and> read_quoted body = Some ([dquote, CHR ''a''], '' -x'')"
  by (rule quoted_values_read_back) simp

end
