(* ===== verification/Save_Dialog.thy ===== *)
theory Save_Dialog
  imports Explore_Page
begin

text \<open>
  The dialog that saves an Explore result to a dashboard (\<open>ui/host/src/explore/save-dialog.tsx\<close>): the id of
  the added panel, when the form can be sent, what is sent, and what a reply leaves in the dialog.
\<close>

section \<open>A free panel id (uniquePanelID)\<close>

definition numbered_id :: "string \<Rightarrow> nat \<Rightarrow> string" where
  "numbered_id base n = base @ ''_'' @ show_nat n"

lemma numbered_id_inject: "numbered_id base m = numbered_id base n \<longleftrightarrow> m = n"
  by (simp add: numbered_id_def show_nat_inject)

text \<open>The loop ends: of the numbers from \<open>n\<close> on, only finitely many are taken.\<close>

function free_number :: "string \<Rightarrow> string list \<Rightarrow> nat \<Rightarrow> string" where
  "free_number base taken n = (if numbered_id base n \<notin> set taken then numbered_id base n else free_number base taken (n + 1))"
  by pat_completeness auto

lemma taken_finite: "finite {m. n \<le> m \<and> numbered_id base m \<in> set taken}"
proof -
  have "inj (numbered_id base)" by (simp add: inj_def numbered_id_inject)
  then have "finite (numbered_id base -` set taken)" by (intro finite_vimageI) simp_all
  then show ?thesis by (rule finite_subset [rotated]) auto
qed

termination free_number
proof (relation "measure (\<lambda>(base, taken, n). card {m. n \<le> m \<and> numbered_id base m \<in> set taken})", simp)
  fix base taken n
  assume "\<not> numbered_id base n \<notin> set taken"
  then have "n \<in> {m. n \<le> m \<and> numbered_id base m \<in> set taken} - {m. n + 1 \<le> m \<and> numbered_id base m \<in> set taken}" by simp
  moreover have "{m. n + 1 \<le> m \<and> numbered_id base m \<in> set taken} \<subseteq> {m. n \<le> m \<and> numbered_id base m \<in> set taken}" by auto
  ultimately have "{m. n + 1 \<le> m \<and> numbered_id base m \<in> set taken} \<subset> {m. n \<le> m \<and> numbered_id base m \<in> set taken}" by blast
  then show "((base, taken, n + 1), base, taken, n) \<in> measure (\<lambda>(base, taken, n). card {m. n \<le> m \<and> numbered_id base m \<in> set taken})"
    using psubset_card_mono [OF taken_finite] by simp
qed

declare free_number.simps [simp del]

definition uniquePanelID :: "string \<Rightarrow> string list \<Rightarrow> string" where
  "uniquePanelID base taken = (if base \<notin> set taken then base else free_number base taken 2)"

lemma free_number_least:
  "\<exists>m \<ge> n. free_number base taken n = numbered_id base m \<and> numbered_id base m \<notin> set taken \<and> (\<forall>i. n \<le> i \<and> i < m \<longrightarrow> numbered_id base i \<in> set taken)"
proof (induction base taken n rule: free_number.induct)
  case (1 base taken n)
  show ?case
  proof (cases "numbered_id base n \<in> set taken")
    case True
    with 1 obtain m where "n + 1 \<le> m" "free_number base taken (n + 1) = numbered_id base m" "numbered_id base m \<notin> set taken"
      "\<forall>i. n + 1 \<le> i \<and> i < m \<longrightarrow> numbered_id base i \<in> set taken" by auto
    moreover have "numbered_id base i \<in> set taken" if "n \<le> i" "i < m" for i
      using that calculation(4) True by (cases "i = n") auto
    ultimately show ?thesis using True
      by (intro exI [of _ m]) (simp add: free_number.simps [of base taken n])
  qed (auto simp: free_number.simps [of base taken n])
qed

text \<open>
  A panel added to a dashboard gets an id that no panel of it has: the base itself, or the
  base with the least number from 2 on that is free; the search for it always ends.
\<close>

theorem added_panel_id_is_free:
  "uniquePanelID base taken \<notin> set taken
    \<and> (uniquePanelID base taken = base
       \<or> (\<exists>m \<ge> 2. uniquePanelID base taken = numbered_id base m \<and> base \<in> set taken \<and> {numbered_id base i |i. i \<in> {2..<m}} \<subseteq> set taken))"
  using free_number_least [of 2 base taken] by (auto simp: uniquePanelID_def)

section \<open>The dialog\<close>

record save_form =
  sf_target :: string
  sf_dashboard :: "string option"
  sf_name :: string
  sf_title :: string
  sf_saving :: bool
  sf_error :: "string option"

definition open_form :: "explore_panel \<Rightarrow> save_form" where
  "open_form panel = \<lparr>sf_target = ''existing'', sf_dashboard = None, sf_name = [], sf_title = defaultTitle (ep_title panel),
     sf_saving = False, sf_error = None\<rparr>"

text \<open>\<open>known\<close> are the ids of the dashboards, once they are loaded.\<close>

definition form_mode :: "string list option \<Rightarrow> save_form \<Rightarrow> string" where
  "form_mode known f = (if known = Some [] then ''new'' else sf_target f)"

definition form_ready :: "string list option \<Rightarrow> save_form \<Rightarrow> bool" where
  "form_ready known f \<longleftrightarrow> not_blank (sf_title f) \<and> (if form_mode known f = ''new'' then not_blank (sf_name f) else sf_dashboard f \<noteq> None)"

datatype save_request =
    CreateDashboard string "string option" "(string \<times> string) option" explore_panel
  | ReadDashboard string

text \<open>The first request, when the form can be sent.\<close>

definition press_save :: "string list option \<Rightarrow> dashboard_time \<Rightarrow> explore_panel \<Rightarrow> save_form \<Rightarrow> save_form \<times> save_request option" where
  "press_save known time panel f =
    (if \<not> form_ready known f \<or> sf_saving f then (f, None)
     else (f\<lparr>sf_saving := True, sf_error := None\<rparr>,
       if form_mode known f = ''new'' then
         (case (non_empty (dt_from time), non_empty (dt_to time)) of
            (Some a, Some b) \<Rightarrow> Some (CreateDashboard (js_trim (sf_name f)) None (Some (a, b)) (panel\<lparr>ep_id := ''explore'', ep_title := js_trim (sf_title f)\<rparr>))
          | _ \<Rightarrow> Some (CreateDashboard (js_trim (sf_name f)) (Some (nullish (dt_range time) ''1h'')) None
              (panel\<lparr>ep_id := ''explore'', ep_title := js_trim (sf_title f)\<rparr>)))
       else map_option ReadDashboard (sf_dashboard f)))"

text \<open>The panel of the patch, once the dashboard was read, with the ids of its panels, and the patch's summary.\<close>

definition added_panel :: "string list \<Rightarrow> explore_panel \<Rightarrow> save_form \<Rightarrow> explore_panel" where
  "added_panel ids panel f = panel\<lparr>ep_id := uniquePanelID ''explore'' ids, ep_title := js_trim (sf_title f)\<rparr>"

definition patch_summary :: "explore_panel \<Rightarrow> string" where
  "patch_summary added = ''Added '' @ ep_title added @ '' from Explore''"

text \<open>A save that fails: a version conflict, problems, or a message.\<close>

datatype save_failure = VersionConflict | SaveProblems "string list" | SaveMessage string

definition save_failed :: "save_failure \<Rightarrow> save_form \<Rightarrow> save_form" where
  "save_failed e f = f\<lparr>sf_saving := False, sf_error := Some (case e of
      VersionConflict \<Rightarrow> ''Someone saved that dashboard a moment ago. Save again to add the panel to the latest version.''
    | SaveProblems ms \<Rightarrow> join '' '' ms
    | SaveMessage m \<Rightarrow> m)\<rparr>"

definition save_done :: "save_form \<Rightarrow> save_form" where
  "save_done f = f\<lparr>sf_saving := False\<rparr>"

end
