(* ===== verification/Chat_View.thy ===== *)
theory Chat_View
  imports App_Context Panel_Fragment Js_Scan
begin

text \<open>
  What the chat shows of a conversation (\<open>ui/host/src/chat.tsx\<close>): which views of a turn are shown and
  which of them are open, the failed steps and rejected drafts of a turn, the visible messages and
  their turns, and the summary of a view. A message carries the activity type and value of an
  activity, and the error text of a tool result, beside what the receipts read of it.
\<close>

record chat_message = message +
  cm_activity :: "string option"
  cm_value :: "json option"
  cm_error :: "string option"

section \<open>The views of a turn (chatAppViews)\<close>

record app_view =
  av_content :: json
  av_expanded :: bool

definition view_of :: "json \<Rightarrow> json option" where
  "view_of content = Option.bind (jget ''tool_result'' content) (jget ''view'')"

definition view_key :: "json \<Rightarrow> json option" where
  "view_key content = Option.bind (view_of content) (jget ''key'')"

definition isPreset :: "json \<Rightarrow> bool" where
  "isPreset content \<longleftrightarrow> Option.bind (view_of content) (jstr ''kind'') = Some ''preset''"

type_synonym view_item = "string \<times> json"

definition app_item :: "(num \<Rightarrow> string) \<Rightarrow> chat_message \<Rightarrow> view_item option" where
  "app_item sn m = (if m_role m = ROtherRole \<and> cm_activity m = Some ''mcp-app''
     then map_option (Pair (m_id m)) (checked_card sn (cm_value m)) else None)"

text \<open>The last item of each key wins.\<close>

definition winners :: "view_item list \<Rightarrow> view_item list" where
  "winners turn = map_vals (from_entries (map (\<lambda>i. (view_key (snd i), i)) turn))"

definition chosen_ids :: "view_item list \<Rightarrow> string list" where
  "chosen_ids turn = map fst (winners turn)"

definition has_preset :: "view_item list \<Rightarrow> bool" where
  "has_preset turn \<longleftrightarrow> list_ex (\<lambda>i. isPreset (snd i)) (winners turn)"

definition last_chosen :: "view_item list \<Rightarrow> string option" where
  "last_chosen turn = map_option fst (last_opt (filter (\<lambda>i. fst i \<in> set (chosen_ids turn)) turn))"

type_synonym chat_views = "(string, app_view) omap \<times> string list"

definition finish_item :: "view_item list \<Rightarrow> chat_views \<Rightarrow> view_item \<Rightarrow> chat_views" where
  "finish_item turn s i = (case s of (views, duplicates) \<Rightarrow>
     if fst i \<notin> set (chosen_ids turn) then (views, push_new duplicates (fst i))
     else (AList.update (fst i) \<lparr>av_content = snd i, av_expanded = (isPreset (snd i) \<or> \<not> has_preset turn \<and> Some (fst i) = last_chosen turn)\<rparr> views, duplicates))"

definition finish_turn :: "view_item list \<Rightarrow> chat_views \<Rightarrow> chat_views" where
  "finish_turn turn s = foldl (finish_item turn) s turn"

definition view_step :: "(num \<Rightarrow> string) \<Rightarrow> chat_views \<times> view_item list \<Rightarrow> chat_message \<Rightarrow> chat_views \<times> view_item list" where
  "view_step sn st m = (case st of (s, turn) \<Rightarrow>
     (case (if m_role m = RUser then (finish_turn turn s, []) else (s, turn)) of (s', turn') \<Rightarrow>
       (s', turn' @ (case app_item sn m of Some i \<Rightarrow> [i] | None \<Rightarrow> []))))"

definition chatAppViews :: "(num \<Rightarrow> string) \<Rightarrow> chat_message list \<Rightarrow> chat_views" where
  "chatAppViews sn ms = (case foldl (view_step sn) (([], []), []) ms of (s, turn) \<Rightarrow> finish_turn turn s)"

section \<open>Failed steps (toolFailures)\<close>

record tool_failure =
  tf_name :: string
  tf_message :: string
  tf_details :: "string list"
  tf_read_only :: bool
  tf_rejected :: bool

text \<open>\<open>/^panels\[(\d+)\](?:\.|$)/.exec(path)?.[1]\<close>\<close>

definition panel_index :: "string \<Rightarrow> nat option" where
  "panel_index path = Option.bind (strip_prefix ''panels['' path) (\<lambda>s.
     let ds = takeWhile is_digit s; rest = dropWhile is_digit s
     in if ds \<noteq> [] \<and> (rest = '']'' \<or> starts_with rest ''].'') then Some (nat_of_digits ds) else None)"

definition draft_problem :: "string list option \<Rightarrow> json \<Rightarrow> string list" where
  "draft_problem titles p = (case (is_obj p, jstr ''message'' p) of
      (True, Some m) \<Rightarrow>
        (let i = Option.bind (jstr ''path'' p) panel_index;
             title = Option.bind i (\<lambda>i. Option.bind titles (\<lambda>ts. nth_opt ts i))
         in (case non_empty title of
               Some t \<Rightarrow> if \<not> starts_with m t then [t @ '': '' @ m] else [m]
             | None \<Rightarrow> [m]))
    | _ \<Rightarrow> [])"

definition draftProblems :: "json option \<Rightarrow> string list option \<Rightarrow> string list" where
  "draftProblems v titles = (case v of Some (JArr ps) \<Rightarrow> concat (map (draft_problem titles) ps) | _ \<Rightarrow> [])"

record open_call =
  oc_assistant :: string
  oc_name :: string
  oc_titles :: "string list option"

record failure_state =
  fs_groups :: "(string, tool_failure list) omap"
  fs_calls :: "(string, open_call) omap"
  fs_first :: "(string, string) omap"
  fs_assistant :: string

definition draft_titles :: "(string \<Rightarrow> json option) \<Rightarrow> tool_call \<Rightarrow> string list option" where
  "draft_titles jp c =
    (let draft = (if tc_name c \<in> {''create_dashboard'', ''replace_dashboard''}
           then Option.bind (jsonObject jp (Some (tc_arguments c))) (jget ''dashboard'') else None)
     in Option.bind draft (\<lambda>d. if is_obj d then map_option (map (\<lambda>p. nullish (jstr ''title'' p) [])) (jarr ''panels'' d) else None))"

definition note_call :: "(string \<Rightarrow> json option) \<Rightarrow> string \<Rightarrow> (string, open_call) omap \<Rightarrow> tool_call \<Rightarrow> (string, open_call) omap" where
  "note_call jp assistant calls c =
    AList.update (tc_id c) \<lparr>oc_assistant = assistant, oc_name = tc_name c, oc_titles = draft_titles jp c\<rparr> calls"

definition failing_payload :: "chat_message \<Rightarrow> json option \<Rightarrow> bool" where
  "failing_payload m payload \<longleftrightarrow> m_error m \<or> truthy (Option.bind payload (jget ''error''))
     \<or> Option.bind payload (jget ''isError'') = Some (JBool True)"

text \<open>A tool result that counts as a failed step, with the call it answers.\<close>

definition failed_step :: "(string \<Rightarrow> json option) \<Rightarrow> open_call option \<Rightarrow> chat_message \<Rightarrow> tool_failure option" where
  "failed_step jp call m =
    (let payload = jsonObject jp (m_content m);
         failure = Option.bind (Option.bind payload (jget ''error'')) (\<lambda>e. if is_obj e then Some e else None);
         code = Option.bind failure (jget ''code''); name = (case call of Some c \<Rightarrow> oc_name c | None \<Rightarrow> []);
         txt = (case Option.bind failure (jstr ''message'') of
             Some t \<Rightarrow> t
           | None \<Rightarrow> (case non_empty (cm_error m) of Some t \<Rightarrow> t | None \<Rightarrow> ''Could not complete this step. Try again.''));
         rejected = (name \<in> {''create_dashboard'', ''edit_dashboard'', ''replace_dashboard''}
           \<and> (code = Some (JStr ''invalid_spec'') \<or> code = Some (JStr ''dashboard_version_conflict'')))
     in if \<not> failing_payload m payload then None
        else if call \<noteq> None \<and> name \<in> set mutationNames \<and> interruptedResult jp (message.truncate m) then None
        else if code = Some (JStr ''no_data'') \<or> code = Some (JStr ''unknown_service'') then None
        else Some \<lparr>tf_name = toolFailureLabel name, tf_message = txt,
          tf_details = (if rejected then draftProblems (Option.bind payload (jget ''problems'')) (Option.bind call oc_titles) else []),
          tf_read_only = (code = Some (JStr ''answer_only'')), tf_rejected = rejected\<rparr>)"

definition failure_step :: "(string \<Rightarrow> json option) \<Rightarrow> failure_state \<Rightarrow> chat_message \<Rightarrow> failure_state" where
  "failure_step jp s m = (case m_role m of
      RUser \<Rightarrow> s\<lparr>fs_calls := [], fs_first := [], fs_assistant := m_id m\<rparr>
    | RAssistant \<Rightarrow> s\<lparr>fs_assistant := m_id m, fs_calls := foldl (note_call jp (m_id m)) (fs_calls s) (m_calls m)\<rparr>
    | RTool \<Rightarrow>
        (let call = map_of (fs_calls s) (m_call_id m)
         in case failed_step jp call m of
              None \<Rightarrow> s
            | Some f \<Rightarrow>
                (let owner = (case call of Some c \<Rightarrow> oc_assistant c | None \<Rightarrow> fs_assistant s);
                     first = nullish (map_of (fs_first s) owner) (m_id m)
                 in s\<lparr>fs_first := AList.update owner first (fs_first s),
                      fs_groups := AList.update first (nullish (map_of (fs_groups s) first) [] @ [f]) (fs_groups s)\<rparr>))
    | ROtherRole \<Rightarrow> s)"

definition no_failures :: failure_state where
  "no_failures = \<lparr>fs_groups = [], fs_calls = [], fs_first = [], fs_assistant = ''unattributed''\<rparr>"

definition toolFailures :: "(string \<Rightarrow> json option) \<Rightarrow> chat_message list \<Rightarrow> (string, tool_failure list) omap" where
  "toolFailures jp ms = fs_groups (foldl (failure_step jp) no_failures ms)"

text \<open>The labels of the failures shown under a message.\<close>

definition failure_labels :: "tool_failure list \<Rightarrow> string list" where
  "failure_labels fs =
    (let rejected = length (filter tf_rejected fs); failed = length (filter (\<lambda>f. \<not> tf_read_only f \<and> \<not> tf_rejected f) fs)
     in (if list_ex tf_read_only fs then [''Not saved: Explain is read-only''] else [])
        @ (if 0 < rejected then [show_nat rejected @ '' '' @ (if rejected = 1 then ''draft'' else ''drafts'') @ '' rejected''] else [])
        @ (if 0 < failed then [show_nat failed @ '' '' @ (if failed = 1 then ''step'' else ''steps'') @ '' failed''] else []))"

definition failure_lines :: "tool_failure list \<Rightarrow> string list" where
  "failure_lines fs = concat (map (\<lambda>f. if tf_details f \<noteq> [] then tf_details f else [tf_name f @ '': '' @ tf_message f]) fs)"

section \<open>Messages and turns (ChatPage)\<close>

definition plain_answer :: "chat_message \<Rightarrow> string option" where
  "plain_answer m = (if m_role m = RAssistant \<and> m_calls m = [] then m_content m else None)"

definition visible_message :: "chat_views \<Rightarrow> (string, tool_failure list) omap \<Rightarrow> chat_message \<Rightarrow> bool" where
  "visible_message views failures m \<longleftrightarrow> m_id m \<notin> set (snd views)
     \<and> (case m_role m of
          RTool \<Rightarrow> map_has failures (m_id m)
        | RAssistant \<Rightarrow> (case plain_answer m of Some t \<Rightarrow> not_blank t | None \<Rightarrow> False)
        | ROtherRole \<Rightarrow> cm_activity m = Some ''mcp-app'' \<or> cm_activity m = Some ''agent-outcome''
        | RUser \<Rightarrow> True)"

definition visibleMessages :: "(num \<Rightarrow> string) \<Rightarrow> (string \<Rightarrow> json option) \<Rightarrow> chat_message list \<Rightarrow> chat_message list" where
  "visibleMessages sn jp ms = filter (visible_message (chatAppViews sn ms) (toolFailures jp ms)) ms"

definition lastSent :: "chat_message list \<Rightarrow> string option" where
  "lastSent ms = map_option m_id (last_opt (filter (\<lambda>m. m_role m = RUser) ms))"

text \<open>What follows the last question: all of the messages when there is none.\<close>

definition since_question :: "chat_message list \<Rightarrow> chat_message list" where
  "since_question ms = (case find_index (\<lambda>m. Some (m_id m) = lastSent ms) ms of Some i \<Rightarrow> drop (i + 1) ms | None \<Rightarrow> ms)"

definition hasFinalText :: "chat_message list \<Rightarrow> bool" where
  "hasFinalText ms = list_ex (\<lambda>m. non_empty (plain_answer m) \<noteq> None) (since_question ms)"

definition final_answer :: "chat_message list \<Rightarrow> chat_message option" where
  "final_answer ms = last_opt (filter (\<lambda>m. case plain_answer m of Some t \<Rightarrow> not_blank t | None \<Rightarrow> False) (since_question ms))"

type_synonym turn = "string \<times> chat_message list"

definition turn_step :: "turn list \<Rightarrow> chat_message \<Rightarrow> turn list" where
  "turn_step ts m =
    (let ts' = (if m_role m = RUser \<or> ts = [] then ts @ [(m_id m, [])] else ts)
     in butlast ts' @ [(fst (last ts'), snd (last ts') @ [m])])"

definition turns_of :: "chat_message list \<Rightarrow> turn list" where
  "turns_of shown = (let ts = foldl turn_step [] shown in if ts = [] then [(''draft'', [])] else ts)"

text \<open>The messages of a turn in place; the answer follows the last turn.\<close>

definition shown_in_turn :: "chat_message option \<Rightarrow> turn \<Rightarrow> chat_message list" where
  "shown_in_turn answer t = filter (\<lambda>m. Some (m_id m) \<noteq> map_option m_id answer) (snd t)"

section \<open>The summary of a view (ChatAppView)\<close>

definition viz_words :: "string \<Rightarrow> string" where
  "viz_words v = (if v = ''timeseries'' then ''time series'' else map (\<lambda>c. if c = CHR ''_'' then CHR '' '' else c) v)"

definition result_rows :: "json \<Rightarrow> real" where
  "result_rows r = (case Option.bind (Option.bind (jget ''frame'' r) (jget ''rows'')) as_num of Some (Fin x) \<Rightarrow> x | _ \<Rightarrow> 0)"

definition status_counts :: "json list \<Rightarrow> (string, nat) omap" where
  "status_counts rs = foldl (\<lambda>m st. AList.update st (nullish (map_of m st) 0 + 1) m) []
     (filter (\<lambda>st. st \<noteq> ''ok'') (map (\<lambda>r. nullish (jstr ''status'' r) []) rs))"

definition middle_dot :: string where "middle_dot = '' '' @ middot @ '' ''"

definition view_status :: "(num \<Rightarrow> string) \<Rightarrow> json \<Rightarrow> string" where
  "view_status sn f =
    (let panels = nullish (fragment_panels f) []; results = nullish (jarr ''results'' f) []; counts = status_counts results;
         rows = sum_list (map result_rows results)
     in if 1 < length panels then join middle_dot (map (\<lambda>(st, n). show_nat n @ '' '' @ st) counts)
        else if counts \<noteq> [] then join '', '' (map_keys counts)
        else sn (Fin rows) @ '' '' @ (if rows = 1 then ''row'' else ''rows''))"

definition view_summary :: "(num \<Rightarrow> string) \<Rightarrow> json \<Rightarrow> string" where
  "view_summary sn content =
    (let f = nullish (jget ''tool_result'' content) JNull; panels = nullish (fragment_panels f) [];
         viz = join '', '' (uniq (map (\<lambda>p. viz_words (nullish (jstr ''viz'' p) [])) panels))
     in join middle_dot (filter (\<lambda>s. s \<noteq> []) [nullish (fragmentTitle f) [], viz, view_status sn f]))"

section \<open>Which views are shown\<close>

lemma from_entries_last:
  "map_of (from_entries (map (\<lambda>i. (k i, i)) xs)) key = find (\<lambda>i. k i = key) (rev xs)"
proof -
  have "map_of (map (\<lambda>i. (k i, i)) ys) key = find (\<lambda>i. k i = key) ys" for ys by (induction ys) auto
  from this [of "rev xs"] show ?thesis by (simp add: get_from_entries rev_map)
qed

lemma find_rev_last:
  "find P (rev xs) = Some x \<longleftrightarrow> (\<exists>as bs. xs = as @ x # bs \<and> P x \<and> (\<forall>y \<in> set bs. \<not> P y))"
proof (induction xs rule: rev_induct)
  case (snoc y ys)
  show ?case
  proof (cases "P y")
    case True
    have "(\<exists>as bs. ys @ [y] = as @ x # bs \<and> P x \<and> (\<forall>z \<in> set bs. \<not> P z)) \<longleftrightarrow> x = y"
    proof
      assume "\<exists>as bs. ys @ [y] = as @ x # bs \<and> P x \<and> (\<forall>z \<in> set bs. \<not> P z)"
      then obtain as bs where "ys @ [y] = as @ x # bs" "\<forall>z \<in> set bs. \<not> P z" by blast
      with True show "x = y" by (cases bs rule: rev_cases) auto
    next
      assume "x = y"
      then show "\<exists>as bs. ys @ [y] = as @ x # bs \<and> P x \<and> (\<forall>z \<in> set bs. \<not> P z)"
        using True by (intro exI [of _ ys] exI [of _ "[]"]) simp
    qed
    with True show ?thesis by auto
  next
    case False
    have "(\<exists>as bs. ys @ [y] = as @ x # bs \<and> P x \<and> (\<forall>z \<in> set bs. \<not> P z))
        \<longleftrightarrow> (\<exists>as bs. ys = as @ x # bs \<and> P x \<and> (\<forall>z \<in> set bs. \<not> P z))"
    proof
      assume "\<exists>as bs. ys @ [y] = as @ x # bs \<and> P x \<and> (\<forall>z \<in> set bs. \<not> P z)"
      then obtain as bs where b: "ys @ [y] = as @ x # bs" "P x" "\<forall>z \<in> set bs. \<not> P z" by blast
      with False show "\<exists>as bs. ys = as @ x # bs \<and> P x \<and> (\<forall>z \<in> set bs. \<not> P z)"
        by (cases bs rule: rev_cases) auto
    next
      assume "\<exists>as bs. ys = as @ x # bs \<and> P x \<and> (\<forall>z \<in> set bs. \<not> P z)"
      then obtain as bs where "ys = as @ x # bs" "P x" "\<forall>z \<in> set bs. \<not> P z" by blast
      with False show "\<exists>as bs. ys @ [y] = as @ x # bs \<and> P x \<and> (\<forall>z \<in> set bs. \<not> P z)"
        by (intro exI [of _ as] exI [of _ "bs @ [y]"]) auto
    qed
    with snoc False show ?thesis by simp
  qed
qed simp

text \<open>A winner is an item with no later item of its key.\<close>

lemma winners_iff:
  "x \<in> set (winners turn) \<longleftrightarrow> (\<exists>as bs. turn = as @ x # bs \<and> (\<forall>y \<in> set bs. view_key (snd y) \<noteq> view_key (snd x)))"
proof -
  let ?m = "from_entries (map (\<lambda>i. (view_key (snd i), i)) turn)"
  have "distinct (map fst ?m)" using from_entries_ok [of "map (\<lambda>i. (view_key (snd i), i)) turn"] by (simp add: map_ok_def)
  then have "x \<in> set (winners turn) \<longleftrightarrow> (\<exists>k. map_of ?m k = Some x)"
    unfolding winners_def map_vals_def by (simp add: image_iff map_of_eq_Some_iff) force
  also have "\<dots> \<longleftrightarrow> (\<exists>as bs. turn = as @ x # bs \<and> (\<forall>y \<in> set bs. view_key (snd y) \<noteq> view_key (snd x)))"
    unfolding from_entries_last find_rev_last by blast
  finally show ?thesis .
qed

lemma chosen_iff:
  assumes "distinct (map fst turn)" "x \<in> set turn"
  shows "fst x \<in> set (chosen_ids turn) \<longleftrightarrow> x \<in> set (winners turn)"
proof
  assume "fst x \<in> set (chosen_ids turn)"
  then obtain y where y: "y \<in> set (winners turn)" "fst y = fst x" by (auto simp: chosen_ids_def)
  then have "y \<in> set turn" by (auto simp: winners_iff)
  with y assms have "y = x" by (metis distinct_map inj_onD)
  with y show "x \<in> set (winners turn)" by simp
qed (simp add: chosen_ids_def)

definition shown_view :: "view_item list \<Rightarrow> view_item \<Rightarrow> app_view" where
  "shown_view turn i = \<lparr>av_content = snd i, av_expanded = (isPreset (snd i) \<or> \<not> has_preset turn \<and> Some (fst i) = last_chosen turn)\<rparr>"

text \<open>A part of a turn: its chosen items are shown, the others are duplicates.\<close>

lemma find_False [simp]: "find (\<lambda>x. False) xs = None"
  by (simp add: find_None_iff)

lemma finish_items:
  assumes "distinct (map fst xs)" "foldl (finish_item turn) (views, dups) xs = (views', dups')"
  shows "map_of views' i = (case find (\<lambda>x. fst x = i \<and> i \<in> set (chosen_ids turn)) xs of Some x \<Rightarrow> Some (shown_view turn x) | None \<Rightarrow> map_of views i)
    \<and> set dups' = set dups \<union> {fst x |x. x \<in> set xs \<and> fst x \<notin> set (chosen_ids turn)}"
  using assms
proof (induction xs arbitrary: views dups)
  case (Cons x xs)
  obtain v d where one: "finish_item turn (views, dups) x = (v, d)" by force
  have rest: "foldl (finish_item turn) (v, d) xs = (views', dups')" "distinct (map fst xs)" using Cons.prems one by simp_all
  note IH = Cons.IH [OF rest(2,1)]
  have none: "find (\<lambda>y. fst y = fst x \<and> P) xs = None" for P using Cons.prems(1) by (auto simp: find_None_iff) (metis fst_conv image_eqI)
  have v: "map_of v j = (if fst x \<in> set (chosen_ids turn) \<and> j = fst x then Some (shown_view turn x) else map_of views j)" for j
    using one by (auto simp: finish_item_def shown_view_def update_conv split: if_splits)
  have d: "set d = (if fst x \<in> set (chosen_ids turn) then set dups else insert (fst x) (set dups))"
    using one by (auto simp: finish_item_def push_new_def split: if_splits)
  have "map_of views' i = (case find (\<lambda>x. fst x = i \<and> i \<in> set (chosen_ids turn)) (x # xs) of Some x \<Rightarrow> Some (shown_view turn x) | None \<Rightarrow> map_of views i)"
  proof (cases "fst x = i")
    case True
    then show ?thesis using IH none v [of i] by auto
  next
    case False
    then show ?thesis using IH v [of i] by (auto split: option.split)
  qed
  moreover have "set dups' = set dups \<union> {fst y |y. y \<in> set (x # xs) \<and> fst y \<notin> set (chosen_ids turn)}"
    by (cases x) (use IH d in auto)
  ultimately show ?case ..
qed auto

lemma finish_turn_views:
  assumes "distinct (map fst turn)" "finish_turn turn (views, dups) = (views', dups')"
  shows "x \<in> set turn \<Longrightarrow> map_of views' (fst x) = (if x \<in> set (winners turn) then Some (shown_view turn x) else map_of views (fst x))"
    "i \<notin> fst ` set turn \<Longrightarrow> map_of views' i = map_of views i"
    "set dups' = set dups \<union> {fst x |x. x \<in> set turn \<and> x \<notin> set (winners turn)}"
proof -
  note items = finish_items [OF assms(1) assms(2) [unfolded finish_turn_def]]
  have found: "find (\<lambda>y. fst y = fst x \<and> fst x \<in> set (chosen_ids turn)) turn = (if fst x \<in> set (chosen_ids turn) then Some x else None)" if "x \<in> set turn" for x
  proof (cases "find (\<lambda>y. fst y = fst x \<and> fst x \<in> set (chosen_ids turn)) turn")
    case (Some y)
    then have "y \<in> set turn" "fst y = fst x" "fst x \<in> set (chosen_ids turn)" by (auto simp: find_Some_iff)
    with that assms(1) have "y = x" by (metis distinct_map inj_onD)
    with Some \<open>fst x \<in> _\<close> show ?thesis by simp
  next
    case None
    then have "fst x \<notin> set (chosen_ids turn)" using that unfolding find_None_iff by blast
    then show ?thesis by (simp add: find_None_iff)
  qed
  show "map_of views' (fst x) = (if x \<in> set (winners turn) then Some (shown_view turn x) else map_of views (fst x))" if "x \<in> set turn"
    using items [of "fst x", THEN conjunct1] chosen_iff [OF assms(1) that] unfolding found [OF that] by simp
  show "map_of views' i = map_of views i" if "i \<notin> fst ` set turn"
  proof -
    have "find (\<lambda>y. fst y = i \<and> i \<in> set (chosen_ids turn)) turn = None" using that by (force simp: find_None_iff)
    then show ?thesis using items [of i] by simp
  qed
  show "set dups' = set dups \<union> {fst x |x. x \<in> set turn \<and> x \<notin> set (winners turn)}"
    using items chosen_iff [OF assms(1)] by auto
qed

text \<open>A conversation as turns: each question starts one.\<close>

primrec split_turns :: "chat_message list \<Rightarrow> chat_message list list" where
  "split_turns [] = [[]]"
| "split_turns (m # ms) = (let segs = split_turns ms
     in if m_role m = RUser then [] # (m # hd segs) # tl segs else (m # hd segs) # tl segs)"

definition turn_items :: "(num \<Rightarrow> string) \<Rightarrow> chat_message list \<Rightarrow> view_item list list" where
  "turn_items sn ms = map (List.map_filter (app_item sn)) (split_turns ms)"

lemma split_turns_ne [simp]: "split_turns ms \<noteq> []"
  by (cases ms) (simp_all add: Let_def)

lemma concat_split_turns: "concat (split_turns ms) = ms"
proof (induction ms)
  case (Cons m ms)
  have "concat (split_turns ms) = hd (split_turns ms) @ concat (tl (split_turns ms))" by (cases "split_turns ms") simp_all
  with Cons show ?case by (simp add: Let_def)
qed simp

lemma user_no_item: "m_role m = RUser \<Longrightarrow> app_item sn m = None"
  by (simp add: app_item_def)

lemma views_by_turn:
  "(case foldl (view_step sn) (s, turn) ms of (s', turn') \<Rightarrow> finish_turn turn' s')
     = foldl (\<lambda>s t. finish_turn t s) s ((turn @ hd (turn_items sn ms)) # tl (turn_items sn ms))"
proof (induction ms arbitrary: s turn)
  case Nil
  then show ?case by (simp add: turn_items_def map_filter_simps)
next
  case (Cons m ms)
  obtain g gs where segs: "split_turns ms = g # gs" by (cases "split_turns ms") simp_all
  show ?case
  proof (cases "m_role m = RUser")
    case True
    then have "foldl (view_step sn) (s, turn) (m # ms) = foldl (view_step sn) (finish_turn turn s, []) ms"
      by (simp add: view_step_def user_no_item)
    then show ?thesis using Cons.IH [of "finish_turn turn s" "[]"] True
      by (simp add: turn_items_def segs Let_def map_filter_simps user_no_item)
  next
    case False
    have step: "foldl (view_step sn) (s, turn) (m # ms) = foldl (view_step sn) (s, turn @ (case app_item sn m of Some i \<Rightarrow> [i] | None \<Rightarrow> [])) ms"
      using False by (simp add: view_step_def)
    show ?thesis unfolding step Cons.IH using False
      by (simp add: turn_items_def segs Let_def map_filter_simps split: option.split)
  qed
qed

lemma chatAppViews_turns: "chatAppViews sn ms = foldl (\<lambda>s t. finish_turn t s) ([], []) (turn_items sn ms)"
proof -
  have "turn_items sn ms \<noteq> []" by (simp add: turn_items_def)
  then show ?thesis using views_by_turn [of sn "([], [])" "[]" ms] by (simp add: chatAppViews_def)
qed

text \<open>A turn leaves the other turns' views alone.\<close>

lemma later_turns:
  assumes "distinct (map fst (concat ts))" "foldl (\<lambda>s t. finish_turn t s) (views, dups) ts = (views', dups')" "i \<notin> fst ` set (concat ts)"
  shows "map_of views' i = map_of views i \<and> (i \<in> set dups' \<longleftrightarrow> i \<in> set dups)"
  using assms
proof (induction ts arbitrary: views dups)
  case (Cons u ts)
  obtain v d where one: "finish_turn u (views, dups) = (v, d)" by force
  have u: "i \<notin> fst ` set u" "distinct (map fst u)" using Cons.prems by auto
  have "map_of views' i = map_of v i \<and> (i \<in> set dups' \<longleftrightarrow> i \<in> set d)"
    using Cons.prems one by (intro Cons.IH) auto
  moreover have "i \<in> set d \<longleftrightarrow> i \<in> set dups" using finish_turn_views(3) [OF u(2) one] u(1) by (auto simp: image_iff)
  ultimately show ?case using finish_turn_views(2) [OF u(2) one u(1)] by simp
qed simp

lemma views_of_turns:
  assumes "distinct (map fst (concat ts))" "foldl (\<lambda>s t. finish_turn t s) (views, dups) ts = (views', dups')" "t \<in> set ts" "x \<in> set t"
  shows "map_of views' (fst x) = (if x \<in> set (winners t) then Some (shown_view t x) else map_of views (fst x))
    \<and> (fst x \<in> set dups' \<longleftrightarrow> fst x \<in> set dups \<or> x \<notin> set (winners t))"
  using assms
proof (induction ts arbitrary: views dups)
  case (Cons u ts)
  obtain v d where one: "finish_turn u (views, dups) = (v, d)" by force
  have rest: "foldl (\<lambda>s t. finish_turn t s) (v, d) ts = (views', dups')" "distinct (map fst (concat ts))" using Cons.prems one by simp_all
  have apart: "fst ` set u \<inter> fst ` set (concat ts) = {}" "distinct (map fst u)" using Cons.prems(1) by auto
  note here = finish_turn_views [OF apart(2) one]
  show ?case
  proof (cases "t \<in> set ts")
    case True
    then have "x \<in> set (concat ts)" using Cons.prems(4) by auto
    then have other: "fst x \<notin> fst ` set u" using apart(1) by blast
    then have "fst x \<in> set d \<longleftrightarrow> fst x \<in> set dups" using here(3) by (auto simp: image_iff)
    then show ?thesis using Cons.IH [OF rest(2,1) True Cons.prems(4)] here(2) [OF other] by simp
  next
    case False
    then have x: "t = u" "x \<in> set u" using Cons.prems(3,4) by simp_all
    then have "fst x \<notin> fst ` set (concat ts)" using apart(1) by blast
    note later = later_turns [OF rest(2,1) this]
    have "fst x \<in> set d \<longleftrightarrow> fst x \<in> set dups \<or> x \<notin> set (winners u)"
    proof -
      have "y = x" if "y \<in> set u" "fst y = fst x" for y using apart(2) x(2) that by (simp add: distinct_map inj_on_def)
      then have "fst x \<in> {fst y |y. y \<in> set u \<and> y \<notin> set (winners u)} \<longleftrightarrow> x \<notin> set (winners u)" using x(2) by fastforce
      then show ?thesis unfolding here(3) Un_iff by simp
    qed
    then show ?thesis using later here(1) [OF x(2)] x(1) by simp
  qed
qed simp

lemma items_distinct:
  assumes "distinct (map m_id ms)"
  shows "distinct (map fst (concat (turn_items sn ms)))"
proof -
  have "concat (map (List.map_filter f) segs) = List.map_filter f (concat segs)" for f :: "chat_message \<Rightarrow> view_item option" and segs
    by (induction segs) (simp_all add: map_filter_def)
  then have "concat (turn_items sn ms) = List.map_filter (app_item sn) ms"
    by (simp add: turn_items_def concat_split_turns)
  moreover have "app_item sn m = Some i \<Longrightarrow> fst i = m_id m" for m i by (auto simp: app_item_def split: if_splits)
  then have "map fst (List.map_filter (app_item sn) ms) = map m_id (filter (\<lambda>m. app_item sn m \<noteq> None) ms)"
    by (induction ms) (auto simp: map_filter_simps split: option.split)
  ultimately show ?thesis using assms by (simp add: distinct_map_filter)
qed

text \<open>
  In every turn of a conversation, of the views that show the same thing exactly the last
  one is shown and every other is counted as a duplicate and hidden; a preset is open, and when a
  turn shows no preset, of its queries the last is.
\<close>

theorem last_view_of_a_turn_is_shown:
  assumes "distinct (map m_id ms)" "chatAppViews sn ms = (views, duplicates)" "t \<in> set (turn_items sn ms)" "t = as @ x # bs"
  shows "if \<forall>y \<in> set bs. view_key (snd y) \<noteq> view_key (snd x)
    then map_of views (fst x) = Some \<lparr>av_content = snd x, av_expanded = (isPreset (snd x) \<or> \<not> has_preset t \<and> Some (fst x) = last_chosen t)\<rparr>
      \<and> fst x \<notin> set duplicates
    else map_of views (fst x) = None \<and> fst x \<in> set duplicates"
proof -
  obtain p q where "turn_items sn ms = p @ t # q" using split_list [OF assms(3)] by blast
  then have d: "distinct (map fst t)" using items_distinct [OF assms(1), of sn] by simp
  have x: "x \<in> set t" using assms(4) by simp
  have "x \<in> set (winners t) \<longleftrightarrow> (\<forall>y \<in> set bs. view_key (snd y) \<noteq> view_key (snd x))"
  proof
    assume "x \<in> set (winners t)"
    then obtain as' bs' where "t = as' @ x # bs'" "\<forall>y \<in> set bs'. view_key (snd y) \<noteq> view_key (snd x)" by (auto simp: winners_iff)
    moreover have "distinct t" using d by (simp add: distinct_map)
    ultimately show "\<forall>y \<in> set bs. view_key (snd y) \<noteq> view_key (snd x)" using assms(4) by (metis append_Cons_eq_iff distinct_append not_distinct_conv_prefix)
  qed (use assms(4) winners_iff in blast)
  then show ?thesis
    using views_of_turns [OF items_distinct [OF assms(1)] assms(2) [unfolded chatAppViews_turns] assms(3) x] by (simp add: shown_view_def)
qed

definition demo_card :: json where
  "demo_card = JObj [(''is_error'', JBool False), (''resource_uri'', JStr ''ui://fanout/panels.html''), (''tool_input'', JObj []),
     (''tool_name'', JStr ''t''), (''tool_result'', demo_fragment)]"

definition demo_app :: "string \<Rightarrow> chat_message" where
  "demo_app i = \<lparr>m_id = i, m_role = ROtherRole, m_calls = [], m_call_id = [], m_content = None, m_error = False,
     cm_activity = Some ''mcp-app'', cm_value = Some demo_card, cm_error = None\<rparr>"

lemma demo_card_ok: "checked_card (\<lambda>_. []) (Some demo_card) = Some demo_card"
proof -
  have "list_all (\<lambda>k. utf16 k = map byte k) [''is_error'', ''resource_uri'', ''tool_input'', ''tool_name'', ''tool_result'']"
    unfolding list_all_iff by (intro ballI utf16_ascii) (auto simp: byte_def)
  then have "sort_by str_le [''is_error'', ''resource_uri'', ''tool_input'', ''tool_name'', ''tool_result'']
      = [''is_error'', ''resource_uri'', ''tool_input'', ''tool_name'', ''tool_result'']"
    by (intro str_le.sort_by_id) (simp add: str_le_def byte_def)
  then show ?thesis by (simp add: checked_card_def demo_card_def card_ok_def card_keys_def demo_fragment_ok jstr_def)
qed

lemma demo_app_item: "app_item (\<lambda>_. []) (demo_app i) = Some (i, demo_card)"
  by (simp add: app_item_def demo_app_def demo_card_ok)

lemma last_view_of_a_turn_is_shown_witness:
  "map_of (fst (chatAppViews (\<lambda>_. []) [demo_app ''a'', demo_app ''b''])) ''a'' = None
    \<and> ''a'' \<in> set (snd (chatAppViews (\<lambda>_. []) [demo_app ''a'', demo_app ''b'']))"
proof -
  have turns: "turn_items (\<lambda>_. []) [demo_app ''a'', demo_app ''b''] = [[(''a'', demo_card), (''b'', demo_card)]]"
    by (simp add: turn_items_def map_filter_simps demo_app_item) (simp add: demo_app_def map_filter_simps demo_app_item [unfolded demo_app_def])
  have ids: "distinct (map m_id [demo_app ''a'', demo_app ''b''])" by (simp add: demo_app_def)
  show ?thesis
    using last_view_of_a_turn_is_shown [OF ids prod.collapse [symmetric], where sn = "\<lambda>_. []" and t = "[(''a'', demo_card), (''b'', demo_card)]" and as = "[]"
        and x = "(''a'', demo_card)" and bs = "[(''b'', demo_card)]"]
    by (simp add: turns)
qed

section \<open>Every failed step is shown once\<close>

text \<open>The failure of the message at a place, judged by the calls noted before it.\<close>

definition failure_at :: "(string \<Rightarrow> json option) \<Rightarrow> chat_message list \<Rightarrow> nat \<Rightarrow> tool_failure option" where
  "failure_at jp ms i = (if m_role (ms ! i) = RTool
     then failed_step jp (map_of (fs_calls (foldl (failure_step jp) no_failures (take i ms))) (m_call_id (ms ! i))) (ms ! i) else None)"

lemma mset_update_group:
  assumes "map_ok g"
  shows "mset (concat (map snd (AList.update k (nullish (map_of g k) [] @ [f]) g))) = add_mset f (mset (concat (map snd g)))"
  using assms
proof (induction g)
  case (Cons e g)
  obtain k' fs where e: "e = (k', fs)" by (cases e)
  show ?case
  proof (cases "k = k'")
    case False
    then show ?thesis using Cons by (simp add: e map_ok_def)
  qed (simp add: e)
qed simp

definition groups_ok :: "chat_message list \<Rightarrow> failure_state \<Rightarrow> bool" where
  "groups_ok ms s \<longleftrightarrow> map_ok (fs_groups s) \<and> (\<forall>k fs. map_of (fs_groups s) k = Some fs \<longrightarrow> fs \<noteq> [] \<and> (\<exists>m \<in> set ms. m_role m = RTool \<and> m_id m = k))
     \<and> (\<forall>a k. map_of (fs_first s) a = Some k \<longrightarrow> (\<exists>m \<in> set ms. m_role m = RTool \<and> m_id m = k))"

lemma groups_okD:
  assumes "groups_ok ms s"
  shows "map_ok (fs_groups s)" "map_of (fs_groups s) k = Some fs \<Longrightarrow> fs \<noteq> []"
    "map_of (fs_groups s) k = Some fs \<Longrightarrow> \<exists>m \<in> set ms. m_role m = RTool \<and> m_id m = k"
    "map_of (fs_first s) a = Some k \<Longrightarrow> \<exists>m \<in> set ms. m_role m = RTool \<and> m_id m = k"
  using assms unfolding groups_ok_def by blast+

lemma failure_step_ok:
  assumes "groups_ok ms s"
  shows "groups_ok (ms @ [m]) (failure_step jp s m)"
proof (cases "m_role m = RTool \<and> failed_step jp (map_of (fs_calls s) (m_call_id m)) m \<noteq> None")
  case True
  then obtain f where f: "failed_step jp (map_of (fs_calls s) (m_call_id m)) m = Some f" and tool: "m_role m = RTool" by blast
  define owner where "owner = (case map_of (fs_calls s) (m_call_id m) of Some c \<Rightarrow> oc_assistant c | None \<Rightarrow> fs_assistant s)"
  define first where "first = nullish (map_of (fs_first s) owner) (m_id m)"
  have step: "failure_step jp s m = s\<lparr>fs_first := AList.update owner first (fs_first s),
      fs_groups := AList.update first (nullish (map_of (fs_groups s) first) [] @ [f]) (fs_groups s)\<rparr>"
    using f tool by (simp add: failure_step_def owner_def first_def Let_def)
  note ok = groups_okD [OF assms]
  have mine: "\<exists>x \<in> set (ms @ [m]). m_role x = RTool \<and> m_id x = first"
    using tool ok(4) [of owner first] by (cases "map_of (fs_first s) owner") (auto simp: first_def)
  show ?thesis
    unfolding groups_ok_def step
  proof (intro conjI allI impI)
    show "map_ok (fs_groups (s\<lparr>fs_first := AList.update owner first (fs_first s),
        fs_groups := AList.update first (nullish (map_of (fs_groups s) first) [] @ [f]) (fs_groups s)\<rparr>))"
      using ok(1) by (simp add: map_ok_def distinct_update)
  qed (use ok(2-4) mine in \<open>auto simp: update_conv split: if_splits\<close>)
next
  case False
  then have "failure_step jp s m = s \<or> (\<exists>c a. failure_step jp s m = s\<lparr>fs_calls := c, fs_first := [], fs_assistant := a\<rparr>)
      \<or> (\<exists>c a. failure_step jp s m = s\<lparr>fs_assistant := a, fs_calls := c\<rparr>)"
    by (cases "m_role m") (auto simp: failure_step_def)
  moreover have "map_of (fs_groups s) k \<noteq> Some []" for k using groups_okD(2) [OF assms, of k "[]"] by auto
  ultimately show ?thesis using groups_okD [OF assms] by (auto simp: groups_ok_def)
qed

lemma no_failures_ok: "groups_ok [] no_failures"
  by (simp add: groups_ok_def no_failures_def)

lemma failure_run_ok: "groups_ok ms (foldl (failure_step jp) no_failures ms)"
proof (induction ms rule: rev_induct)
  case (snoc m ms)
  then show ?case using failure_step_ok by simp
qed (simp add: no_failures_ok)

lemma failures_counted:
  "mset (concat (map snd (toolFailures jp ms))) = mset (present (map (failure_at jp ms) [0..<length ms]))"
proof (induction ms rule: rev_induct)
  case Nil
  then show ?case by (simp add: toolFailures_def no_failures_def)
next
  case (snoc m ms)
  define s where "s = foldl (failure_step jp) no_failures ms"
  have before: "map (failure_at jp (ms @ [m])) [0..<length ms] = map (failure_at jp ms) [0..<length ms]"
    by (simp add: failure_at_def nth_append)
  have here: "failure_at jp (ms @ [m]) (length ms) = (if m_role m = RTool then failed_step jp (map_of (fs_calls s) (m_call_id m)) m else None)"
    by (simp add: failure_at_def s_def)
  have ok: "map_ok (fs_groups s)" using groups_okD(1) [OF failure_run_ok] by (simp add: s_def)
  have "mset (concat (map snd (fs_groups (failure_step jp s m))))
      = mset (concat (map snd (fs_groups s))) + mset (present [failure_at jp (ms @ [m]) (length ms)])"
    unfolding here using mset_update_group [OF ok]
    by (cases "m_role m") (auto simp: failure_step_def Let_def split: option.split)
  then show ?case using snoc by (simp add: toolFailures_def s_def [symmetric] before)
qed

text \<open>
  Every tool result that counts as a failed step is shown exactly once, in a group of
  failures; no group is empty, and each is shown in the place of a tool result of the conversation.
\<close>

theorem failed_steps_are_shown_once:
  "mset (concat (map_vals (toolFailures jp ms))) = mset (present (map (failure_at jp ms) [0..<length ms]))
    \<and> list_all (\<lambda>(k, fs). fs \<noteq> [] \<and> list_ex (\<lambda>m. m_role m = RTool \<and> m_id m = k) ms) (toolFailures jp ms)"
proof
  show "mset (concat (map_vals (toolFailures jp ms))) = mset (present (map (failure_at jp ms) [0..<length ms]))"
    unfolding map_vals_def by (rule failures_counted)
  note ok = groups_okD [OF failure_run_ok [of ms jp]]
  have "map_of (toolFailures jp ms) k = Some fs" if "(k, fs) \<in> set (toolFailures jp ms)" for k fs
    using that ok(1) by (simp add: toolFailures_def map_ok_def)
  then show "list_all (\<lambda>(k, fs). fs \<noteq> [] \<and> list_ex (\<lambda>m. m_role m = RTool \<and> m_id m = k) ms) (toolFailures jp ms)"
    using ok(2,3) by (fastforce simp: list_all_iff list_ex_iff toolFailures_def)
qed

end
