(* ===== verification/Panel_Editor.thy ===== *)
theory Panel_Editor
  imports Save_Dialog
begin

text \<open>
  Editing a panel of a dashboard (\<open>ui/host/src/dashboards/panel-editor.tsx\<close>), with the question before a
  draft is thrown away (\<open>discard.tsx\<close>), the dialogs for a new and a duplicated dashboard
  (\<open>new-dashboard.tsx\<close>, \<open>duplicate-dialog.tsx\<close>). A panel is the object it is in JSON: a property that is set
  to undefined is absent. \<open>js\<close> is \<open>JSON.stringify\<close>.
\<close>

section \<open>Composing the edited panel\<close>

type_synonym panel_object = "(string, json) omap"

definition same_json :: "(json \<Rightarrow> string) \<Rightarrow> json option \<Rightarrow> json option \<Rightarrow> bool" where
  "same_json js a b \<longleftrightarrow> js (nullish a JNull) = js (nullish b JNull)"

definition viz_fallback :: "(string, json) omap" where
  "viz_fallback = [(''gauge'', JStr ''stat''), (''state_timeline'', JStr ''timeseries'')]"

text \<open>The keys that are taken out of the old panel before the rest is kept.\<close>

definition tied_keys :: "string list" where
  "tied_keys = [''query'', ''sql'', ''viz'', ''reduce'', ''options'', ''drill'', ''click'', ''unit'', ''thresholds'', ''better'', ''min'', ''max'']"

definition measured_keys :: "string list" where
  "measured_keys = [''unit'', ''thresholds'', ''better'', ''min'', ''max'']"

definition put :: "string \<Rightarrow> json option \<Rightarrow> panel_object \<Rightarrow> panel_object" where
  "put k v p = (case v of Some x \<Rightarrow> AList.update k x p | None \<Rightarrow> AList.delete k p)"

definition query_part :: "string \<Rightarrow> panel_object \<Rightarrow> json option" where
  "query_part k p = Option.bind (map_of p ''query'') (jget k)"

definition sameMeasures :: "(json \<Rightarrow> string) \<Rightarrow> panel_object \<Rightarrow> panel_object \<Rightarrow> bool" where
  "sameMeasures js panel draft \<longleftrightarrow> map_of draft ''sql'' \<noteq> None
     \<or> same_json js (query_part ''measures'' draft) (query_part ''measures'' panel)"

definition sameColumns :: "(json \<Rightarrow> string) \<Rightarrow> panel_object \<Rightarrow> panel_object \<Rightarrow> bool" where
  "sameColumns js panel draft \<longleftrightarrow>
    (if map_of draft ''sql'' \<noteq> None then map_of draft ''sql'' = map_of panel ''sql''
     else sameMeasures js panel draft \<and> same_json js (query_part ''by'' draft) (query_part ''by'' panel))"

text \<open>The viz of the composed panel: without the old bounds and thresholds, the plain form of the same shape.\<close>

definition composed_viz :: "(json \<Rightarrow> string) \<Rightarrow> panel_object \<Rightarrow> panel_object \<Rightarrow> json option" where
  "composed_viz js panel draft =
    (if sameMeasures js panel draft then map_of draft ''viz''
     else case map_of draft ''viz'' of
         Some (JStr v) \<Rightarrow> (case map_of viz_fallback v of Some w \<Rightarrow> Some w | None \<Rightarrow> Some (JStr v))
       | v \<Rightarrow> v)"

definition composePanel :: "(json \<Rightarrow> string) \<Rightarrow> panel_object \<Rightarrow> panel_object \<Rightarrow> panel_object" where
  "composePanel js panel draft =
    (let kept = filter (\<lambda>e. fst e \<notin> set tied_keys) panel; old = map_of panel; new = map_of draft; viz = composed_viz js panel draft;
         measured = (if sameMeasures js panel draft then old else Map.empty);
         sameViz = (viz = old ''viz'')
     in put ''click'' (if truthy (old ''click'') \<and> truthy (new ''query'') \<and> same_json js (query_part ''by'' draft) (query_part ''by'' panel)
            then old ''click'' else None)
       (put ''drill'' (if truthy (old ''drill'') \<and> truthy (new ''query'') \<and> query_part ''from'' draft = query_part ''from'' panel then old ''drill'' else None)
       (put ''options'' (if sameViz \<and> sameColumns js panel draft \<and> truthy (old ''options'') then old ''options'' else None)
       (put ''reduce'' (if sameViz \<and> truthy (old ''reduce'') then old ''reduce'' else None)
       (foldl (\<lambda>p k. put k (measured k) p)
         (put ''query'' (if new ''sql'' = None then new ''query'' else None)
         (put ''sql'' (new ''sql'') (put ''viz'' viz (put ''title'' (new ''title'') (put ''id'' (new ''id'') kept)))))
         measured_keys)))))"

section \<open>The fields of an update\<close>

text \<open>Every changed field but the id and the place; \<open>null\<close> stands for a field the new panel has no longer.\<close>

definition panel_changes :: "(json \<Rightarrow> string) \<Rightarrow> panel_object \<Rightarrow> panel_object \<Rightarrow> panel_object" where
  "panel_changes js panel next' =
    foldl (\<lambda>s k. if k = ''id'' \<or> k = ''grid'' \<or> same_json js (map_of panel k) (map_of next' k) then s
        else AList.update k (nullish (map_of next' k) JNull) s) []
      (uniq (map fst panel @ map fst next'))"

text \<open>What an update does to a panel: \<open>null\<close> removes a field.\<close>

definition updated_field :: "panel_object \<Rightarrow> panel_object \<Rightarrow> string \<Rightarrow> json option" where
  "updated_field panel s k = (case map_of s k of None \<Rightarrow> map_of panel k | Some JNull \<Rightarrow> None | Some v \<Rightarrow> Some v)"

lemma map_of_put [simp]: "map_of (put k v p) k' = (if k = k' then v else map_of p k')"
  by (auto simp: put_def update_conv delete_conv split: option.split)

lemma changes_fold:
  "map_of (foldl (\<lambda>s k. if k = ''id'' \<or> k = ''grid'' \<or> same_json js (old k) (new k) then s
      else AList.update k (nullish (new k) JNull) s) s ks) k'
    = (if k' \<in> set ks \<and> k' \<noteq> ''id'' \<and> k' \<noteq> ''grid'' \<and> \<not> same_json js (old k') (new k') then Some (nullish (new k') JNull) else map_of s k')"
  by (induction ks arbitrary: s) (auto simp: update_conv)

lemma same_json_refl [simp]: "same_json js a a"
  by (simp add: same_json_def)

lemma panel_changes_get:
  "map_of (panel_changes js panel next') k = (if k \<noteq> ''id'' \<and> k \<noteq> ''grid'' \<and> \<not> same_json js (map_of panel k) (map_of next' k)
     then Some (nullish (map_of next' k) JNull) else None)"
proof -
  have "same_json js (map_of panel k) (map_of next' k)" if "k \<notin> set (map fst panel @ map fst next')"
    using that by (simp add: map_of_eq_None_iff [symmetric])
  then show ?thesis unfolding panel_changes_def changes_fold set_uniq by auto
qed

text \<open>
  Property C33. Applying the update that an edited panel sends to the panel as it was gives the edited
  panel: every field but the id and the place is, as JSON, the one of the new panel, and fields the
  update does not name are unchanged.
\<close>

theorem update_makes_the_edited_panel:
  assumes "k \<noteq> ''id''" "k \<noteq> ''grid''"
  shows "same_json js (updated_field panel (panel_changes js panel next') k) (map_of next' k)
    \<and> (same_json js (map_of panel k) (map_of next' k) \<longleftrightarrow> map_of (panel_changes js panel next') k = None)"
proof -
  have "same_json js (updated_field panel (panel_changes js panel next') k) (map_of next' k)"
  proof (cases "same_json js (map_of panel k) (map_of next' k)")
    case True
    then show ?thesis by (simp add: updated_field_def panel_changes_get)
  next
    case False
    with assms show ?thesis
      by (cases "map_of next' k"; cases "the (map_of next' k)") (simp_all add: updated_field_def panel_changes_get same_json_def)
  qed
  with assms show ?thesis by (simp add: panel_changes_get)
qed

lemma update_makes_the_edited_panel_witness:
  "same_json (\<lambda>_. []) (updated_field [(''unit'', JStr ''ms'')] (panel_changes (\<lambda>_. []) [(''unit'', JStr ''ms'')] []) ''unit'') (map_of [] ''unit'')"
  using update_makes_the_edited_panel [of "''unit''" "\<lambda>_. []" "[(''unit'', JStr ''ms'')]" "[]"] by simp

section \<open>What an edit keeps\<close>

lemma map_of_kept: "map_of (filter (\<lambda>e. fst e \<notin> A) xs) k = (if k \<in> A then None else map_of xs k)"
  by (induction xs) auto

lemma map_of_measured:
  "map_of (foldl (\<lambda>p k. put k (m k) p) p ks) k' = (if k' \<in> set ks then m k' else map_of p k')"
  by (induction ks arbitrary: p) auto

lemma composed_get:
  "map_of (composePanel js panel draft) ''click'' =
    (if truthy (map_of panel ''click'') \<and> truthy (map_of draft ''query'') \<and> same_json js (query_part ''by'' draft) (query_part ''by'' panel)
     then map_of panel ''click'' else None)"
  "map_of (composePanel js panel draft) ''drill'' =
    (if truthy (map_of panel ''drill'') \<and> truthy (map_of draft ''query'') \<and> query_part ''from'' draft = query_part ''from'' panel
     then map_of panel ''drill'' else None)"
  "map_of (composePanel js panel draft) ''options'' =
    (if composed_viz js panel draft = map_of panel ''viz'' \<and> sameColumns js panel draft \<and> truthy (map_of panel ''options'')
     then map_of panel ''options'' else None)"
  "map_of (composePanel js panel draft) ''reduce'' =
    (if composed_viz js panel draft = map_of panel ''viz'' \<and> truthy (map_of panel ''reduce'') then map_of panel ''reduce'' else None)"
  "map_of (composePanel js panel draft) ''query'' = (if map_of draft ''sql'' = None then map_of draft ''query'' else None)"
  "map_of (composePanel js panel draft) ''sql'' = map_of draft ''sql''"
  "map_of (composePanel js panel draft) ''viz'' = composed_viz js panel draft"
  unfolding composePanel_def Let_def map_of_put map_of_measured map_of_kept by (simp_all add: measured_keys_def)

lemma composed_measured:
  assumes "k \<in> set measured_keys"
  shows "map_of (composePanel js panel draft) k = (if sameMeasures js panel draft then map_of panel k else None)"
proof -
  have
    "map_of (composePanel js panel draft) ''unit'' = (if sameMeasures js panel draft then map_of panel ''unit'' else None)"
    "map_of (composePanel js panel draft) ''thresholds'' = (if sameMeasures js panel draft then map_of panel ''thresholds'' else None)"
    "map_of (composePanel js panel draft) ''better'' = (if sameMeasures js panel draft then map_of panel ''better'' else None)"
    "map_of (composePanel js panel draft) ''min'' = (if sameMeasures js panel draft then map_of panel ''min'' else None)"
    "map_of (composePanel js panel draft) ''max'' = (if sameMeasures js panel draft then map_of panel ''max'' else None)"
    unfolding composePanel_def Let_def map_of_put map_of_measured map_of_kept by (simp_all add: measured_keys_def)
  moreover have "k = ''unit'' \<or> k = ''thresholds'' \<or> k = ''better'' \<or> k = ''min'' \<or> k = ''max''"
    using assms by (simp add: measured_keys_def)
  ultimately show ?thesis by (elim disjE) (simp_all only:)
qed

lemma composed_other:
  assumes "k \<notin> set tied_keys" "k \<noteq> ''id''" "k \<noteq> ''title''"
  shows "map_of (composePanel js panel draft) k = map_of panel k"
proof -
  have n: "k \<noteq> ''query''" "k \<noteq> ''sql''" "k \<noteq> ''viz''" "k \<noteq> ''reduce''" "k \<noteq> ''options''" "k \<noteq> ''drill''" "k \<noteq> ''click''"
    "k \<notin> set measured_keys"
    using assms(1) by (simp_all only: tied_keys_def measured_keys_def list.set insert_iff empty_iff de_Morgan_disj simp_thms)
  show ?thesis
    unfolding composePanel_def Let_def map_of_put map_of_measured map_of_kept by (simp only: n assms n(1-7) [symmetric] assms(2-3) [symmetric] if_False simp_thms)
qed

text \<open>
  Editing a panel without touching its query or its viz keeps it: whatever the draft carries
  besides, every property but the id and the title is the old panel's; and when the measures change, no
  unit, threshold or bound of the old ones is left, so a gauge or a state timeline becomes the plain form.
\<close>

theorem composing_keeps_what_fits:
  assumes panel: "map_of panel ''sql'' \<noteq> None \<Longrightarrow> map_of panel ''query'' = None \<and> map_of panel ''drill'' = None \<and> map_of panel ''click'' = None"
    and query: "map_of panel ''sql'' = None \<Longrightarrow> truthy (map_of panel ''query'')"
    and set: "\<forall>k \<in> {''reduce'', ''options'', ''drill'', ''click''}. map_of panel k \<noteq> None \<longrightarrow> truthy (map_of panel k)"
    and kept: "\<forall>k \<in> {''sql'', ''query'', ''viz''}. map_of draft k = map_of panel k"
  shows "\<forall>k. k \<noteq> ''id'' \<and> k \<noteq> ''title'' \<longrightarrow> map_of (composePanel js panel draft) k = map_of panel k"
proof -
  have q: "query_part k draft = query_part k panel" for k using kept by (simp add: query_part_def)
  have m: "sameMeasures js panel draft" "sameColumns js panel draft" "composed_viz js panel draft = map_of panel ''viz''"
    using kept by (simp_all add: sameMeasures_def sameColumns_def composed_viz_def q)
  have "map_of (composePanel js panel draft) k = map_of panel k" if "k \<in> set measured_keys" for k
    using that m by (simp add: composed_measured)
  moreover have "(if truthy (map_of panel k) then map_of panel k else None) = map_of panel k"
    if "k \<in> {''reduce'', ''options'', ''drill'', ''click''}" for k
    using set that by (cases "map_of panel k") (auto simp del: insert_iff)
  then have "(if truthy (map_of panel ''reduce'') then map_of panel ''reduce'' else None) = map_of panel ''reduce''"
    "(if truthy (map_of panel ''options'') then map_of panel ''options'' else None) = map_of panel ''options''"
    "(if truthy (map_of panel ''drill'') then map_of panel ''drill'' else None) = map_of panel ''drill''"
    "(if truthy (map_of panel ''click'') then map_of panel ''click'' else None) = map_of panel ''click''" by simp_all
  then have "\<forall>k \<in> {''query'', ''sql'', ''viz'', ''reduce'', ''options'', ''drill'', ''click''}. map_of (composePanel js panel draft) k = map_of panel k"
    using panel query kept by (cases "map_of panel ''sql''") (simp_all add: composed_get m q)
  ultimately have "\<forall>k \<in> set tied_keys. map_of (composePanel js panel draft) k = map_of panel k"
    by (simp add: measured_keys_def tied_keys_def)
  then show ?thesis using composed_other by metis
qed

lemma composing_keeps_what_fits_witness:
  "map_of (composePanel (\<lambda>_. []) [(''sql'', JStr ''SELECT 1''), (''unit'', JStr ''ms'')] [(''sql'', JStr ''SELECT 1''), (''title'', JStr ''t'')]) ''unit'' = Some (JStr ''ms'')"
  using composing_keeps_what_fits [of "[(''sql'', JStr ''SELECT 1''), (''unit'', JStr ''ms'')]" "[(''sql'', JStr ''SELECT 1''), (''title'', JStr ''t'')]" "\<lambda>_. []"]
  by simp

lemma old_bounds_are_dropped:
  assumes "\<not> sameMeasures js panel draft"
  shows "k \<in> set measured_keys \<Longrightarrow> map_of (composePanel js panel draft) k = None"
    "map_of (composePanel js panel draft) ''viz'' \<noteq> Some (JStr ''gauge'')"
    "map_of (composePanel js panel draft) ''viz'' \<noteq> Some (JStr ''state_timeline'')"
  using assms by (auto simp: composed_get composed_measured composed_viz_def viz_fallback_def split: option.splits json.splits if_splits)

section \<open>Asking before a draft is thrown away (useDiscard)\<close>

record key_press =
  kp_key :: string
  kp_prevented :: bool
  kp_composing :: bool
  kp_expanded :: bool

text \<open>The dialog around a draft: whether the question is shown, and whether it was closed.\<close>

record draft_dialog =
  dd_dirty :: bool
  dd_confirming :: bool
  dd_closed :: bool

definition discard_request :: "draft_dialog \<Rightarrow> draft_dialog" where
  "discard_request d = (if \<not> dd_dirty d then d\<lparr>dd_closed := True\<rparr> else d\<lparr>dd_confirming := True\<rparr>)"

definition discard_resume :: "draft_dialog \<Rightarrow> draft_dialog" where
  "discard_resume d = d\<lparr>dd_confirming := False\<rparr>"

definition discard_key :: "key_press \<Rightarrow> draft_dialog \<Rightarrow> draft_dialog" where
  "discard_key e d =
    (if kp_key e \<noteq> ''Escape'' \<or> kp_prevented e \<or> kp_composing e \<or> kp_expanded e then d
     else if dd_confirming d then discard_resume d else discard_request d)"

datatype dialog_event =
    DraftChanged bool | CloseRequested | KeyPressed key_press | KeepEditing | DiscardChanges | DraftSaved

text \<open>The two buttons are there only while the question is; a closed dialog takes no events.\<close>

definition dialog_step :: "dialog_event \<Rightarrow> draft_dialog \<Rightarrow> draft_dialog" where
  "dialog_step e d = (if dd_closed d then d else case e of
      DraftChanged b \<Rightarrow> d\<lparr>dd_dirty := b\<rparr>
    | CloseRequested \<Rightarrow> discard_request d
    | KeyPressed k \<Rightarrow> discard_key k d
    | KeepEditing \<Rightarrow> if dd_confirming d then discard_resume d else d
    | DiscardChanges \<Rightarrow> if dd_confirming d then d\<lparr>dd_closed := True\<rparr> else d
    | DraftSaved \<Rightarrow> d\<lparr>dd_closed := True\<rparr>)"

lemma dialog_step_closes:
  assumes "\<not> dd_closed d" "dd_closed (dialog_step e d)"
  shows "e = DraftSaved \<or> (e = DiscardChanges \<and> dd_confirming d) \<or> \<not> dd_dirty d"
  using assms by (auto simp: dialog_step_def discard_request_def discard_key_def discard_resume_def split: dialog_event.splits if_splits)

text \<open>
  Property C30. A dialog with a draft is closed only by saving it, by the button that discards it while the
  question is shown, or when there is nothing to lose: whatever sequence of clicks and keys was made, the
  event that closed it is one of those, and no Escape closes a dialog whose draft has changed.
\<close>

theorem drafts_are_not_thrown_away:
  assumes "\<not> dd_closed d" "dd_closed (fold dialog_step es d)"
  shows "\<exists>es1 e es2. es = es1 @ e # es2 \<and> \<not> dd_closed (fold dialog_step es1 d) \<and>
    (e = DraftSaved \<or> (e = DiscardChanges \<and> dd_confirming (fold dialog_step es1 d)) \<or> \<not> dd_dirty (fold dialog_step es1 d))"
  using assms
proof (induction es arbitrary: d)
  case (Cons e es)
  show ?case
  proof (cases "dd_closed (dialog_step e d)")
    case True
    then show ?thesis using dialog_step_closes [OF Cons.prems(1)] Cons.prems(1) by (intro exI [of _ "[]"] exI [of _ e] exI [of _ es]) auto
  next
    case False
    from Cons.IH [OF this] Cons.prems(2) obtain es1 e' es2 where "es = es1 @ e' # es2" "\<not> dd_closed (fold dialog_step es1 (dialog_step e d))"
      "e' = DraftSaved \<or> (e' = DiscardChanges \<and> dd_confirming (fold dialog_step es1 (dialog_step e d))) \<or> \<not> dd_dirty (fold dialog_step es1 (dialog_step e d))"
      by auto
    then show ?thesis by (intro exI [of _ "e # es1"] exI [of _ e'] exI [of _ es2]) auto
  qed
qed simp

lemma drafts_are_not_thrown_away_witness:
  "\<exists>es1 e es2. [CloseRequested, DiscardChanges] = es1 @ e # es2 \<and>
    (e = DraftSaved \<or> (e = DiscardChanges \<and> dd_confirming (fold dialog_step es1 \<lparr>dd_dirty = True, dd_confirming = False, dd_closed = False\<rparr>))
     \<or> \<not> dd_dirty (fold dialog_step es1 \<lparr>dd_dirty = True, dd_confirming = False, dd_closed = False\<rparr>))"
  using drafts_are_not_thrown_away [of "\<lparr>dd_dirty = True, dd_confirming = False, dd_closed = False\<rparr>" "[CloseRequested, DiscardChanges]"]
  by (simp add: dialog_step_def discard_request_def) blast

section \<open>The editor\<close>

text \<open>The parts of a dashboard the editor reads: its panels, and everything else of its spec.\<close>

record board_spec =
  bs_panels :: "panel_object list"
  bs_rest :: panel_object

definition panel_id :: "panel_object \<Rightarrow> string option" where
  "panel_id p = (case map_of p ''id'' of Some (JStr s) \<Rightarrow> Some s | _ \<Rightarrow> None)"

definition object_text :: "string \<Rightarrow> panel_object \<Rightarrow> string option" where
  "object_text k p = (case map_of p k of Some (JStr s) \<Rightarrow> Some s | _ \<Rightarrow> None)"

record editor_latest =
  el_version :: nat
  el_spec :: board_spec
  el_panel :: "panel_object option"

record panel_editor =
  pe_opened :: editor_latest
  pe_layout_changed :: bool
  pe_latest :: "editor_latest option"
  pe_conflict :: "string option"
  pe_replaced :: bool
  pe_title :: string
  pe_search :: "explore_search option"
  pe_query_dirty :: bool
  pe_closed :: bool

definition open_editor :: "nat \<Rightarrow> board_spec \<Rightarrow> bool \<Rightarrow> panel_object option \<Rightarrow> panel_editor" where
  "open_editor version spec changed panel =
    \<lparr>pe_opened = \<lparr>el_version = version, el_spec = spec, el_panel = panel\<rparr>, pe_layout_changed = changed, pe_latest = None,
     pe_conflict = None, pe_replaced = False, pe_title = nullish (Option.bind panel (object_text ''title'')) [],
     pe_search = None, pe_query_dirty = False, pe_closed = False\<rparr>"

definition pe_base :: "panel_editor \<Rightarrow> editor_latest" where
  "pe_base s = nullish (pe_latest s) (pe_opened s)"

text \<open>The search the Explore editor starts with; \<open>written\<close> is the panel's query as text, once it arrived.\<close>

definition panel_range :: "panel_object \<Rightarrow> string option" where
  "panel_range p = (case Option.bind (map_of p ''time'') (jget ''range'') of Some (JStr s) \<Rightarrow> Some s | _ \<Rightarrow> None)"

definition initialSearch :: "dashboard_time \<Rightarrow> panel_object option \<Rightarrow> formatted_query option \<Rightarrow> explore_search" where
  "initialSearch time panel written =
    (let window = (case (non_empty (dt_from time), non_empty (dt_to time)) of
            (Some a, Some b) \<Rightarrow> empty_search\<lparr>xs_from := Some a, xs_to := Some b\<rparr>
          | _ \<Rightarrow> empty_search\<lparr>xs_range := nullish (Option.bind panel panel_range) (nullish (dt_range time) defaultRange)\<rparr>)
     in case panel of None \<Rightarrow> window
        | Some p \<Rightarrow> (case object_text ''sql'' p of
            Some src \<Rightarrow> window\<lparr>xs_sql := Some src, xs_viz := object_text ''viz'' p, xs_tab := ''sql''\<rparr>
          | None \<Rightarrow> (case written of None \<Rightarrow> window
              | Some t \<Rightarrow> window\<lparr>xs_q := fq_text t, xs_viz := object_text ''viz'' p, xs_tab := (if fq_editable t then ''query'' else ''builder'')\<rparr>)))"

definition editor_ready :: "formatted_query option \<Rightarrow> panel_editor \<Rightarrow> bool" where
  "editor_ready written s \<longleftrightarrow> \<not> truthy (Option.bind (el_panel (pe_opened s)) (\<lambda>p. map_of p ''query'')) \<or> written \<noteq> None"

definition editor_search :: "dashboard_time \<Rightarrow> formatted_query option \<Rightarrow> panel_editor \<Rightarrow> explore_search option" where
  "editor_search time written s = (case pe_search s of Some x \<Rightarrow> Some x
     | None \<Rightarrow> if editor_ready written s then Some (initialSearch time (el_panel (pe_opened s)) written) else None)"

definition editor_dirty :: "dashboard_time \<Rightarrow> formatted_query option \<Rightarrow> panel_editor \<Rightarrow> bool" where
  "editor_dirty time written s \<longleftrightarrow> pe_query_dirty s
     \<or> js_trim (pe_title s) \<noteq> nullish (Option.bind (el_panel (pe_opened s)) (object_text ''title'')) []
     \<or> (case el_panel (pe_opened s) of None \<Rightarrow> False
        | Some p \<Rightarrow> (case Option.bind (editor_search time written s) xs_viz of None \<Rightarrow> False | Some v \<Rightarrow> Some v \<noteq> object_text ''viz'' p))"

text \<open>What Save sends.\<close>

datatype board_request =
    ReplaceBoard board_spec nat string
  | AddPanel panel_object nat string
  | UpdatePanel string panel_object nat string

definition panel_ids :: "board_spec \<Rightarrow> string list" where
  "panel_ids spec = List.map_filter panel_id (bs_panels spec)"

definition save_title :: "panel_object \<Rightarrow> panel_editor \<Rightarrow> string" where
  "save_title result s = (if not_blank (pe_title s) then js_trim (pe_title s) else nullish (object_text ''title'' result) [])"

definition save_with_layout :: "panel_editor \<Rightarrow> bool" where
  "save_with_layout s \<longleftrightarrow> pe_layout_changed s \<and> \<not> pe_replaced s"

definition new_panel :: "panel_object \<Rightarrow> panel_editor \<Rightarrow> panel_object" where
  "new_panel result s = put ''id'' (Some (JStr (uniquePanelID ''panel'' (panel_ids (el_spec (pe_base s))))))
     (put ''title'' (Some (JStr (save_title result s))) result)"

definition edited_panel :: "panel_object \<Rightarrow> panel_object \<Rightarrow> panel_editor \<Rightarrow> panel_object" where
  "edited_panel result p s = put ''title'' (Some (JStr (save_title result s))) (put ''id'' (map_of p ''id'') result)"

definition save_request :: "(json \<Rightarrow> string) \<Rightarrow> panel_object \<Rightarrow> panel_editor \<Rightarrow> board_request" where
  "save_request js result s =
    (let base = pe_base s; spec = el_spec base; name = save_title result s in
     case el_panel base of
       None \<Rightarrow>
         if save_with_layout s then ReplaceBoard (spec\<lparr>bs_panels := bs_panels spec @ [new_panel result s]\<rparr>) (el_version base) (''Added '' @ name @ '' and saved layout'')
         else AddPanel (new_panel result s) (el_version base) (''Added '' @ name)
     | Some panel \<Rightarrow>
         if save_with_layout s then
           ReplaceBoard (spec\<lparr>bs_panels := map (\<lambda>p. if map_of p ''id'' = map_of panel ''id'' then put ''grid'' (map_of p ''grid'') (edited_panel result p s) else p) (bs_panels spec)\<rparr>)
             (el_version base) (''Edited '' @ name @ '' and saved layout'')
         else UpdatePanel (nullish (panel_id panel) []) (panel_changes js panel (edited_panel result panel s)) (el_version base) (''Edited '' @ name))"

definition save_closed :: "panel_editor \<Rightarrow> panel_editor" where
  "save_closed s = s\<lparr>pe_closed := True\<rparr>"

text \<open>A refused save: a conflict asks to load the latest version; anything else is thrown to the Explore page.\<close>

definition save_refused :: "save_failure \<Rightarrow> panel_editor \<Rightarrow> panel_editor \<times> string option" where
  "save_refused e s = (case e of
      VersionConflict \<Rightarrow> (s\<lparr>pe_conflict := Some ''stale''\<rparr>, None)
    | SaveProblems ms \<Rightarrow> (s, Some (join '' '' ms))
    | SaveMessage m \<Rightarrow> (s, Some m))"

definition reload_start :: "panel_editor \<Rightarrow> panel_editor" where
  "reload_start s = s\<lparr>pe_conflict := Some ''loading''\<rparr>"

text \<open>A panel someone else removed is no longer there, so saving adds it back.\<close>

definition reload_done :: "nat \<Rightarrow> board_spec \<Rightarrow> panel_editor \<Rightarrow> panel_editor" where
  "reload_done version spec s = s\<lparr>pe_replaced := True, pe_conflict := None,
     pe_latest := Some \<lparr>el_version = version, el_spec = spec,
       el_panel = Option.bind (el_panel (pe_opened s)) (\<lambda>o'. find (\<lambda>p. map_of p ''id'' = map_of o' ''id'') (bs_panels spec))\<rparr>\<rparr>"

definition reload_failed :: "string option \<Rightarrow> panel_editor \<Rightarrow> panel_editor" where
  "reload_failed m s = s\<lparr>pe_conflict := Some (nullish m ''The latest version could not be loaded.'')\<rparr>"


section \<open>The dialogs for a new and for a duplicated dashboard\<close>

text \<open>A dashboard is created together with its first panel; without a name nothing is sent.\<close>

record new_dashboard =
  nd_name :: string
  nd_search :: explore_search
  nd_query_dirty :: bool

definition nd_dirty :: "new_dashboard \<Rightarrow> bool" where
  "nd_dirty d \<longleftrightarrow> js_trim (nd_name d) \<noteq> [] \<or> nd_query_dirty d"

record created_dashboard =
  cd_name :: string
  cd_time :: dashboard_time
  cd_panels :: "panel_object list"

definition plain_time :: dashboard_time where
  "plain_time = \<lparr>dt_range = None, dt_from = None, dt_to = None, dt_refresh = None, dt_compare = False\<rparr>"

definition create_board :: "new_dashboard \<Rightarrow> panel_object \<Rightarrow> string + created_dashboard" where
  "create_board d panel =
    (if js_trim (nd_name d) = [] then Inl ''Name the dashboard first.''
     else Inr \<lparr>cd_name = js_trim (nd_name d),
       cd_time = (case (non_empty (xs_from (nd_search d)), non_empty (xs_to (nd_search d))) of
            (Some a, Some b) \<Rightarrow> plain_time\<lparr>dt_from := Some a, dt_to := Some b\<rparr>
          | _ \<Rightarrow> plain_time\<lparr>dt_range := Some (xs_range (nd_search d))\<rparr>),
       cd_panels = [put ''id'' (Some (JStr ''panel'')) panel]\<rparr>)"

definition create_failure :: "request_failure \<Rightarrow> string" where
  "create_failure e = (if rf_problems e \<noteq> [] then join '' '' (map snd (rf_problems e)) else rf_message e)"

text \<open>A copy is sent under a name that is not blank and not the old one, once at a time.\<close>

record duplicate_form =
  df_name :: string
  df_saving :: bool
  df_error :: "string option"

definition duplicate_open :: "string \<Rightarrow> duplicate_form" where
  "duplicate_open name = \<lparr>df_name = name @ '' copy'', df_saving = False, df_error = None\<rparr>"

definition duplicate_press :: "string \<Rightarrow> duplicate_form \<Rightarrow> duplicate_form \<times> string option" where
  "duplicate_press name f = (if df_saving f \<or> js_trim (df_name f) = [] \<or> js_trim (df_name f) = name then (f, None)
     else (f\<lparr>df_saving := True, df_error := None\<rparr>, Some (js_trim (df_name f))))"

definition duplicate_reply :: "string option + string \<Rightarrow> duplicate_form \<Rightarrow> duplicate_form \<times> string option" where
  "duplicate_reply r f = (case r of
      Inl e \<Rightarrow> (f\<lparr>df_saving := False, df_error := Some (nullish e ''Duplicate failed'')\<rparr>, None)
    | Inr i \<Rightarrow> (f\<lparr>df_saving := False\<rparr>, Some i))"

definition duplicate_may_close :: "duplicate_form \<Rightarrow> bool" where
  "duplicate_may_close f \<longleftrightarrow> \<not> df_saving f"

end
