(* ===== verification/Dashboard_History.thy ===== *)
theory Dashboard_History
  imports Save_Dialog
begin

text \<open>
  The version history of a dashboard (\<open>ui/host/src/dashboards/history.tsx\<close>): which version is shown, the
  restore in flight, its confirmation or error, and the advice given. A restore is a mutation of the
  query library: its callbacks run whether or not it is still shown, and a reset only stops showing it.
\<close>

section \<open>The state of the drawer\<close>

record restore_failure =
  rs_api :: bool
  rs_status :: nat
  rs_code :: string
  rs_message :: string

record restore_job =
  rj_version :: nat
  rj_generation :: nat
  rj_shown :: bool

record history =
  hs_opened :: bool
  hs_mounted :: bool
  hs_content :: bool
  hs_selected :: "nat option"
  hs_success :: "string option"
  hs_pending :: bool
  hs_submitting :: bool
  hs_generation :: nat
  hs_jobs :: "restore_job list"
  hs_error :: "(nat \<times> restore_failure) option"
  hs_observed :: nat

definition open_history :: "bool \<Rightarrow> nat \<Rightarrow> history" where
  "open_history b version = \<lparr>hs_opened = b, hs_mounted = True, hs_content = b, hs_selected = None, hs_success = None, hs_pending = False,
     hs_submitting = False, hs_generation = 0, hs_jobs = [], hs_error = None, hs_observed = version\<rparr>"

text \<open>A new generation of feedback: what an earlier restore answers is no longer shown.\<close>

definition reset_feedback :: "history \<Rightarrow> history" where
  "reset_feedback s = s\<lparr>hs_generation := hs_generation s + 1, hs_error := None, hs_success := None,
     hs_jobs := map (\<lambda>j. j\<lparr>rj_shown := False\<rparr>) (hs_jobs s)\<rparr>"

definition submit_restore :: "nat \<Rightarrow> history \<Rightarrow> history" where
  "submit_restore v s = (if hs_submitting s then s
     else s\<lparr>hs_submitting := True, hs_pending := True, hs_success := None, hs_error := None,
       hs_jobs := map (\<lambda>j. j\<lparr>rj_shown := False\<rparr>) (hs_jobs s) @ [\<lparr>rj_version = v, rj_generation = hs_generation s, rj_shown = True\<rparr>]\<rparr>)"

definition settle_restore :: "nat \<Rightarrow> history \<Rightarrow> history" where
  "settle_restore i s = s\<lparr>hs_submitting := False, hs_pending := (hs_pending s \<and> \<not> hs_mounted s),
     hs_jobs := take i (hs_jobs s) @ drop (Suc i) (hs_jobs s)\<rparr>"

definition restored_text :: "nat \<Rightarrow> nat \<Rightarrow> string" where
  "restored_text v made = ''Restored v'' @ show_nat v @ '' as v'' @ show_nat made"

definition restore_succeeded :: "nat \<Rightarrow> nat \<Rightarrow> history \<Rightarrow> history" where
  "restore_succeeded i made s = settle_restore i
    (if hs_mounted s \<and> hs_opened s \<and> rj_generation (hs_jobs s ! i) = hs_generation s
     then s\<lparr>hs_success := Some (restored_text (rj_version (hs_jobs s ! i)) made)\<rparr> else s)"

definition restore_failed :: "nat \<Rightarrow> restore_failure \<Rightarrow> history \<Rightarrow> history" where
  "restore_failed i f s = settle_restore i
    (if rj_shown (hs_jobs s ! i) then s\<lparr>hs_error := Some (rj_version (hs_jobs s ! i), f)\<rparr> else s)"

datatype history_event =
    SelectVersion nat | DrawerClosed | OpenedChanged bool | ExitEnded | Unmounted | RestorePressed nat
  | Restored nat nat | RestoreRefused nat restore_failure | VersionObserved nat

definition history_step :: "history_event \<Rightarrow> history \<Rightarrow> history" where
  "history_step e s = (case e of
      SelectVersion v \<Rightarrow> (reset_feedback s)\<lparr>hs_selected := Some v\<rparr>
    | DrawerClosed \<Rightarrow> reset_feedback s
    | OpenedChanged b \<Rightarrow> if b then s\<lparr>hs_opened := True, hs_content := True\<rparr> else (reset_feedback s)\<lparr>hs_opened := False\<rparr>
    | ExitEnded \<Rightarrow> s\<lparr>hs_content := False\<rparr>
    | Unmounted \<Rightarrow> s\<lparr>hs_mounted := False\<rparr>
    | RestorePressed v \<Rightarrow> submit_restore v s
    | Restored i made \<Rightarrow> if i < length (hs_jobs s) then restore_succeeded i made s else s
    | RestoreRefused i f \<Rightarrow> if i < length (hs_jobs s) then restore_failed i f s else s
    | VersionObserved v \<Rightarrow> s\<lparr>hs_observed := v\<rparr>)"

text \<open>What an event does to the caches of the console.\<close>

datatype history_effect =
    CancelData | StoreRecord nat | MarkDataStale | TellRestored nat | RefetchDashboards | RefetchVersions | CancelHistory

definition history_effects :: "history_event \<Rightarrow> history \<Rightarrow> history_effect list" where
  "history_effects e s = (case e of
      Restored i made \<Rightarrow> if i < length (hs_jobs s)
        then [CancelData, StoreRecord made, MarkDataStale] @ (if hs_mounted s then [TellRestored made] else []) @ [RefetchDashboards, RefetchVersions]
        else []
    | RestoreRefused i f \<Rightarrow> if i < length (hs_jobs s) \<and> rs_api f \<and> rs_code f = ''dashboard_version_not_found'' then [RefetchVersions] else []
    | OpenedChanged b \<Rightarrow> if b then [] else [CancelHistory]
    | VersionObserved v \<Rightarrow> if hs_observed s = v then [] else [RefetchVersions]
    | _ \<Rightarrow> [])"

section \<open>At most one restore\<close>

definition history_ok :: "history \<Rightarrow> bool" where
  "history_ok s \<longleftrightarrow> length (hs_jobs s) = (if hs_submitting s then 1 else 0)
     \<and> (hs_mounted s \<longrightarrow> hs_pending s = hs_submitting s)
     \<and> (hs_success s \<noteq> None \<longrightarrow> \<not> hs_submitting s \<and> hs_opened s \<and> hs_error s = None)
     \<and> (\<forall>j \<in> set (hs_jobs s). rj_generation j \<le> hs_generation s \<and> (rj_shown j \<longleftrightarrow> rj_generation j = hs_generation s))
     \<and> (hs_error s \<noteq> None \<longrightarrow> \<not> hs_submitting s)"

lemma history_ok_open: "history_ok (open_history b v)"
  by (simp add: history_ok_def open_history_def)

lemma history_ok_reset:
  assumes "history_ok s" shows "history_ok (reset_feedback s)"
  using assms by (auto simp: history_ok_def reset_feedback_def)

lemma history_ok_submit:
  assumes "history_ok s" shows "history_ok (submit_restore v s)"
  using assms by (auto simp: history_ok_def submit_restore_def)

lemma one_job:
  assumes "history_ok s" "i < length (hs_jobs s)"
  shows "hs_submitting s" "i = 0" "\<exists>j. hs_jobs s = [j]" "hs_success s = None" "hs_error s = None"
  using assms by (cases "hs_error s"; auto simp: history_ok_def length_Suc_conv split: if_splits)+

lemma history_ok_succeeded:
  assumes "history_ok s" "i < length (hs_jobs s)"
  shows "history_ok (restore_succeeded i made s)"
  using assms(1) one_job [OF assms] by (auto simp: history_ok_def restore_succeeded_def settle_restore_def)

lemma history_ok_failed:
  assumes "history_ok s" "i < length (hs_jobs s)"
  shows "history_ok (restore_failed i f s)"
  using assms(1) one_job [OF assms] by (auto simp: history_ok_def restore_failed_def settle_restore_def)

lemma history_ok_step:
  assumes "history_ok s"
  shows "history_ok (history_step e s)"
proof (cases e)
  case (SelectVersion v)
  with history_ok_reset [OF assms] show ?thesis by (simp add: history_step_def history_ok_def)
next
  case (OpenedChanged b)
  with history_ok_reset [OF assms] assms show ?thesis by (auto simp: history_step_def history_ok_def reset_feedback_def)
next
  case (Restored i made)
  with history_ok_succeeded [OF assms] assms show ?thesis by (simp add: history_step_def)
next
  case (RestoreRefused i f)
  with history_ok_failed [OF assms] assms show ?thesis by (simp add: history_step_def)
qed (use assms history_ok_reset [OF assms] history_ok_submit [OF assms] in \<open>auto simp: history_step_def history_ok_def\<close>)

text \<open>
  Property C38. Whatever is clicked, closed, reopened and answered in whatever order, at most one restore is
  in flight, the button waits exactly while it is, a confirmation is only in an open drawer and never
  beside an error, and a restore can be shown only when its feedback was not reset since.
\<close>

theorem at_most_one_restore:
  "length (hs_jobs (fold history_step es (open_history b v))) \<le> 1
    \<and> history_ok (fold history_step es (open_history b v))"
proof -
  have "history_ok (fold history_step es s)" if "history_ok s" for s
    using that by (induction es arbitrary: s) (auto simp: history_ok_step)
  from this [OF history_ok_open] show ?thesis by (auto simp: history_ok_def)
qed

text \<open>
  A restore is confirmed exactly when nothing else was selected and the drawer was not closed
  since it was asked for; otherwise its answer changes neither the confirmation nor the error shown, but
  the dashboard takes the restored version all the same.
\<close>

theorem late_restores_are_not_confirmed:
  assumes "history_ok s" "hs_jobs s = [j]"
  shows "(hs_success (history_step (Restored 0 made) s) = Some (restored_text (rj_version j) made)
          \<longleftrightarrow> hs_mounted s \<and> hs_opened s \<and> rj_generation j = hs_generation s)
    \<and> (hs_error (history_step (RestoreRefused 0 f) s) = Some (rj_version j, f) \<longleftrightarrow> rj_generation j = hs_generation s)
    \<and> StoreRecord made \<in> set (history_effects (Restored 0 made) s)"
proof -
  have "hs_success s = None" "hs_error s = None" "rj_shown j \<longleftrightarrow> rj_generation j = hs_generation s"
    using one_job [OF assms(1), of 0] assms by (simp_all add: history_ok_def)
  then show ?thesis using assms(2)
    by (auto simp: history_step_def history_effects_def restore_succeeded_def restore_failed_def settle_restore_def)
qed

lemma late_restores_are_not_confirmed_witness:
  "hs_success (history_step (Restored 0 9) (fold history_step [RestorePressed 3, SelectVersion 2] (open_history True 8))) \<noteq> Some (restored_text 3 9)"
proof -
  let ?s = "fold history_step [RestorePressed 3, SelectVersion 2] (open_history True 8)"
  have "history_ok ?s" by (simp add: history_ok_step history_ok_open)
  moreover have "hs_jobs ?s = [\<lparr>rj_version = 3, rj_generation = 0, rj_shown = False\<rparr>]" "hs_generation ?s = 1"
    by (simp_all add: history_step_def submit_restore_def reset_feedback_def open_history_def)
  ultimately show ?thesis
    using late_restores_are_not_confirmed [of ?s "\<lparr>rj_version = 3, rj_generation = 0, rj_shown = False\<rparr>" 9] by simp
qed

section \<open>What the drawer shows\<close>

record version_info =
  vi_version :: nat
  vi_author :: string
  vi_message :: string

definition shown_version :: "version_info list option \<Rightarrow> history \<Rightarrow> nat option" where
  "shown_version infos s = (case hs_selected s of Some v \<Rightarrow> Some v
     | None \<Rightarrow> (case infos of Some (i # _) \<Rightarrow> Some (vi_version i) | _ \<Rightarrow> None))"

definition shown_error :: "version_info list option \<Rightarrow> history \<Rightarrow> restore_failure option" where
  "shown_error infos s = (case hs_error s of Some (v, f) \<Rightarrow> if Some v = shown_version infos s then Some f else None | None \<Rightarrow> None)"

definition authorLabel :: "string \<Rightarrow> string" where
  "authorLabel k = (if k = ''agent'' then ''Agent'' else if k = ''user'' then ''You'' else ''System'')"

datatype restore_button = CurrentVersion | SameAsCurrent | RestoreButton bool

definition restore_button_of :: "nat \<Rightarrow> nat \<Rightarrow> bool \<Rightarrow> bool \<Rightarrow> restore_button" where
  "restore_button_of v current_version same_spec pending =
    (if v = current_version then CurrentVersion else if same_spec then SameAsCurrent else RestoreButton (\<not> pending))"

definition restore_advice :: "restore_failure \<Rightarrow> string" where
  "restore_advice f =
    (if \<not> rs_api f \<or> rs_status f \<ge> 500 then ''Try again with the restore button.''
     else if rs_code f = ''invalid_spec'' then ''This saved spec is invalid. Review the fields below and choose another version.''
     else if rs_code f = ''dashboard_version_not_found'' then ''Reload history and choose a retained version.''
     else if rs_code f = ''already_current'' then ''The dashboard already has this version's contents, so there is nothing to restore.''
     else if rs_code f \<in> {''dashboard_version_conflict'', ''conflict''} then ''This dashboard changed or its name conflicts. Reload history and choose another version.''
     else ''Check your access and reload history.'')"

text \<open>The age of a version, in the unit that fits; \<open>Math.round\<close> rounds halves up.\<close>

definition relative_time :: "real \<Rightarrow> int \<times> string" where
  "relative_time seconds =
    (let (divisor, u) = (if \<bar>seconds\<bar> < 60 then (1, ''second'') else if \<bar>seconds\<bar> < 3600 then (60, ''minute'')
        else if \<bar>seconds\<bar> < 86400 then (3600, ''hour'') else (86400, ''day''))
     in (\<lfloor>seconds / divisor + 1 / 2\<rfloor>, u))"

end
