(* ===== verification/Auth_Gate.thy ===== *)
theory Auth_Gate
  imports Sessions Save_Dialog
begin

text \<open>
  The gate of the console (\<open>ui/host/src/auth.tsx\<close>): what is loaded at the start, the sign-in form with its
  code, the one-time setup, the login link, and who is let in. The steps are the handlers and the replies
  of the server; times are milliseconds. \<open>enc\<close> is \<open>encodeURIComponent\<close>, \<open>back\<close> the address to go back to.
\<close>

section \<open>The account (viewerFromMe)\<close>

record viewer_account =
  va_id :: string
  va_email :: string
  va_name :: string
  va_active :: bool
  va_role :: string

definition viewerFromMe :: "json option \<Rightarrow> viewer_account option" where
  "viewerFromMe user = (case (Option.bind user (jstr ''id''), Option.bind user (jstr ''status'')) of
      (Some i, Some st) \<Rightarrow> if i = [] \<or> st \<notin> {''active'', ''suspended''} then None
        else Some \<lparr>va_id = i, va_email = nullish (Option.bind user (jstr ''email'')) [],
          va_name = nullish (Option.bind user (jstr ''display_name'')) [], va_active = (st = ''active''),
          va_role = nullish (Option.bind user (jstr ''role'')) []\<rparr>
    | _ \<Rightarrow> None)"

lemma viewerFromMe_is_user:
  "viewerFromMe user \<noteq> None \<Longrightarrow> browserViewerFromMe user = UserViewer"
  by (auto simp: viewerFromMe_def browserViewerFromMe_def split: option.splits if_splits)

section \<open>The state of the gate\<close>

record run_status =
  rs_setup :: bool
  rs_oidc :: bool
  rs_agent :: bool
  rs_smtp :: bool
  rs_signup :: bool

record setup_done =
  sd_token :: string
  sd_header :: "string option"
  sd_endpoint :: "string option"

datatype credential = VerifyLink string | SendCode string | VerifyCode string string | CreateAdmin string string string

record auth_gate =
  ag_status :: "run_status option"
  ag_status_ready :: bool
  ag_viewer :: browser_viewer
  ag_account :: "viewer_account option"
  ag_session_ready :: bool
  ag_email :: string
  ag_name :: string
  ag_setup_token :: string
  ag_login_token :: string
  ag_code :: string
  ag_code_sent :: bool
  ag_resend_at :: int
  ag_now :: int
  ag_busy :: bool
  ag_error :: string
  ag_setup :: "setup_done option"
  ag_pending :: "credential list"
  ag_refreshes :: nat

definition open_gate :: "string \<Rightarrow> string \<Rightarrow> int \<Rightarrow> auth_gate" where
  "open_gate setup_token login_token now =
    \<lparr>ag_status = None, ag_status_ready = False, ag_viewer = NoViewer, ag_account = None, ag_session_ready = False,
     ag_email = [], ag_name = [], ag_setup_token = setup_token, ag_login_token = login_token, ag_code = [], ag_code_sent = False,
     ag_resend_at = 0, ag_now = now, ag_busy = False, ag_error = [], ag_setup = None, ag_pending = [], ag_refreshes = 0\<rparr>"

text \<open>The seconds until a code can be sent again: \<open>Math.ceil\<close> of the time left.\<close>

definition resendWait :: "auth_gate \<Rightarrow> int" where
  "resendWait s = max 0 (- ((ag_now s - ag_resend_at s) div 1000))"

section \<open>What is shown\<close>

datatype gate_view =
    ShowSetup setup_done | ShowLoading | ShowUnavailable string | ShowNothing | ShowConsole viewer_account
  | ShowSso string | ShowForm string string bool

definition on_code_step :: "auth_gate \<Rightarrow> bool" where
  "on_code_step s \<longleftrightarrow> ag_code_sent s \<and> \<not> (case ag_status s of Some st \<Rightarrow> rs_setup st | None \<Rightarrow> False)"

definition typed_account :: "auth_gate \<Rightarrow> viewer_account" where
  "typed_account s = \<lparr>va_id = [], va_email = ag_email s, va_name = ag_name s, va_active = True, va_role = []\<rparr>"

text \<open>The typographic apostrophe, in UTF-8.\<close>

definition apostrophe :: string where
  "apostrophe = map char_of [226, 128, 153 :: nat]"

definition form_heading :: "run_status \<Rightarrow> bool \<Rightarrow> string" where
  "form_heading st code_step = (if rs_setup st then ''Create the first admin'' else if code_step then ''Check your email''
     else if rs_signup st then ''Sign in or create an account'' else ''Sign in'')"

definition form_description :: "run_status \<Rightarrow> bool \<Rightarrow> string \<Rightarrow> string" where
  "form_description st code_step email =
    (if rs_setup st then ''Use the one-time token printed by the Fanout process.''
     else if \<not> rs_smtp st then ''Email delivery is not configured. Ask the operator to run fanout login-link with your email address.''
     else if code_step then ''We sent a code to '' @ email @ ''.''
     else if rs_signup st then ''Enter your email to sign in or create a viewer account. No password needed.''
     else ''Enter your email and we'' @ apostrophe @ ''ll send a short verification code. No password needed.'')"

definition gate_view :: "(string \<Rightarrow> string) \<Rightarrow> string \<Rightarrow> auth_gate \<Rightarrow> gate_view" where
  "gate_view enc back s =
    (case ag_setup s of Some r \<Rightarrow> ShowSetup r
     | None \<Rightarrow>
       if \<not> ag_session_ready s \<or> \<not> ag_status_ready s \<or> ag_login_token s \<noteq> [] then ShowLoading
       else case ag_status s of
           None \<Rightarrow> ShowUnavailable (if ag_error s = [] then ''Authentication status could not be loaded.'' else ag_error s)
         | Some st \<Rightarrow>
             if ag_viewer s = UserViewer then if back \<noteq> [] then ShowNothing else ShowConsole (nullish (ag_account s) (typed_account s))
             else if \<not> rs_setup st \<and> rs_oidc st then
               ShowSso (if back \<noteq> [] then ''/api/auth/oidc/start?return_to='' @ enc back else ''/api/auth/oidc/start'')
             else ShowForm (form_heading st (on_code_step s)) (form_description st (on_code_step s) (ag_email s))
               (if on_code_step s then \<not> ag_busy s \<and> length (ag_code s) \<ge> 6 else \<not> ag_busy s \<and> (rs_setup st \<or> rs_smtp st)))"

definition form_shown :: "auth_gate \<Rightarrow> bool" where
  "form_shown s = (case gate_view (\<lambda>x. x) [] s of ShowForm _ _ _ \<Rightarrow> True | _ \<Rightarrow> False)"

definition submit_enabled :: "auth_gate \<Rightarrow> bool" where
  "submit_enabled s = (case gate_view (\<lambda>x. x) [] s of ShowForm _ _ b \<Rightarrow> b | _ \<Rightarrow> False)"

section \<open>The handlers and the replies\<close>

text \<open>
  \<open>AccountReply\<close> is the first answer of \<open>/api/auth/me\<close> and \<open>RefreshReply\<close> a later one: no reply, or whether
  it was ok with the account it names. \<open>CredentialReply i\<close> answers a request of the form, the link or the setup.
\<close>

type_synonym account_reply = "(bool \<times> json option) option"

datatype gate_event =
    StatusReply "string + run_status" | AccountReply account_reply | RefreshReply account_reply | Unauthorized
  | EmailTyped string | NameTyped string | TokenTyped string | CodeTyped string | Submitted | CodeCompleted string
  | ResendPressed | ChangeEmail | Continue | ClockTicked int | CredentialReply nat "string + setup_done option" int

definition request_credential :: "credential \<Rightarrow> auth_gate \<Rightarrow> auth_gate" where
  "request_credential c s = s\<lparr>ag_busy := True, ag_error := [], ag_pending := ag_pending s @ [c]\<rparr>"

text \<open>A request that established a session: the account is filled in by a later reply.\<close>

definition let_in :: "auth_gate \<Rightarrow> auth_gate" where
  "let_in s = s\<lparr>ag_viewer := UserViewer, ag_refreshes := ag_refreshes s + 1\<rparr>"

definition settle :: "nat \<Rightarrow> auth_gate \<Rightarrow> auth_gate" where
  "settle i s = s\<lparr>ag_busy := False, ag_pending := take i (ag_pending s) @ drop (Suc i) (ag_pending s)\<rparr>"

definition credential_answered :: "credential \<Rightarrow> setup_done option \<Rightarrow> int \<Rightarrow> auth_gate \<Rightarrow> auth_gate" where
  "credential_answered c r t s = (case c of
      VerifyLink _ \<Rightarrow> (let_in s)\<lparr>ag_login_token := []\<rparr>
    | SendCode _ \<Rightarrow> s\<lparr>ag_code_sent := True, ag_code := [], ag_resend_at := t + 30000, ag_now := t\<rparr>
    | VerifyCode _ _ \<Rightarrow> (let_in s)\<lparr>ag_code_sent := False, ag_code := [], ag_resend_at := 0\<rparr>
    | CreateAdmin _ _ _ \<Rightarrow> (case r of Some d \<Rightarrow> if sd_token d \<noteq> [] then s\<lparr>ag_setup := Some d\<rparr> else let_in s | None \<Rightarrow> let_in s))"

definition credential_refused :: "credential \<Rightarrow> string \<Rightarrow> auth_gate \<Rightarrow> auth_gate" where
  "credential_refused c m s = (case c of
      VerifyLink _ \<Rightarrow> s\<lparr>ag_login_token := [], ag_error := m\<rparr>
    | VerifyCode _ _ \<Rightarrow> s\<lparr>ag_code := [], ag_error := m\<rparr>
    | _ \<Rightarrow> s\<lparr>ag_error := m\<rparr>)"

definition submit_form :: "auth_gate \<Rightarrow> auth_gate" where
  "submit_form s = (if (case ag_status s of Some st \<Rightarrow> rs_setup st | None \<Rightarrow> False)
       then request_credential (CreateAdmin (ag_email s) (ag_name s) (ag_setup_token s)) s
     else if \<not> ag_code_sent s then request_credential (SendCode (ag_email s)) s
     else request_credential (VerifyCode (ag_email s) (ag_code s)) s)"

text \<open>The fields and buttons are those of the form on screen; a busy button does nothing, nor do disabled digits.\<close>

definition gate_handle :: "gate_event \<Rightarrow> auth_gate \<Rightarrow> auth_gate" where
  "gate_handle e s = (case e of
      StatusReply r \<Rightarrow> if ag_status_ready s then s else (case r of
          Inl m \<Rightarrow> s\<lparr>ag_error := m, ag_status_ready := True\<rparr>
        | Inr st \<Rightarrow> s\<lparr>ag_status := Some st, ag_status_ready := True\<rparr>)
    | AccountReply r \<Rightarrow> if ag_session_ready s then s else (case r of
          None \<Rightarrow> s\<lparr>ag_viewer := NoViewer, ag_session_ready := True\<rparr>
        | Some (ok_, user) \<Rightarrow> if \<not> ok_ then s\<lparr>ag_viewer := NoViewer, ag_account := None, ag_session_ready := True\<rparr>
            else s\<lparr>ag_viewer := browserViewerFromMe user, ag_account := viewerFromMe user, ag_session_ready := True\<rparr>)
    | RefreshReply r \<Rightarrow> if ag_refreshes s = 0 then s else s\<lparr>ag_refreshes := ag_refreshes s - 1,
        ag_account := (case r of Some (True, user) \<Rightarrow> viewerFromMe user | _ \<Rightarrow> ag_account s)\<rparr>
    | Unauthorized \<Rightarrow> s\<lparr>ag_viewer := NoViewer, ag_account := None\<rparr>
    | EmailTyped v \<Rightarrow> if form_shown s \<and> \<not> ag_code_sent s then s\<lparr>ag_email := v\<rparr> else s
    | NameTyped v \<Rightarrow> if form_shown s then s\<lparr>ag_name := v\<rparr> else s
    | TokenTyped v \<Rightarrow> if form_shown s then s\<lparr>ag_setup_token := v\<rparr> else s
    | CodeTyped v \<Rightarrow> if form_shown s \<and> on_code_step s \<and> \<not> ag_busy s then s\<lparr>ag_code := v\<rparr> else s
    | Submitted \<Rightarrow> if submit_enabled s then submit_form s else s
    | CodeCompleted v \<Rightarrow> if form_shown s \<and> on_code_step s \<and> \<not> ag_busy s
        then request_credential (VerifyCode (ag_email s) v) (s\<lparr>ag_code := v\<rparr>) else s
    | ResendPressed \<Rightarrow> if form_shown s \<and> on_code_step s \<and> \<not> ag_busy s \<and> resendWait s = 0 then request_credential (SendCode (ag_email s)) s else s
    | ChangeEmail \<Rightarrow> if form_shown s \<and> on_code_step s \<and> \<not> ag_busy s then s\<lparr>ag_code_sent := False, ag_code := [], ag_error := []\<rparr> else s
    | Continue \<Rightarrow> if ag_setup s \<noteq> None then (let_in s)\<lparr>ag_setup := None\<rparr> else s
    | ClockTicked t \<Rightarrow> if ag_now s < ag_resend_at s then s\<lparr>ag_now := t\<rparr> else s
    | CredentialReply i r t \<Rightarrow> if i \<ge> length (ag_pending s) then s
        else settle i (case r of Inl m \<Rightarrow> credential_refused (ag_pending s ! i) m s | Inr d \<Rightarrow> credential_answered (ag_pending s ! i) d t s))"

text \<open>The effect that redeems a login link, once the token, the session or the viewer changed.\<close>

definition redeem_link :: "auth_gate \<Rightarrow> auth_gate \<Rightarrow> auth_gate" where
  "redeem_link before' s =
    (if (ag_login_token before', ag_session_ready before', ag_viewer before') = (ag_login_token s, ag_session_ready s, ag_viewer s) then s
     else if \<not> ag_session_ready s \<or> ag_viewer s \<noteq> NoViewer \<or> ag_login_token s = [] then s
     else request_credential (VerifyLink (ag_login_token s)) s)"

definition gate_step :: "gate_event \<Rightarrow> auth_gate \<Rightarrow> auth_gate" where
  "gate_step e s = redeem_link s (gate_handle e s)"

section \<open>One credential at a time\<close>

definition is_link :: "credential \<Rightarrow> bool" where
  "is_link c = (case c of VerifyLink _ \<Rightarrow> True | _ \<Rightarrow> False)"

definition gate_ok :: "auth_gate \<Rightarrow> bool" where
  "gate_ok s \<longleftrightarrow> length (ag_pending s) = (if ag_busy s then 1 else 0)
     \<and> (ag_login_token s \<noteq> [] \<longrightarrow> (\<forall>c \<in> set (ag_pending s). is_link c) \<and> ag_setup s = None \<and> ag_refreshes s = 0
          \<and> (ag_session_ready s \<longrightarrow> (ag_pending s = [] \<longleftrightarrow> ag_viewer s = UserViewer)))
     \<and> (ag_login_token s = [] \<longrightarrow> (\<forall>c \<in> set (ag_pending s). \<not> is_link c))
     \<and> (\<not> ag_session_ready s \<longrightarrow> ag_pending s = [] \<and> ag_viewer s = NoViewer \<and> ag_setup s = None)
     \<and> (ag_setup s \<noteq> None \<longrightarrow> ag_pending s = [])
     \<and> (ag_viewer s = UserViewer \<longrightarrow> ag_pending s = [])"

text \<open>The form, and with it every button, is there only for a viewer without a session or a link.\<close>

lemma form_shown_iff:
  "form_shown s \<longleftrightarrow> ag_setup s = None \<and> ag_session_ready s \<and> ag_status_ready s \<and> ag_login_token s = [] \<and> ag_viewer s = NoViewer
     \<and> (case ag_status s of Some st \<Rightarrow> rs_setup st \<or> \<not> rs_oidc st | None \<Rightarrow> False)"
  by (cases "ag_setup s"; cases "ag_status s"; cases "ag_viewer s") (auto simp: form_shown_def gate_view_def)

lemma form_shown_state:
  assumes "form_shown s"
  shows "ag_session_ready s" "ag_login_token s = []" "ag_viewer s = NoViewer" "ag_setup s = None"
  using assms by (simp_all add: form_shown_iff)

lemma submit_enabled_state:
  assumes "submit_enabled s" shows "form_shown s \<and> \<not> ag_busy s"
  using assms
  by (cases "ag_setup s"; cases "ag_status s"; cases "ag_viewer s")
    (simp_all add: submit_enabled_def form_shown_def gate_view_def split: if_splits)

lemma gate_ok_open: "gate_ok (open_gate tok link now)"
  by (simp add: gate_ok_def open_gate_def)

lemma gate_ok_request:
  assumes "gate_ok s" "form_shown s" "\<not> ag_busy s" "\<not> is_link c"
  shows "gate_ok (request_credential c s)"
  using assms(1,3,4) form_shown_state [OF assms(2)] by (simp add: gate_ok_def request_credential_def)

lemma gate_ok_code [simp]: "gate_ok (s\<lparr>ag_code := v\<rparr>) = gate_ok s"
  by (simp add: gate_ok_def)

lemma gate_view_code [simp]: "form_shown (s\<lparr>ag_code := v\<rparr>) = form_shown s"
  by (simp add: form_shown_iff)

lemma not_link_submit [simp]: "\<not> is_link (CreateAdmin a b c)" "\<not> is_link (SendCode e)" "\<not> is_link (VerifyCode e v)" "is_link (VerifyLink t)"
  by (simp_all add: is_link_def)

lemma gate_ok_submit:
  assumes "gate_ok s" "submit_enabled s" shows "gate_ok (submit_form s)"
  using gate_ok_request [OF assms(1)] submit_enabled_state [OF assms(2)] by (simp add: submit_form_def)

lemma one_pending:
  assumes "gate_ok s" "i < length (ag_pending s)"
  shows "i = 0" "\<exists>c. ag_pending s = [c]" "ag_viewer s = NoViewer" "ag_session_ready s" "ag_setup s = None"
  using assms by (cases "ag_viewer s"; auto simp: gate_ok_def length_Suc_conv split: if_splits)+

definition replied :: "nat \<Rightarrow> string + setup_done option \<Rightarrow> int \<Rightarrow> auth_gate \<Rightarrow> auth_gate" where
  "replied i r t s = (case r of Inl m \<Rightarrow> credential_refused (ag_pending s ! i) m s | Inr d \<Rightarrow> credential_answered (ag_pending s ! i) d t s)"

lemma replied_parts:
  assumes "gate_ok s" "i < length (ag_pending s)"
  shows "ag_pending (replied i r t s) = ag_pending s" "ag_login_token (replied i r t s) = []"
    "ag_session_ready (replied i r t s)"
proof -
  from one_pending [OF assms] obtain c where c: "ag_pending s = [c]" "i = 0" "ag_session_ready s" by blast
  have l: "ag_login_token s = [] \<or> is_link c" using assms(1) c(1) by (auto simp: gate_ok_def)
  have a: "ag_pending (credential_answered c d t s) = ag_pending s \<and> ag_login_token (credential_answered c d t s) = []
      \<and> ag_session_ready (credential_answered c d t s)" for d
    using l c(3) by (cases c) (simp_all add: credential_answered_def let_in_def split: option.split)
  have b: "ag_pending (credential_refused c m s) = ag_pending s \<and> ag_login_token (credential_refused c m s) = []
      \<and> ag_session_ready (credential_refused c m s)" for m
    using l c(3) by (cases c) (simp_all add: credential_refused_def)
  show "ag_pending (replied i r t s) = ag_pending s" "ag_login_token (replied i r t s) = []" "ag_session_ready (replied i r t s)"
    using a b c by (simp_all add: replied_def split: sum.split)
qed

lemma gate_ok_reply:
  assumes "gate_ok s" "i < length (ag_pending s)"
  shows "gate_ok (settle i (replied i r t s))" "ag_login_token (settle i (replied i r t s)) = []"
  using one_pending (1,2) [OF assms] replied_parts [OF assms, of r t]
  by (auto simp: gate_ok_def settle_def)

text \<open>The effect starts the one request there is when nothing is in flight.\<close>

lemma gate_ok_redeem:
  assumes "ag_pending s' = []" "\<not> ag_busy s'" "ag_login_token s' \<noteq> [] \<longrightarrow> ag_setup s' = None \<and> ag_refreshes s' = 0"
    "ag_session_ready s'"
    "(ag_session_ready s, ag_viewer s) \<noteq> (ag_session_ready s', ag_viewer s')"
  shows "gate_ok (redeem_link s s')"
  using assms by (cases "ag_viewer s'") (auto simp: redeem_link_def gate_ok_def request_credential_def)

text \<open>A handler that only fills in a field.\<close>

lemma quiet_step:
  assumes "gate_ok s" "ag_pending (gate_handle e s) = ag_pending s" "ag_busy (gate_handle e s) = ag_busy s"
    "ag_login_token (gate_handle e s) = ag_login_token s" "ag_setup (gate_handle e s) = ag_setup s"
    "ag_refreshes (gate_handle e s) = ag_refreshes s" "ag_session_ready (gate_handle e s) = ag_session_ready s"
    "ag_viewer (gate_handle e s) = ag_viewer s"
  shows "gate_ok (gate_step e s)"
  using assms by (simp add: gate_step_def redeem_link_def gate_ok_def)

text \<open>What a handler leaves, before the effect of the link: all but that a link waits with no request.\<close>

lemma gate_ok_handled:
  assumes "gate_ok s"
  shows "gate_ok (gate_step e s)"
proof (cases e)
  case (CredentialReply i r t)
  show ?thesis
  proof (cases "i < length (ag_pending s)")
    case True
    with CredentialReply have "gate_handle e s = settle i (replied i r t s)" by (simp add: gate_handle_def replied_def)
    with gate_ok_reply [OF assms True, of r t] show ?thesis by (simp add: gate_step_def redeem_link_def)
  qed (use assms CredentialReply in \<open>simp add: gate_step_def gate_handle_def redeem_link_def\<close>)
next
  case Submitted
  with assms gate_ok_submit [OF assms] show ?thesis
    by (auto simp: gate_step_def gate_handle_def redeem_link_def submit_form_def request_credential_def)
next
  case (CodeCompleted v)
  with assms gate_ok_request [of "s\<lparr>ag_code := v\<rparr>" "VerifyCode (ag_email s) v"] show ?thesis
    by (auto simp: gate_step_def gate_handle_def redeem_link_def request_credential_def)
next
  case ResendPressed
  with assms gate_ok_request [of s "SendCode (ag_email s)"] show ?thesis
    by (auto simp: gate_step_def gate_handle_def redeem_link_def request_credential_def)
next
  case (AccountReply r)
  show ?thesis
  proof (cases "ag_session_ready s")
    case False
    with assms AccountReply show ?thesis unfolding gate_step_def by (intro gate_ok_redeem) (auto simp: gate_handle_def gate_ok_def split: option.split)
  qed (use assms AccountReply in \<open>simp add: gate_step_def gate_handle_def redeem_link_def\<close>)
next
  case Unauthorized
  show ?thesis
  proof (cases "ag_viewer s")
    case NoViewer
    with assms Unauthorized show ?thesis by (simp add: gate_step_def gate_handle_def redeem_link_def gate_ok_def)
  next
    case UserViewer
    with assms have "ag_pending s = []" "\<not> ag_busy s" by (auto simp: gate_ok_def split: if_splits)
    with UserViewer assms Unauthorized show ?thesis unfolding gate_step_def by (intro gate_ok_redeem) (auto simp: gate_handle_def gate_ok_def)
  qed
next
  case Continue
  show ?thesis
  proof (cases "ag_setup s")
    case (Some d)
    with assms have "ag_pending s = []" "ag_login_token s = []" "ag_session_ready s" "\<not> ag_busy s" by (auto simp: gate_ok_def split: if_splits)
    with Continue Some show ?thesis by (simp add: gate_step_def gate_handle_def redeem_link_def gate_ok_def let_in_def)
  qed (use assms Continue in \<open>simp add: gate_step_def gate_handle_def redeem_link_def\<close>)
next
  case (StatusReply r)
  show ?thesis by (rule quiet_step [OF assms]) (simp_all add: StatusReply gate_handle_def split: sum.split)
next
  case (RefreshReply r)
  show ?thesis
  proof (cases "ag_refreshes s = 0")
    case False
    then have "ag_login_token s = []" using assms by (auto simp: gate_ok_def)
    moreover obtain n a where "gate_handle e s = s\<lparr>ag_refreshes := n, ag_account := a\<rparr>"
      using False RefreshReply by (simp add: gate_handle_def)
    ultimately show ?thesis using assms by (simp add: gate_step_def redeem_link_def gate_ok_def)
  qed (use assms RefreshReply in \<open>simp add: gate_step_def gate_handle_def redeem_link_def\<close>)
qed (rule quiet_step [OF assms]; simp add: gate_handle_def)+

lemma gate_ok_run: "gate_ok s \<Longrightarrow> gate_ok (fold gate_step es s)"
  by (induction es arbitrary: s) (simp_all add: gate_ok_handled)

text \<open>
  However the form is used and whatever the server answers in whatever order, at most one
  code, setup or login link is being sent, exactly while the form is busy, and none while a session is
  there: a link is never redeemed twice at once, nor beside a code.
\<close>

theorem one_credential_at_a_time:
  "length (ag_pending (fold gate_step es (open_gate tok link now))) \<le> 1
    \<and> (ag_busy (fold gate_step es (open_gate tok link now)) \<longleftrightarrow> ag_pending (fold gate_step es (open_gate tok link now)) \<noteq> [])
    \<and> (ag_viewer (fold gate_step es (open_gate tok link now)) = NoViewer \<or> ag_pending (fold gate_step es (open_gate tok link now)) = [])"
  using gate_ok_run [OF gate_ok_open [of tok link now], of es]
  by (cases "ag_viewer (fold gate_step es (open_gate tok link now))") (auto simp: gate_ok_def split: if_splits)

section \<open>Who is let in\<close>

definition opens_session :: "gate_event \<Rightarrow> auth_gate \<Rightarrow> bool" where
  "opens_session e s = (case e of
      AccountReply r \<Rightarrow> (case r of Some (ok_, user) \<Rightarrow> ok_ \<and> browserViewerFromMe user = UserViewer | None \<Rightarrow> False)
    | CredentialReply i r _ \<Rightarrow> i < length (ag_pending s) \<and> \<not> isl r \<and> (case ag_pending s ! i of SendCode _ \<Rightarrow> False | _ \<Rightarrow> True)
    | Continue \<Rightarrow> ag_setup s \<noteq> None
    | _ \<Rightarrow> False)"

lemma viewer_redeem [simp]: "ag_viewer (redeem_link s s') = ag_viewer s'"
  by (simp add: redeem_link_def request_credential_def)

lemma viewer_replied:
  "ag_viewer (replied i r t s) = UserViewer \<Longrightarrow> ag_viewer s = UserViewer
    \<or> (\<not> isl r \<and> (case ag_pending s ! i of SendCode _ \<Rightarrow> False | _ \<Rightarrow> True))"
  by (cases r; cases "ag_pending s ! i")
    (simp_all add: replied_def credential_refused_def credential_answered_def let_in_def)

lemma viewer_step:
  assumes "ag_viewer (gate_step e s) = UserViewer"
  shows "(ag_viewer s = UserViewer \<and> e \<noteq> Unauthorized) \<or> opens_session e s"
proof (cases e)
  case (CredentialReply i r t)
  show ?thesis
  proof (cases "i < length (ag_pending s)")
    case True
    with CredentialReply have "gate_handle e s = settle i (replied i r t s)" by (simp add: gate_handle_def replied_def)
    with assms have "ag_viewer (replied i r t s) = UserViewer" by (simp add: gate_step_def settle_def)
    from viewer_replied [OF this] True CredentialReply show ?thesis by (simp add: opens_session_def)
  qed (use assms CredentialReply in \<open>simp add: gate_step_def gate_handle_def\<close>)
next
  case (AccountReply r)
  with assms show ?thesis
    by (cases "ag_session_ready s"; cases r; cases "fst (the r)") (auto simp: gate_step_def gate_handle_def opens_session_def)
next
  case (StatusReply r)
  with assms show ?thesis by (cases r) (simp_all add: gate_step_def gate_handle_def split: if_splits)
qed (use assms in \<open>simp_all add: gate_step_def gate_handle_def opens_session_def submit_form_def request_credential_def split: if_splits\<close>)

text \<open>
  Property C16. The console is shown only on a session the server vouched for and nothing ended since: some
  event of the run was an account of the first load, an accepted code or login link, or the end of an
  admin's setup, and no request after it came back unauthorized.
\<close>

theorem console_needs_a_session:
  assumes "gate_view enc back (fold gate_step es (open_gate tok link now)) = ShowConsole a"
  shows "\<exists>es1 e es2. es = es1 @ e # es2 \<and> opens_session e (fold gate_step es1 (open_gate tok link now)) \<and> Unauthorized \<notin> set es2"
proof -
  have run: "\<exists>es1 e es2. es = es1 @ e # es2 \<and> opens_session e (fold gate_step es1 s) \<and> Unauthorized \<notin> set es2"
    if "ag_viewer (fold gate_step es s) = UserViewer" "ag_viewer s = NoViewer" for s es
    using that
  proof (induction es rule: rev_induct)
    case (snoc e es)
    from snoc.prems have "ag_viewer (gate_step e (fold gate_step es s)) = UserViewer" by simp
    from viewer_step [OF this] show ?case
    proof
      assume k: "ag_viewer (fold gate_step es s) = UserViewer \<and> e \<noteq> Unauthorized"
      with snoc obtain es1 e' es2 where "es = es1 @ e' # es2" "opens_session e' (fold gate_step es1 s)" "Unauthorized \<notin> set es2" by blast
      then have "es @ [e] = es1 @ e' # (es2 @ [e])" "Unauthorized \<notin> set (es2 @ [e])" using k by auto
      with \<open>opens_session e' (fold gate_step es1 s)\<close> show ?case by blast
    qed (intro exI [of _ es] exI [of _ e] exI [of _ "[]"], simp)
  qed simp
  have "ag_viewer (fold gate_step es (open_gate tok link now)) = UserViewer"
    using assms by (auto simp: gate_view_def split: option.splits if_splits)
  then show ?thesis by (rule run) (simp add: open_gate_def)
qed

lemma first_load_opens:
  "gate_view (\<lambda>x. x) [] (fold gate_step [StatusReply (Inr \<lparr>rs_setup = False, rs_oidc = False, rs_agent = False, rs_smtp = True, rs_signup = False\<rparr>),
      AccountReply (Some (True, Some (JObj [(''id'', JStr ''u1''), (''status'', JStr ''active'')])))] (open_gate [] [] 0))
    = ShowConsole \<lparr>va_id = ''u1'', va_email = [], va_name = [], va_active = True, va_role = []\<rparr>"
  by (simp add: gate_step_def gate_handle_def redeem_link_def open_gate_def gate_view_def browserViewerFromMe_def viewerFromMe_def jstr_def)

lemma console_needs_a_session_witness:
  "\<exists>es1 e es2. [StatusReply (Inr \<lparr>rs_setup = False, rs_oidc = False, rs_agent = False, rs_smtp = True, rs_signup = False\<rparr>),
      AccountReply (Some (True, Some (JObj [(''id'', JStr ''u1''), (''status'', JStr ''active'')])))] = es1 @ e # es2
    \<and> opens_session e (fold gate_step es1 (open_gate [] [] 0)) \<and> Unauthorized \<notin> set es2"
  by (rule console_needs_a_session [OF first_load_opens])

section \<open>A login link opened beside a session\<close>

lemma waiting_link_step:
  assumes "ag_session_ready s" "ag_viewer s = UserViewer" "ag_login_token s \<noteq> []" "gate_ok s" "e \<noteq> Unauthorized"
  shows "ag_session_ready (gate_step e s) \<and> ag_viewer (gate_step e s) = UserViewer \<and> ag_login_token (gate_step e s) = ag_login_token s"
proof -
  have s: "ag_pending s = []" "ag_setup s = None" "ag_refreshes s = 0" "\<not> form_shown s" "\<not> submit_enabled s"
    using assms submit_enabled_state [of s] by (auto simp: gate_ok_def form_shown_iff)
  have "ag_session_ready (gate_handle e s) \<and> ag_viewer (gate_handle e s) = UserViewer \<and> ag_login_token (gate_handle e s) = ag_login_token s"
    using assms(1-3,5) s by (cases e) (simp_all add: gate_handle_def split: sum.split)
  then show ?thesis using assms(1-3) by (simp add: gate_step_def redeem_link_def)
qed

text \<open>
  Property C40. A login link opened in a browser that already has a session is neither redeemed nor given
  up: the token stays, so the console shows its loader, through any sequence of events, for as long as the
  session lasts.
\<close>

theorem login_link_beside_a_session_waits:
  assumes "ag_session_ready s" "ag_viewer s = UserViewer" "ag_login_token s \<noteq> []" "gate_ok s" "Unauthorized \<notin> set es"
  shows "gate_view enc back (fold gate_step es s) = ShowLoading \<and> ag_pending (fold gate_step es s) = []"
  using assms
proof (induction es arbitrary: s)
  case Nil
  then show ?case by (simp add: gate_view_def gate_ok_def)
next
  case (Cons e es)
  have "e \<noteq> Unauthorized" using Cons.prems(5) by auto
  note w = waiting_link_step [OF Cons.prems(1-4) this]
  show ?case using Cons.IH [OF _ _ _ gate_ok_handled [OF Cons.prems(4), of e]] w Cons.prems(3,5) by simp
qed

lemma login_link_beside_a_session_waits_witness:
  "gate_view (\<lambda>x. x) [] (fold gate_step [StatusReply (Inl ''x''), ClockTicked 5]
     (gate_step (AccountReply (Some (True, Some (JObj [(''id'', JStr ''u1'')])))) (open_gate [] ''one-time'' 0))) = ShowLoading"
proof -
  let ?s = "gate_step (AccountReply (Some (True, Some (JObj [(''id'', JStr ''u1'')])))) (open_gate [] ''one-time'' 0)"
  have "ag_session_ready ?s" "ag_viewer ?s = UserViewer" "ag_login_token ?s \<noteq> []"
    by (simp_all add: gate_step_def gate_handle_def redeem_link_def open_gate_def browserViewerFromMe_def jstr_def)
  from login_link_beside_a_session_waits [OF this gate_ok_handled [OF gate_ok_open], of "[StatusReply (Inl ''x''), ClockTicked 5]" "\<lambda>x. x" "[]"]
  show ?thesis by simp
qed

section \<open>The wait before another code\<close>

lemma resendWait_zero: "resendWait s = 0 \<longleftrightarrow> ag_resend_at s \<le> ag_now s"
  by (auto simp: resendWait_def div_le_mono split: if_splits)

text \<open>The countdown shown after a code was sent starts at 30 seconds and never exceeds what is left, rounded up.\<close>

lemma resendWait_bounds:
  assumes "ag_resend_at s \<le> ag_now s + 30000"
  shows "0 \<le> resendWait s \<and> resendWait s \<le> 30"
  using assms by (simp add: resendWait_def)

end
