(* ===== verification/Dashboard_Page.thy ===== *)
theory Dashboard_Page
  imports Dashboard_Search Panel_Fragment Variables
begin

text \<open>
  The page of a dashboard (\<open>ui/host/src/dashboards/page.tsx\<close>): what it shows, how its controls change the
  address, zooming by brush (\<open>use-brush-zoom.ts\<close>), its keys (\<open>shortcuts.ts\<close>, \<open>use-shortcuts.ts\<close>,
  \<open>shortcut-preference.ts\<close>) and the options of its variables (\<open>use-variables.ts\<close>).
\<close>

section \<open>Which dashboard is open\<close>

record board_info =
  bi_id :: string
  bi_default :: bool

definition default_board :: "board_info list \<Rightarrow> string option" where
  "default_board infos = (case find bi_default infos of Some b \<Rightarrow> Some (bi_id b) | None \<Rightarrow> map_option bi_id (head_opt infos))"

text \<open>The dashboard opened when the address names none.\<close>

definition opened_board :: "string option \<Rightarrow> board_info list option \<Rightarrow> string option" where
  "opened_board i infos = (if non_empty i \<noteq> None then None else Option.bind infos default_board)"

datatype board_view = BoardsFailed | NoBoards | BoardLoading | BoardGone "string option" | BoardUnavailable | BoardShown

definition board_view_of :: "string option \<Rightarrow> board_info list option \<Rightarrow> bool \<Rightarrow> bool \<Rightarrow> string option option \<Rightarrow> bool \<Rightarrow> board_view" where
  "board_view_of i infos list_failed loading failed has_data =
    (if non_empty i = None \<and> list_failed then BoardsFailed
     else if non_empty i = None \<and> infos = Some [] then NoBoards
     else if non_empty i = None \<or> loading then BoardLoading
     else if failed = Some (Some ''not_found'') then BoardGone (Option.bind infos default_board)
     else if failed \<noteq> None \<or> \<not> has_data then BoardUnavailable else BoardShown)"

text \<open>A missing dashboard is not asked for again; any other failure is, twice.\<close>

definition board_retry :: "nat \<Rightarrow> string option \<Rightarrow> bool" where
  "board_retry n code \<longleftrightarrow> code \<noteq> Some ''not_found'' \<and> n < 2"

section \<open>Zooming by brush (useBrushZoom)\<close>

type_synonym time_scope = "string option \<times> string option \<times> string option"

record brush_zoom =
  bz_current :: time_scope
  bz_last :: string
  bz_restore :: "time_scope option"
  bz_zoomed :: bool

definition bound_text :: "string option \<Rightarrow> string" where
  "bound_text b = (case b of Some s \<Rightarrow> s | None \<Rightarrow> ''undefined'')"

definition brush_key :: "string option \<Rightarrow> string option \<Rightarrow> string" where
  "brush_key a b = bound_text a @ ''/'' @ bound_text b"

definition open_brush :: "time_scope \<Rightarrow> brush_zoom" where
  "open_brush t = \<lparr>bz_current = t, bz_last = [], bz_restore = None, bz_zoomed = False\<rparr>"

text \<open>A render with the search of the address: a change the brush did not make forgets where it started.\<close>

definition brush_render :: "time_scope \<Rightarrow> brush_zoom \<Rightarrow> brush_zoom" where
  "brush_render t s =
    (if bz_current s = t then s
     else (if bz_last s \<noteq> brush_key (fst (snd t)) (snd (snd t)) then s\<lparr>bz_restore := None, bz_zoomed := False\<rparr> else s)
       \<lparr>bz_last := [], bz_current := t\<rparr>)"

definition brush_reset :: "brush_zoom \<Rightarrow> brush_zoom" where
  "brush_reset s = s\<lparr>bz_last := [], bz_restore := None, bz_zoomed := False\<rparr>"

definition reset_zoom :: "brush_zoom \<Rightarrow> brush_zoom \<times> time_scope option" where
  "reset_zoom s = (case bz_restore s of None \<Rightarrow> (s, None) | Some t \<Rightarrow> (brush_reset s, Some t))"

definition zoom_to :: "num \<Rightarrow> num \<Rightarrow> brush_zoom \<Rightarrow> brush_zoom \<times> time_scope option" where
  "zoom_to a b s = (case brushRange a b of
      None \<Rightarrow> (s, None)
    | Some (x, y) \<Rightarrow>
        if snd (bz_current s) = (Some x, Some y) \<or> bz_last s = brush_key (Some x) (Some y) then (s, None)
        else (s\<lparr>bz_restore := Some (nullish (bz_restore s) (bz_current s)), bz_zoomed := True, bz_last := brush_key (Some x) (Some y)\<rparr>,
              Some (None, Some x, Some y)))"

text \<open>A zoom whose search the page takes over.\<close>

definition zoom_and_render :: "num \<times> num \<Rightarrow> brush_zoom \<Rightarrow> brush_zoom" where
  "zoom_and_render z s = (case zoom_to (fst z) (snd z) s of (s', Some t) \<Rightarrow> brush_render t s' | (s', None) \<Rightarrow> s')"

definition brush_from :: "time_scope \<Rightarrow> brush_zoom \<Rightarrow> bool" where
  "brush_from t s \<longleftrightarrow> bz_last s = [] \<and> bz_zoomed s = (bz_restore s \<noteq> None)
     \<and> (case bz_restore s of None \<Rightarrow> bz_current s = t | Some u \<Rightarrow> u = t)"

lemma zoom_keeps_the_start:
  assumes "brush_from t s" shows "brush_from t (zoom_and_render z s)"
proof (cases "zoom_to (fst z) (snd z) s")
  case (Pair s' next')
  show ?thesis
  proof (cases next')
    case (Some u)
    with Pair obtain x y where "u = (None, Some x, Some y)"
      "s' = s\<lparr>bz_restore := Some (nullish (bz_restore s) (bz_current s)), bz_zoomed := True, bz_last := brush_key (Some x) (Some y)\<rparr>"
      "snd (bz_current s) \<noteq> (Some x, Some y)"
      by (auto simp: zoom_to_def split: option.splits prod.splits if_splits)
    moreover from this have "bz_current s \<noteq> u" by auto
    ultimately show ?thesis using assms Pair Some
      by (cases "bz_restore s") (simp_all add: zoom_and_render_def brush_render_def brush_from_def)
  qed (use assms Pair in \<open>auto simp: zoom_and_render_def zoom_to_def split: option.splits prod.splits if_splits\<close>)
qed

text \<open>
  Property C36. However often the charts of a page are brushed, Reset zoom goes back to the time the page had
  before the first brush that took effect, in one step, and it is offered exactly when there is one.
\<close>

theorem reset_zoom_goes_back:
  "(case reset_zoom (fold zoom_and_render zs (open_brush t)) of
      (s, Some u) \<Rightarrow> u = t \<and> \<not> bz_zoomed s \<and> bz_zoomed (fold zoom_and_render zs (open_brush t))
    | (s, None) \<Rightarrow> bz_current s = t \<and> \<not> bz_zoomed s)"
proof -
  have "brush_from t (fold zoom_and_render zs s)" if "brush_from t s" for s
    using that by (induction zs arbitrary: s) (simp_all add: zoom_keeps_the_start)
  moreover have "brush_from t (open_brush t)" by (simp add: brush_from_def open_brush_def)
  ultimately have "brush_from t (fold zoom_and_render zs (open_brush t))" by blast
  then show ?thesis by (auto simp: brush_from_def reset_zoom_def brush_reset_def split: option.split)
qed

lemma outside_change_forgets:
  assumes "bz_current s \<noteq> (r, a, b)" "bz_last s \<noteq> brush_key a b"
  shows "reset_zoom (brush_render (r, a, b) s) = (brush_render (r, a, b) s, None)" "\<not> bz_zoomed (brush_render (r, a, b) s)"
  using assms by (simp_all add: reset_zoom_def brush_render_def)

section \<open>The controls\<close>

definition zoom_out_table :: "(string, string) omap" where
  "zoom_out_table = [(''5m'', ''15m''), (''15m'', ''1h''), (''1h'', ''3h''), (''3h'', ''6h''), (''6h'', ''12h''), (''12h'', ''24h''),
     (''24h'', ''2d''), (''2d'', ''7d''), (''7d'', ''30d''), (''30d'', ''30d'')]"

text \<open>Half the window is added on either side; \<open>toISOString\<close> throws on a time out of range.\<close>

definition zoomed_out :: "(string \<Rightarrow> num) \<Rightarrow> dashboard_time \<Rightarrow> view_search \<Rightarrow> view_search result" where
  "zoomed_out dp time search =
    (case (non_empty (dt_from time), non_empty (dt_to time)) of
       (Some a, Some b) \<Rightarrow>
         (case (dp a, dp b) of
            (Fin x, Fin y) \<Rightarrow> bind_result (to_iso (Fin (x - (y - x) / 2))) (\<lambda>from'. bind_result (to_iso (Fin (y + (y - x) / 2)))
              (\<lambda>till. Inr (search\<lparr>vs_range := None, vs_from := Some from', vs_to := Some till\<rparr>)))
          | _ \<Rightarrow> Inl ''Invalid time value'')
     | _ \<Rightarrow> Inr (search\<lparr>vs_range := Some (nullish (map_of zoom_out_table (nullish (dt_range time) ''1h'')) ''1h''), vs_from := None, vs_to := None\<rparr>))"

definition set_var :: "string \<Rightarrow> var_value option \<Rightarrow> view_search \<Rightarrow> view_search" where
  "set_var n v search = search\<lparr>vs_vars := (case v of None \<Rightarrow> AList.delete n (vs_vars search) | Some x \<Rightarrow> AList.update n x (vs_vars search))\<rparr>"

definition toggle_edit :: "view_search \<Rightarrow> view_search" where
  "toggle_edit search = search\<lparr>vs_edit := \<not> vs_edit search\<rparr>"

definition compare_on :: "view_search \<Rightarrow> dashboard_time \<Rightarrow> bool" where
  "compare_on search time = (case non_empty (vs_compare search) of Some c \<Rightarrow> c = ''1'' | None \<Rightarrow> dt_compare time)"

definition set_compare :: "bool \<Rightarrow> view_search \<Rightarrow> view_search" where
  "set_compare on search = search\<lparr>vs_compare := Some (if on then ''1'' else ''0'')\<rparr>"

text \<open>Opening a panel in full adds to the history of the browser, closing it replaces the entry.\<close>

definition view_panel :: "string option \<Rightarrow> view_search \<Rightarrow> view_search \<times> bool" where
  "view_panel v search = (search\<lparr>vs_view := v\<rparr>, v = None)"

text \<open>The ranges being brushed; while there is one the page does not refresh by itself.\<close>

definition range_pending :: "string \<Rightarrow> bool \<Rightarrow> string list \<Rightarrow> string list" where
  "range_pending i pending s = (if (i \<in> set s) = pending then s else if pending then s @ [i] else filter (\<lambda>x. x \<noteq> i) s)"

definition page_refresh :: "string list \<Rightarrow> string \<Rightarrow> string" where
  "page_refresh pending refresh = (if pending \<noteq> [] then ''off'' else refresh)"

text \<open>What restoring another version leaves of the view: a panel that is gone is neither shown in full nor drilled into.\<close>

definition restored_search :: "string list \<Rightarrow> drill_target option \<Rightarrow> view_search \<Rightarrow> view_search option" where
  "restored_search ids drill search =
    (let v = (case non_empty (vs_view search) of Some x \<Rightarrow> if x \<in> set ids then vs_view search else None | None \<Rightarrow> vs_view search);
         d = (case drill of Some t \<Rightarrow> if dr_panel t \<in> set ids then vs_drill search else None | None \<Rightarrow> vs_drill search)
     in if v \<noteq> vs_view search \<or> d \<noteq> vs_drill search then Some (search\<lparr>vs_view := v, vs_drill := d\<rparr>) else None)"

lemma set_var_get: "map_of (vs_vars (set_var n v search)) k = (if k = n then v else map_of (vs_vars search) k)"
  by (auto simp: set_var_def update_conv delete_conv split: option.split)

lemma restored_view_exists:
  assumes "s = nullish (restored_search ids drill search) search" "vs_view s = Some v" "v \<noteq> []"
  shows "v \<in> set ids"
  using assms by (auto simp: restored_search_def Let_def non_empty_def nullish_def split: option.splits if_splits)

lemma zoom_out_widens:
  assumes "r \<in> set ranges" shows "nullish (map_of zoom_out_table r) ''1h'' \<in> set ranges"
  using assms by (auto simp: ranges_def zoom_out_table_def)

section \<open>Widths\<close>

text \<open>Panel widths follow from the layout and the viewport, known at the first render.\<close>

definition panel_width :: "nat \<Rightarrow> nat option \<Rightarrow> host_panel \<Rightarrow> real" where
  "panel_width viewport width p =
    max 320 (min (real viewport - 64) 1600) / 12 * real (case p_grid p of Some (_, _, w, _) \<Rightarrow> w | None \<Rightarrow> nullish width 6)"

section \<open>Keys\<close>

text \<open>
  What a key event says, as the handler reads it: the modifiers, whether it was handled, and which of the
  elements around its target are there.
\<close>

record key_event =
  ke_key :: string
  ke_prevented :: bool
  ke_repeat :: bool
  ke_ctrl :: bool
  ke_meta :: bool
  ke_alt :: bool
  ke_shift :: bool
  ke_typing :: bool
  ke_dialog :: bool
  ke_panel_fullscreen :: bool

definition shortcut_keys :: "string list" where
  "shortcut_keys = [''r'', ''e'', ''h'', ''f'', ''?'']"

definition shortcutKey :: "key_event \<Rightarrow> bool \<Rightarrow> bool \<Rightarrow> string option" where
  "shortcutKey e modal fullscreen =
    (if modal \<or> ke_prevented e \<or> ke_repeat e \<or> ke_ctrl e \<or> ke_meta e \<or> ke_alt e \<or> (ke_shift e \<and> ke_key e \<noteq> ''?'') then None
     else if ke_typing e then None
     else if ke_dialog e \<and> \<not> (fullscreen \<and> ke_panel_fullscreen e) then None
     else if ke_key e \<in> set shortcut_keys then Some (ke_key e) else None)"

text \<open>Where the focus is: inside the page, on the body, or in the panel shown in full.\<close>

record focus_at =
  fa_within :: bool
  fa_body :: bool
  fa_fullscreen :: bool

definition shortcut_action :: "bool \<Rightarrow> bool \<Rightarrow> bool \<Rightarrow> bool \<Rightarrow> focus_at \<Rightarrow> key_event \<Rightarrow> string option" where
  "shortcut_action enabled modal other_dialog fullscreen f e =
    (if \<not> enabled \<or> \<not> (fa_within f \<or> fa_body f \<or> (fullscreen \<and> fa_fullscreen f)) then None
     else case shortcutKey e (modal \<or> other_dialog) fullscreen of
         None \<Rightarrow> None
       | Some k \<Rightarrow> if fullscreen \<and> k \<notin> {''r'', ''f'', ''?''} then None else Some k)"

lemma shortcut_action_safe:
  assumes "shortcut_action enabled modal other fullscreen f e = Some k"
  shows "enabled" "\<not> modal" "\<not> other" "\<not> ke_typing e" "k \<in> set shortcut_keys" "\<not> ke_ctrl e \<and> \<not> ke_meta e \<and> \<not> ke_alt e"
    "fullscreen \<longrightarrow> k \<notin> {''e'', ''h''}"
  using assms by (auto simp: shortcut_action_def shortcutKey_def split: option.splits if_splits)

text \<open>The viewer's choice is kept by the browser, unless its storage cannot be read.\<close>

definition preference_read :: "string option option \<Rightarrow> bool" where
  "preference_read stored = (case stored of None \<Rightarrow> True | Some v \<Rightarrow> v \<noteq> Some ''off'')"

definition preference_key :: "string \<Rightarrow> string" where
  "preference_key viewer = ''fanout:single-key-shortcuts:'' @ viewer"

definition preference_written :: "bool \<Rightarrow> string" where
  "preference_written on = (if on then ''on'' else ''off'')"

lemma preference_round_trip: "preference_read (Some (Some (preference_written on))) = on"
  by (simp add: preference_read_def preference_written_def)

section \<open>The options of the variables (useVariableOptions)\<close>

definition resolved_options :: "variable list \<Rightarrow> (string, string list) omap \<Rightarrow> (string, string list) omap" where
  "resolved_options variables answer = map (\<lambda>v. (v_name v,
     case map_of answer (v_name v) of Some os \<Rightarrow> os | None \<Rightarrow> if v_kind v = KCustom then nullish (v_options v) [] else [])) variables"

definition variable_ready :: "(string, var_value) omap \<Rightarrow> (string, string list) omap option \<Rightarrow> variable \<Rightarrow> bool" where
  "variable_ready vars known v \<longleftrightarrow> v_kind v \<noteq> KQuery
     \<or> (case map_of vars (v_name v) of
          Some x \<Rightarrow> x \<noteq> VStr ALL_value \<and> (v_multi v \<or> x \<noteq> VList []) | None \<Rightarrow> False)
     \<or> non_empty (v_default v) \<noteq> None \<or> v_include_all v
     \<or> Option.bind known (\<lambda>m. map_of m (v_name v)) \<noteq> None"

definition options_ready :: "bool \<Rightarrow> variable list \<Rightarrow> (string, var_value) omap \<Rightarrow> (string, string list) omap option \<Rightarrow> bool" where
  "options_ready failed variables vars known \<longleftrightarrow> failed \<or> list_all (variable_ready vars known) variables"

text \<open>
  The page asks for its panels before the options of a variable are known only when the
  variable has a value without them: what is sent is then the value of the address, the default or All,
  and never the empty text that stands for no option.
\<close>

theorem ready_variables_have_a_value:
  assumes "variable_ready vars None v" "v_kind v = KQuery"
  shows "currentValue v vars OptsUndefined \<noteq> VStr [] \<or> map_of vars (v_name v) = Some (VStr [])"
    "Some (currentValue v vars OptsUndefined) \<in> {map_of vars (v_name v), map_option VStr (v_default v), Some (VStr ALL_value)}"
proof -
  have f: "fallback_value v None \<noteq> VStr [] \<and> Some (fallback_value v None) \<in> {map_option VStr (v_default v), Some (VStr ALL_value)}"
    if "non_empty (v_default v) \<noteq> None \<or> v_include_all v"
    using that by (auto simp: fallback_value_def non_empty_def ALL_value_def split: option.splits list.splits)
  let ?x = "map_of vars (v_name v)"
  have "(currentValue v vars OptsUndefined \<noteq> VStr [] \<or> ?x = Some (VStr []))
    \<and> Some (currentValue v vars OptsUndefined) \<in> {?x, map_option VStr (v_default v), Some (VStr ALL_value)}"
    using assms f by (cases ?x) (auto simp: currentValue_def known_options_def variable_ready_def Let_def split: if_splits)
  then show "currentValue v vars OptsUndefined \<noteq> VStr [] \<or> map_of vars (v_name v) = Some (VStr [])"
    "Some (currentValue v vars OptsUndefined) \<in> {map_of vars (v_name v), map_option VStr (v_default v), Some (VStr ALL_value)}" by blast+
qed

end
