(* ===== verification/Rail.thy ===== *)
theory Rail
  imports Save_Dialog "HOL-Library.Multiset"
begin

text \<open>
  The rail of the console (\<open>ui/host/src/rail.tsx\<close>): the chats in groups by day, what a search leaves of the
  chats, services and dashboards, and renaming and deleting a chat. \<open>day\<close> is the local midnight of the time
  a text names, in milliseconds (\<open>dayStart\<close> of \<open>parseSQLiteTime\<close>), None when the text names none; \<open>lc\<close> is
  \<open>toLowerCase\<close>.
\<close>

section \<open>Chats by day (groupThreads)\<close>

record thread =
  th_id :: string
  th_title :: string
  th_updated :: string

text \<open>SQLite writes a space where ISO time has a T, and no zone.\<close>

definition sqlite_time :: "string \<Rightarrow> string" where
  "sqlite_time v = (if CHR ''T'' \<in> set v then v
     else (let a = takeWhile (\<lambda>c. c \<noteq> CHR '' '') v; b = dropWhile (\<lambda>c. c \<noteq> CHR '' '') v
       in (if b = [] then v else a @ ''T'' @ tl b) @ ''Z''))"

definition day_ms :: int where "day_ms = 86400000"

definition thread_age :: "int \<Rightarrow> int option \<Rightarrow> int option" where
  "thread_age today d = map_option (\<lambda>d. (today - d) div day_ms) d"

definition group_label :: "int option \<Rightarrow> string" where
  "group_label age = (case age of None \<Rightarrow> ''Older''
     | Some a \<Rightarrow> if a \<le> 0 then ''Today'' else if a = 1 then ''Yesterday'' else if a \<le> 7 then ''Previous 7 days'' else ''Older'')"

definition group_order :: "string list" where
  "group_order = [''Today'', ''Yesterday'', ''Previous 7 days'', ''Older'']"

definition thread_label :: "(string \<Rightarrow> int option) \<Rightarrow> int \<Rightarrow> thread \<Rightarrow> string" where
  "thread_label day today t = group_label (thread_age today (day (sqlite_time (th_updated t))))"

definition group_step :: "(string \<Rightarrow> int option) \<Rightarrow> int \<Rightarrow> (string, thread list) omap \<Rightarrow> thread \<Rightarrow> (string, thread list) omap" where
  "group_step day today groups t =
    (let l = thread_label day today t in AList.update l (nullish (map_of groups l) [] @ [t]) groups)"

definition groupThreads :: "(string \<Rightarrow> int option) \<Rightarrow> int \<Rightarrow> thread list \<Rightarrow> (string \<times> thread list) list" where
  "groupThreads day today threads =
    (let groups = foldl (group_step day today) [] threads
     in List.map_filter (\<lambda>l. map_option (Pair l) (map_of groups l)) group_order)"

lemma group_fold:
  "map_of (foldl (group_step day today) groups threads) l =
    (if filter (\<lambda>t. thread_label day today t = l) threads = [] then map_of groups l
     else Some (nullish (map_of groups l) [] @ filter (\<lambda>t. thread_label day today t = l) threads))"
  by (induction threads arbitrary: groups) (auto simp: group_step_def Let_def update_conv nullish_def)

lemma thread_label_known: "thread_label day today t \<in> set group_order"
  by (simp add: thread_label_def group_label_def group_order_def split: option.split)

lemma groupThreads_eq:
  "groupThreads day today threads = map (\<lambda>l. (l, filter (\<lambda>t. thread_label day today t = l) threads))
     (filter (\<lambda>l. \<exists>t \<in> set threads. thread_label day today t = l) group_order)"
proof -
  have e: "map_option (Pair l) (map_of (foldl (group_step day today) [] threads) l)
    = (if \<exists>t \<in> set threads. thread_label day today t = l then Some (l, filter (\<lambda>t. thread_label day today t = l) threads) else None)" for l
    by (auto simp: group_fold nullish_def filter_empty_conv)
  have m: "List.map_filter (\<lambda>l. if P l then Some (f l) else None) ls = map f (filter P ls)" for P and f :: "string \<Rightarrow> string \<times> thread list" and ls
    by (induction ls) (auto simp: map_filter_def)
  show ?thesis unfolding groupThreads_def Let_def e m ..
qed

lemma mset_by_label:
  assumes "distinct ls" "\<forall>t \<in> set ts. f t \<in> set ls"
  shows "mset (concat (map (\<lambda>l. filter (\<lambda>t. f t = l) ts) ls)) = mset ts"
  using assms
proof (induction ls arbitrary: ts)
  case (Cons l ls)
  let ?r = "filter (\<lambda>t. f t \<noteq> l) ts"
  have "filter (\<lambda>t. f t = l') ts = filter (\<lambda>t. f t = l') ?r" if "l' \<in> set ls" for l'
    using that Cons.prems(1) by (induction ts) auto
  then have e: "map (\<lambda>l'. filter (\<lambda>t. f t = l') ts) ls = map (\<lambda>l'. filter (\<lambda>t. f t = l') ?r) ls" by simp
  have "mset (concat (map (\<lambda>l'. filter (\<lambda>t. f t = l') ts) ls)) = mset ?r"
    unfolding e using Cons.prems by (intro Cons.IH) auto
  then show ?case by (simp add: mset_filter)
qed simp

text \<open>
  The rail loses and repeats no chat: the groups together hold every chat once, each in the
  group of its day and in the order it came, no group is empty, and the groups stand from the most recent
  to the oldest, each at most once.
\<close>

theorem rail_groups_partition_chats:
  "mset (concat (map snd (groupThreads day today threads))) = mset threads
    \<and> (\<forall>(l, ts) \<in> set (groupThreads day today threads). ts \<noteq> [] \<and> ts = filter (\<lambda>t. thread_label day today t = l) threads)
    \<and> map fst (groupThreads day today threads) = filter (\<lambda>l. \<exists>t \<in> set threads. thread_label day today t = l) group_order"
proof -
  let ?has = "\<lambda>l. \<exists>t \<in> set threads. thread_label day today t = l"
  have "concat (map (\<lambda>l. filter (\<lambda>t. thread_label day today t = l) threads) (filter ?has ls))
      = concat (map (\<lambda>l. filter (\<lambda>t. thread_label day today t = l) threads) ls)" for ls
    by (induction ls) (auto simp: filter_empty_conv)
  then have "concat (map snd (groupThreads day today threads)) = concat (map (\<lambda>l. filter (\<lambda>t. thread_label day today t = l) threads) group_order)"
    by (simp add: groupThreads_eq comp_def)
  moreover have "distinct group_order" by (simp add: group_order_def)
  ultimately have "mset (concat (map snd (groupThreads day today threads))) = mset threads"
    using mset_by_label [of group_order threads "thread_label day today"] thread_label_known by simp
  then show ?thesis by (auto simp: groupThreads_eq comp_def filter_empty_conv)
qed

text \<open>
  The ages count days of 24 hours: on the day after a local day of 23 hours, a chat of that day is still
  called one of today.
\<close>

lemma chat_of_a_short_day_is_today:
  assumes "day (sqlite_time (th_updated t)) = Some d" "today = d + 23 * 3600000"
  shows "thread_label day today t = ''Today''"
  using assms by (simp add: thread_label_def thread_age_def group_label_def day_ms_def)

lemma chat_of_a_plain_day_is_yesterday:
  assumes "day (sqlite_time (th_updated t)) = Some d" "today = d + 24 * 3600000"
  shows "thread_label day today t = ''Yesterday''"
  using assms by (simp add: thread_label_def thread_age_def group_label_def day_ms_def)

section \<open>What a search leaves\<close>

fun js_includes :: "string \<Rightarrow> string \<Rightarrow> bool" where
  "js_includes n [] = (n = [])"
| "js_includes n (c # s) = (starts_with (c # s) n \<or> js_includes n s)"

record rail_board =
  rb_id :: string
  rb_name :: string
  rb_default :: bool

definition matchingServices :: "(string \<Rightarrow> string) \<Rightarrow> string \<Rightarrow> string list option \<Rightarrow> string list" where
  "matchingServices lc query services =
    (if query = [] then [] else take 6 (filter (\<lambda>v. js_includes (lc query) (lc v)) (nullish services [])))"

definition visibleDashboards :: "(string \<Rightarrow> string) \<Rightarrow> string \<Rightarrow> rail_board list option \<Rightarrow> rail_board list" where
  "visibleDashboards lc query boards =
    (let items = nullish boards []; needle = lc query
     in if needle \<noteq> [] then filter (\<lambda>b. js_includes needle (lc (rb_name b))) items else items)"

text \<open>The query of the chats: a page of thirty, with the search and the cursor when there are any.\<close>

definition thread_params :: "string \<Rightarrow> string \<Rightarrow> (string \<times> string) list" where
  "thread_params query cursor = [(''page_size'', ''30'')] @ (if query \<noteq> [] then [(''q'', query)] else []) @ (if cursor \<noteq> [] then [(''cursor'', cursor)] else [])"

lemma js_includes_iff: "js_includes n s \<longleftrightarrow> (\<exists>a b. s = a @ n @ b)"
proof (induction s)
  case (Cons c s)
  have "starts_with (c # s) n \<longleftrightarrow> (\<exists>b. c # s = n @ b)" unfolding starts_with_def
    by (metis append_eq_conv_conj append_take_drop_id)
  with Cons show ?case by (auto simp: Cons_eq_append_conv)
qed auto

text \<open>A click that opens elsewhere is left to the browser.\<close>

record mouse_click =
  mc_button :: nat
  mc_meta :: bool
  mc_ctrl :: bool
  mc_shift :: bool
  mc_alt :: bool

definition plain_click :: "mouse_click \<Rightarrow> bool" where
  "plain_click e \<longleftrightarrow> mc_button e = 0 \<and> \<not> mc_meta e \<and> \<not> mc_ctrl e \<and> \<not> mc_shift e \<and> \<not> mc_alt e"

section \<open>Renaming and deleting a chat\<close>

record rail_dialogs =
  rl_renaming :: "thread option"
  rl_deleting :: "thread option"
  rl_title :: string
  rl_error :: string
  rl_busy :: bool

datatype rail_request = PatchThread string string | DeleteThread string

definition begin_rename :: "thread \<Rightarrow> rail_dialogs \<Rightarrow> rail_dialogs" where
  "begin_rename t s = s\<lparr>rl_error := [], rl_title := th_title t, rl_renaming := Some t\<rparr>"

definition begin_delete :: "thread \<Rightarrow> rail_dialogs \<Rightarrow> rail_dialogs" where
  "begin_delete t s = s\<lparr>rl_error := [], rl_deleting := Some t\<rparr>"

definition rename_thread :: "rail_dialogs \<Rightarrow> rail_dialogs \<times> rail_request option" where
  "rename_thread s = (case rl_renaming s of
      Some t \<Rightarrow> if not_blank (rl_title s) \<and> \<not> rl_busy s
        then (s\<lparr>rl_busy := True, rl_error := []\<rparr>, Some (PatchThread (th_id t) (js_trim (rl_title s)))) else (s, None)
    | None \<Rightarrow> (s, None))"

definition delete_thread :: "rail_dialogs \<Rightarrow> rail_dialogs \<times> rail_request option" where
  "delete_thread s = (case rl_deleting s of
      Some t \<Rightarrow> if rl_busy s then (s, None) else (s\<lparr>rl_busy := True, rl_error := []\<rparr>, Some (DeleteThread (th_id t)))
    | None \<Rightarrow> (s, None))"

text \<open>A reply: the HTTP status, or the message of a request that failed.\<close>

definition request_error :: "string \<Rightarrow> string + nat \<Rightarrow> string option" where
  "request_error what r = (case r of
      Inl m \<Rightarrow> Some m
    | Inr status \<Rightarrow> if 200 \<le> status \<and> status < 300 then None else Some (''Unable to '' @ what @ '' chat ('' @ show_nat status @ '')''))"

definition renamed :: "string + nat \<Rightarrow> rail_dialogs \<Rightarrow> rail_dialogs" where
  "renamed r s = (case request_error ''rename'' r of
      Some m \<Rightarrow> s\<lparr>rl_busy := False, rl_error := m\<rparr>
    | None \<Rightarrow> s\<lparr>rl_busy := False, rl_renaming := None\<rparr>)"

text \<open>The chat whose deletion succeeded is told to the page, which leaves it when it is open.\<close>

definition deleted :: "string + nat \<Rightarrow> rail_dialogs \<Rightarrow> rail_dialogs \<times> string option" where
  "deleted r s = (case request_error ''delete'' r of
      Some m \<Rightarrow> (s\<lparr>rl_busy := False, rl_error := m\<rparr>, None)
    | None \<Rightarrow> (s\<lparr>rl_busy := False, rl_deleting := None\<rparr>, map_option th_id (rl_deleting s)))"

definition close_rename :: "rail_dialogs \<Rightarrow> rail_dialogs" where
  "close_rename s = (if rl_busy s then s else s\<lparr>rl_renaming := None\<rparr>)"

definition close_delete :: "rail_dialogs \<Rightarrow> rail_dialogs" where
  "close_delete s = (if rl_busy s then s else s\<lparr>rl_deleting := None\<rparr>)"

lemma refused_delete_keeps_the_dialog:
  assumes "delete_thread s = (s', Some (DeleteThread i))" "status \<ge> 300"
  shows "snd (deleted (Inr status) s') = None" "rl_deleting (fst (deleted (Inr status) s')) = rl_deleting s"
    "rl_error (fst (deleted (Inr status) s')) \<noteq> []"
  using assms by (auto simp: delete_thread_def deleted_def request_error_def split: option.splits if_splits)

end
