(* ===== verification/Alert_Rules.thy ===== *)
theory Alert_Rules
  imports Search_Page Panel_Editor Units
begin

text \<open>
  Alert rules: what an expression reads and how its values print (\<open>ui/host/src/alerts/values.ts\<close>), the form
  of a rule (\<open>rule-form.tsx\<close>) and the page of rules and alerts (\<open>page.tsx\<close>). \<open>rd\<close> reads a decimal text as
  \<open>Number\<close> does, \<open>pf\<close>, \<open>cf\<close> and \<open>df\<close> are the percent, whole and decimal formats of \<open>Intl\<close>.
\<close>

section \<open>String literals of an expression\<close>

definition line_break :: "string \<Rightarrow> bool" where
  "line_break s \<longleftrightarrow> (case s of c # _ \<Rightarrow> byte c = 10 \<or> byte c = 13 | [] \<Rightarrow> False)
     \<or> (\<exists>b \<in> {168, 169}. map byte (take 3 s) = [226, 128, b])"

text \<open>The rest after the quote that closes a literal: a backslash escapes what follows it, but no line break.\<close>

fun literal_rest :: "char \<Rightarrow> string \<Rightarrow> string option" where
  "literal_rest q [] = None"
| "literal_rest q (c # s) =
    (if c = q then Some s
     else if byte c = 92 then (if line_break s then None else case s of [] \<Rightarrow> None | d # t \<Rightarrow> literal_rest q t)
     else literal_rest q s)"

lemma literal_rest_length: "literal_rest q s = Some r \<Longrightarrow> length r < length s"
  by (induction q s rule: literal_rest.induct) (fastforce split: if_splits list.splits)+

function without_literals :: "string \<Rightarrow> string" where
  "without_literals [] = []"
| "without_literals (c # s) =
    (case (if c = CHR 0x22 \<or> c = CHR 0x27 then literal_rest c s else None) of
       Some r \<Rightarrow> [CHR 0x22, CHR 0x22] @ without_literals r
     | None \<Rightarrow> c # without_literals s)"
  by pat_completeness auto

termination without_literals
  by (relation "measure length") (auto dest: literal_rest_length split: if_splits)

section \<open>The variables of an expression\<close>

definition base_variables :: "string list" where
  "base_variables = [''error_rate'', ''p50'', ''p95'', ''throughput'', ''log_count'', ''z_score'', ''health_score'']"

definition rollup_names :: "string list" where
  "rollup_names = base_variables @ map (\<lambda>v. v @ ''_delta'') base_variables"

text \<open>A match has a word boundary on either side, so it is a whole word.\<close>

fun word_runs :: "string \<Rightarrow> string \<Rightarrow> string list" where
  "word_runs acc [] = (if acc = [] then [] else [acc])"
| "word_runs acc (c # s) = (if is_word c then word_runs (acc @ [c]) s else (if acc = [] then [] else [acc]) @ word_runs [] s)"

definition rule_variables :: "string \<Rightarrow> string list" where
  "rule_variables expression = uniq (filter (\<lambda>w. w \<in> set rollup_names) (word_runs [] (without_literals expression)))"

definition formatValue :: "(real \<Rightarrow> string) \<Rightarrow> (real \<Rightarrow> string) \<Rightarrow> (real \<Rightarrow> string) \<Rightarrow> string option \<Rightarrow> real \<Rightarrow> string" where
  "formatValue pf cf df v x =
    (if v = Some ''error_rate'' then pf x
     else if v = Some ''p50'' \<or> v = Some ''p95'' then df x @ '' ms''
     else if v = Some ''throughput'' \<or> v = Some ''log_count'' then cf x
     else if (case v of Some n \<Rightarrow> drop (length n - 6) n = ''_delta'' | None \<Rightarrow> False) then (if x > 0 then ''+'' else []) @ df x @ ''%''
     else df x)"

text \<open>\<open>[<>=!]=?\<close> between blanks, and a decimal number.\<close>

definition comparison_rest :: "string \<Rightarrow> string option" where
  "comparison_rest s = (case skip_blanks s of
      c # t \<Rightarrow> if c \<in> set ''<>=!'' then Some (skip_blanks (case t of d # u \<Rightarrow> if d = CHR ''='' then u else t | [] \<Rightarrow> [])) else None
    | [] \<Rightarrow> None)"

definition decimal_text :: "string \<Rightarrow> (string \<times> string) option" where
  "decimal_text s = (let d = takeWhile is_digit s; r = dropWhile is_digit s
     in if d = [] then None
        else case r of c # t \<Rightarrow> if c = CHR ''.'' \<and> takeWhile is_digit t \<noteq> [] then Some (d @ c # takeWhile is_digit t, dropWhile is_digit t) else Some (d, r)
           | [] \<Rightarrow> Some (d, []))"

definition rate_then_number :: "bool \<Rightarrow> string \<Rightarrow> string option" where
  "rate_then_number after_word s =
    (if after_word \<or> \<not> starts_with s ''error_rate'' then None
     else map_option fst (Option.bind (comparison_rest (drop 10 s)) decimal_text))"

definition number_then_rate :: "string \<Rightarrow> string option" where
  "number_then_rate s = Option.bind (decimal_text s) (\<lambda>(n, r). Option.bind (comparison_rest r)
     (\<lambda>t. if starts_with t ''error_rate'' \<and> (case drop 10 t of c # _ \<Rightarrow> \<not> is_word c | [] \<Rightarrow> True) then Some n else None))"

fun first_rate_number :: "bool \<Rightarrow> string \<Rightarrow> string option" where
  "first_rate_number w [] = rate_then_number w []"
| "first_rate_number w (c # s) = (case rate_then_number w (c # s) of Some n \<Rightarrow> Some n | None \<Rightarrow> first_rate_number (is_word c) s)"

fun first_number_rate :: "string \<Rightarrow> string option" where
  "first_number_rate [] = None"
| "first_number_rate (c # s) = (case number_then_rate (c # s) of Some n \<Rightarrow> Some n | None \<Rightarrow> first_number_rate s)"

definition percentMistake :: "(string \<Rightarrow> real) \<Rightarrow> (real \<Rightarrow> string) \<Rightarrow> string \<Rightarrow> string option" where
  "percentMistake rd df expression =
    (let code = without_literals expression in
     case (case first_rate_number False code of Some n \<Rightarrow> Some n | None \<Rightarrow> first_number_rate code) of
       Some n \<Rightarrow> if rd n > 1 then Some (''error_rate runs from 0 to 1, so '' @ n @ '' can never be reached. For '' @ n @ ''%, write '' @ df (rd n / 100) @ ''.'') else None
     | None \<Rightarrow> None)"

lemma without_literals_plain:
  assumes "\<forall>c \<in> set a. c \<noteq> CHR 0x22 \<and> c \<noteq> CHR 0x27"
  shows "without_literals (a @ b) = a @ without_literals b"
  using assms by (induction a) auto

text \<open>
  What stands in a string literal of a rule's expression is never read as a variable: two
  expressions that differ only in the text of their first literal read the same variables, and warn alike.
\<close>

theorem literals_are_not_variables:
  assumes "\<forall>c \<in> set a. c \<noteq> CHR 0x22 \<and> c \<noteq> CHR 0x27" "q = CHR 0x22 \<or> q = CHR 0x27"
    "literal_rest q (x @ [q] @ b) = Some b" "literal_rest q (y @ [q] @ b) = Some b"
  shows "rule_variables (a @ [q] @ x @ [q] @ b) = rule_variables (a @ [q] @ y @ [q] @ b)
    \<and> percentMistake rd df (a @ [q] @ x @ [q] @ b) = percentMistake rd df (a @ [q] @ y @ [q] @ b)"
proof -
  have "without_literals ([q] @ z @ [q] @ b) = [CHR 0x22, CHR 0x22] @ without_literals b" if "literal_rest q (z @ [q] @ b) = Some b" for z
    using assms(2) that by auto
  from this [OF assms(3)] this [OF assms(4)]
  have "without_literals (a @ [q] @ x @ [q] @ b) = without_literals (a @ [q] @ y @ [q] @ b)"
    unfolding without_literals_plain [OF assms(1)] by simp
  then show ?thesis by (simp add: rule_variables_def percentMistake_def)
qed

lemma literals_are_not_variables_witness:
  "rule_variables (''p50 == '' @ [CHR 0x22] @ ''p95'' @ [CHR 0x22] @ '' && z_score'') = rule_variables (''p50 == '' @ [CHR 0x22] @ ''api'' @ [CHR 0x22] @ '' && z_score'')"
  using literals_are_not_variables [of "''p50 == ''" "CHR 0x22" "''p95''" "'' && z_score''" "''api''" "\<lambda>_. 0" "\<lambda>_. []"]
  by (simp add: byte_def)

lemma rule_variables_known: "set (rule_variables e) \<subseteq> set rollup_names" "distinct (rule_variables e)"
  by (auto simp: rule_variables_def distinct_uniq)

section \<open>The query of a rule (ruleQuery)\<close>

definition rule_charts :: "(string, string \<times> string) omap" where
  "rule_charts = [(''error_rate'', (''spans'', ''error_rate()'')), (''p95'', (''spans'', ''p95(duration)'')),
     (''throughput'', (''spans'', ''count()'')), (''log_count'', (''logs'', ''count()''))]"

definition without_delta :: "string \<Rightarrow> string" where
  "without_delta n = (if drop (length n - 6) n = ''_delta'' then take (length n - 6) n else n)"

definition ruleQuery :: "string option \<Rightarrow> string \<Rightarrow> string" where
  "ruleQuery service expression =
    (let watched = nullish (find (\<lambda>n. map_of rule_charts n \<noteq> None) (map without_delta (rule_variables expression))) ''throughput'';
         (source, m) = the (map_of rule_charts watched)
     in case non_empty service of
          Some v \<Rightarrow> source @ '' where service:'' @ quoted v @ '' | '' @ m @ '' every auto''
        | None \<Rightarrow> source @ '' | '' @ m @ '' by service every auto'')"

lemma watched_is_charted:
  "map_of rule_charts (nullish (find (\<lambda>n. map_of rule_charts n \<noteq> None) ns) ''throughput'') \<noteq> None"
proof (cases "find (\<lambda>n. map_of rule_charts n \<noteq> None) ns")
  case (Some n)
  then have "map_of rule_charts n \<noteq> None" unfolding find_Some_iff by blast
  then show ?thesis unfolding Some nullish_def option.case .
qed (simp add: rule_charts_def nullish_def)

section \<open>The form of a rule\<close>

record rule_draft =
  rd_name :: string
  rd_description :: "string option"
  rd_enabled :: bool
  rd_service :: "string option"
  rd_namespace :: "string option"
  rd_expression :: string
  rd_for :: real
  rd_cooldown :: real
  rd_repeat :: real
  rd_url :: "string option"
  rd_headers :: "string option"
  rd_template :: "string option"
  rd_notify :: bool

definition blank_rule :: rule_draft where
  "blank_rule = \<lparr>rd_name = [], rd_description = Some [], rd_enabled = True, rd_service = Some [], rd_namespace = None, rd_expression = [],
     rd_for = 60, rd_cooldown = 300, rd_repeat = 3600, rd_url = Some [], rd_headers = Some [], rd_template = Some [], rd_notify = False\<rparr>"

definition draft_of :: "rule_draft option \<Rightarrow> rule_draft" where
  "draft_of rule = (case rule of None \<Rightarrow> blank_rule
     | Some r \<Rightarrow> r\<lparr>rd_description := Some (nullish (rd_description r) []), rd_service := Some (nullish (rd_service r) []),
         rd_url := Some (nullish (rd_url r) []), rd_headers := Some (nullish (rd_headers r) []), rd_template := Some (nullish (rd_template r) [])\<rparr>)"

definition header_name :: "string \<Rightarrow> bool" where
  "header_name n \<longleftrightarrow> n \<noteq> [] \<and> list_all (\<lambda>c. is_digit c \<or> is_lower c \<or> is_upper c \<or> c \<in> set ''!#$%&*+-.^_`|~'' \<or> c = CHR 0x27) n"

definition control_in :: "string \<Rightarrow> bool" where
  "control_in v \<longleftrightarrow> list_ex (\<lambda>c. (byte c < 32 \<and> byte c \<noteq> 9) \<or> byte c = 127) v"

definition header_problem :: "string \<times> json \<Rightarrow> string option" where
  "header_problem e =
    (if \<not> header_name (fst e) then Some ([dquote] @ fst e @ [dquote] @ '' is not a valid header name'')
     else case snd e of
         JStr v \<Rightarrow> if control_in v then Some (''Header '' @ fst e @ '' has a line break or control character'') else None
       | _ \<Rightarrow> Some (''Header '' @ fst e @ '' must be a string''))"

fun first_problem :: "(string \<times> json) list \<Rightarrow> string option" where
  "first_problem [] = None"
| "first_problem (e # es) = (case header_problem e of Some p \<Rightarrow> Some p | None \<Rightarrow> first_problem es)"

definition headersProblem :: "(string \<Rightarrow> json option) \<Rightarrow> string option \<Rightarrow> string option" where
  "headersProblem jp headers = (case headers of None \<Rightarrow> None
     | Some h \<Rightarrow> if \<not> not_blank h then None else (case jp h of
         Some (JObj kvs) \<Rightarrow> first_problem (sort_by (\<lambda>a b. str_le (fst a) (fst b)) kvs)
       | _ \<Rightarrow> Some ''Enter a JSON object''))"

text \<open>Like the server, the form checks headers only when they changed.\<close>

definition draft_headers :: "(string \<Rightarrow> json option) \<Rightarrow> rule_draft option \<Rightarrow> rule_draft \<Rightarrow> string option" where
  "draft_headers jp rule d = (if rule \<noteq> None \<and> rd_headers d = Option.bind rule rd_headers then None else headersProblem jp (rd_headers d))"

definition draft_ready :: "(string \<Rightarrow> json option) \<Rightarrow> rule_draft option \<Rightarrow> rule_draft \<Rightarrow> bool" where
  "draft_ready jp rule d \<longleftrightarrow> not_blank (rd_name d) \<and> not_blank (rd_expression d) \<and> draft_headers jp rule d = None"

definition unseen_service :: "string list option \<Rightarrow> rule_draft \<Rightarrow> bool" where
  "unseen_service services d \<longleftrightarrow> (let v = js_trim (nullish (rd_service d) [])
     in v \<noteq> [] \<and> (case services of Some vs \<Rightarrow> v \<notin> set vs | None \<Rightarrow> False))"

definition saved_draft :: "rule_draft \<Rightarrow> rule_draft" where
  "saved_draft d = d\<lparr>rd_name := js_trim (rd_name d), rd_expression := js_trim (rd_expression d)\<rparr>"

lemma first_problem_None: "first_problem es = None \<longleftrightarrow> (\<forall>e \<in> set es. header_problem e = None)"
  by (induction es) (auto split: option.split)

lemma header_problem_None:
  "header_problem e = None \<longleftrightarrow> header_name (fst e) \<and> (\<exists>v. snd e = JStr v \<and> \<not> control_in v)"
  by (cases "snd e") (auto simp: header_problem_def)

text \<open>
  The form refuses exactly the webhook headers that cannot be sent: changed headers pass when
  they are blank, or a JSON object whose names are HTTP tokens and whose values are texts without a line
  break or another control character.
\<close>

theorem refused_headers_are_invalid:
  "headersProblem jp (Some h) = None \<longleftrightarrow> \<not> not_blank h
    \<or> (\<exists>kvs. jp h = Some (JObj kvs) \<and> (\<forall>(n, v) \<in> set kvs. header_name n \<and> (\<exists>t. v = JStr t \<and> \<not> control_in t)))"
  by (auto simp: headersProblem_def first_problem_None header_problem_None split: option.split json.split)

section \<open>The page of rules\<close>

record alert_row =
  al_rule :: string
  al_state :: string
  al_fired :: "string option"
  al_created :: string

definition active_alerts :: "string \<Rightarrow> alert_row list \<Rightarrow> alert_row list" where
  "active_alerts rule alerts = filter (\<lambda>a. al_rule a = rule \<and> al_state a \<in> {''firing'', ''pending''}) alerts"

definition last_fired :: "string \<Rightarrow> alert_row list \<Rightarrow> string option" where
  "last_fired rule alerts = (let ts = sort_by str_le (List.map_filter (\<lambda>a. if al_rule a = rule then non_empty (al_fired a) else None) alerts)
     in if ts = [] then None else Some (last ts))"

text \<open>The newest first; \<open>le\<close> is the order of \<open>localeCompare\<close>.\<close>

definition alert_history :: "(string \<Rightarrow> string \<Rightarrow> bool) \<Rightarrow> alert_row list \<Rightarrow> alert_row list" where
  "alert_history le alerts = sort_by (\<lambda>a b. le (nullish (al_fired b) (al_created b)) (nullish (al_fired a) (al_created a))) alerts"

section \<open>Testing a rule\<close>

text \<open>The run of the latest test, the window, and the tests in flight with the rule each one asked about.\<close>

record rule_test =
  rt_run :: nat
  rt_window :: "(string \<times> (string + string) option) option"
  rt_flight :: "(nat \<times> string) list"

datatype test_event = RunTest string | CloseTest | TestAnswer nat "string + string" | RuleRemoved

definition open_tests :: rule_test where
  "open_tests = \<lparr>rt_run = 0, rt_window = None, rt_flight = []\<rparr>"

definition test_step :: "test_event \<Rightarrow> rule_test \<Rightarrow> rule_test" where
  "test_step e s = (case e of
      RunTest r \<Rightarrow> s\<lparr>rt_run := rt_run s + 1, rt_window := Some (r, None), rt_flight := rt_flight s @ [(rt_run s + 1, r)]\<rparr>
    | CloseTest \<Rightarrow> s\<lparr>rt_run := rt_run s + 1, rt_window := None\<rparr>
    | RuleRemoved \<Rightarrow> s\<lparr>rt_run := rt_run s + 1\<rparr>
    | TestAnswer i a \<Rightarrow> (case nth_opt (rt_flight s) i of
          Some (n, r) \<Rightarrow> s\<lparr>rt_flight := take i (rt_flight s) @ drop (Suc i) (rt_flight s),
            rt_window := (if rt_run s = n then Some (r, Some a) else rt_window s)\<rparr>
        | None \<Rightarrow> s))"

definition tests_ok :: "rule_test \<Rightarrow> bool" where
  "tests_ok s \<longleftrightarrow> distinct (map fst (rt_flight s)) \<and> (\<forall>(n, r) \<in> set (rt_flight s). n \<le> rt_run s
     \<and> (n = rt_run s \<longrightarrow> rt_window s = Some (r, None)))"

lemma tests_ok_step:
  assumes "tests_ok s" shows "tests_ok (test_step e s)"
proof (cases e)
  case (TestAnswer i a)
  show ?thesis
  proof (cases "nth_opt (rt_flight s) i")
    case (Some nr)
    obtain n r where nr: "nr = (n, r)" by (cases nr)
    from Some nr have i: "i < length (rt_flight s)" "rt_flight s ! i = (n, r)" by (auto simp: nth_opt_def split: if_splits)
    then have f: "rt_flight s = take i (rt_flight s) @ (n, r) # drop (Suc i) (rt_flight s)" by (metis id_take_nth_drop)
    then have "distinct (map fst (take i (rt_flight s) @ (n, r) # drop (Suc i) (rt_flight s)))" using assms by (simp add: tests_ok_def)
    then have d: "distinct (map fst (take i (rt_flight s) @ drop (Suc i) (rt_flight s)))"
      "\<forall>m r'. (m, r') \<in> set (take i (rt_flight s) @ drop (Suc i) (rt_flight s)) \<longrightarrow> m \<noteq> n" by (force simp: image_iff)+
    have sub: "set (take i (rt_flight s) @ drop (Suc i) (rt_flight s)) \<subseteq> set (rt_flight s)"
      by (auto dest: in_set_takeD in_set_dropD)
    show ?thesis using assms TestAnswer Some nr d sub
      by (fastforce simp: tests_ok_def test_step_def)
  qed (use assms TestAnswer in \<open>simp add: test_step_def\<close>)
qed (use assms in \<open>force simp: tests_ok_def test_step_def\<close>)+

text \<open>
  Only the latest test answers, and only while its window is open: whatever tests were started,
  closed and answered in whatever order, an answer in flight is that of the open, still unanswered window,
  or is dropped when it comes.
\<close>

theorem only_the_latest_test_answers:
  assumes "s = fold test_step es open_tests" "nth_opt (rt_flight s) i = Some (n, r)"
  shows "(n = rt_run s \<and> rt_window s = Some (r, None) \<and> rt_window (test_step (TestAnswer i a) s) = Some (r, Some a))
    \<or> rt_window (test_step (TestAnswer i a) s) = rt_window s"
proof -
  have "tests_ok (fold test_step es u)" if "tests_ok u" for u
    using that by (induction es arbitrary: u) (simp_all add: tests_ok_step)
  moreover have "tests_ok open_tests" by (simp add: tests_ok_def open_tests_def)
  ultimately have ok: "tests_ok s" using assms(1) by blast
  from assms(2) have "(n, r) \<in> set (rt_flight s)" by (auto simp: nth_opt_def split: if_splits) (metis nth_mem)
  with ok have "n = rt_run s \<Longrightarrow> rt_window s = Some (r, None)" by (auto simp: tests_ok_def)
  with assms(2) show ?thesis by (auto simp: test_step_def)
qed

lemma only_the_latest_test_answers_witness:
  "rt_window (test_step (TestAnswer 0 (Inl ''x'')) (fold test_step [RunTest ''a'', RunTest ''b''] open_tests)) = Some (''b'', None)"
  using only_the_latest_test_answers [OF refl, of "[RunTest ''a'', RunTest ''b'']" 0 1 "''a''" "Inl ''x''"]
  by (simp add: test_step_def open_tests_def nth_opt_def)

end
