(* ===== verification/Chat_Session.thy ===== *)
theory Chat_Session
  imports App_Context
begin

text \<open>
  The chat session of the console (\<open>ui/host/src/app.tsx\<close>): the thread of the address or the draft, what is
  loaded for it, sending, stopping and retrying a turn, and what the events of a run change. The agent's
  client is events of the steps; it delivers to the subscription of the current session only. A session
  begins when the thread changes or is reloaded; \<open>cs_session\<close> numbers them.
\<close>

section \<open>The state\<close>

type_synonym turn_options = "(string, json) omap"

text \<open>A message: its id and whether the user wrote it.\<close>

type_synonym chat_line = "string \<times> bool"

record chat_session =
  cs_route :: "string option"
  cs_draft :: string
  cs_drafts :: "string list"
  cs_agent :: "chat_line list"
  cs_messages :: "chat_line list"
  cs_loaded :: string
  cs_missing :: bool
  cs_running :: bool
  cs_activity :: string
  cs_stopped :: bool
  cs_stopping :: bool
  cs_input :: string
  cs_error :: string
  cs_pending :: "(string \<times> turn_options) option"
  cs_options :: turn_options
  cs_tools :: "(string, string) omap"
  cs_session :: nat
  cs_loads :: "(nat \<times> string) list"
  cs_runs :: "(string \<times> string) list"
  cs_goto :: "string option option"

definition thread_of :: "chat_session \<Rightarrow> string" where
  "thread_of s = nullish (cs_route s) (cs_draft s)"

definition chat_ready :: "bool \<Rightarrow> chat_session \<Rightarrow> bool" where
  "chat_ready available s \<longleftrightarrow> \<not> available \<or> cs_loaded s = thread_of s"

definition clear_activity :: "chat_session \<Rightarrow> chat_session" where
  "clear_activity s = s\<lparr>cs_tools := [], cs_activity := []\<rparr>"

text \<open>The effect that begins a session: a thread the server knows is asked for, a draft is empty.\<close>

definition begin_session :: "bool \<Rightarrow> chat_session \<Rightarrow> chat_session" where
  "begin_session available s =
    (let s1 = clear_activity (s\<lparr>cs_messages := [], cs_agent := [], cs_options := [], cs_loaded := [], cs_missing := False, cs_running := False,
                 cs_stopping := False, cs_stopped := False, cs_error := [], cs_session := cs_session s + 1\<rparr>)
     in if \<not> available \<or> cs_route s = None \<or> thread_of s \<in> set (cs_drafts s) then s1\<lparr>cs_loaded := thread_of s\<rparr>
        else s1\<lparr>cs_loads := cs_loads s @ [(cs_session s + 1, thread_of s)]\<rparr>)"

definition open_session :: "bool \<Rightarrow> string option \<Rightarrow> string \<Rightarrow> chat_session" where
  "open_session available route draft = begin_session available
    \<lparr>cs_route = route, cs_draft = draft, cs_drafts = [], cs_agent = [], cs_messages = [], cs_loaded = [], cs_missing = False, cs_running = False,
     cs_activity = [], cs_stopped = False, cs_stopping = False, cs_input = [], cs_error = [], cs_pending = None, cs_options = [], cs_tools = [],
     cs_session = 0, cs_loads = [], cs_runs = [], cs_goto = None\<rparr>"

section \<open>Sending\<close>

definition start_run :: "string \<Rightarrow> chat_session \<Rightarrow> chat_session" where
  "start_run prompt s = s\<lparr>cs_running := True, cs_error := [], cs_runs := cs_runs s @ [(thread_of s, prompt)]\<rparr>"

definition can_send :: "bool \<Rightarrow> string \<Rightarrow> chat_session \<Rightarrow> bool" where
  "can_send available t s \<longleftrightarrow> available \<and> not_blank t \<and> \<not> cs_running s \<and> chat_ready available s \<and> \<not> cs_missing s"

text \<open>\<open>i\<close> is the new message's id. Naming a draft asks for its own address; the draft is remembered.\<close>

definition send_message :: "bool \<Rightarrow> string \<Rightarrow> string \<Rightarrow> turn_options \<Rightarrow> chat_session \<Rightarrow> chat_session" where
  "send_message available i t opts s =
    (if \<not> can_send available t s then s
     else let s1 = s\<lparr>cs_options := opts\<rparr>;
              s2 = (if cs_route s = None then s1\<lparr>cs_drafts := thread_of s # cs_drafts s, cs_goto := Some (Some (thread_of s))\<rparr> else s1)
          in start_run (js_trim t) (s2\<lparr>cs_agent := cs_agent s @ [(i, True)], cs_messages := cs_agent s @ [(i, True)], cs_input := []\<rparr>))"

definition forget_draft :: "string \<Rightarrow> chat_session \<Rightarrow> chat_session" where
  "forget_draft t s = s\<lparr>cs_drafts := filter (\<lambda>d. d \<noteq> t) (cs_drafts s)\<rparr>"

definition stop_run :: "chat_session \<Rightarrow> chat_session" where
  "stop_run s = forget_draft (thread_of s) (clear_activity (s\<lparr>cs_stopping := True, cs_error := [], cs_stopped := True, cs_running := False\<rparr>))"

definition retry_run :: "chat_session \<Rightarrow> chat_session" where
  "retry_run s = (if \<not> cs_running s \<and> list_ex snd (cs_agent s) then start_run [] s else s)"

section \<open>Moving between threads\<close>

definition open_chat :: "bool \<Rightarrow> string \<Rightarrow> (string \<times> turn_options) option \<Rightarrow> chat_session \<Rightarrow> chat_session" where
  "open_chat available new_id prompt s = (if \<not> available then s
     else s\<lparr>cs_drafts := new_id # cs_drafts s, cs_pending := (case prompt of Some (t, opts) \<Rightarrow> if t = [] then None else Some (t, opts) | None \<Rightarrow> None),
       cs_goto := Some (Some new_id)\<rparr>)"

definition new_thread :: "string \<Rightarrow> chat_session \<Rightarrow> chat_session" where
  "new_thread new_id s = s\<lparr>cs_pending := None, cs_options := [], cs_draft := new_id, cs_goto := Some None\<rparr>"

definition select_thread :: "string \<Rightarrow> chat_session \<Rightarrow> chat_session" where
  "select_thread t s = s\<lparr>cs_pending := None, cs_options := [], cs_goto := Some (Some t)\<rparr>"

section \<open>The events of a run\<close>

datatype run_event =
    MessagesChanged "chat_line list" | RunInitialized | TextDelta bool | ToolStarted string string | ToolResult string
  | RunErrored "string option" | RunFinalized "chat_line list" | RunFailed bool

text \<open>After a tool call the line is that of the call begun last among those still in flight.\<close>

definition tool_activity :: "(string, string) omap \<Rightarrow> string" where
  "tool_activity tools = (if tools = [] then ''Analyzing your system'' else snd (last tools))"

definition on_run_event :: "run_event \<Rightarrow> chat_session \<Rightarrow> chat_session" where
  "on_run_event e s = (case e of
      MessagesChanged ms \<Rightarrow> s\<lparr>cs_agent := ms, cs_messages := ms\<rparr>
    | RunInitialized \<Rightarrow> s\<lparr>cs_stopping := False, cs_stopped := False, cs_running := True, cs_error := []\<rparr>
    | TextDelta some \<Rightarrow> if some then s\<lparr>cs_activity := []\<rparr> else s
    | ToolStarted i tool \<Rightarrow> s\<lparr>cs_tools := AList.update i (activityLabel tool) (cs_tools s), cs_activity := activityLabel tool\<rparr>
    | ToolResult i \<Rightarrow> (let ts = AList.delete i (cs_tools s) in s\<lparr>cs_tools := ts, cs_activity := tool_activity ts\<rparr>)
    | RunErrored code \<Rightarrow> clear_activity ((if code = Some ''abort'' \<or> cs_stopping s then s\<lparr>cs_error := [], cs_stopped := True\<rparr>
          else s\<lparr>cs_error := runErrorMessage code\<rparr>)\<lparr>cs_running := False\<rparr>)
    | RunFinalized ms \<Rightarrow> forget_draft (thread_of s) (clear_activity (s\<lparr>cs_agent := ms, cs_messages := ms, cs_running := False\<rparr>))
    | RunFailed aborted \<Rightarrow> forget_draft (thread_of s) (clear_activity ((if cs_stopping s \<or> aborted then s\<lparr>cs_error := [], cs_stopped := True\<rparr>
          else s\<lparr>cs_error := runErrorMessage None\<rparr>)\<lparr>cs_running := False\<rparr>)))"

text \<open>The answer of a load: it failed, the thread is not there, or its messages.\<close>

datatype load_answer = LoadFailed | LoadMissing | LoadedThread "chat_line list"

definition load_answered :: "nat \<times> string \<Rightarrow> load_answer \<Rightarrow> chat_session \<Rightarrow> chat_session" where
  "load_answered l a s = (if fst l \<noteq> cs_session s then s else (case a of
      LoadFailed \<Rightarrow> s\<lparr>cs_pending := None, cs_error := ''This chat could not be restored. Start a new chat or try again.''\<rparr>
    | LoadMissing \<Rightarrow> s\<lparr>cs_missing := True, cs_loaded := snd l\<rparr>
    | LoadedThread ms \<Rightarrow> s\<lparr>cs_agent := ms, cs_messages := ms, cs_loaded := snd l\<rparr>))"

datatype chat_event =
    Send string string turn_options | Stop | Retry | OpenChat string "(string \<times> turn_options) option" | NewThread string | SelectThread string
  | ReloadThread | RouteChanged "string option" | RunEvent run_event | RunThrew string bool | LoadReply nat load_answer | Typed string

definition chat_handle :: "bool \<Rightarrow> chat_event \<Rightarrow> chat_session \<Rightarrow> chat_session" where
  "chat_handle available e s = (case e of
      Send i t opts \<Rightarrow> send_message available i t opts s
    | Stop \<Rightarrow> stop_run s
    | Retry \<Rightarrow> retry_run s
    | OpenChat i p \<Rightarrow> open_chat available i p s
    | NewThread i \<Rightarrow> new_thread i s
    | SelectThread t \<Rightarrow> select_thread t s
    | ReloadThread \<Rightarrow> begin_session available s
    | RouteChanged r \<Rightarrow> s\<lparr>cs_route := r\<rparr>
    | RunEvent ev \<Rightarrow> on_run_event ev s
    | RunThrew t aborted \<Rightarrow> forget_draft t (clear_activity ((if cs_stopping s \<or> aborted then s\<lparr>cs_error := [], cs_stopped := True\<rparr>
          else s\<lparr>cs_error := runErrorMessage None\<rparr>)\<lparr>cs_running := False\<rparr>))
    | LoadReply i a \<Rightarrow> (case nth_opt (cs_loads s) i of
          Some l \<Rightarrow> load_answered l a (s\<lparr>cs_loads := take i (cs_loads s) @ drop (Suc i) (cs_loads s)\<rparr>) | None \<Rightarrow> s)
    | Typed t \<Rightarrow> s\<lparr>cs_input := t\<rparr>)"

text \<open>The two effects: a changed thread begins a session, and a prompt waits for its thread to be ready.\<close>

definition session_effect :: "bool \<Rightarrow> chat_session \<Rightarrow> chat_session \<Rightarrow> chat_session" where
  "session_effect available s s' = (if thread_of s = thread_of s' then s' else begin_session available s')"

definition prompt_effect :: "bool \<Rightarrow> string \<Rightarrow> chat_session \<Rightarrow> chat_session \<Rightarrow> chat_session" where
  "prompt_effect available i s s' =
    (if (chat_ready available s, cs_route s, thread_of s) = (chat_ready available s', cs_route s', thread_of s') then s'
     else case cs_pending s' of
         Some (t, opts) \<Rightarrow> if chat_ready available s' \<and> cs_route s' \<noteq> None then send_message available i t opts (s'\<lparr>cs_pending := None\<rparr>) else s'
       | None \<Rightarrow> s')"

definition chat_step :: "bool \<Rightarrow> string \<times> chat_event \<Rightarrow> chat_session \<Rightarrow> chat_session" where
  "chat_step available e s = prompt_effect available (fst e) s (session_effect available s (chat_handle available (snd e) s))"

section \<open>A draft is named while its run goes on\<close>

lemma send_message_sends:
  assumes "can_send available t s"
  shows "cs_running (send_message available i t opts s)" "thread_of (send_message available i t opts s) = thread_of s"
    "cs_messages (send_message available i t opts s) = cs_agent s @ [(i, True)]"
    "cs_runs (send_message available i t opts s) = cs_runs s @ [(thread_of s, js_trim t)]"
    "cs_pending (send_message available i t opts s) = cs_pending s"
  using assms by (simp_all add: send_message_def Let_def start_run_def thread_of_def)

lemma thread_of_route: "thread_of (s\<lparr>cs_route := Some (thread_of s)\<rparr>) = thread_of s"
  by (simp add: thread_of_def)

text \<open>
  The first message of a draft moves it to its own address without restarting it: when the
  address arrives, the message, the run that was started and the session are as they were, and nothing is
  asked of the server, which does not know the thread yet.
\<close>

theorem naming_a_draft_keeps_the_run:
  assumes "cs_route s = None" "can_send available t s" "cs_pending s = None"
    "s1 = chat_step available (i, Send i t opts) s" "s2 = chat_step available (j, RouteChanged (Some (thread_of s))) s1"
  shows "cs_goto s1 = Some (Some (thread_of s)) \<and> cs_running s2 \<and> cs_messages s2 = cs_agent s @ [(i, True)]
    \<and> cs_runs s2 = cs_runs s @ [(thread_of s, js_trim t)] \<and> cs_session s2 = cs_session s \<and> cs_loads s2 = cs_loads s"
proof -
  let ?m = "send_message available i t opts s"
  have m: "thread_of ?m = thread_of s" "cs_pending ?m = None" by (simp_all add: send_message_sends assms)
  have s1: "s1 = ?m" using assms(4) by (simp add: chat_step_def chat_handle_def session_effect_def prompt_effect_def m)
  let ?n = "?m\<lparr>cs_route := Some (thread_of s)\<rparr>"
  have "thread_of ?n = thread_of s" by (simp add: thread_of_def)
  then have s2: "s2 = ?n" using assms(5) by (simp add: s1 chat_step_def chat_handle_def session_effect_def prompt_effect_def m)
  have "cs_goto ?m = Some (Some (thread_of s))" "cs_session ?m = cs_session s" "cs_loads ?m = cs_loads s"
    using assms(1,2) by (simp_all add: send_message_def Let_def start_run_def thread_of_def)
  then show ?thesis by (simp add: s1 s2 send_message_sends assms(2))
qed

lemma naming_a_draft_keeps_the_run_witness:
  "cs_running (chat_step True (''b'', RouteChanged (Some ''d'')) (chat_step True (''a'', Send ''a'' ''hi'' []) (open_session True None ''d'')))"
  using naming_a_draft_keeps_the_run [of "open_session True None ''d''" True "''hi''" _ "''a''" "[]" _ "''b''", OF _ _ _ refl refl]
  by (simp add: open_session_def begin_session_def clear_activity_def Let_def thread_of_def can_send_def chat_ready_def
      not_blank_def js_trim_def js_space_def byte_def cp_of_def is_cont_def)

section \<open>A prompt goes to the thread it opened\<close>

text \<open>
  Property C23. A prompt that opens a chat, as Explain and Fix of a panel do, is sent once, as the first
  message of the thread it opened, when the address of that thread arrives; whatever the thread before was
  doing, it gets none of it.
\<close>

theorem opened_prompt_is_sent_once:
  assumes "not_blank t" "n \<noteq> thread_of s"
    "s2 = chat_step True (j, RouteChanged (Some n)) (open_chat True n (Some (t, opts)) s)"
  shows "cs_messages s2 = [(j, True)] \<and> cs_runs s2 = cs_runs s @ [(n, js_trim t)] \<and> cs_running s2 \<and> cs_pending s2 = None
    \<and> cs_options s2 = opts \<and> cs_loads s2 = cs_loads s \<and> thread_of s2 = n"
proof -
  have t: "t \<noteq> []" using assms(1) by (auto simp: not_blank_def)
  let ?o = "open_chat True n (Some (t, opts)) s"
  have o: "cs_pending ?o = Some (t, opts)" "thread_of ?o = thread_of s" "n \<in> set (cs_drafts ?o)" "cs_runs ?o = cs_runs s" "cs_loads ?o = cs_loads s"
    using t by (simp_all add: open_chat_def thread_of_def)
  let ?r = "?o\<lparr>cs_route := Some n\<rparr>"
  let ?b = "begin_session True ?r"
  have r: "thread_of ?r = n" "cs_route ?r = Some n" by (simp_all add: thread_of_def)
  have b: "thread_of ?b = n" "cs_loaded ?b = n" "cs_route ?b = Some n" "cs_pending ?b = Some (t, opts)" "\<not> cs_running ?b" "\<not> cs_missing ?b"
    "cs_agent ?b = []" "cs_runs ?b = cs_runs s" "cs_loads ?b = cs_loads s"
    using o by (simp_all add: begin_session_def Let_def clear_activity_def thread_of_def)
  let ?c = "?b\<lparr>cs_pending := None\<rparr>"
  have c: "can_send True t ?c" "cs_route ?c \<noteq> None" "thread_of ?c = n" using b assms(1) by (simp_all add: can_send_def chat_ready_def thread_of_def)
  have "s2 = send_message True j t opts ?c"
    using assms(2,3) o(2) r b by (simp add: chat_step_def chat_handle_def session_effect_def prompt_effect_def chat_ready_def)
  moreover have "cs_options (send_message True j t opts ?c) = opts" "cs_loads (send_message True j t opts ?c) = cs_loads s"
    using c b by (simp_all add: send_message_def Let_def start_run_def)
  ultimately show ?thesis using send_message_sends [OF c(1)] c b by simp
qed

lemma opened_prompt_is_sent_once_witness:
  "cs_runs (chat_step True (''m'', RouteChanged (Some ''n'')) (open_chat True ''n'' (Some (''Explain'', [])) (open_session True None ''d''))) = [(''n'', js_trim ''Explain'')]"
proof -
  have "not_blank ''Explain''" by (simp add: not_blank_def js_trim_def js_space_def byte_def cp_of_def is_cont_def)
  moreover have "''n'' \<noteq> thread_of (open_session True None ''d'')" "cs_runs (open_session True None ''d'') = []"
    by (simp_all add: open_session_def begin_session_def clear_activity_def Let_def thread_of_def)
  ultimately show ?thesis using opened_prompt_is_sent_once [OF _ _ refl, of "''Explain''" "''n''" "open_session True None ''d''" "''m''" "[]"] by simp
qed

section \<open>A thread shows its own messages\<close>

text \<open>What the loads depend on, and what most handlers leave alone.\<close>

definition load_part :: "chat_session \<Rightarrow> (nat \<times> string) list \<times> nat \<times> string \<times> string" where
  "load_part s = (cs_loads s, cs_session s, cs_loaded s, thread_of s)"

definition loads_ok :: "chat_session \<Rightarrow> bool" where
  "loads_ok s \<longleftrightarrow> (\<forall>(n, t) \<in> set (cs_loads s). n \<le> cs_session s \<and> (n = cs_session s \<longrightarrow> t = thread_of s))
     \<and> (cs_loaded s = [] \<or> cs_loaded s = thread_of s)"

lemma loads_ok_cong: "load_part s = load_part s' \<Longrightarrow> loads_ok s = loads_ok s'"
  by (simp add: load_part_def loads_ok_def)

lemma load_part_send [simp]: "load_part (send_message available i t opts s) = load_part s"
  by (simp add: send_message_def Let_def start_run_def load_part_def thread_of_def)

lemma load_part_quiet [simp]:
  "load_part (stop_run s) = load_part s" "load_part (retry_run s) = load_part s" "load_part (open_chat available i p s) = load_part s"
  "load_part (select_thread t s) = load_part s" "load_part (on_run_event ev s) = load_part s" "load_part (s\<lparr>cs_input := t\<rparr>) = load_part s"
  "load_part (s\<lparr>cs_pending := None\<rparr>) = load_part s"
  by (simp_all add: load_part_def thread_of_def stop_run_def forget_draft_def clear_activity_def retry_run_def start_run_def open_chat_def
      select_thread_def on_run_event_def Let_def split: run_event.split)

lemma loads_ok_begin:
  assumes "\<forall>(n, t) \<in> set (cs_loads s). n \<le> cs_session s" shows "loads_ok (begin_session available s)"
  using assms by (fastforce simp: loads_ok_def begin_session_def Let_def clear_activity_def thread_of_def)

lemma loads_ok_bounds: "loads_ok s \<Longrightarrow> \<forall>(n, t) \<in> set (cs_loads s). n \<le> cs_session s"
  by (auto simp: loads_ok_def)

lemma loads_ok_answered:
  assumes "loads_ok s" "l \<in> set (cs_loads s)" "set ls \<subseteq> set (cs_loads s)"
  shows "loads_ok (load_answered l a (s\<lparr>cs_loads := ls\<rparr>))"
proof -
  have "fst l = cs_session s \<Longrightarrow> snd l = thread_of s" using assms(1,2) by (auto simp: loads_ok_def)
  then show ?thesis using assms(1,3)
    by (cases a) (auto simp: loads_ok_def load_answered_def thread_of_def)
qed

lemma loads_ok_moved:
  assumes "loads_ok s" "cs_loads s' = cs_loads s" "cs_session s' = cs_session s" "cs_loaded s' = cs_loaded s"
  shows "loads_ok (session_effect available s s')"
proof (cases "thread_of s = thread_of s'")
  case True
  with assms show ?thesis by (simp add: session_effect_def loads_ok_def)
next
  case False
  with loads_ok_bounds [OF assms(1)] assms(2,3) show ?thesis by (simp add: session_effect_def loads_ok_begin)
qed

lemma loads_ok_same:
  assumes "loads_ok s'" "thread_of s = thread_of s'" shows "loads_ok (session_effect available s s')"
  using assms by (simp add: session_effect_def)

lemma loads_ok_step:
  assumes "loads_ok s" shows "loads_ok (chat_step available e s)"
proof -
  have "loads_ok (session_effect available s (chat_handle available (snd e) s))"
  proof (cases "snd e")
    case ReloadThread
    then show ?thesis using loads_ok_begin [OF loads_ok_bounds [OF assms]]
      by (intro loads_ok_same) (simp_all add: chat_handle_def begin_session_def Let_def clear_activity_def thread_of_def)
  next
    case (RouteChanged r)
    then show ?thesis using assms by (intro loads_ok_moved) (simp_all add: chat_handle_def)
  next
    case (NewThread i)
    then show ?thesis using assms by (intro loads_ok_moved) (simp_all add: chat_handle_def new_thread_def)
  next
    case (RunThrew t a)
    then show ?thesis using assms by (intro loads_ok_moved) (simp_all add: chat_handle_def forget_draft_def clear_activity_def)
  next
    case (LoadReply i a)
    show ?thesis
    proof (cases "nth_opt (cs_loads s) i")
      case (Some l)
      then have "l \<in> set (cs_loads s)" by (auto simp: nth_opt_def split: if_splits)
      moreover have "set (take i (cs_loads s) @ drop (Suc i) (cs_loads s)) \<subseteq> set (cs_loads s)" by (auto dest: in_set_takeD in_set_dropD)
      ultimately have "loads_ok (chat_handle available (snd e) s)" using loads_ok_answered [OF assms] LoadReply Some by (simp add: chat_handle_def)
      then show ?thesis using LoadReply Some
        by (intro loads_ok_same) (simp_all add: chat_handle_def load_answered_def thread_of_def split: load_answer.split)
    qed (use assms LoadReply in \<open>simp add: chat_handle_def session_effect_def\<close>)
  qed (use assms loads_ok_moved [OF assms] in
      \<open>simp_all add: chat_handle_def load_part_quiet [unfolded load_part_def prod.inject] load_part_send [unfolded load_part_def prod.inject]\<close>)
  then show ?thesis unfolding chat_step_def prompt_effect_def
    by (auto simp: loads_ok_cong [OF load_part_send] loads_ok_cong [OF load_part_quiet(7)] split: option.split)
qed

text \<open>
  Property C8. A thread shows only its own messages: after any sequence of moves, reloads and replies, what
  is loaded is the thread of the address or nothing yet, and the answer of a load that was asked for another
  thread, or for this one before it was left, changes neither the messages nor the error shown.
\<close>

theorem late_loads_are_dropped:
  assumes "s = fold (chat_step available) es (open_session available route draft)"
    "nth_opt (cs_loads s) i = Some (n, t)" "t \<noteq> thread_of s \<or> n \<noteq> cs_session s"
  shows "cs_messages (chat_step available (j, LoadReply i a) s) = cs_messages s \<and> cs_error (chat_step available (j, LoadReply i a) s) = cs_error s
    \<and> cs_loaded s \<in> {[], thread_of s}"
proof -
  have "loads_ok (fold (chat_step available) es u)" if "loads_ok u" for u
    using that by (induction es arbitrary: u) (simp_all add: loads_ok_step)
  moreover have "loads_ok (open_session available route draft)" unfolding open_session_def by (intro loads_ok_begin) simp
  ultimately have ok: "loads_ok s" using assms(1) by blast
  moreover have "(n, t) \<in> set (cs_loads s)" using assms(2) by (auto simp: nth_opt_def split: if_splits) (metis nth_mem)
  ultimately have "n \<noteq> cs_session s" using assms(3) by (auto simp: loads_ok_def)
  then have "chat_handle available (LoadReply i a) s = s\<lparr>cs_loads := take i (cs_loads s) @ drop (Suc i) (cs_loads s)\<rparr>"
    using assms(2) by (simp add: chat_handle_def load_answered_def)
  then have "chat_step available (j, LoadReply i a) s = s\<lparr>cs_loads := take i (cs_loads s) @ drop (Suc i) (cs_loads s)\<rparr>"
    by (simp add: chat_step_def session_effect_def prompt_effect_def chat_ready_def thread_of_def)
  with ok show ?thesis by (auto simp: loads_ok_def)
qed

lemma late_loads_are_dropped_witness:
  "cs_messages (chat_step True ([], LoadReply 0 (LoadedThread [(''x'', True)])) (fold (chat_step True) [([], RouteChanged (Some ''b''))] (open_session True (Some ''a'') ''d''))) = []"
proof -
  let ?s = "fold (chat_step True) [([], RouteChanged (Some ''b''))] (open_session True (Some ''a'') ''d'')"
  have "cs_loads ?s = [(1, ''a''), (2, ''b'')]" "thread_of ?s = ''b''" "cs_messages ?s = []"
    by (simp_all add: chat_step_def chat_handle_def session_effect_def prompt_effect_def open_session_def begin_session_def Let_def clear_activity_def
        thread_of_def chat_ready_def)
  then show ?thesis using late_loads_are_dropped [OF refl, where available = True and es = "[([], RouteChanged (Some ''b''))]"
        and route = "Some ''a''" and draft = "''d''" and i = 0 and n = 1 and t = "''a''" and j = "[]"]
    by (simp add: nth_opt_def)
qed

end
