(* ===== verification/Settings_Page.thy ===== *)
theory Settings_Page
  imports Save_Dialog
begin

text \<open>
  The settings page (\<open>ui/host/src/settings.tsx\<close>): the collector block it writes for this instance, issuing and
  rotating the ingest token, and disconnecting an agent. \<open>url\<close> stands for \<open>new URL\<close>: the scheme with its
  colon, the host name and the port of an address, None when it throws.
\<close>

section \<open>The endpoint\<close>

definition lower_prefix :: "string \<Rightarrow> string \<Rightarrow> bool" where
  "lower_prefix p s \<longleftrightarrow> ascii_lower (take (length p) s) = p"

definition overTLS :: "string \<Rightarrow> bool \<Rightarrow> bool" where
  "overTLS endpoint tls \<longleftrightarrow> tls \<or> lower_prefix ''https://'' (js_trim endpoint) \<or> ends_with (js_trim endpoint) '':443''"

definition has_scheme :: "string \<Rightarrow> bool" where
  "has_scheme endpoint \<longleftrightarrow> lower_prefix ''http://'' (js_trim endpoint) \<or> lower_prefix ''https://'' (js_trim endpoint)"

text \<open>The exporter needs a port even with a scheme, which is kept for what it says of TLS.\<close>

definition with_port :: "(string \<Rightarrow> (string \<times> string \<times> string) option) \<Rightarrow> string \<Rightarrow> string" where
  "with_port url endpoint =
    (if has_scheme endpoint then (case url endpoint of
        Some (protocol, host, port) \<Rightarrow> protocol @ ''//'' @ host @ '':'' @ (if port \<noteq> [] then port else if protocol = ''https:'' then ''443'' else ''80'')
      | None \<Rightarrow> endpoint)
     else endpoint)"

definition newline :: string where "newline = [CHR 0x0A]"

definition lines :: "string list \<Rightarrow> string" where
  "lines ls = join newline ls"

definition in_quotes :: "string \<Rightarrow> string" where
  "in_quotes s = [CHR 0x22] @ s @ [CHR 0x22]"

definition collectorConfig :: "(string \<Rightarrow> (string \<times> string \<times> string) option) \<Rightarrow> string \<Rightarrow> string \<Rightarrow> bool \<Rightarrow> string" where
  "collectorConfig url endpoint header tls =
    (let e = with_port url endpoint in lines
      ([''exporters:'', ''  otlp/fanout:'', ''    endpoint: '' @ in_quotes e, ''    headers:'',
        ''      '' @ header @ '': '' @ in_quotes ''Bearer ${env:INGEST_TOKEN}'']
       @ (if overTLS e tls then [] else [''    tls:'', ''      insecure: true''])
       @ [[], ''service:'', ''  pipelines:'', ''    traces:'', ''      exporters: [otlp/fanout]'', ''    logs:'', ''      exporters: [otlp/fanout]'',
          ''    metrics:'', ''      exporters: [otlp/fanout]'']))"

text \<open>What the page shows: the override while it is not blank, else the suggestion of the server.\<close>

definition shown_endpoint :: "string option \<Rightarrow> string \<Rightarrow> string" where
  "shown_endpoint override suggested = (let t = js_trim (nullish override suggested) in if t \<noteq> [] then t else suggested)"

section \<open>The ingest token\<close>

record ingest_settings =
  ig_required :: bool
  ig_endpoint :: string
  ig_tls :: bool
  ig_header :: string

text \<open>The cached settings and the requests for them in flight, the dialog, the token shown and the rotation.\<close>

record token_page =
  tp_settings :: "ingest_settings option"
  tp_reads :: nat
  tp_confirming :: bool
  tp_issued :: "string option"
  tp_pending :: bool
  tp_error :: "string option"

datatype token_event =
    SettingsRequested | SettingsArrived "ingest_settings" | SettingsFailed
  | OpenRotate | CancelRotate | CloseRotate | ConfirmRotate | Rotated ingest_settings "string option" | RotateFailed string | DismissToken

definition open_page :: token_page where
  "open_page = \<lparr>tp_settings = None, tp_reads = 0, tp_confirming = False, tp_issued = None, tp_pending = False, tp_error = None\<rparr>"

text \<open>Reads in flight are cancelled before a rotation is sent, so that none of those can answer after it.\<close>

definition token_step :: "bool \<Rightarrow> token_event \<Rightarrow> token_page \<Rightarrow> token_page" where
  "token_step admin e s = (case e of
      SettingsRequested \<Rightarrow> s\<lparr>tp_reads := tp_reads s + 1\<rparr>
    | SettingsArrived d \<Rightarrow> if tp_reads s = 0 then s else s\<lparr>tp_reads := tp_reads s - 1, tp_settings := Some d\<rparr>
    | SettingsFailed \<Rightarrow> s\<lparr>tp_reads := tp_reads s - 1\<rparr>
    | OpenRotate \<Rightarrow> if tp_settings s \<noteq> None \<and> admin \<and> tp_issued s = None \<and> \<not> tp_pending s then s\<lparr>tp_confirming := True, tp_error := None\<rparr> else s
    | CancelRotate \<Rightarrow> if tp_confirming s \<and> \<not> tp_pending s then s\<lparr>tp_confirming := False, tp_error := None\<rparr> else s
    | CloseRotate \<Rightarrow> if tp_pending s then s else s\<lparr>tp_confirming := False\<rparr>
    | ConfirmRotate \<Rightarrow> if tp_confirming s \<and> \<not> tp_pending s then s\<lparr>tp_pending := True, tp_error := None, tp_reads := 0\<rparr> else s
    | Rotated d t \<Rightarrow> if tp_pending s then s\<lparr>tp_pending := False, tp_confirming := False, tp_issued := t, tp_settings := Some d\<rparr> else s
    | RotateFailed m \<Rightarrow> if tp_pending s then s\<lparr>tp_pending := False, tp_error := Some m\<rparr> else s
    | DismissToken \<Rightarrow> s\<lparr>tp_issued := None, tp_error := None\<rparr>)"

definition rotate_failure :: "nat option \<Rightarrow> string" where
  "rotate_failure status = (case status of
      None \<Rightarrow> ''Fanout could not be reached. A token may still have been issued '' @ [CHR 0xE2, CHR 0x80, CHR 0x94] @ '' reload this page before trying again.''
    | Some _ \<Rightarrow> ''Fanout could not issue a new token. Try again.'')"

definition token_text :: "bool \<Rightarrow> string" where
  "token_text required = (if required then ''This workspace has a token. Rotating issues a new one and stops the current one working immediately.''
     else ''This workspace has no token yet, so it is rejecting telemetry. Issue one to start accepting data.'')"

definition tokens_ok :: "token_page \<Rightarrow> bool" where
  "tokens_ok s \<longleftrightarrow> (tp_confirming s \<longrightarrow> tp_issued s = None) \<and> (tp_pending s \<longrightarrow> tp_confirming s)"

lemma tokens_ok_step: "tokens_ok s \<Longrightarrow> tokens_ok (token_step admin e s)"
  by (cases e) (auto simp: tokens_ok_def token_step_def)

lemma tokens_ok_run: "tokens_ok s \<Longrightarrow> tokens_ok (fold (token_step admin) es s)"
  by (induction es arbitrary: s) (simp_all add: tokens_ok_step)

lemma no_reads_step:
  assumes "tp_reads s = 0" "e \<noteq> SettingsRequested" shows "tp_reads (token_step admin e s) = 0"
  using assms by (cases e) (simp_all add: token_step_def)

lemma settings_hold_step:
  assumes "tp_reads s = 0" "\<not> tp_pending s" "e \<noteq> SettingsRequested" "e \<noteq> ConfirmRotate"
  shows "tp_settings (token_step admin e s) = tp_settings s" "\<not> tp_pending (token_step admin e s)"
  using assms by (cases e; simp add: token_step_def)+

text \<open>
  What the page says of the token after a rotation is what the rotation answered: a read of the
  settings that was in flight when the rotation was sent never answers over it, whatever else is clicked or
  arrives, so the page does not offer to issue the token it has just issued.
\<close>

theorem rotation_is_not_overwritten:
  assumes "tp_confirming s" "\<not> tp_pending s" "SettingsRequested \<notin> set es1 \<union> set es2" "ConfirmRotate \<notin> set es2"
    "s1 = fold (token_step admin) es1 (token_step admin ConfirmRotate s)" "tp_pending s1"
  shows "tp_settings (fold (token_step admin) es2 (token_step admin (Rotated d t) s1)) = Some d"
proof -
  have run: "tp_reads (fold (token_step admin) es u) = 0" if "tp_reads u = 0" "SettingsRequested \<notin> set es" for es u
    using that
  proof (induction es arbitrary: u)
    case (Cons e es)
    then have e: "e \<noteq> SettingsRequested" "SettingsRequested \<notin> set es" by auto
    from Cons.IH [OF no_reads_step [OF Cons.prems(1) e(1)] e(2)] show ?case by simp
  qed simp
  have "tp_reads (token_step admin ConfirmRotate s) = 0" using assms(1,2) by (simp add: token_step_def)
  from run [OF this, of es1] assms(3,5) have r: "tp_reads s1 = 0" by simp
  have hold: "tp_settings (fold (token_step admin) es u) = tp_settings u"
    if "tp_reads u = 0" "\<not> tp_pending u" "SettingsRequested \<notin> set es" "ConfirmRotate \<notin> set es" for es u
    using that
  proof (induction es arbitrary: u)
    case (Cons e es)
    then have e: "e \<noteq> SettingsRequested" "e \<noteq> ConfirmRotate" "SettingsRequested \<notin> set es" "ConfirmRotate \<notin> set es" by auto
    from Cons.IH [OF no_reads_step [OF Cons.prems(1) e(1)] settings_hold_step(2) [OF Cons.prems(1,2) e(1,2)] e(3,4)]
    show ?case by (simp add: settings_hold_step(1) [OF Cons.prems(1,2) e(1,2)])
  qed simp
  have "tp_reads (token_step admin (Rotated d t) s1) = 0" "\<not> tp_pending (token_step admin (Rotated d t) s1)"
    "tp_settings (token_step admin (Rotated d t) s1) = Some d"
    using assms(6) r by (simp_all add: token_step_def)
  with hold [of "token_step admin (Rotated d t) s1" es2] assms(3,4) show ?thesis by simp
qed

lemma rotation_is_not_overwritten_witness:
  "tp_settings (fold (token_step True) [SettingsArrived \<lparr>ig_required = False, ig_endpoint = [], ig_tls = False, ig_header = []\<rparr>]
     (token_step True (Rotated \<lparr>ig_required = True, ig_endpoint = [], ig_tls = False, ig_header = []\<rparr> (Some ''t''))
       (fold (token_step True) [] (token_step True ConfirmRotate (open_page\<lparr>tp_confirming := True, tp_reads := 1\<rparr>)))))
    = Some \<lparr>ig_required = True, ig_endpoint = [], ig_tls = False, ig_header = []\<rparr>"
  by (rule rotation_is_not_overwritten [OF _ _ _ _ refl]) (simp_all add: open_page_def token_step_def)

text \<open>A token that was issued is on the page until it is dismissed, and no other is issued meanwhile.\<close>

lemma issued_token_stays:
  assumes "tokens_ok s" "tp_issued s = Some t" "e \<noteq> DismissToken"
  shows "tp_issued (token_step admin e s) = Some t"
  using assms by (cases e) (auto simp: tokens_ok_def token_step_def)

section \<open>The endpoint of the block\<close>

lemma ends_with_append: "ends_with (a @ b) b"
  by (simp add: ends_with_def starts_with_def)

text \<open>An address with a scheme always gets a port in the block, and an https address without one the port of TLS.\<close>

lemma block_has_port:
  assumes "has_scheme endpoint" "url endpoint = Some (protocol, host, port)"
  shows "\<exists>p. p \<noteq> [] \<and> with_port url endpoint = protocol @ ''//'' @ host @ '':'' @ p \<and> (port \<noteq> [] \<longrightarrow> p = port)"
  using assms by (simp add: with_port_def)

section \<open>Connected agents\<close>

record agents_page =
  ag_connections :: "(string \<times> string) list option"
  ag_selected :: "(string \<times> string) option"
  ag_disconnecting :: bool
  ag_failed :: bool
  ag_said :: string

text \<open>An agent is its client id and its name.\<close>

definition select_agent :: "string \<times> string \<Rightarrow> agents_page \<Rightarrow> agents_page" where
  "select_agent a s = (if ag_disconnecting s then s else s\<lparr>ag_failed := False, ag_selected := Some a\<rparr>)"

definition cancel_agent :: "agents_page \<Rightarrow> agents_page" where
  "cancel_agent s = (if ag_disconnecting s then s else s\<lparr>ag_failed := False, ag_selected := None\<rparr>)"

definition confirm_agent :: "agents_page \<Rightarrow> agents_page \<times> string option" where
  "confirm_agent s = (case ag_selected s of
      Some a \<Rightarrow> if ag_disconnecting s then (s, None) else (s\<lparr>ag_disconnecting := True, ag_failed := False, ag_said := []\<rparr>, Some (fst a))
    | None \<Rightarrow> (s, None))"

definition agent_disconnected :: "bool \<Rightarrow> string \<times> string \<Rightarrow> agents_page \<Rightarrow> agents_page" where
  "agent_disconnected worked a s = (if \<not> worked then s\<lparr>ag_disconnecting := False, ag_failed := True\<rparr>
     else s\<lparr>ag_disconnecting := False, ag_selected := None, ag_connections := map_option (filter (\<lambda>c. fst c \<noteq> fst a)) (ag_connections s),
       ag_said := snd a @ '' disconnected.''\<rparr>)"

lemma disconnect_removes_only_it:
  assumes "ag_connections s = Some cs"
  shows "\<exists>cs'. ag_connections (agent_disconnected True a s) = Some cs' \<and> set cs' = {c \<in> set cs. fst c \<noteq> fst a}"
  using assms by (auto simp: agent_disconnected_def)

end
