(* ===== verification/Panel_Grid.thy ===== *)
theory Panel_Grid
  imports Panel_Fragment Save_Dialog
begin

text \<open>
  The grid of a dashboard (\<open>ui/host/src/dashboards/grid.tsx\<close>): ids of duplicated panels, the draft of the
  layout, what Save, Remove and Duplicate send, who may edit at which width and the panels reported visible.
  The clock and \<open>Math.random\<close> are functions of the attempt.
\<close>

section \<open>Ids of new panels (newPanelId)\<close>

definition digit36 :: "nat \<Rightarrow> char" where
  "digit36 d = (if d < 10 then char_of (48 + d) else char_of (87 + d))"

fun show36 :: "nat \<Rightarrow> string" where
  "show36 n = (if n < 36 then [digit36 n] else show36 (n div 36) @ [digit36 (n mod 36)])"

declare show36.simps [simp del]

definition panel_id_text :: "nat \<Rightarrow> nat \<Rightarrow> string \<Rightarrow> string" where
  "panel_id_text t c r = ''p_'' @ show36 t @ ''_'' @ show36 c @ ''_'' @ r"

text \<open>
  One round per attempt: \<open>clock i\<close> and \<open>rand i\<close> are what the clock and the random digits read then, \<open>c\<close> is
  the counter of the module. The fuel is one more than there are panels, which is enough.
\<close>

fun try_ids :: "nat \<Rightarrow> (nat \<Rightarrow> nat) \<Rightarrow> (nat \<Rightarrow> string) \<Rightarrow> string list \<Rightarrow> nat \<Rightarrow> (string \<times> nat) option" where
  "try_ids 0 clock rand taken c = None"
| "try_ids (Suc n) clock rand taken c =
    (let i = panel_id_text (clock c) (Suc c) (rand c) in if i \<in> set taken then try_ids n clock rand taken (Suc c) else Some (i, Suc c))"

definition newPanelId :: "(nat \<Rightarrow> nat) \<Rightarrow> (nat \<Rightarrow> string) \<Rightarrow> string list \<Rightarrow> nat \<Rightarrow> (string \<times> nat) option" where
  "newPanelId clock rand taken c = try_ids (Suc (length taken)) clock rand taken c"

lemma digit36_value: "d < 36 \<Longrightarrow> of_char (digit36 d) = (if d < 10 then 48 + d else 87 + d)"
  by (simp add: digit36_def)

lemma digit36_inject:
  assumes "a < 36" "b < 36" "digit36 a = digit36 b" shows "a = b"
proof -
  have "(if a < 10 then 48 + a else 87 + a) = (if b < 10 then 48 + b else 87 + b)"
    using arg_cong [OF assms(3), of "of_char :: char \<Rightarrow> nat"] assms(1,2) by (simp add: digit36_value)
  then show ?thesis by (simp split: if_splits)
qed

lemma show36_inject: "show36 a = show36 b \<Longrightarrow> a = b"
proof (induction a arbitrary: b rule: show36.induct)
  case (1 a)
  have ne: "show36 n \<noteq> []" for n by (subst show36.simps) simp
  show ?case
  proof (cases "a < 36 \<or> b < 36")
    case True
    with 1(2) ne [of "a div 36"] ne [of "b div 36"] show ?thesis
      by (auto simp: show36.simps [of a] show36.simps [of b] digit36_inject split: if_splits)
  next
    case False
    with 1(2) have "show36 (a div 36) = show36 (b div 36)" "digit36 (a mod 36) = digit36 (b mod 36)"
      by (simp_all add: show36.simps [of a] show36.simps [of b])
    with 1(1) [of "b div 36"] False digit36_inject [of "a mod 36" "b mod 36"] show ?thesis
      by (metis div_mult_mod_eq mod_less_divisor zero_less_numeral)
  qed
qed

lemma show36_plain: "CHR ''_'' \<notin> set (show36 n)"
proof (induction n rule: show36.induct)
  case (1 n)
  have "CHR ''_'' \<noteq> digit36 d" if "d < 36" for d
  proof
    assume "CHR ''_'' = digit36 d"
    from arg_cong [OF this, of "of_char :: char \<Rightarrow> nat"] digit36_value [OF that] show False by (simp split: if_splits)
  qed
  with 1 show ?case by (subst show36.simps) auto
qed

lemma split_unique:
  assumes "x \<notin> set a" "x \<notin> set b" "a @ x # s = b @ x # t" shows "a = b \<and> s = t"
  using assms by (induction a arbitrary: b) (auto simp: Cons_eq_append_conv append_eq_Cons_conv)

lemma panel_id_counter:
  assumes "panel_id_text t c r = panel_id_text t' c' r'" shows "c = c'"
proof -
  from assms have "show36 t @ CHR ''_'' # show36 c @ ''_'' @ r = show36 t' @ CHR ''_'' # show36 c' @ ''_'' @ r'"
    by (simp add: panel_id_text_def)
  then have "show36 c @ CHR ''_'' # r = show36 c' @ CHR ''_'' # r'"
    using split_unique [OF show36_plain show36_plain] by fastforce
  then have "show36 c = show36 c'" using split_unique [OF show36_plain show36_plain] by blast
  then show ?thesis by (rule show36_inject)
qed

lemma try_ids_found:
  assumes "card (set taken - (\<lambda>i. panel_id_text (clock i) (Suc i) (rand i)) ` {..<c}) < n"
  shows "\<exists>i d. try_ids n clock rand taken c = Some (i, d) \<and> i \<notin> set taken \<and> c < d"
  using assms
proof (induction n arbitrary: c)
  case (Suc n)
  let ?f = "\<lambda>i. panel_id_text (clock i) (Suc i) (rand i)"
  show ?case
  proof (cases "?f c \<in> set taken")
    case True
    have "?f c \<notin> ?f ` {..<c}" using panel_id_counter by fastforce
    with True have "?f c \<in> set taken - ?f ` {..<c}" by blast
    then have "set taken - ?f ` {..<Suc c} \<subset> set taken - ?f ` {..<c}" by (auto simp: lessThan_Suc)
    then have "card (set taken - ?f ` {..<Suc c}) < card (set taken - ?f ` {..<c})" by (intro psubset_card_mono) simp_all
    with Suc.prems have "card (set taken - ?f ` {..<Suc c}) < n" by simp
    from Suc.IH [OF this] True show ?thesis by (auto simp: Let_def)
  qed (simp add: Let_def)
qed simp

text \<open>
  Whatever the clock reads and whatever digits are drawn, the search for an id of a duplicated
  panel ends, after at most one attempt more than there are panels, with an id no panel has.
\<close>

theorem duplicates_get_a_fresh_id:
  "\<exists>i d. newPanelId clock rand taken c = Some (i, d) \<and> i \<notin> set taken \<and> c < d"
proof -
  have "card (set taken - (\<lambda>i. panel_id_text (clock i) (Suc i) (rand i)) ` {..<c}) \<le> length taken"
    using card_mono [of "set taken" "set taken - (\<lambda>i. panel_id_text (clock i) (Suc i) (rand i)) ` {..<c}"] card_length [of taken]
    by (meson Diff_subset List.finite_set le_trans)
  then show ?thesis unfolding newPanelId_def by (intro try_ids_found) simp
qed

section \<open>The draft of the layout\<close>

record grid_item =
  gi_id :: string
  gi_x :: nat
  gi_y :: nat
  gi_w :: nat
  gi_h :: nat

definition grid_item_of :: "host_panel \<Rightarrow> grid_item" where
  "grid_item_of p = (case p_grid p of
      Some (x, y, w, h) \<Rightarrow> \<lparr>gi_id = p_id p, gi_x = x, gi_y = y, gi_w = w, gi_h = h\<rparr>
    | None \<Rightarrow> \<lparr>gi_id = p_id p, gi_x = 0, gi_y = 0, gi_w = 6, gi_h = defaultRows p\<rparr>)"

definition spec_layout :: "host_panel list \<Rightarrow> grid_item list" where
  "spec_layout panels = map grid_item_of panels"

definition item_at :: "grid_item list \<Rightarrow> string \<Rightarrow> grid_item option" where
  "item_at layout i = find (\<lambda>l. gi_id l = i) layout"

definition item_place :: "grid_item \<Rightarrow> nat \<times> nat \<times> nat \<times> nat" where
  "item_place g = (gi_x g, gi_y g, gi_w g, gi_h g)"

text \<open>A panel without a place of its own differs from any place in the layout.\<close>

definition layout_dirty :: "grid_item list \<Rightarrow> host_panel list \<Rightarrow> bool" where
  "layout_dirty layout panels \<longleftrightarrow> list_ex (\<lambda>p. case item_at layout (p_id p) of
      Some g \<Rightarrow> Some (item_place g) \<noteq> p_grid p | None \<Rightarrow> False) panels"

definition place_panel :: "grid_item list \<Rightarrow> host_panel \<Rightarrow> host_panel" where
  "place_panel layout p = (case item_at layout (p_id p) of Some g \<Rightarrow> p\<lparr>p_grid := Some (item_place g)\<rparr> | None \<Rightarrow> p)"

definition withLayout :: "grid_item list \<Rightarrow> host_panel list \<Rightarrow> host_panel list" where
  "withLayout layout panels = map (place_panel layout) panels"

definition grid_breakpoint :: "nat \<Rightarrow> string" where
  "grid_breakpoint width = (if width \<ge> 1100 then ''lg'' else if width \<ge> 800 then ''md'' else ''sm'')"

definition grid_editable :: "bool \<Rightarrow> nat \<Rightarrow> bool" where
  "grid_editable editing width \<longleftrightarrow> editing \<and> grid_breakpoint width = ''lg''"

text \<open>Only the end of a drag or a resize by an editor changes the draft.\<close>

definition changeLayout :: "bool \<Rightarrow> grid_item list \<Rightarrow> grid_item list \<Rightarrow> grid_item list" where
  "changeLayout editable next' layout = (if editable then next' else layout)"

text \<open>The layout shown on a narrow screen is one column.\<close>

definition narrow_layout :: "grid_item list \<Rightarrow> grid_item list" where
  "narrow_layout layout = map (\<lambda>l. l\<lparr>gi_x := 0, gi_w := 12\<rparr>) layout"

section \<open>What the grid sends\<close>

datatype grid_request =
    GridReplace "host_panel list" nat string
  | GridRemove string nat string
  | GridAdd string host_panel nat string

definition save_layout :: "grid_item list \<Rightarrow> host_panel list \<Rightarrow> nat \<Rightarrow> grid_request" where
  "save_layout layout panels version = GridReplace (withLayout layout panels) version ''Edited layout''"

definition remove_panel :: "grid_item list \<Rightarrow> host_panel list \<Rightarrow> nat \<Rightarrow> string \<Rightarrow> grid_request" where
  "remove_panel layout panels version i =
    (if layout_dirty layout panels
     then GridReplace (withLayout layout (filter (\<lambda>p. p_id p \<noteq> i) panels)) version ''Removed a panel and saved layout''
     else GridRemove i version ''Removed a panel'')"

definition copy_title :: "string \<Rightarrow> string" where
  "copy_title t = concat (take 73 (code_points t)) @ '' (copy)''"

definition panel_copy :: "string \<Rightarrow> host_panel \<Rightarrow> host_panel" where
  "panel_copy i p = p\<lparr>p_id := i, p_title := copy_title (p_title p), p_grid := None\<rparr>"

definition index_of :: "string \<Rightarrow> host_panel list \<Rightarrow> nat option" where
  "index_of i panels = (if list_ex (\<lambda>p. p_id p = i) panels then Some (length (takeWhile (\<lambda>p. p_id p \<noteq> i) panels)) else None)"

text \<open>\<open>splice(findIndex + 1, 0, copy)\<close>: after the panel, or first when it is not there.\<close>

definition insert_after :: "string \<Rightarrow> host_panel \<Rightarrow> host_panel list \<Rightarrow> host_panel list" where
  "insert_after i c panels = (let k = (case index_of i panels of Some n \<Rightarrow> n + 1 | None \<Rightarrow> 0) in take k panels @ c # drop k panels)"

definition duplicate_panel :: "grid_item list \<Rightarrow> host_panel list \<Rightarrow> nat \<Rightarrow> string \<Rightarrow> host_panel \<Rightarrow> grid_request" where
  "duplicate_panel layout panels version i p =
    (if layout_dirty layout panels
     then GridReplace (withLayout layout (insert_after (p_id p) (panel_copy i p) panels)) version ''Duplicated a panel and saved layout''
     else GridAdd (p_id p) (panel_copy i p) version ''Duplicated a panel'')"

lemma place_panel_id [simp]: "p_id (place_panel layout p) = p_id p"
  by (simp add: place_panel_def split: option.split)

lemma withLayout_clean:
  assumes "\<not> layout_dirty layout panels" shows "withLayout layout panels = panels"
proof -
  have "place_panel layout p = p" if "p \<in> set panels" for p
    using assms that by (cases "item_at layout (p_id p)") (auto simp: layout_dirty_def list_ex_iff place_panel_def)
  then show ?thesis by (simp add: withLayout_def map_idI)
qed

lemma withLayout_is_clean: "\<not> layout_dirty layout (withLayout layout panels)"
  by (auto simp: layout_dirty_def list_ex_iff withLayout_def place_panel_def split: option.splits)

text \<open>
  Saving a layout writes exactly the draft: it changes nothing of a panel but its place, what it
  writes is no longer dirty, a second save would write the same, and when nothing was moved the dashboard
  is as it was.
\<close>

theorem saved_layout_is_the_draft:
  "map (\<lambda>p. p\<lparr>p_grid := None\<rparr>) (withLayout layout panels) = map (\<lambda>p. p\<lparr>p_grid := None\<rparr>) panels
    \<and> \<not> layout_dirty layout (withLayout layout panels)
    \<and> withLayout layout (withLayout layout panels) = withLayout layout panels
    \<and> (layout_dirty layout panels \<or> withLayout layout panels = panels)"
proof -
  have "map (\<lambda>p. p\<lparr>p_grid := None\<rparr>) (withLayout layout panels) = map (\<lambda>p. p\<lparr>p_grid := None\<rparr>) panels"
    by (simp add: withLayout_def place_panel_def split: option.split)
  then show ?thesis using withLayout_is_clean withLayout_clean by blast
qed

lemma insert_after_parts:
  assumes "p \<in> set panels"
  shows "\<exists>xs q ys. panels = xs @ q # ys \<and> p_id q = p_id p \<and> insert_after (p_id p) c panels = xs @ q # c # ys"
proof -
  let ?xs = "takeWhile (\<lambda>q. p_id q \<noteq> p_id p) panels"
  have ne: "dropWhile (\<lambda>q. p_id q \<noteq> p_id p) panels \<noteq> []" using assms by (auto simp: dropWhile_eq_Nil_conv)
  then obtain q ys where d: "dropWhile (\<lambda>q. p_id q \<noteq> p_id p) panels = q # ys" by (cases "dropWhile (\<lambda>q. p_id q \<noteq> p_id p) panels") auto
  then have q: "p_id q = p_id p" using hd_dropWhile [OF ne] by simp
  have e: "panels = ?xs @ q # ys" using d by (metis takeWhile_dropWhile_id)
  have "index_of (p_id p) panels = Some (length ?xs)" using assms by (auto simp: index_of_def list_ex_iff)
  then have "insert_after (p_id p) c panels = take (length ?xs + 1) panels @ c # drop (length ?xs + 1) panels"
    by (simp add: insert_after_def)
  also have "\<dots> = ?xs @ q # c # ys"
    by (subst (2 4) e) simp
  finally show ?thesis using e q by blast
qed

text \<open>
  Duplicating a panel of a moved layout sends every panel at its place in the draft, in the
  order they were, with the copy right after its original and without a place of its own.
\<close>

theorem duplicate_adds_only_the_copy:
  assumes "p \<in> set panels" "layout_dirty layout panels" "i \<notin> p_id ` set panels" "item_at layout i = None"
  shows "\<exists>xs q ys. withLayout layout panels = xs @ q # ys \<and> p_id q = p_id p
    \<and> duplicate_panel layout panels version i p = GridReplace (xs @ q # panel_copy i p # ys) version ''Duplicated a panel and saved layout''
    \<and> i \<notin> p_id ` set (xs @ q # ys)"
proof -
  from insert_after_parts [OF assms(1), of "panel_copy i p"] obtain xs q ys where
    s: "panels = xs @ q # ys" "p_id q = p_id p" "insert_after (p_id p) (panel_copy i p) panels = xs @ q # panel_copy i p # ys" by blast
  have "place_panel layout (panel_copy i p) = panel_copy i p"
    using assms(4) by (simp add: place_panel_def panel_copy_def)
  with s assms(2) have "duplicate_panel layout panels version i p
      = GridReplace (withLayout layout xs @ place_panel layout q # panel_copy i p # withLayout layout ys) version ''Duplicated a panel and saved layout''"
    unfolding duplicate_panel_def s(3) by (simp add: withLayout_def)
  with s assms(3) show ?thesis
    by (intro exI [of _ "place_panel layout q"] exI [of _ "withLayout layout ys"] exI) (auto simp: withLayout_def)
qed

section \<open>What is visible, and what went wrong\<close>

text \<open>All panels count as seen until the observer says otherwise; a panel viewed in full is always seen.\<close>

definition see_step :: "string \<times> bool \<Rightarrow> string list \<Rightarrow> string list" where
  "see_step e seen = (if fst e = [] then seen else if snd e then (if fst e \<in> set seen then seen else seen @ [fst e]) else filter (\<lambda>i. i \<noteq> fst e) seen)"

definition report_visible :: "string list \<Rightarrow> string option \<Rightarrow> (string \<times> bool) list \<Rightarrow> string list \<Rightarrow> string list" where
  "report_visible ids view entries seen =
    (let s = fold see_step entries seen in case non_empty view of
        Some v \<Rightarrow> if v \<in> set ids \<and> v \<notin> set s then s @ [v] else s
      | None \<Rightarrow> s)"

lemma see_step_distinct: "distinct seen \<Longrightarrow> distinct (see_step e seen)"
  by (simp add: see_step_def)

lemma viewed_panel_is_visible:
  assumes "view = Some v" "v \<noteq> []" "v \<in> set ids"
  shows "v \<in> set (report_visible ids view entries seen)"
  using assms by (simp add: report_visible_def Let_def non_empty_def)

definition grid_error :: "bool \<Rightarrow> save_failure option \<Rightarrow> save_failure option \<Rightarrow> save_failure option \<Rightarrow> save_failure option" where
  "grid_error editing se re de =
    (if editing then (case se of Some e \<Rightarrow> Some e | None \<Rightarrow> (case re of Some e \<Rightarrow> Some e | None \<Rightarrow> de)) else None)"

definition grid_conflict :: "save_failure option \<Rightarrow> bool" where
  "grid_conflict e = (e = Some VersionConflict)"

end
