(* ===== verification/Eval_Stream.thy ===== *)
theory Eval_Stream
  imports Eval_Score Series_Groups
begin

text \<open>
  How an evaluation reads the agent's answer (\<open>scripts/dashboard-eval/transport.ts\<close>): the event stream, the
  save and the writes it shows, and the check of a saved dashboard. \<open>jp\<close> reads JSON, \<open>st\<close> is the text
  \<open>stable\<close> gives a value, \<open>sv\<close> is \<open>String\<close> of a value, \<open>ou\<close> says whether the listener took a usage after the
  earlier ones or threw. Times are left out.
\<close>

section \<open>Lines of the stream\<close>

definition cr :: char where "cr = CHR 0x0D"

definition lf :: char where "lf = CHR 0x0A"

definition line_text :: "string \<Rightarrow> string" where
  "line_text s = takeWhile (\<lambda>c. c \<noteq> cr \<and> c \<noteq> lf) s"

definition after_line :: "string \<Rightarrow> string" where
  "after_line s = dropWhile (\<lambda>c. c \<noteq> cr \<and> c \<noteq> lf) s"

text \<open>A carriage return at the end of what was read may be half of a line end, until the stream is over.\<close>

definition next_line :: "bool \<Rightarrow> string \<Rightarrow> (string \<times> string) option" where
  "next_line eof s = (case after_line s of
      [] \<Rightarrow> None
    | c # t \<Rightarrow> if c = cr \<and> t = [] \<and> \<not> eof then None
        else Some (line_text s, if c = cr then (case t of d # u \<Rightarrow> if d = lf then u else t | [] \<Rightarrow> []) else t))"

lemma after_line_length: "length (after_line s) \<le> length s"
  by (simp add: after_line_def length_dropWhile_le)

lemma next_line_length: "next_line eof s = Some (l, r) \<Longrightarrow> length r < length s"
  using after_line_length [of s] by (auto simp: next_line_def split: list.splits if_splits)

function drain_lines :: "bool \<Rightarrow> string \<Rightarrow> string list \<times> string" where
  "drain_lines eof s = (case next_line eof s of
      None \<Rightarrow> ([], s) | Some (l, r) \<Rightarrow> (l # fst (drain_lines eof r), snd (drain_lines eof r)))"
  by pat_completeness auto

termination drain_lines
  by (relation "measure (length \<circ> snd)") (auto dest: next_line_length)

declare drain_lines.simps [simp del]

lemma next_line_append:
  assumes "next_line False a = Some (l, r)" shows "next_line eof (a @ b) = Some (l, r @ b)"
proof -
  from assms obtain c t where t: "after_line a = c # t" by (cases "after_line a") (auto simp: next_line_def)
  then have "\<exists>x \<in> set a. \<not> (x \<noteq> cr \<and> x \<noteq> lf)"
  proof (rule contrapos_pp)
    assume "\<not> (\<exists>x \<in> set a. \<not> (x \<noteq> cr \<and> x \<noteq> lf))"
    then have "after_line a = []" unfolding after_line_def dropWhile_eq_Nil_conv by blast
    then show "after_line a \<noteq> c # t" by simp
  qed
  then obtain x where x: "x \<in> set a" "\<not> (x \<noteq> cr \<and> x \<noteq> lf)" by blast
  have "after_line (a @ b) = c # t @ b"
    using t unfolding after_line_def dropWhile_append1 [of x a "\<lambda>x. x \<noteq> cr \<and> x \<noteq> lf", OF x] by simp
  moreover have "line_text (a @ b) = line_text a"
    unfolding line_text_def by (rule takeWhile_append1 [of x a "\<lambda>x. x \<noteq> cr \<and> x \<noteq> lf", OF x])
  ultimately have e: "after_line (a @ b) = c # t @ b" "line_text (a @ b) = line_text a" by blast+
  show ?thesis
  proof (cases t)
    case Nil
    with assms t e show ?thesis by (simp add: next_line_def split: if_splits)
  next
    case (Cons d u)
    with assms t e show ?thesis by (auto simp: next_line_def split: if_splits)
  qed
qed

text \<open>What was read in two parts gives the lines of the whole.\<close>

lemma drain_lines_append:
  "drain_lines eof (a @ b) = (fst (drain_lines False a) @ fst (drain_lines eof (snd (drain_lines False a) @ b)),
     snd (drain_lines eof (snd (drain_lines False a) @ b)))"
proof (induction False a rule: drain_lines.induct)
  case (1 a)
  show ?case
  proof (cases "next_line False a")
    case None
    then show ?thesis by (simp add: drain_lines.simps [of False a])
  next
    case (Some lr)
    obtain l r where lr: "lr = (l, r)" by (cases lr)
    with Some have n: "next_line eof (a @ b) = Some (l, r @ b)" by (simp add: next_line_append)
    have "drain_lines False a = (l # fst (drain_lines False r), snd (drain_lines False r))"
      using Some lr by (simp add: drain_lines.simps [of False a])
    moreover have "drain_lines eof (a @ b) = (l # fst (drain_lines eof (r @ b)), snd (drain_lines eof (r @ b)))"
      using n by (simp add: drain_lines.simps [of eof "a @ b"])
    ultimately show ?thesis using 1 [OF Some lr [symmetric]] by simp
  qed
qed

section \<open>The state of a stream\<close>

text \<open>The result of a tool call is null until one came; a result that is undefined is None.\<close>

record sse_tool =
  sl_id :: string
  sl_name :: string
  sl_args :: string
  sl_result :: "json option"
  sl_error :: "bool option"
  sl_ended :: bool
  sl_code :: "string option"
  sl_message :: "string option"

record sse_state =
  ss_tools :: "sse_tool list"
  ss_terminal :: "string option"
  ss_incomplete :: bool
  ss_truncated :: bool
  ss_code :: "string option"
  ss_usage :: "json option list"
  ss_final :: string
  ss_config :: "json option"
  ss_said :: "(string, json \<times> string) omap"

definition empty_sse :: sse_state where
  "empty_sse = \<lparr>ss_tools = [], ss_terminal = None, ss_incomplete = False, ss_truncated = False, ss_code = None, ss_usage = [], ss_final = [],
     ss_config = None, ss_said = []\<rparr>"

definition sse_fail :: "string \<Rightarrow> sse_state \<Rightarrow> sse_state" where
  "sse_fail code s = s\<lparr>ss_incomplete := True, ss_code := Some (nullish (ss_code s) code)\<rparr>"

definition sse_decode :: "(string \<Rightarrow> json option) \<Rightarrow> json option \<Rightarrow> json option" where
  "sse_decode jp v = (case v of Some (JStr t) \<Rightarrow> Some (nullish (jp t) JNull) | _ \<Rightarrow> v)"

definition fresh_tool :: "string \<Rightarrow> sse_tool" where
  "fresh_tool i = \<lparr>sl_id = i, sl_name = [], sl_args = [], sl_result = Some JNull, sl_error = None, sl_ended = False, sl_code = None, sl_message = None\<rparr>"

text \<open>The call of an id, made when it is new; an id that is no text throws.\<close>

definition with_tool :: "json \<Rightarrow> sse_state \<Rightarrow> (string \<times> sse_state) option" where
  "with_tool e s = (case jstr ''toolCallId'' e of
      Some i \<Rightarrow> if i = [] then None
        else Some (i, if i \<in> sl_id ` set (ss_tools s) then s else s\<lparr>ss_tools := ss_tools s @ [fresh_tool i]\<rparr>)
    | None \<Rightarrow> None)"

definition tool_of :: "string \<Rightarrow> sse_state \<Rightarrow> sse_tool" where
  "tool_of i s = nullish (find (\<lambda>t. sl_id t = i) (ss_tools s)) (fresh_tool i)"

definition change_tool :: "string \<Rightarrow> (sse_tool \<Rightarrow> sse_tool) \<Rightarrow> sse_state \<Rightarrow> sse_state" where
  "change_tool i f s = s\<lparr>ss_tools := map (\<lambda>t. if sl_id t = i then f t else t) (ss_tools s)\<rparr>"

definition take_result :: "json option \<Rightarrow> sse_tool \<Rightarrow> sse_tool" where
  "take_result v t = t\<lparr>sl_result := v,
     sl_error := (if truthy (Option.bind v (jget ''error'')) \<or> truthy (Option.bind v (jget ''isError'')) then Some True else sl_error t),
     sl_code := (case Option.bind (Option.bind v (jget ''error'')) (jstr ''code'') of Some c \<Rightarrow> Some c | None \<Rightarrow> sl_code t),
     sl_message := (case Option.bind (Option.bind v (jget ''error'')) (jstr ''message'') of Some m \<Rightarrow> Some m | None \<Rightarrow> sl_message t)\<rparr>"

text \<open>An embedded view says whether its call failed, when exactly one call has its name and input.\<close>

definition note_view :: "(string \<Rightarrow> json option) \<Rightarrow> (json option \<Rightarrow> string option) \<Rightarrow> json option \<Rightarrow> sse_state \<Rightarrow> sse_state" where
  "note_view jp st c s =
    (let hit = (\<lambda>t. Some (JStr (sl_name t)) = Option.bind c (jget ''tool_name'')
           \<and> st (sse_decode jp (Some (JStr (sl_args t)))) = st (Option.bind c (jget ''tool_input'')))
     in case (filter hit (ss_tools s), Option.bind (Option.bind c (jget ''is_error'')) as_bool) of
          ([t], Some b) \<Rightarrow> change_tool (sl_id t) (\<lambda>t. t\<lparr>sl_error := Some (sl_error t = Some True \<or> b)\<rparr>) s
        | _ \<Rightarrow> s)"

text \<open>Each event: whether it was taken, and the state, which keeps what was done before it threw.\<close>

definition text_start_event :: "json \<Rightarrow> sse_state \<Rightarrow> bool \<times> sse_state" where
  "text_start_event e s = (case jstr ''messageId'' e of
      Some i \<Rightarrow> if map_has (ss_said s) i then (False, s)
        else (let r = nullish (jget ''role'' e) JNull; role = (if r = JNull then JStr ''assistant'' else r)
          in (True, s\<lparr>ss_said := ss_said s @ [(i, role, [])]\<rparr>))
    | None \<Rightarrow> (False, s))"

definition text_content_event :: "json \<Rightarrow> sse_state \<Rightarrow> bool \<times> sse_state" where
  "text_content_event e s = (case jstr ''messageId'' e of
      Some i \<Rightarrow> (case (map_of (ss_said s) i, jstr ''delta'' e) of
          (Some (r, t), Some d) \<Rightarrow> (True, s\<lparr>ss_said := AList.update i (r, t @ d) (ss_said s)\<rparr>)
        | _ \<Rightarrow> (False, s))
    | None \<Rightarrow> (False, s))"

definition tool_start_event :: "json \<Rightarrow> sse_state \<Rightarrow> bool \<times> sse_state" where
  "tool_start_event e s = (case with_tool e s of
      Some (i, s1) \<Rightarrow> if sl_name (tool_of i s1) \<noteq> [] then (False, s1)
        else (case non_empty (jstr ''toolCallName'' e) of
            Some n \<Rightarrow> (True, change_tool i (\<lambda>t. t\<lparr>sl_name := n\<rparr>) s1) | None \<Rightarrow> (False, s1))
    | None \<Rightarrow> (False, s))"

definition tool_args_event :: "(json \<Rightarrow> string) \<Rightarrow> json \<Rightarrow> sse_state \<Rightarrow> bool \<times> sse_state" where
  "tool_args_event sv e s = (case with_tool e s of
      Some (i, s1) \<Rightarrow> (let d = nullish (jget ''delta'' e) JNull; piece = (if d = JNull then [] else sv d)
        in (True, change_tool i (\<lambda>t. t\<lparr>sl_args := sl_args t @ piece\<rparr>) s1))
    | None \<Rightarrow> (False, s))"

definition tool_end_event :: "json \<Rightarrow> sse_state \<Rightarrow> bool \<times> sse_state" where
  "tool_end_event e s = (case with_tool e s of
      Some (i, s1) \<Rightarrow> (True, change_tool i (\<lambda>t. t\<lparr>sl_ended := True\<rparr>) s1) | None \<Rightarrow> (False, s))"

definition tool_result_event :: "(string \<Rightarrow> json option) \<Rightarrow> json \<Rightarrow> sse_state \<Rightarrow> bool \<times> sse_state" where
  "tool_result_event jp e s = (case with_tool e s of
      Some (i, s1) \<Rightarrow> if sl_result (tool_of i s1) \<noteq> Some JNull then (False, s1)
        else (True, change_tool i (take_result (sse_decode jp (jget ''content'' e))) s1)
    | None \<Rightarrow> (False, s))"

text \<open>The usage of a model call that was cut short marks the stream truncated.\<close>

definition custom_event :: "(json option list \<Rightarrow> json option \<Rightarrow> bool) \<Rightarrow> json \<Rightarrow> sse_state \<Rightarrow> bool \<times> sse_state" where
  "custom_event ou e s =
    (let s1 = (if jget ''name'' e = Some (JStr ''model_configuration'') then s\<lparr>ss_config := jget ''value'' e\<rparr> else s)
     in if jget ''name'' e = Some (JStr ''model_call_usage'') then
          (let s2 = s1\<lparr>ss_usage := ss_usage s1 @ [jget ''value'' e]\<rparr>; v = nullish (jget ''value'' e) JNull in
           if \<not> ou (ss_usage s1) (jget ''value'' e) \<or> v = JNull then (False, s2)
           else (True, if jget ''status'' v = Some (JStr ''incomplete'') then sse_fail ''truncated'' (s2\<lparr>ss_truncated := True\<rparr>) else s2))
        else (True, s1))"

definition sse_event :: "(json option list \<Rightarrow> json option \<Rightarrow> bool) \<Rightarrow> (string \<Rightarrow> json option) \<Rightarrow> (json option \<Rightarrow> string option) \<Rightarrow> (json \<Rightarrow> string) \<Rightarrow> string \<Rightarrow> json \<Rightarrow> sse_state
    \<Rightarrow> bool \<times> sse_state" where
  "sse_event ou jp st sv kind e s =
    (if ss_terminal s \<noteq> None then (False, s)
     else if kind = ''TEXT_MESSAGE_START'' then text_start_event e s
     else if kind = ''TEXT_MESSAGE_CONTENT'' then text_content_event e s
     else if kind = ''TOOL_CALL_START'' then tool_start_event e s
     else if kind = ''TOOL_CALL_ARGS'' then tool_args_event sv e s
     else if kind = ''TOOL_CALL_END'' then tool_end_event e s
     else if kind = ''TOOL_CALL_RESULT'' then tool_result_event jp e s
     else if kind = ''ACTIVITY_SNAPSHOT'' then
       (True, if jget ''activityType'' e = Some (JStr ''mcp-app'') then note_view jp st (jget ''content'' e) s else s)
     else if kind = ''CUSTOM'' then custom_event ou e s
     else if kind = ''RUN_FINISHED'' then (True, s\<lparr>ss_terminal := Some ''RUN_FINISHED''\<rparr>)
     else if kind = ''RUN_ERROR'' then (True, sse_fail ''run_error'' (s\<lparr>ss_terminal := Some ''RUN_ERROR''\<rparr>))
     else (True, s))"

section \<open>Frames and the whole stream\<close>

text \<open>The lines of a frame so far, the name of its event, and the state; None once something threw.\<close>

record sse_reader =
  sd_data :: "string list"
  sd_name :: string
  sd_state :: sse_state
  sd_broken :: bool

definition event_kind :: "string \<Rightarrow> json \<Rightarrow> string" where
  "event_kind name e = (case jget ''type'' e of None \<Rightarrow> name | Some JNull \<Rightarrow> name | Some (JStr k) \<Rightarrow> k | Some _ \<Rightarrow> [])"

definition sse_dispatch :: "(json option list \<Rightarrow> json option \<Rightarrow> bool) \<Rightarrow> (string \<Rightarrow> json option) \<Rightarrow> (json option \<Rightarrow> string option) \<Rightarrow> (json \<Rightarrow> string) \<Rightarrow> sse_reader \<Rightarrow> sse_reader" where
  "sse_dispatch ou jp st sv r =
    (if sd_data r = [] \<or> join [lf] (sd_data r) = ''[DONE]'' then r\<lparr>sd_data := [], sd_name := []\<rparr>
     else case jp (join [lf] (sd_data r)) of
         Some (JObj kvs) \<Rightarrow> (case sse_event ou jp st sv (event_kind (sd_name r) (JObj kvs)) (JObj kvs) (sd_state r) of
             (taken, s) \<Rightarrow> if taken then r\<lparr>sd_data := [], sd_name := [], sd_state := s\<rparr> else r\<lparr>sd_state := s, sd_broken := True\<rparr>)
       | _ \<Rightarrow> r\<lparr>sd_broken := True\<rparr>)"

definition sse_line :: "(json option list \<Rightarrow> json option \<Rightarrow> bool) \<Rightarrow> (string \<Rightarrow> json option) \<Rightarrow> (json option \<Rightarrow> string option) \<Rightarrow> (json \<Rightarrow> string) \<Rightarrow> string \<Rightarrow> sse_reader \<Rightarrow> sse_reader" where
  "sse_line ou jp st sv l r =
    (if sd_broken r then r
     else if l = [] then sse_dispatch ou jp st sv r
     else if starts_with l '':'' then r
     else (let k = takeWhile (\<lambda>c. c \<noteq> CHR '':'') l; v0 = tl (dropWhile (\<lambda>c. c \<noteq> CHR '':'') l);
               v = (if starts_with v0 '' '' then tl v0 else v0)
       in if k = ''data'' then r\<lparr>sd_data := sd_data r @ [v]\<rparr> else if k = ''event'' then r\<lparr>sd_name := v\<rparr> else r))"

text \<open>The buffer with the reader; one read of \<open>n\<close> bytes decodes to a text.\<close>

record sse_stream =
  sr_buffer :: string
  sr_bytes :: nat
  sr_reader :: sse_reader

definition open_sse :: sse_stream where
  "open_sse = \<lparr>sr_buffer = [], sr_bytes = 0, sr_reader = \<lparr>sd_data = [], sd_name = [], sd_state = empty_sse, sd_broken = False\<rparr>\<rparr>"

definition sse_lines :: "(json option list \<Rightarrow> json option \<Rightarrow> bool) \<Rightarrow> (string \<Rightarrow> json option) \<Rightarrow> (json option \<Rightarrow> string option) \<Rightarrow> (json \<Rightarrow> string) \<Rightarrow> string list \<Rightarrow> sse_reader \<Rightarrow> sse_reader" where
  "sse_lines ou jp st sv ls r = fold (sse_line ou jp st sv) ls r"

definition buffer_limit :: nat where "buffer_limit = 16777216"

definition stream_limit :: nat where "stream_limit = 67108864"

definition break_reader :: "sse_stream \<Rightarrow> sse_stream" where
  "break_reader s = s\<lparr>sr_reader := (sr_reader s)\<lparr>sd_broken := True\<rparr>\<rparr>"

definition sse_read :: "(json option list \<Rightarrow> json option \<Rightarrow> bool) \<Rightarrow> (string \<Rightarrow> json option) \<Rightarrow> (json option \<Rightarrow> string option) \<Rightarrow> (json \<Rightarrow> string) \<Rightarrow> nat \<times> string \<Rightarrow> sse_stream \<Rightarrow> sse_stream" where
  "sse_read ou jp st sv c s =
    (if sd_broken (sr_reader s) then s
     else if stream_limit < sr_bytes s + fst c then break_reader (s\<lparr>sr_bytes := sr_bytes s + fst c\<rparr>)
     else (let d = drain_lines False (sr_buffer s @ snd c);
               s1 = s\<lparr>sr_bytes := sr_bytes s + fst c, sr_buffer := snd d, sr_reader := sse_lines ou jp st sv (fst d) (sr_reader s)\<rparr>
       in if buffer_limit < js_length (snd d) then break_reader s1 else s1))"

text \<open>The end of the stream: a frame that is not closed is an error.\<close>

definition sse_end :: "(json option list \<Rightarrow> json option \<Rightarrow> bool) \<Rightarrow> (string \<Rightarrow> json option) \<Rightarrow> (json option \<Rightarrow> string option) \<Rightarrow> (json \<Rightarrow> string) \<Rightarrow> sse_stream \<Rightarrow> sse_stream" where
  "sse_end ou jp st sv s =
    (if sd_broken (sr_reader s) then s
     else (let d = drain_lines True (sr_buffer s); r = sse_lines ou jp st sv (fst d) (sr_reader s);
               s1 = s\<lparr>sr_buffer := snd d, sr_reader := r\<rparr>
       in if snd d \<noteq> [] \<or> sd_data r \<noteq> [] then break_reader s1 else s1))"

text \<open>How the reading ended: at the end of the body, by a failed read or decode, or by an abort.\<close>

datatype sse_ending = BodyEnded | ReadFailed | ReadAborted

definition last_said :: "(string, json \<times> string) omap \<Rightarrow> string" where
  "last_said said = (let own = filter (\<lambda>m. fst (snd m) = JStr ''assistant'') said in if own = [] then [] else snd (snd (last own)))"

definition sse_outcome :: "sse_state \<Rightarrow> sse_state" where
  "sse_outcome s = (let s1 = s\<lparr>ss_final := last_said (ss_said s)\<rparr> in if ss_terminal s = None then sse_fail ''missing_terminal'' s1 else s1)"

definition readSSE :: "(json option list \<Rightarrow> json option \<Rightarrow> bool) \<Rightarrow> (string \<Rightarrow> json option) \<Rightarrow> (json option \<Rightarrow> string option) \<Rightarrow> (json \<Rightarrow> string) \<Rightarrow> bool \<Rightarrow> (nat \<times> string) list \<Rightarrow> sse_ending \<Rightarrow> sse_state" where
  "readSSE ou jp st sv is_stream chunks ending =
    (if \<not> is_stream then sse_fail ''not_sse'' empty_sse
     else (let s = fold (sse_read ou jp st sv) chunks open_sse;
               s0 = (if ending = ReadAborted then s\<lparr>sr_reader := (sr_reader s)\<lparr>sd_state := sse_fail ''aborted'' (sd_state (sr_reader s))\<rparr>\<rparr> else s);
               s1 = (if ending = ReadFailed then break_reader s0 else sse_end ou jp st sv s0);
               state = sd_state (sr_reader s1)
       in sse_outcome (if sd_broken (sr_reader s1) then sse_fail ''stream_invalid_or_disconnected'' state else state)))"

section \<open>Chunks do not matter\<close>

text \<open>
  Reading in chunks within the limits is reading their text at once: the state is that of the lines of
  the whole, and the buffer is what follows the last of them.
\<close>

lemma sse_lines_broken: "sd_broken r \<Longrightarrow> sse_lines ou jp st sv ls r = r"
  by (induction ls) (simp_all add: sse_lines_def sse_line_def)

lemma sse_lines_append: "sse_lines ou jp st sv (a @ b) r = sse_lines ou jp st sv b (sse_lines ou jp st sv a r)"
  by (simp add: sse_lines_def)

definition read_all :: "(json option list \<Rightarrow> json option \<Rightarrow> bool) \<Rightarrow> (string \<Rightarrow> json option) \<Rightarrow> (json option \<Rightarrow> string option) \<Rightarrow> (json \<Rightarrow> string) \<Rightarrow> string \<Rightarrow> sse_reader \<times> string" where
  "read_all ou jp st sv t = (sse_lines ou jp st sv (fst (drain_lines False t)) (sr_reader open_sse), snd (drain_lines False t))"

definition within_limits :: "(nat \<times> string) list \<Rightarrow> bool" where
  "within_limits chunks \<longleftrightarrow> sum_list (map fst chunks) \<le> stream_limit \<and> js_length (concat (map snd chunks)) \<le> buffer_limit"

lemma drain_lines_suffix: "\<exists>p. s = p @ snd (drain_lines eof s)"
proof (induction eof s rule: drain_lines.induct)
  case (1 eof s)
  show ?case
  proof (cases "next_line eof s")
    case None
    then show ?thesis by (simp add: drain_lines.simps [of eof s])
  next
    case (Some lr)
    obtain l r where lr: "lr = (l, r)" by (cases lr)
    from 1 [OF Some lr [symmetric]] obtain p where p: "r = p @ snd (drain_lines eof r)" by blast
    have "\<exists>q. after_line s = q @ r" using Some lr by (auto simp: next_line_def split: list.splits if_splits)
    moreover have "s = line_text s @ after_line s" by (simp add: line_text_def after_line_def)
    ultimately obtain q where "s = line_text s @ q @ r" by metis
    then have "s = (line_text s @ q @ p) @ snd (drain_lines eof r)" using p by simp
    moreover have "snd (drain_lines eof s) = snd (drain_lines eof r)" using Some lr by (simp add: drain_lines.simps [of eof s])
    ultimately show ?thesis by metis
  qed
qed

lemma drain_lines_buffer: "js_length (snd (drain_lines eof s)) \<le> js_length s"
  using drain_lines_suffix [of s eof] by (metis js_length_append le_add2)

lemma reads_are_read_all:
  assumes "within_limits chunks"
  shows "sr_reader (fold (sse_read ou jp st sv) chunks open_sse) = fst (read_all ou jp st sv (concat (map snd chunks)))
    \<and> (\<not> sd_broken (sr_reader (fold (sse_read ou jp st sv) chunks open_sse)) \<longrightarrow>
        sr_buffer (fold (sse_read ou jp st sv) chunks open_sse) = snd (read_all ou jp st sv (concat (map snd chunks)))
        \<and> sr_bytes (fold (sse_read ou jp st sv) chunks open_sse) = sum_list (map fst chunks))"
  using assms
proof (induction chunks rule: rev_induct)
  case Nil
  then show ?case by (simp add: read_all_def sse_lines_def open_sse_def drain_lines.simps next_line_def after_line_def)
next
  case (snoc c chunks)
  let ?s = "fold (sse_read ou jp st sv) chunks open_sse"
  let ?a = "concat (map snd chunks)"
  have lim: "within_limits chunks" "sum_list (map fst chunks) + fst c \<le> stream_limit" "js_length (?a @ snd c) \<le> buffer_limit"
    using snoc.prems by (simp_all add: within_limits_def)
  note IH = snoc.IH [OF lim(1)]
  note d = drain_lines_append [of False ?a "snd c"]
  show ?case
  proof (cases "sd_broken (sr_reader ?s)")
    case True
    with IH have "sd_broken (fst (read_all ou jp st sv ?a))" by simp
    then have "fst (read_all ou jp st sv (?a @ snd c)) = fst (read_all ou jp st sv ?a)"
      by (simp add: read_all_def d sse_lines_append sse_lines_broken)
    with True IH show ?thesis by (simp add: sse_read_def)
  next
    case False
    with IH have buf: "sr_buffer ?s = snd (drain_lines False ?a)" "sr_bytes ?s = sum_list (map fst chunks)" by (simp_all add: read_all_def)
    have "js_length (snd (drain_lines False (?a @ snd c))) \<le> buffer_limit" using drain_lines_buffer lim(3) le_trans by blast
    then have "\<not> buffer_limit < js_length (snd (drain_lines False (sr_buffer ?s @ snd c)))" by (simp add: d buf)
    then show ?thesis using False IH lim(2) buf
      by (simp add: sse_read_def Let_def read_all_def d sse_lines_append)
  qed
qed

text \<open>
  How the network cuts the answer of the agent into chunks does not matter: within the limits
  of a stream, two ways to cut the same text, even inside a line end, give the same calls, the same
  terminal event and the same error.
\<close>

theorem stream_state_ignores_chunks:
  assumes "within_limits chunks" "within_limits chunks'" "concat (map snd chunks) = concat (map snd chunks')"
  shows "readSSE ou jp st sv True chunks BodyEnded = readSSE ou jp st sv True chunks' BodyEnded"
proof -
  let ?s = "fold (sse_read ou jp st sv) chunks open_sse"
  let ?t = "fold (sse_read ou jp st sv) chunks' open_sse"
  have r: "sr_reader ?s = sr_reader ?t" "\<not> sd_broken (sr_reader ?s) \<Longrightarrow> sr_buffer ?s = sr_buffer ?t"
    using reads_are_read_all [OF assms(1), of ou jp st sv] reads_are_read_all [OF assms(2), of ou jp st sv] assms(3) by simp_all
  then have "sr_reader (sse_end ou jp st sv ?s) = sr_reader (sse_end ou jp st sv ?t)"
    by (simp add: sse_end_def Let_def break_reader_def)
  then show ?thesis by (simp add: readSSE_def Let_def)
qed

lemma stream_state_ignores_chunks_witness:
  "readSSE (\<lambda>_ _. True) (\<lambda>_. Some (JObj [(''type'', JStr ''RUN_FINISHED'')])) (\<lambda>_. None) (\<lambda>_. []) True [(3, ''dat''), (7, ''a: {}'' @ [lf, lf])] BodyEnded
    = readSSE (\<lambda>_ _. True) (\<lambda>_. Some (JObj [(''type'', JStr ''RUN_FINISHED'')])) (\<lambda>_. None) (\<lambda>_. []) True [(10, ''data: {}'' @ [lf, lf])] BodyEnded"
  by (rule stream_state_ignores_chunks) (simp_all add: within_limits_def stream_limit_def buffer_limit_def is_cont_def byte_def lf_def)

section \<open>What a complete stream is\<close>

definition outcome_part :: "sse_state \<Rightarrow> string option \<times> bool \<times> bool \<times> string option" where
  "outcome_part s = (ss_terminal s, ss_incomplete s, ss_truncated s, ss_code s)"

definition outcome_ok :: "sse_state \<Rightarrow> bool" where
  "outcome_ok s \<longleftrightarrow> (ss_incomplete s \<or> ss_terminal s = None \<or> ss_terminal s = Some ''RUN_FINISHED'')
     \<and> (ss_incomplete s = (ss_code s \<noteq> None)) \<and> (ss_truncated s \<longrightarrow> ss_incomplete s)"

lemma outcome_ok_cong: "outcome_part s = outcome_part t \<Longrightarrow> outcome_ok s = outcome_ok t"
  by (simp add: outcome_part_def outcome_ok_def)

lemma outcome_change [simp]: "outcome_part (change_tool i f s) = outcome_part s"
  by (simp add: change_tool_def outcome_part_def)

lemma outcome_with_tool: "with_tool e s = Some (i, s1) \<Longrightarrow> outcome_part s1 = outcome_part s"
  by (auto simp: with_tool_def outcome_part_def split: option.splits if_splits)

lemma outcome_note [simp]: "outcome_part (note_view jp st c s) = outcome_part s"
  by (simp add: note_view_def Let_def split: list.split option.split)

lemma outcome_ok_fail: "outcome_ok s \<Longrightarrow> outcome_ok (sse_fail c s)"
  by (simp add: outcome_ok_def sse_fail_def)

lemma outcome_tool_events:
  "outcome_part (snd (tool_start_event e s)) = outcome_part s" "outcome_part (snd (tool_args_event sv e s)) = outcome_part s"
  "outcome_part (snd (tool_end_event e s)) = outcome_part s" "outcome_part (snd (tool_result_event jp e s)) = outcome_part s"
  "outcome_part (snd (text_start_event e s)) = outcome_part s" "outcome_part (snd (text_content_event e s)) = outcome_part s"
  by (auto simp: tool_start_event_def tool_args_event_def tool_end_event_def tool_result_event_def outcome_with_tool Let_def split: option.split)
    (auto simp: text_start_event_def text_content_event_def outcome_part_def Let_def split: option.split)

lemma outcome_custom: "outcome_ok s \<Longrightarrow> outcome_ok (snd (custom_event ou e s))"
  by (auto simp: custom_event_def Let_def outcome_ok_def sse_fail_def)

lemma outcome_ok_finished: "outcome_ok s \<Longrightarrow> outcome_ok (s\<lparr>ss_terminal := Some ''RUN_FINISHED''\<rparr>)"
  by (auto simp: outcome_ok_def)

lemma outcome_ok_errored: "outcome_ok s \<Longrightarrow> outcome_ok (sse_fail c (s\<lparr>ss_terminal := Some ''RUN_ERROR''\<rparr>))"
  by (auto simp: outcome_ok_def sse_fail_def)

lemma outcome_ok_event: "outcome_ok s \<Longrightarrow> outcome_ok (snd (sse_event ou jp st sv kind e s))"
  using outcome_ok_cong [OF outcome_tool_events(1), of e s] outcome_ok_cong [OF outcome_tool_events(2), of sv e s]
    outcome_ok_cong [OF outcome_tool_events(3), of e s] outcome_ok_cong [OF outcome_tool_events(4), of jp e s]
    outcome_ok_cong [OF outcome_tool_events(5), of e s] outcome_ok_cong [OF outcome_tool_events(6), of e s]
    outcome_ok_cong [OF outcome_note, of jp st "jget ''content'' e" s] outcome_custom [of s ou e]
    outcome_ok_finished [of s] outcome_ok_errored [of s "''run_error''"]
  unfolding sse_event_def by simp

lemma outcome_ok_dispatch: "outcome_ok (sd_state r) \<Longrightarrow> outcome_ok (sd_state (sse_dispatch ou jp st sv r))"
proof -
  assume ok: "outcome_ok (sd_state r)"
  have "outcome_ok s" if "sse_event ou jp st sv k e (sd_state r) = (b, s)" for k e b s
    using outcome_ok_event [OF ok, of ou jp st sv k e] that by simp
  with ok show ?thesis by (auto simp: sse_dispatch_def split: option.split json.split prod.split)
qed

lemma outcome_ok_lines: "outcome_ok (sd_state r) \<Longrightarrow> outcome_ok (sd_state (sse_lines ou jp st sv ls r))"
proof (induction ls arbitrary: r)
  case (Cons l ls)
  have "outcome_ok (sd_state (sse_line ou jp st sv l r))"
    using Cons.prems outcome_ok_dispatch [OF Cons.prems] by (simp add: sse_line_def Let_def)
  from Cons.IH [OF this] show ?case by (simp add: sse_lines_def)
qed (simp add: sse_lines_def)

lemma break_reader_state [simp]: "sd_state (sr_reader (break_reader s)) = sd_state (sr_reader s)" "sd_broken (sr_reader (break_reader s))"
  by (simp_all add: break_reader_def)

lemma outcome_ok_reads:
  "outcome_ok (sd_state (sr_reader (fold (sse_read ou jp st sv) chunks s)))" if "outcome_ok (sd_state (sr_reader s))"
  using that
proof (induction chunks arbitrary: s)
  case (Cons c chunks)
  have "outcome_ok (sd_state (sr_reader (sse_read ou jp st sv c s)))"
    using Cons.prems outcome_ok_lines [OF Cons.prems] by (simp add: sse_read_def Let_def break_reader_def)
  from Cons.IH [OF this] show ?case by simp
qed simp

lemma outcome_ok_end: "outcome_ok (sd_state (sr_reader s)) \<Longrightarrow> outcome_ok (sd_state (sr_reader (sse_end ou jp st sv s)))"
  using outcome_ok_lines by (simp add: sse_end_def Let_def)

lemma outcome_ok_open: "outcome_ok (sd_state (sr_reader open_sse))"
  by (simp add: outcome_ok_def open_sse_def empty_sse_def)

text \<open>What failed stays failed.\<close>

lemma sticky_event: "ss_incomplete s \<Longrightarrow> ss_incomplete (snd (sse_event ou jp st sv k e s))"
  using outcome_tool_events(1) [of e s] outcome_tool_events(2) [of sv e s] outcome_tool_events(3) [of e s] outcome_tool_events(4) [of jp e s]
    outcome_tool_events(5) [of e s] outcome_tool_events(6) [of e s] outcome_note [of jp st "jget ''content'' e" s]
  by (simp add: sse_event_def outcome_part_def custom_event_def Let_def sse_fail_def)

lemma sticky_lines: "ss_incomplete (sd_state r) \<Longrightarrow> ss_incomplete (sd_state (sse_lines ou jp st sv ls r))"
proof (induction ls arbitrary: r)
  case (Cons l ls)
  have "ss_incomplete s" if "sse_event ou jp st sv k e (sd_state r) = (b, s)" for k e b s
    using sticky_event [OF Cons.prems, of ou jp st sv k e] that by simp
  with Cons.prems have "ss_incomplete (sd_state (sse_dispatch ou jp st sv r))"
    by (auto simp: sse_dispatch_def split: option.split json.split prod.split)
  with Cons.prems have "ss_incomplete (sd_state (sse_line ou jp st sv l r))" by (simp add: sse_line_def Let_def)
  from Cons.IH [OF this] show ?case by (simp add: sse_lines_def)
qed (simp add: sse_lines_def)

lemma sticky_end: "ss_incomplete (sd_state (sr_reader s)) \<Longrightarrow> ss_incomplete (sd_state (sr_reader (sse_end ou jp st sv s)))"
  using sticky_lines by (simp add: sse_end_def Let_def)

text \<open>
  A stream counts as complete only when it was read to its end without an abort or an error,
  every frame was closed, no model call was cut short and the run said it finished: anything else leaves an
  error code, the first that was found.
\<close>

theorem complete_streams_finished:
  assumes "\<not> ss_incomplete (readSSE ou jp st sv is_stream chunks ending)"
  shows "ss_terminal (readSSE ou jp st sv is_stream chunks ending) = Some ''RUN_FINISHED'' \<and> ss_code (readSSE ou jp st sv is_stream chunks ending) = None
    \<and> \<not> ss_truncated (readSSE ou jp st sv is_stream chunks ending) \<and> is_stream \<and> ending = BodyEnded"
proof -
  let ?r = "readSSE ou jp st sv is_stream chunks ending"
  let ?s = "fold (sse_read ou jp st sv) chunks open_sse"
  let ?s0 = "if ending = ReadAborted then ?s\<lparr>sr_reader := (sr_reader ?s)\<lparr>sd_state := sse_fail ''aborted'' (sd_state (sr_reader ?s))\<rparr>\<rparr> else ?s"
  have sticky: "ss_incomplete (sse_outcome s)" if "ss_incomplete s" for s
    using that by (simp add: sse_outcome_def Let_def sse_fail_def)
  have i: "is_stream" using assms by (cases is_stream) (simp_all add: readSSE_def sse_fail_def)
  have ok0: "outcome_ok (sd_state (sr_reader ?s0))"
    using outcome_ok_reads [OF outcome_ok_open, of ou jp st sv chunks] by (simp add: outcome_ok_fail)
  let ?s1 = "if ending = ReadFailed then break_reader ?s0 else sse_end ou jp st sv ?s0"
  have ok1: "outcome_ok (sd_state (sr_reader ?s1))"
  proof (cases ending)
    case ReadFailed
    then show ?thesis using outcome_ok_reads [OF outcome_ok_open, of ou jp st sv chunks] by simp
  next
    case ReadAborted
    then show ?thesis using outcome_ok_end [OF ok0, of ou jp st sv] by simp
  next
    case BodyEnded
    then show ?thesis using outcome_ok_end [OF ok0, of ou jp st sv] by simp
  qed
  have r: "?r = sse_outcome (if sd_broken (sr_reader ?s1) then sse_fail ''stream_invalid_or_disconnected'' (sd_state (sr_reader ?s1)) else sd_state (sr_reader ?s1))"
    using i by (simp add: readSSE_def Let_def)
  with assms have nb: "\<not> sd_broken (sr_reader ?s1)" using sticky by (auto simp: sse_fail_def)
  with r have r2: "?r = sse_outcome (sd_state (sr_reader ?s1))" by simp
  with assms sticky have n: "\<not> ss_incomplete (sd_state (sr_reader ?s1))" by auto
  moreover have "ending \<noteq> ReadFailed" using nb by auto
  moreover have "ending \<noteq> ReadAborted"
  proof
    assume a: "ending = ReadAborted"
    then have "ss_incomplete (sd_state (sr_reader ?s0))" by (simp add: sse_fail_def)
    with a n sticky_end [of ?s0 ou jp st sv] show False by simp
  qed
  ultimately have e: "ending = BodyEnded" by (cases ending) auto
  have "ss_terminal (sd_state (sr_reader ?s1)) \<noteq> None"
  proof
    assume "ss_terminal (sd_state (sr_reader ?s1)) = None"
    then have "ss_incomplete (sse_outcome (sd_state (sr_reader ?s1)))" by (simp add: sse_outcome_def Let_def sse_fail_def)
    with assms r2 show False by simp
  qed
  then have "sse_outcome (sd_state (sr_reader ?s1)) = (sd_state (sr_reader ?s1))\<lparr>ss_final := last_said (ss_said (sd_state (sr_reader ?s1)))\<rparr>"
    by (auto simp: sse_outcome_def Let_def)
  moreover have "ss_terminal (sd_state (sr_reader ?s1)) = Some ''RUN_FINISHED''" "ss_code (sd_state (sr_reader ?s1)) = None"
    "\<not> ss_truncated (sd_state (sr_reader ?s1))"
    using ok1 n \<open>ss_terminal (sd_state (sr_reader ?s1)) \<noteq> None\<close> unfolding outcome_ok_def by blast+
  ultimately show ?thesis unfolding r2 using i e by simp
qed

lemma complete_streams_finished_witness:
  "ss_terminal (readSSE (\<lambda>_ _. True) (\<lambda>_. Some (JObj [(''type'', JStr ''RUN_FINISHED'')])) (\<lambda>_. None) (\<lambda>_. []) True [(10, ''data: {}'' @ [lf, lf])] BodyEnded)
    = Some ''RUN_FINISHED''"
proof -
  let ?jp = "\<lambda>_. Some (JObj [(''type'', JStr ''RUN_FINISHED'')])"
  let ?r = "\<lparr>sd_data = [], sd_name = [], sd_state = empty_sse\<lparr>ss_terminal := Some ''RUN_FINISHED''\<rparr>, sd_broken = False\<rparr>"
  have d: "drain_lines False (''data: {}'' @ [lf, lf]) = ([''data: {}'', []], [])" "drain_lines True [] = ([], [])"
    by (simp_all add: drain_lines.simps next_line_def after_line_def line_text_def lf_def cr_def)
  have l: "sse_lines (\<lambda>_ _. True) ?jp (\<lambda>_. None) (\<lambda>_. []) [''data: {}'', []] (sr_reader open_sse) = ?r"
    by (simp add: sse_lines_def sse_line_def sse_dispatch_def sse_event_def open_sse_def empty_sse_def event_kind_def starts_with_def lf_def)
  have "sse_read (\<lambda>_ _. True) ?jp (\<lambda>_. None) (\<lambda>_. []) (10, ''data: {}'' @ [lf, lf]) open_sse = \<lparr>sr_buffer = [], sr_bytes = 10, sr_reader = ?r\<rparr>"
  proof -
    have o: "sr_buffer open_sse = []" "sr_bytes open_sse = 0" "\<not> sd_broken (sr_reader open_sse)" by (simp_all add: open_sse_def)
    have "sse_read (\<lambda>_ _. True) ?jp (\<lambda>_. None) (\<lambda>_. []) (10, ''data: {}'' @ [lf, lf]) open_sse = open_sse\<lparr>sr_bytes := 10, sr_buffer := [], sr_reader := ?r\<rparr>"
      unfolding sse_read_def Let_def fst_conv snd_conv o append_Nil d l using o(3) by (simp add: stream_limit_def buffer_limit_def)
    then show ?thesis by (simp add: open_sse_def)
  qed
  moreover have "sse_end (\<lambda>_ _. True) ?jp (\<lambda>_. None) (\<lambda>_. []) \<lparr>sr_buffer = [], sr_bytes = 10, sr_reader = ?r\<rparr> = \<lparr>sr_buffer = [], sr_bytes = 10, sr_reader = ?r\<rparr>"
    by (simp add: sse_end_def d sse_lines_def)
  ultimately have "readSSE (\<lambda>_ _. True) ?jp (\<lambda>_. None) (\<lambda>_. []) True [(10, ''data: {}'' @ [lf, lf])] BodyEnded = sse_outcome (empty_sse\<lparr>ss_terminal := Some ''RUN_FINISHED''\<rparr>)"
    unfolding readSSE_def by simp
  then have "\<not> ss_incomplete (readSSE (\<lambda>_ _. True) ?jp (\<lambda>_. None) (\<lambda>_. []) True [(10, ''data: {}'' @ [lf, lf])] BodyEnded)"
    by (simp add: sse_outcome_def empty_sse_def)
  from complete_streams_finished [OF this] show ?thesis by blast
qed

section \<open>The saved dashboard\<close>

definition mutatingTools :: "string list" where
  "mutatingTools = [''create_dashboard'', ''edit_dashboard'', ''replace_dashboard'', ''restore_dashboard_version'']"

definition is_answer :: "sse_tool \<Rightarrow> json \<Rightarrow> bool" where
  "is_answer t m \<longleftrightarrow> jget ''role'' m = Some (JStr ''tool'') \<and> jget ''toolCallId'' m = Some (JStr (sl_id t))"

text \<open>Exactly one message of the thread decides whether the call failed; two say it did.\<close>

definition reconciled :: "json list \<Rightarrow> sse_tool \<Rightarrow> sse_tool" where
  "reconciled messages t = (case filter (is_answer t) messages of
      [] \<Rightarrow> t
    | [m] \<Rightarrow> t\<lparr>sl_error := Some (sl_error t = Some True \<or> truthy (jget ''error'' m))\<rparr>
    | _ \<Rightarrow> t\<lparr>sl_error := Some True\<rparr>)"

definition tool_dashboard :: "sse_tool \<Rightarrow> json option" where
  "tool_dashboard t = Option.bind (sl_result t) (jget ''dashboard'')"

definition is_whole :: "json option \<Rightarrow> bool" where
  "is_whole v = (case v of Some (JNum (Fin x)) \<Rightarrow> x = of_int \<lfloor>x\<rfloor> | _ \<Rightarrow> False)"

definition is_save :: "sse_tool \<Rightarrow> bool" where
  "is_save t \<longleftrightarrow> sl_name t \<in> set mutatingTools \<and> sl_error t = Some False \<and> truthy (Option.bind (tool_dashboard t) (jget ''id''))
     \<and> is_whole (Option.bind (tool_dashboard t) (jget ''version''))
     \<and> truthy (Option.bind (Option.bind (tool_dashboard t) (jget ''spec'')) (jget ''panels''))"

text \<open>The set of the ids has one element; ids that are objects are never the same.\<close>

definition one_id :: "json option list \<Rightarrow> bool" where
  "one_id ids = (case ids of [] \<Rightarrow> False | [i] \<Rightarrow> True
     | i # rest \<Rightarrow> list_all (\<lambda>j. j = i) rest \<and> (case i of Some (JObj _) \<Rightarrow> False | Some (JArr _) \<Rightarrow> False | _ \<Rightarrow> True))"

record found_save =
  fs_record :: json
  fs_tool :: string
  fs_first :: string

definition findSaved :: "sse_state \<Rightarrow> json list \<Rightarrow> found_save option \<times> sse_state" where
  "findSaved s messages =
    (let ts = map (reconciled messages) (ss_tools s); saves = filter is_save ts
     in (if one_id (map (\<lambda>t. Option.bind (tool_dashboard t) (jget ''id'')) saves)
         then Some \<lparr>fs_record = nullish (tool_dashboard (last saves)) JNull, fs_tool = sl_id (last saves), fs_first = sl_id (hd saves)\<rparr>
         else None, s\<lparr>ss_tools := ts\<rparr>))"

text \<open>Whether a write was tried, and whether the stream and the thread tell all of it.\<close>

definition answered_once :: "json list \<Rightarrow> sse_tool \<Rightarrow> bool" where
  "answered_once messages t \<longleftrightarrow> length (filter (is_answer t) messages) = 1"

definition mutationEvidence :: "sse_state \<Rightarrow> json list option \<Rightarrow> bool \<times> bool" where
  "mutationEvidence s messages =
    (let writes = filter (\<lambda>t. sl_name t \<in> set mutatingTools) (ss_tools s)
     in (writes \<noteq> [], case messages of None \<Rightarrow> False
         | Some ms \<Rightarrow> \<not> ss_incomplete s
             \<and> list_all (\<lambda>t. sl_name t \<noteq> [] \<and> sl_result t \<noteq> Some JNull \<and> sl_error t = Some False \<and> answered_once ms t) (ss_tools s)
             \<and> list_all (\<lambda>t. sl_ended t \<and> sl_error t \<noteq> None \<and> answered_once ms t) writes
             \<and> list_all (\<lambda>m. jget ''role'' m \<noteq> Some (JStr ''tool'') \<or> list_ex (\<lambda>t. jget ''toolCallId'' m = Some (JStr (sl_id t))) (ss_tools s)) ms))"

lemma reconciled_same [simp]:
  "sl_id (reconciled messages t) = sl_id t" "sl_name (reconciled messages t) = sl_name t" "tool_dashboard (reconciled messages t) = tool_dashboard t"
  by (simp_all add: reconciled_def tool_dashboard_def split: list.split)

lemma reconciled_ok:
  assumes "sl_error (reconciled messages t) = Some False"
  shows "(\<exists>m. filter (is_answer t) messages = [m] \<and> \<not> truthy (jget ''error'' m)) \<or> (filter (is_answer t) messages = [] \<and> sl_error t = Some False)"
  using assms by (simp add: reconciled_def split: list.splits)

lemma one_id_hd: "one_id ids \<Longrightarrow> i \<in> set ids \<Longrightarrow> i = hd ids"
  by (cases ids) (auto simp: one_id_def list_all_iff split: list.splits)

text \<open>
  The dashboard an evaluation scores was saved by the last successful write of the stream: a
  call of a tool that writes, whose result carries the dashboard with its version, and which the thread
  answers at most once and never with an error; every other successful write of the stream was of the same
  dashboard.
\<close>

theorem scored_dashboard_was_saved:
  assumes "findSaved s messages = (Some r, s')"
  shows "(\<exists>t \<in> set (ss_tools s). sl_id t = fs_tool r \<and> sl_name t \<in> set mutatingTools \<and> tool_dashboard t = Some (fs_record r)
      \<and> is_whole (jget ''version'' (fs_record r))
      \<and> ((\<exists>m. filter (is_answer t) messages = [m] \<and> \<not> truthy (jget ''error'' m)) \<or> (filter (is_answer t) messages = [] \<and> sl_error t = Some False)))
    \<and> (\<forall>u \<in> set (ss_tools s'). is_save u \<longrightarrow> Option.bind (tool_dashboard u) (jget ''id'') = jget ''id'' (fs_record r))"
proof -
  let ?ts = "map (reconciled messages) (ss_tools s)"
  let ?saves = "filter is_save ?ts"
  let ?i = "\<lambda>t. Option.bind (tool_dashboard t) (jget ''id'')"
  have one: "one_id (map ?i ?saves)" and r: "fs_record r = nullish (tool_dashboard (last ?saves)) JNull" "fs_tool r = sl_id (last ?saves)" and s': "ss_tools s' = ?ts"
    using assms by (auto simp: findSaved_def Let_def split: if_splits)
  from one have ne: "?saves \<noteq> []" by (auto simp: one_id_def)
  then have l: "last ?saves \<in> set ?saves" by (rule last_in_set)
  then obtain t where t: "t \<in> set (ss_tools s)" "last ?saves = reconciled messages t" "is_save (reconciled messages t)" by auto
  then obtain d where d: "tool_dashboard t = Some d" by (cases "tool_dashboard t") (auto simp: is_save_def)
  have rec: "fs_record r = d" using r t d by (simp add: nullish_def)
  have h: "?i u = hd (map ?i ?saves)" if "u \<in> set ?saves" for u
    using that by (intro one_id_hd [OF one]) simp
  have i: "?i (last ?saves) = jget ''id'' d" using t(2) d by simp
  have "?i u = jget ''id'' d" if "u \<in> set ?ts" "is_save u" for u
    using h [of u] h [OF l] i that by simp
  moreover have "sl_error (reconciled messages t) = Some False" using t(3) by (simp add: is_save_def)
  note reconciled_ok [OF this]
  moreover have "is_whole (jget ''version'' d)" "sl_name t \<in> set mutatingTools" using t(3) d by (simp_all add: is_save_def)
  ultimately show ?thesis using t(1,2) d rec r(2) s' by auto
qed

definition demo_save :: sse_state where
  "demo_save = empty_sse\<lparr>ss_tools := [\<lparr>sl_id = ''c1'', sl_name = ''create_dashboard'', sl_args = [],
     sl_result = Some (JObj [(''dashboard'', JObj [(''id'', JStr ''d1''), (''version'', JNum (Fin 1)), (''spec'', JObj [(''panels'', JArr [])])])]),
     sl_error = None, sl_ended = True, sl_code = None, sl_message = None\<rparr>]\<rparr>"

lemma scored_dashboard_was_saved_witness:
  "\<exists>t \<in> set (ss_tools demo_save). sl_id t = ''c1''"
proof -
  obtain r s' where f: "findSaved demo_save [JObj [(''role'', JStr ''tool''), (''toolCallId'', JStr ''c1'')]] = (Some r, s')" "fs_tool r = ''c1''"
    by (simp add: findSaved_def demo_save_def reconciled_def is_answer_def is_save_def mutatingTools_def tool_dashboard_def is_whole_def one_id_def)
  from scored_dashboard_was_saved [OF f(1)] f(2) show ?thesis by auto
qed

section \<open>The check of a saved dashboard\<close>

definition check_of :: "json \<Rightarrow> check option" where
  "check_of r = (case (jstr ''id'' r, jstr ''status'' r, nullish (case Option.bind (jget ''frame'' r) (jget ''rows'') of Some JNull \<Rightarrow> None | v \<Rightarrow> v) (JNum (Fin 0))) of
      (Some i, Some st, JNum (Fin n)) \<Rightarrow> if n < 0 then None
        else Some \<lparr>ck_id = i, ck_status = st, ck_rows = n, ck_diagnosis = jstr ''diagnosis'' r, ck_error = jstr ''error'' r\<rparr>
    | _ \<Rightarrow> None)"

fun all_of :: "'a option list \<Rightarrow> 'a list option" where
  "all_of [] = Some []"
| "all_of (None # xs) = None"
| "all_of (Some x # xs) = map_option (\<lambda>ys. x # ys) (all_of xs)"

text \<open>The reply is the body, or whether the server refused the dashboard as invalid.\<close>

definition executePanels :: "json option list \<Rightarrow> bool + json \<Rightarrow> bool \<times> bool \<times> check list" where
  "executePanels ids reply = (case reply of
      Inl refused \<Rightarrow> (False, refused, [])
    | Inr data \<Rightarrow> (case jget ''results'' data of
        Some (JArr rs) \<Rightarrow> (case all_of (map check_of rs) of
            Some cs \<Rightarrow> (True, length cs = length ids \<and> card (set (map ck_id cs)) = length ids
                \<and> list_all (\<lambda>i. list_ex (\<lambda>c. i = Some (JStr (ck_id c))) cs) ids, cs)
          | None \<Rightarrow> (False, False, []))
      | _ \<Rightarrow> (False, False, [])))"

text \<open>
  A dashboard counts as checked only when the checks are those of its panels: with panels of
  different ids, there is exactly one check of each panel and no other.
\<close>

theorem checked_means_one_check_per_panel:
  assumes "executePanels ids (Inr data) = (valid, True, cs)" "distinct ids"
  shows "valid \<and> mset (map (\<lambda>c. Some (JStr (ck_id c))) cs) = mset ids"
proof -
  let ?f = "\<lambda>c. Some (JStr (ck_id c))"
  have v: "valid" "length cs = length ids" "card (set (map ck_id cs)) = length ids" "\<forall>i \<in> set ids. \<exists>c \<in> set cs. i = ?f c"
    using assms(1) by (auto simp: executePanels_def list_all_iff list_ex_iff split: option.splits json.splits)
  then have d: "distinct (map ck_id cs)" by (simp add: card_distinct)
  then have df: "distinct (map ?f cs)" by (simp add: distinct_map inj_on_def)
  have sub: "set ids \<subseteq> set (map ?f cs)" using v(4) by auto
  have "card (set ids) = card (set (map ?f cs))"
    unfolding distinct_card [OF assms(2)] distinct_card [OF df] using v(2) by simp
  with sub have "set ids = set (map ?f cs)" by (intro card_subset_eq) simp_all
  with assms(2) df have "mset ids = mset (map ?f cs)" using set_eq_iff_mset_eq_distinct by blast
  with v(1) show ?thesis by simp
qed

lemma checked_means_one_check_per_panel_witness:
  "mset (map (\<lambda>c. Some (JStr (ck_id c))) (snd (snd (executePanels [Some (JStr ''p'')] (Inr (JObj [(''results'', JArr [JObj [(''id'', JStr ''p''), (''status'', JStr ''ok'')]])])))))) = {#Some (JStr ''p'')#}"
proof -
  obtain valid cs where e: "executePanels [Some (JStr ''p'')] (Inr (JObj [(''results'', JArr [JObj [(''id'', JStr ''p''), (''status'', JStr ''ok'')]])])) = (valid, True, cs)"
    by (simp add: executePanels_def check_of_def jstr_def nullish_def)
  from checked_means_one_check_per_panel [OF this] show ?thesis unfolding e by simp
qed

end
