(* ===== verification/Eval_Inputs.thy ===== *)
theory Eval_Inputs
  imports Eval_Judge Eval_Stream Js_Date
begin

text \<open>
  What an evaluation takes in and gives out (\<open>scripts/dashboard-eval/main.ts\<close>, and the requests, cookies
  and file checks of \<open>transport.ts\<close>): the command line, the prompts, edits and snapshot of a run, the model a
  provider reports, and the evidence that may be published. \<open>url\<close> is \<open>new URL\<close>, \<open>nm\<close> is \<open>Number\<close> of a text,
  \<open>dp\<close> is \<open>Date.parse\<close>, \<open>lo\<close> is \<open>toLowerCase\<close>. A path is the list of its components once resolved.
\<close>

section \<open>The command line\<close>

text \<open>An option without a text is a flag.\<close>

type_synonym options = "(string, string option) omap"

definition flag_names :: "string list" where
  "flag_names = [''help'', ''mock'', ''no-output'', ''judge'']"

definition value_names :: "string list" where
  "value_names = [''base'', ''cookies'', ''model-label'', ''out'', ''prompts-file'', ''set'', ''budget-usd'', ''cost-ledger'',
     ''snapshot-manifest'', ''edits-file'', ''holdout-sha'', ''settle'', ''cost-usd'', ''reason'']"

text \<open>\<open>key in opts\<close> also holds for what every object inherits.\<close>

definition inherited_keys :: "string list" where
  "inherited_keys = [''constructor'', ''__defineGetter__'', ''__defineSetter__'', ''hasOwnProperty'', ''__lookupGetter__'', ''__lookupSetter__'',
     ''isPrototypeOf'', ''propertyIsEnumerable'', ''toString'', ''valueOf'', ''__proto__'', ''toLocaleString'']"

definition is_option :: "string \<Rightarrow> bool" where
  "is_option a \<longleftrightarrow> starts_with a ''--''"

fun parse_args :: "options \<Rightarrow> string list \<Rightarrow> options result" where
  "parse_args o1 [] = Inr o1"
| "parse_args o1 (a # rest) =
    (if \<not> is_option a then Inl ''Invalid option''
     else if map_has o1 (drop 2 a) \<or> drop 2 a \<in> set inherited_keys then Inl ''Duplicate option''
     else if drop 2 a \<in> set flag_names then parse_args (o1 @ [(drop 2 a, None)]) rest
     else if drop 2 a \<notin> set value_names then Inl ''Unknown or incomplete option''
     else (case rest of
         [] \<Rightarrow> Inl ''Unknown or incomplete option''
       | v # others \<Rightarrow> if v = [] \<or> is_option v then Inl ''Unknown or incomplete option''
           else parse_args (o1 @ [(drop 2 a, Some v)]) others))"

definition option_text :: "options \<Rightarrow> string \<Rightarrow> string option" where
  "option_text o1 k = (case map_of o1 k of Some v \<Rightarrow> v | None \<Rightarrow> None)"

text \<open>\<open>^(?:[A-Za-z0-9][A-Za-z0-9._-]{0,79}:)?[A-Za-z0-9][A-Za-z0-9._-]{0,79}$\<close>\<close>

definition label_text :: "string \<Rightarrow> bool" where
  "label_text s = (case split_char (CHR '':'') s of [m] \<Rightarrow> model_text m | [p, m] \<Rightarrow> model_text p \<and> model_text m | _ \<Rightarrow> False)"

definition has_double_dot :: "string \<Rightarrow> bool" where
  "has_double_dot s = list_ex (\<lambda>i. starts_with (drop i s) ''..'') [0..<length s]"

text \<open>\<open>^[a-f0-9]{64}$\<close>\<close>

definition sha_text :: "string \<Rightarrow> bool" where
  "sha_text s \<longleftrightarrow> length s = 64 \<and> list_all (\<lambda>c. is_digit c \<or> CHR ''a'' \<le> c \<and> c \<le> CHR ''f'') s"

definition held :: "('a \<Rightarrow> bool) \<Rightarrow> 'a option \<Rightarrow> bool" where
  "held P v = (case v of Some x \<Rightarrow> P x | None \<Rightarrow> True)"

definition parseOptions :: "(string \<Rightarrow> js_url option) \<Rightarrow> (string \<Rightarrow> num) \<Rightarrow> string list \<Rightarrow> options result" where
  "parseOptions url nm args = bind_result (parse_args [] args) (\<lambda>o1.
     bind_result (case option_text o1 ''base'' of Some b \<Rightarrow> map_sum id (\<lambda>_. ()) (originURL url b) | None \<Rightarrow> Inr ()) (\<lambda>_.
       guard_err (\<not> held (\<lambda>l. label_text l \<and> \<not> has_double_dot l) (option_text o1 ''model-label'')) ''Unsafe model label''
      (guard_err (\<not> held (\<lambda>b. is_finite (nm b) \<and> \<not> amount (nm b) < 0) (option_text o1 ''budget-usd'')) ''Invalid budget''
      (guard_err (\<not> held (\<lambda>s. s \<in> {''benchmark'', ''holdout''}) (option_text o1 ''set'')) ''Invalid set''
      (guard_err (\<not> held sha_text (option_text o1 ''holdout-sha'')) ''Invalid sealed hash'' (Inr o1))))))"

text \<open>What the command line asks for, before any file is read.\<close>

datatype eval_mode = HelpMode | MockMode | SettleMode | RunMode

definition only_options :: "string list \<Rightarrow> options \<Rightarrow> bool" where
  "only_options ks o1 = list_all (\<lambda>k. k \<in> set ks) (map fst o1)"

definition option_set :: "options \<Rightarrow> string" where
  "option_set o1 = nullish (option_text o1 ''set'') ''benchmark''"

definition private_inputs :: "options \<Rightarrow> string list" where
  "private_inputs o1 = [''base'', ''cookies'', ''out'', ''prompts-file'', ''budget-usd'', ''cost-ledger'', ''snapshot-manifest'']
     @ (if option_set o1 = ''benchmark'' then [''edits-file''] else [])"

definition mode_of :: "bool \<Rightarrow> options \<Rightarrow> eval_mode result" where
  "mode_of controller_root o1 =
    (if map_has o1 ''help'' then Inr HelpMode
     else if map_has o1 ''mock'' then guard_err (\<not> only_options [''mock'', ''out'', ''model-label'', ''no-output'', ''judge''] o1) ''mock_options'' (Inr MockMode)
     else guard_err (\<not> map_has o1 ''settle'' \<and> (map_has o1 ''cost-usd'' \<or> map_has o1 ''reason'')) ''Settlement options require settle''
       (guard_err (map_has o1 ''no-output'') ''Only mock can skip output''
        (if map_has o1 ''settle'' then
           guard_err (\<not> only_options [''settle'', ''cost-usd'', ''reason'', ''cost-ledger''] o1 \<or> \<not> map_has o1 ''cost-ledger'' \<or> \<not> map_has o1 ''cost-usd''
             \<or> \<not> map_has o1 ''reason'') ''Settlement inputs'' (Inr SettleMode)
         else guard_err (\<not> list_all (map_has o1) (private_inputs o1)) ''Missing private input''
           (if option_set o1 = ''holdout'' then
              guard_err (\<not> map_has o1 ''holdout-sha'') ''Frozen hash required'' (guard_err (\<not> controller_root) ''Controller root required'' (Inr RunMode))
            else Inr RunMode))))"

subsection \<open>Accepted command lines\<close>

definition print_option :: "string \<times> string option \<Rightarrow> string list" where
  "print_option kv = (''--'' @ fst kv) # (case snd kv of Some v \<Rightarrow> [v] | None \<Rightarrow> [])"

definition option_ok :: "string \<times> string option \<Rightarrow> bool" where
  "option_ok kv \<longleftrightarrow> (case snd kv of None \<Rightarrow> fst kv \<in> set flag_names
     | Some v \<Rightarrow> fst kv \<in> set value_names \<and> v \<noteq> [] \<and> \<not> is_option v)"

definition options_ok :: "options \<Rightarrow> bool" where
  "options_ok o1 \<longleftrightarrow> distinct (map fst o1) \<and> list_all option_ok o1"

lemma names_apart: "k \<in> set flag_names \<Longrightarrow> k \<notin> set inherited_keys" "k \<in> set value_names \<Longrightarrow> k \<notin> set inherited_keys \<and> k \<notin> set flag_names"
  by (auto simp: flag_names_def value_names_def inherited_keys_def)

lemma parse_flag: "k \<in> set flag_names \<Longrightarrow> \<not> map_has o1 k \<Longrightarrow> parse_args o1 ((''--'' @ k) # rest) = parse_args (o1 @ [(k, None)]) rest"
  using names_apart(1) [of k] by (simp add: is_option_def)

lemma parse_value: "k \<in> set value_names \<Longrightarrow> \<not> map_has o1 k \<Longrightarrow> v \<noteq> [] \<Longrightarrow> \<not> is_option v
    \<Longrightarrow> parse_args o1 ((''--'' @ k) # v # rest) = parse_args (o1 @ [(k, Some v)]) rest"
  using names_apart(2) [of k] by (simp add: is_option_def)

lemma parse_printed_option:
  assumes "distinct (map fst (o1 @ o2))" "list_all option_ok o2"
  shows "parse_args o1 (concat (map print_option o2)) = Inr (o1 @ o2)"
  using assms
proof (induction o2 arbitrary: o1)
  case (Cons kv o2)
  obtain k v where kv: "kv = (k, v)" by (cases kv)
  have new: "\<not> map_has o1 k" using Cons.prems(1) kv by (auto simp: map_has_def simp del: map_has_iff)
  have IH: "parse_args (o1 @ [(k, v)]) (concat (map print_option o2)) = Inr (o1 @ kv # o2)"
    using Cons.IH [of "o1 @ [(k, v)]"] Cons.prems kv by simp
  show ?case
  proof (cases v)
    case None
    with Cons.prems(2) kv have "k \<in> set flag_names" by (simp add: option_ok_def)
    note f = parse_flag [OF this new]
    have "concat (map print_option (kv # o2)) = (''--'' @ k) # concat (map print_option o2)" by (simp add: kv None print_option_def)
    then show ?thesis using IH None by (simp only: f)
  next
    case (Some t)
    with Cons.prems(2) kv have "k \<in> set value_names" "t \<noteq> []" "\<not> is_option t" by (simp_all add: option_ok_def)
    note f = parse_value [OF this(1) new this(2,3)]
    have "concat (map print_option (kv # o2)) = (''--'' @ k) # t # concat (map print_option o2)" by (simp add: kv Some print_option_def)
    then show ?thesis using IH Some by (simp only: f)
  qed
qed simp

lemma is_option_print: "''--'' @ drop 2 a = a" if "is_option a"
proof -
  from that have "take 2 a = ''--''" by (simp add: is_option_def starts_with_def numeral_2_eq_2)
  then show ?thesis using append_take_drop_id [of 2 a] by simp
qed

lemma print_read_option:
  assumes "is_option a" shows "print_option (drop 2 a, None) = [a]" "print_option (drop 2 a, Some v) = [a, v]"
  unfolding print_option_def fst_conv snd_conv is_option_print [OF assms] by simp_all

lemma parsed_prints:
  assumes "parse_args o1 args = Inr o2" "distinct (map fst o1)" "list_all option_ok o1"
  shows "\<exists>o3. o2 = o1 @ o3 \<and> args = concat (map print_option o3) \<and> options_ok o2"
  using assms
proof (induction o1 args rule: parse_args.induct)
  case (1 o1)
  then show ?case by (simp add: options_ok_def)
next
  case (2 o1 a rest)
  let ?k = "drop 2 a"
  have a: "is_option a" "\<not> map_has o1 ?k" "?k \<notin> set inherited_keys" using 2(3) by (auto split: if_splits)
  then have new: "distinct (map fst (o1 @ [(?k, v)]))" for v using 2(4) by (auto simp: map_has_def simp del: map_has_iff)
  show ?case
  proof (cases "?k \<in> set flag_names")
    case True
    have "option_ok (?k, None)" using True by (simp add: option_ok_def)
    then have "list_all option_ok (o1 @ [(?k, None)])" using 2(5) by simp
    from 2(1) [OF _ _ True _ new this] a True 2(3) obtain o3 where
      "o2 = o1 @ (?k, None) # o3" "rest = concat (map print_option o3)" "options_ok o2" by auto
    then show ?thesis using print_read_option(1) [OF a(1)] by (intro exI [of _ "(?k, None) # o3"]) simp
  next
    case False
    with a 2(3) obtain v others where r: "rest = v # others" "?k \<in> set value_names" "v \<noteq> []" "\<not> is_option v"
      and p: "parse_args (o1 @ [(?k, Some v)]) others = Inr o2"
      by (auto split: if_splits list.splits)
    have "option_ok (?k, Some v)" using r by (simp add: option_ok_def)
    then have "list_all option_ok (o1 @ [(?k, Some v)])" using 2(5) by simp
    from 2(2) [OF _ _ False _ r(1) _ p new this] a r obtain o3 where
      "o2 = o1 @ (?k, Some v) # o3" "others = concat (map print_option o3)" "options_ok o2" by auto
    then show ?thesis using print_read_option(2) [OF a(1)] r(1) by (intro exI [of _ "(?k, Some v) # o3"]) simp
  qed
qed

text \<open>
  The command line of an evaluation is read without guessing: a list of arguments is accepted
  exactly when it is the written form of the options it gives, each of a known name, at most once, flags
  without a text and the others with one that is not empty and does not look like an option.
\<close>

theorem accepted_arguments_are_their_options:
  "parse_args [] args = Inr o1 \<longleftrightarrow> args = concat (map print_option o1) \<and> options_ok o1"
  using parsed_prints [of "[]" args o1] parse_printed_option [of "[]" o1] by (auto simp: options_ok_def)

section \<open>The model that answered\<close>

definition date_parts :: "string \<Rightarrow> (nat \<times> nat \<times> nat) option" where
  "date_parts s = (if length s = 8 \<and> list_all is_digit s then Some (nat_of_digits (take 4 s), nat_of_digits (take 2 (drop 4 s)), nat_of_digits (drop 6 s))
     else if length s = 10 \<and> s ! 4 = CHR ''-'' \<and> s ! 7 = CHR ''-'' \<and> list_all is_digit (take 4 s @ take 2 (drop 5 s) @ drop 8 s)
       then Some (nat_of_digits (take 4 s), nat_of_digits (take 2 (drop 5 s)), nat_of_digits (drop 8 s))
     else None)"

text \<open>A date reads back as itself exactly when the calendar has it.\<close>

definition calendar_date :: "nat \<times> nat \<times> nat \<Rightarrow> bool" where
  "calendar_date d = (case d of (y, m, k) \<Rightarrow> 1 \<le> m \<and> m \<le> 12 \<and> 1 \<le> k \<and> int k \<le> month_length (int y) (int m))"

definition modelIdentityMatches :: "string option \<Rightarrow> string option \<Rightarrow> bool" where
  "modelIdentityMatches label observed = (case (non_empty label, non_empty observed) of
      (Some l, Some s) \<Rightarrow> l = s \<or> (starts_with s (l @ ''-'') \<and> (case date_parts (drop (length l + 1) s) of Some d \<Rightarrow> calendar_date d | None \<Rightarrow> False))
    | _ \<Rightarrow> False)"

section \<open>The snapshot and the prompts\<close>

text \<open>\<open>^-?\d+$\<close>\<close>

definition int_text :: "json option \<Rightarrow> int option" where
  "int_text v = (case v of Some (JStr s) \<Rightarrow>
      (let d = (if starts_with s ''-'' then tl s else s); n = int (nat_of_digits d)
       in if d \<noteq> [] \<and> list_all is_digit d then Some (if starts_with s ''-'' then - n else n) else None)
    | _ \<Rightarrow> None)"

definition validateSnapshot :: "(string \<Rightarrow> num) \<Rightarrow> real \<Rightarrow> json \<Rightarrow> unit result" where
  "validateSnapshot dp started s =
    (case (jstr ''source_hash'' s, int_text (jget ''start_ns'' s), int_text (jget ''end_ns'' s), int_text (jget ''shift_ns'' s), map_option dp (jstr ''replayed_at'' s)) of
       (Some h, Some a, Some b, Some sh, Some (Fin replayed)) \<Rightarrow>
         guard_err (\<not> sha_text h \<or> b \<le> a) ''Invalid snapshot manifest''
           (let now = (if 0 \<le> started then \<lfloor>started\<rfloor> else \<lceil>started\<rceil>) * 1000000; tolerance = 300000000000 in
            guard_err (now < a - tolerance \<or> b + tolerance < now \<or> 300000 < \<bar>started - replayed\<bar>) ''Snapshot replay not near run start'' (Inr ()))
     | _ \<Rightarrow> Inl ''Invalid snapshot manifest'')"

definition sealed_prefix :: string where
  "sealed_prefix = ''a74ce656679ca792''"

definition assertPromptHash :: "string \<Rightarrow> string \<Rightarrow> string option \<Rightarrow> unit result" where
  "assertPromptHash which hash expected =
    guard_err (which = ''benchmark'' \<and> starts_with hash sealed_prefix) ''Sealed input refused''
      (guard_err (which = ''holdout'' \<and> non_empty expected \<noteq> Some hash) ''Frozen sealed hash mismatch'' (Inr ()))"

definition blank_text :: "string option \<Rightarrow> bool" where
  "blank_text v = (case v of Some s \<Rightarrow> \<not> not_blank s | None \<Rightarrow> True)"

definition prompt_refused :: "json \<Rightarrow> bool" where
  "prompt_refused p \<longleftrightarrow> blank_text (jstr ''id'' p) \<or> blank_text (jstr ''prompt'' p)
     \<or> jget ''expect'' p \<notin> {Some (JStr ''dashboard''), Some (JStr ''answer'')} \<or> jstr ''rationale'' p = None"

definition edit_operations :: "string list" where
  "edit_operations = [''title'', ''threshold'', ''add'', ''remove'', ''unit'']"

definition added_id :: "json list \<Rightarrow> json option" where
  "added_id edits = Option.bind (Option.bind (nth_opt edits 2) (jget ''panel'')) (jget ''id'')"

definition validateInputs :: "(string \<Rightarrow> string \<Rightarrow> bool) \<Rightarrow> (json \<Rightarrow> string) \<Rightarrow> (string \<Rightarrow> num) \<Rightarrow> real \<Rightarrow> json \<Rightarrow> json \<Rightarrow> json \<Rightarrow> string \<Rightarrow> unit result" where
  "validateInputs lc js dp started prompts edits snapshot which =
    (case prompts of
       JArr ps \<Rightarrow> guard_err (which \<notin> {''benchmark'', ''holdout''} \<or> ps = [] \<or> list_ex prompt_refused ps \<or> \<not> distinct (map (jget ''id'') ps))
           ''Unique explicit private intents required''
         (if which = ''holdout'' then validateSnapshot dp started snapshot
          else guard_err (length ps \<noteq> 10 \<or> list_ex (\<lambda>p. jget ''expect'' p \<noteq> Some (JStr ''dashboard'')) ps) ''Ten dashboard intents required''
           (case edits of
              JArr es \<Rightarrow> guard_err (stable lc js (JArr (map (\<lambda>e. nullish (jget ''operation'' e) JNull) es)) \<noteq> stable lc js (JArr (map JStr edit_operations)))
                  ''Five consecutive edit operations required''
                (guard_err (blank_text (Option.bind (added_id es) as_str) \<or> Option.bind (nth_opt es 3) (jget ''panel_id'') \<noteq> added_id es)
                  ''Remove must target the newly added panel'' (validateSnapshot dp started snapshot))
            | _ \<Rightarrow> Inl ''Five consecutive edit operations required''))
     | _ \<Rightarrow> Inl ''Unique explicit private intents required'')"

section \<open>What may be published\<close>

text \<open>An entry that is undefined is not written.\<close>

definition entries_of :: "string list \<Rightarrow> json \<Rightarrow> (string \<times> json) list" where
  "entries_of ks v = List.map_filter (\<lambda>k. map_option (\<lambda>x. (k, x)) (jget k v)) ks"

definition snapshotEvidence :: "json option \<Rightarrow> json option" where
  "snapshotEvidence s = (if truthy s then Some (JObj (entries_of [''source_hash'', ''start_ns'', ''end_ns'', ''shift_ns'', ''replayed_at''] (the s))) else None)"

definition list_length :: "json option \<Rightarrow> json" where
  "list_length v = JNum (Fin (case v of Some (JArr xs) \<Rightarrow> real (length xs) | _ \<Rightarrow> 0))"

definition judge_keys :: "string list" where
  "judge_keys = [''status'', ''reason'', ''cost_usd'', ''models'', ''configured_models'', ''records'', ''paired'', ''combined_overall'', ''criterion_mean'',
     ''disagreement_count'', ''coverage'']"

definition opt_entry :: "string \<Rightarrow> json option \<Rightarrow> (string \<times> json) list" where
  "opt_entry k v = (case v of Some x \<Rightarrow> [(k, x)] | None \<Rightarrow> [])"

definition public_run :: "json \<Rightarrow> json" where
  "public_run r = JObj (entries_of [''prompt_id'', ''prompt_sha''] r)"

definition run_list :: "json \<Rightarrow> json list" where
  "run_list e = (case jget ''runs'' e of Some (JArr rs) \<Rightarrow> rs | _ \<Rightarrow> [])"

definition publicEvidence :: "json \<Rightarrow> json" where
  "publicEvidence e =
    (if jget ''set'' e \<noteq> Some (JStr ''holdout'') then e
     else JObj (entries_of [''schema'', ''set'', ''started_at'', ''finished_at'', ''model_label'', ''default_model''] e
       @ [(''model_mismatch_count'', list_length (jget ''model_mismatch'' e)), (''manual_settlement_count'', list_length (jget ''manual_settlements'' e))]
       @ entries_of [''observed_configuration'', ''candidate_source_hash'', ''snapshot_manifest_hash''] e
       @ opt_entry ''snapshot'' (snapshotEvidence (jget ''snapshot'' e)) @ entries_of [''score''] e
       @ (if truthy (jget ''judge_summary'' e) then [(''judge_summary'', JObj (entries_of judge_keys (the (jget ''judge_summary'' e))))] else [])
       @ entries_of [''actual_cost_usd'', ''metered_cost_usd'', ''cost_complete'', ''incomplete''] e
       @ [(''runs'', JArr (map public_run (run_list e)))]))"

text \<open>What the published evidence may depend on: everything of the evidence but the details of its runs and edits.\<close>

definition public_keys :: "string list" where
  "public_keys = [''schema'', ''set'', ''started_at'', ''finished_at'', ''model_label'', ''default_model'', ''observed_configuration'',
     ''candidate_source_hash'', ''snapshot_manifest_hash'', ''score'', ''actual_cost_usd'', ''metered_cost_usd'', ''cost_complete'', ''incomplete'']"

definition same_public :: "json \<Rightarrow> json \<Rightarrow> bool" where
  "same_public e e' \<longleftrightarrow> list_all (\<lambda>k. jget k e = jget k e') (public_keys @ [''snapshot'', ''judge_summary''])
     \<and> map public_run (run_list e) = map public_run (run_list e')
     \<and> list_length (jget ''model_mismatch'' e) = list_length (jget ''model_mismatch'' e')
     \<and> list_length (jget ''manual_settlements'' e) = list_length (jget ''manual_settlements'' e')"

lemma entries_of_cong: "list_all (\<lambda>k. jget k e = jget k e') ks \<Longrightarrow> entries_of ks e = entries_of ks e'"
  by (induction ks) (simp_all add: entries_of_def List.map_filter_simps split: option.split)

text \<open>
  What is published of a sealed evaluation says nothing of how its prompts went one by one:
  two evaluations with the same totals, costs, scores and prompt hashes publish the same text, whatever their
  answers, saved dashboards, edits, tool calls, settlements and judgments were.
\<close>

theorem sealed_details_are_not_published:
  assumes "jget ''set'' e = Some (JStr ''holdout'')" "same_public e e'"
  shows "publicEvidence e = publicEvidence e'"
proof -
  have same: "jget k e = jget k e'" if "k \<in> set (public_keys @ [''snapshot'', ''judge_summary''])" for k
    using assms(2) that unfolding same_public_def list_all_iff by blast
  have parts: "entries_of ks e = entries_of ks e'" if "set ks \<subseteq> set public_keys" for ks
    using that same by (intro entries_of_cong) (auto simp: list_all_iff)
  have "entries_of [''schema'', ''set'', ''started_at'', ''finished_at'', ''model_label'', ''default_model''] e
      = entries_of [''schema'', ''set'', ''started_at'', ''finished_at'', ''model_label'', ''default_model''] e'"
    "entries_of [''observed_configuration'', ''candidate_source_hash'', ''snapshot_manifest_hash''] e
      = entries_of [''observed_configuration'', ''candidate_source_hash'', ''snapshot_manifest_hash''] e'"
    "entries_of [''score''] e = entries_of [''score''] e'"
    "entries_of [''actual_cost_usd'', ''metered_cost_usd'', ''cost_complete'', ''incomplete''] e
      = entries_of [''actual_cost_usd'', ''metered_cost_usd'', ''cost_complete'', ''incomplete''] e'"
    by (rule parts; simp add: public_keys_def)+
  moreover have "jget ''set'' e' = jget ''set'' e" "jget ''snapshot'' e = jget ''snapshot'' e'" "jget ''judge_summary'' e = jget ''judge_summary'' e'"
    using same [of "''set''"] same [of "''snapshot''"] same [of "''judge_summary''"] by (simp_all add: public_keys_def)
  moreover have "map public_run (run_list e) = map public_run (run_list e')" "list_length (jget ''model_mismatch'' e) = list_length (jget ''model_mismatch'' e')"
    "list_length (jget ''manual_settlements'' e) = list_length (jget ''manual_settlements'' e')"
    using assms(2) by (simp_all add: same_public_def)
  ultimately show ?thesis unfolding publicEvidence_def using assms(1) by simp
qed

definition demo_evidence :: "string \<Rightarrow> json" where
  "demo_evidence answer = JObj [(''set'', JStr ''holdout''), (''runs'', JArr [JObj [(''prompt_id'', JStr ''p1''), (''final_text'', JStr answer)]])]"

lemma sealed_details_are_not_published_witness:
  "publicEvidence (demo_evidence ''right'') = publicEvidence (demo_evidence ''wrong'')"
  by (rule sealed_details_are_not_published)
    (simp_all add: demo_evidence_def same_public_def public_keys_def run_list_def public_run_def entries_of_def List.map_filter_simps)

definition exitCode :: "bool \<Rightarrow> bool \<Rightarrow> nat" where
  "exitCode passed incomplete = (if incomplete then 2 else if passed then 0 else 1)"

section \<open>Requests\<close>

definition request_endpoint :: "(string \<Rightarrow> js_url option) \<Rightarrow> (string \<Rightarrow> js_url \<Rightarrow> js_url option) \<Rightarrow> string \<Rightarrow> string \<Rightarrow> js_url result" where
  "request_endpoint url relative origin path = bind_result (originURL url origin) (\<lambda>base.
     guard_err (\<not> starts_with path ''/'' \<or> starts_with path ''//'' \<or> CHR 0x5C \<in> set path) ''Invalid request path''
       (case relative path base of None \<Rightarrow> Inl ''Invalid URL''
        | Some u \<Rightarrow> guard_err (ur_origin u \<noteq> ur_origin base) ''Invalid request origin'' (Inr u)))"

text \<open>What one fetch gives: nothing, with whether it was aborted, or a status and what its body reads as.\<close>

datatype fetched = FetchFailed bool | Answered nat "json option"

datatype request_error = RequestAborted | RequestDisconnected | HTTPError nat bool

definition has_problems :: "json option \<Rightarrow> bool" where
  "has_problems body = (case Option.bind body (jget ''problems'') of Some (JArr ps) \<Rightarrow> ps \<noteq> [] | _ \<Rightarrow> False)"

definition final_answer :: "fetched \<Rightarrow> request_error + nat \<times> json option" where
  "final_answer f = (case f of
      FetchFailed aborted \<Rightarrow> Inl (if aborted then RequestAborted else RequestDisconnected)
    | Answered st body \<Rightarrow> if 200 \<le> st \<and> st \<le> 299 then Inr (st, body) else Inl (HTTPError st (st = 400 \<and> has_problems body)))"

definition worth_retrying :: "fetched \<Rightarrow> bool" where
  "worth_retrying f = (case f of FetchFailed aborted \<Rightarrow> \<not> aborted | Answered st _ \<Rightarrow> 500 \<le> st)"

text \<open>The answer and how many fetches were made; \<open>net\<close> gives the outcome of each attempt.\<close>

definition requestResponse :: "bool \<Rightarrow> (nat \<Rightarrow> fetched) \<Rightarrow> (request_error + nat \<times> json option) \<times> nat" where
  "requestResponse is_get net = (if is_get \<and> worth_retrying (net 0) then (final_answer (net 1), 2) else (final_answer (net 0), 1))"

definition requestJSON :: "bool \<Rightarrow> (nat \<Rightarrow> fetched) \<Rightarrow> json option" where
  "requestJSON is_get net = (case fst (requestResponse is_get net) of Inr (st, body) \<Rightarrow> body | Inl _ \<Rightarrow> None)"

lemma only_reads_are_retried: "snd (requestResponse is_get net) = 2 \<Longrightarrow> is_get"
  by (simp add: requestResponse_def split: if_splits)

section \<open>Cookies\<close>

record cookie =
  co_name :: string
  co_value :: string
  co_path :: string

definition without_cr :: "string \<Rightarrow> string" where
  "without_cr l = (if l \<noteq> [] \<and> last l = cr then butlast l else l)"

text \<open>\<open>split(/\r?\n/)\<close>\<close>

definition jar_lines :: "string \<Rightarrow> string list" where
  "jar_lines jar = (let ls = split_char lf jar in map without_cr (butlast ls) @ [last ls])"

definition cookie_domain_ok :: "(string \<Rightarrow> string) \<Rightarrow> string \<Rightarrow> string \<Rightarrow> string \<Rightarrow> bool" where
  "cookie_domain_ok lo raw subdomains hostname \<longleftrightarrow>
    (let domain = lo (if starts_with raw ''.'' then tl raw else raw); host = lo hostname
     in host = domain \<or> ascii_lower subdomains = ''true'' \<and> ends_with host (''.'' @ domain))"

definition cookie_path_ok :: "string \<Rightarrow> string \<Rightarrow> bool" where
  "cookie_path_ok path pathname \<longleftrightarrow> pathname = path
     \<or> (starts_with pathname path \<and> (ends_with path ''/'' \<or> nth_opt pathname (length path) = Some (CHR ''/'')))"

definition cookie_live :: "num \<Rightarrow> real \<Rightarrow> bool" where
  "cookie_live expiry now \<longleftrightarrow> amount expiry = 0 \<or> now < amount expiry"

definition cookie_line :: "(string \<Rightarrow> string) \<Rightarrow> (string \<Rightarrow> num) \<Rightarrow> real \<Rightarrow> js_url \<Rightarrow> string \<Rightarrow> cookie option result" where
  "cookie_line lo nm now u l =
    (if \<not> starts_with l ''#HttpOnly_'' \<and> (l = [] \<or> starts_with l ''#'') then Inr None
     else (case split_char (CHR 0x09) (if starts_with l ''#HttpOnly_'' then drop 10 l else l) of
         [raw, subdomains, path, secure, expiry, name, val] \<Rightarrow>
           guard_err (\<not> is_finite (nm expiry) \<or> \<not> starts_with path ''/'' \<or> name = [] \<or> list_ex (\<lambda>c. c \<in> {cr, lf, CHR '';'', CHR 0x00}) (name @ val))
               ''Invalid cookie jar''
             (Inr (if cookie_domain_ok lo raw subdomains (ur_hostname u) \<and> cookie_path_ok path (ur_pathname u)
                 \<and> \<not> (ascii_lower secure = ''true'' \<and> ur_protocol u \<noteq> ''https:'') \<and> cookie_live (nm expiry) now
               then Some \<lparr>co_name = name, co_value = val, co_path = path\<rparr> else None))
       | _ \<Rightarrow> Inl ''Malformed cookie jar''))"

fun jar_cookies :: "(string \<Rightarrow> string) \<Rightarrow> (string \<Rightarrow> num) \<Rightarrow> real \<Rightarrow> js_url \<Rightarrow> string list \<Rightarrow> cookie list result" where
  "jar_cookies lo nm now u [] = Inr []"
| "jar_cookies lo nm now u (l # ls) = bind_result (cookie_line lo nm now u l) (\<lambda>c.
     bind_result (jar_cookies lo nm now u ls) (\<lambda>cs. Inr (case c of Some c \<Rightarrow> c # cs | None \<Rightarrow> cs)))"

definition cookieHeader :: "(string \<Rightarrow> string) \<Rightarrow> (string \<Rightarrow> num) \<Rightarrow> real \<Rightarrow> js_url \<Rightarrow> string \<Rightarrow> string result" where
  "cookieHeader lo nm now u jar = bind_result (jar_cookies lo nm now u (jar_lines jar)) (\<lambda>cs.
     Inr (join ''; '' (map (\<lambda>c. co_name c @ ''='' @ co_value c) (sort_by (\<lambda>a b. js_length (co_path b) \<le> js_length (co_path a)) cs))))"

section \<open>Files\<close>

text \<open>What the file system says of a path: whether it exists, is a symbolic link, is a regular file.\<close>

record file_system =
  fi_exists :: "string list \<Rightarrow> bool"
  fi_link :: "string list \<Rightarrow> bool"
  fi_file :: "string list \<Rightarrow> bool"

definition inside :: "string list \<Rightarrow> string list \<Rightarrow> bool" where
  "inside dir path = prefix dir path"

definition noSymlinks :: "file_system \<Rightarrow> string list \<Rightarrow> string list result" where
  "noSymlinks fs path = guard_err (list_ex (\<lambda>i. fi_exists fs (take i path) \<and> fi_link fs (take i path)) [1..<Suc (length path)])
     ''Symlinks are forbidden'' (Inr path)"

definition privateFile :: "file_system \<Rightarrow> string list \<Rightarrow> string list result" where
  "privateFile fs path = bind_result (noSymlinks fs path) (\<lambda>t. guard_err (\<not> fi_file fs t) ''Input must be a regular file'' (Inr t))"

definition eval_root :: "string list \<Rightarrow> string list" where
  "eval_root dir = dir @ [''.cache'', ''dashboard-eval'']"

definition validateOutput :: "file_system \<Rightarrow> string list \<Rightarrow> string list option \<Rightarrow> string list \<Rightarrow> string \<Rightarrow> string list result" where
  "validateOutput fs dir sealed path which = bind_result (noSymlinks fs path) (\<lambda>t.
     bind_result
       (if which = ''benchmark'' then guard_err (\<not> inside (eval_root dir) t \<or> t = eval_root dir) ''Benchmark output must be under .cache/dashboard-eval/'' (Inr ())
        else if which = ''holdout'' then (case sealed of
            None \<Rightarrow> Inl ''Controller output root required''
          | Some r \<Rightarrow> bind_result (noSymlinks fs r) (\<lambda>out.
              guard_err (inside dir out \<or> inside dir t \<or> \<not> inside out t \<or> t = out) ''Sealed output must be outside the worktree'' (Inr ())))
        else Inl ''Invalid evaluation set'')
       (\<lambda>_. guard_err (fi_exists fs t) ''Output already exists'' (Inr t)))"

text \<open>
  Where an evaluation may write: an output that is accepted does not exist yet, no part of its
  path is a link, a benchmark writes strictly below its directory of the worktree, and a sealed evaluation
  strictly below the root of its controller and nowhere in the worktree.
\<close>

theorem accepted_output_is_in_its_place:
  assumes "validateOutput fs dir sealed path which = Inr t"
  shows "t = path \<and> \<not> fi_exists fs t \<and> (\<forall>i \<in> {1..length t}. \<not> (fi_exists fs (take i t) \<and> fi_link fs (take i t)))
    \<and> (which = ''benchmark'' \<and> strict_prefix (eval_root dir) t
       \<or> which = ''holdout'' \<and> \<not> prefix dir t \<and> (\<exists>out. sealed = Some out \<and> strict_prefix out t \<and> \<not> prefix dir out))"
proof -
  have sym: "noSymlinks fs p = Inr q \<Longrightarrow> q = p \<and> (\<forall>i \<in> {1..length p}. \<not> (fi_exists fs (take i p) \<and> fi_link fs (take i p)))" for p q
    by (auto simp: noSymlinks_def guard_err_def list_ex_iff split: if_splits)
  obtain u where u: "noSymlinks fs path = Inr u" using assms by (auto simp: validateOutput_def bind_result_def split: sum.splits)
  note s = sym [OF u]
  have "\<not> fi_exists fs u" "t = u" using assms u
    by (auto simp: validateOutput_def bind_result_def guard_err_def split: sum.splits if_splits)
  moreover have "which = ''benchmark'' \<and> strict_prefix (eval_root dir) u
      \<or> which = ''holdout'' \<and> \<not> prefix dir u \<and> (\<exists>out. sealed = Some out \<and> strict_prefix out u \<and> \<not> prefix dir out)"
    using assms u sym by (fastforce simp: validateOutput_def bind_result_def guard_err_def inside_def strict_prefix_def split: sum.splits if_splits option.splits)
  ultimately show ?thesis using s by blast
qed

lemma accepted_output_is_in_its_place_witness:
  "strict_prefix (eval_root [''w'']) [''w'', ''.cache'', ''dashboard-eval'', ''run'']"
  using accepted_output_is_in_its_place
    [of "\<lparr>fi_exists = \<lambda>_. False, fi_link = \<lambda>_. False, fi_file = \<lambda>_. False\<rparr>" "[''w'']" None "[''w'', ''.cache'', ''dashboard-eval'', ''run'']" "''benchmark''"
      "[''w'', ''.cache'', ''dashboard-eval'', ''run'']"]
  by (simp add: validateOutput_def noSymlinks_def inside_def eval_root_def)

end
