(* ===== verification/Eval_Runner.thy ===== *)
theory Eval_Runner
  imports Eval_Inputs
begin

text \<open>
  The evaluation itself (\<open>scripts/dashboard-eval/main.ts\<close>): the exact edits, one turn of the agent, the suite
  of prompts and edits, and its verdict. What the server answers to one turn is a record of replies; new ids
  are given with it. \<open>sv\<close> is \<open>String\<close> of a value, \<open>js\<close> and \<open>jp\<close> print and read JSON, \<open>lc\<close> orders keys,
  \<open>dp\<close> is \<open>Date.parse\<close>. Clock times are left out but for the time of the save, which is one of the replies.
\<close>

section \<open>Exact edits (buildEdit)\<close>

record edit_input =
  ei_operation :: operation
  ei_panel_id :: "string option"
  ei_panel_index :: "int option"
  ei_field :: "string option"
  ei_value :: "json option"
  ei_panel :: "entries option"
  ei_after :: "string option"

definition panel_at :: "spec \<Rightarrow> string \<Rightarrow> nat option" where
  "panel_at b i = find_index (\<lambda>p. map_of p ''id'' = Some (JStr i)) (es_panels b)"

definition edit_target :: "spec \<Rightarrow> edit_input \<Rightarrow> nat option" where
  "edit_target b i = (case non_empty (ei_panel_id i) of
      Some k \<Rightarrow> panel_at b k
    | None \<Rightarrow> (let n = nullish (ei_panel_index i) (-1) in if 0 \<le> n \<and> nat n < length (es_panels b) then Some (nat n) else None))"

definition set_panels :: "entries list \<Rightarrow> spec \<Rightarrow> spec" where
  "set_panels ps b = b\<lparr>es_panels := ps\<rparr>"

definition set_field :: "nat \<Rightarrow> string \<Rightarrow> json \<Rightarrow> spec \<Rightarrow> spec" where
  "set_field n k v b = set_panels ((es_panels b)[n := AList.update k v (es_panels b ! n)]) b"

definition add_panel :: "entries \<Rightarrow> string option \<Rightarrow> spec \<Rightarrow> spec result" where
  "add_panel p aft b =
    guard_err (\<not> truthy (map_of p ''id'') \<or> list_ex (\<lambda>q. map_of q ''id'' = map_of p ''id'') (es_panels b)) ''Invalid added panel''
      (case non_empty aft of
         None \<Rightarrow> Inr (set_panels (es_panels b @ [p]) b)
       | Some a \<Rightarrow> (case panel_at b a of
           None \<Rightarrow> Inl ''Invalid add placement''
         | Some n \<Rightarrow> Inr (set_panels (take (Suc n) (es_panels b) @ p # drop (Suc n) (es_panels b)) b)))"

definition apply_edit :: "spec \<Rightarrow> edit_input \<Rightarrow> nat \<Rightarrow> spec result" where
  "apply_edit b i n = (case ei_operation i of
      ORemove \<Rightarrow> Inr (set_panels (take n (es_panels b) @ drop (Suc n) (es_panels b)) b)
    | OTitle \<Rightarrow> (case ei_value i of Some (JStr t) \<Rightarrow> guard_err (\<not> not_blank t) ''Invalid title'' (Inr (set_field n ''title'' (JStr t) b)) | _ \<Rightarrow> Inl ''Invalid title'')
    | OThreshold \<Rightarrow> (case ei_value i of
        Some (JArr ts) \<Rightarrow> guard_err (nullish (ei_field i) ''thresholds'' \<noteq> ''thresholds'' \<or> ts = []) ''Invalid thresholds'' (Inr (set_field n ''thresholds'' (JArr ts) b))
      | _ \<Rightarrow> Inl ''Invalid thresholds'')
    | OUnit \<Rightarrow> (case ei_value i of
        Some v \<Rightarrow> guard_err (nullish (ei_field i) ''unit'' \<noteq> ''unit'') ''Invalid unit'' (Inr (set_field n ''unit'' v b))
      | None \<Rightarrow> Inl ''Invalid unit'')
    | OMove \<Rightarrow> (case ei_value i of
        Some (JObj g) \<Rightarrow> Inr (set_field n ''grid'' (JObj g) b)
      | Some (JArr g) \<Rightarrow> Inr (set_field n ''grid'' (JArr g) b)
      | _ \<Rightarrow> Inl ''Invalid grid'')
    | OAdd \<Rightarrow> Inl ''Invalid edit operation'')"

definition spec_json :: "spec \<Rightarrow> json" where
  "spec_json b = normalized_panels (es_rest b) (es_panels b)"

definition opt_json :: "string \<Rightarrow> json option \<Rightarrow> (string \<times> json) list" where
  "opt_json k v = (case v of Some x \<Rightarrow> [(k, x)] | None \<Rightarrow> [])"

definition edit_field :: "edit_input \<Rightarrow> string" where
  "edit_field i = (case ei_operation i of OTitle \<Rightarrow> ''title'' | OThreshold \<Rightarrow> ''thresholds'' | OMove \<Rightarrow> ''grid'' | _ \<Rightarrow> nullish (ei_field i) ''unit'')"

definition edit_change :: "spec \<Rightarrow> edit_input \<Rightarrow> nat option \<Rightarrow> json" where
  "edit_change b i n =
    (let target = Option.bind n (\<lambda>n. map_of (es_panels b ! n) ''id'') in
     case ei_operation i of
       OAdd \<Rightarrow> JObj (opt_json ''add_panel'' (map_option JObj (ei_panel i)) @ opt_json ''after'' (map_option JStr (non_empty (ei_after i))))
     | ORemove \<Rightarrow> JObj (opt_json ''remove_panel_id'' target)
     | _ \<Rightarrow> JObj (opt_json ''panel_id'' target @ [(''field'', JStr (edit_field i))] @ opt_json ''value'' (ei_value i)))"

definition edit_prompt :: "(json \<Rightarrow> string) \<Rightarrow> edit_input \<Rightarrow> json \<Rightarrow> string" where
  "edit_prompt js i change = ''Apply exactly this change to the saved dashboard: '' @ js change
     @ ''. Preserve every unrelated authored field, dashboard metadata, time, annotations, variables and panel order. ''
     @ (if ei_operation i \<in> {OAdd, ORemove, OMove} then ''Only physical grid packing may change for placement.'' else ''Preserve all grids too.'')"

definition buildEdit :: "(string \<Rightarrow> string \<Rightarrow> bool) \<Rightarrow> (json \<Rightarrow> string) \<Rightarrow> spec \<Rightarrow> edit_input \<Rightarrow> (spec \<times> string) result" where
  "buildEdit lc js b i =
    (let n = edit_target b i in
     bind_result
       (if ei_operation i = OAdd then (case ei_panel i of Some p \<Rightarrow> add_panel p (ei_after i) b | None \<Rightarrow> Inl ''Invalid added panel'')
        else (case n of Some n \<Rightarrow> apply_edit b i n | None \<Rightarrow> Inl ''Edit target not in saved dashboard''))
       (\<lambda>e. guard_err (stable lc js (spec_json b) = stable lc js (spec_json e)) ''No-op edit''
          (Inr (e, edit_prompt js i (edit_change b i n)))))"

text \<open>What one edit may do to the panels: change one field of one panel, add one or remove one.\<close>

inductive one_edit :: "operation \<Rightarrow> entries list \<Rightarrow> entries list \<Rightarrow> bool" where
  field_edit: "one_edit op (xs @ p # ys) (xs @ AList.update k v p # ys)"
    if "op \<notin> {OAdd, ORemove}" "k = (case op of OTitle \<Rightarrow> ''title'' | OThreshold \<Rightarrow> ''thresholds'' | OMove \<Rightarrow> ''grid'' | _ \<Rightarrow> ''unit'')"
| add_edit: "one_edit OAdd (xs @ ys) (xs @ p # ys)" if "map_of p ''id'' \<notin> (\<lambda>q. map_of q ''id'') ` set (xs @ ys)"
| remove_edit: "one_edit ORemove (xs @ p # ys) (xs @ ys)"

lemma edit_target_bound: "edit_target b i = Some n \<Longrightarrow> n < length (es_panels b)"
  by (auto simp: edit_target_def panel_at_def Let_def dest: find_index_Some split: option.splits if_splits)

lemma set_field_parts:
  assumes "n < length (es_panels b)"
  shows "es_panels b = take n (es_panels b) @ es_panels b ! n # drop (Suc n) (es_panels b)"
    "es_panels (set_field n k v b) = take n (es_panels b) @ AList.update k v (es_panels b ! n) # drop (Suc n) (es_panels b)"
  using assms by (simp_all add: id_take_nth_drop [symmetric] set_field_def set_panels_def upd_conv_take_nth_drop)

lemma set_field_edit:
  assumes "n < length (es_panels b)" "op \<notin> {OAdd, ORemove}"
    "k = (case op of OTitle \<Rightarrow> ''title'' | OThreshold \<Rightarrow> ''thresholds'' | OMove \<Rightarrow> ''grid'' | _ \<Rightarrow> ''unit'')"
  shows "one_edit op (es_panels b) (es_panels (set_field n k v b)) \<and> es_rest (set_field n k v b) = es_rest b"
  using field_edit [OF assms(2,3), of "take n (es_panels b)" "es_panels b ! n" "drop (Suc n) (es_panels b)" v] set_field_parts [OF assms(1)]
  by (metis set_field_def set_panels_def spec.select_convs(1) spec.surjective spec.update_convs(2))

lemma apply_edit_one:
  assumes "apply_edit b i n = Inr e" "n < length (es_panels b)"
  shows "one_edit (ei_operation i) (es_panels b) (es_panels e) \<and> es_rest e = es_rest b"
proof (cases "ei_operation i = ORemove")
  case True
  with assms(1) have "e = set_panels (take n (es_panels b) @ drop (Suc n) (es_panels b)) b" by (simp add: apply_edit_def)
  then show ?thesis using remove_edit [of "take n (es_panels b)" "es_panels b ! n" "drop (Suc n) (es_panels b)"] set_field_parts(1) [OF assms(2)] True
    by (simp add: set_panels_def)
next
  case False
  with assms(1) obtain k v where "e = set_field n k v b" "ei_operation i \<notin> {OAdd, ORemove}"
    "k = (case ei_operation i of OTitle \<Rightarrow> ''title'' | OThreshold \<Rightarrow> ''thresholds'' | OMove \<Rightarrow> ''grid'' | _ \<Rightarrow> ''unit'')"
    by (cases "ei_operation i") (auto simp: apply_edit_def guard_err_def split: option.splits json.splits if_splits)
  then show ?thesis using set_field_edit [OF assms(2)] by blast
qed

lemma add_panel_one:
  assumes "add_panel p a b = Inr e"
  shows "one_edit OAdd (es_panels b) (es_panels e) \<and> es_rest e = es_rest b"
proof -
  have new: "map_of p ''id'' \<notin> (\<lambda>q. map_of q ''id'') ` set (es_panels b)"
    using assms by (auto simp: add_panel_def guard_err_def list_ex_iff split: if_splits)
  obtain n where n: "e = set_panels (take n (es_panels b) @ p # drop n (es_panels b)) b"
  proof (cases "non_empty a")
    case None
    with assms have "e = set_panels (take (length (es_panels b)) (es_panels b) @ p # drop (length (es_panels b)) (es_panels b)) b"
      by (simp add: add_panel_def guard_err_def split: if_splits)
    with that show thesis by blast
  next
    case (Some k)
    with assms obtain n where "e = set_panels (take (Suc n) (es_panels b) @ p # drop (Suc n) (es_panels b)) b"
      by (auto simp: add_panel_def guard_err_def split: if_splits option.splits)
    with that show thesis by blast
  qed
  then show ?thesis using add_edit [of p "take n (es_panels b)" "drop n (es_panels b)"] new by (simp add: set_panels_def)
qed

text \<open>
  The edit an evaluation asks for is exactly one change: in the dashboard that is expected one
  panel has the one field of the operation set, or one panel with a new id is added, or one is removed; the
  other panels, their order and everything else of the dashboard are those before, and the text of the
  dashboard is not the same.
\<close>

theorem expected_edit_is_one_change:
  assumes "buildEdit lc js b i = Inr (e, prompt)"
  shows "one_edit (ei_operation i) (es_panels b) (es_panels e) \<and> es_rest e = es_rest b
    \<and> stable lc js (spec_json b) \<noteq> stable lc js (spec_json e)"
proof -
  have ne: "stable lc js (spec_json b) \<noteq> stable lc js (spec_json e)"
    using assms by (auto simp: buildEdit_def Let_def bind_result_Inr guard_err_def split: if_splits)
  show ?thesis
  proof (cases "ei_operation i = OAdd")
    case True
    with assms obtain p where "add_panel p (ei_after i) b = Inr e"
      by (auto simp: buildEdit_def Let_def bind_result_Inr guard_err_def split: if_splits option.splits)
    from add_panel_one [OF this] True ne show ?thesis by simp
  next
    case False
    with assms obtain n where n: "edit_target b i = Some n" "apply_edit b i n = Inr e"
      by (auto simp: buildEdit_def Let_def bind_result_Inr guard_err_def split: if_splits option.splits)
    from apply_edit_one [OF n(2) edit_target_bound [OF n(1)]] ne show ?thesis by simp
  qed
qed

definition demo_edit :: edit_input where
  "demo_edit = \<lparr>ei_operation = ORemove, ei_panel_id = Some ''p'', ei_panel_index = None, ei_field = None, ei_value = None, ei_panel = None, ei_after = None\<rparr>"

lemma expected_edit_is_one_change_witness:
  "one_edit ORemove [[(''id'', JStr ''p'')]] []"
proof -
  let ?js = "\<lambda>v. case jget ''panels'' v of Some (JArr []) \<Rightarrow> ''none'' | _ \<Rightarrow> ''some''"
  have "buildEdit (\<lambda>_ _. True) ?js \<lparr>es_rest = [], es_panels = [[(''id'', JStr ''p'')]]\<rparr> demo_edit
      = Inr (\<lparr>es_rest = [], es_panels = []\<rparr>, edit_prompt ?js demo_edit (edit_change \<lparr>es_rest = [], es_panels = [[(''id'', JStr ''p'')]]\<rparr> demo_edit (Some 0)))"
    by (simp add: buildEdit_def demo_edit_def edit_target_def panel_at_def non_empty_def apply_edit_def set_panels_def spec_json_def stable_def
        normalized_panels_def)
  from expected_edit_is_one_change [OF this] show ?thesis by (simp add: demo_edit_def)
qed

section \<open>One turn\<close>

record eval_config =
  ec_ledger :: ledger
  ec_cap :: num
  ec_mock :: bool
  ec_label :: "string option"
  ec_set :: string

record eval_prompt =
  ep_id :: string
  ep_text :: string
  ep_expect :: expectation

text \<open>
  What the server answers: whether the run was accepted, its stream, then the thread, the versions of the saved
  dashboard, the run of its panels and the status of the run (None when a read failed), and when the save came.
\<close>

record turn_replies =
  tr_accepted :: bool
  tr_is_stream :: bool
  tr_chunks :: "(nat \<times> string) list"
  tr_ending :: sse_ending
  tr_messages :: "json option"
  tr_versions :: "json option"
  tr_panels :: "bool + json"
  tr_status :: "json option"
  tr_elapsed :: num

record mismatch =
  mm_run :: string
  mm_step :: "json option"
  mm_expected :: "string option"
  mm_observed :: "string option"

text \<open>What the turns of an evaluation share: the ledger, the first model seen and the calls of another model.\<close>

record evaluation =
  ev_ledger :: ledger
  ev_default :: "string option"
  ev_mismatch :: "mismatch list"

record turn_result = intent_run +
  tu_prompt :: string
  tu_run :: string
  tu_record :: "json option"
  tu_error :: "string option"
  tu_version :: "json option"
  tu_settlement :: string
  tu_cost :: "real option"
  tu_status :: "(bool \<times> json option) option"
  tu_terminal :: "string option"
  tu_truncated :: bool

definition blank_turn :: "eval_prompt \<Rightarrow> string \<Rightarrow> turn_result" where
  "blank_turn p run = \<lparr>rn_complete = False, rn_saved = False, rn_elapsed = None, rn_valid = False, rn_checked = False, rn_panels = [], rn_checks = [],
     ir_expect = ep_expect p, ir_text = [], ir_mutated = False, ir_evidence = False, ir_incomplete = False,
     tu_prompt = ep_id p, tu_run = run, tu_record = None, tu_error = None, tu_version = None, tu_settlement = ''unknown'', tu_cost = None,
     tu_status = None, tu_terminal = None, tu_truncated = False\<rparr>"

subsection \<open>The usage of a stream\<close>

definition num_at :: "string \<Rightarrow> json \<Rightarrow> num option" where
  "num_at k v = (case jget k v of Some (JNum n) \<Rightarrow> Some n | _ \<Rightarrow> None)"

definition usage_of :: "json \<Rightarrow> usage option" where
  "usage_of v = (case (num_at ''input_tokens'' v, num_at ''output_tokens'' v, num_at ''cache_read_tokens'' v, num_at ''cache_write_tokens'' v, num_at ''reasoning_tokens'' v) of
      (Some i, Some o1, Some r, Some w, Some g) \<Rightarrow> Some \<lparr>us_input = i, us_output = o1, us_cache_read = r, us_cache_write = w, us_reasoning = g\<rparr>
    | _ \<Rightarrow> None)"

text \<open>A usage of the declared type; any other value is refused by the ledger.\<close>

definition usage_call :: "json option \<Rightarrow> call_usage option" where
  "usage_call v = Option.bind v (\<lambda>v. case (jstr ''run_id'' v, num_at ''step'' v, jstr ''provider'' v, jstr ''model'' v, jstr ''status'' v) of
      (Some r, Some n, Some p, Some m, Some st) \<Rightarrow> map_option (\<lambda>u. \<lparr>cu_run = r, cu_step = n, cu_provider = p, cu_model = m, cu_status = st, cu_usage = u\<rparr>)
        (case jget ''usage'' v of None \<Rightarrow> Some None | Some JNull \<Rightarrow> Some None | Some u \<Rightarrow> map_option Some (usage_of u))
    | _ \<Rightarrow> None)"

definition take_usage :: "(string \<Rightarrow> num) \<Rightarrow> string \<Rightarrow> json option \<Rightarrow> ledger \<Rightarrow> ledger option" where
  "take_usage dp run v l = (case usage_call v of
      Some c \<Rightarrow> if cu_run c = run then (case recordUsage dp l c of Inr l' \<Rightarrow> Some l' | Inl _ \<Rightarrow> None) else None
    | None \<Rightarrow> None)"

definition usage_ledger :: "(string \<Rightarrow> num) \<Rightarrow> string \<Rightarrow> json option list \<Rightarrow> ledger \<Rightarrow> ledger" where
  "usage_ledger dp run vs l = fold (\<lambda>v l. nullish (take_usage dp run v l) l) vs l"

definition usage_listener :: "(string \<Rightarrow> num) \<Rightarrow> string \<Rightarrow> ledger \<Rightarrow> json option list \<Rightarrow> json option \<Rightarrow> bool" where
  "usage_listener dp run l earlier v \<longleftrightarrow> take_usage dp run v (usage_ledger dp run earlier l) \<noteq> None"

subsection \<open>The model that answered\<close>

definition field_text :: "(json \<Rightarrow> string) \<Rightarrow> string \<Rightarrow> json \<Rightarrow> string" where
  "field_text sv k v = (case jget k v of Some x \<Rightarrow> sv x | None \<Rightarrow> ''undefined'')"

definition model_name :: "(json \<Rightarrow> string) \<Rightarrow> json \<Rightarrow> string" where
  "model_name sv v = field_text sv ''provider'' v @ '':'' @ field_text sv ''model'' v"

definition configured_model :: "(json \<Rightarrow> string) \<Rightarrow> sse_state \<Rightarrow> string option" where
  "configured_model sv s = (if truthy (ss_config s) then map_option (model_name sv) (ss_config s) else None)"

definition expected_model :: "(json \<Rightarrow> string) \<Rightarrow> string option \<Rightarrow> sse_state \<Rightarrow> string option \<Rightarrow> string option" where
  "expected_model sv label s dflt = (case non_empty label of
      Some l \<Rightarrow> if CHR '':'' \<in> set l then Some l
        else if truthy (ss_config s) then Some (field_text sv ''provider'' (the (ss_config s)) @ '':'' @ l) else dflt
    | None \<Rightarrow> dflt)"

text \<open>A usage that is null throws, after those before it were looked at.\<close>

definition readable_usages :: "sse_state \<Rightarrow> json list \<times> bool" where
  "readable_usages s = (let vs = takeWhile (\<lambda>v. v \<noteq> None \<and> v \<noteq> Some JNull) (ss_usage s) in (map the vs, length vs = length (ss_usage s)))"

definition usage_mismatches :: "(json \<Rightarrow> string) \<Rightarrow> string \<Rightarrow> string option \<Rightarrow> json list \<Rightarrow> mismatch list" where
  "usage_mismatches sv run expected vs =
    map (\<lambda>v. \<lparr>mm_run = run, mm_step = jget ''step'' v, mm_expected = expected, mm_observed = Some (model_name sv v)\<rparr>)
      (filter (\<lambda>v. \<not> modelIdentityMatches expected (Some (model_name sv v)) \<or> jget ''provider'' v = Some (JStr ''unknown'')
         \<or> jget ''model'' v = Some (JStr ''unknown'')) vs)"

subsection \<open>What was saved\<close>

definition panel_list :: "json \<Rightarrow> json list" where
  "panel_list rec = (case Option.bind (jget ''spec'' rec) (jget ''panels'') of Some (JArr ps) \<Rightarrow> ps | _ \<Rightarrow> [])"

definition panel_of :: "json \<Rightarrow> saved_panel" where
  "panel_of p = \<lparr>sp_id = nullish (jstr ''id'' p) [], sp_description = jstr ''description'' p, sp_viz = jstr ''viz'' p, sp_content = jstr ''content'' p\<rparr>"

text \<open>The version of the save in the list of versions; a version that is null throws.\<close>

definition version_matches :: "json \<Rightarrow> json \<Rightarrow> json list option" where
  "version_matches rec reply = (case jget ''versions'' reply of
      Some (JArr vs) \<Rightarrow> if JNull \<in> set vs then None else Some (filter (\<lambda>v. jget ''version'' v = jget ''version'' rec) vs)
    | Some JNull \<Rightarrow> Some [] | None \<Rightarrow> if reply = JNull then None else Some []
    | _ \<Rightarrow> None)"

text \<open>What the turn keeps of a save, and whether its evidence was complete.\<close>

definition note_save :: "turn_replies \<Rightarrow> found_save \<Rightarrow> turn_result \<Rightarrow> turn_result \<times> bool" where
  "note_save rp sv r =
    (let rec = fs_record sv;
         r1 = r\<lparr>rn_saved := True, tu_record := Some rec, rn_elapsed := Some (tr_elapsed rp), rn_panels := map panel_of (panel_list rec)\<rparr>
     in case Option.bind (tr_versions rp) (version_matches rec) of
          Some [v] \<Rightarrow> (case executePanels (map (jget ''id'') (panel_list rec)) (tr_panels rp) of
              (valid, checked, cs) \<Rightarrow> (r1\<lparr>tu_version := Some v, rn_valid := valid, rn_checked := checked, rn_checks := cs\<rparr>, True))
        | _ \<Rightarrow> (r1, False))"

definition thread_messages :: "json option \<Rightarrow> json list option" where
  "thread_messages v = (case Option.bind v (jget ''messages'') of Some (JArr ms) \<Rightarrow> Some ms | _ \<Rightarrow> None)"

text \<open>Reading an answered run; the flag says that nothing threw.\<close>

definition read_run :: "(json \<Rightarrow> string) \<Rightarrow> eval_config \<Rightarrow> string \<Rightarrow> turn_replies \<Rightarrow> sse_state \<Rightarrow> evaluation \<Rightarrow> turn_result \<Rightarrow> turn_result \<times> evaluation \<times> bool" where
  "read_run sv cfg run rp s ev r =
    (let configured = configured_model sv s;
         dflt = (case ev_default ev of Some d \<Rightarrow> Some d | None \<Rightarrow> configured);
         expected = expected_model sv (ec_label cfg) s dflt;
         vs = readable_usages s;
         seen = ev_mismatch ev @ usage_mismatches sv run expected (fst vs);
         r1 = r\<lparr>tu_terminal := ss_terminal s, tu_truncated := ss_truncated s\<rparr>
     in if \<not> snd vs then (r1, ev\<lparr>ev_default := dflt, ev_mismatch := seen\<rparr>, False)
        else (let all_seen = seen @ (if modelIdentityMatches expected configured then []
                    else [\<lparr>mm_run = run, mm_step = None, mm_expected = expected, mm_observed = configured\<rparr>]);
                  messages = thread_messages (tr_messages rp);
                  found = findSaved s (nullish messages []);
                  evidence = mutationEvidence (snd found) messages;
                  r2 = r1\<lparr>ir_text := ss_final s, ir_mutated := fst evidence, ir_evidence := snd evidence\<rparr>;
                  saved = (case fst found of Some f \<Rightarrow> note_save rp f r2 | None \<Rightarrow> (r2, True));
                  r3 = fst saved;
                  incomplete = (all_seen \<noteq> [] \<or> ss_incomplete s \<or> rn_saved r3 \<and> \<not> rn_checked r3)
              in (if snd saved then r3\<lparr>ir_incomplete := incomplete,
                      tu_error := (if all_seen \<noteq> [] then Some ''model_mismatch'' else case ss_code s of Some c \<Rightarrow> Some c
                        | None \<Rightarrow> if incomplete then Some ''checks_incomplete'' else None)\<rparr>
                  else r3, ev\<lparr>ev_default := dflt, ev_mismatch := all_seen\<rparr>, snd saved)))"

text \<open>The status of a run that is not complete is read once, and said to be unavailable when the read fails.\<close>

definition probe_status :: "json option \<Rightarrow> bool \<times> json option" where
  "probe_status v = (case v of None \<Rightarrow> (False, Some (JStr ''unavailable'')) | Some JNull \<Rightarrow> (False, Some (JStr ''unavailable''))
     | Some s \<Rightarrow> (True, jget ''status'' s))"

text \<open>The turn is settled whether or not its reading threw.\<close>

definition settle_turn :: "string \<Rightarrow> turn_replies \<Rightarrow> sse_state option \<Rightarrow> evaluation \<Rightarrow> turn_result \<Rightarrow> (turn_result \<times> evaluation) result" where
  "settle_turn run rp s ev r =
    (let finished = (case s of Some s \<Rightarrow> ss_terminal s = Some ''RUN_FINISHED'' \<and> \<not> ss_incomplete s | None \<Rightarrow> False);
         definitive = (case s of Some s \<Rightarrow> ss_terminal s \<noteq> None \<or> ss_truncated s | None \<Rightarrow> False);
         failed = (case s of Some s \<Rightarrow> ss_truncated s \<or> ss_terminal s = Some ''RUN_ERROR'' | None \<Rightarrow> False)
     in bind_result (settlePrompt (ev_ledger ev) run finished definitive) (\<lambda>l.
       case find (\<lambda>p. lp_run p = run) (lg_prompts l) of
         None \<Rightarrow> Inl ''Unknown prompt''
       | Some p \<Rightarrow>
           (let inc1 = (if lp_settled p \<and> \<not> lp_completed p \<and> failed then ev_mismatch ev \<noteq> [] \<or> rn_saved r \<and> \<not> rn_checked r else ir_incomplete r);
                inc2 = (inc1 \<or> \<not> lp_settled p)
            in Inr (r\<lparr>rn_complete := lp_completed p \<and> finished, tu_settlement := nullish (lp_status p) ''unknown'', tu_cost := lp_cost p,
                  ir_incomplete := inc2, tu_error := (if lp_settled p then tu_error r else Some (nullish (tu_error r) ''usage_incomplete'')),
                  tu_status := (if inc2 then Some (probe_status (tr_status rp)) else None)\<rparr>,
                ev\<lparr>ev_ledger := l\<rparr>))))"

definition turn_blocked :: "(string \<Rightarrow> num) \<Rightarrow> eval_config \<Rightarrow> evaluation \<Rightarrow> bool" where
  "turn_blocked dp cfg ev \<longleftrightarrow> \<not> ec_mock cfg \<and> \<not> canStartPrompt dp (ev_ledger ev) (ec_cap cfg)"

definition turn :: "(string \<Rightarrow> num) \<Rightarrow> (string \<Rightarrow> json option) \<Rightarrow> (json option \<Rightarrow> string option) \<Rightarrow> (json \<Rightarrow> string) \<Rightarrow> eval_config
    \<Rightarrow> eval_prompt \<Rightarrow> string \<Rightarrow> turn_replies \<Rightarrow> evaluation \<Rightarrow> (turn_result \<times> evaluation) result" where
  "turn dp jp st sv cfg p run rp ev =
    (if turn_blocked dp cfg ev then Inr ((blank_turn p run)\<lparr>ir_incomplete := True, tu_error := Some ''budget_or_unsettled_usage''\<rparr>, ev)
     else bind_result (beginPrompt (ev_ledger ev) run (ep_id p)) (\<lambda>l.
       if \<not> tr_accepted rp then
         settle_turn run rp None (ev\<lparr>ev_ledger := l\<rparr>) ((blank_turn p run)\<lparr>ir_incomplete := True, tu_error := Some ''request_or_evidence_incomplete''\<rparr>)
       else (let s = readSSE (usage_listener dp run l) jp st sv (tr_is_stream rp) (tr_chunks rp) (tr_ending rp);
                 read = read_run sv cfg run rp s (ev\<lparr>ev_ledger := usage_ledger dp run (ss_usage s) l\<rparr>) (blank_turn p run);
                 r = (if snd (snd read) then fst read else (fst read)\<lparr>ir_incomplete := True, tu_error := Some ''request_or_evidence_incomplete''\<rparr>)
             in settle_turn run rp (Some s) (fst (snd read)) r)))"

section \<open>The suite\<close>

type_synonym job = "string \<times> turn_replies"

text \<open>The prompts in order, up to the first that is not complete.\<close>

fun run_prompts :: "(string \<Rightarrow> num) \<Rightarrow> (string \<Rightarrow> json option) \<Rightarrow> (json option \<Rightarrow> string option) \<Rightarrow> (json \<Rightarrow> string) \<Rightarrow> eval_config
    \<Rightarrow> (eval_prompt \<times> job) list \<Rightarrow> evaluation \<Rightarrow> (turn_result list \<times> evaluation) result" where
  "run_prompts dp jp st sv cfg [] ev = Inr ([], ev)"
| "run_prompts dp jp st sv cfg ((p, run, rp) # jobs) ev = bind_result (turn dp jp st sv cfg p run rp ev) (\<lambda>(r, ev1).
     if ir_incomplete r then Inr ([r], ev1)
     else bind_result (run_prompts dp jp st sv cfg jobs ev1) (\<lambda>(rs, ev2). Inr (r # rs, ev2)))"

definition object_entries :: "json option \<Rightarrow> entries" where
  "object_entries v = (case v of Some (JObj kvs) \<Rightarrow> kvs | _ \<Rightarrow> [])"

definition record_spec :: "json \<Rightarrow> spec" where
  "record_spec rec = \<lparr>es_rest = AList.delete ''panels'' (object_entries (jget ''spec'' rec)),
     es_panels = map (\<lambda>p. object_entries (Some p)) (panel_list rec)\<rparr>"

definition metadata :: "json \<Rightarrow> json" where
  "metadata rec = JObj (filter (\<lambda>(k, _). k \<notin> {''spec'', ''version'', ''updated_at''}) (object_entries (Some rec)))"

definition next_version :: "json \<Rightarrow> json \<Rightarrow> bool" where
  "next_version old new \<longleftrightarrow> (case (num_at ''version'' old, num_at ''version'' new) of
      (Some (Fin a), Some (Fin b)) \<Rightarrow> b = a + 1 | _ \<Rightarrow> False)"

definition saved_next :: "(string \<Rightarrow> string \<Rightarrow> bool) \<Rightarrow> (json \<Rightarrow> string) \<Rightarrow> json \<Rightarrow> json \<Rightarrow> bool" where
  "saved_next lc js old new \<longleftrightarrow> jget ''id'' new = jget ''id'' old \<and> next_version old new
     \<and> stable lc js (metadata old) = stable lc js (metadata new)"

text \<open>An edit passes when the saved dashboard is the expected one, in the next version, and its turn and checks are complete.\<close>

definition judged_edit :: "(string \<Rightarrow> string \<Rightarrow> bool) \<Rightarrow> (json \<Rightarrow> string) \<Rightarrow> json \<Rightarrow> spec \<Rightarrow> operation \<Rightarrow> turn_result \<Rightarrow> edit" where
  "judged_edit lc js old expected op r = (case tu_record r of
      None \<Rightarrow> \<lparr>ed_passed = False, ed_changed = [], ed_expected = changedPanels lc js (es_panels (record_spec old)) (es_panels expected)\<rparr>
    | Some new \<Rightarrow> (let d = er_edit (compareEdit lc js (record_spec old) (record_spec new) expected op)
        in d\<lparr>ed_passed := (ed_passed d \<and> saved_next lc js old new \<and> rn_checked r \<and> rn_valid r \<and> rn_complete r \<and> \<not> ir_incomplete r
          \<and> length (rn_checks r) = length (rn_panels r))\<rparr>))"

definition edit_turn :: "nat \<Rightarrow> string \<Rightarrow> eval_prompt" where
  "edit_turn n prompt = \<lparr>ep_id = ''edit-'' @ show_nat (n + 1), ep_text = prompt, ep_expect = ExpectDashboard\<rparr>"

text \<open>The edits of one dashboard, each on the version the one before saved; the flag says that one was not complete.\<close>

fun run_edits :: "(string \<Rightarrow> string \<Rightarrow> bool) \<Rightarrow> (json \<Rightarrow> string) \<Rightarrow> (string \<Rightarrow> num) \<Rightarrow> (string \<Rightarrow> json option) \<Rightarrow> (json option \<Rightarrow> string option)
    \<Rightarrow> (json \<Rightarrow> string) \<Rightarrow> eval_config \<Rightarrow> (edit_input \<times> job) list \<Rightarrow> nat \<Rightarrow> json \<Rightarrow> evaluation
    \<Rightarrow> (edit list \<times> bool \<times> evaluation) result" where
  "run_edits lc js dp jp st sv cfg [] n old ev = Inr ([], False, ev)"
| "run_edits lc js dp jp st sv cfg ((i, run, rp) # jobs) n old ev = (case buildEdit lc js (record_spec old) i of
      Inl _ \<Rightarrow> Inr ([], True, ev)
    | Inr (expected, prompt) \<Rightarrow>
        bind_result (turn dp jp st sv cfg (edit_turn n prompt) run rp ev) (\<lambda>(r, ev1).
          let e = judged_edit lc js old expected (ei_operation i) r in
          case (tu_record r, ir_incomplete r) of
            (Some new, False) \<Rightarrow> bind_result (run_edits lc js dp jp st sv cfg jobs (n + 1) new ev1) (\<lambda>(es, inc, ev2). Inr (e # es, inc, ev2))
          | (_, inc) \<Rightarrow> Inr ([e], inc, ev1)))"

record verdict =
  vd_exit :: nat
  vd_runs :: "turn_result list"
  vd_edits :: "edit list"
  vd_evaluation :: evaluation
  vd_judgments :: "judge_state option"

definition edit_target_run :: "turn_result list \<Rightarrow> turn_result option" where
  "edit_target_run runs = find (\<lambda>r. rn_complete r \<and> tu_record r \<noteq> None) runs"

definition suite_passed :: "(string \<Rightarrow> string \<Rightarrow> bool) \<Rightarrow> (json \<Rightarrow> string) \<Rightarrow> eval_config \<Rightarrow> nat \<Rightarrow> turn_result list \<Rightarrow> edit list \<Rightarrow> bool" where
  "suite_passed lc js cfg n runs edits = (if ec_set cfg = ''holdout'' then in_passed (scoreIntent (map intent_run.truncate runs) n)
     else sc_passed (score lc js (map eval_run.truncate runs) edits))"

text \<open>\<open>jd\<close> is \<open>runJudges\<close> with the configuration of the command line and the evidence of the runs, None when not asked for.\<close>

definition runEvaluation :: "(string \<Rightarrow> string \<Rightarrow> bool) \<Rightarrow> (json \<Rightarrow> string) \<Rightarrow> (string \<Rightarrow> num) \<Rightarrow> (string \<Rightarrow> json option) \<Rightarrow> (json option \<Rightarrow> string option)
    \<Rightarrow> (json \<Rightarrow> string) \<Rightarrow> (turn_result list \<Rightarrow> ledger \<Rightarrow> (judge_state \<times> ledger) result) option \<Rightarrow> eval_config
    \<Rightarrow> (eval_prompt \<times> job) list \<Rightarrow> (edit_input \<times> job) list \<Rightarrow> verdict result" where
  "runEvaluation lc js dp jp st sv jd cfg prompts edits =
    bind_result (run_prompts dp jp st sv cfg prompts \<lparr>ev_ledger = ec_ledger cfg, ev_default = None, ev_mismatch = []\<rparr>) (\<lambda>(runs, ev1).
      let inc1 = list_ex ir_incomplete runs in
      bind_result (case edit_target_run runs of
          Some t \<Rightarrow> if ec_set cfg = ''benchmark'' \<and> \<not> inc1 then run_edits lc js dp jp st sv cfg edits 0 (the (tu_record t)) ev1 else Inr ([], False, ev1)
        | None \<Rightarrow> Inr ([], False, ev1)) (\<lambda>(es, inc2, ev2).
        bind_result (case jd of
            Some run \<Rightarrow> if inc1 \<or> inc2 then Inr (None, ev_ledger ev2) else map_sum id (\<lambda>(j, l). (Some j, l)) (run runs (ev_ledger ev2))
          | None \<Rightarrow> Inr (None, ev_ledger ev2)) (\<lambda>(judged, l).
          let other = ev_mismatch ev2 \<noteq> [];
              incomplete = (inc1 \<or> inc2 \<or> map_option jo_status judged = Some Incomplete \<or> other);
              passed = (suite_passed lc js cfg (length prompts) runs es \<and> \<not> other)
          in Inr \<lparr>vd_exit = exitCode passed incomplete, vd_runs = runs, vd_edits = es, vd_evaluation = ev2\<lparr>ev_ledger := l\<rparr>, vd_judgments = judged\<rparr>)))"

section \<open>The verdict\<close>

lemma stops_at_incomplete:
  "run_prompts dp jp st sv cfg jobs ev = Inr (rs, ev') \<Longrightarrow> list_all (\<lambda>r. \<not> ir_incomplete r) (butlast rs)"
proof (induction jobs arbitrary: ev rs ev')
  case (Cons j jobs)
  obtain p run rp where j: "j = (p, run, rp)" by (cases j) auto
  from Cons.prems obtain r ev1 where t: "turn dp jp st sv cfg p run rp ev = Inr (r, ev1)"
    by (auto simp: j bind_result_Inr)
  show ?case
  proof (cases "ir_incomplete r")
    case False
    with Cons.prems t obtain rs' where "run_prompts dp jp st sv cfg jobs ev1 = Inr (rs', ev')" "rs = r # rs'"
      by (auto simp: j bind_result_Inr)
    with Cons.IH False show ?thesis by auto
  qed (use Cons.prems t in \<open>auto simp: j\<close>)
qed simp

lemma usage_ledger_run:
  "ledger_run dp l (usage_ledger dp run vs l) \<and> lg_prompts (usage_ledger dp run vs l) = lg_prompts l"
proof (induction vs rule: rev_induct)
  case (snoc v vs)
  let ?l = "usage_ledger dp run vs l"
  have step: "usage_ledger dp run (vs @ [v]) l = nullish (take_usage dp run v ?l) ?l" by (simp add: usage_ledger_def)
  show ?case
  proof (cases "take_usage dp run v ?l")
    case None
    then show ?thesis using snoc by (simp add: step nullish_def)
  next
    case (Some l')
    then obtain c where "recordUsage dp ?l c = Inr l'" by (auto simp: take_usage_def split: option.splits sum.splits if_splits)
    then show ?thesis using snoc Some and_then [OF conjunct1 [OF snoc] record_step] record_keeps_prompts
      by (auto simp: step nullish_def)
  qed
qed (simp add: usage_ledger_def at_start)

lemma read_run_ledger: "ev_ledger (fst (snd (read_run sv cfg run rp s ev r))) = ev_ledger ev"
  by (simp add: read_run_def Let_def)

lemma settle_turn_run:
  assumes "settle_turn run rp s ev r = Inr (r', ev')" "\<exists>p \<in> set (lg_prompts (ev_ledger ev)). lp_run p = run \<and> \<not> lp_settled p"
  shows "ledger_run dp (ev_ledger ev) (ev_ledger ev')"
proof -
  obtain f d l where "settlePrompt (ev_ledger ev) run f d = Inr l" "ev_ledger ev' = l"
    using assms(1) unfolding settle_turn_def Let_def bind_result_Inr by (auto split: option.splits)
  with assms(2) show ?thesis using run_step [OF settle_step] by blast
qed

lemma turn_run:
  assumes "turn dp jp st sv cfg p run rp ev = Inr (r, ev')"
  shows "ledger_run dp (ev_ledger ev) (ev_ledger ev')"
proof (cases "turn_blocked dp cfg ev")
  case True
  with assms show ?thesis by (simp add: turn_def at_start)
next
  case False
  with assms obtain l where l: "beginPrompt (ev_ledger ev) run (ep_id p) = Inr l" by (auto simp: turn_def bind_result_Inr)
  note o1 = begin_opens [OF l]
  obtain s ev1 r1 where s: "settle_turn run rp s ev1 r1 = Inr (r, ev')" "ledger_run dp l (ev_ledger ev1)" "lg_prompts (ev_ledger ev1) = lg_prompts l"
  proof (cases "tr_accepted rp")
    case True
    show thesis
      by (rule that) (use assms False l True in \<open>auto simp: turn_def Let_def read_run_ledger usage_ledger_run\<close>)
  next
    case F: False
    show thesis by (rule that) (use assms False l F in \<open>auto simp: turn_def at_start\<close>)
  qed
  have "ledger_run dp (ev_ledger ev1) (ev_ledger ev')" using settle_turn_run [OF s(1)] o1 s(3) by simp
  from run_trans [OF this run_trans [OF s(2) run_step [OF begin_step [OF l]]]] show ?thesis .
qed

lemma run_prompts_run:
  "run_prompts dp jp st sv cfg jobs ev = Inr (rs, ev') \<Longrightarrow> ledger_run dp (ev_ledger ev) (ev_ledger ev')"
proof (induction jobs arbitrary: ev rs ev')
  case (Cons j jobs)
  obtain p run rp where j: "j = (p, run, rp)" by (cases j) auto
  from Cons.prems obtain r ev1 where t: "turn dp jp st sv cfg p run rp ev = Inr (r, ev1)" by (auto simp: j bind_result_Inr)
  from Cons.prems t have "ev' = ev1 \<or> (\<exists>rs'. run_prompts dp jp st sv cfg jobs ev1 = Inr (rs', ev'))"
    by (auto simp: j bind_result_Inr split: if_splits)
  then show ?case using turn_run [OF t] Cons.IH run_trans by blast
qed (simp add: at_start)

lemma run_edits_run:
  "run_edits lc js dp jp st sv cfg jobs n old ev = Inr (es, inc, ev') \<Longrightarrow> ledger_run dp (ev_ledger ev) (ev_ledger ev')"
proof (induction jobs arbitrary: n old ev es inc ev')
  case (Cons j jobs)
  obtain i run rp where j: "j = (i, run, rp)" by (cases j) auto
  show ?case
  proof (cases "buildEdit lc js (record_spec old) i")
    case (Inl e)
    with Cons.prems show ?thesis by (simp add: j at_start)
  next
    case (Inr ep)
    obtain expected prompt where ep: "ep = (expected, prompt)" by (cases ep)
    with Cons.prems Inr obtain r ev1 where t: "turn dp jp st sv cfg (edit_turn n prompt) run rp ev = Inr (r, ev1)"
      by (auto simp: j bind_result_Inr)
    have "ev' = ev1 \<or> (\<exists>new es' inc'. run_edits lc js dp jp st sv cfg jobs (n + 1) new ev1 = Inr (es', inc', ev'))"
      using Cons.prems by (cases "tu_record r"; cases "ir_incomplete r") (auto simp: j Inr ep t bind_result_Inr)
    then show ?thesis using turn_run [OF t] Cons.IH run_trans by blast
  qed
qed (simp add: at_start)

definition judge_keeps :: "(string \<Rightarrow> num) \<Rightarrow> (turn_result list \<Rightarrow> ledger \<Rightarrow> (judge_state \<times> ledger) result) option \<Rightarrow> bool" where
  "judge_keeps dp jd \<longleftrightarrow> (\<forall>run rs l j l'. jd = Some run \<longrightarrow> run rs l = Inr (j, l') \<longrightarrow> ledger_run dp l l')"

lemma runEvaluation_parts:
  assumes "runEvaluation lc js dp jp st sv jd cfg prompts edits = Inr v"
  obtains ev1 inc2 ev2 l where
    "run_prompts dp jp st sv cfg prompts \<lparr>ev_ledger = ec_ledger cfg, ev_default = None, ev_mismatch = []\<rparr> = Inr (vd_runs v, ev1)"
    "(vd_edits v = [] \<and> \<not> inc2 \<and> ev2 = ev1)
      \<or> (\<exists>old. \<not> list_ex ir_incomplete (vd_runs v) \<and> run_edits lc js dp jp st sv cfg edits 0 old ev1 = Inr (vd_edits v, inc2, ev2))"
    "l = ev_ledger ev2 \<or> (\<exists>run j. jd = Some run \<and> run (vd_runs v) (ev_ledger ev2) = Inr (j, l))"
    "vd_evaluation v = ev2\<lparr>ev_ledger := l\<rparr>"
    "vd_exit v = exitCode (suite_passed lc js cfg (length prompts) (vd_runs v) (vd_edits v) \<and> ev_mismatch ev2 = [])
       (list_ex ir_incomplete (vd_runs v) \<or> inc2 \<or> map_option jo_status (vd_judgments v) = Some Incomplete \<or> ev_mismatch ev2 \<noteq> [])"
proof -
  let ?ev0 = "\<lparr>ev_ledger = ec_ledger cfg, ev_default = None, ev_mismatch = []\<rparr>"
  from assms obtain runs ev1 where p: "run_prompts dp jp st sv cfg prompts ?ev0 = Inr (runs, ev1)"
    by (auto simp: runEvaluation_def bind_result_Inr)
  let ?e = "case edit_target_run runs of
          Some t \<Rightarrow> if ec_set cfg = ''benchmark'' \<and> \<not> list_ex ir_incomplete runs then run_edits lc js dp jp st sv cfg edits 0 (the (tu_record t)) ev1 else Inr ([], False, ev1)
        | None \<Rightarrow> Inr ([], False, ev1)"
  from assms p obtain es inc2 ev2 where e: "?e = Inr (es, inc2, ev2)" by (auto simp: runEvaluation_def bind_result_Inr Let_def)
  let ?j = "case jd of Some run \<Rightarrow> if list_ex ir_incomplete runs \<or> inc2 then Inr (None, ev_ledger ev2) else map_sum id (\<lambda>(j, l). (Some j, l)) (run runs (ev_ledger ev2))
          | None \<Rightarrow> Inr (None, ev_ledger ev2)"
  from assms p e obtain judged l where j: "?j = Inr (judged, l)" by (auto simp: runEvaluation_def bind_result_Inr Let_def)
  from assms have v: "v = \<lparr>vd_exit = exitCode (suite_passed lc js cfg (length prompts) runs es \<and> \<not> ev_mismatch ev2 \<noteq> [])
      (list_ex ir_incomplete runs \<or> inc2 \<or> map_option jo_status judged = Some Incomplete \<or> ev_mismatch ev2 \<noteq> []),
      vd_runs = runs, vd_edits = es, vd_evaluation = ev2\<lparr>ev_ledger := l\<rparr>, vd_judgments = judged\<rparr>"
    unfolding runEvaluation_def p bind_result_simps prod.case Let_def e j by simp
  have "(es = [] \<and> \<not> inc2 \<and> ev2 = ev1) \<or> (\<exists>old. \<not> list_ex ir_incomplete runs \<and> run_edits lc js dp jp st sv cfg edits 0 old ev1 = Inr (es, inc2, ev2))"
    using e by (auto split: option.splits if_splits)
  moreover have "l = ev_ledger ev2 \<or> (\<exists>run j. jd = Some run \<and> run runs (ev_ledger ev2) = Inr (j, l))"
  proof (cases jd)
    case (Some run)
    then show ?thesis using j by (cases "run runs (ev_ledger ev2)") (auto split: if_splits)
  qed (use j in simp)
  ultimately show thesis using that [of ev1 inc2 ev2 l] p v by simp
qed


definition idle_replies :: turn_replies where
  "idle_replies = \<lparr>tr_accepted = False, tr_is_stream = False, tr_chunks = [], tr_ending = ReadFailed, tr_messages = None, tr_versions = None,
     tr_panels = Inl False, tr_status = None, tr_elapsed = NaN\<rparr>"

definition demo_cfg :: eval_config where
  "demo_cfg = \<lparr>ec_ledger = sample_ledger [] [], ec_cap = Fin 1, ec_mock = True, ec_label = None, ec_set = ''benchmark''\<rparr>"


text \<open>
  The exit code 0 of a benchmark means all of it: ten prompts ran to their end, each saved a
  dashboard that was checked, every call was made by the expected model, and the five edits, each on the
  version the one before saved, were exactly those asked for.
\<close>

lemma passing_benchmark_is_complete:
  assumes "runEvaluation lc js dp jp st sv jd cfg prompts edits = Inr v" "vd_exit v = 0" "ec_set cfg \<noteq> ''holdout''"
  shows "length (vd_runs v) = 10 \<and> list_all (\<lambda>r. rn_complete r \<and> \<not> ir_incomplete r \<and> rn_saved r \<and> rn_checked r) (vd_runs v)
    \<and> ev_mismatch (vd_evaluation v) = [] \<and> length (vd_edits v) = 5 \<and> list_all ed_passed (vd_edits v)"
proof -
  from runEvaluation_parts [OF assms(1)] obtain ev1 inc2 ev2 l where
    v: "vd_evaluation v = ev2\<lparr>ev_ledger := l\<rparr>"
    "vd_exit v = exitCode (suite_passed lc js cfg (length prompts) (vd_runs v) (vd_edits v) \<and> ev_mismatch ev2 = [])
       (list_ex ir_incomplete (vd_runs v) \<or> inc2 \<or> map_option jo_status (vd_judgments v) = Some Incomplete \<or> ev_mismatch ev2 \<noteq> [])"
    by metis
  with assms(2) have "suite_passed lc js cfg (length prompts) (vd_runs v) (vd_edits v)" "ev_mismatch ev2 = []" "\<not> list_ex ir_incomplete (vd_runs v)"
    by (auto simp: exitCode_def split: if_splits)
  with assms(3) v(1) show ?thesis
    by (auto simp: suite_passed_def score_def Let_def list_all_iff list_ex_iff eval_run.defs)
qed

end
