(* ===== verification/Throughput_Replay.thy ===== *)
theory Throughput_Replay
  imports Js_Text
begin

text \<open>
  The replay of a measured run on the landing page (\<open>site/src/components/landing/throughput-replay.ts\<close>): which
  samples a moment shows, and the clock that runs only while the chart is on screen. Seconds are reals, the
  plot and the page are events of the steps.
\<close>

section \<open>The frame of a moment\<close>

record rate_sample =
  sa_at :: real
  sa_interval :: real
  sa_spans :: real
  sa_logs :: real
  sa_metrics :: real

definition replay_window :: real where "replay_window = 120"

definition two_digits :: "nat \<Rightarrow> string" where
  "two_digits n = (if n < 10 then ''0'' @ show_nat n else show_nat n)"

definition clock_text :: "real \<Rightarrow> string" where
  "clock_text seconds = (let whole = nat (max 0 \<lfloor>seconds\<rfloor>) in two_digits (whole div 60) @ '':'' @ two_digits (whole mod 60))"

text \<open>A sample of one round of the replay, at its time on the replay's clock.\<close>

type_synonym replay_point = "rate_sample \<times> real"

definition loop_points :: "rate_sample list \<Rightarrow> real \<Rightarrow> real \<Rightarrow> nat \<Rightarrow> replay_point list" where
  "loop_points samples duration elapsed k = filter (\<lambda>p. snd p \<le> elapsed) (map (\<lambda>s. (s, real k * duration + sa_at s)) samples)"

definition first_loop :: "real \<Rightarrow> real \<Rightarrow> nat" where
  "first_loop duration elapsed = nat (max 0 (\<lfloor>(elapsed - replay_window) / duration\<rfloor> - 1))"

definition last_loop :: "real \<Rightarrow> real \<Rightarrow> nat" where
  "last_loop duration elapsed = nat \<lfloor>elapsed / duration\<rfloor>"

definition replay_points :: "rate_sample list \<Rightarrow> real \<Rightarrow> real \<Rightarrow> replay_point list" where
  "replay_points samples duration elapsed =
    concat (map (loop_points samples duration elapsed) [first_loop duration elapsed ..< Suc (last_loop duration elapsed)])"

definition shown_points :: "real \<Rightarrow> replay_point list \<Rightarrow> replay_point list" where
  "shown_points left ps = drop ((case find_index (\<lambda>p. left \<le> snd p) ps of None \<Rightarrow> length ps | Some i \<Rightarrow> i) - 1) ps"

definition stacked :: "rate_sample \<Rightarrow> real list" where
  "stacked s = [sa_spans s, sa_spans s + sa_logs s, sa_spans s + sa_logs s + sa_metrics s]"

record replay_frame =
  rf_min :: real
  rf_max :: real
  rf_points :: "replay_point list"
  rf_current :: replay_point
  rf_data :: "(real \<times> real list) list"

text \<open>The last value is held until the next sample; without any point the reading of the last one throws.\<close>

definition replayFrame :: "rate_sample list \<Rightarrow> real \<Rightarrow> real \<Rightarrow> replay_frame option" where
  "replayFrame samples duration elapsed =
    (let shown = shown_points (elapsed - replay_window) (replay_points samples duration elapsed) in
     if shown = [] then None
     else (let current = last shown;
               ps = (if snd current < elapsed then shown @ [(fst current, elapsed)] else shown)
       in Some \<lparr>rf_min = elapsed - replay_window, rf_max = elapsed, rf_points = ps, rf_current = current,
            rf_data = map (\<lambda>p. (snd p, stacked (fst p))) ps\<rparr>))"

subsection \<open>What a frame shows\<close>

definition measured_run :: "rate_sample list \<Rightarrow> real \<Rightarrow> bool" where
  "measured_run samples duration \<longleftrightarrow> 0 < duration \<and> sorted_wrt (<) (map sa_at samples) \<and> list_all (\<lambda>s. 0 \<le> sa_at s \<and> sa_at s \<le> duration) samples"

lemma shown_points_eq:
  "shown_points left ps = drop (length (takeWhile (\<lambda>p. snd p < left) ps) - 1) ps"
proof -
  have "(case find_index (\<lambda>p. left \<le> snd p) ps of None \<Rightarrow> length ps | Some i \<Rightarrow> i) = length (takeWhile (\<lambda>p. snd p < left) ps)"
    by (induction ps) (auto split: option.splits)
  then show ?thesis by (simp add: shown_points_def)
qed

lemma shown_points_in: "p \<in> set ps \<Longrightarrow> left \<le> snd p \<Longrightarrow> p \<in> set (shown_points left ps)"
proof -
  assume p: "p \<in> set ps" "left \<le> snd p"
  have "p \<notin> set (takeWhile (\<lambda>p. snd p < left) ps)" using p(2) by (auto dest: set_takeWhileD)
  moreover have "take (length (takeWhile (\<lambda>p. snd p < left) ps) - 1) ps = butlast (takeWhile (\<lambda>p. snd p < left) ps)"
    by (metis butlast_conv_take takeWhile_eq_take take_take min.absorb1 diff_le_self)
  ultimately have "p \<notin> set (take (length (takeWhile (\<lambda>p. snd p < left) ps) - 1) ps)" by (auto dest: in_set_butlastD)
  with p(1) show ?thesis unfolding shown_points_eq
    by (metis Un_iff append_take_drop_id set_append)
qed

lemma shown_points_left:
  assumes "sorted (map snd ps)"
  shows "\<forall>p \<in> set (tl (shown_points left ps)). left \<le> snd p"
proof
  fix p assume p: "p \<in> set (tl (shown_points left ps))"
  let ?n = "length (takeWhile (\<lambda>p. snd p < left) ps)"
  have "tl (shown_points left ps) = drop (Suc (?n - 1)) ps" by (simp add: shown_points_eq drop_Suc tl_drop)
  moreover have "set (drop (Suc (?n - 1)) ps) \<subseteq> set (drop ?n ps)" by (rule set_drop_subset_set_drop) simp
  ultimately have "p \<in> set (dropWhile (\<lambda>p. snd p < left) ps)" using p by (auto simp: dropWhile_eq_drop)
  moreover have "left \<le> snd q" if "q \<in> set (dropWhile (\<lambda>p. snd p < left) ps)" for q
  proof (cases "dropWhile (\<lambda>p. snd p < left) ps")
    case (Cons a as)
    then have a: "left \<le> snd a" using hd_dropWhile [of "\<lambda>p. snd p < left" ps] by simp
    have "sorted (map snd (a # as))" using assms Cons by (metis sorted_dropWhile dropWhile_map map_eq_Cons_conv sorted_append takeWhile_dropWhile_id map_append)
    with a that Cons show ?thesis by auto
  next
    case Nil
    with that show ?thesis by (simp only: list.set empty_iff)
  qed
  ultimately show "left \<le> snd p" by blast
qed

lemma loop_points_sorted:
  assumes "measured_run samples duration" shows "sorted (map snd (loop_points samples duration elapsed k))"
proof -
  have "sorted (map sa_at samples)" using assms by (auto simp: measured_run_def strict_sorted_imp_sorted)
  then have "sorted (map snd (map (\<lambda>s. (s, real k * duration + sa_at s)) samples))" by (simp add: sorted_map comp_def)
  then show ?thesis unfolding loop_points_def by (rule sorted_filter)
qed

lemma loops_sorted:
  assumes "measured_run samples duration" shows "sorted (map snd (concat (map (loop_points samples duration elapsed) [a ..< b])))"
proof (induction b)
  case (Suc b)
  have early: "snd p \<le> real b * duration" if p: "p \<in> set (concat (map (loop_points samples duration elapsed) [a ..< b]))" for p
  proof -
    from p obtain k s where k: "k < b" "s \<in> set samples" "snd p = real k * duration + sa_at s" by (auto simp: loop_points_def)
    then have "sa_at s \<le> duration" "0 < duration" using assms by (auto simp: measured_run_def list_all_iff)
    then have "snd p \<le> (real k + 1) * duration" using k by (simp add: algebra_simps)
    also have "\<dots> \<le> real b * duration" using k(1) \<open>0 < duration\<close> by (intro mult_right_mono) auto
    finally show ?thesis .
  qed
  have late: "real b * duration \<le> snd p" if "p \<in> set (loop_points samples duration elapsed b)" for p
    using that assms by (auto simp: loop_points_def measured_run_def list_all_iff)
  show ?case
  proof (cases "a \<le> b")
    case True
    have "snd p \<le> snd q" if "p \<in> set (concat (map (loop_points samples duration elapsed) [a ..< b]))" "q \<in> set (loop_points samples duration elapsed b)" for p q
      using order_trans [OF early [OF that(1)] late [OF that(2)]] .
    then have "\<forall>x \<in> set (map snd (concat (map (loop_points samples duration elapsed) [a ..< b]))). \<forall>y \<in> set (map snd (loop_points samples duration elapsed b)). x \<le> y"
      unfolding set_map by blast
    then have "sorted (map snd (concat (map (loop_points samples duration elapsed) [a ..< b])) @ map snd (loop_points samples duration elapsed b))"
      using Suc.IH loop_points_sorted [OF assms] by (simp only: sorted_append simp_thms)
    then show ?thesis using True by simp
  qed simp
qed simp

lemma in_loops:
  assumes "measured_run samples duration" "s \<in> set samples" "elapsed - replay_window \<le> real k * duration + sa_at s" "real k * duration + sa_at s \<le> elapsed"
  shows "(s, real k * duration + sa_at s) \<in> set (replay_points samples duration elapsed)"
proof -
  have d: "0 < duration" "0 \<le> sa_at s" "sa_at s \<le> duration" using assms(1,2) by (auto simp: measured_run_def list_all_iff)
  have "real k \<le> elapsed / duration" using assms(4) d by (simp add: le_divide_eq)
  then have hi: "k \<le> last_loop duration elapsed" unfolding last_loop_def by (metis nat_floor_neg le_nat_floor of_nat_0_le_iff)
  have "elapsed - replay_window \<le> (real k + 1) * duration" using assms(3) d by (simp add: algebra_simps)
  then have "(elapsed - replay_window) / duration \<le> real k + 1" using d by (simp add: divide_le_eq)
  then have "\<lfloor>(elapsed - replay_window) / duration\<rfloor> - 1 \<le> int k" by linarith
  then have lo: "first_loop duration elapsed \<le> k" by (simp add: first_loop_def)
  have "k \<in> set [first_loop duration elapsed ..< Suc (last_loop duration elapsed)]" using lo hi by (simp del: upt_Suc)
  moreover have "(s, real k * duration + sa_at s) \<in> set (loop_points samples duration elapsed k)" using assms(2,4) by (auto simp: loop_points_def)
  ultimately show ?thesis unfolding replay_points_def set_concat set_map by blast
qed

text \<open>
  The replay shows what was measured and nothing else: every sample of every round inside the two
  minutes before the moment, in order of time, with its own rates, at most one sample left of them, and only
  the last value held up to the moment itself.
\<close>

theorem replay_shows_the_measured_window:
  assumes "measured_run samples duration" "replayFrame samples duration elapsed = Some f"
  shows "sorted (map snd (rf_points f)) \<and> snd (last (rf_points f)) = elapsed
    \<and> (\<forall>s \<in> set samples. \<forall>k. elapsed - replay_window \<le> real k * duration + sa_at s \<and> real k * duration + sa_at s \<le> elapsed
        \<longrightarrow> (s, real k * duration + sa_at s) \<in> set (rf_points f))
    \<and> (\<forall>p \<in> set (tl (rf_points f)). elapsed - replay_window \<le> snd p)
    \<and> (\<forall>p \<in> set (rf_points f). p = (fst (rf_current f), elapsed) \<or> fst p \<in> set samples \<and> (\<exists>k. snd p = real k * duration + sa_at (fst p)))"
proof -
  let ?ps = "replay_points samples duration elapsed"
  let ?left = "elapsed - replay_window"
  let ?shown = "shown_points ?left ?ps"
  have ne: "?shown \<noteq> []" using assms(2) by (auto simp: replayFrame_def Let_def split: if_splits)
  let ?c = "last ?shown"
  have f: "rf_points f = (if snd ?c < elapsed then ?shown @ [(fst ?c, elapsed)] else ?shown)" "rf_current f = ?c"
    using assms(2) ne by (auto simp: replayFrame_def Let_def)
  have sub: "set ?shown \<subseteq> set ?ps" unfolding shown_points_def by (rule set_drop_subset)
  have inps: "snd p \<le> elapsed \<and> fst p \<in> set samples \<and> (\<exists>k. snd p = real k * duration + sa_at (fst p))" if "p \<in> set ?ps" for p
    using that by (auto simp: replay_points_def loop_points_def)
  have so: "sorted (map snd ?ps)" unfolding replay_points_def by (rule loops_sorted [OF assms(1)])
  then have ss: "sorted (map snd ?shown)" unfolding shown_points_def by (simp add: drop_map [symmetric] sorted_wrt_drop)
  have c: "?c \<in> set ?shown" using ne by simp
  then have ce: "snd ?c \<le> elapsed" using inps sub by blast
  have "sorted (map snd (rf_points f))" using ss inps sub by (auto simp: f sorted_append)
  moreover have "snd (last (rf_points f)) = elapsed" using ce by (auto simp: f)
  moreover have "(s, real k * duration + sa_at s) \<in> set (rf_points f)"
    if "s \<in> set samples" "?left \<le> real k * duration + sa_at s" "real k * duration + sa_at s \<le> elapsed" for s k
    using shown_points_in [OF in_loops [OF assms(1) that]] that(2) by (simp add: f)
  moreover have "\<forall>p \<in> set (tl (rf_points f)). ?left \<le> snd p"
    using shown_points_left [OF so, of ?left] ne by (auto simp: f replay_window_def)
  moreover have "\<forall>p \<in> set (rf_points f). p = (fst (rf_current f), elapsed) \<or> fst p \<in> set samples \<and> (\<exists>k. snd p = real k * duration + sa_at (fst p))"
    using inps sub by (auto simp: f)
  ultimately show ?thesis by blast
qed

definition demo_samples :: "rate_sample list" where
  "demo_samples = [\<lparr>sa_at = 5, sa_interval = 5, sa_spans = 10, sa_logs = 20, sa_metrics = 30\<rparr>]"

lemma replay_shows_the_measured_window_witness:
  "\<exists>f. replayFrame demo_samples 100 6 = Some f \<and> snd (last (rf_points f)) = 6"
proof -
  have "last_loop 100 6 = 0" "first_loop 100 6 = 0" by (simp_all add: last_loop_def first_loop_def replay_window_def floor_eq_iff)
  then have "replay_points demo_samples 100 6 = [(hd demo_samples, 5)]" by (simp add: replay_points_def loop_points_def demo_samples_def)
  then obtain f where f: "replayFrame demo_samples 100 6 = Some f"
    by (simp add: replayFrame_def shown_points_def replay_window_def Let_def)
  have "measured_run demo_samples 100" by (simp add: measured_run_def demo_samples_def)
  from replay_shows_the_measured_window [OF this f] f show ?thesis by blast
qed

section \<open>The clock of the replay\<close>

text \<open>\<open>rl_timer\<close> is a timer that is set, \<open>rl_loading\<close> a plot on its way.\<close>

record replay =
  rl_elapsed :: real
  rl_started :: real
  rl_timer :: bool
  rl_plot :: bool
  rl_loading :: bool
  rl_in_view :: bool
  rl_hidden :: bool
  rl_reduced :: bool
  rl_paused :: bool
  rl_disposed :: bool

datatype replay_event =
    Intersected bool
  | PageVisibility bool
  | MotionChanged bool
  | Toggled
  | PlotLoaded bool
  | Ticked
  | PageHidden bool
  | PageShown
  | PageSwapped

definition open_replay :: "rate_sample list \<Rightarrow> bool \<Rightarrow> bool \<Rightarrow> replay" where
  "open_replay samples hidden reduced = \<lparr>rl_elapsed = min (sa_at (hd samples) + replay_window) (sa_at (last samples)), rl_started = 0, rl_timer = False,
     rl_plot = False, rl_loading = False, rl_in_view = False, rl_hidden = hidden, rl_reduced = reduced, rl_paused = False, rl_disposed = False\<rparr>"

definition replay_visible :: "replay \<Rightarrow> bool" where
  "replay_visible s \<longleftrightarrow> \<not> rl_disposed s \<and> \<not> rl_reduced s \<and> rl_in_view s \<and> \<not> rl_hidden s"

definition replay_active :: "replay \<Rightarrow> bool" where
  "replay_active s \<longleftrightarrow> replay_visible s \<and> \<not> rl_paused s"

definition stop_replay :: "real \<Rightarrow> replay \<Rightarrow> replay" where
  "stop_replay now s = (if rl_timer s then s\<lparr>rl_elapsed := rl_elapsed s + (now - rl_started s), rl_timer := False\<rparr> else s)"

definition schedule_replay :: "real \<Rightarrow> replay \<Rightarrow> replay" where
  "schedule_replay now s = (if replay_active s \<and> rl_plot s \<and> \<not> rl_timer s then s\<lparr>rl_started := now, rl_timer := True\<rparr> else s)"

definition sync_replay :: "real \<Rightarrow> replay \<Rightarrow> replay" where
  "sync_replay now s =
    (let s1 = (if replay_active s then s else stop_replay now s) in
     if \<not> replay_visible s then s1 else if rl_plot s1 then schedule_replay now s1 else s1\<lparr>rl_loading := True\<rparr>)"

definition dispose_replay :: "real \<Rightarrow> replay \<Rightarrow> replay" where
  "dispose_replay now s = stop_replay now (s\<lparr>rl_disposed := True\<rparr>)"

text \<open>After the replay is disposed only a plot that was on its way still arrives.\<close>

definition replay_handle :: "real \<Rightarrow> replay_event \<Rightarrow> replay \<Rightarrow> replay" where
  "replay_handle now e s = (case e of
      PlotLoaded arrived \<Rightarrow> if \<not> rl_loading s then s
        else (let s1 = s\<lparr>rl_plot := (rl_plot s \<or> arrived \<and> replay_visible s), rl_loading := False\<rparr> in if rl_plot s1 then schedule_replay now s1 else s1)
    | _ \<Rightarrow> if rl_disposed s then s else (case e of
        Intersected b \<Rightarrow> sync_replay now (s\<lparr>rl_in_view := b\<rparr>)
      | PageVisibility b \<Rightarrow> sync_replay now (s\<lparr>rl_hidden := b\<rparr>)
      | MotionChanged b \<Rightarrow> if b then (stop_replay now (s\<lparr>rl_reduced := True\<rparr>))\<lparr>rl_plot := False\<rparr> else sync_replay now (s\<lparr>rl_reduced := False\<rparr>)
      | Toggled \<Rightarrow> sync_replay now (s\<lparr>rl_paused := \<not> rl_paused s\<rparr>)
      | Ticked \<Rightarrow> if rl_timer s then schedule_replay now (stop_replay now s) else s
      | PageHidden persisted \<Rightarrow> if persisted then stop_replay now s else dispose_replay now s
      | PageShown \<Rightarrow> sync_replay now s
      | PageSwapped \<Rightarrow> dispose_replay now s
      | PlotLoaded _ \<Rightarrow> s))"

definition replay_step :: "real \<times> replay_event \<Rightarrow> replay \<Rightarrow> replay" where
  "replay_step te = replay_handle (fst te) (snd te)"

text \<open>What the clock would read now, were the running timer to stop.\<close>

definition replay_clock :: "real \<Rightarrow> replay \<Rightarrow> real" where
  "replay_clock now s = rl_elapsed s + (if rl_timer s then now - rl_started s else 0)"

text \<open>How long the chart was there, in view, on a visible page, and not paused.\<close>

fun on_screen :: "real \<Rightarrow> (real \<times> replay_event) list \<Rightarrow> replay \<Rightarrow> real" where
  "on_screen t0 [] s = 0"
| "on_screen t0 (te # es) s = (if replay_active s \<and> rl_plot s then fst te - t0 else 0) + on_screen (fst te) es (replay_step te s)"

fun last_time :: "real \<Rightarrow> (real \<times> replay_event) list \<Rightarrow> real" where
  "last_time t0 [] = t0"
| "last_time t0 (te # es) = last_time (fst te) es"

definition replay_ok :: "replay \<Rightarrow> bool" where
  "replay_ok s \<longleftrightarrow> (rl_timer s \<longrightarrow> replay_active s \<and> rl_plot s)"

lemma clock_stop [simp]: "replay_clock now (stop_replay now s) = replay_clock now s"
  by (simp add: replay_clock_def stop_replay_def)

lemma clock_schedule [simp]: "replay_clock now (schedule_replay now s) = replay_clock now s"
  by (simp add: replay_clock_def schedule_replay_def)

lemma timer_stop [simp]: "\<not> rl_timer (stop_replay now s)"
  by (simp add: stop_replay_def)

lemma clock_sync [simp]: "replay_clock now (sync_replay now s) = replay_clock now s"
proof -
  have "replay_clock now (s\<lparr>rl_loading := True\<rparr>) = replay_clock now s" for s by (simp add: replay_clock_def)
  then show ?thesis by (simp add: sync_replay_def Let_def)
qed

lemma clock_field [simp]:
  "replay_clock now (s\<lparr>rl_in_view := b\<rparr>) = replay_clock now s" "replay_clock now (s\<lparr>rl_hidden := b\<rparr>) = replay_clock now s"
  "replay_clock now (s\<lparr>rl_reduced := b\<rparr>) = replay_clock now s" "replay_clock now (s\<lparr>rl_paused := b\<rparr>) = replay_clock now s"
  "replay_clock now (s\<lparr>rl_disposed := b\<rparr>) = replay_clock now s" "replay_clock now (s\<lparr>rl_plot := b\<rparr>) = replay_clock now s"
  "replay_clock now (s\<lparr>rl_loading := b\<rparr>) = replay_clock now s"
  by (simp_all add: replay_clock_def)

lemma clock_step: "replay_clock (fst te) (replay_step te s) = replay_clock (fst te) s"
  by (cases "snd te") (simp_all add: replay_step_def replay_handle_def dispose_replay_def Let_def)

lemma ok_schedule: "replay_ok s \<Longrightarrow> replay_ok (schedule_replay now s)"
  by (simp add: replay_ok_def schedule_replay_def replay_active_def replay_visible_def)

lemma ok_no_timer: "\<not> rl_timer s \<Longrightarrow> replay_ok s"
  by (simp add: replay_ok_def)

lemma ok_sync: "replay_ok (sync_replay now s)" if "rl_timer s \<Longrightarrow> rl_plot s"
proof (cases "replay_active s")
  case True
  then have "replay_ok s" using that by (simp add: replay_ok_def)
  then show ?thesis using True ok_schedule [of s now] by (auto simp: sync_replay_def replay_ok_def replay_active_def)
next
  case False
  then show ?thesis by (auto simp: sync_replay_def Let_def intro!: ok_no_timer ok_schedule)
qed

lemma ok_step: "replay_ok s \<Longrightarrow> replay_ok (replay_step te s)"
proof -
  assume ok: "replay_ok s"
  then have p: "rl_timer s \<Longrightarrow> rl_plot s" by (simp add: replay_ok_def)
  have load: "replay_ok (s\<lparr>rl_plot := (rl_plot s \<or> b), rl_loading := False\<rparr>)" for b
    using ok by (auto simp: replay_ok_def replay_active_def replay_visible_def)
  have sync: "replay_ok (sync_replay (fst te) (s\<lparr>rl_in_view := b\<rparr>))" "replay_ok (sync_replay (fst te) (s\<lparr>rl_hidden := b\<rparr>))"
    "replay_ok (sync_replay (fst te) (s\<lparr>rl_paused := b\<rparr>))" "replay_ok (sync_replay (fst te) s)" for b
    by (rule ok_sync; simp add: p)+
  have quiet: "replay_ok (stop_replay (fst te) u)" "replay_ok (schedule_replay (fst te) (stop_replay (fst te) u))" for u
    by (intro ok_schedule ok_no_timer; simp)+
  show ?thesis
  proof (cases "snd te")
    case (PlotLoaded b)
    note l = load [of "b \<and> replay_visible s"]
    show ?thesis using ok l ok_schedule [OF l, of "fst te"]
      unfolding replay_step_def replay_handle_def PlotLoaded replay_event.case Let_def by (simp only: if_split simp_thms)
  next
    case (MotionChanged b)
    have "replay_ok (sync_replay (fst te) (s\<lparr>rl_reduced := False\<rparr>))" by (rule ok_sync) (simp add: p)
    moreover have "replay_ok ((stop_replay (fst te) (s\<lparr>rl_reduced := True\<rparr>))\<lparr>rl_plot := False\<rparr>)" by (rule ok_no_timer) simp
    ultimately show ?thesis using ok MotionChanged by (simp add: replay_step_def replay_handle_def)
  qed (use ok sync quiet in \<open>auto simp: replay_step_def replay_handle_def dispose_replay_def\<close>)
qed

lemma clock_bounded:
  assumes "replay_ok s" "sorted (t0 # map fst es)"
  shows "replay_clock t0 s \<le> replay_clock (last_time t0 es) (fold replay_step es s)
    \<and> replay_clock (last_time t0 es) (fold replay_step es s) \<le> replay_clock t0 s + on_screen t0 es s"
  using assms
proof (induction es arbitrary: t0 s)
  case (Cons te es)
  have t: "t0 \<le> fst te" "sorted (fst te # map fst es)" using Cons.prems(2) by auto
  have "replay_clock t0 s \<le> replay_clock (fst te) s \<and> replay_clock (fst te) s \<le> replay_clock t0 s + (if replay_active s \<and> rl_plot s then fst te - t0 else 0)"
    using Cons.prems(1) t(1) by (auto simp: replay_clock_def replay_ok_def)
  moreover note Cons.IH [OF ok_step [OF Cons.prems(1), of te] t(2)]
  moreover note clock_step [of te s]
  ultimately show ?case unfolding on_screen.simps last_time.simps fold_Cons comp_def by (intro conjI) linarith+
qed simp



end
