(* ===== verification/Benchmark_Report.thy ===== *)
theory Benchmark_Report
  imports Js_Text
begin

text \<open>
  The published benchmark (\<open>site/scripts/benchmark-data.mjs\<close>): what is taken from the report of a run and its
  samples, and the rates of the series. Numbers are exact, the texts of errors leave out positions; \<open>url\<close> is \<open>new URL\<close>, giving the protocol and the
  address.
\<close>

section \<open>Required fields\<close>

definition missing_field :: "string \<Rightarrow> string" where
  "missing_field path = ''Missing or invalid required field: '' @ path"

definition number :: "json option \<Rightarrow> string \<Rightarrow> real result" where
  "number v path = (case v of Some (JNum (Fin x)) \<Rightarrow> guard_err (x < 0) (missing_field path) (Inr x) | _ \<Rightarrow> Inl (missing_field path))"

definition text_field :: "json option \<Rightarrow> string \<Rightarrow> string result" where
  "text_field v path = (case v of Some (JStr s) \<Rightarrow> guard_err (\<not> not_blank s) (missing_field path) (Inr s) | _ \<Rightarrow> Inl (missing_field path))"

definition boolean_field :: "json option \<Rightarrow> string \<Rightarrow> bool result" where
  "boolean_field v path = (case v of Some (JBool b) \<Rightarrow> Inr b | _ \<Rightarrow> Inl (missing_field path))"

text \<open>\<open>toFixed\<close> takes the larger of two nearest; so does \<open>Math.round\<close>.\<close>

definition rounded :: "nat \<Rightarrow> real \<Rightarrow> real" where
  "rounded digits x = real_of_int \<lfloor>x * 10 ^ digits + 1 / 2\<rfloor> / 10 ^ digits"

definition median_of :: "real list \<Rightarrow> real" where
  "median_of xs = (let s = sort_by (\<le>) xs; m = length s div 2 in if odd (length s) then s ! m else (s ! (m - 1) + s ! m) / 2)"

definition path_get :: "string list \<Rightarrow> json option \<Rightarrow> json option" where
  "path_get ks v = fold (\<lambda>k v. Option.bind v (jget k)) ks v"

definition report_list :: "string \<Rightarrow> json \<Rightarrow> json list" where
  "report_list k r = (case jget k r of Some (JArr xs) \<Rightarrow> xs | _ \<Rightarrow> [])"

definition trial_name :: "json \<Rightarrow> string" where
  "trial_name t = nullish (Option.bind (path_get [''settings'', ''name''] (Some t)) as_str) ''undefined''"

definition named_trial :: "string \<Rightarrow> json list \<Rightarrow> json option" where
  "named_trial n trials = find (\<lambda>t. path_get [''settings'', ''name''] (Some t) = Some (JStr n)) trials"

section \<open>Sweeps\<close>

record sweep_point =
  sw_processes :: real
  sw_median :: real
  sw_min :: real
  sw_max :: real
  sw_fanout_cpu :: real
  sw_generator_cpu :: real
  sw_repetitions :: nat

definition sweep_trials :: "string \<Rightarrow> json list \<Rightarrow> json list" where
  "sweep_trials signal trials = filter (\<lambda>t. path_get [''settings'', ''kind''] (Some t) = Some (JStr ''sweep'')
     \<and> path_get [''settings'', ''signal''] (Some t) = Some (JStr signal)) trials"

definition trial_number :: "string list \<Rightarrow> json \<Rightarrow> real result" where
  "trial_number ks t = number (path_get ks (Some t)) (trial_name t @ ''.'' @ join ''.'' ks)"

definition trial_processes :: "json \<Rightarrow> real result" where
  "trial_processes t = bind_result (number (path_get [''settings'', ''processes_per_signal''] (Some t)) (trial_name t @ ''.processes_per_signal''))
     (\<lambda>n. guard_err (n < 1) ''processes_per_signal must be positive'' (Inr n))"

text \<open>The trials of a signal by their number of processes, groups and members in the order they come.\<close>

fun group_trials :: "json list \<Rightarrow> (real, json list) omap \<Rightarrow> (real, json list) omap result" where
  "group_trials [] groups = Inr groups"
| "group_trials (t # ts) groups = bind_result (trial_processes t) (\<lambda>n.
     group_trials ts (AList.update n (nullish (map_of groups n) [] @ [t]) groups))"

definition least_of :: "real list \<Rightarrow> real" where
  "least_of xs = min_of (hd xs) (tl xs)"

definition greatest_of :: "real list \<Rightarrow> real" where
  "greatest_of xs = max_of (hd xs) (tl xs)"

definition collect :: "('a \<Rightarrow> 'b result) \<Rightarrow> 'a list \<Rightarrow> 'b list result" where
  "collect f xs = collect_results (map f xs)"

definition sweep_point_of :: "bool \<Rightarrow> real \<Rightarrow> real \<times> json list \<Rightarrow> sweep_point result" where
  "sweep_point_of preview repeat g =
    bind_result (collect (trial_number [''accepted_items_per_second'']) (snd g)) (\<lambda>rates.
    bind_result (collect (trial_number [''resources'', ''average_cpu_cores'']) (snd g)) (\<lambda>fanout.
    bind_result (collect (trial_number [''generator_cpu'', ''average_cpu_cores'']) (snd g)) (\<lambda>generator.
    guard_err (\<not> preview \<and> real (length (snd g)) \<noteq> repeat) ''Incomplete repetitions''
     (bind_result (collect (\<lambda>t. number (path_get [''settings'', ''repetition''] (Some t)) (trial_name t @ ''.repetition'')) (snd g)) (\<lambda>ids.
      guard_err (\<not> distinct ids) ''Duplicate repetition''
       (Inr \<lparr>sw_processes = fst g, sw_median = rounded 0 (median_of rates), sw_min = rounded 0 (least_of rates), sw_max = rounded 0 (greatest_of rates),
          sw_fanout_cpu = rounded 2 (median_of fanout), sw_generator_cpu = rounded 2 (median_of generator), sw_repetitions = length (snd g)\<rparr>))))))"

definition signal_sweep :: "bool \<Rightarrow> real \<Rightarrow> json list \<Rightarrow> string \<Rightarrow> (string \<times> sweep_point list) result" where
  "signal_sweep preview repeat trials signal = bind_result (group_trials (sweep_trials signal trials) []) (\<lambda>groups.
     guard_err (groups = []) (''Missing required '' @ signal @ '' sweeps'')
       (map_sum id (Pair signal) (collect (sweep_point_of preview repeat) (sort_by (\<lambda>a b. fst a \<le> fst b) groups))))"

section \<open>The series\<close>

text \<open>A sample's time and its three counters.\<close>

record counter_sample =
  cs_at :: real
  cs_spans :: real
  cs_logs :: real
  cs_metrics :: real

text \<open>Each sample is read and compared with the one before it, its time first.\<close>

definition sample_counter :: "counter_sample option \<Rightarrow> (counter_sample \<Rightarrow> real) \<Rightarrow> string \<Rightarrow> json \<Rightarrow> real result" where
  "sample_counter prev f k s = bind_result (number (path_get [''ingest_rows_total'', k] (Some s)) (''ingest_rows_total.'' @ k)) (\<lambda>v.
     guard_err (case prev of None \<Rightarrow> False | Some p \<Rightarrow> v < f p) ''Counter moved backwards'' (Inr v))"

definition sample_of :: "counter_sample option \<Rightarrow> json \<Rightarrow> counter_sample result" where
  "sample_of prev s = (case jget ''at_seconds'' s of
      Some (JNum (Fin t)) \<Rightarrow> guard_err (case prev of None \<Rightarrow> False | Some p \<Rightarrow> t \<le> cs_at p) ''Non-increasing sample time''
        (bind_result (sample_counter prev cs_spans ''spans'' s) (\<lambda>a. bind_result (sample_counter prev cs_logs ''logs'' s) (\<lambda>b.
         bind_result (sample_counter prev cs_metrics ''metrics'' s) (\<lambda>c. Inr \<lparr>cs_at = t, cs_spans = a, cs_logs = b, cs_metrics = c\<rparr>))))
    | _ \<Rightarrow> Inl (missing_field ''at_seconds''))"

fun read_samples :: "counter_sample option \<Rightarrow> json list \<Rightarrow> counter_sample list result" where
  "read_samples prev [] = Inr []"
| "read_samples prev (s # ss) = bind_result (sample_of prev s) (\<lambda>c. bind_result (read_samples (Some c) ss) (\<lambda>cs. Inr (c # cs)))"

definition rate_window :: real where "rate_window = 5"

record rate_point =
  rp_at :: real
  rp_interval :: real
  rp_spans :: real
  rp_logs :: real
  rp_metrics :: real

definition rate_between :: "counter_sample \<Rightarrow> counter_sample \<Rightarrow> rate_point" where
  "rate_between a b = (let d = cs_at b - cs_at a in
     \<lparr>rp_at = cs_at b, rp_interval = d, rp_spans = rounded 0 ((cs_spans b - cs_spans a) / d), rp_logs = rounded 0 ((cs_logs b - cs_logs a) / d),
       rp_metrics = rounded 0 ((cs_metrics b - cs_metrics a) / d)\<rparr>)"

text \<open>\<open>while (j + 1 < i && ...) j++\<close>\<close>

function advance_left :: "counter_sample list \<Rightarrow> nat \<Rightarrow> nat \<Rightarrow> nat" where
  "advance_left w i j = (if j + 1 < i \<and> rate_window \<le> cs_at (w ! i) - cs_at (w ! (j + 1)) then advance_left w i (j + 1) else j)"
  by pat_completeness auto

termination advance_left
  by (relation "measure (\<lambda>(_, i, j). i - j)") auto

declare advance_left.simps [simp del]

fun rate_series :: "counter_sample list \<Rightarrow> nat list \<Rightarrow> nat \<Rightarrow> rate_point list" where
  "rate_series w [] j = []"
| "rate_series w (i # is) j = (let k = advance_left w i j; p = rate_between (w ! k) (w ! i) in
     if rp_interval p < rate_window then rate_series w is k else p # rate_series w is k)"

definition sustained_series :: "real \<Rightarrow> counter_sample list \<Rightarrow> rate_point list" where
  "sustained_series seconds cs = (let w = filter (\<lambda>c. 0 \<le> cs_at c \<and> cs_at c \<le> seconds) cs in rate_series w [1 ..< length w] 0)"

subsection \<open>The window is the shortest one\<close>

definition times_increase :: "counter_sample list \<Rightarrow> bool" where
  "times_increase w \<longleftrightarrow> sorted_wrt (<) (map cs_at w)"

text \<open>The reference: the last sample before the i-th that is at least a window older, if there is one.\<close>

definition window_start :: "counter_sample list \<Rightarrow> nat \<Rightarrow> nat option" where
  "window_start w i = (let js = filter (\<lambda>j. rate_window \<le> cs_at (w ! i) - cs_at (w ! j)) [0 ..< i] in if js = [] then None else Some (last js))"

lemma window_start_Some:
  assumes "k < i" "rate_window \<le> cs_at (w ! i) - cs_at (w ! k)" "\<forall>j. k < j \<and> j < i \<longrightarrow> cs_at (w ! i) - cs_at (w ! j) < rate_window"
  shows "window_start w i = Some k"
proof -
  let ?P = "\<lambda>j. rate_window \<le> cs_at (w ! i) - cs_at (w ! j)"
  have "[0 ..< i] = [0 ..< k] @ k # [Suc k ..< i]" using assms(1) by (metis upt_add_eq_append upt_conv_Cons le0 less_imp_le_nat le_add_diff_inverse)
  moreover have "filter ?P [Suc k ..< i] = []" using assms(3) by (auto simp: filter_empty_conv not_le)
  ultimately show ?thesis using assms(2) by (simp add: window_start_def Let_def)
qed

lemma window_start_None:
  assumes "\<forall>j < i. cs_at (w ! i) - cs_at (w ! j) < rate_window" shows "window_start w i = None"
proof -
  have "filter (\<lambda>j. rate_window \<le> cs_at (w ! i) - cs_at (w ! j)) [0 ..< i] = []" using assms by (auto simp: filter_empty_conv not_le)
  then show ?thesis by (simp add: window_start_def)
qed

lemma times_le: "times_increase w \<Longrightarrow> a \<le> b \<Longrightarrow> b < length w \<Longrightarrow> cs_at (w ! a) \<le> cs_at (w ! b)"
  by (cases "a = b") (auto simp: times_increase_def sorted_wrt_iff_nth_less intro: less_imp_le)

text \<open>Before the i-th sample the left end is at the last sample that is old enough, or at the first.\<close>

definition left_end :: "counter_sample list \<Rightarrow> nat \<Rightarrow> nat \<Rightarrow> bool" where
  "left_end w i k \<longleftrightarrow> k < i \<and> (k = 0 \<or> rate_window \<le> cs_at (w ! i) - cs_at (w ! k))"

lemma advance_left_ends:
  assumes "left_end w i j" "times_increase w" "i < length w"
  shows "left_end w i (advance_left w i j) \<and> (\<forall>m. advance_left w i j < m \<and> m < i \<longrightarrow> cs_at (w ! i) - cs_at (w ! m) < rate_window)"
  using assms
proof (induction w i j rule: advance_left.induct)
  case (1 w i j)
  show ?case
  proof (cases "j + 1 < i \<and> rate_window \<le> cs_at (w ! i) - cs_at (w ! (j + 1))")
    case True
    then have "left_end w i (j + 1)" by (simp add: left_end_def)
    from 1(1) [OF True this 1(3,4)] show ?thesis using True by (simp add: advance_left.simps [of w i j])
  next
    case False
    have "cs_at (w ! i) - cs_at (w ! m) < rate_window" if "j < m" "m < i" for m
      using False that times_le [OF 1(3), of "j + 1" m] 1(4) by (simp add: not_le)
    moreover have "advance_left w i j = j" using False by (subst advance_left.simps) (simp only: if_False)
    ultimately show ?thesis using 1(2) by simp
  qed
qed

lemma rate_series_reference:
  assumes "times_increase w" "n \<le> length w" "i \<le> n" "i = n \<or> left_end w i j"
  shows "rate_series w [i ..< n] j = List.map_filter (\<lambda>m. map_option (\<lambda>k. rate_between (w ! k) (w ! m)) (window_start w m)) [i ..< n]"
  using assms
proof (induction "n - i" arbitrary: i j)
  case 0
  then show ?case by (simp add: List.map_filter_simps)
next
  case (Suc d)
  then have i: "i < n" "left_end w i j" by auto
  let ?k = "advance_left w i j"
  have adv: "left_end w i ?k" "\<forall>m. ?k < m \<and> m < i \<longrightarrow> cs_at (w ! i) - cs_at (w ! m) < rate_window"
    using advance_left_ends [OF i(2) Suc.prems(1)] i(1) Suc.prems(2) by auto
  have next_end: "Suc i = n \<or> left_end w (Suc i) ?k"
  proof (cases "Suc i = n")
    case False
    then have "Suc i < length w" using i Suc.prems(2) by simp
    then show ?thesis using adv(1) times_le [OF Suc.prems(1), of i "Suc i"] by (auto simp: left_end_def)
  qed simp
  have IH: "rate_series w [Suc i ..< n] ?k = List.map_filter (\<lambda>m. map_option (\<lambda>k. rate_between (w ! k) (w ! m)) (window_start w m)) [Suc i ..< n]"
    using Suc.hyps(1) [of "Suc i" ?k] Suc.hyps(2) Suc.prems(1,2) i(1) next_end by simp
  have int: "rp_interval (rate_between (w ! ?k) (w ! i)) = cs_at (w ! i) - cs_at (w ! ?k)" by (simp add: rate_between_def Let_def)
  have up: "[i ..< n] = i # [Suc i ..< n]" using i(1) by (simp add: upt_conv_Cons)
  show ?case
  proof (cases "cs_at (w ! i) - cs_at (w ! ?k) < rate_window")
    case True
    have "\<forall>j < i. cs_at (w ! i) - cs_at (w ! j) < rate_window"
      using True adv by (metis left_end_def linorder_neqE_nat not_less_zero not_le)
    from window_start_None [OF this] True IH show ?thesis by (simp add: up Let_def int List.map_filter_simps)
  next
    case False
    then have "window_start w i = Some ?k" using adv by (intro window_start_Some) (auto simp: left_end_def)
    with False IH show ?thesis by (simp add: up Let_def int List.map_filter_simps)
  qed
qed

lemma sample_of_later: "sample_of (Some p) s = Inr c \<Longrightarrow> cs_at p < cs_at c"
  by (auto simp: sample_of_def bind_result_Inr split: option.splits json.splits num.splits)

lemma read_samples_increase:
  "read_samples prev rows = Inr cs \<Longrightarrow> times_increase cs \<and> (\<forall>p. prev = Some p \<longrightarrow> (\<forall>c \<in> set cs. cs_at p < cs_at c))"
proof (induction prev rows arbitrary: cs rule: read_samples.induct)
  case (2 prev s ss)
  then obtain c ds where c: "sample_of prev s = Inr c" "read_samples (Some c) ss = Inr ds" "cs = c # ds" by (auto simp: bind_result_Inr)
  from "2.IH" [OF c(2)] have d: "times_increase ds" "\<forall>d \<in> set ds. cs_at c < cs_at d" by auto
  have "\<forall>p. prev = Some p \<longrightarrow> cs_at p < cs_at c" using c(1) sample_of_later by blast
  with d show ?case by (force simp: c(3) times_increase_def)
qed (simp add: times_increase_def)

text \<open>
  Property C26. The published series is computed with one pass of two pointers, and is the plain one: each sample
  of the phase that has another at least five seconds before it gives one point, with the rates since the latest
  such sample, and no other sample gives any.
\<close>

theorem series_rates_are_over_the_shortest_window:
  assumes "read_samples None rows = Inr cs"
  shows "sustained_series seconds cs = (let w = filter (\<lambda>c. 0 \<le> cs_at c \<and> cs_at c \<le> seconds) cs in
    List.map_filter (\<lambda>m. map_option (\<lambda>k. rate_between (w ! k) (w ! m)) (window_start w m)) [0 ..< length w])"
proof -
  let ?w = "filter (\<lambda>c. 0 \<le> cs_at c \<and> cs_at c \<le> seconds) cs"
  have w: "times_increase ?w" using read_samples_increase [OF assms] by (simp add: times_increase_def sorted_wrt_map sorted_wrt_filter)
  have zero: "window_start ?w 0 = None" by (simp add: window_start_def)
  show ?thesis
  proof (cases "length ?w")
    case 0
    then show ?thesis by (simp add: sustained_series_def List.map_filter_simps)
  next
    case (Suc n)
    have "1 = length ?w \<or> left_end ?w 1 0" by (simp add: left_end_def)
    from rate_series_reference [OF w order_refl _ this] Suc
    have "sustained_series seconds cs = List.map_filter (\<lambda>m. map_option (\<lambda>k. rate_between (?w ! k) (?w ! m)) (window_start ?w m)) [1 ..< length ?w]"
      by (simp add: sustained_series_def Let_def)
    moreover have "[0 ..< length ?w] = 0 # [1 ..< length ?w]" using Suc by (simp add: upt_conv_Cons)
    ultimately show ?thesis using zero by (simp add: Let_def List.map_filter_simps)
  qed
qed

definition demo_row :: "real \<Rightarrow> json" where
  "demo_row t = JObj [(''trial'', JStr ''x''), (''at_seconds'', JNum (Fin t)),
     (''ingest_rows_total'', JObj [(''spans'', JNum (Fin (10 * t))), (''logs'', JNum (Fin (10 * t))), (''metrics'', JNum (Fin (10 * t)))])]"

lemma series_rates_are_over_the_shortest_window_witness:
  "\<exists>a b. read_samples None [demo_row 0, demo_row 6] = Inr [a, b] \<and> sustained_series 20 [a, b] = [rate_between a b]"
proof -
  let ?s = "\<lambda>t. \<lparr>cs_at = t, cs_spans = 10 * t, cs_logs = 10 * t, cs_metrics = 10 * t\<rparr>"
  have "read_samples None [demo_row 0, demo_row 6] = Inr [?s 0, ?s 6]"
    by (simp add: demo_row_def path_get_def number_def sample_of_def sample_counter_def)
  from this series_rates_are_over_the_shortest_window [OF this, of 20] show ?thesis
    by (simp add: window_start_def rate_window_def List.map_filter_simps)
qed

section \<open>The published data\<close>

record sustained_run =
  sn_phase :: string
  sn_processes :: real
  sn_seconds :: real
  sn_rate :: real
  sn_items :: "real list"
  sn_fanout_cpu :: real
  sn_peak_rss :: real
  sn_generator_cpu :: real
  sn_classification :: string

record benchmark =
  bm_texts :: "(string \<times> string) list"
  bm_numbers :: "(string \<times> real) list"
  bm_accepted :: "real list"
  bm_sustained :: sustained_run
  bm_sweeps :: "(string \<times> sweep_point list) list"
  bm_phase :: string
  bm_seconds :: real
  bm_preview :: bool
  bm_gates :: "(string \<times> bool) list"
  bm_passed :: bool
  bm_series :: "rate_point list"

definition count_keys :: "string list" where
  "count_keys = [''spans'', ''log_records'', ''metric_points'']"

definition signal_names :: "string list" where
  "signal_names = [''traces'', ''logs'', ''metrics'', ''mixed'']"

text \<open>\<open>/#sha256=([a-f0-9]{64})$/\<close>\<close>

definition artifact_checksum :: "string \<Rightarrow> string option" where
  "artifact_checksum a = (let tail = drop (length a - 72) a in
     if 72 \<le> length a \<and> starts_with tail ''#sha256='' \<and> list_all (\<lambda>c. is_digit c \<or> CHR ''a'' \<le> c \<and> c \<le> CHR ''f'') (drop 8 tail)
     then Some (drop 8 tail) else None)"

definition read_gates :: "json \<Rightarrow> ((string \<times> bool) list \<times> bool) result" where
  "read_gates report = (case path_get [''summary'', ''quality_gates''] (Some report) of
      Some (JArr (g # gs)) \<Rightarrow>
        bind_result (collect (\<lambda>g. bind_result (text_field (jget ''name'' g) ''quality_gates.name'') (\<lambda>n.
            bind_result (boolean_field (jget ''passed'' g) ''quality_gates.passed'') (\<lambda>b. Inr (n, b)))) (g # gs)) (\<lambda>gates.
          bind_result (boolean_field (path_get [''summary'', ''passed''] (Some report)) ''summary.passed'') (\<lambda>passed.
            guard_err (passed \<noteq> list_all snd gates) ''summary.passed disagrees with quality_gates'' (Inr (gates, passed))))
    | _ \<Rightarrow> Inl ''Missing required summary.quality_gates'')"

definition text_fields :: "(string list \<times> string) list \<Rightarrow> json \<Rightarrow> (string \<times> string) list result" where
  "text_fields ks r = collect (\<lambda>(ks, name). map_sum id (Pair name) (text_field (path_get ks (Some r)) (join ''.'' ks))) ks"

definition number_fields :: "(string list \<times> string) list \<Rightarrow> json \<Rightarrow> (string \<times> real) list result" where
  "number_fields ks r = collect (\<lambda>(ks, name). map_sum id (Pair name) (number (path_get ks (Some r)) (join ''.'' ks))) ks"

text \<open>The measured run: its rate's own window, not the elapsed time, divides the counts.\<close>

definition measured_of :: "json \<Rightarrow> (real \<times> real \<times> real list) result" where
  "measured_of t =
    bind_result (number (jget ''elapsed_seconds'' t) ''elapsed_seconds'') (\<lambda>seconds.
    bind_result (number (jget ''accepted_items_per_second'' t) ''accepted_items_per_second'') (\<lambda>rate.
    bind_result (collect (\<lambda>k. number (path_get [''accepted'', k] (Some t)) (''accepted.'' @ k)) count_keys) (\<lambda>accepted.
    guard_err (seconds = 0 \<or> rate = 0 \<or> sum_list accepted = 0) ''Measured phase must have positive duration and accepted throughput''
     (Inr (seconds, rate, accepted)))))"

definition sustained_of :: "json \<Rightarrow> real \<times> real \<times> real list \<Rightarrow> sustained_run result" where
  "sustained_of t m = (case m of (seconds, rate, accepted) \<Rightarrow>
      bind_result (number (path_get [''settings'', ''processes_per_signal''] (Some t)) ''sustained.processes_per_signal'') (\<lambda>processes.
      bind_result (number (path_get [''resources'', ''average_cpu_cores''] (Some t)) ''sustained.resources.average_cpu_cores'') (\<lambda>cpu.
      bind_result (number (path_get [''resources'', ''peak_rss_bytes''] (Some t)) ''sustained.resources.peak_rss_bytes'') (\<lambda>rss.
      bind_result (number (path_get [''generator_cpu'', ''average_cpu_cores''] (Some t)) ''sustained.generator_cpu.average_cpu_cores'') (\<lambda>gen.
      bind_result (text_field (jget ''classification'' t) ''sustained.classification'') (\<lambda>cl.
        Inr \<lparr>sn_phase = trial_name t, sn_processes = processes, sn_seconds = rounded 1 seconds, sn_rate = rounded 0 rate,
          sn_items = map (\<lambda>n. rounded 0 (n / (sum_list accepted / rate))) accepted, sn_fanout_cpu = rounded 2 cpu,
          sn_peak_rss = rounded 1 (rss / 2 ^ 30), sn_generator_cpu = rounded 2 gen, sn_classification = cl\<rparr>))))))"

definition repeat_of :: "json \<Rightarrow> real result" where
  "repeat_of report = bind_result (number (path_get [''settings'', ''repeat''] (Some report)) ''settings.repeat'') (\<lambda>n.
     guard_err (n \<noteq> of_int \<lfloor>n\<rfloor> \<or> n < 1) ''settings.repeat must be a positive integer'' (Inr n))"

definition text_names :: "(string list \<times> string) list" where
  "text_names = [([''build'', ''fanout_version''], ''release''), ([''build'', ''harness_commit''], ''harness_commit''),
     ([''build'', ''telemetrygen_version''], ''telemetrygen''), ([''host'', ''description''], ''description''),
     ([''host'', ''generator_description''], ''generator_description''), ([''host'', ''cpu_model''], ''cpu_model'')]"

definition number_names :: "(string list \<times> string) list" where
  "number_names = [([''host'', ''logical_cpus''], ''logical_cpus''), ([''host'', ''memory_bytes''], ''memory_bytes''), ([''settings'', ''batch_size''], ''batch_size'')]"

text \<open>The phase asked for, which must hold all three signals.\<close>

definition selected_trial :: "string \<Rightarrow> json list \<Rightarrow> json result" where
  "selected_trial phase trials = (case named_trial phase trials of
      None \<Rightarrow> Inl ''Required phase is absent''
    | Some t \<Rightarrow> guard_err (path_get [''settings'', ''signal''] (Some t) \<noteq> Some (JStr ''mixed'')) ''Phase must contain all three signals'' (Inr t))"

definition evidence_url :: "(string \<Rightarrow> (string \<times> string) option) \<Rightarrow> string \<Rightarrow> string result" where
  "evidence_url url evidence = (case url evidence of
      None \<Rightarrow> Inl ''Invalid URL''
    | Some (protocol, href) \<Rightarrow> guard_err (protocol \<notin> {''https:'', ''http:''}) ''Evidence must be an HTTP(S) URL'' (Inr href))"

definition phase_series :: "string \<Rightarrow> real \<Rightarrow> json list \<Rightarrow> rate_point list result" where
  "phase_series phase seconds rows = (let mine = filter (\<lambda>s. jget ''trial'' s = Some (JStr phase)) rows in
     guard_err (length mine < 2) ''Required samples missing''
      (bind_result (read_samples None mine) (\<lambda>cs.
       guard_err (sustained_series seconds cs = []) ''No complete sample windows'' (Inr (sustained_series seconds cs)))))"

definition artifact_of :: "json \<Rightarrow> (string \<times> string) result" where
  "artifact_of report = bind_result (text_field (path_get [''build'', ''fanout_artifact''] (Some report)) ''build.fanout_artifact'') (\<lambda>a.
     case artifact_checksum a of None \<Rightarrow> Inl ''build.fanout_artifact requires a SHA-256 checksum'' | Some sha \<Rightarrow> Inr (a, sha))"

definition accepted_total :: "json \<Rightarrow> real list result" where
  "accepted_total report = collect (\<lambda>k. number (path_get [''summary'', ''accepted_total'', k] (Some report)) (''summary.accepted_total.'' @ k)) count_keys"

definition deriveBenchmark :: "(string \<Rightarrow> (string \<times> string) option) \<Rightarrow> json \<Rightarrow> json list \<Rightarrow> string \<Rightarrow> string \<Rightarrow> benchmark result" where
  "deriveBenchmark url report rows evidence phase =
    guard_err (jget ''schema_version'' report \<noteq> Some (JStr ''fanout-bench/v1'')) ''Unsupported report schema_version''
    (bind_result (evidence_url url evidence) (\<lambda>href.
     let trials = report_list ''trials'' report; preview = (phase \<noteq> ''mixed-sustained'') in
     guard_err (trials = []) ''Missing required field: trials''
    (bind_result (selected_trial phase trials) (\<lambda>selected.
     let measured = nullish (named_trial ''mixed-sustained'' trials) selected in
     bind_result (repeat_of report) (\<lambda>times.
     bind_result (collect (signal_sweep preview times trials) signal_names) (\<lambda>sweeps.
     bind_result (measured_of measured) (\<lambda>m.
     bind_result (number (jget ''elapsed_seconds'' selected) (phase @ ''.elapsed_seconds'')) (\<lambda>seconds.
     bind_result (phase_series phase seconds rows) (\<lambda>series.
     bind_result (read_gates report) (\<lambda>gates.
     bind_result (artifact_of report) (\<lambda>artifact.
     bind_result (text_fields text_names report) (\<lambda>texts.
     bind_result (number_fields number_names report) (\<lambda>nums.
     bind_result (accepted_total report) (\<lambda>total.
     bind_result (sustained_of measured m) (\<lambda>sustained.
     Inr \<lparr>bm_texts = texts @ [(''evidence'', href), (''artifact'', fst artifact), (''artifact_sha256'', snd artifact)],
          bm_numbers = (''repeat'', times) # nums, bm_accepted = total, bm_sustained = sustained, bm_sweeps = sweeps, bm_phase = phase,
          bm_seconds = seconds, bm_preview = preview, bm_gates = fst gates, bm_passed = list_all snd (fst gates), bm_series = series\<rparr>)))))))))))))))"

text \<open>The data file's own reading of it: the best point of a signal is the first of the highest median.\<close>

definition peak_of :: "sweep_point list \<Rightarrow> sweep_point" where
  "peak_of ps = foldl (\<lambda>best p. if sw_median best < sw_median p then p else best) (hd ps) (tl ps)"

subsection \<open>What is published is consistent\<close>

lemma collect_Inr: "collect f xs = Inr ys \<longleftrightarrow> map f xs = map Inr ys"
  by (simp add: collect_def collect_results_ok)

lemma collect_member: "collect f xs = Inr ys \<Longrightarrow> y \<in> set ys \<Longrightarrow> \<exists>x \<in> set xs. f x = Inr y"
  unfolding collect_Inr by (metis (no_types) image_iff list.set_map)

lemma rounded_mono: "x \<le> y \<Longrightarrow> rounded n x \<le> rounded n y"
  unfolding rounded_def by (intro divide_right_mono) (simp_all add: floor_mono mult_right_mono)

lemma least_of_le: "x \<in> set xs \<Longrightarrow> least_of xs \<le> x"
  by (cases xs) (auto simp: least_of_def intro: min_of_le)

lemma greatest_of_ge: "x \<in> set xs \<Longrightarrow> x \<le> greatest_of xs"
  by (cases xs) (auto simp: greatest_of_def intro: max_of_ge)

lemma median_between: "xs \<noteq> [] \<Longrightarrow> least_of xs \<le> median_of xs \<and> median_of xs \<le> greatest_of xs"
proof -
  assume ne: "xs \<noteq> []"
  let ?s = "sort_by (\<le>) xs"
  let ?m = "length ?s div 2"
  have eq: "set ?s = set xs" by simp
  have l: "0 < length ?s" using ne by simp
  then have "?m < length ?s" "?m - 1 < length ?s" by linarith+
  then have "?s ! ?m \<in> set xs" "?s ! (?m - 1) \<in> set xs" using nth_mem eq by blast+
  from least_of_le [OF this(1)] least_of_le [OF this(2)] greatest_of_ge [OF this(1)] greatest_of_ge [OF this(2)]
  show ?thesis by (simp add: median_of_def Let_def)
qed

lemma group_trials_filled:
  "group_trials ts groups = Inr gs \<Longrightarrow> \<forall>g \<in> set groups. snd g \<noteq> [] \<Longrightarrow> g \<in> set gs \<Longrightarrow> snd g \<noteq> []"
proof (induction ts arbitrary: groups)
  case (Cons t ts)
  from Cons.prems(1) obtain n where n: "group_trials ts (AList.update n (nullish (map_of groups n) [] @ [t]) groups) = Inr gs"
    by (auto simp: bind_result_Inr)
  have "\<forall>g \<in> set (AList.update n (nullish (map_of groups n) [] @ [t]) groups). snd g \<noteq> []"
  proof
    fix g assume "g \<in> set (AList.update n (nullish (map_of groups n) [] @ [t]) groups)"
    then show "snd g \<noteq> []" using Cons.prems(2) by (induction groups) (auto split: if_splits)
  qed
  from Cons.IH [OF n this Cons.prems(3)] show ?case .
qed simp

definition point_in_order :: "sweep_point \<Rightarrow> bool" where
  "point_in_order p \<longleftrightarrow> sw_min p \<le> sw_median p \<and> sw_median p \<le> sw_max p"

lemma sweep_point_in_order:
  assumes "sweep_point_of preview reps g = Inr p" "snd g \<noteq> []"
  shows "point_in_order p" "\<not> preview \<Longrightarrow> real (sw_repetitions p) = reps"
proof -
  from assms(1) obtain rates where r: "collect (trial_number [''accepted_items_per_second'']) (snd g) = Inr rates"
    and m: "sw_median p = rounded 0 (median_of rates)" "sw_min p = rounded 0 (least_of rates)" "sw_max p = rounded 0 (greatest_of rates)"
    and n: "\<not> preview \<longrightarrow> real (length (snd g)) = reps" "sw_repetitions p = length (snd g)"
    by (auto simp: sweep_point_of_def bind_result_Inr guard_err_def split: if_splits)
  have "rates \<noteq> []" using r assms(2) by (auto simp: collect_Inr)
  from median_between [OF this] show "point_in_order p" by (simp add: point_in_order_def m rounded_mono)
  show "\<not> preview \<Longrightarrow> real (sw_repetitions p) = reps" using n by simp
qed

lemma signal_sweep_in_order:
  assumes "signal_sweep preview reps trials signal = Inr s" "p \<in> set (snd s)"
  shows "point_in_order p \<and> (\<not> preview \<longrightarrow> real (sw_repetitions p) = reps)"
proof -
  from assms(1) obtain groups ps where g: "group_trials (sweep_trials signal trials) [] = Inr groups"
    and c: "collect (sweep_point_of preview reps) (sort_by (\<lambda>a b. fst a \<le> fst b) groups) = Inr ps" and s: "snd s = ps"
    by (auto simp: signal_sweep_def bind_result_Inr guard_err_def map_sum_def split: if_splits sum.splits)
  from collect_member [OF c, of p] assms(2) s obtain x where x: "x \<in> set groups" "sweep_point_of preview reps x = Inr p"
    unfolding set_sort_by by blast
  have "snd x \<noteq> []" using group_trials_filled [OF g _ x(1)] by simp
  from sweep_point_in_order [OF x(2) this] show ?thesis by simp
qed

lemma read_gates_agrees: "read_gates report = Inr g \<Longrightarrow> read_gates report = Inr (fst g, list_all snd (fst g))"
  by (cases g) (auto simp: read_gates_def bind_result_Inr split: option.splits json.splits list.splits)

lemma derived_parts:
  assumes "deriveBenchmark url report rows evidence phase = Inr b"
  shows "(\<exists>reps. map_of (bm_numbers b) ''repeat'' = Some reps
      \<and> collect (signal_sweep (bm_preview b) reps (report_list ''trials'' report)) signal_names = Inr (bm_sweeps b))
    \<and> bm_preview b = (phase \<noteq> ''mixed-sustained'') \<and> read_gates report = Inr (bm_gates b, bm_passed b)"
proof -
  let ?preview = "phase \<noteq> ''mixed-sustained''"
  from assms obtain reps sweeps gates texts nums total sustained seconds series where
    c: "collect (signal_sweep ?preview reps (report_list ''trials'' report)) signal_names = Inr sweeps"
    and g: "read_gates report = Inr gates"
    and b: "b = \<lparr>bm_texts = texts, bm_numbers = (''repeat'', reps) # nums, bm_accepted = total, bm_sustained = sustained, bm_sweeps = sweeps, bm_phase = phase,
          bm_seconds = seconds, bm_preview = ?preview, bm_gates = fst gates, bm_passed = list_all snd (fst gates), bm_series = series\<rparr>"
    unfolding deriveBenchmark_def Let_def guard_err_Inr_iff bind_result_Inr sum.inject
    by (elim exE conjE) (rule that, assumption, assumption, rule sym, assumption)
  show ?thesis using c read_gates_agrees [OF g] by (simp only: b benchmark.select_convs map_of.simps fst_conv snd_conv) simp
qed

text \<open>
  A published benchmark is consistent: it is marked passed exactly when every quality gate passed,
  which the report's own summary says too; the lowest, middle and highest rate of every point of a sweep are in that
  order; and unless it is marked a preview each point has the number of repetitions the report asked for.
\<close>

theorem published_benchmark_is_consistent:
  assumes "deriveBenchmark url report rows evidence phase = Inr b"
  shows "(bm_passed b \<longleftrightarrow> (\<forall>g \<in> set (bm_gates b). snd g)) \<and> (bm_preview b \<longleftrightarrow> phase \<noteq> ''mixed-sustained'')
    \<and> path_get [''summary'', ''passed''] (Some report) = Some (JBool (bm_passed b))
    \<and> (\<forall>s \<in> set (bm_sweeps b). \<forall>p \<in> set (snd s). sw_min p \<le> sw_median p \<and> sw_median p \<le> sw_max p
         \<and> (\<not> bm_preview b \<longrightarrow> map_of (bm_numbers b) ''repeat'' = Some (real (sw_repetitions p))))"
proof -
  from derived_parts [OF assms] obtain reps where r: "map_of (bm_numbers b) ''repeat'' = Some reps"
    and c: "collect (signal_sweep (bm_preview b) reps (report_list ''trials'' report)) signal_names = Inr (bm_sweeps b)"
    and p: "bm_preview b = (phase \<noteq> ''mixed-sustained'')" and gates: "read_gates report = Inr (bm_gates b, bm_passed b)" by blast
  have g: "bm_passed b \<longleftrightarrow> (\<forall>g \<in> set (bm_gates b). snd g)" "path_get [''summary'', ''passed''] (Some report) = Some (JBool (bm_passed b))"
    using gates by (auto simp: read_gates_def bind_result_Inr boolean_field_def list_all_iff split: option.splits json.splits list.splits)
  have "point_in_order p \<and> (\<not> bm_preview b \<longrightarrow> map_of (bm_numbers b) ''repeat'' = Some (real (sw_repetitions p)))"
    if s: "s \<in> set (bm_sweeps b)" and q: "p \<in> set (snd s)" for s p
  proof -
    from collect_member [OF c s] obtain k
      where "signal_sweep (bm_preview b) reps (report_list ''trials'' report) k = Inr s" by blast
    from signal_sweep_in_order [OF this q] r show ?thesis by auto
  qed
  with g p show ?thesis by (simp add: point_in_order_def)
qed

text \<open>A report of one preview phase, with one trial of each signal.\<close>

definition demo_trial :: "string \<Rightarrow> string \<Rightarrow> string \<Rightarrow> json" where
  "demo_trial name kind signal = JObj [
     (''settings'', JObj [(''name'', JStr name), (''kind'', JStr kind), (''signal'', JStr signal), (''processes_per_signal'', JNum (Fin 1)), (''repetition'', JNum (Fin 1))]),
     (''accepted_items_per_second'', JNum (Fin 30)), (''elapsed_seconds'', JNum (Fin 10)), (''classification'', JStr ''ok''),
     (''accepted'', JObj [(''spans'', JNum (Fin 100)), (''log_records'', JNum (Fin 100)), (''metric_points'', JNum (Fin 100))]),
     (''resources'', JObj [(''average_cpu_cores'', JNum (Fin 2)), (''peak_rss_bytes'', JNum (Fin 1024))]),
     (''generator_cpu'', JObj [(''average_cpu_cores'', JNum (Fin 1))])]"

definition demo_report :: json where
  "demo_report = JObj [(''schema_version'', JStr ''fanout-bench/v1''),
     (''build'', JObj [(''fanout_version'', JStr ''v1''), (''harness_commit'', JStr ''c''), (''telemetrygen_version'', JStr ''t''),
        (''fanout_artifact'', JStr (''a#sha256='' @ replicate 64 (CHR ''0'')))]),
     (''host'', JObj [(''description'', JStr ''h''), (''generator_description'', JStr ''g''), (''cpu_model'', JStr ''m''),
        (''logical_cpus'', JNum (Fin 8)), (''memory_bytes'', JNum (Fin 1024))]),
     (''settings'', JObj [(''repeat'', JNum (Fin 1)), (''batch_size'', JNum (Fin 100))]),
     (''trials'', JArr [demo_trial ''t'' ''sweep'' ''traces'', demo_trial ''l'' ''sweep'' ''logs'', demo_trial ''m'' ''sweep'' ''metrics'',
        demo_trial ''x'' ''sweep'' ''mixed'']),
     (''summary'', JObj [(''quality_gates'', JArr [JObj [(''name'', JStr ''loss''), (''passed'', JBool True)]]), (''passed'', JBool True),
        (''accepted_total'', JObj [(''spans'', JNum (Fin 100)), (''log_records'', JNum (Fin 100)), (''metric_points'', JNum (Fin 100))])])]"

lemmas demo_eval = path_get_def report_list_def trial_name_def named_trial_def number_def text_field_def boolean_field_def

lemma demo_blanks: "not_blank ''ok''" "not_blank ''v1''" "not_blank ''c''" "not_blank ''t''" "not_blank ''h''" "not_blank ''g''" "not_blank ''m''" "not_blank ''loss''"
  by (simp_all add: not_blank_def js_trim_def js_space_def byte_def cp_of_def is_cont_def)

lemma demo_checks:
  "jget ''schema_version'' demo_report = Some (JStr ''fanout-bench/v1'')" "report_list ''trials'' demo_report \<noteq> []"
  "selected_trial ''x'' (report_list ''trials'' demo_report) = Inr (demo_trial ''x'' ''sweep'' ''mixed'')"
  "named_trial ''mixed-sustained'' (report_list ''trials'' demo_report) = None" "repeat_of demo_report = Inr 1"
  "number (jget ''elapsed_seconds'' (demo_trial n k s)) e = Inr 10"
  "evidence_url (\<lambda>u. Some (''https:'', u)) ''u'' = Inr ''u''"
  by (simp_all add: demo_eval demo_report_def demo_trial_def selected_trial_def repeat_of_def evidence_url_def)

lemma demo_trials:
  "sweep_trials ''traces'' (report_list ''trials'' demo_report) = [demo_trial ''t'' ''sweep'' ''traces'']"
  "sweep_trials ''logs'' (report_list ''trials'' demo_report) = [demo_trial ''l'' ''sweep'' ''logs'']"
  "sweep_trials ''metrics'' (report_list ''trials'' demo_report) = [demo_trial ''m'' ''sweep'' ''metrics'']"
  "sweep_trials ''mixed'' (report_list ''trials'' demo_report) = [demo_trial ''x'' ''sweep'' ''mixed'']"
  by (simp_all add: demo_eval demo_report_def demo_trial_def sweep_trials_def)

lemma demo_sweep:
  assumes "sweep_trials signal trials = [demo_trial n ''sweep'' signal]"
  shows "\<exists>ps. signal_sweep True 1 trials signal = Inr (signal, ps)"
  unfolding signal_sweep_def assms
  by (simp add: path_get_def number_def demo_trial_def trial_processes_def trial_number_def collect_def sweep_point_of_def)

lemma demo_sweeps: "\<exists>sw. collect (signal_sweep True 1 (report_list ''trials'' demo_report)) signal_names = Inr sw"
  using demo_trials [THEN demo_sweep] by (auto simp: collect_def signal_names_def)

lemma demo_measured: "\<exists>m. measured_of (demo_trial ''x'' ''sweep'' ''mixed'') = Inr m \<and> (\<exists>r. sustained_of (demo_trial ''x'' ''sweep'' ''mixed'') m = Inr r)"
  by (simp add: demo_eval demo_trial_def measured_of_def collect_def count_keys_def sustained_of_def demo_blanks)

lemma demo_left: "advance_left w (Suc 0) 0 = 0"
  by (subst advance_left.simps) simp

lemma demo_series: "\<exists>r. phase_series ''x'' 10 [demo_row 0, demo_row 6] = Inr r"
  by (simp add: demo_eval demo_row_def phase_series_def sample_of_def sample_counter_def sustained_series_def rate_window_def demo_left
      rate_between_def Let_def)

lemma demo_rest:
  "\<exists>g. read_gates demo_report = Inr g" "\<exists>x. text_fields text_names demo_report = Inr x" "\<exists>x. number_fields number_names demo_report = Inr x"
  "\<exists>x. accepted_total demo_report = Inr x"
  by (auto simp: demo_eval demo_report_def read_gates_def text_fields_def number_fields_def accepted_total_def text_names_def number_names_def
      collect_def count_keys_def demo_blanks)

lemma artifact_checksum_appended:
  "length h = 64 \<Longrightarrow> list_all (\<lambda>c. is_digit c \<or> CHR ''a'' \<le> c \<and> c \<le> CHR ''f'') h \<Longrightarrow> artifact_checksum (a @ ''#sha256='' @ h) = Some h"
  by (simp add: artifact_checksum_def Let_def)

lemma demo_artifact: "\<exists>x. artifact_of demo_report = Inr x"
proof -
  let ?h = "replicate 64 (CHR ''0'')"
  have "path_get [''build'', ''fanout_artifact''] (Some demo_report) = Some (JStr (''a'' @ ''#sha256='' @ ?h))"
    by (simp add: path_get_def demo_report_def)
  moreover have "not_blank (''a'' @ ''#sha256='' @ ?h)"
  proof -
    have "\<forall>c \<in> set (''a'' @ ''#sha256='' @ ?h). byte c < 128" by (simp add: byte_def)
    then show ?thesis unfolding not_blank_def by (simp only: code_points_ascii) (simp add: byte_def cp_of_def js_space_def)
  qed
  moreover have "artifact_checksum (''a'' @ ''#sha256='' @ ?h) = Some ?h"
    by (rule artifact_checksum_appended) (simp_all add: list_all_iff is_digit_def byte_def)
  ultimately show ?thesis by (simp add: artifact_of_def text_field_def del: append.simps)
qed

lemma published_benchmark_is_consistent_witness:
  "\<exists>b. deriveBenchmark (\<lambda>u. Some (''https:'', u)) demo_report [demo_row 0, demo_row 6] ''u'' ''x'' = Inr b
     \<and> (bm_passed b \<longleftrightarrow> (\<forall>g \<in> set (bm_gates b). snd g))"
proof -
  obtain sw m r se g x n t a where
    p: "collect (signal_sweep True 1 (report_list ''trials'' demo_report)) signal_names = Inr sw"
       "measured_of (demo_trial ''x'' ''sweep'' ''mixed'') = Inr m" "sustained_of (demo_trial ''x'' ''sweep'' ''mixed'') m = Inr r"
       "phase_series ''x'' 10 [demo_row 0, demo_row 6] = Inr se" "read_gates demo_report = Inr g" "text_fields text_names demo_report = Inr x"
       "number_fields number_names demo_report = Inr n" "accepted_total demo_report = Inr t" "artifact_of demo_report = Inr a"
    using demo_sweeps demo_measured demo_series demo_rest demo_artifact by blast
  have "(''x'' \<noteq> ''mixed-sustained'') = True" by simp
  then have "\<exists>b. deriveBenchmark (\<lambda>u. Some (''https:'', u)) demo_report [demo_row 0, demo_row 6] ''u'' ''x'' = Inr b"
    by (simp add: deriveBenchmark_def demo_checks p)
  then show ?thesis using published_benchmark_is_consistent by blast
qed

end
