(* ===== verification/Chart_Keyboard.thy ===== *)
theory Chart_Keyboard
  imports Labels
begin

text \<open>
  The keyboard on a chart (\<open>ui/host/src/dashboards/chart-keyboard.tsx\<close>): which point is selected while the data under
  it changes, the keys that move it, and the range that is being chosen. Times are whole milliseconds; bounds
  that are not both finite are none. A first coordinate is a number, a text or nothing.
\<close>

section \<open>Points\<close>

record time_window =
  tw_from :: int
  tw_to :: int

text \<open>\<open>x ?? y\<close>\<close>

definition given :: "json option \<Rightarrow> json option" where
  "given v = (if v = Some JNull then None else v)"

definition selection_of :: "keyboard_point \<Rightarrow> json option" where
  "selection_of p = jget ''selection'' (pe_data (kp_event p))"

definition selection_part :: "string \<Rightarrow> keyboard_point \<Rightarrow> json option" where
  "selection_part k p = Option.bind (selection_of p) (jget k)"

definition first_value :: "json \<Rightarrow> json option" where
  "first_value v = (case v of JArr xs \<Rightarrow> nth_opt xs 0 | _ \<Rightarrow> None)"

text \<open>What \<open>JSON.stringify\<close> keeps apart: in a list nothing is written as null.\<close>

definition pointIdentity :: "keyboard_point \<Rightarrow> json list" where
  "pointIdentity p = map (\<lambda>v. nullish v JNull)
    [map_option JStr (pe_series (kp_event p)), pe_name (kp_event p),
     or_else (given (selection_part ''from'' p)) (or_else (given (selection_part ''time'' p)) (first_value (pe_value (kp_event p)))),
     selection_part ''dimensions'' p, selection_part ''bucket'' p]"

text \<open>What a chart hands over at a render. \<open>ch_window\<close> is \<open>pointWindow\<close>, \<open>ch_summary\<close> the text of a point.\<close>

record chart =
  ch_points :: "keyboard_point list"
  ch_window :: "keyboard_point \<Rightarrow> time_window option"
  ch_summary :: "keyboard_point \<Rightarrow> string"
  ch_zoom :: bool
  ch_click :: bool
  ch_can_select :: "point_event \<Rightarrow> bool"
  ch_bounds :: "time_window option"

definition location :: "chart \<Rightarrow> keyboard_point \<Rightarrow> json option" where
  "location c p = or_else (map_option (\<lambda>w. JNum (Fin (of_int (tw_from w)))) (ch_window c p))
     (or_else (given (pe_name (kp_event p))) (first_value (pe_value (kp_event p))))"

text \<open>\<open>Math.abs(next - at) < Math.abs(old - at)\<close>\<close>

fun closer :: "num \<Rightarrow> num \<Rightarrow> num \<Rightarrow> bool" where
  "closer (Fin here) (Fin n) (Fin old) = (\<bar>n - here\<bar> < \<bar>old - here\<bar>)"
| "closer (Fin here) (Fin n) PInf = True"
| "closer (Fin here) (Fin n) NInf = True"
| "closer _ _ _ = False"

definition better_point :: "chart \<Rightarrow> num \<Rightarrow> keyboard_point option \<Rightarrow> keyboard_point \<Rightarrow> keyboard_point option" where
  "better_point c here best p = (case location c p of
      Some (JNum n) \<Rightarrow> (case Option.bind best (location c) of
          Some (JNum old) \<Rightarrow> if closer here n old then Some p else best
        | _ \<Rightarrow> Some p)
    | _ \<Rightarrow> best)"

definition nearest_point :: "chart \<Rightarrow> num \<Rightarrow> keyboard_point list \<Rightarrow> keyboard_point option" where
  "nearest_point c here ps = foldl (better_point c here) None ps"

definition same_series :: "keyboard_point \<Rightarrow> keyboard_point \<Rightarrow> bool" where
  "same_series p q \<longleftrightarrow> pe_series (kp_event p) = pe_series (kp_event q)"

definition identified :: "chart \<Rightarrow> json list \<Rightarrow> keyboard_point option" where
  "identified c k = find (\<lambda>p. pointIdentity p = k) (rev (ch_points c))"

definition range_available :: "chart \<Rightarrow> bool" where
  "range_available c \<longleftrightarrow> ch_zoom c \<and> (case ch_bounds c of None \<Rightarrow> False | Some b \<Rightarrow> tw_from b < tw_to b)"

section \<open>The state\<close>

record pending_range =
  pr_anchor :: "json list"
  pr_window :: time_window
  pr_from :: int
  pr_to :: int

text \<open>\<open>kb_active\<close> and \<open>kb_highlight\<close> are what the chart was told last.\<close>

record keyboard =
  kb_focused :: bool
  kb_announcement :: string
  kb_selected :: "json list option"
  kb_pending :: "pending_range option"
  kb_saved :: "keyboard_point option"
  kb_pointer :: bool
  kb_active :: bool
  kb_highlight :: "keyboard_point option"

definition new_keyboard :: keyboard where
  "new_keyboard = \<lparr>kb_focused = False, kb_announcement = [], kb_selected = None, kb_pending = None, kb_saved = None, kb_pointer = False,
     kb_active = False, kb_highlight = None\<rparr>"

definition saved_series :: "chart \<Rightarrow> keyboard \<Rightarrow> keyboard_point list" where
  "saved_series c s = (case kb_saved s of None \<Rightarrow> ch_points c | Some q \<Rightarrow> filter (\<lambda>p. same_series p q) (ch_points c))"

definition candidates :: "chart \<Rightarrow> keyboard \<Rightarrow> keyboard_point list" where
  "candidates c s = (if saved_series c s = [] then ch_points c else saved_series c s)"

definition nearest_to_saved :: "chart \<Rightarrow> keyboard \<Rightarrow> keyboard_point option" where
  "nearest_to_saved c s = (case Option.bind (kb_saved s) (location c) of
      Some (JNum here) \<Rightarrow> nearest_point c here (candidates c s)
    | here \<Rightarrow> find (\<lambda>p. location c p = here) (candidates c s))"

definition current_point :: "chart \<Rightarrow> keyboard \<Rightarrow> keyboard_point option" where
  "current_point c s = (case kb_selected s of
      None \<Rightarrow> head_opt (ch_points c)
    | Some k \<Rightarrow> or_else (identified c k) (or_else (nearest_to_saved c s) (or_else (head_opt (candidates c s)) (head_opt (ch_points c)))))"

text \<open>The effects after a render: the selected point is remembered, the chart is told of it, and a range outside the bounds is given up.\<close>

definition remember :: "chart \<Rightarrow> keyboard \<Rightarrow> keyboard" where
  "remember c s = (case current_point c s of
      None \<Rightarrow> s
    | Some p \<Rightarrow> if kb_selected s = None \<or> identified c (the (kb_selected s)) \<noteq> None \<or> saved_series c s = []
        then s\<lparr>kb_saved := Some p, kb_selected := (if kb_selected s = None \<or> saved_series c s = [] then Some (pointIdentity p) else kb_selected s)\<rparr>
        else s)"

definition show_current :: "chart \<Rightarrow> keyboard \<Rightarrow> keyboard" where
  "show_current c s = (if kb_focused s then s\<lparr>kb_highlight := current_point c s\<rparr> else s)"

definition keep_in_bounds :: "chart \<Rightarrow> keyboard \<Rightarrow> keyboard" where
  "keep_in_bounds c s = (case (kb_pending s, ch_bounds c) of
      (Some r, Some b) \<Rightarrow> if pr_from r < tw_from b \<or> tw_to b < pr_to r then s\<lparr>kb_pending := None\<rparr> else s
    | _ \<Rightarrow> s)"

definition render :: "chart \<Rightarrow> keyboard \<Rightarrow> keyboard" where
  "render c s = keep_in_bounds c (show_current c (remember c (remember c s)))"

section \<open>Moving\<close>

definition series_names :: "chart \<Rightarrow> string option list" where
  "series_names c = uniq (map (\<lambda>p. pe_series (kp_event p)) (ch_points c))"

definition peers :: "chart \<Rightarrow> keyboard \<Rightarrow> keyboard_point list" where
  "peers c s = filter (\<lambda>p. pe_series (kp_event p) = Option.bind (current_point c s) (\<lambda>q. pe_series (kp_event q))) (ch_points c)"

definition index_of :: "'a \<Rightarrow> 'a list \<Rightarrow> int" where
  "index_of x xs = (case find_index (\<lambda>y. y = x) xs of None \<Rightarrow> -1 | Some i \<Rightarrow> int i)"

definition kb_position :: "chart \<Rightarrow> keyboard \<Rightarrow> int" where
  "kb_position c s = (case current_point c s of None \<Rightarrow> -1 | Some p \<Rightarrow> index_of p (peers c s))"

definition clamped_nth :: "'a list \<Rightarrow> int \<Rightarrow> 'a option" where
  "clamped_nth xs i = nth_opt xs (nat (max 0 (min (int (length xs) - 1) i)))"

text \<open>No date has a text beyond \<open>max_date\<close> milliseconds: \<open>toISOString\<close> throws, and nothing after it is done.\<close>

definition max_date :: int where "max_date = 8640000000000000"

text \<open>The range from the window of the anchor to that of the point, inside the bounds; \<open>Inl ()\<close> is the throw.\<close>

definition range_over :: "json list \<Rightarrow> time_window \<Rightarrow> time_window \<Rightarrow> time_window \<Rightarrow> pending_range" where
  "range_over anchor a b bd = \<lparr>pr_anchor = anchor, pr_window = a, pr_from = max (tw_from bd) (min (tw_from a) (tw_from b)),
     pr_to = min (tw_to bd) (max (tw_to a) (tw_to b))\<rparr>"

definition extended :: "chart \<Rightarrow> keyboard \<Rightarrow> keyboard_point \<Rightarrow> keyboard_point \<Rightarrow> (unit + pending_range option)" where
  "extended c s cur p =
    (let anchor = (case kb_pending s of Some r \<Rightarrow> pr_anchor r | None \<Rightarrow> pointIdentity cur);
         a = (case kb_pending s of Some r \<Rightarrow> Some (pr_window r) | None \<Rightarrow> Option.bind (identified c anchor) (ch_window c)) in
     case (a, ch_window c p, ch_bounds c) of
       (Some a, Some b, Some bd) \<Rightarrow> (let r = range_over anchor a b bd in
          if \<not> pr_from r < pr_to r then Inr (kb_pending s)
          else if \<bar>pr_from r\<bar> \<le> max_date \<and> \<bar>pr_to r\<bar> \<le> max_date then Inr (Some r) else Inl ())
     | _ \<Rightarrow> Inr (kb_pending s))"

definition choose_point :: "chart \<Rightarrow> keyboard_point option \<Rightarrow> bool \<Rightarrow> keyboard \<Rightarrow> keyboard" where
  "choose_point c q grow s = (case q of
      None \<Rightarrow> s
    | Some p \<Rightarrow>
        (let s1 = s\<lparr>kb_announcement := ch_summary c p\<rparr>;
             r = (case current_point c s of Some cur \<Rightarrow> if grow \<and> range_available c then extended c s cur p else Inr (kb_pending s)
                  | None \<Rightarrow> Inr (kb_pending s))
         in case r of Inl _ \<Rightarrow> s1 | Inr r \<Rightarrow> s1\<lparr>kb_pending := r, kb_saved := Some p, kb_selected := Some (pointIdentity p)\<rparr>))"

definition other_series_point :: "chart \<Rightarrow> int \<Rightarrow> keyboard_point \<Rightarrow> keyboard_point option" where
  "other_series_point c delta cur =
    (let name = clamped_nth (series_names c) (index_of (pe_series (kp_event cur)) (series_names c) + delta);
         cs = filter (\<lambda>p. Some (pe_series (kp_event p)) = name) (ch_points c); here = location c cur in
     or_else (find (\<lambda>p. location c p = here) cs)
       (or_else (case here of Some (JNum n) \<Rightarrow> nearest_point c n cs | _ \<Rightarrow> None) (head_opt cs)))"

definition moveSeries :: "chart \<Rightarrow> int \<Rightarrow> keyboard \<Rightarrow> keyboard" where
  "moveSeries c delta s = (case current_point c s of None \<Rightarrow> s | Some cur \<Rightarrow> choose_point c (other_series_point c delta cur) False s)"

datatype chart_key = ArrowLeft | ArrowRight | ArrowUp | ArrowDown | HomeKey | EndKey | EnterKey | EscapeKey | OtherKey

definition is_arrow :: "chart_key \<Rightarrow> bool" where
  "is_arrow k \<longleftrightarrow> k \<in> {ArrowLeft, ArrowRight, ArrowUp, ArrowDown}"

definition is_navigation :: "chart_key \<Rightarrow> bool" where
  "is_navigation k \<longleftrightarrow> is_arrow k \<or> k = HomeKey \<or> k = EndKey"

definition navigate :: "chart \<Rightarrow> chart_key \<Rightarrow> bool \<Rightarrow> keyboard \<Rightarrow> keyboard" where
  "navigate c k shift s =
    (if k = ArrowLeft \<or> k = ArrowRight then choose_point c (clamped_nth (peers c s) (kb_position c s + (if k = ArrowLeft then -1 else 1))) shift s
     else if \<not> shift \<and> (k = ArrowUp \<or> k = ArrowDown) then moveSeries c (if k = ArrowUp then -1 else 1) s
     else if \<not> shift \<and> k = HomeKey then choose_point c (head_opt (peers c s)) False s
     else if \<not> shift \<and> k = EndKey then choose_point c (last_opt (peers c s)) False s
     else s)"

section \<open>The handlers\<close>

text \<open>A key: with a modifier, or handled already; repeated; on the plot itself; in fullscreen.\<close>

record key_press =
  ky_key :: chart_key
  ky_shift :: bool
  ky_foreign :: bool
  ky_repeat :: bool
  ky_own :: bool
  ky_fullscreen :: bool

datatype kb_event =
    TabPressed
  | PointerDown bool
  | FocusOn bool
  | BlurTo bool
  | KeyDown key_press
  | ZoomPressed
  | CancelPressed
  | RangeReset
  | Rendered

datatype kb_call = ZoomTo int int | ClickOn point_event

definition focus_in :: "keyboard \<Rightarrow> keyboard" where
  "focus_in s = (if kb_pointer s then s else s\<lparr>kb_active := True, kb_focused := True\<rparr>)"

definition blur_out :: "keyboard \<Rightarrow> keyboard" where
  "blur_out s = s\<lparr>kb_focused := False, kb_pending := None, kb_announcement := [], kb_highlight := None, kb_active := False\<rparr>"

text \<open>The plot takes the focus back; when it has it already nothing more happens.\<close>

definition cancel_range :: "bool \<Rightarrow> keyboard \<Rightarrow> keyboard" where
  "cancel_range own s = (let s1 = s\<lparr>kb_pending := None\<rparr> in if own then s1 else focus_in s1)"

definition on_escape :: "key_press \<Rightarrow> keyboard \<Rightarrow> keyboard" where
  "on_escape k s = (if kb_pending s \<noteq> None then cancel_range (ky_own k) s
     else if ky_own k \<and> \<not> ky_fullscreen k then blur_out s else s)"

definition wake :: "keyboard \<Rightarrow> keyboard" where
  "wake s = (if kb_focused s then s else s\<lparr>kb_pointer := False, kb_focused := True, kb_active := True\<rparr>)"

definition on_key :: "chart \<Rightarrow> key_press \<Rightarrow> keyboard \<Rightarrow> keyboard \<times> kb_call list" where
  "on_key c k s =
    (if ky_foreign k then (s, [])
     else if ky_key k = EscapeKey \<and> \<not> ky_repeat k then (on_escape k s, [])
     else if \<not> ky_own k \<or> ky_repeat k \<and> \<not> is_arrow (ky_key k) then (s, [])
     else if is_navigation (ky_key k)
       then (let s1 = wake s in
         (if \<not> kb_focused s \<and> current_point c s = None then s1
          else if \<not> ky_shift k \<or> ky_key k = ArrowLeft \<or> ky_key k = ArrowRight then navigate c (ky_key k) (ky_shift k) s1 else s1, []))
     else if ky_key k = EnterKey \<and> kb_focused s \<and> \<not> ky_shift k \<and> ch_click c
       then (s, case current_point c s of Some p \<Rightarrow> if ch_can_select c (kp_event p) then [ClickOn (kp_event p)] else [] | None \<Rightarrow> [])
     else (s, []))"

definition kb_handle :: "chart \<Rightarrow> kb_event \<Rightarrow> keyboard \<Rightarrow> keyboard \<times> kb_call list" where
  "kb_handle c e s = (case e of
      TabPressed \<Rightarrow> (s\<lparr>kb_pointer := False\<rparr>, [])
    | PointerDown on_bar \<Rightarrow> (if on_bar then s else s\<lparr>kb_pointer := True, kb_focused := False, kb_active := False,
        kb_highlight := (if kb_focused s then None else kb_highlight s)\<rparr>, [])
    | FocusOn own \<Rightarrow> (if own then focus_in s else s, [])
    | BlurTo inside \<Rightarrow> (if inside then s else blur_out s, [])
    | KeyDown k \<Rightarrow> on_key c k s
    | ZoomPressed \<Rightarrow> (case kb_pending s of Some r \<Rightarrow> if range_available c then (cancel_range False s, [ZoomTo (pr_from r) (pr_to r)]) else (s, []) | None \<Rightarrow> (s, []))
    | CancelPressed \<Rightarrow> (if kb_pending s \<noteq> None \<and> range_available c then cancel_range False s else s, [])
    | RangeReset \<Rightarrow> (s\<lparr>kb_pending := None\<rparr>, [])
    | Rendered \<Rightarrow> (s, []))"

text \<open>Every event is answered under the chart of its render, and rendered.\<close>

definition kb_step :: "chart \<times> kb_event \<Rightarrow> keyboard \<Rightarrow> keyboard" where
  "kb_step ce s = render (fst ce) (fst (kb_handle (fst ce) (snd ce) (render (fst ce) s)))"

definition kb_calls :: "chart \<times> kb_event \<Rightarrow> keyboard \<Rightarrow> kb_call list" where
  "kb_calls ce s = snd (kb_handle (fst ce) (snd ce) (render (fst ce) s))"

section \<open>What always holds\<close>

lemma focus_projections [simp]:
  "kb_pending (focus_in s) = kb_pending s" "kb_pending (wake s) = kb_pending s" "kb_highlight (focus_in s) = kb_highlight s" "kb_highlight (wake s) = kb_highlight s"
  by (simp_all add: focus_in_def wake_def)

lemma same_selection:
  assumes "kb_selected s = kb_selected t" "kb_saved s = kb_saved t"
  shows "current_point c s = current_point c t"
proof -
  have "saved_series c s = saved_series c t" using assms by (simp add: saved_series_def)
  then have "candidates c s = candidates c t" by (simp add: candidates_def)
  moreover from this have "nearest_to_saved c s = nearest_to_saved c t" using assms by (simp only: nearest_to_saved_def)
  ultimately show ?thesis using assms by (simp only: current_point_def)
qed

lemma current_wake [simp]: "current_point c (wake s) = current_point c s"
  by (rule same_selection) (simp_all add: wake_def)

text \<open>A pending range that the chart could be zoomed to.\<close>

definition range_ok :: "chart \<Rightarrow> keyboard \<Rightarrow> bool" where
  "range_ok c s \<longleftrightarrow> (\<forall>r b. kb_pending s = Some r \<longrightarrow> pr_from r < pr_to r \<and> (ch_bounds c = Some b \<longrightarrow> tw_from b \<le> pr_from r \<and> pr_to r \<le> tw_to b))"

definition range_filled :: "keyboard \<Rightarrow> bool" where
  "range_filled s \<longleftrightarrow> (\<forall>r. kb_pending s = Some r \<longrightarrow> pr_from r < pr_to r)"

lemma range_ok_filled: "range_ok c s \<Longrightarrow> range_filled s"
  by (auto simp: range_ok_def range_filled_def)

lemma extended_cases:
  assumes "extended c s cur p = Inr r"
  obtains "r = kb_pending s" | anchor a b bd where "r = Some (range_over anchor a b bd)" "ch_bounds c = Some bd" "ch_window c p = Some b"
    "pr_from (range_over anchor a b bd) < pr_to (range_over anchor a b bd)"
    "case kb_pending s of Some u \<Rightarrow> a = pr_window u \<and> anchor = pr_anchor u
       | None \<Rightarrow> anchor = pointIdentity cur \<and> Option.bind (identified c anchor) (ch_window c) = Some a"
proof -
  let ?anchor = "case kb_pending s of Some r \<Rightarrow> pr_anchor r | None \<Rightarrow> pointIdentity cur"
  let ?a = "case kb_pending s of Some r \<Rightarrow> Some (pr_window r) | None \<Rightarrow> Option.bind (identified c ?anchor) (ch_window c)"
  show ?thesis
  proof (cases "\<exists>a b bd. ?a = Some a \<and> ch_window c p = Some b \<and> ch_bounds c = Some bd")
    case True
    then obtain a b bd where x: "?a = Some a" "ch_window c p = Some b" "ch_bounds c = Some bd" by blast
    let ?r = "range_over ?anchor a b bd"
    have e: "extended c s cur p = (if \<not> pr_from ?r < pr_to ?r then Inr (kb_pending s)
        else if \<bar>pr_from ?r\<bar> \<le> max_date \<and> \<bar>pr_to ?r\<bar> \<le> max_date then Inr (Some ?r) else Inl ())"
      by (simp only: extended_def Let_def x prod.case option.case)
    have k: "case kb_pending s of Some u \<Rightarrow> a = pr_window u \<and> ?anchor = pr_anchor u
       | None \<Rightarrow> ?anchor = pointIdentity cur \<and> Option.bind (identified c ?anchor) (ch_window c) = Some a"
      using x(1) by (cases "kb_pending s") simp_all
    show ?thesis
    proof (cases "pr_from ?r < pr_to ?r")
      case True
      then have "r = Some ?r" using assms e by (simp split: if_splits)
      from that(2) [OF this x(3,2) True k] show ?thesis .
    qed (use assms e that(1) in simp)
  next
    case False
    then have "extended c s cur p = Inr (kb_pending s)"
      unfolding extended_def Let_def by (cases ?a; cases "ch_window c p"; cases "ch_bounds c") simp_all
    then show ?thesis using assms that(1) by simp
  qed
qed

lemma extended_ok:
  assumes "extended c s cur p = Inr (Some r)" "range_ok c s"
  shows "pr_from r < pr_to r" "ch_bounds c = Some b \<Longrightarrow> tw_from b \<le> pr_from r \<and> pr_to r \<le> tw_to b"
  by (cases rule: extended_cases [OF assms(1)]; use assms(2) in \<open>force simp: range_ok_def range_over_def\<close>)+

lemma choose_cases:
  obtains "choose_point c q grow s = s" | a where "choose_point c q grow s = s\<lparr>kb_announcement := a\<rparr>"
  | a p r where "q = Some p"
      "choose_point c q grow s = s\<lparr>kb_announcement := a, kb_pending := r, kb_saved := Some p, kb_selected := Some (pointIdentity p)\<rparr>"
      "r = kb_pending s \<or> (\<exists>cur. current_point c s = Some cur \<and> extended c s cur p = Inr r)"
proof (cases q)
  case None
  then show ?thesis using that(1) by (simp add: choose_point_def)
next
  case (Some p)
  let ?r = "case current_point c s of Some cur \<Rightarrow> if grow \<and> range_available c then extended c s cur p else Inr (kb_pending s) | None \<Rightarrow> Inr (kb_pending s)"
  have r: "?r = Inr (kb_pending s) \<or> (\<exists>cur. current_point c s = Some cur \<and> ?r = extended c s cur p)" by (cases "current_point c s") simp_all
  show ?thesis
  proof (cases ?r)
    case (Inl u)
    then show ?thesis using that(2) Some by (simp add: choose_point_def Let_def)
  next
    case (Inr x)
    then have "choose_point c q grow s = s\<lparr>kb_announcement := ch_summary c p, kb_pending := x, kb_saved := Some p, kb_selected := Some (pointIdentity p)\<rparr>"
      using Some by (simp add: choose_point_def Let_def)
    moreover have "x = kb_pending s \<or> (\<exists>cur. current_point c s = Some cur \<and> extended c s cur p = Inr x)" using r Inr by auto
    ultimately show ?thesis using that(3) Some by blast
  qed
qed

lemma choose_focus [simp]:
  "kb_focused (choose_point c q g s) = kb_focused s" "kb_active (choose_point c q g s) = kb_active s" "kb_highlight (choose_point c q g s) = kb_highlight s"
  by (cases rule: choose_cases [of c q g s]; simp)+

lemma choose_ok: "range_ok c s \<Longrightarrow> range_ok c (choose_point c q grow s)"
proof (cases rule: choose_cases [of c q grow s])
  case (3 a p r)
  assume ok: "range_ok c s"
  show ?thesis
  proof (cases "r = kb_pending s")
    case True
    then show ?thesis using ok by (simp add: 3(2) range_ok_def)
  next
    case False
    with 3(3) obtain cur where e: "extended c s cur p = Inr r" by blast
    show ?thesis using extended_ok [OF _ ok] e by (cases r) (auto simp: 3(2) range_ok_def)
  qed
qed (simp_all add: range_ok_def)

lemma remember_projections [simp]:
  "kb_focused (remember c s) = kb_focused s" "kb_active (remember c s) = kb_active s" "kb_highlight (remember c s) = kb_highlight s"
  "kb_pending (remember c s) = kb_pending s"
  by (simp_all add: remember_def split: option.split)

lemma show_projections [simp]:
  "kb_focused (show_current c s) = kb_focused s" "kb_active (show_current c s) = kb_active s" "kb_pending (show_current c s) = kb_pending s"
  "kb_selected (show_current c s) = kb_selected s" "kb_saved (show_current c s) = kb_saved s"
  by (simp_all add: show_current_def)

lemma keep_projections [simp]:
  "kb_focused (keep_in_bounds c s) = kb_focused s" "kb_active (keep_in_bounds c s) = kb_active s" "kb_highlight (keep_in_bounds c s) = kb_highlight s"
  "kb_selected (keep_in_bounds c s) = kb_selected s" "kb_saved (keep_in_bounds c s) = kb_saved s"
  by (simp_all add: keep_in_bounds_def split: option.split)

lemma current_kept [simp]:
  "current_point d (keep_in_bounds c s) = current_point d s" "current_point d (show_current c s) = current_point d s"
  by (rule same_selection; simp)+

lemma keep_range: "range_filled s \<Longrightarrow> range_ok c (keep_in_bounds c s)"
  by (auto simp: range_ok_def range_filled_def keep_in_bounds_def split: option.splits)

text \<open>The chart is told what the keyboard believes: it is active while the focus is shown, and only then is a point highlighted.\<close>

definition chrome_ok :: "keyboard \<Rightarrow> bool" where
  "chrome_ok s \<longleftrightarrow> kb_active s = kb_focused s \<and> (\<not> kb_focused s \<longrightarrow> kb_highlight s = None) \<and> range_filled s"

lemma render_ok:
  assumes "chrome_ok s"
  shows "chrome_ok (render c s)" "range_ok c (render c s)" "kb_focused (render c s) \<Longrightarrow> kb_highlight (render c s) = current_point c (render c s)"
proof -
  let ?t = "show_current c (remember c (remember c s))"
  have "range_filled ?t" using assms by (simp add: chrome_ok_def range_filled_def)
  then show r: "range_ok c (render c s)" unfolding render_def by (rule keep_range)
  show "chrome_ok (render c s)"
    using assms range_ok_filled [OF r] by (simp add: chrome_ok_def render_def) (simp add: show_current_def)
  show "kb_focused (render c s) \<Longrightarrow> kb_highlight (render c s) = current_point c (render c s)"
    by (simp add: render_def) (simp add: show_current_def)
qed

lemma chrome_choose: "chrome_ok s \<Longrightarrow> range_ok c s \<Longrightarrow> chrome_ok (choose_point c q g s)"
  using choose_ok [of c s q g] range_ok_filled [of c "choose_point c q g s"] by (simp add: chrome_ok_def)

lemma chrome_navigate: "chrome_ok s \<Longrightarrow> range_ok c s \<Longrightarrow> chrome_ok (navigate c k shift s)"
  by (simp add: navigate_def moveSeries_def chrome_choose split: option.split)

lemma chrome_simple:
  assumes "chrome_ok s"
  shows "chrome_ok (blur_out s)" "chrome_ok (focus_in s)" "chrome_ok (wake s)" "chrome_ok (cancel_range own s)" "chrome_ok (on_escape k s)"
proof -
  show b: "chrome_ok (blur_out s)" by (simp add: chrome_ok_def blur_out_def range_filled_def)
  have f: "chrome_ok (focus_in t)" if "chrome_ok t" for t using that by (simp add: chrome_ok_def focus_in_def range_filled_def)
  then show "chrome_ok (focus_in s)" using assms by blast
  show "chrome_ok (wake s)" using assms by (simp add: chrome_ok_def wake_def range_filled_def)
  have "chrome_ok (s\<lparr>kb_pending := None\<rparr>)" using assms by (simp add: chrome_ok_def range_filled_def)
  from this f [OF this] have c: "chrome_ok (cancel_range own s)" for own by (simp add: cancel_range_def Let_def)
  then show "chrome_ok (cancel_range own s)" .
  from b c assms show "chrome_ok (on_escape k s)" by (simp add: on_escape_def)
qed

lemma range_ok_wake [simp]: "range_ok c (wake s) = range_ok c s"
  by (simp add: range_ok_def)

lemma chrome_key: "chrome_ok s \<Longrightarrow> range_ok c s \<Longrightarrow> chrome_ok (fst (on_key c k s))"
  by (simp add: on_key_def Let_def chrome_simple chrome_navigate)

lemma chrome_handle: "chrome_ok s \<Longrightarrow> range_ok c s \<Longrightarrow> chrome_ok (fst (kb_handle c e s))"
  by (cases e) (simp_all add: kb_handle_def chrome_simple chrome_key split: option.split, simp_all add: chrome_ok_def range_filled_def)

lemma chrome_step: "chrome_ok s \<Longrightarrow> chrome_ok (kb_step ce s)"
  unfolding kb_step_def by (intro render_ok chrome_handle)

lemma chrome_run: "chrome_ok (fold kb_step ces new_keyboard)"
proof -
  have "chrome_ok (fold kb_step ces s)" if "chrome_ok s" for s
    using that by (induction ces arbitrary: s) (simp_all add: chrome_step)
  moreover have "chrome_ok new_keyboard" by (simp add: chrome_ok_def new_keyboard_def range_filled_def)
  ultimately show ?thesis by blast
qed

lemma zoom_call: "range_ok c s \<Longrightarrow> ZoomTo f t \<in> set (snd (kb_handle c e s)) \<Longrightarrow>
    \<exists>b. ch_bounds c = Some b \<and> tw_from b \<le> f \<and> f < t \<and> t \<le> tw_to b"
  by (cases e) (auto simp: kb_handle_def on_key_def Let_def range_ok_def range_available_def split: option.splits if_splits)

text \<open>
  Property C12. Whatever keys, pointers, data and bounds come in whatever order: the chart is told to be active exactly
  while the keyboard's focus is shown, and then highlights the current point and otherwise none; the range being
  chosen is never empty and lies inside the bounds of the chart as it is now; and a zoom asked for is such a range.
\<close>

theorem chosen_range_stays_in_bounds:
  assumes "s = fold kb_step ces new_keyboard" "t = kb_step (c, e) s"
  shows "kb_active t = kb_focused t \<and> kb_highlight t = (if kb_focused t then current_point c t else None)
    \<and> (\<forall>r b. kb_pending t = Some r \<and> ch_bounds c = Some b \<longrightarrow> tw_from b \<le> pr_from r \<and> pr_from r < pr_to r \<and> pr_to r \<le> tw_to b)
    \<and> (\<forall>f u. ZoomTo f u \<in> set (kb_calls (c, e) s) \<longrightarrow> (\<exists>b. ch_bounds c = Some b \<and> tw_from b \<le> f \<and> f < u \<and> u \<le> tw_to b))"
proof -
  have s: "chrome_ok s" using assms(1) chrome_run by simp
  note r = render_ok(1,2) [OF s, of c]
  have h: "chrome_ok (fst (kb_handle c e (render c s)))" using r by (rule chrome_handle)
  have t: "t = render c (fst (kb_handle c e (render c s)))" using assms(2) by (simp add: kb_step_def)
  have "kb_active t = kb_focused t \<and> (\<not> kb_focused t \<longrightarrow> kb_highlight t = None)" using render_ok(1) [OF h] t by (simp add: chrome_ok_def)
  moreover have "kb_focused t \<longrightarrow> kb_highlight t = current_point c t" using render_ok(3) [OF h] t by simp
  moreover have "range_ok c t" using render_ok(2) [OF h] t by simp
  moreover have "\<exists>b. ch_bounds c = Some b \<and> tw_from b \<le> f \<and> f < u \<and> u \<le> tw_to b" if "ZoomTo f u \<in> set (kb_calls (c, e) s)" for f u
    using zoom_call [OF r(2)] that by (simp add: kb_calls_def)
  ultimately show ?thesis by (auto simp: range_ok_def)
qed

section \<open>What stays selected\<close>

lemma identity_series: "pointIdentity p = pointIdentity q \<Longrightarrow> same_series p q"
proof -
  assume "pointIdentity p = pointIdentity q"
  then have "nullish (map_option JStr (pe_series (kp_event p))) JNull = nullish (map_option JStr (pe_series (kp_event q))) JNull"
    unfolding pointIdentity_def list.map list.inject by (elim conjE)
  then show ?thesis unfolding same_series_def by (cases "pe_series (kp_event p)"; cases "pe_series (kp_event q)") simp_all
qed

lemma nearest_in: "nearest_point c h ps = Some q \<Longrightarrow> q \<in> set ps"
proof -
  have "foldl (better_point c h) b ps = Some q \<Longrightarrow> b = Some q \<or> q \<in> set ps" for b
  proof (induction ps arbitrary: b)
    case (Cons p ps)
    from Cons.IH [of "better_point c h b p"] Cons.prems have "better_point c h b p = Some q \<or> q \<in> set ps" by simp
    moreover have "better_point c h b p = b \<or> better_point c h b p = Some p"
      unfolding better_point_def by (auto split: option.split json.split)
    ultimately show ?case by auto
  qed simp
  from this [of None] show "nearest_point c h ps = Some q \<Longrightarrow> q \<in> set ps" by (simp add: nearest_point_def)
qed

lemma find_in: "find P xs = Some q \<Longrightarrow> q \<in> set xs \<and> P q"
  by (induction xs) (auto split: if_splits)

lemma nearest_saved_in:
  assumes "nearest_to_saved c s = Some q" shows "q \<in> set (candidates c s)"
proof (cases "Option.bind (kb_saved s) (location c)")
  case None
  then show ?thesis using assms by (auto simp: nearest_to_saved_def dest: find_in)
next
  case (Some v)
  then show ?thesis using assms by (cases v) (auto simp: nearest_to_saved_def dest: find_in nearest_in)
qed

lemma identified_in: "identified c k = Some q \<Longrightarrow> q \<in> set (ch_points c) \<and> pointIdentity q = k"
  unfolding identified_def by (drule find_in) simp

lemma identified_there:
  assumes "p \<in> set (ch_points c)" shows "\<exists>q. identified c (pointIdentity p) = Some q"
proof -
  have "find (\<lambda>r. pointIdentity r = pointIdentity p) (rev (ch_points c)) \<noteq> None" unfolding find_None_iff using assms by auto
  then show ?thesis by (simp add: identified_def)
qed

definition holds_point :: "keyboard_point \<Rightarrow> keyboard \<Rightarrow> bool" where
  "holds_point p s \<longleftrightarrow> kb_selected s = Some (pointIdentity p) \<and> (\<exists>q. kb_saved s = Some q \<and> same_series q p)"

definition shows_series :: "keyboard_point \<Rightarrow> chart \<Rightarrow> bool" where
  "shows_series p c \<longleftrightarrow> list_ex (\<lambda>q. same_series q p) (ch_points c)"

lemma same_series_trans: "same_series a b \<Longrightarrow> same_series b c \<Longrightarrow> same_series a c"
  by (simp add: same_series_def)

lemma saved_series_there:
  assumes "holds_point p s" "shows_series p c"
  shows "saved_series c s \<noteq> [] \<and> (\<forall>q \<in> set (saved_series c s). q \<in> set (ch_points c) \<and> same_series q p)"
proof -
  from assms(1) obtain o1 where "kb_saved s = Some o1" "same_series o1 p" by (auto simp: holds_point_def)
  then show ?thesis using assms(2) by (auto simp: saved_series_def shows_series_def list_ex_iff filter_empty_conv same_series_def)
qed

lemma current_of_series:
  assumes "holds_point p s" "shows_series p c"
  obtains q where "current_point c s = Some q" "q \<in> set (ch_points c)" "same_series q p" "identified c (pointIdentity p) \<noteq> None \<Longrightarrow> pointIdentity q = pointIdentity p"
proof -
  have k: "kb_selected s = Some (pointIdentity p)" using assms(1) by (simp add: holds_point_def)
  have ss: "saved_series c s \<noteq> []" and sub: "\<And>q. q \<in> set (saved_series c s) \<Longrightarrow> q \<in> set (ch_points c) \<and> same_series q p"
    using saved_series_there [OF assms] by blast+
  have ca: "candidates c s = saved_series c s" using ss by (simp add: candidates_def)
  show thesis
  proof (cases "identified c (pointIdentity p)")
    case (Some q)
    show thesis using that [of q] identified_in [OF Some] identity_series [of q p] Some k by (simp add: current_point_def)
  next
    case None
    have "\<exists>q \<in> set (candidates c s). current_point c s = Some q"
    proof (cases "nearest_to_saved c s")
      case None
      then show ?thesis using \<open>identified c (pointIdentity p) = None\<close> k ss ca
        by (cases "saved_series c s") (simp_all add: current_point_def)
    next
      case (Some q)
      then show ?thesis using \<open>identified c (pointIdentity p) = None\<close> k nearest_saved_in [OF Some] by (simp add: current_point_def)
    qed
    then obtain q where "q \<in> set (saved_series c s)" "current_point c s = Some q" using ca by auto
    then show thesis using that [of q] sub [of q] None by simp
  qed
qed

lemma holds_remember: "holds_point p s \<Longrightarrow> shows_series p c \<Longrightarrow> holds_point p (remember c s)"
proof -
  assume h: "holds_point p s" and v: "shows_series p c"
  obtain q where q: "current_point c s = Some q" "same_series q p" using current_of_series [OF h v] by metis
  have k: "kb_selected s = Some (pointIdentity p)" using h by (simp add: holds_point_def)
  have "saved_series c s \<noteq> []" using saved_series_there [OF h v] by blast
  then have "remember c s = (if identified c (pointIdentity p) \<noteq> None then s\<lparr>kb_saved := Some q, kb_selected := Some (pointIdentity p)\<rparr> else s)"
    unfolding remember_def using q(1) k by simp
  then show ?thesis using h q(2) by (simp add: holds_point_def)
qed

lemma holds_render: "holds_point p s \<Longrightarrow> shows_series p c \<Longrightarrow> holds_point p (render c s)"
  using holds_remember [OF holds_remember, of p s c c] by (simp add: render_def holds_point_def)

lemma holds_chosen: "holds_point p (choose_point c (Some p) False s)"
  by (simp add: choose_point_def holds_point_def same_series_def split: option.split)

text \<open>
  Property C9. A refresh does not move the reader: while the series of the chosen point is drawn, the current point is
  one of it whatever the other data become, and whenever the data have a point of the same bucket, the current
  one is that.
\<close>

theorem refreshes_keep_the_chosen_point:
  assumes "list_all (shows_series p) ds" "shows_series p d" "t = fold render ds (choose_point c (Some p) False s)"
  shows "\<exists>q \<in> set (ch_points d). current_point d t = Some q \<and> same_series q p
    \<and> ((\<exists>r \<in> set (ch_points d). pointIdentity r = pointIdentity p) \<longrightarrow> pointIdentity q = pointIdentity p)"
proof -
  have "holds_point p (fold render ds u)" if "holds_point p u" for u
    using that assms(1) by (induction ds arbitrary: u) (simp_all add: holds_render)
  then have h: "holds_point p t" using holds_chosen assms(3) by simp
  obtain q where q: "current_point d t = Some q" "q \<in> set (ch_points d)" "same_series q p"
    "identified d (pointIdentity p) \<noteq> None \<Longrightarrow> pointIdentity q = pointIdentity p" using current_of_series [OF h assms(2)] by metis
  have "pointIdentity q = pointIdentity p" if "\<exists>r \<in> set (ch_points d). pointIdentity r = pointIdentity p"
  proof -
    from that obtain r where "r \<in> set (ch_points d)" "pointIdentity r = pointIdentity p" by blast
    with identified_there [of r d] q(4) show ?thesis by auto
  qed
  with q(1-3) show ?thesis by blast
qed

section \<open>Walking a series\<close>

definition plain_key :: "chart_key \<Rightarrow> kb_event" where
  "plain_key k = KeyDown \<lparr>ky_key = k, ky_shift = False, ky_foreign = False, ky_repeat = False, ky_own = True, ky_fullscreen = False\<rparr>"

definition own_points :: "chart \<Rightarrow> bool" where
  "own_points c \<longleftrightarrow> distinct (map pointIdentity (ch_points c))"

definition selects :: "chart \<Rightarrow> keyboard_point \<Rightarrow> keyboard \<Rightarrow> bool" where
  "selects c p s \<longleftrightarrow> p \<in> set (ch_points c) \<and> kb_selected s = Some (pointIdentity p)"

lemma identified_own: "own_points c \<Longrightarrow> p \<in> set (ch_points c) \<Longrightarrow> identified c (pointIdentity p) = Some p"
  using identified_there [of p c] identified_in [of c "pointIdentity p"] by (auto simp: own_points_def distinct_map inj_on_def)

lemma current_selected: "own_points c \<Longrightarrow> selects c p s \<Longrightarrow> current_point c s = Some p"
  by (simp add: selects_def current_point_def identified_own)

lemma selects_remember: "own_points c \<Longrightarrow> selects c p s \<Longrightarrow> selects c p (remember c s)"
  using current_selected [of c p s] by (simp add: remember_def selects_def)

lemma selects_render: "own_points c \<Longrightarrow> selects c p s \<Longrightarrow> selects c p (render c s)"
  using selects_remember [OF _ selects_remember, of c p s] by (simp add: render_def selects_def)

lemma selects_chosen: "p \<in> set (ch_points c) \<Longrightarrow> selects c p (choose_point c (Some p) False s)"
  by (simp add: choose_point_def selects_def split: option.split)

lemma peers_of: "current_point c s = Some p \<Longrightarrow> peers c s = filter (\<lambda>q. same_series q p) (ch_points c)"
  by (simp add: peers_def same_series_def)

lemma step_of_key:
  assumes "own_points c" "current_point c (render c s) \<noteq> None" "is_navigation k" "q \<in> set (ch_points c)"
    "navigate c k False (wake (render c s)) = choose_point c (Some q) False (wake (render c s))"
  shows "selects c q (kb_step (c, plain_key k) s)"
proof -
  have "k \<noteq> EscapeKey" using assms(3) by (auto simp: is_navigation_def is_arrow_def)
  then have "fst (kb_handle c (plain_key k) (render c s)) = choose_point c (Some q) False (wake (render c s))"
    using assms(2,3,5) by (auto simp: kb_handle_def plain_key_def on_key_def Let_def)
  then show ?thesis unfolding kb_step_def fst_conv snd_conv using selects_render [OF assms(1) selects_chosen [OF assms(4)]] by simp
qed

lemma home_chooses:
  assumes "own_points c" "current_point c (render c s) = Some p" "ps = filter (\<lambda>q. same_series q p) (ch_points c)" "ps \<noteq> []"
  shows "selects c (hd ps) (kb_step (c, plain_key HomeKey) s)"
proof -
  have pe: "peers c (wake (render c s)) = ps" using peers_of [of c "wake (render c s)" p] assms(2,3) by simp
  have "hd ps \<in> set ps" using assms(4) by simp
  then have "hd ps \<in> set (ch_points c)" by (simp add: assms(3))
  moreover have "head_opt ps = Some (hd ps)" using assms(4) by (simp add: head_opt_def split: list.split)
  ultimately show ?thesis using assms(1,2) pe
    by (intro step_of_key) (simp_all add: navigate_def is_navigation_def)
qed

lemma right_chooses:
  assumes "own_points c" "current_point c (render c s) = Some (ps ! i)" "ps = filter (\<lambda>q. same_series q (ps ! i)) (ch_points c)"
    "i < length ps" "distinct ps"
  shows "selects c (ps ! min (Suc i) (length ps - 1)) (kb_step (c, plain_key ArrowRight) s)"
proof -
  let ?w = "wake (render c s)"
  let ?j = "min (Suc i) (length ps - 1)"
  have pe: "peers c ?w = ps" using peers_of [of c ?w "ps ! i"] assms(2,3) by simp
  obtain k where k: "find_index (\<lambda>y. y = ps ! i) ps = Some k" using find_index_eq_Some [OF nth_mem [OF assms(4)]] by blast
  have "k < length ps \<and> ps ! k = ps ! i" using find_index_Some [OF k] by blast
  then have "k = i" using assms(4,5) nth_eq_iff_index_eq by blast
  then have "kb_position c ?w = int i" using k assms(2) pe by (simp add: kb_position_def index_of_def)
  moreover have j: "?j < length ps" using assms(4) by linarith
  moreover have "nat (max 0 (min (int (length ps) - 1) (int i + 1))) = ?j" using assms(4) by linarith
  ultimately have "navigate c ArrowRight False ?w = choose_point c (Some (ps ! ?j)) False ?w"
    using pe by (simp add: navigate_def clamped_nth_def nth_opt_def)
  moreover have "ps ! ?j \<in> set ps" using j by (rule nth_mem)
  then have "ps ! ?j \<in> set (ch_points c)" by (metis assms(3) filter_is_subset subsetD)
  ultimately show ?thesis using assms(1,2) by (intro step_of_key) (simp_all add: is_navigation_def is_arrow_def)
qed


text \<open>A series of three points, a minute each, of a chart that can be zoomed.\<close>

definition demo_point :: "nat \<Rightarrow> keyboard_point" where
  "demo_point i = \<lparr>kp_series = 0, kp_data = i, kp_label = ''p'', kp_event = \<lparr>pe_name = None, pe_series = Some ''s'',
     pe_value = JArr [JNum (Fin (60000 * real i)), JNum (Fin 1)], pe_data = JNull, pe_interactive = None\<rparr>\<rparr>"

definition demo_window :: "keyboard_point \<Rightarrow> time_window option" where
  "demo_window p = Some \<lparr>tw_from = 60000 * int (kp_data p), tw_to = 60000 * (int (kp_data p) + 1)\<rparr>"

definition demo_chart :: "nat list \<Rightarrow> chart" where
  "demo_chart is = \<lparr>ch_points = map demo_point is, ch_window = demo_window, ch_summary = kp_label, ch_zoom = True, ch_click = True,
     ch_can_select = (\<lambda>_. True), ch_bounds = Some \<lparr>tw_from = 0, tw_to = 180000\<rparr>\<rparr>"

lemma demo_own: "own_points (demo_chart [0, 1, 2])"
  by (simp add: own_points_def demo_chart_def demo_point_def pointIdentity_def selection_part_def selection_of_def first_value_def given_def)

lemma demo_first: "current_point (demo_chart [0, 1, 2]) (render (demo_chart [0, 1, 2]) new_keyboard) = Some (demo_point 0)"
proof -
  let ?c = "demo_chart [0, 1, 2]"
  have m: "demo_point 0 \<in> set (ch_points ?c)" by (simp add: demo_chart_def)
  have "current_point ?c new_keyboard = Some (demo_point 0)" by (simp add: current_point_def new_keyboard_def demo_chart_def)
  then have "selects ?c (demo_point 0) (remember ?c new_keyboard)" using m by (simp add: remember_def selects_def new_keyboard_def)
  from selects_remember [OF demo_own this] have "selects ?c (demo_point 0) (render ?c new_keyboard)" by (simp add: render_def selects_def)
  then show ?thesis by (rule current_selected [OF demo_own])
qed


lemma refreshes_keep_the_chosen_point_witness:
  "\<exists>q. current_point (demo_chart [1, 2]) (fold render [demo_chart [2]] (choose_point (demo_chart [0, 1]) (Some (demo_point 1)) False new_keyboard)) = Some q
     \<and> pointIdentity q = pointIdentity (demo_point 1)"
proof -
  have "list_all (shows_series (demo_point 1)) [demo_chart [2]]" "shows_series (demo_point 1) (demo_chart [1, 2])"
    "demo_point 1 \<in> set (ch_points (demo_chart [1, 2]))"
    by (simp_all add: shows_series_def demo_chart_def same_series_def demo_point_def)
  from refreshes_keep_the_chosen_point [OF this(1,2) refl, of "demo_chart [0, 1]" new_keyboard] this(3) show ?thesis by blast
qed

definition shift_right :: kb_event where
  "shift_right = KeyDown \<lparr>ky_key = ArrowRight, ky_shift = True, ky_foreign = False, ky_repeat = False, ky_own = True, ky_fullscreen = False\<rparr>"

lemma chosen_range_stays_in_bounds_witness:
  "let c = demo_chart [0, 1, 2]; s = fold kb_step [(c, shift_right)] new_keyboard in
     kb_calls (c, ZoomPressed) s = [ZoomTo 0 120000] \<and> (\<exists>b. ch_bounds c = Some b \<and> 120000 \<le> tw_to b)"
proof -
  let ?c = "demo_chart [0, 1, 2]"
  have "kb_calls (?c, ZoomPressed) (fold kb_step [(?c, shift_right)] new_keyboard) = [ZoomTo 0 120000]" by code_simp
  with chosen_range_stays_in_bounds [OF refl refl, where c = ?c and e = ZoomPressed and ces = "[(?c, shift_right)]"]
  show ?thesis unfolding Let_def by (metis list.set_intros(1))
qed

end
