(* ===== verification/Chart_Canvas.thy ===== *)
theory Chart_Canvas
  imports Chart_Keyboard Drill
begin

text \<open>
  The chart on its canvas (\<open>ui/host/src/dashboards/echart-canvas.tsx\<close>): the points the keyboard visits and their
  windows, what is highlighted, the brush, and the groups of connected charts. The chart library is the list
  of actions sent to it; \<open>jn\<close> is \<open>Number(value)\<close> and \<open>dp\<close> is \<open>Date.parse\<close>.
\<close>

section \<open>Points\<close>

record drawn_series =
  dw_name :: "string option"
  dw_data :: "json list option"
  dw_interactive :: "bool option"
  dw_kind :: "string option"

record drawn_axis =
  dx_kind :: "string option"
  dx_data :: "string list option"

definition is_custom :: "drawn_series option \<Rightarrow> bool" where
  "is_custom s \<longleftrightarrow> Option.bind s dw_kind = Some ''custom''"

definition is_kind :: "string \<Rightarrow> drawn_axis option \<Rightarrow> bool" where
  "is_kind k a \<longleftrightarrow> Option.bind a dx_kind = Some k"

definition category_axis :: "drawn_series list \<Rightarrow> drawn_axis option \<Rightarrow> drawn_axis option \<Rightarrow> drawn_axis option" where
  "category_axis ss x y = (if is_kind ''category'' y \<and> \<not> is_custom (nth_opt ss 0) then y
     else if is_kind ''category'' x then x else None)"

definition value_items :: "json \<Rightarrow> json list" where
  "value_items v = (case v of JArr xs \<Rightarrow> xs | _ \<Rightarrow> [])"

text \<open>\<open>data?.[n]\<close>: only a whole number that is not negative names an entry.\<close>

definition entry_at :: "string list option \<Rightarrow> num \<Rightarrow> string option" where
  "entry_at ds n = (case (ds, n) of (Some xs, Fin r) \<Rightarrow> if 0 \<le> r \<and> r = of_int \<lfloor>r\<rfloor> then nth_opt xs (nat \<lfloor>r\<rfloor>) else None | _ \<Rightarrow> None)"

definition item_number :: "(json \<Rightarrow> num) \<Rightarrow> json list \<Rightarrow> nat \<Rightarrow> num" where
  "item_number jn vs i = (case nth_opt vs i of None \<Rightarrow> NaN | Some v \<Rightarrow> jn v)"

definition point_name :: "(json \<Rightarrow> num) \<Rightarrow> drawn_series list \<Rightarrow> drawn_axis option \<Rightarrow> drawn_axis option \<Rightarrow> keyboard_point \<Rightarrow> json option" where
  "point_name jn ss x y p = or_else (given (pe_name (kp_event p))) (map_option JStr
     (if is_custom (nth_opt ss (kp_series p)) then entry_at (Option.bind y dx_data) (item_number jn (value_items (pe_value (kp_event p))) 1)
      else Option.bind (Option.bind (category_axis ss x y) dx_data) (\<lambda>ds. nth_opt ds (kp_data p))))"

definition named_point :: "(json \<Rightarrow> num) \<Rightarrow> drawn_series list \<Rightarrow> drawn_axis option \<Rightarrow> drawn_axis option \<Rightarrow> keyboard_point \<Rightarrow> keyboard_point" where
  "named_point jn ss x y p = p\<lparr>kp_event := (kp_event p)\<lparr>pe_interactive := Option.bind (nth_opt ss (kp_series p)) dw_interactive,
     pe_name := point_name jn ss x y p\<rparr>\<rparr>"

definition has_value :: "keyboard_point \<Rightarrow> bool" where
  "has_value p \<longleftrightarrow> (case pe_value (kp_event p) of JNull \<Rightarrow> False | JArr xs \<Rightarrow> given (last_opt xs) \<noteq> None | _ \<Rightarrow> True)"

definition key_of :: "drawn_series \<Rightarrow> key_series" where
  "key_of s = \<lparr>ks_name = dw_name s, ks_data = dw_data s, ks_interactive = None\<rparr>"

text \<open>Without the keyboard, or while it is not active, there are none.\<close>

definition canvas_points :: "(json \<Rightarrow> num) \<Rightarrow> drawn_series list \<Rightarrow> drawn_axis option \<Rightarrow> drawn_axis option \<Rightarrow> bool \<Rightarrow> keyboard_point list" where
  "canvas_points jn ss x y active = (if \<not> active then []
     else filter has_value (map (named_point jn ss x y) (keyboardPoints (map key_of ss))))"

section \<open>Windows\<close>

text \<open>\<open>/^(\d+)(ms|s|m|h|d)$/\<close>; a length of nothing is none.\<close>

definition interval_length :: "string option \<Rightarrow> real option" where
  "interval_length v = (let s = nullish v []; ds = takeWhile is_digit s in
     if ds = [] then None
     else Option.bind (map_of [(''ms'', 1), (''s'', 1000), (''m'', 60000), (''h'', 3600000), (''d'', 86400000)] (drop (length ds) s))
       (\<lambda>k. let d = real (nat_of_digits ds) * k in if d = 0 then None else Some d))"

definition chosen_text :: "string \<Rightarrow> keyboard_point \<Rightarrow> string option" where
  "chosen_text k p = (case Option.bind (selection_part k p) as_str of Some s \<Rightarrow> if s = [] then None else Some s | None \<Rightarrow> None)"

definition point_start :: "(string \<Rightarrow> num) \<Rightarrow> (json \<Rightarrow> num) \<Rightarrow> drawn_axis option \<Rightarrow> keyboard_point \<Rightarrow> num" where
  "point_start dp jn x p = (case chosen_text ''from'' p of
      Some s \<Rightarrow> dp s
    | None \<Rightarrow> (case given (selection_part ''time'' p) of
        Some v \<Rightarrow> nullish (as_num v) NaN
      | None \<Rightarrow> if is_kind ''time'' x then item_number jn (value_items (pe_value (kp_event p))) 0 else NaN))"

text \<open>The time of the datum after a point, when it is later.\<close>

definition next_time :: "drawn_series list \<Rightarrow> keyboard_point \<Rightarrow> real \<Rightarrow> real option" where
  "next_time ss p from_ms = Option.bind (Option.bind (Option.bind (nth_opt ss (kp_series p)) dw_data) (\<lambda>ds. nth_opt ds (Suc (kp_data p))))
     (\<lambda>d. case nth_opt (value_items (case d of JArr _ \<Rightarrow> d | _ \<Rightarrow> nullish (jget ''value'' d) JNull)) 0 of
        Some (JNum (Fin t)) \<Rightarrow> if from_ms < t then Some t else None | _ \<Rightarrow> None)"

definition window_end :: "drawn_series list \<Rightarrow> string option \<Rightarrow> real option \<Rightarrow> keyboard_point \<Rightarrow> real \<Rightarrow> real" where
  "window_end ss interval till p from_ms =
    (let e = (case interval_length interval of Some d \<Rightarrow> from_ms + d | None \<Rightarrow> nullish (or_else (next_time ss p from_ms) till) from_ms)
     in min e (nullish till e))"

text \<open>\<open>till\<close> is the end of the bounds; only finite ends make a window.\<close>

definition pointWindow :: "(string \<Rightarrow> num) \<Rightarrow> (json \<Rightarrow> num) \<Rightarrow> drawn_series list \<Rightarrow> drawn_axis option \<Rightarrow> string option \<Rightarrow> real option
    \<Rightarrow> keyboard_point \<Rightarrow> (real \<times> real) option" where
  "pointWindow dp jn ss x interval till p = (case point_start dp jn x p of
      Fin f \<Rightarrow> (case (case chosen_text ''to'' p of
            Some s \<Rightarrow> dp s
          | None \<Rightarrow> if is_custom (nth_opt ss (kp_series p)) then item_number jn (value_items (pe_value (kp_event p))) 3
              else Fin (window_end ss interval till p f)) of
          Fin t \<Rightarrow> Some (f, t) | _ \<Rightarrow> None)
    | _ \<Rightarrow> None)"

subsection \<open>What the keyboard visits\<close>

lemma named_point_at [simp]: "point_at (named_point jn ss x y p) = point_at p"
  by (simp add: named_point_def point_at_def)

lemma canvas_points_before: "sorted_wrt before (map point_at (canvas_points jn ss x y True))"
proof -
  let ?ps = "map (named_point jn ss x y) (keyboardPoints (map key_of ss))"
  have "sorted_wrt (\<lambda>p q. before (point_at p) (point_at q)) ?ps"
    using keyboardPoints_before [of "map key_of ss"] by (simp add: sorted_wrt_map)
  then show ?thesis by (simp add: canvas_points_def sorted_wrt_map sorted_wrt_filter)
qed

definition drawn_datum :: "drawn_series list \<Rightarrow> nat \<Rightarrow> nat \<Rightarrow> json option" where
  "drawn_datum ss si di = Option.bind (Option.bind (nth_opt ss si) dw_data) (\<lambda>ds. nth_opt ds di)"

text \<open>A datum has a value to show: it is there, and when it is a list its last item is.\<close>

definition datum_shown :: "json \<Rightarrow> bool" where
  "datum_shown d \<longleftrightarrow> d \<noteq> JNull \<and> (case point_value d of JArr xs \<Rightarrow> given (last_opt xs) \<noteq> None | _ \<Rightarrow> True)"

lemma key_point: "p \<in> set (keyboardPoints ks) \<Longrightarrow> kp_series p < length ks \<and> (\<exists>ds. ks_data (ks ! kp_series p) = Some ds \<and> kp_data p < length ds
    \<and> pe_value (kp_event p) = point_value (ds ! kp_data p) \<and> ds ! kp_data p \<noteq> JNull)"
  by (auto simp: keyboardPoints_def series_points_def indices_where_set split: option.splits if_splits dest!: sym [where s = "Some _"])

text \<open>
  The keyboard visits exactly the data that show a value, whether or not a pointer can click them, each
  once, by series and then in the order of the data.
\<close>

theorem keyboard_visits_what_is_drawn:
  "sorted_wrt before (map point_at (canvas_points jn ss x y True))
   \<and> set (map point_at (canvas_points jn ss x y True)) = {(si, di). \<exists>d. drawn_datum ss si di = Some d \<and> datum_shown d}"
proof (intro conjI set_eqI iffI)
  show "sorted_wrt before (map point_at (canvas_points jn ss x y True))" by (rule canvas_points_before)
next
  fix sd assume "sd \<in> set (map point_at (canvas_points jn ss x y True))"
  then obtain p where p: "p \<in> set (keyboardPoints (map key_of ss))" "has_value (named_point jn ss x y p)" "sd = point_at p"
    by (auto simp: canvas_points_def)
  from key_point [OF p(1)] obtain ds where d: "kp_series p < length ss" "dw_data (ss ! kp_series p) = Some ds" "kp_data p < length ds"
    "pe_value (kp_event p) = point_value (ds ! kp_data p)" "ds ! kp_data p \<noteq> JNull" by (auto simp: key_of_def)
  have "datum_shown (ds ! kp_data p)" using p(2) d(4,5) by (simp add: has_value_def named_point_def datum_shown_def split: json.splits)
  moreover have "drawn_datum ss (kp_series p) (kp_data p) = Some (ds ! kp_data p)" using d by (simp add: drawn_datum_def nth_opt_def)
  ultimately show "sd \<in> {(si, di). \<exists>d. drawn_datum ss si di = Some d \<and> datum_shown d}" using p(3) by (simp add: point_at_def)
next
  fix sd assume "sd \<in> {(si, di). \<exists>d. drawn_datum ss si di = Some d \<and> datum_shown d}"
  then obtain si di d where sd: "sd = (si, di)" "drawn_datum ss si di = Some d" "datum_shown d" by blast
  then obtain ds where ds: "si < length ss" "dw_data (ss ! si) = Some ds" "di < length ds" "ds ! di = d"
    by (auto simp: drawn_datum_def nth_opt_Some_iff bind_eq_Some_conv)
  then have "visits (map key_of ss) si di" using sd(3) by (simp add: visits_def key_of_def datum_shown_def)
  then obtain p where p: "p \<in> set (keyboardPoints (map key_of ss))" "point_at p = (si, di)"
    using keyboardPoints_visits [of si di "map key_of ss"] by auto
  have pv: "pe_value (kp_event p) = point_value d" using key_point [OF p(1)] p(2) ds by (auto simp: point_at_def key_of_def)
  have "has_value (named_point jn ss x y p)" using sd(3) pv by (simp add: has_value_def named_point_def datum_shown_def split: json.splits)
  then have "named_point jn ss x y p \<in> set (canvas_points jn ss x y True)" using p(1) by (simp add: canvas_points_def)
  then show "sd \<in> set (map point_at (canvas_points jn ss x y True))" using p(2) sd(1) by force
qed

section \<open>Highlight, brush and legend\<close>

datatype chart_action = Downplay nat nat | HideTip | Highlight nat nat | ShowTip nat nat

definition highlight_actions :: "keyboard_point option \<Rightarrow> keyboard_point option \<Rightarrow> chart_action list" where
  "highlight_actions old new = (case old of Some q \<Rightarrow> [Downplay (kp_series q) (kp_data q)] | None \<Rightarrow> []) @ [HideTip]
     @ (case new of Some p \<Rightarrow> [Highlight (kp_series p) (kp_data p), ShowTip (kp_series p) (kp_data p)] | None \<Rightarrow> [])"

text \<open>A mouse brush that ends with a proper range zooms there; \<open>brushRange\<close> is the keyboard's preview.\<close>

record brush_state =
  br_preview :: "(real \<times> real) option"
  br_resets :: nat

definition brush_end :: "num list option \<Rightarrow> brush_state \<Rightarrow> brush_state \<times> (real \<times> real) option" where
  "brush_end areas s = (case areas of
      Some [Fin a, Fin b] \<Rightarrow> if a < b
        then (case br_preview s of Some _ \<Rightarrow> s\<lparr>br_preview := None, br_resets := Suc (br_resets s)\<rparr> | None \<Rightarrow> s, Some (a, b)) else (s, None)
    | _ \<Rightarrow> (s, None))"

definition previewRange :: "(real \<times> real) option \<Rightarrow> brush_state \<Rightarrow> brush_state \<times> bool" where
  "previewRange r s = (if r = br_preview s then (s, False) else (s\<lparr>br_preview := r\<rparr>, True))"

text \<open>Of what the reader hid or showed, only the series that are still drawn are kept.\<close>

definition retained_legend :: "string list \<Rightarrow> (string, bool) omap \<Rightarrow> (string, bool) omap" where
  "retained_legend names chosen = filter (\<lambda>kv. fst kv \<in> set names) chosen"

section \<open>Connected groups\<close>

text \<open>The charts that are in a group, the counter of each group, and the groups the library connects.\<close>

record chart_groups =
  cg_members :: "(nat, string) omap"
  cg_counts :: "(string, nat) omap"
  cg_connected :: "string list"

definition join_group :: "nat \<Rightarrow> string \<Rightarrow> chart_groups \<Rightarrow> chart_groups" where
  "join_group i g s = s\<lparr>cg_members := AList.update i g (cg_members s), cg_counts := AList.update g (nullish (map_of (cg_counts s) g) 0 + 1) (cg_counts s),
     cg_connected := push_new (cg_connected s) g\<rparr>"

definition leave_group :: "nat \<Rightarrow> string \<Rightarrow> chart_groups \<Rightarrow> chart_groups" where
  "leave_group i g s = (let rest = nullish (map_of (cg_counts s) g) 1 - 1; s1 = s\<lparr>cg_members := AList.delete i (cg_members s)\<rparr> in
     if 0 < rest then s1\<lparr>cg_counts := AList.update g rest (cg_counts s)\<rparr>
     else s1\<lparr>cg_counts := AList.delete g (cg_counts s), cg_connected := removeAll g (cg_connected s)\<rparr>)"

text \<open>The effect of a chart whose group is set, changed or, when it goes, taken away; no group is the empty one.\<close>

definition set_group :: "nat \<times> string \<Rightarrow> chart_groups \<Rightarrow> chart_groups" where
  "set_group ig s = (case ig of (i, g) \<Rightarrow>
     if nullish (map_of (cg_members s) i) [] = g then s
     else (let s1 = (case map_of (cg_members s) i of Some old \<Rightarrow> leave_group i old s | None \<Rightarrow> s) in if g = [] then s1 else join_group i g s1))"

definition no_groups :: chart_groups where
  "no_groups = \<lparr>cg_members = [], cg_counts = [], cg_connected = []\<rparr>"

subsection \<open>A group is connected while a chart is in it\<close>

definition group_count :: "string \<Rightarrow> (nat, string) omap \<Rightarrow> nat" where
  "group_count g ms = length (filter (\<lambda>m. snd m = g) ms)"

definition groups_ok :: "chart_groups \<Rightarrow> bool" where
  "groups_ok s \<longleftrightarrow> distinct (map fst (cg_members s)) \<and> [] \<notin> set (map snd (cg_members s))
     \<and> (\<forall>g. nullish (map_of (cg_counts s) g) 0 = group_count g (cg_members s) \<and> (g \<in> set (cg_connected s) \<longleftrightarrow> 0 < group_count g (cg_members s)))
     \<and> distinct (map fst (cg_counts s))"

lemma update_fresh: "k \<notin> set (map fst al) \<Longrightarrow> AList.update k v al = al @ [(k, v)]"
  by (induction al) auto

lemma delete_fresh: "k \<notin> set (map fst al) \<Longrightarrow> AList.delete k al = al"
  by (induction al) auto

lemma count_delete:
  "distinct (map fst al) \<Longrightarrow> map_of al i = Some g \<Longrightarrow> group_count h al = group_count h (AList.delete i al) + (if h = g then 1 else 0)"
proof (induction al)
  case (Cons kv al)
  show ?case
  proof (cases "fst kv = i")
    case True
    then have "AList.delete i al = al" using Cons.prems(1) delete_fresh [of i al] by auto
    then show ?thesis using True Cons.prems(2) by (cases kv) (simp add: group_count_def)
  next
    case False
    then show ?thesis using Cons by (cases kv; cases "h = g") (simp_all add: group_count_def)
  qed
qed simp

lemma snd_delete: "set (AList.delete i al) \<subseteq> set al"
  by (auto simp: AList.delete_eq)

lemma join_ok: "groups_ok s \<Longrightarrow> i \<notin> set (map fst (cg_members s)) \<Longrightarrow> g \<noteq> [] \<Longrightarrow> groups_ok (join_group i g s)"
  by (auto simp: groups_ok_def join_group_def update_fresh group_count_def push_new_def AList.update_conv' distinct_update)

lemma leave_ok:
  assumes "groups_ok s" "map_of (cg_members s) i = Some g" shows "groups_ok (leave_group i g s)"
proof -
  let ?ms = "AList.delete i (cg_members s)"
  have d: "distinct (map fst (cg_members s))" "distinct (map fst (cg_counts s))" using assms(1) by (simp_all add: groups_ok_def)
  have c: "group_count h (cg_members s) = group_count h ?ms + (if h = g then 1 else 0)" for h by (rule count_delete [OF d(1) assms(2)])
  have n: "nullish (map_of (cg_counts s) h) 0 = group_count h ?ms + (if h = g then 1 else 0)"
    "h \<in> set (cg_connected s) \<longleftrightarrow> 0 < group_count h ?ms + (if h = g then 1 else 0)" for h using assms(1) c by (simp_all add: groups_ok_def)
  then have r: "nullish (map_of (cg_counts s) g) (Suc 0) = Suc (group_count g ?ms)" using n(1) [of g] by (cases "map_of (cg_counts s) g") simp_all
  have m: "distinct (map fst ?ms)" "[] \<notin> set (map snd ?ms)"
    using d(1) assms(1) snd_delete [of i "cg_members s"] by (auto simp: groups_ok_def distinct_delete)
  have l: "leave_group i g s = (if 0 < group_count g ?ms then s\<lparr>cg_members := ?ms, cg_counts := AList.update g (group_count g ?ms) (cg_counts s)\<rparr>
      else s\<lparr>cg_members := ?ms, cg_counts := AList.delete g (cg_counts s), cg_connected := removeAll g (cg_connected s)\<rparr>)"
    by (simp add: leave_group_def Let_def r)
  show ?thesis
  proof (cases "0 < group_count g ?ms")
    case True
    then have l: "leave_group i g s = s\<lparr>cg_members := ?ms, cg_counts := AList.update g (group_count g ?ms) (cg_counts s)\<rparr>" using l by simp
    have "nullish (map_of (AList.update g (group_count g ?ms) (cg_counts s)) h) 0 = group_count h ?ms"
      "h \<in> set (cg_connected s) \<longleftrightarrow> 0 < group_count h ?ms" for h using n [of h] True by (cases "h = g"; simp add: AList.update_conv')+
    with m d(2) show ?thesis unfolding l groups_ok_def by (simp add: distinct_update)
  next
    case False
    then have l: "leave_group i g s = s\<lparr>cg_members := ?ms, cg_counts := AList.delete g (cg_counts s), cg_connected := removeAll g (cg_connected s)\<rparr>" using l by simp
    have "nullish (map_of (AList.delete g (cg_counts s)) h) 0 = group_count h ?ms"
      "h \<in> set (removeAll g (cg_connected s)) \<longleftrightarrow> 0 < group_count h ?ms" for h using n [of h] False by (cases "h = g"; simp add: delete_conv')+
    with m d(2) show ?thesis unfolding l groups_ok_def by (simp add: distinct_delete)
  qed
qed

lemma leave_members [simp]: "cg_members (leave_group i g s) = AList.delete i (cg_members s)"
  by (simp add: leave_group_def Let_def)

lemma set_group_ok: "groups_ok s \<Longrightarrow> groups_ok (set_group ig s)"
proof -
  assume ok: "groups_ok s"
  obtain i g where ig: "ig = (i, g)" by (cases ig)
  show ?thesis
  proof (cases "map_of (cg_members s) i")
    case None
    then have "i \<notin> set (map fst (cg_members s))" by (simp add: map_of_eq_None_iff)
    then show ?thesis using ok None join_ok [of s i g] by (simp add: set_group_def ig)
  next
    case (Some h)
    have l: "groups_ok (leave_group i h s)" by (rule leave_ok [OF ok Some])
    have "i \<notin> set (map fst (cg_members (leave_group i h s)))"
      unfolding leave_members AList.delete_eq by (induction "cg_members s") auto
    from join_ok [OF l this, of g] l ok Some show ?thesis by (simp add: set_group_def ig Let_def)
  qed
qed

lemma set_group_members: "nullish (map_of (cg_members (set_group (i, g) s)) j) [] = (if j = i then g else nullish (map_of (cg_members s) j) [])"
proof (cases "map_of (cg_members s) i")
  case None
  then show ?thesis by (auto simp: set_group_def join_group_def AList.update_conv')
next
  case (Some h)
  then show ?thesis by (cases "g = []") (auto simp: set_group_def join_group_def Let_def AList.update_conv' delete_conv')
qed

definition group_of :: "(nat \<times> string) list \<Rightarrow> nat \<Rightarrow> string" where
  "group_of es i = nullish (map_of (rev es) i) []"

lemma groups_run: "groups_ok (fold set_group es no_groups) \<and> (\<forall>i. nullish (map_of (cg_members (fold set_group es no_groups)) i) [] = group_of es i)"
proof (induction es rule: rev_induct)
  case Nil
  show ?case by (simp add: no_groups_def groups_ok_def group_of_def group_count_def)
next
  case (snoc e es)
  obtain i g where e: "e = (i, g)" by (cases e)
  from snoc show ?case by (simp add: e set_group_ok set_group_members group_of_def)
qed

text \<open>
  Property C29. Charts in a group move together as long as any of them is there: after any sequence of charts that come,
  change their group or go, the library connects exactly the groups that some chart was last put in, and
  the counter of a group is the number of those charts.
\<close>

theorem groups_live_while_a_chart_is_in_them:
  assumes "s = fold set_group es no_groups"
  shows "(g \<in> set (cg_connected s) \<longleftrightarrow> g \<noteq> [] \<and> (\<exists>i. group_of es i = g))
    \<and> nullish (map_of (cg_counts s) g) 0 = (if g = [] then 0 else card {i. group_of es i = g})"
proof -
  have ok: "groups_ok s" and m: "\<And>i. nullish (map_of (cg_members s) i) [] = group_of es i" using groups_run assms by blast+
  have d: "distinct (map fst (cg_members s))" and ne: "[] \<notin> snd ` set (cg_members s)" using ok by (simp_all add: groups_ok_def)
  have mg: "group_of es i = g \<longleftrightarrow> map_of (cg_members s) i = Some g" if "g \<noteq> []" for i
    using that m [of i] by (cases "map_of (cg_members s) i") auto
  have "group_count g (cg_members s) = (if g = [] then 0 else card {i. group_of es i = g})"
  proof (cases "g = []")
    case False
    have "{i. group_of es i = g} = {i. map_of (cg_members s) i = Some g}" using mg [OF False] by simp
    also have "\<dots> = fst ` set (filter (\<lambda>m. snd m = g) (cg_members s))" using map_of_eq_Some_iff [OF d] by force
    finally have "{i. group_of es i = g} = fst ` set (filter (\<lambda>m. snd m = g) (cg_members s))" .
    moreover have "distinct (map fst (filter (\<lambda>m. snd m = g) (cg_members s)))" using d by (rule distinct_map_filter)
    then have "card (fst ` set (filter (\<lambda>m. snd m = g) (cg_members s))) = length (filter (\<lambda>m. snd m = g) (cg_members s))"
      by (metis distinct_card length_map list.set_map)
    ultimately show ?thesis using False by (simp only: group_count_def if_False)
  next
    case True
    then show ?thesis using ne by (auto simp: group_count_def filter_empty_conv image_iff)
  qed
  moreover have "0 < group_count g (cg_members s) \<longleftrightarrow> g \<noteq> [] \<and> (\<exists>i. group_of es i = g)"
  proof -
    have "0 < group_count g (cg_members s) \<longleftrightarrow> g \<in> snd ` set (cg_members s)" by (auto simp: group_count_def filter_empty_conv image_iff)
    also have "\<dots> \<longleftrightarrow> g \<noteq> [] \<and> (\<exists>i. map_of (cg_members s) i = Some g)" using ne d by (force simp: image_iff dest: map_of_SomeD)
    also have "\<dots> \<longleftrightarrow> g \<noteq> [] \<and> (\<exists>i. group_of es i = g)" using mg by blast
    finally show ?thesis .
  qed
  ultimately show ?thesis using ok by (simp add: groups_ok_def)
qed

lemma groups_live_while_a_chart_is_in_them_witness:
  "''d'' \<in> set (cg_connected (fold set_group [(1, ''d''), (2, ''d''), (1, [])] no_groups))"
proof -
  have "group_of [(1, ''d''), (2, ''d''), (1, [])] 2 = ''d''" by (simp add: group_of_def)
  then show ?thesis using groups_live_while_a_chart_is_in_them [OF refl, of "''d''" "[(1, ''d''), (2, ''d''), (1, [])]"] by blast
qed

end
