(* ===== verification/Row_Text.thy ===== *)
theory Row_Text
  imports Js_Text
begin

text \<open>
  The text of a log body or template in a cell (\<open>ui/host/src/dashboards/viz/cell-text.tsx\<close>): the places that match the
  highlight, and the placeholders of a template. A text is its list of UTF-16 units; \<open>lower\<close> is
  \<open>toLowerCase\<close>, which is not always as long as what it is given.
\<close>

section \<open>Matches\<close>

type_synonym units = "nat list"

definition slice :: "units \<Rightarrow> nat \<Rightarrow> nat \<Rightarrow> units" where
  "slice t a b = take (b - a) (drop a t)"

definition prefix_at :: "units \<Rightarrow> units \<Rightarrow> nat \<Rightarrow> bool" where
  "prefix_at w t i \<longleftrightarrow> i + length w \<le> length t \<and> slice t i (i + length w) = w"

text \<open>\<open>lower.indexOf(needle, from)\<close>\<close>

definition index_from :: "units \<Rightarrow> units \<Rightarrow> nat \<Rightarrow> nat option" where
  "index_from w t from_at = find (prefix_at w t) [from_at ..< Suc (length t)]"

lemma index_from_Some: "index_from w t i = Some j \<Longrightarrow> i \<le> j \<and> j + length w \<le> length t \<and> prefix_at w t j"
  by (auto simp: index_from_def find_Some_iff prefix_at_def nth_append split: if_splits simp del: upt_Suc)

text \<open>The loop over the matches; the lower case of a highlight is never empty.\<close>

function find_matches :: "units \<Rightarrow> units \<Rightarrow> nat \<Rightarrow> nat list" where
  "find_matches w t i = (if w = [] then [] else (case index_from w t i of None \<Rightarrow> [] | Some j \<Rightarrow> j # find_matches w t (j + length w)))"
  by pat_completeness auto

termination find_matches
proof (relation "measure (\<lambda>(w, t, i). Suc (length t) - i)")
  fix w t :: units and i j
  assume "w \<noteq> []" "index_from w t i = Some j"
  then show "((w, t, j + length w), w, t, i) \<in> measure (\<lambda>(w, t, i). Suc (length t) - i)"
    using index_from_Some [of w t i j] by (cases w) auto
qed simp

declare find_matches.simps [simp del]

definition highlights :: "(units \<Rightarrow> units) \<Rightarrow> units \<Rightarrow> units \<Rightarrow> nat list" where
  "highlights lower highlight t = (if highlight = [] then [] else find_matches (lower highlight) (lower t) 0)"

section \<open>Parts\<close>

datatype text_part = Plain units | Marked units | Chip "text_part list"

definition mark_step :: "units \<Rightarrow> nat \<Rightarrow> nat \<Rightarrow> nat \<Rightarrow> text_part list \<times> nat \<Rightarrow> nat \<Rightarrow> text_part list \<times> nat" where
  "mark_step t n a b s m = (let lo = max a m; hi = min b (m + n) in
     if hi \<le> lo then s else (fst s @ [Plain (slice t (snd s) lo), Marked (slice t lo hi)], hi))"

definition decorate :: "units \<Rightarrow> nat list \<Rightarrow> nat \<Rightarrow> nat \<Rightarrow> nat \<Rightarrow> text_part list" where
  "decorate t ms n a b = (let s = foldl (mark_step t n a b) ([], a) ms in fst s @ [Plain (slice t (snd s) b)])"

definition placeholders :: "units list" where
  "placeholders = map (map byte) [''<*>'', ''<str>'', ''<num>'', ''<ip>'', ''<time>'']"

text \<open>\<open>text.matchAll(/<\*>|<str>|<num>|<ip>|<time>/g)\<close>: place and length.\<close>

fun template_spans :: "nat \<Rightarrow> units \<Rightarrow> (nat \<times> nat) list" where
  "template_spans i [] = []"
| "template_spans i (c # cs) = (case find (\<lambda>w. take (length w) (c # cs) = w) placeholders of
      Some w \<Rightarrow> (i, length w) # template_spans (i + length w) (drop (length w - 1) cs)
    | None \<Rightarrow> template_spans (Suc i) cs)"

definition chip_step :: "units \<Rightarrow> nat list \<Rightarrow> nat \<Rightarrow> text_part list \<times> nat \<Rightarrow> nat \<times> nat \<Rightarrow> text_part list \<times> nat" where
  "chip_step t ms n s m = (fst s @ decorate t ms n (snd s) (fst m) @ [Chip (decorate t ms n (fst m) (fst m + snd m))], fst m + snd m)"

definition rowText :: "(units \<Rightarrow> units) \<Rightarrow> units \<Rightarrow> bool \<Rightarrow> units \<Rightarrow> text_part list" where
  "rowText lower highlight template t =
    (let ms = highlights lower highlight t; n = length highlight;
         s = foldl (chip_step t ms n) ([], 0) (if template then template_spans 0 t else [])
     in fst s @ decorate t ms n (snd s) (length t))"

section \<open>Nothing of the text is lost or shown twice\<close>

fun part_text :: "text_part \<Rightarrow> units" where
  "part_text (Plain u) = u"
| "part_text (Marked u) = u"
| "part_text (Chip ps) = concat (map part_text ps)"

definition parts_text :: "text_part list \<Rightarrow> units" where
  "parts_text ps = concat (map part_text ps)"

lemma parts_text_simps [simp]:
  "parts_text [] = []" "parts_text (p # ps) = part_text p @ parts_text ps" "parts_text (ps @ qs) = parts_text ps @ parts_text qs"
  by (simp_all add: parts_text_def)

lemma slice_append: "a \<le> b \<Longrightarrow> b \<le> c \<Longrightarrow> slice t a b @ slice t b c = slice t a c"
proof -
  assume o: "a \<le> b" "b \<le> c"
  then have "drop b t = drop (b - a) (drop a t)" by simp
  then show ?thesis using o unfolding slice_def by (metis le_add_diff_inverse2 take_add diff_add_inverse2 add.commute Nat.diff_add_assoc2 Nat.add_diff_assoc2)
qed

lemma slice_nil [simp]: "slice t a a = []"
  by (simp add: slice_def)

definition spaced :: "nat \<Rightarrow> nat list \<Rightarrow> bool" where
  "spaced n ms \<longleftrightarrow> sorted_wrt (\<lambda>x y. x + n \<le> y) ms"

lemma marks_keep_text:
  "spaced n ms \<Longrightarrow> a \<le> c \<Longrightarrow> c \<le> b \<Longrightarrow> \<forall>m \<in> set ms. c \<le> max a m \<Longrightarrow> parts_text ps = slice t a c \<Longrightarrow>
    (case foldl (mark_step t n a b) (ps, c) ms of (qs, d) \<Rightarrow> a \<le> d \<and> d \<le> b \<and> parts_text qs = slice t a d)"
proof (induction ms arbitrary: ps c)
  case (Cons m ms)
  let ?lo = "max a m" and ?hi = "min b (m + n)"
  show ?case
  proof (cases "?hi \<le> ?lo")
    case True
    then show ?thesis using Cons by (simp add: mark_step_def spaced_def)
  next
    case False
    have c: "c \<le> ?lo" using Cons.prems(4) by simp
    have h: "?lo \<le> ?hi" "a \<le> ?lo" using False by auto
    have "parts_text (ps @ [Plain (slice t c ?lo), Marked (slice t ?lo ?hi)]) = (slice t a c @ slice t c ?lo) @ slice t ?lo ?hi"
      using Cons.prems(5) by simp
    also have "\<dots> = slice t a ?hi" unfolding slice_append [OF Cons.prems(2) c] slice_append [OF h(2,1)] ..
    finally have "parts_text (ps @ [Plain (slice t c ?lo), Marked (slice t ?lo ?hi)]) = slice t a ?hi" .
    moreover have "\<forall>k \<in> set ms. ?hi \<le> max a k" using Cons.prems(1) by (auto simp: spaced_def)
    moreover have "a \<le> ?hi" "?hi \<le> b" using False by auto
    ultimately show ?thesis using Cons.IH [of ?hi "ps @ [Plain (slice t c ?lo), Marked (slice t ?lo ?hi)]"] Cons.prems(1) False
      by (simp add: mark_step_def Let_def spaced_def)
  qed
qed simp

lemma decorate_text: "spaced n ms \<Longrightarrow> a \<le> b \<Longrightarrow> parts_text (decorate t ms n a b) = slice t a b"
  using marks_keep_text [of n ms a a b "[]" t] slice_append [of a "snd (foldl (mark_step t n a b) ([], a) ms)" b t]
  by (auto simp: decorate_def Let_def split: prod.splits)

fun spans_from :: "nat \<Rightarrow> nat \<Rightarrow> (nat \<times> nat) list \<Rightarrow> bool" where
  "spans_from i n [] = (i \<le> n)"
| "spans_from i n (m # ms) = (i \<le> fst m \<and> spans_from (fst m + snd m) n ms)"

lemma spans_end: "spans_from i n ms \<Longrightarrow> i \<le> n"
  by (induction i n ms rule: spans_from.induct) auto

lemma spans_earlier: "spans_from j n ms \<Longrightarrow> i \<le> j \<Longrightarrow> spans_from i n ms"
  by (cases ms) auto

lemma placeholders_filled: "list_all (\<lambda>w. w \<noteq> []) placeholders"
  by (simp add: placeholders_def)

lemma found_in: "find P xs = Some q \<Longrightarrow> q \<in> set xs \<and> P q"
  by (induction xs) (auto split: if_splits)

lemma template_spans_ok: "spans_from i (i + length t) (template_spans i t)"
proof (induction i t rule: template_spans.induct)
  case (2 i c cs)
  show ?case
  proof (cases "find (\<lambda>w. take (length w) (c # cs) = w) placeholders")
    case None
    then show ?thesis using "2.IH"(1) [OF None] spans_earlier [of "Suc i" _ _ i] by simp
  next
    case (Some w)
    then have w: "w \<in> set placeholders" "take (length w) (c # cs) = w" using found_in [OF Some] by simp_all
    have "w \<noteq> []" using w(1) placeholders_filled by (simp add: list_all_iff)
    moreover have "length w \<le> length (c # cs)" by (metis w(2) length_take min.cobounded1)
    ultimately have "i + length w + length (drop (length w - 1) cs) = i + length (c # cs)" by (cases w) auto
    then show ?thesis using "2.IH"(2) [OF Some] Some by simp
  qed
qed simp

lemma chips_keep_text:
  "spaced n ms \<Longrightarrow> spans_from c b sp \<Longrightarrow> parts_text ps = slice t 0 c \<Longrightarrow>
    (case foldl (chip_step t ms n) (ps, c) sp of (qs, d) \<Rightarrow> d \<le> b \<and> parts_text qs = slice t 0 d)"
proof (induction sp arbitrary: ps c)
  case (Cons m sp)
  let ?ps = "ps @ decorate t ms n c (fst m) @ [Chip (decorate t ms n (fst m) (fst m + snd m))]"
  have "parts_text ?ps = (slice t 0 c @ slice t c (fst m)) @ slice t (fst m) (fst m + snd m)"
    using Cons.prems decorate_text [of n ms c "fst m" t] decorate_text [of n ms "fst m" "fst m + snd m" t] by (simp add: parts_text_def)
  also have "\<dots> = slice t 0 (fst m + snd m)" using Cons.prems(2) by (simp add: slice_append)
  finally show ?case using Cons.IH [of "fst m + snd m" ?ps] Cons.prems by (simp add: chip_step_def)
qed simp

lemma find_matches_spaced: "spaced (length w) (find_matches w t i) \<and> (\<forall>m \<in> set (find_matches w t i). i \<le> m \<and> prefix_at w t m)"
proof (induction w t i rule: find_matches.induct)
  case (1 w t i)
  show ?case
  proof (cases "w = [] \<or> index_from w t i = None")
    case True
    then show ?thesis by (subst (1 2) find_matches.simps) (auto simp: spaced_def)
  next
    case False
    then obtain j where j: "index_from w t i = Some j" and w: "w \<noteq> []" by blast
    have eq: "find_matches w t i = j # find_matches w t (j + length w)" using j w by (subst find_matches.simps) simp
    from "1.IH" [OF w j] index_from_Some [OF j] show ?thesis unfolding eq by (auto simp: spaced_def)
  qed
qed

lemma spaced_less: "spaced n ms \<Longrightarrow> m \<le> n \<Longrightarrow> spaced m ms"
  unfolding spaced_def by (erule sorted_wrt_mono_rel [rotated]) simp

lemma highlights_spaced: "length highlight \<le> length (lower highlight) \<Longrightarrow> spaced (length highlight) (highlights lower highlight t)"
  using find_matches_spaced [of "lower highlight" "lower t" 0] spaced_less by (auto simp: highlights_def spaced_def)

text \<open>
  Property C20. A cell shows the text it was given: whatever is highlighted, and whatever placeholders a template has, the
  parts put together are the text, provided the lower case of the highlight is no shorter than it.
\<close>

theorem parts_are_the_text:
  assumes "length highlight \<le> length (lower highlight)"
  shows "parts_text (rowText lower highlight template t) = t"
proof -
  let ?ms = "highlights lower highlight t" and ?n = "length highlight"
  let ?sp = "if template then template_spans 0 t else []"
  have sp: "spaced ?n ?ms" using assms by (rule highlights_spaced)
  have "spans_from 0 (length t) ?sp" using template_spans_ok [of 0 t] by simp
  from chips_keep_text [OF sp this, of "[]" t] obtain qs d where
    d: "foldl (chip_step t ?ms ?n) ([], 0) ?sp = (qs, d)" "d \<le> length t" "parts_text qs = slice t 0 d"
    by (cases "foldl (chip_step t ?ms ?n) ([], 0) ?sp") simp
  have "parts_text (rowText lower highlight template t) = slice t 0 d @ slice t d (length t)"
    using d decorate_text [OF sp d(2)] by (simp add: rowText_def Let_def)
  also have "\<dots> = t" using d(2) by (simp add: slice_append) (simp add: slice_def)
  finally show ?thesis .
qed

text \<open>The lower case of plain letters.\<close>

definition ascii_units :: "units \<Rightarrow> units" where
  "ascii_units = map (\<lambda>u. if 65 \<le> u \<and> u \<le> 90 then u + 32 else u)"

lemma parts_are_the_text_witness:
  "parts_text (rowText ascii_units [69, 82] True [60, 110, 117, 109, 62, 32, 101, 114]) = [60, 110, 117, 109, 62, 32, 101, 114]"
  using parts_are_the_text [of "[69, 82]" ascii_units True] by (simp add: ascii_units_def)

section \<open>Marks\<close>

lemma marks_are_matches:
  assumes "\<forall>m \<in> set ms. m + n \<le> length t"
  shows "Marked u \<in> set (fst (foldl (mark_step t n 0 (length t)) (ps, c) ms)) \<Longrightarrow> Marked u \<in> set ps \<or> (\<exists>m \<in> set ms. u = slice t m (m + n))"
  using assms
proof (induction ms arbitrary: ps c)
  case (Cons m ms)
  have h: "min (length t) (m + n) = m + n" using Cons.prems(2) by simp
  have "Marked u \<in> set (fst (mark_step t n 0 (length t) (ps, c) m)) \<Longrightarrow> Marked u \<in> set ps \<or> u = slice t m (m + n)"
    using h by (auto simp: mark_step_def Let_def split: if_splits)
  then show ?case using Cons.IH [of "fst (mark_step t n 0 (length t) (ps, c) m)" "snd (mark_step t n 0 (length t) (ps, c) m)"] Cons.prems by auto
qed simp

text \<open>
  What is marked in a log body is the highlight, but for the case of its letters, when the lower case of
  a text is that of each of its units.
\<close>

theorem marked_text_is_the_highlight:
  assumes "\<And>x. lower x = map f x" "Marked u \<in> set (rowText lower highlight False t)"
  shows "lower u = lower highlight"
proof -
  let ?ms = "highlights lower highlight t" and ?n = "length highlight"
  have m: "prefix_at (lower highlight) (lower t) m" if "m \<in> set ?ms" for m
    using that find_matches_spaced [of "lower highlight" "lower t" 0] by (auto simp: highlights_def split: if_splits)
  have "\<forall>m \<in> set ?ms. m + ?n \<le> length t" using m by (auto simp: prefix_at_def assms(1))
  from marks_are_matches [OF this, of u "[]" 0] assms(2) obtain k where "k \<in> set ?ms" "u = slice t k (k + ?n)"
    by (auto simp: rowText_def decorate_def Let_def)
  with m [of k] show ?thesis by (simp add: prefix_at_def assms(1) slice_def take_map drop_map)
qed

lemma marked_text_is_the_highlight_witness: "ascii_units [69, 114] = ascii_units [101, 114]"
proof -
  have "Marked [69, 114] \<in> set (rowText ascii_units [101, 114] False [32, 69, 114, 114])" by code_simp
  from marked_text_is_the_highlight [OF _ this] show ?thesis by (simp only: ascii_units_def)
qed

text \<open>A lower case that is longer moves the marks: one letter in the text, two in its lower case.\<close>

lemma longer_lower_case_moves_the_mark:
  "rowText (\<lambda>x. concat (map (\<lambda>u. if u = 304 then [105, 775] else [u]) x)) [101, 114] False [304, 32, 101, 114, 114] =
    [Plain [304, 32, 101], Marked [114, 114], Plain []]"
  by code_simp

end
