(* ===== verification/Stat_Panel.thy ===== *)
theory Stat_Panel
  imports Frames Thresholds
begin

text \<open>
  The stat panel (\<open>ui/host/src/dashboards/viz/stat.tsx\<close>, \<open>previous.ts\<close>): the status and its label, the change from
  the previous period, and the line under the number. Coordinates are the numbers before \<open>toFixed(1)\<close>.
\<close>

section \<open>Status\<close>

definition stat_better :: "panel \<Rightarrow> panel_result \<Rightarrow> direction option" where
  "stat_better p r = or_else (p_better p) (or_else (r_better r) (thresholdDirection (p_thresholds p)))"

definition health_status :: "string option \<Rightarrow> status option" where
  "health_status h = (if h = Some ''healthy'' then Some StOk else if h = Some ''degraded'' then Some StWarn
     else if h = Some ''unhealthy'' then Some StBad else None)"

definition stat_status :: "panel \<Rightarrow> panel_result \<Rightarrow> string option \<Rightarrow> real option \<Rightarrow> status option" where
  "stat_status p r health v = or_else (statusFor v (p_thresholds p) (stat_better p r)) (health_status health)"

text \<open>\<open>better === "higher" ? value <= t.value : value >= t.value\<close>\<close>

definition reached :: "direction option \<Rightarrow> real \<Rightarrow> threshold \<Rightarrow> bool" where
  "reached better v t \<longleftrightarrow> (if better = Some Higher then v \<le> th_value t else th_value t \<le> v)"

definition reached_threshold :: "panel \<Rightarrow> panel_result \<Rightarrow> string option \<Rightarrow> real option \<Rightarrow> threshold option" where
  "reached_threshold p r health v = find (\<lambda>t. Some (th_status t) = stat_status p r health v
     \<and> (case v of None \<Rightarrow> False | Some x \<Rightarrow> reached (stat_better p r) x t)) (p_thresholds p)"

definition stat_label :: "panel \<Rightarrow> panel_result \<Rightarrow> string option \<Rightarrow> real option \<Rightarrow> string option" where
  "stat_label p r health v = map_option (\<lambda>st. nullish (Option.bind (reached_threshold p r health v) th_label)
     (case st of StBad \<Rightarrow> ''Unhealthy'' | StWarn \<Rightarrow> ''Degraded'' | StOk \<Rightarrow> ''Healthy'')) (stat_status p r health v)"

definition previousStatValue :: "panel \<Rightarrow> panel_result \<Rightarrow> real option" where
  "previousStatValue p r = (case r_previous r of None \<Rightarrow> None
     | Some f \<Rightarrow> if nullish (p_reduce p) RWindow = RWindow \<and> f_totals f = None then None else statValue p f)"

section \<open>Delta\<close>

definition delta_change :: "string option \<Rightarrow> real \<Rightarrow> real \<Rightarrow> num" where
  "delta_change unit v prev = (if unit = Some ''percent'' then Fin (v - prev)
     else if prev = 0 then (if v = 0 then Fin 0 else PInf) else Fin ((v - prev) / \<bar>prev\<bar> * 100))"

definition delta_up :: "num \<Rightarrow> bool" where
  "delta_up c = (case c of Fin x \<Rightarrow> 0 \<le> x | PInf \<Rightarrow> True | _ \<Rightarrow> False)"

definition delta_good :: "direction option \<Rightarrow> num \<Rightarrow> bool option" where
  "delta_good better c = (if c = Fin 0 \<or> better = None then None
     else Some (if delta_up c then better = Some Higher else better = Some Lower))"

definition delta_text :: "string option \<Rightarrow> num \<Rightarrow> string" where
  "delta_text unit c = (case c of
      Fin x \<Rightarrow> (if 0 \<le> x then ''+'' else minus_sign) @ (if unit = Some ''percent'' then toFixed 1 \<bar>x\<bar> @ '' pts'' else toFixed 0 \<bar>x\<bar> @ ''%'')
    | _ \<Rightarrow> ''new'')"

definition week_ms :: real where "week_ms = 604800000"

text \<open>\<open>/^(\d+)(s|m|h|d|w)$/\<close> of the range, else the length of the result.\<close>

definition range_length :: "string option \<Rightarrow> real option" where
  "range_length v = (let s = nullish v []; ds = takeWhile is_digit s in if ds = [] then None
     else map_option (\<lambda>k. real (nat_of_digits ds) * k)
       (map_of [(''s'', 1000), (''m'', 60000), (''h'', 3600000), (''d'', 86400000), (''w'', week_ms)] (drop (length ds) s)))"

definition result_length :: "panel_result \<Rightarrow> real option" where
  "result_length r = (case (r_from_ms r, r_to_ms r) of (Some a, Some b) \<Rightarrow> Some (b - a) | _ \<Rightarrow> r_shift_ms r)"

definition period_units :: "(string \<times> real) list" where
  "period_units = [(''week'', week_ms), (''day'', 86400000), (''hour'', 3600000), (''minute'', 60000)]"

definition previousPeriod :: "(real \<Rightarrow> string) \<Rightarrow> string option \<Rightarrow> panel_result \<Rightarrow> string" where
  "previousPeriod sn rg r = (case or_else (range_length rg) (result_length r) of
      None \<Rightarrow> ''period''
    | Some d \<Rightarrow> if d = 0 then ''period''
        else (let u = nullish (find (\<lambda>u. snd u \<le> d) period_units) (''second'', 1000); n = d / snd u
          in if n = 1 then fst u else sn (real_of_int (js_round (n * 100)) / 100) @ '' '' @ fst u @ ''s''))"

section \<open>The line\<close>

text \<open>A run of points that are there, by its first and last place.\<close>

definition starts_run :: "real option list \<Rightarrow> nat \<Rightarrow> bool" where
  "starts_run ps i \<longleftrightarrow> i = 0 \<or> ps ! (i - 1) = None"

definition run_step :: "real option list \<Rightarrow> (nat \<times> nat) list \<Rightarrow> nat \<Rightarrow> (nat \<times> nat) list" where
  "run_step ps runs i = (if ps ! i = None then runs
     else if starts_run ps i then runs @ [(i, i)] else butlast runs @ [(fst (last runs), i)])"

definition line_runs :: "real option list \<Rightarrow> (nat \<times> nat) list" where
  "line_runs ps = foldl (run_step ps) [] [0 ..< length ps]"

record spark_line =
  sl_x :: "nat \<Rightarrow> real"
  sl_y :: "real \<Rightarrow> real"
  sl_runs :: "(nat \<times> nat) list"
  sl_areas :: "(nat \<times> nat) list"

text \<open>Fewer than two points are no line; an area is drawn under a run of two or more.\<close>

definition spark_of :: "real option list \<Rightarrow> real \<Rightarrow> spark_line option" where
  "spark_of ps h = (let here = present ps in
     if length here < 2 then None
     else (let lo = min_of (hd here) (tl here); hi = max_of (hd here) (tl here); w = (if hi - lo = 0 then 1 else hi - lo) in
       Some \<lparr>sl_x = (\<lambda>i. real i / real (length ps - 1) * 200), sl_y = (\<lambda>v. h - 2 - (v - lo) / w * (h - 4)),
         sl_runs = line_runs ps, sl_areas = filter (\<lambda>r. fst r < snd r) (line_runs ps)\<rparr>))"

section \<open>The label is of the status\<close>

lemma stat_better_known: "p_thresholds p \<noteq> [] \<Longrightarrow> stat_better p r \<noteq> None"
proof -
  assume "p_thresholds p \<noteq> []"
  then have "thresholdDirection (p_thresholds p) \<noteq> None" by (simp add: thresholdDirection_def Let_def)
  then show ?thesis unfolding stat_better_def by (cases "p_better p"; cases "r_better r") simp_all
qed

lemma reached_crossed: "p_thresholds p \<noteq> [] \<Longrightarrow> reached (stat_better p r) v t = crossed (stat_better p r) v t"
proof -
  assume "p_thresholds p \<noteq> []"
  from stat_better_known [OF this, of r] obtain d where "stat_better p r = Some d" by blast
  then show ?thesis by (cases d) (simp_all add: reached_def crossed_def)
qed

lemma status_from:
  "foldl (status_step better v) st ts = st \<or> (\<exists>t \<in> set ts. crossed better v t \<and> th_status t = foldl (status_step better v) st ts)"
proof (induction ts arbitrary: st)
  case (Cons t ts)
  show ?case using Cons.IH [of "status_step better v st t"] by (auto simp: status_step_def)
qed simp

text \<open>
  The stat panel explains its colour: when the thresholds make it a warning or worse, the label shown is that of
  a threshold of this very status which the value has reached.
\<close>

theorem shown_label_is_of_the_status:
  assumes "statusFor (Some v) (p_thresholds p) (stat_better p r) = Some st" "st \<noteq> StOk"
  shows "\<exists>t \<in> set (p_thresholds p). th_status t = st \<and> crossed (stat_better p r) v t
    \<and> stat_label p r health (Some v) = Some (nullish (th_label t) (if st = StBad then ''Unhealthy'' else ''Degraded''))"
proof -
  let ?b = "stat_better p r"
  have ne: "p_thresholds p \<noteq> []" using assms(1) by (auto simp: statusFor_def)
  have b: "or_else ?b (thresholdDirection (p_thresholds p)) = ?b" by (cases ?b) (auto simp: stat_better_def or_else_def split: option.splits)
  have st: "foldl (status_step ?b v) StOk (p_thresholds p) = st" using assms(1) ne by (simp add: statusFor_def b)
  have s: "stat_status p r health (Some v) = Some st" using assms(1) by (simp add: stat_status_def)
  from status_from [of ?b v StOk "p_thresholds p"] st assms(2) obtain t0 where t0: "t0 \<in> set (p_thresholds p)" "crossed ?b v t0" "th_status t0 = st" by auto
  have "reached_threshold p r health (Some v) \<noteq> None"
    using t0 reached_crossed [OF ne, of r v t0] by (auto simp: reached_threshold_def find_None_iff s)
  then obtain t where t: "reached_threshold p r health (Some v) = Some t" by blast
  have "t \<in> set (p_thresholds p) \<and> th_status t = st \<and> reached ?b v t"
    using t unfolding reached_threshold_def s by (auto simp: find_Some_iff)
  then show ?thesis using reached_crossed [OF ne, of r v t] assms(2) t by (auto simp: stat_label_def s intro!: bexI [of _ t] split: status.split)
qed

section \<open>Gaps stay gaps\<close>

definition run_places :: "(nat \<times> nat) list \<Rightarrow> nat list" where
  "run_places runs = concat (map (\<lambda>r. [fst r ..< Suc (snd r)]) runs)"

definition run_ends :: "real option list \<Rightarrow> nat \<Rightarrow> bool" where
  "run_ends ps j \<longleftrightarrow> Suc j = length ps \<or> ps ! Suc j = None"

definition runs_upto :: "real option list \<Rightarrow> nat \<Rightarrow> (nat \<times> nat) list \<Rightarrow> bool" where
  "runs_upto ps n runs \<longleftrightarrow> run_places runs = filter (\<lambda>i. ps ! i \<noteq> None) [0 ..< n]
     \<and> (\<forall>r \<in> set runs. fst r \<le> snd r \<and> snd r < n \<and> starts_run ps (fst r))
     \<and> (\<forall>r \<in> set (butlast runs). ps ! Suc (snd r) = None)
     \<and> (runs \<noteq> [] \<longrightarrow> ps ! snd (last runs) \<noteq> None \<and> (Suc (snd (last runs)) = n \<or> ps ! Suc (snd (last runs)) = None))
     \<and> (0 < n \<and> ps ! (n - 1) \<noteq> None \<longrightarrow> runs \<noteq> [] \<and> snd (last runs) = n - 1)"

lemma run_places_simps [simp]: "run_places [] = []" "run_places (xs @ [r]) = run_places xs @ [fst r ..< Suc (snd r)]"
  by (simp_all add: run_places_def)

lemma butlast_or_last: "r \<in> set xs \<Longrightarrow> r \<in> set (butlast xs) \<or> xs \<noteq> [] \<and> r = last xs"
  by (induction xs) auto

lemma run_step_upto:
  assumes "runs_upto ps n runs" shows "runs_upto ps (Suc n) (run_step ps runs n)"
proof (cases "ps ! n = None")
  case True
  then show ?thesis using assms by (auto simp: runs_upto_def run_step_def)
next
  case here: False
  show ?thesis
  proof (cases "starts_run ps n")
    case True
    have "ps ! Suc (snd r) = None" if r: "r \<in> set runs" for r
    proof (cases "r \<in> set (butlast runs)")
      case False
      then have "r = last runs" "runs \<noteq> []" using butlast_or_last [OF r] by auto
      then show ?thesis using assms True by (auto simp: runs_upto_def starts_run_def)
    qed (use assms in \<open>simp add: runs_upto_def\<close>)
    then show ?thesis using assms here True by (auto simp: runs_upto_def run_step_def less_Suc_eq)
  next
    case False
    then have n: "0 < n" "ps ! (n - 1) \<noteq> None" by (auto simp: starts_run_def)
    then have l: "runs \<noteq> []" "snd (last runs) = n - 1" using assms unfolding runs_upto_def by blast+
    have r: "runs = butlast runs @ [(fst (last runs), n - 1)]" using append_butlast_last_id [OF l(1)] l(2) by (metis prod.collapse)
    then obtain xs a where r: "runs = xs @ [(a, n - 1)]" by blast
    have e: "[a ..< Suc n] = [a ..< n] @ [n]" if "a \<le> n" using that by simp
    have "a \<le> n - 1" using assms r by (auto simp: runs_upto_def)
    then show ?thesis using assms here False n r by (auto simp: runs_upto_def run_step_def e less_Suc_eq)
  qed
qed

text \<open>
  Gaps stay gaps: the runs of a line are, in order, exactly the points that are there; each begins at the first
  point or after a gap and ends at the last point or before one, so that no line and no area crosses a gap.
\<close>

theorem runs_are_between_gaps:
  "run_places (line_runs ps) = filter (\<lambda>i. ps ! i \<noteq> None) [0 ..< length ps]
   \<and> (\<forall>r \<in> set (line_runs ps). fst r \<le> snd r \<and> starts_run ps (fst r) \<and> run_ends ps (snd r))"
proof -
  have "runs_upto ps n (foldl (run_step ps) [] [0 ..< n])" for n
  proof (induction n)
    case 0
    show ?case by (simp add: runs_upto_def)
  next
    case (Suc n)
    then show ?case using run_step_upto by simp
  qed
  from this [of "length ps"] have u: "runs_upto ps (length ps) (line_runs ps)" by (simp only: line_runs_def)
  have "run_ends ps (snd r)" if "r \<in> set (line_runs ps)" for r
    using butlast_or_last [OF that] u by (auto simp: runs_upto_def run_ends_def)
  with u show ?thesis by (simp add: runs_upto_def)
qed

lemma runs_are_between_gaps_witness: "line_runs [Some 1, Some 2, None, Some 3] = [(0, 1), (3, 3)] \<and> run_ends [Some 1, Some 2, None, Some 3] 1"
proof -
  have "line_runs [Some 1, Some 2, None, Some 3] = [(0, 1), (3, 3)]" by (simp add: line_runs_def run_step_def starts_run_def upt_rec)
  with runs_are_between_gaps [of "[Some 1, Some 2, None, Some 3]"] show ?thesis by simp
qed

definition demo_stat :: "threshold list \<Rightarrow> panel" where
  "demo_stat ts = \<lparr>p_id = ''p'', p_title = ''P'', p_viz = Stat, p_query = None, p_unit = None, p_x_unit = None, p_reduce = None, p_thresholds = ts,
     p_better = None, p_min = None, p_max = None, p_options = None, p_drill = None, p_time_range = None, p_time_shift = None, p_content = None, p_grid = None\<rparr>"

definition demo_result :: panel_result where
  "demo_result = \<lparr>r_id = ''p'', r_status = ROk, r_frame = None, r_previous = None, r_error = None, r_busy = False, r_retryable = False, r_interval = None,
     r_from_ms = None, r_to_ms = None, r_better = Some Lower, r_shift_ms = None, r_scope = None, r_annotation_error = None\<rparr>"

lemma shown_label_is_of_the_status_witness:
  "stat_label (demo_stat [\<lparr>th_value = 5, th_status = StWarn, th_label = Some ''slow''\<rparr>]) demo_result None (Some 7) = Some ''slow''"
proof -
  let ?p = "demo_stat [\<lparr>th_value = 5, th_status = StWarn, th_label = Some ''slow''\<rparr>]"
  have "statusFor (Some 7) (p_thresholds ?p) (stat_better ?p demo_result) = Some StWarn"
    by (simp add: demo_stat_def demo_result_def stat_better_def statusFor_def status_step_def crossed_def)
  from shown_label_is_of_the_status [OF this, of None] show ?thesis by (auto simp: demo_stat_def)
qed

end
