(* ===== verification/Table_Panel.thy ===== *)
theory Table_Panel
  imports Labels Drill
begin

text \<open>
  The table of a panel (\<open>ui/host/src/dashboards/viz/table.tsx\<close>), the severities of its log rows (\<open>row-panel.tsx\<close>) and
  the drawer a row opens (\<open>ui/host/src/dashboards/drill.tsx\<close>). The sorting of a clicked header and the cells' look
  are the table library's; \<open>hidden\<close> are the constants folded into the subtitle, \<open>click\<close> says that the panel has a click action.
\<close>

section \<open>Columns\<close>

definition format_of :: "panel \<Rightarrow> string \<Rightarrow> column_format option" where
  "format_of p name = (case p_options p of None \<Rightarrow> None | Some po \<Rightarrow> find (\<lambda>c. cf_field c = name) (po_columns po))"

text \<open>Each cell prints a duration in its own unit, so the header of such a column names none.\<close>

definition without_unit :: "string \<Rightarrow> string" where
  "without_unit label = (case find (ends_with label) ['' (ms)'', '' (s)'', '' (ns)''] of
      Some u \<Rightarrow> take (length label - length u) label | None \<Rightarrow> label)"

definition columnHeader :: "casing \<Rightarrow> panel \<Rightarrow> column \<Rightarrow> string" where
  "columnHeader cs p c =
    (let label = displayLabel cs (Inl c) (Some p); fmt = format_of p (c_name c);
         unit = or_else (Option.bind fmt cf_unit) (or_else (c_unit c) (p_unit p));
         printed = (case fmt of None \<Rightarrow> True | Some f \<Rightarrow> cf_format f \<in> {FUnit, FBar, FStatus, FSparkline})
     in if printed \<and> c_type c = TNumber \<and> unit \<in> {Some ''ms'', Some ''s'', Some ''ns''} then without_unit label else label)"

definition pattern_order :: "string \<Rightarrow> int" where
  "pattern_order name = (case find_index (\<lambda>n. n = name) [''severity'', ''body_template'', ''service'', ''count'', ''trend''] of
      Some i \<Rightarrow> int i | None \<Rightarrow> -1)"

definition shown_columns :: "panel \<Rightarrow> string list \<Rightarrow> frame \<Rightarrow> column list" where
  "shown_columns p hidden f = (let cs = filter (\<lambda>c. c_name c \<notin> set hidden) (f_columns f) in
     if p_viz p = LogPatterns then sort_by (\<lambda>a b. pattern_order (c_name a) \<le> pattern_order (c_name b)) cs else cs)"

definition table_cell :: "cell option \<Rightarrow> cell" where
  "table_cell v = (case v of Some (CNum n) \<Rightarrow> if is_finite n then CNum n else CNull | Some c \<Rightarrow> c | None \<Rightarrow> CNull)"

definition table_rows :: "frame \<Rightarrow> cell list list" where
  "table_rows f = map (\<lambda>r. map (\<lambda>c. table_cell (cell_at f c r)) [0 ..< length (f_columns f)]) [0 ..< f_rows f]"

definition column_max :: "frame \<Rightarrow> nat \<Rightarrow> real" where
  "column_max f i = (if c_role (f_columns f ! i) = RMeasure
     then max_of 0 (present (map (\<lambda>v. case v of CNum n \<Rightarrow> finite_val n | _ \<Rightarrow> None) (f_values f ! i))) else 0)"

definition first_dimension :: "panel \<Rightarrow> frame \<Rightarrow> nat option" where
  "first_dimension p f = (let dim = find_index (\<lambda>c. c_role c = RDimension) (f_columns f); service = find_index (\<lambda>c. c_name c = ''service'') (f_columns f) in
     case p_query p of None \<Rightarrow> dim | Some q \<Rightarrow> if q_by q \<noteq> [] then dim else or_else service dim)"

definition expandable :: "panel \<Rightarrow> column \<Rightarrow> bool" where
  "expandable p c \<longleftrightarrow> str_in (c_name c) [''body'', ''body_template'']
     \<or> (case p_options p of None \<Rightarrow> False | Some po \<Rightarrow> list_ex (\<lambda>k. cf_field k = c_name c \<and> cf_format k = FLogTemplate) (po_columns po))"

definition can_expand :: "panel \<Rightarrow> frame \<Rightarrow> bool" where
  "can_expand p f \<longleftrightarrow> list_ex (expandable p) (f_columns f)"

section \<open>Rows\<close>

definition link_column :: "panel \<Rightarrow> row \<Rightarrow> column_format option" where
  "link_column p r = (case p_options p of None \<Rightarrow> None
     | Some po \<Rightarrow> find (\<lambda>c. cf_format c = FTraceLink \<and> (case row_str r (cf_field c) of Some s \<Rightarrow> s \<noteq> [] | None \<Rightarrow> False)) (po_columns po))"

definition selectionFor :: "(num \<Rightarrow> string) \<Rightarrow> panel \<Rightarrow> row \<Rightarrow> selection" where
  "selectionFor sn p r = (let sel = row_selection sn p r in
     if truthy (map_option JStr (sel_trace_id sel)) then sel
     else (case link_column p r of None \<Rightarrow> sel | Some c \<Rightarrow> sel\<lparr>sel_trace_id := row_str r (cf_field c)\<rparr>))"

text \<open>What the page lets a row do.\<close>

record table_actions =
  ta_select :: bool
  ta_point :: bool
  ta_click :: bool

definition rowInteractive :: "(num \<Rightarrow> string) \<Rightarrow> table_actions \<Rightarrow> panel \<Rightarrow> row \<Rightarrow> bool" where
  "rowInteractive sn a p r \<longleftrightarrow> ta_select a
     \<or> ta_point a \<and> (ta_click a \<or> truthy (map_option JStr (p_drill p)) \<or> truthy (map_option JStr (sel_trace_id (selectionFor sn p r))))"

datatype table_call = OpenPoint selection | SelectValue string

definition activate_row :: "(num \<Rightarrow> string) \<Rightarrow> table_actions \<Rightarrow> panel \<Rightarrow> frame \<Rightarrow> row \<Rightarrow> cell list \<Rightarrow> table_call list" where
  "activate_row sn a p f r original =
    (if \<not> rowInteractive sn a p r then []
     else (if ta_point a then [OpenPoint (selectionFor sn p r)] else [])
       @ (case first_dimension p f of Some i \<Rightarrow> if ta_select a then [SelectValue (cell_str sn (nth_opt original i))] else [] | None \<Rightarrow> []))"

text \<open>The rows that are open, and how many are shown; without a page all are.\<close>

record table_state =
  tb_expanded :: "nat list"
  tb_shown :: "nat option"

definition open_table :: "nat option \<Rightarrow> table_state" where
  "open_table page = \<lparr>tb_expanded = [], tb_shown = page\<rparr>"

definition toggle_row :: "nat \<Rightarrow> table_state \<Rightarrow> table_state" where
  "toggle_row i s = s\<lparr>tb_expanded := (if i \<in> set (tb_expanded s) then removeAll i (tb_expanded s) else i # tb_expanded s)\<rparr>"

text \<open>A click or a key on a row that is not on a link or button of its own; the rest is theirs.\<close>

definition press_row :: "(num \<Rightarrow> string) \<Rightarrow> table_actions \<Rightarrow> panel \<Rightarrow> frame \<Rightarrow> bool \<Rightarrow> nat \<Rightarrow> row \<Rightarrow> cell list \<Rightarrow> table_state
    \<Rightarrow> table_state \<times> table_call list" where
  "press_row sn a p f inner i r original s =
    (if inner then (s, [])
     else if can_expand p f \<and> (p_viz p = Logs \<or> \<not> rowInteractive sn a p r) then (toggle_row i s, [])
     else (s, activate_row sn a p f r original))"

definition pager :: "nat option \<Rightarrow> nat \<Rightarrow> table_state \<Rightarrow> nat option" where
  "pager page rows s = (case tb_shown s of None \<Rightarrow> None
     | Some k \<Rightarrow> if k < rows then Some (min (nullish page rows) (rows - k)) else None)"

definition show_more :: "nat option \<Rightarrow> nat \<Rightarrow> table_state \<Rightarrow> table_state" where
  "show_more page rows s = s\<lparr>tb_shown := map_option (\<lambda>k. k + nullish page rows) (tb_shown s)\<rparr>"

definition rows_shown :: "nat \<Rightarrow> table_state \<Rightarrow> nat" where
  "rows_shown rows s = (case tb_shown s of None \<Rightarrow> rows | Some k \<Rightarrow> min k rows)"

section \<open>Severities\<close>

definition severity_names :: "string list" where
  "severity_names = [''TRACE'', ''DEBUG'', ''INFO'', ''WARN'', ''ERROR'', ''FATAL'']"

text \<open>\<open>/^(TRACE|DEBUG|INFO|WARN|ERROR|FATAL)[2-4]?$/\<close>\<close>

definition named_severity :: "string \<Rightarrow> string option" where
  "named_severity raw = find (\<lambda>n. raw = n \<or> list_ex (\<lambda>d. raw = n @ [d]) [CHR ''2'', CHR ''3'', CHR ''4'']) severity_names"

definition without_prefix :: "string \<Rightarrow> string \<Rightarrow> string" where
  "without_prefix p s = (if starts_with s p then drop (length p) s else s)"

text \<open>\<open>up\<close> is \<open>toUpperCase\<close>.\<close>

definition severity_of :: "string \<Rightarrow> string" where
  "severity_of raw =
    (if raw = ''CRITICAL'' then ''FATAL''
     else if raw = ''WARNING'' then ''WARN''
     else if raw \<noteq> [] \<and> list_all is_digit raw \<and> 1 \<le> nat_of_digits raw \<and> nat_of_digits raw \<le> 24
       then severity_names ! ((nat_of_digits raw - 1) div 4)
     else nullish (named_severity raw) em_dash)"

definition severityLabel :: "(string \<Rightarrow> string) \<Rightarrow> string \<Rightarrow> string" where
  "severityLabel up v = severity_of (without_prefix ''SEVERITY_NUMBER_'' (up (js_trim v)))"

section \<open>The drawer\<close>

definition drill_panel :: "dashboard_spec \<Rightarrow> drill_target \<Rightarrow> panel option" where
  "drill_panel spec t = find (\<lambda>p. p_id p = dr_panel t) (ds_panels spec)"

definition has_trace :: "drill_target \<Rightarrow> bool" where
  "has_trace t \<longleftrightarrow> truthy (map_option JStr (dr_trace_id t))"

definition direct_logs :: "dashboard_spec \<Rightarrow> drill_target \<Rightarrow> bool" where
  "direct_logs spec t \<longleftrightarrow> dr_kind t = ''logs'' \<and> map_option q_from (Option.bind (drill_panel spec t) p_query) = Some ''logs''"

text \<open>Which of the two requests is made: the exemplars of a selection, or the trace that was picked.\<close>

definition exemplars_enabled :: "dashboard_spec \<Rightarrow> drill_target option \<Rightarrow> bool" where
  "exemplars_enabled spec to = (case to of None \<Rightarrow> False | Some t \<Rightarrow> drill_panel spec t \<noteq> None \<and> \<not> has_trace t)"

definition trace_enabled :: "drill_target option \<Rightarrow> bool" where
  "trace_enabled to = (case to of None \<Rightarrow> False | Some t \<Rightarrow> has_trace t)"

definition drawer_title :: "dashboard_spec \<Rightarrow> drill_target option \<Rightarrow> string" where
  "drawer_title spec to = (case Option.bind to (drill_panel spec) of
      None \<Rightarrow> ''Panel selection unavailable''
    | Some p \<Rightarrow> if trace_enabled to then ''Trace''
        else (if map_option dr_kind to = Some ''logs'' then ''Logs'' else ''Traces'') @ '' in '' @ p_title p)"

definition pick_exemplar :: "string \<Rightarrow> string \<Rightarrow> drill_target \<Rightarrow> drill_target" where
  "pick_exemplar trace namespace t = t\<lparr>dr_trace_id := Some trace, dr_namespace := Some namespace\<rparr>"

definition back_to_traces :: "drill_target \<Rightarrow> drill_target" where
  "back_to_traces t = t\<lparr>dr_trace_id := None, dr_namespace := None\<rparr>"

section \<open>What the table and the drawer do\<close>

text \<open>
  Pages: after any number of presses of the button the table shows a page more for each, never more than there are,
  and the button is there exactly while rows are missing and names the number that it adds.
\<close>

theorem pager_adds_what_it_says:
  assumes "s = (show_more (Some k) rows ^^ n) (open_table (Some k))"
  shows "rows_shown rows s = min rows (k * Suc n)
    \<and> pager (Some k) rows s = (if k * Suc n < rows then Some (rows_shown rows (show_more (Some k) rows s) - rows_shown rows s) else None)"
proof -
  have "tb_shown ((show_more (Some k) rows ^^ n) (open_table (Some k))) = Some (k * Suc n)"
    by (induction n) (simp_all add: open_table_def show_more_def)
  then have t: "tb_shown s = Some (k * Suc n)" using assms by simp
  then show ?thesis by (auto simp: rows_shown_def pager_def show_more_def)
qed

lemma pager_adds_what_it_says_witness:
  "pager (Some 50) 120 ((show_more (Some 50) 120 ^^ 1) (open_table (Some 50))) = Some 20"
  using pager_adds_what_it_says [OF refl, where k = 50 and rows = 120 and n = 1] by (simp add: rows_shown_def show_more_def open_table_def)

lemma press_opens_or_expands:
  "press_row sn a p f inner i r original s = (s', calls) \<Longrightarrow> s' = s \<or> calls = [] \<and> can_expand p f \<and> s' = toggle_row i s"
  by (auto simp: press_row_def split: if_splits)

text \<open>
  The drawer asks for one thing at a time: for a panel that is there, either the exemplars of the selection or the trace
  that was picked, never both; and going back from a picked trace gives the selection it was picked from.
\<close>

theorem drawer_asks_one_thing:
  "\<not> (exemplars_enabled spec to \<and> trace_enabled to)
   \<and> (exemplars_enabled spec (Some t) \<or> trace_enabled (Some t) \<or> drill_panel spec t = None)
   \<and> (dr_trace_id t = None \<and> dr_namespace t = None \<longrightarrow> back_to_traces (pick_exemplar trace namespace t) = t)"
  by (cases to) (auto simp: exemplars_enabled_def trace_enabled_def back_to_traces_def pick_exemplar_def)

section \<open>Numbers and names of a severity agree\<close>

definition plain_text :: "string \<Rightarrow> bool" where
  "plain_text s \<longleftrightarrow> list_all (\<lambda>c. 33 \<le> byte c \<and> byte c < 127) s"

lemma trim_plain: "plain_text s \<Longrightarrow> js_trim s = s"
proof -
  assume p: "plain_text s"
  then have c: "code_points s = map (\<lambda>c. [c]) s" by (intro code_points_ascii) (auto simp: plain_text_def list_all_iff)
  have n: "dropWhile (\<lambda>p. js_space (cp_of p)) (map (\<lambda>c. [c]) t) = map (\<lambda>c. [c]) t" if "plain_text t" for t
    using that by (cases t) (auto simp: plain_text_def js_space_def cp_of_def)
  have r: "plain_text (rev s)" using p by (simp add: plain_text_def list_all_iff)
  have "concat (map (\<lambda>c. [c]) s) = s" by (induction s) auto
  then show ?thesis by (simp add: js_trim_def Let_def c n [OF p] n [OF r] rev_map)
qed

text \<open>The name of a number, with its place among the four of the name when it is not the first.\<close>

definition severity_name :: "nat \<Rightarrow> string" where
  "severity_name n = severity_names ! ((n - 1) div 4)"

definition short_severity :: "nat \<Rightarrow> string" where
  "short_severity n = (if (n - 1) mod 4 = 0 then severity_name n else severity_name n @ show_nat (Suc ((n - 1) mod 4)))"

lemma severities_agree:
  "list_all (\<lambda>n. severity_of (show_nat n) = severity_name n \<and> severity_of (short_severity n) = severity_name n
     \<and> without_prefix ''SEVERITY_NUMBER_'' (show_nat n) = show_nat n \<and> without_prefix ''SEVERITY_NUMBER_'' (short_severity n) = short_severity n) [1 ..< 25]"
  by code_simp

lemma severities_plain:
  "list_all (\<lambda>n. plain_text (show_nat n) \<and> plain_text (''SEVERITY_NUMBER_'' @ show_nat n) \<and> plain_text (short_severity n)
     \<and> \<not> list_ex is_lower (show_nat n) \<and> \<not> list_ex is_lower (''SEVERITY_NUMBER_'' @ show_nat n) \<and> \<not> list_ex is_lower (short_severity n)) [1 ..< 25]"
  by code_simp

text \<open>
  A severity reads the same however it is written: a number of the standard, the same number with its prefix, and the
  name of its range with or without its place in it give one label.
\<close>

theorem severity_reads_the_same:
  assumes "1 \<le> n" "n \<le> 24" "\<And>s. plain_text s \<Longrightarrow> \<not> list_ex is_lower s \<Longrightarrow> up s = s"
  shows "severityLabel up (show_nat n) = severity_name n \<and> severityLabel up (''SEVERITY_NUMBER_'' @ show_nat n) = severity_name n
    \<and> severityLabel up (short_severity n) = severity_name n"
proof -
  have n: "n \<in> set [1 ..< 25]" using assms(1,2) by (simp del: upt_Suc)
  note a = severities_agree [unfolded list_all_iff, rule_format, OF n] and p = severities_plain [unfolded list_all_iff, rule_format, OF n]
  have u: "severityLabel up s = severity_of (without_prefix ''SEVERITY_NUMBER_'' s)" if "plain_text s" "\<not> list_ex is_lower s" for s
    using that assms(3) [OF that] by (simp add: severityLabel_def trim_plain)
  have "without_prefix ''SEVERITY_NUMBER_'' (''SEVERITY_NUMBER_'' @ show_nat n) = show_nat n" by (simp add: without_prefix_def)
  then show ?thesis using a p u by (simp only: simp_thms)
qed

lemma severity_reads_the_same_witness: "severityLabel (\<lambda>s. s) ''10'' = ''INFO'' \<and> severityLabel (\<lambda>s. s) ''INFO2'' = ''INFO''"
proof -
  have "show_nat 10 = ''10''" "short_severity 10 = ''INFO2''" "severity_name 10 = ''INFO''" by code_simp+
  with severity_reads_the_same [of 10 "\<lambda>s. s"] show ?thesis by simp
qed

end
