(* ===== verification/Panel_Card.thy ===== *)
theory Panel_Card
  imports Frames Drill Js_Text
begin

text \<open>
  The card around a panel (\<open>ui/host/src/dashboards/panel-card.tsx\<close>): what its subtitle promises, the notes under it, which
  of retry and fix it offers, and the tooltip of a failed refresh. The parts of a result that only the card reads are a record of their own; \<open>stamp\<close>
  prints an instant for the reader and \<open>dp\<close> is \<open>Date.parse\<close>.
\<close>

section \<open>Texts\<close>

definition relativeTime :: "real \<Rightarrow> real \<Rightarrow> string" where
  "relativeTime at_ms now_ms = (let seconds = nat (max 0 \<lfloor>(now_ms - at_ms) / 1000\<rfloor>); minutes = seconds div 60; hours = minutes div 60 in
     if seconds < 60 then ''just now''
     else if minutes < 60 then show_nat minutes @ '' minute'' @ (if minutes = 1 then [] else ''s'') @ '' ago''
     else show_nat hours @ '' hour'' @ (if hours = 1 then [] else ''s'') @ '' ago'')"

text \<open>The white space of \<open>\S\<close> other than the blank; the notes of the server hold none of it.\<close>

definition line_space :: string where
  "line_space = [CHR 0x09, CHR 0x0A, CHR 0x0B, CHR 0x0C, CHR 0x0D]"

text \<open>\<open>/^Split at (\S+)( . .+)$/\<close>: the instant is the text up to the first space, the rest begins with a middle dot.\<close>

definition split_note :: "string \<Rightarrow> (string \<times> string) option" where
  "split_note n = (if \<not> starts_with n ''Split at '' then None
     else (let tail = drop 9 n; w = takeWhile (\<lambda>c. c \<noteq> CHR '' '') tail; rest = drop (length w) tail; dot = '' '' @ middot @ '' '' in
       if w \<noteq> [] \<and> list_all (\<lambda>c. c \<notin> set line_space) tail \<and> starts_with rest dot \<and> length dot < length rest then Some (w, rest) else None))"

definition formatPanelNote :: "(string \<Rightarrow> num) \<Rightarrow> (real \<Rightarrow> string) \<Rightarrow> string option \<Rightarrow> string option" where
  "formatPanelNote dp stamp note = (case Option.bind note split_note of
      None \<Rightarrow> note
    | Some (at_text, rest) \<Rightarrow> (case dp at_text of Fin t \<Rightarrow> Some (''Split at '' @ stamp t @ rest) | _ \<Rightarrow> note))"

text \<open>What the server says besides the frame, and whether the request itself failed.\<close>

record card_extra =
  cx_click :: "string option"
  cx_note :: "string option"
  cx_diagnosis :: "string option"
  cx_limited :: bool

definition has_column :: "string \<Rightarrow> frame option \<Rightarrow> bool" where
  "has_column name fo = (case fo of None \<Rightarrow> False | Some f \<Rightarrow> list_ex (\<lambda>c. c_name c = name) (f_columns f))"

definition result_frame :: "panel_result option \<Rightarrow> frame option" where
  "result_frame ro = Option.bind ro r_frame"

definition card_hint :: "panel \<Rightarrow> card_extra \<Rightarrow> panel_result option \<Rightarrow> string option" where
  "card_hint p x ro = (case cx_click x of
      Some v \<Rightarrow> Some (''click to filter by '' @ v)
    | None \<Rightarrow>
        if p_viz p = Traces \<or> p_viz p = Table \<and> has_column ''trace_id'' (result_frame ro) then Some ''click to open trace''
        else if p_viz p = Table \<and> p_drill p = Some ''traces'' \<and> result_frame ro = None then None
        else if p_drill p = Some ''logs'' then Some ''click for matching logs''
        else if p_drill p = Some ''traces'' \<and> p_viz p \<in> {Table, Timeseries, Bar, Heatmap, Histogram, Scatter, StateTimeline}
          then Some ''click for exemplar traces'' else None)"

section \<open>What the card offers\<close>

definition some_text :: "string option \<Rightarrow> bool" where
  "some_text s = truthy (map_option JStr s)"

definition refresh_error :: "panel_result option \<Rightarrow> bool" where
  "refresh_error ro = (case ro of None \<Rightarrow> False | Some r \<Rightarrow> r_frame r \<noteq> None \<and> some_text (r_error r))"

definition card_retryable :: "panel_result option \<Rightarrow> bool" where
  "card_retryable ro = (case ro of None \<Rightarrow> False | Some r \<Rightarrow> r_retryable r)"

definition card_fixable :: "panel_result option \<Rightarrow> bool" where
  "card_fixable ro \<longleftrightarrow> some_text (Option.bind ro r_error) \<and> \<not> card_retryable ro"

definition card_canvas :: "panel \<Rightarrow> bool" where
  "card_canvas p \<longleftrightarrow> p_viz p \<in> {Timeseries, Bar, Heatmap, Histogram, Scatter, StateTimeline, Gauge, ServiceMap}"

definition is_truncated :: "frame option \<Rightarrow> bool" where
  "is_truncated fo = (case fo of None \<Rightarrow> False | Some f \<Rightarrow> f_truncated f)"

definition card_scrolls :: "panel \<Rightarrow> string \<Rightarrow> panel_result option \<Rightarrow> bool" where
  "card_scrolls p view ro \<longleftrightarrow> view \<noteq> ''Chart'' \<or> \<not> card_canvas p
     \<or> (case ro of None \<Rightarrow> True | Some r \<Rightarrow> r_status r \<noteq> ROk \<or> is_truncated (r_frame r) \<or> is_truncated (r_previous r))"

definition card_notes :: "(string \<Rightarrow> num) \<Rightarrow> (real \<Rightarrow> string) \<Rightarrow> card_extra \<Rightarrow> panel_result option \<Rightarrow> real option \<Rightarrow> real \<Rightarrow> string list" where
  "card_notes dp stamp x ro stale now_ms = uniq (filter (\<lambda>s. s \<noteq> []) (present
     [case stale of Some t \<Rightarrow> if t \<noteq> 0 \<and> \<not> refresh_error ro then Some (''Stale: last updated '' @ relativeTime t now_ms) else None | None \<Rightarrow> None,
      if is_truncated (result_frame ro) \<or> is_truncated (Option.bind ro r_previous) then Some ''Truncated: showing limited data'' else None,
      formatPanelNote dp stamp (if result_frame ro = None then None else cx_note x),
      Option.bind ro r_annotation_error,
      if map_option r_status ro = Some ROk then cx_diagnosis x else None,
      if cx_limited x then Some ''Annotation service scope is limited.'' else None]))"

datatype card_body = ShownFullScreen | DataView | SpecView | BodyLoading | NotRunYet bool | BodyFailed bool bool | NoData string | BodyViz

text \<open>The body; the arguments say which of retry and fix it has. \<open>handlers\<close> are the callbacks the card was given.\<close>

record card_handlers =
  ch_retry :: bool
  ch_fix :: bool
  ch_view :: bool
  ch_explain :: bool
  ch_copy :: bool
  ch_edit :: bool
  ch_duplicate :: bool
  ch_remove :: bool

definition shown_body :: "panel \<Rightarrow> card_extra \<Rightarrow> card_handlers \<Rightarrow> bool \<Rightarrow> bool \<Rightarrow> string \<Rightarrow> panel_result option \<Rightarrow> card_body" where
  "shown_body p x h agent suspended view ro =
     (if suspended then ShownFullScreen else if view = ''Data'' then DataView else if view = ''Spec'' then SpecView
      else (case ro of
          None \<Rightarrow> if p_viz p \<noteq> TextViz then BodyLoading else BodyViz
        | Some r \<Rightarrow>
            if r_status r = RError \<and> r_busy r then NotRunYet (ch_retry h)
            else if r_status r = RError \<or> r_status r = RInvalid then BodyFailed (card_retryable ro \<and> ch_retry h) (card_fixable ro \<and> agent \<and> ch_fix h)
            else if r_status r = REmpty then NoData (if some_text (cx_diagnosis x) then the (cx_diagnosis x) else ''No data in this time range.'')
            else BodyViz))"

definition shown_views :: "panel \<Rightarrow> string list" where
  "shown_views p = (if p_viz p = TextViz then [''Chart'', ''Spec''] else [''Chart'', ''Data'', ''Spec''])"

definition menu_items :: "card_handlers \<Rightarrow> bool \<Rightarrow> panel_result option \<Rightarrow> string list" where
  "menu_items h agent ro = concat [
     if refresh_error ro \<and> card_retryable ro \<and> ch_retry h then [''Retry''] else [],
     if card_fixable ro \<and> agent \<and> ch_fix h then [''Ask Fanout to fix it''] else [],
     if ch_view h then [''View''] else [],
     if agent \<and> ch_explain h then [''Explain in chat''] else [],
     if ch_copy h then [''Copy link''] else [],
     if ch_edit h then [''Edit panel''] else [],
     if ch_duplicate h then [''Duplicate''] else [],
     if ch_remove h then [''Remove panel''] else []]"

lemma never_retry_and_fix: "\<not> (''Retry'' \<in> set (menu_items h agent ro) \<and> ''Ask Fanout to fix it'' \<in> set (menu_items h agent ro))"
  by (auto simp: menu_items_def card_fixable_def)

text \<open>A failure with no retry and no agent leaves the reader the message alone, in the body and in the menu.\<close>

lemma offers_need_a_handler:
  "shown_body p x h agent sus view ro = BodyFailed retry fix_it \<Longrightarrow> (retry \<longrightarrow> ch_retry h) \<and> (fix_it \<longrightarrow> agent \<and> ch_fix h) \<and> \<not> (retry \<and> fix_it)"
  by (auto simp: shown_body_def card_fixable_def split: if_splits option.splits)

text \<open>What a screen reader is told of a failed refresh.\<close>

definition refresh_age :: "real option \<Rightarrow> real \<Rightarrow> string option" where
  "refresh_age stale now_ms = (case stale of Some t \<Rightarrow> if t \<noteq> 0 then Some (''Showing data from '' @ relativeTime t now_ms) else None | None \<Rightarrow> None)"

definition refresh_details :: "panel_result option \<Rightarrow> real option \<Rightarrow> real \<Rightarrow> string option" where
  "refresh_details ro stale now_ms = (if \<not> refresh_error ro then None
     else Some ((case refresh_age stale now_ms of Some a \<Rightarrow> a @ ''. '' | None \<Rightarrow> []) @ the (r_error (the ro))))"

text \<open>It is cut at two hundred UTF-16 units, which are kept here as units, since the cut may fall inside a character.\<close>

definition refresh_description :: "panel_result option \<Rightarrow> real option \<Rightarrow> real \<Rightarrow> nat list option" where
  "refresh_description ro stale now_ms = map_option (\<lambda>d. let u = utf16 d in if length u > 200 then take 199 u @ utf16 ellipsis else u)
     (refresh_details ro stale now_ms)"

lemma refresh_description_bound:
  "refresh_description ro stale now_ms = Some u \<Longrightarrow> length u \<le> 200"
proof -
  have e: "length (utf16 ellipsis) = 1"
    by (simp add: utf16_def ellipsis_def is_cont_def byte_def cp_of_def units_of_def)
  show "refresh_description ro stale now_ms = Some u \<Longrightarrow> length u \<le> 200"
    by (cases "refresh_details ro stale now_ms") (auto simp: refresh_description_def Let_def e)
qed

text \<open>The subtitle: the kind of the chart in words, the values all its lines of a log share, and the hint.\<close>

definition viz_words :: "viz \<Rightarrow> string" where
  "viz_words v = (case v of Stat \<Rightarrow> ''stat'' | Gauge \<Rightarrow> ''gauge'' | Timeseries \<Rightarrow> ''time series'' | Bar \<Rightarrow> ''bar'' | Table \<Rightarrow> ''table''
     | TextViz \<Rightarrow> ''text'' | Heatmap \<Rightarrow> ''heatmap'' | Histogram \<Rightarrow> ''histogram'' | Scatter \<Rightarrow> ''scatter'' | StateTimeline \<Rightarrow> ''state timeline''
     | Logs \<Rightarrow> ''logs'' | LogPatterns \<Rightarrow> ''log patterns'' | Traces \<Rightarrow> ''traces'' | ServiceMap \<Rightarrow> ''service map'' | HealthViz \<Rightarrow> ''health'')"

definition card_subtitle :: "panel \<Rightarrow> card_extra \<Rightarrow> panel_result option \<Rightarrow> string" where
  "card_subtitle p x ro = (let dot = '' '' @ middot @ '' ''; constants = uniq (map snd (logConstants p (result_frame ro))) in
     viz_words (p_viz p) @ (if constants = [] then [] else dot @ join dot constants)
       @ (case card_hint p x ro of Some h \<Rightarrow> dot @ h | None \<Rightarrow> []))"

section \<open>The tooltip of a failed refresh\<close>

record tip_state =
  tp_focused :: bool
  tp_hovered :: bool
  tp_dismissed :: bool

datatype tip_event = MenuFocus bool | MenuBlur | MenuEnter | MenuLeave | MenuOpened | EscapePressed | RetryPressed

definition tip_open :: "bool \<Rightarrow> tip_state \<Rightarrow> bool" where
  "tip_open err s \<longleftrightarrow> err \<and> \<not> tp_dismissed s \<and> (tp_focused s \<or> tp_hovered s)"

definition close_tip :: "tip_state \<Rightarrow> tip_state" where
  "close_tip s = \<lparr>tp_focused = False, tp_hovered = False, tp_dismissed = True\<rparr>"

text \<open>The key is listened to only while the tooltip is open.\<close>

definition tip_step :: "bool \<times> tip_event \<Rightarrow> tip_state \<Rightarrow> tip_state" where
  "tip_step ee s = (case snd ee of
      MenuFocus by_key \<Rightarrow> s\<lparr>tp_focused := by_key, tp_dismissed := (tp_dismissed s \<and> \<not> by_key)\<rparr>
    | MenuBlur \<Rightarrow> s\<lparr>tp_focused := False\<rparr>
    | MenuEnter \<Rightarrow> s\<lparr>tp_hovered := True, tp_dismissed := False\<rparr>
    | EscapePressed \<Rightarrow> if tip_open (fst ee) s then close_tip s else s
    | _ \<Rightarrow> close_tip s)"

definition new_tip :: tip_state where
  "new_tip = \<lparr>tp_focused = False, tp_hovered = False, tp_dismissed = False\<rparr>"

text \<open>
  A tooltip that was closed stays closed: after Escape, leaving, opening the menu or a retry it shows again only when the
  pointer comes back or the menu is focused by the keyboard, whatever errors come and go meanwhile.
\<close>

theorem closed_tooltip_stays_closed:
  assumes "tip_open err s" "snd e \<in> {EscapePressed, MenuLeave, MenuOpened, RetryPressed}" "fst e = err"
    and "list_all (\<lambda>e. snd e \<noteq> MenuEnter \<and> snd e \<noteq> MenuFocus True) es"
  shows "\<not> tip_open any (fold tip_step es (tip_step e s))"
proof -
  have "tp_dismissed (fold tip_step es t)" if "tp_dismissed t" for t
    using that assms(4)
  proof (induction es arbitrary: t)
    case (Cons e es)
    have "tp_dismissed (tip_step e t)" using Cons.prems by (cases "snd e") (auto simp: tip_step_def close_tip_def)
    then show ?case using Cons by simp
  qed simp
  moreover have "tp_dismissed (tip_step e s)" using assms(1-3) by (cases "snd e") (auto simp: tip_step_def close_tip_def)
  ultimately show ?thesis by (simp add: tip_open_def)
qed

lemma closed_tooltip_stays_closed_witness:
  "\<not> tip_open True (fold tip_step [(False, MenuBlur), (True, MenuFocus False)] (tip_step (True, EscapePressed) (tip_step (True, MenuEnter) new_tip)))"
  by (rule closed_tooltip_stays_closed [where err = True]) (simp_all add: tip_open_def tip_step_def new_tip_def)

end
