(* ===== verification/Fanql_Editor.thy ===== *)
theory Fanql_Editor
  imports Js_Text "HOL-Library.Sublist"
begin

text \<open>
  The query editors. \<open>ui/host/src/fanql-editor\<close>: the server counts code points and the editor UTF-16 units (\<open>spans.ts\<close>), a fix-it
  replaces its span and leaves the other problems standing, what was typed is not rewound by a render that lags behind, and only the latest
  request for suggestions answers. \<open>ui/host/src/sql-editor\<close>: where a problem is marked and what a schema completes. A text is the list of
  its code points, which are no lone surrogates; the editor library is left out.
\<close>

section \<open>Code points and units (\<open>spans.ts\<close>)\<close>

type_synonym doc = "nat list"

record text_span =
  sp_start :: int
  sp_end :: int

definition units :: "doc \<Rightarrow> nat list" where
  "units t = concat (map units_of t)"

fun unitOffset :: "doc \<Rightarrow> int \<Rightarrow> nat" where
  "unitOffset [] points = 0"
| "unitOffset (c # cs) points = (if points \<le> 0 then 0 else length (units_of c) + unitOffset cs (points - 1))"

text \<open>A slice that ends inside a pair keeps its first half, which counts as one.\<close>

fun pointOffset :: "doc \<Rightarrow> nat \<Rightarrow> nat" where
  "pointOffset [] us = 0"
| "pointOffset (c # cs) us = (if us = 0 then 0 else 1 + pointOffset cs (us - length (units_of c)))"

definition unitSpan :: "doc \<Rightarrow> text_span \<Rightarrow> nat \<times> nat" where
  "unitSpan t sp = (let from_u = unitOffset t (sp_start sp) in (from_u, max from_u (unitOffset t (sp_end sp))))"

lemma units_of_length: "0 < length (units_of c)"
  by (simp add: units_of_def)

lemma units_simps [simp]: "units [] = []" "units (c # cs) = units_of c @ units cs" "units (a @ b) = units a @ units b"
  by (simp_all add: units_def)

lemma unitOffset_take: "unitOffset t p = length (units (take (nat p) t))"
proof (induction t arbitrary: p)
  case (Cons c t)
  show ?case
  proof (cases "p \<le> 0")
    case False
    then obtain n where "nat p = Suc n" "nat (p - 1) = n" by (cases "nat p") auto
    then show ?thesis using False Cons [of "p - 1"] by simp
  qed simp
qed simp

lemma pointOffset_units: "pointOffset (a @ b) (length (units a)) = length a"
proof (induction a)
  case Nil
  then show ?case by (cases b) simp_all
next
  case (Cons c a)
  then show ?case using units_of_length [of c] by auto
qed

text \<open>A place named in code points is the same place after it went through the editor.\<close>

theorem places_round_trip:
  assumes "0 \<le> p" "p \<le> int (length t)"
  shows "int (pointOffset t (unitOffset t p)) = p"
proof -
  have "pointOffset (take (nat p) t @ drop (nat p) t) (length (units (take (nat p) t))) = length (take (nat p) t)"
    by (rule pointOffset_units)
  then show ?thesis using assms by (simp add: unitOffset_take)
qed

lemma places_round_trip_witness: "int (pointOffset [97, 128512, 98] (unitOffset [97, 128512, 98] 2)) = 2 \<and> unitOffset [97, 128512, 98] 2 = 3"
  using places_round_trip [of 2 "[97, 128512, 98]"] by (simp add: units_of_def)

lemma units_drop: "units (drop n t) = drop (length (units (take n t))) (units t)"
proof -
  have "units t = units (take n t) @ units (drop n t)" by (metis append_take_drop_id units_simps(3))
  then show ?thesis by (metis append_eq_conv_conj)
qed

lemma units_take: "units (take n t) = take (length (units (take n t))) (units t)"
proof -
  have "units t = units (take n t) @ units (drop n t)" by (metis append_take_drop_id units_simps(3))
  then show ?thesis by (metis append_eq_conv_conj)
qed

section \<open>Fix-its\<close>

record fix_it =
  fx_label :: string
  fx_span :: text_span
  fx_text :: doc

text \<open>A problem or a notice; a notice has no hint.\<close>

record reported =
  rp_path :: string
  rp_message :: string
  rp_hint :: "string option"
  rp_span :: "text_span option"
  rp_fixes :: "fix_it list option"

definition describe :: "reported \<Rightarrow> string" where
  "describe r = rp_message r @ (case rp_hint r of Some h \<Rightarrow> if h \<noteq> [] then '' ('' @ h @ '')'' else [] | None \<Rightarrow> [])"

definition touches :: "text_span \<Rightarrow> text_span \<Rightarrow> bool" where
  "touches edit sp \<longleftrightarrow> sp_start sp \<le> sp_end edit \<and> sp_start edit \<le> sp_end sp"

definition move :: "fix_it \<Rightarrow> text_span \<Rightarrow> text_span" where
  "move f sp = (let delta = int (length (fx_text f)) - (sp_end (fx_span f) - sp_start (fx_span f)) in
     if sp_end (fx_span f) \<le> sp_start sp then \<lparr>sp_start = sp_start sp + delta, sp_end = sp_end sp + delta\<rparr> else sp)"

definition is_touched :: "fix_it \<Rightarrow> reported \<Rightarrow> bool" where
  "is_touched f r \<longleftrightarrow> (case rp_span r of None \<Rightarrow> False | Some sp \<Rightarrow> touches (fx_span f) sp)
     \<or> (case rp_fixes r of None \<Rightarrow> False | Some others \<Rightarrow> list_ex (\<lambda>other. touches (fx_span f) (fx_span other)) others)"

definition moved :: "fix_it \<Rightarrow> reported \<Rightarrow> reported" where
  "moved f r = r\<lparr>rp_span := map_option (move f) (rp_span r),
     rp_fixes := map_option (map (\<lambda>other. other\<lparr>fx_span := move f (fx_span other)\<rparr>)) (rp_fixes r)\<rparr>"

definition shift :: "fix_it \<Rightarrow> reported list \<Rightarrow> reported list" where
  "shift f items = concat (map (\<lambda>r. if is_touched f r then [] else [moved f r]) items)"

definition keep :: "fix_it \<Rightarrow> reported list \<Rightarrow> reported list \<Rightarrow> reported list \<times> reported list" where
  "keep f problems notices = (shift f (filter (\<lambda>r. rp_span r \<noteq> None) problems), shift f notices)"

text \<open>The document is edited in units; the cursor goes after the replacement.\<close>

definition replace_units :: "doc \<Rightarrow> nat \<times> nat \<Rightarrow> doc \<Rightarrow> nat list" where
  "replace_units t ft ins = take (fst ft) (units t) @ units ins @ drop (snd ft) (units t)"

definition fixed_units :: "doc \<Rightarrow> fix_it \<Rightarrow> nat list \<times> nat" where
  "fixed_units t f = (replace_units t (unitSpan t (fx_span f)) (fx_text f), fst (unitSpan t (fx_span f)) + length (units (fx_text f)))"

text \<open>The text it stands for, and what a span marks in a text.\<close>

definition fixed_doc :: "doc \<Rightarrow> fix_it \<Rightarrow> doc" where
  "fixed_doc t f = take (nat (sp_start (fx_span f))) t @ fx_text f @ drop (nat (sp_end (fx_span f))) t"

definition marked :: "doc \<Rightarrow> text_span \<Rightarrow> doc" where
  "marked t sp = take (nat (sp_end sp - sp_start sp)) (drop (nat (sp_start sp)) t)"

definition span_ok :: "doc \<Rightarrow> text_span \<Rightarrow> bool" where
  "span_ok t sp \<longleftrightarrow> 0 \<le> sp_start sp \<and> sp_start sp \<le> sp_end sp \<and> sp_end sp \<le> int (length t)"

lemma unitSpan_ok:
  assumes "span_ok t sp"
  shows "unitSpan t sp = (length (units (take (nat (sp_start sp)) t)), length (units (take (nat (sp_end sp)) t)))"
proof -
  have "nat (sp_start sp) + (nat (sp_end sp) - nat (sp_start sp)) = nat (sp_end sp)" using assms by (simp add: span_ok_def) linarith
  then have "take (nat (sp_end sp)) t = take (nat (sp_start sp)) t @ take (nat (sp_end sp) - nat (sp_start sp)) (drop (nat (sp_start sp)) t)"
    by (metis take_add)
  then have "length (units (take (nat (sp_start sp)) t)) \<le> length (units (take (nat (sp_end sp)) t))" by simp
  then show ?thesis by (simp add: unitSpan_def unitOffset_take Let_def max_def)
qed

text \<open>The edit of units is the edit of code points: a fix never cuts a pair.\<close>

lemma fix_replaces_its_span:
  "span_ok t (fx_span f) \<Longrightarrow> fst (fixed_units t f) = units (fixed_doc t f)"
  by (simp add: fixed_units_def replace_units_def unitSpan_ok fixed_doc_def units_drop [symmetric] units_take [symmetric])

lemma moved_marks_same:
  assumes "span_ok t (fx_span f)" "span_ok t sp" "\<not> touches (fx_span f) sp"
  shows "marked (fixed_doc t f) (move f sp) = marked t sp \<and> span_ok (fixed_doc t f) (move f sp)"
proof (cases "sp_end (fx_span f) < sp_start sp")
  case True
  define a b l where "a = nat (sp_start (fx_span f))" and "b = nat (sp_end (fx_span f))" and "l = length (fx_text f)"
  have ab: "a \<le> b" "b \<le> length t" "b < nat (sp_start sp)" "nat (sp_start sp) \<le> length t"
    "int a = sp_start (fx_span f)" "int b = sp_end (fx_span f)" using assms True by (auto simp: a_def b_def span_ok_def)
  have m: "move f sp = \<lparr>sp_start = sp_start sp + (int l - (int b - int a)), sp_end = sp_end sp + (int l - (int b - int a))\<rparr>"
    using True ab by (simp add: move_def l_def Let_def)
  have "nat (sp_start (move f sp)) = a + l + (nat (sp_start sp) - b)" using ab by (simp add: m)
  then have "drop (nat (sp_start (move f sp))) (fixed_doc t f) = drop (nat (sp_start sp)) t"
    using ab by (simp add: fixed_doc_def a_def [symmetric] b_def [symmetric] l_def [symmetric] min_def)
  moreover have "sp_end (move f sp) - sp_start (move f sp) = sp_end sp - sp_start sp" by (simp add: m)
  moreover have "length (fixed_doc t f) = a + l + (length t - b)"
    using ab by (simp add: fixed_doc_def a_def [symmetric] b_def [symmetric] l_def [symmetric])
  then have "span_ok (fixed_doc t f) (move f sp)"
    using assms(2) ab(1,2) True ab(5,6) unfolding m span_ok_def text_span.simps by linarith
  ultimately show ?thesis by (simp add: marked_def)
next
  case False
  then have lt: "sp_end sp < sp_start (fx_span f)" using assms(3) by (simp add: touches_def)
  then have "move f sp = sp" using assms by (auto simp: move_def span_ok_def)
  moreover have "marked (fixed_doc t f) sp = marked t sp"
  proof -
    define p q a where "p = nat (sp_start sp)" and "q = nat (sp_end sp)" and "a = nat (sp_start (fx_span f))"
    have pq: "p \<le> q" "q \<le> a" "a \<le> length t" "nat (sp_end sp - sp_start sp) = q - p"
      using assms(1,2) lt by (auto simp: p_def q_def a_def span_ok_def)
    have "take q (fixed_doc t f) = take q t" using pq by (simp add: fixed_doc_def a_def [symmetric] min_def)
    then have "take (q - p) (drop p (fixed_doc t f)) = take (q - p) (drop p t)" by (metis take_drop pq(1) le_add_diff_inverse2)
    then show ?thesis using pq(4) by (simp add: marked_def p_def [symmetric])
  qed
  moreover have "nat (sp_start (fx_span f)) \<le> length (fixed_doc t f)"
    using assms(1) by (simp add: fixed_doc_def span_ok_def min_def) linarith
  then have "span_ok (fixed_doc t f) sp" using assms(2) lt unfolding span_ok_def by linarith
  ultimately show ?thesis by simp
qed

text \<open>
  Property C11. After a fix-it, the problems and notices left standing mark the text they marked before, and each of them was there with the same message.
\<close>

theorem kept_problems_mark_the_same_text:
  assumes "span_ok t (fx_span f)" "\<And>r sp. r \<in> set (problems @ notices) \<Longrightarrow> rp_span r = Some sp \<Longrightarrow> span_ok t sp"
    and "k \<in> set (fst (keep f problems notices) @ snd (keep f problems notices))" "rp_span k = Some new"
  shows "\<exists>r old. r \<in> set (problems @ notices) \<and> rp_span r = Some old \<and> rp_message r = rp_message k
    \<and> marked (fixed_doc t f) new = marked t old \<and> span_ok (fixed_doc t f) new"
proof -
  obtain r where r: "r \<in> set (problems @ notices)" "\<not> is_touched f r" "k = moved f r"
    using assms(3) by (auto simp: keep_def shift_def split: if_splits)
  obtain old where old: "rp_span r = Some old" "new = move f old" using assms(4) r(3) by (auto simp: moved_def)
  have "\<not> touches (fx_span f) old" using r(2) old(1) by (simp add: is_touched_def)
  then show ?thesis using moved_marks_same [of t f old] assms(1,2) r old by (fastforce simp: moved_def)
qed

definition demo_fix :: fix_it where
  "demo_fix = \<lparr>fx_label = ''count'', fx_span = \<lparr>sp_start = 0, sp_end = 2\<rparr>, fx_text = [99]\<rparr>"

definition demo_problem :: reported where
  "demo_problem = \<lparr>rp_path = ''text'', rp_message = ''Unknown'', rp_hint = None, rp_span = Some \<lparr>sp_start = 3, sp_end = 4\<rparr>, rp_fixes = None\<rparr>"

lemma kept_problems_mark_the_same_text_witness:
  "\<exists>r old. r \<in> set ([demo_problem] @ []) \<and> rp_span r = Some old \<and> rp_message r = rp_message (moved demo_fix demo_problem)
    \<and> marked (fixed_doc [97, 98, 32, 128512] demo_fix) \<lparr>sp_start = 2, sp_end = 3\<rparr> = marked [97, 98, 32, 128512] old
    \<and> span_ok (fixed_doc [97, 98, 32, 128512] demo_fix) \<lparr>sp_start = 2, sp_end = 3\<rparr>"
  by (rule kept_problems_mark_the_same_text)
    (auto simp: demo_fix_def demo_problem_def span_ok_def keep_def shift_def is_touched_def touches_def moved_def move_def)

section \<open>Marks, typing and the value from outside\<close>

record mark =
  mk_from :: nat
  mk_to :: nat
  mk_error :: bool
  mk_message :: string

text \<open>A problem without a span marks everything; a notice without one is listed, not marked.\<close>

definition mark_of :: "doc \<Rightarrow> bool \<Rightarrow> reported \<Rightarrow> mark" where
  "mark_of t err r = (let ft = (case rp_span r of Some sp \<Rightarrow> unitSpan t sp | None \<Rightarrow> (0, length (units t))) in
     \<lparr>mk_from = fst ft, mk_to = snd ft, mk_error = err, mk_message = describe r\<rparr>)"

definition fanqlDiagnostics :: "doc \<Rightarrow> reported list \<Rightarrow> reported list \<Rightarrow> mark list" where
  "fanqlDiagnostics t problems notices =
     map (mark_of t True) problems @ map (mark_of t False) (filter (\<lambda>r. rp_span r \<noteq> None) notices)"

lemma unitSpan_in_text: "fst (unitSpan t sp) \<le> snd (unitSpan t sp) \<and> snd (unitSpan t sp) \<le> length (units t)"
proof -
  have "length (units (take n t)) \<le> length (units t)" for n
    by (metis append_take_drop_id length_append le_add1 units_simps(3))
  then show ?thesis by (simp add: unitSpan_def Let_def unitOffset_take)
qed

text \<open>Whatever spans the server sends, every mark lies in the text.\<close>

lemma marks_lie_in_the_text:
  "list_all (\<lambda>m. mk_from m \<le> mk_to m \<and> mk_to m \<le> length (units t)) (fanqlDiagnostics t problems notices)"
  using unitSpan_in_text [of t] by (auto simp: fanqlDiagnostics_def mark_of_def Let_def list_all_iff split: option.splits)

text \<open>\<open>replace(/\r?\n|\r/g, " ")\<close>; a transaction whose text has a line break is replaced by one without its annotations.\<close>

fun one_line :: "doc \<Rightarrow> doc" where
  "one_line [] = []"
| "one_line [c] = [if c = 10 \<or> c = 13 then 32 else c]"
| "one_line (c # d # cs) = (if c = 13 \<and> d = 10 then 32 # one_line cs else (if c = 10 \<or> c = 13 then 32 else c) # one_line (d # cs))"

lemma one_line_has_no_break: "list_all (\<lambda>c. c \<noteq> 10 \<and> c \<noteq> 13) (one_line t)"
  by (induction t rule: one_line.induct) auto

definition has_break :: "doc \<Rightarrow> bool" where
  "has_break t = list_ex (\<lambda>c. c = 10 \<or> c = 13) t"

lemma one_line_id: "\<not> has_break t \<Longrightarrow> one_line t = t"
  by (induction t rule: one_line.induct) (auto simp: has_break_def)

text \<open>
  What was reported and has not rendered back are the echoes. \<open>ed_reported\<close> are the calls of \<open>onChange\<close>, the flag says that kept problems went with it.
\<close>

record editor =
  ed_doc :: doc
  ed_echoes :: "doc list"
  ed_value :: doc
  ed_reported :: "(doc \<times> bool) list"

definition report :: "doc \<Rightarrow> bool \<Rightarrow> editor \<Rightarrow> editor" where
  "report t kept s = s\<lparr>ed_doc := t, ed_echoes := ed_echoes s @ [t], ed_reported := ed_reported s @ [(t, kept)]\<rparr>"

text \<open>An edit leaves the text \<open>t\<close>; \<open>is_fix\<close> when it applies a fix-it. The first value has no line break, so those of \<open>t\<close> are the edit's.\<close>

definition edited :: "bool \<Rightarrow> doc \<Rightarrow> editor \<Rightarrow> editor" where
  "edited is_fix t s = report (one_line t) (is_fix \<and> \<not> has_break t) s"

fun drop_through :: "'a \<Rightarrow> 'a list \<Rightarrow> 'a list" where
  "drop_through v [] = []"
| "drop_through v (x # xs) = (if x = v then xs else drop_through v xs)"

text \<open>A render with another value runs the effect.\<close>

definition rendered :: "doc \<Rightarrow> editor \<Rightarrow> editor" where
  "rendered v s = (if v = ed_value s then s
     else (let s1 = s\<lparr>ed_value := v\<rparr> in
       if v \<in> set (ed_echoes s) then s1\<lparr>ed_echoes := drop_through v (ed_echoes s)\<rparr>
       else if ed_doc s = v then s1\<lparr>ed_echoes := []\<rparr>
       else if has_break v then report (one_line v) False (s1\<lparr>ed_echoes := []\<rparr>)
       else s1\<lparr>ed_echoes := [], ed_doc := v\<rparr>))"

text \<open>
  The page that owns the value renders what was reported, in order, but may skip texts and be late: \<open>owed\<close> are the texts it has
  not rendered or passed over yet.
\<close>

inductive typings :: "editor \<times> doc list \<Rightarrow> doc list \<Rightarrow> editor \<times> doc list \<Rightarrow> bool" where
  no_typing: "typings x [] x"
| type_text: "typings x ts (s, owed) \<Longrightarrow> typings x (ts @ [one_line t]) (edited is_fix t s, owed @ [one_line t])"
| render_late: "typings x ts (s, skipped @ v # owed) \<Longrightarrow> typings x ts (rendered v s, owed)"

lemma drop_through_app: "\<exists>ps. drop_through v (zs @ v # ys) = ps @ ys"
  by (induction zs) auto

lemma drop_through_suffix: "suffix (zs @ v # owed) xs \<Longrightarrow> suffix owed (drop_through v xs)"
  using drop_through_app [of v _ owed] by (auto simp: suffix_def append_assoc [symmetric] simp del: append_assoc)

lemma render_of_echo:
  assumes "suffix (skipped @ v # owed) (ed_echoes s)"
  shows "ed_doc (rendered v s) = ed_doc s" "ed_reported (rendered v s) = ed_reported s" "suffix owed (ed_echoes (rendered v s))"
proof -
  have v: "v \<in> set (ed_echoes s)" using assms by (auto simp: suffix_def)
  then show "ed_doc (rendered v s) = ed_doc s" "ed_reported (rendered v s) = ed_reported s" by (simp_all add: rendered_def Let_def)
  show "suffix owed (ed_echoes (rendered v s))"
    using v assms drop_through_suffix [OF assms] by (auto simp: rendered_def suffix_def)
qed

text \<open>
  Property C13. Typing is not rewound: however late the page renders what was typed and however much of it it skips, the document is the text typed last and
  every text is reported once.
\<close>

theorem typing_is_not_rewound:
  assumes "typings (s, []) ts (s', owed)"
  shows "ed_doc s' = last (ed_doc s # ts) \<and> map fst (ed_reported s') = map fst (ed_reported s) @ ts"
proof -
  have "ed_doc (fst y) = last (ed_doc (fst x) # ts) \<and> map fst (ed_reported (fst y)) = map fst (ed_reported (fst x)) @ ts \<and> suffix (snd y) (ed_echoes (fst y))"
    if "typings x ts y" "snd x = []" for x ts y
    using that
  proof (induction rule: typings.induct)
    case (type_text x ts s owed t is_fix)
    then show ?case by (auto simp: edited_def report_def suffix_def)
  next
    case (render_late x ts s skipped v owed)
    then show ?case using render_of_echo [of skipped v owed s] by simp
  qed simp
  from this [OF assms] show ?thesis by simp
qed

definition demo_editor :: editor where
  "demo_editor = \<lparr>ed_doc = [97], ed_echoes = [], ed_value = [97], ed_reported = []\<rparr>"

lemma typing_is_not_rewound_witness:
  "\<exists>s'. typings (demo_editor, []) [[97, 98], [97, 98, 99]] (s', [[97, 98, 99]]) \<and> ed_value s' = [97, 98]
    \<and> ed_doc s' = [97, 98, 99] \<and> map fst (ed_reported s') = [[97, 98], [97, 98, 99]]"
proof -
  let ?s1 = "edited False [97, 98] demo_editor"
  let ?s2 = "edited False [97, 98, 99] ?s1"
  have "typings (demo_editor, []) [[97, 98]] (?s1, [[97, 98]])"
    using typings.type_text [OF typings.no_typing, of demo_editor "[]" "[97, 98]" False] by (simp add: demo_editor_def)
  then have "typings (demo_editor, []) ([[97, 98]] @ [one_line [97, 98, 99]]) (?s2, [[97, 98]] @ [one_line [97, 98, 99]])"
    by (rule typings.type_text)
  then have r: "typings (demo_editor, []) [[97, 98], [97, 98, 99]] (rendered [97, 98] ?s2, [[97, 98, 99]])"
    using typings.render_late [of "(demo_editor, [])" _ ?s2 "[]" "[97, 98]" "[[97, 98, 99]]"] by simp
  have "ed_value (rendered [97, 98] ?s2) = [97, 98]" by (simp add: rendered_def edited_def report_def demo_editor_def)
  moreover have "ed_doc demo_editor = [97]" "ed_reported demo_editor = []" by (simp_all add: demo_editor_def)
  ultimately show ?thesis using r typing_is_not_rewound [OF r] by auto
qed

text \<open>A value from outside replaces the document, unless a text that was typed and never rendered is equal to it: then it is taken for an echo.\<close>

lemma outside_value_is_shown:
  "v \<notin> set (ed_echoes s) \<Longrightarrow> v \<noteq> ed_value s \<Longrightarrow> \<not> has_break v \<Longrightarrow> ed_doc (rendered v s) = v"
  by (simp add: rendered_def Let_def)

lemma a_skipped_text_hides_an_outside_value:
  "ed_doc (rendered [97, 98] (edited False [97] (edited False [97, 98] demo_editor))) = [97]"
  by (simp add: rendered_def edited_def report_def demo_editor_def)

section \<open>Suggestions\<close>

text \<open>A request carries its number; the library may abort it, a later request aborts it, and so does closing the editor.\<close>

record suggestions =
  sg_next :: nat
  sg_pending :: "nat option"
  sg_aborted :: "nat list"
  sg_failures :: nat
  sg_note :: "string option"
  sg_shown :: "nat list"

datatype suggestion_event = Ask | LibraryAborts nat | Unmounts
  | Completed nat bool "string option" bool
  | CompleteFailed nat

definition unavailable :: string where
  "unavailable = ''Field suggestions are unavailable: the telemetry schema could not be read.''"

definition abort_pending :: "suggestions \<Rightarrow> suggestions" where
  "abort_pending s = (case sg_pending s of Some j \<Rightarrow> s\<lparr>sg_aborted := j # sg_aborted s\<rparr> | None \<Rightarrow> s)"

definition suggest :: "suggestions \<Rightarrow> suggestion_event \<Rightarrow> suggestions" where
  "suggest s e = (case e of
      Ask \<Rightarrow> (abort_pending s)\<lparr>sg_pending := Some (sg_next s), sg_next := Suc (sg_next s), sg_note := None\<rparr>
    | LibraryAborts j \<Rightarrow> s\<lparr>sg_aborted := j # sg_aborted s\<rparr>
    | Unmounts \<Rightarrow> abort_pending s
    | Completed j schema_error notice any \<Rightarrow>
        if j \<in> set (sg_aborted s) then s
        else (let fails = (if schema_error then sg_failures s + 1 else 0) in
          s\<lparr>sg_failures := fails, sg_note := (if 2 \<le> fails then Some unavailable else notice),
            sg_shown := (if any then sg_shown s @ [j] else sg_shown s)\<rparr>)
    | CompleteFailed j \<Rightarrow> s)"

definition new_suggestions :: suggestions where
  "new_suggestions = \<lparr>sg_next = 0, sg_pending = None, sg_aborted = [], sg_failures = 0, sg_note = None, sg_shown = []\<rparr>"

definition superseded_ok :: "suggestions \<Rightarrow> bool" where
  "superseded_ok s \<longleftrightarrow> (\<forall>j < sg_next s. sg_pending s \<noteq> Some j \<longrightarrow> j \<in> set (sg_aborted s)) \<and> (case sg_pending s of None \<Rightarrow> sg_next s = 0 | Some j \<Rightarrow> j < sg_next s)"

lemma suggest_superseded: "superseded_ok s \<Longrightarrow> superseded_ok (suggest s e)"
  by (cases e) (auto simp: superseded_ok_def suggest_def abort_pending_def Let_def less_Suc_eq split: option.splits)

text \<open>Only the latest request answers: whatever an earlier one brings, nothing changes.\<close>

theorem only_the_latest_suggestions_answer:
  assumes "s = foldl suggest new_suggestions es" "j < sg_next s" "sg_pending s \<noteq> Some j"
  shows "suggest s (Completed j schema_error notice any) = s"
proof -
  have "superseded_ok (foldl suggest t es)" if "superseded_ok t" for t
    using that by (induction es arbitrary: t) (simp_all add: suggest_superseded)
  moreover have "superseded_ok new_suggestions" by (simp add: superseded_ok_def new_suggestions_def)
  ultimately have "superseded_ok s" by (simp add: assms(1))
  then show ?thesis using assms(2,3) by (auto simp: superseded_ok_def suggest_def)
qed

lemma only_the_latest_suggestions_answer_witness:
  "sg_note (suggest (foldl suggest new_suggestions [Ask, Ask]) (Completed 0 False (Some ''old'') True)) = None"
proof -
  have "suggest (foldl suggest new_suggestions [Ask, Ask]) (Completed 0 False (Some ''old'') True) = foldl suggest new_suggestions [Ask, Ask]"
    by (rule only_the_latest_suggestions_answer [of _ "[Ask, Ask]"]) (simp_all add: suggest_def abort_pending_def new_suggestions_def)
  then show ?thesis by (simp add: suggest_def abort_pending_def new_suggestions_def)
qed

text \<open>One unreadable schema is forgiven, two in a row are told.\<close>

lemma schema_told_after_two:
  assumes "j \<notin> set (sg_aborted s)" "k \<notin> set (sg_aborted s)" "sg_failures s = 0"
  shows "sg_note (suggest s (Completed j True n any)) = n \<and> sg_note (suggest (suggest s (Completed j True n any)) (Completed k True n' any')) = Some unavailable"
  using assms by (simp add: suggest_def Let_def)

section \<open>Keys\<close>

datatype editor_key = ModEnter | TabKey | EnterKey | MoveKey

datatype key_action = Runs | Accepts | Passes

text \<open>\<open>active\<close>: the list of suggestions is open; \<open>nav\<close>: the reader moved in it. The result also says whether the reader moved.\<close>

definition on_editor_key :: "editor_key \<Rightarrow> bool \<Rightarrow> bool \<Rightarrow> key_action \<times> bool" where
  "on_editor_key k active nav = (case k of
      ModEnter \<Rightarrow> (Runs, nav)
    | TabKey \<Rightarrow> (if active then Accepts else Passes, nav)
    | EnterKey \<Rightarrow> (if nav \<and> active then Accepts else Runs, nav)
    | MoveKey \<Rightarrow> (Passes, nav \<or> active))"

definition after_update :: "bool \<Rightarrow> bool \<Rightarrow> bool \<Rightarrow> bool" where
  "after_update doc_changed has_status nav = (nav \<and> \<not> doc_changed \<and> has_status)"

lemma enter_runs_unless_moved: "fst (on_editor_key EnterKey active False) = Runs"
  by (simp add: on_editor_key_def)

section \<open>The SQL editor\<close>

text \<open>A text is its lines; \<open>line_from\<close> is where a line (from zero) begins, in units, one for each line break.\<close>

definition line_from :: "doc list \<Rightarrow> nat \<Rightarrow> nat" where
  "line_from ls i = sum_list (map (\<lambda>l. length (units l) + 1) (take i ls))"

definition sql_length :: "doc list \<Rightarrow> nat" where
  "sql_length ls = line_from ls (length ls - 1) + length (units (last ls))"

definition sql_offset :: "doc list \<Rightarrow> int \<times> int \<Rightarrow> int" where
  "sql_offset ls pos = (let i = nat (max 1 (min (int (length ls)) (fst pos + 1)) - 1) in
     int (line_from ls i) + max 0 (min (int (length (units (ls ! i)))) (snd pos)))"

definition sql_mark :: "doc list \<Rightarrow> reported \<times> ((int \<times> int) \<times> (int \<times> int)) option \<Rightarrow> int \<times> int \<times> string" where
  "sql_mark ls pr = (case snd pr of
      None \<Rightarrow> (0, int (sql_length ls), describe (fst pr))
    | Some (a, b) \<Rightarrow> (sql_offset ls a, max (sql_offset ls a) (sql_offset ls b), describe (fst pr)))"

definition sqlDiagnostics :: "doc list \<Rightarrow> (reported \<times> ((int \<times> int) \<times> (int \<times> int)) option) list \<Rightarrow> (int \<times> int \<times> string) list" where
  "sqlDiagnostics ls problems = map (sql_mark ls) problems"

lemma line_from_mono: "i < length ls \<Longrightarrow> line_from ls i + length (units (ls ! i)) \<le> sql_length ls"
proof (induction ls arbitrary: i)
  case (Cons l ls)
  show ?case
  proof (cases "ls = []")
    case False
    then obtain m where m: "length ls = Suc m" by (cases ls) auto
    have "sql_length (l # ls) = length (units l) + 1 + sql_length ls" using False m by (simp add: sql_length_def line_from_def)
    then show ?thesis using Cons.IH [of "i - 1"] Cons.prems by (cases i) (auto simp: line_from_def)
  qed (use Cons.prems in \<open>simp add: sql_length_def line_from_def\<close>)
qed simp

lemma sql_offset_in_text:
  assumes "ls \<noteq> []"
  shows "0 \<le> sql_offset ls pos \<and> sql_offset ls pos \<le> int (sql_length ls)"
proof -
  define i where "i = nat (max 1 (min (int (length ls)) (fst pos + 1)) - 1)"
  have n: "0 < length ls" using assms by simp
  have i: "i < length ls" unfolding i_def using n by (simp add: max_def min_def nat_less_iff)
  have "max 0 (min (int (length (units (ls ! i)))) (snd pos)) \<le> int (length (units (ls ! i)))" by simp
  then show ?thesis using line_from_mono [OF i] by (simp add: sql_offset_def i_def [symmetric] Let_def)
qed

text \<open>Whatever lines and characters a problem names, its mark lies in the statement.\<close>

theorem sql_marks_lie_in_the_statement:
  assumes "ls \<noteq> []"
  shows "list_all (\<lambda>(a, b, msg). 0 \<le> a \<and> a \<le> b \<and> b \<le> int (sql_length ls)) (sqlDiagnostics ls problems)"
  using sql_offset_in_text [OF assms]
  by (auto simp: sqlDiagnostics_def sql_mark_def list_all_iff split: option.splits)

lemma sql_marks_lie_in_the_statement_witness:
  "list_all (\<lambda>(a, b, msg). 0 \<le> a \<and> a \<le> b \<and> b \<le> 5) (sqlDiagnostics [[97, 98], [99, 100]] [(demo_problem, Some ((1, -4), (8, 300)))])
    \<and> sqlDiagnostics [[97, 98], [99, 100]] [(demo_problem, Some ((1, -4), (8, 300)))] = [(3, 5, ''Unknown'')]"
proof -
  have "sql_offset [[97, 98], [99, 100]] (1, -4) = 3" "sql_offset [[97, 98], [99, 100]] (8, 300) = 5"
    by (simp_all add: sql_offset_def line_from_def units_of_def)
  then have "sqlDiagnostics [[97, 98], [99, 100]] [(demo_problem, Some ((1, -4), (8, 300)))] = [(3, 5, ''Unknown'')]"
    by (simp add: sqlDiagnostics_def sql_mark_def describe_def demo_problem_def)
  moreover have "sql_length [[97, 98], [99, 100]] = 5" by (simp add: sql_length_def line_from_def units_of_def)
  ultimately show ?thesis using sql_marks_lie_in_the_statement [of "[[97, 98], [99, 100]]" "[(demo_problem, Some ((1, -4), (8, 300)))]"]
    by simp
qed

text \<open>Relations of the same name as a signal replace it at its place.\<close>

record schema_column =
  sc_name :: string
  sc_type :: string
  sc_description :: "string option"
  sc_sql_type :: "string option"

definition completionSchema :: "(string \<times> schema_column list) list \<Rightarrow> (string \<times> schema_column list) list
    \<Rightarrow> (string \<times> (string \<times> string \<times> string option) list) list" where
  "completionSchema signals relations = map (\<lambda>(name, cols). (name, map (\<lambda>c. (sc_name c, nullish (sc_sql_type c) (sc_type c), sc_description c)) cols))
     (fold (\<lambda>(k, v) m. AList.update k v m) relations (fold (\<lambda>(k, v) m. AList.update k v m) signals []))"

datatype sql_key = SqlModEnter | SqlEscape

datatype sql_action = RunsSql | LeavesSql | NothingSql

definition on_sql_key :: "bool \<Rightarrow> sql_key \<Rightarrow> sql_action" where
  "on_sql_key disabled k = (case k of SqlModEnter \<Rightarrow> if disabled then NothingSql else RunsSql | SqlEscape \<Rightarrow> LeavesSql)"

text \<open>The SQL editor reports every change of its document, one from outside too.\<close>

definition sql_value :: "doc \<Rightarrow> doc \<times> doc list \<Rightarrow> doc \<times> doc list" where
  "sql_value v s = (if fst s = v then s else (v, snd s @ [v]))"

end
