(* ===== verification/Map_View.thy ===== *)
theory Map_View
  imports Map_Layout
begin

text \<open>
  How a service map is looked at (\<open>ui/host/src/dashboards/viz/service-map.tsx\<close>): the wheel zooms about the pointer, a drag moves the map and
  is no click, the button shows all of it and goes back, and a layout that a worker brings late is dropped. \<open>vp\<close> is the width and height of the viewport.
\<close>

section \<open>The view\<close>

record map_view =
  mv_x :: real
  mv_y :: real
  mv_zoom :: real

definition fitted_view :: map_view where
  "fitted_view = \<lparr>mv_x = 0, mv_y = 0, mv_zoom = 1\<rparr>"

definition readable :: "fitted_map \<Rightarrow> map_view" where
  "readable g = \<lparr>mv_x = fst (fm_view g), mv_y = snd (fm_view g), mv_zoom = 1\<rparr>"

definition max_zoom :: "fitted_map \<Rightarrow> real" where
  "max_zoom g = max 12 (1 / fm_scale g)"

definition wheel_zoom :: "fitted_map \<Rightarrow> real \<Rightarrow> real \<Rightarrow> real \<Rightarrow> map_view \<Rightarrow> map_view" where
  "wheel_zoom g delta x y v = (let zoom = clamp (mv_zoom v * exp (- delta * (2 / 1000))) 1 (max_zoom g) in
     if zoom = 1 then readable g
     else (let ratio = zoom / mv_zoom v in
       \<lparr>mv_x = x - (x - mv_x v) * ratio, mv_y = y - (y - mv_y v) * ratio, mv_zoom = zoom\<rparr>))"

definition needs_overview :: "fitted_map \<Rightarrow> real \<times> real \<Rightarrow> bool" where
  "needs_overview g vp = (fst vp < fm_width g \<or> snd vp < fm_height g)"

definition overview :: "fitted_map \<Rightarrow> real \<times> real \<Rightarrow> map_view" where
  "overview g vp = (let zoom = min (min (fst vp / fm_width g) (snd vp / fm_height g)) 1 in
     \<lparr>mv_x = (fst vp - fm_width g * zoom) / 2, mv_y = (snd vp - fm_height g * zoom) / 2, mv_zoom = zoom\<rparr>)"

definition fit_view :: "fitted_map \<Rightarrow> real \<times> real \<Rightarrow> map_view \<Rightarrow> map_view" where
  "fit_view g vp v = (if mv_zoom v < 1 \<or> \<not> needs_overview g vp then readable g else overview g vp)"

text \<open>Where a point of the map is shown.\<close>

definition shown_at :: "map_view \<Rightarrow> real \<times> real \<Rightarrow> real \<times> real" where
  "shown_at v p = (mv_x v + mv_zoom v * fst p, mv_y v + mv_zoom v * snd p)"

section \<open>What lies outside the viewport\<close>

text \<open>\<open>lw\<close> is the width of the label of the isolated services.\<close>

definition content_xs :: "fitted_map \<Rightarrow> real \<Rightarrow> real \<Rightarrow> real list" where
  "content_xs g lw text_zoom = concat (map (\<lambda>b. [bx_x b, bx_x b + bx_width b]) (fm_nodes g)) @ map fst (concat (map snd (fm_edges g)))
     @ (if fm_label g = None then [] else [(fm_width g - lw / text_zoom) / 2, (fm_width g + lw / text_zoom) / 2])"

definition content_ys :: "fitted_map \<Rightarrow> real \<Rightarrow> real list" where
  "content_ys g text_zoom = concat (map (\<lambda>b. [bx_y b, bx_y b + bx_height b]) (fm_nodes g)) @ map snd (concat (map snd (fm_edges g)))
     @ (case fm_label g of None \<Rightarrow> [] | Some l \<Rightarrow> [snd l, snd l + (typeScale_micro * serviceMapLineHeight + 2) / text_zoom])"

definition overflow_edges :: "fitted_map \<Rightarrow> real \<Rightarrow> real \<times> real \<Rightarrow> map_view \<Rightarrow> string list" where
  "overflow_edges g lw vp v = (let z = max 1 (mv_zoom v); xs = content_xs g lw z; ys = content_ys g z in
     (if xs \<noteq> [] \<and> Min (set xs) * mv_zoom v + mv_x v < 0 then [''left''] else [])
     @ (if xs \<noteq> [] \<and> fst vp < Max (set xs) * mv_zoom v + mv_x v then [''right''] else [])
     @ (if ys \<noteq> [] \<and> Min (set ys) * mv_zoom v + mv_y v < 0 then [''top''] else [])
     @ (if ys \<noteq> [] \<and> snd vp < Max (set ys) * mv_zoom v + mv_y v then [''bottom''] else []))"

definition can_fit :: "fitted_map \<Rightarrow> real \<Rightarrow> real \<times> real \<Rightarrow> map_view \<Rightarrow> bool" where
  "can_fit g lw vp v = (overflow_edges g lw vp v \<noteq> [] \<or> v \<noteq> readable g)"

section \<open>Pointer, wheel and keys\<close>

record map_drag =
  md_x :: real
  md_y :: real
  md_initial :: map_view
  md_moved :: bool

record map_state =
  ms_view :: map_view
  ms_drag :: "map_drag option"
  ms_suppress :: bool
  ms_selected :: "string list"

datatype map_event = PointerDown nat real real | PointerMove real real | PointerUp | PointerCancel
  | Wheel real real real | FitPressed | CardClicked string | CardEntered string | Refitted

definition select_card :: "string \<Rightarrow> map_state \<Rightarrow> map_state" where
  "select_card service s = (if ms_suppress s then s\<lparr>ms_suppress := False\<rparr> else s\<lparr>ms_selected := ms_selected s @ [service]\<rparr>)"

text \<open>\<open>hypot\<close>: a pointer that moved by more than three pixels drags. \<open>ready\<close> says that a layout is shown and none failed.\<close>

definition drag_to :: "real \<Rightarrow> real \<Rightarrow> map_state \<Rightarrow> map_state" where
  "drag_to x y s = (case ms_drag s of None \<Rightarrow> s
    | Some d \<Rightarrow> (let dx = x - md_x d; dy = y - md_y d; moved = md_moved d \<or> 9 < dx * dx + dy * dy; s1 = s\<lparr>ms_drag := Some (d\<lparr>md_moved := moved\<rparr>)\<rparr> in
        if moved then s1\<lparr>ms_view := (md_initial d)\<lparr>mv_x := mv_x (md_initial d) + dx, mv_y := mv_y (md_initial d) + dy\<rparr>\<rparr> else s1))"

definition map_step :: "fitted_map \<Rightarrow> real \<times> real \<Rightarrow> bool \<Rightarrow> map_state \<Rightarrow> map_event \<Rightarrow> map_state" where
  "map_step g vp ready s e = (case e of
      PointerDown button x y \<Rightarrow> if button \<noteq> 0 then s
        else s\<lparr>ms_suppress := False, ms_drag := Some \<lparr>md_x = x, md_y = y, md_initial = ms_view s, md_moved = False\<rparr>\<rparr>
    | PointerMove x y \<Rightarrow> drag_to x y s
    | PointerUp \<Rightarrow> s\<lparr>ms_suppress := (case ms_drag s of Some d \<Rightarrow> md_moved d | None \<Rightarrow> False), ms_drag := None\<rparr>
    | PointerCancel \<Rightarrow> s\<lparr>ms_drag := None, ms_suppress := False\<rparr>
    | Wheel delta x y \<Rightarrow> if \<not> ready \<or> delta = 0 then s else s\<lparr>ms_view := wheel_zoom g delta x y (ms_view s)\<rparr>
    | FitPressed \<Rightarrow> s\<lparr>ms_view := fit_view g vp (ms_view s)\<rparr>
    | CardClicked service \<Rightarrow> select_card service s
    | CardEntered service \<Rightarrow> select_card service (s\<lparr>ms_suppress := False\<rparr>)
    | Refitted \<Rightarrow> s\<lparr>ms_view := readable g\<rparr>)"

definition new_map :: map_state where
  "new_map = \<lparr>ms_view = fitted_view, ms_drag = None, ms_suppress = False, ms_selected = []\<rparr>"

section \<open>Lemmas\<close>

lemma max_zoom_ge: "12 \<le> max_zoom g"
  by (simp add: max_zoom_def)

lemma clamp_zoom: "1 \<le> clamp z 1 (max_zoom g) \<and> clamp z 1 (max_zoom g) \<le> max_zoom g"
  using max_zoom_ge [of g] by (simp add: clamp_def)

text \<open>The point under the pointer stays under it.\<close>

lemma wheel_zooms_about_the_pointer:
  assumes "0 < mv_zoom v" "mv_zoom (wheel_zoom g delta x y v) \<noteq> 1" "shown_at v p = (x, y)"
  shows "shown_at (wheel_zoom g delta x y v) p = (x, y)"
proof -
  define zoom where "zoom = clamp (mv_zoom v * exp (- delta * (2 / 1000))) 1 (max_zoom g)"
  have z: "zoom \<noteq> 1" using assms(2) by (auto simp: wheel_zoom_def readable_def Let_def zoom_def split: if_splits)
  then have w: "wheel_zoom g delta x y v = \<lparr>mv_x = x - (x - mv_x v) * (zoom / mv_zoom v), mv_y = y - (y - mv_y v) * (zoom / mv_zoom v), mv_zoom = zoom\<rparr>"
    by (simp add: wheel_zoom_def Let_def zoom_def)
  have "x - mv_x v = mv_zoom v * fst p" "y - mv_y v = mv_zoom v * snd p" using assms(3) by (auto simp: shown_at_def)
  then show ?thesis using assms(1) by (simp add: w shown_at_def)
qed

definition zoom_ok :: "fitted_map \<Rightarrow> map_view \<Rightarrow> bool" where
  "zoom_ok g v \<longleftrightarrow> 0 < mv_zoom v \<and> mv_zoom v \<le> max_zoom g"

definition map_ok :: "fitted_map \<Rightarrow> map_state \<Rightarrow> bool" where
  "map_ok g s \<longleftrightarrow> zoom_ok g (ms_view s) \<and> (case ms_drag s of Some d \<Rightarrow> zoom_ok g (md_initial d) | None \<Rightarrow> True)"

lemma wheel_zoom_ok: "zoom_ok g (wheel_zoom g delta x y v)"
  using clamp_zoom [of "mv_zoom v * exp (- delta * (2 / 1000))" g] max_zoom_ge [of g]
  by (simp add: wheel_zoom_def zoom_ok_def readable_def Let_def)

lemma readable_ok: "zoom_ok g (readable g)"
  using max_zoom_ge [of g] by (simp add: zoom_ok_def readable_def)

lemma fit_view_ok:
  assumes "0 < fst vp" "0 < snd vp" "0 < fm_width g" "0 < fm_height g"
  shows "zoom_ok g (fit_view g vp v)"
  using assms max_zoom_ge [of g] by (auto simp: fit_view_def overview_def zoom_ok_def readable_def Let_def min_le_iff_disj)

lemma zoom_ok_moved [simp]: "zoom_ok g (v\<lparr>mv_x := x, mv_y := y\<rparr>) = zoom_ok g v"
  by (simp add: zoom_ok_def)

text \<open>
  However the map is dragged and zoomed, its zoom stays positive and at most the largest one, which makes a card at least as large as its layout.
\<close>

lemma map_step_ok:
  assumes "0 < fst vp" "0 < snd vp" "0 < fm_width g" "0 < fm_height g" "map_ok g s"
  shows "map_ok g (map_step g vp ready s e)"
  using assms fit_view_ok [OF assms(1-4)]
  by (cases e) (auto simp: map_step_def map_ok_def drag_to_def select_card_def Let_def wheel_zoom_ok readable_ok split: option.splits)

theorem map_zoom_stays_in_bounds:
  assumes "0 < fst vp" "0 < snd vp" "0 < fm_width g" "0 < fm_height g"
  shows "zoom_ok g (ms_view (foldl (map_step g vp ready) new_map es))"
proof -
  have "map_ok g (foldl (map_step g vp ready) s es)" if "map_ok g s" for s
    using that by (induction es arbitrary: s) (simp_all add: map_step_ok [OF assms])
  moreover have "map_ok g new_map" using max_zoom_ge [of g] by (simp add: map_ok_def new_map_def zoom_ok_def fitted_view_def)
  ultimately show ?thesis by (simp add: map_ok_def)
qed

definition demo_map :: fitted_map where
  "demo_map = \<lparr>fm_nodes = [], fm_edges = [], fm_scale = 1, fm_compact = False, fm_view = (5, 0), fm_width = 400, fm_height = 100, fm_label = None\<rparr>"

lemma map_zoom_stays_in_bounds_witness:
  "zoom_ok demo_map (ms_view (foldl (map_step demo_map (200, 100) True) new_map [FitPressed, Wheel (-3) 10 10, FitPressed]))"
  by (rule map_zoom_stays_in_bounds) (simp_all add: demo_map_def)

text \<open>The overview shows every point of the map inside the viewport.\<close>

lemma overview_shows_all:
  assumes "0 < fst vp" "0 < snd vp" "0 < fm_width g" "0 < fm_height g" "needs_overview g vp" "1 \<le> mv_zoom v"
    and "0 \<le> fst p" "fst p \<le> fm_width g" "0 \<le> snd p" "snd p \<le> fm_height g"
  shows "let q = shown_at (fit_view g vp v) p in 0 \<le> fst q \<and> fst q \<le> fst vp \<and> 0 \<le> snd q \<and> snd q \<le> snd vp"
proof -
  define z where "z = min (min (fst vp / fm_width g) (snd vp / fm_height g)) 1"
  have z: "0 < z" "z \<le> fst vp / fm_width g" "z \<le> snd vp / fm_height g" using assms(1-4) by (simp_all add: z_def)
  then have zw: "z * fm_width g \<le> fst vp" "z * fm_height g \<le> snd vp" using assms(3,4) by (simp_all add: pos_le_divide_eq)
  have zp: "z * fst p \<le> z * fm_width g" "z * snd p \<le> z * fm_height g" "0 \<le> z * fst p" "0 \<le> z * snd p"
    using assms(7-10) z(1) by simp_all
  have "fit_view g vp v = \<lparr>mv_x = (fst vp - fm_width g * z) / 2, mv_y = (snd vp - fm_height g * z) / 2, mv_zoom = z\<rparr>"
    using assms(5,6) by (simp add: fit_view_def overview_def Let_def z_def)
  then show ?thesis using zw zp by (simp add: shown_at_def Let_def field_simps)
qed

text \<open>A drag is not a click: after the pointer moved, the release of the button opens no card, and the next click does again.\<close>

lemma a_drag_opens_nothing:
  assumes "ms_drag s = Some d" "md_moved d"
  shows "ms_selected (map_step g vp ready (map_step g vp ready s PointerUp) (CardClicked c)) = ms_selected s
    \<and> ms_selected (map_step g vp ready (map_step g vp ready (map_step g vp ready s PointerUp) (CardClicked c)) (CardClicked c')) = ms_selected s @ [c']"
  using assms by (simp add: map_step_def select_card_def)

section \<open>The layout\<close>

text \<open>
  At most sixty nodes are laid out at once, more by a worker. Each run of the effect has a number, and its worker answers only while it is the
  current one and has not been refused. A layout is kept with the structure it was made for.
\<close>

record ('k, 'l) laying =
  ly_cached :: "('k \<times> 'l) option"
  ly_error :: bool
  ly_run :: nat
  ly_key :: "'k option"
  ly_worker :: "nat option"

datatype ('k, 'l) laying_event = Structure 'k bool "'l" bool | WorkerAnswers nat 'l | WorkerFails nat | Gone

text \<open>\<open>Structure k few l starts\<close>: the effect runs for the structure \<open>k\<close>, whose model of at most sixty nodes, when \<open>few\<close>, is laid out as \<open>l\<close>; \<open>starts\<close> when the worker could be started.\<close>

definition lay_out :: "('k, 'l) laying \<Rightarrow> ('k, 'l) laying_event \<Rightarrow> ('k, 'l) laying" where
  "lay_out s e = (case e of
      Structure k few l starts \<Rightarrow>
        (let s1 = s\<lparr>ly_error := False, ly_run := Suc (ly_run s), ly_key := Some k, ly_worker := None\<rparr> in
         if few then s1\<lparr>ly_cached := Some (k, l)\<rparr>
         else if \<not> starts then s1\<lparr>ly_error := True\<rparr>
         else s1\<lparr>ly_worker := Some (ly_run s1)\<rparr>)
    | WorkerAnswers j l \<Rightarrow> (if ly_worker s = Some j then (case ly_key s of Some k \<Rightarrow> s\<lparr>ly_cached := Some (k, l)\<rparr> | None \<Rightarrow> s) else s)
    | WorkerFails j \<Rightarrow> if ly_worker s = Some j then s\<lparr>ly_error := True\<rparr> else s
    | Gone \<Rightarrow> s\<lparr>ly_worker := None\<rparr>)"

definition laying_ok :: "('k, 'l) laying \<Rightarrow> bool" where
  "laying_ok s \<longleftrightarrow> (\<forall>j. ly_worker s = Some j \<longrightarrow> j = ly_run s)"

lemma lay_out_ok: "laying_ok s \<Longrightarrow> laying_ok (lay_out s e)"
  by (cases e) (auto simp: laying_ok_def lay_out_def Let_def split: option.splits)

text \<open>A worker of an earlier structure changes nothing, whenever it answers or fails.\<close>

lemma late_layouts_are_dropped:
  assumes "laying_ok s" "j < ly_run s"
  shows "lay_out s (WorkerAnswers j l) = s \<and> lay_out s (WorkerFails j) = s"
  using assms by (auto simp: laying_ok_def lay_out_def)

text \<open>The view goes back to the readable one when the layout is another's, or when it was never moved from the last one.\<close>

definition refits :: "'k option \<Rightarrow> 'k option \<Rightarrow> map_view \<Rightarrow> map_view \<Rightarrow> bool" where
  "refits cached_key fitted_key v previous \<longleftrightarrow> cached_key \<noteq> None
     \<and> (cached_key \<noteq> fitted_key \<or> mv_zoom v = 1 \<and> mv_x v = mv_x previous \<and> mv_y v = mv_y previous)"

lemma a_moved_view_is_kept:
  "v \<noteq> readable g \<Longrightarrow> \<not> refits (Some k) (Some k) v (readable g)"
  by (cases v) (auto simp: refits_def readable_def)

end
