(* ===== verification/Site_Pages.thy ===== *)
theory Site_Pages
  imports Js_Scan
begin

text \<open>
  The site's pages for agents and crawlers. \<open>site/src/lib/markdown.ts\<close>: the lines of a page become plain Markdown, a directive a quote
  and fenced code kept as it is (the component tags, which are removed afterwards, are left out). \<open>site/scripts/check-canonical.mjs\<close>: which pages the
  build refuses; the tags of a page and the addresses of the sitemap are read by the caller. White space in a pattern is ASCII.
\<close>

section \<open>Lines\<close>

definition blank_char :: "char \<Rightarrow> bool" where
  "blank_char c \<longleftrightarrow> 9 \<le> byte c \<and> byte c \<le> 13 \<or> byte c = 32"

definition left_trim :: "string \<Rightarrow> string" where
  "left_trim l = dropWhile blank_char l"

definition right_trim :: "string \<Rightarrow> string" where
  "right_trim l = rev (dropWhile blank_char (rev l))"

definition line_trim :: "string \<Rightarrow> string" where
  "line_trim l = right_trim (left_trim l)"

definition is_fence :: "string \<Rightarrow> bool" where
  "is_fence l = starts_with (left_trim l) ''```''"

definition quote_char :: "char \<Rightarrow> bool" where
  "quote_char c \<longleftrightarrow> byte c = 34 \<or> byte c = 39"

text \<open>\<open>\sfrom\s+["'].+["'];?\s*$\<close>\<close>

definition import_tail :: "string \<Rightarrow> bool" where
  "import_tail u = (case u of
      [] \<Rightarrow> False
    | w # v \<Rightarrow> blank_char w \<and> starts_with v ''from'' \<and> drop 4 v \<noteq> [] \<and> blank_char (hd (drop 4 v))
        \<and> (let b = right_trim (left_trim (drop 4 v)); e = (if b \<noteq> [] \<and> last b = CHR '';'' then butlast b else b) in
            2 < length e \<and> quote_char (hd e) \<and> quote_char (last e)))"

text \<open>\<open>/^import\s.+\sfrom\s+["'].+["'];?\s*$/\<close>\<close>

definition is_import :: "string \<Rightarrow> bool" where
  "is_import l \<longleftrightarrow> starts_with l ''import'' \<and> drop 6 l \<noteq> [] \<and> blank_char (hd (drop 6 l))
     \<and> list_ex (\<lambda>i. import_tail (drop i l)) [8..<length l]"

text \<open>\<open>/^\s*\{\/\*.*\*\/\}\s*$/\<close>\<close>

definition is_comment :: "string \<Rightarrow> bool" where
  "is_comment l = (let t = line_trim l in 6 \<le> length t \<and> starts_with t ''{/*'' \<and> ends_with t ''*/}'')"

definition word_char :: "char \<Rightarrow> bool" where
  "word_char c \<longleftrightarrow> is_lower c \<or> is_upper c \<or> is_digit c \<or> byte c = 95"

definition capitalized :: "string \<Rightarrow> string" where
  "capitalized k = (case k of [] \<Rightarrow> [] | c # cs \<Rightarrow> (if is_lower c then char_of (byte c - 32) else c) # cs)"

text \<open>\<open>/^(\s*):::(\w+)(?:\[(.+?)\])?\s*$/\<close>: the indent and the title, by default the kind.\<close>

definition opens_directive :: "string \<Rightarrow> (string \<times> string) option" where
  "opens_directive l = (let indent = takeWhile blank_char l; t = drop (length indent) l; kind = takeWhile word_char (drop 3 t);
       rest = right_trim (drop (length kind) (drop 3 t)) in
     if \<not> starts_with t '':::'' \<or> kind = [] then None
     else if rest = [] then Some (indent, capitalized kind)
     else if starts_with rest ''['' \<and> last rest = CHR '']'' \<and> 2 < length rest then Some (indent, butlast (tl rest))
     else None)"

section \<open>The page\<close>

record page_lines =
  pl_fence :: bool
  pl_directive :: bool
  pl_indent :: string
  pl_out :: "string list"

definition quoted :: "string \<Rightarrow> string \<Rightarrow> string" where
  "quoted indent l = (let content = (if starts_with l indent then drop (length indent) l else l) in
     if line_trim content = [] then indent @ ''>'' else indent @ ''> '' @ content)"

definition put :: "string list \<Rightarrow> page_lines \<Rightarrow> page_lines" where
  "put ls s = s\<lparr>pl_out := pl_out s @ ls\<rparr>"

definition outside_fence :: "string \<Rightarrow> page_lines \<Rightarrow> page_lines" where
  "outside_fence l s = (if is_import l \<or> is_comment l then s
     else (case opens_directive l of
         Some (indent, title) \<Rightarrow> put [indent @ ''> **'' @ title @ ''**'', indent @ ''>''] (s\<lparr>pl_indent := indent, pl_directive := True\<rparr>)
       | None \<Rightarrow>
           if pl_directive s \<and> line_trim l = '':::'' then put [[]] (s\<lparr>pl_directive := False, pl_indent := []\<rparr>)
           else if pl_directive s then put [quoted (pl_indent s) l] s
           else put [l] s))"

definition page_line :: "page_lines \<Rightarrow> string \<Rightarrow> page_lines" where
  "page_line s l = (let fenced = (if is_fence l then \<not> pl_fence s else pl_fence s); s1 = s\<lparr>pl_fence := fenced\<rparr> in
     if pl_directive s \<and> (pl_fence s \<or> fenced) then put [quoted (pl_indent s) l] s1
     else if \<not> fenced then outside_fence l s1
     else put [l] s1)"

definition plain_lines :: "string list \<Rightarrow> string list" where
  "plain_lines ls = pl_out (foldl page_line \<lparr>pl_fence = False, pl_directive = False, pl_indent = [], pl_out = []\<rparr> ls)"

section \<open>What is kept\<close>

lemma starts_with_hd: "starts_with s (c # p) \<Longrightarrow> s \<noteq> [] \<and> hd s = c"
  by (cases s) simp_all

lemma fence_first: "is_fence l \<Longrightarrow> left_trim l \<noteq> [] \<and> hd (left_trim l) = CHR 0x60"
  unfolding is_fence_def by (rule starts_with_hd) 

lemma import_first: "is_import l \<Longrightarrow> hd (left_trim l) = CHR ''i''"
proof -
  assume "is_import l"
  then have "l \<noteq> [] \<and> hd l = CHR ''i''" unfolding is_import_def by (blast dest: starts_with_hd)
  then show ?thesis by (cases l) (simp_all add: left_trim_def blank_char_def byte_def)
qed

lemma right_trim_first: "right_trim l \<noteq> [] \<Longrightarrow> hd (right_trim l) = hd l"
proof -
  assume n: "right_trim l \<noteq> []"
  have "rev (takeWhile blank_char (rev l) @ dropWhile blank_char (rev l)) = l" by simp
  then have "right_trim l @ rev (takeWhile blank_char (rev l)) = l" by (simp only: rev_append right_trim_def)
  then show ?thesis using n by (metis hd_append2)
qed

lemma comment_first: "is_comment l \<Longrightarrow> hd (left_trim l) = CHR ''{''"
proof -
  assume "is_comment l"
  then have "line_trim l \<noteq> [] \<and> hd (line_trim l) = CHR ''{''" unfolding is_comment_def Let_def by (blast dest: starts_with_hd)
  then show ?thesis using right_trim_first [of "left_trim l"] by (simp add: line_trim_def)
qed

lemma directive_first: "opens_directive l = Some x \<Longrightarrow> hd (left_trim l) = CHR '':''"
proof -
  assume "opens_directive l = Some x"
  then have "starts_with (drop (length (takeWhile blank_char l)) l) '':::''"
    by (simp add: opens_directive_def Let_def split: if_splits)
  then show ?thesis using starts_with_hd by (simp add: left_trim_def dropWhile_eq_drop)
qed

lemma fence_is_no_other: "is_fence l \<Longrightarrow> \<not> is_import l \<and> \<not> is_comment l \<and> opens_directive l = None"
  using fence_first [of l] import_first [of l] comment_first [of l] directive_first [of l]
  by (cases "opens_directive l") auto

text \<open>A block of code: a line that opens it, lines that are no fences, and one that closes it.\<close>

definition code_block :: "string list \<Rightarrow> bool" where
  "code_block b \<longleftrightarrow> 2 \<le> length b \<and> is_fence (hd b) \<and> is_fence (last b) \<and> list_all (\<lambda>l. \<not> is_fence l) (butlast (tl b))"

lemma code_lines:
  assumes "list_all (\<lambda>l. \<not> is_fence l) ls" "pl_fence s"
  shows "foldl page_line s ls = put (map (if pl_directive s then quoted (pl_indent s) else (\<lambda>l. l)) ls) s"
  using assms
proof (induction ls arbitrary: s)
  case (Cons l ls)
  have "page_line s l = put [(if pl_directive s then quoted (pl_indent s) else (\<lambda>l. l)) l] s"
    using Cons.prems by (simp add: page_line_def Let_def put_def)
  then show ?case using Cons.IH [of "page_line s l"] Cons.prems by (simp add: put_def)
qed (simp add: put_def)

lemma fence_line:
  assumes "is_fence l"
  shows "page_line s l = (put [(if pl_directive s then quoted (pl_indent s) else (\<lambda>l. l)) l] s)\<lparr>pl_fence := \<not> pl_fence s\<rparr>"
  using assms fence_is_no_other [OF assms] by (simp add: page_line_def Let_def put_def outside_fence_def)

text \<open>
  Fenced code is not touched: outside a directive its lines come out as they are, whatever imports, comments or directives they look
  like, and inside a directive the whole block stays in the quote of the directive.
\<close>

theorem fenced_code_is_kept:
  assumes "code_block b" "\<not> pl_fence s"
  shows "foldl page_line s b = put (map (if pl_directive s then quoted (pl_indent s) else (\<lambda>l. l)) b) s"
proof -
  obtain l b1 where b1: "b = l # b1" using assms(1) by (cases b) (auto simp: code_block_def)
  then obtain ls m where b: "b = l # ls @ [m]" using assms(1) by (cases b1 rule: rev_cases) (auto simp: code_block_def)
  then have h: "is_fence l" "is_fence m" "list_all (\<lambda>l. \<not> is_fence l) ls" using assms(1) by (auto simp: code_block_def butlast_append)
  then show ?thesis using assms(2) by (simp add: b fence_line code_lines put_def)
qed

lemma fenced_code_is_kept_witness:
  "plain_lines [''```ts'', ''import x from 'y';'', ''```''] = [''```ts'', ''import x from 'y';'', ''```'']"
proof -
  have c: "code_block [''```ts'', ''import x from 'y';'', ''```'']"
    by (simp add: code_block_def is_fence_def left_trim_def blank_char_def byte_def)
  show ?thesis
    using fenced_code_is_kept [OF c, of "\<lparr>pl_fence = False, pl_directive = False, pl_indent = [], pl_out = []\<rparr>"]
    by (simp add: plain_lines_def put_def del: foldl.simps)
qed

section \<open>Addresses\<close>

record built_page =
  bp_name :: string
  bp_canonical :: "string option"
  bp_og_url :: "string option"
  bp_not_found :: bool

definition url_key :: "string \<Rightarrow> string" where
  "url_key url = (if url \<noteq> [] \<and> last url = CHR ''/'' then butlast url else url)"

definition page_failures :: "built_page \<Rightarrow> string list" where
  "page_failures p = (case bp_canonical p of
      None \<Rightarrow> [bp_name p @ '': no <link rel=\"canonical\">'']
    | Some c \<Rightarrow>
        (if ends_with c ''.html'' then [bp_name p @ '': canonical is '' @ c @ '', which redirects to the extensionless path''] else [])
        @ (if bp_og_url p \<noteq> Some c then [bp_name p @ '': og:url is '' @ nullish (bp_og_url p) ''absent'' @ '' but the canonical is '' @ c] else []))"

definition add_canonical :: "built_page \<Rightarrow> (string \<times> string) list \<Rightarrow> (string \<times> string) list" where
  "add_canonical p m = (case bp_canonical p of
      Some c \<Rightarrow> if bp_not_found p then m else AList.update (url_key c) (bp_name p) m
    | None \<Rightarrow> m)"

definition canonicals :: "built_page list \<Rightarrow> (string \<times> string) list" where
  "canonicals pages = fold add_canonical pages []"

definition canonical_failures :: "built_page list \<Rightarrow> string list \<Rightarrow> string list" where
  "canonical_failures pages locs = concat (map page_failures pages)
     @ map (\<lambda>(c, name). name @ '': canonical '' @ c @ '' is not in the sitemap'')
         (filter (\<lambda>(c, name). c \<notin> set (map url_key locs)) (canonicals pages))"

lemma add_canonical_keys:
  "fst ` set (add_canonical p m) = (if bp_canonical p \<noteq> None \<and> \<not> bp_not_found p then {url_key (the (bp_canonical p))} else {}) \<union> fst ` set m"
  by (auto simp: add_canonical_def dom_update [unfolded set_map] split: option.splits)

lemma canonicals_keys:
  "fst ` set (fold add_canonical pages m)
    = {url_key c |p c. p \<in> set pages \<and> bp_canonical p = Some c \<and> \<not> bp_not_found p} \<union> fst ` set m"
  by (induction pages arbitrary: m) (auto simp: add_canonical_keys, blast)

text \<open>
  The build passes exactly when every page names one address, the same for both readers and not a redirect, and every page but the one for
  missing pages is listed in the sitemap, a final slash aside.
\<close>

theorem build_passes_when_addresses_agree:
  "canonical_failures pages locs = [] = (\<forall>p \<in> set pages. \<exists>c. bp_canonical p = Some c \<and> bp_og_url p = Some c \<and> \<not> ends_with c ''.html''
     \<and> (bp_not_found p \<or> url_key c \<in> url_key ` set locs))"
proof -
  have f: "page_failures p = [] = (\<exists>c. bp_canonical p = Some c \<and> bp_og_url p = Some c \<and> \<not> ends_with c ''.html'')" for p
    by (auto simp: page_failures_def split: option.splits)
  have "filter (\<lambda>(c, name). c \<notin> set (map url_key locs)) (canonicals pages) = []
      = (fst ` set (canonicals pages) \<subseteq> url_key ` set locs)"
    by (auto simp: filter_empty_conv)
  also have "\<dots> = (\<forall>p \<in> set pages. \<forall>c. bp_canonical p = Some c \<longrightarrow> bp_not_found p \<or> url_key c \<in> url_key ` set locs)"
    by (auto simp: canonicals_def canonicals_keys)
  finally show ?thesis by (auto simp: canonical_failures_def f)
qed

lemma build_passes_when_addresses_agree_witness:
  "canonical_failures [\<lparr>bp_name = ''index.html'', bp_canonical = Some ''https://x/'', bp_og_url = Some ''https://x/'', bp_not_found = False\<rparr>] [''https://x''] = []"
  unfolding build_passes_when_addresses_agree by (simp add: ends_with_def url_key_def)

end
