(* ===== verification/Flame_Graph.thy ===== *)
theory Flame_Graph
  imports Trace_Tree Units
begin

text \<open>
  The flame graph of a trace (\<open>ui/host/src/dashboards/trace/detail.tsx\<close>): how deep a span is below its parents, which lane it is drawn in, the ticks
  of the axis and the legend. An instant that is no date does not arise.
\<close>

section \<open>Bounds and depth\<close>

definition span_end :: "trace_span \<Rightarrow> real" where
  "span_end sp = ts_start sp + ts_duration_ms sp"

text \<open>Where the spans start and how long they run, at least one millisecond.\<close>

definition spanBounds :: "trace_span list \<Rightarrow> real \<times> real" where
  "spanBounds ss = (if ss = [] then (0, 1)
     else (let start = Min (ts_start ` set ss) in (start, max (Max (span_end ` set ss) - start) 1)))"

text \<open>\<open>new Map\<close> of the spans by their ids: of two with one id, the later.\<close>

definition by_id :: "trace_span list \<Rightarrow> string \<Rightarrow> trace_span option" where
  "by_id ss p = find (\<lambda>sp. ts_id sp = p) (rev ss)"

lemma find_holds: "find P xs = Some q \<Longrightarrow> q \<in> set xs \<and> P q"
  by (induction xs) (auto split: if_splits)

lemma by_id_Some: "by_id ss p = Some q \<Longrightarrow> q \<in> set ss \<and> ts_id q = p"
  unfolding by_id_def by (drule find_holds) simp

function flame_depth :: "trace_span list \<Rightarrow> string list \<Rightarrow> trace_span \<Rightarrow> nat" where
  "flame_depth ss seen sp = (case ts_parent sp of
      None \<Rightarrow> 0
    | Some p \<Rightarrow> if p = [] \<or> ts_id sp \<in> set seen then 0
        else (case by_id ss p of None \<Rightarrow> 0 | Some parent \<Rightarrow> 1 + flame_depth ss (ts_id sp # seen) parent))"
  by pat_completeness auto

termination
proof (relation "measure (\<lambda>(ss, seen, sp). card (insert (ts_id sp) (ts_id ` set ss) - set seen))", goal_cases)
  case (2 ss seen sp p parent)
  then have "ts_id parent \<in> ts_id ` set ss" "ts_id sp \<notin> set seen" by (auto dest: by_id_Some)
  then have "insert (ts_id parent) (ts_id ` set ss) - set (ts_id sp # seen) \<subset> insert (ts_id sp) (ts_id ` set ss) - set seen" by auto
  then show ?case by (simp add: psubset_card_mono)
qed simp

declare flame_depth.simps [simp del]

section \<open>Lanes\<close>

record flame =
  fl_span :: trace_span
  fl_depth :: nat
  fl_start :: real
  fl_end :: real
  fl_left :: real
  fl_width :: real

definition flame_of :: "trace_span list \<Rightarrow> trace_span \<Rightarrow> flame" where
  "flame_of ss sp = (case spanBounds ss of (start, run) \<Rightarrow>
     \<lparr>fl_span = sp, fl_depth = flame_depth ss [] sp, fl_start = ts_start sp, fl_end = span_end sp,
      fl_left = (ts_start sp - start) / run * 100, fl_width = ts_duration_ms sp / run * 100\<rparr>)"

lemma flame_of_simps [simp]: "fl_span (flame_of ss sp) = sp" "fl_depth (flame_of ss sp) = flame_depth ss [] sp"
  by (simp_all add: flame_of_def case_prod_beta)

text \<open>By depth, then by start, then the longer first.\<close>

definition flame_le :: "flame \<Rightarrow> flame \<Rightarrow> bool" where
  "flame_le a b = (if fl_depth a \<noteq> fl_depth b then fl_depth a < fl_depth b
     else if fl_start a \<noteq> fl_start b then fl_start a < fl_start b
     else ts_duration_ms (fl_span b) \<le> ts_duration_ms (fl_span a))"

interpretation flame_le: comparator flame_le
  by unfold_locales (auto simp: flame_le_def split: if_splits)

definition flame_raw :: "trace_span list \<Rightarrow> flame list" where
  "flame_raw ss = sort_by flame_le (map (flame_of ss) ss)"

text \<open>A frame goes to the first lane that has ended, or to a new one; \<open>ends\<close> are the ends of the lanes.\<close>

definition free_lane :: "real list \<Rightarrow> flame \<Rightarrow> nat" where
  "free_lane ends f = nullish (find_index (\<lambda>e. e \<le> fl_start f) ends) (length ends)"

definition set_lane :: "real list \<Rightarrow> nat \<Rightarrow> real \<Rightarrow> real list" where
  "set_lane ends l e = (if l < length ends then ends[l := e] else ends @ [e])"

fun place_frames :: "real list \<Rightarrow> flame list \<Rightarrow> (flame \<times> nat) list \<times> real list" where
  "place_frames ends [] = ([], ends)"
| "place_frames ends (f # fs) = (let l = free_lane ends f; r = place_frames (set_lane ends l (fl_end f)) fs in ((f, l) # fst r, snd r))"

fun flame_rows :: "flame list \<Rightarrow> nat \<Rightarrow> nat list \<Rightarrow> (flame \<times> nat) list \<times> nat" where
  "flame_rows raw off [] = ([], off)"
| "flame_rows raw off (d # ds) = (let r = place_frames [] (filter (\<lambda>f. fl_depth f = d) raw); rest = flame_rows raw (off + max (length (snd r)) 1) ds in
     (map (\<lambda>p. (fst p, off + snd p)) (fst r) @ fst rest, snd rest))"

definition depths :: "flame list \<Rightarrow> nat list" where
  "depths raw = sort (uniq (map fl_depth raw))"

definition flameModel :: "trace_span list \<Rightarrow> (flame \<times> nat) list \<times> nat \<times> real" where
  "flameModel ss = (case flame_rows (flame_raw ss) 0 (depths (flame_raw ss)) of (frames, lanes) \<Rightarrow> (frames, lanes, snd (spanBounds ss)))"

section \<open>Axis, legend and labels\<close>

definition tickPositions :: "real \<Rightarrow> real \<Rightarrow> real list" where
  "tickPositions width run = (if width = 0 then [0, 25, 50, 75, 100]
     else (let label = real (Max (set (map (\<lambda>p. char_count (duration (Fin (run * p / 100)))) [25, 50, 75, 100]))) * (72 / 10) in
       if label * (15 / 10) + 12 \<le> width / 4 then [0, 25, 50, 75, 100]
       else if label * (15 / 10) + 12 \<le> width / 2 then [0, 50, 100]
       else [0, 100]))"

definition flame_services :: "trace_span list \<Rightarrow> string list" where
  "flame_services ss = uniq (map ts_service ss)"

text \<open>The services with a colour of their own, and those that share one.\<close>

definition flame_legend :: "trace_span list \<Rightarrow> string list \<times> string list" where
  "flame_legend ss = (let n = length (series_palette False) in (take n (flame_services ss), drop n (flame_services ss)))"

definition flame_badge :: "real option \<Rightarrow> real \<Rightarrow> string" where
  "flame_badge trace_ms run = (case trace_ms of
      Some t \<Rightarrow> if run < t then duration (Fin run) @ '' of '' @ duration (Fin t) @ '' shown'' else duration (Fin run)
    | None \<Rightarrow> duration (Fin run))"

definition flame_text :: "flame \<Rightarrow> string" where
  "flame_text f = (if fl_width f < 7 then [] else ts_operation (fl_span f))
     @ (if 12 \<le> fl_width f then '' '' @ middot @ '' '' @ duration (Fin (ts_duration_ms (fl_span f))) else [])"

section \<open>Lemmas\<close>

text \<open>In a list of placed frames, one that comes later in a lane starts when the earlier ones have ended.\<close>

definition lanes_free :: "(flame \<times> nat) list \<Rightarrow> bool" where
  "lanes_free = sorted_wrt (\<lambda>a b. snd a = snd b \<longrightarrow> fl_end (fst a) \<le> fl_start (fst b))"

lemma free_lane_spec: "free_lane ends f \<le> length ends \<and> (free_lane ends f < length ends \<longrightarrow> ends ! free_lane ends f \<le> fl_start f)"
proof (cases "find_index (\<lambda>e. e \<le> fl_start f) ends")
  case (Some i)
  then show ?thesis using find_index_Some [OF Some] by (simp add: free_lane_def)
qed (simp add: free_lane_def)

lemma set_lane_nth: "l \<le> length ends \<Longrightarrow> set_lane ends l e ! l = e"
  by (cases "l = length ends") (simp_all add: set_lane_def nth_append)

lemma set_lane_other: "k < length ends \<Longrightarrow> k \<noteq> l \<Longrightarrow> set_lane ends l e ! k = ends ! k"
  by (simp add: set_lane_def nth_append)

lemma set_lane_length: "l \<le> length ends \<Longrightarrow> l < length (set_lane ends l e) \<and> length ends \<le> length (set_lane ends l e)"
  by (simp add: set_lane_def)

lemma place_frames_fst: "map fst (fst (place_frames ends fs)) = fs"
  by (induction ends fs rule: place_frames.induct) (simp_all add: Let_def)

text \<open>\<open>m\<close> is the start of the frame placed last: every frame in a lane ended by the end of the lane or by then.\<close>

definition placed_ok :: "real list \<Rightarrow> real \<Rightarrow> (flame \<times> nat) list \<Rightarrow> bool" where
  "placed_ok ends m ps \<longleftrightarrow> lanes_free ps \<and> (\<forall>(g, k) \<in> set ps. k < length ends \<and> (fl_end g \<le> ends ! k \<or> fl_end g \<le> m))"

lemma place_one_ok:
  assumes "placed_ok ends m ps" "m \<le> fl_start f" "l = free_lane ends f"
  shows "placed_ok (set_lane ends l (fl_end f)) (fl_start f) (ps @ [(f, l)])"
proof -
  have l: "l \<le> length ends" "l < length ends \<Longrightarrow> ends ! l \<le> fl_start f" using free_lane_spec [of ends f] assms(3) by auto
  have in_lane: "fl_end g \<le> fl_start f" if "(g, l) \<in> set ps" for g
    using that assms(1,2) l(2) by (force simp: placed_ok_def)
  have "lanes_free (ps @ [(f, l)])" using assms(1) in_lane by (auto simp: placed_ok_def lanes_free_def sorted_wrt_append)
  moreover have "k < length (set_lane ends l (fl_end f)) \<and> (fl_end g \<le> set_lane ends l (fl_end f) ! k \<or> fl_end g \<le> fl_start f)"
    if "(g, k) \<in> set ps" for g k
  proof (cases "k = l")
    case False
    then have "k < length ends" "fl_end g \<le> ends ! k \<or> fl_end g \<le> m" using that assms(1) by (auto simp: placed_ok_def)
    then show ?thesis using False set_lane_other [of k ends l "fl_end f"] set_lane_length [OF l(1), of "fl_end f"] assms(2) by auto
  qed (use that in_lane set_lane_length [OF l(1)] in auto)
  ultimately show ?thesis using set_lane_nth [OF l(1)] set_lane_length [OF l(1)] by (auto simp: placed_ok_def)
qed

lemma place_frames_ok:
  assumes "placed_ok ends m ps" "sorted_wrt (\<lambda>a b. fl_start a \<le> fl_start b) fs" "\<And>f. f \<in> set fs \<Longrightarrow> m \<le> fl_start f"
  shows "\<exists>m'. placed_ok (snd (place_frames ends fs)) m' (ps @ fst (place_frames ends fs))"
  using assms
proof (induction ends fs arbitrary: ps m rule: place_frames.induct)
  case (2 ends f fs)
  have "placed_ok (set_lane ends (free_lane ends f) (fl_end f)) (fl_start f) (ps @ [(f, free_lane ends f)])"
    using place_one_ok [OF 2(2) 2(4) [of f]] by simp
  then show ?case using 2(1) [of "free_lane ends f" "fl_start f" "ps @ [(f, free_lane ends f)]"] 2(3) by (simp add: Let_def)
qed auto

lemma one_depth_ok:
  assumes "sorted_wrt (\<lambda>a b. fl_start a \<le> fl_start b) fs" "r = place_frames [] fs"
  shows "lanes_free (fst r) \<and> (\<forall>(g, k) \<in> set (fst r). k < length (snd r))"
proof -
  have "\<exists>m. \<forall>f \<in> set fs. m \<le> fl_start f"
    using assms(1) by (cases fs) (auto intro: exI [of _ "fl_start (hd fs)"])
  then obtain m where m: "\<And>f. f \<in> set fs \<Longrightarrow> m \<le> fl_start f" by blast
  have "placed_ok [] m []" by (simp add: placed_ok_def lanes_free_def)
  from place_frames_ok [OF this assms(1) m] show ?thesis by (auto simp: placed_ok_def assms(2))
qed

lemma raw_depth_sorted: "sorted_wrt (\<lambda>a b. fl_start a \<le> fl_start b) (filter (\<lambda>f. fl_depth f = d) (flame_raw ss))"
proof -
  have "sorted_wrt flame_le (filter (\<lambda>f. fl_depth f = d) (flame_raw ss))"
    unfolding flame_raw_def by (intro sorted_wrt_filter flame_le.sorted_sort_by)
  then show ?thesis by (rule sorted_wrt_mono_rel [rotated]) (auto simp: flame_le_def split: if_splits)
qed

text \<open>The rows of the depths \<open>ds\<close>, from the lane \<open>off\<close> on.\<close>

definition rows_ok :: "nat \<Rightarrow> nat list \<Rightarrow> (flame \<times> nat) list \<times> nat \<Rightarrow> bool" where
  "rows_ok off ds r \<longleftrightarrow> lanes_free (fst r) \<and> off \<le> snd r
     \<and> (\<forall>p \<in> set (fst r). off \<le> snd p \<and> snd p < snd r \<and> fl_depth (fst p) \<in> set ds)
     \<and> (\<forall>p \<in> set (fst r). \<forall>q \<in> set (fst r). fl_depth (fst p) < fl_depth (fst q) \<longrightarrow> snd p < snd q)"

lemma flame_rows_ok:
  assumes "sorted_wrt (<) ds" "\<And>d. sorted_wrt (\<lambda>a b. fl_start a \<le> fl_start b) (filter (\<lambda>f. fl_depth f = d) raw)"
  shows "rows_ok off ds (flame_rows raw off ds)"
  using assms(1)
proof (induction ds arbitrary: off)
  case (Cons d ds)
  define r where "r = place_frames [] (filter (\<lambda>f. fl_depth f = d) raw)"
  define n where "n = max (length (snd r)) 1"
  define rest where "rest = flame_rows raw (off + n) ds"
  have one: "lanes_free (fst r)" "\<And>g k. (g, k) \<in> set (fst r) \<Longrightarrow> k < n"
    using one_depth_ok [OF assms(2) r_def] by (auto simp: n_def)
  have dep: "fl_depth g = d" if "(g, k) \<in> set (fst r)" for g k
  proof -
    have "g \<in> set (map fst (fst r))" using that by force
    then show ?thesis by (simp only: r_def place_frames_fst) simp
  qed
  have ih: "rows_ok (off + n) ds rest" unfolding rest_def using Cons by simp
  have eq: "flame_rows raw off (d # ds) = (map (\<lambda>p. (fst p, off + snd p)) (fst r) @ fst rest, snd rest)"
    by (simp add: Let_def r_def n_def rest_def)
  have mem: "fl_depth (fst p) = d \<and> off \<le> snd p \<and> snd p < off + n \<or> p \<in> set (fst rest) \<and> d < fl_depth (fst p) \<and> off + n \<le> snd p \<and> snd p < snd rest \<and> fl_depth (fst p) \<in> set ds"
    if "p \<in> set (map (\<lambda>p. (fst p, off + snd p)) (fst r) @ fst rest)" for p
    using that dep one(2) ih Cons.prems by (auto simp: rows_ok_def)
  have "lanes_free (map (\<lambda>p. (fst p, off + snd p)) (fst r))" using one(1) by (simp add: lanes_free_def sorted_wrt_map)
  moreover have "snd p \<noteq> snd q" if "p \<in> set (map (\<lambda>p. (fst p, off + snd p)) (fst r))" "q \<in> set (fst rest)" for p q
    using that one(2) ih by (fastforce simp: rows_ok_def)
  ultimately have free: "lanes_free (map (\<lambda>p. (fst p, off + snd p)) (fst r) @ fst rest)"
    using ih by (auto simp: lanes_free_def rows_ok_def sorted_wrt_append)
  have order: "snd p < snd q" if "p \<in> set (fst rest)" "q \<in> set (fst rest)" "fl_depth (fst p) < fl_depth (fst q)" for p q
    using that ih by (simp add: rows_ok_def)
  have top: "off + n \<le> snd rest" using ih by (simp add: rows_ok_def)
  let ?all = "map (\<lambda>p. (fst p, off + snd p)) (fst r) @ fst rest"
  have "off \<le> snd p \<and> snd p < snd rest \<and> fl_depth (fst p) \<in> set (d # ds)" if "p \<in> set ?all" for p
    using mem [OF that] top by auto
  moreover have "snd p < snd q" if "p \<in> set ?all" "q \<in> set ?all" "fl_depth (fst p) < fl_depth (fst q)" for p q
    using mem [OF that(1)] mem [OF that(2)] order [of p q] that(3) by auto
  ultimately show ?case using free top unfolding eq rows_ok_def by simp
qed (simp add: rows_ok_def lanes_free_def)

lemma flame_rows_fst: "map fst (fst (flame_rows raw off ds)) = concat (map (\<lambda>d. filter (\<lambda>f. fl_depth f = d) raw) ds)"
proof (induction ds arbitrary: off)
  case (Cons d ds)
  then show ?case by (simp add: Let_def place_frames_fst comp_def)
qed simp

lemma mset_by_depth: "distinct ds \<Longrightarrow> mset (concat (map (\<lambda>d. filter (\<lambda>f. fl_depth f = d) raw) ds)) = filter_mset (\<lambda>f. fl_depth f \<in> set ds) (mset raw)"
proof (induction ds)
  case (Cons d ds)
  have "filter_mset (\<lambda>f. fl_depth f \<in> set (d # ds)) (mset raw) = filter_mset (\<lambda>f. fl_depth f = d) (mset raw) + filter_mset (\<lambda>f. fl_depth f \<in> set ds) (mset raw)"
    using Cons.prems by (induction raw) auto
  then show ?case using Cons by simp
qed simp

lemma depths_sorted: "sorted_wrt (<) (depths raw)" "set (depths raw) = fl_depth ` set raw"
  using distinct_uniq [of "map fl_depth raw"] by (simp_all add: depths_def strict_sorted_iff)

text \<open>
  Property C6. The lanes of a flame graph keep the hierarchy without overlap: every span is drawn once, in a lane of the graph, one that comes later
  in a lane starts when the earlier ones have ended, and a deeper span is drawn below every span that is less deep.
\<close>

theorem flame_lanes_do_not_overlap:
  "mset (map (fl_span \<circ> fst) (fst (flameModel ss))) = mset ss \<and> lanes_free (fst (flameModel ss))
   \<and> list_all (\<lambda>(f, l). l < fst (snd (flameModel ss)) \<and> fl_depth f = flame_depth ss [] (fl_span f)) (fst (flameModel ss))
   \<and> list_all (\<lambda>(f, l). list_all (\<lambda>(g, k). \<not> (fl_depth f < fl_depth g \<and> k \<le> l)) (fst (flameModel ss))) (fst (flameModel ss))"
proof -
  let ?raw = "flame_raw ss"
  let ?r = "flame_rows ?raw 0 (depths ?raw)"
  have m: "fst (flameModel ss) = fst ?r" "fst (snd (flameModel ss)) = snd ?r" by (simp_all add: flameModel_def case_prod_beta)
  have ok: "rows_ok 0 (depths ?raw) ?r" by (rule flame_rows_ok [OF depths_sorted(1) raw_depth_sorted])
  have "distinct (depths ?raw)" using depths_sorted(1) strict_sorted_iff by blast
  then have ms: "mset (map fst (fst ?r)) = mset ?raw"
    by (simp add: flame_rows_fst mset_by_depth depths_sorted(2) del: mset_map) (simp add: filter_mset_eq_conv)
  have raw: "mset (map fl_span ?raw) = mset ss" "\<And>f. f \<in> set ?raw \<Longrightarrow> fl_depth f = flame_depth ss [] (fl_span f)"
    by (auto simp: flame_raw_def multiset.map_comp comp_def)
  have "mset (map (fl_span \<circ> fst) (fst ?r)) = mset (map fl_span ?raw)" using ms by (metis map_map mset_map)
  then have "mset (map (fl_span \<circ> fst) (fst ?r)) = mset ss" using raw(1) by simp
  moreover have "fl_depth f = flame_depth ss [] (fl_span f)" if "(f, l) \<in> set (fst ?r)" for f l
    using that ms raw(2) by (metis fst_conv image_eqI list.set_map mset_eq_setD)
  ultimately show ?thesis using ok unfolding m rows_ok_def list_all_iff by fastforce
qed

text \<open>A child is one deeper than its parent, and so below it, unless the parents go in a circle.\<close>

lemma depth_of_child:
  assumes "ts_parent sp = Some p" "p \<noteq> []" "by_id ss p = Some parent"
  shows "flame_depth ss [] sp = 1 + flame_depth ss [ts_id sp] parent"
  using assms by (subst flame_depth.simps) simp

lemma tickPositions_sorted: "sorted_wrt (<) (tickPositions width run) \<and> hd (tickPositions width run) = 0 \<and> last (tickPositions width run) = 100"
  by (simp add: tickPositions_def Let_def)

lemma legend_is_all_services: "fst (flame_legend ss) @ snd (flame_legend ss) = flame_services ss"
  by (simp add: flame_legend_def Let_def)

end
