(* ===== verification/Fragment_View.thy ===== *)
theory Fragment_View
  imports Panel_Fragment
begin

text \<open>
  The view of a fragment in a chat or an embedded window (\<open>ui/host/src/dashboards/fragment-view.tsx\<close>): a choice of a variable, a time or a brush asks again,
  an answer counts only for the latest question, and one panel may fill the screen. A fragment is of a type \<open>'f\<close>; \<open>vars_of\<close> and
  \<open>time_of\<close> read the choice it was made with. An answer is the fragment that \<open>panelFragment\<close> accepts or the message it is refused with. The
  brush and the options of the variables have their own models.
\<close>

section \<open>State\<close>

text \<open>
  \<open>fv_asked\<close> holds the open requests with the choice they ask for, and \<open>fv_shown_for\<close> the choice the shown fragment was made with; the code
  keeps the first in its promises and the second nowhere.
\<close>

record ('f, 'v, 't) fragment_view =
  fv_shown :: 'f
  fv_vars :: 'v
  fv_time :: 't
  fv_pending :: bool
  fv_error :: "string option"
  fv_stale :: "real option"
  fv_updated :: real
  fv_generation :: nat
  fv_target :: "drill_target option"
  fv_view :: "string option"
  fv_mode :: "string option"
  fv_asked :: "(nat \<times> 'v \<times> 't) list"
  fv_shown_for :: "'v \<times> 't"

datatype ('f, 'v, 't) fragment_event = NewFragment 'f real | Chosen 'v 't | Answered nat "string + 'f" real | Unmounted
  | PointPicked drill_target 'v bool | Drilled "drill_target option"
  | ModeAnswered string "unit + bool" | ViewClosed | CloseFailed | HostMode "string option"

definition fragment_query :: "'v \<Rightarrow> 't \<Rightarrow> ('f, 'v, 't) fragment_view \<Rightarrow> ('f, 'v, 't) fragment_view" where
  "fragment_query v t s = (let active = Suc (fv_generation s) in
     s\<lparr>fv_generation := active, fv_vars := v, fv_time := t, fv_target := None, fv_pending := True, fv_error := None,
       fv_stale := Some (fv_updated s), fv_asked := (active, v, t) # fv_asked s\<rparr>)"

definition fragment_answer :: "nat \<Rightarrow> string + 'f \<Rightarrow> real \<Rightarrow> ('f, 'v, 't) fragment_view \<Rightarrow> ('f, 'v, 't) fragment_view" where
  "fragment_answer n r now_ms s = (case map_of (fv_asked s) n of
      None \<Rightarrow> s
    | Some choice \<Rightarrow> (let s1 = s\<lparr>fv_asked := filter (\<lambda>q. fst q \<noteq> n) (fv_asked s)\<rparr> in
        if n \<noteq> fv_generation s then s1
        else (case r of
            Inr f \<Rightarrow> s1\<lparr>fv_shown := f, fv_updated := now_ms, fv_stale := None, fv_pending := False, fv_shown_for := choice\<rparr>
          | Inl msg \<Rightarrow> s1\<lparr>fv_error := Some msg, fv_pending := False\<rparr>)))"

definition new_fragment :: "('f \<Rightarrow> 'v) \<Rightarrow> ('f \<Rightarrow> 't) \<Rightarrow> 'f \<Rightarrow> real \<Rightarrow> ('f, 'v, 't) fragment_view \<Rightarrow> ('f, 'v, 't) fragment_view" where
  "new_fragment vars_of time_of f now_ms s =
     s\<lparr>fv_generation := Suc (fv_generation s), fv_shown := f, fv_vars := vars_of f, fv_time := time_of f, fv_target := None, fv_view := None,
       fv_pending := False, fv_error := None, fv_stale := None, fv_updated := now_ms, fv_shown_for := (vars_of f, time_of f)\<rparr>"

text \<open>\<open>PointPicked d v changed\<close>: a click gave the target \<open>d\<close> and, when \<open>changed\<close>, other variables. The drawer closes with a question and opens with the target.\<close>

definition fragment_step :: "('f \<Rightarrow> 'v) \<Rightarrow> ('f \<Rightarrow> 't) \<Rightarrow> ('f, 'v, 't) fragment_view \<Rightarrow> ('f, 'v, 't) fragment_event \<Rightarrow> ('f, 'v, 't) fragment_view" where
  "fragment_step vars_of time_of s e = (case e of
      NewFragment f now_ms \<Rightarrow> new_fragment vars_of time_of f now_ms s
    | Chosen v t \<Rightarrow> fragment_query v t s
    | Answered n r now_ms \<Rightarrow> fragment_answer n r now_ms s
    | Unmounted \<Rightarrow> s\<lparr>fv_generation := Suc (fv_generation s)\<rparr>
    | PointPicked d v changed \<Rightarrow> (if changed then fragment_query v (fv_time s) s else s)\<lparr>fv_target := Some d\<rparr>
    | Drilled d \<Rightarrow> s\<lparr>fv_target := d\<rparr>
    | ModeAnswered pid r \<Rightarrow> (case r of
          Inr granted \<Rightarrow> if granted then s\<lparr>fv_view := Some pid\<rparr> else s
        | Inl _ \<Rightarrow> s\<lparr>fv_error := Some ''Full-screen could not be opened. Please try again.''\<rparr>)
    | ViewClosed \<Rightarrow> s\<lparr>fv_view := None\<rparr>
    | CloseFailed \<Rightarrow> s\<lparr>fv_error := Some ''Full-screen could not be closed. Please try again.''\<rparr>
    | HostMode m \<Rightarrow> s\<lparr>fv_view := (if fv_mode s = Some ''fullscreen'' \<and> m = Some ''inline'' then None else fv_view s), fv_mode := m\<rparr>)"

definition open_fragment :: "('f \<Rightarrow> 'v) \<Rightarrow> ('f \<Rightarrow> 't) \<Rightarrow> 'f \<Rightarrow> string option \<Rightarrow> real \<Rightarrow> ('f, 'v, 't) fragment_view" where
  "open_fragment vars_of time_of f mode now_ms = \<lparr>fv_shown = f, fv_vars = vars_of f, fv_time = time_of f, fv_pending = False, fv_error = None,
     fv_stale = None, fv_updated = now_ms, fv_generation = 0, fv_target = None, fv_view = None, fv_mode = mode, fv_asked = [],
     fv_shown_for = (vars_of f, time_of f)\<rparr>"

text \<open>A variable set or cleared.\<close>

definition chosen_vars :: "string \<Rightarrow> var_value option \<Rightarrow> (string, var_value) omap \<Rightarrow> (string, var_value) omap" where
  "chosen_vars name value vars = (case value of None \<Rightarrow> AList.delete name vars | Some v \<Rightarrow> AList.update name v vars)"

section \<open>What is on the screen\<close>

definition host_focused :: "('f, 'v, 't) fragment_view \<Rightarrow> bool" where
  "host_focused s \<longleftrightarrow> fv_mode s = Some ''fullscreen'' \<and> (case fv_view s of Some pid \<Rightarrow> pid \<noteq> [] | None \<Rightarrow> False)"

text \<open>The panels shown: the list, or the one that fills the host's window; with no mode of the host's, the one panel has a window of its own over the list.\<close>

definition shown_panels :: "('f \<Rightarrow> string list) \<Rightarrow> ('f, 'v, 't) fragment_view \<Rightarrow> string list" where
  "shown_panels panel_ids s = (if \<not> host_focused s then panel_ids (fv_shown s)
     else take 1 (filter (\<lambda>pid. Some pid = fv_view s) (panel_ids (fv_shown s))))"

section \<open>What holds\<close>

definition fragment_ok :: "('f, 'v, 't) fragment_view \<Rightarrow> bool" where
  "fragment_ok s \<longleftrightarrow> (\<forall>(n, c) \<in> set (fv_asked s). n \<le> fv_generation s \<and> (n = fv_generation s \<longrightarrow> c = (fv_vars s, fv_time s)))
     \<and> (fv_stale s = None \<longrightarrow> fv_shown_for s = (fv_vars s, fv_time s))
     \<and> (fv_pending s \<longrightarrow> fv_stale s \<noteq> None)"

lemma query_ok: "fragment_ok s \<Longrightarrow> fragment_ok (fragment_query v t s)"
  by (fastforce simp: fragment_ok_def fragment_query_def Let_def)

lemma answer_ok:
  assumes "fragment_ok s"
  shows "fragment_ok (fragment_answer n r now_ms s)"
proof (cases "map_of (fv_asked s) n")
  case (Some c)
  have "c = (fv_vars s, fv_time s)" if "n = fv_generation s"
    using assms that map_of_SomeD [OF Some] by (auto simp: fragment_ok_def)
  then show ?thesis using assms Some by (cases r) (auto simp: fragment_answer_def fragment_ok_def Let_def)
qed (simp add: fragment_answer_def assms)

lemma fragment_ok_frame [simp]:
  "fragment_ok (s\<lparr>fv_target := d\<rparr>) = fragment_ok s" "fragment_ok (s\<lparr>fv_error := m\<rparr>) = fragment_ok s" "fragment_ok (s\<lparr>fv_view := w\<rparr>) = fragment_ok s"
  "fragment_ok (s\<lparr>fv_mode := m\<rparr>) = fragment_ok s" "fragment_ok (s\<lparr>fv_view := w, fv_mode := m\<rparr>) = fragment_ok s"
  by (simp_all add: fragment_ok_def)

lemma new_fragment_ok: "fragment_ok s \<Longrightarrow> fragment_ok (new_fragment vars_of time_of f now_ms s)"
  by (fastforce simp: new_fragment_def fragment_ok_def)

lemma unmounted_ok: "fragment_ok s \<Longrightarrow> fragment_ok (s\<lparr>fv_generation := Suc (fv_generation s)\<rparr>)"
  by (fastforce simp: fragment_ok_def)

lemma step_ok: "fragment_ok s \<Longrightarrow> fragment_ok (fragment_step vars_of time_of s e)"
  by (cases e) (simp_all add: fragment_step_def query_ok answer_ok new_fragment_ok unmounted_ok split: sum.split)

text \<open>
  Property C14. What is shown as up to date is what was chosen: however answers and new fragments come, a view without a stale mark shows a fragment made for the
  variables and the time it names, and while an answer is awaited the mark is there.
\<close>

theorem fresh_fragments_are_for_the_choice:
  assumes "s = foldl (fragment_step vars_of time_of) (open_fragment vars_of time_of f mode t0) es"
  shows "(fv_stale s = None \<longrightarrow> fv_shown_for s = (fv_vars s, fv_time s)) \<and> (fv_pending s \<longrightarrow> fv_stale s \<noteq> None)"
proof -
  have "fragment_ok (foldl (fragment_step vars_of time_of) u es)" if "fragment_ok u" for u :: "('a, 'b, 'c) fragment_view"
    using that by (induction es arbitrary: u) (simp_all add: step_ok)
  moreover have "fragment_ok (open_fragment vars_of time_of f mode t0)" by (simp add: fragment_ok_def open_fragment_def)
  ultimately have "fragment_ok s" by (simp add: assms)
  then show ?thesis by (simp add: fragment_ok_def)
qed

definition demo_view :: "(nat, nat, unit) fragment_view" where
  "demo_view = foldl (fragment_step (\<lambda>f. f) (\<lambda>f. ())) (open_fragment (\<lambda>f. f) (\<lambda>f. ()) 0 None 1) [Chosen 1 (), Chosen 2 (), Answered 2 (Inr 20) 5, Answered 1 (Inr 10) 6]"

lemma fresh_fragments_are_for_the_choice_witness:
  "fv_shown_for demo_view = (2, ()) \<and> fv_shown demo_view = 20"
proof -
  have "fv_stale demo_view = None" "fv_vars demo_view = 2" "fv_shown demo_view = 20"
    by (simp_all add: demo_view_def fragment_step_def fragment_query_def fragment_answer_def open_fragment_def Let_def)
  then show ?thesis using fresh_fragments_are_for_the_choice [OF demo_view_def] by simp
qed

text \<open>
  A panel asked to fill the screen while the fragment was replaced is looked for in the new one: when it is not there, the list is hidden and nothing is
  shown.
\<close>

lemma a_late_full_screen_shows_nothing:
  assumes "fv_mode s = Some ''fullscreen''" "pid \<noteq> []" "pid \<notin> set (panel_ids f)"
  shows "shown_panels panel_ids (fragment_step vars_of time_of (fragment_step vars_of time_of s (NewFragment f t)) (ModeAnswered pid (Inr True))) = []"
  using assms by (auto simp: shown_panels_def host_focused_def fragment_step_def new_fragment_def filter_empty_conv)

lemma back_to_inline_shows_all:
  "fv_mode s = Some ''fullscreen'' \<Longrightarrow> shown_panels panel_ids (fragment_step vars_of time_of s (HostMode (Some ''inline''))) = panel_ids (fv_shown s)"
  by (simp add: shown_panels_def host_focused_def fragment_step_def)

end
