(* ===== verification/Spec2Isabelle.thy ===== *)
theory Spec2Isabelle
  imports Rollups Variables Panel_Snapshot Trace_Tree Annotations Analysis Dashboard_Search App_Context Chat_Scroll Sessions
    Map_Layout Clip_Timeline Eval_Score Explore_Builder Explore_Search Eval_Judge Mcp_Frame Search_Page Save_Dialog Chat_View Panel_Editor
    Dashboard_History Auth_Gate Dashboard_Page Rail Alert_Rules Chat_Session Settings_Page Panel_Grid Eval_Runner Throughput_Replay Benchmark_Report
    Chart_Canvas Row_Text Stat_Panel Table_Panel Panel_Card Fanql_Editor Map_View Site_Pages Flame_Graph Fragment_View
begin

text \<open>
  Fanout is a telemetry database with a console. This development is about its TypeScript and
  JavaScript: the panels of a dashboard (\<open>ui/panels\<close>), the console around them (\<open>ui/host/src\<close>), the
  evaluation of the dashboards an agent builds (\<open>scripts/dashboard-eval\<close>) and the site's clips,
  benchmark, Markdown pages and address check (\<open>site\<close>). The Go server behind them is not modelled.

  The parts and how they meet. The server answers a panel's query with a columnar frame. The frame
  is fetched by the streaming client and kept across refreshes (Panel_Queries, Panel_Snapshot), read
  as series, categories, rows or one number (Frames), and compiled to a chart: values and axes
  (Units), status (Thresholds), the shown series and escaped names (Series_Groups), colours
  (Tokens), labels and end labels (Labels, Chart_Labels), options (Chart_Options, Analysis),
  annotations (Annotations), the service map (Rollups, Map_Layout) and the trace waterfall
  (Trace_Tree) and flame graph (Flame_Graph). A click becomes a drill target (Drill), the choices of the variables decide what is
  queried (Variables), and what a reader looks at is in the address (Search_Encoding,
  Dashboard_Search). In Explore the query is edited as rows (Explore_Where, Explore_Builder) and
  kept in its own address (Explore_Search). In the chat, tool results are read as saves of a
  dashboard (Tool_Results), folded to the receipt of a turn (Receipts, App_Context), and their
  panels shown in cards and embedded views (Panel_Fragment, Fragment_View, Sessions) while the pane follows the
  question (Chat_Scroll).

  The pages hold what several of these share over time. Auth_Gate decides what a browser sees before
  and after signing in. Dashboard_Page follows the address, the brush and the refreshes of a
  dashboard, Panel_Grid and Panel_Editor edit it, Dashboard_History shows and restores its versions,
  and Chart_Canvas, Chart_Keyboard, Stat_Panel, Table_Panel, Row_Text, Panel_Card and Map_View are
  what a panel does with a reader: charts joined in groups, points chosen by keys, runs of a line,
  pages of rows, marks in a text, the card's menu and tooltip, the zoom of a service map. Explore is
  Explore_Page with its runs (Run_Control), Fanql_Editor is the text field of a query, Search_Page
  the Logs and Traces pages and Save_Dialog what is saved from them. Chat_Session sends and loads
  chats, Chat_View shows them, Rail lists them. Mcp_Connection is the one connection that embedded
  views share and Mcp_Frame the frame they run in. Alert_Rules and Settings_Page are the forms of
  those pages, with the answers that come late.

  The evaluation scores the saved dashboards (Eval_Score) and asks two judges about them
  (Eval_Judge), whose requests are entered in a ledger with a cap (Cost_Ledger). Eval_Inputs checks
  its command line and files, Eval_Stream reads the agent's event stream, and Eval_Runner runs the
  prompts one after the other. On the site, Clip_Timeline cuts the waits out of a recorded video,
  Benchmark_Report computes the rates of the benchmark, Throughput_Replay plays them back, and
  Site_Pages turns pages into Markdown and checks their addresses.

  Conventions. A theory is named for what it models and its text names the files; the definitions
  have the code's names, and those that stand for a part of a function (the body of a loop, a
  branch) are named for what they compute. Records are the code's types with optional properties
  as options. Numbers are exact reals, with NaN and the infinities as \<open>num\<close> where the code can meet
  them; floating-point rounding is outside the model. Strings are the bytes of their UTF-8 text and
  Js_Text gives their code points and UTF-16 lengths. A JavaScript \<open>Map\<close>, a \<open>Set\<close> and an object are
  association lists in insertion order (the locale \<open>ordered_map\<close> of Prelude states the laws and is
  interpreted on them). Thrown errors are \<open>Inl\<close> of a text, and what a function does to its state is
  the state it returns. Events of a hook or a page are step functions or inductive step relations,
  with invariants by induction over the runs.

  Parameters stand for what the code calls and does not contain: \<open>sn\<close>, \<open>pn\<close> and \<open>np\<close> print and read
  numbers, \<open>js\<close> and \<open>jp\<close> print and read JSON, \<open>dp\<close> is \<open>Date.parse\<close>, \<open>lc\<close> the locale's order of
  texts; the text measures of a canvas, the layout of a browser, Dagre's placement, the network and
  the URL parser are arguments too. Theorems that need a law of one (that JSON text reads back)
  have it as a premise, and their witnesses give an instance.

  What is shown, by component: what every operation keeps (the snapshot, the receipts, the
  waterfall, the ledger, the anchored question, the shared connection, the zoom to go back to); that what
  comes late is dropped (loads of a chat, layouts, suggestions, tests of an alert, settings read
  before a rotation) and what a reader chose or typed is not undone by a refresh (the chosen point,
  the query text, the draft of a panel); that optimised or staged code equals a plain
  reading (the gauge against the status of a value, the streamed results against their lines, the
  receipt cache against no cache, the changed panels against a longest common subsequence); that
  what is stored in two forms is one list (the filter rows and their draft, the receipt of a turn
  against the panels before and after); round trips of the address, the filters and the durations;
  bounds of axes, labels, cards and bars; which errors are raised and what they leave; and that the
  loops end.

  Bounds. Loops over data are structural or have a measure. The code's own loops with a budget are
  kept: the axis of Units widens its step at most 64 times, which \<open>widen_budget\<close> shows to be enough;
  the byte scale has its four units; a judge has three retries and one request without the
  temperature (\<open>asks_left\<close>), so at most five requests. No fuel is introduced by the model.

  Not modelled. Rendered markup, styling and the DOM events of the views except for the state and the
  functions named above; the application shell with its router and the health view; the component
  tags and patterns of HTML that the site's checks read, its build and its other checks; the plain
  request wrappers; locale and time-zone dependent dates, which are parameters; the theme object
  given to the component library and the editor library; the story catalog, the mock servers and the
  browser tests, which drive the program and are no part of it; generated code and data (the route
  tree, the recorded benchmark, built assets); the processes and files behind the command lines of
  the evaluation and of the repository's scripts. The Go server is another language.
\<close>

end
